(* ===== verification/Prelude.thy ===== *)
theory Prelude
  imports
    Main
    "HOL-Library.Word"
    "HOL-Library.Char_ord"
    "HOL-Library.List_Lexorder"
begin

text \<open>
  What every component shares: results and early returns, the checked and saturating
  arithmetic of the machine integers, strings as UTF-8 bytes with the \<open>str\<close> methods the
  code calls, the cardinality of ordered maps, and the invariant interface that the state
  machines of the components instantiate.

  \<^item> A Rust \<open>String\<close> or \<open>&str\<close> is the list of its UTF-8 bytes (\<open>string\<close>, one \<open>char\<close> per
    byte), so \<open>len\<close>, \<open>==\<close>, \<open>Ord\<close> and \<open>as_bytes\<close> are the list operations; \<open>chars\<close> decodes it.
  \<^item> \<open>[u8; n]\<close> and \<open>Vec<u8>\<close> are byte lists of the same type.
  \<^item> \<open>u8\<close> to \<open>u64\<close> fields that the code does arithmetic on are words; counts and lengths
    (\<open>usize\<close>) are natural numbers.
  \<^item> \<open>Result<T, E>\<close> is \<open>E + T\<close>; the \<open>?\<close> operator is \<open>try_then\<close>.
\<close>

named_theorems result_simps "equations for results and early returns"
named_theorems arith_simps "checked and saturating machine arithmetic"

type_synonym bytes = "char list"
type_synonym u8 = "8 word"
type_synonym u16 = "16 word"
type_synonym u32 = "32 word"
type_synonym u64 = "64 word"

section \<open>Results\<close>

definition try_then :: "'e + 'a \<Rightarrow> ('a \<Rightarrow> 'e + 'b) \<Rightarrow> 'e + 'b" where
  "try_then r k = (case r of Inl e \<Rightarrow> Inl e | Inr x \<Rightarrow> k x)"

lemma try_then_simps [simp]:
  "try_then (Inl e) k = Inl e"
  "try_then (Inr x) k = k x"
  by (simp_all add: try_then_def)

lemma try_then_eq_Inr [result_simps]:
  "try_then r k = Inr y \<longleftrightarrow> (\<exists>x. r = Inr x \<and> k x = Inr y)"
  by (cases r) auto

lemma try_then_eq_Inl [result_simps]:
  "try_then r k = Inl e \<longleftrightarrow> r = Inl e \<or> (\<exists>x. r = Inr x \<and> k x = Inl e)"
  by (cases r) auto

definition is_ok :: "'e + 'a \<Rightarrow> bool" where
  "is_ok r = (case r of Inl _ \<Rightarrow> False | Inr _ \<Rightarrow> True)"

lemma is_ok_simps [simp]:
  "\<not> is_ok (Inl e)" "is_ok (Inr x)"
  by (simp_all add: is_ok_def)

lemma is_ok_iff: "is_ok r \<longleftrightarrow> (\<exists>x. r = Inr x)"
  by (cases r) auto

text \<open>A validation loop: the first failing element decides, as \<open>?\<close> in a \<open>for\<close> does.\<close>

fun try_all :: "('a \<Rightarrow> 'e + unit) \<Rightarrow> 'a list \<Rightarrow> 'e + unit" where
  "try_all f [] = Inr ()"
| "try_all f (x # xs) = try_then (f x) (\<lambda>_. try_all f xs)"

lemma try_all_Inr [result_simps]: "try_all f xs = Inr u \<longleftrightarrow> (\<forall>x \<in> set xs. is_ok (f x))"
  by (induction xs) (auto simp: result_simps is_ok_iff)

section \<open>Machine arithmetic\<close>

definition checked_add :: "'a::len word \<Rightarrow> 'a word \<Rightarrow> 'a word option" where
  "checked_add a b = (if unat a + unat b < 2 ^ LENGTH('a) then Some (a + b) else None)"

definition saturating_add :: "'a::len word \<Rightarrow> 'a word \<Rightarrow> 'a word" where
  "saturating_add a b = (case checked_add a b of Some c \<Rightarrow> c | None \<Rightarrow> - 1)"

definition saturating_sub :: "'a::len word \<Rightarrow> 'a word \<Rightarrow> 'a word" where
  "saturating_sub a b = (if b \<le> a then a - b else 0)"

lemma checked_add_Some:
  "checked_add a b = Some c \<longleftrightarrow> unat a + unat b < 2 ^ LENGTH('a) \<and> c = a + b"
  for a b c :: "'a::len word"
  by (auto simp: checked_add_def)

lemma checked_add_None:
  "checked_add a b = None \<longleftrightarrow> 2 ^ LENGTH('a) \<le> unat a + unat b" for a b :: "'a::len word"
  by (auto simp: checked_add_def)

lemma unat_checked_add [arith_simps]:
  "checked_add a b = Some c \<Longrightarrow> unat c = unat a + unat b" for a b c :: "'a::len word"
  by (auto simp: checked_add_def unat_word_ariths split: if_splits)

lemma unat_max_word [arith_simps]: "unat (- 1 :: 'a::len word) = 2 ^ LENGTH('a) - 1"
  by (simp add: unsigned_minus_1_eq_mask mask_eq_exp_minus_1)

lemma unat_less_size: "unat a < 2 ^ LENGTH('a)" for a :: "'a::len word"
  by (rule unsigned_less)

lemma unat_saturating_add [arith_simps]:
  "unat (saturating_add a b) = min (unat a + unat b) (2 ^ LENGTH('a) - 1)"
  for a b :: "'a::len word"
  by (auto simp: saturating_add_def checked_add_def unat_word_ariths unat_max_word)

lemma le_saturating_add: "a \<le> saturating_add a b" for a b :: "'a::len word"
proof -
  have "unat a \<le> 2 ^ LENGTH('a) - 1"
    using unat_less_size [of a] by linarith
  then show ?thesis
    by (simp add: word_le_nat_alt unat_saturating_add)
qed

lemma unat_saturating_sub [arith_simps]:
  "unat (saturating_sub a b) = unat a - unat b" for a b :: "'a::len word"
  by (auto simp: saturating_sub_def unat_sub word_le_nat_alt not_le)

lemma checked_succ_less: "checked_add a 1 = Some b \<Longrightarrow> a < b" for a b :: "'a::len word"
  using unat_checked_add [of a 1 b] by (simp add: word_less_nat_alt)

section \<open>Time\<close>

text \<open>
  \<open>Duration\<close> and \<open>Instant\<close> are counts of nanoseconds. \<open>Duration\<close> holds whole seconds in a
  \<open>u64\<close>, the Unix \<open>Instant\<close> in an \<open>i64\<close>; sums past these limits panic, here \<open>None\<close>.
\<close>

type_synonym duration = nat
type_synonym instant = nat

definition duration_max :: duration where
  "duration_max = (2 ^ 64 - 1) * 10 ^ 9 + 999999999"

definition instant_max :: instant where
  "instant_max = (2 ^ 63 - 1) * 10 ^ 9 + 999999999"

definition millis :: "nat \<Rightarrow> duration" where
  "millis n = n * 1000000"

definition secs :: "nat \<Rightarrow> duration" where
  "secs n = n * 1000000000"

definition duration_add :: "duration \<Rightarrow> duration \<Rightarrow> duration option" where
  "duration_add a b = (if a + b \<le> duration_max then Some (a + b) else None)"

definition instant_checked_add :: "instant \<Rightarrow> duration \<Rightarrow> instant option" where
  "instant_checked_add t d = (if t + d \<le> instant_max then Some (t + d) else None)"

definition saturating_duration_since :: "instant \<Rightarrow> instant \<Rightarrow> duration" where
  "saturating_duration_since later earlier = later - earlier"

section \<open>Strings\<close>

definition utf8_width :: "char \<Rightarrow> nat" where
  "utf8_width b = (let n = (of_char b :: nat) in
     if n < 128 then 1 else if n < 224 then 2 else if n < 240 then 3 else 4)"

text \<open>The bytes of a string, one block per character.\<close>

fun utf8_split :: "string \<Rightarrow> string list" where
  "utf8_split [] = []"
| "utf8_split (b # bs) =
     (b # take (utf8_width b - 1) bs) # utf8_split (drop (utf8_width b - 1) bs)"

fun decode_scalar :: "string \<Rightarrow> nat" where
  "decode_scalar [a] = of_char a"
| "decode_scalar [a, b] = (of_char a - 192) * 64 + (of_char b - 128)"
| "decode_scalar [a, b, c] =
     (of_char a - 224) * 4096 + (of_char b - 128) * 64 + (of_char c - 128)"
| "decode_scalar [a, b, c, d] =
     (of_char a - 240) * 262144 + (of_char b - 128) * 4096 + (of_char c - 128) * 64
       + (of_char d - 128)"
| "decode_scalar _ = 65533"

definition chars :: "string \<Rightarrow> nat list" where
  "chars s = map decode_scalar (utf8_split s)"

text \<open>\<open>char::is_control\<close> (category Cc) and \<open>char::is_whitespace\<close> (White_Space).\<close>

definition is_control :: "nat \<Rightarrow> bool" where
  "is_control n \<longleftrightarrow> n < 32 \<or> (127 \<le> n \<and> n < 160)"

definition is_whitespace :: "nat \<Rightarrow> bool" where
  "is_whitespace n \<longleftrightarrow> (9 \<le> n \<and> n \<le> 13) \<or> n = 32 \<or> n = 133 \<or> n = 160 \<or> n = 5760
     \<or> (8192 \<le> n \<and> n \<le> 8202) \<or> n = 8232 \<or> n = 8233 \<or> n = 8239 \<or> n = 8287 \<or> n = 12288"

definition trim :: "string \<Rightarrow> string" where
  "trim s = concat (rev (dropWhile (is_whitespace \<circ> decode_scalar)
     (rev (dropWhile (is_whitespace \<circ> decode_scalar) (utf8_split s)))))"

definition has_control :: "string \<Rightarrow> bool" where
  "has_control s \<longleftrightarrow> list_ex is_control (chars s)"

lemma concat_utf8_split [simp]: "concat (utf8_split s) = s"
  by (induction s rule: utf8_split.induct) simp_all

lemma utf8_split_nonempty: "[] \<notin> set (utf8_split s)"
  by (induction s rule: utf8_split.induct) auto

lemma ball_dropWhile [simp]: "(\<forall>x \<in> set (dropWhile P xs). P x) \<longleftrightarrow> (\<forall>x \<in> set xs. P x)"
  by (induction xs) auto

lemma dropWhile_all_iff: "dropWhile P (rev (dropWhile P xs)) = [] \<longleftrightarrow> (\<forall>x \<in> set xs. P x)"
  by simp

lemma trim_blank_iff: "trim s = [] \<longleftrightarrow> list_all is_whitespace (chars s)"
proof -
  define zs where "zs = dropWhile (is_whitespace \<circ> decode_scalar)
     (rev (dropWhile (is_whitespace \<circ> decode_scalar) (utf8_split s)))"
  have "set zs \<subseteq> set (utf8_split s)"
    by (auto simp: zs_def dest!: set_dropWhileD)
  then have "[] \<notin> set zs"
    using utf8_split_nonempty by blast
  then have "concat (rev zs) = [] \<longleftrightarrow> zs = []"
    by (cases zs) (auto simp: concat_eq_Nil_conv)
  then have "trim s = [] \<longleftrightarrow> zs = []"
    by (simp add: trim_def zs_def)
  also have "\<dots> \<longleftrightarrow> list_all is_whitespace (chars s)"
    unfolding zs_def dropWhile_all_iff by (simp add: chars_def list_all_iff)
  finally show ?thesis .
qed

lemma trim_ascii_word: "list_all (\<lambda>c. 32 < (of_char c :: nat) \<and> of_char c < (128 :: nat)) s \<Longrightarrow> trim s = s"
proof -
  assume s: "list_all (\<lambda>c. 32 < (of_char c :: nat) \<and> of_char c < (128 :: nat)) s"
  then have "utf8_split s = map (\<lambda>c. [c]) s \<and> list_all (\<lambda>b. \<not> is_whitespace (decode_scalar b)) (utf8_split s)"
    by (induction s) (auto simp: utf8_width_def is_whitespace_def)
  then have dark: "\<forall>b \<in> set (utf8_split s). \<not> (is_whitespace \<circ> decode_scalar) b"
    by (simp add: list_all_iff)
  have keep: "dropWhile P xs = xs" if "\<forall>x \<in> set xs. \<not> P x" for P :: "string \<Rightarrow> bool" and xs
    using that by (cases xs) auto
  have "dropWhile (is_whitespace \<circ> decode_scalar) (utf8_split s) = utf8_split s"
    "dropWhile (is_whitespace \<circ> decode_scalar) (rev (utf8_split s)) = rev (utf8_split s)"
    using dark by (intro keep; simp)+
  then show "trim s = s" by (simp add: trim_def)
qed

lemma has_control_ascii: "list_all (\<lambda>c. 32 \<le> (of_char c :: nat) \<and> of_char c < (127 :: nat)) s \<Longrightarrow> \<not> has_control s"
proof -
  assume s: "list_all (\<lambda>c. 32 \<le> (of_char c :: nat) \<and> of_char c < (127 :: nat)) s"
  then have "chars s = map of_char s"
    by (induction s) (auto simp: chars_def utf8_width_def)
  with s show ?thesis
    by (auto simp: has_control_def list_ex_iff list_all_iff is_control_def)
qed

definition ascii_lower :: "char \<Rightarrow> char" where
  "ascii_lower c = (let n = (of_char c :: nat) in if 65 \<le> n \<and> n \<le> 90 then char_of (n + 32) else c)"

definition to_ascii_lowercase :: "string \<Rightarrow> string" where
  "to_ascii_lowercase s = map ascii_lower s"

definition eq_ignore_ascii_case :: "string \<Rightarrow> string \<Rightarrow> bool" where
  "eq_ignore_ascii_case a b \<longleftrightarrow> to_ascii_lowercase a = to_ascii_lowercase b"

definition is_ascii_digit :: "char \<Rightarrow> bool" where
  "is_ascii_digit c \<longleftrightarrow> (let n = (of_char c :: nat) in 48 \<le> n \<and> n \<le> 57)"

definition is_ascii_alphanumeric :: "char \<Rightarrow> bool" where
  "is_ascii_alphanumeric c \<longleftrightarrow> (let n = (of_char c :: nat) in
     (48 \<le> n \<and> n \<le> 57) \<or> (65 \<le> n \<and> n \<le> 90) \<or> (97 \<le> n \<and> n \<le> 122))"

text \<open>\<open>str::split\<close> on an ASCII separator: one more piece than separators.\<close>

fun split_on :: "char \<Rightarrow> string \<Rightarrow> string list" where
  "split_on c [] = [[]]"
| "split_on c (b # bs) = (if b = c then [] # split_on c bs
     else case split_on c bs of [] \<Rightarrow> [[b]] | p # ps \<Rightarrow> (b # p) # ps)"

definition starts_with :: "string \<Rightarrow> string \<Rightarrow> bool" where
  "starts_with p s \<longleftrightarrow> take (length p) s = p"

definition ends_with :: "string \<Rightarrow> string \<Rightarrow> bool" where
  "ends_with p s \<longleftrightarrow> length p \<le> length s \<and> drop (length s - length p) s = p"

fun contains_sub :: "string \<Rightarrow> string \<Rightarrow> bool" where
  "contains_sub p [] \<longleftrightarrow> p = []"
| "contains_sub p (b # bs) \<longleftrightarrow> starts_with p (b # bs) \<or> contains_sub p bs"

text \<open>\<open>str::from_utf8\<close> succeeds exactly on well-formed UTF-8 (no overlong forms, no surrogates).\<close>

definition byte_in :: "nat \<Rightarrow> nat \<Rightarrow> char \<Rightarrow> bool" where
  "byte_in lo hi c \<longleftrightarrow> lo \<le> of_char c \<and> of_char c \<le> hi"

fun utf8_valid :: "bytes \<Rightarrow> bool" where
  "utf8_valid [] = True"
| "utf8_valid (b # bs) =
     (if byte_in 0 127 b then utf8_valid bs
      else if byte_in 194 223 b then
        (case bs of c # r \<Rightarrow> byte_in 128 191 c \<and> utf8_valid r | _ \<Rightarrow> False)
      else if byte_in 224 239 b then
        (case bs of c # d # r \<Rightarrow>
             byte_in (if of_char b = (224::nat) then 160 else 128) (if of_char b = (237::nat) then 159 else 191) c \<and>
             byte_in 128 191 d \<and> utf8_valid r | _ \<Rightarrow> False)
      else if byte_in 240 244 b then
        (case bs of c # d # e # r \<Rightarrow>
             byte_in (if of_char b = (240::nat) then 144 else 128) (if of_char b = (244::nat) then 143 else 191) c \<and>
             byte_in 128 191 d \<and> byte_in 128 191 e \<and> utf8_valid r | _ \<Rightarrow> False)
      else False)"

text \<open>\<open>str::split\<close> on a set of ASCII characters.\<close>

fun split_pred :: "(char \<Rightarrow> bool) \<Rightarrow> string \<Rightarrow> string list" where
  "split_pred P [] = [[]]"
| "split_pred P (b # bs) = (if P b then [] # split_pred P bs
     else case split_pred P bs of [] \<Rightarrow> [[b]] | p # ps \<Rightarrow> (b # p) # ps)"

definition is_ascii_whitespace :: "char \<Rightarrow> bool" where
  "is_ascii_whitespace c \<longleftrightarrow> (let n = (of_char c :: nat) in n = 32 \<or> n = 9 \<or> n = 10 \<or> n = 12 \<or> n = 13)"

definition is_ascii_uppercase :: "char \<Rightarrow> bool" where
  "is_ascii_uppercase c \<longleftrightarrow> (let n = (of_char c :: nat) in 65 \<le> n \<and> n \<le> 90)"

definition is_ascii_lowercase :: "char \<Rightarrow> bool" where
  "is_ascii_lowercase c \<longleftrightarrow> (let n = (of_char c :: nat) in 97 \<le> n \<and> n \<le> 122)"

definition is_ascii_alphabetic :: "char \<Rightarrow> bool" where
  "is_ascii_alphabetic c \<longleftrightarrow> is_ascii_uppercase c \<or> is_ascii_lowercase c"

definition is_ascii_hexdigit :: "char \<Rightarrow> bool" where
  "is_ascii_hexdigit c \<longleftrightarrow> (let n = (of_char c :: nat) in
     (48 \<le> n \<and> n \<le> 57) \<or> (65 \<le> n \<and> n \<le> 70) \<or> (97 \<le> n \<and> n \<le> 102))"

definition is_ascii :: "string \<Rightarrow> bool" where
  "is_ascii s = list_all (\<lambda>c. (of_char c :: nat) < 128) s"

definition trim_matches :: "char \<Rightarrow> string \<Rightarrow> string" where
  "trim_matches c s = rev (dropWhile (\<lambda>b. b = c) (rev (dropWhile (\<lambda>b. b = c) s)))"

text \<open>\<open>trim_start\<close> and \<open>trim_end\<close>.\<close>

definition trim_start :: "string \<Rightarrow> string" where
  "trim_start s = concat (dropWhile (is_whitespace \<circ> decode_scalar) (utf8_split s))"

definition trim_end :: "string \<Rightarrow> string" where
  "trim_end s = concat (rev (dropWhile (is_whitespace \<circ> decode_scalar) (rev (utf8_split s))))"

text \<open>\<open>str::lines\<close>: a line ends with LF or CRLF, and the last line may lack its end.\<close>

definition strip_cr :: "string \<Rightarrow> string" where
  "strip_cr s = (if ends_with [CHR 0x0D] s then butlast s else s)"

definition str_lines :: "string \<Rightarrow> string list" where
  "str_lines s = (let pieces = split_on CHR 0x0A s in
     map strip_cr (butlast pieces) @ (if last pieces = [] then [] else [last pieces]))"

text \<open>\<open>split_whitespace\<close>: the maximal runs of characters that are not white space.\<close>

fun whitespace_words :: "string list \<Rightarrow> string \<Rightarrow> string list" where
  "whitespace_words [] acc = (if acc = [] then [] else [acc])"
| "whitespace_words (b # bs) acc =
     (if is_whitespace (decode_scalar b)
      then (if acc = [] then [] else [acc]) @ whitespace_words bs []
      else whitespace_words bs (acc @ b))"

text \<open>\<open>str::split_once\<close> on an ASCII separator.\<close>

definition split_once :: "char \<Rightarrow> string \<Rightarrow> (string \<times> string) option" where
  "split_once c s = (if c \<in> set s
     then Some (takeWhile (\<lambda>b. b \<noteq> c) s, tl (dropWhile (\<lambda>b. b \<noteq> c) s)) else None)"

lemma split_on_no_sep: "c \<notin> set p \<Longrightarrow> split_on c p = [p]"
  by (induction p) auto

lemma split_on_append: "c \<notin> set p \<Longrightarrow> split_on c (p @ c # s) = p # split_on c s"
  by (induction p) auto

lemma split_once_append: "c \<notin> set p \<Longrightarrow> split_once c (p @ c # s) = Some (p, s)"
  by (induction p) (auto simp: split_once_def)

section \<open>Decimal numbers\<close>

text \<open>\<open>format!("{n}")\<close> of an unsigned integer, and \<open>{n:0w}\<close> with its zero padding.\<close>

definition digit_char :: "nat \<Rightarrow> char" where
  "digit_char d = char_of (48 + d)"

fun decimal :: "nat \<Rightarrow> string" where
  "decimal n = (if n < 10 then [digit_char n] else decimal (n div 10) @ [digit_char (n mod 10)])"

declare decimal.simps [simp del]

definition zero_padded :: "nat \<Rightarrow> nat \<Rightarrow> string" where
  "zero_padded w n = replicate (w - length (decimal n)) (digit_char 0) @ decimal n"

lemma length_decimal_le: "n < 10 ^ w \<Longrightarrow> 0 < w \<Longrightarrow> length (decimal n) \<le> w"
proof (induction w arbitrary: n)
  case (Suc w)
  show ?case
  proof (cases "n < 10")
    case False
    then have "0 < w" using Suc.prems(1) by (cases w) auto
    then have "length (decimal (n div 10)) \<le> w"
      using Suc.prems(1) by (intro Suc.IH) auto
    with False show ?thesis by (subst decimal.simps) simp
  qed (subst decimal.simps, simp)
qed simp

lemma length_zero_padded: "n < 10 ^ w \<Longrightarrow> 0 < w \<Longrightarrow> length (zero_padded w n) = w"
  by (simp add: zero_padded_def length_decimal_le)

section \<open>Big-endian integers\<close>

fun be_bytes :: "nat \<Rightarrow> nat \<Rightarrow> bytes" where
  "be_bytes 0 n = []"
| "be_bytes (Suc k) n = be_bytes k (n div 256) @ [char_of n]"

definition u64_be :: "u64 \<Rightarrow> bytes" where
  "u64_be w = be_bytes 8 (unat w)"

definition u32_be :: "u32 \<Rightarrow> bytes" where
  "u32_be w = be_bytes 4 (unat w)"

lemma length_be_bytes [simp]: "length (be_bytes k n) = k"
  by (induction k n rule: be_bytes.induct) auto

lemma be_bytes_inject:
  "be_bytes k m = be_bytes k n \<Longrightarrow> m < 256 ^ k \<Longrightarrow> n < 256 ^ k \<Longrightarrow> m = n"
proof (induction k arbitrary: m n)
  case (Suc k)
  have "(char_of m :: char) = char_of n"
    using Suc.prems(1) by simp
  then have "(of_char (char_of m :: char) :: nat) = of_char (char_of n :: char)"
    by simp
  then have "m mod 256 = n mod 256"
    by simp
  moreover have "m div 256 = n div 256"
    using Suc by (intro Suc.IH) (auto simp: less_mult_imp_div_less mult.commute)
  ultimately show ?case
    by (metis div_mult_mod_eq)
qed simp

definition from_be_bytes :: "bytes \<Rightarrow> nat" where
  "from_be_bytes b = foldl (\<lambda>n c. 256 * n + of_char c) 0 b"

lemma from_be_bytes_snoc: "from_be_bytes (b @ [c]) = 256 * from_be_bytes b + of_char c"
  by (simp add: from_be_bytes_def)

lemma from_be_bytes_be_bytes: "n < 256 ^ k \<Longrightarrow> from_be_bytes (be_bytes k n) = n"
proof (induction k arbitrary: n)
  case (Suc k)
  then have "n div 256 < 256 ^ k"
    by (simp add: less_mult_imp_div_less mult.commute)
  with Suc.IH show ?case
    by (simp add: from_be_bytes_snoc)
qed (simp add: from_be_bytes_def)

lemma length_u64_be [simp]: "length (u64_be w) = 8" and length_u32_be [simp]: "length (u32_be v) = 4"
  by (simp_all add: u64_be_def u32_be_def)

lemma u64_be_inject [simp]: "u64_be a = u64_be b \<longleftrightarrow> a = b"
  using be_bytes_inject [of 8 "unat a" "unat b"] unat_less_size [of a] unat_less_size [of b]
  by (auto simp: u64_be_def word_unat_eq_iff)

lemma u32_be_inject [simp]: "u32_be a = u32_be b \<longleftrightarrow> a = b"
  using be_bytes_inject [of 4 "unat a" "unat b"] unat_less_size [of a] unat_less_size [of b]
  by (auto simp: u32_be_def word_unat_eq_iff)

definition u64_le :: "u64 \<Rightarrow> bytes" where
  "u64_le w = rev (u64_be w)"

lemma length_u64_le [simp]: "length (u64_le w) = 8"
  by (simp add: u64_le_def)

lemma u64_le_inject [simp]: "u64_le a = u64_le b \<longleftrightarrow> a = b"
  by (simp add: u64_le_def)

section \<open>Ordered maps\<close>

text \<open>
  A \<open>BTreeMap\<close> is the list of its entries in strictly increasing key order, which is also its
  iteration order; \<open>get\<close> is \<open>map_of\<close>, \<open>len\<close> is \<open>length\<close>, \<open>retain\<close> is \<open>filter\<close>.
\<close>

type_synonym ('k, 'v) btree = "('k \<times> 'v) list"

definition bt_ok :: "('k::linorder, 'v) btree \<Rightarrow> bool" where
  "bt_ok m \<longleftrightarrow> sorted_wrt (<) (map fst m)"

fun bt_insert :: "'k::linorder \<Rightarrow> 'v \<Rightarrow> ('k, 'v) btree \<Rightarrow> ('k, 'v) btree" where
  "bt_insert k v [] = [(k, v)]"
| "bt_insert k v ((k', v') # m) =
     (if k < k' then (k, v) # (k', v') # m
      else if k = k' then (k, v) # m
      else (k', v') # bt_insert k v m)"

definition bt_remove :: "'k::linorder \<Rightarrow> ('k, 'v) btree \<Rightarrow> ('k, 'v) btree" where
  "bt_remove k m = filter (\<lambda>p. fst p \<noteq> k) m"

definition bt_contains :: "('k::linorder, 'v) btree \<Rightarrow> 'k \<Rightarrow> bool" where
  "bt_contains m k \<longleftrightarrow> map_of m k \<noteq> None"

lemma bt_ok_Nil [simp]: "bt_ok []"
  by (simp add: bt_ok_def)

lemma bt_ok_Cons [simp]: "bt_ok (p # m) \<longleftrightarrow> (\<forall>q \<in> set m. fst p < fst q) \<and> bt_ok m"
  by (auto simp: bt_ok_def)

lemma bt_ok_distinct: "bt_ok m \<Longrightarrow> distinct (map fst m)"
  by (simp add: bt_ok_def strict_sorted_iff)

lemma map_of_bt_insert [simp]: "map_of (bt_insert k v m) = (map_of m)(k \<mapsto> v)"
  by (induction k v m rule: bt_insert.induct) (auto simp: fun_eq_iff)

lemma keys_bt_insert [simp]: "fst ` set (bt_insert k v m) = insert k (fst ` set m)"
  by (induction k v m rule: bt_insert.induct) auto

lemma set_bt_insert_subset: "set (bt_insert k v m) \<subseteq> insert (k, v) (set m)"
  by (induction k v m rule: bt_insert.induct) auto

lemma bt_ok_insert [simp]: "bt_ok m \<Longrightarrow> bt_ok (bt_insert k v m)"
proof (induction k v m rule: bt_insert.induct)
  case (2 k v k' v' m)
  have "\<forall>q \<in> set (bt_insert k v m). k' < fst q" if "k' < k" "\<forall>q \<in> set m. k' < fst q"
    using that keys_bt_insert [of k v m] by (metis imageE imageI insertE)
  with 2 show ?case by fastforce
qed simp

lemma map_of_bt_remove [simp]: "map_of (bt_remove k m) = (map_of m)(k := None)"
  by (induction m) (auto simp: bt_remove_def fun_eq_iff)

lemma bt_ok_filter [simp]: "bt_ok m \<Longrightarrow> bt_ok (filter P m)"
  by (induction m) auto

lemma bt_ok_remove [simp]: "bt_ok m \<Longrightarrow> bt_ok (bt_remove k m)"
  by (simp add: bt_remove_def)

lemma bt_contains_iff: "bt_contains m k \<longleftrightarrow> k \<in> fst ` set m"
  by (simp add: bt_contains_def map_of_eq_None_iff)

lemma bt_contains_insert [simp]: "bt_contains (bt_insert k v m) k' \<longleftrightarrow> k' = k \<or> bt_contains m k'"
  by (auto simp: bt_contains_def)

lemma map_of_bt_filter:
  "bt_ok m \<Longrightarrow> map_of (filter P m) k =
     (case map_of m k of None \<Rightarrow> None | Some v \<Rightarrow> if P (k, v) then Some v else None)"
proof (induction m)
  case (Cons p m)
  then have "fst p \<notin> fst ` set m" by auto
  then have "map_of m (fst p) = None" by (simp add: map_of_eq_None_iff)
  with Cons show ?case by (cases p) auto
qed simp

lemma length_bt_insert:
  "bt_ok m \<Longrightarrow> length (bt_insert k v m) = (if bt_contains m k then length m else Suc (length m))"
proof (induction k v m rule: bt_insert.induct)
  case (2 k v k' v' m)
  moreover have "k \<notin> fst ` set m" if "k < k'" using 2 that by fastforce
  moreover have "k \<notin> fst ` set m" if "k = k'" using 2 that by fastforce
  ultimately show ?case by (auto simp: bt_contains_iff)
qed (simp add: bt_contains_def)

lemma bt_ext:
  assumes "bt_ok m" and "bt_ok n" and "map_of m = map_of n"
  shows "m = n"
proof (rule map_sorted_distinct_set_unique)
  have "set m = Map.graph (map_of m)" "set n = Map.graph (map_of n)"
    using assms(1,2) by (simp_all add: graph_map_of_if_distinct_dom bt_ok_distinct)
  then show eq: "set m = set n"
    using assms(3) by simp
  show "inj_on fst (set m \<union> set n)"
    using bt_ok_distinct [OF assms(1)] eq by (simp add: distinct_map)
qed (use assms in \<open>auto simp: bt_ok_def strict_sorted_iff\<close>)

lemma length_bt_remove_le: "length (bt_remove k m) \<le> length m"
  by (simp add: bt_remove_def)

section \<open>Machines and their invariants\<close>

text \<open>
  A component with state is a step function of its operations; \<open>run\<close> applies a sequence of
  them. An invariant that every operation keeps holds along every run; a rank that no
  operation lowers never falls.
\<close>

fun run :: "('s \<Rightarrow> 'op \<Rightarrow> 's) \<Rightarrow> 's \<Rightarrow> 'op list \<Rightarrow> 's" where
  "run step s [] = s"
| "run step s (op # ops) = run step (step s op) ops"

lemma run_append [simp]: "run step s (xs @ ys) = run step (run step s xs) ys"
  by (induction xs arbitrary: s) auto

locale machine =
  fixes step :: "'s \<Rightarrow> 'op \<Rightarrow> 's"
    and inv :: "'s \<Rightarrow> bool"
  assumes inv_step: "inv s \<Longrightarrow> inv (step s op)"
begin

lemma inv_run: "inv s \<Longrightarrow> inv (run step s ops)"
  by (induction ops arbitrary: s) (auto intro: inv_step)

end

locale ranked_machine = machine +
  fixes rank :: "'a \<Rightarrow> 'r::preorder"
  assumes rank_step: "inv s \<Longrightarrow> rank s \<le> rank (step s op)"
begin

lemma rank_run: "inv s \<Longrightarrow> rank s \<le> rank (run step s ops)"
proof (induction ops arbitrary: s)
  case (Cons op ops)
  then have "rank (step s op) \<le> rank (run step (step s op) ops)"
    using inv_step by blast
  with Cons.prems rank_step show ?case
    by (auto intro: order_trans)
qed simp

end

section \<open>Replicas that merge\<close>

text \<open>
  State that replicas exchange and merge. With a merge that is associative, commutative and
  idempotent on well-formed states, the result depends only on which states were merged, not
  on their order or repetition.
\<close>

locale merge_semilattice =
  fixes merge :: "'s \<Rightarrow> 's \<Rightarrow> 's" and ok :: "'s \<Rightarrow> bool"
  assumes ok_merge: "ok a \<Longrightarrow> ok b \<Longrightarrow> ok (merge a b)"
    and merge_assoc: "ok a \<Longrightarrow> ok b \<Longrightarrow> ok c \<Longrightarrow> merge (merge a b) c = merge a (merge b c)"
    and merge_comm: "ok a \<Longrightarrow> ok b \<Longrightarrow> merge a b = merge b a"
    and merge_idem: "ok a \<Longrightarrow> merge a a = a"
begin

definition below :: "'s \<Rightarrow> 's \<Rightarrow> bool" where
  "below a b \<longleftrightarrow> merge a b = b"

lemma ok_foldl: "ok a \<Longrightarrow> \<forall>x \<in> set xs. ok x \<Longrightarrow> ok (foldl merge a xs)"
  by (induction xs arbitrary: a) (auto simp: ok_merge)

lemma below_antisym: "ok a \<Longrightarrow> ok b \<Longrightarrow> below a b \<Longrightarrow> below b a \<Longrightarrow> a = b"
  using merge_comm by (simp add: below_def)

lemma below_trans: "ok a \<Longrightarrow> ok b \<Longrightarrow> ok c \<Longrightarrow> below a b \<Longrightarrow> below b c \<Longrightarrow> below a c"
  using merge_assoc by (metis below_def)

lemma below_merge1: "ok a \<Longrightarrow> ok b \<Longrightarrow> below a (merge a b)"
  by (metis below_def merge_assoc merge_idem)

lemma below_merge2: "ok a \<Longrightarrow> ok b \<Longrightarrow> below b (merge a b)"
  using below_merge1 merge_comm by metis

lemma merge_least: "ok a \<Longrightarrow> ok b \<Longrightarrow> ok c \<Longrightarrow> below a c \<Longrightarrow> below b c \<Longrightarrow> below (merge a b) c"
  by (simp add: below_def merge_assoc)

lemma foldl_upper:
  "ok a \<Longrightarrow> \<forall>x \<in> set xs. ok x \<Longrightarrow> y \<in> insert a (set xs) \<Longrightarrow> below y (foldl merge a xs)"
proof (induction xs arbitrary: a y)
  case Nil
  then show ?case by (auto simp: below_def merge_idem)
next
  case (Cons x xs)
  then have ok: "ok a" "ok x" "ok (merge a x)" "ok (foldl merge (merge a x) xs)"
    by (auto simp: ok_merge intro: ok_foldl)
  have "below (merge a x) (foldl merge (merge a x) xs)"
    using Cons ok by auto
  moreover have "below a (merge a x)" "below x (merge a x)"
    using ok by (auto intro: below_merge1 below_merge2)
  ultimately have "below a (foldl merge (merge a x) xs)" "below x (foldl merge (merge a x) xs)"
    using ok by (blast intro: below_trans)+
  moreover have "below y (foldl merge (merge a x) xs)" if "y \<in> set xs"
    using Cons ok that by auto
  ultimately show ?case
    using Cons.prems(3) by auto
qed

lemma foldl_least:
  "ok a \<Longrightarrow> \<forall>x \<in> set xs. ok x \<Longrightarrow> ok u \<Longrightarrow> \<forall>y \<in> insert a (set xs). below y u \<Longrightarrow>
     below (foldl merge a xs) u"
  by (induction xs arbitrary: a) (auto simp: ok_merge merge_least)

lemma convergence:
  assumes "ok a" and "\<forall>x \<in> set xs. ok x" and "ok b" and "\<forall>y \<in> set ys. ok y"
    and "insert a (set xs) = insert b (set ys)"
  shows "foldl merge a xs = foldl merge b ys"
proof (rule below_antisym)
  show "below (foldl merge a xs) (foldl merge b ys)"
    using assms by (intro foldl_least ok_foldl ballI foldl_upper) auto
  show "below (foldl merge b ys) (foldl merge a xs)"
    using assms by (intro foldl_least ok_foldl ballI foldl_upper) auto
qed (use assms in \<open>auto intro: ok_foldl\<close>)

end

end
