(* ===== verification/Replay_Guard.thy ===== *)
theory Replay_Guard
  imports Prelude
begin

text \<open>
  The bounded replay window of \<open>crates/vbuff-types/src/replay.rs\<close>, shared by callback
  tokens, remote paste leases, webhook events and capability tokens. The entries are an
  ordered map, the clock floor and the expiries are \<open>u64\<close> milliseconds.

  \<open>covered k e\<close> says that a message under key \<open>k\<close> that expires at \<open>e\<close> can no longer be
  accepted: its entry is retained to \<open>e\<close> at least, or the clock floor has passed \<open>e\<close>. No
  operation of the window ever undoes it, whatever clock the caller passes. The locale
  \<open>one_shot\<close> is the interface of a client: what it must show of its handlers so that no token
  is accepted twice along any run.
\<close>

record 's replay_entry =
  re_state :: 's
  re_expires_at_ms :: u64

record ('k, 's) replay_guard =
  rg_entries :: "('k, 's replay_entry) btree"
  rg_clock_floor_ms :: u64
  rg_capacity :: nat

datatype replay_error = ReplayWindowFull

definition MAX_REPLAY_ENTRIES :: nat where
  "MAX_REPLAY_ENTRIES = 4096"

definition replay_new :: "nat \<Rightarrow> ('k, 's) replay_guard" where
  "replay_new capacity = \<lparr>rg_entries = [], rg_clock_floor_ms = 0, rg_capacity = capacity\<rparr>"

definition advance_to ::
  "('k::linorder, 's) replay_guard \<Rightarrow> u64 \<Rightarrow> ('k, 's) replay_guard \<times> u64" where
  "advance_to g now = (let floor = max (rg_clock_floor_ms g) now in
     (g\<lparr>rg_clock_floor_ms := floor,
        rg_entries := filter (\<lambda>(k, e). re_expires_at_ms e > floor) (rg_entries g)\<rparr>, floor))"

definition replay_state :: "('k::linorder, 's) replay_guard \<Rightarrow> 'k \<Rightarrow> 's option" where
  "replay_state g k = map_option re_state (map_of (rg_entries g) k)"

definition replay_contains :: "('k::linorder, 's) replay_guard \<Rightarrow> 'k \<Rightarrow> bool" where
  "replay_contains g k = bt_contains (rg_entries g) k"

definition replay_len :: "('k::linorder, 's) replay_guard \<Rightarrow> nat" where
  "replay_len g = length (rg_entries g)"

definition replay_record ::
  "('k::linorder, 's) replay_guard \<Rightarrow> 'k \<Rightarrow> 's \<Rightarrow> u64 \<Rightarrow> replay_error + ('k, 's) replay_guard" where
  "replay_record g k s expires =
     (let saturated = length (rg_entries g) \<ge> rg_capacity g in
      case map_of (rg_entries g) k of
        Some slot \<Rightarrow>
          Inr (g\<lparr>rg_entries := bt_insert k
            \<lparr>re_state = s, re_expires_at_ms = max (re_expires_at_ms slot) expires\<rparr> (rg_entries g)\<rparr>)
      | None \<Rightarrow>
          if saturated then Inl ReplayWindowFull
          else Inr (g\<lparr>rg_entries := bt_insert k
            \<lparr>re_state = s, re_expires_at_ms = expires\<rparr> (rg_entries g)\<rparr>))"

definition burn ::
  "('k::linorder, unit) replay_guard \<Rightarrow> 'k \<Rightarrow> u64 \<Rightarrow> replay_error + ('k, unit) replay_guard" where
  "burn g k expires = replay_record g k () expires"

section \<open>The window stays well formed and bounded\<close>

definition replay_ok :: "('k::linorder, 's) replay_guard \<Rightarrow> bool" where
  "replay_ok g \<longleftrightarrow> bt_ok (rg_entries g) \<and> length (rg_entries g) \<le> rg_capacity g"

named_theorems replay_rules "what the window's operations keep"

lemma replay_ok_new [replay_rules, simp]: "replay_ok (replay_new c)"
  by (simp add: replay_ok_def replay_new_def)

lemma replay_ok_advance [replay_rules]: "replay_ok g \<Longrightarrow> replay_ok (fst (advance_to g now))"
  by (auto simp: replay_ok_def advance_to_def Let_def intro: order_trans [OF length_filter_le])

lemma replay_ok_record [replay_rules]:
  "replay_ok g \<Longrightarrow> replay_record g k s e = Inr g' \<Longrightarrow> replay_ok g'"
  by (auto simp: replay_ok_def replay_record_def Let_def length_bt_insert bt_contains_def
      split: option.splits if_splits)

lemma replay_ok_advance_record [replay_rules]:
  "replay_ok g \<Longrightarrow> replay_record (fst (advance_to g now)) k s e = Inr g' \<Longrightarrow> replay_ok g'"
  by (rule replay_ok_record [OF replay_ok_advance])

lemma replay_record_frame [replay_rules]:
  "replay_record g k s e = Inr g' \<Longrightarrow>
     rg_clock_floor_ms g' = rg_clock_floor_ms g \<and> rg_capacity g' = rg_capacity g"
  by (auto simp: replay_record_def Let_def split: option.splits if_splits)

lemma snd_advance_to: "snd (advance_to g now) = max (rg_clock_floor_ms g) now"
  by (simp add: advance_to_def Let_def)

lemma floor_advance_to [simp]:
  "rg_clock_floor_ms (fst (advance_to g now)) = max (rg_clock_floor_ms g) now"
  by (simp add: advance_to_def Let_def)

lemma map_of_advance_to:
  "replay_ok g \<Longrightarrow> map_of (rg_entries (fst (advance_to g now))) k =
     (case map_of (rg_entries g) k of None \<Rightarrow> None
      | Some e \<Rightarrow> if max (rg_clock_floor_ms g) now < re_expires_at_ms e then Some e else None)"
  by (simp add: advance_to_def Let_def replay_ok_def map_of_bt_filter split: option.split)

section \<open>Eviction never resurrects a message\<close>

definition covered :: "'k::linorder \<Rightarrow> ('s \<Rightarrow> bool) \<Rightarrow> u64 \<Rightarrow> ('k, 's) replay_guard \<Rightarrow> bool" where
  "covered k P e g \<longleftrightarrow> e \<le> rg_clock_floor_ms g \<or>
     (\<exists>x. map_of (rg_entries g) k = Some x \<and> P (re_state x) \<and> e \<le> re_expires_at_ms x)"

lemma covered_advance [replay_rules]:
  assumes "replay_ok g" and "covered k P e g"
  shows "covered k P e (fst (advance_to g now))"
proof (cases "e \<le> max (rg_clock_floor_ms g) now")
  case True
  then show ?thesis by (simp add: covered_def)
next
  case False
  then have "\<not> e \<le> rg_clock_floor_ms g" by (simp add: le_max_iff_disj)
  with assms(2) obtain x where x: "map_of (rg_entries g) k = Some x" "P (re_state x)"
    "e \<le> re_expires_at_ms x" by (auto simp: covered_def)
  with False have "max (rg_clock_floor_ms g) now < re_expires_at_ms x"
    by (meson leI less_le_trans)
  with x have "map_of (rg_entries (fst (advance_to g now))) k = Some x"
    by (simp only: map_of_advance_to [OF assms(1)] option.case if_True)
  with x show ?thesis by (auto simp: covered_def)
qed

lemma covered_record_other [replay_rules]:
  assumes "covered k P e g" and "replay_record g k' s x = Inr g'"
    and "k' = k \<Longrightarrow> P s"
  shows "covered k P e g'"
  using assms
  by (auto simp: covered_def replay_record_def Let_def le_max_iff_disj split: option.splits if_splits)

lemma record_covers [replay_rules]:
  "replay_record g k s e = Inr g' \<Longrightarrow> P s \<Longrightarrow> covered k P e g'"
  by (auto simp: covered_def replay_record_def Let_def split: option.splits if_splits)

lemma covered_advance_record [replay_rules]:
  "replay_ok g \<Longrightarrow> covered k P e g \<Longrightarrow> replay_record (fst (advance_to g now)) k' s x = Inr g' \<Longrightarrow>
     (k' = k \<Longrightarrow> P s) \<Longrightarrow> covered k P e g'"
  by (rule covered_record_other [OF covered_advance])

lemma covered_refuses:
  assumes "replay_ok g" and "covered k P e g" and "advance_to g now = (g', now')"
  shows "e \<le> now' \<or> (\<exists>s. replay_state g' k = Some s \<and> P s)"
proof -
  have g': "g' = fst (advance_to g now)" "now' = snd (advance_to g now)"
    using assms(3) by simp_all
  show ?thesis
    using covered_advance [OF assms(1,2), of now]
    by (auto simp: covered_def g' snd_advance_to replay_state_def)
qed

lemma replay_contains_iff: "replay_contains g k \<longleftrightarrow> (\<exists>s. replay_state g k = Some s)"
  by (auto simp: replay_contains_def replay_state_def bt_contains_def)

section \<open>The interface of a one-shot client\<close>

text \<open>
  \<open>accepts s op\<close> is the token that the operation \<open>op\<close> accepts in state \<open>s\<close>, if any;
  \<open>spent t s\<close> says that the client refuses \<open>t\<close> from \<open>s\<close> on.
\<close>

locale refusal = machine +
  fixes accepts :: "'a \<Rightarrow> 'b \<Rightarrow> 't option"
    and spent :: "'t \<Rightarrow> 'a \<Rightarrow> bool"
  assumes spent_step: "inv s \<Longrightarrow> spent t s \<Longrightarrow> spent t (step s op)"
    and spent_refused: "inv s \<Longrightarrow> spent t s \<Longrightarrow> accepts s op \<noteq> Some t"
begin

lemma spent_run: "inv s \<Longrightarrow> spent t s \<Longrightarrow> spent t (run step s ops)"
  by (induction ops arbitrary: s) (auto intro: inv_step spent_step)

lemma never_accepted: "inv s \<Longrightarrow> spent t s \<Longrightarrow> accepts (run step s ops) op \<noteq> Some t"
  by (intro spent_refused inv_run spent_run)

end

locale one_shot = refusal +
  assumes accept_spends: "inv s \<Longrightarrow> accepts s op = Some t \<Longrightarrow> spent t (step s op)"
begin

lemma accepted_at_most_once:
  "inv s \<Longrightarrow> accepts s op = Some t \<Longrightarrow> accepts (run step (step s op) ops) op' \<noteq> Some t"
  by (intro never_accepted inv_step accept_spends)

end

end
