(* ===== verification/Validation.thy ===== *)
theory Validation
  imports Prelude
begin

text \<open>
  The shared validation predicates of \<open>crates/vbuff-types/src/validation.rs\<close>: identifiers
  (ASCII letters, digits and \<open>. _ -\<close>, with optional extra bytes), labels, key ids, versions
  and the all-zero sentinel. The facts the other components use are that an identifier is
  NUL-free and, being pure ASCII, never a control or whitespace character. The last sections hold the errors of the sync
  crate and the keyed hashes of \<open>mac.rs\<close>.
\<close>

definition DEFAULT_MAX_IDENTIFIER_BYTES :: nat where
  "DEFAULT_MAX_IDENTIFIER_BYTES = 128"

definition MAX_KEY_ID_BYTES :: nat where
  "MAX_KEY_ID_BYTES = 96"

definition is_valid_identifier_with_extra :: "string \<Rightarrow> nat \<Rightarrow> bytes \<Rightarrow> bool" where
  "is_valid_identifier_with_extra value max_len extra \<longleftrightarrow>
     value \<noteq> [] \<and> length value \<le> max_len \<and>
     list_all (\<lambda>b. is_ascii_alphanumeric b \<or> b \<in> set ''-_.'' \<or> b \<in> set extra) value"

definition is_valid_identifier :: "string \<Rightarrow> nat \<Rightarrow> bool" where
  "is_valid_identifier value max_len = is_valid_identifier_with_extra value max_len []"

definition is_valid_label :: "string \<Rightarrow> nat \<Rightarrow> bool" where
  "is_valid_label value max_len \<longleftrightarrow>
     value \<noteq> [] \<and> length value \<le> max_len \<and> \<not> has_control value"

definition is_valid_trimmed_label :: "string \<Rightarrow> nat \<Rightarrow> bool" where
  "is_valid_trimmed_label value max_len \<longleftrightarrow> is_valid_label value max_len \<and> trim value \<noteq> []"

definition valid_key_id :: "string \<Rightarrow> bool" where
  "valid_key_id key_id = is_valid_identifier key_id MAX_KEY_ID_BYTES"

text \<open>Three times \<open>parts.next()\<close> is a non-empty run of digits, and then no part is left.\<close>

definition valid_version :: "string \<Rightarrow> bool" where
  "valid_version value = (let parts = split_on CHR ''.'' value in
     3 \<le> length parts \<and> list_all (\<lambda>p. p \<noteq> [] \<and> list_all is_ascii_digit p) (take 3 parts)
     \<and> drop 3 parts = [])"

definition all_zero :: "bytes \<Rightarrow> bool" where
  "all_zero b = list_all (\<lambda>x. x = CHR 0x00) b"

lemma all_zero_iff: "all_zero b \<longleftrightarrow> b = replicate (length b) (CHR 0x00)"
  by (induction b) (auto simp: all_zero_def)

section \<open>What a valid identifier looks like\<close>

lemma identifier_byte_cases:
  assumes "is_valid_identifier s n" and "b \<in> set s"
  shows "is_ascii_alphanumeric b \<or> b = CHR ''-'' \<or> b = CHR ''_'' \<or> b = CHR ''.''"
  using assms unfolding is_valid_identifier_def is_valid_identifier_with_extra_def list_all_iff
  by auto

lemma identifier_byte_ascii:
  assumes "is_valid_identifier s n" and "b \<in> set s"
  shows "32 < (of_char b :: nat) \<and> (of_char b :: nat) < 127"
  using identifier_byte_cases [OF assms]
proof (elim disjE)
  assume "is_ascii_alphanumeric b"
  then show ?thesis unfolding is_ascii_alphanumeric_def Let_def by linarith
qed simp_all

lemma identifier_nul_free: "is_valid_identifier s n \<Longrightarrow> CHR 0x00 \<notin> set s"
  using identifier_byte_ascii [of s n "CHR 0x00"] by auto

lemma identifier_nonempty: "is_valid_identifier s n \<Longrightarrow> s \<noteq> []"
  by (simp add: is_valid_identifier_def is_valid_identifier_with_extra_def)

lemma identifier_length: "is_valid_identifier s n \<Longrightarrow> length s \<le> n"
  by (simp add: is_valid_identifier_def is_valid_identifier_with_extra_def)

lemma chars_ascii: "(\<And>b. b \<in> set s \<Longrightarrow> (of_char b :: nat) < 128) \<Longrightarrow> chars s = map of_char s"
proof (induction s)
  case (Cons b s)
  then have "utf8_width b = 1" by (simp add: utf8_width_def)
  with Cons show ?case by (simp add: chars_def)
qed (simp add: chars_def)

lemma identifier_is_label:
  assumes "is_valid_identifier s n"
  shows "is_valid_trimmed_label s n"
proof -
  note ascii = identifier_byte_ascii [OF assms]
  have chars: "chars s = map of_char s"
    by (rule chars_ascii) (use ascii in fastforce)
  have ctl: "\<not> is_control (of_char b)" if "b \<in> set s" for b
    using ascii [OF that] by (simp add: is_control_def)
  have ws: "\<not> is_whitespace (of_char b)" if "b \<in> set s" for b
    using ascii [OF that] unfolding is_whitespace_def by linarith
  have "trim s \<noteq> []"
    using ws [OF hd_in_set [OF identifier_nonempty [OF assms]]] identifier_nonempty [OF assms]
    by (auto simp: trim_blank_iff chars list_all_iff)
  moreover have "\<not> has_control s"
    using ctl by (auto simp: has_control_def chars list_ex_iff)
  ultimately show ?thesis
    by (simp add: is_valid_trimmed_label_def is_valid_label_def
        identifier_nonempty [OF assms] identifier_length [OF assms])
qed

section \<open>The errors of the sync crate\<close>

text \<open>
  The error type of the sync crate, \<open>crates/vbuff-sync/src/error.rs\<close>. The wrapped
  \<open>serde_json\<close> and \<open>io\<close> errors carry no payload here.
\<close>

datatype sync_error = Invalid string | Crypto | Serialization | Compression

definition require :: "bool \<Rightarrow> 'e \<Rightarrow> 'e + unit" where
  "require b e = (if b then Inr () else Inl e)"

lemma require_simps [simp]:
  "require True e = Inr ()" "require False e = Inl e"
  by (simp_all add: require_def)

lemma require_Inr [result_simps]: "require b e = Inr u \<longleftrightarrow> b"
  by (simp add: require_def)

lemma require_Inl [result_simps]: "require b e = Inl f \<longleftrightarrow> \<not> b \<and> f = e"
  by (auto simp: require_def)

section \<open>Keyed hashes over framed parts\<close>

text \<open>
  The one MAC preimage of the workspace, \<open>crates/vbuff-types/src/mac.rs\<close>:
  \<open>label || separator || parts\<close>. HMAC-SHA256 itself comes from the crates \<open>hmac\<close> and \<open>sha2\<close>
  and is the parameter \<open>hmac\<close> (key, message) of every definition that uses it.
\<close>

datatype domain_separator = Nul | NoSeparator | Ascii char

record mac_domain =
  md_label :: string
  md_separator :: domain_separator

definition mac_domain_new :: "string \<Rightarrow> mac_domain" where
  "mac_domain_new label = \<lparr>md_label = label, md_separator = Nul\<rparr>"

definition legacy_unterminated :: "string \<Rightarrow> mac_domain" where
  "legacy_unterminated label = \<lparr>md_label = label, md_separator = NoSeparator\<rparr>"

text \<open>The two assertions of the constructor panic, here \<open>None\<close>.\<close>

definition legacy_ascii_separated :: "string \<Rightarrow> char \<Rightarrow> mac_domain option" where
  "legacy_ascii_separated label separator =
     (if separator = CHR 0x00 then None
      else if \<not> (33 \<le> (of_char separator :: nat) \<and> (of_char separator :: nat) \<le> 126) then None
      else Some \<lparr>md_label = label, md_separator = Ascii separator\<rparr>)"

fun separator_bytes :: "domain_separator \<Rightarrow> bytes" where
  "separator_bytes Nul = [CHR 0x00]"
| "separator_bytes (Ascii b) = [b]"
| "separator_bytes NoSeparator = []"

definition mac_preimage :: "mac_domain \<Rightarrow> bytes list \<Rightarrow> bytes" where
  "mac_preimage d parts = md_label d @ separator_bytes (md_separator d) @ concat parts"

definition hmac_proof :: "(bytes \<Rightarrow> bytes \<Rightarrow> bytes) \<Rightarrow> mac_domain \<Rightarrow> bytes \<Rightarrow> bytes list \<Rightarrow> bytes" where
  "hmac_proof hmac d key parts = hmac key (mac_preimage d parts)"

text \<open>\<open>MacProof::verify\<close>: the tag is exactly the computed proof.\<close>

definition mac_verify ::
  "(bytes \<Rightarrow> bytes \<Rightarrow> bytes) \<Rightarrow> mac_domain \<Rightarrow> bytes \<Rightarrow> bytes list \<Rightarrow> bytes \<Rightarrow> bool" where
  "mac_verify hmac d key parts tag \<longleftrightarrow> hmac_proof hmac d key parts = tag"

lemma append_terminator_inject:
  "a @ z # x = b @ z # y \<Longrightarrow> z \<notin> set a \<Longrightarrow> z \<notin> set b \<Longrightarrow> a = b \<and> x = y"
  by (induction a arbitrary: b) (case_tac b; auto)+

lemma mac_preimage_inject:
  assumes "mac_preimage (mac_domain_new a) ps = mac_preimage (mac_domain_new b) qs"
    and "CHR 0x00 \<notin> set a" and "CHR 0x00 \<notin> set b"
  shows "a = b \<and> concat ps = concat qs"
  using append_terminator_inject [OF _ assms(2,3)] assms(1)
  by (simp add: mac_preimage_def mac_domain_new_def)

end
