(* ===== verification/Update_Verifier.thy ===== *)
theory Update_Verifier
  imports Replay_Guard Validation
begin

text \<open>
  Release manifests, the trusted keyring and the update verifier, \<open>crates/vbuff-update/src/manifest.rs\<close>.

  What other crates provide is the record \<open>update_env\<close>: \<open>Url::parse\<close> (scheme and host), the JSON
  encodings, the validity of Ed25519 keys and signatures with their verification, and BLAKE3.
  \<open>semver::Version\<close> is the type parameter \<open>'v\<close> with its total order. A verifier operation returns
  its result and the verifier it leaves behind.
\<close>

datatype update_error =
    InvalidManifest string
  | UntrustedKey
  | InvalidSignature
  | DowngradeOrReplay
  | IncompatibleClient
  | DuplicateKeyId
  | RotationNotConfirmed
  | ChecksumMismatch
  | SerializationError string
  | IoError string

definition MAX_ARTIFACTS :: nat where
  "MAX_ARTIFACTS = 32"

definition MAX_TARGET_LEN :: nat where
  "MAX_TARGET_LEN = 96"

definition MAX_ARTIFACT_URL_LEN :: nat where
  "MAX_ARTIFACT_URL_LEN = 2048"

definition UPDATE_SIGNATURE_DOMAIN :: string where
  "UPDATE_SIGNATURE_DOMAIN = ''vbuff-update-manifest-v1''"

definition ROTATION_CONFIRMATION_DOMAIN :: string where
  "ROTATION_CONFIRMATION_DOMAIN = ''vbuff-update-key-rotation-v1''"

fun join_parts :: "bytes list \<Rightarrow> bytes" where
  "join_parts [] = []"
| "join_parts [p] = p"
| "join_parts (p # ps) = p @ CHR 0x00 # join_parts ps"

definition signing_preimage :: "string \<Rightarrow> bytes list \<Rightarrow> bytes" where
  "signing_preimage domain parts = domain @ CHR 0x00 # join_parts parts"

record artifact =
  ar_target :: string
  ar_url :: string
  ar_sha256 :: bytes
  ar_byte_size :: u64

record key_rotation =
  kr_key_id :: string
  kr_public_key :: bytes
  kr_activates_at_sequence :: u64
  kr_confirmation :: bytes

record 'v update_manifest =
  um_schema :: u16
  um_sequence :: u64
  um_version :: 'v
  um_minimum_client :: 'v
  um_published_at_ms :: u64
  um_rollout_percent :: u8
  um_artifacts :: "artifact list"
  um_next_key :: "key_rotation option"

record 'v signed_update_manifest =
  su_key_id :: string
  su_manifest :: "'v update_manifest"
  su_signature :: bytes

record trusted_key =
  tk_public_key :: bytes
  tk_activates_at_sequence :: u64
  tk_revoked_at_sequence :: "u64 option"

type_synonym update_keyring = "string \<rightharpoonup> trusted_key"

record 'v verified_update =
  vu_version :: 'v
  vu_sequence :: u64
  vu_eligible_for_rollout :: bool
  vu_artifacts :: "artifact list"

record update_verifier =
  uv_keyring :: update_keyring
  uv_highest_accepted_sequence :: u64

record 'v update_env =
  ue_url_parse :: "string \<Rightarrow> (string \<times> string option) option"
  ue_json_manifest :: "'v update_manifest \<Rightarrow> string + bytes"
  ue_json_rotation :: "string \<Rightarrow> bytes \<Rightarrow> u64 \<Rightarrow> u64 \<Rightarrow> string + bytes"
  ue_key_valid :: "bytes \<Rightarrow> bool"
  ue_signature_valid :: "bytes \<Rightarrow> bool"
  ue_verify :: "bytes \<Rightarrow> bytes \<Rightarrow> bytes \<Rightarrow> bool"
  ue_blake3 :: "bytes \<Rightarrow> bytes"

definition SIGNATURE_BYTE_SIZE :: nat where
  "SIGNATURE_BYTE_SIZE = 64"

definition map_err :: "('e \<Rightarrow> 'f) \<Rightarrow> 'e + 'a \<Rightarrow> 'f + 'a" where
  "map_err f r = (case r of Inl e \<Rightarrow> Inl (f e) | Inr x \<Rightarrow> Inr x)"

lemma map_err_Inr [result_simps]: "map_err f r = Inr x \<longleftrightarrow> r = Inr x"
  by (cases r) (simp_all add: map_err_def)

definition validate_key_id :: "string \<Rightarrow> update_error + unit" where
  "validate_key_id key_id =
     (if \<not> valid_key_id key_id then Inl (InvalidManifest ''key id is invalid'') else Inr ())"

definition confirmation_bytes ::
  "'v update_env \<Rightarrow> string \<Rightarrow> bytes \<Rightarrow> u64 \<Rightarrow> u64 \<Rightarrow> update_error + bytes" where
  "confirmation_bytes env key_id public_key activates_at_sequence manifest_sequence =
     try_then (map_err SerializationError
         (ue_json_rotation env key_id public_key activates_at_sequence manifest_sequence)) (\<lambda>payload.
       Inr (signing_preimage ROTATION_CONFIRMATION_DOMAIN [key_id, payload]))"

fun validate_artifacts ::
  "'v update_env \<Rightarrow> string set \<Rightarrow> artifact list \<Rightarrow> update_error + unit" where
  "validate_artifacts env targets [] = Inr ()"
| "validate_artifacts env targets (a # as) =
     (if \<not> is_valid_identifier (ar_target a) MAX_TARGET_LEN
      then Inl (InvalidManifest ''artifact target is invalid'')
      else if ar_target a \<in> targets
      then Inl (InvalidManifest ''artifact targets must be unique'')
      else (case ue_url_parse env (ar_url a) of
          None \<Rightarrow> Inl (InvalidManifest ''artifact URL is invalid'')
        | Some (scheme, host) \<Rightarrow>
            if length (ar_url a) > MAX_ARTIFACT_URL_LEN \<or> scheme \<noteq> ''https'' \<or> host = None \<or> ar_byte_size a = 0
            then Inl (InvalidManifest ''artifact URL or size is unsafe'')
            else validate_artifacts env (insert (ar_target a) targets) as))"

definition validate_rotation ::
  "'v update_env \<Rightarrow> 'v update_manifest \<Rightarrow> update_error + unit" where
  "validate_rotation env m = (case um_next_key m of
     None \<Rightarrow> Inr ()
   | Some rotation \<Rightarrow>
       try_then (validate_key_id (kr_key_id rotation)) (\<lambda>_.
         if kr_activates_at_sequence rotation \<le> um_sequence m
         then Inl (InvalidManifest ''rotated key must activate after the signed manifest'')
         else if \<not> ue_key_valid env (kr_public_key rotation)
         then Inl (InvalidManifest ''rotated key is invalid'')
         else if length (kr_confirmation rotation) \<noteq> SIGNATURE_BYTE_SIZE
         then Inl (InvalidManifest ''rotation confirmation is invalid'')
         else Inr ()))"

definition manifest_validate :: "'v update_env \<Rightarrow> 'v update_manifest \<Rightarrow> update_error + unit" where
  "manifest_validate env m =
     (if \<not> (um_schema m = 1 \<or> um_schema m = 2)
      then Inl (InvalidManifest ''unsupported manifest schema'')
      else if um_schema m = 1 \<and> um_next_key m \<noteq> None
      then Inl (InvalidManifest ''key rotation requires manifest schema 2'')
      else if um_sequence m = 0
      then Inl (InvalidManifest ''release sequence must be non-zero'')
      else if um_rollout_percent m > 100
      then Inl (InvalidManifest ''rollout percent exceeds 100'')
      else if um_artifacts m = [] \<or> length (um_artifacts m) > MAX_ARTIFACTS
      then Inl (InvalidManifest ''artifact count is outside the supported range'')
      else try_then (validate_artifacts env {} (um_artifacts m)) (\<lambda>_. validate_rotation env m))"

definition manifest_signing_bytes ::
  "'v update_env \<Rightarrow> string \<Rightarrow> 'v update_manifest \<Rightarrow> update_error + bytes" where
  "manifest_signing_bytes env key_id m =
     try_then (validate_key_id key_id) (\<lambda>_.
       try_then (map_err SerializationError (ue_json_manifest env m)) (\<lambda>canonical.
         Inr (signing_preimage UPDATE_SIGNATURE_DOMAIN [key_id, canonical])))"

definition sign_manifest ::
  "'v update_env \<Rightarrow> ('sk \<Rightarrow> bytes \<Rightarrow> bytes) \<Rightarrow> string \<Rightarrow> 'v update_manifest \<Rightarrow> 'sk \<Rightarrow>
     update_error + 'v signed_update_manifest" where
  "sign_manifest env sign key_id m key =
     try_then (manifest_validate env m) (\<lambda>_.
       try_then (validate_key_id key_id) (\<lambda>_.
         try_then (manifest_signing_bytes env key_id m) (\<lambda>b.
           Inr \<lparr>su_key_id = key_id, su_manifest = m, su_signature = sign key b\<rparr>)))"

definition rotation_confirmed ::
  "'v update_env \<Rightarrow> ('sk \<Rightarrow> bytes \<Rightarrow> bytes) \<Rightarrow> ('sk \<Rightarrow> bytes) \<Rightarrow> string \<Rightarrow> 'sk \<Rightarrow> u64 \<Rightarrow> u64 \<Rightarrow>
     update_error + key_rotation" where
  "rotation_confirmed env sign verifying_key key_id new_key activates_at_sequence manifest_sequence =
     try_then (validate_key_id key_id) (\<lambda>_.
       let public_key = verifying_key new_key in
       try_then (confirmation_bytes env key_id public_key activates_at_sequence manifest_sequence) (\<lambda>blob.
         Inr \<lparr>kr_key_id = key_id, kr_public_key = public_key,
              kr_activates_at_sequence = activates_at_sequence, kr_confirmation = sign new_key blob\<rparr>))"

section \<open>The keyring\<close>

definition keyring_trust ::
  "'v update_env \<Rightarrow> update_keyring \<Rightarrow> string \<Rightarrow> trusted_key \<Rightarrow> update_error + update_keyring" where
  "keyring_trust env keys key_id key =
     try_then (validate_key_id key_id) (\<lambda>_.
       if \<not> ue_key_valid env (tk_public_key key) then Inl (InvalidManifest ''trusted key is invalid'')
       else if keys key_id \<noteq> None then Inl DuplicateKeyId
       else Inr (keys(key_id \<mapsto> key)))"

definition keyring_revoke :: "update_keyring \<Rightarrow> string \<Rightarrow> u64 \<Rightarrow> update_error + update_keyring" where
  "keyring_revoke keys key_id at_sequence = (case keys key_id of
     None \<Rightarrow> Inl UntrustedKey
   | Some key \<Rightarrow> Inr (keys(key_id \<mapsto> key\<lparr>tk_revoked_at_sequence :=
       Some (case tk_revoked_at_sequence key of None \<Rightarrow> at_sequence
             | Some previous \<Rightarrow> min previous at_sequence)\<rparr>)))"

definition active_key :: "'v update_env \<Rightarrow> update_keyring \<Rightarrow> string \<Rightarrow> u64 \<Rightarrow> update_error + bytes" where
  "active_key env keys key_id sequence = (case keys key_id of
     None \<Rightarrow> Inl UntrustedKey
   | Some key \<Rightarrow>
       let active = (sequence \<ge> tk_activates_at_sequence key \<and>
         (case tk_revoked_at_sequence key of None \<Rightarrow> True | Some revoked \<Rightarrow> sequence < revoked)) in
       if \<not> active then Inl UntrustedKey
       else if ue_key_valid env (tk_public_key key) then Inr (tk_public_key key) else Inl UntrustedKey)"

section \<open>The verifier\<close>

definition rollout_bucket :: "(bytes \<Rightarrow> bytes) \<Rightarrow> bytes \<Rightarrow> u64 \<Rightarrow> u8" where
  "rollout_bucket blake3 installation_id sequence =
     (let prefix = take 8 (blake3 (''vbuff-staged-rollout-v1'' @ u64_be sequence @ installation_id)) in
      word_of_nat (from_be_bytes prefix mod 100))"

definition update_verifier_new :: "update_keyring \<Rightarrow> u64 \<Rightarrow> update_verifier" where
  "update_verifier_new keys highest = \<lparr>uv_keyring = keys, uv_highest_accepted_sequence = highest\<rparr>"

text \<open>The checks of \<open>verify\<close> before the rotation, in their order.\<close>

definition verify_checks ::
  "'v::linorder update_env \<Rightarrow> update_verifier \<Rightarrow> 'v signed_update_manifest \<Rightarrow> 'v \<Rightarrow> update_error + unit" where
  "verify_checks env v s current_version =
     try_then (manifest_validate env (su_manifest s)) (\<lambda>_.
     try_then (validate_key_id (su_key_id s)) (\<lambda>_.
     try_then (active_key env (uv_keyring v) (su_key_id s) (um_sequence (su_manifest s))) (\<lambda>key.
       if \<not> ue_signature_valid env (su_signature s) then Inl InvalidSignature
       else try_then (manifest_signing_bytes env (su_key_id s) (su_manifest s)) (\<lambda>b.
         if \<not> ue_verify env key b (su_signature s) then Inl InvalidSignature
         else if um_sequence (su_manifest s) \<le> uv_highest_accepted_sequence v \<or>
                 um_version (su_manifest s) \<le> current_version
         then Inl DowngradeOrReplay
         else if current_version < um_minimum_client (su_manifest s) then Inl IncompatibleClient
         else Inr ()))))"

text \<open>The proof of possession that a rotation must carry.\<close>

definition verify_confirmation ::
  "'v update_env \<Rightarrow> key_rotation \<Rightarrow> u64 \<Rightarrow> update_error + unit" where
  "verify_confirmation env r manifest_sequence =
     (if \<not> ue_signature_valid env (kr_confirmation r) then Inl RotationNotConfirmed
      else if \<not> ue_key_valid env (kr_public_key r) then Inl RotationNotConfirmed
      else try_then (confirmation_bytes env (kr_key_id r) (kr_public_key r)
          (kr_activates_at_sequence r) manifest_sequence) (\<lambda>blob.
        if \<not> ue_verify env (kr_public_key r) blob (kr_confirmation r) then Inl RotationNotConfirmed
        else Inr ()))"

definition apply_rotation ::
  "'v update_env \<Rightarrow> update_verifier \<Rightarrow> 'v signed_update_manifest \<Rightarrow>
     (update_error + unit) \<times> update_verifier" where
  "apply_rotation env v s = (case um_next_key (su_manifest s) of
     None \<Rightarrow> (Inr (), v)
   | Some r \<Rightarrow>
       (case verify_confirmation env r (um_sequence (su_manifest s)) of
          Inl e \<Rightarrow> (Inl e, v)
        | Inr _ \<Rightarrow>
            (case keyring_trust env (uv_keyring v) (kr_key_id r)
               \<lparr>tk_public_key = kr_public_key r, tk_activates_at_sequence = kr_activates_at_sequence r,
                tk_revoked_at_sequence = None\<rparr> of
               Inl e \<Rightarrow> (Inl e, v)
             | Inr keys \<Rightarrow>
                 (case keyring_revoke keys (su_key_id s) (kr_activates_at_sequence r) of
                    Inl e \<Rightarrow> (Inl e, v\<lparr>uv_keyring := keys\<rparr>)
                  | Inr keys' \<Rightarrow> (Inr (), v\<lparr>uv_keyring := keys'\<rparr>)))))"

definition update_verify ::
  "'v::linorder update_env \<Rightarrow> update_verifier \<Rightarrow> 'v signed_update_manifest \<Rightarrow> 'v \<Rightarrow> bytes \<Rightarrow>
     (update_error + 'v verified_update) \<times> update_verifier" where
  "update_verify env v s current_version installation_id =
     (case verify_checks env v s current_version of
        Inl e \<Rightarrow> (Inl e, v)
      | Inr _ \<Rightarrow>
          (case apply_rotation env v s of
             (Inl e, v') \<Rightarrow> (Inl e, v')
           | (Inr _, v') \<Rightarrow>
               (Inr \<lparr>vu_version = um_version (su_manifest s), vu_sequence = um_sequence (su_manifest s),
                     vu_eligible_for_rollout =
                       rollout_bucket (ue_blake3 env) installation_id (um_sequence (su_manifest s))
                         < um_rollout_percent (su_manifest s),
                     vu_artifacts = um_artifacts (su_manifest s)\<rparr>,
                v'\<lparr>uv_highest_accepted_sequence := um_sequence (su_manifest s)\<rparr>)))"

section \<open>What a verification does\<close>

lemma verify_checks_Inr:
  "verify_checks env v s cur = Inr u \<longleftrightarrow>
     manifest_validate env (su_manifest s) = Inr () \<and> valid_key_id (su_key_id s) \<and>
     (\<exists>key b. active_key env (uv_keyring v) (su_key_id s) (um_sequence (su_manifest s)) = Inr key \<and>
        manifest_signing_bytes env (su_key_id s) (su_manifest s) = Inr b \<and>
        ue_signature_valid env (su_signature s) \<and> ue_verify env key b (su_signature s)) \<and>
     uv_highest_accepted_sequence v < um_sequence (su_manifest s) \<and> cur < um_version (su_manifest s) \<and>
     um_minimum_client (su_manifest s) \<le> cur"
  by (auto simp: verify_checks_def validate_key_id_def result_simps not_le not_less split: if_splits)

lemma active_key_Inr:
  "active_key env keys k n = Inr pk \<longleftrightarrow> (\<exists>key. keys k = Some key \<and> pk = tk_public_key key \<and>
     tk_activates_at_sequence key \<le> n \<and> ue_key_valid env pk \<and>
     (\<forall>r. tk_revoked_at_sequence key = Some r \<longrightarrow> n < r))"
  by (auto simp: active_key_def Let_def split: option.splits)

lemma keyring_trust_Inr:
  "keyring_trust env keys k key = Inr keys' \<longleftrightarrow> valid_key_id k \<and> ue_key_valid env (tk_public_key key) \<and>
     keys k = None \<and> keys' = keys(k \<mapsto> key)"
  by (auto simp: keyring_trust_def validate_key_id_def)

lemma keyring_revoke_Inr:
  "keyring_revoke keys k n = Inr keys' \<longleftrightarrow> (\<exists>key. keys k = Some key \<and>
     keys' = keys(k \<mapsto> key\<lparr>tk_revoked_at_sequence :=
       Some (case tk_revoked_at_sequence key of None \<Rightarrow> n | Some p \<Rightarrow> min p n)\<rparr>))"
  by (auto simp: keyring_revoke_def split: option.splits)

text \<open>The signing key of a checked manifest is trusted, so its revocation in a rotation succeeds.\<close>

lemma apply_rotation_cases:
  assumes "verify_checks env v s cur = Inr u"
  shows "(\<exists>e. apply_rotation env v s = (Inl e, v)) \<or>
    (um_next_key (su_manifest s) = None \<and> apply_rotation env v s = (Inr (), v)) \<or>
    (\<exists>r keys keys'. um_next_key (su_manifest s) = Some r \<and>
       verify_confirmation env r (um_sequence (su_manifest s)) = Inr () \<and>
       keyring_trust env (uv_keyring v) (kr_key_id r)
         \<lparr>tk_public_key = kr_public_key r, tk_activates_at_sequence = kr_activates_at_sequence r,
          tk_revoked_at_sequence = None\<rparr> = Inr keys \<and>
       keyring_revoke keys (su_key_id s) (kr_activates_at_sequence r) = Inr keys' \<and>
       apply_rotation env v s = (Inr (), v\<lparr>uv_keyring := keys'\<rparr>))"
proof -
  have "uv_keyring v (su_key_id s) \<noteq> None"
    using assms by (auto simp: verify_checks_Inr active_key_Inr)
  then have "\<exists>keys'. keyring_revoke keys (su_key_id s) n = Inr keys'"
    if "keyring_trust env (uv_keyring v) k key = Inr keys" for keys k key n
    using that by (auto simp: keyring_trust_Inr keyring_revoke_def split: option.split)
  then show ?thesis
    by (auto simp: apply_rotation_def split: option.splits sum.splits) (metis Inr_not_Inl)+
qed

lemma update_verify_error: "update_verify env v s cur iid = (Inl e, v') \<Longrightarrow> v' = v"
  using apply_rotation_cases [of env v s cur]
  by (auto simp: update_verify_def split: sum.splits prod.splits)

lemma update_verify_Inr:
  assumes "update_verify env v s cur iid = (Inr ok, v')"
  shows "verify_checks env v s cur = Inr () \<and> vu_sequence ok = um_sequence (su_manifest s) \<and>
    uv_highest_accepted_sequence v' = um_sequence (su_manifest s) \<and>
    (um_next_key (su_manifest s) = None \<and> uv_keyring v' = uv_keyring v \<or>
     (\<exists>r keys. um_next_key (su_manifest s) = Some r \<and>
       verify_confirmation env r (um_sequence (su_manifest s)) = Inr () \<and>
       keyring_trust env (uv_keyring v) (kr_key_id r)
         \<lparr>tk_public_key = kr_public_key r, tk_activates_at_sequence = kr_activates_at_sequence r,
          tk_revoked_at_sequence = None\<rparr> = Inr keys \<and>
       keyring_revoke keys (su_key_id s) (kr_activates_at_sequence r) = Inr (uv_keyring v')))"
proof -
  obtain u where u: "verify_checks env v s cur = Inr u"
    using assms by (auto simp: update_verify_def split: sum.splits)
  with apply_rotation_cases [OF u] assms show ?thesis
    by (auto simp: update_verify_def split: sum.splits)
qed

section \<open>The verifier as a machine\<close>

datatype 'v update_op =
    VerifyUpdate "'v signed_update_manifest" 'v bytes
  | TrustKey string trusted_key
  | RevokeKey string u64

text \<open>The operations of the verifier, and the trust decisions an operator makes on its keyring.\<close>

fun update_step :: "'v::linorder update_env \<Rightarrow> update_verifier \<Rightarrow> 'v update_op \<Rightarrow> update_verifier" where
  "update_step env v (VerifyUpdate s cur iid) = snd (update_verify env v s cur iid)"
| "update_step env v (TrustKey k key) =
     (case keyring_trust env (uv_keyring v) k key of Inl _ \<Rightarrow> v | Inr keys \<Rightarrow> v\<lparr>uv_keyring := keys\<rparr>)"
| "update_step env v (RevokeKey k n) =
     (case keyring_revoke (uv_keyring v) k n of Inl _ \<Rightarrow> v | Inr keys \<Rightarrow> v\<lparr>uv_keyring := keys\<rparr>)"

fun update_accepts :: "'v::linorder update_env \<Rightarrow> update_verifier \<Rightarrow> 'v update_op \<Rightarrow> (string \<times> u64) option" where
  "update_accepts env v (VerifyUpdate s cur iid) =
     (case fst (update_verify env v s cur iid) of Inl _ \<Rightarrow> None
      | Inr ok \<Rightarrow> Some (su_key_id s, vu_sequence ok))"
| "update_accepts env v _ = None"

lemma update_verify_cases:
  obtains (err) e where "update_verify env v s cur iid = (Inl e, v)"
  | (ok) ok v' where "update_verify env v s cur iid = (Inr ok, v')"
proof (cases "update_verify env v s cur iid")
  case (Pair r v')
  then show thesis
    using update_verify_error [of env v s cur iid] that by (cases r) auto
qed

definition revoked_by :: "update_keyring \<Rightarrow> string \<Rightarrow> u64 \<Rightarrow> bool" where
  "revoked_by keys k n \<longleftrightarrow> (\<exists>key r. keys k = Some key \<and> tk_revoked_at_sequence key = Some r \<and> r \<le> n)"

lemma revoked_by_trust: "revoked_by keys k n \<Longrightarrow> keyring_trust env keys k' key = Inr keys' \<Longrightarrow> revoked_by keys' k n"
  by (auto simp: revoked_by_def keyring_trust_Inr)

lemma revoked_by_revoke: "revoked_by keys k n \<Longrightarrow> keyring_revoke keys k' m = Inr keys' \<Longrightarrow> revoked_by keys' k n"
  by (auto simp: revoked_by_def keyring_revoke_Inr min_le_iff_disj)

lemma revoked_by_refused: "revoked_by keys k n \<Longrightarrow> active_key env keys k n \<noteq> Inr pk"
  by (auto simp: revoked_by_def active_key_Inr)

interpretation update_watermark:
  ranked_machine "update_step env" "\<lambda>_. True" "\<lambda>v. uv_highest_accepted_sequence v"
  for env :: "'v::linorder update_env"
proof
  fix v :: update_verifier and op :: "'v update_op"
  show "uv_highest_accepted_sequence v \<le> uv_highest_accepted_sequence (update_step env v op)"
  proof (cases op)
    case (VerifyUpdate s cur iid)
    then show ?thesis
      by (cases rule: update_verify_cases [of env v s cur iid])
        (auto dest!: update_verify_Inr simp: verify_checks_Inr)
  qed (auto split: sum.splits)
qed simp

interpretation update_revocation:
  refusal "update_step env" "\<lambda>_. True" "update_accepts env" "\<lambda>t v. revoked_by (uv_keyring v) (fst t) (snd t)"
  for env :: "'v::linorder update_env"
proof
  fix v :: update_verifier and op :: "'v update_op" and t :: "string \<times> u64"
  assume t: "revoked_by (uv_keyring v) (fst t) (snd t)"
  show "revoked_by (uv_keyring (update_step env v op)) (fst t) (snd t)"
  proof (cases op)
    case (VerifyUpdate s cur iid)
    with t show ?thesis
      by (cases rule: update_verify_cases [of env v s cur iid])
        (auto dest!: update_verify_Inr intro: revoked_by_trust revoked_by_revoke)
  qed (use t in \<open>auto intro: revoked_by_trust revoked_by_revoke split: sum.splits\<close>)
  show "update_accepts env v op \<noteq> Some t"
  proof (cases op)
    case (VerifyUpdate s cur iid)
    with t show ?thesis
      by (cases rule: update_verify_cases [of env v s cur iid])
        (auto dest!: update_verify_Inr simp: verify_checks_Inr revoked_by_refused)
  qed simp_all
qed

interpretation update_replay:
  one_shot "update_step env" "\<lambda>_. True" "\<lambda>v op. map_option snd (update_accepts env v op)"
    "\<lambda>n v. n \<le> uv_highest_accepted_sequence v"
  for env :: "'v::linorder update_env"
proof
  fix v :: update_verifier and op :: "'v update_op" and n
  show "n \<le> uv_highest_accepted_sequence v \<Longrightarrow> n \<le> uv_highest_accepted_sequence (update_step env v op)"
    using update_watermark.rank_step [where s = v and env = env and op = op] by (auto intro: order_trans)
  show "map_option snd (update_accepts env v op) \<noteq> Some n" if "n \<le> uv_highest_accepted_sequence v"
  proof (cases op)
    case (VerifyUpdate s cur iid)
    with that show ?thesis
      by (cases rule: update_verify_cases [of env v s cur iid])
        (auto dest!: update_verify_Inr simp: verify_checks_Inr)
  qed simp_all
  show "map_option snd (update_accepts env v op) = Some n \<Longrightarrow> n \<le> uv_highest_accepted_sequence (update_step env v op)"
  proof (cases op)
    case (VerifyUpdate s cur iid)
    then show "map_option snd (update_accepts env v op) = Some n \<Longrightarrow>
        n \<le> uv_highest_accepted_sequence (update_step env v op)"
      by (cases rule: update_verify_cases [of env v s cur iid]) (auto dest!: update_verify_Inr)
  qed simp_all
qed

section \<open>The guarantees of the update channel\<close>

text \<open>
  C8. Update verification is sound and leaves no trace of a failure: a refused manifest leaves the
  verifier unchanged; an accepted one is valid, carries a signature of its canonical bytes by a
  key that is trusted, activated and not revoked at its sequence number, is newer than the watermark
  and the running version and supports the client; it becomes the watermark; a rotation in it is
  proved by the new key, registers this key under an unused id and retires the signing key from the
  activation on; and a rollout of 0 or 100 percent offers the release to nobody or everybody.
\<close>

theorem update_verify_sound:
  "case update_verify env v s cur iid of
     (Inl e, v') \<Rightarrow> v' = v
   | (Inr ok, v') \<Rightarrow>
       manifest_validate env (su_manifest s) = Inr () \<and>
       (\<exists>key b. uv_keyring v (su_key_id s) = Some key \<and> tk_activates_at_sequence key \<le> vu_sequence ok \<and>
          (\<forall>r. tk_revoked_at_sequence key = Some r \<longrightarrow> vu_sequence ok < r) \<and>
          manifest_signing_bytes env (su_key_id s) (su_manifest s) = Inr b \<and>
          ue_verify env (tk_public_key key) b (su_signature s)) \<and>
       uv_highest_accepted_sequence v < vu_sequence ok \<and> uv_highest_accepted_sequence v' = vu_sequence ok \<and>
       cur < vu_version ok \<and> um_minimum_client (su_manifest s) \<le> cur \<and>
       (case um_next_key (su_manifest s) of None \<Rightarrow> uv_keyring v' = uv_keyring v
        | Some r \<Rightarrow>
            verify_confirmation env r (vu_sequence ok) = Inr () \<and> uv_keyring v (kr_key_id r) = None \<and>
            (\<exists>key. uv_keyring v' = (uv_keyring v)(kr_key_id r \<mapsto>
                \<lparr>tk_public_key = kr_public_key r, tk_activates_at_sequence = kr_activates_at_sequence r,
                 tk_revoked_at_sequence = None\<rparr>, su_key_id s \<mapsto> key) \<and>
              revoked_by (uv_keyring v') (su_key_id s) (kr_activates_at_sequence r))) \<and>
       (um_rollout_percent (su_manifest s) = 0 \<longrightarrow> \<not> vu_eligible_for_rollout ok) \<and>
       (um_rollout_percent (su_manifest s) = 100 \<longrightarrow> vu_eligible_for_rollout ok)"
proof (cases rule: update_verify_cases [of env v s cur iid])
  case (ok ok v')
  have b: "rollout_bucket h iid n < 100" for h n
  proof -
    have "(k :: nat) mod 100 < 100" for k by simp
    then show ?thesis
      by (simp add: rollout_bucket_def Let_def word_less_nat_alt unat_of_nat)
  qed
  have "vu_version ok = um_version (su_manifest s)" "vu_eligible_for_rollout ok =
      (rollout_bucket (ue_blake3 env) iid (um_sequence (su_manifest s)) < um_rollout_percent (su_manifest s))"
    using ok by (auto simp: update_verify_def split: sum.splits prod.splits)
  with update_verify_Inr [OF ok] b show ?thesis
    unfolding ok
    by (auto simp: verify_checks_Inr active_key_Inr keyring_trust_Inr keyring_revoke_Inr revoked_by_def
        split: option.splits)
qed simp

text \<open>
  No downgrade and no replay: after a verifier has accepted a release with sequence number \<open>n\<close>,
  whatever updates, trust and revocation decisions follow, each release it accepts has a larger
  sequence number.
\<close>

lemma update_no_replay:
  assumes "update_accepts env v op = Some (k, n)"
    and "update_accepts env (run (update_step env) (update_step env v op) after) op' = Some (k', n')"
  shows "n < n'"
proof (rule ccontr)
  assume "\<not> n < n'"
  moreover have "n \<le> uv_highest_accepted_sequence (update_step env v op)"
    using assms(1) update_replay.accept_spends [where s = v and env = env and op = op and t = n] by simp
  ultimately have "n' \<le> uv_highest_accepted_sequence (update_step env v op)" by simp
  then show False
    using update_replay.never_accepted [where s = "update_step env v op" and t = n' and env = env and ops = after and op = op'] assms(2) by simp
qed

text \<open>
  A revocation is final: once a key is revoked from sequence number \<open>r\<close> on, no later operation,
  not even a repeated revocation at a later number or a rotation, lets a release with a number of at
  least \<open>r\<close> pass under this key.
\<close>

lemma revoked_key_stays_revoked:
  assumes "keyring_revoke (uv_keyring v) k r = Inr keys" and "r \<le> n"
  shows "update_accepts env (run (update_step env) (v\<lparr>uv_keyring := keys\<rparr>) after) op \<noteq> Some (k, n)"
proof -
  have "revoked_by keys k n"
    using assms by (auto simp: keyring_revoke_Inr revoked_by_def min_le_iff_disj split: option.splits)
  then show ?thesis
    using update_revocation.never_accepted [where s = "v\<lparr>uv_keyring := keys\<rparr>" and t = "(k, n)" and env = env and
      ops = after and op = op] by simp
qed

section \<open>Samples\<close>

definition sample_update_env :: "nat update_env" where
  "sample_update_env = \<lparr>ue_url_parse = (\<lambda>_. Some (''https'', Some ''h'')), ue_json_manifest = (\<lambda>_. Inr ''m''),
     ue_json_rotation = (\<lambda>_ _ _ _. Inr ''r''), ue_key_valid = (\<lambda>_. True), ue_signature_valid = (\<lambda>_. True),
     ue_verify = (\<lambda>k m s. k = s), ue_blake3 = id\<rparr>"

definition sample_release :: "nat signed_update_manifest" where
  "sample_release = \<lparr>su_key_id = ''k'', su_manifest = \<lparr>um_schema = 1, um_sequence = 5, um_version = 2,
     um_minimum_client = 1, um_published_at_ms = 0, um_rollout_percent = 100,
     um_artifacts = [\<lparr>ar_target = ''t'', ar_url = ''u'', ar_sha256 = [], ar_byte_size = 1\<rparr>],
     um_next_key = None\<rparr>, su_signature = ''K''\<rparr>"

definition sample_verifier :: update_verifier where
  "sample_verifier = update_verifier_new [''k'' \<mapsto> \<lparr>tk_public_key = ''K'', tk_activates_at_sequence = 1,
     tk_revoked_at_sequence = None\<rparr>] 4"

definition sample_next_release :: "nat signed_update_manifest" where
  "sample_next_release = sample_release\<lparr>su_manifest := (su_manifest sample_release)\<lparr>um_sequence := 6\<rparr>\<rparr>"

lemmas sample_release_defs = sample_release_def sample_next_release_def sample_update_env_def sample_verifier_def
  update_verifier_new_def valid_key_id_def is_valid_identifier_def is_valid_identifier_with_extra_def
  MAX_KEY_ID_BYTES_def MAX_TARGET_LEN_def MAX_ARTIFACT_URL_LEN_def MAX_ARTIFACTS_def is_ascii_alphanumeric_def

lemma sample_release_checks:
  assumes "uv_keyring v = uv_keyring sample_verifier" and "uv_highest_accepted_sequence v < 5"
  shows "verify_checks sample_update_env v sample_release 1 = Inr ()"
  unfolding verify_checks_Inr active_key_Inr
  using assms
  by (simp add: manifest_validate_def validate_key_id_def validate_rotation_def
      manifest_signing_bytes_def map_err_def sample_release_defs)

lemma sample_next_release_checks:
  assumes "uv_keyring v = uv_keyring sample_verifier" and "uv_highest_accepted_sequence v < 6"
  shows "verify_checks sample_update_env v sample_next_release 1 = Inr ()"
  unfolding verify_checks_Inr active_key_Inr
  using assms
  by (simp add: manifest_validate_def validate_key_id_def validate_rotation_def
      manifest_signing_bytes_def map_err_def sample_release_defs)

lemma sample_release_accepted:
  "update_accepts sample_update_env sample_verifier (VerifyUpdate sample_release 1 []) = Some (''k'', 5)"
proof -
  have "verify_checks sample_update_env sample_verifier sample_release 1 = Inr ()"
    by (rule sample_release_checks) (simp_all add: sample_verifier_def update_verifier_new_def)
  then show ?thesis
    by (simp add: update_verify_def apply_rotation_def) (simp add: sample_release_def)
qed

lemma sample_next_accepted:
  "update_accepts sample_update_env (run (update_step sample_update_env)
     (update_step sample_update_env sample_verifier (VerifyUpdate sample_release 1 [])) [])
     (VerifyUpdate sample_next_release 1 []) = Some (''k'', 6)"
proof -
  let ?v = "sample_verifier\<lparr>uv_highest_accepted_sequence := 5\<rparr>"
  have v: "update_step sample_update_env sample_verifier (VerifyUpdate sample_release 1 []) = ?v"
    using sample_release_accepted
    by (auto simp: update_verify_def apply_rotation_def split: sum.splits) (auto simp: sample_release_def)
  have "verify_checks sample_update_env ?v sample_next_release 1 = Inr ()"
    by (rule sample_next_release_checks) simp_all
  then show ?thesis
    unfolding v by (simp add: update_verify_def apply_rotation_def) (simp add: sample_next_release_def sample_release_def)
qed

lemma update_no_replay_witness: "(5::u64) < 6"
  by (rule update_no_replay [OF sample_release_accepted sample_next_accepted])

lemma revoked_key_stays_revoked_witness:
  "\<exists>keys. keyring_revoke (uv_keyring sample_verifier) ''k'' 5 = Inr keys \<and>
     update_accepts sample_update_env (run (update_step sample_update_env) (sample_verifier\<lparr>uv_keyring := keys\<rparr>)
       [RevokeKey ''k'' 9]) (VerifyUpdate sample_release 1 []) \<noteq> Some (''k'', 5)"
proof -
  obtain keys where k: "keyring_revoke (uv_keyring sample_verifier) ''k'' 5 = Inr keys"
    by (simp add: keyring_revoke_def sample_verifier_def update_verifier_new_def)
  with revoked_key_stays_revoked [OF k order_refl] show ?thesis by blast
qed

lemma update_verify_sound_witness:
  "\<exists>ok v'. update_verify sample_update_env sample_verifier sample_release 1 [] = (Inr ok, v') \<and>
     vu_eligible_for_rollout ok \<and> uv_highest_accepted_sequence v' = vu_sequence ok \<and> 1 < vu_version ok"
proof -
  obtain ok v' where o: "update_verify sample_update_env sample_verifier sample_release 1 [] = (Inr ok, v')"
    using sample_release_accepted
    by (cases "update_verify sample_update_env sample_verifier sample_release 1 []") (auto split: sum.splits)
  moreover have "um_rollout_percent (su_manifest sample_release) = 100"
    by (simp add: sample_release_def)
  ultimately have "vu_eligible_for_rollout ok \<and> uv_highest_accepted_sequence v' = vu_sequence ok \<and> 1 < vu_version ok"
    using update_verify_sound [where env = sample_update_env and v = sample_verifier and s = sample_release
        and cur = 1 and iid = "[]"] by simp
  with o show ?thesis by blast
qed

end
