(* ===== verification/Text_Format.thy ===== *)
theory Text_Format
  imports Prelude
begin

text \<open>
  Reading and writing small text formats: numbers, words and lines. \<open>parse_digits\<close> is the value of a run of ASCII digits,
  \<open>parse_u64\<close> is \<open>str::parse::<u64>\<close>. The lemmas are about ASCII text, whose characters are its bytes.
\<close>

section \<open>Numbers\<close>

definition digit_value :: "char \<Rightarrow> nat" where
  "digit_value c = of_char c - 48"

definition digits_value :: "string \<Rightarrow> nat" where
  "digits_value s = foldl (\<lambda>n c. 10 * n + digit_value c) 0 s"

definition parse_digits :: "string \<Rightarrow> nat option" where
  "parse_digits s = (if s \<noteq> [] \<and> list_all is_ascii_digit s then Some (digits_value s) else None)"

text \<open>An unsigned number may carry one plus sign; what does not fit is an error.\<close>

definition parse_u64 :: "string \<Rightarrow> u64 option" where
  "parse_u64 s = (case parse_digits (case s of c # cs \<Rightarrow> if c = CHR ''+'' then cs else s | [] \<Rightarrow> []) of
     Some n \<Rightarrow> if n < 2 ^ 64 then Some (of_nat n) else None | None \<Rightarrow> None)"

lemma digit_char_digit: "d < 10 \<Longrightarrow> is_ascii_digit (digit_char d) \<and> digit_value (digit_char d) = d"
  by (simp add: is_ascii_digit_def digit_value_def digit_char_def)

lemma digits_value_snoc: "digits_value (s @ [c]) = 10 * digits_value s + digit_value c"
  by (simp add: digits_value_def)

lemma decimal_digits: "list_all is_ascii_digit (decimal n) \<and> decimal n \<noteq> [] \<and> digits_value (decimal n) = n"
proof (induction n rule: decimal.induct)
  case (1 n)
  show ?case
  proof (cases "n < 10")
    case True
    then show ?thesis using digit_char_digit [of n] by (simp add: decimal.simps [of n] digits_value_def)
  next
    case False
    with 1 digit_char_digit [of "n mod 10"] show ?thesis by (simp add: decimal.simps [of n] digits_value_snoc)
  qed
qed

lemma parse_digits_decimal [simp]: "parse_digits (decimal n) = Some n"
  using decimal_digits [of n] by (simp add: parse_digits_def)

lemma digit_not_plus: "is_ascii_digit c \<Longrightarrow> c \<noteq> CHR ''+''"
  by (auto simp: is_ascii_digit_def)

lemma parse_u64_decimal [simp]: "parse_u64 (decimal (unat w)) = Some w"
proof -
  obtain c cs where c: "decimal (unat w) = c # cs" using decimal_digits [of "unat w"] by (cases "decimal (unat w)") auto
  moreover have "c \<noteq> CHR ''+''" using decimal_digits [of "unat w"] digit_not_plus by (simp add: c)
  ultimately show ?thesis
    using parse_digits_decimal [of "unat w"] unsigned_less [of w, where ?'a = nat] by (simp add: parse_u64_def)
qed

section \<open>ASCII text\<close>

definition is_graphic :: "char \<Rightarrow> bool" where
  "is_graphic c \<longleftrightarrow> 32 < (of_char c :: nat) \<and> (of_char c :: nat) < 127"

lemma utf8_split_ascii: "\<forall>c \<in> set p. (of_char c :: nat) < 128 \<Longrightarrow> utf8_split (p @ s) = map (\<lambda>c. [c]) p @ utf8_split s"
  by (induction p) (auto simp: utf8_width_def)

lemma utf8_split_ascii_all: "\<forall>c \<in> set s. (of_char c :: nat) < 128 \<Longrightarrow> utf8_split s = map (\<lambda>c. [c]) s"
  using utf8_split_ascii [of s "[]"] by simp

lemma graphic_not_space: "is_graphic c \<Longrightarrow> \<not> is_whitespace (of_char c)"
  by (simp add: is_graphic_def is_whitespace_def)

lemma graphic_ascii: "is_graphic c \<Longrightarrow> (of_char c :: nat) < 128"
  by (simp add: is_graphic_def)

lemma trim_graphic_ends:
  assumes "\<forall>c \<in> set s. (of_char c :: nat) < 128" and "s \<noteq> []" and "is_graphic (hd s)" and "is_graphic (last s)"
  shows "trim s = s"
proof -
  let ?m = "map (\<lambda>c. [c]) s"
  have "dropWhile (is_whitespace \<circ> decode_scalar) ?m = ?m"
    using assms(2) graphic_not_space [OF assms(3)] by (cases s) auto
  moreover have "dropWhile (is_whitespace \<circ> decode_scalar) (rev ?m) = rev ?m"
    using assms(2) graphic_not_space [OF assms(4)] by (cases s rule: rev_cases) auto
  ultimately have "trim s = concat (rev (rev ?m))"
    unfolding trim_def utf8_split_ascii_all [OF assms(1)] by (simp only:)
  then show ?thesis by (simp add: concat_map_singleton)
qed

lemma words_word: "\<forall>c \<in> set w. is_graphic c \<Longrightarrow> whitespace_words (map (\<lambda>c. [c]) w @ bs) acc = whitespace_words bs (acc @ w)"
  by (induction w arbitrary: acc) (auto simp: graphic_not_space)

lemma words_space: "whitespace_words (map (\<lambda>c. [c]) ('' '' @ s)) acc = (if acc = [] then [] else [acc]) @ whitespace_words (map (\<lambda>c. [c]) s) []"
  by (simp add: is_whitespace_def)

text \<open>Words joined by single spaces are split into the words again.\<close>

definition spaced :: "string list \<Rightarrow> string" where
  "spaced ws = concat (map (\<lambda>w. '' '' @ w) ws)"

lemma spaced_Cons: "spaced (w # ws) = '' '' @ w @ spaced ws"
  by (simp add: spaced_def)

lemma words_spaced:
  "\<forall>w \<in> set ws. w \<noteq> [] \<and> (\<forall>c \<in> set w. is_graphic c) \<Longrightarrow> whitespace_words (map (\<lambda>c. [c]) (spaced ws)) acc = (if acc = [] then [] else [acc]) @ ws"
proof (induction ws arbitrary: acc)
  case (Cons w ws)
  have "whitespace_words (map (\<lambda>c. [c]) (spaced (w # ws))) acc =
      (if acc = [] then [] else [acc]) @ whitespace_words (map (\<lambda>c. [c]) w @ map (\<lambda>c. [c]) (spaced ws)) []"
    unfolding spaced_Cons words_space by (simp only: map_append)
  also have "\<dots> = (if acc = [] then [] else [acc]) @ whitespace_words (map (\<lambda>c. [c]) (spaced ws)) ([] @ w)"
    using Cons.prems by (subst words_word) simp_all
  finally show ?case using Cons by simp
qed (simp add: spaced_def)

lemma words_of_line:
  assumes "w \<noteq> []" and "\<forall>x \<in> set (w # ws). x \<noteq> [] \<and> (\<forall>c \<in> set x. is_graphic c)"
  shows "whitespace_words (map (\<lambda>c. [c]) (w @ spaced ws)) [] = w # ws"
proof -
  have "whitespace_words (map (\<lambda>c. [c]) w @ map (\<lambda>c. [c]) (spaced ws)) [] = whitespace_words (map (\<lambda>c. [c]) (spaced ws)) ([] @ w)"
    using assms by (subst words_word) simp_all
  with assms words_spaced [of ws w] show ?thesis by simp
qed

section \<open>Joining\<close>

text \<open>\<open>[String]::join\<close>.\<close>

fun join_with :: "string \<Rightarrow> string list \<Rightarrow> string" where
  "join_with sep [] = []"
| "join_with sep [w] = w"
| "join_with sep (w # v # ws) = w @ sep @ join_with sep (v # ws)"

lemma join_with_snoc: "ws \<noteq> [] \<Longrightarrow> join_with sep (ws @ [w]) = join_with sep ws @ sep @ w"
proof (induction sep ws rule: join_with.induct)
  case (3 sep w v ws)
  then show ?case by simp
qed simp_all

section \<open>Lines\<close>

definition unlines :: "string list \<Rightarrow> string" where
  "unlines ls = concat (map (\<lambda>l. l @ [CHR 0x0A]) ls)"

lemma split_unlines: "\<forall>l \<in> set ls. CHR 0x0A \<notin> set l \<Longrightarrow> split_on (CHR 0x0A) (unlines ls) = ls @ [[]]"
proof (induction ls)
  case (Cons l ls)
  then show ?case using split_on_append [of "CHR 0x0A" l "unlines ls"] by (simp add: unlines_def)
qed (simp add: unlines_def)

lemma str_lines_unlines: "\<forall>l \<in> set ls. CHR 0x0A \<notin> set l \<and> (l = [] \<or> last l \<noteq> CHR 0x0D) \<Longrightarrow> str_lines (unlines ls) = ls"
proof -
  assume ls: "\<forall>l \<in> set ls. CHR 0x0A \<notin> set l \<and> (l = [] \<or> last l \<noteq> CHR 0x0D)"
  have strip: "strip_cr l = l" if "l = [] \<or> last l \<noteq> CHR 0x0D" for l
    using that by (cases l rule: rev_cases) (auto simp: strip_cr_def ends_with_def)
  have "map strip_cr ls = ls" using ls strip by (simp add: map_idI)
  then show ?thesis using split_unlines [of ls] ls by (simp add: str_lines_def)
qed

section \<open>Hexadecimal text\<close>

text \<open>
  Hexadecimal text of bytes, as \<open>to_hex\<close>, \<open>format!("{byte:02x}")\<close> and \<open>u8::from_str_radix\<close> on pairs of digits.
\<close>

definition hex_digit :: "nat \<Rightarrow> char" where
  "hex_digit n = char_of (if n < 10 then 48 + n else 87 + n)"

definition to_hex :: "bytes \<Rightarrow> string" where
  "to_hex b = concat (map (\<lambda>c. [hex_digit (of_char c div 16), hex_digit (of_char c mod 16)]) b)"

definition hex_value :: "char \<Rightarrow> nat" where
  "hex_value c = (if is_ascii_digit c then of_char c - 48 else if is_ascii_uppercase c then of_char c - 55 else of_char c - 87)"

fun from_hex :: "string \<Rightarrow> bytes" where
  "from_hex (a # b # s) = char_of (16 * hex_value a + hex_value b) # from_hex s"
| "from_hex _ = []"

lemma hex_digit_facts:
  assumes "n < 16"
  shows "hex_value (hex_digit n) = n" and "is_ascii_hexdigit (hex_digit n) \<and> \<not> is_ascii_uppercase (hex_digit n)"
proof -
  have "n \<in> set [0..<16]" using assms by simp
  then have "hex_value (hex_digit n) = n \<and> is_ascii_hexdigit (hex_digit n) \<and> \<not> is_ascii_uppercase (hex_digit n)"
    by (simp add: upt_rec [of _ 16] hex_digit_def hex_value_def is_ascii_digit_def is_ascii_uppercase_def is_ascii_hexdigit_def
      byte_in_def Let_def) (elim disjE; simp add: hex_digit_def hex_value_def is_ascii_digit_def is_ascii_uppercase_def is_ascii_hexdigit_def byte_in_def)
  then show "hex_value (hex_digit n) = n" and "is_ascii_hexdigit (hex_digit n) \<and> \<not> is_ascii_uppercase (hex_digit n)" by blast+
qed

lemma high_nibble: "of_char c div 16 < (16 :: nat)"
  using nat_of_char_less_256 [of c] by linarith

lemma length_to_hex: "length (to_hex b) = 2 * length b"
  by (induction b) (simp_all add: to_hex_def)

lemma to_hex_digits: "list_all (\<lambda>c. is_ascii_hexdigit c \<and> \<not> is_ascii_uppercase c) (to_hex b)"
proof (induction b)
  case (Cons c b)
  have "of_char c div 16 < (16 :: nat)" by (rule high_nibble)
  with Cons hex_digit_facts(2) show ?case by (simp add: to_hex_def)
qed (simp add: to_hex_def)

lemma from_hex_to_hex [simp]: "from_hex (to_hex b) = b"
proof (induction b)
  case (Cons c b)
  have "of_char c div 16 < (16 :: nat)" by (rule high_nibble)
  then have "16 * hex_value (hex_digit (of_char c div 16)) + hex_value (hex_digit (of_char c mod 16)) = (of_char c :: nat)"
    by (simp add: hex_digit_facts(1))
  with Cons show ?case by (simp add: to_hex_def)
qed (simp add: to_hex_def)

lemma length_from_hex: "length (from_hex s) = length s div 2"
  by (induction s rule: from_hex.induct) simp_all

end
