(* ===== verification/Build_Attestation.thy ===== *)
theory Build_Attestation
  imports Update_Verifier Text_Format
begin

text \<open>
  Build attestations and checksums of the update crate, \<open>crates/vbuff-update/src/attestation.rs\<close>. The JSON encoding, SHA-256
  and Ed25519 are parameters; a reader is the list of what its calls return, and an empty read is its end.
\<close>

record build_attestation =
  ba_schema :: u16
  ba_source_commit :: string
  ba_builder_id :: string
  ba_source_date_epoch :: u64
  ba_artifact_sha256 :: bytes

record signed_build_attestation =
  sb_key_id :: string
  sb_attestation :: build_attestation
  sb_signature :: bytes

record attestation_env =
  ae_json :: "build_attestation \<Rightarrow> string + bytes"
  ae_sign :: "bytes \<Rightarrow> bytes"
  ae_verify :: "bytes \<Rightarrow> bytes \<Rightarrow> bool"
  ae_sha256 :: "bytes \<Rightarrow> bytes"

definition ATTESTATION_SIGNATURE_DOMAIN :: string where
  "ATTESTATION_SIGNATURE_DOMAIN = ''vbuff-build-attestation-v1''"

definition attestation_validate :: "build_attestation \<Rightarrow> update_error + unit" where
  "attestation_validate a =
     (let commit_is_hex = (7 \<le> length (ba_source_commit a) \<and> length (ba_source_commit a) \<le> 64 \<and>
            list_all is_ascii_hexdigit (ba_source_commit a)) in
      if ba_schema a \<noteq> 1 \<or> \<not> commit_is_hex \<or> ba_builder_id a = [] \<or> length (ba_builder_id a) > 256
      then Inl (InvalidManifest ''build attestation fields are invalid'') else Inr ())"

definition attestation_canonical_bytes :: "attestation_env \<Rightarrow> build_attestation \<Rightarrow> update_error + bytes" where
  "attestation_canonical_bytes env a = try_then (attestation_validate a) (\<lambda>_. map_err SerializationError (ae_json env a))"

definition attestation_validate_key_id :: "string \<Rightarrow> update_error + unit" where
  "attestation_validate_key_id key_id =
     (if valid_key_id key_id then Inr () else Inl (InvalidManifest ''attestation key id is invalid''))"

definition attestation_signing_bytes :: "attestation_env \<Rightarrow> string \<Rightarrow> build_attestation \<Rightarrow> update_error + bytes" where
  "attestation_signing_bytes env key_id a =
     try_then (attestation_validate_key_id key_id) (\<lambda>_. try_then (attestation_canonical_bytes env a) (\<lambda>canonical.
       Inr (signing_preimage ATTESTATION_SIGNATURE_DOMAIN [key_id, canonical])))"

definition verify_artifact_checksum :: "attestation_env \<Rightarrow> bytes \<Rightarrow> bytes \<Rightarrow> update_error + unit" where
  "verify_artifact_checksum env artifact expected = (if ae_sha256 env artifact = expected then Inr () else Inl ChecksumMismatch)"

definition build_attestation_sign :: "attestation_env \<Rightarrow> string \<Rightarrow> build_attestation \<Rightarrow> update_error + signed_build_attestation" where
  "build_attestation_sign env key_id a = try_then (attestation_signing_bytes env key_id a) (\<lambda>b.
     Inr \<lparr>sb_key_id = key_id, sb_attestation = a, sb_signature = ae_sign env b\<rparr>)"

definition build_attestation_verify :: "attestation_env \<Rightarrow> signed_build_attestation \<Rightarrow> bytes \<Rightarrow> update_error + unit" where
  "build_attestation_verify env s artifact =
     (if length (sb_signature s) \<noteq> 64 then Inl InvalidSignature
      else try_then (attestation_signing_bytes env (sb_key_id s) (sb_attestation s)) (\<lambda>b.
        if \<not> ae_verify env b (sb_signature s) then Inl InvalidSignature
        else verify_artifact_checksum env artifact (ba_artifact_sha256 (sb_attestation s))))"

definition parse_sha256_hex :: "string \<Rightarrow> update_error + bytes" where
  "parse_sha256_hex v =
     (if length v \<noteq> 64 \<or> \<not> list_all is_ascii_hexdigit v
      then Inl (InvalidManifest ''SHA-256 must contain exactly 64 hexadecimal characters'') else Inr (from_hex v))"

fun read_to_end :: "(string + bytes) list \<Rightarrow> bytes \<Rightarrow> update_error + bytes" where
  "read_to_end [] acc = Inr acc"
| "read_to_end (Inl e # rs) acc = Inl (IoError e)"
| "read_to_end (Inr b # rs) acc = (if b = [] then Inr acc else read_to_end rs (acc @ b))"

definition verify_reader_checksum :: "attestation_env \<Rightarrow> (string + bytes) list \<Rightarrow> bytes \<Rightarrow> update_error + bytes" where
  "verify_reader_checksum env reads expected = try_then (read_to_end reads []) (\<lambda>b.
     let actual = ae_sha256 env b in if actual \<noteq> expected then Inl ChecksumMismatch else Inr actual)"

section \<open>Properties\<close>

lemma read_to_end_concat: "\<forall>b \<in> set bs. b \<noteq> [] \<Longrightarrow> read_to_end (map Inr bs) acc = Inr (acc @ concat bs)"
  by (induction bs arbitrary: acc) simp_all

text \<open>A streamed check agrees with a check of the whole artifact, however the artifact is cut into reads.\<close>

lemma streaming_checksum_agrees:
  "\<forall>b \<in> set bs. b \<noteq> [] \<Longrightarrow> is_ok (verify_reader_checksum env (map Inr bs) expected) \<longleftrightarrow> is_ok (verify_artifact_checksum env (concat bs) expected)"
  by (simp add: verify_reader_checksum_def verify_artifact_checksum_def read_to_end_concat Let_def)

lemma sha256_hex_round_trip: "length h = 32 \<Longrightarrow> parse_sha256_hex (to_hex h) = Inr h"
  using to_hex_digits [of h] by (auto simp: parse_sha256_hex_def length_to_hex list_all_iff)

lemma sha256_hex_length: "parse_sha256_hex s = Inr h \<Longrightarrow> length h = 32"
  by (auto simp: parse_sha256_hex_def length_from_hex split: if_splits)

lemma key_id_no_nul: "valid_key_id k \<Longrightarrow> CHR 0x00 \<notin> set k"
proof
  assume "valid_key_id k" and "CHR 0x00 \<in> set k"
  then have "32 < (of_char (CHR 0x00) :: nat)" using identifier_byte_ascii unfolding valid_key_id_def by blast
  then show False by simp
qed

lemma nul_framed_inject: "CHR 0x00 \<notin> set a \<Longrightarrow> CHR 0x00 \<notin> set b \<Longrightarrow> a @ CHR 0x00 # x = b @ CHR 0x00 # y \<Longrightarrow> a = b \<and> x = y"
proof -
  assume free: "CHR 0x00 \<notin> set a" "CHR 0x00 \<notin> set b" and eq: "a @ CHR 0x00 # x = b @ CHR 0x00 # y"
  from split_once_append [OF free(1), of x] split_once_append [OF free(2), of y] show ?thesis unfolding eq by simp
qed

text \<open>
  An attestation that verifies was signed for this key id, source, builder and artifact: two that verify over the same
  signed bytes are the same attestation under the same key id, and their artifacts have the same hash.
\<close>

lemma attestation_binds:
  assumes "build_attestation_verify env s artifact = Inr ()" and "build_attestation_verify env s' artifact' = Inr ()"
    and "attestation_signing_bytes env (sb_key_id s) (sb_attestation s) = attestation_signing_bytes env (sb_key_id s') (sb_attestation s')"
    and json: "\<And>a b j. ae_json env a = Inr j \<Longrightarrow> ae_json env b = Inr j \<Longrightarrow> a = b"
  shows "sb_key_id s = sb_key_id s' \<and> sb_attestation s = sb_attestation s' \<and> ae_sha256 env artifact = ae_sha256 env artifact'"
proof -
  have verified: "\<exists>c. attestation_validate_key_id (sb_key_id s) = Inr () \<and> ae_json env (sb_attestation s) = Inr c \<and>
      attestation_signing_bytes env (sb_key_id s) (sb_attestation s) = Inr (signing_preimage ATTESTATION_SIGNATURE_DOMAIN [sb_key_id s, c]) \<and>
      ae_sha256 env artifact = ba_artifact_sha256 (sb_attestation s)"
    if "build_attestation_verify env s artifact = Inr ()" for s artifact
    using that by (auto simp: build_attestation_verify_def verify_artifact_checksum_def attestation_signing_bytes_def
      attestation_canonical_bytes_def try_then_eq_Inr map_err_Inr split: if_splits)
  from verified [OF assms(1)] obtain c where c: "attestation_validate_key_id (sb_key_id s) = Inr ()" "ae_json env (sb_attestation s) = Inr c"
      "attestation_signing_bytes env (sb_key_id s) (sb_attestation s) = Inr (signing_preimage ATTESTATION_SIGNATURE_DOMAIN [sb_key_id s, c])"
      "ae_sha256 env artifact = ba_artifact_sha256 (sb_attestation s)" by blast
  from verified [OF assms(2)] obtain c' where c': "attestation_validate_key_id (sb_key_id s') = Inr ()" "ae_json env (sb_attestation s') = Inr c'"
      "attestation_signing_bytes env (sb_key_id s') (sb_attestation s') = Inr (signing_preimage ATTESTATION_SIGNATURE_DOMAIN [sb_key_id s', c'])"
      "ae_sha256 env artifact' = ba_artifact_sha256 (sb_attestation s')" by blast
  have "sb_key_id s @ CHR 0x00 # c = sb_key_id s' @ CHR 0x00 # c'"
    using assms(3) c(3) c'(3) by (simp add: signing_preimage_def)
  then have "sb_key_id s = sb_key_id s' \<and> c = c'"
    by (rule nul_framed_inject [rotated 2]) (use c(1) c'(1) key_id_no_nul in \<open>auto simp: attestation_validate_key_id_def split: if_splits\<close>)
  with c c' json show ?thesis by metis
qed

end
