(* ===== verification/Signed_Chain.thy ===== *)
theory Signed_Chain
  imports Validation
begin

text \<open>
  Domain-separated preimages and the generic signed hash chain, \<open>crates/vbuff-sync/src/chain.rs\<close>.

  The trait \<open>ChainEntry\<close> is the record \<open>chain_entry\<close> of its constants and hooks; the generic
  \<open>SignedChain<E>\<close> operations take it as an argument. BLAKE3 and Ed25519 come from other crates
  and are the fields of \<open>chain_crypto\<close>. The locale \<open>chain_payload\<close> is what an implementor of the
  trait must provide for the chain to commit to its history: an unambiguous preimage.
\<close>

section \<open>Preimages\<close>

record preimage =
  pre_buf :: bytes
  pre_overflow :: bool

definition preimage_new :: "bytes \<Rightarrow> preimage" where
  "preimage_new domain = \<lparr>pre_buf = domain @ [CHR 0x00], pre_overflow = False\<rparr>"

definition pre_fixed :: "bytes \<Rightarrow> preimage \<Rightarrow> preimage" where
  "pre_fixed b p = p\<lparr>pre_buf := pre_buf p @ b\<rparr>"

definition pre_var :: "bytes \<Rightarrow> preimage \<Rightarrow> preimage" where
  "pre_var b p = (if length b < 2 ^ 32
     then p\<lparr>pre_buf := pre_buf p @ be_bytes 4 (length b) @ b\<rparr>
     else p\<lparr>pre_overflow := True\<rparr>)"

definition pre_byte :: "char \<Rightarrow> preimage \<Rightarrow> preimage" where
  "pre_byte b p = p\<lparr>pre_buf := pre_buf p @ [b]\<rparr>"

definition pre_optional :: "bytes option \<Rightarrow> preimage \<Rightarrow> preimage" where
  "pre_optional v p = (case v of
     None \<Rightarrow> pre_byte (CHR 0x00) p | Some b \<Rightarrow> pre_var b (pre_byte (CHR 0x01) p))"

definition pre_u32_be :: "u32 \<Rightarrow> preimage \<Rightarrow> preimage" where
  "pre_u32_be v p = pre_fixed (u32_be v) p"

definition pre_u64_be :: "u64 \<Rightarrow> preimage \<Rightarrow> preimage" where
  "pre_u64_be v p = pre_fixed (u64_be v) p"

definition preimage_finish :: "preimage \<Rightarrow> sync_error + bytes" where
  "preimage_finish p = (if pre_overflow p
     then Inl (Invalid ''preimage field exceeds the u32 length prefix'') else Inr (pre_buf p))"

text \<open>
  What a preimage under construction has collected: \<open>Some\<close> of the bytes, \<open>None\<close> once a field
  overflowed. Each builder call appends its own bytes, which a reader can split off again.
\<close>

definition collected :: "preimage \<Rightarrow> bytes option" where
  "collected p = (if pre_overflow p then None else Some (pre_buf p))"

definition framed :: "bytes \<Rightarrow> bytes" where
  "framed b = be_bytes 4 (length b) @ b"

named_theorems preimage_simps "what the builder calls collect, and how to split it"

lemma collected_new [preimage_simps]: "collected (preimage_new d) = Some (d @ [CHR 0x00])"
  by (simp add: collected_def preimage_new_def)

lemma collected_fixed [preimage_simps]:
  "collected (pre_fixed b p) = map_option (\<lambda>x. x @ b) (collected p)"
  by (simp add: collected_def pre_fixed_def)

lemma collected_byte [preimage_simps]:
  "collected (pre_byte b p) = map_option (\<lambda>x. x @ [b]) (collected p)"
  by (simp add: collected_def pre_byte_def)

lemma collected_u64 [preimage_simps]:
  "collected (pre_u64_be v p) = map_option (\<lambda>x. x @ u64_be v) (collected p)"
  by (simp add: pre_u64_be_def collected_fixed)

lemma collected_u32 [preimage_simps]:
  "collected (pre_u32_be v p) = map_option (\<lambda>x. x @ u32_be v) (collected p)"
  by (simp add: pre_u32_be_def collected_fixed)

lemma collected_var [preimage_simps]:
  "collected (pre_var b p) =
     (if length b < 2 ^ 32 then map_option (\<lambda>x. x @ framed b) (collected p) else None)"
  by (simp add: collected_def pre_var_def framed_def)

lemma finish_Inr [preimage_simps]: "preimage_finish p = Inr x \<longleftrightarrow> collected p = Some x"
  by (simp add: preimage_finish_def collected_def)

lemma framed_append_inject [preimage_simps]:
  assumes "length a < 2 ^ 32" and "length b < 2 ^ 32"
  shows "framed a @ x = framed b @ y \<longleftrightarrow> a = b \<and> x = y"
proof
  assume eq: "framed a @ x = framed b @ y"
  then have "be_bytes 4 (length a) = be_bytes 4 (length b)"
    by (simp add: framed_def append_eq_append_conv)
  then have "length a = length b"
    by (rule be_bytes_inject) (use assms in auto)
  with eq show "a = b \<and> x = y"
    by (simp add: framed_def append_eq_append_conv)
qed simp

lemma framed_inject [preimage_simps]:
  "length a < 2 ^ 32 \<Longrightarrow> length b < 2 ^ 32 \<Longrightarrow> framed a = framed b \<longleftrightarrow> a = b"
  using framed_append_inject [of a b "[]" "[]"] by simp

section \<open>The chain\<close>

record ('e, 's, 'a) chain_entry =
  ce_domain :: bytes
  ce_max_entries :: nat
  ce_label :: string
  ce_default_state :: 's
  ce_extend_preimage :: "'e \<Rightarrow> preimage \<Rightarrow> preimage"
  ce_expected_signing_key :: "'e \<Rightarrow> nat \<Rightarrow> 's \<Rightarrow> 'a \<Rightarrow> sync_error + bytes"
  ce_apply :: "'e \<Rightarrow> 's \<Rightarrow> 's"

record 'sk chain_crypto =
  cr_blake3 :: "bytes \<Rightarrow> bytes"
  cr_verifying_key :: "'sk \<Rightarrow> bytes"
  cr_sign :: "'sk \<Rightarrow> bytes \<Rightarrow> bytes"
  cr_key_valid :: "bytes \<Rightarrow> bool"
  cr_verify :: "bytes \<Rightarrow> bytes \<Rightarrow> bytes \<Rightarrow> bool"

record 'e chain_link =
  cl_payload :: 'e
  cl_previous_hash :: bytes
  cl_hash :: bytes
  cl_signature :: bytes

type_synonym 'e signed_chain = "'e chain_link list"

definition ZERO_HASH :: bytes where
  "ZERO_HASH = replicate 32 (CHR 0x00)"

definition link_preimage :: "('e, 's, 'a) chain_entry \<Rightarrow> 'e \<Rightarrow> bytes \<Rightarrow> sync_error + bytes" where
  "link_preimage d payload previous_hash =
     preimage_finish (ce_extend_preimage d payload
       (pre_fixed previous_hash (preimage_new (ce_domain d))))"

definition chain_head :: "'e signed_chain \<Rightarrow> bytes" where
  "chain_head c = (if c = [] then ZERO_HASH else cl_hash (last c))"

definition replay_prefix :: "('e, 's, 'a) chain_entry \<Rightarrow> 'e signed_chain \<Rightarrow> nat \<Rightarrow> 's" where
  "replay_prefix d c links = foldl (\<lambda>state link. ce_apply d (cl_payload link) state)
     (ce_default_state d) (take links c)"

definition replay :: "('e, 's, 'a) chain_entry \<Rightarrow> 'e signed_chain \<Rightarrow> 's" where
  "replay d c = replay_prefix d c (length c)"

definition chain_append ::
  "('e, 's, 'a) chain_entry \<Rightarrow> 'sk chain_crypto \<Rightarrow> 'e signed_chain \<Rightarrow> 'e \<Rightarrow> 'a \<Rightarrow> 'sk \<Rightarrow>
     sync_error + (bytes \<times> 'e signed_chain)" where
  "chain_append d cr c payload authority signing_key =
     (if length c \<ge> ce_max_entries d then Inl (Invalid (ce_label d @ '' is full''))
      else (let index = length c; state = replay_prefix d c index in
        try_then (ce_expected_signing_key d payload index state authority) (\<lambda>expected.
          if cr_verifying_key cr signing_key \<noteq> expected
          then Inl (Invalid (ce_label d @
            '' author key does not match the registered signing key''))
          else (let previous_hash = chain_head c in
            try_then (link_preimage d payload previous_hash) (\<lambda>preimage.
              let hash = cr_blake3 cr preimage; signature = cr_sign cr signing_key preimage in
              Inr (hash, c @ [\<lparr>cl_payload = payload, cl_previous_hash = previous_hash,
                               cl_hash = hash, cl_signature = signature\<rparr>]))))))"

text \<open>The loop of \<open>verify\<close> with its loop variables \<open>index\<close>, \<open>state\<close> and \<open>previous_hash\<close>.\<close>

fun verify_links ::
  "('e, 's, 'a) chain_entry \<Rightarrow> 'sk chain_crypto \<Rightarrow> 'a \<Rightarrow> nat \<Rightarrow> 's \<Rightarrow> bytes \<Rightarrow> 'e signed_chain \<Rightarrow>
     sync_error + unit" where
  "verify_links d cr authority index state previous_hash [] = Inr ()"
| "verify_links d cr authority index state previous_hash (link # links) =
     try_then (link_preimage d (cl_payload link) (cl_previous_hash link)) (\<lambda>preimage.
       if cl_previous_hash link \<noteq> previous_hash \<or> cr_blake3 cr preimage \<noteq> cl_hash link
       then Inl (Invalid (ce_label d @ '' hash chain is broken''))
       else try_then (ce_expected_signing_key d (cl_payload link) index state authority) (\<lambda>expected.
         if \<not> cr_key_valid cr expected then Inl Crypto
         else if \<not> cr_verify cr expected preimage (cl_signature link) then Inl Crypto
         else verify_links d cr authority (Suc index) (ce_apply d (cl_payload link) state)
                (cl_hash link) links))"

definition chain_verify ::
  "('e, 's, 'a) chain_entry \<Rightarrow> 'sk chain_crypto \<Rightarrow> 'e signed_chain \<Rightarrow> 'a \<Rightarrow> sync_error + unit" where
  "chain_verify d cr c authority =
     (if length c > ce_max_entries d then Inl (Invalid (ce_label d @ '' exceeds the entry limit''))
      else verify_links d cr authority 0 (ce_default_state d) ZERO_HASH c)"

section \<open>What a verified chain is\<close>

text \<open>The condition on one link, given its index, the replayed state and the previous hash.\<close>

definition link_ok ::
  "('e, 's, 'a) chain_entry \<Rightarrow> 'sk chain_crypto \<Rightarrow> 'a \<Rightarrow> nat \<Rightarrow> 's \<Rightarrow> bytes \<Rightarrow> 'e chain_link \<Rightarrow> bool" where
  "link_ok d cr authority index state previous_hash link \<longleftrightarrow>
     (\<exists>preimage expected. link_preimage d (cl_payload link) previous_hash = Inr preimage \<and>
        cl_previous_hash link = previous_hash \<and> cr_blake3 cr preimage = cl_hash link \<and>
        ce_expected_signing_key d (cl_payload link) index state authority = Inr expected \<and>
        cr_key_valid cr expected \<and> cr_verify cr expected preimage (cl_signature link))"

lemma verify_links_Cons:
  "verify_links d cr authority index state previous_hash (link # links) = Inr () \<longleftrightarrow>
     link_ok d cr authority index state previous_hash link \<and>
     verify_links d cr authority (Suc index) (ce_apply d (cl_payload link) state) (cl_hash link) links = Inr ()"
  by (auto simp: link_ok_def result_simps split: if_splits)

lemma verify_links_append:
  "verify_links d cr authority index state previous_hash (c @ c') = Inr () \<longleftrightarrow>
     verify_links d cr authority index state previous_hash c = Inr () \<and>
     verify_links d cr authority (index + length c)
       (foldl (\<lambda>state link. ce_apply d (cl_payload link) state) state c)
       (if c = [] then previous_hash else cl_hash (last c)) c' = Inr ()"
proof (induction c arbitrary: index state previous_hash)
  case (Cons link c)
  show ?case
    by (simp only: append_Cons verify_links_Cons Cons.IH) auto
qed simp

lemma verify_links_nth:
  assumes "verify_links d cr authority 0 (ce_default_state d) ZERO_HASH c = Inr ()" and "i < length c"
  shows "link_ok d cr authority i (replay_prefix d c i) (chain_head (take i c)) (c ! i)"
proof -
  have "c = take i c @ c ! i # drop (Suc i) c"
    using assms(2) by (rule id_take_nth_drop)
  then have "verify_links d cr authority 0 (ce_default_state d) ZERO_HASH
      (take i c @ c ! i # drop (Suc i) c) = Inr ()"
    using assms(1) by simp
  with assms(2) show ?thesis
    unfolding verify_links_append verify_links_Cons replay_prefix_def chain_head_def by simp
qed

lemma verify_prefix:
  "verify_links d cr authority 0 s h c = Inr () \<Longrightarrow> verify_links d cr authority 0 s h (take i c) = Inr ()"
  using verify_links_append [of d cr authority 0 s h "take i c" "drop i c"] by simp

section \<open>Appending keeps a chain verified\<close>

lemma chain_append_Inr:
  "chain_append d cr c payload authority sk = Inr (hash, c') \<longleftrightarrow>
     length c < ce_max_entries d \<and>
     ce_expected_signing_key d payload (length c) (replay d c) authority = Inr (cr_verifying_key cr sk) \<and>
     (\<exists>preimage. link_preimage d payload (chain_head c) = Inr preimage \<and> hash = cr_blake3 cr preimage \<and>
       c' = c @ [\<lparr>cl_payload = payload, cl_previous_hash = chain_head c, cl_hash = hash,
                  cl_signature = cr_sign cr sk preimage\<rparr>])"
  by (auto simp: chain_append_def Let_def replay_def result_simps split: if_splits)

lemma append_verified:
  assumes "chain_verify d cr c authority = Inr ()"
    and "chain_append d cr c payload authority sk = Inr (hash, c')"
    and "cr_key_valid cr (cr_verifying_key cr sk)"
    and "\<And>m. cr_verify cr (cr_verifying_key cr sk) m (cr_sign cr sk m)"
  shows "chain_verify d cr c' authority = Inr ()"
proof -
  obtain preimage where a: "length c < ce_max_entries d"
    "ce_expected_signing_key d payload (length c) (replay d c) authority = Inr (cr_verifying_key cr sk)"
    "link_preimage d payload (chain_head c) = Inr preimage" "hash = cr_blake3 cr preimage"
    "c' = c @ [\<lparr>cl_payload = payload, cl_previous_hash = chain_head c, cl_hash = hash,
               cl_signature = cr_sign cr sk preimage\<rparr>]"
    using assms(2) unfolding chain_append_Inr by blast
  have "verify_links d cr authority 0 (ce_default_state d) ZERO_HASH c = Inr ()"
    using assms(1) by (simp add: chain_verify_def split: if_splits)
  moreover have "link_ok d cr authority (length c) (replay d c) (chain_head c) (last c')"
    using a assms(3,4) by (simp add: link_ok_def)
  ultimately have "verify_links d cr authority 0 (ce_default_state d) ZERO_HASH c' = Inr ()"
    unfolding a(5) verify_links_append verify_links_Cons
    by (simp add: a(5) replay_def replay_prefix_def chain_head_def)
  with a show ?thesis
    by (simp add: chain_verify_def)
qed

section \<open>The head commits to the history\<close>

text \<open>The preimages that were hashed into a chain.\<close>

definition link_preimages :: "('e, 's, 'a) chain_entry \<Rightarrow> 'e signed_chain \<Rightarrow> bytes set" where
  "link_preimages d c =
     {b. \<exists>link \<in> set c. link_preimage d (cl_payload link) (cl_previous_hash link) = Inr b}"

locale chain_payload =
  fixes d :: "('e, 's, 'a) chain_entry" and payload_ok :: "'e \<Rightarrow> bool"
  assumes link_preimage_inject:
    "payload_ok p \<Longrightarrow> payload_ok q \<Longrightarrow> length h = 32 \<Longrightarrow> length k = 32 \<Longrightarrow>
      link_preimage d p h = Inr b \<Longrightarrow> link_preimage d q k = Inr b \<Longrightarrow> p = q \<and> h = k"
begin

lemma head_commits:
  assumes hash32: "\<And>b. length (cr_blake3 cr b) = 32"
    and "verify_links d cr au 0 (ce_default_state d) ZERO_HASH c = Inr ()"
    and "verify_links d cr au' 0 (ce_default_state d) ZERO_HASH c' = Inr ()"
    and "\<forall>link \<in> set c \<union> set c'. payload_ok (cl_payload link)"
    and coll: "\<forall>x \<in> link_preimages d c \<union> link_preimages d c'.
      \<forall>y \<in> link_preimages d c \<union> link_preimages d c'. cr_blake3 cr x = cr_blake3 cr y \<longrightarrow> x = y"
    and "length c = length c'" and "chain_head c = chain_head c'"
  shows "map cl_payload c = map cl_payload c'"
  using assms(2-)
proof (induction c arbitrary: c' rule: rev_induct)
  case (snoc l c)
  then obtain l' e where e: "c' = e @ [l']"
    by (metis length_0_conv length_append_singleton nat.distinct(1) rev_exhaust)
  have ok: "link_ok d cr au (length c) (replay d c) (chain_head c) l"
    using verify_links_nth [OF snoc.prems(1), of "length c"] by (simp add: replay_def replay_prefix_def)
  have ok': "link_ok d cr au' (length e) (replay d e) (chain_head e) l'"
    using verify_links_nth [OF snoc.prems(2), of "length e"] by (simp add: e replay_def replay_prefix_def)
  obtain b b' where b: "link_preimage d (cl_payload l) (chain_head c) = Inr b" "cr_blake3 cr b = cl_hash l"
    "cl_previous_hash l = chain_head c"
    and b': "link_preimage d (cl_payload l') (chain_head e) = Inr b'" "cr_blake3 cr b' = cl_hash l'"
    "cl_previous_hash l' = chain_head e"
    using ok ok' unfolding link_ok_def by blast
  have heads: "length (chain_head x) = 32"
    if "verify_links d cr a 0 (ce_default_state d) ZERO_HASH x = Inr ()" for x a
  proof (cases "x = []")
    case False
    then have "link_ok d cr a (length x - 1) (replay_prefix d x (length x - 1))
        (chain_head (take (length x - 1) x)) (x ! (length x - 1))"
      by (intro verify_links_nth [OF that]) simp
    then obtain p where "cr_blake3 cr p = cl_hash (last x)"
      using False unfolding link_ok_def by (auto simp: last_conv_nth)
    with False hash32 [of p] show ?thesis
      by (simp add: chain_head_def)
  qed (simp add: chain_head_def ZERO_HASH_def)
  have vc: "verify_links d cr au 0 (ce_default_state d) ZERO_HASH c = Inr ()"
    and ve: "verify_links d cr au' 0 (ce_default_state d) ZERO_HASH e = Inr ()"
    using verify_prefix [OF snoc.prems(1), of "length c"] verify_prefix [OF snoc.prems(2), of "length e"]
    by (simp_all add: e)
  have "b \<in> link_preimages d (c @ [l])" "b' \<in> link_preimages d c'"
    using b b' by (auto simp: link_preimages_def e)
  moreover have "cr_blake3 cr b = cr_blake3 cr b'"
    using snoc.prems(6) b(2) b'(2) by (simp add: chain_head_def e)
  ultimately have "b = b'"
    using snoc.prems(4) by blast
  then have "cl_payload l = cl_payload l' \<and> chain_head c = chain_head e"
    using snoc.prems(3) b b' heads [OF vc] heads [OF ve]
    by (intro link_preimage_inject [of _ _ _ _ b]) (auto simp: e)
  moreover have "\<forall>x \<in> link_preimages d c \<union> link_preimages d e.
      \<forall>y \<in> link_preimages d c \<union> link_preimages d e. cr_blake3 cr x = cr_blake3 cr y \<longrightarrow> x = y"
    using snoc.prems(4) by (auto simp: e link_preimages_def)
  ultimately show ?case
    using snoc.IH [OF vc ve] snoc.prems(3,5) by (auto simp: e)
qed simp

end

end
