(* ===== verification/Hybrid_Clock.thy ===== *)
theory Hybrid_Clock
  imports Prelude
begin

text \<open>
  Hybrid logical clocks, \<open>crates/vbuff-sync/src/clock.rs\<close>, with the derived lexicographic order
  (physical time, logical counter, node id). The struct is a one-constructor datatype so that
  the order is an instance of \<open>linorder\<close>. \<open>tick\<close> and \<open>observe\<close> return the new clock, which is
  both the updated \<open>self\<close> and the returned value.
\<close>

datatype hlc = Hlc (physical_ms: u64) (logical: u32) (node_id: string)

instantiation hlc :: linorder
begin

definition less_hlc :: "hlc \<Rightarrow> hlc \<Rightarrow> bool" where
  "less_hlc a b \<longleftrightarrow> physical_ms a < physical_ms b \<or> (physical_ms a = physical_ms b \<and>
     (logical a < logical b \<or> (logical a = logical b \<and> node_id a < node_id b)))"

definition less_eq_hlc :: "hlc \<Rightarrow> hlc \<Rightarrow> bool" where
  "less_eq_hlc a b \<longleftrightarrow> physical_ms a < physical_ms b \<or> (physical_ms a = physical_ms b \<and>
     (logical a < logical b \<or> (logical a = logical b \<and> node_id a \<le> node_id b)))"

instance
proof
  fix a b c :: hlc
  show "a < b \<longleftrightarrow> a \<le> b \<and> \<not> b \<le> a"
    unfolding less_hlc_def less_eq_hlc_def by auto
  show "a \<le> a"
    by (simp add: less_eq_hlc_def)
  show "a \<le> b \<Longrightarrow> b \<le> c \<Longrightarrow> a \<le> c"
    unfolding less_eq_hlc_def by (elim disjE conjE) auto
  show "a \<le> b \<Longrightarrow> b \<le> a \<Longrightarrow> a = b"
    unfolding less_eq_hlc_def by (cases a; cases b) auto
  show "a \<le> b \<or> b \<le> a"
    unfolding less_eq_hlc_def by (metis linorder_cases nle_le)
qed

end

definition MAX_REMOTE_FUTURE_MS :: u64 where
  "MAX_REMOTE_FUTURE_MS = 5 * 60 * 1000"

definition hlc_new :: "string \<Rightarrow> u64 \<Rightarrow> hlc" where
  "hlc_new node now = Hlc now 0 node"

definition advance_logical :: "hlc \<Rightarrow> hlc" where
  "advance_logical c = (case checked_add (logical c) 1 of
     Some next \<Rightarrow> Hlc (physical_ms c) next (node_id c)
   | None \<Rightarrow> (case checked_add (physical_ms c) 1 of
       Some next_physical \<Rightarrow> Hlc next_physical 0 (node_id c)
     | None \<Rightarrow> c))"

definition tick :: "hlc \<Rightarrow> u64 \<Rightarrow> hlc" where
  "tick c now = (if now > physical_ms c then Hlc now 0 (node_id c) else advance_logical c)"

definition bounded_at :: "hlc \<Rightarrow> u64 \<Rightarrow> hlc" where
  "bounded_at c now =
     Hlc (min (physical_ms c) (saturating_add now MAX_REMOTE_FUTURE_MS)) (logical c) (node_id c)"

definition observe :: "hlc \<Rightarrow> hlc \<Rightarrow> u64 \<Rightarrow> hlc" where
  "observe c remote0 now =
     (let remote = bounded_at remote0 now;
          local_physical = physical_ms c;
          max_physical = max (max now local_physical) (physical_ms remote);
          base_logical =
            (if max_physical = local_physical \<and> max_physical = physical_ms remote
             then Some (max (logical c) (logical remote))
             else if max_physical = local_physical then Some (logical c)
             else if max_physical = physical_ms remote then Some (logical remote)
             else None)
      in case base_logical of
           Some l \<Rightarrow> advance_logical (Hlc max_physical l (node_id c))
         | None \<Rightarrow> Hlc max_physical 0 (node_id c))"

section \<open>Time only moves forward\<close>

definition exhausted :: "hlc \<Rightarrow> bool" where
  "exhausted c \<longleftrightarrow> physical_ms c = - 1 \<and> logical c = - 1"

lemma checked_succ_None: "checked_add a 1 = None \<longleftrightarrow> a = - 1" for a :: "'a::len word"
proof -
  have "checked_add a 1 = None \<longleftrightarrow> 2 ^ LENGTH('a) - 1 \<le> unat a"
    by (auto simp: checked_add_None)
  also have "\<dots> \<longleftrightarrow> unat a = unat (- 1 :: 'a word)"
    using unat_less_size [of a] unfolding unat_max_word by linarith
  finally show ?thesis by (simp add: word_unat_eq_iff)
qed

lemma advance_logical_less: "\<not> exhausted c \<Longrightarrow> c < advance_logical c"
  by (auto simp: advance_logical_def less_hlc_def exhausted_def checked_succ_None
      split: option.splits dest: checked_succ_less)

lemma advance_logical_exhausted: "exhausted c \<Longrightarrow> advance_logical c = c"
  by (simp add: advance_logical_def exhausted_def checked_succ_None [THEN iffD2])

lemma advance_logical_ge: "c \<le> advance_logical c"
  by (cases "exhausted c") (auto simp: advance_logical_exhausted dest: advance_logical_less)

lemma tick_less: "\<not> exhausted c \<Longrightarrow> c < tick c now"
  by (auto simp: tick_def less_hlc_def [of c "Hlc _ _ _"] intro: advance_logical_less)

lemma tick_ge: "c \<le> tick c now"
  by (auto simp: tick_def less_eq_hlc_def [of c "Hlc _ _ _"] advance_logical_ge)

text \<open>
  The clock \<open>observe\<close> builds before the final increment: at least the local clock, and with a
  counter at least the remote one's where the physical times agree.
\<close>

lemma observe_base:
  fixes c remote :: hlc and now :: u64
  defines "r \<equiv> bounded_at remote now"
  obtains (bump) b where "observe c remote now = advance_logical b" "c \<le> b" "node_id b = node_id c"
      "physical_ms b = max (max now (physical_ms c)) (physical_ms r)"
      "physical_ms r < physical_ms b \<or> logical r \<le> logical b"
  | (fresh) "observe c remote now = Hlc now 0 (node_id c)" "physical_ms c < now" "physical_ms r < now"
proof -
  let ?m = "max (max now (physical_ms c)) (physical_ms r)"
  consider "?m = physical_ms c" "?m = physical_ms r" | "?m = physical_ms c" "?m \<noteq> physical_ms r"
    | "?m \<noteq> physical_ms c" "?m = physical_ms r" | "?m \<noteq> physical_ms c" "?m \<noteq> physical_ms r"
    by blast
  then show thesis
  proof cases
    case 1
    then have "observe c remote now = advance_logical (Hlc ?m (max (logical c) (logical r)) (node_id c))"
      by (simp add: observe_def r_def Let_def)
    then show thesis
      by (rule bump) (use 1 in \<open>auto simp: less_eq_hlc_def le_max_iff_disj max_def\<close>)
  next
    case 2
    then have "observe c remote now = advance_logical (Hlc ?m (logical c) (node_id c))"
      by (simp add: observe_def r_def Let_def)
    then show thesis
      by (rule bump) (use 2 in \<open>auto simp: less_eq_hlc_def max_def split: if_splits\<close>)
  next
    case 3
    then have "observe c remote now = advance_logical (Hlc ?m (logical r) (node_id c))"
      by (simp add: observe_def r_def Let_def)
    then show thesis
      by (rule bump) (use 3 in \<open>auto simp: less_eq_hlc_def max_def split: if_splits\<close>)
  next
    case 4
    then have "observe c remote now = Hlc ?m 0 (node_id c)"
      by (simp add: observe_def r_def Let_def)
    moreover have "?m = now" "physical_ms c < now" "physical_ms r < now"
      using 4 by (auto simp: max_def split: if_splits)
    ultimately show thesis
      using fresh by simp
  qed
qed

lemma observe_ge: "c \<le> observe c remote now"
proof (cases rule: observe_base [where c = c and remote = remote and now = now])
  case (bump b)
  then show ?thesis using advance_logical_ge [of b] by (auto intro: order_trans)
next
  case fresh
  then show ?thesis by (simp add: less_eq_hlc_def)
qed

text \<open>The clock as a machine driven by local ticks and received clocks.\<close>

datatype hlc_op = Tick u64 | Observe hlc u64

fun hlc_step :: "hlc \<Rightarrow> hlc_op \<Rightarrow> hlc" where
  "hlc_step c (Tick now) = tick c now"
| "hlc_step c (Observe remote now) = observe c remote now"

interpretation hlc_clock: ranked_machine hlc_step "\<lambda>_. True" "\<lambda>c. c"
  by unfold_locales (case_tac op; simp add: tick_ge observe_ge)+

section \<open>Properties\<close>

text \<open>
  A device's clock never runs backwards: after any sequence of local ticks and received
  clocks, with wall clocks that may jump either way and remote clocks chosen by anyone, the
  next timestamp is strictly greater than every earlier one, until both counters are at their
  maximum.
\<close>

lemma hlc_strictly_monotone:
  assumes "\<not> exhausted (run hlc_step c ops)"
  shows "c < tick (run hlc_step c ops) now"
  using hlc_clock.rank_run [of c ops] tick_less [OF assms] by (auto intro: le_less_trans)

lemma hlc_strictly_monotone_witness:
  "Hlc 5 0 ''a'' < tick (run hlc_step (Hlc 5 0 ''a'') [Tick 3, Observe (Hlc 9 2 ''b'') 4]) 1"
  by (rule hlc_strictly_monotone)
    (simp add: exhausted_def tick_def advance_logical_def checked_add_def observe_def bounded_at_def
      saturating_add_def MAX_REMOTE_FUTURE_MS_def Let_def)

text \<open>
  Receiving orders cause before effect: the clock after \<open>observe\<close> is strictly above the local
  clock before it and above the received clock as clamped, as long as the physical times are
  below the last \<open>u64\<close> millisecond.
\<close>

lemma observe_after_both:
  assumes "now \<noteq> - 1" and "physical_ms c \<noteq> - 1" and "physical_ms remote \<noteq> - 1"
  shows "c < observe c remote now \<and> bounded_at remote now < observe c remote now"
proof -
  let ?r = "bounded_at remote now"
  have "physical_ms remote < - 1"
    using assms(3) by (metis max_word_max order.not_eq_order_implies_strict)
  then have r: "physical_ms ?r \<noteq> - 1"
    by (auto simp: bounded_at_def min_def)
  show ?thesis
  proof (cases rule: observe_base [where c = c and remote = remote and now = now])
    case (bump b)
    have "\<not> exhausted b"
      using assms(1,2) r by (auto simp: exhausted_def bump(4) max_def)
    then have less: "b < observe c remote now"
      by (simp add: bump(1) advance_logical_less)
    have "?r < advance_logical b"
    proof (cases "physical_ms ?r = physical_ms b")
      case False
      moreover have "physical_ms ?r \<le> physical_ms b" unfolding bump(4) by simp
      ultimately have "?r < b" by (simp add: less_hlc_def order.strict_iff_order)
      then show ?thesis using less bump(1) by simp
    next
      case True
      with bump(5) have "logical ?r \<le> logical b" by simp
      with True \<open>\<not> exhausted b\<close> show ?thesis
        by (auto simp: advance_logical_def less_hlc_def exhausted_def checked_succ_None
            split: option.split dest!: checked_succ_less)
    qed
    with less bump(1,2) show ?thesis by (auto intro: le_less_trans)
  next
    case fresh
    then show ?thesis by (simp add: less_hlc_def)
  qed
qed

lemma observe_after_both_witness:
  "Hlc 5 7 ''a'' < observe (Hlc 5 7 ''a'') (Hlc 999999 (- 1) ''b'') 5 \<and>
   bounded_at (Hlc 999999 (- 1) ''b'') 5 < observe (Hlc 5 7 ''a'') (Hlc 999999 (- 1) ''b'') 5"
  by (rule observe_after_both) simp_all

text \<open>
  A received clock moves local physical time at most to the larger of the local clock and
  five minutes past the wall clock, plus the one millisecond of a counter overflow.
\<close>

lemma observe_bounded_drift:
  "unat (physical_ms (observe c remote now)) \<le>
     max (unat (physical_ms c)) (unat now + 5 * 60 * 1000) + 1"
proof -
  let ?r = "bounded_at remote now"
  have "unat (saturating_add now MAX_REMOTE_FUTURE_MS) \<le> unat now + 300000"
    by (simp add: unat_saturating_add MAX_REMOTE_FUTURE_MS_def)
  then have r: "unat (physical_ms ?r) \<le> unat now + 300000"
    by (auto simp: bounded_at_def min_def word_le_nat_alt)
  have adv: "unat (physical_ms (advance_logical b)) \<le> unat (physical_ms b) + 1" for b
    by (auto simp: advance_logical_def split: option.splits dest!: unat_checked_add)
  show ?thesis
  proof (cases rule: observe_base [where c = c and remote = remote and now = now])
    case (bump b)
    have "unat (physical_ms b) \<le> max (unat (physical_ms c)) (unat now + 300000)"
      using r by (auto simp: bump(4) max_def word_le_nat_alt)
    with adv [of b] show ?thesis by (simp add: bump(1))
  qed simp
qed

end
