(* ===== verification/Sync_Ledger.thy ===== *)
theory Sync_Ledger
  imports Signed_Chain Hybrid_Clock Validation
begin

text \<open>
  The sync audit ledger and the wipe receipts, \<open>crates/vbuff-sync/src/ledger.rs\<close>. The ledger is
  the signed chain of \<open>Signed_Chain\<close> on the payload \<open>ledger_entry\<close>; its dictionary is
  \<open>ledger_dict\<close>, on which the locale \<open>chain_payload\<close> is interpreted.
\<close>

definition LEDGER_MAX_DEVICE_ID_BYTES :: nat where
  "LEDGER_MAX_DEVICE_ID_BYTES = 128"

definition MAX_LEDGER_ENTRIES :: nat where
  "MAX_LEDGER_ENTRIES = 16384"

definition WIPE_RECEIPT_DOMAIN :: bytes where
  "WIPE_RECEIPT_DOMAIN = ''vbuff-wipe-receipt-v1''"

datatype sync_direction = Sent | Received

fun direction_discriminant :: "sync_direction \<Rightarrow> char" where
  "direction_discriminant Sent = CHR 0x01"
| "direction_discriminant Received = CHR 0x02"

datatype sync_ledger_decision = Allowed | DeniedByPolicy | Applied | RejectedEpoch

fun decision_discriminant :: "sync_ledger_decision \<Rightarrow> char" where
  "decision_discriminant Allowed = CHR 0x01"
| "decision_discriminant DeniedByPolicy = CHR 0x02"
| "decision_discriminant Applied = CHR 0x03"
| "decision_discriminant RejectedEpoch = CHR 0x04"

lemma direction_discriminant_inject [simp]:
  "direction_discriminant a = direction_discriminant b \<longleftrightarrow> a = b"
  by (cases a; cases b) simp_all

lemma decision_discriminant_inject [simp]:
  "decision_discriminant a = decision_discriminant b \<longleftrightarrow> a = b"
  by (cases a; cases b) simp_all

record sync_event =
  se_item_hash :: bytes
  se_peer_device :: string
  se_direction :: sync_direction
  se_epoch :: u64
  se_decision :: sync_ledger_decision
  se_clock :: hlc

record ledger_entry =
  le_signer_device :: string
  le_event :: sync_event

type_synonym trusted_ledger_keys = "string \<rightharpoonup> bytes"

definition ledger_extend_preimage :: "ledger_entry \<Rightarrow> preimage \<Rightarrow> preimage" where
  "ledger_extend_preimage e p = (let ev = le_event e in
     pre_u32_be (logical (se_clock ev))
       (pre_u64_be (physical_ms (se_clock ev))
         (pre_var (node_id (se_clock ev))
           (pre_byte (decision_discriminant (se_decision ev))
             (pre_u64_be (se_epoch ev)
               (pre_byte (direction_discriminant (se_direction ev))
                 (pre_var (se_peer_device ev)
                   (pre_fixed (se_item_hash ev)
                     (pre_var (le_signer_device e) p)))))))))"

definition ledger_expected_signing_key ::
  "ledger_entry \<Rightarrow> nat \<Rightarrow> unit \<Rightarrow> trusted_ledger_keys \<Rightarrow> sync_error + bytes" where
  "ledger_expected_signing_key e _ _ keys =
     try_then (try_all (\<lambda>identifier.
         if \<not> is_valid_identifier identifier LEDGER_MAX_DEVICE_ID_BYTES
         then Inl (Invalid ''sync ledger device identifier is invalid'') else Inr ())
       [le_signer_device e, se_peer_device (le_event e), node_id (se_clock (le_event e))]) (\<lambda>_.
     case keys (le_signer_device e) of
       Some key \<Rightarrow> Inr key
     | None \<Rightarrow> Inl (Invalid ''unknown ledger signer''))"

definition ledger_dict :: "(ledger_entry, unit, trusted_ledger_keys) chain_entry" where
  "ledger_dict = \<lparr>ce_domain = ''vbuff-sync-ledger-v2'', ce_max_entries = MAX_LEDGER_ENTRIES,
     ce_label = ''sync ledger'', ce_default_state = (),
     ce_extend_preimage = ledger_extend_preimage,
     ce_expected_signing_key = ledger_expected_signing_key,
     ce_apply = (\<lambda>_ s. s)\<rparr>"

definition append_event ::
  "'sk chain_crypto \<Rightarrow> ledger_entry signed_chain \<Rightarrow> string \<Rightarrow> sync_event \<Rightarrow> trusted_ledger_keys \<Rightarrow>
     'sk \<Rightarrow> sync_error + (bytes \<times> ledger_entry signed_chain)" where
  "append_event cr ledger signer_device event keys signing_key =
     chain_append ledger_dict cr ledger
       \<lparr>le_signer_device = signer_device, le_event = event\<rparr> keys signing_key"

section \<open>Wipe receipts\<close>

definition WIPE_RECEIPT_SCHEMA :: u16 where
  "WIPE_RECEIPT_SCHEMA = 2"

record wipe_receipt =
  wr_schema :: u16
  wr_device_id :: string
  wr_item_hash :: bytes
  wr_epoch :: u64
  wr_applied_at_ms :: u64
  wr_signature :: bytes

definition receipt_payload :: "wipe_receipt \<Rightarrow> sync_error + bytes" where
  "receipt_payload r = preimage_finish
     (pre_u64_be (wr_applied_at_ms r)
       (pre_u64_be (wr_epoch r)
         (pre_fixed (wr_item_hash r)
           (pre_var (wr_device_id r)
             (pre_u64_be (ucast (wr_schema r)) (preimage_new WIPE_RECEIPT_DOMAIN))))))"

definition issue_wipe_receipt ::
  "'sk chain_crypto \<Rightarrow> string \<Rightarrow> bytes \<Rightarrow> u64 \<Rightarrow> u64 \<Rightarrow> 'sk \<Rightarrow> sync_error + wipe_receipt" where
  "issue_wipe_receipt cr device_id item_hash epoch applied_at_ms signing_key =
     (let receipt = \<lparr>wr_schema = WIPE_RECEIPT_SCHEMA, wr_device_id = device_id,
            wr_item_hash = item_hash, wr_epoch = epoch, wr_applied_at_ms = applied_at_ms,
            wr_signature = replicate 64 (CHR 0x00)\<rparr> in
      if \<not> is_valid_identifier (wr_device_id receipt) LEDGER_MAX_DEVICE_ID_BYTES
      then Inl (Invalid ''wipe receipt device identifier is invalid'')
      else try_then (receipt_payload receipt) (\<lambda>payload.
        Inr (receipt\<lparr>wr_signature := cr_sign cr signing_key payload\<rparr>)))"

definition verify_wipe_receipt ::
  "'sk chain_crypto \<Rightarrow> wipe_receipt \<Rightarrow> bytes \<Rightarrow> sync_error + unit" where
  "verify_wipe_receipt cr receipt key =
     (if wr_schema receipt \<noteq> WIPE_RECEIPT_SCHEMA
      then Inl (Invalid (''wipe receipt schema '' @ decimal (unat (wr_schema receipt)) @ '' is unsupported''))
      else try_then (receipt_payload receipt) (\<lambda>payload.
        if cr_verify cr key payload (wr_signature receipt) then Inr () else Inl Crypto))"

section \<open>What the ledger commits to\<close>

lemma ledger_link_preimage:
  "link_preimage ledger_dict e h = Inr b \<longleftrightarrow>
     length (le_signer_device e) < 2 ^ 32 \<and> length (se_peer_device (le_event e)) < 2 ^ 32 \<and>
     length (node_id (se_clock (le_event e))) < 2 ^ 32 \<and>
     b = ''vbuff-sync-ledger-v2'' @ CHR 0x00 # h @ framed (le_signer_device e) @
       se_item_hash (le_event e) @ framed (se_peer_device (le_event e)) @
       direction_discriminant (se_direction (le_event e)) # u64_be (se_epoch (le_event e)) @
       decision_discriminant (se_decision (le_event e)) # framed (node_id (se_clock (le_event e))) @
       u64_be (physical_ms (se_clock (le_event e))) @ u32_be (logical (se_clock (le_event e)))"
  by (auto simp: link_preimage_def ledger_dict_def ledger_extend_preimage_def Let_def preimage_simps)

definition ledger_payload_ok :: "ledger_entry \<Rightarrow> bool" where
  "ledger_payload_ok e \<longleftrightarrow> length (se_item_hash (le_event e)) = 32"

interpretation ledger_chain: chain_payload ledger_dict ledger_payload_ok
proof
  fix p q :: ledger_entry and h k b :: bytes
  assume "ledger_payload_ok p" "ledger_payload_ok q" and "length h = 32" "length k = 32"
    and "link_preimage ledger_dict p h = Inr b" "link_preimage ledger_dict q k = Inr b"
  then have "le_signer_device p = le_signer_device q \<and> h = k \<and>
      se_item_hash (le_event p) = se_item_hash (le_event q) \<and>
      se_peer_device (le_event p) = se_peer_device (le_event q) \<and>
      se_direction (le_event p) = se_direction (le_event q) \<and>
      se_epoch (le_event p) = se_epoch (le_event q) \<and>
      se_decision (le_event p) = se_decision (le_event q) \<and>
      se_clock (le_event p) = se_clock (le_event q)"
    unfolding ledger_link_preimage ledger_payload_ok_def
    by (auto simp: preimage_simps hlc.expand append_eq_append_conv)
  then show "p = q \<and> h = k"
    by simp
qed

text \<open>
  C5. Tamper evidence of the audit ledger: two verified ledgers of the same length and the same
  head record the same history, whoever signed them, if BLAKE3 does not collide on the bytes
  that were hashed into them. So a stored head fixes every entry, and rewriting, reordering or
  replacing any earlier event changes the head.
\<close>

theorem ledger_head_commits:
  assumes "chain_verify ledger_dict cr c keys = Inr ()" and "chain_verify ledger_dict cr c' keys' = Inr ()"
    and "\<And>b. length (cr_blake3 cr b) = 32"
    and "\<forall>link \<in> set c \<union> set c'. length (se_item_hash (le_event (cl_payload link))) = 32"
    and "\<forall>x \<in> link_preimages ledger_dict c \<union> link_preimages ledger_dict c'.
      \<forall>y \<in> link_preimages ledger_dict c \<union> link_preimages ledger_dict c'.
        cr_blake3 cr x = cr_blake3 cr y \<longrightarrow> x = y"
    and "length c = length c'" and "chain_head c = chain_head c'"
  shows "map cl_payload c = map cl_payload c'"
  using assms
  by (intro ledger_chain.head_commits [where cr = cr and au = keys and au' = keys'])
    (auto simp: chain_verify_def ledger_payload_ok_def split: if_splits)

section \<open>Attribution\<close>

lemma ledger_expected_signing_key_Inr:
  "ledger_expected_signing_key e i s keys = Inr key \<longleftrightarrow>
     (\<forall>identifier \<in> {le_signer_device e, se_peer_device (le_event e), node_id (se_clock (le_event e))}.
        is_valid_identifier identifier LEDGER_MAX_DEVICE_ID_BYTES) \<and> keys (le_signer_device e) = Some key"
  by (auto simp: ledger_expected_signing_key_def result_simps split: option.splits)

text \<open>
  Attribution: every entry of a verified ledger names a signer that the trusted key directory
  knows, with three well-formed identifiers, and carries a signature that verifies under that
  signer's key over a preimage of exactly this entry at exactly this place in the chain.
\<close>

lemma ledger_attribution:
  assumes "chain_verify ledger_dict cr c keys = Inr ()" and "i < length c"
  shows "\<exists>key preimage. keys (le_signer_device (cl_payload (c ! i))) = Some key \<and>
    link_preimage ledger_dict (cl_payload (c ! i)) (chain_head (take i c)) = Inr preimage \<and>
    cr_verify cr key preimage (cl_signature (c ! i)) \<and> cr_blake3 cr preimage = cl_hash (c ! i) \<and>
    is_valid_identifier (le_signer_device (cl_payload (c ! i))) LEDGER_MAX_DEVICE_ID_BYTES"
proof -
  have "link_ok ledger_dict cr keys i (replay_prefix ledger_dict c i) (chain_head (take i c)) (c ! i)"
    using assms by (intro verify_links_nth) (auto simp: chain_verify_def split: if_splits)
  moreover have "ce_expected_signing_key ledger_dict = ledger_expected_signing_key"
    by (simp add: ledger_dict_def)
  ultimately show ?thesis
    by (auto simp: link_ok_def ledger_expected_signing_key_Inr)
qed

section \<open>A small ledger\<close>

lemma ledger_dict_max: "ce_max_entries ledger_dict = 16384"
  by (simp add: ledger_dict_def MAX_LEDGER_ENTRIES_def)

text \<open>A signature scheme for the samples: the signature is the key followed by the message.\<close>

definition sample_crypto :: "bytes chain_crypto" where
  "sample_crypto = \<lparr>cr_blake3 = (\<lambda>b. take 32 (rev b @ replicate 32 CHR ''#'')), cr_verifying_key = id,
     cr_sign = (\<lambda>k m. k @ m), cr_key_valid = (\<lambda>_. True), cr_verify = (\<lambda>k m s. s = k @ m)\<rparr>"

lemma length_sample_blake3: "length (cr_blake3 sample_crypto b) = 32"
  by (simp add: sample_crypto_def)

definition sample_event :: sync_event where
  "sample_event = \<lparr>se_item_hash = replicate 32 (CHR 0x04), se_peer_device = ''phone'',
     se_direction = Sent, se_epoch = 2, se_decision = Allowed, se_clock = Hlc 10 0 ''laptop''\<rparr>"

definition sample_ledger :: "ledger_entry signed_chain" where
  "sample_ledger = (case append_event sample_crypto [] ''laptop'' sample_event [''laptop'' \<mapsto> ''K''] ''K'' of
     Inr (_, c) \<Rightarrow> c | Inl _ \<Rightarrow> [])"

lemma sample_append: "\<exists>h l. append_event sample_crypto [] ''laptop'' sample_event [''laptop'' \<mapsto> ''K''] ''K'' =
    Inr (h, sample_ledger) \<and> sample_ledger = [l] \<and>
    cl_payload l = \<lparr>le_signer_device = ''laptop'', le_event = sample_event\<rparr>"
proof -
  let ?e = "\<lparr>le_signer_device = ''laptop'', le_event = sample_event\<rparr>"
  have "ce_expected_signing_key ledger_dict ?e 0 (replay ledger_dict []) [''laptop'' \<mapsto> ''K''] = Inr ''K''"
    by (simp add: ledger_dict_def ledger_expected_signing_key_Inr sample_event_def is_valid_identifier_def
        is_valid_identifier_with_extra_def LEDGER_MAX_DEVICE_ID_BYTES_def is_ascii_alphanumeric_def)
  moreover obtain b where "link_preimage ledger_dict ?e (chain_head ([] :: ledger_entry signed_chain)) = Inr b"
    by (simp add: ledger_link_preimage sample_event_def)
  ultimately have "append_event sample_crypto [] ''laptop'' sample_event [''laptop'' \<mapsto> ''K''] ''K'' =
      Inr (cr_blake3 sample_crypto b, [\<lparr>cl_payload = ?e, cl_previous_hash = chain_head ([] :: ledger_entry signed_chain),
        cl_hash = cr_blake3 sample_crypto b, cl_signature = cr_sign sample_crypto ''K'' b\<rparr>])"
    by (simp add: append_event_def chain_append_Inr ledger_dict_max) (simp add: sample_crypto_def)
  then show ?thesis
    by (auto simp: sample_ledger_def)
qed

lemma sample_ledger_verified: "chain_verify ledger_dict sample_crypto sample_ledger [''laptop'' \<mapsto> ''K''] = Inr ()"
proof -
  obtain h where "append_event sample_crypto [] ''laptop'' sample_event [''laptop'' \<mapsto> ''K''] ''K'' =
      Inr (h, sample_ledger)"
    using sample_append by blast
  then show ?thesis
    unfolding append_event_def
    by (rule append_verified [rotated]) (simp_all add: chain_verify_def sample_crypto_def)
qed

lemma ledger_attribution_witness:
  "\<exists>key preimage. [''laptop'' \<mapsto> ''K''] (le_signer_device (cl_payload (sample_ledger ! 0))) = Some key \<and>
    link_preimage ledger_dict (cl_payload (sample_ledger ! 0)) (chain_head (take 0 sample_ledger)) = Inr preimage \<and>
    cr_verify sample_crypto key preimage (cl_signature (sample_ledger ! 0)) \<and>
    cr_blake3 sample_crypto preimage = cl_hash (sample_ledger ! 0) \<and>
    is_valid_identifier (le_signer_device (cl_payload (sample_ledger ! 0))) LEDGER_MAX_DEVICE_ID_BYTES"
  using sample_append by (intro ledger_attribution sample_ledger_verified) auto

text \<open>The ledger of two events, signed with a key: the signatures depend on it, the hashes do not.\<close>

definition second_event :: sync_event where
  "second_event = sample_event\<lparr>se_epoch := 3, se_clock := Hlc 11 0 ''laptop''\<rparr>"

definition sample_history :: "bytes \<Rightarrow> ledger_entry signed_chain" where
  "sample_history k = (case append_event sample_crypto [] ''laptop'' sample_event [''laptop'' \<mapsto> k] k of
     Inl _ \<Rightarrow> []
   | Inr (_, c) \<Rightarrow> (case append_event sample_crypto c ''laptop'' second_event [''laptop'' \<mapsto> k] k of Inl _ \<Rightarrow> [] | Inr (_, c') \<Rightarrow> c'))"

definition sample_preimage :: "sync_event \<Rightarrow> bytes \<Rightarrow> bytes" where
  "sample_preimage e h = ''vbuff-sync-ledger-v2'' @ CHR 0x00 # h @ framed ''laptop'' @ se_item_hash e @ framed (se_peer_device e) @
     direction_discriminant (se_direction e) # u64_be (se_epoch e) @ decision_discriminant (se_decision e) # framed (node_id (se_clock e)) @
     u64_be (physical_ms (se_clock e)) @ u32_be (logical (se_clock e))"

definition signed_link :: "bytes \<Rightarrow> sync_event \<Rightarrow> bytes \<Rightarrow> ledger_entry chain_link" where
  "signed_link k e h = \<lparr>cl_payload = \<lparr>le_signer_device = ''laptop'', le_event = e\<rparr>, cl_previous_hash = h,
     cl_hash = cr_blake3 sample_crypto (sample_preimage e h), cl_signature = k @ sample_preimage e h\<rparr>"

lemma sample_appends:
  assumes "length c < 16384" and "e = sample_event \<or> e = second_event"
  shows "append_event sample_crypto c ''laptop'' e [''laptop'' \<mapsto> k] k =
    Inr (cr_blake3 sample_crypto (sample_preimage e (chain_head c)), c @ [signed_link k e (chain_head c)])"
proof -
  have "ce_expected_signing_key ledger_dict \<lparr>le_signer_device = ''laptop'', le_event = e\<rparr> (length c) (replay ledger_dict c) [''laptop'' \<mapsto> k] = Inr k"
    using assms(2) by (auto simp: ledger_dict_def ledger_expected_signing_key_Inr sample_event_def second_event_def is_valid_identifier_def
        is_valid_identifier_with_extra_def LEDGER_MAX_DEVICE_ID_BYTES_def is_ascii_alphanumeric_def)
  moreover have "link_preimage ledger_dict \<lparr>le_signer_device = ''laptop'', le_event = e\<rparr> (chain_head c) = Inr (sample_preimage e (chain_head c))"
    using assms(2) by (auto simp: ledger_link_preimage sample_preimage_def sample_event_def second_event_def)
  ultimately show ?thesis
    using assms(1) by (simp add: append_event_def chain_append_Inr ledger_dict_max) (simp add: sample_crypto_def signed_link_def)
qed

lemma sample_history_verified:
  "chain_verify ledger_dict sample_crypto (sample_history k) [''laptop'' \<mapsto> k] = Inr ()"
  "\<exists>h. sample_history k = [signed_link k sample_event ZERO_HASH, signed_link k second_event h] \<and>
     h = cr_blake3 sample_crypto (sample_preimage sample_event ZERO_HASH)"
proof -
  let ?l = "signed_link k sample_event ZERO_HASH" and ?h = "cr_blake3 sample_crypto (sample_preimage sample_event ZERO_HASH)"
  have head: "chain_head ([] :: ledger_entry signed_chain) = ZERO_HASH" "chain_head [?l] = ?h"
    by (simp_all add: chain_head_def signed_link_def)
  have one: "append_event sample_crypto [] ''laptop'' sample_event [''laptop'' \<mapsto> k] k = Inr (?h, [?l])"
    using sample_appends [of "[]" sample_event k] by (simp add: head)
  have two: "append_event sample_crypto [?l] ''laptop'' second_event [''laptop'' \<mapsto> k] k =
      Inr (cr_blake3 sample_crypto (sample_preimage second_event ?h), [?l, signed_link k second_event ?h])"
    using sample_appends [of "[?l]" second_event k] by (simp add: head)
  from one two show shape: "\<exists>h. sample_history k = [?l, signed_link k second_event h] \<and> h = ?h"
    by (simp add: sample_history_def)
  have sound: "chain_verify ledger_dict sample_crypto c [''laptop'' \<mapsto> k] = Inr () \<Longrightarrow>
      append_event sample_crypto c ''laptop'' e [''laptop'' \<mapsto> k] k = Inr (h, c') \<Longrightarrow>
      chain_verify ledger_dict sample_crypto c' [''laptop'' \<mapsto> k] = Inr ()" for c c' e h
    unfolding append_event_def by (rule append_verified) (simp_all add: sample_crypto_def)
  have "chain_verify ledger_dict sample_crypto [] [''laptop'' \<mapsto> k] = Inr ()" by (simp add: chain_verify_def)
  from sound [OF sound [OF this one] two] show "chain_verify ledger_dict sample_crypto (sample_history k) [''laptop'' \<mapsto> k] = Inr ()"
    using shape by simp
qed

lemma sample_hashes_differ:
  "cr_blake3 sample_crypto (sample_preimage sample_event h) \<noteq> cr_blake3 sample_crypto (sample_preimage second_event h')"
proof -
  have start: "take 12 (cr_blake3 sample_crypto (p @ s)) = rev s" if "length s = 12" for p s
    using that by (simp add: sample_crypto_def min_def)
  have "\<exists>p. sample_preimage sample_event h = p @ u64_be 10 @ u32_be 0"
    unfolding sample_preimage_def by (simp add: sample_event_def flip: append_assoc append_Cons)
  moreover have "\<exists>p. sample_preimage second_event h' = p @ u64_be 11 @ u32_be 0"
    unfolding sample_preimage_def by (simp add: second_event_def flip: append_assoc append_Cons)
  moreover have "length (u64_be w @ u32_be 0) = 12" for w :: u64
    by (simp add: u64_be_def u32_be_def)
  moreover have "u64_be 10 @ u32_be 0 \<noteq> u64_be 11 @ u32_be 0" by simp
  ultimately show ?thesis using start rev_rev_ident by metis
qed

text \<open>Two ledgers with the same head, signed with different keys, so that they differ, but not in what they record.\<close>

theorem ledger_head_commits_witness:
  "chain_verify ledger_dict sample_crypto (sample_history ''K'') [''laptop'' \<mapsto> ''K''] = Inr () \<and>
   chain_verify ledger_dict sample_crypto (sample_history ''J'') [''laptop'' \<mapsto> ''J''] = Inr () \<and>
   length (sample_history ''K'') = 2 \<and> sample_history ''K'' \<noteq> sample_history ''J'' \<and>
   chain_head (sample_history ''K'') = chain_head (sample_history ''J'') \<and>
   map cl_payload (sample_history ''K'') = map cl_payload (sample_history ''J'')"
proof -
  obtain h where h: "h = cr_blake3 sample_crypto (sample_preimage sample_event ZERO_HASH)" by blast
  have shape: "sample_history k = [signed_link k sample_event ZERO_HASH, signed_link k second_event h]" for k
    using sample_history_verified(2) [of k] h by simp
  have pre: "link_preimages ledger_dict (sample_history k) \<subseteq> {sample_preimage sample_event ZERO_HASH, sample_preimage second_event h}" for k
    by (auto simp: link_preimages_def shape signed_link_def ledger_link_preimage sample_preimage_def)
  note differ = sample_hashes_differ [of ZERO_HASH h]
  have "\<forall>x \<in> link_preimages ledger_dict (sample_history ''K'') \<union> link_preimages ledger_dict (sample_history ''J'').
      \<forall>y \<in> link_preimages ledger_dict (sample_history ''K'') \<union> link_preimages ledger_dict (sample_history ''J'').
        cr_blake3 sample_crypto x = cr_blake3 sample_crypto y \<longrightarrow> x = y"
    using pre [of "''K''"] pre [of "''J''"] differ differ [symmetric] by blast
  moreover have "\<forall>link \<in> set (sample_history ''K'') \<union> set (sample_history ''J''). length (se_item_hash (le_event (cl_payload link))) = 32"
    by (simp add: shape signed_link_def sample_event_def second_event_def)
  moreover have "length (sample_history k) = 2" "chain_head (sample_history k) = cr_blake3 sample_crypto (sample_preimage second_event h)" for k
    by (simp_all add: shape chain_head_def signed_link_def)
  moreover have "sample_history ''K'' \<noteq> sample_history ''J''" by (simp add: shape signed_link_def)
  ultimately show ?thesis
    using ledger_head_commits [OF sample_history_verified(1) sample_history_verified(1) length_sample_blake3]
      sample_history_verified(1) by simp
qed

end
