(* ===== verification/Burn.thy ===== *)
theory Burn
  imports Sync_Ledger Replay_Guard
begin

text \<open>
  Single-use delivery of a secret and its verified wipe, \<open>crates/vbuff-sync/src/burn.rs\<close>: the
  states of a session, its operations, and the session as a machine of those operations. A
  failing operation leaves the session as it was. \<open>VerifyingKey\<close> is a key's bytes and its
  \<open>verify\<close> is the field \<open>cr_verify\<close> of \<open>chain_crypto\<close>.
\<close>

datatype burn_state =
    Armed
  | Delivered string
  | Pasted string
  | Wiping
  | Complete

record burn_session =
  bs_item_hash :: bytes
  bs_epoch :: u64
  bs_expected_devices :: "string set"
  bs_wiped_devices :: "string set"
  bs_state :: burn_state

definition burn_new :: "bytes \<Rightarrow> u64 \<Rightarrow> string set \<Rightarrow> sync_error + burn_session" where
  "burn_new item_hash epoch expected_devices =
     (if epoch = 0 \<or> expected_devices = {} \<or> [] \<in> expected_devices
      then Inl (Invalid ''invalid burn session'')
      else Inr \<lparr>bs_item_hash = item_hash, bs_epoch = epoch, bs_expected_devices = expected_devices,
             bs_wiped_devices = {}, bs_state = Armed\<rparr>)"

definition burn_delivered :: "burn_session \<Rightarrow> string \<Rightarrow> sync_error + burn_session" where
  "burn_delivered s target_device =
     (if bs_state s \<noteq> Armed then Inl (Invalid ''burn clip was already delivered'')
      else if target_device \<notin> bs_expected_devices s then Inl (Invalid ''unexpected burn target'')
      else Inr (s\<lparr>bs_state := Delivered target_device\<rparr>))"

definition pasted_once :: "burn_session \<Rightarrow> sync_error + burn_session" where
  "pasted_once s = (case bs_state s of
     Delivered target_device \<Rightarrow> Inr (s\<lparr>bs_state := Pasted target_device\<rparr>)
   | _ \<Rightarrow> Inl (Invalid ''burn clip cannot be pasted in this state''))"

definition begin_wipe :: "burn_session \<Rightarrow> sync_error + burn_session" where
  "begin_wipe s = (case bs_state s of
     Pasted _ \<Rightarrow> Inr (s\<lparr>bs_state := Wiping\<rparr>)
   | _ \<Rightarrow> Inl (Invalid ''burn clip was not pasted''))"

definition accept_receipt ::
  "'sk chain_crypto \<Rightarrow> burn_session \<Rightarrow> wipe_receipt \<Rightarrow> (string \<rightharpoonup> bytes) \<Rightarrow>
     sync_error + (bool \<times> burn_session)" where
  "accept_receipt cr s receipt keys =
     (if bs_state s \<noteq> Wiping \<or> wr_item_hash receipt \<noteq> bs_item_hash s \<or>
         wr_epoch receipt \<noteq> bs_epoch s \<or> wr_device_id receipt \<notin> bs_expected_devices s
      then Inl (Invalid ''wipe receipt does not match burn session'')
      else (case keys (wr_device_id receipt) of
          None \<Rightarrow> Inl (Invalid ''unknown wipe signer'')
        | Some key \<Rightarrow> try_then (verify_wipe_receipt cr receipt key) (\<lambda>_.
            let s' = s\<lparr>bs_wiped_devices := insert (wr_device_id receipt) (bs_wiped_devices s)\<rparr> in
            if bs_wiped_devices s' = bs_expected_devices s'
            then Inr (True, s'\<lparr>bs_state := Complete\<rparr>) else Inr (False, s'))))"

section \<open>The session as a machine\<close>

datatype burn_op =
    DeliverTo string
  | PasteOnce
  | BeginWipe
  | AcceptReceipt wipe_receipt

definition or_unchanged :: "'s \<Rightarrow> 'e + 's \<Rightarrow> 's" where
  "or_unchanged s r = (case r of Inl _ \<Rightarrow> s | Inr s' \<Rightarrow> s')"

fun burn_step :: "'sk chain_crypto \<Rightarrow> (string \<rightharpoonup> bytes) \<Rightarrow> burn_session \<Rightarrow> burn_op \<Rightarrow> burn_session" where
  "burn_step cr keys s (DeliverTo d) = or_unchanged s (burn_delivered s d)"
| "burn_step cr keys s PasteOnce = or_unchanged s (pasted_once s)"
| "burn_step cr keys s BeginWipe = or_unchanged s (begin_wipe s)"
| "burn_step cr keys s (AcceptReceipt r) =
     (case accept_receipt cr s r keys of Inl _ \<Rightarrow> s | Inr (_, s') \<Rightarrow> s')"

text \<open>The device that a paste delivers the secret to, when the operation pastes it.\<close>

fun burn_pastes :: "burn_session \<Rightarrow> burn_op \<Rightarrow> string option" where
  "burn_pastes s PasteOnce = (case bs_state s of Delivered d \<Rightarrow> Some d | _ \<Rightarrow> None)"
| "burn_pastes s _ = None"

lemmas burn_defs = burn_delivered_def pasted_once_def begin_wipe_def accept_receipt_def or_unchanged_def

text \<open>The phases are passed in order, none is ever left for an earlier one.\<close>

fun phase :: "burn_state \<Rightarrow> nat" where
  "phase Armed = 0"
| "phase (Delivered _) = 1"
| "phase (Pasted _) = 2"
| "phase Wiping = 3"
| "phase Complete = 4"

definition burn_inv :: "burn_session \<Rightarrow> bool" where
  "burn_inv s \<longleftrightarrow> bs_wiped_devices s \<subseteq> bs_expected_devices s \<and>
     (phase (bs_state s) \<le> 2 \<longrightarrow> bs_wiped_devices s = {}) \<and>
     (bs_state s = Complete \<longrightarrow> bs_wiped_devices s = bs_expected_devices s)"

lemma accept_receipt_Inr:
  "accept_receipt cr s r keys = Inr (b, s') \<longleftrightarrow>
     bs_state s = Wiping \<and> wr_item_hash r = bs_item_hash s \<and> wr_epoch r = bs_epoch s \<and>
     wr_device_id r \<in> bs_expected_devices s \<and>
     (\<exists>key. keys (wr_device_id r) = Some key \<and> verify_wipe_receipt cr r key = Inr ()) \<and>
     b = (insert (wr_device_id r) (bs_wiped_devices s) = bs_expected_devices s) \<and>
     s' = s\<lparr>bs_wiped_devices := insert (wr_device_id r) (bs_wiped_devices s),
            bs_state := (if b then Complete else Wiping)\<rparr>"
  by (cases s) (auto simp: accept_receipt_def Let_def result_simps split: option.splits if_splits)

lemma burn_step_inv: "burn_inv s \<Longrightarrow> burn_inv (burn_step cr keys s op)"
  by (cases op) (auto simp: burn_inv_def burn_delivered_def pasted_once_def begin_wipe_def or_unchanged_def
      accept_receipt_Inr split: sum.split burn_state.split)

lemma burn_step_phase: "phase (bs_state s) \<le> phase (bs_state (burn_step cr keys s op))"
  by (cases op) (auto simp: burn_delivered_def pasted_once_def begin_wipe_def or_unchanged_def
      accept_receipt_Inr split: sum.split burn_state.split)

interpretation burn_machine: ranked_machine "burn_step cr keys" burn_inv "\<lambda>s. phase (bs_state s)"
  for cr :: "'sk chain_crypto" and keys
  by unfold_locales (simp_all add: burn_step_inv burn_step_phase)

lemma burn_step_frame:
  "bs_expected_devices (burn_step cr keys s op) = bs_expected_devices s \<and>
   bs_item_hash (burn_step cr keys s op) = bs_item_hash s \<and> bs_epoch (burn_step cr keys s op) = bs_epoch s"
  by (cases op) (auto simp: burn_delivered_def pasted_once_def begin_wipe_def or_unchanged_def
      accept_receipt_Inr split: sum.split burn_state.split)

lemma burn_run_frame:
  "bs_expected_devices (run (burn_step cr keys) s ops) = bs_expected_devices s \<and>
   bs_item_hash (run (burn_step cr keys) s ops) = bs_item_hash s \<and>
   bs_epoch (run (burn_step cr keys) s ops) = bs_epoch s"
  by (induction ops arbitrary: s) (auto simp: burn_step_frame)

interpretation burn_paste: refusal "burn_step cr keys" burn_inv
  "\<lambda>s op. if burn_pastes s op = None then None else Some ()" "\<lambda>_ s. 2 \<le> phase (bs_state s)"
  for cr :: "'sk chain_crypto" and keys
proof
  fix s op t
  show "2 \<le> phase (bs_state s) \<Longrightarrow> 2 \<le> phase (bs_state (burn_step cr keys s op))"
    using burn_step_phase [of s cr keys op] by linarith
  show "2 \<le> phase (bs_state s) \<Longrightarrow> (if burn_pastes s op = None then None else Some ()) \<noteq> Some t"
    by (cases op) (auto split: burn_state.splits)
qed

lemma burn_new_Inr:
  "burn_new h e ds = Inr s \<longleftrightarrow> e \<noteq> 0 \<and> ds \<noteq> {} \<and> [] \<notin> ds \<and>
     s = \<lparr>bs_item_hash = h, bs_epoch = e, bs_expected_devices = ds, bs_wiped_devices = {}, bs_state = Armed\<rparr>"
  by (auto simp: burn_new_def)

text \<open>A device is in the wiped set because of a receipt of the run.\<close>

definition receipt_for :: "'sk chain_crypto \<Rightarrow> (string \<rightharpoonup> bytes) \<Rightarrow> burn_session \<Rightarrow> string \<Rightarrow> wipe_receipt \<Rightarrow> bool" where
  "receipt_for cr keys s d r \<longleftrightarrow> wr_device_id r = d \<and> wr_item_hash r = bs_item_hash s \<and>
     wr_epoch r = bs_epoch s \<and> (\<exists>key. keys d = Some key \<and> verify_wipe_receipt cr r key = Inr ())"

lemma burn_wiped_step:
  "d \<in> bs_wiped_devices (burn_step cr keys s op) \<Longrightarrow> d \<notin> bs_wiped_devices s \<Longrightarrow>
     \<exists>r. op = AcceptReceipt r \<and> receipt_for cr keys s d r"
  by (cases op) (auto simp: burn_delivered_def pasted_once_def begin_wipe_def or_unchanged_def receipt_for_def
      accept_receipt_Inr split: sum.splits burn_state.splits if_splits)

lemma burn_wiped_run:
  "d \<in> bs_wiped_devices (run (burn_step cr keys) s ops) \<Longrightarrow> d \<notin> bs_wiped_devices s \<Longrightarrow>
     \<exists>r. AcceptReceipt r \<in> set ops \<and> receipt_for cr keys s d r"
proof (induction ops arbitrary: s)
  case (Cons op ops)
  show ?case
  proof (cases "d \<in> bs_wiped_devices (burn_step cr keys s op)")
    case True
    then show ?thesis using burn_wiped_step Cons.prems(2) by fastforce
  next
    case False
    then obtain r where "AcceptReceipt r \<in> set ops" "receipt_for cr keys (burn_step cr keys s op) d r"
      using Cons.IH [of "burn_step cr keys s op"] Cons.prems(1) by auto
    then show ?thesis
      by (auto simp: receipt_for_def burn_step_frame)
  qed
qed simp

section \<open>One paste, and no completion without every wipe\<close>

text \<open>
  Burn after reading: in every history of a session, once a paste has handed out the secret no
  later operation of any kind hands it out again.
\<close>

lemma burn_pastes_once:
  assumes "burn_new h e ds = Inr s0" and "s = run (burn_step cr keys) s0 before"
    and "burn_pastes s op = Some d"
  shows "burn_pastes (run (burn_step cr keys) (burn_step cr keys s op) after) op' = None"
proof -
  have "burn_inv s0"
    using assms(1) by (simp add: burn_new_Inr burn_inv_def)
  then have "burn_inv (burn_step cr keys s op)"
    unfolding assms(2) by (intro burn_machine.inv_step burn_machine.inv_run)
  moreover have "2 \<le> phase (bs_state (burn_step cr keys s op))"
    using assms(3) by (cases op) (auto simp: pasted_once_def or_unchanged_def split: burn_state.splits)
  ultimately show ?thesis
    using burn_paste.never_accepted [of "burn_step cr keys s op" cr keys after op' "()"] by metis
qed

text \<open>
  C6. A session reports completion only with proof: when any history of it ends in \<open>Complete\<close>, then
  for every expected device that history contains a receipt from this device, for this item and
  epoch, whose signature verifies under the device's registered key, and there is such a device.
\<close>

theorem burn_complete_is_proved:
  assumes "burn_new h e ds = Inr s0" and "bs_state (run (burn_step cr keys) s0 ops) = Complete"
  shows "ds \<noteq> {} \<and> (\<forall>d \<in> ds. \<exists>r key. AcceptReceipt r \<in> set ops \<and> wr_device_id r = d \<and>
    wr_item_hash r = h \<and> wr_epoch r = e \<and> keys d = Some key \<and> verify_wipe_receipt cr r key = Inr ())"
proof -
  have s0: "bs_expected_devices s0 = ds" "bs_wiped_devices s0 = {}" "bs_item_hash s0 = h" "bs_epoch s0 = e"
    "burn_inv s0" "ds \<noteq> {}"
    using assms(1) by (auto simp: burn_new_Inr burn_inv_def)
  then have "burn_inv (run (burn_step cr keys) s0 ops)"
    by (intro burn_machine.inv_run)
  then have "bs_wiped_devices (run (burn_step cr keys) s0 ops) = ds"
    using assms(2) s0 by (simp add: burn_inv_def burn_run_frame)
  then have "\<exists>r. AcceptReceipt r \<in> set ops \<and> receipt_for cr keys s0 d r" if "d \<in> ds" for d
    using burn_wiped_run [of d cr keys s0 ops] that s0 by simp
  with s0 show ?thesis
    unfolding receipt_for_def by metis
qed

definition sample_receipt :: wipe_receipt where
  "sample_receipt = (case issue_wipe_receipt sample_crypto ''phone'' ''h'' 4 10 ''P'' of
     Inr r \<Rightarrow> r | Inl _ \<Rightarrow> \<lparr>wr_schema = 0, wr_device_id = [], wr_item_hash = [], wr_epoch = 0,
       wr_applied_at_ms = 0, wr_signature = []\<rparr>)"

definition sample_burn :: burn_session where
  "sample_burn = \<lparr>bs_item_hash = ''h'', bs_epoch = 4, bs_expected_devices = {''phone''},
     bs_wiped_devices = {}, bs_state = Armed\<rparr>"

definition sample_burn_ops :: "burn_op list" where
  "sample_burn_ops = [DeliverTo ''phone'', PasteOnce, BeginWipe, AcceptReceipt sample_receipt]"

lemma sample_burn_new: "burn_new ''h'' 4 {''phone''} = Inr sample_burn"
  by (simp add: burn_new_Inr sample_burn_def)

lemma issue_then_verify:
  assumes "issue_wipe_receipt cr d h e t sk = Inr r"
    and "\<And>m. cr_verify cr key m (cr_sign cr sk m)"
  shows "verify_wipe_receipt cr r key = Inr () \<and> wr_device_id r = d \<and> wr_item_hash r = h \<and> wr_epoch r = e"
  using assms
  by (auto simp: issue_wipe_receipt_def Let_def result_simps verify_wipe_receipt_def receipt_payload_def
      split: if_splits)

lemma sample_receipt_verified:
  "verify_wipe_receipt sample_crypto sample_receipt ''P'' = Inr () \<and> wr_device_id sample_receipt = ''phone'' \<and>
   wr_item_hash sample_receipt = ''h'' \<and> wr_epoch sample_receipt = 4"
proof -
  have "\<exists>r. issue_wipe_receipt sample_crypto ''phone'' ''h'' 4 10 ''P'' = Inr r"
    by (simp add: issue_wipe_receipt_def Let_def result_simps receipt_payload_def preimage_simps
        is_valid_identifier_def is_valid_identifier_with_extra_def LEDGER_MAX_DEVICE_ID_BYTES_def
        is_ascii_alphanumeric_def)
  then obtain r where r: "issue_wipe_receipt sample_crypto ''phone'' ''h'' 4 10 ''P'' = Inr r" ..
  then have "sample_receipt = r"
    by (simp add: sample_receipt_def)
  with issue_then_verify [OF r, of "''P''"] show ?thesis
    by (simp add: sample_crypto_def)
qed

lemma burn_pastes_once_witness:
  "burn_pastes (run (burn_step sample_crypto [''phone'' \<mapsto> ''P'']) sample_burn [DeliverTo ''phone'']) PasteOnce
     = Some ''phone'' \<and>
   burn_pastes (run (burn_step sample_crypto [''phone'' \<mapsto> ''P''])
       (burn_step sample_crypto [''phone'' \<mapsto> ''P'']
         (run (burn_step sample_crypto [''phone'' \<mapsto> ''P'']) sample_burn [DeliverTo ''phone'']) PasteOnce)
       [DeliverTo ''phone'']) PasteOnce = None"
proof
  show p: "burn_pastes (run (burn_step sample_crypto [''phone'' \<mapsto> ''P'']) sample_burn [DeliverTo ''phone''])
      PasteOnce = Some ''phone''"
    by (simp add: sample_burn_def burn_delivered_def or_unchanged_def)
  show "burn_pastes (run (burn_step sample_crypto [''phone'' \<mapsto> ''P''])
       (burn_step sample_crypto [''phone'' \<mapsto> ''P'']
         (run (burn_step sample_crypto [''phone'' \<mapsto> ''P'']) sample_burn [DeliverTo ''phone'']) PasteOnce)
       [DeliverTo ''phone'']) PasteOnce = None"
    by (rule burn_pastes_once [OF sample_burn_new refl p])
qed

lemma burn_complete_is_proved_witness:
  "bs_state (run (burn_step sample_crypto [''phone'' \<mapsto> ''P'']) sample_burn sample_burn_ops) = Complete \<and>
   (\<exists>r key. AcceptReceipt r \<in> set sample_burn_ops \<and> wr_device_id r = ''phone'' \<and>
      wr_item_hash r = ''h'' \<and> wr_epoch r = 4 \<and> [''phone'' \<mapsto> ''P''] ''phone'' = Some key \<and>
      verify_wipe_receipt sample_crypto r key = Inr ())"
proof (rule conjI)
  show c: "bs_state (run (burn_step sample_crypto [''phone'' \<mapsto> ''P'']) sample_burn sample_burn_ops) = Complete"
    using sample_receipt_verified
    by (simp add: sample_burn_ops_def sample_burn_def burn_defs Let_def)
  show "\<exists>r key. AcceptReceipt r \<in> set sample_burn_ops \<and> wr_device_id r = ''phone'' \<and>
      wr_item_hash r = ''h'' \<and> wr_epoch r = 4 \<and> [''phone'' \<mapsto> ''P''] ''phone'' = Some key \<and>
      verify_wipe_receipt sample_crypto r key = Inr ()"
    using burn_complete_is_proved [OF sample_burn_new c] by blast
qed

end
