(* ===== verification/Capability.thy ===== *)
theory Capability
  imports Replay_Guard Validation
begin

text \<open>
  Scoped one-shot capability tokens, \<open>crates/vbuff-sync/src/capability.rs\<close>. The parameters of
  the model are the base64url decoder, HMAC and the JSON reader of a scope
  (\<open>capability_env\<close>); the two replay windows and every branch of the verifier are the code's.
\<close>

datatype capability_action = PushOneItem

record capability_scope =
  cs_target_device :: string
  cs_item_hash :: bytes
  cs_action :: capability_action
  cs_expires_at_ms :: u64
  cs_nonce :: bytes

record capability_env =
  ce_b64_decode :: "string \<Rightarrow> bytes option"
  ce_hmac :: "bytes \<Rightarrow> bytes \<Rightarrow> bytes"
  ce_scope_of_json :: "bytes \<Rightarrow> capability_scope option"

record capability_verifier =
  cv_consumed :: "(bytes, unit) replay_guard"
  cv_revoked :: "(bytes, unit) replay_guard"

definition MAX_CAPABILITY_TOKEN_BYTES :: nat where
  "MAX_CAPABILITY_TOKEN_BYTES = 4 * 1024"

definition CAPABILITY_DOMAIN :: mac_domain where
  "CAPABILITY_DOMAIN = mac_domain_new ''vbuff-capability-token-v2''"

definition capability_default :: capability_verifier where
  "capability_default =
     \<lparr>cv_consumed = replay_new MAX_REPLAY_ENTRIES, cv_revoked = replay_new MAX_REPLAY_ENTRIES\<rparr>"

definition capability_token_proof ::
  "capability_env \<Rightarrow> bytes \<Rightarrow> bytes \<Rightarrow> bytes \<Rightarrow> bool" where
  "capability_token_proof env secret payload signature =
     mac_verify (ce_hmac env) CAPABILITY_DOMAIN secret [payload] signature"

text \<open>The parse of a token: size, framing, MAC and JSON, in the code's order.\<close>

definition read_capability ::
  "capability_env \<Rightarrow> bytes \<Rightarrow> string \<Rightarrow> sync_error + capability_scope" where
  "read_capability env secret token =
     (if length token > MAX_CAPABILITY_TOKEN_BYTES
      then Inl (Invalid ''capability token is too large'')
      else case split_once CHR ''.'' token of
        None \<Rightarrow> Inl (Invalid ''malformed capability token'')
      | Some (payload64, signature64) \<Rightarrow>
        (case ce_b64_decode env payload64 of
          None \<Rightarrow> Inl (Invalid ''invalid capability payload'')
        | Some payload \<Rightarrow>
          (case ce_b64_decode env signature64 of
            None \<Rightarrow> Inl (Invalid ''invalid capability signature'')
          | Some signature \<Rightarrow>
            if \<not> capability_token_proof env secret payload signature then Inl Crypto
            else case ce_scope_of_json env payload of
              None \<Rightarrow> Inl Serialization | Some scope \<Rightarrow> Inr scope)))"

definition capability_verify_and_consume ::
  "capability_env \<Rightarrow> capability_verifier \<Rightarrow> bytes \<Rightarrow> string \<Rightarrow> u64 \<Rightarrow>
     capability_verifier \<times> (sync_error + capability_scope)" where
  "capability_verify_and_consume env v secret token now =
     (let (consumed, now1) = advance_to (cv_consumed v) now;
          (revoked, now2) = advance_to (cv_revoked v) now1;
          v1 = v\<lparr>cv_consumed := consumed, cv_revoked := revoked\<rparr>
      in case read_capability env secret token of
        Inl e \<Rightarrow> (v1, Inl e)
      | Inr scope \<Rightarrow>
          if cs_expires_at_ms scope \<le> now2 then (v1, Inl (Invalid ''capability expired''))
          else if replay_contains revoked (cs_nonce scope) \<or> replay_contains consumed (cs_nonce scope)
          then (v1, Inl (Invalid ''capability already consumed or revoked''))
          else case burn consumed (cs_nonce scope) (cs_expires_at_ms scope) of
            Inl _ \<Rightarrow> (v1, Inl (Invalid ''capability replay window is full''))
          | Inr consumed' \<Rightarrow> (v1\<lparr>cv_consumed := consumed'\<rparr>, Inr scope))"

definition capability_revoke ::
  "capability_verifier \<Rightarrow> bytes \<Rightarrow> u64 \<Rightarrow> sync_error + capability_verifier" where
  "capability_revoke v nonce expires =
     (case burn (cv_revoked v) nonce expires of
        Inl _ \<Rightarrow> Inl (Invalid ''capability revocation window is full'')
      | Inr revoked \<Rightarrow> Inr (v\<lparr>cv_revoked := revoked\<rparr>))"

section \<open>The verifier as a machine\<close>

datatype capability_op = VerifyCapability bytes string u64 | RevokeCapability bytes u64

fun capability_step :: "capability_env \<Rightarrow> capability_verifier \<Rightarrow> capability_op \<Rightarrow> capability_verifier" where
  "capability_step env v (VerifyCapability secret token now) =
     fst (capability_verify_and_consume env v secret token now)"
| "capability_step env v (RevokeCapability nonce expires) =
     (case capability_revoke v nonce expires of Inl _ \<Rightarrow> v | Inr v' \<Rightarrow> v')"

fun capability_accepts ::
  "capability_env \<Rightarrow> capability_verifier \<Rightarrow> capability_op \<Rightarrow> capability_scope option" where
  "capability_accepts env v (VerifyCapability secret token now) =
     (case snd (capability_verify_and_consume env v secret token now) of
        Inl _ \<Rightarrow> None | Inr scope \<Rightarrow> Some scope)"
| "capability_accepts env v (RevokeCapability nonce expires) = None"

definition capability_ok :: "capability_verifier \<Rightarrow> bool" where
  "capability_ok v \<longleftrightarrow> replay_ok (cv_consumed v) \<and> replay_ok (cv_revoked v)"

definition capability_spent :: "capability_scope \<Rightarrow> capability_verifier \<Rightarrow> bool" where
  "capability_spent t v = covered (cs_nonce t) (\<lambda>_. True) (cs_expires_at_ms t) (cv_consumed v)"

definition capability_revoked :: "capability_scope \<Rightarrow> capability_verifier \<Rightarrow> bool" where
  "capability_revoked t v = covered (cs_nonce t) (\<lambda>_. True) (cs_expires_at_ms t) (cv_revoked v)"

lemma capability_ok_default [simp]: "capability_ok capability_default"
  by (simp add: capability_ok_def capability_default_def)

lemma capability_revoke_Inr:
  "capability_revoke v n e = Inr v' \<Longrightarrow>
     \<exists>r. replay_record (cv_revoked v) n () e = Inr r \<and> v' = v\<lparr>cv_revoked := r\<rparr>"
  by (auto simp: capability_revoke_def burn_def split: sum.splits)

text \<open>Every outcome of a verification: the windows advance, and an acceptance burns the nonce.\<close>

lemma capability_verify_cases:
  fixes env v secret token now
  defines "c \<equiv> fst (advance_to (cv_consumed v) now)"
    and "r \<equiv> fst (advance_to (cv_revoked v) (max (rg_clock_floor_ms (cv_consumed v)) now))"
    and "out \<equiv> capability_verify_and_consume env v secret token now"
  shows "(\<exists>e. snd out = Inl e \<and> fst out = v\<lparr>cv_consumed := c, cv_revoked := r\<rparr>) \<or>
    (\<exists>t c'. snd out = Inr t \<and> replay_record c (cs_nonce t) () (cs_expires_at_ms t) = Inr c' \<and>
      fst out = v\<lparr>cv_consumed := c', cv_revoked := r\<rparr> \<and>
      \<not> cs_expires_at_ms t \<le> rg_clock_floor_ms c \<and> \<not> cs_expires_at_ms t \<le> rg_clock_floor_ms r \<and>
      \<not> replay_contains c (cs_nonce t) \<and> \<not> replay_contains r (cs_nonce t))"
  unfolding out_def c_def r_def
  by (auto simp: capability_verify_and_consume_def burn_def Let_def case_prod_beta snd_advance_to
      le_max_iff_disj split: sum.splits)

interpretation capability_machine: machine "capability_step env" capability_ok for env
proof
  fix v :: capability_verifier and op
  assume ok: "capability_ok v"
  show "capability_ok (capability_step env v op)"
  proof (cases op)
    case (VerifyCapability secret token now)
    with ok capability_verify_cases [where env = env and v = v and secret = secret
        and token = token and now = now] show ?thesis
      by (auto simp: capability_ok_def intro: replay_rules)
  next
    case (RevokeCapability n e)
    with ok show ?thesis
      by (auto simp: capability_ok_def dest!: capability_revoke_Inr intro: replay_rules
          split: sum.splits)
  qed
qed

lemma covered_not_contains:
  "covered k (\<lambda>_. True) e g \<Longrightarrow> \<not> e \<le> rg_clock_floor_ms g \<Longrightarrow> replay_contains g k"
  by (auto simp: covered_def replay_contains_def bt_contains_def)

interpretation capability_consumed:
  one_shot "capability_step env" capability_ok "capability_accepts env" capability_spent for env
proof
  fix v :: capability_verifier and op t
  assume ok: "capability_ok v"
  show "capability_spent t (capability_step env v op)" if "capability_spent t v"
  proof (cases op)
    case (VerifyCapability secret token now)
    with ok that capability_verify_cases [where env = env and v = v and secret = secret
        and token = token and now = now] show ?thesis
      by (auto simp: capability_ok_def capability_spent_def intro: replay_rules)
  next
    case (RevokeCapability n e)
    with that show ?thesis
      by (auto simp: capability_spent_def dest!: capability_revoke_Inr split: sum.splits)
  qed
  show "capability_accepts env v op \<noteq> Some t" if "capability_spent t v"
  proof (cases op)
    case (VerifyCapability secret token now)
    have "covered (cs_nonce t) (\<lambda>_. True) (cs_expires_at_ms t) (fst (advance_to (cv_consumed v) now))"
      using ok that by (auto simp: capability_ok_def capability_spent_def intro: replay_rules)
    with VerifyCapability capability_verify_cases [where env = env and v = v and secret = secret
        and token = token and now = now] show ?thesis
      by (auto dest: covered_not_contains split: sum.splits)
  qed simp
  show "capability_spent t (capability_step env v op)" if "capability_accepts env v op = Some t"
  proof (cases op)
    case (VerifyCapability secret token now)
    with that capability_verify_cases [where env = env and v = v and secret = secret
        and token = token and now = now] show ?thesis
      by (auto simp: capability_spent_def intro: record_covers split: sum.splits)
  qed (use that in simp)
qed

interpretation capability_revocation:
  refusal "capability_step env" capability_ok "capability_accepts env" capability_revoked for env
proof
  fix v :: capability_verifier and op t
  assume ok: "capability_ok v"
  show "capability_revoked t (capability_step env v op)" if "capability_revoked t v"
  proof (cases op)
    case (VerifyCapability secret token now)
    with ok that capability_verify_cases [where env = env and v = v and secret = secret
        and token = token and now = now] show ?thesis
      by (auto simp: capability_ok_def capability_revoked_def intro: replay_rules)
  next
    case (RevokeCapability n e)
    with that show ?thesis
      by (auto simp: capability_revoked_def dest!: capability_revoke_Inr
          intro: replay_rules split: sum.splits)
  qed
  show "capability_accepts env v op \<noteq> Some t" if "capability_revoked t v"
  proof (cases op)
    case (VerifyCapability secret token now)
    have "covered (cs_nonce t) (\<lambda>_. True) (cs_expires_at_ms t)
        (fst (advance_to (cv_revoked v) (max (rg_clock_floor_ms (cv_consumed v)) now)))"
      using ok that by (auto simp: capability_ok_def capability_revoked_def intro: replay_rules)
    with VerifyCapability capability_verify_cases [where env = env and v = v and secret = secret
        and token = token and now = now] show ?thesis
      by (auto dest: covered_not_contains split: sum.splits)
  qed simp
qed

section \<open>No token twice, no token after its revocation\<close>

text \<open>
  From the initial verifier, after any sequence of verifications and revocations with any
  clocks (also clocks that go back), a scope that a verification accepts is accepted by no later
  verification: neither expiry and eviction nor a full window makes a capability reusable.
\<close>

lemma capability_one_shot:
  assumes "v = run (capability_step env) capability_default before"
    and "capability_accepts env v op = Some scope"
  shows "capability_accepts env (run (capability_step env) (capability_step env v op) after) op' \<noteq> Some scope"
proof -
  have "capability_ok v"
    unfolding assms(1) by (rule capability_machine.inv_run) simp
  then show ?thesis
    using assms(2) by (rule capability_consumed.accepted_at_most_once)
qed

text \<open>
  C1. A successful revocation of a nonce until \<open>e\<close> is final for every scope with that nonce that
  expires by \<open>e\<close>: no later verification accepts it, whatever happens in between.
\<close>

theorem capability_revocation_final:
  assumes "v = run (capability_step env) capability_default before"
    and "capability_revoke v (cs_nonce scope) e = Inr v'" and "cs_expires_at_ms scope \<le> e"
  shows "capability_accepts env (run (capability_step env) v' after) op \<noteq> Some scope"
proof -
  have "capability_ok v"
    unfolding assms(1) by (rule capability_machine.inv_run) simp
  moreover obtain r where r: "replay_record (cv_revoked v) (cs_nonce scope) () e = Inr r"
    "v' = v\<lparr>cv_revoked := r\<rparr>"
    using capability_revoke_Inr [OF assms(2)] by blast
  ultimately have "capability_ok v'"
    by (auto simp: capability_ok_def intro: replay_rules)
  moreover have "covered (cs_nonce scope) (\<lambda>_. True) e r"
    using r(1) by (rule record_covers) simp
  then have "capability_revoked scope v'"
    using assms(3) r(2) by (auto simp: capability_revoked_def covered_def intro: order_trans)
  ultimately show ?thesis
    by (rule capability_revocation.never_accepted)
qed

definition sample_scope :: capability_scope where
  "sample_scope = \<lparr>cs_target_device = ''phone'', cs_item_hash = replicate 32 CHR ''h'',
     cs_action = PushOneItem, cs_expires_at_ms = 100, cs_nonce = replicate 16 CHR ''n''\<rparr>"

definition sample_env :: capability_env where
  "sample_env = \<lparr>ce_b64_decode = Some, ce_hmac = (\<lambda>k m. ''t''), ce_scope_of_json = (\<lambda>_. Some sample_scope)\<rparr>"

lemmas capability_eval = capability_default_def capability_verify_and_consume_def
  read_capability_def split_once_def capability_token_proof_def mac_verify_def hmac_proof_def
  sample_env_def sample_scope_def advance_to_def replay_new_def burn_def replay_record_def
  replay_contains_def bt_contains_def MAX_CAPABILITY_TOKEN_BYTES_def MAX_REPLAY_ENTRIES_def Let_def
  capability_revoke_def

lemma sample_accepted:
  "capability_accepts sample_env capability_default (VerifyCapability ''k'' ''p.t'' 7) = Some sample_scope"
  by (simp add: capability_eval)

lemma capability_one_shot_witness:
  "capability_accepts sample_env capability_default (VerifyCapability ''k'' ''p.t'' 7) = Some sample_scope \<and>
   capability_accepts sample_env
     (run (capability_step sample_env)
        (capability_step sample_env capability_default (VerifyCapability ''k'' ''p.t'' 7))
        [VerifyCapability ''k'' ''p.t'' 200])
     (VerifyCapability ''k'' ''p.t'' 8) \<noteq> Some sample_scope"
  by (rule conjI [OF sample_accepted
      capability_one_shot [OF run.simps(1) [symmetric] sample_accepted]])

lemma capability_revocation_final_witness:
  "\<exists>v'. capability_revoke capability_default (cs_nonce sample_scope) 100 = Inr v' \<and>
     capability_accepts sample_env (run (capability_step sample_env) v' [])
       (VerifyCapability ''k'' ''p.t'' 7) \<noteq> Some sample_scope"
proof -
  obtain v' where v': "capability_revoke capability_default (cs_nonce sample_scope) 100 = Inr v'"
    by (simp add: capability_eval)
  have "cs_expires_at_ms sample_scope \<le> 100"
    by (simp add: sample_scope_def)
  from capability_revocation_final [OF run.simps(1) [symmetric] v' this] v' show ?thesis
    by blast
qed

end
