(* ===== verification/Clip_Types.thy ===== *)
theory Clip_Types
  imports Prelude
begin

text \<open>
  The shared data model, \<open>crates/vbuff-types/src/lib.rs\<close> (and \<open>SelectionSource\<close> of \<open>status.rs\<close>): content
  kinds with their persisted numbers and slugs, the evidence a clipboard backend reports, flavors and
  their bodies. \<open>i64\<close> discriminants are integers. Presentation (icons, labels, previews) is left out.
\<close>

datatype content_kind = TextKind | UrlKind | ColorKind | CodeKind | ImageKind | FileKind | RtfKind | HtmlKind | OtherKind

definition ALL_KINDS :: "content_kind list" where
  "ALL_KINDS = [TextKind, RtfKind, HtmlKind, ImageKind, FileKind, ColorKind, UrlKind, CodeKind, OtherKind]"

fun stored_discriminant :: "content_kind \<Rightarrow> int" where
  "stored_discriminant TextKind = 0"
| "stored_discriminant RtfKind = 1"
| "stored_discriminant HtmlKind = 2"
| "stored_discriminant ImageKind = 3"
| "stored_discriminant FileKind = 4"
| "stored_discriminant ColorKind = 5"
| "stored_discriminant UrlKind = 6"
| "stored_discriminant CodeKind = 7"
| "stored_discriminant OtherKind = 8"

definition from_stored_discriminant :: "int \<Rightarrow> content_kind option" where
  "from_stored_discriminant v = find (\<lambda>kind. stored_discriminant kind = v) ALL_KINDS"

fun slug :: "content_kind \<Rightarrow> string" where
  "slug TextKind = ''text''"
| "slug UrlKind = ''url''"
| "slug ColorKind = ''color''"
| "slug CodeKind = ''code''"
| "slug ImageKind = ''image''"
| "slug FileKind = ''file''"
| "slug RtfKind = ''rtf''"
| "slug HtmlKind = ''html''"
| "slug OtherKind = ''other''"

datatype parse_content_kind_error = ParseContentKindError

definition content_kind_from_str :: "string \<Rightarrow> parse_content_kind_error + content_kind" where
  "content_kind_from_str s = (case find (\<lambda>kind. slug kind = s) ALL_KINDS of
     Some kind \<Rightarrow> Inr kind | None \<Rightarrow> Inl ParseContentKindError)"

datatype sensitivity_reason =
    SourceApplication
  | CaptureRuleReason
  | EntropyReason
  | OperatingSystemHint
  | PrivateKeyReason
  | CloudCredentialReason
  | AccessTokenReason
  | JsonWebTokenReason
  | PaymentCardReason
  | OneTimePasswordReason
  | RecoveryCodeReason
  | PossibleSecret

datatype provenance_confidence = Proven | ProvenanceUnknownEvidence

datatype concealment_signal = ConcealedSignal | ClearSignal | UnknownConcealment

datatype generation_coherence = Coherent | Torn | UnknownCoherence

datatype selection_intent = Intended | Incidental | UnknownIntent

datatype selection_source = ClipboardSource | PrimarySource

text \<open>The selection rectangle of the provenance is not consulted by any modelled code.\<close>

record capture_provenance =
  cp_app_id :: "string option"
  cp_window_title :: "string option"
  cp_document_path :: "string option"
  cp_source_url :: "string option"

record capture_generation =
  cg_epoch :: u64
  cg_sequence :: u64

record capture_lineage =
  cl_origin_device :: "string option"
  cl_write_nonce :: "string option"

datatype flavor_origin = SourceOrigin | OsSynthesized | VbuffDerived

datatype flavor_realization = Realized | Deferred | Failed | Truncated

datatype body = Inline bytes | Spilled string u64

fun body_byte_size :: "body \<Rightarrow> u64" where
  "body_byte_size (Inline b) = of_nat (length b)"
| "body_byte_size (Spilled blob_ref byte_size) = byte_size"

fun inline_bytes :: "body \<Rightarrow> bytes option" where
  "inline_bytes (Inline b) = Some b"
| "inline_bytes (Spilled _ _) = None"

record flavor =
  fl_mime :: string
  fl_body :: body
  fl_origin :: flavor_origin
  fl_realization :: flavor_realization
  fl_integrity_hash :: "bytes option"

definition flavor_inline :: "string \<Rightarrow> bytes \<Rightarrow> flavor" where
  "flavor_inline mime b = \<lparr>fl_mime = mime, fl_body = Inline b, fl_origin = SourceOrigin,
     fl_realization = Realized, fl_integrity_hash = None\<rparr>"

definition flavor_derived :: "string \<Rightarrow> bytes \<Rightarrow> flavor" where
  "flavor_derived mime b = (flavor_inline mime b)\<lparr>fl_origin := VbuffDerived\<rparr>"

definition is_realized :: "flavor \<Rightarrow> bool" where
  "is_realized f \<longleftrightarrow> fl_realization f = Realized"

definition mime_essence :: "flavor \<Rightarrow> string" where
  "mime_essence f = trim (hd (split_on CHR '';'' (fl_mime f)))"

definition is_text :: "flavor \<Rightarrow> bool" where
  "is_text f \<longleftrightarrow> (let mime = mime_essence f in
     eq_ignore_ascii_case mime ''text'' \<or> (5 \<le> length mime \<and> eq_ignore_ascii_case (take 5 mime) ''text/''))"

definition is_plain_text :: "flavor \<Rightarrow> bool" where
  "is_plain_text f \<longleftrightarrow> (let mime = mime_essence f in
     eq_ignore_ascii_case mime ''text/plain'' \<or> eq_ignore_ascii_case mime ''text'')"

definition is_image :: "flavor \<Rightarrow> bool" where
  "is_image f \<longleftrightarrow> (let mime = mime_essence f in 6 \<le> length mime \<and> eq_ignore_ascii_case (take 6 mime) ''image/'')"

definition as_text :: "flavor \<Rightarrow> string option" where
  "as_text f = (case inline_bytes (fl_body f) of
     None \<Rightarrow> None | Some b \<Rightarrow> if utf8_valid b then Some b else None)"

lemma plain_text_flavor [simp]:
  "is_text (flavor_inline ''text/plain'' b)"
  "is_plain_text (flavor_inline ''text/plain'' b)"
  by (simp_all add: is_text_def is_plain_text_def mime_essence_def flavor_inline_def eq_ignore_ascii_case_def
      to_ascii_lowercase_def ascii_lower_def trim_def is_whitespace_def utf8_width_def Let_def)

lemma as_text_inline:
  "as_text (flavor_inline mime b) = (if utf8_valid b then Some b else None)"
  by (simp add: as_text_def flavor_inline_def)

section \<open>The persisted forms of a content kind\<close>

lemma find_ALL_KINDS: "find P ALL_KINDS = Some k \<Longrightarrow> P k"
  by (auto simp: find_Some_iff)

text \<open>
  The persisted forms of a content kind round-trip and fail closed: the number and the slug of each kind
  are read back as this kind, and whatever is read back as a kind is exactly its number or its slug,
  so an unknown number or slug is refused and not mapped to \<open>Other\<close>.
\<close>

lemma content_kind_round_trip:
  "(from_stored_discriminant n = Some k \<longleftrightarrow> n = stored_discriminant k) \<and>
   (content_kind_from_str s = Inr k \<longleftrightarrow> s = slug k)"
proof -
  have n: "from_stored_discriminant (stored_discriminant k) = Some k"
    by (cases k) (simp_all add: from_stored_discriminant_def ALL_KINDS_def)
  have s: "content_kind_from_str (slug k) = Inr k"
    by (cases k) (simp_all add: content_kind_from_str_def ALL_KINDS_def)
  have "from_stored_discriminant n = Some k \<Longrightarrow> n = stored_discriminant k"
    by (auto simp: from_stored_discriminant_def dest: find_ALL_KINDS)
  moreover have "content_kind_from_str s = Inr k \<Longrightarrow> s = slug k"
    by (auto simp: content_kind_from_str_def dest: find_ALL_KINDS split: option.splits)
  ultimately show ?thesis using n s by blast
qed

end
