(* ===== verification/Clip.thy ===== *)
theory Clip
  imports Clip_Types
begin

text \<open>
  Captured clips, the records \<open>Clip\<close> and \<open>ClipMeta\<close> of \<open>crates/vbuff-types/src/lib.rs\<close>, and the gate in
  front of every inference, \<open>crates/vbuff-core/src/intelligence/gate.rs\<close>. A \<open>DateTime<Utc>\<close> is its number of
  nanoseconds; a ULID is its 128-bit value.
\<close>

type_synonym clip_id = "128 word"
type_synonym utc = int

record clip_meta =
  cm_created_at :: utc
  cm_updated_at :: utc
  cm_byte_size :: u64
  cm_source_app :: "string option"
  cm_kind :: content_kind
  cm_provenance :: capture_provenance
  cm_provenance_confidence :: provenance_confidence
  cm_generation :: "capture_generation option"
  cm_lineage :: capture_lineage
  cm_expires_at :: "utc option"
  cm_sensitive :: bool
  cm_sensitivity_reason :: "sensitivity_reason option"
  cm_sync_eligible :: bool
  cm_ai_allowed :: bool

record clip =
  clip_id :: clip_id
  clip_flavors :: "flavor list"
  clip_content_hash :: bytes
  clip_meta :: clip_meta
  clip_pinned :: bool
  clip_favorite :: bool

definition clip_meta_now :: "utc \<Rightarrow> content_kind \<Rightarrow> u64 \<Rightarrow> string option \<Rightarrow> clip_meta" where
  "clip_meta_now now kind byte_size source_app =
     \<lparr>cm_created_at = now, cm_updated_at = now, cm_byte_size = byte_size, cm_source_app = source_app, cm_kind = kind,
      cm_provenance = \<lparr>cp_app_id = source_app, cp_window_title = None, cp_document_path = None, cp_source_url = None\<rparr>,
      cm_provenance_confidence = ProvenanceUnknownEvidence, cm_generation = None,
      cm_lineage = \<lparr>cl_origin_device = None, cl_write_nonce = None\<rparr>, cm_expires_at = None, cm_sensitive = False,
      cm_sensitivity_reason = None, cm_sync_eligible = True, cm_ai_allowed = False\<rparr>"

definition primary_text :: "clip \<Rightarrow> string option" where
  "primary_text c = Option.bind (find (\<lambda>f. is_text f \<and> as_text f \<noteq> None) (clip_flavors c)) as_text"

datatype ai_operation = Embed | Classify | Explain | DetectPii | CaptionImage | SuggestTag

datatype ai_refusal = AiNotAllowed | AiSensitive | NetworkNotAllowed

definition ai_authorize :: "bool \<Rightarrow> clip_meta \<Rightarrow> ai_operation \<Rightarrow> bool \<Rightarrow> ai_refusal + unit" where
  "ai_authorize network_opt_in meta operation requires_network =
     (if cm_sensitive meta then Inl AiSensitive
      else if \<not> cm_ai_allowed meta then Inl AiNotAllowed
      else if requires_network \<and> \<not> network_opt_in then Inl NetworkNotAllowed
      else Inr ())"

lemma ai_authorize_Inr [result_simps]:
  "ai_authorize opt_in meta operation network = Inr u \<longleftrightarrow>
     \<not> cm_sensitive meta \<and> cm_ai_allowed meta \<and> (network \<longrightarrow> opt_in)"
  by (auto simp: ai_authorize_def)

lemma new_meta_refuses_inference: "ai_authorize opt_in (clip_meta_now now kind sz app) operation network = Inl AiNotAllowed"
  by (simp add: ai_authorize_def clip_meta_now_def)

end
