(* ===== verification/Cas_Store.thy ===== *)
theory Cas_Store
  imports Clip Text_Format
begin

text \<open>
  The content-addressed store of large flavor bodies, \<open>crates/vbuff-store/src/cas.rs\<close>. The files below the root are kept
  per kind and name, a name determining its shard; the result of an installation (written, failed with a temporary
  file left behind, or raced by another writer) is a parameter, and so is BLAKE3.
\<close>

section \<open>Names\<close>

definition valid_blob_ref :: "string \<Rightarrow> bool" where
  "valid_blob_ref r \<longleftrightarrow> length r = 64 \<and> list_all (\<lambda>b. is_ascii_hexdigit b \<and> \<not> is_ascii_uppercase b) r"

definition threshold_for :: "content_kind \<Rightarrow> nat" where
  "threshold_for kind = (if kind = ImageKind \<or> kind = FileKind then 256 * 1024
     else if kind = HtmlKind \<or> kind = RtfKind \<or> kind = OtherKind then 512 * 1024 else 1024 * 1024)"

section \<open>Files\<close>

datatype cas_entry = RegularFile bytes | Symlink "bytes option" | Directory
datatype cas_error = CasIo | CasCorrupt
datatype install_outcome = Installed | InstallFailed "(string \<times> bytes) option" | RacedWith cas_entry

record cas_store =
  cs_files :: "((content_kind \<times> string) \<times> cas_entry) list"
  cs_quarantine :: "(string \<times> cas_entry) list"

definition fs_write :: "'k \<Rightarrow> 'v \<Rightarrow> ('k \<times> 'v) list \<Rightarrow> ('k \<times> 'v) list" where
  "fs_write k v files = (k, v) # filter (\<lambda>e. fst e \<noteq> k) files"

lemma map_of_fs_write: "map_of (fs_write k v files) = (map_of files)(k \<mapsto> v)"
proof
  fix x
  have "map_of (filter (\<lambda>e. fst e \<noteq> k) files) x = map_of files x" if "x \<noteq> k"
    using that by (induction files) auto
  then show "map_of (fs_write k v files) x = ((map_of files)(k \<mapsto> v)) x" by (auto simp: fs_write_def)
qed

section \<open>Operations\<close>

text \<open>What is at the destination is the blob if it is a regular file of the same size and hash.\<close>

definition entry_matches :: "(bytes \<Rightarrow> bytes) \<Rightarrow> bytes \<Rightarrow> cas_entry \<Rightarrow> bool" where
  "entry_matches blake3 b entry = (case entry of
     RegularFile c \<Rightarrow> length c = length b \<and> blake3 c = blake3 b | _ \<Rightarrow> False)"

definition cas_put :: "(bytes \<Rightarrow> bytes) \<Rightarrow> (content_kind \<Rightarrow> string \<Rightarrow> install_outcome) \<Rightarrow>
    cas_store \<Rightarrow> content_kind \<Rightarrow> bytes \<Rightarrow> cas_store \<times> (cas_error + string)" where
  "cas_put blake3 outcome s kind b =
     (let blob_ref = to_hex (blake3 b) in
      if \<not> valid_blob_ref blob_ref then (s, Inl CasCorrupt)
      else case map_of (cs_files s) (kind, blob_ref) of
        Some entry \<Rightarrow> (s, if entry_matches blake3 b entry then Inr blob_ref else Inl CasCorrupt)
      | None \<Rightarrow> (case outcome kind blob_ref of
            Installed \<Rightarrow> (s\<lparr>cs_files := fs_write (kind, blob_ref) (RegularFile b) (cs_files s)\<rparr>, Inr blob_ref)
          | InstallFailed left \<Rightarrow> (case left of
                None \<Rightarrow> s
              | Some (suffix, written) \<Rightarrow>
                  s\<lparr>cs_files := fs_write (kind, blob_ref @ ''.tmp-'' @ suffix) (RegularFile written) (cs_files s)\<rparr>, Inl CasIo)
          | RacedWith entry \<Rightarrow> (s\<lparr>cs_files := fs_write (kind, blob_ref) entry (cs_files s)\<rparr>,
              if entry_matches blake3 b entry then Inr blob_ref else Inl CasCorrupt)))"

text \<open>Reading follows a symbolic link, verification does not.\<close>

definition cas_read :: "(bytes \<Rightarrow> bytes) \<Rightarrow> cas_store \<Rightarrow> content_kind \<Rightarrow> string \<Rightarrow> u64 \<Rightarrow> cas_error + bytes" where
  "cas_read blake3 s kind blob_ref expected_size =
     (if \<not> valid_blob_ref blob_ref then Inl CasCorrupt
      else case map_of (cs_files s) (kind, blob_ref) of
        None \<Rightarrow> Inl CasIo
      | Some Directory \<Rightarrow> Inl CasCorrupt
      | Some (Symlink None) \<Rightarrow> Inl CasIo
      | Some (Symlink (Some b)) \<Rightarrow>
          if length b \<noteq> unat expected_size \<or> to_hex (blake3 b) \<noteq> blob_ref then Inl CasCorrupt else Inr b
      | Some (RegularFile b) \<Rightarrow>
          if length b \<noteq> unat expected_size \<or> to_hex (blake3 b) \<noteq> blob_ref then Inl CasCorrupt else Inr b)"

definition cas_verify :: "(bytes \<Rightarrow> bytes) \<Rightarrow> cas_store \<Rightarrow> content_kind \<Rightarrow> string \<Rightarrow> u64 \<Rightarrow> cas_error + unit" where
  "cas_verify blake3 s kind blob_ref expected_size =
     (if \<not> valid_blob_ref blob_ref then Inl CasCorrupt
      else case map_of (cs_files s) (kind, blob_ref) of
        None \<Rightarrow> Inl CasIo
      | Some (RegularFile b) \<Rightarrow> if length b \<noteq> unat expected_size \<or> blake3 b \<noteq> from_hex blob_ref then Inl CasCorrupt else Inr ()
      | Some _ \<Rightarrow> Inl CasCorrupt)"

definition cas_remove :: "cas_store \<Rightarrow> content_kind \<Rightarrow> string \<Rightarrow> cas_store \<times> (cas_error + unit)" where
  "cas_remove s kind blob_ref =
     (if \<not> valid_blob_ref blob_ref then (s, Inl CasCorrupt)
      else if map_of (cs_files s) (kind, blob_ref) = Some Directory then (s, Inl CasIo)
      else (s\<lparr>cs_files := filter (\<lambda>e. fst e \<noteq> (kind, blob_ref)) (cs_files s)\<rparr>, Inr ()))"

definition cas_quarantine :: "string \<Rightarrow> cas_store \<Rightarrow> content_kind \<Rightarrow> string \<Rightarrow> cas_store \<times> (cas_error + unit)" where
  "cas_quarantine fresh s kind blob_ref =
     (if \<not> valid_blob_ref blob_ref then (s, Inl CasCorrupt)
      else case map_of (cs_files s) (kind, blob_ref) of
        None \<Rightarrow> (s, Inr ())
      | Some (Symlink None) \<Rightarrow> (s, Inr ())
      | Some entry \<Rightarrow> (s\<lparr>cs_files := filter (\<lambda>e. fst e \<noteq> (kind, blob_ref)) (cs_files s),
            cs_quarantine := fs_write (slug kind @ ''-'' @ blob_ref @ ''-'' @ fresh @ ''.corrupt'') entry (cs_quarantine s)\<rparr>, Inr ()))"

fun is_regular_file :: "cas_entry \<Rightarrow> bool" where
  "is_regular_file (RegularFile _) \<longleftrightarrow> True"
| "is_regular_file _ \<longleftrightarrow> False"

definition is_orphan :: "(content_kind \<times> string) set \<Rightarrow> (content_kind \<times> string) \<times> cas_entry \<Rightarrow> bool" where
  "is_orphan live e \<longleftrightarrow> is_regular_file (snd e) \<and>
     (contains_sub ''.tmp-'' (snd (fst e)) \<or> (valid_blob_ref (snd (fst e)) \<and> fst e \<notin> live))"

definition orphan_files :: "cas_store \<Rightarrow> (content_kind \<times> string) set \<Rightarrow> ((content_kind \<times> string) \<times> nat) list" where
  "orphan_files s live = map (\<lambda>e. (fst e, case snd e of RegularFile b \<Rightarrow> length b | _ \<Rightarrow> 0)) (filter (is_orphan live) (cs_files s))"

definition remove_orphans :: "cas_store \<Rightarrow> (content_kind \<times> string) set \<Rightarrow> cas_store \<times> nat" where
  "remove_orphans s live =
     (s\<lparr>cs_files := filter (\<lambda>e. fst e \<notin> set (map fst (orphan_files s live))) (cs_files s)\<rparr>, length (orphan_files s live))"

definition orphan_inventory :: "cas_store \<Rightarrow> (content_kind \<times> string) set \<Rightarrow> nat \<times> nat" where
  "orphan_inventory s live = (length (orphan_files s live),
     foldl (\<lambda>total e. min (total + snd e) (2 ^ 64 - 1)) 0 (orphan_files s live))"

fun spill_flavors :: "(bytes \<Rightarrow> bytes) \<Rightarrow> (content_kind \<Rightarrow> string \<Rightarrow> install_outcome) \<Rightarrow> cas_store \<Rightarrow> content_kind \<Rightarrow> flavor list \<Rightarrow>
    cas_store \<times> (cas_error + flavor list)" where
  "spill_flavors blake3 outcome s kind [] = (s, Inr [])"
| "spill_flavors blake3 outcome s kind (f # fs) = (case fl_body f of
       Inline b \<Rightarrow> if length b \<le> threshold_for kind then (case spill_flavors blake3 outcome s kind fs of (s, r) \<Rightarrow> (s, map_sum id ((#) f) r))
         else (case cas_put blake3 outcome s kind b of
             (s, Inl e) \<Rightarrow> (s, Inl e)
           | (s, Inr blob_ref) \<Rightarrow> (case spill_flavors blake3 outcome s kind fs of
                 (s, r) \<Rightarrow> (s, map_sum id ((#) (f\<lparr>fl_body := Spilled blob_ref (of_nat (length b))\<rparr>)) r)))
     | Spilled _ _ \<Rightarrow> (case spill_flavors blake3 outcome s kind fs of (s, r) \<Rightarrow> (s, map_sum id ((#) f) r)))"

fun hydrate_flavors :: "(bytes \<Rightarrow> bytes) \<Rightarrow> cas_store \<Rightarrow> content_kind \<Rightarrow> flavor list \<Rightarrow> cas_error + flavor list" where
  "hydrate_flavors blake3 s kind [] = Inr []"
| "hydrate_flavors blake3 s kind (f # fs) = (case fl_body f of
       Inline _ \<Rightarrow> try_then (hydrate_flavors blake3 s kind fs) (\<lambda>fs. Inr (f # fs))
     | Spilled blob_ref byte_size \<Rightarrow> try_then (cas_read blake3 s kind blob_ref byte_size) (\<lambda>b.
         try_then (hydrate_flavors blake3 s kind fs) (\<lambda>fs. Inr (f\<lparr>fl_body := Inline b\<rparr> # fs))))"

section \<open>What is spilled comes back\<close>

definition blob_refs :: "content_kind \<Rightarrow> flavor list \<Rightarrow> (content_kind \<times> string) set" where
  "blob_refs kind fs = {(kind, r) | r n. \<exists>f \<in> set fs. fl_body f = Spilled r n}"

lemma cas_put_keeps:
  "cas_put blake3 outcome s kind b = (s', Inr r) \<Longrightarrow> map_of (cs_files s) k = Some e \<Longrightarrow> map_of (cs_files s') k = Some e"
  by (auto simp: cas_put_def Let_def map_of_fs_write split: if_splits option.splits install_outcome.splits)

lemma cas_put_stores:
  assumes "cas_put blake3 outcome s kind b = (s', Inr r)"
  shows "r = to_hex (blake3 b) \<and> valid_blob_ref r \<and>
    (\<exists>c. map_of (cs_files s') (kind, r) = Some (RegularFile c) \<and> length c = length b \<and> blake3 c = blake3 b)"
  using assms
  by (auto simp: cas_put_def Let_def map_of_fs_write entry_matches_def split: if_splits option.splits install_outcome.splits cas_entry.splits)

lemma spill_keeps:
  "spill_flavors blake3 outcome s kind fs = (s', Inr gs) \<Longrightarrow> map_of (cs_files s) k = Some e \<Longrightarrow> map_of (cs_files s') k = Some e"
proof (induction fs arbitrary: s gs)
  case (Cons f fs)
  then show ?case
    by (auto simp: map_sum_def split: body.splits if_splits prod.splits sum.splits dest: cas_put_keeps)
qed simp

lemma map_of_filter_keys: "(\<And>v. P (k, v)) \<Longrightarrow> map_of (filter P files) k = map_of files k"
  by (induction files) auto

lemma valid_ref_not_temporary: "valid_blob_ref r \<Longrightarrow> \<not> contains_sub ''.tmp-'' r"
proof -
  have dot: "contains_sub p s \<Longrightarrow> set p \<subseteq> set s" for p s
  proof (induction p s rule: contains_sub.induct)
    case (2 p c s)
    then show ?case using set_take_subset [of "length p" "c # s"] by (auto simp: starts_with_def)
  qed simp
  assume "valid_blob_ref r"
  then have "CHR ''.'' \<notin> set r" by (auto simp: valid_blob_ref_def list_all_iff is_ascii_hexdigit_def byte_in_def)
  with dot [of "''.tmp-''" r] show ?thesis by auto
qed

text \<open>The garbage collector takes no live blob.\<close>

lemma remove_orphans_keeps_live:
  assumes "k \<in> live" and "valid_blob_ref (snd k)"
  shows "map_of (cs_files (fst (remove_orphans s live))) k = map_of (cs_files s) k"
proof -
  have "k \<notin> set (map fst (orphan_files s live))"
    using assms valid_ref_not_temporary by (auto simp: orphan_files_def is_orphan_def)
  then show ?thesis unfolding remove_orphans_def by (simp add: map_of_filter_keys)
qed

lemma remove_orphans_leaves_none: "orphan_files (fst (remove_orphans s live)) live = []"
  by (auto simp: remove_orphans_def orphan_files_def filter_empty_conv rev_image_eqI)

lemma spilled_bodies:
  assumes "spill_flavors blake3 outcome s kind fs = (s', Inr gs)"
  shows "list_all2 (\<lambda>f g. (g = f \<and> (\<forall>b. fl_body f = Inline b \<longrightarrow> length b \<le> threshold_for kind)) \<or>
    (\<exists>b c. fl_body f = Inline b \<and> g = f\<lparr>fl_body := Spilled (to_hex (blake3 b)) (of_nat (length b))\<rparr> \<and> valid_blob_ref (to_hex (blake3 b)) \<and>
      map_of (cs_files s') (kind, to_hex (blake3 b)) = Some (RegularFile c) \<and> length c = length b \<and> blake3 c = blake3 b)) fs gs"
  using assms
proof (induction fs arbitrary: s gs)
  case (Cons f fs)
  show ?case
  proof (cases "\<exists>b. fl_body f = Inline b \<and> length b > threshold_for kind")
    case True
    then obtain b where b: "fl_body f = Inline b" "length b > threshold_for kind" by blast
    with Cons.prems obtain s1 r gs' where put: "cas_put blake3 outcome s kind b = (s1, Inr r)"
      and rest: "spill_flavors blake3 outcome s1 kind fs = (s', Inr gs')" and gs: "gs = f\<lparr>fl_body := Spilled r (of_nat (length b))\<rparr> # gs'"
      by (auto simp: map_sum_def split: prod.splits sum.splits)
    from cas_put_stores [OF put] obtain c where c: "r = to_hex (blake3 b)" "valid_blob_ref r"
      "map_of (cs_files s1) (kind, r) = Some (RegularFile c)" "length c = length b" "blake3 c = blake3 b" by blast
    with spill_keeps [OF rest c(3)] Cons.IH [OF rest] b show ?thesis unfolding gs by auto
  next
    case False
    with Cons.prems obtain gs' where rest: "spill_flavors blake3 outcome s kind fs = (s', Inr gs')" and gs: "gs = f # gs'"
      by (cases "fl_body f") (auto simp: map_sum_def split: prod.splits sum.splits)
    with Cons.IH [OF rest] False show ?thesis by (auto simp: not_less)
  qed
qed simp

text \<open>
  A clip that was stored comes back: after its large bodies were spilled and the garbage collector ran with at least
  these blobs live, reading them back gives the flavors as they were, whatever was in the store before and whatever another
  writer raced in, unless two bodies of the same length with the same hash exist. Nothing above the threshold of
  its kind stays inline, and no orphan remains.
\<close>

lemma spilled_clip_comes_back:
  assumes "spill_flavors blake3 outcome s kind fs = (s', Inr gs)" and "blob_refs kind gs \<subseteq> live"
    and "\<forall>f \<in> set fs. \<exists>b. fl_body f = Inline b \<and> length b < 2 ^ 64"
  shows "(hydrate_flavors blake3 (fst (remove_orphans s' live)) kind gs = Inr fs \<or>
      (\<exists>a b. a \<noteq> b \<and> length a = length b \<and> blake3 a = blake3 b)) \<and>
    (\<forall>g \<in> set gs. \<forall>b. fl_body g = Inline b \<longrightarrow> length b \<le> threshold_for kind) \<and>
    orphan_files (fst (remove_orphans s' live)) live = []"
proof -
  let ?R = "\<lambda>f g. (g = f \<and> (\<forall>b. fl_body f = Inline b \<longrightarrow> length b \<le> threshold_for kind)) \<or>
    (\<exists>b c. fl_body f = Inline b \<and> g = f\<lparr>fl_body := Spilled (to_hex (blake3 b)) (of_nat (length b))\<rparr> \<and> valid_blob_ref (to_hex (blake3 b)) \<and>
      map_of (cs_files s') (kind, to_hex (blake3 b)) = Some (RegularFile c) \<and> length c = length b \<and> blake3 c = blake3 b)"
  let ?s = "fst (remove_orphans s' live)"
  have related: "list_all2 ?R fs gs" by (rule spilled_bodies [OF assms(1)])
  have restored: "hydrate_flavors blake3 ?s kind gs = Inr fs"
    if unique: "\<forall>a b. length a = length b \<longrightarrow> blake3 a = blake3 b \<longrightarrow> a = b"
    using related assms(2,3)
  proof (induction fs gs rule: list_all2_induct)
    case (Cons f fs g gs)
    have live: "blob_refs kind gs \<subseteq> live" using Cons.prems(1) by (auto simp: blob_refs_def)
    have rest: "hydrate_flavors blake3 ?s kind gs = Inr fs" using Cons.IH [OF live] Cons.prems(2) by simp
    from Cons.prems(2) obtain b where b: "fl_body f = Inline b" "length b < 2 ^ 64" by auto
    show ?case
    proof (cases "g = f")
      case False
      with Cons.hyps(1) b obtain c where g: "g = f\<lparr>fl_body := Spilled (to_hex (blake3 b)) (of_nat (length b))\<rparr>"
        and c: "valid_blob_ref (to_hex (blake3 b))" "map_of (cs_files s') (kind, to_hex (blake3 b)) = Some (RegularFile c)"
          "length c = length b" "blake3 c = blake3 b" by auto
      have "(kind, to_hex (blake3 b)) \<in> live" using Cons.prems(1) unfolding g blob_refs_def by auto
      then have "map_of (cs_files ?s) (kind, to_hex (blake3 b)) = Some (RegularFile c)"
        using remove_orphans_keeps_live [of "(kind, to_hex (blake3 b))" live s'] c by simp
      moreover have "c = b" using unique c by blast
      moreover have "unat (of_nat (length b) :: u64) = length b" using b(2) by (simp add: unat_of_nat take_bit_nat_eq_self)
      ultimately have "cas_read blake3 ?s kind (to_hex (blake3 b)) (of_nat (length b)) = Inr b"
        using c(1) by (simp add: cas_read_def)
      with rest b show ?thesis by (cases f) (simp add: g)
    qed (use rest b in simp)
  qed simp
  have "\<forall>g \<in> set gs. \<forall>b. fl_body g = Inline b \<longrightarrow> length b \<le> threshold_for kind"
  proof (intro ballI allI impI)
    fix g b assume "g \<in> set gs" and b: "fl_body g = Inline b"
    then obtain i where i: "i < length gs" "gs ! i = g" by (auto simp: in_set_conv_nth)
    from list_all2_nthD2 [OF related i(1)] have "?R (fs ! i) g" unfolding i(2) .
    with b show "length b \<le> threshold_for kind" by auto
  qed
  with restored remove_orphans_leaves_none show ?thesis by blast
qed

text \<open>A hash that keeps the first 32 bytes, padded.\<close>

definition sample_hash :: "bytes \<Rightarrow> bytes" where
  "sample_hash b = take 32 (b @ replicate 32 CHR 0x00)"

lemma sample_hash_image: "sample_hash (replicate 262145 (CHR ''x'')) = replicate 32 (CHR ''x'')"
  by (simp add: sample_hash_def min_def)

lemma spilled_clip_comes_back_witness:
  "\<exists>s' gs. spill_flavors sample_hash (\<lambda>_ _. Installed) \<lparr>cs_files = [], cs_quarantine = []\<rparr> ImageKind
      [flavor_inline ''image/png'' (replicate 262145 (CHR ''x''))] = (s', Inr gs) \<and>
    inline_bytes (fl_body (hd gs)) = None \<and> orphan_files (fst (remove_orphans s' (blob_refs ImageKind gs))) (blob_refs ImageKind gs) = []"
proof -
  let ?x = "replicate 262145 (CHR ''x'')" and ?s = "\<lparr>cs_files = [], cs_quarantine = []\<rparr>"
  let ?f = "flavor_inline ''image/png'' ?x" and ?r = "to_hex (replicate 32 (CHR ''x''))"
  let ?s' = "?s\<lparr>cs_files := fs_write (ImageKind, ?r) (RegularFile ?x) []\<rparr>"
  have digits: "hex_digit 7 = CHR ''7''" "hex_digit 8 = CHR ''8''" by code_simp+
  have hex: "?r = concat (replicate 32 ''78'')" by (simp add: to_hex_def map_replicate digits)
  have valid: "valid_blob_ref ?r"
    unfolding hex valid_blob_ref_def by (simp add: is_ascii_hexdigit_def is_ascii_uppercase_def byte_in_def numeral_eq_Suc)
  have body: "fl_body ?f = Inline ?x" "length ?x = 262145" "\<not> length ?x \<le> threshold_for ImageKind"
    by (simp_all add: flavor_inline_def threshold_for_def)
  have put: "cas_put sample_hash (\<lambda>_ _. Installed) ?s ImageKind ?x = (?s', Inr ?r)"
    unfolding cas_put_def sample_hash_image Let_def using valid by simp
  have run: "spill_flavors sample_hash (\<lambda>_ _. Installed) ?s ImageKind [?f] = (?s', Inr [?f\<lparr>fl_body := Spilled ?r (of_nat (length ?x))\<rparr>])"
    unfolding spill_flavors.simps body(1) body.case if_not_P [OF body(3)] put prod.case sum.case by simp
  have "\<forall>f \<in> set [?f]. \<exists>b. fl_body f = Inline b \<and> length b < 2 ^ 64" using body(1,2) by simp
  from spilled_clip_comes_back [OF run order.refl this] run show ?thesis by fastforce
qed

end
