(* ===== verification/Cf_Html.thy ===== *)
theory Cf_Html
  imports Text_Format
begin

text \<open>
  The parser of the Windows CF_HTML clipboard format, \<open>crates/vbuff-platform/src/cf_html.rs\<close>. A slice out of range would
  panic, so slices are optional and the parser answers \<open>None\<close> for a panic; \<open>usize\<close> has 64 bits.
\<close>

definition MAX_CF_HTML_BYTES :: nat where "MAX_CF_HTML_BYTES = 32 * 1024 * 1024"
definition MAX_HEADER_BYTES :: nat where "MAX_HEADER_BYTES = 16 * 1024"
definition MAX_SOURCE_URL_BYTES :: nat where "MAX_SOURCE_URL_BYTES = 2 * 1024"

definition START_MARKERS :: "bytes list" where "START_MARKERS = [''<!--StartFragment-->'', ''<!--StartFragment -->'']"
definition END_MARKERS :: "bytes list" where "END_MARKERS = [''<!--EndFragment-->'', ''<!--EndFragment -->'']"

datatype cf_html_error = CfTooLarge | MissingHeader | DuplicateField | InvalidOffset | InvalidRange | SourceUrlTooLarge

record cf_html =
  cf_html_bytes :: bytes
  cf_fragment :: bytes
  cf_source_url :: "string option"

definition slice :: "bytes \<Rightarrow> nat \<Rightarrow> nat \<Rightarrow> bytes option" where
  "slice s a b = (if a \<le> b \<and> b \<le> length s then Some (take (b - a) (drop a s)) else None)"

section \<open>Searching\<close>

text \<open>\<open>windows(p.len()).position(|w| w == p)\<close>.\<close>

fun find_window :: "bytes \<Rightarrow> bytes \<Rightarrow> nat option" where
  "find_window p s = (if length s < length p then None else if starts_with p s then Some 0
     else (case s of [] \<Rightarrow> None | _ # t \<Rightarrow> map_option Suc (find_window p t)))"

declare find_window.simps [simp del]

fun min_by_fst :: "(nat \<times> nat) list \<Rightarrow> (nat \<times> nat) option" where
  "min_by_fst [] = None"
| "min_by_fst (x # xs) = Some (foldl (\<lambda>best y. if fst y < fst best then y else best) x xs)"

definition find_marker :: "bytes \<Rightarrow> bytes list \<Rightarrow> (nat \<times> nat) option" where
  "find_marker haystack markers =
     min_by_fst (List.map_filter (\<lambda>m. map_option (\<lambda>offset. (offset, length m)) (find_window m haystack)) markers)"

definition fragment_offsets_from_markers :: "bytes \<Rightarrow> nat \<Rightarrow> nat \<Rightarrow> (cf_html_error + nat \<times> nat) option" where
  "fragment_offsets_from_markers input html_start html_end =
     (if html_start > html_end \<or> html_end > length input then Some (Inl InvalidRange)
      else Option.bind (slice input html_start html_end) (\<lambda>html.
        case find_marker html START_MARKERS of
          None \<Rightarrow> Some (Inl InvalidOffset)
        | Some (start_offset, start_marker_len) \<Rightarrow>
            let start = html_start + start_offset + start_marker_len in
            Option.bind (slice input start html_end) (\<lambda>tail.
              case find_marker tail END_MARKERS of
                None \<Rightarrow> Some (Inl InvalidOffset)
              | Some (offset, _) \<Rightarrow> Some (Inr (start, start + offset)))))"

section \<open>The header\<close>

definition parse_offset :: "string \<Rightarrow> cf_html_error + nat option" where
  "parse_offset v =
     (if v = ''-1'' then Inr None
      else if v = [] \<or> length v > 20 \<or> \<not> list_all is_ascii_digit v then Inl InvalidOffset
      else (case parse_digits v of None \<Rightarrow> Inl InvalidOffset | Some n \<Rightarrow> if n < 2 ^ 64 then Inr (Some n) else Inl InvalidOffset))"

definition is_eol :: "char \<Rightarrow> bool" where
  "is_eol c \<longleftrightarrow> c = CHR 0x0D \<or> c = CHR 0x0A"

lemma dropWhile_hd_shorter: "xs \<noteq> [] \<Longrightarrow> P (hd xs) \<Longrightarrow> length (dropWhile P xs) < length xs"
  by (cases xs) (auto intro: le_imp_less_Suc length_dropWhile_le)

function declared_scan :: "bytes \<Rightarrow> cf_html_error + nat option option" where
  "declared_scan prefix =
     (let line = takeWhile (\<lambda>c. \<not> is_eol c) prefix;
          rest = dropWhile (\<lambda>c. \<not> is_eol c) prefix in
      if prefix = [] then Inr None
      else if starts_with ''StartHTML:'' line then
        (let v = drop 10 line in
         if \<not> utf8_valid v then Inl InvalidOffset else try_then (parse_offset (trim v)) (\<lambda>start. Inr (Some start)))
      else if starts_with ''<'' line \<or> rest = [] then Inr None
      else declared_scan (dropWhile is_eol rest))"
  by pat_completeness auto

termination
proof (relation "measure length")
  fix prefix line rest :: bytes
  assume "rest = dropWhile (\<lambda>c. \<not> is_eol c) prefix" and "\<not> (starts_with ''<'' line \<or> rest = [])"
  then have "rest \<noteq> []" "is_eol (hd rest)" "length rest \<le> length prefix"
    using hd_dropWhile [of "\<lambda>c. \<not> is_eol c" prefix] length_dropWhile_le [of "\<lambda>c. \<not> is_eol c" prefix] by auto
  then show "(dropWhile is_eol rest, prefix) \<in> measure length"
    using dropWhile_hd_shorter [of rest is_eol] by simp
qed simp

declare declared_scan.simps [simp del]

definition declared_html_start :: "bytes \<Rightarrow> cf_html_error + nat option option" where
  "declared_html_start input = declared_scan (take (min (length input) MAX_HEADER_BYTES) input)"

definition fallback_header_end :: "bytes \<Rightarrow> cf_html_error + nat" where
  "fallback_header_end input =
     (let prefix = take (min (length input) MAX_HEADER_BYTES) input;
          crlf = map_option (\<lambda>start. (start, start + 4)) (find_window [CHR 0x0D, CHR 0x0A, CHR 0x0D, CHR 0x0A] prefix);
          lf = map_option (\<lambda>start. (start, start + 2)) (find_window [CHR 0x0A, CHR 0x0A] prefix);
          html = map_option (\<lambda>start. (start, start)) (find_window ''<'' prefix) in
      case min_by_fst (List.map_filter id [crlf, lf, html]) of
        None \<Rightarrow> Inl MissingHeader
      | Some (_, end') \<Rightarrow> if end' > 0 then Inr end' else Inl MissingHeader)"

record cf_header =
  ch_seen :: "string set"
  ch_version_seen :: bool
  ch_start_html :: "nat option"
  ch_end_html :: "nat option"
  ch_start_fragment :: "nat option"
  ch_end_fragment :: "nat option"
  ch_source_url :: "string option"

definition cf_header_empty :: cf_header where
  "cf_header_empty = \<lparr>ch_seen = {}, ch_version_seen = False, ch_start_html = None, ch_end_html = None, ch_start_fragment = None,
     ch_end_fragment = None, ch_source_url = None\<rparr>"

definition RECOGNIZED :: "string list" where
  "RECOGNIZED = [''Version'', ''StartHTML'', ''EndHTML'', ''StartFragment'', ''EndFragment'', ''SourceURL'']"

definition header_line :: "cf_header \<Rightarrow> string \<Rightarrow> cf_html_error + cf_header" where
  "header_line h line = (case split_once (CHR '':'') line of
       None \<Rightarrow> Inr h
     | Some (key, v) \<Rightarrow>
         let v = trim v; key = trim key; recognized = key \<in> set RECOGNIZED in
         if recognized \<and> key \<in> ch_seen h then Inl DuplicateField
         else let h = (if recognized then h\<lparr>ch_seen := insert key (ch_seen h)\<rparr> else h) in
           if key = ''Version'' then
             if v = [] \<or> length v > 16 \<or> \<not> list_all (\<lambda>b. is_ascii_digit b \<or> b = CHR ''.'') v then Inl MissingHeader
             else Inr (h\<lparr>ch_version_seen := True\<rparr>)
           else if key = ''StartHTML'' then try_then (parse_offset v) (\<lambda>n. Inr (h\<lparr>ch_start_html := n\<rparr>))
           else if key = ''EndHTML'' then try_then (parse_offset v) (\<lambda>n. Inr (h\<lparr>ch_end_html := n\<rparr>))
           else if key = ''StartFragment'' then try_then (parse_offset v) (\<lambda>n. Inr (h\<lparr>ch_start_fragment := n\<rparr>))
           else if key = ''EndFragment'' then try_then (parse_offset v) (\<lambda>n. Inr (h\<lparr>ch_end_fragment := n\<rparr>))
           else if key = ''SourceURL'' then
             if length v > MAX_SOURCE_URL_BYTES then Inl SourceUrlTooLarge else Inr (h\<lparr>ch_source_url := Some v\<rparr>)
           else Inr h)"

fun read_header :: "cf_header \<Rightarrow> string list \<Rightarrow> cf_html_error + cf_header" where
  "read_header h [] = Inr h"
| "read_header h (line # ls) = try_then (header_line h line) (\<lambda>h. read_header h ls)"

section \<open>The parser\<close>

definition cf_header_end :: "bytes \<Rightarrow> nat option option \<Rightarrow> cf_html_error + nat" where
  "cf_header_end input declared = (case declared of
       Some (Some start) \<Rightarrow> if start > 0 \<and> start \<le> length input \<and> start \<le> MAX_HEADER_BYTES then Inr start else Inl InvalidOffset
     | _ \<Rightarrow> fallback_header_end input)"

definition cf_sections :: "bytes \<Rightarrow> nat \<Rightarrow> cf_header \<Rightarrow> (cf_html_error + cf_html) option" where
  "cf_sections input header_end h =
     (let html_start = (case ch_start_html h of None \<Rightarrow> header_end | Some n \<Rightarrow> n);
          html_end = (case ch_end_html h of None \<Rightarrow> length input | Some n \<Rightarrow> n) in
      Option.bind (case (ch_start_fragment h, ch_end_fragment h) of
            (Some start, Some end') \<Rightarrow> Some (Inr (start, end'))
          | (None, None) \<Rightarrow> fragment_offsets_from_markers input html_start html_end
          | _ \<Rightarrow> Some (Inl InvalidOffset)) (\<lambda>offsets.
        case offsets of Inl e \<Rightarrow> Some (Inl e) | Inr (fragment_start, fragment_end) \<Rightarrow>
          if html_start > fragment_start \<or> fragment_start > fragment_end \<or> fragment_end > html_end \<or> html_end > length input
          then Some (Inl InvalidRange)
          else Option.bind (slice input html_start html_end) (\<lambda>html. Option.bind (slice input fragment_start fragment_end) (\<lambda>fragment.
            Some (Inr \<lparr>cf_html_bytes = html, cf_fragment = fragment, cf_source_url = ch_source_url h\<rparr>)))))"

definition parse_cf_html :: "bytes \<Rightarrow> (cf_html_error + cf_html) option" where
  "parse_cf_html input =
     (if length input > MAX_CF_HTML_BYTES then Some (Inl CfTooLarge)
      else case declared_html_start input of Inl e \<Rightarrow> Some (Inl e) | Inr declared \<Rightarrow>
      (case cf_header_end input declared of Inl e \<Rightarrow> Some (Inl e) | Inr header_end \<Rightarrow>
      Option.bind (slice input 0 header_end) (\<lambda>header.
        if \<not> utf8_valid header then Some (Inl MissingHeader)
        else case read_header cf_header_empty (str_lines header) of Inl e \<Rightarrow> Some (Inl e) | Inr h \<Rightarrow>
          if \<not> ch_version_seen h \<or> (declared \<noteq> None \<and> ''StartHTML'' \<notin> ch_seen h) then Some (Inl MissingHeader)
          else cf_sections input header_end h)))"

section \<open>No slice is out of range\<close>

lemma find_window_bound: "find_window p s = Some i \<Longrightarrow> i + length p \<le> length s"
proof (induction s arbitrary: i)
  case (Cons c s)
  show ?case
  proof (cases "length (c # s) < length p \<or> starts_with p (c # s)")
    case True
    with Cons.prems show ?thesis by (auto simp: find_window.simps [of p "c # s"] split: if_splits)
  next
    case False
    with Cons.prems obtain j where "i = Suc j" "find_window p s = Some j" by (auto simp: find_window.simps [of p "c # s"])
    with Cons.IH show ?thesis by simp
  qed
qed (auto simp: find_window.simps [of p "[]"] split: if_splits)

lemma min_by_fst_in: "min_by_fst xs = Some x \<Longrightarrow> x \<in> set xs"
proof (cases xs)
  case (Cons y ys)
  have fold: "foldl (\<lambda>best y. if fst y < fst best then y else best) z zs \<in> insert z (set zs)" for z :: "nat \<times> nat" and zs
  proof (induction zs arbitrary: z)
    case (Cons a zs)
    show ?case using Cons.IH [of z] Cons.IH [of a] by (cases "fst a < fst z") auto
  qed simp
  assume "min_by_fst xs = Some x"
  then show ?thesis using fold [of y ys] unfolding Cons by simp
qed simp

lemma find_marker_bound: "find_marker s markers = Some (offset, n) \<Longrightarrow> offset + n \<le> length s"
  using min_by_fst_in find_window_bound by (fastforce simp: find_marker_def map_filter_def)

lemma slice_length: "slice s a b = Some t \<Longrightarrow> a \<le> b \<and> b \<le> length s \<and> length t = b - a \<and> t = take (b - a) (drop a s)"
  by (auto simp: slice_def split: if_splits)

lemma slice_total: "a \<le> b \<Longrightarrow> b \<le> length s \<Longrightarrow> \<exists>t. slice s a b = Some t"
  by (simp add: slice_def)

lemma slice_append: "length xs = a \<Longrightarrow> a + length ys = b \<Longrightarrow> slice (xs @ ys @ zs) a b = Some ys"
  by (auto simp: slice_def)

lemma fragment_offsets_total: "fragment_offsets_from_markers input a b \<noteq> None"
proof (cases "a > b \<or> b > length input")
  case False
  then obtain html where html: "slice input a b = Some html" using slice_total [of a b input] by auto
  show ?thesis
  proof (cases "find_marker html START_MARKERS")
    case (Some m)
    obtain offset n where m: "m = (offset, n)" by (cases m)
    have "offset + n \<le> length html" using find_marker_bound Some m by blast
    with slice_length [OF html] have "a + offset + n \<le> b" "b \<le> length input" by auto
    then obtain t where "slice input (a + offset + n) b = Some t" using slice_total by blast
    with False html Some m show ?thesis by (simp add: fragment_offsets_from_markers_def Let_def split: option.split)
  qed (use False html in \<open>simp add: fragment_offsets_from_markers_def\<close>)
qed (auto simp: fragment_offsets_from_markers_def)

lemma header_end_bound: "cf_header_end input declared = Inr n \<Longrightarrow> n \<le> length input"
proof -
  have fallback: "fallback_header_end input = Inr n \<Longrightarrow> n \<le> length input"
  proof -
    let ?p = "take (min (length input) MAX_HEADER_BYTES) input"
    assume "fallback_header_end input = Inr n"
    then obtain k where "min_by_fst (List.map_filter id
        [map_option (\<lambda>start. (start, start + 4)) (find_window [CHR 0x0D, CHR 0x0A, CHR 0x0D, CHR 0x0A] ?p),
         map_option (\<lambda>start. (start, start + 2)) (find_window [CHR 0x0A, CHR 0x0A] ?p),
         map_option (\<lambda>start. (start, start)) (find_window ''<'' ?p)]) = Some (k, n)"
      by (auto simp: fallback_header_end_def Let_def split: option.splits if_splits)
    from min_by_fst_in [OF this] have "n \<le> length ?p"
      by (auto simp: map_filter_def dest!: find_window_bound split: if_splits)
    then show ?thesis by simp
  qed
  assume "cf_header_end input declared = Inr n"
  with fallback show ?thesis by (auto simp: cf_header_end_def split: option.splits if_splits)
qed

definition url_ok :: "cf_header \<Rightarrow> bool" where
  "url_ok h \<longleftrightarrow> (case ch_source_url h of None \<Rightarrow> True | Some u \<Rightarrow> length u \<le> MAX_SOURCE_URL_BYTES)"

lemma header_line_url: "header_line h line = Inr h' \<Longrightarrow> url_ok h \<Longrightarrow> url_ok h'"
  by (auto simp: header_line_def url_ok_def Let_def try_then_eq_Inr split: option.splits if_splits prod.splits)

lemma read_header_url: "read_header h ls = Inr h' \<Longrightarrow> url_ok h \<Longrightarrow> url_ok h'"
  by (induction ls arbitrary: h) (auto simp: try_then_eq_Inr dest: header_line_url)

definition cf_nested :: "bytes \<Rightarrow> cf_html \<Rightarrow> bool" where
  "cf_nested input c \<longleftrightarrow> (\<exists>a b d e. a \<le> b \<and> b \<le> d \<and> d \<le> e \<and> e \<le> length input \<and>
     slice input a e = Some (cf_html_bytes c) \<and> slice input b d = Some (cf_fragment c))"

lemma cf_sections_safe:
  "cf_sections input n h = None \<longleftrightarrow> False"
  "cf_sections input n h = Some (Inr c) \<Longrightarrow> cf_nested input c \<and> cf_source_url c = ch_source_url h"
proof -
  let ?a = "case ch_start_html h of None \<Rightarrow> n | Some n \<Rightarrow> n" and ?e = "case ch_end_html h of None \<Rightarrow> length input | Some n \<Rightarrow> n"
  define offsets where "offsets = (case (ch_start_fragment h, ch_end_fragment h) of
            (Some start, Some end') \<Rightarrow> Some (Inr (start, end'))
          | (None, None) \<Rightarrow> fragment_offsets_from_markers input ?a ?e
          | _ \<Rightarrow> Some (Inl InvalidOffset))"
  have "offsets \<noteq> None" using fragment_offsets_total by (auto simp: offsets_def split: option.split)
  then obtain r where r: "offsets = Some r" by auto
  have run: "cf_sections input n h = (case r of Inl e \<Rightarrow> Some (Inl e) | Inr (b, d) \<Rightarrow>
      if ?a > b \<or> b > d \<or> d > ?e \<or> ?e > length input then Some (Inl InvalidRange)
      else Option.bind (slice input ?a ?e) (\<lambda>html. Option.bind (slice input b d) (\<lambda>fragment.
            Some (Inr \<lparr>cf_html_bytes = html, cf_fragment = fragment, cf_source_url = ch_source_url h\<rparr>))))"
    unfolding cf_sections_def Let_def offsets_def [symmetric] r Option.bind.bind_lunit by (rule refl)
  show "cf_sections input n h = None \<longleftrightarrow> False"
    unfolding run by (auto simp: slice_def split: sum.split)
  assume c: "cf_sections input n h = Some (Inr c)"
  then obtain b d where "r = Inr (b, d)" unfolding run by (auto split: sum.splits)
  with c obtain y z where "slice input ?a ?e = Some y" "slice input b d = Some z" "?a \<le> b" "b \<le> d" "d \<le> ?e" "?e \<le> length input"
    and c': "c = \<lparr>cf_html_bytes = y, cf_fragment = z, cf_source_url = ch_source_url h\<rparr>"
    unfolding run by (auto simp: bind_eq_Some_conv not_less split: if_splits)
  then have "cf_nested input c" unfolding cf_nested_def c' cf_html.simps by blast
  with c' show "cf_nested input c \<and> cf_source_url c = ch_source_url h" by simp
qed

text \<open>
  The parser is safe on every input, also a hostile one: no slice is ever taken out of range, so it does not panic, and
  what it accepts is a fragment within the HTML within the input, with a source URL of at most 2048 bytes.
\<close>

lemma cf_html_never_out_of_range:
  "case parse_cf_html input of
     None \<Rightarrow> False
   | Some (Inl e) \<Rightarrow> True
   | Some (Inr c) \<Rightarrow> cf_nested input c \<and> length (cf_fragment c) \<le> length (cf_html_bytes c) \<and>
       length (cf_html_bytes c) \<le> length input \<and> length input \<le> MAX_CF_HTML_BYTES \<and>
       (case cf_source_url c of None \<Rightarrow> True | Some u \<Rightarrow> length u \<le> MAX_SOURCE_URL_BYTES)"
proof -
  have sizes: "length (cf_fragment c) \<le> length (cf_html_bytes c) \<and> length (cf_html_bytes c) \<le> length input" if "cf_nested input c" for c
    using that by (auto simp: cf_nested_def dest!: slice_length)
  have sections: "case cf_sections input n h of None \<Rightarrow> False | Some (Inl e) \<Rightarrow> True
      | Some (Inr c) \<Rightarrow> cf_nested input c \<and> length (cf_fragment c) \<le> length (cf_html_bytes c) \<and> length (cf_html_bytes c) \<le> length input \<and>
          (case cf_source_url c of None \<Rightarrow> True | Some u \<Rightarrow> length u \<le> MAX_SOURCE_URL_BYTES)"
    if "url_ok h" for n h
    using that cf_sections_safe [of input n h] sizes by (auto simp: url_ok_def split: option.split sum.split)
  have start: "url_ok cf_header_empty" by (simp add: url_ok_def cf_header_empty_def)
  show ?thesis
  proof (cases "length input > MAX_CF_HTML_BYTES")
    case False
    show ?thesis
    proof (cases "declared_html_start input")
      case declared: (Inr declared)
      show ?thesis
      proof (cases "cf_header_end input declared")
        case he: (Inr n)
        from slice_total [of 0 n input] header_end_bound [OF he] obtain header where header: "slice input 0 n = Some header" by auto
        show ?thesis
        proof (cases "read_header cf_header_empty (str_lines header)")
          case (Inr h)
          from sections [OF read_header_url [OF Inr start], of n] False declared he header Inr show ?thesis
            by (auto simp: parse_cf_html_def split: option.split sum.split)
        qed (use False declared he header in \<open>simp add: parse_cf_html_def\<close>)
      qed (use False declared in \<open>simp add: parse_cf_html_def\<close>)
    qed (use False in \<open>simp add: parse_cf_html_def\<close>)
  qed (simp add: parse_cf_html_def)
qed

section \<open>Reading what a writer wrote\<close>

text \<open>A writer of the format: five header lines with offsets of ten digits, then the HTML around the fragment.\<close>

definition cf_header_lines :: "nat \<Rightarrow> nat \<Rightarrow> nat \<Rightarrow> nat \<Rightarrow> string list" where
  "cf_header_lines a b d e = [''Version:1.0'', ''StartHTML:'' @ zero_padded 10 a, ''EndHTML:'' @ zero_padded 10 e,
     ''StartFragment:'' @ zero_padded 10 b, ''EndFragment:'' @ zero_padded 10 d]"

definition crlf_lines :: "string list \<Rightarrow> string" where
  "crlf_lines ls = concat (map (\<lambda>l. l @ [CHR 0x0D, CHR 0x0A]) ls)"

definition cf_write :: "bytes \<Rightarrow> bytes \<Rightarrow> bytes \<Rightarrow> bytes" where
  "cf_write before fragment after =
     crlf_lines (cf_header_lines 105 (105 + length before) (105 + length before + length fragment)
       (105 + length before + length fragment + length after)) @ before @ fragment @ after"

lemma zero_padded_digits: "list_all is_ascii_digit (zero_padded w n) \<and> digits_value (zero_padded w n) = n \<and> zero_padded w n \<noteq> []"
proof -
  have zeros: "digits_value (replicate k (digit_char 0) @ s) = digits_value s" for k s
    by (induction k) (simp_all add: digits_value_def digit_char_digit)
  have "list_all is_ascii_digit (replicate k (digit_char 0))" for k by (induction k) (simp_all add: digit_char_digit)
  with decimal_digits [of n] show ?thesis by (simp add: zero_padded_def zeros)
qed

lemma digit_graphic: "is_ascii_digit c \<Longrightarrow> is_graphic c"
  by (auto simp: is_ascii_digit_def is_graphic_def Let_def)

lemma trim_digits: "list_all is_ascii_digit s \<Longrightarrow> s \<noteq> [] \<Longrightarrow> trim s = s"
  using digit_graphic graphic_ascii by (intro trim_graphic_ends) (auto simp: list_all_iff)

lemma parse_offset_padded: "n < 10 ^ 10 \<Longrightarrow> parse_offset (zero_padded 10 n) = Inr (Some n)"
proof -
  assume n: "n < 10 ^ 10"
  have "zero_padded 10 n \<noteq> ''-1''" using zero_padded_digits [of 10 n] by (auto simp: is_ascii_digit_def)
  with n zero_padded_digits [of 10 n] length_zero_padded [of n 10] show ?thesis by (simp add: parse_offset_def parse_digits_def)
qed

lemma str_lines_crlf: "\<forall>l \<in> set ls. CHR 0x0A \<notin> set l \<Longrightarrow> str_lines (crlf_lines ls) = ls"
proof -
  assume ls: "\<forall>l \<in> set ls. CHR 0x0A \<notin> set l"
  have "crlf_lines ls = unlines (map (\<lambda>l. l @ [CHR 0x0D]) ls)" by (simp add: crlf_lines_def unlines_def comp_def)
  moreover have "split_on (CHR 0x0A) (unlines (map (\<lambda>l. l @ [CHR 0x0D]) ls)) = map (\<lambda>l. l @ [CHR 0x0D]) ls @ [[]]"
    by (rule split_unlines) (use ls in auto)
  moreover have "strip_cr (l @ [CHR 0x0D]) = l" for l by (simp add: strip_cr_def ends_with_def)
  ultimately show ?thesis by (simp add: str_lines_def comp_def)
qed

lemma declared_scan_line:
  assumes "\<forall>c \<in> set l. \<not> is_eol c" and "t \<noteq> []" and "\<not> is_eol (hd t)" and "l \<noteq> []"
  shows "declared_scan (l @ [CHR 0x0D, CHR 0x0A] @ t) =
    (if starts_with ''StartHTML:'' l then
       (if \<not> utf8_valid (drop 10 l) then Inl InvalidOffset else try_then (parse_offset (trim (drop 10 l))) (\<lambda>start. Inr (Some start)))
     else if starts_with ''<'' l then Inr None else declared_scan t)"
proof -
  have take: "takeWhile (\<lambda>c. \<not> is_eol c) (l @ [CHR 0x0D, CHR 0x0A] @ t) = l"
    using assms(1) by (subst takeWhile_append2) (auto simp: is_eol_def)
  have drop: "dropWhile (\<lambda>c. \<not> is_eol c) (l @ [CHR 0x0D, CHR 0x0A] @ t) = [CHR 0x0D, CHR 0x0A] @ t"
    using assms(1) by (subst dropWhile_append2) (auto simp: is_eol_def)
  have "dropWhile is_eol ([CHR 0x0D, CHR 0x0A] @ t) = t" using assms(2,3) by (cases t) (auto simp: is_eol_def)
  with take drop assms(4) show ?thesis by (subst declared_scan.simps) (simp add: Let_def)
qed

lemma header_graphic: "l \<in> set (cf_header_lines a b d e) \<Longrightarrow> c \<in> set l \<Longrightarrow> is_graphic c"
proof -
  have pad: "c \<in> set (zero_padded 10 n) \<Longrightarrow> is_graphic c" for n
    using zero_padded_digits [of 10 n] digit_graphic by (auto simp: list_all_iff)
  have key: "c \<in> set ''Version:1.0'' \<union> set ''StartHTML:'' \<union> set ''EndHTML:'' \<union> set ''StartFragment:'' \<union> set ''EndFragment:'' \<Longrightarrow> is_graphic c"
    by (auto simp: is_graphic_def)
  assume "l \<in> set (cf_header_lines a b d e)" and "c \<in> set l"
  then show ?thesis unfolding cf_header_lines_def using pad key by (simp only: list.set insert_iff empty_iff) (elim disjE; force)
qed

lemma utf8_valid_ascii: "\<forall>c \<in> set s. (of_char c :: nat) < 128 \<Longrightarrow> utf8_valid s"
  by (induction s) (auto simp: byte_in_def)

lemma header_offset_line:
  assumes "n < 10 ^ 10" and "key \<in> {''StartHTML'', ''EndHTML'', ''StartFragment'', ''EndFragment''}" and "key \<notin> ch_seen h"
  shows "header_line h (key @ '':'' @ zero_padded 10 n) = Inr (
    if key = ''StartHTML'' then h\<lparr>ch_seen := insert key (ch_seen h), ch_start_html := Some n\<rparr>
    else if key = ''EndHTML'' then h\<lparr>ch_seen := insert key (ch_seen h), ch_end_html := Some n\<rparr>
    else if key = ''StartFragment'' then h\<lparr>ch_seen := insert key (ch_seen h), ch_start_fragment := Some n\<rparr>
    else h\<lparr>ch_seen := insert key (ch_seen h), ch_end_fragment := Some n\<rparr>)"
proof -
  have split: "split_once (CHR '':'') (key @ '':'' @ zero_padded 10 n) = Some (key, zero_padded 10 n)"
    using split_once_append [of "CHR '':''" key "zero_padded 10 n"] assms(2) by auto
  have key: "trim key = key" by (rule trim_graphic_ends) (use assms(2) in \<open>auto simp: is_graphic_def\<close>)
  have v: "trim (zero_padded 10 n) = zero_padded 10 n" using zero_padded_digits [of 10 n] trim_digits by blast
  show ?thesis
    unfolding header_line_def split option.case prod.case Let_def key v parse_offset_padded [OF assms(1)] try_then_simps
    using assms(2,3) by (auto simp: RECOGNIZED_def)
qed

lemma version_line: "''Version'' \<notin> ch_seen h \<Longrightarrow>
    header_line h ''Version:1.0'' = Inr (h\<lparr>ch_seen := insert ''Version'' (ch_seen h), ch_version_seen := True\<rparr>)"
proof -
  assume h: "''Version'' \<notin> ch_seen h"
  have split: "split_once (CHR '':'') ''Version:1.0'' = Some (''Version'', ''1.0'')" by (simp add: split_once_def)
  have trims: "trim ''Version'' = ''Version''" "trim ''1.0'' = ''1.0''"
    by (rule trim_graphic_ends; simp add: is_graphic_def)+
  show ?thesis
    unfolding header_line_def split option.case prod.case Let_def trims using h by (simp add: RECOGNIZED_def is_ascii_digit_def)
qed

lemma read_written_header:
  assumes "a < 10 ^ 10" and "b < 10 ^ 10" and "d < 10 ^ 10" and "e < 10 ^ 10"
  shows "read_header cf_header_empty (cf_header_lines a b d e) = Inr \<lparr>ch_seen = {''Version'', ''StartHTML'', ''EndHTML'', ''StartFragment'', ''EndFragment''},
    ch_version_seen = True, ch_start_html = Some a, ch_end_html = Some e, ch_start_fragment = Some b, ch_end_fragment = Some d, ch_source_url = None\<rparr>"
proof -
  note line = header_offset_line [OF assms(1), of "''StartHTML''"] header_offset_line [OF assms(4), of "''EndHTML''"]
    header_offset_line [OF assms(2), of "''StartFragment''"] header_offset_line [OF assms(3), of "''EndFragment''"]
  show ?thesis
    unfolding cf_header_lines_def read_header.simps
    by (simp add: version_line cf_header_empty_def line [simplified] insert_commute)
qed

lemma declared_of_lines:
  assumes "t \<noteq> []" and "\<not> is_eol (hd t)" and "a < 10 ^ 10"
  shows "declared_scan (''Version:1.0'' @ [CHR 0x0D, CHR 0x0A] @ (''StartHTML:'' @ zero_padded 10 a) @ [CHR 0x0D, CHR 0x0A] @ t) = Inr (Some (Some a))"
proof -
  have eol: "\<not> is_eol c" if "is_graphic c" for c using that by (auto simp: is_graphic_def is_eol_def)
  have pad: "\<forall>c \<in> set (zero_padded 10 a). is_graphic c" using zero_padded_digits [of 10 a] digit_graphic by (auto simp: list_all_iff)
  have first: "declared_scan (''Version:1.0'' @ [CHR 0x0D, CHR 0x0A] @ (''StartHTML:'' @ zero_padded 10 a) @ [CHR 0x0D, CHR 0x0A] @ t) =
      declared_scan ((''StartHTML:'' @ zero_padded 10 a) @ [CHR 0x0D, CHR 0x0A] @ t)"
    by (subst declared_scan_line) (simp_all add: is_eol_def starts_with_def)
  have utf8: "utf8_valid (zero_padded 10 a)" by (rule utf8_valid_ascii) (use pad graphic_ascii in blast)
  have v: "trim (zero_padded 10 a) = zero_padded 10 a" using zero_padded_digits [of 10 a] trim_digits by blast
  have "declared_scan ((''StartHTML:'' @ zero_padded 10 a) @ [CHR 0x0D, CHR 0x0A] @ t) = Inr (Some (Some a))"
    by (subst declared_scan_line) (use assms pad eol utf8 v in \<open>auto simp: is_eol_def starts_with_def parse_offset_padded\<close>)
  with first show ?thesis by (simp only:)
qed

text \<open>
  C34. The parser reads what a writer of the format wrote: for any HTML around any fragment, with the offsets of the header
  pointing at them, it answers exactly that HTML and that fragment, up to the size limit, whatever bytes they contain.
\<close>

theorem cf_html_round_trip:
  assumes "105 + length before + length fragment + length after \<le> MAX_CF_HTML_BYTES"
  shows "parse_cf_html (cf_write before fragment after) =
    Some (Inr \<lparr>cf_html_bytes = before @ fragment @ after, cf_fragment = fragment, cf_source_url = None\<rparr>)"
proof -
  define b d e where bde: "b = 105 + length before" "d = 105 + length before + length fragment" "e = 105 + length before + length fragment + length after"
  let ?ls = "cf_header_lines 105 b d e" and ?body = "before @ fragment @ after"
  let ?input = "cf_write before fragment after"
  have small: "105 < (10 :: nat) ^ 10" "b < 10 ^ 10" "d < 10 ^ 10" "e < 10 ^ 10"
    using assms by (simp_all add: bde MAX_CF_HTML_BYTES_def)
  have len: "length (crlf_lines ?ls) = 105"
    using small by (simp add: crlf_lines_def cf_header_lines_def length_zero_padded)
  have input: "?input = crlf_lines ?ls @ ?body" by (simp add: cf_write_def bde)
  have e: "length ?input = e" unfolding input length_append len by (simp add: bde)
  define t where "t = (''EndHTML:'' @ zero_padded 10 e) @ [CHR 0x0D, CHR 0x0A] @ (''StartFragment:'' @ zero_padded 10 b) @ [CHR 0x0D, CHR 0x0A] @
    (''EndFragment:'' @ zero_padded 10 d) @ [CHR 0x0D, CHR 0x0A]"
  have lines: "crlf_lines ?ls = ''Version:1.0'' @ [CHR 0x0D, CHR 0x0A] @ (''StartHTML:'' @ zero_padded 10 105) @ [CHR 0x0D, CHR 0x0A] @ t"
    by (simp add: crlf_lines_def cf_header_lines_def t_def)
  have "take (min (length ?input) MAX_HEADER_BYTES) ?input = crlf_lines ?ls @ take (min e MAX_HEADER_BYTES - 105) ?body"
  proof -
    have le: "105 \<le> min e MAX_HEADER_BYTES" by (simp add: bde MAX_HEADER_BYTES_def)
    show ?thesis unfolding e unfolding input take_append len using le len by (simp only: take_all)
  qed
  then have "declared_html_start ?input = declared_scan (''Version:1.0'' @ [CHR 0x0D, CHR 0x0A] @ (''StartHTML:'' @ zero_padded 10 105) @ [CHR 0x0D, CHR 0x0A] @
      (t @ take (min e MAX_HEADER_BYTES - 105) ?body))"
    unfolding declared_html_start_def lines by (simp only: append_assoc)
  also have "\<dots> = Inr (Some (Some 105))"
    by (rule declared_of_lines [OF _ _ small(1)]) (simp_all add: t_def is_eol_def)
  finally have declared: "declared_html_start ?input = Inr (Some (Some 105))" .
  have he: "cf_header_end ?input (Some (Some 105)) = Inr 105" by (simp add: cf_header_end_def e bde MAX_HEADER_BYTES_def)
  have header: "slice ?input 0 105 = Some (crlf_lines ?ls)" by (simp add: slice_def input len)
  have graphic: "\<forall>l \<in> set ?ls. \<forall>c \<in> set l. is_graphic c" using header_graphic by blast
  have "utf8_valid (crlf_lines ?ls)"
    by (rule utf8_valid_ascii) (use graphic graphic_ascii in \<open>auto simp: crlf_lines_def\<close>)
  moreover have "str_lines (crlf_lines ?ls) = ?ls"
  proof (rule str_lines_crlf)
    have "\<not> is_graphic (CHR 0x0A)" by (simp add: is_graphic_def)
    with graphic show "\<forall>l \<in> set ?ls. CHR 0x0A \<notin> set l" by blast
  qed
  moreover have "slice ?input 105 e = Some ?body"
    using slice_append [OF len, of ?body e "[]"] by (simp add: input bde)
  moreover have "length (crlf_lines ?ls @ before) = b" unfolding length_append len by (simp add: bde)
  then have "slice ?input b d = Some fragment"
    using slice_append [of "crlf_lines ?ls @ before" b fragment d after] by (simp add: input bde)
  ultimately show ?thesis
    using assms declared he header read_written_header [OF small] e
    by (simp add: parse_cf_html_def cf_sections_def Let_def bde)
qed

theorem cf_html_round_trip_witness:
  "parse_cf_html (cf_write ''<html>'' ''<b>hello</b>'' ''</html>'') =
     Some (Inr \<lparr>cf_html_bytes = ''<html><b>hello</b></html>'', cf_fragment = ''<b>hello</b>'', cf_source_url = None\<rparr>)"
  using cf_html_round_trip [of "''<html>''" "''<b>hello</b>''" "''</html>''"] by (simp add: MAX_CF_HTML_BYTES_def)

end
