(* ===== verification/Compose.thy ===== *)
theory Compose
  imports Text_Format "HOL-Library.Multiset"
begin

text \<open>
  Composition state, \<open>crates/vbuff-core/src/compose.rs\<close>: the paste stack, form-fill plans and merged texts. A merge is
  refused before it is rendered; the computed length of its output is the length it would have.
\<close>

definition MAX_STACK_ITEMS :: nat where "MAX_STACK_ITEMS = 128"
definition MAX_ITEM_BYTES :: nat where "MAX_ITEM_BYTES = 1024 * 1024"
definition MAX_SLOT_NAME_BYTES :: nat where "MAX_SLOT_NAME_BYTES = 80"

record stack_item =
  si_id :: u64
  si_label :: string
  si_text :: string

record paste_stack =
  ps_items :: "stack_item list"
  ps_next_id :: u64

datatype compose_error = ComposeEmpty | ComposeTooLarge | StackFull | StackNotFound | InvalidSlotName

definition compose_validate_text :: "string \<Rightarrow> compose_error + unit" where
  "compose_validate_text s =
     (if s = [] then Inl ComposeEmpty else if length s > MAX_ITEM_BYTES then Inl ComposeTooLarge else Inr ())"

definition compose_validate_label :: "string \<Rightarrow> compose_error + unit" where
  "compose_validate_label s =
     (if trim s = [] \<or> length s > MAX_SLOT_NAME_BYTES \<or> has_control s then Inl InvalidSlotName else Inr ())"

section \<open>The paste stack\<close>

fun position_of :: "u64 \<Rightarrow> stack_item list \<Rightarrow> nat option" where
  "position_of k [] = None"
| "position_of k (x # xs) = (if si_id x = k then Some 0 else map_option Suc (position_of k xs))"

definition stack_index :: "paste_stack \<Rightarrow> u64 \<Rightarrow> compose_error + nat" where
  "stack_index s k = (case position_of k (ps_items s) of None \<Rightarrow> Inl StackNotFound | Some i \<Rightarrow> Inr i)"

definition stack_item_at :: "paste_stack \<Rightarrow> u64 \<Rightarrow> compose_error + stack_item" where
  "stack_item_at s k = try_then (stack_index s k) (\<lambda>i. Inr (ps_items s ! i))"

definition next_stack_id :: "u64 \<Rightarrow> u64" where
  "next_stack_id n = max (n + 1) 1"

definition stack_add :: "paste_stack \<Rightarrow> string \<Rightarrow> string \<Rightarrow> compose_error + (paste_stack \<times> u64)" where
  "stack_add s label content =
     (if length (ps_items s) \<ge> MAX_STACK_ITEMS then Inl StackFull
      else try_then (compose_validate_label label) (\<lambda>_. try_then (compose_validate_text content) (\<lambda>_.
        let k = next_stack_id (ps_next_id s) in
        Inr (\<lparr>ps_items = ps_items s @ [\<lparr>si_id = k, si_label = label, si_text = content\<rparr>], ps_next_id = k\<rparr>, k))))"

definition stack_edit :: "paste_stack \<Rightarrow> u64 \<Rightarrow> string \<Rightarrow> compose_error + paste_stack" where
  "stack_edit s k content = try_then (compose_validate_text content) (\<lambda>_. try_then (stack_index s k) (\<lambda>i.
     Inr (s\<lparr>ps_items := (ps_items s)[i := (ps_items s ! i)\<lparr>si_text := content\<rparr>]\<rparr>)))"

definition stack_rename :: "paste_stack \<Rightarrow> u64 \<Rightarrow> string \<Rightarrow> compose_error + paste_stack" where
  "stack_rename s k label = try_then (compose_validate_label label) (\<lambda>_. try_then (stack_index s k) (\<lambda>i.
     Inr (s\<lparr>ps_items := (ps_items s)[i := (ps_items s ! i)\<lparr>si_label := label\<rparr>]\<rparr>)))"

definition stack_remove :: "paste_stack \<Rightarrow> u64 \<Rightarrow> compose_error + (paste_stack \<times> stack_item)" where
  "stack_remove s k = try_then (stack_index s k) (\<lambda>i.
     Inr (s\<lparr>ps_items := take i (ps_items s) @ drop (Suc i) (ps_items s)\<rparr>, ps_items s ! i))"

definition stack_duplicate :: "paste_stack \<Rightarrow> u64 \<Rightarrow> compose_error + (paste_stack \<times> u64)" where
  "stack_duplicate s k =
     (if length (ps_items s) \<ge> MAX_STACK_ITEMS then Inl StackFull
      else try_then (stack_index s k) (\<lambda>i.
        let source = ps_items s ! i; new_id = next_stack_id (ps_next_id s) in
        Inr (\<lparr>ps_items = take (Suc i) (ps_items s) @ [source\<lparr>si_id := new_id\<rparr>] @ drop (Suc i) (ps_items s), ps_next_id = new_id\<rparr>, new_id)))"

definition swap_at :: "nat \<Rightarrow> nat \<Rightarrow> 'a list \<Rightarrow> 'a list" where
  "swap_at i j xs = xs[i := xs ! j, j := xs ! i]"

definition stack_move_up :: "paste_stack \<Rightarrow> u64 \<Rightarrow> compose_error + paste_stack" where
  "stack_move_up s k = try_then (stack_index s k) (\<lambda>i.
     Inr (if i > 0 then s\<lparr>ps_items := swap_at i (i - 1) (ps_items s)\<rparr> else s))"

definition stack_move_down :: "paste_stack \<Rightarrow> u64 \<Rightarrow> compose_error + paste_stack" where
  "stack_move_down s k = try_then (stack_index s k) (\<lambda>i.
     Inr (if i + 1 < length (ps_items s) then s\<lparr>ps_items := swap_at i (i + 1) (ps_items s)\<rparr> else s))"

definition stack_clear :: "paste_stack \<Rightarrow> paste_stack" where
  "stack_clear s = s\<lparr>ps_items := []\<rparr>"

text \<open>What a client may do, and the state it leaves.\<close>

datatype stack_op = AddItem string string | EditItem u64 string | RenameItem u64 string | RemoveItem u64 | DuplicateItem u64
  | MoveUp u64 | MoveDown u64 | ClearStack

definition after :: "paste_stack \<Rightarrow> compose_error + paste_stack \<Rightarrow> paste_stack" where
  "after s r = (case r of Inl _ \<Rightarrow> s | Inr s' \<Rightarrow> s')"

fun stack_step :: "paste_stack \<Rightarrow> stack_op \<Rightarrow> paste_stack" where
  "stack_step s (AddItem l t) = after s (try_then (stack_add s l t) (Inr \<circ> fst))"
| "stack_step s (EditItem k t) = after s (stack_edit s k t)"
| "stack_step s (RenameItem k l) = after s (stack_rename s k l)"
| "stack_step s (RemoveItem k) = after s (try_then (stack_remove s k) (Inr \<circ> fst))"
| "stack_step s (DuplicateItem k) = after s (try_then (stack_duplicate s k) (Inr \<circ> fst))"
| "stack_step s (MoveUp k) = after s (stack_move_up s k)"
| "stack_step s (MoveDown k) = after s (stack_move_down s k)"
| "stack_step s ClearStack = stack_clear s"

definition item_valid :: "stack_item \<Rightarrow> bool" where
  "item_valid x \<longleftrightarrow> compose_validate_label (si_label x) = Inr () \<and> compose_validate_text (si_text x) = Inr ()"

definition stack_valid :: "paste_stack \<Rightarrow> bool" where
  "stack_valid s \<longleftrightarrow> length (ps_items s) \<le> MAX_STACK_ITEMS \<and> (\<forall>x \<in> set (ps_items s). item_valid x)"

text \<open>Identifiers are distinct as long as the counter has not come round.\<close>

definition stack_fresh :: "nat \<Rightarrow> paste_stack \<Rightarrow> bool" where
  "stack_fresh n s \<longleftrightarrow> distinct (map si_id (ps_items s)) \<and> (\<forall>x \<in> set (ps_items s). 0 < si_id x \<and> si_id x \<le> ps_next_id s) \<and>
     unat (ps_next_id s) \<le> n"

lemma position_of_Some: "position_of k xs = Some i \<Longrightarrow> i < length xs \<and> si_id (xs ! i) = k"
  by (induction xs arbitrary: i) (auto split: if_splits)

lemma position_of_None: "position_of k xs = None \<longleftrightarrow> k \<notin> si_id ` set xs"
  by (induction xs) auto

lemma stack_index_Inr [result_simps]: "stack_index s k = Inr i \<longleftrightarrow> position_of k (ps_items s) = Some i"
  by (auto simp: stack_index_def split: option.splits)

lemma swap_at_mset: "i < length xs \<Longrightarrow> j < length xs \<Longrightarrow> mset (swap_at i j xs) = mset xs"
  unfolding swap_at_def by (rule mset_swap)

lemma swap_at_set: "i < length xs \<Longrightarrow> j < length xs \<Longrightarrow> set (swap_at i j xs) = set xs"
  by (metis swap_at_mset mset_eq_setD)

lemma swap_at_length [simp]: "length (swap_at i j xs) = length xs"
  by (simp add: swap_at_def)

lemma swap_at_distinct: "i < length xs \<Longrightarrow> j < length xs \<Longrightarrow> distinct (map f (swap_at i j xs)) = distinct (map f xs)"
  by (metis swap_at_mset mset_map mset_eq_imp_distinct_iff)


lemma set_drop_one: "set (take i xs @ drop (Suc i) xs) \<subseteq> set xs"
  using set_take_subset set_drop_subset by fastforce

lemma take_one_drop: "i < length xs \<Longrightarrow> take i xs @ xs ! i # drop (Suc i) xs = xs"
  by (simp add: id_take_nth_drop [symmetric])

lemma item_valid_iff: "item_valid x \<longleftrightarrow> compose_validate_label (si_label x) = Inr () \<and> compose_validate_text (si_text x) = Inr ()"
  by (simp add: item_valid_def)

lemma after_cases: "(\<And>s'. r = Inr s' \<Longrightarrow> P s') \<Longrightarrow> P s \<Longrightarrow> P (after s r)"
  by (auto simp: after_def split: sum.split)

lemma stack_swap_valid: "stack_valid s \<Longrightarrow> i < length (ps_items s) \<Longrightarrow> j < length (ps_items s) \<Longrightarrow> stack_valid (s\<lparr>ps_items := swap_at i j (ps_items s)\<rparr>)"
  by (simp add: stack_valid_def swap_at_set)

lemma stack_step_valid:
  assumes "stack_valid s" shows "stack_valid (stack_step s op)"
proof (cases op)
  case (AddItem l t)
  show ?thesis unfolding AddItem stack_step.simps
    by (rule after_cases [where P = stack_valid, OF _ assms]) (use assms in \<open>auto simp: stack_add_def result_simps Let_def stack_valid_def item_valid_def split: if_splits\<close>)
next
  case (EditItem k t)
  show ?thesis unfolding EditItem stack_step.simps
    by (rule after_cases [where P = stack_valid, OF _ assms]) (use assms in \<open>auto simp: stack_edit_def result_simps stack_valid_def item_valid_def
      dest!: position_of_Some set_update_subset_insert [THEN subsetD]\<close>)
next
  case (RenameItem k l)
  show ?thesis unfolding RenameItem stack_step.simps
    by (rule after_cases [where P = stack_valid, OF _ assms]) (use assms in \<open>auto simp: stack_rename_def result_simps stack_valid_def item_valid_def
      dest!: position_of_Some set_update_subset_insert [THEN subsetD]\<close>)
next
  case (RemoveItem k)
  show ?thesis unfolding RemoveItem stack_step.simps
    by (rule after_cases [where P = stack_valid, OF _ assms]) (use assms set_drop_one in \<open>fastforce simp: stack_remove_def result_simps stack_valid_def\<close>)
next
  case (DuplicateItem k)
  show ?thesis unfolding DuplicateItem stack_step.simps
  proof (rule after_cases [where P = stack_valid, OF _ assms])
    fix s' assume r: "try_then (stack_duplicate s k) (Inr \<circ> fst) = Inr s'"
    then obtain i where i: "position_of k (ps_items s) = Some i" "length (ps_items s) < MAX_STACK_ITEMS"
      and s': "ps_items s' = take (Suc i) (ps_items s) @ [(ps_items s ! i)\<lparr>si_id := next_stack_id (ps_next_id s)\<rparr>] @ drop (Suc i) (ps_items s)"
      by (auto simp: stack_duplicate_def result_simps Let_def split: if_splits)
    from i have "i < length (ps_items s)" by (auto dest: position_of_Some)
    then have "set (ps_items s') \<subseteq> insert ((ps_items s ! i)\<lparr>si_id := next_stack_id (ps_next_id s)\<rparr>) (set (ps_items s))"
      and "item_valid (ps_items s ! i)" and "length (ps_items s') = Suc (length (ps_items s))"
      using assms by (auto simp: s' stack_valid_def min_def dest: in_set_takeD in_set_dropD)
    then show "stack_valid s'" using assms i by (auto simp: stack_valid_def item_valid_def)
  qed
next
  case (MoveUp k)
  show ?thesis unfolding MoveUp stack_step.simps
    by (rule after_cases [where P = stack_valid, OF _ assms]) (use assms in \<open>auto simp: stack_move_up_def result_simps intro!: stack_swap_valid dest!: position_of_Some split: if_splits\<close>)
next
  case (MoveDown k)
  show ?thesis unfolding MoveDown stack_step.simps
    by (rule after_cases [where P = stack_valid, OF _ assms]) (use assms in \<open>auto simp: stack_move_down_def result_simps intro!: stack_swap_valid dest!: position_of_Some split: if_splits\<close>)
next
  case ClearStack
  then show ?thesis using assms by (simp add: stack_clear_def stack_valid_def)
qed

interpretation stack: machine stack_step stack_valid
  by unfold_locales (rule stack_step_valid)


lemma next_stack_id_fresh:
  assumes "unat n < 2 ^ 64 - 1"
  shows "unat (next_stack_id n) = unat n + 1" and "n < next_stack_id n" and "0 < next_stack_id n"
proof -
  have "unat (n + 1) = unat n + 1" using assms by (simp add: unat_word_ariths)
  then show "unat (next_stack_id n) = unat n + 1" by (simp add: next_stack_id_def max_def word_le_nat_alt)
  then show "n < next_stack_id n" and "0 < next_stack_id n" by (simp_all add: word_less_nat_alt)
qed

lemma fresh_subset:
  assumes "stack_fresh n s" and "distinct (map si_id (ps_items s'))" and "si_id ` set (ps_items s') \<subseteq> si_id ` set (ps_items s)"
    and "ps_next_id s' = ps_next_id s"
  shows "stack_fresh n s'"
  using assms unfolding stack_fresh_def by fastforce

lemma fresh_insert:
  assumes fresh: "stack_fresh n s" and n: "n < 2 ^ 64 - 1" and items: "ps_items s' = xs @ [x] @ ys" "xs @ ys = ps_items s"
    and k: "si_id x = next_stack_id (ps_next_id s)" "ps_next_id s' = next_stack_id (ps_next_id s)"
  shows "stack_fresh (Suc n) s'"
proof -
  have next_id: "unat (ps_next_id s) < 2 ^ 64 - 1" using fresh n by (simp add: stack_fresh_def)
  note new = next_stack_id_fresh [OF next_id]
  have old: "0 < si_id y \<and> si_id y < si_id x" if "y \<in> set xs \<union> set ys" for y
  proof -
    have "y \<in> set (ps_items s)" using that items(2) by (metis set_append)
    then have "0 < si_id y \<and> si_id y \<le> ps_next_id s" using fresh by (simp add: stack_fresh_def)
    then show ?thesis using new(2) unfolding k by (auto elim: le_less_trans)
  qed
  have "distinct (map si_id (xs @ ys))" using fresh unfolding items(2) stack_fresh_def by blast
  then have "distinct (map si_id (ps_items s'))" using old by (force simp: items(1))
  moreover have "0 < si_id y \<and> si_id y \<le> ps_next_id s'" if "y \<in> set (ps_items s')" for y
    using that old new(3) k by (auto simp: items(1) intro: less_imp_le)
  moreover have "unat (ps_next_id s') \<le> Suc n" using new(1) fresh by (simp add: k stack_fresh_def)
  ultimately show ?thesis by (simp add: stack_fresh_def)
qed

lemma map_update_same: "i < length xs \<Longrightarrow> f y = f (xs ! i) \<Longrightarrow> map f (xs[i := y]) = map f xs"
  by (simp add: map_update list_update_same_conv)

lemma fresh_same_ids: "stack_fresh n s \<Longrightarrow> map si_id (ps_items s') = map si_id (ps_items s) \<Longrightarrow> ps_next_id s' = ps_next_id s \<Longrightarrow> stack_fresh n s'"
  by (rule fresh_subset) (simp_all add: stack_fresh_def flip: set_map)

lemma fresh_mono: "stack_fresh n s \<Longrightarrow> stack_fresh (Suc n) s"
  by (simp add: stack_fresh_def)

lemma fresh_swap:
  "stack_fresh n s \<Longrightarrow> i < length (ps_items s) \<Longrightarrow> j < length (ps_items s) \<Longrightarrow> stack_fresh n (s\<lparr>ps_items := swap_at i j (ps_items s)\<rparr>)"
  by (rule fresh_subset) (simp_all add: swap_at_set swap_at_distinct stack_fresh_def)

lemma distinct_drop_one: "distinct (map f xs) \<Longrightarrow> distinct (map f (take i xs @ drop (Suc i) xs))"
  using set_take_disj_set_drop_if_distinct [of "map f xs" i "Suc i"] by (simp flip: take_map drop_map)

lemma stack_step_fresh:
  assumes fresh: "stack_fresh n s" and n: "n < 2 ^ 64 - 1" shows "stack_fresh (Suc n) (stack_step s op)"
proof -
  note keep = fresh_mono [OF fresh]
  note by_result = after_cases [where P = "stack_fresh (Suc n)", OF _ keep]
  show ?thesis
  proof (cases op)
    case (AddItem l t)
    show ?thesis unfolding AddItem stack_step.simps
      by (rule by_result) (auto simp: stack_add_def result_simps Let_def split: if_splits intro!: fresh_insert [OF fresh n, where ys = "[]"])
  next
    case (EditItem k t)
    show ?thesis unfolding EditItem stack_step.simps
      by (rule by_result) (auto simp: stack_edit_def result_simps map_update_same dest!: position_of_Some intro!: fresh_same_ids [OF keep])
  next
    case (RenameItem k l)
    show ?thesis unfolding RenameItem stack_step.simps
      by (rule by_result) (auto simp: stack_rename_def result_simps map_update_same dest!: position_of_Some intro!: fresh_same_ids [OF keep])
  next
    case (RemoveItem k)
    have "distinct (map si_id (take i (ps_items s) @ drop (Suc i) (ps_items s)))" for i
      using fresh by (intro distinct_drop_one) (simp add: stack_fresh_def)
    then show ?thesis unfolding RemoveItem stack_step.simps
      by (intro by_result fresh_subset [OF keep]) (use set_drop_one in \<open>fastforce simp: stack_remove_def result_simps\<close>)+
  next
    case (DuplicateItem k)
    show ?thesis unfolding DuplicateItem stack_step.simps
      by (rule by_result) (auto simp: stack_duplicate_def result_simps Let_def split: if_splits intro!: fresh_insert [OF fresh n])
  next
    case (MoveUp k)
    show ?thesis unfolding MoveUp stack_step.simps
      by (rule by_result) (auto simp: stack_move_up_def result_simps keep intro!: fresh_swap dest!: position_of_Some split: if_splits)
  next
    case (MoveDown k)
    show ?thesis unfolding MoveDown stack_step.simps
      by (rule by_result) (auto simp: stack_move_down_def result_simps keep intro!: fresh_swap dest!: position_of_Some split: if_splits)
  next
    case ClearStack
    then show ?thesis using keep by (simp add: stack_clear_def stack_fresh_def)
  qed
qed

lemma stack_run_fresh:
  "stack_fresh n s \<Longrightarrow> n + length ops < 2 ^ 64 \<Longrightarrow> stack_fresh (n + length ops) (run stack_step s ops)"
proof (induction ops arbitrary: n s)
  case (Cons op ops)
  have "stack_fresh (Suc n) (stack_step s op)" using Cons.prems by (intro stack_step_fresh) simp_all
  from Cons.IH [OF this] Cons.prems show ?case by simp
qed simp

lemma stack_ids_distinct:
  "length ops < 2 ^ 64 \<Longrightarrow> distinct (map si_id (ps_items (run stack_step \<lparr>ps_items = [], ps_next_id = 0\<rparr> ops)))"
  using stack_run_fresh [of 0 "\<lparr>ps_items = [], ps_next_id = 0\<rparr>" ops] by (simp add: stack_fresh_def)

lemma stack_always_valid: "stack_valid (run stack_step \<lparr>ps_items = [], ps_next_id = 0\<rparr> ops)"
  by (rule stack.inv_run) (simp add: stack_valid_def)

section \<open>Form-fill plans\<close>

record form_slot =
  fs_name :: string
  fs_value :: string

record fill_plan =
  fp_slots :: "form_slot list"
  fp_cursor :: nat

datatype form_step = PasteSlot string string | AdvanceFocus | FormComplete

definition plan_new :: "form_slot list \<Rightarrow> compose_error + fill_plan" where
  "plan_new slots = (if length slots > MAX_STACK_ITEMS then Inl StackFull
     else try_then (try_all (\<lambda>s. try_then (compose_validate_label (fs_name s)) (\<lambda>_. compose_validate_text (fs_value s))) slots) (\<lambda>_.
       Inr \<lparr>fp_slots = slots, fp_cursor = 0\<rparr>))"

definition current_step :: "fill_plan \<Rightarrow> form_step" where
  "current_step p = (let i = fp_cursor p div 2 in
     if i \<ge> length (fp_slots p) then FormComplete
     else if even (fp_cursor p) then PasteSlot (fs_name (fp_slots p ! i)) (fs_value (fp_slots p ! i)) else AdvanceFocus)"

text \<open>The cursor is at most twice the number of slots, so its saturation is out of reach.\<close>

definition acknowledge_step :: "fill_plan \<Rightarrow> fill_plan" where
  "acknowledge_step p = (if current_step p \<noteq> FormComplete then p\<lparr>fp_cursor := fp_cursor p + 1\<rparr> else p)"

definition plan_reset :: "fill_plan \<Rightarrow> fill_plan" where
  "plan_reset p = p\<lparr>fp_cursor := 0\<rparr>"

definition planned_steps :: "form_slot list \<Rightarrow> form_step list" where
  "planned_steps slots = concat (map (\<lambda>s. [PasteSlot (fs_name s) (fs_value s), AdvanceFocus]) slots)"

lemma length_planned [simp]: "length (planned_steps slots) = 2 * length slots"
  by (induction slots) (simp_all add: planned_steps_def)

lemma planned_nth: "n < 2 * length slots \<Longrightarrow> planned_steps slots ! n =
   (if even n then PasteSlot (fs_name (slots ! (n div 2))) (fs_value (slots ! (n div 2))) else AdvanceFocus)"
proof (induction slots arbitrary: n)
  case (Cons s slots)
  show ?case
  proof (cases "n < 2")
    case True then show ?thesis by (auto simp: planned_steps_def less_2_cases_iff)
  next
    case False
    then obtain m where n: "n = Suc (Suc m)" by (metis One_nat_def Suc_1 add_2_eq_Suc le_Suc_ex not_less)
    then have "planned_steps (s # slots) ! n = planned_steps slots ! m" by (simp add: planned_steps_def)
    with Cons n show ?thesis by simp
  qed
qed simp

lemma acknowledge_pow: "(acknowledge_step ^^ n) \<lparr>fp_slots = slots, fp_cursor = 0\<rparr> = \<lparr>fp_slots = slots, fp_cursor = min n (2 * length slots)\<rparr>"
  by (induction n) (auto simp: acknowledge_step_def current_step_def Let_def min_def)

text \<open>A client that acknowledges every step is given the slots in order, each pasted and then left, and then the end.\<close>

lemma plan_steps_in_order:
  "current_step ((acknowledge_step ^^ n) \<lparr>fp_slots = slots, fp_cursor = 0\<rparr>) =
     (if n < 2 * length slots then planned_steps slots ! n else FormComplete)"
  by (auto simp: acknowledge_pow current_step_def Let_def planned_nth min_def)

section \<open>Merging\<close>

datatype merge_template = Bullets | NumberedCitations | CsvRows | MarkdownTable

text \<open>\<open>str::replace\<close> of one ASCII character.\<close>

definition replace_byte :: "char \<Rightarrow> string \<Rightarrow> string \<Rightarrow> string" where
  "replace_byte c r s = concat (map (\<lambda>x. if x = c then r else [x]) s)"

definition has_csv_special :: "string \<Rightarrow> bool" where
  "has_csv_special v \<longleftrightarrow> list_ex (\<lambda>c. c = CHR '','' \<or> c = CHR 0x22 \<or> c = CHR 0x0A \<or> c = CHR 0x0D) v"

definition csv_cell :: "string \<Rightarrow> string" where
  "csv_cell v = (if has_csv_special v then [CHR 0x22] @ replace_byte (CHR 0x22) [CHR 0x22, CHR 0x22] v @ [CHR 0x22] else v)"

definition markdown_row :: "nat \<Rightarrow> string \<Rightarrow> string" where
  "markdown_row index item =
     ''| '' @ decimal (index + 1) @ '' | '' @ replace_byte (CHR 0x0A) ''<br>'' (replace_byte (CHR ''|'') [CHR 0x5C, CHR ''|''] (trim item)) @ '' |''"

definition merge_render :: "string list \<Rightarrow> merge_template \<Rightarrow> string" where
  "merge_render items template = (case template of
       Bullets \<Rightarrow> join_with [CHR 0x0A] (map (\<lambda>item. ''- '' @ trim item) items)
     | NumberedCitations \<Rightarrow> join_with [CHR 0x0A] (map (\<lambda>(index, item). ''['' @ decimal (index + 1) @ ''] '' @ trim item) (enumerate 0 items))
     | CsvRows \<Rightarrow> join_with [CHR 0x0A] (map (\<lambda>item. csv_cell (trim item)) items)
     | MarkdownTable \<Rightarrow> join_with [CHR 0x0A] ([''| # | Clip |'', ''|---:|---|''] @ map (\<lambda>(index, item). markdown_row index item) (enumerate 0 items)))"

function decimal_digits_from :: "nat \<Rightarrow> nat \<Rightarrow> nat" where
  "decimal_digits_from v digits = (if v \<ge> 10 then decimal_digits_from (v div 10) (digits + 1) else digits)"
  by pat_completeness auto
termination by (relation "measure fst") auto

declare decimal_digits_from.simps [simp del]

definition count_digits :: "nat \<Rightarrow> nat" where
  "count_digits v = decimal_digits_from v 1"

text \<open>\<open>usize::checked_add\<close> on 64 bits, and \<open>Iterator::checked_fold\<close>.\<close>

definition in_usize :: "nat \<Rightarrow> nat option" where
  "in_usize n = (if n < 2 ^ 64 then Some n else None)"

fun checked_fold :: "('s \<Rightarrow> 'a \<Rightarrow> 's option) \<Rightarrow> 's \<Rightarrow> 'a list \<Rightarrow> 's option" where
  "checked_fold f s [] = Some s"
| "checked_fold f s (x # xs) = Option.bind (f s x) (\<lambda>s. checked_fold f s xs)"

definition plus_checked :: "nat option \<Rightarrow> nat \<Rightarrow> nat option" where
  "plus_checked a b = Option.bind a (\<lambda>x. in_usize (x + b))"

definition HEADER_BYTES :: nat where
  "HEADER_BYTES = length (''| # | Clip |'' @ [CHR 0x0A] @ ''|---:|---|'')"

definition csv_cell_len :: "string \<Rightarrow> nat option" where
  "csv_cell_len v = (if has_csv_special v then plus_checked (plus_checked (Some (length v)) (length (filter (\<lambda>b. b = CHR 0x22) v))) 2 else Some (length v))"

definition escaped_len :: "string \<Rightarrow> nat option" where
  "escaped_len v = Option.bind (plus_checked (Some (length v)) (length (filter (\<lambda>b. b = CHR ''|'') v))) (\<lambda>n.
     Option.bind (in_usize (length (filter (\<lambda>b. b = CHR 0x0A) v) * 3)) (\<lambda>lines. plus_checked (Some n) lines))"

definition merge_output_len :: "string list \<Rightarrow> merge_template \<Rightarrow> nat option" where
  "merge_output_len items template = (let separators = length items - 1 in case template of
       Bullets \<Rightarrow> plus_checked (checked_fold (\<lambda>sum item. plus_checked (plus_checked (Some sum) 2) (length (trim item))) 0 items) separators
     | NumberedCitations \<Rightarrow> plus_checked (checked_fold (\<lambda>sum (index, item).
           plus_checked (plus_checked (plus_checked (Some sum) (count_digits (index + 1))) 3) (length (trim item))) 0 (enumerate 0 items)) separators
     | CsvRows \<Rightarrow> plus_checked (checked_fold (\<lambda>sum item. Option.bind (csv_cell_len (trim item)) (\<lambda>n. plus_checked (Some sum) n)) 0 items) separators
     | MarkdownTable \<Rightarrow> checked_fold (\<lambda>sum (index, item). Option.bind (escaped_len (trim item)) (\<lambda>n.
           plus_checked (plus_checked (plus_checked (Some sum) 8) (count_digits (index + 1))) n)) HEADER_BYTES (enumerate 0 items))"

definition merge_text :: "string list \<Rightarrow> merge_template \<Rightarrow> compose_error + string" where
  "merge_text items template =
     (if (case merge_output_len items template of None \<Rightarrow> True | Some n \<Rightarrow> n > MAX_ITEM_BYTES) then Inl ComposeTooLarge
      else Inr (merge_render items template))"

lemma plus_usize: "plus_checked (in_usize a) b = in_usize (a + b)"
  by (simp add: plus_checked_def in_usize_def)

lemma plus_None [simp]: "plus_checked None b = None"
  by (simp add: plus_checked_def)

lemma plus_Some: "plus_checked (Some a) b = in_usize (a + b)"
  by (simp add: plus_checked_def)

lemma bind_usize_add: "Option.bind (in_usize a) (\<lambda>x. in_usize (c + x)) = in_usize (c + a)"
  by (simp add: in_usize_def)

lemma bind_usize_sum: "Option.bind (in_usize a) (\<lambda>x. in_usize (c + x + d)) = in_usize (c + a + d)"
  by (simp add: in_usize_def)

lemma checked_fold_usize:
  assumes "\<And>sum x. sum < 2 ^ 64 \<Longrightarrow> f sum x = in_usize (sum + w x)"
  shows "s < 2 ^ 64 \<Longrightarrow> checked_fold f s xs = in_usize (s + sum_list (map w xs))"
proof (induction xs arbitrary: s)
  case (Cons x xs)
  then show ?case using assms by (cases "s + w x < 2 ^ 64") (auto simp: in_usize_def add.assoc)
qed (simp add: in_usize_def)

lemma length_join: "length (join_with sep ws) = sum_list (map length ws) + (length ws - 1) * length sep"
  by (induction sep ws rule: join_with.induct) auto

lemma length_replace: "length (replace_byte c r s) + length (filter (\<lambda>b. b = c) s) = length s + length (filter (\<lambda>b. b = c) s) * length r"
  by (induction s) (auto simp: replace_byte_def)

lemma filter_replace: "c \<noteq> d \<Longrightarrow> d \<notin> set r \<Longrightarrow> filter (\<lambda>b. b = d) (replace_byte c r s) = filter (\<lambda>b. b = d) s"
  by (induction s) (auto simp: replace_byte_def filter_empty_conv)

lemma digits_from: "decimal_digits_from v digits + 1 = digits + length (decimal v)"
proof (induction v digits rule: decimal_digits_from.induct)
  case (1 v digits)
  then show ?case by (cases "v < 10") (simp_all add: decimal_digits_from.simps [of v digits] decimal.simps [of v])
qed

lemma count_digits_decimal: "count_digits v = length (decimal v)"
  using digits_from [of v 1] by (simp add: count_digits_def)


definition csv_len :: "string \<Rightarrow> nat" where
  "csv_len v = length (csv_cell v)"

definition row_weight :: "nat \<times> string \<Rightarrow> nat" where
  "row_weight p = length (markdown_row (fst p) (snd p)) + 1"

lemma csv_step: "Option.bind (csv_cell_len v) (\<lambda>n. plus_checked (Some acc) n) = in_usize (acc + csv_len v)"
  using length_replace [of "CHR 0x22" "[CHR 0x22, CHR 0x22]" v]
  by (auto simp: csv_cell_len_def csv_len_def csv_cell_def plus_Some plus_usize in_usize_def)

lemma escaped_length: "length (replace_byte (CHR 0x0A) ''<br>'' (replace_byte (CHR ''|'') [CHR 0x5C, CHR ''|''] v)) =
   length v + length (filter (\<lambda>b. b = CHR ''|'') v) + 3 * length (filter (\<lambda>b. b = CHR 0x0A) v)"
  using length_replace [of "CHR 0x0A" "''<br>''" "replace_byte (CHR ''|'') [CHR 0x5C, CHR ''|''] v"]
    length_replace [of "CHR ''|''" "[CHR 0x5C, CHR ''|'']" v]
  by (simp add: filter_replace)

lemma escaped_len_usize: "escaped_len v = in_usize (length (replace_byte (CHR 0x0A) ''<br>'' (replace_byte (CHR ''|'') [CHR 0x5C, CHR ''|''] v)))"
  unfolding escaped_length by (auto simp: escaped_len_def plus_Some in_usize_def)

lemma row_step: "Option.bind (escaped_len (trim item)) (\<lambda>n.
    plus_checked (plus_checked (plus_checked (Some acc) 8) (count_digits (index + 1))) n) = in_usize (acc + row_weight (index, item))"
  unfolding escaped_len_usize by (auto simp: plus_Some plus_usize in_usize_def row_weight_def markdown_row_def count_digits_decimal)

lemma sum_list_Suc: "sum_list (map (\<lambda>x. f x + 1) xs) = sum_list (map f xs) + length xs" for f :: "'a \<Rightarrow> nat"
  by (induction xs) auto

text \<open>
  The size check in front of a merge is exact: for every template the length computed in checked arithmetic is the
  length of the text the template renders, so a merge succeeds precisely when its text fits into one item.
\<close>

lemma merge_refused_exactly_when_too_large:
  "merge_output_len items template = in_usize (length (merge_render items template)) \<and>
    merge_text items template = (if length (merge_render items template) \<le> MAX_ITEM_BYTES then Inr (merge_render items template)
      else Inl ComposeTooLarge)"
proof -
  have len: "merge_output_len items template = in_usize (length (merge_render items template))"
  proof (cases template)
    case Bullets
    have "checked_fold (\<lambda>sum item. plus_checked (plus_checked (Some sum) 2) (length (trim item))) 0 items
        = in_usize (0 + sum_list (map (\<lambda>item. 2 + length (trim item)) items))"
      by (rule checked_fold_usize) (simp_all add: plus_Some plus_usize add.assoc)
    then show ?thesis by (simp add: Bullets merge_output_len_def merge_render_def length_join plus_usize o_def Let_def)
  next
    case NumberedCitations
    have "checked_fold (\<lambda>sum (index, item). plus_checked (plus_checked (plus_checked (Some sum) (count_digits (index + 1))) 3) (length (trim item)))
          0 (enumerate 0 items)
        = in_usize (0 + sum_list (map (\<lambda>(index, item). length (''['' @ decimal (index + 1) @ ''] '' @ trim item)) (enumerate 0 items)))"
      by (rule checked_fold_usize) (auto simp: plus_Some plus_usize count_digits_decimal intro!: arg_cong [of _ _ in_usize])
    then show ?thesis
      by (simp add: NumberedCitations merge_output_len_def merge_render_def length_join plus_usize o_def Let_def case_prod_unfold add.assoc)
  next
    case CsvRows
    have "checked_fold (\<lambda>sum item. Option.bind (csv_cell_len (trim item)) (\<lambda>n. plus_checked (Some sum) n)) 0 items
        = in_usize (0 + sum_list (map (\<lambda>item. csv_len (trim item)) items))"
      by (rule checked_fold_usize) (simp_all add: csv_step)
    then show ?thesis
      by (simp add: CsvRows merge_output_len_def merge_render_def length_join plus_usize o_def Let_def csv_len_def)
  next
    case MarkdownTable
    have "checked_fold (\<lambda>sum (index, item). Option.bind (escaped_len (trim item)) (\<lambda>n.
           plus_checked (plus_checked (plus_checked (Some sum) 8) (count_digits (index + 1))) n)) HEADER_BYTES (enumerate 0 items)
        = in_usize (HEADER_BYTES + sum_list (map row_weight (enumerate 0 items)))"
    proof (rule checked_fold_usize)
      fix acc :: nat and p :: "nat \<times> string"
      show "(case p of (index, item) \<Rightarrow> Option.bind (escaped_len (trim item)) (\<lambda>n.
           plus_checked (plus_checked (plus_checked (Some acc) 8) (count_digits (index + 1))) n)) = in_usize (acc + row_weight p)"
        by (cases p) (simp only: prod.case row_step)
    qed (simp add: HEADER_BYTES_def)
    then show ?thesis
      by (simp add: MarkdownTable merge_output_len_def merge_render_def length_join o_def Let_def row_weight_def [abs_def] case_prod_beta
        sum_list_Suc [unfolded One_nat_def add_Suc_right add_0_right] HEADER_BYTES_def)
  qed
  then show ?thesis by (auto simp: merge_text_def in_usize_def MAX_ITEM_BYTES_def)
qed

end
