(* ===== verification/Crdt.thy ===== *)
theory Crdt
  imports Hybrid_Clock Validation
begin

text \<open>
  Replicated state of the sync crate: observed-remove sets and last-writer-wins registers
  (\<open>crates/vbuff-sync/src/crdt.rs\<close>), conflict resolution (\<open>conflict.rs\<close>) and the conflict
  timeline (\<open>device_experience/timeline.rs\<close>). \<open>additions\<close> is an ordered map from values to their
  sets of dots, \<open>removals\<close> a set of dots.
\<close>

record dot =
  dot_device_id :: string
  dot_counter :: u64

record 't or_set =
  additions :: "('t, dot set) btree"
  removals :: "dot set"

definition orset_default :: "'t or_set" where
  "orset_default = \<lparr>additions = [], removals = {}\<rparr>"

text \<open>\<open>entry(value).or_default()\<close>: the dots of a value, empty when it has none.\<close>

definition dots_of :: "('t::linorder, dot set) btree \<Rightarrow> 't \<Rightarrow> dot set" where
  "dots_of m v = (case map_of m v of None \<Rightarrow> {} | Some ds \<Rightarrow> ds)"

definition orset_add :: "'t::linorder or_set \<Rightarrow> 't \<Rightarrow> dot \<Rightarrow> 't or_set" where
  "orset_add s value d =
     s\<lparr>additions := bt_insert value (insert d (dots_of (additions s) value)) (additions s)\<rparr>"

definition orset_remove :: "'t::linorder or_set \<Rightarrow> 't \<Rightarrow> 't or_set" where
  "orset_remove s value = (case map_of (additions s) value of
     None \<Rightarrow> s | Some dots \<Rightarrow> s\<lparr>removals := removals s \<union> dots\<rparr>)"

definition orset_contains :: "'t::linorder or_set \<Rightarrow> 't \<Rightarrow> bool" where
  "orset_contains s value = (case map_of (additions s) value of
     None \<Rightarrow> False | Some dots \<Rightarrow> \<not> dots \<subseteq> removals s)"

definition orset_values :: "'t::linorder or_set \<Rightarrow> 't list" where
  "orset_values s = filter (orset_contains s) (map fst (additions s))"

fun merge_additions ::
  "('t::linorder, dot set) btree \<Rightarrow> ('t, dot set) btree \<Rightarrow> ('t, dot set) btree" where
  "merge_additions m [] = m"
| "merge_additions m ((value, dots) # rest) =
     merge_additions (bt_insert value (dots_of m value \<union> dots) m) rest"

definition orset_merge :: "'t::linorder or_set \<Rightarrow> 't or_set \<Rightarrow> 't or_set" where
  "orset_merge s other = s\<lparr>additions := merge_additions (additions s) (additions other),
     removals := removals s \<union> removals other\<rparr>"

record 'v lww_register =
  lww_value :: 'v
  lww_clock :: hlc

definition lww_assign :: "'v lww_register \<Rightarrow> 'v \<Rightarrow> hlc \<Rightarrow> u64 \<Rightarrow> 'v lww_register" where
  "lww_assign r value clock0 now = (let clock = bounded_at clock0 now in
     if clock > lww_clock r then r\<lparr>lww_value := value, lww_clock := clock\<rparr> else r)"

definition lww_merge :: "'v lww_register \<Rightarrow> 'v lww_register \<Rightarrow> u64 \<Rightarrow> 'v lww_register" where
  "lww_merge r other now = lww_assign r (lww_value other) (lww_clock other) now"

record item_fields =
  if_name :: "string option lww_register"
  if_notes :: "string option lww_register"
  if_color :: "string option lww_register"
  if_pinned :: "bool lww_register"
  if_tags :: "string or_set"

definition fields_merge :: "item_fields \<Rightarrow> item_fields \<Rightarrow> u64 \<Rightarrow> item_fields" where
  "fields_merge f other now =
     f\<lparr>if_name := lww_merge (if_name f) (if_name other) now,
       if_notes := lww_merge (if_notes f) (if_notes other) now,
       if_color := lww_merge (if_color f) (if_color other) now,
       if_pinned := lww_merge (if_pinned f) (if_pinned other) now,
       if_tags := orset_merge (if_tags f) (if_tags other)\<rparr>"

record item_replica =
  ir_item_id :: string
  ir_presence :: "string or_set"
  ir_fields :: item_fields

definition replica_new :: "string \<Rightarrow> item_fields \<Rightarrow> dot \<Rightarrow> item_replica" where
  "replica_new item_id fs d =
     \<lparr>ir_item_id = item_id, ir_presence = orset_add orset_default item_id d, ir_fields = fs\<rparr>"

definition replica_delete :: "item_replica \<Rightarrow> item_replica" where
  "replica_delete r = r\<lparr>ir_presence := orset_remove (ir_presence r) (ir_item_id r)\<rparr>"

definition replica_pin :: "item_replica \<Rightarrow> dot \<Rightarrow> hlc \<Rightarrow> u64 \<Rightarrow> item_replica" where
  "replica_pin r d clock now =
     r\<lparr>ir_presence := orset_add (ir_presence r) (ir_item_id r) d,
       ir_fields := (ir_fields r)\<lparr>if_pinned := lww_assign (if_pinned (ir_fields r)) True clock now\<rparr>\<rparr>"

definition replica_is_present :: "item_replica \<Rightarrow> bool" where
  "replica_is_present r = orset_contains (ir_presence r) (ir_item_id r)"

definition replica_merge :: "item_replica \<Rightarrow> item_replica \<Rightarrow> u64 \<Rightarrow> sync_error + item_replica" where
  "replica_merge r other now =
     (if ir_item_id r \<noteq> ir_item_id other
      then Inl (Invalid ''cannot merge replicas with different item IDs'')
      else Inr (r\<lparr>ir_presence := orset_merge (ir_presence r) (ir_presence other),
                  ir_fields := fields_merge (ir_fields r) (ir_fields other) now\<rparr>))"

section \<open>The observed-remove set\<close>

text \<open>No value has an empty set of dots, so the entries are determined by the dots.\<close>

definition orset_ok :: "'t::linorder or_set \<Rightarrow> bool" where
  "orset_ok s \<longleftrightarrow> bt_ok (additions s) \<and> (\<forall>p \<in> set (additions s). snd p \<noteq> {})"

lemma dots_of_insert [simp]:
  "dots_of (bt_insert v ds m) v' = (if v' = v then ds else dots_of m v')"
  by (simp add: dots_of_def)

lemma dots_of_merge [simp]:
  "bt_ok n \<Longrightarrow> dots_of (merge_additions m n) v = dots_of m v \<union> dots_of n v"
proof (induction m n rule: merge_additions.induct)
  case (1 m)
  then show ?case by (simp add: dots_of_def)
next
  case (2 m val dots rest)
  have "map_of rest val = None"
    using 2 by (auto simp: map_of_eq_None_iff)
  with 2 show ?case
    by (cases "v = val") (auto simp: dots_of_def)
qed

lemma bt_ok_merge: "bt_ok m \<Longrightarrow> bt_ok (merge_additions m n)"
  by (induction m n rule: merge_additions.induct) auto

lemma nonempty_merge:
  "\<forall>p \<in> set m. snd p \<noteq> {} \<Longrightarrow> \<forall>p \<in> set n. snd p \<noteq> {} \<Longrightarrow>
     \<forall>p \<in> set (merge_additions m n). snd p \<noteq> {}"
proof (induction m n rule: merge_additions.induct)
  case (2 m val dots rest)
  have "\<forall>p \<in> set (bt_insert val (dots_of m val \<union> dots) m). snd p \<noteq> {}"
    using set_bt_insert_subset [of val "dots_of m val \<union> dots" m] 2 by fastforce
  with 2 show ?case by simp
qed simp

lemma orset_ok_merge [simp]: "orset_ok a \<Longrightarrow> orset_ok b \<Longrightarrow> orset_ok (orset_merge a b)"
  by (auto simp: orset_ok_def orset_merge_def bt_ok_merge dest: bspec [OF nonempty_merge])

lemma orset_ok_default [simp]: "orset_ok orset_default"
  by (simp add: orset_ok_def orset_default_def)

lemma orset_ok_add [simp]: "orset_ok s \<Longrightarrow> orset_ok (orset_add s v d)"
  using set_bt_insert_subset [of v "insert d (dots_of (additions s) v)" "additions s"]
  by (fastforce simp: orset_ok_def orset_add_def)

lemma orset_ok_remove [simp]: "orset_ok s \<Longrightarrow> orset_ok (orset_remove s v)"
  by (auto simp: orset_ok_def orset_remove_def split: option.splits)

lemma orset_ext:
  assumes "orset_ok a" and "orset_ok b"
    and "\<And>v. dots_of (additions a) v = dots_of (additions b) v" and "removals a = removals b"
  shows "a = b"
proof -
  have ne: "map_of (additions s) v \<noteq> Some {}" if "orset_ok s" for s :: "'a or_set" and v
    using that by (fastforce simp: orset_ok_def dest: map_of_SomeD)
  have "map_of (additions a) v = map_of (additions b) v" for v
    using assms(3) [of v] ne [OF assms(1), of v] ne [OF assms(2), of v]
    by (auto simp: dots_of_def split: option.splits)
  then have "additions a = additions b"
    using assms(1,2) by (intro bt_ext) (auto simp: orset_ok_def)
  with assms(4) show ?thesis by simp
qed

lemma dots_of_orset_merge [simp]:
  "orset_ok b \<Longrightarrow> dots_of (additions (orset_merge a b)) v = dots_of (additions a) v \<union> dots_of (additions b) v"
  by (simp add: orset_merge_def orset_ok_def)

lemma removals_merge [simp]: "removals (orset_merge a b) = removals a \<union> removals b"
  by (simp add: orset_merge_def)

interpretation orset: merge_semilattice "orset_merge :: 't::linorder or_set \<Rightarrow> _" orset_ok
  by unfold_locales (auto intro!: orset_ext)

lemma orset_contains_iff:
  "orset_ok s \<Longrightarrow> orset_contains s v \<longleftrightarrow> (\<exists>d \<in> dots_of (additions s) v. d \<notin> removals s)"
  by (auto simp: orset_contains_def dots_of_def split: option.splits)

lemma dots_of_add: "dots_of (additions (orset_add s v d)) v' =
    (if v' = v then insert d (dots_of (additions s) v) else dots_of (additions s) v')"
  by (simp add: orset_add_def)

lemma removals_add [simp]: "removals (orset_add s v d) = removals s"
  by (simp add: orset_add_def)

lemma orset_remove_dots:
  "additions (orset_remove s v) = additions s \<and> removals (orset_remove s v) = removals s \<union> dots_of (additions s) v"
  by (auto simp: orset_remove_def dots_of_def split: option.splits)

section \<open>Last-writer-wins registers\<close>

lemma lww_clock_mono: "lww_clock r \<le> lww_clock (lww_merge r other now)"
  by (auto simp: lww_merge_def lww_assign_def Let_def)

lemma bounded_at_id:
  "physical_ms c \<le> saturating_add now MAX_REMOTE_FUTURE_MS \<Longrightarrow> bounded_at c now = c"
  by (cases c) (simp add: bounded_at_def min_def)

section \<open>Conflicts\<close>

record 'v conflict_candidate =
  cf_value :: 'v
  cf_clock :: hlc

datatype conflict_reason = NewerPhysicalTime | HigherLogicalCounter | DeterministicDeviceTieBreak | Identical

record 'v conflict_resolution =
  cr_winner :: "'v conflict_candidate"
  cr_alternative :: "'v conflict_candidate option"
  cr_reason :: conflict_reason
  cr_keep_both_available :: bool

definition resolve ::
  "'v conflict_candidate \<Rightarrow> 'v conflict_candidate \<Rightarrow> 'v conflict_resolution" where
  "resolve left right =
     (if cf_value left = cf_value right
      then \<lparr>cr_winner = (if cf_clock left \<ge> cf_clock right then left else right),
            cr_alternative = None, cr_reason = Identical, cr_keep_both_available = False\<rparr>
      else (let (winner, alternative) =
                  (if cf_clock left \<ge> cf_clock right then (left, right) else (right, left));
                reason =
                  (if physical_ms (cf_clock left) \<noteq> physical_ms (cf_clock right) then NewerPhysicalTime
                   else if logical (cf_clock left) \<noteq> logical (cf_clock right) then HigherLogicalCounter
                   else DeterministicDeviceTieBreak)
            in \<lparr>cr_winner = winner, cr_alternative = Some alternative, cr_reason = reason,
                cr_keep_both_available = True\<rparr>))"

datatype conflict_timeline_outcome = Winner | Alternative | IdenticalOutcome

record conflict_timeline_point =
  tp_content_hash :: bytes
  tp_clock :: hlc
  tp_outcome :: conflict_timeline_outcome
  tp_reason :: conflict_reason

definition MAX_DEVICE_ID_BYTES :: nat where
  "MAX_DEVICE_ID_BYTES = 128"

text \<open>The outer \<open>None\<close> is the panic of \<open>expect\<close> on a missing alternative.\<close>

definition conflict_timeline ::
  "bytes conflict_candidate \<Rightarrow> bytes conflict_candidate \<Rightarrow>
     (sync_error + conflict_timeline_point list) option" where
  "conflict_timeline left right =
     (if \<not> is_valid_identifier (node_id (cf_clock left)) MAX_DEVICE_ID_BYTES
         \<or> \<not> is_valid_identifier (node_id (cf_clock right)) MAX_DEVICE_ID_BYTES
         \<or> all_zero (cf_value left) \<or> all_zero (cf_value right)
      then Some (Inl (Invalid ''invalid conflict candidates''))
      else (let r = resolve left right in
        if cr_reason r = Identical
        then Some (Inr [\<lparr>tp_content_hash = cf_value (cr_winner r), tp_clock = cf_clock (cr_winner r),
                         tp_outcome = IdenticalOutcome, tp_reason = cr_reason r\<rparr>])
        else (case cr_alternative r of
          None \<Rightarrow> None
        | Some alternative \<Rightarrow>
            Some (Inr [\<lparr>tp_content_hash = cf_value alternative, tp_clock = cf_clock alternative,
                        tp_outcome = Alternative, tp_reason = cr_reason r\<rparr>,
                       \<lparr>tp_content_hash = cf_value (cr_winner r), tp_clock = cf_clock (cr_winner r),
                        tp_outcome = Winner, tp_reason = cr_reason r\<rparr>]))))"

lemma resolve_commute:
  "cf_clock left \<noteq> cf_clock right \<Longrightarrow> resolve left right = resolve right left"
  by (auto simp: resolve_def Let_def)

lemma conflict_timeline_total: "conflict_timeline left right \<noteq> None"
  by (auto simp: conflict_timeline_def resolve_def Let_def)

section \<open>Properties\<close>

text \<open>
  C4. Strong eventual consistency of the observed-remove set: two replicas that have merged
  the same states, in any order and any number of times, hold equal sets.
\<close>

theorem orset_strong_convergence:
  fixes a b :: "'t::linorder or_set"
  assumes "\<forall>x \<in> insert a (set xs). orset_ok x"
    and "insert a (set xs) = insert b (set ys)"
  shows "foldl orset_merge a xs = foldl orset_merge b ys"
  using assms by (intro orset.convergence) auto

theorem orset_strong_convergence_witness:
  "foldl orset_merge orset_default
     [orset_add orset_default ''x'' \<lparr>dot_device_id = ''a'', dot_counter = 1\<rparr>, orset_default] =
   foldl orset_merge (orset_add orset_default ''x'' \<lparr>dot_device_id = ''a'', dot_counter = 1\<rparr>) [orset_default]"
  by (rule orset_strong_convergence) auto

text \<open>
  Add wins: a value added with a dot that the other replica has not removed is contained
  after the merge, whatever the other replica removed concurrently, and pinning an item brings
  it back over a concurrent delete.
\<close>

lemma pin_survives_concurrent_delete:
  assumes "orset_ok (ir_presence mine)" and "orset_ok (ir_presence other)"
    and "ir_item_id mine = ir_item_id other"
    and "d \<notin> removals (ir_presence mine)" and "d \<notin> removals (ir_presence other)"
    and "d \<notin> dots_of (additions (ir_presence other)) (ir_item_id other)"
    and "replica_merge (replica_delete other) (replica_pin mine d clock now) now = Inr merged"
  shows "replica_is_present merged"
proof -
  let ?p = "ir_presence (replica_pin mine d clock now)"
  let ?q = "ir_presence (replica_delete other)"
  have ok: "orset_ok ?p" "orset_ok ?q"
    using assms(1,2) by (simp_all add: replica_pin_def replica_delete_def)
  have m: "merged = (replica_delete other)\<lparr>ir_presence := orset_merge ?q ?p,
      ir_fields := fields_merge (ir_fields (replica_delete other)) (ir_fields (replica_pin mine d clock now)) now\<rparr>"
    using assms(7) by (auto simp: replica_merge_def split: if_splits)
  have "d \<in> dots_of (additions ?p) (ir_item_id mine)" "d \<notin> removals ?p"
    using assms(4) by (auto simp: replica_pin_def dots_of_add)
  moreover have "d \<notin> removals ?q"
    using assms(5,6) orset_remove_dots [of "ir_presence other"] by (auto simp: replica_delete_def)
  ultimately show ?thesis
    using ok assms(3)
    by (auto simp: m replica_is_present_def replica_delete_def orset_contains_iff)
qed

definition sample_fields :: item_fields where
  "sample_fields = \<lparr>if_name = \<lparr>lww_value = None, lww_clock = Hlc 1 0 ''a''\<rparr>,
     if_notes = \<lparr>lww_value = None, lww_clock = Hlc 1 0 ''a''\<rparr>,
     if_color = \<lparr>lww_value = None, lww_clock = Hlc 1 0 ''a''\<rparr>,
     if_pinned = \<lparr>lww_value = False, lww_clock = Hlc 1 0 ''a''\<rparr>, if_tags = orset_default\<rparr>"

definition sample_replica :: item_replica where
  "sample_replica = replica_new ''i'' sample_fields \<lparr>dot_device_id = ''a'', dot_counter = 1\<rparr>"

lemma pin_survives_concurrent_delete_witness:
  "\<exists>merged. replica_merge (replica_delete sample_replica)
       (replica_pin sample_replica \<lparr>dot_device_id = ''b'', dot_counter = 2\<rparr> (Hlc 2 0 ''b'') 2) 2
     = Inr merged \<and> replica_is_present merged"
proof -
  have "\<exists>merged. replica_merge (replica_delete sample_replica)
       (replica_pin sample_replica \<lparr>dot_device_id = ''b'', dot_counter = 2\<rparr> (Hlc 2 0 ''b'') 2) 2 = Inr merged"
    by (simp add: replica_merge_def replica_delete_def replica_pin_def)
  then obtain merged where m: "replica_merge (replica_delete sample_replica)
       (replica_pin sample_replica \<lparr>dot_device_id = ''b'', dot_counter = 2\<rparr> (Hlc 2 0 ''b'') 2) 2 = Inr merged" ..
  have "replica_is_present merged"
    by (rule pin_survives_concurrent_delete [OF _ _ _ _ _ _ m])
      (simp_all add: sample_replica_def replica_new_def dots_of_add,
        simp_all add: orset_default_def dots_of_def)
  with m show ?thesis by blast
qed

text \<open>
  Registers within the clock tolerance converge: merging two replicas of a register in
  either direction gives the same register, the one with the newer clock, when equal clocks
  mean the same write.
\<close>

lemma lww_merge_commutes:
  assumes "physical_ms (lww_clock a) \<le> saturating_add now MAX_REMOTE_FUTURE_MS"
    and "physical_ms (lww_clock b) \<le> saturating_add now MAX_REMOTE_FUTURE_MS"
    and "lww_clock a = lww_clock b \<Longrightarrow> lww_value a = lww_value b"
  shows "lww_merge a b now = lww_merge b a now \<and>
    lww_clock (lww_merge a b now) = max (lww_clock a) (lww_clock b)"
  using assms
  by (cases a; cases b) (auto simp: lww_merge_def lww_assign_def Let_def bounded_at_id max_def)

definition reg_a :: "bool lww_register" where
  "reg_a = \<lparr>lww_value = True, lww_clock = Hlc 5 0 ''a''\<rparr>"

definition reg_b :: "bool lww_register" where
  "reg_b = \<lparr>lww_value = False, lww_clock = Hlc 5 0 ''b''\<rparr>"

theorem lww_merge_commutes_witness:
  "lww_merge reg_a reg_b 7 = lww_merge reg_b reg_a 7 \<and>
   lww_clock (lww_merge reg_a reg_b 7) = max (lww_clock reg_a) (lww_clock reg_b)"
proof (rule lww_merge_commutes)
  have "(5::u64) \<le> saturating_add 7 MAX_REMOTE_FUTURE_MS"
    by (simp add: saturating_add_def checked_add_def MAX_REMOTE_FUTURE_MS_def)
  then show "physical_ms (lww_clock reg_a) \<le> saturating_add 7 MAX_REMOTE_FUTURE_MS"
    and "physical_ms (lww_clock reg_b) \<le> saturating_add 7 MAX_REMOTE_FUTURE_MS"
    by (simp_all add: reg_a_def reg_b_def)
qed (simp add: reg_a_def reg_b_def)

text \<open>
  Conflict resolution loses nothing and picks the newer side: the winner and the alternative
  are the two candidates, the winner's clock is the larger one, identical values collapse to one,
  and unless the two clocks are equal the outcome does not depend on the order of the arguments.
\<close>

lemma resolve_keeps_both:
  "cf_clock (cr_winner (resolve left right)) = max (cf_clock left) (cf_clock right) \<and>
   (if cf_value left = cf_value right
    then cr_alternative (resolve left right) = None \<and> cf_value (cr_winner (resolve left right)) = cf_value left
    else cr_alternative (resolve left right) \<noteq> None \<and>
      {cr_winner (resolve left right), the (cr_alternative (resolve left right))} = {left, right}) \<and>
   (cf_clock left = cf_clock right \<or> resolve left right = resolve right left)"
  using resolve_commute [of left right]
  by (auto simp: resolve_def Let_def max_def)

end
