(* ===== verification/Custody.thy ===== *)
theory Custody
  imports Sync_Ledger
begin

text \<open>
  The chain of custody of a clip, \<open>crates/vbuff-sync/src/provenance.rs\<close>: the signed chain of \<open>Signed_Chain\<close> on the payload
  \<open>custody_record\<close>, with the rule that a device signs only its own acts. The second interpretation of \<open>chain_payload\<close>.
\<close>

definition CUSTODY_MAX_DEVICE_ID_BYTES :: nat where "CUSTODY_MAX_DEVICE_ID_BYTES = 128"
definition MAX_SOURCE_APP_BYTES :: nat where "MAX_SOURCE_APP_BYTES = 512"
definition MAX_CUSTODY_ENTRIES :: nat where "MAX_CUSTODY_ENTRIES = 1024"

datatype custody_action = CustodyCaptured | CustodySent | CustodyReceived | CustodyPasted | CustodyBurned

fun custody_discriminant :: "custody_action \<Rightarrow> char" where
  "custody_discriminant CustodyCaptured = CHR 0x01"
| "custody_discriminant CustodySent = CHR 0x02"
| "custody_discriminant CustodyReceived = CHR 0x03"
| "custody_discriminant CustodyPasted = CHR 0x04"
| "custody_discriminant CustodyBurned = CHR 0x05"

lemma custody_discriminant_inject [simp]: "custody_discriminant a = custody_discriminant b \<longleftrightarrow> a = b"
  by (cases a; cases b) simp_all

record custody_event =
  cu_item_hash :: bytes
  cu_action :: custody_action
  cu_device_id :: string
  cu_peer_device :: "string option"
  cu_source_app :: "string option"
  cu_timestamp_ms :: u64
  cu_sensitive :: bool

record custody_record =
  cr_event :: custody_event
  cr_signer_device :: string

definition custody_validate_event :: "custody_event \<Rightarrow> sync_error + unit" where
  "custody_validate_event e =
     (if \<not> (is_valid_identifier (cu_device_id e) CUSTODY_MAX_DEVICE_ID_BYTES \<and>
            (case cu_peer_device e of None \<Rightarrow> True | Some peer \<Rightarrow> is_valid_identifier peer CUSTODY_MAX_DEVICE_ID_BYTES))
        \<or> \<not> (case cu_source_app e of None \<Rightarrow> True | Some app \<Rightarrow> is_valid_label app MAX_SOURCE_APP_BYTES)
      then Inl (Invalid ''invalid custody event'') else Inr ())"

definition custody_extend_preimage :: "custody_record \<Rightarrow> preimage \<Rightarrow> preimage" where
  "custody_extend_preimage r p = (let e = cr_event r in
     pre_byte (if cu_sensitive e then CHR 0x01 else CHR 0x00)
       (pre_u64_be (cu_timestamp_ms e)
         (pre_optional (cu_source_app e)
           (pre_optional (cu_peer_device e)
             (pre_var (cu_device_id e)
               (pre_byte (custody_discriminant (cu_action e))
                 (pre_fixed (cu_item_hash e)
                   (pre_var (cr_signer_device r) p))))))))"

definition custody_expected_signing_key :: "custody_record \<Rightarrow> nat \<Rightarrow> unit \<Rightarrow> (string \<rightharpoonup> bytes) \<Rightarrow> sync_error + bytes" where
  "custody_expected_signing_key r _ _ keys =
     try_then (custody_validate_event (cr_event r)) (\<lambda>_.
       if cr_signer_device r \<noteq> cu_device_id (cr_event r)
       then Inl (Invalid ''custody event must be signed by the acting device'')
       else case keys (cr_signer_device r) of Some key \<Rightarrow> Inr key | None \<Rightarrow> Inl (Invalid ''unknown custody signer''))"

definition custody_dict :: "(custody_record, unit, string \<rightharpoonup> bytes) chain_entry" where
  "custody_dict = \<lparr>ce_domain = ''vbuff-custody-v2'', ce_max_entries = MAX_CUSTODY_ENTRIES, ce_label = ''custody chain'',
     ce_default_state = (), ce_extend_preimage = custody_extend_preimage,
     ce_expected_signing_key = custody_expected_signing_key, ce_apply = (\<lambda>_ s. s)\<rparr>"

definition append_custody ::
  "'sk chain_crypto \<Rightarrow> custody_record signed_chain \<Rightarrow> custody_event \<Rightarrow> string \<Rightarrow> (string \<rightharpoonup> bytes) \<Rightarrow> 'sk \<Rightarrow>
     sync_error + (bytes \<times> custody_record signed_chain)" where
  "append_custody cr c event signer keys signing_key =
     chain_append custody_dict cr c \<lparr>cr_event = event, cr_signer_device = signer\<rparr> keys signing_key"

definition sensitive_left_origin :: "custody_record signed_chain \<Rightarrow> bool" where
  "sensitive_left_origin c = list_ex (\<lambda>l. cu_sensitive (cr_event (cl_payload l)) \<and>
     (cu_action (cr_event (cl_payload l)) = CustodySent \<or> cu_action (cr_event (cl_payload l)) = CustodyReceived)) c"

section \<open>What a custody chain commits to\<close>

definition optional_bytes :: "bytes option \<Rightarrow> bytes" where
  "optional_bytes v = (case v of None \<Rightarrow> [CHR 0x00] | Some b \<Rightarrow> CHR 0x01 # framed b)"

definition short :: "bytes option \<Rightarrow> bool" where
  "short v \<longleftrightarrow> (case v of None \<Rightarrow> True | Some b \<Rightarrow> length b < 2 ^ 32)"

lemma collected_optional [preimage_simps]:
  "collected (pre_optional v p) = (if short v then map_option (\<lambda>x. x @ optional_bytes v) (collected p) else None)"
  by (auto simp: pre_optional_def short_def optional_bytes_def preimage_simps option.map_comp comp_def split: option.split)

lemma optional_bytes_inject:
  "short v \<Longrightarrow> short w \<Longrightarrow> optional_bytes v @ x = optional_bytes w @ y \<longleftrightarrow> v = w \<and> x = y"
  by (auto simp: short_def optional_bytes_def preimage_simps split: option.splits)

lemma optional_bytes_inject0: "short v \<Longrightarrow> short w \<Longrightarrow> optional_bytes v = optional_bytes w \<longleftrightarrow> v = w"
  using optional_bytes_inject [of v w "[]" "[]"] by simp

lemma custody_link_preimage:
  "link_preimage custody_dict r h = Inr b \<longleftrightarrow>
     length (cr_signer_device r) < 2 ^ 32 \<and> length (cu_device_id (cr_event r)) < 2 ^ 32 \<and>
     short (cu_peer_device (cr_event r)) \<and> short (cu_source_app (cr_event r)) \<and>
     b = ''vbuff-custody-v2'' @ CHR 0x00 # h @ framed (cr_signer_device r) @ cu_item_hash (cr_event r) @
       custody_discriminant (cu_action (cr_event r)) # framed (cu_device_id (cr_event r)) @
       optional_bytes (cu_peer_device (cr_event r)) @ optional_bytes (cu_source_app (cr_event r)) @
       u64_be (cu_timestamp_ms (cr_event r)) @ [if cu_sensitive (cr_event r) then CHR 0x01 else CHR 0x00]"
  by (auto simp: link_preimage_def custody_dict_def custody_extend_preimage_def Let_def preimage_simps)

definition custody_payload_ok :: "custody_record \<Rightarrow> bool" where
  "custody_payload_ok r \<longleftrightarrow> length (cu_item_hash (cr_event r)) = 32"

interpretation custody_chain: chain_payload custody_dict custody_payload_ok
proof
  fix p q :: custody_record and h k b :: bytes
  assume "custody_payload_ok p" "custody_payload_ok q" and "length h = 32" "length k = 32"
    and "link_preimage custody_dict p h = Inr b" "link_preimage custody_dict q k = Inr b"
  then have "cr_signer_device p = cr_signer_device q \<and> h = k \<and> cu_item_hash (cr_event p) = cu_item_hash (cr_event q) \<and>
      cu_action (cr_event p) = cu_action (cr_event q) \<and> cu_device_id (cr_event p) = cu_device_id (cr_event q) \<and>
      cu_peer_device (cr_event p) = cu_peer_device (cr_event q) \<and> cu_source_app (cr_event p) = cu_source_app (cr_event q) \<and>
      cu_timestamp_ms (cr_event p) = cu_timestamp_ms (cr_event q) \<and> cu_sensitive (cr_event p) = cu_sensitive (cr_event q)"
    unfolding custody_link_preimage custody_payload_ok_def
    by (auto simp: preimage_simps append_eq_append_conv optional_bytes_inject optional_bytes_inject0 split: if_splits)
  then show "p = q \<and> h = k" by simp
qed

text \<open>
  A verified chain names, for every act, the acting device itself as the signer, and two verified chains of one length
  and head record the same acts.
\<close>

lemma custody_attribution:
  assumes "chain_verify custody_dict cr c keys = Inr ()" and "i < length c"
  shows "\<exists>key preimage. cr_signer_device (cl_payload (c ! i)) = cu_device_id (cr_event (cl_payload (c ! i))) \<and>
    keys (cr_signer_device (cl_payload (c ! i))) = Some key \<and>
    link_preimage custody_dict (cl_payload (c ! i)) (chain_head (take i c)) = Inr preimage \<and>
    cr_verify cr key preimage (cl_signature (c ! i))"
proof -
  have "link_ok custody_dict cr keys i (replay_prefix custody_dict c i) (chain_head (take i c)) (c ! i)"
    using assms by (intro verify_links_nth) (auto simp: chain_verify_def split: if_splits)
  moreover have "ce_expected_signing_key custody_dict = custody_expected_signing_key" by (simp add: custody_dict_def)
  ultimately show ?thesis
    by (auto simp: link_ok_def custody_expected_signing_key_def result_simps split: option.splits if_splits)
qed

lemma custody_head_commits:
  assumes "chain_verify custody_dict cr c keys = Inr ()" and "chain_verify custody_dict cr c' keys' = Inr ()"
    and "\<And>b. length (cr_blake3 cr b) = 32"
    and "\<forall>link \<in> set c \<union> set c'. length (cu_item_hash (cr_event (cl_payload link))) = 32"
    and "\<forall>x \<in> link_preimages custody_dict c \<union> link_preimages custody_dict c'.
      \<forall>y \<in> link_preimages custody_dict c \<union> link_preimages custody_dict c'. cr_blake3 cr x = cr_blake3 cr y \<longrightarrow> x = y"
    and "length c = length c'" and "chain_head c = chain_head c'"
  shows "map cl_payload c = map cl_payload c' \<and> (sensitive_left_origin c \<longleftrightarrow> sensitive_left_origin c')"
proof -
  have same: "map cl_payload c = map cl_payload c'"
    using assms by (intro custody_chain.head_commits [where cr = cr and au = keys and au' = keys'])
      (auto simp: chain_verify_def custody_payload_ok_def split: if_splits)
  define leaves where "leaves r \<longleftrightarrow> cu_sensitive (cr_event r) \<and>
     (cu_action (cr_event r) = CustodySent \<or> cu_action (cr_event r) = CustodyReceived)" for r :: custody_record
  have "sensitive_left_origin d \<longleftrightarrow> list_ex leaves (map cl_payload d)" for d
    by (simp add: sensitive_left_origin_def leaves_def list_ex_iff)
  with same show ?thesis by simp
qed

end
