(* ===== verification/Sync_Container.thy ===== *)
theory Sync_Container
  imports Validation
begin

text \<open>
  Encrypted containers of the sync crate: length buckets (\<open>crates/vbuff-sync/src/wire.rs\<close>), wrapped keys and sealed
  envelopes (\<open>crypto.rs\<close>), bootstrap snapshots (\<open>bootstrap.rs\<close>), collection vaults (\<open>collection_vault.rs\<close>) and the
  portable vault (\<open>vault_export.rs\<close>). XChaCha20-Poly1305, HKDF, X25519, BLAKE3, BIP-39 and zstd are the fields of
  \<open>seal_env\<close>; randomness is an argument, \<open>None\<close> when the system has none. Zeroing buffers has no counterpart.
\<close>

section \<open>Big-endian and little-endian numbers\<close>

lemma char_code_div: "(256 * n + of_char c) div 256 = (n :: nat)"
  using nat_of_char_less_256 [of c] by simp

lemma char_code_mod: "char_of (256 * n + of_char c :: nat) = c"
proof -
  have "(256 * n + of_char c) mod 256 = (of_char c :: nat)" by simp
  then show ?thesis by (metis char_of_mod_256 char_of_char)
qed

lemma be_bytes_from_be_bytes: "be_bytes (length b) (from_be_bytes b) = b"
proof (induction b rule: rev_induct)
  case (snoc c b)
  then show ?case by (simp add: from_be_bytes_snoc char_code_div char_code_mod)
qed simp

lemma from_be_bytes_less: "from_be_bytes b < 256 ^ length b"
proof (induction b rule: rev_induct)
  case (snoc c b)
  then have "Suc (from_be_bytes b) * 256 \<le> 256 ^ length b * 256" by (intro mult_right_mono) simp_all
  then have "256 * from_be_bytes b + of_char c < 256 * 256 ^ length b"
    using nat_of_char_less_256 [of c] by (simp only: mult_Suc)
  then show ?case by (simp add: from_be_bytes_snoc)
qed (simp add: from_be_bytes_def)

section \<open>Length buckets\<close>

definition WIRE_HEADER_BYTES :: nat where "WIRE_HEADER_BYTES = 8"
definition MIN_BUCKET_BYTES :: nat where "MIN_BUCKET_BYTES = 64"
definition MAX_BUCKET_BYTES :: nat where "MAX_BUCKET_BYTES = 64 * 1024 * 1024"

text \<open>\<open>checked_next_power_of_two\<close> and \<open>is_power_of_two\<close> of a 64-bit \<open>usize\<close>.\<close>

function doubled_from :: "nat \<Rightarrow> nat \<Rightarrow> nat" where
  "doubled_from p n = (if n \<le> p \<or> p = 0 then p else doubled_from (2 * p) n)"
  by auto
termination by (relation "measure (\<lambda>(p, n). n - p)") auto

declare doubled_from.simps [simp del]

definition checked_next_power_of_two :: "nat \<Rightarrow> nat option" where
  "checked_next_power_of_two n = (let p = doubled_from 1 n in if p < 2 ^ 64 then Some p else None)"

fun is_power_of_two :: "nat \<Rightarrow> bool" where
  "is_power_of_two n = (if n \<le> 1 then n = 1 else even n \<and> is_power_of_two (n div 2))"

declare is_power_of_two.simps [simp del]

definition bucket_size :: "nat \<Rightarrow> sync_error + nat" where
  "bucket_size payload_len =
     (if payload_len + WIRE_HEADER_BYTES \<ge> 2 ^ 64 then Inl (Invalid ''payload is too large'')
      else (case checked_next_power_of_two (max (payload_len + WIRE_HEADER_BYTES) MIN_BUCKET_BYTES) of
          Some bucket \<Rightarrow> if bucket \<le> MAX_BUCKET_BYTES then Inr bucket else Inl (Invalid ''payload exceeds transport limit'')
        | None \<Rightarrow> Inl (Invalid ''payload exceeds transport limit'')))"

text \<open>The random filler is asked for by its length.\<close>

definition pad_to_bucket :: "(nat \<Rightarrow> bytes option) \<Rightarrow> bytes \<Rightarrow> sync_error + bytes" where
  "pad_to_bucket random payload = try_then (bucket_size (length payload)) (\<lambda>bucket.
     let used = u64_le (of_nat (length payload)) @ payload in
     if WIRE_HEADER_BYTES + length payload < bucket
     then (case random (bucket - (WIRE_HEADER_BYTES + length payload)) of None \<Rightarrow> Inl Crypto | Some filler \<Rightarrow> Inr (used @ filler))
     else Inr used)"

definition unpad :: "bytes \<Rightarrow> sync_error + bytes" where
  "unpad padded =
     (if \<not> (MIN_BUCKET_BYTES \<le> length padded \<and> length padded \<le> MAX_BUCKET_BYTES) \<or> \<not> is_power_of_two (length padded)
      then Inl (Invalid ''invalid padded envelope size'')
      else let len = from_be_bytes (rev (take WIRE_HEADER_BYTES padded)) in
        if WIRE_HEADER_BYTES + len < 2 ^ 64 \<and> WIRE_HEADER_BYTES + len \<le> length padded
        then Inr (take len (drop WIRE_HEADER_BYTES padded)) else Inl (Invalid ''invalid padded payload length''))"

lemma doubled_from_bounds:
  "0 < p \<Longrightarrow> n \<le> doubled_from p n \<and> (doubled_from p n = p \<or> doubled_from p n < 2 * n) \<and> (\<exists>k. doubled_from p n = p * 2 ^ k)"
proof (induction p n rule: doubled_from.induct)
  case (1 p n)
  show ?case
  proof (cases "n \<le> p")
    case True
    then have "doubled_from p n = p" by (simp add: doubled_from.simps)
    with True show ?thesis by (auto intro: exI [of _ 0])
  next
    case False
    then have step: "doubled_from p n = doubled_from (2 * p) n" using 1(2) by (subst doubled_from.simps) simp
    from 1(1) False 1(2) have ih: "n \<le> doubled_from (2 * p) n \<and> (doubled_from (2 * p) n = 2 * p \<or> doubled_from (2 * p) n < 2 * n) \<and>
      (\<exists>k. doubled_from (2 * p) n = 2 * p * 2 ^ k)" by simp
    then obtain j where "doubled_from (2 * p) n = 2 * p * 2 ^ j" by blast
    then have k: "doubled_from (2 * p) n = p * 2 ^ Suc j" by simp
    then have "\<exists>k. doubled_from p n = p * 2 ^ k" unfolding step by blast
    moreover have "doubled_from p n < 2 * n" using ih False unfolding step by linarith
    moreover have "n \<le> doubled_from p n" using ih unfolding step by blast
    ultimately show ?thesis by blast
  qed
qed

lemma power_of_two_iff: "is_power_of_two n \<longleftrightarrow> (\<exists>k. n = 2 ^ k)"
proof (induction n rule: less_induct)
  case (less n)
  show ?case
  proof
    assume "is_power_of_two n"
    then consider "n = 1" | "1 < n" "even n" "is_power_of_two (n div 2)" by (subst (asm) is_power_of_two.simps) (auto split: if_splits)
    then show "\<exists>k. n = 2 ^ k"
    proof cases
      case 1
      then show ?thesis by (auto intro: exI [of _ 0])
    next
      case 2
      with less [of "n div 2"] obtain k where "n div 2 = 2 ^ k" by auto
      with 2 have "n = 2 ^ Suc k" by auto
      then show ?thesis by blast
    qed
  next
    assume "\<exists>k. n = 2 ^ k"
    then obtain k where k: "n = 2 ^ k" by blast
    show "is_power_of_two n"
    proof (cases k)
      case (Suc j)
      then have "is_power_of_two (n div 2)" using less [of "n div 2"] k by auto
      moreover have "1 < n" "even n" using Suc k one_less_power [of "2 :: nat" k] by simp_all
      ultimately show ?thesis by (subst is_power_of_two.simps) simp
    qed (use k in \<open>simp add: is_power_of_two.simps\<close>)
  qed
qed

lemma twice_below: "d = 1 \<or> d < 2 * m \<Longrightarrow> m \<le> n \<Longrightarrow> 0 < n \<Longrightarrow> d < 2 * (n :: nat)"
  by auto

lemma bucket_size_Inr:
  assumes "bucket_size n = Inr bucket"
  shows "n + 8 \<le> bucket" and "is_power_of_two bucket" and "64 \<le> bucket" and "bucket \<le> MAX_BUCKET_BYTES" and "bucket = 64 \<or> bucket < 2 * (n + 8)"
proof -
  let ?m = "max (n + 8) 64"
  have bucket: "bucket = doubled_from 1 ?m" and le: "bucket \<le> MAX_BUCKET_BYTES"
    using assms by (auto simp: bucket_size_def WIRE_HEADER_BYTES_def MIN_BUCKET_BYTES_def checked_next_power_of_two_def Let_def
        split: if_splits option.splits)
  from doubled_from_bounds [of 1 ?m] have b: "?m \<le> bucket" "bucket = 1 \<or> bucket < 2 * ?m" "\<exists>k. bucket = 2 ^ k"
    unfolding bucket by auto
  then show "n + 8 \<le> bucket" "is_power_of_two bucket" "64 \<le> bucket" "bucket \<le> MAX_BUCKET_BYTES"
    using le by (auto simp: power_of_two_iff)
  from b(3) obtain k where k: "bucket = 2 ^ k" by blast
  show "bucket = 64 \<or> bucket < 2 * (n + 8)"
  proof (cases "n + 8 \<le> 64")
    case True
    then have "2 ^ k < (128 :: nat)" "(64 :: nat) \<le> 2 ^ k" using b(1,2) k by auto
    then have "k < 7" "6 \<le> k"
      using power_less_imp_less_exp [of "2 :: nat" k 7] power_le_imp_le_exp [of "2 :: nat" 6 k] by simp_all
    then have "k = 6" by simp
    with k show ?thesis by simp
  qed (use b in auto)
qed

text \<open>
  Padding hides the length and loses nothing. A padded payload is a bucket of a power of two bytes, at least 64 and
  less than twice what the payload needs, the same for all payloads of the bucket, and unpadding gives the payload back;
  padding refuses only payloads past the transport limit, or for want of randomness.
\<close>

lemma padding_round_trip:
  assumes random: "\<And>n filler. random n = Some filler \<Longrightarrow> length filler = n"
  shows "case pad_to_bucket random payload of
      Inr padded \<Rightarrow> unpad padded = Inr payload \<and> bucket_size (length payload) = Inr (length padded) \<and> is_power_of_two (length padded)
        \<and> 64 \<le> length padded \<and> (length padded = 64 \<or> length padded < 2 * (length payload + 8))
    | Inl e \<Rightarrow> MAX_BUCKET_BYTES < length payload + 8 \<or> e = Crypto \<and> (\<exists>n. random n = None)"
proof (cases "bucket_size (length payload)")
  case (Inl e)
  have "MAX_BUCKET_BYTES < length payload + 8"
  proof (rule ccontr)
    assume small: "\<not> MAX_BUCKET_BYTES < length payload + 8"
    let ?m = "max (length payload + 8) 64"
    obtain k where k: "doubled_from 1 ?m = 2 ^ k" using doubled_from_bounds [of 1 ?m] by auto
    have "doubled_from 1 ?m < 2 * 2 ^ 26"
    proof -
      have "doubled_from 1 ?m = 1 \<or> doubled_from 1 ?m < 2 * ?m" using doubled_from_bounds [OF zero_less_one, of ?m] by blast
      moreover have "?m \<le> 2 ^ 26" using small by (simp add: MAX_BUCKET_BYTES_def)
      ultimately show ?thesis using twice_below [of _ ?m "2 ^ 26"] by simp
    qed
    then have "2 ^ k < (134217728 :: nat)" unfolding k by simp
    then have "k \<le> 26" using power_less_imp_less_exp [of "2 :: nat" k 27] by simp
    then have "doubled_from 1 ?m \<le> 2 ^ 26" unfolding k by (intro power_increasing) simp_all
    with Inl small show False
      by (auto simp: bucket_size_def WIRE_HEADER_BYTES_def MIN_BUCKET_BYTES_def MAX_BUCKET_BYTES_def checked_next_power_of_two_def
          Let_def split: if_splits)
  qed
  with Inl show ?thesis by (simp add: pad_to_bucket_def)
next
  case (Inr bucket)
  note b = bucket_size_Inr [OF Inr]
  let ?used = "u64_le (of_nat (length payload)) @ payload"
  have "length payload < 2 ^ 64" using b(1,4) by (simp add: MAX_BUCKET_BYTES_def)
  then have len: "from_be_bytes (rev (u64_le (of_nat (length payload)))) = length payload"
    by (simp add: u64_le_def u64_be_def unat_of_nat take_bit_nat_eq_self from_be_bytes_be_bytes)
  have out: "unpad (?used @ filler) = Inr payload" if "length (?used @ filler) = bucket" for filler
    using that b len by (simp add: unpad_def WIRE_HEADER_BYTES_def MIN_BUCKET_BYTES_def Let_def MAX_BUCKET_BYTES_def)
  show ?thesis
  proof (cases "8 + length payload < bucket")
    case True
    then show ?thesis
      using Inr b out random by (auto simp: pad_to_bucket_def WIRE_HEADER_BYTES_def Let_def split: option.split)
  next
    case False
    then have exact: "8 + length payload = bucket" using b(1) by simp
    then have "pad_to_bucket random payload = Inr ?used" using Inr by (simp add: pad_to_bucket_def WIRE_HEADER_BYTES_def)
    then show ?thesis using Inr b out [of "[]"] exact by simp
  qed
qed

lemma padding_round_trip_witness:
  "unpad (u64_le 3 @ ''abc'' @ replicate 53 (CHR 0x00)) = Inr ''abc''"
proof -
  have size: "bucket_size (Suc (Suc (Suc 0))) = Inr 64"
    by (simp add: bucket_size_def WIRE_HEADER_BYTES_def MIN_BUCKET_BYTES_def MAX_BUCKET_BYTES_def checked_next_power_of_two_def doubled_from.simps)
  have "pad_to_bucket (\<lambda>n. Some (replicate n (CHR 0x00))) ''abc'' = Inr (u64_le 3 @ ''abc'' @ replicate 53 (CHR 0x00))"
    by (simp add: pad_to_bucket_def size WIRE_HEADER_BYTES_def Let_def)
  with padding_round_trip [of "\<lambda>n. Some (replicate n (CHR 0x00))" "''abc''"] show ?thesis by simp
qed

section \<open>The portable vault\<close>

definition VAULT_DOMAIN :: bytes where "VAULT_DOMAIN = ''vbuff-portable-vault-v1''"
definition VAULT_MAGIC :: bytes where "VAULT_MAGIC = ''VBUFFVLT''"
definition VAULT_HEADER_BYTES :: nat where "VAULT_HEADER_BYTES = length VAULT_MAGIC + 2 + 8 + 8 + 32 + 24 + 8"
definition MAX_PLAINTEXT_BYTES :: nat where "MAX_PLAINTEXT_BYTES = 512 * 1024 * 1024"
definition MAX_CIPHERTEXT_BYTES :: nat where "MAX_CIPHERTEXT_BYTES = MAX_PLAINTEXT_BYTES + 16"
definition MAX_SERIALIZED_BYTES :: nat where "MAX_SERIALIZED_BYTES = VAULT_HEADER_BYTES + MAX_CIPHERTEXT_BYTES"
definition MAX_VAULT_RECORDS :: nat where "MAX_VAULT_RECORDS = 1000000"

record portable_vault =
  pv_schema :: u16
  pv_created_at_ms :: u64
  pv_record_count :: u64
  pv_plaintext_hash :: bytes
  pv_nonce :: bytes
  pv_ciphertext :: bytes

text \<open>The primitives: the AEAD takes key, nonce, associated data and text.\<close>

record 'sk seal_env =
  sx_blake3 :: "bytes \<Rightarrow> bytes"
  sx_keyed_blake3 :: "bytes \<Rightarrow> bytes \<Rightarrow> bytes"
  sx_encrypt :: "bytes \<Rightarrow> bytes \<Rightarrow> bytes \<Rightarrow> bytes \<Rightarrow> bytes option"
  sx_decrypt :: "bytes \<Rightarrow> bytes \<Rightarrow> bytes \<Rightarrow> bytes \<Rightarrow> bytes option"
  sx_hkdf :: "bytes option \<Rightarrow> bytes \<Rightarrow> bytes \<Rightarrow> nat \<Rightarrow> bytes option"
  sx_public :: "'sk \<Rightarrow> bytes"
  sx_diffie_hellman :: "'sk \<Rightarrow> bytes \<Rightarrow> bytes option"
  sx_zstd :: "bytes \<Rightarrow> bytes option"
  sx_unzstd :: "bytes \<Rightarrow> bytes option"

definition or_crypto :: "'a option \<Rightarrow> sync_error + 'a" where
  "or_crypto x = (case x of None \<Rightarrow> Inl Crypto | Some v \<Rightarrow> Inr v)"

definition or_serialization :: "'a option \<Rightarrow> sync_error + 'a" where
  "or_serialization x = (case x of None \<Rightarrow> Inl Serialization | Some v \<Rightarrow> Inr v)"

lemma or_error_Inr [result_simps]: "or_crypto x = Inr v \<longleftrightarrow> x = Some v" "or_serialization x = Inr v \<longleftrightarrow> x = Some v"
  by (auto simp: or_crypto_def or_serialization_def split: option.split)

definition u16_be :: "u16 \<Rightarrow> bytes" where
  "u16_be w = be_bytes 2 (unat w)"

definition vault_aad :: "u64 \<Rightarrow> u64 \<Rightarrow> bytes \<Rightarrow> bytes" where
  "vault_aad created_at_ms record_count hash = VAULT_DOMAIN @ u64_be created_at_ms @ u64_be record_count @ hash"

definition vault_validate_shape :: "portable_vault \<Rightarrow> sync_error + unit" where
  "vault_validate_shape v = require (pv_schema v = 1 \<and> pv_record_count v \<le> of_nat MAX_VAULT_RECORDS \<and>
     16 \<le> length (pv_ciphertext v) \<and> length (pv_ciphertext v) \<le> MAX_CIPHERTEXT_BYTES) (Invalid ''invalid portable vault header'')"

text \<open>\<open>to_json\<close> is the serializer of the clips.\<close>

definition vault_seal ::
  "'sk seal_env \<Rightarrow> ('c list \<Rightarrow> bytes option) \<Rightarrow> bytes option \<Rightarrow> bytes \<Rightarrow> 'c list \<Rightarrow> u64 \<Rightarrow> sync_error + portable_vault" where
  "vault_seal env to_json random_nonce key clips created_at_ms =
     try_then (require (length clips \<le> MAX_VAULT_RECORDS) (Invalid ''vault has too many records'')) (\<lambda>_.
     try_then (or_serialization (to_json clips)) (\<lambda>plaintext.
     try_then (require (length plaintext \<le> MAX_PLAINTEXT_BYTES) (Invalid ''vault payload is too large'')) (\<lambda>_.
     try_then (or_crypto random_nonce) (\<lambda>nonce.
     let hash = sx_blake3 env plaintext; count = of_nat (length clips) in
     try_then (or_crypto (sx_encrypt env key nonce (vault_aad created_at_ms count hash) plaintext)) (\<lambda>ciphertext.
     Inr \<lparr>pv_schema = 1, pv_created_at_ms = created_at_ms, pv_record_count = count, pv_plaintext_hash = hash, pv_nonce = nonce,
       pv_ciphertext = ciphertext\<rparr>)))))"

definition vault_restore ::
  "'sk seal_env \<Rightarrow> (bytes \<Rightarrow> 'c list option) \<Rightarrow> portable_vault \<Rightarrow> bytes \<Rightarrow> sync_error + 'c list" where
  "vault_restore env from_json v key =
     try_then (vault_validate_shape v) (\<lambda>_.
     try_then (or_crypto (sx_decrypt env key (pv_nonce v) (vault_aad (pv_created_at_ms v) (pv_record_count v) (pv_plaintext_hash v))
       (pv_ciphertext v))) (\<lambda>plaintext.
     try_then (require (length plaintext \<le> MAX_PLAINTEXT_BYTES \<and> sx_blake3 env plaintext = pv_plaintext_hash v)
       (Invalid ''vault integrity check failed'')) (\<lambda>_.
     try_then (or_serialization (from_json plaintext)) (\<lambda>clips.
     try_then (require (of_nat (length clips) = pv_record_count v) (Invalid ''vault record count mismatch'')) (\<lambda>_. Inr clips)))))"

definition vault_to_bytes :: "portable_vault \<Rightarrow> sync_error + bytes" where
  "vault_to_bytes v = try_then (vault_validate_shape v) (\<lambda>_.
     Inr (VAULT_MAGIC @ u16_be (pv_schema v) @ u64_be (pv_created_at_ms v) @ u64_be (pv_record_count v) @ pv_plaintext_hash v @ pv_nonce v @
       u64_be (of_nat (length (pv_ciphertext v))) @ pv_ciphertext v))"

text \<open>\<open>take::<N>\<close> hands back the bytes and the moved cursor.\<close>

definition vault_take :: "nat \<Rightarrow> bytes \<Rightarrow> nat \<Rightarrow> sync_error + (bytes \<times> nat)" where
  "vault_take n b cursor = (if cursor + n \<le> length b then Inr (take n (drop cursor b), cursor + n)
     else Inl (Invalid ''truncated portable vault''))"

definition vault_from_bytes :: "bytes \<Rightarrow> sync_error + portable_vault" where
  "vault_from_bytes b =
     (if length b < VAULT_HEADER_BYTES \<or> MAX_SERIALIZED_BYTES < length b then Inl (Invalid ''vault container size is invalid'')
      else try_then (vault_take 8 b 0) (\<lambda>(magic, c1).
        if magic \<noteq> VAULT_MAGIC then Inl (Invalid ''invalid portable vault magic'')
        else try_then (vault_take 2 b c1) (\<lambda>(schema, c2).
        try_then (vault_take 8 b c2) (\<lambda>(created_at_ms, c3).
        try_then (vault_take 8 b c3) (\<lambda>(record_count, c4).
        try_then (vault_take 32 b c4) (\<lambda>(plaintext_hash, c5).
        try_then (vault_take 24 b c5) (\<lambda>(nonce, c6).
        try_then (vault_take 8 b c6) (\<lambda>(len, c7).
        if c7 + from_be_bytes len \<noteq> length b then Inl (Invalid ''invalid vault ciphertext length'')
        else let v = \<lparr>pv_schema = of_nat (from_be_bytes schema), pv_created_at_ms = of_nat (from_be_bytes created_at_ms),
               pv_record_count = of_nat (from_be_bytes record_count), pv_plaintext_hash = plaintext_hash, pv_nonce = nonce,
               pv_ciphertext = drop c7 b\<rparr> in
          try_then (vault_validate_shape v) (\<lambda>_. Inr v)))))))))"

text \<open>Vaults as the types of the program have them: a hash of 32 bytes and a nonce of 24.\<close>

definition vault_typed :: "portable_vault \<Rightarrow> bool" where
  "vault_typed v \<longleftrightarrow> length (pv_plaintext_hash v) = 32 \<and> length (pv_nonce v) = 24"

lemma length_header_numbers [simp]: "length (u16_be w) = 2" "length (u64_be x) = 8"
  by (simp_all add: u16_be_def u64_be_def)

lemma read_u64 [simp]: "of_nat (from_be_bytes (u64_be w)) = w"
  using unsigned_less [of w, where ?'a = nat] by (simp add: u64_be_def from_be_bytes_be_bytes)

lemma read_u16 [simp]: "of_nat (from_be_bytes (u16_be w)) = w"
  using unsigned_less [of w, where ?'a = nat] by (simp add: u16_be_def from_be_bytes_be_bytes)

lemma written_u64: "length b = 8 \<Longrightarrow> u64_be (of_nat (from_be_bytes b)) = b"
  using from_be_bytes_less [of b] be_bytes_from_be_bytes [of b] by (simp add: u64_be_def unat_of_nat take_bit_nat_eq_self)

lemma written_u16: "length b = 2 \<Longrightarrow> u16_be (of_nat (from_be_bytes b)) = b"
  using from_be_bytes_less [of b] be_bytes_from_be_bytes [of b] by (simp add: u16_be_def unat_of_nat take_bit_nat_eq_self)

lemma vault_take_Inr: "vault_take n b cursor = Inr (x, c) \<longleftrightarrow> cursor + n \<le> length b \<and> x = take n (drop cursor b) \<and> c = cursor + n"
  by (auto simp: vault_take_def)

lemma split_fields:
  assumes "90 \<le> length b"
  shows "b = take 8 b @ take 2 (drop 8 b) @ take 8 (drop 10 b) @ take 8 (drop 18 b) @ take 32 (drop 26 b) @ take 24 (drop 58 b) @
    take 8 (drop 82 b) @ drop 90 b"
proof -
  have piece: "drop n b = take k (drop n b) @ drop (n + k) b" for n k
    by (metis append_take_drop_id drop_drop add.commute)
  show ?thesis
    using piece [of 0 8] piece [of 8 2] piece [of 10 8] piece [of 18 8] piece [of 26 32] piece [of 58 24] piece [of 82 8] by simp
qed

definition read_vault :: "bytes \<Rightarrow> portable_vault" where
  "read_vault b = \<lparr>pv_schema = of_nat (from_be_bytes (take 2 (drop 8 b))), pv_created_at_ms = of_nat (from_be_bytes (take 8 (drop 10 b))),
    pv_record_count = of_nat (from_be_bytes (take 8 (drop 18 b))), pv_plaintext_hash = take 32 (drop 26 b), pv_nonce = take 24 (drop 58 b),
    pv_ciphertext = drop 90 b\<rparr>"

lemma from_bytes_eq:
  "90 \<le> length b \<Longrightarrow> length b \<le> MAX_SERIALIZED_BYTES \<Longrightarrow> vault_from_bytes b =
     (if take 8 b \<noteq> VAULT_MAGIC then Inl (Invalid ''invalid portable vault magic'')
      else if 90 + from_be_bytes (take 8 (drop 82 b)) \<noteq> length b then Inl (Invalid ''invalid vault ciphertext length'')
      else try_then (vault_validate_shape (read_vault b)) (\<lambda>_. Inr (read_vault b)))"
  by (simp add: vault_from_bytes_def vault_take_def VAULT_HEADER_BYTES_def VAULT_MAGIC_def Let_def read_vault_def)

lemma from_bytes_Inr:
  assumes "vault_from_bytes b = Inr v"
  shows "vault_typed v" and "vault_to_bytes v = Inr b"
proof -
  have len: "90 \<le> length b" "length b \<le> MAX_SERIALIZED_BYTES"
    using assms by (auto simp: vault_from_bytes_def VAULT_HEADER_BYTES_def VAULT_MAGIC_def split: if_splits)
  have magic: "take 8 b = VAULT_MAGIC" and total: "90 + from_be_bytes (take 8 (drop 82 b)) = length b"
    and v: "v = read_vault b" and shape: "vault_validate_shape (read_vault b) = Inr ()"
    using assms unfolding from_bytes_eq [OF len] by (auto simp: try_then_eq_Inr split: if_splits)
  show "vault_typed v" using len(1) by (simp add: vault_typed_def v read_vault_def)
  have "length b - 90 = from_be_bytes (take 8 (drop 82 b))" using total by linarith
  then have "u64_be (of_nat (length (drop 90 b))) = take 8 (drop 82 b)"
    using written_u64 [of "take 8 (drop 82 b)"] len(1) by simp
  then have "vault_to_bytes v = Inr (take 8 b @ take 2 (drop 8 b) @ take 8 (drop 10 b) @ take 8 (drop 18 b) @ take 32 (drop 26 b) @
      take 24 (drop 58 b) @ take 8 (drop 82 b) @ drop 90 b)"
    unfolding vault_to_bytes_def v shape try_then_simps using len(1) magic
    by (simp add: read_vault_def written_u64 written_u16)
  then show "vault_to_bytes v = Inr b" using split_fields [OF len(1)] by simp
qed

lemma to_bytes_from_bytes:
  assumes "vault_typed v" and "vault_to_bytes v = Inr b"
  shows "vault_from_bytes b = Inr v"
proof -
  let ?n = "length (pv_ciphertext v)"
  have shape: "vault_validate_shape v = Inr ()" and b: "b = VAULT_MAGIC @ u16_be (pv_schema v) @ u64_be (pv_created_at_ms v) @
      u64_be (pv_record_count v) @ pv_plaintext_hash v @ pv_nonce v @ u64_be (of_nat ?n) @ pv_ciphertext v"
    using assms(2) by (auto simp: vault_to_bytes_def try_then_eq_Inr)
  have n: "?n \<le> MAX_CIPHERTEXT_BYTES" using shape by (simp add: vault_validate_shape_def require_Inr)
  have len: "length b = 90 + ?n" using assms(1) by (simp add: b vault_typed_def VAULT_MAGIC_def)
  have fields: "take 8 b = VAULT_MAGIC" "take 8 (drop 82 b) = u64_be (of_nat ?n)" "read_vault b = v"
    using assms(1) by (simp_all add: b vault_typed_def VAULT_MAGIC_def read_vault_def)
  have "from_be_bytes (u64_be (of_nat ?n)) = ?n"
    using n by (simp add: u64_be_def from_be_bytes_be_bytes unat_of_nat take_bit_nat_eq_self MAX_CIPHERTEXT_BYTES_def MAX_PLAINTEXT_BYTES_def)
  moreover have "length b \<le> MAX_SERIALIZED_BYTES" using len n by (simp add: MAX_SERIALIZED_BYTES_def VAULT_HEADER_BYTES_def VAULT_MAGIC_def)
  ultimately show ?thesis using shape fields len by (simp add: from_bytes_eq)
qed

text \<open>
  The container of a portable vault is canonical. Bytes are read as a vault exactly when they are what the vault is
  written as, so writing and reading are inverse to each other, two different vaults never share their bytes, and no two
  byte strings are read as the same vault.
\<close>

lemma vault_bytes_canonical:
  "vault_from_bytes b = Inr v \<longleftrightarrow> vault_typed v \<and> vault_to_bytes v = Inr b"
  using from_bytes_Inr to_bytes_from_bytes by blast

section \<open>Sealing and restoring a history\<close>

lemma vault_seal_restore:
  assumes "vault_seal env to_json nonce key clips created_at_ms = Inr v"
    and aead: "\<And>n a p c. sx_encrypt env key n a p = Some c \<Longrightarrow> sx_decrypt env key n a c = Some p"
    and tag: "\<And>n a p c. sx_encrypt env key n a p = Some c \<Longrightarrow> length c = length p + 16"
    and json: "\<And>p. to_json clips = Some p \<Longrightarrow> from_json p = Some clips"
  shows "vault_restore env from_json v key = Inr clips"
proof -
  obtain p n c where p: "to_json clips = Some p" "length p \<le> MAX_PLAINTEXT_BYTES" "length clips \<le> MAX_VAULT_RECORDS" "nonce = Some n"
    and c: "sx_encrypt env key n (vault_aad created_at_ms (of_nat (length clips)) (sx_blake3 env p)) p = Some c"
    and v: "v = \<lparr>pv_schema = 1, pv_created_at_ms = created_at_ms, pv_record_count = of_nat (length clips),
      pv_plaintext_hash = sx_blake3 env p, pv_nonce = n, pv_ciphertext = c\<rparr>"
    using assms(1) by (auto simp: vault_seal_def Let_def try_then_eq_Inr require_Inr or_error_Inr)
  have "(of_nat (length clips) :: u64) \<le> of_nat MAX_VAULT_RECORDS"
    using p(3) by (simp add: word_le_nat_alt unat_of_nat take_bit_nat_eq_self MAX_VAULT_RECORDS_def)
  then have "vault_validate_shape v = Inr ()"
    using p(2) tag [OF c] by (simp add: vault_validate_shape_def v MAX_CIPHERTEXT_BYTES_def)
  with p aead [OF c] json show ?thesis by (simp add: vault_restore_def v or_crypto_def or_serialization_def)
qed

section \<open>Wrapped keys and sealed envelopes\<close>

record wrapped_key =
  wk_nonce :: bytes
  wk_ciphertext :: bytes

definition wrap_key :: "'sk seal_env \<Rightarrow> bytes option \<Rightarrow> bytes \<Rightarrow> bytes \<Rightarrow> bytes \<Rightarrow> sync_error + wrapped_key" where
  "wrap_key env random_nonce kek key aad =
     try_then (or_crypto random_nonce) (\<lambda>nonce.
     try_then (or_crypto (sx_encrypt env kek nonce aad key)) (\<lambda>ciphertext.
     Inr \<lparr>wk_nonce = nonce, wk_ciphertext = ciphertext\<rparr>))"

definition unwrap_key :: "'sk seal_env \<Rightarrow> bytes \<Rightarrow> wrapped_key \<Rightarrow> bytes \<Rightarrow> sync_error + bytes" where
  "unwrap_key env kek w aad =
     try_then (or_crypto (sx_decrypt env kek (wk_nonce w) aad (wk_ciphertext w))) (\<lambda>plaintext.
     try_then (require (length plaintext = 32) (Invalid ''wrapped key has wrong length'')) (\<lambda>_. Inr plaintext))"

record wrapped_content_key =
  wc_record_id :: string
  wc_root_epoch :: u64
  wc_wrapped :: wrapped_key

text \<open>The nonces drawn for the records are the list \<open>nonces\<close>.\<close>

fun rewrap_content_keys ::
  "'sk seal_env \<Rightarrow> bytes option list \<Rightarrow> wrapped_content_key list \<Rightarrow> bytes \<Rightarrow> bytes \<Rightarrow> u64 \<Rightarrow> sync_error + wrapped_content_key list" where
  "rewrap_content_keys env nonces [] old_kek new_kek new_epoch = Inr []"
| "rewrap_content_keys env nonces (r # rs) old_kek new_kek new_epoch =
     try_then (unwrap_key env old_kek (wc_wrapped r) (wc_record_id r)) (\<lambda>content_key.
     try_then (wrap_key env (case nonces of [] \<Rightarrow> None | n # _ \<Rightarrow> n) new_kek content_key (wc_record_id r)) (\<lambda>wrapped.
     try_then (rewrap_content_keys env (tl nonces) rs old_kek new_kek new_epoch) (\<lambda>rest.
     Inr (\<lparr>wc_record_id = wc_record_id r, wc_root_epoch = new_epoch, wc_wrapped = wrapped\<rparr> # rest))))"

record sealed_envelope =
  sv_ephemeral_public_key :: bytes
  sv_nonce :: bytes
  sv_ciphertext :: bytes

record relay_envelope =
  re_epoch :: u64
  re_routing_tag :: bytes
  re_sealed :: sealed_envelope

definition derive_sealed_key :: "'sk seal_env \<Rightarrow> bytes \<Rightarrow> bytes \<Rightarrow> bytes \<Rightarrow> sync_error + bytes" where
  "derive_sealed_key env shared ephemeral_public recipient_public =
     or_crypto (sx_hkdf env (Some (ephemeral_public @ recipient_public)) shared ''vbuff-sealed-sender-v1'' 32)"

text \<open>\<open>ephemeral\<close> is the drawn secret; \<open>sx_diffie_hellman\<close> is \<open>None\<close> when the result is not contributory.\<close>

definition seal_to :: "'sk seal_env \<Rightarrow> 'sk \<Rightarrow> bytes option \<Rightarrow> bytes \<Rightarrow> bytes \<Rightarrow> bytes \<Rightarrow> sync_error + sealed_envelope" where
  "seal_to env ephemeral random_nonce recipient plaintext aad =
     try_then (or_crypto (sx_diffie_hellman env ephemeral recipient)) (\<lambda>shared.
     try_then (derive_sealed_key env shared (sx_public env ephemeral) recipient) (\<lambda>key.
     try_then (or_crypto random_nonce) (\<lambda>nonce.
     try_then (or_crypto (sx_encrypt env key nonce aad plaintext)) (\<lambda>ciphertext.
     Inr \<lparr>sv_ephemeral_public_key = sx_public env ephemeral, sv_nonce = nonce, sv_ciphertext = ciphertext\<rparr>))))"

definition open_sealed :: "'sk seal_env \<Rightarrow> 'sk \<Rightarrow> sealed_envelope \<Rightarrow> bytes \<Rightarrow> sync_error + bytes" where
  "open_sealed env recipient_secret e aad =
     try_then (or_crypto (sx_diffie_hellman env recipient_secret (sv_ephemeral_public_key e))) (\<lambda>shared.
     try_then (derive_sealed_key env shared (sv_ephemeral_public_key e) (sx_public env recipient_secret)) (\<lambda>key.
     or_crypto (sx_decrypt env key (sv_nonce e) aad (sv_ciphertext e))))"

definition seal_for_relay ::
  "'sk seal_env \<Rightarrow> 'sk \<Rightarrow> bytes option \<Rightarrow> bytes \<Rightarrow> u64 \<Rightarrow> bytes \<Rightarrow> bytes \<Rightarrow> bytes \<Rightarrow> sync_error + relay_envelope" where
  "seal_for_relay env ephemeral random_nonce routing_secret epoch recipient plaintext aad =
     (let digest = sx_keyed_blake3 env routing_secret (''vbuff-relay-route-v1'' @ u64_le epoch) in
      try_then (seal_to env ephemeral random_nonce recipient plaintext aad) (\<lambda>sealed.
      Inr \<lparr>re_epoch = epoch, re_routing_tag = take 16 digest, re_sealed = sealed\<rparr>))"

lemma unwrap_wrap:
  "wrap_key env nonce kek key aad = Inr w \<Longrightarrow> length key = 32 \<Longrightarrow>
     (\<And>n a p c. sx_encrypt env kek n a p = Some c \<Longrightarrow> sx_decrypt env kek n a c = Some p) \<Longrightarrow> unwrap_key env kek w aad = Inr key"
  by (auto simp: wrap_key_def unwrap_key_def try_then_eq_Inr or_error_Inr or_crypto_def split: option.splits)

text \<open>A rotation of the root changes the wrapping of every content key and none of the keys.\<close>

lemma rewrap_keeps_keys:
  assumes aead: "\<And>n a p c. sx_encrypt env new_kek n a p = Some c \<Longrightarrow> sx_decrypt env new_kek n a c = Some p"
  shows "rewrap_content_keys env nonces rs old_kek new_kek epoch = Inr out \<Longrightarrow>
    map wc_record_id out = map wc_record_id rs \<and> list_all (\<lambda>r. wc_root_epoch r = epoch) out \<and>
    map (\<lambda>r. unwrap_key env new_kek (wc_wrapped r) (wc_record_id r)) out =
      map (\<lambda>r. unwrap_key env old_kek (wc_wrapped r) (wc_record_id r)) rs"
proof (induction rs arbitrary: nonces out)
  case (Cons r rs)
  from Cons.prems obtain key w rest where key: "unwrap_key env old_kek (wc_wrapped r) (wc_record_id r) = Inr key"
    and w: "wrap_key env (case nonces of [] \<Rightarrow> None | n # _ \<Rightarrow> n) new_kek key (wc_record_id r) = Inr w"
    and rest: "rewrap_content_keys env (tl nonces) rs old_kek new_kek epoch = Inr rest"
    and out: "out = \<lparr>wc_record_id = wc_record_id r, wc_root_epoch = epoch, wc_wrapped = w\<rparr> # rest"
    by (auto simp: try_then_eq_Inr)
  have "length key = 32" using key by (auto simp: unwrap_key_def try_then_eq_Inr require_Inr)
  then have "unwrap_key env new_kek w (wc_record_id r) = Inr key" by (rule unwrap_wrap [OF w _ aead])
  with Cons.IH [OF rest] key show ?case by (simp add: out)
qed simp

lemma open_seal:
  assumes "seal_to env ephemeral nonce (sx_public env recipient) plaintext aad = Inr e"
    and dh: "sx_diffie_hellman env ephemeral (sx_public env recipient) = sx_diffie_hellman env recipient (sx_public env ephemeral)"
    and aead: "\<And>k n a p c. sx_encrypt env k n a p = Some c \<Longrightarrow> sx_decrypt env k n a c = Some p"
  shows "open_sealed env recipient e aad = Inr plaintext"
  using assms(1) by (auto simp: seal_to_def open_sealed_def derive_sealed_key_def try_then_eq_Inr or_error_Inr dh aead or_crypto_def split: option.splits)

section \<open>Bootstrap snapshots\<close>

definition BOOTSTRAP_AAD :: bytes where "BOOTSTRAP_AAD = ''vbuff-bootstrap-v1''"
definition MAX_BOOTSTRAP_BYTES :: nat where "MAX_BOOTSTRAP_BYTES = 512 * 1024"
definition MAX_BOOTSTRAP_CIPHERTEXT :: nat where "MAX_BOOTSTRAP_CIPHERTEXT = MAX_BOOTSTRAP_BYTES + 64 * 1024"

record encrypted_bootstrap =
  eb_version :: nat
  eb_salt :: bytes
  eb_nonce :: bytes
  eb_ciphertext :: bytes

definition bootstrap_key :: "'sk seal_env \<Rightarrow> bytes \<Rightarrow> bytes \<Rightarrow> sync_error + bytes" where
  "bootstrap_key env root salt = or_crypto (sx_hkdf env (Some salt) root BOOTSTRAP_AAD 32)"

definition encrypt_snapshot ::
  "'sk seal_env \<Rightarrow> ('t \<Rightarrow> bytes option) \<Rightarrow> bytes option \<Rightarrow> bytes option \<Rightarrow> bytes \<Rightarrow> 't \<Rightarrow> sync_error + encrypted_bootstrap" where
  "encrypt_snapshot env to_json random_salt random_nonce root snapshot =
     try_then (or_serialization (to_json snapshot)) (\<lambda>serialized.
     try_then (require (length serialized \<le> MAX_BOOTSTRAP_BYTES) (Invalid ''bootstrap snapshot exceeds size limit'')) (\<lambda>_.
     try_then (case sx_zstd env serialized of None \<Rightarrow> Inl Compression | Some c \<Rightarrow> Inr c) (\<lambda>compressed.
     try_then (or_crypto random_salt) (\<lambda>salt.
     try_then (or_crypto random_nonce) (\<lambda>nonce.
     try_then (bootstrap_key env root salt) (\<lambda>key.
     try_then (or_crypto (sx_encrypt env key nonce BOOTSTRAP_AAD compressed)) (\<lambda>ciphertext.
     Inr \<lparr>eb_version = 1, eb_salt = salt, eb_nonce = nonce, eb_ciphertext = ciphertext\<rparr>)))))))"

text \<open>\<open>sx_unzstd\<close> is the whole decompressed stream; the reader stops one byte past the limit.\<close>

definition decrypt_snapshot ::
  "'sk seal_env \<Rightarrow> (bytes \<Rightarrow> 't option) \<Rightarrow> bytes \<Rightarrow> encrypted_bootstrap \<Rightarrow> sync_error + 't" where
  "decrypt_snapshot env from_json root b =
     try_then (require (eb_version b = 1) (Invalid ''unsupported bootstrap version'')) (\<lambda>_.
     try_then (require (length (eb_ciphertext b) \<le> MAX_BOOTSTRAP_CIPHERTEXT) (Invalid ''bootstrap ciphertext exceeds size limit'')) (\<lambda>_.
     try_then (bootstrap_key env root (eb_salt b)) (\<lambda>key.
     try_then (or_crypto (sx_decrypt env key (eb_nonce b) BOOTSTRAP_AAD (eb_ciphertext b))) (\<lambda>compressed.
     try_then (case sx_unzstd env compressed of None \<Rightarrow> Inl Compression | Some s \<Rightarrow> Inr (take (MAX_BOOTSTRAP_BYTES + 1) s)) (\<lambda>serialized.
     try_then (require (length serialized \<le> MAX_BOOTSTRAP_BYTES) (Invalid ''decompressed bootstrap exceeds size limit'')) (\<lambda>_.
     or_serialization (from_json serialized)))))))"

lemma bootstrap_round_trip:
  assumes "encrypt_snapshot env to_json salt nonce root snapshot = Inr b" and "length (eb_ciphertext b) \<le> MAX_BOOTSTRAP_CIPHERTEXT"
    and aead: "\<And>k n a p c. sx_encrypt env k n a p = Some c \<Longrightarrow> sx_decrypt env k n a c = Some p"
    and zstd: "\<And>p c. sx_zstd env p = Some c \<Longrightarrow> sx_unzstd env c = Some p"
    and json: "\<And>p. to_json snapshot = Some p \<Longrightarrow> from_json p = Some snapshot"
  shows "decrypt_snapshot env from_json root b = Inr snapshot"
proof -
  from assms(1) obtain p z s n key c where f: "to_json snapshot = Some p" "length p \<le> MAX_BOOTSTRAP_BYTES" "sx_zstd env p = Some z"
    "bootstrap_key env root s = Inr key" "sx_encrypt env key n BOOTSTRAP_AAD z = Some c"
    "b = \<lparr>eb_version = 1, eb_salt = s, eb_nonce = n, eb_ciphertext = c\<rparr>"
    by (auto simp: encrypt_snapshot_def try_then_eq_Inr require_Inr or_error_Inr split: option.splits)
  show ?thesis
    using assms(2) f(4) aead [OF f(5)] zstd [OF f(3)] json [OF f(1)] f(2)
    by (simp add: decrypt_snapshot_def f(6) or_crypto_def or_serialization_def)
qed

text \<open>\<open>mnemonic\<close> and \<open>seed\<close> are those of the phrase standard.\<close>

definition recovery_root :: "'sk seal_env \<Rightarrow> (string \<Rightarrow> string + 'm) \<Rightarrow> ('m \<Rightarrow> string \<Rightarrow> bytes) \<Rightarrow> string \<Rightarrow> sync_error + bytes" where
  "recovery_root env parse seed phrase = (case parse phrase of Inl e \<Rightarrow> Inl (Invalid e) | Inr mnemonic \<Rightarrow>
     or_crypto (sx_hkdf env None (seed mnemonic ''vbuff-recovery-v1'') ''vbuff-group-membership-root-v1'' 32))"

definition generate_recovery_phrase :: "bytes option \<Rightarrow> (bytes \<Rightarrow> string + string) \<Rightarrow> sync_error + string" where
  "generate_recovery_phrase random from_entropy =
     try_then (or_crypto random) (\<lambda>entropy. case from_entropy entropy of Inl e \<Rightarrow> Inl (Invalid e) | Inr phrase \<Rightarrow> Inr phrase)"

section \<open>Collection vaults\<close>

definition collection_vault_id :: "string \<Rightarrow> sync_error + string" where
  "collection_vault_id cid = (if is_valid_identifier cid 128 then Inr cid else Inl (Invalid ''invalid collection vault id''))"

datatype vault_lock_state = VaultLocked | VaultUnlocked

record collection_vault_policy =
  cv_sync_allowed :: bool
  cv_user_presence_required :: bool

definition vault_policy_default :: collection_vault_policy where
  "vault_policy_default = \<lparr>cv_sync_allowed = False, cv_user_presence_required = True\<rparr>"

record collection_vault_state =
  cs_id :: string
  cs_key_epoch :: u64
  cs_lock_state :: vault_lock_state
  cs_policy :: collection_vault_policy

definition permits_read :: "collection_vault_state \<Rightarrow> bool" where
  "permits_read s \<longleftrightarrow> cs_lock_state s = VaultUnlocked"

definition permits_sync :: "collection_vault_state \<Rightarrow> bool" where
  "permits_sync s \<longleftrightarrow> permits_read s \<and> cv_sync_allowed (cs_policy s)"

type_synonym vault_registry = "(string, collection_vault_state) btree"

definition vault_register :: "vault_registry \<Rightarrow> collection_vault_state \<Rightarrow> vault_registry \<times> (sync_error + unit)" where
  "vault_register r s = (if bt_contains r (cs_id s) then (r, Inl (Invalid ''collection vault already exists''))
     else (bt_insert (cs_id s) s r, Inr ()))"

definition vault_set_lock_state :: "vault_registry \<Rightarrow> string \<Rightarrow> vault_lock_state \<Rightarrow> vault_registry \<times> (sync_error + unit)" where
  "vault_set_lock_state r cid l = (case map_of r cid of None \<Rightarrow> (r, Inl (Invalid ''unknown collection vault''))
     | Some s \<Rightarrow> (bt_insert cid (s\<lparr>cs_lock_state := l\<rparr>) r, Inr ()))"

definition collection_info :: "string \<Rightarrow> u64 \<Rightarrow> bytes" where
  "collection_info cid epoch = cid @ u64_be epoch"

definition derive_collection_key :: "'sk seal_env \<Rightarrow> bytes \<Rightarrow> string \<Rightarrow> u64 \<Rightarrow> sync_error + bytes" where
  "derive_collection_key env root cid epoch =
     or_crypto (sx_hkdf env (Some ''vbuff-collection-vault-v1'') root (collection_info cid epoch) 32)"

definition derive_isolated_collection_key :: "'sk seal_env \<Rightarrow> bytes \<Rightarrow> bytes \<Rightarrow> string \<Rightarrow> u64 \<Rightarrow> sync_error + bytes" where
  "derive_isolated_collection_key env root unlock_secret cid epoch =
     (if length unlock_secret < 16 then Inl (Invalid ''collection unlock secret is too short'')
      else or_crypto (sx_hkdf env (Some ''vbuff-isolated-collection-v1'') (root @ unlock_secret) (collection_info cid epoch) 32))"

text \<open>The info of a key names its collection and its epoch: no two pairs share it.\<close>

lemma collection_info_inject: "collection_info cid epoch = collection_info cid' epoch' \<longleftrightarrow> cid = cid' \<and> epoch = epoch'"
  by (auto simp: collection_info_def append_eq_append_conv)

lemma lock_keeps_policy:
  "vault_set_lock_state r cid l = (r', Inr ()) \<Longrightarrow> map_of r' k = Some s \<Longrightarrow>
     \<exists>s0. map_of r k = Some s0 \<and> s = (if k = cid then s0\<lparr>cs_lock_state := l\<rparr> else s0)"
  by (auto simp: vault_set_lock_state_def split: option.splits if_splits)

end
