(* ===== verification/Device_Policy.thy ===== *)
theory Device_Policy
  imports Clip_Types Sync_Container Validation "HOL-Library.Product_Lexorder"
begin

text \<open>
  What may leave for a paired device, \<open>crates/vbuff-sync/src/device_experience/\<close>: device policies with pairing rehearsal,
  selective replay, materialization, retention, nearby targets and dry runs (\<open>policy.rs\<close>), sealed revocations
  (\<open>revocation.rs\<close>), shared snippet proposals (\<open>snippets.rs\<close>), travel mode and QR handoff (\<open>travel.rs\<close>). JSON and base64
  are parameters. \<open>timeline.rs\<close> is in \<open>Crdt\<close>.
\<close>

section \<open>Outbox, replay and retention\<close>

text \<open>
  The limits of the planning primitives for paired devices, \<open>crates/vbuff-sync/src/device_experience.rs\<close>, and the outbox of
  sync events, \<open>device_experience/outbox.rs\<close>, as a machine with its invariant.
\<close>

definition PLAN_MAX_DEVICE_ID_BYTES :: nat where "PLAN_MAX_DEVICE_ID_BYTES = 128"
definition PLAN_MAX_COLLECTION_BYTES :: nat where "PLAN_MAX_COLLECTION_BYTES = 256"
definition MAX_PLAN_ITEMS :: nat where "MAX_PLAN_ITEMS = 10000"
definition MAX_DEVICE_COUNT :: nat where "MAX_DEVICE_COUNT = 1024"
definition MAX_SHARED_APPROVERS :: nat where "MAX_SHARED_APPROVERS = 1024"
definition MAX_NEARBY_TARGETS :: nat where "MAX_NEARBY_TARGETS = 16"
definition MAX_NEARBY_AGE_MS :: u64 where "MAX_NEARBY_AGE_MS = 5 * 60 * 1000"
definition MAX_QR_TOKEN_TTL_MS :: u64 where "MAX_QR_TOKEN_TTL_MS = 5 * 60 * 1000"

section \<open>The outbox\<close>

datatype outbox_status = OutPending | OutWaitingRetry | OutDelivered | OutFailed

record outbox_entry =
  oe_event_id :: bytes
  oe_item_hash :: bytes
  oe_target_device_hash :: bytes
  oe_attempts :: u8
  oe_status :: outbox_status
  oe_next_retry_ms :: "u64 option"
  oe_last_error_code :: "string option"

type_synonym outbox = "(bytes, outbox_entry) btree"

definition outbox_enqueue :: "outbox \<Rightarrow> outbox_entry \<Rightarrow> sync_error + outbox" where
  "outbox_enqueue ob e =
     (if all_zero (oe_event_id e) \<or> all_zero (oe_item_hash e) \<or> all_zero (oe_target_device_hash e) \<or> oe_attempts e \<noteq> 0
         \<or> oe_status e \<noteq> OutPending \<or> oe_next_retry_ms e \<noteq> None \<or> oe_last_error_code e \<noteq> None
         \<or> length ob \<ge> MAX_PLAN_ITEMS \<or> bt_contains ob (oe_event_id e)
      then Inl (Invalid ''invalid outbox entry'') else Inr (bt_insert (oe_event_id e) e ob))"

definition retried :: "outbox_entry \<Rightarrow> u64 \<Rightarrow> string \<Rightarrow> outbox_entry" where
  "retried e at_ms code = (let attempts = saturating_add (oe_attempts e) 1;
       status = (if attempts \<ge> 8 then OutFailed else OutWaitingRetry) in
     e\<lparr>oe_attempts := attempts, oe_status := status,
       oe_next_retry_ms := (if status = OutWaitingRetry then Some at_ms else None), oe_last_error_code := Some code\<rparr>)"

definition open_status :: "outbox_status \<Rightarrow> bool" where
  "open_status s \<longleftrightarrow> s = OutPending \<or> s = OutWaitingRetry"

definition outbox_record_retry :: "outbox \<Rightarrow> bytes \<Rightarrow> u64 \<Rightarrow> string \<Rightarrow> sync_error + outbox" where
  "outbox_record_retry ob event_id at_ms code =
     (if code = [] \<or> length code > 64 \<or> \<not> list_all (\<lambda>b. is_ascii_alphanumeric b \<or> b = CHR ''_'') code
      then Inl (Invalid ''invalid outbox error code'')
      else (case map_of ob event_id of
          None \<Rightarrow> Inl (Invalid ''outbox event not found'')
        | Some e \<Rightarrow> if \<not> open_status (oe_status e) then Inl (Invalid ''outbox event cannot be retried'')
            else Inr (bt_insert event_id (retried e at_ms code) ob)))"

definition outbox_mark_delivered :: "outbox \<Rightarrow> bytes \<Rightarrow> sync_error + outbox" where
  "outbox_mark_delivered ob event_id = (case map_of ob event_id of
       None \<Rightarrow> Inl (Invalid ''outbox event not found'')
     | Some e \<Rightarrow> if \<not> open_status (oe_status e) then Inl (Invalid ''outbox event cannot be delivered'')
         else Inr (bt_insert event_id (e\<lparr>oe_status := OutDelivered, oe_next_retry_ms := None, oe_last_error_code := None\<rparr>) ob))"

datatype outbox_op = Enqueue outbox_entry | RecordRetry bytes u64 string | MarkDelivered bytes

definition outbox_call :: "outbox \<Rightarrow> outbox_op \<Rightarrow> sync_error + outbox" where
  "outbox_call ob op = (case op of Enqueue e \<Rightarrow> outbox_enqueue ob e
     | RecordRetry event_id at_ms code \<Rightarrow> outbox_record_retry ob event_id at_ms code
     | MarkDelivered event_id \<Rightarrow> outbox_mark_delivered ob event_id)"

definition outbox_step :: "outbox \<Rightarrow> outbox_op \<Rightarrow> outbox" where
  "outbox_step ob op = (case outbox_call ob op of Inr ob' \<Rightarrow> ob' | Inl _ \<Rightarrow> ob)"

definition entry_ok :: "bytes \<Rightarrow> outbox_entry \<Rightarrow> bool" where
  "entry_ok k e \<longleftrightarrow> oe_event_id e = k \<and> \<not> all_zero k \<and> (case oe_status e of
       OutPending \<Rightarrow> oe_attempts e = 0 \<and> oe_next_retry_ms e = None \<and> oe_last_error_code e = None
     | OutWaitingRetry \<Rightarrow> 0 < oe_attempts e \<and> oe_attempts e < 8 \<and> oe_next_retry_ms e \<noteq> None \<and> oe_last_error_code e \<noteq> None
     | OutDelivered \<Rightarrow> oe_attempts e < 8 \<and> oe_next_retry_ms e = None \<and> oe_last_error_code e = None
     | OutFailed \<Rightarrow> oe_attempts e = 8 \<and> oe_next_retry_ms e = None \<and> oe_last_error_code e \<noteq> None)"

definition outbox_ok :: "outbox \<Rightarrow> bool" where
  "outbox_ok ob \<longleftrightarrow> bt_ok ob \<and> length ob \<le> MAX_PLAN_ITEMS \<and> (\<forall>k e. map_of ob k = Some e \<longrightarrow> entry_ok k e)"

lemma next_attempt: "n < 8 \<Longrightarrow> saturating_add n 1 = n + 1 \<and> unat (n + 1 :: u8) = Suc (unat n)"
proof -
  assume "n < 8"
  then have n: "unat n < 8" by (simp add: word_less_nat_alt)
  then have "unat (n + 1) = Suc (unat n)" by (simp add: unat_word_ariths)
  with n show ?thesis by (simp add: saturating_add_def checked_add_def)
qed

lemma retried_ok:
  assumes "entry_ok k e" and "open_status (oe_status e)"
  shows "entry_ok k (retried e at_ms code) \<and> oe_attempts (retried e at_ms code) = oe_attempts e + 1"
proof -
  have lt: "oe_attempts e < 8" using assms by (auto simp: entry_ok_def open_status_def)
  note n = next_attempt [OF lt]
  have "0 < oe_attempts e + 1" using n by (simp add: word_greater_zero_iff flip: unat_eq_0) 
  moreover have "oe_attempts e + 1 = 8" if "8 \<le> oe_attempts e + 1"
    using that lt n by (simp add: word_le_nat_alt word_less_nat_alt word_unat_eq_iff)
  ultimately show ?thesis
    using assms n by (auto simp: entry_ok_def retried_def Let_def not_le)
qed

lemma outbox_call_Inr:
  "outbox_call ob op = Inr ob' \<Longrightarrow> outbox_ok ob \<Longrightarrow>
     outbox_ok ob' \<and> (\<forall>k e. map_of ob k = Some e \<longrightarrow> \<not> open_status (oe_status e) \<longrightarrow> map_of ob' k = Some e) \<and>
     (\<forall>k e. map_of ob k = Some e \<longrightarrow> (\<exists>e'. map_of ob' k = Some e'))"
proof (cases op)
  case (Enqueue e)
  assume "outbox_call ob op = Inr ob'" "outbox_ok ob"
  with Enqueue show ?thesis
    by (auto simp: outbox_call_def outbox_enqueue_def outbox_ok_def entry_ok_def length_bt_insert bt_contains_def split: if_splits)
next
  case (RecordRetry k at_ms code)
  assume call: "outbox_call ob op = Inr ob'" and ok: "outbox_ok ob"
  then obtain e where e: "map_of ob k = Some e" "open_status (oe_status e)" "ob' = bt_insert k (retried e at_ms code) ob"
    using RecordRetry by (auto simp: outbox_call_def outbox_record_retry_def split: if_splits option.splits)
  then show ?thesis using ok retried_ok [of k e at_ms code] by (auto simp: outbox_ok_def length_bt_insert bt_contains_def)
next
  case (MarkDelivered k)
  assume call: "outbox_call ob op = Inr ob'" and ok: "outbox_ok ob"
  then obtain e where e: "map_of ob k = Some e" "open_status (oe_status e)"
      "ob' = bt_insert k (e\<lparr>oe_status := OutDelivered, oe_next_retry_ms := None, oe_last_error_code := None\<rparr>) ob"
    using MarkDelivered by (auto simp: outbox_call_def outbox_mark_delivered_def split: if_splits option.splits)
  moreover have "entry_ok k e" using ok e by (simp add: outbox_ok_def)
  then have "oe_attempts e < 8" using e(2) by (auto simp: entry_ok_def open_status_def)
  ultimately show ?thesis using ok \<open>entry_ok k e\<close> by (auto simp: outbox_ok_def length_bt_insert bt_contains_def entry_ok_def)
qed

lemma outbox_step_keeps:
  assumes "outbox_ok ob"
  shows "outbox_ok (outbox_step ob op)"
    and "map_of ob k = Some e \<Longrightarrow> \<not> open_status (oe_status e) \<Longrightarrow> map_of (outbox_step ob op) k = Some e"
proof -
  have "outbox_ok (outbox_step ob op) \<and>
      (\<forall>k e. map_of ob k = Some e \<longrightarrow> \<not> open_status (oe_status e) \<longrightarrow> map_of (outbox_step ob op) k = Some e)"
  proof (cases "outbox_call ob op")
    case (Inr ob')
    from outbox_call_Inr [OF Inr assms] show ?thesis by (simp add: outbox_step_def Inr)
  qed (simp add: outbox_step_def assms)
  then show "outbox_ok (outbox_step ob op)"
    and "map_of ob k = Some e \<Longrightarrow> \<not> open_status (oe_status e) \<Longrightarrow> map_of (outbox_step ob op) k = Some e" by blast+
qed

interpretation outbox: machine outbox_step outbox_ok
  by unfold_locales (rule outbox_step_keeps(1))

lemma settled_stays:
  "outbox_ok ob \<Longrightarrow> map_of ob k = Some e \<Longrightarrow> \<not> open_status (oe_status e) \<Longrightarrow> map_of (run outbox_step ob ops) k = Some e"
  by (induction ops arbitrary: ob) (simp_all add: outbox_step_keeps)

text \<open>
  Delivery attempts are bounded and settle once: in any history of an outbox, an entry has at most eight attempts,
  has failed exactly when all eight were used, waits with a due time and an error code in between, and once it is
  delivered or has failed no later call changes it.
\<close>

lemma outbox_settles:
  assumes "map_of (run outbox_step [] ops) k = Some e"
  shows "unat (oe_attempts e) \<le> 8 \<and> (oe_status e = OutFailed \<longleftrightarrow> oe_attempts e = 8) \<and>
    (oe_status e = OutWaitingRetry \<longleftrightarrow> oe_next_retry_ms e \<noteq> None) \<and>
    (oe_status e = OutDelivered \<or> oe_status e = OutFailed \<longrightarrow> map_of (run outbox_step [] (ops @ later)) k = Some e)"
proof -
  have ok: "outbox_ok (run outbox_step [] ops)" by (rule outbox.inv_run) (simp add: outbox_ok_def)
  with assms have e: "entry_ok k e" by (simp add: outbox_ok_def)
  then have "oe_attempts e \<le> 8 \<and> (oe_status e = OutFailed \<longleftrightarrow> oe_attempts e = 8) \<and> (oe_status e = OutWaitingRetry \<longleftrightarrow> oe_next_retry_ms e \<noteq> None)"
    by (cases "oe_status e") (auto simp: entry_ok_def)
  moreover have "map_of (run outbox_step [] (ops @ later)) k = Some e" if "oe_status e = OutDelivered \<or> oe_status e = OutFailed"
    using settled_stays [OF ok assms, of later] that by (auto simp: open_status_def)
  ultimately show ?thesis by (auto simp: word_le_nat_alt)
qed

definition sample_outbox_entry :: outbox_entry where
  "sample_outbox_entry = \<lparr>oe_event_id = ''e'', oe_item_hash = ''i'', oe_target_device_hash = ''t'', oe_attempts = 0,
     oe_status = OutPending, oe_next_retry_ms = None, oe_last_error_code = None\<rparr>"

lemma outbox_settles_witness:
  "map_of (run outbox_step [] ([Enqueue sample_outbox_entry, MarkDelivered ''e''] @ [RecordRetry ''e'' 5 ''timeout''])) ''e'' =
     Some (sample_outbox_entry\<lparr>oe_status := OutDelivered\<rparr>)"
proof -
  have "map_of (run outbox_step [] [Enqueue sample_outbox_entry, MarkDelivered ''e'']) ''e'' = Some (sample_outbox_entry\<lparr>oe_status := OutDelivered\<rparr>)"
    by (simp add: outbox_step_def outbox_call_def outbox_enqueue_def outbox_mark_delivered_def sample_outbox_entry_def all_zero_def
        MAX_PLAN_ITEMS_def bt_contains_def open_status_def)
  from outbox_settles [OF this, of "[RecordRetry ''e'' 5 ''timeout'']"] show ?thesis by (simp add: sample_outbox_entry_def)
qed

datatype device_trust = FullTrust | ReceiveOnly | SendOnly | Untrusted

definition accepts_from_local :: "device_trust \<Rightarrow> bool" where "accepts_from_local t \<longleftrightarrow> t = FullTrust \<or> t = ReceiveOnly"
definition may_send_to_local :: "device_trust \<Rightarrow> bool" where "may_send_to_local t \<longleftrightarrow> t = FullTrust \<or> t = SendOnly"

datatype bandwidth_mode = FullBandwidth | MetadataFirst | OnDemand

record device_policy =
  dp_device_id :: string
  dp_trust :: device_trust
  dp_clipboard_write_allowed :: bool
  dp_retention_days :: "u16 option"
  dp_mask_sensitive_history :: bool
  dp_bandwidth_mode :: bandwidth_mode
  dp_nearby_verified :: bool
  dp_last_seen_ms :: u64

definition device_policy_validate :: "device_policy \<Rightarrow> sync_error + unit" where
  "device_policy_validate p =
     (if \<not> is_valid_identifier (dp_device_id p) PLAN_MAX_DEVICE_ID_BYTES
         \<or> (case dp_retention_days p of None \<Rightarrow> False | Some days \<Rightarrow> days = 0 \<or> days > 3650)
         \<or> (dp_trust p = Untrusted \<and> dp_clipboard_write_allowed p)
      then Inl (Invalid ''invalid device policy'') else Inr ())"

definition allows_live_clipboard_write :: "device_policy \<Rightarrow> bool" where
  "allows_live_clipboard_write p \<longleftrightarrow> is_ok (device_policy_validate p) \<and> dp_clipboard_write_allowed p \<and> may_send_to_local (dp_trust p)"

record sync_item =
  it_item_id :: string
  it_collection :: "string option"
  it_kind :: content_kind
  it_byte_size :: u64
  it_sensitive :: bool
  it_sync_eligible :: bool
  it_has_thumbnail :: bool
  it_created_at_ms :: u64

definition valid_collection :: "string \<Rightarrow> bool" where
  "valid_collection c \<longleftrightarrow> \<not> (c = [] \<or> length c > PLAN_MAX_COLLECTION_BYTES \<or> has_control c)"

definition sync_item_validate :: "sync_item \<Rightarrow> sync_error + unit" where
  "sync_item_validate i =
     (if \<not> is_valid_identifier (it_item_id i) 128 \<or> (case it_collection i of None \<Rightarrow> False | Some c \<Rightarrow> \<not> valid_collection c)
      then Inl (Invalid ''invalid sync item summary'') else Inr ())"

definition local_only_by_default :: "sync_item \<Rightarrow> bool" where
  "local_only_by_default i \<longleftrightarrow> it_sensitive i \<or> \<not> it_sync_eligible i"

definition bounded_items :: "sync_item list \<Rightarrow> sync_error + unit" where
  "bounded_items items = (if length items > MAX_PLAN_ITEMS then Inl (Invalid ''sync plan exceeds item limit'') else Inr ())"

section \<open>Rehearsal\<close>

record pairing_rehearsal =
  pr_transferable_items :: nat
  pr_transferable_bytes :: u64
  pr_local_only_items :: nat
  pr_metadata_first_items :: nat

definition rehearse_item :: "device_policy \<Rightarrow> sync_item \<Rightarrow> pairing_rehearsal \<Rightarrow> pairing_rehearsal" where
  "rehearse_item p i r =
     (if local_only_by_default i \<or> \<not> accepts_from_local (dp_trust p) then r\<lparr>pr_local_only_items := pr_local_only_items r + 1\<rparr>
      else r\<lparr>pr_transferable_items := pr_transferable_items r + 1,
             pr_transferable_bytes := saturating_add (pr_transferable_bytes r) (it_byte_size i),
             pr_metadata_first_items := pr_metadata_first_items r + (if dp_bandwidth_mode p \<noteq> FullBandwidth then 1 else 0)\<rparr>)"

fun rehearse_items :: "device_policy \<Rightarrow> sync_item list \<Rightarrow> pairing_rehearsal \<Rightarrow> sync_error + pairing_rehearsal" where
  "rehearse_items p [] r = Inr r"
| "rehearse_items p (i # items) r = try_then (sync_item_validate i) (\<lambda>_. rehearse_items p items (rehearse_item p i r))"

definition rehearse_pairing :: "device_policy \<Rightarrow> sync_item list \<Rightarrow> sync_error + pairing_rehearsal" where
  "rehearse_pairing p items = try_then (device_policy_validate p) (\<lambda>_. try_then (bounded_items items) (\<lambda>_.
     rehearse_items p items \<lparr>pr_transferable_items = 0, pr_transferable_bytes = 0, pr_local_only_items = 0, pr_metadata_first_items = 0\<rparr>))"

section \<open>Selective replay\<close>

record replay_selection =
  rs_item_ids :: "string set"
  rs_collections :: "string set"
  rs_maximum_items :: nat

definition replay_selection_validate :: "replay_selection \<Rightarrow> sync_error + unit" where
  "replay_selection_validate s =
     (if rs_maximum_items s = 0 \<or> rs_maximum_items s > MAX_PLAN_ITEMS \<or> card (rs_item_ids s) > MAX_PLAN_ITEMS
         \<or> card (rs_collections s) > MAX_PLAN_ITEMS \<or> card (rs_item_ids s) + card (rs_collections s) > MAX_PLAN_ITEMS
         \<or> (\<exists>item \<in> rs_item_ids s. \<not> is_valid_identifier item 128) \<or> (\<exists>c \<in> rs_collections s. \<not> valid_collection c)
      then Inl (Invalid ''invalid selective replay selection'') else Inr ())"

record replay_plan =
  rp_item_ids :: "string list"
  rp_total_bytes :: u64
  rp_skipped_local_only :: nat

definition replay_selected :: "replay_selection \<Rightarrow> sync_item \<Rightarrow> bool" where
  "replay_selected s i \<longleftrightarrow> it_item_id i \<in> rs_item_ids s \<or> (case it_collection i of None \<Rightarrow> False | Some c \<Rightarrow> c \<in> rs_collections s)"

fun replay_items :: "device_policy \<Rightarrow> replay_selection \<Rightarrow> sync_item list \<Rightarrow> replay_plan \<Rightarrow> sync_error + replay_plan" where
  "replay_items p s [] plan = Inr plan"
| "replay_items p s (i # items) plan = try_then (sync_item_validate i) (\<lambda>_.
     if \<not> replay_selected s i then replay_items p s items plan
     else if local_only_by_default i \<or> \<not> accepts_from_local (dp_trust p)
     then replay_items p s items (plan\<lparr>rp_skipped_local_only := rp_skipped_local_only plan + 1\<rparr>)
     else if length (rp_item_ids plan) = rs_maximum_items s then Inr plan
     else replay_items p s items (plan\<lparr>rp_total_bytes := saturating_add (rp_total_bytes plan) (it_byte_size i),
            rp_item_ids := rp_item_ids plan @ [it_item_id i]\<rparr>))"

definition plan_selective_replay :: "device_policy \<Rightarrow> sync_item list \<Rightarrow> replay_selection \<Rightarrow> sync_error + replay_plan" where
  "plan_selective_replay p items s = try_then (device_policy_validate p) (\<lambda>_. try_then (bounded_items items) (\<lambda>_.
     try_then (replay_selection_validate s) (\<lambda>_.
     replay_items p s items \<lparr>rp_item_ids = [], rp_total_bytes = 0, rp_skipped_local_only = 0\<rparr>)))"

section \<open>Materialization and retention\<close>

datatype materialization = DeniedTransfer | MetadataOnly | MetadataAndThumbnail | FullPayload

definition transfer_materialization :: "device_policy \<Rightarrow> sync_item \<Rightarrow> bool \<Rightarrow> materialization" where
  "transfer_materialization p i requested =
     (if \<not> is_ok (device_policy_validate p) \<or> \<not> is_ok (sync_item_validate i) \<or> local_only_by_default i \<or> \<not> accepts_from_local (dp_trust p)
      then DeniedTransfer
      else case dp_bandwidth_mode p of
          FullBandwidth \<Rightarrow> FullPayload
        | MetadataFirst \<Rightarrow> if it_has_thumbnail i \<and> \<not> requested then MetadataAndThumbnail
            else if \<not> requested then MetadataOnly else FullPayload
        | OnDemand \<Rightarrow> if \<not> requested then MetadataOnly else FullPayload)"

definition effective_retention_deadline_ms :: "device_policy \<Rightarrow> sync_item \<Rightarrow> u16 \<Rightarrow> sync_error + u64 option" where
  "effective_retention_deadline_ms p i global_days = try_then (device_policy_validate p) (\<lambda>_. try_then (sync_item_validate i) (\<lambda>_.
     if global_days > 3650 then Inl (Invalid ''invalid global retention'')
     else let device_days = (case dp_retention_days p of None \<Rightarrow> global_days | Some d \<Rightarrow> d);
              days = (if it_sensitive i \<and> dp_mask_sensitive_history p then min device_days 1 else device_days)
       in Inr (if days > 0 then Some (saturating_add (it_created_at_ms i) (ucast days * 24 * 60 * 60 * 1000)) else None)))"

section \<open>Devices nearby and dry runs\<close>

record nearby_target =
  nt_device_id :: string
  nt_trust :: device_trust
  nt_last_seen_ms :: u64

fun validate_devices_from :: "string set \<Rightarrow> device_policy list \<Rightarrow> sync_error + unit" where
  "validate_devices_from seen [] = Inr ()"
| "validate_devices_from seen (d # ds) = try_then (device_policy_validate d) (\<lambda>_.
     if dp_device_id d \<in> seen then Inl (Invalid ''duplicate device policy'')
     else validate_devices_from (insert (dp_device_id d) seen) ds)"

definition validate_devices :: "device_policy list \<Rightarrow> sync_error + unit" where
  "validate_devices ds = (if length ds > MAX_DEVICE_COUNT then Inl (Invalid ''too many devices'') else validate_devices_from {} ds)"

definition is_nearby :: "u64 \<Rightarrow> device_policy \<Rightarrow> bool" where
  "is_nearby now d \<longleftrightarrow> dp_nearby_verified d \<and> accepts_from_local (dp_trust d) \<and> dp_last_seen_ms d \<le> now \<and> now - dp_last_seen_ms d \<le> MAX_NEARBY_AGE_MS"

text \<open>The comparison is later first, then by identifier; \<open>sort_by\<close> is stable.\<close>

definition nearby_send_targets :: "device_policy list \<Rightarrow> u64 \<Rightarrow> sync_error + nearby_target list" where
  "nearby_send_targets ds now = try_then (validate_devices ds) (\<lambda>_.
     Inr (take MAX_NEARBY_TARGETS (sort_key (\<lambda>t. (- int (unat (nt_last_seen_ms t)), nt_device_id t))
       (map (\<lambda>d. \<lparr>nt_device_id = dp_device_id d, nt_trust = dp_trust d, nt_last_seen_ms = dp_last_seen_ms d\<rparr>)
         (filter (is_nearby now) ds)))))"

record dry_run_estimate =
  dr_item_count :: nat
  dr_payload_bytes :: u64
  dr_sensitive_local_only :: nat
  dr_affected_devices :: nat
  dr_metadata_first_items :: nat

definition estimate_item :: "sync_item \<Rightarrow> dry_run_estimate \<Rightarrow> dry_run_estimate" where
  "estimate_item i e =
     (if local_only_by_default i then e\<lparr>dr_sensitive_local_only := dr_sensitive_local_only e + 1\<rparr>
      else e\<lparr>dr_item_count := dr_item_count e + 1, dr_payload_bytes := saturating_add (dr_payload_bytes e) (it_byte_size i)\<rparr>)"

fun estimate_items :: "sync_item list \<Rightarrow> dry_run_estimate \<Rightarrow> sync_error + dry_run_estimate" where
  "estimate_items [] e = Inr e"
| "estimate_items (i # items) e = try_then (sync_item_validate i) (\<lambda>_. estimate_items items (estimate_item i e))"

text \<open>The saturation of the count of metadata items at \<open>usize\<close> is out of reach of 10000 items times 1024 devices.\<close>

definition estimate_device :: "device_policy \<Rightarrow> dry_run_estimate \<Rightarrow> dry_run_estimate" where
  "estimate_device d e =
     (if accepts_from_local (dp_trust d)
      then e\<lparr>dr_affected_devices := dr_affected_devices e + 1,
             dr_metadata_first_items := (if dp_bandwidth_mode d \<noteq> FullBandwidth
               then dr_metadata_first_items e + dr_item_count e else dr_metadata_first_items e)\<rparr>
      else e)"

definition estimate_sync :: "device_policy list \<Rightarrow> sync_item list \<Rightarrow> sync_error + dry_run_estimate" where
  "estimate_sync ds items = try_then (bounded_items items) (\<lambda>_. try_then (validate_devices ds) (\<lambda>_.
     try_then (estimate_items items \<lparr>dr_item_count = 0, dr_payload_bytes = 0, dr_sensitive_local_only = 0, dr_affected_devices = 0, dr_metadata_first_items = 0\<rparr>)
       (\<lambda>e. Inr (fold estimate_device ds e))))"

section \<open>Sealed revocations\<close>

record revocation_tombstone =
  rt_item_hash :: bytes
  rt_target_device_hash :: bytes
  rt_revoked_epoch :: u64
  rt_issued_at_ms :: u64

definition sealed_revocation_tombstones ::
  "(revocation_tombstone list \<Rightarrow> bytes option) \<Rightarrow> 'sk seal_env \<Rightarrow> 'sk \<Rightarrow> bytes option \<Rightarrow> string \<Rightarrow> string list \<Rightarrow> u64 \<Rightarrow> u64 \<Rightarrow> bytes \<Rightarrow>
     sync_error + sealed_envelope" where
  "sealed_revocation_tombstones to_json env ephemeral nonce target item_ids revoked_epoch issued_at_ms recipient =
     (if \<not> is_valid_identifier target PLAN_MAX_DEVICE_ID_BYTES \<or> item_ids = [] \<or> length item_ids > MAX_PLAN_ITEMS
         \<or> (\<exists>item \<in> set item_ids. \<not> is_valid_identifier item 128)
      then Inl (Invalid ''invalid revocation plan'')
      else let tombstones = map (\<lambda>item. \<lparr>rt_item_hash = sx_blake3 env item, rt_target_device_hash = sx_blake3 env target,
               rt_revoked_epoch = revoked_epoch, rt_issued_at_ms = issued_at_ms\<rparr>) item_ids
        in try_then (or_serialization (to_json tombstones)) (\<lambda>payload.
          seal_to env ephemeral nonce recipient payload
            (''vbuff-revoke-v1:'' @ decimal (unat revoked_epoch) @ '':'' @ decimal (unat issued_at_ms))))"

section \<open>Shared snippet proposals\<close>

datatype proposal_state = ProposedSnippet | ApprovedSnippet | CommittedSnippet | RejectedSnippet

record snippet_proposal =
  sp_proposal_id :: bytes
  sp_snippet_hash :: bytes
  sp_author_device_hash :: bytes
  sp_base_revision :: u64
  sp_proposed_revision :: u64
  sp_state :: proposal_state
  sp_approvals :: "bytes set"

definition proposal_new :: "bytes \<Rightarrow> bytes \<Rightarrow> bytes \<Rightarrow> u64 \<Rightarrow> sync_error + snippet_proposal" where
  "proposal_new proposal_id snippet_hash author base_revision =
     (if all_zero proposal_id \<or> all_zero snippet_hash \<or> all_zero author then Inl (Invalid ''invalid snippet proposal id'')
      else case checked_add base_revision 1 of None \<Rightarrow> Inl (Invalid ''snippet revision overflow'')
        | Some n \<Rightarrow> Inr \<lparr>sp_proposal_id = proposal_id, sp_snippet_hash = snippet_hash, sp_author_device_hash = author,
            sp_base_revision = base_revision, sp_proposed_revision = n, sp_state = ProposedSnippet, sp_approvals = {}\<rparr>)"

definition proposal_approve :: "snippet_proposal \<Rightarrow> bytes \<Rightarrow> bytes set \<Rightarrow> nat \<Rightarrow> sync_error + (snippet_proposal \<times> bool)" where
  "proposal_approve p approver allowed required =
     (if sp_state p \<noteq> ProposedSnippet \<or> required = 0 \<or> card allowed > MAX_SHARED_APPROVERS \<or> required > card allowed
         \<or> all_zero approver \<or> (\<exists>a \<in> allowed. all_zero a) \<or> sp_author_device_hash p \<in> allowed
         \<or> approver = sp_author_device_hash p \<or> approver \<notin> allowed
      then Inl (Invalid ''invalid snippet approval'')
      else let approvals = insert approver (sp_approvals p);
               state = (if card approvals \<ge> required then ApprovedSnippet else sp_state p) in
        Inr (p\<lparr>sp_approvals := approvals, sp_state := state\<rparr>, state = ApprovedSnippet))"

definition proposal_commit :: "snippet_proposal \<Rightarrow> u64 \<Rightarrow> sync_error + (snippet_proposal \<times> u64)" where
  "proposal_commit p current_revision =
     (if sp_state p \<noteq> ApprovedSnippet \<or> current_revision \<noteq> sp_base_revision p
      then Inl (Invalid ''snippet proposal is not committable'')
      else Inr (p\<lparr>sp_state := CommittedSnippet\<rparr>, sp_proposed_revision p))"

section \<open>Travel mode and QR handoff\<close>

record travel_mode =
  tm_enabled :: bool
  tm_enabled_at_ms :: u64
  tm_expires_at_ms :: "u64 option"
  tm_retention_hours :: u16

definition travel_validate :: "travel_mode \<Rightarrow> sync_error + unit" where
  "travel_validate t =
     (if tm_retention_hours t = 0 \<or> tm_retention_hours t > 7 * 24
         \<or> (case tm_expires_at_ms t of None \<Rightarrow> False | Some expires \<Rightarrow> expires \<le> tm_enabled_at_ms t)
      then Inl (Invalid ''invalid travel mode'') else Inr ())"

definition travel_active_unchecked :: "travel_mode \<Rightarrow> u64 \<Rightarrow> bool" where
  "travel_active_unchecked t now \<longleftrightarrow> tm_enabled t \<and> now \<ge> tm_enabled_at_ms t \<and>
     (case tm_expires_at_ms t of None \<Rightarrow> True | Some expires \<Rightarrow> now < expires)"

definition travel_active :: "travel_mode \<Rightarrow> u64 \<Rightarrow> sync_error + bool" where
  "travel_active t now = try_then (travel_validate t) (\<lambda>_. Inr (travel_active_unchecked t now))"

definition travel_sync_allowed :: "travel_mode \<Rightarrow> u64 \<Rightarrow> bool" where
  "travel_sync_allowed t now = (case travel_active t now of Inr active \<Rightarrow> \<not> active | Inl _ \<Rightarrow> False)"

definition travel_sensitive_visible :: "travel_mode \<Rightarrow> u64 \<Rightarrow> bool" where
  "travel_sensitive_visible t now = (case travel_active t now of Inr active \<Rightarrow> \<not> active | Inl _ \<Rightarrow> False)"

record qr_token =
  qr_token :: bytes
  qr_item_hash :: bytes
  qr_issued_at_ms :: u64
  qr_expires_at_ms :: u64
  qr_consumed :: bool

definition qr_issue :: "bytes option \<Rightarrow> bytes \<Rightarrow> u64 \<Rightarrow> u64 \<Rightarrow> sync_error + qr_token" where
  "qr_issue random item_hash issued_at_ms ttl_ms =
     (if all_zero item_hash \<or> ttl_ms = 0 \<or> ttl_ms > MAX_QR_TOKEN_TTL_MS then Inl (Invalid ''invalid QR handoff lifetime'')
      else try_then (or_crypto random) (\<lambda>token.
        case checked_add issued_at_ms ttl_ms of None \<Rightarrow> Inl (Invalid ''QR handoff expiry overflow'')
        | Some expires \<Rightarrow> Inr \<lparr>qr_token = token, qr_item_hash = item_hash, qr_issued_at_ms = issued_at_ms,
            qr_expires_at_ms = expires, qr_consumed = False\<rparr>))"

definition qr_payload :: "(bytes \<Rightarrow> string) \<Rightarrow> qr_token \<Rightarrow> string" where
  "qr_payload b64 t = ''vbuff://handoff/v1/'' @ b64 (qr_token t) @ ''?e='' @ decimal (unat (qr_expires_at_ms t))"

definition qr_bytes_equal :: "bytes \<Rightarrow> bytes \<Rightarrow> bool" where
  "qr_bytes_equal l r = (if length l \<noteq> length r then False
     else foldl (\<lambda>d (a, b). or d (xor (of_nat (of_char a)) (of_nat (of_char b)))) (0 :: u8) (zip l r) = 0)"

definition qr_consume :: "(string \<Rightarrow> bytes option) \<Rightarrow> qr_token \<Rightarrow> string \<Rightarrow> u64 \<Rightarrow> qr_token \<times> bool" where
  "qr_consume unb64 t presented now =
     (let accepted = \<not> qr_consumed t \<and> now \<ge> qr_issued_at_ms t \<and> now < qr_expires_at_ms t \<and>
          (case unb64 presented of None \<Rightarrow> False | Some token \<Rightarrow> qr_bytes_equal token (qr_token t)) in
      (if accepted then t\<lparr>qr_consumed := True\<rparr> else t, accepted))"

section \<open>What the plans promise\<close>

lemma device_policy_validate_Inr: "device_policy_validate p = Inr u \<longleftrightarrow> is_ok (device_policy_validate p)"
  by (cases "device_policy_validate p") simp_all

lemma rehearse_items_Inr:
  assumes "is_ok (device_policy_validate p)"
  shows "rehearse_items p items r = Inr r' \<Longrightarrow>
    pr_transferable_items r' = pr_transferable_items r + length (filter (\<lambda>i. transfer_materialization p i False \<noteq> DeniedTransfer) items) \<and>
    pr_local_only_items r' = pr_local_only_items r + length (filter (\<lambda>i. transfer_materialization p i False = DeniedTransfer) items) \<and>
    pr_metadata_first_items r' = pr_metadata_first_items r + length (filter (\<lambda>i. transfer_materialization p i False \<in> {MetadataOnly, MetadataAndThumbnail}) items) \<and>
    unat (pr_transferable_bytes r') = min (2 ^ 64 - 1) (unat (pr_transferable_bytes r) +
      sum_list (map (unat \<circ> it_byte_size) (filter (\<lambda>i. transfer_materialization p i False \<noteq> DeniedTransfer) items)))"
proof (induction items arbitrary: r)
  case Nil
  then show ?case using unat_less_size [of "pr_transferable_bytes r'"] by simp
next
  case (Cons i items)
  from Cons.prems have i: "is_ok (sync_item_validate i)" and rest: "rehearse_items p items (rehearse_item p i r) = Inr r'"
    by (auto simp: try_then_eq_Inr)
  note step = Cons.IH [OF rest]
  show ?case
  proof (cases "local_only_by_default i \<or> \<not> accepts_from_local (dp_trust p)")
    case True
    then have "transfer_materialization p i False = DeniedTransfer" by (auto simp: transfer_materialization_def)
    with True step show ?thesis by (simp add: rehearse_item_def)
  next
    case False
    then have "transfer_materialization p i False = (case dp_bandwidth_mode p of FullBandwidth \<Rightarrow> FullPayload
        | MetadataFirst \<Rightarrow> if it_has_thumbnail i then MetadataAndThumbnail else MetadataOnly | OnDemand \<Rightarrow> MetadataOnly)"
      using assms i by (auto simp: transfer_materialization_def split: bandwidth_mode.split)
    with False step show ?thesis
      by (cases "dp_bandwidth_mode p") (auto simp: rehearse_item_def unat_saturating_add min_def)
  qed
qed

text \<open>
  The pairing rehearsal is honest: the items it counts as transferable are exactly those a transfer would not deny, the
  rest stay local, the items announced as metadata first are exactly those sent without their payload, and the announced
  bytes are the sum of the sizes, capped at the largest number.
\<close>

lemma rehearsal_predicts_transfers:
  assumes "rehearse_pairing p items = Inr r"
  shows "pr_transferable_items r = length (filter (\<lambda>i. transfer_materialization p i False \<noteq> DeniedTransfer) items) \<and>
    pr_local_only_items r = length (filter (\<lambda>i. transfer_materialization p i False = DeniedTransfer) items) \<and>
    pr_metadata_first_items r = length (filter (\<lambda>i. transfer_materialization p i False \<in> {MetadataOnly, MetadataAndThumbnail}) items) \<and>
    unat (pr_transferable_bytes r) = min (2 ^ 64 - 1)
      (sum_list (map (unat \<circ> it_byte_size) (filter (\<lambda>i. transfer_materialization p i False \<noteq> DeniedTransfer) items)))"
proof -
  from assms have "is_ok (device_policy_validate p)"
    and "rehearse_items p items \<lparr>pr_transferable_items = 0, pr_transferable_bytes = 0, pr_local_only_items = 0, pr_metadata_first_items = 0\<rparr> = Inr r"
    by (auto simp: rehearse_pairing_def try_then_eq_Inr)
  from rehearse_items_Inr [OF this] show ?thesis by simp
qed

definition sample_device_policy :: device_policy where
  "sample_device_policy = \<lparr>dp_device_id = ''phone'', dp_trust = ReceiveOnly, dp_clipboard_write_allowed = False, dp_retention_days = None,
     dp_mask_sensitive_history = True, dp_bandwidth_mode = OnDemand, dp_nearby_verified = True, dp_last_seen_ms = 7\<rparr>"

definition sample_sync_item :: "bool \<Rightarrow> sync_item" where
  "sample_sync_item secret = \<lparr>it_item_id = ''i'', it_collection = None, it_kind = TextKind, it_byte_size = 9, it_sensitive = secret,
     it_sync_eligible = True, it_has_thumbnail = False, it_created_at_ms = 5\<rparr>"

lemma sample_valid: "device_policy_validate sample_device_policy = Inr ()" "sync_item_validate (sample_sync_item secret) = Inr ()"
  by (simp_all add: device_policy_validate_def sync_item_validate_def sample_device_policy_def sample_sync_item_def
      is_valid_identifier_def is_valid_identifier_with_extra_def is_ascii_alphanumeric_def PLAN_MAX_DEVICE_ID_BYTES_def)

lemma rehearsal_predicts_transfers_witness:
  "\<exists>r. rehearse_pairing sample_device_policy [sample_sync_item False, sample_sync_item True] = Inr r \<and>
     pr_transferable_items r = 1 \<and> pr_local_only_items r = 1 \<and> unat (pr_transferable_bytes r) = 9"
proof -
  obtain r where r: "rehearse_pairing sample_device_policy [sample_sync_item False, sample_sync_item True] = Inr r"
    by (simp add: rehearse_pairing_def sample_valid bounded_items_def MAX_PLAN_ITEMS_def)
  moreover have "transfer_materialization sample_device_policy (sample_sync_item False) False \<noteq> DeniedTransfer"
    "transfer_materialization sample_device_policy (sample_sync_item True) False = DeniedTransfer"
    by (simp_all add: transfer_materialization_def sample_valid)
      (simp_all add: local_only_by_default_def accepts_from_local_def sample_device_policy_def sample_sync_item_def)
  moreover have "unat (it_byte_size (sample_sync_item False)) = 9" by (simp add: sample_sync_item_def)
  ultimately show ?thesis using rehearsal_predicts_transfers [OF r] by simp
qed

text \<open>A replay sends only what was selected and would not be denied, and at most as many items as asked for.\<close>

lemma replay_items_Inr:
  assumes "is_ok (device_policy_validate p)"
  shows "replay_items p s items plan = Inr plan' \<Longrightarrow> length (rp_item_ids plan) \<le> rs_maximum_items s \<Longrightarrow>
    length (rp_item_ids plan') \<le> rs_maximum_items s \<and>
    set (rp_item_ids plan') \<subseteq> set (rp_item_ids plan) \<union>
      {it_item_id i | i. i \<in> set items \<and> replay_selected s i \<and> transfer_materialization p i False \<noteq> DeniedTransfer}"
proof (induction items arbitrary: plan)
  case (Cons i items)
  from Cons.prems(1) have i: "is_ok (sync_item_validate i)" by (auto simp: try_then_eq_Inr)
  let ?sent = "plan\<lparr>rp_total_bytes := saturating_add (rp_total_bytes plan) (it_byte_size i), rp_item_ids := rp_item_ids plan @ [it_item_id i]\<rparr>"
  obtain u where u: "sync_item_validate i = Inr u" using i by (auto simp: is_ok_iff)
  have "replay_items p s items plan = Inr plan' \<or>
      replay_items p s items (plan\<lparr>rp_skipped_local_only := rp_skipped_local_only plan + 1\<rparr>) = Inr plan' \<or> plan' = plan \<or>
      (replay_selected s i \<and> \<not> local_only_by_default i \<and> accepts_from_local (dp_trust p) \<and>
       length (rp_item_ids plan) \<noteq> rs_maximum_items s \<and> replay_items p s items ?sent = Inr plan')"
    using Cons.prems(1) by (simp add: u split: if_split_asm)
  then consider "replay_items p s items plan = Inr plan'"
    | "replay_items p s items (plan\<lparr>rp_skipped_local_only := rp_skipped_local_only plan + 1\<rparr>) = Inr plan'"
    | "plan' = plan"
    | "replay_selected s i" "\<not> local_only_by_default i" "accepts_from_local (dp_trust p)"
      "length (rp_item_ids plan) \<noteq> rs_maximum_items s" "replay_items p s items ?sent = Inr plan'" by blast
  then show ?case
  proof cases
    case 1
    with Cons.IH [OF 1 Cons.prems(2)] show ?thesis by auto
  next
    case 2
    with Cons.IH [OF 2] Cons.prems(2) show ?thesis by auto
  next
    case 3
    with Cons.prems(2) show ?thesis by auto
  next
    case 4
    then have "transfer_materialization p i False \<noteq> DeniedTransfer"
      using assms i by (auto simp: transfer_materialization_def split: bandwidth_mode.split)
    moreover have "length (rp_item_ids ?sent) \<le> rs_maximum_items s" using 4(4) Cons.prems(2) by simp
    ultimately show ?thesis using Cons.IH [OF 4(5)] 4(1) by auto
  qed
qed auto

lemma replay_plan_sound:
  assumes "plan_selective_replay p items s = Inr plan"
  shows "length (rp_item_ids plan) \<le> rs_maximum_items s \<and>
    set (rp_item_ids plan) \<subseteq> {it_item_id i | i. i \<in> set items \<and> replay_selected s i \<and> transfer_materialization p i False \<noteq> DeniedTransfer}"
proof -
  from assms have "is_ok (device_policy_validate p)"
    and "replay_items p s items \<lparr>rp_item_ids = [], rp_total_bytes = 0, rp_skipped_local_only = 0\<rparr> = Inr plan"
    by (auto simp: plan_selective_replay_def try_then_eq_Inr)
  from replay_items_Inr [OF this] show ?thesis by simp
qed

text \<open>
  A masked sensitive item on a device without its own retention follows a global retention of zero days, which is no
  limit, and so has no deadline at all: the one-day cap lowers a limit and never introduces one.
\<close>

lemma masked_sensitive_kept_forever:
  "effective_retention_deadline_ms sample_device_policy (sample_sync_item True) 0 = Inr None \<and>
   effective_retention_deadline_ms sample_device_policy (sample_sync_item True) 30 = Inr (Some 86400005)"
  by (simp add: effective_retention_deadline_ms_def sample_valid)
    (simp add: sample_device_policy_def sample_sync_item_def min_def saturating_add_def checked_add_def word_le_nat_alt)

text \<open>A proposal that was approved by a device counts this approval also after the device left the allowed approvers.\<close>

lemma stale_approval_counts:
  "\<exists>p q r. proposal_new ''id'' ''hash'' ''author'' 4 = Inr p \<and> proposal_approve p ''ann'' {''ann'', ''bob''} 2 = Inr (q, False) \<and>
     proposal_approve q ''bob'' {''bob'', ''cyd''} 2 = Inr (r, True) \<and> ''ann'' \<in> sp_approvals r"
  by (simp add: proposal_new_def proposal_approve_def all_zero_def checked_add_def MAX_SHARED_APPROVERS_def)

text \<open>Approval takes as many devices as required, none of them the author, and the commit happens on the base revision.\<close>

lemma proposal_approved:
  "proposal_approve p a allowed required = Inr (q, True) \<Longrightarrow> sp_author_device_hash p \<notin> sp_approvals p \<Longrightarrow>
     required \<le> card (sp_approvals q) \<and> sp_author_device_hash q \<notin> sp_approvals q \<and> 0 < required"
  by (auto simp: proposal_approve_def Let_def split: if_splits)

text \<open>The token comparison is equality, and a token is consumed at most once.\<close>

lemma byte_code_inject: "(of_nat (of_char a) :: u8) = of_nat (of_char b) \<longleftrightarrow> a = b"
proof -
  have "unat (of_nat (of_char c) :: u8) = of_char c" for c :: char
    by (simp add: unat_of_nat)
  then show ?thesis by (metis of_char_eq_iff)
qed

lemma byte_xor_zero: "xor a b = 0 \<longleftrightarrow> a = b" for a b :: u8
  by (auto simp: bit_eq_iff bit_simps)

lemma or_fold_zero: "foldl (\<lambda>d (a, b). or d (f a b)) d xs = (0 :: u8) \<longleftrightarrow> d = 0 \<and> (\<forall>(a, b) \<in> set xs. f a b = 0)"
  by (induction xs arbitrary: d) (auto simp: or_eq_0_iff)

lemma qr_bytes_equal_iff: "qr_bytes_equal l r \<longleftrightarrow> l = r"
proof -
  have "(\<forall>(a, b) \<in> set (zip l r). a = b) \<longleftrightarrow> l = r" if "length l = length r"
    using that by (induction l r rule: list_induct2) auto
  then show ?thesis by (auto simp: qr_bytes_equal_def or_fold_zero byte_xor_zero byte_code_inject)
qed

lemma qr_one_shot:
  assumes "qr_issue random h at ttl = Inr t" and "qr_consume unb64 t s now = (t', True)"
  shows "random = unb64 s \<and> at \<le> now \<and> unat now < unat at + unat MAX_QR_TOKEN_TTL_MS \<and> qr_consume unb64 t' s' later = (t', False)"
  using assms unat_checked_add [of at ttl]
  by (auto simp: qr_issue_def qr_consume_def Let_def qr_bytes_equal_iff try_then_eq_Inr or_error_Inr word_le_nat_alt word_less_nat_alt
      split: if_splits option.splits)

text \<open>Travel mode fails closed: what is not a valid mode allows neither synchronization nor sensitive history.\<close>

lemma invalid_travel_closed: "\<not> is_ok (travel_validate t) \<Longrightarrow> \<not> travel_sync_allowed t now \<and> \<not> travel_sensitive_visible t now"
  by (cases "travel_validate t") (simp_all add: travel_sync_allowed_def travel_sensitive_visible_def travel_active_def)

end
