(* ===== verification/Webhook.thy ===== *)
theory Webhook
  imports Replay_Guard Validation
begin

text \<open>
  Signed webhook events and remote paste leases, \<open>crates/vbuff-ipc/src/integration/webhook.rs\<close>
  and \<open>automation/remote.rs\<close>: the signer, the per-endpoint sequence window and the one-shot
  lease window. BLAKE3, HMAC and the JSON of an event or a request are the fields of
  \<open>integration_env\<close>.
\<close>

datatype integration_error = InvalidField | IntegrationExpired | InvalidRecipient

datatype webhook_event_kind = ClipAdded | ClipPinned | ClipDeleted

record webhook_event =
  we_endpoint_hash :: bytes
  we_event_id :: u64
  we_issued_at_ms :: u64
  we_expires_at_ms :: u64
  we_kind :: webhook_event_kind
  we_body_hash :: bytes

record signed_webhook_event =
  sw_event :: webhook_event
  sw_signature :: bytes

record remote_paste_request =
  rp_forwarded_socket :: string
  rp_session_nonce :: string
  rp_clip_id :: string

record remote_paste_lease =
  rl_request_hash :: bytes
  rl_issued_at_ms :: u64
  rl_expires_at_ms :: u64
  rl_proof :: bytes

record integration_env =
  ie_blake3 :: "bytes \<Rightarrow> bytes"
  ie_hmac :: "bytes \<Rightarrow> bytes \<Rightarrow> bytes"
  ie_event_json :: "webhook_event \<Rightarrow> bytes option"
  ie_request_json :: "remote_paste_request \<Rightarrow> bytes option"

definition MAX_WEBHOOK_TTL_MS :: u64 where
  "MAX_WEBHOOK_TTL_MS = 5 * 60 * 1000"

definition MAX_WEBHOOK_BODY_BYTES :: nat where
  "MAX_WEBHOOK_BODY_BYTES = 1024 * 1024"

definition WEBHOOK_DOMAIN :: mac_domain where
  "WEBHOOK_DOMAIN = legacy_unterminated ''vbuff-webhook-v1''"

definition REMOTE_PASTE_DOMAIN :: mac_domain where
  "REMOTE_PASTE_DOMAIN = legacy_unterminated ''vbuff-remote-paste-v1''"

section \<open>The webhook signer\<close>

definition webhook_from_key :: "bytes \<Rightarrow> integration_error + bytes" where
  "webhook_from_key key = (if all_zero key then Inl InvalidField else Inr key)"

definition event_proof :: "integration_env \<Rightarrow> bytes \<Rightarrow> webhook_event \<Rightarrow> integration_error + bytes" where
  "event_proof env key event = (case ie_event_json env event of
     None \<Rightarrow> Inl InvalidField
   | Some payload \<Rightarrow> Inr (hmac_proof (ie_hmac env) WEBHOOK_DOMAIN key [payload]))"

definition webhook_verify :: "integration_env \<Rightarrow> bytes \<Rightarrow> signed_webhook_event \<Rightarrow> integration_error + unit" where
  "webhook_verify env key sev = try_then (event_proof env key (sw_event sev)) (\<lambda>proof.
     if proof = sw_signature sev then Inr () else Inl InvalidField)"

definition webhook_sign ::
  "integration_env \<Rightarrow> bytes \<Rightarrow> string \<Rightarrow> u64 \<Rightarrow> u64 \<Rightarrow> u64 \<Rightarrow> webhook_event_kind \<Rightarrow> bytes \<Rightarrow>
     integration_error + signed_webhook_event" where
  "webhook_sign env key endpoint_id event_id issued ttl kind body =
     (if \<not> is_valid_identifier endpoint_id 128 \<or> event_id = 0 \<or> ttl = 0
         \<or> ttl > MAX_WEBHOOK_TTL_MS \<or> length body > MAX_WEBHOOK_BODY_BYTES
      then Inl InvalidField
      else case checked_add issued ttl of
        None \<Rightarrow> Inl InvalidField
      | Some expires \<Rightarrow>
          (let event = \<lparr>we_endpoint_hash = ie_blake3 env endpoint_id, we_event_id = event_id,
                 we_issued_at_ms = issued, we_expires_at_ms = expires, we_kind = kind,
                 we_body_hash = ie_blake3 env body\<rparr>
           in try_then (event_proof env key event) (\<lambda>signature.
                Inr \<lparr>sw_event = event, sw_signature = signature\<rparr>)))"

section \<open>The webhook sequence window\<close>

type_synonym webhook_window = "(bytes, u64) replay_guard"

definition webhook_window_default :: webhook_window where
  "webhook_window_default = replay_new MAX_REPLAY_ENTRIES"

definition webhook_verify_and_accept ::
  "integration_env \<Rightarrow> webhook_window \<Rightarrow> bytes \<Rightarrow> string \<Rightarrow> signed_webhook_event \<Rightarrow> bytes \<Rightarrow> u64 \<Rightarrow>
     webhook_window \<times> (integration_error + unit)" where
  "webhook_verify_and_accept env w key expected sev body now =
     (case webhook_verify env key sev of
        Inl e \<Rightarrow> (w, Inl e)
      | Inr _ \<Rightarrow>
        (let (w1, now') = advance_to w now; event = sw_event sev in
         if now' \<ge> we_expires_at_ms event then (w1, Inl IntegrationExpired)
         else (let previous = replay_state w1 (we_endpoint_hash event) in
           if \<not> is_valid_identifier expected 128
             \<or> we_endpoint_hash event \<noteq> ie_blake3 env expected
             \<or> now' < we_issued_at_ms event
             \<or> all_zero (we_endpoint_hash event)
             \<or> all_zero (we_body_hash event)
             \<or> we_event_id event = 0
             \<or> we_expires_at_ms event \<le> we_issued_at_ms event
             \<or> we_expires_at_ms event - we_issued_at_ms event > MAX_WEBHOOK_TTL_MS
             \<or> length body > MAX_WEBHOOK_BODY_BYTES
             \<or> we_body_hash event \<noteq> ie_blake3 env body
             \<or> (case previous of None \<Rightarrow> False | Some prev \<Rightarrow> we_event_id event \<le> prev)
           then (w1, Inl InvalidField)
           else case replay_record w1 (we_endpoint_hash event) (we_event_id event)
                       (we_expires_at_ms event) of
             Inl _ \<Rightarrow> (w1, Inl InvalidField)
           | Inr w2 \<Rightarrow> (w2, Inr ()))))"

datatype webhook_op = DeliverWebhook bytes string signed_webhook_event bytes u64

fun webhook_step :: "integration_env \<Rightarrow> webhook_window \<Rightarrow> webhook_op \<Rightarrow> webhook_window" where
  "webhook_step env w (DeliverWebhook key expected sev body now) =
     fst (webhook_verify_and_accept env w key expected sev body now)"

fun webhook_accepts :: "integration_env \<Rightarrow> webhook_window \<Rightarrow> webhook_op \<Rightarrow> webhook_event option" where
  "webhook_accepts env w (DeliverWebhook key expected sev body now) =
     (case snd (webhook_verify_and_accept env w key expected sev body now) of
        Inl _ \<Rightarrow> None | Inr _ \<Rightarrow> Some (sw_event sev))"

definition webhook_spent :: "webhook_event \<Rightarrow> webhook_window \<Rightarrow> bool" where
  "webhook_spent t w =
     covered (we_endpoint_hash t) (\<lambda>prev. we_event_id t \<le> prev) (we_expires_at_ms t) w"

text \<open>Every outcome of a delivery.\<close>

lemma webhook_cases:
  fixes env w key expected sev body now
  defines "g \<equiv> fst (advance_to w now)" and "event \<equiv> sw_event sev"
    and "out \<equiv> webhook_verify_and_accept env w key expected sev body now"
  shows "(\<exists>e. snd out = Inl e \<and> (fst out = w \<or> fst out = g)) \<or>
    (\<exists>g'. snd out = Inr () \<and> fst out = g' \<and>
      replay_record g (we_endpoint_hash event) (we_event_id event) (we_expires_at_ms event) = Inr g' \<and>
      \<not> we_expires_at_ms event \<le> rg_clock_floor_ms g \<and>
      (\<forall>prev. replay_state g (we_endpoint_hash event) = Some prev \<longrightarrow> prev < we_event_id event))"
proof (cases "snd out")
  case (Inl e)
  then show ?thesis
    unfolding out_def g_def
    by (auto simp: webhook_verify_and_accept_def Let_def case_prod_beta
        split: sum.splits if_splits)
next
  case (Inr u)
  then show ?thesis
    unfolding out_def g_def event_def
    by (auto simp: webhook_verify_and_accept_def Let_def case_prod_beta snd_advance_to not_le
        le_max_iff_disj split: sum.splits if_splits option.splits)
qed

text \<open>An acceptance raises the watermark, so an older event stays covered.\<close>

lemma webhook_spent_record:
  assumes "replay_ok w" and "webhook_spent t w"
    and rec: "replay_record (fst (advance_to w now)) h i e = Inr w'"
    and up: "\<And>prev. replay_state (fst (advance_to w now)) h = Some prev \<Longrightarrow> prev < i"
  shows "webhook_spent t w'"
proof -
  let ?g = "fst (advance_to w now)"
  have g: "covered (we_endpoint_hash t) (\<lambda>prev. we_event_id t \<le> prev) (we_expires_at_ms t) ?g"
    using assms(1,2) by (auto simp: webhook_spent_def intro: covered_advance)
  show ?thesis
  proof (cases "we_expires_at_ms t \<le> rg_clock_floor_ms ?g")
    case True
    then show ?thesis
      using replay_record_frame [OF rec] by (simp add: webhook_spent_def covered_def)
  next
    case False
    have "we_event_id t \<le> i" if "h = we_endpoint_hash t"
      using g False up that by (fastforce simp: covered_def replay_state_def)
    then show ?thesis
      unfolding webhook_spent_def by (intro covered_record_other [OF g rec]) auto
  qed
qed

interpretation webhook_machine: machine "webhook_step env" replay_ok for env
proof
  fix w :: webhook_window and op
  assume "replay_ok w"
  moreover obtain key ex s b now where "op = DeliverWebhook key ex s b now"
    by (cases op)
  ultimately show "replay_ok (webhook_step env w op)"
    using webhook_cases [where env = env and w = w and key = key and expected = ex and sev = s
        and body = b and now = now]
    by (auto intro: replay_rules)
qed

interpretation webhook_events:
  one_shot "webhook_step env" replay_ok "webhook_accepts env" webhook_spent for env
proof
  fix w :: webhook_window and op t
  assume ok: "replay_ok w"
  obtain key ex s b now where op: "op = DeliverWebhook key ex s b now"
    by (cases op)
  note cases = webhook_cases [where env = env and w = w and key = key and expected = ex and sev = s
      and body = b and now = now]
  show "webhook_spent t (webhook_step env w op)" if "webhook_spent t w"
    using cases ok that
    by (auto simp: op intro: webhook_spent_record) (auto simp: webhook_spent_def intro: covered_advance)
  show "webhook_accepts env w op \<noteq> Some t" if "webhook_spent t w"
  proof
    assume acc: "webhook_accepts env w op = Some t"
    have "covered (we_endpoint_hash t) (\<lambda>prev. we_event_id t \<le> prev) (we_expires_at_ms t)
        (fst (advance_to w now))"
      using ok that by (auto simp: webhook_spent_def intro: covered_advance)
    with cases acc show False
      by (auto simp: op covered_def replay_state_def split: sum.splits)
  qed
  show "webhook_spent t (webhook_step env w op)" if "webhook_accepts env w op = Some t"
    using cases that by (auto simp: op webhook_spent_def intro: record_covers split: sum.splits)
qed

section \<open>Remote paste leases\<close>

definition valid_forwarded_socket :: "string \<Rightarrow> bool" where
  "valid_forwarded_socket value \<longleftrightarrow>
     value \<noteq> [] \<and> length value \<le> 256 \<and> \<not> contains_sub ''//'' value
     \<and> \<not> list_ex (\<lambda>segment. segment = ''.'' \<or> segment = ''..'') (split_on CHR ''/'' value)
     \<and> list_all (\<lambda>b. is_ascii_alphanumeric b \<or> b \<in> set ''-_./:'') value"

definition remote_request_valid :: "remote_paste_request \<Rightarrow> bool" where
  "remote_request_valid r \<longleftrightarrow> valid_forwarded_socket (rp_forwarded_socket r)
     \<and> is_valid_identifier (rp_session_nonce r) 128 \<and> is_valid_identifier (rp_clip_id r) 128"

definition request_hash :: "integration_env \<Rightarrow> remote_paste_request \<Rightarrow> integration_error + bytes" where
  "request_hash env r = (case ie_request_json env r of
     None \<Rightarrow> Inl InvalidField | Some b \<Rightarrow> Inr (ie_blake3 env b))"

definition remote_proof ::
  "integration_env \<Rightarrow> bytes \<Rightarrow> bytes \<Rightarrow> u64 \<Rightarrow> u64 \<Rightarrow> integration_error + bytes" where
  "remote_proof env key h issued expires =
     (if all_zero key then Inl InvalidField
      else Inr (hmac_proof (ie_hmac env) REMOTE_PASTE_DOMAIN key [h, u64_be issued, u64_be expires]))"

definition lease_bind ::
  "integration_env \<Rightarrow> remote_paste_request \<Rightarrow> bytes \<Rightarrow> u64 \<Rightarrow> u64 \<Rightarrow> integration_error + remote_paste_lease" where
  "lease_bind env request session_key issued ttl =
     (if \<not> remote_request_valid request then Inl InvalidField
      else if all_zero session_key \<or> ttl = 0 \<or> ttl > 60000 then Inl InvalidField
      else case checked_add issued ttl of
        None \<Rightarrow> Inl InvalidField
      | Some expires \<Rightarrow> try_then (request_hash env request) (\<lambda>h.
          try_then (remote_proof env session_key h issued expires) (\<lambda>proof.
            Inr \<lparr>rl_request_hash = h, rl_issued_at_ms = issued, rl_expires_at_ms = expires,
                 rl_proof = proof\<rparr>)))"

type_synonym remote_window = "(bytes, unit) replay_guard"

definition remote_window_default :: remote_window where
  "remote_window_default = replay_new MAX_REPLAY_ENTRIES"

definition remote_verify_and_consume ::
  "integration_env \<Rightarrow> remote_window \<Rightarrow> remote_paste_lease \<Rightarrow> remote_paste_request \<Rightarrow> bytes \<Rightarrow> u64 \<Rightarrow>
     remote_window \<times> (integration_error + unit)" where
  "remote_verify_and_consume env w lease request session_key now =
     (let (w1, now') = advance_to w now in
      if \<not> remote_request_valid request then (w1, Inl InvalidField)
      else if all_zero session_key then (w1, Inl InvalidField)
      else if now' < rl_issued_at_ms lease \<or> now' \<ge> rl_expires_at_ms lease
      then (w1, Inl IntegrationExpired)
      else case request_hash env request of
        Inl e \<Rightarrow> (w1, Inl e)
      | Inr h \<Rightarrow>
          if h \<noteq> rl_request_hash lease \<or> replay_contains w1 h
            \<or> remote_proof env session_key h (rl_issued_at_ms lease) (rl_expires_at_ms lease)
                \<noteq> Inr (rl_proof lease)
          then (w1, Inl InvalidField)
          else case burn w1 h (rl_expires_at_ms lease) of
            Inl _ \<Rightarrow> (w1, Inl InvalidField)
          | Inr w2 \<Rightarrow> (w2, Inr ()))"

datatype remote_op = ConsumeLease remote_paste_lease remote_paste_request bytes u64

fun remote_step :: "integration_env \<Rightarrow> remote_window \<Rightarrow> remote_op \<Rightarrow> remote_window" where
  "remote_step env w (ConsumeLease lease request key now) =
     fst (remote_verify_and_consume env w lease request key now)"

fun remote_accepts :: "integration_env \<Rightarrow> remote_window \<Rightarrow> remote_op \<Rightarrow> remote_paste_lease option" where
  "remote_accepts env w (ConsumeLease lease request key now) =
     (case snd (remote_verify_and_consume env w lease request key now) of
        Inl _ \<Rightarrow> None | Inr _ \<Rightarrow> Some lease)"

definition remote_spent :: "remote_paste_lease \<Rightarrow> remote_window \<Rightarrow> bool" where
  "remote_spent t w = covered (rl_request_hash t) (\<lambda>_. True) (rl_expires_at_ms t) w"

lemma remote_cases:
  fixes env w lease request key now
  defines "g \<equiv> fst (advance_to w now)"
    and "out \<equiv> remote_verify_and_consume env w lease request key now"
  shows "(\<exists>e. snd out = Inl e \<and> fst out = g) \<or>
    (snd out = Inr () \<and>
      replay_record g (rl_request_hash lease) () (rl_expires_at_ms lease) = Inr (fst out) \<and>
      \<not> rl_expires_at_ms lease \<le> rg_clock_floor_ms g \<and> \<not> replay_contains g (rl_request_hash lease))"
  unfolding out_def g_def
  by (auto simp: remote_verify_and_consume_def burn_def Let_def case_prod_beta snd_advance_to not_le
      split: sum.splits if_splits)

interpretation remote_machine: machine "remote_step env" replay_ok for env
proof
  fix w :: remote_window and op
  assume "replay_ok w"
  moreover obtain lease request key now where "op = ConsumeLease lease request key now"
    by (cases op)
  ultimately show "replay_ok (remote_step env w op)"
    using remote_cases [where env = env and w = w and lease = lease and request = request
        and key = key and now = now]
    by (auto intro: replay_rules)
qed

interpretation remote_leases:
  one_shot "remote_step env" replay_ok "remote_accepts env" remote_spent for env
proof
  fix w :: remote_window and op t
  assume ok: "replay_ok w"
  obtain lease request key now where op: "op = ConsumeLease lease request key now"
    by (cases op)
  note cases = remote_cases [where env = env and w = w and lease = lease and request = request
      and key = key and now = now]
  show "remote_spent t (remote_step env w op)" if "remote_spent t w"
    using cases ok that
    by (auto simp: op remote_spent_def intro: covered_advance covered_advance_record)
  show "remote_accepts env w op \<noteq> Some t" if "remote_spent t w"
  proof
    assume acc: "remote_accepts env w op = Some t"
    have "covered (rl_request_hash t) (\<lambda>_. True) (rl_expires_at_ms t) (fst (advance_to w now))"
      using ok that by (auto simp: remote_spent_def intro: covered_advance)
    with cases acc show False
      by (auto simp: op covered_def replay_contains_def bt_contains_def split: sum.splits)
  qed
  show "remote_spent t (remote_step env w op)" if "remote_accepts env w op = Some t"
    using cases that by (auto simp: op remote_spent_def intro: record_covers split: sum.splits)
qed

section \<open>Each event and each lease at most once\<close>

text \<open>
  A webhook receiver that starts from the empty window accepts a signed event at most once,
  for every order of deliveries to any endpoints, with any bodies, keys and clocks: the window
  forgets an endpoint only when everything it accepted there has expired for good.
\<close>

lemma webhook_event_one_shot:
  assumes "w = run (webhook_step env) webhook_window_default before"
    and "webhook_accepts env w op = Some event"
  shows "webhook_accepts env (run (webhook_step env) (webhook_step env w op) after) op' \<noteq> Some event"
proof -
  have "replay_ok w"
    unfolding assms(1) by (rule webhook_machine.inv_run) (simp add: webhook_window_default_def)
  then show ?thesis
    using assms(2) by (rule webhook_events.accepted_at_most_once)
qed

text \<open>
  A remote paste lease is consumed at most once from the empty window on, whatever other
  leases, requests, session keys and clocks are presented.
\<close>

lemma remote_lease_one_shot:
  assumes "w = run (remote_step env) remote_window_default before"
    and "remote_accepts env w op = Some lease"
  shows "remote_accepts env (run (remote_step env) (remote_step env w op) after) op' \<noteq> Some lease"
proof -
  have "replay_ok w"
    unfolding assms(1) by (rule remote_machine.inv_run) (simp add: remote_window_default_def)
  then show ?thesis
    using assms(2) by (rule remote_leases.accepted_at_most_once)
qed

lemma bind_then_consume:
  assumes bind: "lease_bind env request key issued ttl = Inr lease"
    and "max (rg_clock_floor_ms w) now = t" "issued \<le> t" "unat t < unat issued + unat ttl"
    and fresh: "rl_request_hash lease \<notin> fst ` set (rg_entries w)"
    and room: "length (rg_entries w) < rg_capacity w"
  shows "snd (remote_verify_and_consume env w lease request key now) = Inr ()"
proof -
  obtain e h p where e: "checked_add issued ttl = Some e"
    and ok: "remote_request_valid request" "\<not> all_zero key" "request_hash env request = Inr h"
      "remote_proof env key h issued e = Inr p"
    and lease: "lease = \<lparr>rl_request_hash = h, rl_issued_at_ms = issued, rl_expires_at_ms = e,
      rl_proof = p\<rparr>"
    using bind by (auto simp: lease_bind_def result_simps split: if_splits option.splits)
  have "t < e"
    using assms(4) unat_checked_add [OF e] by (simp add: word_less_nat_alt)
  moreover have "map_of (rg_entries (fst (advance_to w now))) h = None"
    using fresh by (auto simp: lease advance_to_def Let_def map_of_eq_None_iff)
  moreover have "length (rg_entries (fst (advance_to w now))) < rg_capacity (fst (advance_to w now))"
    using room by (auto simp: advance_to_def Let_def intro: le_less_trans [OF length_filter_le])
  ultimately show ?thesis
    using assms(2,3) ok
    by (auto simp: lease remote_verify_and_consume_def case_prod_beta snd_advance_to burn_def
        replay_record_def replay_contains_def bt_contains_def not_less not_le)
qed

definition sample_integration_env :: integration_env where
  "sample_integration_env = \<lparr>ie_blake3 = (\<lambda>b. ''h'' @ b), ie_hmac = (\<lambda>k m. k @ m),
     ie_event_json = (\<lambda>e. Some (u64_be (we_event_id e))), ie_request_json = (\<lambda>r. Some (rp_clip_id r))\<rparr>"

definition sample_event :: webhook_event where
  "sample_event = \<lparr>we_endpoint_hash = ''hdesk'', we_event_id = 4, we_issued_at_ms = 10,
     we_expires_at_ms = 60, we_kind = ClipAdded, we_body_hash = ''hbody''\<rparr>"

definition sample_delivery :: "u64 \<Rightarrow> webhook_op" where
  "sample_delivery now = DeliverWebhook ''k'' ''desk''
     \<lparr>sw_event = sample_event, sw_signature = ''kvbuff-webhook-v1'' @ u64_be 4\<rparr> ''body'' now"

lemma sample_delivery_accepted:
  "webhook_accepts sample_integration_env webhook_window_default (sample_delivery 20) = Some sample_event"
  by (simp add: sample_integration_env_def sample_event_def sample_delivery_def
      webhook_verify_and_accept_def webhook_verify_def event_proof_def hmac_proof_def mac_preimage_def
      WEBHOOK_DOMAIN_def legacy_unterminated_def webhook_window_default_def advance_to_def replay_new_def
      replay_state_def replay_record_def is_valid_identifier_def is_valid_identifier_with_extra_def
      is_ascii_alphanumeric_def all_zero_def MAX_WEBHOOK_TTL_MS_def MAX_WEBHOOK_BODY_BYTES_def
      MAX_REPLAY_ENTRIES_def Let_def)

lemma webhook_event_one_shot_witness:
  "webhook_accepts sample_integration_env webhook_window_default (sample_delivery 20) = Some sample_event \<and>
   webhook_accepts sample_integration_env
     (run (webhook_step sample_integration_env)
       (webhook_step sample_integration_env webhook_window_default (sample_delivery 20)) [sample_delivery 80])
     (sample_delivery 30) \<noteq> Some sample_event"
  by (rule conjI [OF sample_delivery_accepted
      webhook_event_one_shot [OF run.simps(1) [symmetric] sample_delivery_accepted]])

definition sample_request :: remote_paste_request where
  "sample_request = \<lparr>rp_forwarded_socket = ''tmp/a'', rp_session_nonce = ''n'', rp_clip_id = ''c''\<rparr>"

definition sample_lease :: remote_paste_lease where
  "sample_lease = \<lparr>rl_request_hash = ''hc'', rl_issued_at_ms = 10, rl_expires_at_ms = 60,
     rl_proof = ''kvbuff-remote-paste-v1hc'' @ u64_be 10 @ u64_be 60\<rparr>"

lemma sample_bind: "lease_bind sample_integration_env sample_request ''k'' 10 50 = Inr sample_lease"
  by (simp add: lease_bind_def sample_request_def sample_integration_env_def sample_lease_def
      remote_request_valid_def valid_forwarded_socket_def starts_with_def is_valid_identifier_def
      is_valid_identifier_with_extra_def is_ascii_alphanumeric_def all_zero_def checked_add_def
      request_hash_def remote_proof_def hmac_proof_def mac_preimage_def REMOTE_PASTE_DOMAIN_def
      legacy_unterminated_def Let_def)

lemma sample_lease_accepted:
  "remote_accepts sample_integration_env remote_window_default
     (ConsumeLease sample_lease sample_request ''k'' 20) = Some sample_lease"
proof -
  have "snd (remote_verify_and_consume sample_integration_env remote_window_default sample_lease
      sample_request ''k'' 20) = Inr ()"
    by (rule bind_then_consume [OF sample_bind, where t = 20])
      (simp_all add: remote_window_default_def replay_new_def MAX_REPLAY_ENTRIES_def)
  then show ?thesis by simp
qed

lemma remote_lease_one_shot_witness:
  "remote_accepts sample_integration_env remote_window_default
     (ConsumeLease sample_lease sample_request ''k'' 20) = Some sample_lease \<and>
   remote_accepts sample_integration_env
     (run (remote_step sample_integration_env)
       (remote_step sample_integration_env remote_window_default
         (ConsumeLease sample_lease sample_request ''k'' 20)) [])
     (ConsumeLease sample_lease sample_request ''k'' 21) \<noteq> Some sample_lease"
  by (rule conjI [OF sample_lease_accepted
      remote_lease_one_shot [OF run.simps(1) [symmetric] sample_lease_accepted]])

end
