(* ===== verification/Editor_Text.thy ===== *)
theory Editor_Text
  imports Webhook Validation Text_Format
begin

text \<open>
  Text for an editor, \<open>crates/vbuff-ipc/src/integration/editor.rs\<close>: metadata and paste contexts, Markdown fences around a
  clip, the fence taken off again for a code target, and the indentation of its lines.
\<close>

definition MAX_EDITOR_INPUT_BYTES :: nat where "MAX_EDITOR_INPUT_BYTES = 1024 * 1024"
definition MAX_EDITOR_OUTPUT_BYTES :: nat where "MAX_EDITOR_OUTPUT_BYTES = 2 * 1024 * 1024"

datatype editor_target_kind = CodeTarget | MarkdownTarget | CommentTarget | TerminalTarget | PlainTextTarget

record editor_capture_metadata =
  ec_language :: "string option"
  ec_file_path :: "string option"
  ec_repository :: "string option"
  ec_branch :: "string option"

record editor_paste_context =
  ep_target :: editor_target_kind
  ep_language :: "string option"
  ep_indentation_width :: u8
  ep_use_tabs :: bool

definition optional_ok :: "('a \<Rightarrow> bool) \<Rightarrow> 'a option \<Rightarrow> bool" where
  "optional_ok P x \<longleftrightarrow> (case x of None \<Rightarrow> True | Some v \<Rightarrow> P v)"

definition language_ok :: "string \<Rightarrow> bool" where
  "language_ok l \<longleftrightarrow> is_valid_identifier_with_extra l 64 ''+#''"

definition editor_metadata_validate :: "editor_capture_metadata \<Rightarrow> integration_error + unit" where
  "editor_metadata_validate m = require (optional_ok language_ok (ec_language m) \<and> optional_ok (\<lambda>p. is_valid_label p 4096) (ec_file_path m)
     \<and> optional_ok (\<lambda>r. is_valid_label r 256) (ec_repository m) \<and> optional_ok (\<lambda>b. is_valid_label b 256) (ec_branch m)) InvalidField"

definition paste_context_validate :: "editor_paste_context \<Rightarrow> integration_error + unit" where
  "paste_context_validate c = require (1 \<le> ep_indentation_width c \<and> ep_indentation_width c \<le> 16 \<and> optional_ok language_ok (ep_language c)) InvalidField"

section \<open>String operations of the standard library\<close>

fun find_sub :: "string \<Rightarrow> string \<Rightarrow> nat option" where
  "find_sub p [] = (if p = [] then Some 0 else None)"
| "find_sub p (b # bs) = (if starts_with p (b # bs) then Some 0 else map_option Suc (find_sub p bs))"

definition strip_suffix :: "string \<Rightarrow> string \<Rightarrow> string option" where
  "strip_suffix p s = (if ends_with p s then Some (take (length s - length p) s) else None)"

text \<open>\<open>str::split\<close> on a non-empty text.\<close>

fun split_str :: "string \<Rightarrow> string \<Rightarrow> string list" where
  "split_str p [] = [[]]"
| "split_str p (b # bs) = (if starts_with p (b # bs) then [] # split_str p (drop (length p - 1) bs)
     else case split_str p bs of [] \<Rightarrow> [[b]] | l # ls \<Rightarrow> (b # l) # ls)"

section \<open>Fences\<close>

abbreviation (input) fence3 :: string where "fence3 \<equiv> replicate 3 (CHR ''`'')"

definition is_markdown_fenced :: "string \<Rightarrow> bool" where
  "is_markdown_fenced input \<longleftrightarrow> starts_with fence3 (trim_start input) \<and> ends_with fence3 (trim_end input)"

definition strip_markdown_fence :: "string \<Rightarrow> string \<Rightarrow> string option" where
  "strip_markdown_fence input newline = (case find_sub newline input of None \<Rightarrow> None | Some first_end \<Rightarrow>
     if \<not> starts_with fence3 (trim_start (take first_end input)) then None
     else strip_suffix (newline @ fence3) (drop (first_end + length newline) input))"

definition run_step :: "char \<Rightarrow> nat \<times> nat \<Rightarrow> nat \<times> nat" where
  "run_step b s = (if b = CHR ''`'' then (max (fst s) (snd s + 1), snd s + 1) else (fst s, 0))"

definition longest_run :: "string \<Rightarrow> nat" where
  "longest_run input = fst (fold run_step input (0, 0))"

definition markdown_fence :: "string \<Rightarrow> string" where
  "markdown_fence input = replicate (max (longest_run input + 1) 3) (CHR ''`'')"

section \<open>Adapting a text\<close>

definition line_newline :: "string \<Rightarrow> string" where
  "line_newline input = (if contains_sub [CHR 0x0D, CHR 0x0A] input then [CHR 0x0D, CHR 0x0A] else [CHR 0x0A])"

definition is_blank :: "char \<Rightarrow> bool" where
  "is_blank c \<longleftrightarrow> c = CHR '' '' \<or> c = CHR 0x09"

definition leading_blanks :: "string \<Rightarrow> nat" where
  "leading_blanks line = length (takeWhile is_blank line)"

text \<open>The smallest indentation of a line that is not blank, 0 without one.\<close>

definition common_indent :: "string list \<Rightarrow> nat" where
  "common_indent ls = (case filter (\<lambda>l. trim l \<noteq> []) ls of [] \<Rightarrow> 0 | l # rest \<Rightarrow> fold (\<lambda>x m. min (leading_blanks x) m) rest (leading_blanks l))"

definition indent_prefix :: "editor_paste_context \<Rightarrow> u8 \<Rightarrow> string" where
  "indent_prefix c levels = (if ep_use_tabs c then replicate (unat levels) (CHR 0x09)
     else replicate (unat levels * unat (ep_indentation_width c)) (CHR '' ''))"

text \<open>The bytes of the line from its \<open>common\<close>th character on.\<close>

definition line_content :: "nat \<Rightarrow> string \<Rightarrow> string" where
  "line_content common line = (if trim line = [] then [] else concat (drop common (utf8_split line)))"

fun adjust_lines :: "string \<Rightarrow> string \<Rightarrow> nat \<Rightarrow> bool \<Rightarrow> string \<Rightarrow> string list \<Rightarrow> integration_error + string" where
  "adjust_lines newline prefix common first adjusted [] = Inr adjusted"
| "adjust_lines newline prefix common first adjusted (line # rest) =
     (let content = line_content common line;
          added = (if first then 0 else length newline) + (if content = [] then 0 else length prefix) + length content in
      if length adjusted + added > MAX_EDITOR_OUTPUT_BYTES then Inl InvalidField
      else adjust_lines newline prefix common False
        (adjusted @ (if first then [] else newline) @ (if content = [] then [] else prefix @ content)) rest)"

definition fence_markdown :: "string \<Rightarrow> editor_paste_context \<Rightarrow> string \<Rightarrow> integration_error + string" where
  "fence_markdown newline c body =
     (let language = (case ep_language c of None \<Rightarrow> [] | Some l \<Rightarrow> l); fence = markdown_fence body in
      if length body + length language + length fence * 2 + length newline * 2 > MAX_EDITOR_OUTPUT_BYTES then Inl InvalidField
      else Inr (fence @ language @ newline @ body @ newline @ fence))"

definition adapt_text_for_editor :: "string \<Rightarrow> editor_paste_context \<Rightarrow> u8 \<Rightarrow> integration_error + string" where
  "adapt_text_for_editor input c levels =
     try_then (require (length input \<le> MAX_EDITOR_INPUT_BYTES \<and> CHR 0x00 \<notin> set input \<and> levels \<le> 64) InvalidField) (\<lambda>_.
     try_then (paste_context_validate c) (\<lambda>_.
     let newline = line_newline input;
         body = (if ep_target c = CodeTarget then (case strip_markdown_fence input newline of None \<Rightarrow> input | Some b \<Rightarrow> b) else input) in
     if ep_target c = MarkdownTarget \<and> \<not> is_markdown_fenced body then fence_markdown newline c body
     else if ep_target c \<notin> {CodeTarget, CommentTarget} then Inr body
     else adjust_lines newline (indent_prefix c levels) (common_indent (split_str newline body)) True [] (split_str newline body)))"

section \<open>Runs of backticks\<close>













section \<open>The fence of a text\<close>











section \<open>The lines of a code target\<close>

fun join_lines :: "string \<Rightarrow> string list \<Rightarrow> string" where
  "join_lines newline [] = []"
| "join_lines newline [l] = l"
| "join_lines newline (l # ls) = l @ newline @ join_lines newline ls"

lemma join_lines_Cons: "ls \<noteq> [] \<Longrightarrow> join_lines newline (l # ls) = l @ newline @ join_lines newline ls"
  by (cases ls) auto

lemma split_str_nonempty [simp]: "split_str p s \<noteq> []"
  by (induction p s rule: split_str.induct) (auto split: list.split)

lemma join_split_str: "p \<noteq> [] \<Longrightarrow> join_lines p (split_str p s) = s"
proof (induction p s rule: split_str.induct)
  case (2 p b bs)
  show ?case
  proof (cases "starts_with p (b # bs)")
    case True
    then have "p @ drop (length p - 1) bs = b # bs"
      using 2(3) by (cases p) (auto simp: starts_with_def, metis append_take_drop_id)
    with True 2 show ?thesis by (simp add: join_lines_Cons)
  next
    case False
    obtain l ls where ls: "split_str p bs = l # ls" by (cases "split_str p bs") auto
    with False 2 have "join_lines p (l # ls) = bs" by simp
    with False ls show ?thesis by (cases ls) auto
  qed
qed simp

text \<open>What becomes of a line.\<close>

definition reindented :: "string \<Rightarrow> nat \<Rightarrow> string \<Rightarrow> string" where
  "reindented prefix common line = (if trim line = [] then [] else prefix @ drop common line)"

lemma blank_ascii: "is_blank c \<Longrightarrow> (of_char c :: nat) < 128"
  unfolding is_blank_def by (elim disjE) simp_all

lemma blank_whitespace: "is_blank c \<Longrightarrow> is_whitespace (decode_scalar [c])"
  unfolding is_blank_def by (elim disjE) (simp_all add: is_whitespace_def)

lemma take_within_takeWhile: "n \<le> length (takeWhile P xs) \<Longrightarrow> c \<in> set (take n xs) \<Longrightarrow> P c"
proof (induction xs arbitrary: n)
  case (Cons x xs)
  then show ?case by (cases n) (auto split: if_splits)
qed simp

lemma line_content_drop:
  assumes "common \<le> leading_blanks line" and "trim line \<noteq> []"
  shows "line_content common line = drop common line"
proof -
  let ?p = "take common line"
  have ascii: "\<forall>c \<in> set ?p. (of_char c :: nat) < 128"
    using take_within_takeWhile [of common is_blank line] assms(1) blank_ascii by (simp add: leading_blanks_def)
  have "length ?p = common"
    using assms(1) length_takeWhile_le [of is_blank line] by (simp add: leading_blanks_def)
  with utf8_split_ascii [OF ascii, of "drop common line"] show ?thesis
    using assms(2) by (simp add: line_content_def)
qed

lemma fold_min_le_start: "fold (\<lambda>x m. min (f x) m) xs (a :: nat) \<le> a"
proof (induction xs arbitrary: a)
  case (Cons x xs)
  have "fold (\<lambda>x m. min (f x) m) xs (min (f x) a) \<le> min (f x) a" by (rule Cons.IH)
  then show ?case by simp
qed simp

lemma fold_min_le: "x \<in> set xs \<Longrightarrow> fold (\<lambda>x m. min (f x) m) xs (a :: nat) \<le> f x"
proof (induction xs arbitrary: a)
  case (Cons y ys)
  have "fold (\<lambda>x m. min (f x) m) ys (min (f y) a) \<le> f y"
    using fold_min_le_start [of f ys "min (f y) a"] by simp
  with Cons show ?case by (cases "x = y") auto
qed simp

lemma common_indent_le: "l \<in> set ls \<Longrightarrow> trim l \<noteq> [] \<Longrightarrow> common_indent ls \<le> leading_blanks l"
proof -
  assume "l \<in> set ls" "trim l \<noteq> []"
  then have "l \<in> set (filter (\<lambda>l. trim l \<noteq> []) ls)" by simp
  then show ?thesis
    unfolding common_indent_def
    by (cases "filter (\<lambda>l. trim l \<noteq> []) ls") (auto intro: fold_min_le fold_min_le_start)
qed

lemma adjust_lines_join:
  "adjust_lines nl prefix common first acc ls = Inr out \<Longrightarrow> (\<And>l. l \<in> set ls \<Longrightarrow> trim l \<noteq> [] \<Longrightarrow> common \<le> leading_blanks l) \<Longrightarrow>
     (\<And>l. l \<in> set ls \<Longrightarrow> trim l \<noteq> [] \<Longrightarrow> drop common l \<noteq> []) \<Longrightarrow>
     out = acc @ (if first \<or> ls = [] then [] else nl) @ join_lines nl (map (reindented prefix common) ls)"
proof (induction ls arbitrary: first acc)
  case (Cons l ls)
  have content: "(if line_content common l = [] then [] else prefix @ line_content common l) = reindented prefix common l"
    using Cons.prems(2,3) [of l] by (auto simp: reindented_def line_content_drop) (simp add: line_content_def)
  from Cons.prems(1) have "adjust_lines nl prefix common False (acc @ (if first then [] else nl) @ reindented prefix common l) ls = Inr out"
    by (simp add: Let_def content del: append.simps split: if_splits)
  from Cons.IH [OF this] Cons.prems(2,3) show ?case
    by (cases ls) auto
qed simp

lemma trim_blank: "\<forall>c \<in> set l. is_blank c \<Longrightarrow> trim l = []"
proof -
  assume blank: "\<forall>c \<in> set l. is_blank c"
  then have "\<forall>c \<in> set l. (of_char c :: nat) < 128" using blank_ascii by blast
  from utf8_split_ascii [OF this, of "[]"] have "utf8_split l = map (\<lambda>c. [c]) l" by simp
  moreover have "dropWhile (is_whitespace \<circ> decode_scalar) (map (\<lambda>c. [c]) l) = []"
    unfolding dropWhile_eq_Nil_conv using blank blank_whitespace by auto
  ultimately show ?thesis unfolding trim_def by (simp only: rev.simps dropWhile.simps concat.simps)
qed

lemma drop_common_nonempty: "common \<le> leading_blanks l \<Longrightarrow> trim l \<noteq> [] \<Longrightarrow> drop common l \<noteq> []"
  using take_within_takeWhile [of "length l" is_blank l] trim_blank [of l] by (auto simp: leading_blanks_def)

text \<open>
  Text for a code or a comment target keeps its lines and their relative indentation: the smallest indentation of the lines
  that are not blank is taken off every one of them and the prefix of the cursor is put in front; blank lines are emptied.
\<close>

lemma code_reindents:
  assumes "adapt_text_for_editor input c levels = Inr out" and "ep_target c \<in> {CodeTarget, CommentTarget}"
  obtains body where "body = input \<or> strip_markdown_fence input (line_newline input) = Some body"
    and "out = join_lines (line_newline input) (map (reindented (indent_prefix c levels) (common_indent (split_str (line_newline input) body)))
      (split_str (line_newline input) body))"
proof -
  let ?nl = "line_newline input"
  define body where "body = (if ep_target c = CodeTarget then (case strip_markdown_fence input ?nl of None \<Rightarrow> input | Some b \<Rightarrow> b) else input)"
  let ?ls = "split_str ?nl body"
  have "adjust_lines ?nl (indent_prefix c levels) (common_indent ?ls) True [] ?ls = Inr out"
    using assms by (auto simp: adapt_text_for_editor_def try_then_eq_Inr Let_def body_def)
  from adjust_lines_join [OF this] have "out = join_lines ?nl (map (reindented (indent_prefix c levels) (common_indent ?ls)) ?ls)"
    using common_indent_le drop_common_nonempty by simp
  moreover have "body = input \<or> strip_markdown_fence input ?nl = Some body"
    by (auto simp: body_def split: option.splits)
  ultimately show thesis using that by blast
qed

end
