(* ===== verification/Callback.thy ===== *)
theory Callback
  imports Replay_Guard Validation
begin

text \<open>
  One-shot tokens of x-callback automation, \<open>crates/vbuff-ipc/src/callback.rs\<close>: the issuer
  with its replay window, the token framing \<open>v1.payload.signature\<close> and the claims. Base64url,
  HMAC, BLAKE3 and the JSON codecs are the fields of \<open>callback_env\<close>; randomness is the nonce
  argument of \<open>callback_issue\<close>. Parsing of callback URIs (crate \<open>url\<close>) is not modelled.
\<close>

datatype transform_action = Base64Encode | Base64Decode | Trim | PlainText

record callback_target =
  ct_action :: transform_action
  ct_success_url :: string
  ct_error_url :: "string option"

record callback_claims =
  cc_nonce :: bytes
  cc_target_hash :: bytes
  cc_issued_at_ms :: u64
  cc_expires_at_ms :: u64

datatype callback_error = InvalidUri | DuplicateParameter | UnsupportedAction | UnsafeCallback
  | InvalidToken | InvalidSignature | CallbackExpired | TargetMismatch | Replayed
  | CallbackReplayWindowFull | InvalidTtl | Randomness

record callback_env =
  cb_b64_encode :: "bytes \<Rightarrow> string"
  cb_b64_decode :: "string \<Rightarrow> bytes option"
  cb_hmac :: "bytes \<Rightarrow> bytes \<Rightarrow> bytes"
  cb_blake3 :: "bytes \<Rightarrow> bytes"
  cb_target_json :: "callback_target \<Rightarrow> bytes option"
  cb_claims_json :: "callback_claims \<Rightarrow> bytes option"
  cb_claims_of_json :: "bytes \<Rightarrow> callback_claims option"

record callback_issuer =
  ci_key :: bytes
  ci_replay :: "(bytes, unit) replay_guard"

definition MAX_CALLBACK_TOKEN_BYTES :: nat where
  "MAX_CALLBACK_TOKEN_BYTES = 2 * 1024"

definition MAX_CALLBACK_TTL_MS :: u64 where
  "MAX_CALLBACK_TTL_MS = 10 * 60 * 1000"

text \<open>\<open>MacDomain::legacy_ascii_separated("vbuff-x-callback-v1", b'.')\<close>, a constant.\<close>

definition CALLBACK_DOMAIN :: mac_domain where
  "CALLBACK_DOMAIN = \<lparr>md_label = ''vbuff-x-callback-v1'', md_separator = Ascii CHR ''.''\<rparr>"

definition transform_action_parse :: "string \<Rightarrow> callback_error + transform_action" where
  "transform_action_parse value =
     (if value = ''base64_encode'' \<or> value = ''base64'' then Inr Base64Encode
      else if value = ''base64_decode'' then Inr Base64Decode
      else if value = ''trim'' then Inr Trim
      else if value = ''plain_text'' then Inr PlainText
      else Inl UnsupportedAction)"

definition callback_from_key :: "bytes \<Rightarrow> callback_issuer" where
  "callback_from_key key = \<lparr>ci_key = key, ci_replay = replay_new MAX_REPLAY_ENTRIES\<rparr>"

definition binding_hash :: "callback_env \<Rightarrow> callback_target \<Rightarrow> callback_error + bytes" where
  "binding_hash env target = (case cb_target_json env target of
     None \<Rightarrow> Inl InvalidToken | Some b \<Rightarrow> Inr (cb_blake3 env b))"

definition callback_token_proof :: "callback_env \<Rightarrow> bytes \<Rightarrow> string \<Rightarrow> bytes" where
  "callback_token_proof env key payload = hmac_proof (cb_hmac env) CALLBACK_DOMAIN key [payload]"

definition callback_encode :: "callback_env \<Rightarrow> bytes \<Rightarrow> callback_claims \<Rightarrow> callback_error + string" where
  "callback_encode env key claims = (case cb_claims_json env claims of
     None \<Rightarrow> Inl InvalidToken
   | Some json \<Rightarrow> (let payload = cb_b64_encode env json;
         signature = cb_b64_encode env (callback_token_proof env key payload)
       in Inr (''v1.'' @ payload @ ''.'' @ signature)))"

definition callback_decode :: "callback_env \<Rightarrow> bytes \<Rightarrow> string \<Rightarrow> callback_error + callback_claims" where
  "callback_decode env key token =
     (if length token > MAX_CALLBACK_TOKEN_BYTES then Inl InvalidToken
      else case split_on CHR ''.'' token of
        [version, payload, signature64] \<Rightarrow>
          if version \<noteq> ''v1'' then Inl InvalidToken
          else (case cb_b64_decode env signature64 of
            None \<Rightarrow> Inl InvalidToken
          | Some signature \<Rightarrow>
              if callback_token_proof env key payload \<noteq> signature then Inl InvalidSignature
              else (case cb_b64_decode env payload of
                None \<Rightarrow> Inl InvalidToken
              | Some json \<Rightarrow> (case cb_claims_of_json env json of
                  None \<Rightarrow> Inl InvalidToken | Some claims \<Rightarrow> Inr claims)))
      | _ \<Rightarrow> Inl InvalidToken)"

text \<open>\<open>nonce = None\<close> is the failure of the random source.\<close>

definition callback_issue ::
  "callback_env \<Rightarrow> callback_issuer \<Rightarrow> bytes option \<Rightarrow> callback_target \<Rightarrow> u64 \<Rightarrow> u64 \<Rightarrow> callback_error + string" where
  "callback_issue env i nonce target issued ttl =
     (if ttl = 0 \<or> ttl > MAX_CALLBACK_TTL_MS then Inl InvalidTtl
      else case nonce of
        None \<Rightarrow> Inl Randomness
      | Some n \<Rightarrow> try_then (binding_hash env target) (\<lambda>th.
          case checked_add issued ttl of
            None \<Rightarrow> Inl InvalidTtl
          | Some expires \<Rightarrow> callback_encode env (ci_key i)
              \<lparr>cc_nonce = n, cc_target_hash = th, cc_issued_at_ms = issued, cc_expires_at_ms = expires\<rparr>))"

definition callback_verify_and_consume ::
  "callback_env \<Rightarrow> callback_issuer \<Rightarrow> string \<Rightarrow> callback_target \<Rightarrow> u64 \<Rightarrow>
     callback_issuer \<times> (callback_error + unit)" where
  "callback_verify_and_consume env i token target now =
     (let (replay, now') = advance_to (ci_replay i) now;
          i1 = i\<lparr>ci_replay := replay\<rparr>
      in case callback_decode env (ci_key i) token of
        Inl e \<Rightarrow> (i1, Inl e)
      | Inr claims \<Rightarrow>
          if now' < cc_issued_at_ms claims \<or> now' \<ge> cc_expires_at_ms claims
          then (i1, Inl CallbackExpired)
          else case binding_hash env target of
            Inl e \<Rightarrow> (i1, Inl e)
          | Inr th \<Rightarrow>
              if cc_target_hash claims \<noteq> th then (i1, Inl TargetMismatch)
              else if replay_contains replay (cc_nonce claims) then (i1, Inl Replayed)
              else case burn replay (cc_nonce claims) (cc_expires_at_ms claims) of
                Inl _ \<Rightarrow> (i1, Inl CallbackReplayWindowFull)
              | Inr replay' \<Rightarrow> (i1\<lparr>ci_replay := replay'\<rparr>, Inr ()))"

section \<open>The issuer as a one-shot machine\<close>

datatype callback_op = VerifyCallback string callback_target u64

fun callback_step :: "callback_env \<Rightarrow> callback_issuer \<Rightarrow> callback_op \<Rightarrow> callback_issuer" where
  "callback_step env i (VerifyCallback token target now) =
     fst (callback_verify_and_consume env i token target now)"

fun callback_accepts :: "callback_env \<Rightarrow> callback_issuer \<Rightarrow> callback_op \<Rightarrow> string option" where
  "callback_accepts env i (VerifyCallback token target now) =
     (case snd (callback_verify_and_consume env i token target now) of
        Inl _ \<Rightarrow> None | Inr _ \<Rightarrow> Some token)"

definition callback_ok :: "callback_issuer \<Rightarrow> bool" where
  "callback_ok i \<longleftrightarrow> replay_ok (ci_replay i)"

definition callback_spent :: "callback_env \<Rightarrow> string \<Rightarrow> callback_issuer \<Rightarrow> bool" where
  "callback_spent env token i \<longleftrightarrow> (\<exists>c. callback_decode env (ci_key i) token = Inr c \<and>
     covered (cc_nonce c) (\<lambda>_. True) (cc_expires_at_ms c) (ci_replay i))"

lemma callback_verify_cases:
  fixes env i token target now
  defines "g \<equiv> fst (advance_to (ci_replay i) now)"
    and "out \<equiv> callback_verify_and_consume env i token target now"
  shows "(\<exists>e. snd out = Inl e \<and> fst out = i\<lparr>ci_replay := g\<rparr>) \<or>
    (\<exists>c g'. snd out = Inr () \<and> callback_decode env (ci_key i) token = Inr c \<and>
      replay_record g (cc_nonce c) () (cc_expires_at_ms c) = Inr g' \<and>
      fst out = i\<lparr>ci_replay := g'\<rparr> \<and>
      \<not> cc_expires_at_ms c \<le> rg_clock_floor_ms g \<and> \<not> replay_contains g (cc_nonce c))"
  unfolding out_def g_def
  by (auto simp: callback_verify_and_consume_def burn_def Let_def case_prod_beta snd_advance_to
      not_le split: sum.splits)

interpretation callback_machine: machine "callback_step env" callback_ok for env
proof
  fix i op
  assume "callback_ok i"
  moreover obtain token target now where "op = VerifyCallback token target now"
    by (cases op)
  ultimately show "callback_ok (callback_step env i op)"
    using callback_verify_cases [where env = env and i = i and token = token
        and target = target and now = now]
    by (auto simp: callback_ok_def intro: replay_rules)
qed

interpretation callback_tokens:
  one_shot "callback_step env" callback_ok "callback_accepts env" "callback_spent env" for env
proof
  fix i op t
  assume ok: "callback_ok i"
  obtain token target now where op: "op = VerifyCallback token target now"
    by (cases op)
  note cases = callback_verify_cases [where env = env and i = i and token = token
      and target = target and now = now]
  show "callback_spent env t (callback_step env i op)" if "callback_spent env t i"
    using cases ok that 
    by (auto simp: op callback_ok_def callback_spent_def intro: covered_advance covered_advance_record)
  show "callback_accepts env i op \<noteq> Some t" if "callback_spent env t i"
  proof
    assume acc: "callback_accepts env i op = Some t"
    obtain c where c: "callback_decode env (ci_key i) t = Inr c"
      "covered (cc_nonce c) (\<lambda>_. True) (cc_expires_at_ms c) (ci_replay i)"
      using \<open>callback_spent env t i\<close> by (auto simp: callback_spent_def)
    with ok have "covered (cc_nonce c) (\<lambda>_. True) (cc_expires_at_ms c) (fst (advance_to (ci_replay i) now))"
      by (auto simp: callback_ok_def intro: replay_rules)
    with cases acc c(1) show False
      by (auto simp: op covered_def replay_contains_def bt_contains_def split: sum.splits)
  qed
  show "callback_spent env t (callback_step env i op)" if "callback_accepts env i op = Some t"
    using cases that by (auto simp: op callback_spent_def intro: record_covers split: sum.splits)
qed

text \<open>
  A callback token runs at most one action: once the issuer has accepted a token, it accepts
  that token string no more, for any target, any clock and any traffic in between.
\<close>

lemma callback_token_one_shot:
  assumes "i = run (callback_step env) (callback_from_key key) before"
    and "callback_accepts env i op = Some token"
  shows "callback_accepts env (run (callback_step env) (callback_step env i op) after) op' \<noteq> Some token"
proof -
  have "callback_ok i"
    unfolding assms(1)
    by (rule callback_machine.inv_run) (simp add: callback_ok_def callback_from_key_def)
  then show ?thesis
    using assms(2) by (rule callback_tokens.accepted_at_most_once)
qed

section \<open>An issued token is accepted\<close>

lemma split_on_token:
  "CHR ''.'' \<notin> set p \<Longrightarrow> CHR ''.'' \<notin> set s \<Longrightarrow>
     split_on CHR ''.'' (''v1.'' @ p @ ''.'' @ s) = [''v1'', p, s]"
  using split_on_append [of "CHR ''.''" p s] by (simp add: split_on_no_sep)

lemma callback_decode_encode:
  assumes "callback_encode env key claims = Inr token" and "length token \<le> MAX_CALLBACK_TOKEN_BYTES"
    and b64: "\<And>b. cb_b64_decode env (cb_b64_encode env b) = Some b"
      "\<And>b. CHR ''.'' \<notin> set (cb_b64_encode env b)"
    and json: "\<And>c b. cb_claims_json env c = Some b \<Longrightarrow> cb_claims_of_json env b = Some c"
  shows "callback_decode env key token = Inr claims"
  using assms(1,2)
  by (auto simp: callback_encode_def callback_decode_def Let_def split_on_token b64 json [of claims]
      split: option.splits simp del: split_on.simps append.simps)

text \<open>
  A token that \<open>issue\<close> returns is accepted for its target at every clock in its lifetime by
  an issuer that has not burnt its nonce and whose window is not full, provided base64url and
  JSON decode what they encoded and base64url output has no dot.
\<close>

lemma callback_issue_verifies:
  assumes issue: "callback_issue env i (Some nonce) target issued ttl = Inr token"
    and size: "length token \<le> MAX_CALLBACK_TOKEN_BYTES"
    and b64: "\<And>b. cb_b64_decode env (cb_b64_encode env b) = Some b"
      "\<And>b. CHR ''.'' \<notin> set (cb_b64_encode env b)"
    and json: "\<And>c b. cb_claims_json env c = Some b \<Longrightarrow> cb_claims_of_json env b = Some c"
    and clock: "rg_clock_floor_ms (ci_replay i) \<le> now" "issued \<le> now" "unat now < unat issued + unat ttl"
    and fresh: "\<not> replay_contains (ci_replay i) nonce"
    and room: "replay_len (ci_replay i) < rg_capacity (ci_replay i)"
  shows "snd (callback_verify_and_consume env i token target now) = Inr ()"
proof -
  obtain th expires where th: "binding_hash env target = Inr th"
    and expires: "checked_add issued ttl = Some expires"
    and enc: "callback_encode env (ci_key i) \<lparr>cc_nonce = nonce, cc_target_hash = th,
        cc_issued_at_ms = issued, cc_expires_at_ms = expires\<rparr> = Inr token"
    using issue by (auto simp: callback_issue_def result_simps split: if_splits option.splits)
  note dec = callback_decode_encode [OF enc size b64 json]
  have "now < expires"
    using clock(3) unat_checked_add [OF expires] by (simp add: word_less_nat_alt)
  moreover have "map_of (rg_entries (ci_replay i)) nonce = None"
    using fresh by (simp add: replay_contains_def bt_contains_def)
  then have "nonce \<notin> fst ` set (rg_entries (ci_replay i))"
    by (simp add: map_of_eq_None_iff)
  then have "map_of (rg_entries (fst (advance_to (ci_replay i) now))) nonce = None"
    by (auto simp: advance_to_def Let_def map_of_eq_None_iff)
  moreover have "length (rg_entries (fst (advance_to (ci_replay i) now))) < rg_capacity (ci_replay i)"
    using room by (auto simp: advance_to_def Let_def replay_len_def intro: le_less_trans [OF length_filter_le])
  moreover have "rg_capacity (fst (advance_to (ci_replay i) now)) = rg_capacity (ci_replay i)"
    by (simp add: advance_to_def Let_def)
  ultimately show ?thesis
    using clock(1,2) th dec
    by (auto simp: callback_verify_and_consume_def case_prod_beta snd_advance_to burn_def
        replay_record_def replay_contains_def bt_contains_def Let_def max_def not_le not_less)
qed

section \<open>Witnesses\<close>

text \<open>
  A concrete environment: base64url is played by an escape-free alphabet of the bytes a and b
  (each byte of the input becomes eight), JSON by the claims of one sample token.
\<close>

definition sample_claims :: callback_claims where
  "sample_claims = \<lparr>cc_nonce = ''n'', cc_target_hash = ''h'', cc_issued_at_ms = 5, cc_expires_at_ms = 65\<rparr>"

definition undot :: "bytes \<Rightarrow> string" where
  "undot b = concat (map (\<lambda>c. if c = CHR ''.'' then ''-e'' else if c = CHR ''-'' then ''--'' else [c]) b)"

fun redot :: "string \<Rightarrow> bytes" where
  "redot [] = []"
| "redot (c # s) = (if c = CHR ''-'' then (case s of
       [] \<Rightarrow> [] | d # r \<Rightarrow> (if d = CHR ''e'' then CHR ''.'' else CHR ''-'') # redot r)
     else c # redot s)"

lemma redot_undot: "redot (undot b) = b"
  by (induction b) (auto simp: undot_def)

lemma undot_no_dot: "CHR ''.'' \<notin> set (undot b)"
  by (auto simp: undot_def split: if_splits)

definition sample_callback_env :: callback_env where
  "sample_callback_env = \<lparr>cb_b64_encode = undot, cb_b64_decode = (\<lambda>s. Some (redot s)),
     cb_hmac = (\<lambda>k m. ''t''), cb_blake3 = (\<lambda>_. ''h''), cb_target_json = (\<lambda>_. Some ''{}''),
     cb_claims_json = (\<lambda>c. if c = sample_claims then Some ''c'' else None),
     cb_claims_of_json = (\<lambda>_. Some sample_claims)\<rparr>"

definition sample_target :: callback_target where
  "sample_target = \<lparr>ct_action = Trim, ct_success_url = ''https://a'', ct_error_url = None\<rparr>"

lemmas callback_eval = callback_from_key_def sample_callback_env_def sample_target_def
  sample_claims_def callback_issue_def callback_encode_def callback_decode_def binding_hash_def
  callback_token_proof_def hmac_proof_def undot_def checked_add_def MAX_CALLBACK_TTL_MS_def
  MAX_CALLBACK_TOKEN_BYTES_def replay_new_def replay_contains_def bt_contains_def replay_len_def
  MAX_REPLAY_ENTRIES_def callback_verify_and_consume_def advance_to_def burn_def replay_record_def
  Let_def

lemma sample_issued:
  "callback_issue sample_callback_env (callback_from_key ''k'') (Some ''n'') sample_target 5 60
     = Inr ''v1.c.t''"
  by (simp add: callback_eval)

lemma callback_issue_verifies_witness:
  "callback_issue sample_callback_env (callback_from_key ''k'') (Some ''n'') sample_target 5 60
     = Inr ''v1.c.t'' \<and>
   snd (callback_verify_and_consume sample_callback_env (callback_from_key ''k'') ''v1.c.t''
     sample_target 64) = Inr ()"
proof (rule conjI [OF sample_issued callback_issue_verifies [OF sample_issued]])
  show "cb_b64_decode sample_callback_env (cb_b64_encode sample_callback_env b) = Some b" for b
    by (simp add: sample_callback_env_def redot_undot)
  show "CHR ''.'' \<notin> set (cb_b64_encode sample_callback_env b)" for b
    by (simp add: sample_callback_env_def undot_no_dot)
  show "cb_claims_of_json sample_callback_env b = Some c"
    if "cb_claims_json sample_callback_env c = Some b" for b c
    using that by (auto simp: sample_callback_env_def split: if_splits)
qed (simp_all add: callback_eval)

lemma sample_callback_accepted:
  "callback_accepts sample_callback_env (callback_from_key ''k'')
     (VerifyCallback ''v1.c.t'' sample_target 64) = Some ''v1.c.t''"
  by (simp add: callback_eval)

lemma callback_token_one_shot_witness:
  "callback_accepts sample_callback_env (callback_from_key ''k'')
     (VerifyCallback ''v1.c.t'' sample_target 64) = Some ''v1.c.t'' \<and>
   callback_accepts sample_callback_env
     (run (callback_step sample_callback_env)
       (callback_step sample_callback_env (callback_from_key ''k'')
         (VerifyCallback ''v1.c.t'' sample_target 64))
       [VerifyCallback ''v1.c.t'' sample_target 90])
     (VerifyCallback ''v1.c.t'' sample_target 10) \<noteq> Some ''v1.c.t''"
  by (rule conjI [OF sample_callback_accepted
      callback_token_one_shot [OF run.simps(1) [symmetric] sample_callback_accepted]])

end
