(* ===== verification/Ipc_Access.thy ===== *)
theory Ipc_Access
  imports Webhook Callback Clip_Types Validation
begin

text \<open>
  Access of local clients and AI sessions: \<open>crates/vbuff-ipc/src/integration/access.rs\<close> (filters over clips, the MCP read
  policy and its session lease) and \<open>crates/vbuff-ipc/src/api_token.rs\<close> (the local API tokens). HMAC, BLAKE3, base64 and
  the JSON codecs are the fields of \<open>access_env\<close>; randomness is an argument, \<open>None\<close> when the system has none.
\<close>

section \<open>Filters and the read policy\<close>

definition MAX_ACCESS_LABELS :: nat where "MAX_ACCESS_LABELS = 256"
definition MAX_TAG_BYTES :: nat where "MAX_TAG_BYTES = 128"
definition MAX_COLLECTION_BYTES :: nat where "MAX_COLLECTION_BYTES = 256"
definition MAX_MCP_LEASE_TTL_MS :: u64 where "MAX_MCP_LEASE_TTL_MS = 60 * 60 * 1000"
definition MCP_LEASE_DOMAIN :: mac_domain where "MCP_LEASE_DOMAIN = legacy_unterminated ''vbuff-mcp-lease-v1''"

record clip_access_context =
  ax_kind :: content_kind
  ax_tags :: "string set"
  ax_collection :: "string option"
  ax_sensitive :: bool
  ax_concealed :: bool
  ax_sync_eligible :: bool

record clip_access_filter =
  af_kinds :: "content_kind set"
  af_tags :: "string set"
  af_collections :: "string set"

definition access_filter_default :: clip_access_filter where
  "access_filter_default = \<lparr>af_kinds = {}, af_tags = {}, af_collections = {}\<rparr>"

definition access_filter_validate :: "clip_access_filter \<Rightarrow> integration_error + unit" where
  "access_filter_validate f = require (card (af_tags f) \<le> MAX_ACCESS_LABELS \<and> card (af_collections f) \<le> MAX_ACCESS_LABELS \<and>
     (\<forall>t \<in> af_tags f. is_valid_label t MAX_TAG_BYTES) \<and> (\<forall>c \<in> af_collections f. is_valid_label c MAX_COLLECTION_BYTES)) InvalidField"

definition valid_context :: "clip_access_context \<Rightarrow> bool" where
  "valid_context x \<longleftrightarrow> card (ax_tags x) \<le> MAX_ACCESS_LABELS \<and> (\<forall>t \<in> ax_tags x. is_valid_label t MAX_TAG_BYTES) \<and>
     (case ax_collection x of None \<Rightarrow> True | Some c \<Rightarrow> is_valid_label c MAX_COLLECTION_BYTES)"

definition filter_allows :: "clip_access_filter \<Rightarrow> clip_access_context \<Rightarrow> bool" where
  "filter_allows f x =
     (if \<not> is_ok (access_filter_validate f) \<or> \<not> valid_context x \<or> ax_sensitive x \<or> ax_concealed x \<or> \<not> ax_sync_eligible x then False
      else let kind_allowed = af_kinds f \<noteq> {} \<and> ax_kind x \<in> af_kinds f;
               tag_allowed = af_tags f \<noteq> {} \<and> (\<exists>t \<in> af_tags f. t \<in> ax_tags x);
               collection_allowed = af_collections f \<noteq> {} \<and>
                 (case ax_collection x of None \<Rightarrow> False | Some c \<Rightarrow> c \<in> af_collections f) in
        kind_allowed \<and> (tag_allowed \<or> collection_allowed))"

record mcp_read_policy =
  mp_required_tag :: string
  mp_read_only :: bool
  mp_maximum_results :: u16

definition mcp_policy_default :: mcp_read_policy where
  "mcp_policy_default = \<lparr>mp_required_tag = ''AI-shareable'', mp_read_only = True, mp_maximum_results = 20\<rparr>"

definition mcp_policy_validate :: "mcp_read_policy \<Rightarrow> integration_error + unit" where
  "mcp_policy_validate p = require (mp_read_only p \<and> is_valid_label (mp_required_tag p) MAX_TAG_BYTES \<and>
     1 \<le> mp_maximum_results p \<and> mp_maximum_results p \<le> 100) InvalidField"

definition mcp_policy_allows :: "mcp_read_policy \<Rightarrow> clip_access_context \<Rightarrow> bool" where
  "mcp_policy_allows p x \<longleftrightarrow> is_ok (mcp_policy_validate p) \<and> valid_context x \<and> mp_required_tag p \<in> ax_tags x \<and>
     \<not> ax_sensitive x \<and> \<not> ax_concealed x \<and> ax_sync_eligible x"

section \<open>Session leases\<close>

datatype api_scope = ReadHistoryScope | ReadSensitiveHistoryScope | WriteHistoryScope | SubscribeEventsScope | RunTransformsScope
  | DiagnosticsScope

record api_token_claims =
  tk_token_id :: bytes
  tk_scopes :: "api_scope set"
  tk_issued_at_ms :: u64
  tk_expires_at_ms :: u64
  tk_filter :: clip_access_filter

record access_env =
  ae_hmac :: "bytes \<Rightarrow> bytes \<Rightarrow> bytes"
  ae_blake3 :: "bytes \<Rightarrow> bytes"
  ae_policy_json :: "mcp_read_policy \<Rightarrow> bytes option"
  ae_b64_encode :: "bytes \<Rightarrow> string"
  ae_b64_decode :: "string \<Rightarrow> bytes option"
  ae_claims_json :: "api_token_claims \<Rightarrow> bytes option"
  ae_claims_of_json :: "bytes \<Rightarrow> api_token_claims option"

record mcp_session_lease =
  ml_session_id :: bytes
  ml_issued_at_ms :: u64
  ml_expires_at_ms :: u64
  ml_policy_hash :: bytes
  ml_user_consented :: bool
  ml_proof :: bytes

definition policy_hash :: "access_env \<Rightarrow> mcp_read_policy \<Rightarrow> integration_error + bytes" where
  "policy_hash env p = try_then (mcp_policy_validate p) (\<lambda>_.
     case ae_policy_json env p of None \<Rightarrow> Inl InvalidField | Some b \<Rightarrow> Inr (ae_blake3 env b))"

definition lease_parts :: "mcp_session_lease \<Rightarrow> bytes list" where
  "lease_parts l = [ml_session_id l, u64_be (ml_issued_at_ms l), u64_be (ml_expires_at_ms l), ml_policy_hash l,
     [if ml_user_consented l then CHR 0x01 else CHR 0x00]]"

definition lease_proof :: "access_env \<Rightarrow> mcp_session_lease \<Rightarrow> bytes \<Rightarrow> integration_error + bytes" where
  "lease_proof env l key = (if all_zero key then Inl InvalidField
     else Inr (hmac_proof (ae_hmac env) MCP_LEASE_DOMAIN key (lease_parts l)))"

definition lease_issue ::
  "access_env \<Rightarrow> mcp_read_policy \<Rightarrow> bytes \<Rightarrow> bytes option \<Rightarrow> u64 \<Rightarrow> u64 \<Rightarrow> bool \<Rightarrow> integration_error + mcp_session_lease" where
  "lease_issue env p key random issued ttl consented =
     try_then (mcp_policy_validate p) (\<lambda>_.
     try_then (require (\<not> all_zero key \<and> consented \<and> ttl \<noteq> 0 \<and> ttl \<le> MAX_MCP_LEASE_TTL_MS) InvalidField) (\<lambda>_.
     case random of None \<Rightarrow> Inl InvalidField | Some session_id \<Rightarrow>
     try_then (policy_hash env p) (\<lambda>ph.
     case checked_add issued ttl of None \<Rightarrow> Inl InvalidField | Some expires \<Rightarrow>
     let lease = \<lparr>ml_session_id = session_id, ml_issued_at_ms = issued, ml_expires_at_ms = expires, ml_policy_hash = ph,
       ml_user_consented = consented, ml_proof = replicate 32 (CHR 0x00)\<rparr> in
     try_then (lease_proof env lease key) (\<lambda>proof. Inr (lease\<lparr>ml_proof := proof\<rparr>)))))"

definition lease_allows :: "access_env \<Rightarrow> mcp_session_lease \<Rightarrow> mcp_read_policy \<Rightarrow> clip_access_context \<Rightarrow> bytes \<Rightarrow> u64 \<Rightarrow> bool" where
  "lease_allows env l p x key now \<longleftrightarrow> ml_user_consented l \<and> ml_issued_at_ms l \<le> now \<and> now < ml_expires_at_ms l \<and>
     policy_hash env p = Inr (ml_policy_hash l) \<and> lease_proof env l key = Inr (ml_proof l) \<and> mcp_policy_allows p x"

section \<open>API tokens\<close>

datatype api_token_error = TokenRandomness | EmptyScopes | TokenInvalid | TokenInvalidSignature | TokenExpired | TokenNotYetValid
  | TtlTooLong | MissingScope

definition API_TOKEN_DOMAIN :: mac_domain where
  "API_TOKEN_DOMAIN = \<lparr>md_label = ''vbuff-local-api-v1'', md_separator = Ascii CHR ''.''\<rparr>"

definition MAX_TOKEN_BYTES :: nat where "MAX_TOKEN_BYTES = 2048"
definition MAX_TOKEN_TTL_MS :: u64 where "MAX_TOKEN_TTL_MS = 30 * 24 * 60 * 60 * 1000"

definition token_proof :: "access_env \<Rightarrow> bytes \<Rightarrow> string \<Rightarrow> bytes" where
  "token_proof env key payload = hmac_proof (ae_hmac env) API_TOKEN_DOMAIN key [payload]"

definition token_encode :: "access_env \<Rightarrow> bytes \<Rightarrow> api_token_claims \<Rightarrow> api_token_error + string" where
  "token_encode env key c = (case ae_claims_json env c of None \<Rightarrow> Inl TokenInvalid | Some json \<Rightarrow>
     let payload = ae_b64_encode env json in
     Inr (''v1.'' @ payload @ ''.'' @ ae_b64_encode env (token_proof env key payload)))"

definition token_issue_filtered ::
  "access_env \<Rightarrow> bytes \<Rightarrow> bytes option \<Rightarrow> api_scope set \<Rightarrow> clip_access_filter \<Rightarrow> u64 \<Rightarrow> u64 \<Rightarrow> api_token_error + string" where
  "token_issue_filtered env key random scopes f issued ttl =
     try_then (require (scopes \<noteq> {}) EmptyScopes) (\<lambda>_.
     try_then (require (ttl \<noteq> 0 \<and> ttl \<le> MAX_TOKEN_TTL_MS) TtlTooLong) (\<lambda>_.
     case random of None \<Rightarrow> Inl TokenRandomness | Some token_id \<Rightarrow>
     (case checked_add issued ttl of None \<Rightarrow> Inl TtlTooLong | Some expires \<Rightarrow>
       token_encode env key \<lparr>tk_token_id = token_id, tk_scopes = scopes, tk_issued_at_ms = issued, tk_expires_at_ms = expires,
         tk_filter = f\<rparr>)))"

definition token_issue ::
  "access_env \<Rightarrow> bytes \<Rightarrow> bytes option \<Rightarrow> api_scope set \<Rightarrow> u64 \<Rightarrow> u64 \<Rightarrow> api_token_error + string" where
  "token_issue env key random scopes issued ttl = token_issue_filtered env key random scopes access_filter_default issued ttl"

definition check_claims :: "api_token_claims \<Rightarrow> api_scope \<Rightarrow> u64 \<Rightarrow> api_token_error + api_token_claims" where
  "check_claims c scope now =
     (if tk_expires_at_ms c < tk_issued_at_ms c then Inl TokenInvalid
      else let lifetime = tk_expires_at_ms c - tk_issued_at_ms c in
        if lifetime = 0 then Inl TokenInvalid
        else if MAX_TOKEN_TTL_MS < lifetime then Inl TtlTooLong
        else if now < tk_issued_at_ms c then Inl TokenNotYetValid
        else if tk_expires_at_ms c \<le> now then Inl TokenExpired
        else if scope \<notin> tk_scopes c then Inl MissingScope else Inr c)"

text \<open>\<open>split('.')\<close> has exactly three parts, or the token is refused.\<close>

definition token_verify :: "access_env \<Rightarrow> bytes \<Rightarrow> string \<Rightarrow> api_scope \<Rightarrow> u64 \<Rightarrow> api_token_error + api_token_claims" where
  "token_verify env key token scope now =
     (if MAX_TOKEN_BYTES < length token then Inl TokenInvalid
      else case split_on CHR ''.'' token of
        [version, payload, signature] \<Rightarrow>
          if version \<noteq> ''v1'' \<or> MAX_TOKEN_BYTES < length payload \<or> 128 < length signature then Inl TokenInvalid
          else (case ae_b64_decode env signature of None \<Rightarrow> Inl TokenInvalid | Some tag \<Rightarrow>
            if token_proof env key payload \<noteq> tag then Inl TokenInvalidSignature
            else (case ae_b64_decode env payload of None \<Rightarrow> Inl TokenInvalid | Some json \<Rightarrow>
              (case ae_claims_of_json env json of None \<Rightarrow> Inl TokenInvalid | Some c \<Rightarrow> check_claims c scope now)))
      | _ \<Rightarrow> Inl TokenInvalid)"

section \<open>A lease opens exactly what the user consented to\<close>

lemma lease_preimage_inject:
  assumes "mac_preimage MCP_LEASE_DOMAIN (lease_parts l) = mac_preimage MCP_LEASE_DOMAIN (lease_parts m)"
    and "length (ml_session_id l) = 16" "length (ml_session_id m) = 16"
    and "length (ml_policy_hash l) = 32" "length (ml_policy_hash m) = 32"
  shows "ml_session_id l = ml_session_id m \<and> ml_issued_at_ms l = ml_issued_at_ms m \<and> ml_expires_at_ms l = ml_expires_at_ms m \<and>
    ml_policy_hash l = ml_policy_hash m \<and> ml_user_consented l = ml_user_consented m"
  using assms by (auto simp: mac_preimage_def lease_parts_def append_eq_append_conv split: if_splits)

lemma mcp_policy_validate_Inr:
  "policy_hash env p = Inr h \<Longrightarrow> mcp_policy_validate p = Inr ()"
  by (auto simp: policy_hash_def result_simps)

lemma lease_issue_Inr:
  assumes "lease_issue env p key random issued ttl consented = Inr l"
  obtains sid expires ph where "random = Some sid" and "checked_add issued ttl = Some expires" and "policy_hash env p = Inr ph"
    and "consented" and "ttl \<noteq> 0" and "ttl \<le> MAX_MCP_LEASE_TTL_MS" and "\<not> all_zero key"
    and "l = \<lparr>ml_session_id = sid, ml_issued_at_ms = issued, ml_expires_at_ms = expires, ml_policy_hash = ph, ml_user_consented = True,
      ml_proof = hmac_proof (ae_hmac env) MCP_LEASE_DOMAIN key (lease_parts l)\<rparr>"
  using assms
  by (auto simp: lease_issue_def try_then_eq_Inr require_Inr lease_proof_def Let_def lease_parts_def split: option.splits)

text \<open>
  C36. A session lease opens exactly what the user consented to. A lease whose proof is that of an issued lease, however its
  other fields were edited, allows a clip under a policy if and only if it is the issued lease, the policy is the one it was
  issued for, the time is within the lifetime of at most one hour, and the clip carries the required tag and is neither
  sensitive nor concealed nor excluded from sync. It rests on the two MAC inputs and the two policy hashes not colliding.
\<close>

theorem mcp_lease_exact:
  assumes "lease_issue env p key (Some sid) issued ttl consented = Inr l"
    and "length sid = 16" and "length (ml_session_id l') = 16" and "length (ml_policy_hash l) = 32" and "length (ml_policy_hash l') = 32"
    and "ml_proof l' = ml_proof l"
    and "hmac_proof (ae_hmac env) MCP_LEASE_DOMAIN key (lease_parts l') = hmac_proof (ae_hmac env) MCP_LEASE_DOMAIN key (lease_parts l) \<Longrightarrow>
      mac_preimage MCP_LEASE_DOMAIN (lease_parts l') = mac_preimage MCP_LEASE_DOMAIN (lease_parts l)"
    and "policy_hash env p' = policy_hash env p \<Longrightarrow> p' = p"
  shows "(lease_allows env l' p' x key now \<longleftrightarrow> l' = l \<and> p' = p \<and> unat issued \<le> unat now \<and> unat now < unat issued + unat ttl \<and>
      valid_context x \<and> mp_required_tag p \<in> ax_tags x \<and> \<not> ax_sensitive x \<and> \<not> ax_concealed x \<and> ax_sync_eligible x) \<and>
    unat ttl \<le> 60 * 60 * 1000 \<and> consented"
proof -
  obtain expires ph where l: "checked_add issued ttl = Some expires" "policy_hash env p = Inr ph" "consented"
      "ttl \<le> MAX_MCP_LEASE_TTL_MS" "\<not> all_zero key"
      "l = \<lparr>ml_session_id = sid, ml_issued_at_ms = issued, ml_expires_at_ms = expires, ml_policy_hash = ph, ml_user_consented = True,
        ml_proof = hmac_proof (ae_hmac env) MCP_LEASE_DOMAIN key (lease_parts l)\<rparr>"
    using assms(1) by (elim lease_issue_Inr) auto
  have fields: "ml_session_id l = sid" "ml_issued_at_ms l = issued" "ml_expires_at_ms l = expires" "ml_policy_hash l = ph"
      "ml_user_consented l" "ml_proof l = hmac_proof (ae_hmac env) MCP_LEASE_DOMAIN key (lease_parts l)"
    using arg_cong[OF l(6), of ml_session_id] arg_cong[OF l(6), of ml_issued_at_ms] arg_cong[OF l(6), of ml_expires_at_ms]
      arg_cong[OF l(6), of ml_policy_hash] arg_cong[OF l(6), of ml_user_consented] arg_cong[OF l(6), of ml_proof]
    by simp_all
  have same: "l' = l" if "lease_proof env l' key = Inr (ml_proof l')"
  proof -
    have "mac_preimage MCP_LEASE_DOMAIN (lease_parts l') = mac_preimage MCP_LEASE_DOMAIN (lease_parts l)"
      using that assms(6) fields(6) l(5) by (intro assms(7)) (simp add: lease_proof_def)
    from lease_preimage_inject[OF this] show ?thesis
      using assms(2-6) fields(1) by (intro mcp_session_lease.equality) auto
  qed
  have expires: "unat expires = unat issued + unat ttl"
    using l(1) by (rule unat_checked_add)
  have "lease_allows env l p x key now \<longleftrightarrow> unat issued \<le> unat now \<and> unat now < unat issued + unat ttl \<and>
      valid_context x \<and> mp_required_tag p \<in> ax_tags x \<and> \<not> ax_sensitive x \<and> \<not> ax_concealed x \<and> ax_sync_eligible x"
    using l(2,5) fields expires mcp_policy_validate_Inr[OF l(2)]
    by (auto simp: lease_allows_def lease_proof_def mcp_policy_allows_def word_le_nat_alt word_less_nat_alt)
  moreover have "lease_allows env l' p' x key now \<Longrightarrow> l' = l \<and> p' = p"
    using same assms(8) l(2) fields(4) by (auto simp: lease_allows_def)
  moreover have "unat ttl \<le> 60 * 60 * 1000"
    using l(4) by (simp add: MAX_MCP_LEASE_TTL_MS_def word_le_nat_alt)
  ultimately show ?thesis
    using l(3) by blast
qed

section \<open>Issued tokens\<close>

definition base64_ok :: "access_env \<Rightarrow> bool" where
  "base64_ok env \<longleftrightarrow> (\<forall>b. ae_b64_decode env (ae_b64_encode env b) = Some b \<and> CHR ''.'' \<notin> set (ae_b64_encode env b))"

lemma token_issue_Inr:
  "token_issue_filtered env key random scopes f issued ttl = Inr token \<longleftrightarrow>
     (\<exists>tid expires. scopes \<noteq> {} \<and> ttl \<noteq> 0 \<and> ttl \<le> MAX_TOKEN_TTL_MS \<and> random = Some tid \<and> checked_add issued ttl = Some expires \<and>
        token_encode env key \<lparr>tk_token_id = tid, tk_scopes = scopes, tk_issued_at_ms = issued, tk_expires_at_ms = expires,
          tk_filter = f\<rparr> = Inr token)"
  by (auto simp: token_issue_filtered_def try_then_eq_Inr require_Inr split: option.splits)

text \<open>
  C37. What becomes of an issued API token. Where base64 and the JSON codec read back what they wrote, a token is accepted
  exactly from the time of issue until its lifetime of at most thirty days ends, for exactly the scopes and with exactly the
  filter it was issued for, and the refusals are told apart in that order. But a token longer than 2,048 bytes is never
  accepted, and issuing does not refuse to produce one: the labels of a filter are not bounded when the token is issued.
\<close>

theorem issued_token_outcome:
  assumes "token_issue_filtered env key (Some tid) scopes f issued ttl = Inr token"
    and "base64_ok env" and "\<And>payload. length (ae_b64_encode env (token_proof env key payload)) \<le> 128"
    and "\<And>c json. ae_claims_json env c = Some json \<Longrightarrow> ae_claims_of_json env json = Some c"
  shows "\<exists>expires. unat expires = unat issued + unat ttl \<and> unat ttl \<le> 30 * 24 * 60 * 60 * 1000 \<and>
    token_verify env key token scope now =
      (if 2048 < length token then Inl TokenInvalid
       else if unat now < unat issued then Inl TokenNotYetValid
       else if unat issued + unat ttl \<le> unat now then Inl TokenExpired
       else if scope \<notin> scopes then Inl MissingScope
       else Inr \<lparr>tk_token_id = tid, tk_scopes = scopes, tk_issued_at_ms = issued, tk_expires_at_ms = expires, tk_filter = f\<rparr>)"
proof -
  obtain expires where issue: "ttl \<noteq> 0" "ttl \<le> MAX_TOKEN_TTL_MS" "checked_add issued ttl = Some expires"
    and enc: "token_encode env key \<lparr>tk_token_id = tid, tk_scopes = scopes, tk_issued_at_ms = issued, tk_expires_at_ms = expires,
      tk_filter = f\<rparr> = Inr token"
    using assms(1) by (auto simp: token_issue_Inr)
  define c where "c = \<lparr>tk_token_id = tid, tk_scopes = scopes, tk_issued_at_ms = issued, tk_expires_at_ms = expires, tk_filter = f\<rparr>"
  obtain json where json: "ae_claims_json env c = Some json" "token = ''v1.'' @ ae_b64_encode env json @ ''.'' @
      ae_b64_encode env (token_proof env key (ae_b64_encode env json))"
    using enc by (auto simp: token_encode_def c_def Let_def split: option.splits)
  define payload where "payload = ae_b64_encode env json"
  define tag where "tag = ae_b64_encode env (token_proof env key payload)"
  have framing: "token = ''v1.'' @ payload @ ''.'' @ tag"
    using json(2) by (simp add: payload_def tag_def)
  have decoded: "ae_claims_of_json env json = Some c"
    using assms(4)[OF json(1)] .
  have b64: "ae_b64_decode env payload = Some json" "ae_b64_decode env tag = Some (token_proof env key payload)"
      "CHR ''.'' \<notin> set payload" "CHR ''.'' \<notin> set tag"
    using assms(2) by (simp_all add: base64_ok_def payload_def tag_def)
  have signed: "length tag \<le> 128"
    using assms(3) by (simp add: tag_def payload_def)
  have expires: "unat expires = unat issued + unat ttl"
    using issue(3) by (rule unat_checked_add)
  have "0 < unat ttl"
    using issue(1) by (simp add: unat_gt_0)
  with expires have "issued < expires"
    by (simp add: word_less_nat_alt)
  moreover have "expires = issued + ttl"
    using issue(3) by (simp add: checked_add_def split: if_splits)
  then have "expires - issued = ttl" by simp
  ultimately have claims: "check_claims c scope now = (if unat now < unat issued then Inl TokenNotYetValid
       else if unat issued + unat ttl \<le> unat now then Inl TokenExpired
       else if scope \<notin> scopes then Inl MissingScope else Inr c)"
    using issue(1,2) expires by (simp add: check_claims_def c_def Let_def not_less word_less_nat_alt word_le_nat_alt)
  have "token_verify env key token scope now = (if 2048 < length token then Inl TokenInvalid else check_claims c scope now)"
  proof (cases "2048 < length token")
    case False
    then have "length payload \<le> MAX_TOKEN_BYTES" by (simp add: framing MAX_TOKEN_BYTES_def)
    with False signed b64 decoded show ?thesis
      by (simp add: token_verify_def MAX_TOKEN_BYTES_def framing split_on_token[OF b64(3,4), simplified])
  qed (simp add: token_verify_def MAX_TOKEN_BYTES_def)
  with claims expires issue(2) show ?thesis
    by (auto simp: c_def MAX_TOKEN_TTL_MS_def word_le_nat_alt)
qed

section \<open>Witnesses\<close>

definition sample_api_claims :: api_token_claims where
  "sample_api_claims = \<lparr>tk_token_id = ''i'', tk_scopes = {ReadHistoryScope}, tk_issued_at_ms = 5, tk_expires_at_ms = 65,
     tk_filter = access_filter_default\<rparr>"

text \<open>Policies are serialised as nothing, claims as one letter; the MAC is the message itself for leases and a letter for tokens.\<close>

definition sample_access_env :: access_env where
  "sample_access_env = \<lparr>ae_hmac = \<lambda>k m. if length k = 1 then ''t'' else m, ae_blake3 = \<lambda>_. replicate 32 (CHR ''h''),
     ae_policy_json = \<lambda>_. Some [], ae_b64_encode = undot, ae_b64_decode = \<lambda>s. Some (redot s),
     ae_claims_json = \<lambda>c. if c = sample_api_claims then Some ''c'' else None, ae_claims_of_json = \<lambda>_. Some sample_api_claims\<rparr>"

definition sample_lease_key :: bytes where "sample_lease_key = replicate 32 (CHR ''k'')"

definition sample_lease :: mcp_session_lease where
  "sample_lease = (let l = \<lparr>ml_session_id = replicate 16 (CHR ''s''), ml_issued_at_ms = 100, ml_expires_at_ms = 1100,
       ml_policy_hash = replicate 32 (CHR ''h''), ml_user_consented = True, ml_proof = []\<rparr> in
     l\<lparr>ml_proof := hmac_proof (ae_hmac sample_access_env) MCP_LEASE_DOMAIN sample_lease_key (lease_parts l)\<rparr>)"

definition sample_context :: clip_access_context where
  "sample_context = \<lparr>ax_kind = TextKind, ax_tags = {''AI-shareable''}, ax_collection = None, ax_sensitive = False,
     ax_concealed = False, ax_sync_eligible = True\<rparr>"

lemma sample_label: "is_valid_label ''AI-shareable'' 128"
  by (simp add: is_valid_label_def has_control_ascii)

lemma sample_lease_issued:
  "lease_issue sample_access_env mcp_policy_default sample_lease_key (Some (replicate 16 (CHR ''s''))) 100 1000 True = Inr sample_lease"
  by (simp add: lease_issue_def mcp_policy_validate_def mcp_policy_default_def sample_label MAX_TAG_BYTES_def policy_hash_def
      sample_access_env_def checked_add_def lease_proof_def sample_lease_def Let_def sample_lease_key_def all_zero_def
      MAX_MCP_LEASE_TTL_MS_def lease_parts_def word_le_nat_alt
      list_all_iff)

theorem mcp_lease_exact_witness:
  "lease_allows sample_access_env sample_lease mcp_policy_default sample_context sample_lease_key 500 \<and>
   \<not> lease_allows sample_access_env (sample_lease\<lparr>ml_expires_at_ms := 9000\<rparr>) mcp_policy_default sample_context sample_lease_key 500"
proof -
  have mac: "hmac_proof (ae_hmac sample_access_env) MCP_LEASE_DOMAIN sample_lease_key parts = mac_preimage MCP_LEASE_DOMAIN parts" for parts
    by (simp add: hmac_proof_def sample_access_env_def sample_lease_key_def)
  have sizes: "length (ml_session_id sample_lease) = 16" "length (ml_policy_hash sample_lease) = 32"
    by (simp_all add: sample_lease_def Let_def)
  have fits: "valid_context sample_context" "mp_required_tag mcp_policy_default \<in> ax_tags sample_context"
    by (simp_all add: valid_context_def sample_context_def sample_label MAX_TAG_BYTES_def MAX_ACCESS_LABELS_def mcp_policy_default_def)
  have "lease_allows sample_access_env sample_lease mcp_policy_default sample_context sample_lease_key 500"
    using mcp_lease_exact[OF sample_lease_issued _ sizes(1) sizes(2) sizes(2) refl, of mcp_policy_default sample_context 500] fits
    by (simp add: sample_context_def)
  moreover have "sample_lease\<lparr>ml_expires_at_ms := 9000\<rparr> \<noteq> sample_lease"
    by (simp add: sample_lease_def Let_def)
  then have "\<not> lease_allows sample_access_env (sample_lease\<lparr>ml_expires_at_ms := 9000\<rparr>) mcp_policy_default sample_context sample_lease_key 500"
    using mcp_lease_exact[OF sample_lease_issued, of "sample_lease\<lparr>ml_expires_at_ms := 9000\<rparr>" mcp_policy_default sample_context 500] sizes
    by (simp add: mac)
  ultimately show ?thesis by blast
qed

lemma sample_token_issued:
  "token_issue_filtered sample_access_env ''k'' (Some ''i'') {ReadHistoryScope} access_filter_default 5 60 = Inr ''v1.c.t''"
  by (simp add: token_issue_filtered_def token_encode_def sample_access_env_def sample_api_claims_def checked_add_def
      token_proof_def hmac_proof_def undot_def MAX_TOKEN_TTL_MS_def)

theorem issued_token_outcome_witness:
  "token_verify sample_access_env ''k'' ''v1.c.t'' ReadHistoryScope 64 = Inr sample_api_claims \<and>
   token_verify sample_access_env ''k'' ''v1.c.t'' ReadHistoryScope 65 = Inl TokenExpired"
proof -
  have b64: "base64_ok sample_access_env"
    by (simp add: base64_ok_def sample_access_env_def redot_undot undot_no_dot)
  have tag: "length (ae_b64_encode sample_access_env (token_proof sample_access_env ''k'' payload)) \<le> 128" for payload
    by (simp add: sample_access_env_def token_proof_def hmac_proof_def undot_def)
  have json: "ae_claims_of_json sample_access_env json = Some c" if "ae_claims_json sample_access_env c = Some json" for c json
    using that by (auto simp: sample_access_env_def split: if_splits)
  have "\<exists>expires. unat expires = unat (5 :: u64) + unat (60 :: u64) \<and> unat (60 :: u64) \<le> 30 * 24 * 60 * 60 * 1000 \<and>
    token_verify sample_access_env ''k'' ''v1.c.t'' ReadHistoryScope now =
      (if 2048 < length ''v1.c.t'' then Inl TokenInvalid
       else if unat now < unat (5 :: u64) then Inl TokenNotYetValid
       else if unat (5 :: u64) + unat (60 :: u64) \<le> unat now then Inl TokenExpired
       else if ReadHistoryScope \<notin> {ReadHistoryScope} then Inl MissingScope
       else Inr \<lparr>tk_token_id = ''i'', tk_scopes = {ReadHistoryScope}, tk_issued_at_ms = 5, tk_expires_at_ms = expires,
         tk_filter = access_filter_default\<rparr>)" for now
    by (rule issued_token_outcome[OF sample_token_issued b64 tag json])
  note outcome = this
  have "(expires :: u64) = 65" if "unat expires = 65" for expires
    using that by (simp add: word_unat_eq_iff)
  with outcome[of 64] outcome[of 65] show ?thesis
    by (auto simp: sample_api_claims_def)
qed

end
