(* ===== verification/Links.thy ===== *)
theory Links
  imports Validation
begin

text \<open>
  The clean-link implementation shared by the interface and the plugins, \<open>crates/vbuff-core/src/workflow/links.rs\<close>:
  known redirects are unwrapped, tracking parameters and the fragment are dropped. A \<open>url::Url\<close> is the record of its
  parts with the decoded query pairs; \<open>Url::parse\<close> and its \<open>Display\<close> are the two functions of \<open>url_codec\<close>.
\<close>

record link_url =
  lu_scheme :: string
  lu_username :: string
  lu_password :: "string option"
  lu_host :: "string option"
  lu_port :: "u16 option"
  lu_path :: string
  lu_query :: "(string \<times> string) list option"
  lu_fragment :: "string option"

record url_codec =
  uc_parse :: "string \<Rightarrow> link_url option"
  uc_display :: "link_url \<Rightarrow> string"

datatype clean_link_error = InvalidSize | UnsupportedUrl

definition MAX_URL_BYTES :: nat where "MAX_URL_BYTES = 16 * 1024"

definition query_pairs :: "link_url \<Rightarrow> (string \<times> string) list" where
  "query_pairs u = (case lu_query u of None \<Rightarrow> [] | Some ps \<Rightarrow> ps)"

definition link_supported :: "link_url \<Rightarrow> bool" where
  "link_supported u \<longleftrightarrow> lu_scheme u \<in> {''http'', ''https''} \<and> lu_host u \<noteq> None \<and> lu_username u = [] \<and> lu_password u = None"

definition is_tracking_parameter :: "string \<Rightarrow> bool" where
  "is_tracking_parameter key \<longleftrightarrow> (let k = to_ascii_lowercase key in
     starts_with ''utm_'' k \<or> starts_with ''mc_'' k \<or>
     k \<in> {''fbclid'', ''gclid'', ''dclid'', ''msclkid'', ''igshid'', ''ref_src'', ''ref_url''})"

text \<open>The parameter that holds the target of a known redirect.\<close>

definition redirect_parameter :: "string \<Rightarrow> string \<Rightarrow> string option" where
  "redirect_parameter host path =
     (if host \<in> {''www.google.com'', ''google.com''} \<and> path = ''/url'' then Some ''q''
      else if host = ''l.facebook.com'' \<and> path = ''/l.php'' then Some ''u''
      else if host = ''out.reddit.com'' then Some ''url'' else None)"

definition known_redirect_target :: "url_codec \<Rightarrow> link_url \<Rightarrow> clean_link_error + link_url option" where
  "known_redirect_target codec u = (case lu_host u of None \<Rightarrow> Inr None | Some host \<Rightarrow>
     (case redirect_parameter (to_ascii_lowercase host) (lu_path u) of None \<Rightarrow> Inr None | Some parameter \<Rightarrow>
       (case map_of (query_pairs u) parameter of None \<Rightarrow> Inl UnsupportedUrl | Some text \<Rightarrow>
         (case uc_parse codec text of None \<Rightarrow> Inl UnsupportedUrl | Some target \<Rightarrow>
           if link_supported target then Inr (Some target) else Inl UnsupportedUrl))))"

definition strip_link :: "link_url \<Rightarrow> link_url" where
  "strip_link u = (let retained = filter (\<lambda>(key, _). \<not> is_tracking_parameter key) (query_pairs u) in
     u\<lparr>lu_query := (if retained = [] then None else Some retained), lu_fragment := None\<rparr>)"

definition clean_link :: "url_codec \<Rightarrow> string \<Rightarrow> clean_link_error + string" where
  "clean_link codec input =
     (let text = trim input in
      try_then (require (text \<noteq> [] \<and> length text \<le> MAX_URL_BYTES) InvalidSize) (\<lambda>_.
      case uc_parse codec text of None \<Rightarrow> Inl UnsupportedUrl | Some u \<Rightarrow>
        try_then (require (link_supported u) UnsupportedUrl) (\<lambda>_.
        try_then (known_redirect_target codec u) (\<lambda>unwrapped.
        Inr (uc_display codec (strip_link (case unwrapped of None \<Rightarrow> u | Some target \<Rightarrow> target)))))))"

section \<open>What a clean link is\<close>

lemma strip_link_fields:
  "lu_scheme (strip_link u) = lu_scheme u" "lu_host (strip_link u) = lu_host u" "lu_port (strip_link u) = lu_port u" "lu_path (strip_link u) = lu_path u"
  "lu_username (strip_link u) = lu_username u" "lu_password (strip_link u) = lu_password u" "lu_fragment (strip_link u) = None"
  "query_pairs (strip_link u) = filter (\<lambda>(key, _). \<not> is_tracking_parameter key) (query_pairs u)"
  by (auto simp: strip_link_def Let_def query_pairs_def)

lemma strip_link_idem: "strip_link (strip_link u) = strip_link u"
  unfolding strip_link_def[of "strip_link u"] strip_link_fields(8)
  by (simp add: strip_link_def Let_def)

lemma supported_strip [simp]: "link_supported (strip_link u) = link_supported u"
  by (simp add: link_supported_def strip_link_fields)

lemma known_redirect_supported: "known_redirect_target codec u = Inr (Some target) \<Longrightarrow> link_supported target"
  by (auto simp: known_redirect_target_def split: option.splits if_splits)

definition is_redirector :: "link_url \<Rightarrow> bool" where
  "is_redirector u \<longleftrightarrow> (case lu_host u of None \<Rightarrow> False
     | Some host \<Rightarrow> redirect_parameter (to_ascii_lowercase host) (lu_path u) \<noteq> None)"

lemma not_redirector: "\<not> is_redirector u \<Longrightarrow> known_redirect_target codec u = Inr None"
  by (auto simp: is_redirector_def known_redirect_target_def split: option.splits)

text \<open>
  A cleaned link is a supported URL without credentials, without a fragment and without any tracking parameter, and it is
  the input or the target the input redirects to, with the other parameters in their order. Cleaning it again changes
  nothing, unless it is itself a link of a known redirector: nested redirects are unwrapped one per call.
\<close>

lemma clean_link_result:
  assumes "clean_link codec input = Inr out"
  obtains u v where "uc_parse codec (trim input) = Some u" and "link_supported v" and "out = uc_display codec (strip_link v)"
    and "v = u \<and> \<not> is_redirector u \<or> known_redirect_target codec u = Inr (Some v)"
proof -
  obtain u unwrapped where u: "uc_parse codec (trim input) = Some u" "link_supported u"
      "known_redirect_target codec u = Inr unwrapped"
      "out = uc_display codec (strip_link (case unwrapped of None \<Rightarrow> u | Some target \<Rightarrow> target))"
    using assms by (auto simp: clean_link_def Let_def try_then_eq_Inr require_Inr split: option.splits)
  show thesis
  proof (cases unwrapped)
    case None
    then have "\<not> is_redirector u"
      using u(3) by (auto simp: is_redirector_def known_redirect_target_def split: option.splits if_splits)
    with None u that show thesis by auto
  next
    case (Some v)
    with u(3) have "link_supported v"
      using known_redirect_supported by simp
    with Some u that[of u v] show thesis by simp
  qed
qed

text \<open>
  A link is cleaned once and for all. Where the displayed form of the cleaned URL parses back to it, the result is that
  of a supported URL without credentials, fragment or tracking parameters, its parameters are those of the link or of the
  target it redirects to, in their order; and unless the result is again a link of a known redirector, cleaning it gives
  it back.
\<close>

lemma clean_link_is_clean:
  assumes "clean_link codec input = Inr out" and "\<And>v. out = uc_display codec (strip_link v) \<Longrightarrow> uc_parse codec out = Some (strip_link v)"
    and "trim out = out" and "out \<noteq> []" and "length out \<le> MAX_URL_BYTES"
  shows "\<exists>u v. uc_parse codec (trim input) = Some u \<and> (v = u \<or> known_redirect_target codec u = Inr (Some v)) \<and>
    uc_parse codec out = Some (strip_link v) \<and> link_supported (strip_link v) \<and> lu_fragment (strip_link v) = None \<and>
    query_pairs (strip_link v) = filter (\<lambda>(key, _). \<not> is_tracking_parameter key) (query_pairs v) \<and>
    (is_redirector (strip_link v) \<or> clean_link codec out = Inr out)"
proof -
  obtain u v where uv: "uc_parse codec (trim input) = Some u" "link_supported v" "out = uc_display codec (strip_link v)"
    "v = u \<and> \<not> is_redirector u \<or> known_redirect_target codec u = Inr (Some v)"
    using assms(1) by (rule clean_link_result)
  have "clean_link codec out = Inr out" if "\<not> is_redirector (strip_link v)"
    using uv assms(2-5) not_redirector[OF that] by (simp add: clean_link_def strip_link_idem)
  with uv assms(2) show ?thesis
    by (intro exI[of _ u] exI[of _ v]) (auto simp: strip_link_fields)
qed

definition sample_link :: link_url where
  "sample_link = \<lparr>lu_scheme = ''https'', lu_username = [], lu_password = None, lu_host = Some ''a.b'', lu_port = Some 8443, lu_path = ''/p'',
     lu_query = Some [(''k'', ''1''), (''utm_s'', ''2'')], lu_fragment = Some ''f''\<rparr>"

text \<open>A codec for one link and its clean form; other texts do not parse, and other URLs are not displayed.\<close>

definition sample_codec :: url_codec where
  "sample_codec = \<lparr>uc_parse = \<lambda>s. if s = ''L'' then Some sample_link else if s = ''C'' then Some (strip_link sample_link) else None,
     uc_display = \<lambda>u. if u = strip_link sample_link then ''C'' else ''L''\<rparr>"

lemma sample_cleaned: "clean_link sample_codec ''L'' = Inr ''C''"
  by (simp add: clean_link_def trim_ascii_word MAX_URL_BYTES_def sample_codec_def link_supported_def sample_link_def
      known_redirect_target_def redirect_parameter_def to_ascii_lowercase_def ascii_lower_def)

lemma clean_link_is_clean_witness:
  "\<exists>v. uc_parse sample_codec ''C'' = Some (strip_link v) \<and> query_pairs (strip_link v) = filter (\<lambda>(key, _). \<not> is_tracking_parameter key) (query_pairs v)"
proof -
  have codec: "uc_parse sample_codec ''C'' = Some (strip_link v)" if "''C'' = uc_display sample_codec (strip_link v)" for v
    using that by (simp add: sample_codec_def split: if_splits)
  have "trim ''C'' = ''C''" by (simp add: trim_ascii_word)
  from clean_link_is_clean[OF sample_cleaned codec this] show ?thesis
    by (auto simp: MAX_URL_BYTES_def)
qed

end
