(* ===== verification/Ipc_Integration.thy ===== *)
theory Ipc_Integration
  imports Webhook Clip_Types Validation Links "HOL-Library.Product_Lexorder" "HOL-Library.Multiset"
begin

text \<open>
  The remaining integration contracts of \<open>crates/vbuff-ipc/src/integration\<close>: history queries and launcher ranking
  (\<open>query.rs\<close>), clipboard writes of terminals (\<open>terminal.rs\<close>), browser reports (\<open>browser.rs\<close>), automation commands and
  targeted sends (\<open>automation.rs\<close>) and share drafts (\<open>automation/share.rs\<close>). BLAKE3 is an argument, URLs are parsed by
  the \<open>url_codec\<close> of the links.
\<close>

section \<open>Queries and launchers\<close>

record history_query =
  hq_query :: string
  hq_limit :: u16
  hq_include_explanation :: bool

definition history_query_validate :: "history_query \<Rightarrow> integration_error + unit" where
  "history_query_validate q = require (trim (hq_query q) \<noteq> [] \<and> length (hq_query q) \<le> 4096 \<and> CHR 0x00 \<notin> set (hq_query q) \<and>
     1 \<le> hq_limit q \<and> hq_limit q \<le> 512) InvalidField"

record launcher_rank_signals =
  rs_lexical_score :: u16
  rs_frecency_score :: u16
  rs_age_seconds :: u64
  rs_origin_is_remote :: bool
  rs_kind :: content_kind

definition launcher_score :: "launcher_rank_signals \<Rightarrow> int" where
  "launcher_score s =
     (let recency = 10000 - int (min (unat (rs_age_seconds s) div 60) 10000);
          remote_freshness = (if rs_origin_is_remote s \<and> rs_age_seconds s \<le> 300 then 1500 else 0);
          kind_bias = (if rs_kind s \<in> {TextKind, CodeKind, UrlKind} then 250 else 0) in
      int (unat (rs_lexical_score s)) * 16 + int (unat (rs_frecency_score s)) * 8 + recency + remote_freshness + kind_bias)"

datatype launcher_client = Raycast | Alfred | Rofi | Dmenu | Fzf

record launcher_request =
  lr_client :: launcher_client
  lr_query :: string
  lr_limit :: u16

record launcher_candidate =
  lc_clip_id :: string
  lc_signals :: launcher_rank_signals

record launcher_ranked_result =
  rr_clip_id :: string
  rr_score :: int
  rr_rank :: u16

text \<open>The comparator of the stable \<open>sort_by\<close>: the higher score first, then the smaller id.\<close>

definition launcher_order :: "launcher_candidate \<Rightarrow> int \<times> string" where
  "launcher_order c = (- launcher_score (lc_signals c), lc_clip_id c)"

definition rank_launcher_candidates ::
  "launcher_request \<Rightarrow> launcher_candidate list \<Rightarrow> integration_error + launcher_ranked_result list" where
  "rank_launcher_candidates request candidates =
     try_then (require (length (lr_query request) \<le> 4096 \<and> CHR 0x00 \<notin> set (lr_query request) \<and> 1 \<le> lr_limit request \<and>
       lr_limit request \<le> 100 \<and> length candidates \<le> 10000 \<and> list_all (\<lambda>c. is_valid_identifier (lc_clip_id c) 128) candidates) InvalidField) (\<lambda>_.
     let best = take (unat (lr_limit request)) (sort_key launcher_order candidates) in
     Inr (map (\<lambda>(index, c). \<lparr>rr_clip_id = lc_clip_id c, rr_score = launcher_score (lc_signals c), rr_rank = of_nat (index + 1)\<rparr>)
       (enumerate 0 best)))"

section \<open>Clipboard writes of terminals\<close>

definition MAX_OSC52_PAYLOAD_BYTES :: u64 where "MAX_OSC52_PAYLOAD_BYTES = 16 * 1024 * 1024"
definition MAX_ALLOWED_REMOTE_HOSTS :: nat where "MAX_ALLOWED_REMOTE_HOSTS = 256"

datatype osc52_target = ClipboardTarget | PrimarySelectionTarget

record osc52_observation =
  oo_payload_hash :: bytes
  oo_payload_bytes :: u64
  oo_terminal_app_hash :: bytes
  oo_remote_host_hash :: "bytes option"
  oo_session_hash :: "bytes option"
  oo_target :: osc52_target

definition osc52_host_ok :: "string option \<Rightarrow> bool" where
  "osc52_host_ok h \<longleftrightarrow> (case h of None \<Rightarrow> True | Some v \<Rightarrow> is_valid_identifier_with_extra v 256 '':'')"

definition osc52_from_metadata ::
  "(bytes \<Rightarrow> bytes) \<Rightarrow> bytes \<Rightarrow> string \<Rightarrow> string option \<Rightarrow> string option \<Rightarrow> osc52_target \<Rightarrow> integration_error + osc52_observation" where
  "osc52_from_metadata blake3 payload terminal_app remote_host session target =
     try_then (require (length payload < 2 ^ 64) InvalidField) (\<lambda>_.
     try_then (require (payload \<noteq> [] \<and> of_nat (length payload) \<le> MAX_OSC52_PAYLOAD_BYTES \<and> terminal_app \<noteq> [] \<and>
       length terminal_app \<le> 256 \<and> \<not> has_control terminal_app \<and> osc52_host_ok remote_host \<and> osc52_host_ok session) InvalidField) (\<lambda>_.
     Inr \<lparr>oo_payload_hash = blake3 payload, oo_payload_bytes = of_nat (length payload), oo_terminal_app_hash = blake3 terminal_app,
       oo_remote_host_hash = map_option blake3 remote_host, oo_session_hash = map_option blake3 session, oo_target = target\<rparr>))"

record osc52_policy =
  op_maximum_bytes :: u64
  op_allow_remote :: bool
  op_allowed_remote_hosts :: "bytes set"

datatype osc52_decision = OscAllow | BlockOversize | BlockRemote | BlockUnknownRemote | BlockInvalidPolicy

definition osc52_policy_validate :: "osc52_policy \<Rightarrow> integration_error + unit" where
  "osc52_policy_validate p = require (op_maximum_bytes p \<noteq> 0 \<and> op_maximum_bytes p \<le> MAX_OSC52_PAYLOAD_BYTES \<and>
     card (op_allowed_remote_hosts p) \<le> MAX_ALLOWED_REMOTE_HOSTS \<and> (\<forall>h \<in> op_allowed_remote_hosts p. \<not> all_zero h) \<and>
     \<not> (\<not> op_allow_remote p \<and> op_allowed_remote_hosts p \<noteq> {})) InvalidField"

definition some_nonzero :: "bytes option \<Rightarrow> bool" where
  "some_nonzero h \<longleftrightarrow> (case h of None \<Rightarrow> True | Some v \<Rightarrow> list_ex (\<lambda>b. b \<noteq> CHR 0x00) v)"

definition valid_observation :: "osc52_observation \<Rightarrow> bool" where
  "valid_observation x \<longleftrightarrow> 0 < oo_payload_bytes x \<and> oo_payload_bytes x \<le> MAX_OSC52_PAYLOAD_BYTES \<and>
     list_ex (\<lambda>b. b \<noteq> CHR 0x00) (oo_payload_hash x) \<and> list_ex (\<lambda>b. b \<noteq> CHR 0x00) (oo_terminal_app_hash x) \<and>
     some_nonzero (oo_remote_host_hash x) \<and> some_nonzero (oo_session_hash x)"

definition osc52_evaluate :: "osc52_policy \<Rightarrow> osc52_observation \<Rightarrow> osc52_decision" where
  "osc52_evaluate p x =
     (if \<not> is_ok (osc52_policy_validate p) \<or> \<not> valid_observation x then BlockInvalidPolicy
      else if oo_payload_bytes x > op_maximum_bytes p then BlockOversize
      else (case oo_remote_host_hash x of None \<Rightarrow> OscAllow | Some remote_host \<Rightarrow>
        if \<not> op_allow_remote p then BlockRemote
        else if remote_host \<notin> op_allowed_remote_hosts p then BlockUnknownRemote else OscAllow))"

section \<open>Browser reports\<close>

definition MAX_ORIGIN_BYTES :: nat where "MAX_ORIGIN_BYTES = 4 * 1024"

record browser_ingress =
  bi_origin :: string
  bi_private_tab :: "bool option"
  bi_kind :: content_kind
  bi_byte_size :: u64

datatype browser_ingress_decision = IngressAllow | SkipPrivate | SkipUnknownPrivacy | SkipInvalidOrigin | SkipInvalidSize | SkipOversize

datatype browser_storage_disposition = NeverStore | StoreNormally | StoreEphemeral duration

record browser_privacy_policy =
  bp_private_window_ttl :: "duration option"

definition browser_policy_new :: "duration option \<Rightarrow> browser_privacy_policy option" where
  "browser_policy_new ttl = (if (case ttl of None \<Rightarrow> True | Some t \<Rightarrow> t \<noteq> 0 \<and> t \<le> secs (10 * 60))
     then Some \<lparr>bp_private_window_ttl = ttl\<rparr> else None)"

definition browser_disposition :: "browser_privacy_policy \<Rightarrow> bool option \<Rightarrow> browser_storage_disposition" where
  "browser_disposition p private_tab = (case private_tab of
       Some False \<Rightarrow> StoreNormally
     | Some True \<Rightarrow> (case bp_private_window_ttl p of None \<Rightarrow> NeverStore | Some ttl \<Rightarrow> StoreEphemeral ttl)
     | None \<Rightarrow> NeverStore)"

definition valid_origin :: "url_codec \<Rightarrow> string \<Rightarrow> bool" where
  "valid_origin codec origin \<longleftrightarrow> (case uc_parse codec origin of None \<Rightarrow> False | Some u \<Rightarrow>
     lu_scheme u \<in> {''http'', ''https''} \<and> lu_host u \<noteq> None \<and> lu_username u = [] \<and> lu_password u = None \<and> lu_path u = ''/'' \<and>
     lu_query u = None \<and> lu_fragment u = None)"

definition ingress_decide :: "url_codec \<Rightarrow> browser_ingress \<Rightarrow> u64 \<Rightarrow> browser_ingress_decision" where
  "ingress_decide codec b max_bytes = (case bi_private_tab b of Some True \<Rightarrow> SkipPrivate | None \<Rightarrow> SkipUnknownPrivacy | Some False \<Rightarrow>
     if bi_byte_size b = 0 \<or> max_bytes = 0 then SkipInvalidSize
     else if bi_byte_size b > max_bytes then SkipOversize
     else if bi_origin b = [] \<or> length (bi_origin b) > MAX_ORIGIN_BYTES then SkipInvalidOrigin
     else if valid_origin codec (bi_origin b) then IngressAllow else SkipInvalidOrigin)"

record selected_link_metadata =
  sl_href :: string
  sl_label_bytes :: u16
  sl_nofollow :: bool

record browser_source_report =
  br_ingress :: browser_ingress
  br_selected_link :: "selected_link_metadata option"

definition source_report_validate :: "url_codec \<Rightarrow> browser_source_report \<Rightarrow> u64 \<Rightarrow> integration_error + unit" where
  "source_report_validate codec r max_bytes =
     try_then (require (ingress_decide codec (br_ingress r) max_bytes = IngressAllow) InvalidField) (\<lambda>_.
     case br_selected_link r of None \<Rightarrow> Inr () | Some link \<Rightarrow>
       try_then (require (sl_href link \<noteq> [] \<and> length (sl_href link) \<le> 16 * 1024 \<and> sl_label_bytes link \<le> 4096) InvalidField) (\<lambda>_.
       case uc_parse codec (bi_origin (br_ingress r)) of None \<Rightarrow> Inl InvalidField | Some page \<Rightarrow>
         (case uc_parse codec (sl_href link) of None \<Rightarrow> Inl InvalidField | Some selected \<Rightarrow>
           require (lu_scheme selected \<in> {''http'', ''https''} \<and> lu_username selected = [] \<and> lu_password selected = None \<and>
             lu_host selected \<noteq> None \<and> lu_host page \<noteq> None) InvalidField)))"

record clean_link_request =
  cr_url :: string
  cr_explicit_user_gesture :: bool
  cr_private_tab :: "bool option"

definition clean_link_execute :: "url_codec \<Rightarrow> clean_link_request \<Rightarrow> integration_error + string" where
  "clean_link_execute codec r =
     (if \<not> cr_explicit_user_gesture r \<or> cr_private_tab r \<noteq> Some False then Inl InvalidField
      else (case clean_link codec (cr_url r) of Inl _ \<Rightarrow> Inl InvalidField | Inr out \<Rightarrow> Inr out))"

section \<open>Automation and share drafts\<close>

datatype automation_command = GetLatest | AddClip "string option" | PasteByTag string | SendToDevice string

fun automation_validate :: "automation_command \<Rightarrow> integration_error + unit" where
  "automation_validate GetLatest = Inr ()"
| "automation_validate (AddClip None) = Inr ()"
| "automation_validate (AddClip (Some tag)) = require (is_valid_label tag 64) InvalidField"
| "automation_validate (PasteByTag tag) = require (is_valid_label tag 64) InvalidField"
| "automation_validate (SendToDevice device_id) = require (is_valid_identifier device_id 128) InvalidField"

record targeted_send_request =
  ts_request_id :: bytes
  ts_clip_id :: string
  ts_target_device_id :: string
  ts_issued_at_ms :: u64
  ts_expires_at_ms :: u64

definition targeted_send_validate :: "targeted_send_request \<Rightarrow> u64 \<Rightarrow> integration_error + unit" where
  "targeted_send_validate r now_ms =
     (if all_zero (ts_request_id r) \<or> ts_issued_at_ms r > now_ms \<or> ts_expires_at_ms r \<le> ts_issued_at_ms r \<or>
         ts_expires_at_ms r - ts_issued_at_ms r > 10 * 60 * 1000 \<or> \<not> is_valid_identifier (ts_target_device_id r) 128 then Inl InvalidRecipient
      else if now_ms \<ge> ts_expires_at_ms r then Inl IntegrationExpired
      else require (is_valid_identifier (ts_clip_id r) 128) InvalidField)"

datatype share_draft_state = DraftPreview | DraftCommitted | DraftCancelled

record share_draft =
  sd_draft_id :: string
  sd_destination_collection :: "string option"
  sd_tags :: "string list"
  sd_pinned :: bool
  sd_state :: share_draft_state

definition draft_validate :: "share_draft \<Rightarrow> integration_error + unit" where
  "draft_validate d = require (is_valid_identifier (sd_draft_id d) 128 \<and>
     (case sd_destination_collection d of None \<Rightarrow> True | Some c \<Rightarrow> is_valid_label c 128) \<and> length (sd_tags d) \<le> 32 \<and>
     list_all (\<lambda>t. is_valid_label t 64) (sd_tags d)) InvalidField"

definition draft_preview :: "string \<Rightarrow> string option \<Rightarrow> string list \<Rightarrow> bool \<Rightarrow> integration_error + share_draft" where
  "draft_preview draft_id destination tags pinned =
     (let d = \<lparr>sd_draft_id = draft_id, sd_destination_collection = destination, sd_tags = tags, sd_pinned = pinned, sd_state = DraftPreview\<rparr> in
      try_then (draft_validate d) (\<lambda>_. Inr d))"

definition draft_commit :: "share_draft \<Rightarrow> (integration_error + unit) \<times> share_draft" where
  "draft_commit d = (if sd_state d \<noteq> DraftPreview then (Inl InvalidField, d)
     else (case draft_validate d of Inl e \<Rightarrow> (Inl e, d) | Inr _ \<Rightarrow> (Inr (), d\<lparr>sd_state := DraftCommitted\<rparr>)))"

definition draft_cancel :: "share_draft \<Rightarrow> (integration_error + unit) \<times> share_draft" where
  "draft_cancel d = (if sd_state d \<noteq> DraftPreview then (Inl InvalidField, d) else (Inr (), d\<lparr>sd_state := DraftCancelled\<rparr>))"

section \<open>Scores and their bounds\<close>

text \<open>The sum stays far inside an \<open>i64\<close>.\<close>

lemma launcher_score_bounds: "0 \<le> launcher_score s \<and> launcher_score s \<le> 1600000"
proof -
  define a b c d e where "a = int (unat (rs_lexical_score s))" and "b = int (unat (rs_frecency_score s))"
    and "c = int (min (unat (rs_age_seconds s) div 60) 10000)"
    and "d = (if rs_origin_is_remote s \<and> rs_age_seconds s \<le> 300 then 1500 else 0 :: int)"
    and "e = (if rs_kind s \<in> {TextKind, CodeKind, UrlKind} then 250 else 0 :: int)"
  have "0 \<le> a" "a < 65536" "0 \<le> b" "b < 65536" "0 \<le> c" "c \<le> 10000" "0 \<le> d" "d \<le> 1500" "0 \<le> e" "e \<le> 250"
    using unsigned_less [of "rs_lexical_score s", where ?'a = nat] unsigned_less [of "rs_frecency_score s", where ?'a = nat]
    by (simp_all add: a_def b_def c_def d_def e_def del: of_nat_unat)
  moreover have "launcher_score s = a * 16 + b * 8 + (10000 - c) + d + e"
    unfolding launcher_score_def Let_def a_def b_def c_def d_def e_def ..
  ultimately show ?thesis by linarith
qed

lemma small_rank: "i < 100 \<Longrightarrow> unat (1 + of_nat i :: u16) = Suc i"
  by (simp add: unat_of_nat take_bit_nat_eq_self flip: of_nat_Suc)

lemma map_enumerate_snd: "map (\<lambda>x. f (snd x)) (enumerate n xs) = map f xs"
  by (induction xs arbitrary: n) auto

lemma map_enumerate_fst: "map (\<lambda>x. f (fst x)) (enumerate n xs) = map f [n..<n + length xs]"
proof (induction xs arbitrary: n)
  case (Cons x xs)
  have "[n..<n + length (x # xs)] = n # [Suc n..<Suc n + length xs]" by (simp add: upt_conv_Cons del: upt_Suc)
  with Cons show ?case by simp
qed simp

lemma rank_Inr:
  assumes "rank_launcher_candidates request candidates = Inr out"
  shows "out = map (\<lambda>(index, c). \<lparr>rr_clip_id = lc_clip_id c, rr_score = launcher_score (lc_signals c), rr_rank = of_nat (index + 1)\<rparr>)
      (enumerate 0 (take (unat (lr_limit request)) (sort_key launcher_order candidates)))"
    and "unat (lr_limit request) \<le> 100"
  using assms by (auto simp: rank_launcher_candidates_def try_then_eq_Inr require_Inr word_le_nat_alt)

text \<open>
  A launcher shows the best clips in order: the results are at most the requested number of candidates, ranked from 1
  on, by falling score and by clip id among equal scores, and every result scores at least as much as any candidate that
  was left out.
\<close>

lemma launcher_ranks_best:
  assumes "rank_launcher_candidates request candidates = Inr out"
  shows "\<exists>chosen rest. mset candidates = mset chosen + mset rest \<and> length chosen = min (length candidates) (unat (lr_limit request))
    \<and> map rr_clip_id out = map lc_clip_id chosen \<and> map rr_score out = map (\<lambda>c. launcher_score (lc_signals c)) chosen
    \<and> map (\<lambda>r. unat (rr_rank r)) out = [1..<length chosen + 1]
    \<and> sorted_wrt (\<lambda>a b. launcher_score (lc_signals b) < launcher_score (lc_signals a)
         \<or> launcher_score (lc_signals b) = launcher_score (lc_signals a) \<and> lc_clip_id a \<le> lc_clip_id b) chosen
    \<and> (\<forall>a \<in> set chosen. \<forall>b \<in> set rest. launcher_score (lc_signals b) \<le> launcher_score (lc_signals a))"
proof -
  let ?sorted = "sort_key launcher_order candidates" and ?n = "unat (lr_limit request)"
  let ?chosen = "take ?n ?sorted" and ?rest = "drop ?n ?sorted"
  note out = rank_Inr [OF assms]
  have "mset ?sorted = mset candidates" by simp
  then have whole: "mset candidates = mset ?chosen + mset ?rest" by (metis append_take_drop_id mset_append)
  have ordered: "sorted_wrt (\<lambda>a b. launcher_order a \<le> launcher_order b) ?sorted"
    using sorted_sort_key [of launcher_order candidates] by (simp add: sorted_wrt_map)
  then have "sorted_wrt (\<lambda>a b. launcher_order a \<le> launcher_order b) (?chosen @ ?rest)" by simp
  then have parts: "sorted_wrt (\<lambda>a b. launcher_order a \<le> launcher_order b) ?chosen"
    "\<forall>a \<in> set ?chosen. \<forall>b \<in> set ?rest. launcher_order a \<le> launcher_order b"
    unfolding sorted_wrt_append by blast+
  have order: "launcher_order a \<le> launcher_order b \<longleftrightarrow> launcher_score (lc_signals b) < launcher_score (lc_signals a)
      \<or> launcher_score (lc_signals b) = launcher_score (lc_signals a) \<and> lc_clip_id a \<le> lc_clip_id b" for a b
    by (auto simp: launcher_order_def less_eq_prod_def)
  have ids: "map rr_clip_id out = map lc_clip_id ?chosen" "map rr_score out = map (\<lambda>c. launcher_score (lc_signals c)) ?chosen"
    unfolding out(1) map_map comp_def case_prod_beta launcher_ranked_result.simps
    by (rule map_enumerate_snd)+
  have "map (\<lambda>r. unat (rr_rank r)) out = map (\<lambda>i. unat (of_nat (i + 1) :: u16)) [0..<length ?chosen]"
    unfolding out(1) map_map comp_def case_prod_beta launcher_ranked_result.simps
    using map_enumerate_fst [of "\<lambda>i. unat (of_nat (i + 1) :: u16)" 0 ?chosen] by simp
  also have "\<dots> = map Suc [0..<length ?chosen]"
    using out(2) by (auto simp: small_rank)
  finally have ranks: "map (\<lambda>r. unat (rr_rank r)) out = [1..<length ?chosen + 1]" by (simp add: map_Suc_upt del: upt_Suc)
  show ?thesis
    by (rule exI [of _ ?chosen], rule exI [of _ ?rest], intro conjI whole ids ranks)
      (simp, use parts(1) order in simp, use parts(2) order in fastforce)
qed

definition launcher_example :: "launcher_candidate list" where
  "launcher_example = [\<lparr>lc_clip_id = ''b'', lc_signals = \<lparr>rs_lexical_score = 1, rs_frecency_score = 0, rs_age_seconds = 0,
       rs_origin_is_remote = False, rs_kind = ImageKind\<rparr>\<rparr>,
     \<lparr>lc_clip_id = ''a'', lc_signals = \<lparr>rs_lexical_score = 0, rs_frecency_score = 0, rs_age_seconds = 60,
       rs_origin_is_remote = True, rs_kind = TextKind\<rparr>\<rparr>]"

lemma launcher_example_ranked:
  "rank_launcher_candidates \<lparr>lr_client = Rofi, lr_query = ''q'', lr_limit = 1\<rparr> launcher_example =
     Inr [\<lparr>rr_clip_id = ''a'', rr_score = 11749, rr_rank = 1\<rparr>]"
  by (simp add: rank_launcher_candidates_def launcher_example_def is_valid_identifier_def is_valid_identifier_with_extra_def
      is_ascii_alphanumeric_def launcher_order_def launcher_score_def less_eq_prod_def Let_def)

lemma launcher_ranks_best_witness:
  "\<exists>chosen rest. mset launcher_example = mset chosen + mset rest \<and> map lc_clip_id chosen = [''a'']"
  using launcher_ranks_best [OF launcher_example_ranked] by force

section \<open>Drafts, privacy and links\<close>

lemma draft_settles_once:
  "fst (draft_commit d) = Inr () \<Longrightarrow> draft_commit (snd (draft_commit d)) = (Inl InvalidField, snd (draft_commit d)) \<and>
     draft_cancel (snd (draft_commit d)) = (Inl InvalidField, snd (draft_commit d))"
  by (auto simp: draft_commit_def draft_cancel_def split: sum.splits if_splits)

lemma draft_cancelled_stays:
  "fst (draft_cancel d) = Inr () \<Longrightarrow> draft_commit (snd (draft_cancel d)) = (Inl InvalidField, snd (draft_cancel d))"
  by (auto simp: draft_commit_def draft_cancel_def split: if_splits)

lemma draft_committed_valid: "draft_commit d = (Inr (), d') \<Longrightarrow> is_ok (draft_validate d') \<and> sd_state d' = DraftCommitted"
  by (auto simp: draft_commit_def draft_validate_def split: sum.splits if_splits)

text \<open>Nothing of a private or of an unknown tab is allowed in or has its link cleaned.\<close>

lemma private_tab_skipped:
  "bi_private_tab b \<noteq> Some False \<Longrightarrow> ingress_decide codec b max_bytes \<in> {SkipPrivate, SkipUnknownPrivacy}"
  "cr_private_tab r \<noteq> Some False \<Longrightarrow> clean_link_execute codec r = Inl InvalidField"
  by (auto simp: ingress_decide_def clean_link_execute_def split: option.split bool.split)

lemma source_report_allowed:
  "source_report_validate codec r max_bytes = Inr () \<Longrightarrow> ingress_decide codec (br_ingress r) max_bytes = IngressAllow"
  by (auto simp: source_report_validate_def try_then_eq_Inr require_Inr)

text \<open>Where remote writes are off, no observation with a remote host is allowed, and no host list can change that.\<close>

lemma osc52_remote_needs_host:
  "osc52_evaluate p x = OscAllow \<Longrightarrow> oo_remote_host_hash x = Some h \<Longrightarrow> op_allow_remote p \<and> h \<in> op_allowed_remote_hosts p"
  by (auto simp: osc52_evaluate_def split: if_splits)

lemma osc52_bound: "osc52_evaluate p x = OscAllow \<Longrightarrow> 0 < oo_payload_bytes x \<and> oo_payload_bytes x \<le> op_maximum_bytes p"
  by (auto simp: osc52_evaluate_def valid_observation_def split: if_splits)

end
