(* ===== verification/Rate_Limit.thy ===== *)
theory Rate_Limit
  imports Validation
begin

text \<open>
  The rate limiter of the local interface, \<open>crates/vbuff-ipc/src/operations/rate_limit.rs\<close>: fixed windows of one
  to eighty-six thousand seconds, one table of counters per token hash, at most 1,024 tokens. The maps are ordered
  association lists; the window of a request is its time divided by the length of a window, on 64-bit words.

  The reference is the log of the requests that were admitted: a limiter without tables that counts in the log.
\<close>

section \<open>The limiter\<close>

datatype operation_contract_error = OperationInvalid string | CursorExpired | RateLimited

datatype rate_limit_kind = ReadCall | WriteCall | PasteCall

fun kind_rank :: "rate_limit_kind \<Rightarrow> nat" where
  "kind_rank ReadCall = 0"
| "kind_rank WriteCall = 1"
| "kind_rank PasteCall = 2"

instantiation rate_limit_kind :: linorder
begin

definition less_eq_rate_limit_kind :: "rate_limit_kind \<Rightarrow> rate_limit_kind \<Rightarrow> bool" where
  "less_eq_rate_limit_kind a b \<longleftrightarrow> kind_rank a \<le> kind_rank b"

definition less_rate_limit_kind :: "rate_limit_kind \<Rightarrow> rate_limit_kind \<Rightarrow> bool" where
  "less_rate_limit_kind a b \<longleftrightarrow> kind_rank a < kind_rank b"

instance
proof
  show "a = b" if "a \<le> b" "b \<le> a" for a b :: rate_limit_kind
    using that by (cases a; cases b) (simp_all add: less_eq_rate_limit_kind_def)
qed (auto simp: less_eq_rate_limit_kind_def less_rate_limit_kind_def)

end

record rate_limit_policy =
  rp_window_ms :: u64
  rp_reads_per_window :: u32
  rp_writes_per_window :: u32
  rp_pastes_per_window :: u32

definition MAX_RATE_LIMIT_TOKENS :: nat where "MAX_RATE_LIMIT_TOKENS = 1024"
definition MIN_RATE_LIMIT_WINDOW_MS :: u64 where "MIN_RATE_LIMIT_WINDOW_MS = 1000"
definition MAX_RATE_LIMIT_WINDOW_MS :: u64 where "MAX_RATE_LIMIT_WINDOW_MS = 24 * 60 * 60 * 1000"

fun quota :: "rate_limit_policy \<Rightarrow> rate_limit_kind \<Rightarrow> u32" where
  "quota p ReadCall = rp_reads_per_window p"
| "quota p WriteCall = rp_writes_per_window p"
| "quota p PasteCall = rp_pastes_per_window p"

definition rate_policy_valid :: "rate_limit_policy \<Rightarrow> bool" where
  "rate_policy_valid p \<longleftrightarrow> MIN_RATE_LIMIT_WINDOW_MS \<le> rp_window_ms p \<and> rp_window_ms p \<le> MAX_RATE_LIMIT_WINDOW_MS \<and>
     0 < rp_reads_per_window p \<and> 0 < rp_writes_per_window p \<and> 0 < rp_pastes_per_window p"

record token_window =
  tw_window_id :: u64
  tw_counts :: "(rate_limit_kind, u32) btree"

record token_rate_limiter =
  rl_policy :: rate_limit_policy
  rl_windows :: "(bytes, token_window) btree"
  rl_latest_window_id :: "u64 option"

definition limiter_new :: "rate_limit_policy \<Rightarrow> operation_contract_error + token_rate_limiter" where
  "limiter_new p = (if \<not> rate_policy_valid p then Inl (OperationInvalid ''rate_limit_policy_invalid'')
     else Inr \<lparr>rl_policy = p, rl_windows = [], rl_latest_window_id = None\<rparr>)"

definition zero_hash :: bytes where
  "zero_hash = replicate 32 (CHR 0x00)"

definition window_default :: token_window where
  "window_default = \<lparr>tw_window_id = 0, tw_counts = []\<rparr>"

definition count_of :: "token_window \<Rightarrow> rate_limit_kind \<Rightarrow> u32" where
  "count_of tw kind = (case map_of (tw_counts tw) kind of None \<Rightarrow> 0 | Some n \<Rightarrow> n)"

text \<open>The table of the request's window, emptied when the last one of the token is over.\<close>

definition roll_window :: "u64 \<Rightarrow> token_window \<Rightarrow> token_window" where
  "roll_window w tw = (if tw_window_id tw < w then \<lparr>tw_window_id = w, tw_counts = []\<rparr> else tw)"

text \<open>A new token makes room: the tables of the tokens idle in this window and the one before it are removed.\<close>

definition make_room :: "token_rate_limiter \<Rightarrow> bytes \<Rightarrow> u64 \<Rightarrow> token_rate_limiter" where
  "make_room l token w = (if bt_contains (rl_windows l) token then l
     else l\<lparr>rl_windows := filter (\<lambda>(_, tw). saturating_sub w 1 \<le> tw_window_id tw) (rl_windows l)\<rparr>)"

definition put_table :: "token_rate_limiter \<Rightarrow> bytes \<Rightarrow> token_window \<Rightarrow> token_rate_limiter" where
  "put_table l token tw = l\<lparr>rl_windows := bt_insert token tw (rl_windows l)\<rparr>"

text \<open>The rest of \<open>admit\<close>, for a request in the window \<open>w\<close>. Each early return keeps what was written before it.\<close>

definition limiter_count ::
  "token_rate_limiter \<Rightarrow> bytes \<Rightarrow> rate_limit_kind \<Rightarrow> u64 \<Rightarrow> token_rate_limiter \<times> (operation_contract_error + unit)" where
  "limiter_count l token kind w =
     (if \<not> bt_contains (rl_windows l) token \<and> MAX_RATE_LIMIT_TOKENS \<le> length (rl_windows l) then (l, Inl RateLimited)
      else let tw = (case map_of (rl_windows l) token of None \<Rightarrow> window_default | Some tw \<Rightarrow> tw) in
        if w < tw_window_id tw
        then (put_table l token tw, Inl (OperationInvalid ''rate_limit_clock_moved_backward''))
        else let tw1 = roll_window w tw;
                 n = count_of tw1 kind;
                 counted = (\<lambda>m. tw1\<lparr>tw_counts := bt_insert kind m (tw_counts tw1)\<rparr>) in
          if quota (rl_policy l) kind \<le> n then (put_table l token (counted n), Inl RateLimited)
          else (put_table l token (counted (n + 1)), Inr ()))"

definition limiter_admit ::
  "token_rate_limiter \<Rightarrow> bytes \<Rightarrow> rate_limit_kind \<Rightarrow> u64 \<Rightarrow> token_rate_limiter \<times> (operation_contract_error + unit)" where
  "limiter_admit l token kind now =
     (if token = zero_hash then (l, Inl (OperationInvalid ''rate_limit_token_hash_invalid''))
      else let w = now div rp_window_ms (rl_policy l) in
        if (case rl_latest_window_id l of None \<Rightarrow> False | Some latest \<Rightarrow> w < latest)
        then (l, Inl (OperationInvalid ''rate_limit_clock_moved_backward''))
        else limiter_count (make_room (l\<lparr>rl_latest_window_id := Some w\<rparr>) token w) token kind w)"

section \<open>The reference: a log of what was admitted\<close>

type_synonym rate_request = "bytes \<times> rate_limit_kind \<times> u64"

definition window_of :: "rate_limit_policy \<Rightarrow> u64 \<Rightarrow> u64" where
  "window_of p now = now div rp_window_ms p"

text \<open>The run of a limiter, with the admitted requests as (token, kind, window), the newest first.\<close>

fun limiter_run ::
  "token_rate_limiter \<Rightarrow> rate_request list \<Rightarrow> rate_request list \<Rightarrow> token_rate_limiter \<times> rate_request list" where
  "limiter_run l log [] = (l, log)"
| "limiter_run l log ((token, kind, now) # rs) =
     (case limiter_admit l token kind now of (l', result) \<Rightarrow>
        limiter_run l' (if is_ok result then (token, kind, window_of (rl_policy l) now) # log else log) rs)"

definition spent :: "rate_request list \<Rightarrow> bytes \<Rightarrow> rate_limit_kind \<Rightarrow> u64 \<Rightarrow> nat" where
  "spent log token kind w = count_list log (token, kind, w)"

definition seen_windows :: "rate_limit_policy \<Rightarrow> rate_request list \<Rightarrow> u64 set" where
  "seen_windows p rs = {w. \<exists>(token, kind, now) \<in> set rs. token \<noteq> zero_hash \<and> w = window_of p now}"

text \<open>The tokens admitted in the window \<open>w\<close>, the one before it or later.\<close>

definition recent_tokens :: "rate_request list \<Rightarrow> u64 \<Rightarrow> bytes set" where
  "recent_tokens log w = {token. \<exists>kind w'. (token, kind, w') \<in> set log \<and> unat w \<le> unat w' + 1}"

section \<open>The tables count what the log counts\<close>

definition table_ok :: "rate_request list \<Rightarrow> bytes \<Rightarrow> token_window \<Rightarrow> bool" where
  "table_ok log token tw \<longleftrightarrow> (\<forall>kind. unat (count_of tw kind) = spent log token kind (tw_window_id tw)) \<and>
     (\<exists>kind. (token, kind, tw_window_id tw) \<in> set log) \<and>
     (\<forall>kind w. (token, kind, w) \<in> set log \<longrightarrow> w \<le> tw_window_id tw)"

definition limiter_ok :: "rate_limit_policy \<Rightarrow> rate_request list \<Rightarrow> u64 set \<Rightarrow> token_rate_limiter \<Rightarrow> bool" where
  "limiter_ok p log seen l \<longleftrightarrow> rl_policy l = p \<and> rate_policy_valid p \<and> bt_ok (rl_windows l) \<and>
     length (rl_windows l) \<le> MAX_RATE_LIMIT_TOKENS \<and>
     (case rl_latest_window_id l of None \<Rightarrow> seen = {} | Some w \<Rightarrow> w \<in> seen \<and> (\<forall>v \<in> seen. v \<le> w)) \<and>
     (\<forall>token tw. map_of (rl_windows l) token = Some tw \<longrightarrow> table_ok log token tw) \<and>
     (\<forall>token kind w. (token, kind, w) \<in> set log \<longrightarrow> w \<in> seen \<and> spent log token kind w \<le> unat (quota p kind) \<and>
        (map_of (rl_windows l) token = None \<longrightarrow> (\<exists>v \<in> seen. unat w + 1 < unat v)))"

lemma quota_pos: "rate_policy_valid p \<Longrightarrow> 0 < quota p kind"
  by (cases kind) (simp_all add: rate_policy_valid_def)

lemma table_ok_roll:
  assumes "table_ok log token tw" and "tw_window_id tw \<le> w"
  shows "unat (count_of (roll_window w tw) kind) = spent log token kind w" and "tw_window_id (roll_window w tw) = w"
proof -
  have "(token, kind, w) \<notin> set log" if "tw_window_id tw < w" using assms(1) that unfolding table_ok_def by force
  then show "unat (count_of (roll_window w tw) kind) = spent log token kind w"
    using assms by (auto simp: roll_window_def count_of_def spent_def table_ok_def)
  show "tw_window_id (roll_window w tw) = w" using assms(2) by (simp add: roll_window_def)
qed

lemma count_of_put: "count_of (tw\<lparr>tw_counts := bt_insert kind n (tw_counts tw)\<rparr>) k = (if k = kind then n else count_of tw k)"
  by (simp add: count_of_def)

lemma spent_Cons: "spent (e # log) token kind w = (if e = (token, kind, w) then Suc (spent log token kind w) else spent log token kind w)"
  by (simp add: spent_def)

lemma spent_0: "\<nexists>kind. (token, kind, w) \<in> set log \<Longrightarrow> spent log token kind w = 0"
  by (auto simp: spent_def count_list_0_iff)

text \<open>What a request adds to the windows that were seen, and the room a new token makes.\<close>

lemma limiter_ok_late:
  assumes "limiter_ok p log seen l" and "v \<in> seen" and "w < v"
  shows "limiter_ok p log (insert w seen) l"
  using assms by (auto simp: limiter_ok_def split: option.splits)

lemma limiter_ok_advance:
  assumes "limiter_ok p log seen l" and "\<forall>v \<in> seen. v \<le> w"
  shows "limiter_ok p log (insert w seen) (l\<lparr>rl_latest_window_id := Some w\<rparr>)"
  using assms by (auto simp: limiter_ok_def)

lemma limiter_ok_retain:
  assumes "limiter_ok p log seen l" and "rl_latest_window_id l = Some w"
  shows "limiter_ok p log seen (l\<lparr>rl_windows := filter (\<lambda>(_, tw). saturating_sub w 1 \<le> tw_window_id tw) (rl_windows l)\<rparr>)"
proof -
  let ?keep = "\<lambda>(_ :: bytes, tw). saturating_sub w 1 \<le> tw_window_id tw"
  have ok: "bt_ok (rl_windows l)" "length (rl_windows l) \<le> MAX_RATE_LIMIT_TOKENS" "w \<in> seen"
    using assms by (auto simp: limiter_ok_def)
  have found: "map_of (filter ?keep (rl_windows l)) token = (case map_of (rl_windows l) token of
      None \<Rightarrow> None | Some tw \<Rightarrow> if saturating_sub w 1 \<le> tw_window_id tw then Some tw else None)" for token
    using map_of_bt_filter [OF ok(1), of ?keep token] by (auto split: option.splits)
  have "\<exists>v \<in> seen. unat w' + 1 < unat v"
    if "(token, kind, w') \<in> set log" "map_of (filter ?keep (rl_windows l)) token = None" for token kind w'
  proof (cases "map_of (rl_windows l) token")
    case None
    with assms(1) that(1) show ?thesis by (auto simp: limiter_ok_def)
  next
    case (Some tw)
    with that(2) have "tw_window_id tw < saturating_sub w 1" by (simp add: found split: if_splits)
    moreover have "w' \<le> tw_window_id tw" using assms(1) Some that(1) by (auto simp: limiter_ok_def table_ok_def)
    ultimately have "unat w' + 1 < unat w" by (simp add: word_less_nat_alt word_le_nat_alt unat_saturating_sub)
    with ok(3) show ?thesis by blast
  qed
  moreover have "length (filter ?keep (rl_windows l)) \<le> MAX_RATE_LIMIT_TOKENS"
    using ok(2) length_filter_le [of ?keep "rl_windows l"] by linarith
  ultimately show ?thesis
    using assms ok(1) by (auto simp: limiter_ok_def found split: option.splits if_splits)
qed

text \<open>The table of the token after its request.\<close>

lemma limiter_ok_put:
  assumes "limiter_ok p log seen l" and "w \<in> seen" and "table_ok log' token tw" and "tw_window_id tw = w"
    and "log' = log \<or> log' = (token, kind, w) # log \<and> spent log token kind w < unat (quota p kind)"
    and "bt_contains (rl_windows l) token \<or> length (rl_windows l) < MAX_RATE_LIMIT_TOKENS"
  shows "limiter_ok p log' seen (put_table l token tw)"
proof -
  have "table_ok log' t tw'" if "map_of (rl_windows l) t = Some tw'" "t \<noteq> token" for t tw'
  proof -
    have "table_ok log t tw'" using assms(1) that(1) by (simp add: limiter_ok_def)
    with assms(5) that(2) show ?thesis by (auto simp: table_ok_def spent_Cons)
  qed
  moreover have "spent log' t k v \<le> unat (quota p k)" if "(t, k, v) \<in> set log'" for t k v
    using assms(1,5) that by (auto simp: limiter_ok_def spent_Cons dest: spent_0)
  moreover have "length (bt_insert token tw (rl_windows l)) \<le> MAX_RATE_LIMIT_TOKENS"
    using assms(1,6) length_bt_insert [of "rl_windows l" token tw] by (auto simp: limiter_ok_def)
  ultimately show ?thesis using assms(1-5) by (auto simp: limiter_ok_def put_table_def)
qed

text \<open>The answer of the limiter, against the log.\<close>

definition admit_answer ::
  "rate_limit_policy \<Rightarrow> rate_request list \<Rightarrow> u64 set \<Rightarrow> bytes \<Rightarrow> rate_limit_kind \<Rightarrow> u64 \<Rightarrow> operation_contract_error + unit \<Rightarrow> bool" where
  "admit_answer p log seen token kind w result \<longleftrightarrow> (case result of
     Inr _ \<Rightarrow> token \<noteq> zero_hash \<and> (\<forall>v \<in> seen. v \<le> w) \<and> spent log token kind w < unat (quota p kind)
   | Inl (OperationInvalid _) \<Rightarrow> token = zero_hash \<or> (\<exists>v \<in> seen. w < v)
   | Inl RateLimited \<Rightarrow> token \<noteq> zero_hash \<and> (\<forall>v \<in> seen. v \<le> w) \<and>
       (spent log token kind w = unat (quota p kind) \<or>
        token \<notin> recent_tokens log w \<and> MAX_RATE_LIMIT_TOKENS \<le> card (recent_tokens log w))
   | Inl CursorExpired \<Rightarrow> False)"

lemma limiter_ok_table: "limiter_ok p log seen l \<Longrightarrow> map_of (rl_windows l) token = Some tw \<Longrightarrow> table_ok log token tw"
  by (simp add: limiter_ok_def)

lemma full_tables_recent:
  assumes "limiter_ok p log seen l" and "w \<in> seen" and "\<forall>v \<in> seen. v \<le> w" and "map_of (rl_windows l) token = None"
    and "\<forall>(_, tw) \<in> set (rl_windows l). saturating_sub w 1 \<le> tw_window_id tw"
  shows "token \<notin> recent_tokens log w" and "length (rl_windows l) \<le> card (recent_tokens log w)"
proof -
  show "token \<notin> recent_tokens log w"
    using assms(1,3,4) by (fastforce simp: limiter_ok_def recent_tokens_def word_le_nat_alt)
  have ok: "bt_ok (rl_windows l)" using assms(1) by (simp add: limiter_ok_def)
  have "fst ` set (rl_windows l) \<subseteq> recent_tokens log w"
  proof
    fix t
    assume "t \<in> fst ` set (rl_windows l)"
    then obtain tw where tw: "(t, tw) \<in> set (rl_windows l)" by auto
    then have "map_of (rl_windows l) t = Some tw" using bt_ok_distinct [OF ok] by simp
    then obtain kind where "(t, kind, tw_window_id tw) \<in> set log"
      using limiter_ok_table [OF assms(1)] by (meson table_ok_def)
    moreover have "unat w \<le> unat (tw_window_id tw) + 1"
      using tw assms(5) by (fastforce simp: word_le_nat_alt unat_saturating_sub)
    ultimately show "t \<in> recent_tokens log w" by (auto simp: recent_tokens_def)
  qed
  moreover have "recent_tokens log w \<subseteq> fst ` set log" by (force simp: recent_tokens_def)
  ultimately have "card (fst ` set (rl_windows l)) \<le> card (recent_tokens log w)"
    by (meson card_mono finite_set finite_imageI finite_subset)
  then show "length (rl_windows l) \<le> card (recent_tokens log w)"
    using bt_ok_distinct [OF ok] by (metis distinct_card length_map set_map)
qed

text \<open>The table of a token in the newest window: it holds what the log counts.\<close>

lemma opened_table:
  fixes token :: bytes
  assumes "limiter_ok p log seen l" and "\<forall>v \<in> seen. v \<le> w"
  defines "tw \<equiv> (case map_of (rl_windows l) token of None \<Rightarrow> window_default | Some tw \<Rightarrow> tw)"
  shows "tw_window_id tw \<le> w" and "tw_window_id (roll_window w tw) = w"
    and "unat (count_of (roll_window w tw) kind) = spent log token kind w"
proof -
  have "tw_window_id tw \<le> w \<and> tw_window_id (roll_window w tw) = w \<and>
      unat (count_of (roll_window w tw) kind) = spent log token kind w"
  proof (cases "map_of (rl_windows l) token")
    case None
    have "(token, kind, w) \<notin> set log"
      using assms(1,2) None by (force simp: limiter_ok_def word_le_nat_alt)
    with None show ?thesis
      by (auto simp: tw_def window_default_def roll_window_def count_of_def spent_def word_gt_0)
  next
    case (Some t)
    note table = limiter_ok_table [OF assms(1) Some]
    then obtain k where "(token, k, tw_window_id t) \<in> set log" by (auto simp: table_ok_def)
    with assms(1,2) have "tw_window_id t \<le> w" by (auto simp: limiter_ok_def)
    with table_ok_roll [OF table] Some show ?thesis by (simp add: tw_def)
  qed
  then show "tw_window_id tw \<le> w" and "tw_window_id (roll_window w tw) = w"
    and "unat (count_of (roll_window w tw) kind) = spent log token kind w" by simp_all
qed

lemma limiter_count_ok:
  assumes ok: "limiter_ok p log seen l" and seen: "w \<in> seen" "\<forall>v \<in> seen. v \<le> w" and token: "token \<noteq> zero_hash"
    and room: "bt_contains (rl_windows l) token \<or> (\<forall>(_, tw) \<in> set (rl_windows l). saturating_sub w 1 \<le> tw_window_id tw)"
    and run: "limiter_count l token kind w = (l', result)"
  shows "admit_answer p log seen token kind w result \<and>
    limiter_ok p (if is_ok result then (token, kind, w) # log else log) seen l'"
proof (cases "\<not> bt_contains (rl_windows l) token \<and> MAX_RATE_LIMIT_TOKENS \<le> length (rl_windows l)")
  case True
  with room have "token \<notin> recent_tokens log w" "length (rl_windows l) \<le> card (recent_tokens log w)"
    using full_tables_recent [OF ok seen, of token] by (auto simp: bt_contains_def)
  with True run ok seen token show ?thesis by (auto simp: limiter_count_def admit_answer_def)
next
  case False
  define tw where "tw = (case map_of (rl_windows l) token of None \<Rightarrow> window_default | Some tw \<Rightarrow> tw)"
  define tw1 where "tw1 = roll_window w tw"
  define n where "n = count_of tw1 kind"
  let ?counted = "\<lambda>m. tw1\<lparr>tw_counts := bt_insert kind m (tw_counts tw1)\<rparr>"
  have opened: "tw_window_id tw \<le> w" "tw_window_id tw1 = w" "unat (count_of tw1 k) = spent log token k w" for k
    using opened_table [OF ok seen(2), of token, folded tw_def] by (simp_all add: tw1_def)
  have n: "unat n = spent log token kind w" by (simp add: n_def opened(3))
  have log_late: "w' \<le> w" if "(token, k, w') \<in> set log" for k w'
    using ok seen(2) that by (auto simp: limiter_ok_def)
  have policy: "rl_policy l = p" "rate_policy_valid p" using ok by (auto simp: limiter_ok_def)
  have result: "(l', result) = (if quota p kind \<le> n then (put_table l token (?counted n), Inl RateLimited)
      else (put_table l token (?counted (n + 1)), Inr ()))"
    using run False leD [OF opened(1)] policy(1)
    by (auto simp: limiter_count_def Let_def tw_def [symmetric] tw1_def n_def split: if_splits)
  have free: "bt_contains (rl_windows l) token \<or> length (rl_windows l) < MAX_RATE_LIMIT_TOKENS"
    using False by auto
  show ?thesis
  proof (cases "quota p kind \<le> n")
    case True
    then have "0 < spent log token kind w"
      using quota_pos [OF policy(2), of kind] n by (simp add: word_le_nat_alt word_less_nat_alt)
    then have entry: "(token, kind, w) \<in> set log" by (simp add: spent_def count_list_0_iff zero_less_iff_neq_zero)
    then have table: "table_ok log token (?counted n)"
      using opened log_late n by (auto simp: table_ok_def count_of_put)
    have "spent log token kind w = unat (quota p kind)"
      using ok entry True n by (fastforce simp: limiter_ok_def word_le_nat_alt)
    with True result token seen limiter_ok_put [OF ok seen(1) table _ _ free] opened(2) show ?thesis
      by (simp add: admit_answer_def)
  next
    case below: False
    then have less: "spent log token kind w < unat (quota p kind)" using n by (simp add: word_le_nat_alt)
    then have "unat (n + 1) = Suc (unat n)"
      using n unat_less_size [of "quota p kind"] by (simp add: unat_word_ariths)
    then have table: "table_ok ((token, kind, w) # log) token (?counted (n + 1))"
      using opened log_late n by (auto simp: table_ok_def count_of_put spent_Cons)
    from below result token seen less limiter_ok_put [OF ok seen(1) table _ _ free] opened(2) show ?thesis
      by (simp add: admit_answer_def)
  qed
qed

lemma limiter_admit_ok:
  assumes ok: "limiter_ok p log seen l" and run: "limiter_admit l token kind now = (l', result)"
  defines "w \<equiv> window_of p now"
  shows "admit_answer p log seen token kind w result \<and>
    limiter_ok p (if is_ok result then (token, kind, w) # log else log) (if token = zero_hash then seen else insert w seen) l'"
proof (cases "token = zero_hash \<or> (\<exists>v \<in> seen. w < v)")
  case True
  then have "l' = l" "result = Inl (OperationInvalid ''rate_limit_token_hash_invalid'') \<or>
      result = Inl (OperationInvalid ''rate_limit_clock_moved_backward'')"
    using run ok by (auto simp: limiter_admit_def limiter_ok_def w_def window_of_def Let_def split: option.splits if_splits)
  with True ok limiter_ok_late show ?thesis by (auto simp: admit_answer_def)
next
  case False
  let ?l1 = "l\<lparr>rl_latest_window_id := Some w\<rparr>"
  have ok1: "limiter_ok p log (insert w seen) ?l1"
    using limiter_ok_advance [OF ok] False by (simp add: not_less)
  then have ok2: "limiter_ok p log (insert w seen) (make_room ?l1 token w)"
    using limiter_ok_retain [OF ok1, of w] by (simp add: make_room_def)
  have "limiter_count (make_room ?l1 token w) token kind w = (l', result)"
    using run False ok by (auto simp: limiter_admit_def limiter_ok_def w_def window_of_def Let_def split: option.splits if_splits)
  from limiter_count_ok [OF ok2 _ _ _ _ this] False
  have "admit_answer p log (insert w seen) token kind w result \<and>
      limiter_ok p (if is_ok result then (token, kind, w) # log else log) (insert w seen) l'"
    by (auto simp: make_room_def not_less)
  with False show ?thesis by (auto simp: admit_answer_def not_less split: sum.splits operation_contract_error.splits)
qed

section \<open>The limiter is exact\<close>

lemma limiter_run_ok:
  "limiter_ok p log seen l \<Longrightarrow> limiter_run l log rs = (l', log') \<Longrightarrow> limiter_ok p log' (seen \<union> seen_windows p rs) l'"
proof (induction rs arbitrary: l log seen)
  case Nil
  then show ?case by (simp add: seen_windows_def)
next
  case (Cons r rs)
  obtain token kind now where r: "r = (token, kind, now)" by (cases r)
  obtain l1 result where l1: "limiter_admit l token kind now = (l1, result)" by fastforce
  let ?log = "if is_ok result then (token, kind, window_of p now) # log else log"
  let ?seen = "if token = zero_hash then seen else insert (window_of p now) seen"
  have "limiter_ok p ?log ?seen l1" using limiter_admit_ok [OF Cons.prems(1) l1] by blast
  moreover have "rl_policy l = p" using Cons.prems(1) by (simp add: limiter_ok_def)
  then have "limiter_run l1 ?log rs = (l', log')" using Cons.prems(2) r l1 by (auto split: if_splits)
  ultimately have "limiter_ok p log' (?seen \<union> seen_windows p rs) l'" by (rule Cons.IH)
  moreover have "?seen \<union> seen_windows p rs = seen \<union> seen_windows p (r # rs)" by (auto simp: seen_windows_def r)
  ultimately show ?case by simp
qed

lemma limiter_new_ok: "limiter_new p = Inr l \<Longrightarrow> limiter_ok p [] {} l"
  by (auto simp: limiter_new_def limiter_ok_def split: if_splits)

text \<open>
  C26. The rate limiter answers as a limiter that remembers every admitted request. After any sequence of requests, a
  request is admitted only if its token has made fewer than its quota of such requests in its window and the clock did
  not run backwards; it is refused for its rate only if the quota is spent, or if the token is new and 1,024 tokens
  were admitted in this window or the one before it; the other refusals are a zero token and a clock that ran backwards.
  No token ever exceeds its quota in a window, and the limiter never holds more than 1,024 tables, although it forgets
  the tables of idle tokens.
\<close>

theorem rate_limit_exact:
  assumes "limiter_new p = Inr l0" and "limiter_run l0 [] rs = (l, log)" and "limiter_admit l token kind now = (l', result)"
  shows "admit_answer p log (seen_windows p rs) token kind (window_of p now) result \<and>
    (\<forall>token kind w. spent log token kind w \<le> unat (quota p kind)) \<and> length (rl_windows l) \<le> MAX_RATE_LIMIT_TOKENS"
proof -
  have ok: "limiter_ok p log (seen_windows p rs) l"
    using limiter_run_ok [OF limiter_new_ok [OF assms(1)] assms(2)] by simp
  have "spent log token kind w \<le> unat (quota p kind)" for token kind w
    using ok by (cases "(token, kind, w) \<in> set log") (auto simp: limiter_ok_def spent_def count_list_0_iff)
  with ok limiter_admit_ok [OF ok assms(3)] show ?thesis by (simp add: limiter_ok_def)
qed

definition sample_rate_policy :: rate_limit_policy where
  "sample_rate_policy = \<lparr>rp_window_ms = 1000, rp_reads_per_window = 1, rp_writes_per_window = 1, rp_pastes_per_window = 1\<rparr>"

definition sample_limiter :: token_rate_limiter where
  "sample_limiter = \<lparr>rl_policy = sample_rate_policy, rl_windows = [], rl_latest_window_id = None\<rparr>"

lemma sample_limiter_new: "limiter_new sample_rate_policy = Inr sample_limiter"
  by (simp add: limiter_new_def rate_policy_valid_def sample_rate_policy_def sample_limiter_def MIN_RATE_LIMIT_WINDOW_MS_def
      MAX_RATE_LIMIT_WINDOW_MS_def)

lemma short_token: "length token < 32 \<Longrightarrow> token \<noteq> zero_hash"
  by (auto simp: zero_hash_def)

lemma sample_limiter_run:
  "limiter_run sample_limiter [] [(''a'', ReadCall, 5), (''a'', ReadCall, 7)] =
     (sample_limiter\<lparr>rl_windows := [(''a'', \<lparr>tw_window_id = 0, tw_counts = [(ReadCall, 1)]\<rparr>)], rl_latest_window_id := Some 0\<rparr>,
      [(''a'', ReadCall, 0)])"
  by (simp add: limiter_admit_def limiter_count_def make_room_def sample_limiter_def sample_rate_policy_def short_token
      bt_contains_def MAX_RATE_LIMIT_TOKENS_def put_table_def window_default_def roll_window_def count_of_def
      window_of_def Let_def)

theorem rate_limit_exact_witness:
  "\<exists>l log l'. limiter_run sample_limiter [] [(''a'', ReadCall, 5), (''a'', ReadCall, 7)] = (l, log) \<and>
     limiter_admit l ''a'' ReadCall 999 = (l', Inl RateLimited) \<and> spent log ''a'' ReadCall 0 = 1 \<and>
     admit_answer sample_rate_policy log (seen_windows sample_rate_policy [(''a'', ReadCall, 5), (''a'', ReadCall, 7)])
       ''a'' ReadCall 0 (Inl RateLimited)"
proof -
  let ?l = "sample_limiter\<lparr>rl_windows := [(''a'', \<lparr>tw_window_id = 0, tw_counts = [(ReadCall, 1)]\<rparr>)], rl_latest_window_id := Some 0\<rparr>"
  obtain l' where l': "limiter_admit ?l ''a'' ReadCall 999 = (l', Inl RateLimited)"
    by (simp add: limiter_admit_def limiter_count_def make_room_def sample_limiter_def sample_rate_policy_def short_token
        bt_contains_def MAX_RATE_LIMIT_TOKENS_def put_table_def roll_window_def count_of_def Let_def)
  have "admit_answer sample_rate_policy [(''a'', ReadCall, 0)]
      (seen_windows sample_rate_policy [(''a'', ReadCall, 5), (''a'', ReadCall, 7)]) ''a'' ReadCall 0 (Inl RateLimited)"
    using rate_limit_exact [OF sample_limiter_new sample_limiter_run l'] by (simp add: window_of_def sample_rate_policy_def)
  moreover have "spent [(''a'', ReadCall, 0)] ''a'' ReadCall 0 = 1" by (simp add: spent_def)
  ultimately show ?thesis using l' sample_limiter_run by blast
qed

end
