(* ===== verification/Plugin_Error.thy ===== *)
theory Plugin_Error
  imports Prelude
begin

text \<open>
  The error type of the plugin crate, \<open>crates/vbuff-plugin/src/lib.rs\<close>, and the standard library's decoding of
  UTF-8 that the transforms rely on: \<open>String::from_utf8\<close> and \<open>String::from_utf8_lossy\<close>.
\<close>

datatype plugin_error =
    InvalidManifest string
  | CapabilityDenied string
  | PluginTypeMismatch string
  | PluginInvalidInput string
  | InvalidBundle string
  | PluginInvalidSignature
  | PluginSerialization string

section \<open>UTF-8\<close>

text \<open>For a leading byte: how many bytes continue it, and the range of the first of them.\<close>

definition utf8_lead :: "nat \<Rightarrow> (nat \<times> nat \<times> nat) option" where
  "utf8_lead n =
     (if n < 128 then Some (0, 0, 0)
      else if n < 194 then None
      else if n < 224 then Some (1, 128, 191)
      else if n = 224 then Some (2, 160, 191)
      else if n = 237 then Some (2, 128, 159)
      else if n < 240 then Some (2, 128, 191)
      else if n = 240 then Some (3, 144, 191)
      else if n < 244 then Some (3, 128, 191)
      else if n = 244 then Some (3, 128, 143)
      else None)"

definition continues :: "char \<Rightarrow> bool" where
  "continues b \<longleftrightarrow> (let n = (of_char b :: nat) in 128 \<le> n \<and> n \<le> 191)"

text \<open>The first chunk of the bytes: whether it is a character, and its length. A wrong chunk is as long as it was right.\<close>

fun utf8_chunk :: "bytes \<Rightarrow> bool \<times> nat" where
  "utf8_chunk [] = (False, 0)"
| "utf8_chunk (b # bs) = (case utf8_lead (of_char b) of
     None \<Rightarrow> (False, 1)
   | Some (0, _, _) \<Rightarrow> (True, 1)
   | Some (Suc k, lo, hi) \<Rightarrow> (case bs of
       [] \<Rightarrow> (False, 1)
     | c # cs \<Rightarrow>
         if lo \<le> (of_char c :: nat) \<and> (of_char c :: nat) \<le> hi
         then let m = length (takeWhile continues (take k cs)) in (m = k, 2 + m)
         else (False, 1)))"

text \<open>The replacement character for every wrong chunk.\<close>

fun from_utf8_lossy :: "bytes \<Rightarrow> string" where
  "from_utf8_lossy [] = []"
| "from_utf8_lossy (b # bs) = (case utf8_chunk (b # bs) of (valid, n) \<Rightarrow>
     (if valid then b # take (n - 1) bs else [CHR 0xEF, CHR 0xBF, CHR 0xBD]) @ from_utf8_lossy (drop (n - 1) bs))"

lemma utf8_chunk_valid:
  assumes "utf8_valid (b # bs)"
  shows "\<exists>n. utf8_chunk (b # bs) = (True, Suc n) \<and> utf8_valid (drop n bs)"
proof -
  consider "byte_in 0 127 b" | "\<not> byte_in 0 127 b" "byte_in 194 223 b"
    | "\<not> byte_in 0 127 b" "\<not> byte_in 194 223 b" "byte_in 224 239 b"
    | "\<not> byte_in 0 127 b" "\<not> byte_in 194 223 b" "\<not> byte_in 224 239 b" "byte_in 240 244 b"
    using assms by (auto split: if_splits)
  then show ?thesis
  proof cases
    case 1
    with assms show ?thesis by (auto simp: byte_in_def utf8_lead_def)
  next
    case 2
    then obtain c r where bs: "bs = c # r" "byte_in 128 191 c" "utf8_valid r" using assms by (cases bs) auto
    with 2 have "utf8_chunk (b # bs) = (True, Suc 1)" by (auto simp: byte_in_def utf8_lead_def)
    with bs show ?thesis by auto
  next
    case 3
    then obtain c d r where bs: "bs = c # d # r"
      "byte_in (if of_char b = (224::nat) then 160 else 128) (if of_char b = (237::nat) then 159 else 191) c"
      "byte_in 128 191 d" "utf8_valid r" using assms by (auto split: list.splits)
    with 3 have "utf8_chunk (b # bs) = (True, Suc 2)"
      by (auto simp: byte_in_def utf8_lead_def continues_def Let_def split: if_splits)
    with bs show ?thesis by (auto simp: numeral_2_eq_2)
  next
    case 4
    then obtain c d e r where bs: "bs = c # d # e # r"
      "byte_in (if of_char b = (240::nat) then 144 else 128) (if of_char b = (244::nat) then 143 else 191) c"
      "byte_in 128 191 d" "byte_in 128 191 e" "utf8_valid r" using assms by (auto split: list.splits)
    with 4 have "utf8_chunk (b # bs) = (True, Suc 3)"
      by (auto simp: byte_in_def utf8_lead_def continues_def Let_def split: if_splits)
    with bs show ?thesis by (auto simp: numeral_3_eq_3)
  qed
qed

lemma lossy_valid [simp]: "utf8_valid s \<Longrightarrow> from_utf8_lossy s = s"
proof (induction "length s" arbitrary: s rule: less_induct)
  case less
  show ?case
  proof (cases s)
    case (Cons b bs)
    then obtain n where n: "utf8_chunk (b # bs) = (True, Suc n)" "utf8_valid (drop n bs)"
      using utf8_chunk_valid less.prems by blast
    with less.hyps [of "drop n bs"] Cons show ?thesis by (simp del: utf8_chunk.simps)
  qed simp
qed

end
