(* ===== verification/Plugin_Manifest.thy ===== *)
theory Plugin_Manifest
  imports Plugin_Error Validation
begin

text \<open>
  Plugin manifests and capability grants, \<open>crates/vbuff-plugin/src/manifest.rs\<close>: what a plugin may request, the
  scope of each of its actions, and the grants of the user, which name the exact revision of the manifest by its hash.
  The JSON codec, BLAKE3, \<open>url::Host::parse\<close> and Ed25519 are the fields of \<open>plugin_env\<close>.
\<close>

section \<open>Capabilities\<close>

datatype plugin_capability = ReadClipContent | WriteDerivedClip | SubscribeEvents | Network | FileRead | FileWrite | ProcessSpawn

fun capability_rank :: "plugin_capability \<Rightarrow> nat" where
  "capability_rank ReadClipContent = 0"
| "capability_rank WriteDerivedClip = 1"
| "capability_rank SubscribeEvents = 2"
| "capability_rank Network = 3"
| "capability_rank FileRead = 4"
| "capability_rank FileWrite = 5"
| "capability_rank ProcessSpawn = 6"

instantiation plugin_capability :: linorder
begin

definition less_eq_plugin_capability :: "plugin_capability \<Rightarrow> plugin_capability \<Rightarrow> bool" where
  "less_eq_plugin_capability a b \<longleftrightarrow> capability_rank a \<le> capability_rank b"

definition less_plugin_capability :: "plugin_capability \<Rightarrow> plugin_capability \<Rightarrow> bool" where
  "less_plugin_capability a b \<longleftrightarrow> capability_rank a < capability_rank b"

instance
proof
  show "a = b" if "a \<le> b" "b \<le> a" for a b :: plugin_capability
    using that by (cases a; cases b) (simp_all add: less_eq_plugin_capability_def)
qed (auto simp: less_eq_plugin_capability_def less_plugin_capability_def)

end

fun capability_debug :: "plugin_capability \<Rightarrow> string" where
  "capability_debug ReadClipContent = ''ReadClipContent''"
| "capability_debug WriteDerivedClip = ''WriteDerivedClip''"
| "capability_debug SubscribeEvents = ''SubscribeEvents''"
| "capability_debug Network = ''Network''"
| "capability_debug FileRead = ''FileRead''"
| "capability_debug FileWrite = ''FileWrite''"
| "capability_debug ProcessSpawn = ''ProcessSpawn''"

section \<open>Manifests\<close>

definition PROTOCOL_VERSION :: u16 where "PROTOCOL_VERSION = 1"

record plugin_manifest =
  mf_id :: string
  mf_name :: string
  mf_version :: string
  mf_protocol_version :: u16
  mf_executable_path :: string
  mf_requested_capabilities :: "plugin_capability set"
  mf_network_hosts :: "string set"
  mf_file_paths :: "string set"
  mf_process_commands :: "string set"

record 'sk plugin_env =
  pv_json_manifest :: "plugin_manifest \<Rightarrow> string + bytes"
  pv_blake3 :: "bytes \<Rightarrow> bytes"
  pv_host_parses :: "string \<Rightarrow> bool"
  pv_verifying_key :: "'sk \<Rightarrow> bytes"
  pv_sign :: "'sk \<Rightarrow> bytes \<Rightarrow> bytes"
  pv_key_valid :: "bytes \<Rightarrow> bool"
  pv_signature_valid :: "bytes \<Rightarrow> bool"
  pv_verify :: "bytes \<Rightarrow> bytes \<Rightarrow> bytes \<Rightarrow> bool"

definition valid_plugin_id :: "string \<Rightarrow> bool" where
  "valid_plugin_id s \<longleftrightarrow> s \<noteq> [] \<and> length s \<le> 128 \<and>
     list_all (\<lambda>b. is_ascii_lowercase b \<or> is_ascii_digit b \<or> b \<in> {CHR ''.'', CHR ''-'', CHR ''_''}) s"

definition is_separator :: "char \<Rightarrow> bool" where
  "is_separator c \<longleftrightarrow> c = CHR ''/'' \<or> c = CHR 0x5C"

definition relative_path_ok :: "string \<Rightarrow> bool" where
  "relative_path_ok path \<longleftrightarrow> path \<noteq> [] \<and> \<not> starts_with ''/'' path \<and> \<not> starts_with [CHR 0x5C] path \<and>
     CHR '':'' \<notin> set path \<and> CHR 0x00 \<notin> set path \<and>
     \<not> list_ex (\<lambda>c. c = [] \<or> c = ''.'' \<or> c = ''..'') (split_pred is_separator path)"

definition validate_relative_path :: "string \<Rightarrow> plugin_error + unit" where
  "validate_relative_path path = require (relative_path_ok path) (InvalidBundle (''unsafe relative path: '' @ path))"

definition valid_host :: "'sk plugin_env \<Rightarrow> string \<Rightarrow> bool" where
  "valid_host env host \<longleftrightarrow> host \<noteq> [] \<and> length host \<le> 253 \<and> host = trim host \<and> \<not> has_control host \<and> pv_host_parses env host"

definition valid_scope_path :: "string \<Rightarrow> bool" where
  "valid_scope_path path \<longleftrightarrow> path \<noteq> [] \<and> length path \<le> 1024 \<and> CHR 0x00 \<notin> set path \<and> \<not> has_control path \<and>
     \<not> list_ex (\<lambda>c. c = ''..'') (split_pred is_separator path)"

definition valid_command_id :: "string \<Rightarrow> bool" where
  "valid_command_id command = is_valid_identifier command 128"

text \<open>A scope is requested exactly when its set is not empty; the set is bounded and every element is valid.\<close>

definition scope_ok :: "bool \<Rightarrow> string set \<Rightarrow> nat \<Rightarrow> (string \<Rightarrow> bool) \<Rightarrow> bool" where
  "scope_ok requested scope limit valid \<longleftrightarrow> requested = (scope \<noteq> {}) \<and> card scope \<le> limit \<and> (\<forall>s \<in> scope. valid s)"

abbreviation requests_files :: "plugin_capability set \<Rightarrow> bool" where
  "requests_files caps \<equiv> FileRead \<in> caps \<or> FileWrite \<in> caps"

definition plugin_manifest_validate :: "'sk plugin_env \<Rightarrow> plugin_manifest \<Rightarrow> plugin_error + unit" where
  "plugin_manifest_validate env m =
     try_then (require (valid_plugin_id (mf_id m)) (InvalidManifest ''invalid plugin id'')) (\<lambda>_.
     try_then (require (trim (mf_name m) \<noteq> [] \<and> length (mf_name m) \<le> 128 \<and> \<not> has_control (mf_name m))
       (InvalidManifest ''invalid display name'')) (\<lambda>_.
     try_then (require (valid_version (mf_version m)) (InvalidManifest ''version must be x.y.z'')) (\<lambda>_.
     try_then (require (mf_protocol_version m = PROTOCOL_VERSION) (InvalidManifest ''unsupported native plugin protocol'')) (\<lambda>_.
     try_then (require (length (mf_version m) \<le> 64) (InvalidManifest ''version is too long'')) (\<lambda>_.
     try_then (require (length (mf_executable_path m) \<le> 512) (InvalidManifest ''executable path is too long'')) (\<lambda>_.
     try_then (validate_relative_path (mf_executable_path m)) (\<lambda>_.
     try_then (require (starts_with ''bin/'' (mf_executable_path m))
       (InvalidManifest ''native plugin executable must be stored under bin/'')) (\<lambda>_.
     try_then (require (scope_ok (Network \<in> mf_requested_capabilities m) (mf_network_hosts m) 64 (valid_host env))
       (InvalidManifest ''network capability requires 1-64 valid explicit hosts'')) (\<lambda>_.
     try_then (require (scope_ok (requests_files (mf_requested_capabilities m)) (mf_file_paths m) 64 valid_scope_path)
       (InvalidManifest ''file capability requires 1-64 valid explicit paths'')) (\<lambda>_.
     require (scope_ok (ProcessSpawn \<in> mf_requested_capabilities m) (mf_process_commands m) 32 valid_command_id)
       (InvalidManifest ''process capability requires 1-32 explicit host command ids'')))))))))))"

definition manifest_bytes :: "'sk plugin_env \<Rightarrow> plugin_manifest \<Rightarrow> plugin_error + bytes" where
  "manifest_bytes env m = try_then (plugin_manifest_validate env m) (\<lambda>_. map_sum PluginSerialization id (pv_json_manifest env m))"

definition manifest_hash :: "'sk plugin_env \<Rightarrow> plugin_manifest \<Rightarrow> plugin_error + bytes" where
  "manifest_hash env m = map_sum id (pv_blake3 env) (manifest_bytes env m)"

section \<open>Grants\<close>

record capability_grant =
  cg_plugin_id :: string
  cg_manifest_hash :: bytes
  cg_granted :: "plugin_capability set"

text \<open>The first difference of two ordered sets is the least one.\<close>

definition grant_authorize :: "'sk plugin_env \<Rightarrow> capability_grant \<Rightarrow> plugin_manifest \<Rightarrow> plugin_error + unit" where
  "grant_authorize env g m =
     try_then (if cg_plugin_id g \<noteq> mf_id m then Inr False
       else try_then (manifest_hash env m) (\<lambda>h. Inr (cg_manifest_hash g = h))) (\<lambda>same.
     try_then (require same (CapabilityDenied ''grant does not match this manifest revision'')) (\<lambda>_.
     if mf_requested_capabilities m - cg_granted g \<noteq> {}
     then Inl (CapabilityDenied (capability_debug (Min (mf_requested_capabilities m - cg_granted g))))
     else if cg_granted g - mf_requested_capabilities m \<noteq> {}
     then Inl (CapabilityDenied (''unrequested grant: '' @ capability_debug (Min (cg_granted g - mf_requested_capabilities m))))
     else Inr ()))"

record action_permission_request =
  ar_action_id :: string
  ar_required :: "plugin_capability set"
  ar_network_hosts :: "string set"
  ar_file_paths :: "string set"
  ar_process_commands :: "string set"

definition validate_action_scope ::
  "bool \<Rightarrow> string set \<Rightarrow> string set \<Rightarrow> nat \<Rightarrow> (string \<Rightarrow> bool) \<Rightarrow> string \<Rightarrow> plugin_error + unit" where
  "validate_action_scope required requested manifest_scope limit valid label =
     require (scope_ok required requested limit valid \<and> requested \<subseteq> manifest_scope)
       (CapabilityDenied (''invalid per-action '' @ label @ '' scope''))"

definition action_validate :: "'sk plugin_env \<Rightarrow> action_permission_request \<Rightarrow> plugin_manifest \<Rightarrow> plugin_error + unit" where
  "action_validate env r m =
     try_then (plugin_manifest_validate env m) (\<lambda>_.
     try_then (require (valid_command_id (ar_action_id r)) (InvalidManifest ''invalid action id'')) (\<lambda>_.
     try_then (require (ar_required r \<subseteq> mf_requested_capabilities m)
       (CapabilityDenied ''action requests a capability outside its manifest'')) (\<lambda>_.
     try_then (validate_action_scope (Network \<in> ar_required r) (ar_network_hosts r) (mf_network_hosts m) 64 (valid_host env)
       ''network'') (\<lambda>_.
     try_then (validate_action_scope (requests_files (ar_required r)) (ar_file_paths r) (mf_file_paths m) 64 valid_scope_path
       ''file'') (\<lambda>_.
     validate_action_scope (ProcessSpawn \<in> ar_required r) (ar_process_commands r) (mf_process_commands m) 32 valid_command_id
       ''process'')))))"

record action_capability_grant =
  ag_plugin_id :: string
  ag_manifest_hash :: bytes
  ag_action_id :: string
  ag_granted :: "plugin_capability set"
  ag_network_hosts :: "string set"
  ag_file_paths :: "string set"
  ag_process_commands :: "string set"

definition action_authorize ::
  "'sk plugin_env \<Rightarrow> action_capability_grant \<Rightarrow> plugin_manifest \<Rightarrow> action_permission_request \<Rightarrow> plugin_error + unit" where
  "action_authorize env g m r =
     try_then (action_validate env r m) (\<lambda>_.
     try_then (if ag_plugin_id g \<noteq> mf_id m then Inr False
       else try_then (manifest_hash env m) (\<lambda>h. Inr (ag_manifest_hash g = h \<and> ag_action_id g = ar_action_id r))) (\<lambda>same.
     try_then (require same (CapabilityDenied ''action grant does not match this action revision'')) (\<lambda>_.
     require (ag_granted g = ar_required r \<and> ag_network_hosts g = ar_network_hosts r \<and> ag_file_paths g = ar_file_paths r \<and>
         ag_process_commands g = ar_process_commands r)
       (CapabilityDenied ''action grant must exactly match its requested sandbox''))))"

section \<open>What a grant allows\<close>

lemma scope_ok_confined: "scope_ok requested scope n valid \<Longrightarrow> requested \<longleftrightarrow> scope \<noteq> {}"
  by (simp add: scope_ok_def)

lemma action_validate_Inr:
  "action_validate env r m = Inr u \<Longrightarrow>
     plugin_manifest_validate env m = Inr () \<and> ar_required r \<subseteq> mf_requested_capabilities m \<and>
     ar_network_hosts r \<subseteq> mf_network_hosts m \<and> ar_file_paths r \<subseteq> mf_file_paths m \<and>
     ar_process_commands r \<subseteq> mf_process_commands m \<and>
     (Network \<in> ar_required r \<longleftrightarrow> ar_network_hosts r \<noteq> {}) \<and> (requests_files (ar_required r) \<longleftrightarrow> ar_file_paths r \<noteq> {}) \<and>
     (ProcessSpawn \<in> ar_required r \<longleftrightarrow> ar_process_commands r \<noteq> {})"
  by (auto simp: action_validate_def validate_action_scope_def result_simps scope_ok_def)

lemma manifest_hash_Inr:
  "manifest_hash env m = Inr h \<longleftrightarrow> plugin_manifest_validate env m = Inr () \<and> (\<exists>b. pv_json_manifest env m = Inr b \<and> h = pv_blake3 env b)"
  by (cases "pv_json_manifest env m") (auto simp: manifest_hash_def manifest_bytes_def try_then_def split: sum.splits)

text \<open>A grant of an action is confined to the manifest it names, and names it by its bytes.\<close>

lemma action_authorize_Inr:
  "action_authorize env g m r = Inr u \<Longrightarrow>
     action_validate env r m = Inr () \<and> manifest_hash env m = Inr (ag_manifest_hash g) \<and> ag_plugin_id g = mf_id m \<and>
     ag_action_id g = ar_action_id r \<and> ag_granted g = ar_required r \<and> ag_network_hosts g = ar_network_hosts r \<and>
     ag_file_paths g = ar_file_paths r \<and> ag_process_commands g = ar_process_commands r"
  by (auto simp: action_authorize_def result_simps split: if_splits)

text \<open>A grant of the plugin gives exactly what the manifest requests.\<close>

lemma grant_authorize_exact:
  "grant_authorize env g m = Inr u \<Longrightarrow> cg_granted g = mf_requested_capabilities m \<and> manifest_hash env m = Inr (cg_manifest_hash g)"
  by (auto simp: grant_authorize_def result_simps split: if_splits)

end
