(* ===== verification/Plugin_Network.thy ===== *)
theory Plugin_Network
  imports Plugin_Manifest
begin

text \<open>
  Network access of plugins, \<open>crates/vbuff-plugin/src/governance/network.rs\<close>: the check of a request for a fetch, and
  the check of every address the name of its host resolves to. A parsed \<open>url::Url\<close> is the record of what its accessors
  return. The predicates of \<open>std::net\<close> are written out on octets and segments.

  The reference for the addresses is the list of the IPv4 blocks that are not public, as base address and prefix length.
\<close>

section \<open>URLs\<close>

datatype ipv4 = Ipv4 u8 u8 u8 u8

datatype ipv6 = Ipv6 u16 u16 u16 u16 u16 u16 u16 u16

datatype url_host = DomainHost string | V4Host ipv4 | V6Host ipv6

record url =
  url_scheme :: string
  url_username :: string
  url_password :: "string option"
  url_fragment :: "string option"
  url_port :: "u16 option"
  url_host :: "url_host option"

definition is_nonlocal_domain :: "string \<Rightarrow> bool" where
  "is_nonlocal_domain host \<longleftrightarrow> contains_sub ''.'' host \<and> host \<noteq> ''localhost'' \<and>
     \<not> ends_with ''.localhost'' host \<and> \<not> ends_with ''.local'' host"

text \<open>The conditions a URL must meet wherever the crate accepts one; \<open>port\<close> is \<open>None\<close> for the default port of a scheme.\<close>

definition credential_free_https :: "url \<Rightarrow> bool" where
  "credential_free_https u \<longleftrightarrow> url_scheme u = ''https'' \<and> url_username u = [] \<and> url_password u = None \<and>
     url_fragment u = None \<and> (case url_port u of None \<Rightarrow> True | Some p \<Rightarrow> p = 443)"

section \<open>The policy\<close>

definition MAX_FETCH_BYTES :: u64 where "MAX_FETCH_BYTES = 32 * 1024 * 1024"

record network_fetch_policy =
  nf_max_response_bytes :: u64

record authorized_fetch =
  af_host :: string
  af_port :: u16
  af_max_response_bytes :: u64

definition fetch_policy_new :: "u64 \<Rightarrow> plugin_error + network_fetch_policy" where
  "fetch_policy_new n = (if n = 0 \<or> MAX_FETCH_BYTES < n then Inl (CapabilityDenied ''network response limit is invalid'')
     else Inr \<lparr>nf_max_response_bytes = n\<rparr>)"

definition fetch_host :: "url \<Rightarrow> plugin_error + string" where
  "fetch_host u = (case url_host u of
       Some (DomainHost host) \<Rightarrow> if is_nonlocal_domain host then Inr host
         else Inl (CapabilityDenied ''network fetch requires a non-local domain host'')
     | _ \<Rightarrow> Inl (CapabilityDenied ''network fetch requires a non-local domain host''))"

definition fetch_authorize ::
  "'sk plugin_env \<Rightarrow> network_fetch_policy \<Rightarrow> plugin_manifest \<Rightarrow> action_permission_request \<Rightarrow> url \<Rightarrow> plugin_error + authorized_fetch" where
  "fetch_authorize env policy m r u =
     try_then (action_validate env r m) (\<lambda>_.
     try_then (require (Network \<in> ar_required r) (CapabilityDenied ''action did not request network access'')) (\<lambda>_.
     try_then (require (credential_free_https u) (CapabilityDenied ''network fetch requires credential-free HTTPS URL'')) (\<lambda>_.
     try_then (fetch_host u) (\<lambda>host.
     try_then (require (host \<in> ar_network_hosts r) (CapabilityDenied ''network host is outside the exact action scope'')) (\<lambda>_.
     Inr \<lparr>af_host = host, af_port = 443, af_max_response_bytes = nf_max_response_bytes policy\<rparr>)))))"

section \<open>Addresses\<close>

datatype ip_addr = V4 ipv4 | V6 ipv6

fun ipv4_is_private :: "ipv4 \<Rightarrow> bool" where
  "ipv4_is_private (Ipv4 a b c d) \<longleftrightarrow> a = 10 \<or> (a = 172 \<and> 16 \<le> b \<and> b \<le> 31) \<or> (a = 192 \<and> b = 168)"

fun ipv4_is_documentation :: "ipv4 \<Rightarrow> bool" where
  "ipv4_is_documentation (Ipv4 a b c d) \<longleftrightarrow>
     (a = 192 \<and> b = 0 \<and> c = 2) \<or> (a = 198 \<and> b = 51 \<and> c = 100) \<or> (a = 203 \<and> b = 0 \<and> c = 113)"

fun is_public_ipv4 :: "ipv4 \<Rightarrow> bool" where
  "is_public_ipv4 (Ipv4 a b c d) \<longleftrightarrow>
     \<not> ipv4_is_private (Ipv4 a b c d) \<and> \<not> a = 127 \<and> \<not> (a = 169 \<and> b = 254) \<and>
     \<not> (a = 255 \<and> b = 255 \<and> c = 255 \<and> d = 255) \<and> \<not> ipv4_is_documentation (Ipv4 a b c d) \<and>
     \<not> (a = 0 \<and> b = 0 \<and> c = 0 \<and> d = 0) \<and> \<not> (224 \<le> a \<and> a \<le> 239) \<and>
     a \<noteq> 0 \<and> \<not> (a = 100 \<and> 64 \<le> b \<and> b \<le> 127) \<and> \<not> (a = 192 \<and> b = 0 \<and> c = 0) \<and>
     \<not> (a = 192 \<and> b = 88 \<and> c = 99) \<and> \<not> (a = 198 \<and> (b = 18 \<or> b = 19)) \<and> a < 224"

definition segment_bytes :: "u16 \<Rightarrow> u8 \<times> u8" where
  "segment_bytes s = (ucast (drop_bit 8 s), ucast s)"

fun to_ipv4_mapped :: "ipv6 \<Rightarrow> ipv4 option" where
  "to_ipv4_mapped (Ipv6 s0 s1 s2 s3 s4 s5 s6 s7) =
     (if s0 = 0 \<and> s1 = 0 \<and> s2 = 0 \<and> s3 = 0 \<and> s4 = 0 \<and> s5 = 0xffff
      then (case (segment_bytes s6, segment_bytes s7) of ((a, b), (c, d)) \<Rightarrow> Some (Ipv4 a b c d)) else None)"

unbundle bit_operations_syntax

fun is_public_ipv6 :: "ipv6 \<Rightarrow> bool" where
  "is_public_ipv6 (Ipv6 s0 s1 s2 s3 s4 s5 s6 s7) \<longleftrightarrow>
     \<not> (s0 = 0 \<and> s1 = 0 \<and> s2 = 0 \<and> s3 = 0 \<and> s4 = 0 \<and> s5 = 0 \<and> s6 = 0 \<and> s7 = 1) \<and>
     \<not> (s0 = 0 \<and> s1 = 0 \<and> s2 = 0 \<and> s3 = 0 \<and> s4 = 0 \<and> s5 = 0 \<and> s6 = 0 \<and> s7 = 0) \<and>
     (s0 AND 0xff00) \<noteq> 0xff00 \<and> (s0 AND 0xfe00) \<noteq> 0xfc00 \<and> (s0 AND 0xffc0) \<noteq> 0xfe80 \<and>
     (s0 AND 0xffc0) \<noteq> 0xfec0 \<and> \<not> (s0 = 0x2001 \<and> s1 = 0x0db8)"

fun is_public_address :: "ip_addr \<Rightarrow> bool" where
  "is_public_address (V4 a) = is_public_ipv4 a"
| "is_public_address (V6 a) = (case to_ipv4_mapped a of Some m \<Rightarrow> is_public_ipv4 m | None \<Rightarrow> is_public_ipv6 a)"

definition allows_resolved_address :: "authorized_fetch \<Rightarrow> ip_addr \<Rightarrow> bool" where
  "allows_resolved_address f a = is_public_address a"

section \<open>The reference: blocks of addresses\<close>

fun ipv4_number :: "ipv4 \<Rightarrow> nat" where
  "ipv4_number (Ipv4 a b c d) = unat a * 2 ^ 24 + unat b * 2 ^ 16 + unat c * 2 ^ 8 + unat d"

definition in_block :: "ipv4 \<Rightarrow> ipv4 \<times> nat \<Rightarrow> bool" where
  "in_block a block = (ipv4_number a div 2 ^ (32 - snd block) = ipv4_number (fst block) div 2 ^ (32 - snd block))"

definition reserved_blocks :: "(ipv4 \<times> nat) list" where
  "reserved_blocks =
    [(Ipv4 0 0 0 0, 8), (Ipv4 10 0 0 0, 8), (Ipv4 100 64 0 0, 10), (Ipv4 127 0 0 0, 8), (Ipv4 169 254 0 0, 16),
     (Ipv4 172 16 0 0, 12), (Ipv4 192 0 0 0, 24), (Ipv4 192 0 2 0, 24), (Ipv4 192 88 99 0, 24), (Ipv4 192 168 0 0, 16),
     (Ipv4 198 18 0 0, 15), (Ipv4 198 51 100 0, 24), (Ipv4 203 0 113 0, 24), (Ipv4 224 0 0 0, 3)]"

lemma number_blocks:
  fixes a b c d :: nat
  assumes "a < 256" "b < 256" "c < 256" "d < 256"
  defines "n \<equiv> a * 2 ^ 24 + b * 2 ^ 16 + c * 2 ^ 8 + d"
  shows "n div 2 ^ 24 = a" and "n div 2 ^ 22 = a * 4 + b div 64" and "n div 2 ^ 20 = a * 16 + b div 16"
    and "n div 2 ^ 17 = a * 128 + b div 2" and "n div 2 ^ 16 = a * 256 + b" and "n div 2 ^ 8 = a * 65536 + b * 256 + c"
    and "n div 2 ^ 29 = a div 32"
  using assms by auto

lemma octet_bound: "unat (a :: u8) < 256"
  using unat_less_size[of a] by simp

lemma octet_eq: "(a :: u8) = numeral k \<longleftrightarrow> unat a = numeral k mod 256"
  by (simp add: word_unat_eq_iff unat_numeral take_bit_eq_mod)

lemma octet_le: "(a :: u8) \<le> b \<longleftrightarrow> unat a \<le> unat b"
  by (rule word_le_nat_alt)

lemma octet_less: "(a :: u8) < b \<longleftrightarrow> unat a < unat b"
  by (rule word_less_nat_alt)

lemmas octet_simps = octet_eq octet_le octet_less

lemma digits2: "y < n \<Longrightarrow> v < n \<Longrightarrow> x * n + y = u * n + v \<longleftrightarrow> x = u \<and> y = v" for x y u v n :: nat
  by (metis div_mult_self3 div_less add.right_neutral add_left_cancel not_less_zero)

lemma digits3: "y < 256 \<Longrightarrow> z < 256 \<Longrightarrow> v < 256 \<Longrightarrow> w < 256 \<Longrightarrow>
    x * 65536 + y * 256 + z = u * 65536 + v * 256 + w \<longleftrightarrow> x = u \<and> y = v \<and> z = w" for x y z u v w :: nat
proof -
  have "x * 65536 + y * 256 + z = (x * 256 + y) * 256 + z" for x y z :: nat by simp
  then show "y < 256 \<Longrightarrow> z < 256 \<Longrightarrow> v < 256 \<Longrightarrow> w < 256 \<Longrightarrow>
    x * 65536 + y * 256 + z = u * 65536 + v * 256 + w \<longleftrightarrow> x = u \<and> y = v \<and> z = w"
    by (metis digits2)
qed

lemma div_one_iff: "0 < k \<Longrightarrow> y div k = q \<longleftrightarrow> q * k \<le> y \<and> y < q * k + k" for y k q :: nat
  by (metis add.commute div_nat_eqI dividend_less_div_times mult.commute mult_Suc_right times_div_less_eq_dividend)

text \<open>Each block, as the conditions on octets that the code states.\<close>

lemma in_block_iff:
  "in_block (Ipv4 a b c d) (Ipv4 0 0 0 0, 8) \<longleftrightarrow> a = 0"
  "in_block (Ipv4 a b c d) (Ipv4 10 0 0 0, 8) \<longleftrightarrow> a = 10"
  "in_block (Ipv4 a b c d) (Ipv4 100 64 0 0, 10) \<longleftrightarrow> a = 100 \<and> 64 \<le> b \<and> b \<le> 127"
  "in_block (Ipv4 a b c d) (Ipv4 127 0 0 0, 8) \<longleftrightarrow> a = 127"
  "in_block (Ipv4 a b c d) (Ipv4 169 254 0 0, 16) \<longleftrightarrow> a = 169 \<and> b = 254"
  "in_block (Ipv4 a b c d) (Ipv4 172 16 0 0, 12) \<longleftrightarrow> a = 172 \<and> 16 \<le> b \<and> b \<le> 31"
  "in_block (Ipv4 a b c d) (Ipv4 192 0 0 0, 24) \<longleftrightarrow> a = 192 \<and> b = 0 \<and> c = 0"
  "in_block (Ipv4 a b c d) (Ipv4 192 0 2 0, 24) \<longleftrightarrow> a = 192 \<and> b = 0 \<and> c = 2"
  "in_block (Ipv4 a b c d) (Ipv4 192 88 99 0, 24) \<longleftrightarrow> a = 192 \<and> b = 88 \<and> c = 99"
  "in_block (Ipv4 a b c d) (Ipv4 192 168 0 0, 16) \<longleftrightarrow> a = 192 \<and> b = 168"
  "in_block (Ipv4 a b c d) (Ipv4 198 18 0 0, 15) \<longleftrightarrow> a = 198 \<and> (b = 18 \<or> b = 19)"
  "in_block (Ipv4 a b c d) (Ipv4 198 51 100 0, 24) \<longleftrightarrow> a = 198 \<and> b = 51 \<and> c = 100"
  "in_block (Ipv4 a b c d) (Ipv4 203 0 113 0, 24) \<longleftrightarrow> a = 203 \<and> b = 0 \<and> c = 113"
  "in_block (Ipv4 a b c d) (Ipv4 224 0 0 0, 3) \<longleftrightarrow> 224 \<le> a"
proof -
  note bounds = octet_bound[of a] octet_bound[of b] octet_bound[of c] octet_bound[of d]
  note ns = number_blocks[OF bounds, simplified]
  show "in_block (Ipv4 a b c d) (Ipv4 0 0 0 0, 8) \<longleftrightarrow> a = 0"
    "in_block (Ipv4 a b c d) (Ipv4 10 0 0 0, 8) \<longleftrightarrow> a = 10"
    "in_block (Ipv4 a b c d) (Ipv4 127 0 0 0, 8) \<longleftrightarrow> a = 127"
    using bounds by (simp_all add: in_block_def ns octet_eq unat_eq_zero)
  show "in_block (Ipv4 a b c d) (Ipv4 100 64 0 0, 10) \<longleftrightarrow> a = 100 \<and> 64 \<le> b \<and> b \<le> 127"
    using bounds digits2[of "unat b div 64" 4 1 "unat a" 100] by (simp add: in_block_def ns octet_simps div_one_iff conj_ac unat_eq_zero) linarith
  show "in_block (Ipv4 a b c d) (Ipv4 169 254 0 0, 16) \<longleftrightarrow> a = 169 \<and> b = 254"
    using bounds digits2[of "unat b" 256 254 "unat a" 169] by (simp add: in_block_def ns octet_simps div_one_iff conj_ac unat_eq_zero)
  show "in_block (Ipv4 a b c d) (Ipv4 172 16 0 0, 12) \<longleftrightarrow> a = 172 \<and> 16 \<le> b \<and> b \<le> 31"
    using bounds digits2[of "unat b div 16" 16 1 "unat a" 172] by (simp add: in_block_def ns octet_simps div_one_iff conj_ac unat_eq_zero) linarith
  show "in_block (Ipv4 a b c d) (Ipv4 192 0 0 0, 24) \<longleftrightarrow> a = 192 \<and> b = 0 \<and> c = 0"
    using bounds digits3[of "unat b" "unat c" 0 0 "unat a" 192] by (simp add: in_block_def ns octet_simps div_one_iff conj_ac unat_eq_zero)
  show "in_block (Ipv4 a b c d) (Ipv4 192 0 2 0, 24) \<longleftrightarrow> a = 192 \<and> b = 0 \<and> c = 2"
    using bounds digits3[of "unat b" "unat c" 0 2 "unat a" 192] by (simp add: in_block_def ns octet_simps div_one_iff conj_ac unat_eq_zero)
  show "in_block (Ipv4 a b c d) (Ipv4 192 88 99 0, 24) \<longleftrightarrow> a = 192 \<and> b = 88 \<and> c = 99"
    using bounds digits3[of "unat b" "unat c" 88 99 "unat a" 192] by (simp add: in_block_def ns octet_simps div_one_iff conj_ac unat_eq_zero)
  show "in_block (Ipv4 a b c d) (Ipv4 192 168 0 0, 16) \<longleftrightarrow> a = 192 \<and> b = 168"
    using bounds digits2[of "unat b" 256 168 "unat a" 192] by (simp add: in_block_def ns octet_simps div_one_iff conj_ac unat_eq_zero)
  show "in_block (Ipv4 a b c d) (Ipv4 198 18 0 0, 15) \<longleftrightarrow> a = 198 \<and> (b = 18 \<or> b = 19)"
    using bounds digits2[of "unat b div 2" 128 9 "unat a" 198] by (simp add: in_block_def ns octet_simps div_one_iff conj_ac unat_eq_zero) linarith
  show "in_block (Ipv4 a b c d) (Ipv4 198 51 100 0, 24) \<longleftrightarrow> a = 198 \<and> b = 51 \<and> c = 100"
    using bounds digits3[of "unat b" "unat c" 51 100 "unat a" 198] by (simp add: in_block_def ns octet_simps div_one_iff conj_ac unat_eq_zero)
  show "in_block (Ipv4 a b c d) (Ipv4 203 0 113 0, 24) \<longleftrightarrow> a = 203 \<and> b = 0 \<and> c = 113"
    using bounds digits3[of "unat b" "unat c" 0 113 "unat a" 203] by (simp add: in_block_def ns octet_simps div_one_iff conj_ac unat_eq_zero)
  show "in_block (Ipv4 a b c d) (Ipv4 224 0 0 0, 3) \<longleftrightarrow> 224 \<le> a"
    using bounds octet_bound[of a] by (simp add: in_block_def ns octet_simps div_one_iff conj_ac unat_eq_zero)
qed

lemma public_ipv4_iff: "is_public_ipv4 a \<longleftrightarrow> list_all (\<lambda>blk. \<not> in_block a blk) reserved_blocks"
proof (cases a)
  case (Ipv4 a b c d)
  have broadcast: "a = 255 \<Longrightarrow> 224 \<le> a" by simp
  show ?thesis
    unfolding Ipv4 reserved_blocks_def list.pred_inject(2) in_block_iff is_public_ipv4.simps ipv4_is_private.simps
      ipv4_is_documentation.simps not_le[symmetric, of a 224]
    using broadcast by (simp only: list.pred_inject(1) simp_thms) argo
qed

text \<open>The embedded address of a mapped one; no other IPv6 address is compared with the blocks.\<close>

lemma mapped_decided_as_ipv4:
  "to_ipv4_mapped a = Some m \<Longrightarrow> is_public_address (V6 a) = is_public_address (V4 m)"
  by simp

lemma fetch_host_Inr: "fetch_host u = Inr host \<longleftrightarrow> url_host u = Some (DomainHost host) \<and> is_nonlocal_domain host"
  by (auto simp: fetch_host_def split: option.splits url_host.splits)

lemma fetch_policy_new_Inr: "fetch_policy_new n = Inr p \<Longrightarrow> nf_max_response_bytes p = n \<and> n \<noteq> 0 \<and> n \<le> MAX_FETCH_BYTES"
  by (auto simp: fetch_policy_new_def split: if_splits)

text \<open>
  C28. A fetch that was authorised for an action the user granted stays in the sandbox the user saw: the plugin may use
  the network at all, the host is in the scope of the grant and of the manifest, is the host of the URL, and is not a
  name of the local machine or network; the URL carries no credentials and the port is 443; the response is at most
  32 MiB; and the address the name resolves to, as IPv4 or mapped into IPv6, lies in no reserved block.
\<close>

theorem plugin_fetch_confined:
  assumes "action_authorize env g m r = Inr ()" and "fetch_policy_new n = Inr policy"
    and "fetch_authorize env policy m r u = Inr f"
  shows "Network \<in> ag_granted g \<and> Network \<in> mf_requested_capabilities m \<and>
    af_host f \<in> ag_network_hosts g \<and> af_host f \<in> mf_network_hosts m \<and>
    url_host u = Some (DomainHost (af_host f)) \<and> is_nonlocal_domain (af_host f) \<and>
    credential_free_https u \<and> af_port f = 443 \<and> 0 < af_max_response_bytes f \<and> af_max_response_bytes f \<le> MAX_FETCH_BYTES \<and>
    (\<forall>a. allows_resolved_address f (V4 a) \<longleftrightarrow> list_all (\<lambda>blk. \<not> in_block a blk) reserved_blocks) \<and>
    (\<forall>a. case to_ipv4_mapped a of None \<Rightarrow> allows_resolved_address f (V6 a) = is_public_ipv6 a
       | Some v4 \<Rightarrow> allows_resolved_address f (V6 a) = list_all (\<lambda>blk. \<not> in_block v4 blk) reserved_blocks)"
proof -
  have grant: "action_validate env r m = Inr ()" "ag_granted g = ar_required r" "ag_network_hosts g = ar_network_hosts r"
    using action_authorize_Inr[OF assms(1)] by auto
  have fetch: "Network \<in> ar_required r" "credential_free_https u" "url_host u = Some (DomainHost (af_host f))"
    "is_nonlocal_domain (af_host f)" "af_host f \<in> ar_network_hosts r" "af_port f = 443"
    "af_max_response_bytes f = nf_max_response_bytes policy"
    using assms(3) by (auto simp: fetch_authorize_def result_simps fetch_host_Inr)
  show ?thesis
    using grant fetch action_validate_Inr[OF grant(1)] fetch_policy_new_Inr[OF assms(2)]
    by (auto simp: allows_resolved_address_def public_ipv4_iff word_gt_0 split: option.splits)
qed

definition sample_plugin_env :: "unit plugin_env" where
  "sample_plugin_env = \<lparr>pv_json_manifest = \<lambda>m. Inr (mf_id m @ mf_version m), pv_blake3 = id, pv_host_parses = \<lambda>_. True,
     pv_verifying_key = \<lambda>_. [], pv_sign = \<lambda>_ b. b, pv_key_valid = \<lambda>_. True, pv_signature_valid = \<lambda>_. True,
     pv_verify = \<lambda>_ b s. b = s\<rparr>"

definition sample_manifest :: plugin_manifest where
  "sample_manifest = \<lparr>mf_id = ''p'', mf_name = ''P'', mf_version = ''1.0.0'', mf_protocol_version = 1,
     mf_executable_path = ''bin/p'', mf_requested_capabilities = {Network}, mf_network_hosts = {''a.b''},
     mf_file_paths = {}, mf_process_commands = {}\<rparr>"

definition sample_action :: action_permission_request where
  "sample_action = \<lparr>ar_action_id = ''a'', ar_required = {Network}, ar_network_hosts = {''a.b''}, ar_file_paths = {},
     ar_process_commands = {}\<rparr>"

definition sample_action_grant :: action_capability_grant where
  "sample_action_grant = \<lparr>ag_plugin_id = ''p'', ag_manifest_hash = ''p1.0.0'', ag_action_id = ''a'', ag_granted = {Network},
     ag_network_hosts = {''a.b''}, ag_file_paths = {}, ag_process_commands = {}\<rparr>"

definition sample_url :: url where
  "sample_url = \<lparr>url_scheme = ''https'', url_username = [], url_password = None, url_fragment = None, url_port = None,
     url_host = Some (DomainHost ''a.b'')\<rparr>"

definition sample_fetch :: authorized_fetch where
  "sample_fetch = \<lparr>af_host = ''a.b'', af_port = 443, af_max_response_bytes = 1024\<rparr>"

lemma sample_manifest_valid: "plugin_manifest_validate sample_plugin_env sample_manifest = Inr ()"
proof -
  have ids: "valid_plugin_id ''p''" "valid_version ''1.0.0''"
    by code_simp+
  have name: "trim ''P'' = ''P''" "\<not> has_control ''P''" and host: "valid_host sample_plugin_env ''a.b''"
    by (simp_all add: trim_ascii_word has_control_ascii valid_host_def sample_plugin_env_def)
  have path: "relative_path_ok ''bin/p''" "starts_with ''bin/'' ''bin/p''"
    by code_simp+
  show ?thesis
    unfolding plugin_manifest_validate_def sample_manifest_def
    by (simp add: ids name host path validate_relative_path_def scope_ok_def PROTOCOL_VERSION_def)
qed

lemma sample_action_valid: "action_validate sample_plugin_env sample_action sample_manifest = Inr ()"
proof -
  have "valid_command_id ''a''" by code_simp
  moreover have "valid_host sample_plugin_env ''a.b''"
    by (simp add: trim_ascii_word has_control_ascii valid_host_def sample_plugin_env_def)
  ultimately show ?thesis
    unfolding action_validate_def sample_manifest_valid
    by (simp add: sample_action_def sample_manifest_def validate_action_scope_def scope_ok_def)
qed

lemma sample_granted: "action_authorize sample_plugin_env sample_action_grant sample_manifest sample_action = Inr ()"
proof -
  have "manifest_hash sample_plugin_env sample_manifest = Inr ''p1.0.0''"
    using sample_manifest_valid by (simp add: manifest_hash_Inr sample_plugin_env_def sample_manifest_def)
  then show ?thesis
    unfolding action_authorize_def sample_action_valid
    by (simp add: sample_action_grant_def sample_manifest_def sample_action_def)
qed

lemma sample_policy: "fetch_policy_new 1024 = Inr \<lparr>nf_max_response_bytes = 1024\<rparr>"
  by (simp add: fetch_policy_new_def MAX_FETCH_BYTES_def)

lemma sample_authorized:
  "fetch_authorize sample_plugin_env \<lparr>nf_max_response_bytes = 1024\<rparr> sample_manifest sample_action sample_url = Inr sample_fetch"
proof -
  have "is_nonlocal_domain ''a.b''" by code_simp
  then show ?thesis
    unfolding fetch_authorize_def sample_action_valid
    by (simp add: sample_action_def sample_url_def sample_fetch_def credential_free_https_def fetch_host_def)
qed

theorem plugin_fetch_confined_witness:
  "Network \<in> ag_granted sample_action_grant \<and> is_nonlocal_domain ''a.b'' \<and>
   \<not> allows_resolved_address sample_fetch (V4 (Ipv4 10 0 0 1)) \<and> allows_resolved_address sample_fetch (V4 (Ipv4 8 8 8 8))"
proof -
  note sandbox = plugin_fetch_confined[OF sample_granted sample_policy sample_authorized]
  have blocks: "\<not> list_all (\<lambda>blk. \<not> in_block (Ipv4 10 0 0 1) blk) reserved_blocks"
    "list_all (\<lambda>blk. \<not> in_block (Ipv4 8 8 8 8) blk) reserved_blocks"
    by (simp_all add: reserved_blocks_def in_block_def)
  show ?thesis using sandbox blocks by (simp add: sample_fetch_def)
qed

end
