(* ===== verification/Ipc_Protocol.thy ===== *)
theory Ipc_Protocol
  imports Rate_Limit Validation Clip_Types Plugin_Network
begin

text \<open>
  The contracts of local clients: the handshake, batches, event filters and dry runs
  (\<open>crates/vbuff-ipc/src/handshake.rs\<close>, \<open>batch.rs\<close>, \<open>event.rs\<close>, \<open>dry_run.rs\<close>), the control protocol of
  \<open>crates/vbuff-types/src/ipc.rs\<close>, and the operation contracts of \<open>crates/vbuff-ipc/src/operations/\<close> (envelopes,
  headless plans, the replay cursor, the loopback endpoint, diagnostics, shell completion). Clip ids are a type parameter;
  the JSON codec of a health snapshot is an argument.
\<close>

section \<open>The handshake\<close>

record protocol_range =
  pr_minimum :: u16
  pr_maximum :: u16

definition range_contains :: "protocol_range \<Rightarrow> u16 \<Rightarrow> bool" where
  "range_contains r v \<longleftrightarrow> pr_minimum r \<le> v \<and> v \<le> pr_maximum r"

datatype ipc_capability = ReadHistory | ReadSensitiveHistory | MutateHistory | SubscribeToEvents | DryRunTransforms
  | BatchMutations | PluginManagement | Diagnostics

record client_hello =
  ch_client_name :: string
  ch_protocol :: protocol_range
  ch_requested :: "ipc_capability set"

record server_policy =
  sp_protocol :: protocol_range
  sp_available :: "ipc_capability set"

record server_welcome =
  sw_protocol_version :: u16
  sw_granted :: "ipc_capability set"
  sw_denied :: "ipc_capability set"

datatype handshake_error = InvalidRange | IncompatibleProtocol | InvalidClientName

definition negotiate :: "client_hello \<Rightarrow> server_policy \<Rightarrow> handshake_error + server_welcome" where
  "negotiate hello server =
     (if trim (ch_client_name hello) = [] \<or> 128 < length (ch_client_name hello) \<or> has_control (ch_client_name hello)
      then Inl InvalidClientName
      else if pr_maximum (ch_protocol hello) < pr_minimum (ch_protocol hello) \<or> pr_maximum (sp_protocol server) < pr_minimum (sp_protocol server)
      then Inl InvalidRange
      else let lo = max (pr_minimum (ch_protocol hello)) (pr_minimum (sp_protocol server));
               hi = min (pr_maximum (ch_protocol hello)) (pr_maximum (sp_protocol server)) in
        if hi < lo then Inl IncompatibleProtocol
        else Inr \<lparr>sw_protocol_version = hi, sw_granted = ch_requested hello \<inter> sp_available server,
          sw_denied = ch_requested hello - sp_available server\<rparr>)"

section \<open>Batches, events and dry runs\<close>

datatype 'id batch_mutation = SetPinned 'id bool | SetFavorite 'id bool | DeleteClip 'id

record 'id batch_request =
  br_request_id :: string
  br_mutations :: "'id batch_mutation list"

record batch_response =
  bs_request_id :: string
  bs_committed :: bool
  bs_applied :: nat
  bs_error_code :: "string option"

definition batch_validate :: "'id batch_request \<Rightarrow> nat \<Rightarrow> string + unit" where
  "batch_validate r n =
     try_then (require (is_valid_identifier (br_request_id r) 128) ''request_id_invalid'') (\<lambda>_.
     try_then (require (br_mutations r \<noteq> []) ''batch_empty'') (\<lambda>_.
     require (length (br_mutations r) \<le> n) ''batch_too_large''))"

datatype event_kind = CapturedEvent | UpdatedEvent | DeletedEvent | PastedEvent | HealthChangedEvent | SecurityChangedEvent

record 'id event_envelope =
  ee_sequence :: u64
  ee_kind :: event_kind
  ee_clip_id :: "'id option"
  ee_collection_id :: "string option"
  ee_sensitive :: bool

record event_filter =
  ef_kinds :: "event_kind set"
  ef_collection_ids :: "string set"
  ef_include_sensitive :: bool

definition MAX_FILTER_COLLECTIONS :: nat where "MAX_FILTER_COLLECTIONS = 64"

definition event_filter_default :: event_filter where
  "event_filter_default = \<lparr>ef_kinds = {}, ef_collection_ids = {}, ef_include_sensitive = False\<rparr>"

definition event_filter_validate :: "event_filter \<Rightarrow> string + unit" where
  "event_filter_validate f =
     try_then (require (card (ef_collection_ids f) \<le> MAX_FILTER_COLLECTIONS) ''too_many_collection_filters'') (\<lambda>_.
     require (\<forall>c \<in> ef_collection_ids f. is_valid_identifier c 128) ''invalid_collection_filter'')"

definition matches_metadata :: "event_filter \<Rightarrow> 'id event_envelope \<Rightarrow> bool" where
  "matches_metadata f e \<longleftrightarrow> is_ok (event_filter_validate f) \<and> (ef_kinds f = {} \<or> ee_kind e \<in> ef_kinds f) \<and>
     (ef_collection_ids f = {} \<or> (case ee_collection_id e of None \<Rightarrow> False | Some c \<Rightarrow> c \<in> ef_collection_ids f))"

definition event_matches :: "event_filter \<Rightarrow> 'id event_envelope \<Rightarrow> bool" where
  "event_matches f e \<longleftrightarrow> matches_metadata f e \<and> \<not> ee_sensitive e"

definition matches_with_grants :: "event_filter \<Rightarrow> 'id event_envelope \<Rightarrow> ipc_capability set \<Rightarrow> bool" where
  "matches_with_grants f e granted \<longleftrightarrow> matches_metadata f e \<and>
     (\<not> ee_sensitive e \<or> (ef_include_sensitive f \<and> ReadSensitiveHistory \<in> granted))"

definition IPC_MAX_PREVIEW_BYTES :: nat where "IPC_MAX_PREVIEW_BYTES = 1024 * 1024"
definition MAX_WARNINGS :: nat where "MAX_WARNINGS = 32"
definition MAX_WARNING_BYTES :: nat where "MAX_WARNING_BYTES = 256"

record 'id dry_run_request =
  dq_request_id :: string
  dq_pipeline_id :: string
  dq_clip_id :: 'id
  dq_preview_bytes :: nat

record dry_run_preview =
  dp_request_id :: string
  dp_output_mime :: string
  dp_output_bytes :: u64
  dp_output_hash :: bytes
  dp_changed :: bool
  dp_bounded_preview :: string
  dp_warnings :: "string list"

definition dry_run_request_validate :: "'id dry_run_request \<Rightarrow> nat \<Rightarrow> string + unit" where
  "dry_run_request_validate r n =
     try_then (require (is_valid_identifier (dq_request_id r) 128) ''request_id_invalid'') (\<lambda>_.
     try_then (require (is_valid_identifier (dq_pipeline_id r) 128) ''pipeline_id_invalid'') (\<lambda>_.
     require (dq_preview_bytes r \<le> min n IPC_MAX_PREVIEW_BYTES) ''preview_too_large''))"

definition dry_run_preview_validate :: "dry_run_preview \<Rightarrow> string + unit" where
  "dry_run_preview_validate p =
     try_then (require (is_valid_identifier (dp_request_id p) 128) ''request_id_invalid'') (\<lambda>_.
     try_then (require (dp_output_mime p \<noteq> [] \<and> length (dp_output_mime p) \<le> 256 \<and> \<not> has_control (dp_output_mime p))
       ''output_mime_invalid'') (\<lambda>_.
     try_then (require (length (dp_bounded_preview p) \<le> IPC_MAX_PREVIEW_BYTES) ''preview_too_large'') (\<lambda>_.
     require (length (dp_warnings p) \<le> MAX_WARNINGS \<and>
       list_all (\<lambda>w. w \<noteq> [] \<and> length w \<le> MAX_WARNING_BYTES \<and> \<not> has_control w) (dp_warnings p)) ''warnings_invalid'')))"

datatype client_intent = ShowPopup | PingIntent

datatype server_response = HistoryResult string | AckResponse | PongResponse | RejectedResponse string

section \<open>Operations\<close>

definition RPC_SCHEMA_VERSION :: u16 where "RPC_SCHEMA_VERSION = 1"
definition MAX_ID_BYTES :: nat where "MAX_ID_BYTES = 128"
definition MAX_COMPLETION_RESULTS :: nat where "MAX_COMPLETION_RESULTS = 50"

definition validate_operation_id :: "string \<Rightarrow> operation_contract_error + unit" where
  "validate_operation_id s = require (s \<noteq> [] \<and> length s \<le> MAX_ID_BYTES \<and>
     list_all (\<lambda>b. is_ascii_alphanumeric b \<or> b \<in> {CHR ''-'', CHR ''_'', CHR ''.''}) s) (OperationInvalid ''invalid_identifier'')"

record 'p rpc_envelope =
  re_schema :: u16
  re_request_id :: string
  re_payload :: 'p

definition envelope_validate_header :: "'p rpc_envelope \<Rightarrow> operation_contract_error + unit" where
  "envelope_validate_header e =
     try_then (require (re_schema e = RPC_SCHEMA_VERSION) (OperationInvalid ''unsupported_schema'')) (\<lambda>_.
     validate_operation_id (re_request_id e))"

datatype mutation_mode = DryRunMode | ApplyMode

record 'p mutation_request =
  mq_mode :: mutation_mode
  mq_operation :: 'p

record mutation_preview =
  mv_operation_id :: string
  mv_affected_items :: nat
  mv_estimated_byte_delta :: int
  mv_warning_ids :: "string list"

definition mutation_preview_validate :: "mutation_preview \<Rightarrow> operation_contract_error + unit" where
  "mutation_preview_validate p =
     try_then (validate_operation_id (mv_operation_id p)) (\<lambda>_.
     require (length (mv_warning_ids p) \<le> 32 \<and> list_all (\<lambda>w. is_ok (validate_operation_id w)) (mv_warning_ids p))
       (OperationInvalid ''invalid_warning_ids''))"

datatype headless_operation_kind = ImportOperation | ExportOperation | BackupOperation | HealthOperation | FixtureExportOperation

definition requires_preview :: "headless_operation_kind \<Rightarrow> bool" where
  "requires_preview k \<longleftrightarrow> k \<noteq> HealthOperation"

record headless_operation_plan =
  hp_operation_id :: string
  hp_kind :: headless_operation_kind
  hp_launch_gui :: bool
  hp_launch_tray :: bool
  hp_mutating :: bool
  hp_mode :: mutation_mode

definition headless_plan_validate :: "headless_operation_plan \<Rightarrow> operation_contract_error + unit" where
  "headless_plan_validate p =
     try_then (validate_operation_id (hp_operation_id p)) (\<lambda>_.
     try_then (require (\<not> hp_launch_gui p \<and> \<not> hp_launch_tray p) (OperationInvalid ''headless_operation_started_ui'')) (\<lambda>_.
     try_then (require (hp_mutating p = requires_preview (hp_kind p)) (OperationInvalid ''headless_mutation_class_mismatch'')) (\<lambda>_.
     require (\<not> (requires_preview (hp_kind p) \<and> hp_mode p \<noteq> DryRunMode))
       (OperationInvalid ''mutating_headless_operation_requires_preview''))))"

record event_replay_cursor =
  rc_stream_id :: string
  rc_next_sequence :: u64

definition cursor_validate :: "event_replay_cursor \<Rightarrow> operation_contract_error + unit" where
  "cursor_validate c =
     try_then (validate_operation_id (rc_stream_id c)) (\<lambda>_.
     require (rc_next_sequence c \<noteq> 0) (OperationInvalid ''invalid_replay_sequence''))"

fun strictly_ordered :: "'id event_envelope list \<Rightarrow> bool" where
  "strictly_ordered (a # b # es) \<longleftrightarrow> ee_sequence a < ee_sequence b \<and> strictly_ordered (b # es)"
| "strictly_ordered _ \<longleftrightarrow> True"

definition cursor_select ::
  "event_replay_cursor \<Rightarrow> u64 \<Rightarrow> 'id event_envelope list \<Rightarrow> nat \<Rightarrow> operation_contract_error + 'id event_envelope list" where
  "cursor_select c retained es limit =
     try_then (cursor_validate c) (\<lambda>_.
     try_then (require (retained \<noteq> 0 \<and> limit \<noteq> 0) (OperationInvalid ''invalid_replay_window'')) (\<lambda>_.
     try_then (require (\<not> rc_next_sequence c < retained) CursorExpired) (\<lambda>_.
     try_then (require (\<not> list_ex (\<lambda>e. ee_sequence e < retained) es \<and> strictly_ordered es)
       (OperationInvalid ''replay_events_not_strictly_ordered'')) (\<lambda>_.
     Inr (take (min limit 1024) (filter (\<lambda>e. rc_next_sequence c \<le> ee_sequence e) es))))))"

record loopback_webhook_endpoint =
  lw_bind_address :: ip_addr
  lw_port :: u16
  lw_token_scope :: string

fun ip_is_loopback :: "ip_addr \<Rightarrow> bool" where
  "ip_is_loopback (V4 (Ipv4 a b c d)) \<longleftrightarrow> a = 127"
| "ip_is_loopback (V6 (Ipv6 s0 s1 s2 s3 s4 s5 s6 s7)) \<longleftrightarrow>
     s0 = 0 \<and> s1 = 0 \<and> s2 = 0 \<and> s3 = 0 \<and> s4 = 0 \<and> s5 = 0 \<and> s6 = 0 \<and> s7 = 1"

definition loopback_validate :: "loopback_webhook_endpoint \<Rightarrow> operation_contract_error + unit" where
  "loopback_validate w =
     try_then (require (ip_is_loopback (lw_bind_address w) \<and> lw_port w \<noteq> 0)
       (OperationInvalid ''webhook_must_bind_to_loopback'')) (\<lambda>_.
     try_then (validate_operation_id (lw_token_scope w)) (\<lambda>_.
     require (lw_token_scope w = ''webhook.ingress'') (OperationInvalid ''webhook_token_scope_invalid'')))"

section \<open>Diagnostics and completion\<close>

record backup_command_plan =
  bp_operation_id :: string
  bp_encrypted :: bool
  bp_include_manifest :: bool
  bp_verify_after_write :: bool
  bp_mode :: mutation_mode

definition backup_plan_validate :: "backup_command_plan \<Rightarrow> operation_contract_error + unit" where
  "backup_plan_validate p =
     try_then (validate_operation_id (bp_operation_id p)) (\<lambda>_.
     require (bp_encrypted p \<and> bp_include_manifest p \<and> bp_verify_after_write p) (OperationInvalid ''backup_guarantees_incomplete''))"

record machine_health_snapshot =
  mh_schema :: u16
  mh_capture_state :: string
  mh_database_bytes :: u64
  mh_stored_items :: u64
  mh_sync_queue_items :: u64
  mh_degraded_capabilities :: u32
  mh_checked_at_ms :: int

definition health_validate :: "machine_health_snapshot \<Rightarrow> operation_contract_error + unit" where
  "health_validate h =
     try_then (require (mh_schema h = RPC_SCHEMA_VERSION) (OperationInvalid ''unsupported_schema'')) (\<lambda>_.
     try_then (validate_operation_id (mh_capture_state h)) (\<lambda>_.
     require (0 \<le> mh_checked_at_ms h) (OperationInvalid ''health_timestamp_invalid'')))"

definition health_json ::
  "(machine_health_snapshot \<Rightarrow> bytes option) \<Rightarrow> machine_health_snapshot \<Rightarrow> operation_contract_error + bytes" where
  "health_json json h = try_then (health_validate h) (\<lambda>_.
     case json h of None \<Rightarrow> Inl (OperationInvalid ''health_serialization_failed'') | Some b \<Rightarrow> Inr b)"

record sanitized_fixture_manifest =
  fm_schema :: u16
  fm_fixture_id :: string
  fm_item_count :: nat
  fm_content_removed :: bool
  fm_source_metadata_reviewed :: bool
  fm_fixture_hash :: bytes

definition fixture_validate :: "sanitized_fixture_manifest \<Rightarrow> operation_contract_error + unit" where
  "fixture_validate m =
     try_then (require (fm_schema m = RPC_SCHEMA_VERSION) (OperationInvalid ''unsupported_schema'')) (\<lambda>_.
     try_then (validate_operation_id (fm_fixture_id m)) (\<lambda>_.
     try_then (require (fm_item_count m \<noteq> 0 \<and> fm_item_count m \<le> 1024) (OperationInvalid ''fixture_item_count_invalid'')) (\<lambda>_.
     require (fm_fixture_hash m \<noteq> zero_hash \<and> fm_content_removed m \<and> fm_source_metadata_reviewed m)
       (OperationInvalid ''fixture_not_sanitized''))))"

datatype completion_kind = TagCompletion | CollectionCompletion | ContentKindCompletion | DeviceCompletion

fun completion_rank :: "completion_kind \<Rightarrow> nat" where
  "completion_rank TagCompletion = 0"
| "completion_rank CollectionCompletion = 1"
| "completion_rank ContentKindCompletion = 2"
| "completion_rank DeviceCompletion = 3"

instantiation completion_kind :: linorder
begin

definition less_eq_completion_kind :: "completion_kind \<Rightarrow> completion_kind \<Rightarrow> bool" where
  "less_eq_completion_kind a b \<longleftrightarrow> completion_rank a \<le> completion_rank b"

definition less_completion_kind :: "completion_kind \<Rightarrow> completion_kind \<Rightarrow> bool" where
  "less_completion_kind a b \<longleftrightarrow> completion_rank a < completion_rank b"

instance
proof
  show "a = b" if "a \<le> b" "b \<le> a" for a b :: completion_kind
    using that by (cases a; cases b) (simp_all add: less_eq_completion_kind_def)
qed (auto simp: less_eq_completion_kind_def less_completion_kind_def)

end

record completion_candidate =
  cc_kind :: completion_kind
  cc_value :: string

definition MAX_COMPLETIONS_PER_KIND :: nat where "MAX_COMPLETIONS_PER_KIND = 2048"

text \<open>A \<open>BTreeSet\<close> of values is an ordered association list with unit values.\<close>

type_synonym completion_catalog = "(completion_kind, (string, unit) btree) btree"

definition catalog_values :: "completion_catalog \<Rightarrow> completion_kind \<Rightarrow> (string, unit) btree" where
  "catalog_values c k = (case map_of c k of None \<Rightarrow> [] | Some vs \<Rightarrow> vs)"

definition catalog_insert ::
  "completion_catalog \<Rightarrow> completion_kind \<Rightarrow> string \<Rightarrow> completion_catalog \<times> (operation_contract_error + unit)" where
  "catalog_insert c kind v = (case validate_operation_id v of Inl e \<Rightarrow> (c, Inl e) | Inr _ \<Rightarrow>
     let vs = catalog_values c kind in
     if \<not> bt_contains vs v \<and> MAX_COMPLETIONS_PER_KIND \<le> length vs
     then (bt_insert kind vs c, Inl (OperationInvalid ''completion_catalog_full''))
     else (bt_insert kind (bt_insert v () vs) c, Inr ()))"

definition catalog_complete :: "completion_catalog \<Rightarrow> string \<Rightarrow> nat \<Rightarrow> completion_candidate list" where
  "catalog_complete c prefix limit = take (min limit MAX_COMPLETION_RESULTS)
     (concat (map (\<lambda>(kind, vs). map (\<lambda>(v, _). \<lparr>cc_kind = kind, cc_value = v\<rparr>) (filter (\<lambda>(v, _). starts_with prefix v) vs)) c))"

section \<open>What a client is shown\<close>

lemma negotiate_Inr:
  assumes "negotiate hello server = Inr w"
  shows "sw_granted w = ch_requested hello \<inter> sp_available server" and "sw_denied w = ch_requested hello - sp_available server"
    and "range_contains (ch_protocol hello) v \<and> range_contains (sp_protocol server) v \<Longrightarrow> v \<le> sw_protocol_version w"
    and "range_contains (ch_protocol hello) (sw_protocol_version w) \<and> range_contains (sp_protocol server) (sw_protocol_version w)"
  using assms by (auto simp: negotiate_def range_contains_def Let_def not_less split: if_splits)

lemma strictly_ordered_iff: "strictly_ordered es \<longleftrightarrow> sorted_wrt (\<lambda>a b. ee_sequence a < ee_sequence b) es"
proof (induction es rule: strictly_ordered.induct)
  case (1 a b es)
  then show ?case by (auto intro: less_trans)
qed auto

lemma cursor_select_Inr:
  "cursor_select c retained es limit = Inr page \<longleftrightarrow> cursor_validate c = Inr () \<and> retained \<noteq> 0 \<and> limit \<noteq> 0 \<and>
     retained \<le> rc_next_sequence c \<and> (\<forall>e \<in> set es. retained \<le> ee_sequence e) \<and>
     sorted_wrt (\<lambda>a b. ee_sequence a < ee_sequence b) es \<and>
     page = take (min limit 1024) (filter (\<lambda>e. rc_next_sequence c \<le> ee_sequence e) es)"
  by (auto simp: cursor_select_def result_simps strictly_ordered_iff list_ex_iff not_less)

text \<open>
  A client sees a sensitive event only with three consents: it asked for the capability, the server offers it, and its
  filter includes sensitive events. The protocol version is the greatest both sides support; what is granted is exactly
  what was asked for and is available, the rest is denied. Everything delivered lies in the retained window at or after the
  cursor, matches the filter, and comes in strictly increasing order.
\<close>

lemma sensitive_events_need_grant:
  assumes "negotiate hello server = Inr w" and "cursor_select c retained es limit = Inr page"
    and "delivered = filter (\<lambda>e. matches_with_grants f e (sw_granted w)) page"
  shows "list_all (\<lambda>e. (ee_sensitive e \<longrightarrow> ef_include_sensitive f \<and> ReadSensitiveHistory \<in> ch_requested hello \<and>
        ReadSensitiveHistory \<in> sp_available server) \<and> matches_metadata f e \<and> e \<in> set es \<and>
      retained \<le> ee_sequence e \<and> rc_next_sequence c \<le> ee_sequence e) delivered \<and>
    sorted_wrt (\<lambda>a b. ee_sequence a < ee_sequence b) delivered \<and> length delivered \<le> 1024 \<and>
    sw_granted w \<union> sw_denied w = ch_requested hello \<and> sw_granted w \<inter> sw_denied w = {} \<and>
    range_contains (ch_protocol hello) (sw_protocol_version w) \<and> range_contains (sp_protocol server) (sw_protocol_version w) \<and>
    (\<forall>v. range_contains (ch_protocol hello) v \<and> range_contains (sp_protocol server) v \<longrightarrow> v \<le> sw_protocol_version w)"
proof -
  note agreed = negotiate_Inr[OF assms(1)]
  define shown where "shown = filter (\<lambda>e. rc_next_sequence c \<le> ee_sequence e) es"
  have page: "page = take (min limit 1024) shown" "sorted_wrt (\<lambda>a b. ee_sequence a < ee_sequence b) shown"
      "retained \<le> rc_next_sequence c"
    using assms(2) by (auto simp: cursor_select_Inr shown_def sorted_wrt_filter)
  have "sorted_wrt (\<lambda>a b. ee_sequence a < ee_sequence b) delivered"
    unfolding assms(3) page(1) by (intro sorted_wrt_filter sorted_wrt_take page(2))
  moreover have "length delivered \<le> 1024"
    unfolding assms(3) page(1) by (rule order_trans[OF length_filter_le]) simp
  moreover have "set delivered \<subseteq> set shown"
    unfolding assms(3) page(1) by (auto dest: in_set_takeD)
  ultimately show ?thesis
    using page(3) agreed assms(3) by (auto simp: list_all_iff shown_def matches_with_grants_def dest: order_trans)
qed

section \<open>Replaying a stream page by page\<close>

text \<open>A client that resumes after the last event of each page, for at most \<open>n\<close> pages.\<close>

fun replay_pages :: "event_replay_cursor \<Rightarrow> u64 \<Rightarrow> 'id event_envelope list \<Rightarrow> nat \<Rightarrow> nat \<Rightarrow> 'id event_envelope list" where
  "replay_pages c retained es limit 0 = []"
| "replay_pages c retained es limit (Suc n) = (case cursor_select c retained es limit of
       Inl _ \<Rightarrow> []
     | Inr page \<Rightarrow> if page = [] then []
         else page @ replay_pages (c\<lparr>rc_next_sequence := ee_sequence (last page) + 1\<rparr>) retained es limit n)"

lemma filter_after_nth:
  "sorted_wrt (\<lambda>a b. f a < f b) xs \<Longrightarrow> k < length xs \<Longrightarrow> filter (\<lambda>e. f (xs ! k) < f e) xs = drop (Suc k) xs"
  for f :: "'a \<Rightarrow> 'b::linorder"
proof (induction xs arbitrary: k)
  case (Cons x xs)
  show ?case
  proof (cases k)
    case 0
    with Cons.prems show ?thesis by (simp add: filter_id_conv)
  next
    case (Suc j)
    with Cons.prems have "f x < f (xs ! j)" by simp
    then have "\<not> f (xs ! j) < f x" by simp
    with Suc Cons.IH[of j] Cons.prems show ?thesis by simp
  qed
qed simp

lemma word_succ_le:
  fixes a b :: u64
  assumes "b \<noteq> - 1"
  shows "b + 1 \<le> a \<longleftrightarrow> b < a"
proof -
  have "unat (b + 1) = Suc (unat b)"
    using unatSuc[of b] assms by (metis add.commute add_eq_0_iff)
  then show ?thesis
    by (simp add: word_le_nat_alt word_less_nat_alt Suc_le_eq)
qed

text \<open>
  C35. Nothing is lost in a replay. A client that resumes after the last event of each page, as often as there are events,
  receives every retained event from its cursor on, exactly once and in order, however small the pages are.
\<close>

theorem replay_delivers_everything:
  assumes "cursor_select c retained es limit = Inr page" and "\<forall>e \<in> set es. ee_sequence e \<noteq> - 1" and "length es \<le> n"
  shows "replay_pages c retained es limit n = filter (\<lambda>e. rc_next_sequence c \<le> ee_sequence e) es"
proof -
  have ordered: "sorted_wrt (\<lambda>a b. ee_sequence a < ee_sequence b) es" and window: "retained \<noteq> 0" "limit \<noteq> 0"
      "\<forall>e \<in> set es. retained \<le> ee_sequence e" and first: "cursor_validate c = Inr ()" "retained \<le> rc_next_sequence c"
    using assms(1) by (auto simp: cursor_select_Inr)
  have "cursor_validate c = Inr () \<Longrightarrow> retained \<le> rc_next_sequence c \<Longrightarrow>
      length (filter (\<lambda>e. rc_next_sequence c \<le> ee_sequence e) es) \<le> n \<Longrightarrow>
      replay_pages c retained es limit n = filter (\<lambda>e. rc_next_sequence c \<le> ee_sequence e) es"
  proof (induction n arbitrary: c)
    case (Suc n)
    define rest where "rest = filter (\<lambda>e. rc_next_sequence c \<le> ee_sequence e) es"
    define m where "m = min limit 1024"
    have select: "cursor_select c retained es limit = Inr (take m rest)"
      using Suc.prems ordered window by (simp add: cursor_select_Inr rest_def m_def)
    show ?case
    proof (cases "rest = []")
      case True
      then show ?thesis using select by (simp add: rest_def)
    next
      case False
      define k where "k = min m (length rest) - 1"
      have m: "0 < m" using window by (simp add: m_def)
      then have k: "k < length rest" "last (take m rest) = rest ! k" "drop (Suc k) rest = drop m rest"
        using False by (auto simp: k_def last_conv_nth min_def)
      define after where "after = c\<lparr>rc_next_sequence := ee_sequence (rest ! k) + 1\<rparr>"
      have mem: "rest ! k \<in> set es" "rc_next_sequence c \<le> ee_sequence (rest ! k)"
        using nth_mem[OF k(1)] by (auto simp: rest_def)
      then have succ: "ee_sequence (rest ! k) + 1 \<le> a \<longleftrightarrow> ee_sequence (rest ! k) < a" for a
        using assms(2) word_succ_le by blast
      define s where "s = ee_sequence (rest ! k)"
      have "filter (\<lambda>e. rc_next_sequence after \<le> ee_sequence e) es = filter (\<lambda>e. s < ee_sequence e) es"
        by (simp add: after_def succ s_def)
      also have "\<dots> = filter (\<lambda>e. s < ee_sequence e) rest"
        using mem(2) unfolding s_def[symmetric] by (auto simp: rest_def intro!: filter_cong)
      also have "\<dots> = drop (Suc k) rest"
        unfolding s_def using ordered k(1) by (intro filter_after_nth) (auto simp: rest_def sorted_wrt_filter)
      finally have later: "filter (\<lambda>e. rc_next_sequence after \<le> ee_sequence e) es = drop m rest"
        by (simp add: k(3))
      have "ee_sequence (rest ! k) + 1 \<noteq> 0"
        using assms(2) mem(1) by (metis add.commute add_eq_0_iff)
      moreover have "retained \<le> ee_sequence (rest ! k) + 1"
        using Suc.prems(2) mem succ[of "ee_sequence (rest ! k) + 1"] by (meson order_le_less_trans order_less_imp_le order_refl)
      ultimately have "replay_pages after retained es limit n = drop m rest"
        using Suc.IH[of after] Suc.prems later m False by (simp add: after_def cursor_validate_def result_simps rest_def)
      then show ?thesis
        using select False m k(2) by (simp add: after_def rest_def)
    qed
  qed simp
  then show ?thesis
    using first assms(3) order_trans[OF length_filter_le] by blast
qed

section \<open>The completion catalog stays bounded\<close>

definition catalog_ok :: "completion_catalog \<Rightarrow> bool" where
  "catalog_ok c \<longleftrightarrow> bt_ok c \<and> (\<forall>(kind, vs) \<in> set c. bt_ok vs \<and> length vs \<le> MAX_COMPLETIONS_PER_KIND \<and>
     (\<forall>(v, _) \<in> set vs. is_ok (validate_operation_id v)))"

lemma catalog_insert_ok: "catalog_ok c \<Longrightarrow> catalog_ok (fst (catalog_insert c kind v))"
proof -
  assume c: "catalog_ok c"
  define vs where "vs = catalog_values c kind"
  have vs: "bt_ok vs \<and> length vs \<le> MAX_COMPLETIONS_PER_KIND \<and> (\<forall>(v, _) \<in> set vs. is_ok (validate_operation_id v))"
  proof (cases "map_of c kind")
    case None
    then show ?thesis by (simp add: vs_def catalog_values_def)
  next
    case (Some ws)
    then have "(kind, vs) \<in> set c"
      by (simp add: vs_def catalog_values_def map_of_SomeD)
    with c show ?thesis by (auto simp: catalog_ok_def)
  qed
  have put: "catalog_ok (bt_insert kind ws c)"
    if "bt_ok ws \<and> length ws \<le> MAX_COMPLETIONS_PER_KIND \<and> (\<forall>(v, _) \<in> set ws. is_ok (validate_operation_id v))" for ws
    using c that set_bt_insert_subset[of kind ws c] by (fastforce simp: catalog_ok_def)
  have "catalog_ok (bt_insert kind (bt_insert v () vs) c)" if "is_ok (validate_operation_id v)"
    "bt_contains vs v \<or> length vs < MAX_COMPLETIONS_PER_KIND"
    using that vs set_bt_insert_subset[of v "()" vs] by (intro put) (auto simp: length_bt_insert)
  with c vs put show ?thesis
    by (auto simp: catalog_insert_def vs_def[symmetric] Let_def split: sum.splits)
qed

interpretation catalog: machine "\<lambda>c (kind, v). fst (catalog_insert c kind v)" catalog_ok
  by unfold_locales (auto intro: catalog_insert_ok)

lemma completions_valid:
  "c \<in> set (catalog_complete (run (\<lambda>c (kind, v). fst (catalog_insert c kind v)) [] inserts) prefix limit) \<Longrightarrow>
     is_ok (validate_operation_id (cc_value c)) \<and> starts_with prefix (cc_value c)"
proof -
  have "catalog_ok (run (\<lambda>c (kind, v). fst (catalog_insert c kind v)) [] inserts)"
    by (rule catalog.inv_run) (simp add: catalog_ok_def)
  then show "c \<in> set (catalog_complete (run (\<lambda>c (kind, v). fst (catalog_insert c kind v)) [] inserts) prefix limit) \<Longrightarrow> ?thesis"
    by (fastforce simp: catalog_complete_def catalog_ok_def dest!: in_set_takeD)
qed

section \<open>Witnesses\<close>

definition sample_hello :: client_hello where
  "sample_hello = \<lparr>ch_client_name = ''c'', ch_protocol = \<lparr>pr_minimum = 1, pr_maximum = 3\<rparr>, ch_requested = {ReadSensitiveHistory}\<rparr>"

definition sample_server :: server_policy where
  "sample_server = \<lparr>sp_protocol = \<lparr>pr_minimum = 2, pr_maximum = 4\<rparr>, sp_available = {ReadSensitiveHistory}\<rparr>"

definition sample_envelope :: "u64 \<Rightarrow> nat event_envelope" where
  "sample_envelope n = \<lparr>ee_sequence = n, ee_kind = CapturedEvent, ee_clip_id = None, ee_collection_id = None, ee_sensitive = True\<rparr>"

definition sample_cursor :: event_replay_cursor where
  "sample_cursor = \<lparr>rc_stream_id = ''s'', rc_next_sequence = 2\<rparr>"

lemma two_above_one: "\<not> (2 :: u64) \<le> 1"
  by (simp add: word_le_nat_alt)

lemma sample_negotiated:
  "negotiate sample_hello sample_server = Inr \<lparr>sw_protocol_version = 3, sw_granted = {ReadSensitiveHistory}, sw_denied = {}\<rparr>"
  by (simp add: negotiate_def sample_hello_def sample_server_def trim_ascii_word has_control_ascii)

lemma sample_selected:
  "cursor_select sample_cursor 1 (map sample_envelope [1, 2, 5]) 1 = Inr [sample_envelope 2]"
  by (simp add: cursor_select_def cursor_validate_def validate_operation_id_def sample_cursor_def sample_envelope_def MAX_ID_BYTES_def
      is_ascii_alphanumeric_def two_above_one)

lemma sensitive_events_need_grant_witness:
  "ReadSensitiveHistory \<in> sp_available sample_server \<and> \<not> ReadSensitiveHistory \<in> ch_requested (sample_hello\<lparr>ch_requested := {}\<rparr>)"
proof -
  define f where "f = event_filter_default\<lparr>ef_include_sensitive := True\<rparr>"
  have "matches_with_grants f (sample_envelope 2) {ReadSensitiveHistory}"
    by (simp add: f_def matches_with_grants_def matches_metadata_def event_filter_validate_def event_filter_default_def
        MAX_FILTER_COLLECTIONS_def sample_envelope_def)
  then have "[sample_envelope 2] = filter (\<lambda>e. matches_with_grants f e
      (sw_granted \<lparr>sw_protocol_version = 3, sw_granted = {ReadSensitiveHistory}, sw_denied = {}\<rparr>)) [sample_envelope 2]"
    by simp
  from sensitive_events_need_grant[OF sample_negotiated sample_selected this] show ?thesis
    by (simp add: sample_envelope_def)
qed

theorem replay_delivers_everything_witness:
  "replay_pages sample_cursor 1 (map sample_envelope [1, 2, 5]) 1 3 = map sample_envelope [2, 5]"
proof -
  have "\<forall>e \<in> set (map sample_envelope [1, 2, 5]). ee_sequence e \<noteq> - 1" "length (map sample_envelope [1, 2, 5]) \<le> 3"
    by (simp_all add: sample_envelope_def)
  from replay_delivers_everything[OF sample_selected this] show ?thesis
    by (simp add: sample_envelope_def sample_cursor_def two_above_one)
qed

end
