(* ===== verification/Membership.thy ===== *)
theory Membership
  imports Sync_Ledger
begin

text \<open>
  Device membership, \<open>crates/vbuff-sync/src/membership.rs\<close>: the membership log is a signed chain
  whose author keys come from the state replayed from the log itself. Parameters:
  \<open>contributory\<close> is whether the Diffie-Hellman probe of \<open>validate_public_key\<close> is contributory for
  a public key, and \<open>seal\<close> is \<open>crypto::seal_to\<close> (public key, plaintext, associated data).
\<close>

definition MEMBER_MAX_DEVICE_ID_BYTES :: nat where
  "MEMBER_MAX_DEVICE_ID_BYTES = 128"

definition MAX_MEMBERSHIP_ENTRIES :: nat where
  "MAX_MEMBERSHIP_ENTRIES = 1024"

definition ACTION_ADD :: char where
  "ACTION_ADD = CHR 0x01"

definition ACTION_REVOKE :: char where
  "ACTION_REVOKE = CHR 0x02"

definition SAS_DOMAIN :: bytes where
  "SAS_DOMAIN = ''vbuff-membership-sas-v3''"

record device_member =
  dm_device_id :: string
  dm_public_key :: bytes
  dm_signing_key :: bytes

datatype membership_action = AddDevice device_member | RevokeDevice string

record membership_entry =
  me_action :: membership_action
  me_added_by :: string
  me_clock :: hlc

type_synonym membership_log = "membership_entry signed_chain"

record membership_state =
  ms_owner :: "string option"
  ms_active :: "(string, device_member) btree"
  ms_previous_clock :: "hlc option"

definition membership_state_default :: membership_state where
  "membership_state_default = \<lparr>ms_owner = None, ms_active = [], ms_previous_clock = None\<rparr>"

definition validate_public_key :: "(bytes \<Rightarrow> bool) \<Rightarrow> bytes \<Rightarrow> sync_error + unit" where
  "validate_public_key contributory bytes =
     (if \<not> contributory bytes then Inl (Invalid ''non-contributory device public key'') else Inr ())"

definition validate_author :: "bool \<Rightarrow> membership_state \<Rightarrow> membership_entry \<Rightarrow> sync_error + unit" where
  "validate_author is_first state entry =
     (if is_first then
        (case me_action entry of
           RevokeDevice _ \<Rightarrow> Inl (Invalid ''membership log must start by adding its owner'')
         | AddDevice member \<Rightarrow>
             if dm_device_id member \<noteq> me_added_by entry
             then Inl (Invalid ''first membership entry must be self-added'') else Inr ())
      else if ms_owner state \<noteq> Some (me_added_by entry)
      then Inl (Invalid ''membership entries after the first are authored only by the owner'')
      else if \<not> bt_contains (ms_active state) (me_added_by entry)
      then Inl (Invalid ''membership change was not authorized by an active device'')
      else Inr ())"

definition validate_action ::
  "(bytes \<Rightarrow> bool) \<Rightarrow> membership_state \<Rightarrow> membership_entry \<Rightarrow> sync_error + unit" where
  "validate_action contributory state entry =
     (case me_action entry of
        AddDevice member \<Rightarrow>
          if \<not> is_valid_identifier (dm_device_id member) MEMBER_MAX_DEVICE_ID_BYTES
          then Inl (Invalid ''device identifier is invalid'')
          else if bt_contains (ms_active state) (dm_device_id member)
          then Inl (Invalid ''device is already active'')
          else validate_public_key contributory (dm_public_key member)
      | RevokeDevice device_id \<Rightarrow>
          if \<not> is_valid_identifier device_id MEMBER_MAX_DEVICE_ID_BYTES
          then Inl (Invalid ''device identifier is invalid'')
          else if \<not> bt_contains (ms_active state) device_id
          then Inl (Invalid ''cannot revoke a device that is not active'')
          else Inr ())"

definition validate_entry_semantics ::
  "(bytes \<Rightarrow> bool) \<Rightarrow> bool \<Rightarrow> membership_state \<Rightarrow> membership_entry \<Rightarrow> sync_error + unit" where
  "validate_entry_semantics contributory is_first state entry =
     (if \<not> is_valid_identifier (me_added_by entry) MEMBER_MAX_DEVICE_ID_BYTES
      then Inl (Invalid ''membership author identifier is invalid'')
      else if \<not> is_valid_identifier (node_id (me_clock entry)) MEMBER_MAX_DEVICE_ID_BYTES
      then Inl (Invalid ''membership clock node identifier is invalid'')
      else try_then (validate_author is_first state entry) (\<lambda>_.
        if (case ms_previous_clock state of None \<Rightarrow> False | Some previous \<Rightarrow> me_clock entry \<le> previous)
        then Inl (Invalid ''membership clock must advance monotonically'')
        else validate_action contributory state entry))"

definition apply_action ::
  "(string, device_member) btree \<Rightarrow> membership_action \<Rightarrow> (string, device_member) btree" where
  "apply_action active action = (case action of
     AddDevice member \<Rightarrow> bt_insert (dm_device_id member) member active
   | RevokeDevice device_id \<Rightarrow> bt_remove device_id active)"

definition member_extend_preimage :: "membership_entry \<Rightarrow> preimage \<Rightarrow> preimage" where
  "member_extend_preimage e p =
     pre_u32_be (logical (me_clock e))
       (pre_u64_be (physical_ms (me_clock e))
         (pre_var (node_id (me_clock e))
           (pre_var (me_added_by e)
             (case me_action e of
                AddDevice member \<Rightarrow>
                  pre_fixed (dm_signing_key member)
                    (pre_fixed (dm_public_key member)
                      (pre_var (dm_device_id member) (pre_byte ACTION_ADD p)))
              | RevokeDevice device_id \<Rightarrow> pre_var device_id (pre_byte ACTION_REVOKE p)))))"

definition member_expected_signing_key ::
  "(bytes \<Rightarrow> bool) \<Rightarrow> membership_entry \<Rightarrow> nat \<Rightarrow> membership_state \<Rightarrow> unit \<Rightarrow> sync_error + bytes" where
  "member_expected_signing_key contributory e index state _ =
     (let is_first = (index = 0) in
      try_then (validate_entry_semantics contributory is_first state e) (\<lambda>_.
        if is_first then
          (case me_action e of
             AddDevice member \<Rightarrow> Inr (dm_signing_key member)
           | RevokeDevice _ \<Rightarrow> Inl (Invalid ''membership log must start by adding its owner''))
        else (case map_of (ms_active state) (me_added_by e) of
             Some member \<Rightarrow> Inr (dm_signing_key member)
           | None \<Rightarrow> Inl (Invalid ''membership change was not authorized by an active device''))))"

definition member_apply :: "membership_entry \<Rightarrow> membership_state \<Rightarrow> membership_state" where
  "member_apply e state =
     \<lparr>ms_owner = (if ms_owner state = None then Some (me_added_by e) else ms_owner state),
      ms_active = apply_action (ms_active state) (me_action e),
      ms_previous_clock = Some (me_clock e)\<rparr>"

definition member_dict :: "(bytes \<Rightarrow> bool) \<Rightarrow> (membership_entry, membership_state, unit) chain_entry" where
  "member_dict contributory = \<lparr>ce_domain = ''vbuff-membership-entry-v3'',
     ce_max_entries = MAX_MEMBERSHIP_ENTRIES, ce_label = ''membership log'',
     ce_default_state = membership_state_default,
     ce_extend_preimage = member_extend_preimage,
     ce_expected_signing_key = member_expected_signing_key contributory,
     ce_apply = member_apply\<rparr>"

definition append_change ::
  "(bytes \<Rightarrow> bool) \<Rightarrow> 'sk chain_crypto \<Rightarrow> membership_log \<Rightarrow> membership_action \<Rightarrow> string \<Rightarrow> hlc \<Rightarrow> 'sk \<Rightarrow>
     sync_error + (bytes \<times> membership_log)" where
  "append_change contributory cr log action added_by clock author_key =
     chain_append (member_dict contributory) cr log
       \<lparr>me_action = action, me_added_by = added_by, me_clock = clock\<rparr> () author_key"

definition active_members :: "membership_log \<Rightarrow> (string, device_member) btree" where
  "active_members log = ms_active (replay (member_dict (\<lambda>_. True)) log)"

text \<open>The reading of the first 16 digest bytes as a little-endian \<open>u128\<close>; \<open>None\<close> is the panic.\<close>

definition from_le_bytes :: "bytes \<Rightarrow> nat" where
  "from_le_bytes b = foldr (\<lambda>c n. of_char c + 256 * n) b 0"

definition sas :: "(bytes \<Rightarrow> bytes) \<Rightarrow> membership_log \<Rightarrow> bytes \<Rightarrow> bytes \<Rightarrow> string option" where
  "sas blake3 log first_key second_key =
     (let (left, right) = (if first_key \<le> second_key then (first_key, second_key)
                           else (second_key, first_key)) in
      case preimage_finish (pre_fixed right (pre_fixed left (pre_fixed (chain_head log)
             (preimage_new SAS_DOMAIN)))) of
        Inl _ \<Rightarrow> None
      | Inr preimage \<Rightarrow>
          let v = from_le_bytes (take 16 (blake3 preimage)) mod 100000000000000000000;
              digits = zero_padded 20 v in
          Some (take 5 digits @ ''-'' @ take 5 (drop 5 digits) @ ''-'' @ take 5 (drop 10 digits) @
                ''-'' @ take 5 (drop 15 digits)))"

record 'env epoch_transition =
  et_epoch :: u64
  et_revoked_device :: string
  et_key_commitment :: bytes
  et_wrapped_group_keys :: "(string, 'env) btree"

fun wrap_keys ::
  "(bytes \<Rightarrow> bytes \<Rightarrow> bytes \<Rightarrow> sync_error + 'env) \<Rightarrow> bytes \<Rightarrow> string \<Rightarrow> (string, device_member) btree \<Rightarrow>
     sync_error + (string, 'env) btree" where
  "wrap_keys seal key aad [] = Inr []"
| "wrap_keys seal key aad ((device, member) # rest) =
     try_then (seal (dm_public_key member) key aad) (\<lambda>envelope.
       try_then (wrap_keys seal key aad rest) (\<lambda>wrapped. Inr ((device, envelope) # wrapped)))"

definition revoke_and_rekey ::
  "(bytes \<Rightarrow> bool) \<Rightarrow> 'sk chain_crypto \<Rightarrow> (bytes \<Rightarrow> bytes \<Rightarrow> bytes \<Rightarrow> sync_error + 'env) \<Rightarrow>
     membership_log \<Rightarrow> string \<Rightarrow> string \<Rightarrow> hlc \<Rightarrow> u64 \<Rightarrow> bytes \<Rightarrow> 'sk \<Rightarrow>
     (sync_error + 'env epoch_transition) \<times> membership_log" where
  "revoke_and_rekey contributory cr seal log revoked_device added_by clock current_epoch new_group_key author_key =
     (case try_then (chain_verify (member_dict contributory) cr log ()) (\<lambda>_.
        if \<not> bt_contains (active_members log) revoked_device
        then Inl (Invalid ''device is not an active member'')
        else try_then (append_change contributory cr log (RevokeDevice revoked_device) added_by clock author_key)
          (\<lambda>(_, staged).
          case checked_add current_epoch 1 of
            None \<Rightarrow> Inl (Invalid ''membership epoch exhausted'')
          | Some epoch \<Rightarrow>
              let aad = ''vbuff-group-epoch-'' @ decimal (unat epoch) in
              try_then (wrap_keys seal new_group_key aad (active_members staged)) (\<lambda>wrapped.
                Inr (\<lparr>et_epoch = epoch, et_revoked_device = revoked_device,
                      et_key_commitment = cr_blake3 cr new_group_key,
                      et_wrapped_group_keys = wrapped\<rparr>, staged)))) of
        Inl e \<Rightarrow> (Inl e, log)
      | Inr (transition, staged) \<Rightarrow> (Inr transition, staged))"

section \<open>The log commits to its history\<close>

definition member_bytes :: "membership_action \<Rightarrow> bytes" where
  "member_bytes a = (case a of
     AddDevice m \<Rightarrow> ACTION_ADD # framed (dm_device_id m) @ dm_public_key m @ dm_signing_key m
   | RevokeDevice d \<Rightarrow> ACTION_REVOKE # framed d)"

definition member_payload_ok :: "membership_entry \<Rightarrow> bool" where
  "member_payload_ok e \<longleftrightarrow> (case me_action e of
     AddDevice m \<Rightarrow> length (dm_public_key m) = 32 \<and> length (dm_signing_key m) = 32 | RevokeDevice _ \<Rightarrow> True)"

definition member_action_small :: "membership_action \<Rightarrow> bool" where
  "member_action_small a \<longleftrightarrow> (case a of AddDevice m \<Rightarrow> length (dm_device_id m) < 2 ^ 32 | RevokeDevice d \<Rightarrow> length d < 2 ^ 32)"

lemma member_link_preimage:
  "link_preimage (member_dict ct) e h = Inr b \<longleftrightarrow>
     member_action_small (me_action e) \<and> length (me_added_by e) < 2 ^ 32 \<and> length (node_id (me_clock e)) < 2 ^ 32 \<and>
     b = ''vbuff-membership-entry-v3'' @ CHR 0x00 # h @ member_bytes (me_action e) @ framed (me_added_by e) @
       framed (node_id (me_clock e)) @ u64_be (physical_ms (me_clock e)) @ u32_be (logical (me_clock e))"
  by (auto simp: link_preimage_def member_dict_def member_extend_preimage_def member_bytes_def
      member_action_small_def preimage_simps split: membership_action.splits)

lemma member_bytes_append:
  assumes "member_action_small a" and "member_action_small b"
    and "member_payload_ok \<lparr>me_action = a, me_added_by = u, me_clock = v\<rparr>"
    and "member_payload_ok \<lparr>me_action = b, me_added_by = u', me_clock = v'\<rparr>"
    and "member_bytes a @ x = member_bytes b @ y"
  shows "a = b \<and> x = y"
  using assms
  by (cases a; cases b) (auto simp: member_bytes_def member_action_small_def member_payload_ok_def
      preimage_simps append_eq_append_conv ACTION_ADD_def ACTION_REVOKE_def intro: device_member.equality)

interpretation member_chain: chain_payload "member_dict ct" member_payload_ok for ct
proof
  fix p q :: membership_entry and h k b :: bytes
  assume ok: "member_payload_ok p" "member_payload_ok q" and "length h = 32" "length k = 32"
    and "link_preimage (member_dict ct) p h = Inr b" "link_preimage (member_dict ct) q k = Inr b"
  then have s: "member_action_small (me_action p)" "member_action_small (me_action q)" and "h = k"
    and tail: "length (me_added_by p) < 2 ^ 32" "length (me_added_by q) < 2 ^ 32"
      "length (node_id (me_clock p)) < 2 ^ 32" "length (node_id (me_clock q)) < 2 ^ 32"
    and e: "member_bytes (me_action p) @ framed (me_added_by p) @ framed (node_id (me_clock p)) @
        u64_be (physical_ms (me_clock p)) @ u32_be (logical (me_clock p)) =
      member_bytes (me_action q) @ framed (me_added_by q) @ framed (node_id (me_clock q)) @
        u64_be (physical_ms (me_clock q)) @ u32_be (logical (me_clock q))"
    unfolding member_link_preimage by (auto simp: append_eq_append_conv)
  have "me_action p = me_action q \<and> framed (me_added_by p) @ framed (node_id (me_clock p)) @
        u64_be (physical_ms (me_clock p)) @ u32_be (logical (me_clock p)) =
      framed (me_added_by q) @ framed (node_id (me_clock q)) @
        u64_be (physical_ms (me_clock q)) @ u32_be (logical (me_clock q))"
    using ok by (intro member_bytes_append [OF s _ _ e]) (auto simp: member_payload_ok_def)
  with tail \<open>h = k\<close> show "p = q \<and> h = k"
    by (auto simp: preimage_simps append_eq_append_conv intro!: membership_entry.equality hlc.expand)
qed

section \<open>Authorship\<close>

lemma replay_prefix_Suc:
  "i < length c \<Longrightarrow> replay_prefix d c (Suc i) = ce_apply d (cl_payload (c ! i)) (replay_prefix d c i)"
  by (simp add: replay_prefix_def take_Suc_conv_app_nth)

lemma member_dict_sel [simp]:
  "ce_apply (member_dict ct) = member_apply"
  "ce_default_state (member_dict ct) = membership_state_default"
  "ce_max_entries (member_dict ct) = MAX_MEMBERSHIP_ENTRIES"
  "ce_expected_signing_key (member_dict ct) = member_expected_signing_key ct"
  by (simp_all add: member_dict_def)

lemma replay_prefix_member: "replay_prefix (member_dict ct) c i = replay_prefix (member_dict ct') c i"
  by (simp add: replay_prefix_def)

text \<open>The semantics of an entry after the first one that has an expected key.\<close>

lemma later_entry:
  assumes "member_expected_signing_key ct e i state () = Inr key" and "0 < i"
  shows "ms_owner state = Some (me_added_by e) \<and>
    (\<exists>m. map_of (ms_active state) (me_added_by e) = Some m \<and> key = dm_signing_key m) \<and>
    (\<forall>previous. ms_previous_clock state = Some previous \<longrightarrow> previous < me_clock e) \<and>
    (\<forall>m. me_action e = AddDevice m \<longrightarrow> map_of (ms_active state) (dm_device_id m) = None) \<and>
    (\<forall>d. me_action e = RevokeDevice d \<longrightarrow> map_of (ms_active state) d \<noteq> None)"
  using assms
  by (auto simp: member_expected_signing_key_def Let_def result_simps validate_entry_semantics_def
      validate_author_def validate_action_def bt_contains_def not_le
      split: if_splits option.splits membership_action.splits)

lemma first_entry:
  assumes "member_expected_signing_key ct e 0 state () = Inr key"
  shows "\<exists>m. me_action e = AddDevice m \<and> dm_device_id m = me_added_by e \<and> key = dm_signing_key m"
  using assms
  by (auto simp: member_expected_signing_key_def Let_def result_simps validate_entry_semantics_def
      validate_author_def split: if_splits option.splits membership_action.splits)

definition owned_by :: "device_member \<Rightarrow> membership_state \<Rightarrow> bool" where
  "owned_by m state \<longleftrightarrow> ms_owner state = Some (dm_device_id m) \<and>
     (\<forall>x. map_of (ms_active state) (dm_device_id m) = Some x \<longrightarrow> x = m)"

definition verified_members ::
  "(bytes \<Rightarrow> bool) \<Rightarrow> 'sk chain_crypto \<Rightarrow> membership_log \<Rightarrow> device_member \<Rightarrow> bool" where
  "verified_members ct cr c owner \<longleftrightarrow> chain_verify (member_dict ct) cr c () = Inr () \<and>
     c \<noteq> [] \<and> me_action (cl_payload (c ! 0)) = AddDevice owner"

lemma member_key_at:
  assumes "chain_verify (member_dict ct) cr c () = Inr ()" and "i < length c"
  shows "\<exists>key preimage. member_expected_signing_key ct (cl_payload (c ! i)) i
      (replay_prefix (member_dict ct) c i) () = Inr key \<and>
    link_preimage (member_dict ct) (cl_payload (c ! i)) (chain_head (take i c)) = Inr preimage \<and>
    cr_verify cr key preimage (cl_signature (c ! i))"
proof -
  have "link_ok (member_dict ct) cr () i (replay_prefix (member_dict ct) c i) (chain_head (take i c)) (c ! i)"
    using assms by (intro verify_links_nth) (auto simp: chain_verify_def split: if_splits)
  then show ?thesis
    by (auto simp: link_ok_def)
qed

lemma member_state_Suc:
  "i < length c \<Longrightarrow> replay_prefix (member_dict ct) c (Suc i) =
     member_apply (cl_payload (c ! i)) (replay_prefix (member_dict ct) c i)"
  by (simp add: replay_prefix_Suc)

lemma member_state_0: "replay_prefix (member_dict ct) c 0 = membership_state_default"
  by (simp add: replay_prefix_def)

lemma member_owned:
  assumes "verified_members ct cr c owner" and "i < length c"
  shows "owned_by owner (replay_prefix (member_dict ct) c (Suc i))"
  using assms(2)
proof (induction i)
  case 0
  have v: "chain_verify (member_dict ct) cr c () = Inr ()" and o: "me_action (cl_payload (c ! 0)) = AddDevice owner"
    using assms(1) by (simp_all add: verified_members_def)
  from member_key_at [OF v 0] o have "dm_device_id owner = me_added_by (cl_payload (c ! 0))"
    using first_entry by fastforce
  then show ?case
    unfolding member_state_Suc [OF 0] member_state_0
    by (simp add: o owned_by_def member_apply_def apply_action_def membership_state_default_def)
next
  case (Suc i)
  have v: "chain_verify (member_dict ct) cr c () = Inr ()"
    using assms(1) by (simp add: verified_members_def)
  from member_key_at [OF v Suc.prems] obtain key where
    "member_expected_signing_key ct (cl_payload (c ! Suc i)) (Suc i)
       (replay_prefix (member_dict ct) c (Suc i)) () = Inr key" by blast
  from later_entry [OF this] Suc show ?case
    by (cases "me_action (cl_payload (c ! Suc i))")
      (auto simp: member_state_Suc [OF Suc.prems] owned_by_def member_apply_def apply_action_def split: if_splits)
qed

lemma member_authored:
  assumes "verified_members ct cr c owner" and i: "i < length c"
  shows "me_added_by (cl_payload (c ! i)) = dm_device_id owner \<and>
    (\<exists>preimage. link_preimage (member_dict ct) (cl_payload (c ! i)) (chain_head (take i c)) = Inr preimage \<and>
      cr_verify cr (dm_signing_key owner) preimage (cl_signature (c ! i)))"
proof -
  have v: "chain_verify (member_dict ct) cr c () = Inr ()" and o: "me_action (cl_payload (c ! 0)) = AddDevice owner"
    using assms(1) by (simp_all add: verified_members_def)
  obtain key preimage where k: "member_expected_signing_key ct (cl_payload (c ! i)) i
      (replay_prefix (member_dict ct) c i) () = Inr key"
    and p: "link_preimage (member_dict ct) (cl_payload (c ! i)) (chain_head (take i c)) = Inr preimage"
      "cr_verify cr key preimage (cl_signature (c ! i))"
    using member_key_at [OF v i] by blast
  have "me_added_by (cl_payload (c ! i)) = dm_device_id owner \<and> key = dm_signing_key owner"
  proof (cases i)
    case 0
    with k o first_entry show ?thesis by fastforce
  next
    case (Suc j)
    with member_owned [OF assms(1), of j] i have "owned_by owner (replay_prefix (member_dict ct) c i)" by simp
    with later_entry [OF k] Suc show ?thesis by (auto simp: owned_by_def)
  qed
  with p show ?thesis by blast
qed

lemma member_clock_Suc:
  assumes "chain_verify (member_dict ct) cr c () = Inr ()" and "Suc i < length c"
  shows "me_clock (cl_payload (c ! i)) < me_clock (cl_payload (c ! Suc i))"
  using member_key_at [OF assms] later_entry [of ct "cl_payload (c ! Suc i)" "Suc i"] assms(2)
  by (fastforce simp: member_state_Suc [of i] member_apply_def)

lemma member_clocks:
  assumes "chain_verify (member_dict ct) cr c () = Inr ()"
  shows "i < j \<Longrightarrow> j < length c \<Longrightarrow> me_clock (cl_payload (c ! i)) < me_clock (cl_payload (c ! j))"
proof (induction j)
  case (Suc j)
  then show ?case
    using member_clock_Suc [OF assms, of j] by (cases "i = j") (auto intro: less_trans)
qed simp

lemma member_sealed:
  assumes "verified_members ct cr c owner" and i: "i < length c"
    and r: "me_action (cl_payload (c ! i)) = RevokeDevice (dm_device_id owner)"
  shows "length c = Suc i"
proof (rule ccontr)
  assume "length c \<noteq> Suc i"
  then have n: "Suc i < length c" using i by simp
  have v: "chain_verify (member_dict ct) cr c () = Inr ()"
    using assms(1) by (simp add: verified_members_def)
  have "map_of (ms_active (replay_prefix (member_dict ct) c (Suc i))) (dm_device_id owner) = None"
    using r by (simp add: member_state_Suc [OF i] member_apply_def apply_action_def)
  with member_key_at [OF v n] member_authored [OF assms(1) n] show False
    using later_entry [of ct "cl_payload (c ! Suc i)" "Suc i"] by fastforce
qed

section \<open>The guarantees of the log\<close>

text \<open>
  C2. Single writer: a verified non-empty membership log opens with the self-add of an owner; every
  entry is authored by that owner and signed by the key registered in entry 0, over exactly this
  entry at this place; the clocks strictly increase along the log; and an owner that revokes itself
  seals the log, no entry follows.
\<close>

theorem membership_single_writer:
  assumes "chain_verify (member_dict ct) cr c () = Inr ()" and "c \<noteq> []"
  shows "\<exists>owner. me_action (cl_payload (c ! 0)) = AddDevice owner \<and>
    (\<forall>i < length c. me_added_by (cl_payload (c ! i)) = dm_device_id owner \<and>
      (\<exists>preimage. link_preimage (member_dict ct) (cl_payload (c ! i)) (chain_head (take i c)) = Inr preimage \<and>
        cr_verify cr (dm_signing_key owner) preimage (cl_signature (c ! i)))) \<and>
    (\<forall>j < length c. \<forall>i < j. me_clock (cl_payload (c ! i)) < me_clock (cl_payload (c ! j))) \<and>
    (\<forall>i < length c. me_action (cl_payload (c ! i)) = RevokeDevice (dm_device_id owner) \<longrightarrow> length c = Suc i)"
proof -
  obtain owner where "me_action (cl_payload (c ! 0)) = AddDevice owner"
    using member_key_at [OF assms(1), of 0] assms(2) first_entry by blast
  then have v: "verified_members ct cr c owner"
    using assms by (simp add: verified_members_def)
  then show ?thesis
    using member_authored [OF v] member_clocks [OF assms(1)] member_sealed [OF v]
    by (intro exI [of _ owner]) (auto simp: verified_members_def)
qed

lemma wrap_keys_Inr:
  "wrap_keys seal key aad ms = Inr ws \<Longrightarrow> map fst ws = map fst ms \<and>
     (\<forall>(d, env) \<in> set ws. \<exists>m. (d, m) \<in> set ms \<and> seal (dm_public_key m) key aad = Inr env)"
  by (induction seal key aad ms arbitrary: ws rule: wrap_keys.induct) (fastforce simp: result_simps)+

lemma active_members_append:
  assumes "append_change ct cr log action added_by clock sk = Inr (h, log')"
  shows "active_members log' = apply_action (active_members log) action"
  using assms
  by (auto simp: append_change_def chain_append_Inr active_members_def replay_def replay_prefix_def member_apply_def)

text \<open>
  Revocation and rekeying is all or nothing: it either fails and leaves the log as it was, or the
  new log verifies, its active set is the old one without the revoked device, and the fresh group key
  is wrapped for exactly the devices of that set, each under its own public key, at the next epoch;
  the revoked device, which was active, gets no key.
\<close>

lemma rekey_excludes_revoked:
  assumes "\<And>m. cr_key_valid cr (cr_verifying_key cr sk) \<and> cr_verify cr (cr_verifying_key cr sk) m (cr_sign cr sk m)"
  shows "case revoke_and_rekey ct cr seal log revoked added_by clock epoch group_key sk of
      (Inl e, log') \<Rightarrow> log' = log
    | (Inr t, log') \<Rightarrow>
        chain_verify (member_dict ct) cr log' () = Inr () \<and> bt_contains (active_members log) revoked \<and>
        active_members log' = bt_remove revoked (active_members log) \<and>
        map fst (et_wrapped_group_keys t) = map fst (active_members log') \<and>
        revoked \<notin> fst ` set (et_wrapped_group_keys t) \<and> unat (et_epoch t) = unat epoch + 1 \<and>
        (\<forall>(d, env) \<in> set (et_wrapped_group_keys t). \<exists>m. (d, m) \<in> set (active_members log') \<and>
           seal (dm_public_key m) group_key (''vbuff-group-epoch-'' @ decimal (unat epoch + 1)) = Inr env)"
proof (cases "revoke_and_rekey ct cr seal log revoked added_by clock epoch group_key sk")
  case (Pair r log')
  show ?thesis
  proof (cases r)
    case (Inl e)
    with Pair show ?thesis
      by (auto simp: revoke_and_rekey_def split: sum.splits)
  next
    case (Inr t)
    then obtain h e where v: "chain_verify (member_dict ct) cr log () = Inr ()"
      and active: "bt_contains (active_members log) revoked"
      and a: "append_change ct cr log (RevokeDevice revoked) added_by clock sk = Inr (h, log')"
      and e: "checked_add epoch 1 = Some e" and te: "et_epoch t = e"
      and w: "wrap_keys seal group_key (''vbuff-group-epoch-'' @ decimal (unat e)) (active_members log') =
        Inr (et_wrapped_group_keys t)"
      using Pair
      by (auto simp: revoke_and_rekey_def result_simps Let_def split: sum.splits if_splits option.splits)
    have "chain_verify (member_dict ct) cr log' () = Inr ()"
      using a assms unfolding append_change_def by (intro append_verified [OF v]) auto
    moreover have "active_members log' = bt_remove revoked (active_members log)"
      using active_members_append [OF a] by (simp add: apply_action_def)
    moreover from wrap_keys_Inr [OF w]
    have m: "map fst (et_wrapped_group_keys t) = map fst (active_members log')"
      and env: "\<forall>(d, env) \<in> set (et_wrapped_group_keys t). \<exists>m. (d, m) \<in> set (active_members log') \<and>
        seal (dm_public_key m) group_key (''vbuff-group-epoch-'' @ decimal (unat e)) = Inr env" by simp_all
    moreover have "fst ` set (et_wrapped_group_keys t) = fst ` set (active_members log')"
      using m by (metis list.set_map)
    then have "revoked \<notin> fst ` set (et_wrapped_group_keys t)"
      using calculation(2) by (auto simp: bt_remove_def)
    moreover have "unat e = unat epoch + 1"
      using unat_checked_add [OF e] by simp
    ultimately show ?thesis
      unfolding Pair Inr using active te by simp
  qed
qed

lemma length_mod_digits: "length (zero_padded 20 (n mod 100000000000000000000)) = 20"
  by (rule length_zero_padded) simp_all

text \<open>
  The short authentication string never fails, is the same whichever of the two devices computes it,
  and is four groups of five characters of a 20-digit decimal rendering: the modulus has as many digits
  as the rendering.
\<close>

lemma sas_symmetric_and_total:
  "sas blake3 log a b = sas blake3 log b a \<and>
   (\<exists>digits. length digits = 20 \<and> sas blake3 log a b = Some (take 5 digits @ ''-'' @ take 5 (drop 5 digits) @ ''-'' @
      take 5 (drop 10 digits) @ ''-'' @ take 5 (drop 15 digits)))"
proof -
  have f: "preimage_finish (pre_fixed r (pre_fixed l (pre_fixed (chain_head log) (preimage_new SAS_DOMAIN)))) =
      Inr (SAS_DOMAIN @ CHR 0x00 # chain_head log @ l @ r)" for l r
    by (simp add: preimage_simps)
  have "sas blake3 log a b = sas blake3 log b a"
    by (auto simp: sas_def)
  then show ?thesis
    unfolding sas_def f Let_def by (auto intro!: exI length_mod_digits split: prod.split)
qed

section \<open>Samples\<close>

definition sample_owner :: device_member where
  "sample_owner = \<lparr>dm_device_id = ''a'', dm_public_key = ''x'', dm_signing_key = ''K''\<rparr>"

lemma sample_member_append:
  "\<exists>h l. append_change (\<lambda>_. True) sample_crypto [] (AddDevice sample_owner) ''a'' (Hlc 1 0 ''a'') ''K'' = Inr (h, [l])"
proof -
  let ?e = "\<lparr>me_action = AddDevice sample_owner, me_added_by = ''a'', me_clock = Hlc 1 0 ''a''\<rparr>"
  have "member_expected_signing_key (\<lambda>_. True) ?e 0 membership_state_default () = Inr ''K''"
    by (simp add: member_expected_signing_key_def validate_entry_semantics_def validate_author_def
        validate_action_def validate_public_key_def sample_owner_def membership_state_default_def is_valid_identifier_def
        is_valid_identifier_with_extra_def MEMBER_MAX_DEVICE_ID_BYTES_def is_ascii_alphanumeric_def bt_contains_def)
  moreover obtain b where "link_preimage (member_dict (\<lambda>_. True)) ?e (chain_head ([] :: membership_log)) = Inr b"
    by (simp add: member_link_preimage member_action_small_def sample_owner_def)
  ultimately show ?thesis
    by (simp add: append_change_def chain_append_Inr MAX_MEMBERSHIP_ENTRIES_def replay_def member_state_0)
      (simp add: sample_crypto_def)
qed

definition sample_members :: membership_log where
  "sample_members = (case append_change (\<lambda>_. True) sample_crypto [] (AddDevice sample_owner) ''a'' (Hlc 1 0 ''a'') ''K'' of
     Inr (_, c) \<Rightarrow> c | Inl _ \<Rightarrow> [])"

lemma sample_members_verified:
  "chain_verify (member_dict (\<lambda>_. True)) sample_crypto sample_members () = Inr () \<and> sample_members \<noteq> []"
proof -
  obtain h l where a: "append_change (\<lambda>_. True) sample_crypto [] (AddDevice sample_owner) ''a'' (Hlc 1 0 ''a'') ''K'' = Inr (h, [l])"
    using sample_member_append by blast
  then have "chain_verify (member_dict (\<lambda>_. True)) sample_crypto [l] () = Inr ()"
    unfolding append_change_def
    by (rule append_verified [rotated]) (simp_all add: chain_verify_def sample_crypto_def)
  with a show ?thesis
    by (simp add: sample_members_def)
qed

lemma membership_single_writer_witness:
  "\<exists>owner. me_action (cl_payload (sample_members ! 0)) = AddDevice owner \<and>
     me_added_by (cl_payload (sample_members ! 0)) = dm_device_id owner"
  using membership_single_writer [OF sample_members_verified [THEN conjunct1] sample_members_verified [THEN conjunct2]]
    sample_members_verified by auto

lemma rekey_excludes_revoked_witness:
  "case revoke_and_rekey (\<lambda>_. True) sample_crypto (\<lambda>_ _ _. Inr ()) [] ''b'' ''a'' (Hlc 2 0 ''a'') 1 ''g'' ''K'' of
      (Inl e, log') \<Rightarrow> log' = []
    | (Inr t, log') \<Rightarrow> chain_verify (member_dict (\<lambda>_. True)) sample_crypto log' () = Inr ()"
proof -
  have "\<And>m. cr_key_valid sample_crypto (cr_verifying_key sample_crypto ''K'') \<and>
      cr_verify sample_crypto (cr_verifying_key sample_crypto ''K'') m (cr_sign sample_crypto ''K'' m)"
    by (simp add: sample_crypto_def)
  from rekey_excludes_revoked [where ct = "\<lambda>_. True" and seal = "\<lambda>_ _ _. Inr ()" and log = "[]" and
      revoked = "''b''" and added_by = "''a''" and clock = "Hlc 2 0 ''a''" and epoch = 1 and group_key = "''g''", OF this]
  show ?thesis
    by (auto split: prod.splits sum.splits)
qed

end
