(* ===== verification/Merkle.thy ===== *)
theory Merkle
  imports Signed_Chain Hybrid_Clock
begin

text \<open>
  Merkle range reconciliation, \<open>crates/vbuff-sync/src/merkle.rs\<close>. BLAKE3 is the argument \<open>h\<close>.
  The recursion of \<open>range_hash\<close> and \<open>diff_range\<close> is on ranges whose size is a power of two, as
  both callers pass, and ends at size 1; it is a recursion on the size.
\<close>

definition LEAF_DOMAIN :: bytes where
  "LEAF_DOMAIN = ''vbuff-merkle-leaf-v3''"

definition NODE_DOMAIN :: bytes where
  "NODE_DOMAIN = ''vbuff-merkle-node-v2''"

record merkle_record =
  mr_clock :: hlc
  mr_record_id :: string
  mr_digest :: bytes

definition zero_hash :: bytes where
  "zero_hash = replicate 32 (CHR 0x00)"

definition hash_or_zero :: "(bytes \<Rightarrow> bytes) \<Rightarrow> preimage \<Rightarrow> bytes" where
  "hash_or_zero h p = (case preimage_finish p of Inl _ \<Rightarrow> zero_hash | Inr b \<Rightarrow> h b)"

text \<open>\<open>to_le_bytes\<close> is the reverse of \<open>to_be_bytes\<close>.\<close>

definition leaf_preimage :: "merkle_record \<Rightarrow> preimage" where
  "leaf_preimage r =
     pre_var (node_id (mr_clock r))
       (pre_fixed (rev (u32_be (logical (mr_clock r))))
         (pre_fixed (rev (u64_be (physical_ms (mr_clock r))))
           (pre_var (mr_record_id r)
             (pre_fixed (mr_digest r) (preimage_new LEAF_DOMAIN)))))"

definition leaf_hash :: "(bytes \<Rightarrow> bytes) \<Rightarrow> merkle_record \<Rightarrow> bytes" where
  "leaf_hash h r = hash_or_zero h (leaf_preimage r)"

definition leaf_at :: "bytes list \<Rightarrow> nat \<Rightarrow> bytes" where
  "leaf_at leaves i = (if i < length leaves then leaves ! i else zero_hash)"

definition node_hash :: "(bytes \<Rightarrow> bytes) \<Rightarrow> bytes \<Rightarrow> bytes \<Rightarrow> bytes" where
  "node_hash h left right =
     hash_or_zero h (pre_fixed right (pre_fixed left (preimage_new NODE_DOMAIN)))"

fun range_hash :: "(bytes \<Rightarrow> bytes) \<Rightarrow> bytes list \<Rightarrow> nat \<Rightarrow> nat \<Rightarrow> bytes" where
  "range_hash h leaves start sz =
     (if sz \<le> 1 then leaf_at leaves start
      else node_hash h (range_hash h leaves start (sz div 2))
             (range_hash h leaves (start + sz div 2) (sz div 2)))"

fun diff_range :: "(bytes \<Rightarrow> bytes) \<Rightarrow> bytes list \<Rightarrow> bytes list \<Rightarrow> nat \<Rightarrow> nat \<Rightarrow> nat list" where
  "diff_range h left right start sz =
     (if range_hash h left start sz = range_hash h right start sz then []
      else if sz \<le> 1 then [start]
      else diff_range h left right start (sz div 2) @
           diff_range h left right (start + sz div 2) (sz div 2))"

declare range_hash.simps [simp del] diff_range.simps [simp del]

fun next_power_of_two :: "nat \<Rightarrow> nat" where
  "next_power_of_two n = (if n \<le> 1 then 1 else 2 * next_power_of_two ((n + 1) div 2))"

declare next_power_of_two.simps [simp del]

text \<open>\<open>sort_by\<close> is stable; the comparison is by clock, then by record id.\<close>

record merkle_tree =
  mt_records :: "merkle_record list"
  mt_leaf_hashes :: "bytes list"

definition merkle_new :: "(bytes \<Rightarrow> bytes) \<Rightarrow> merkle_record list \<Rightarrow> merkle_tree" where
  "merkle_new h records =
     (let sorted = sort_key mr_clock (sort_key mr_record_id records) in
      \<lparr>mt_records = sorted, mt_leaf_hashes = map (leaf_hash h) sorted\<rparr>)"

definition merkle_root :: "(bytes \<Rightarrow> bytes) \<Rightarrow> merkle_tree \<Rightarrow> bytes" where
  "merkle_root h t = (let sz = next_power_of_two (max (length (mt_leaf_hashes t)) 1) in
     range_hash h (mt_leaf_hashes t) 0 sz)"

definition differing_indices :: "(bytes \<Rightarrow> bytes) \<Rightarrow> merkle_tree \<Rightarrow> merkle_tree \<Rightarrow> nat list" where
  "differing_indices h t other =
     (let sz = next_power_of_two
        (max (max (length (mt_leaf_hashes t)) (length (mt_leaf_hashes other))) 1) in
      diff_range h (mt_leaf_hashes t) (mt_leaf_hashes other) 0 sz)"

definition merkle_record_at :: "merkle_tree \<Rightarrow> nat \<Rightarrow> merkle_record option" where
  "merkle_record_at t index = (if index < length (mt_records t) then Some (mt_records t ! index) else None)"

section \<open>Powers of two\<close>

lemma next_power_of_two_ge: "n \<le> next_power_of_two n"
  by (induction n rule: next_power_of_two.induct) (subst next_power_of_two.simps, auto)

lemma next_power_of_two_exp: "\<exists>k. next_power_of_two n = 2 ^ k"
proof (induction n rule: next_power_of_two.induct)
  case (1 n)
  show ?case
  proof (cases "n \<le> 1")
    case True
    then show ?thesis
      by (intro exI [of _ 0]) (simp add: next_power_of_two.simps)
  next
    case False
    with 1 obtain k where "next_power_of_two ((n + 1) div 2) = 2 ^ k" by blast
    with False show ?thesis
      by (intro exI [of _ "Suc k"]) (simp add: next_power_of_two.simps [of n])
  qed
qed

section \<open>Reconciliation finds exactly the differences\<close>

lemma node_hash_eq: "node_hash h l r = h (NODE_DOMAIN @ CHR 0x00 # l @ r)"
proof -
  have "preimage_finish (pre_fixed r (pre_fixed l (preimage_new NODE_DOMAIN))) =
      Inr (NODE_DOMAIN @ CHR 0x00 # l @ r)"
    by (simp add: preimage_simps)
  then show ?thesis
    by (simp add: node_hash_def hash_or_zero_def)
qed

lemma not_double_exp_le: "\<not> 2 * 2 ^ k \<le> Suc 0"
  using one_le_power [of "2::nat" k] by linarith

lemma range_hash_leaf: "range_hash h leaves start (Suc 0) = leaf_at leaves start"
  by (simp add: range_hash.simps)

lemma range_hash_node:
  "range_hash h leaves start (2 ^ Suc k) =
     node_hash h (range_hash h leaves start (2 ^ k)) (range_hash h leaves (start + 2 ^ k) (2 ^ k))"
  by (subst range_hash.simps) (simp add: not_double_exp_le)

lemma diff_range_node:
  "diff_range h l r start (2 ^ Suc k) =
     (if range_hash h l start (2 ^ Suc k) = range_hash h r start (2 ^ Suc k) then []
      else diff_range h l r start (2 ^ k) @ diff_range h l r (start + 2 ^ k) (2 ^ k))"
  by (subst diff_range.simps) (simp add: not_double_exp_le)

text \<open>Equal range hashes without a collision in the range: what the comparison relies on.\<close>

fun node_collision :: "(bytes \<Rightarrow> bytes) \<Rightarrow> bytes list \<Rightarrow> bytes list \<Rightarrow> nat \<Rightarrow> nat \<Rightarrow> bool" where
  "node_collision h l r start sz =
     (if sz \<le> 1 then False
      else (let a = range_hash h l start (sz div 2); b = range_hash h l (start + sz div 2) (sz div 2);
                c = range_hash h r start (sz div 2); d = range_hash h r (start + sz div 2) (sz div 2) in
            node_hash h a b = node_hash h c d \<and> (a, b) \<noteq> (c, d)) \<or>
           node_collision h l r start (sz div 2) \<or> node_collision h l r (start + sz div 2) (sz div 2))"

declare node_collision.simps [simp del]

lemma node_collision_node:
  "\<not> node_collision h l r start (2 ^ Suc k) \<Longrightarrow>
     \<not> node_collision h l r start (2 ^ k) \<and> \<not> node_collision h l r (start + 2 ^ k) (2 ^ k) \<and>
     (range_hash h l start (2 ^ Suc k) = range_hash h r start (2 ^ Suc k) \<longrightarrow>
        range_hash h l start (2 ^ k) = range_hash h r start (2 ^ k) \<and>
        range_hash h l (start + 2 ^ k) (2 ^ k) = range_hash h r (start + 2 ^ k) (2 ^ k))"
  unfolding range_hash_node by (subst (asm) node_collision.simps) (auto simp: Let_def not_double_exp_le)

lemma range_hash_equal:
  "\<not> node_collision h l r start (2 ^ k) \<Longrightarrow>
     range_hash h l start (2 ^ k) = range_hash h r start (2 ^ k) \<Longrightarrow>
     \<forall>i \<in> {start..<start + 2 ^ k}. leaf_at l i = leaf_at r i"
proof (induction k arbitrary: start)
  case 0
  then show ?case by (simp add: range_hash_leaf)
next
  case (Suc k)
  note n = node_collision_node [OF Suc.prems(1)]
  have "\<forall>i \<in> {start..<start + 2 ^ k}. leaf_at l i = leaf_at r i"
    using n Suc.prems(2) by (intro Suc.IH) auto
  moreover have "\<forall>i \<in> {start + 2 ^ k..<start + 2 ^ k + 2 ^ k}. leaf_at l i = leaf_at r i"
    using n Suc.prems(2) by (intro Suc.IH) auto
  moreover have "i < start + 2 ^ k + 2 ^ k" if "i < start + 2 ^ Suc k" for i
    using that by simp
  ultimately show ?case
    by (metis atLeastLessThan_iff not_le)
qed

lemma upt_double: "[start..<start + 2 ^ Suc k] = [start..<start + 2 ^ k] @ [start + 2 ^ k..<start + 2 ^ k + 2 ^ k]"
  using upt_add_eq_append [of start "start + 2 ^ k" "2 ^ k"] by (simp add: mult_2 add.assoc)

lemma diff_range_spec:
  "\<not> node_collision h l r start (2 ^ k) \<Longrightarrow>
     diff_range h l r start (2 ^ k) = filter (\<lambda>i. leaf_at l i \<noteq> leaf_at r i) [start..<start + 2 ^ k]"
proof (induction k arbitrary: start)
  case 0
  then show ?case
    using range_hash_leaf [of h _ start] by (subst diff_range.simps) simp
next
  case (Suc k)
  note n = node_collision_node [OF Suc.prems]
  show ?case
  proof (cases "range_hash h l start (2 ^ Suc k) = range_hash h r start (2 ^ Suc k)")
    case True
    with range_hash_equal [OF Suc.prems True] show ?thesis
      by (subst diff_range_node) (auto simp del: power_Suc intro!: filter_False [symmetric])
  next
    case False
    with n Suc.IH [of start] Suc.IH [of "start + 2 ^ k"] show ?thesis
      unfolding diff_range_node upt_double by simp
  qed
qed

text \<open>
  C7. Reconciliation is exact: unless two different pairs of child hashes collide under BLAKE3 in
  one of the ranges compared, \<open>differing_indices\<close> lists, in increasing order and each once, all the
  indices at which the leaf commitments of the two trees differ (a missing leaf counts as the zero
  hash), and nothing else.
\<close>

theorem differing_indices_exact:
  assumes "\<not> node_collision h (mt_leaf_hashes t) (mt_leaf_hashes u) 0
      (next_power_of_two (max (max (length (mt_leaf_hashes t)) (length (mt_leaf_hashes u))) 1))"
  shows "sorted_wrt (<) (differing_indices h t u) \<and>
    set (differing_indices h t u) = {i. leaf_at (mt_leaf_hashes t) i \<noteq> leaf_at (mt_leaf_hashes u) i}"
proof -
  let ?n = "max (max (length (mt_leaf_hashes t)) (length (mt_leaf_hashes u))) 1"
  obtain k where k: "next_power_of_two ?n = 2 ^ k"
    using next_power_of_two_exp by blast
  have d: "differing_indices h t u =
      filter (\<lambda>i. leaf_at (mt_leaf_hashes t) i \<noteq> leaf_at (mt_leaf_hashes u) i) [0..<2 ^ k]"
    using diff_range_spec [of h "mt_leaf_hashes t" "mt_leaf_hashes u" 0 k] assms
    unfolding differing_indices_def k Let_def by simp
  have "i < 2 ^ k" if "leaf_at (mt_leaf_hashes t) i \<noteq> leaf_at (mt_leaf_hashes u) i" for i
  proof -
    have "i < ?n"
      using that by (auto simp: leaf_at_def split: if_splits)
    with next_power_of_two_ge [of ?n] show ?thesis
      unfolding k by linarith
  qed
  then show ?thesis
    unfolding d by (auto simp: sorted_wrt_filter)
qed

section \<open>What a leaf commits to\<close>

lemma finish_leaf_preimage:
  "preimage_finish (leaf_preimage r) = Inr a \<longleftrightarrow>
     length (mr_record_id r) < 2 ^ 32 \<and> length (node_id (mr_clock r)) < 2 ^ 32 \<and>
     a = LEAF_DOMAIN @ CHR 0x00 # mr_digest r @ framed (mr_record_id r) @
       rev (u64_be (physical_ms (mr_clock r))) @ rev (u32_be (logical (mr_clock r))) @
       framed (node_id (mr_clock r))"
  by (auto simp: leaf_preimage_def preimage_simps)

lemma leaf_preimage_inject:
  assumes "length (mr_digest r) = 32" and "length (mr_digest s) = 32"
    and "preimage_finish (leaf_preimage r) = Inr a" and "preimage_finish (leaf_preimage s) = Inr a"
  shows "r = s"
proof -
  have "mr_digest r = mr_digest s \<and> mr_record_id r = mr_record_id s \<and>
      physical_ms (mr_clock r) = physical_ms (mr_clock s) \<and>
      logical (mr_clock r) = logical (mr_clock s) \<and> node_id (mr_clock r) = node_id (mr_clock s)"
    using assms unfolding finish_leaf_preimage by (auto simp: preimage_simps append_eq_append_conv)
  then show ?thesis
    by (auto intro: hlc.expand merkle_record.equality)
qed

text \<open>
  Leaf framing is unambiguous: two records whose ids fit the length prefix have the same leaf hash
  only if they are the same record or BLAKE3 collides on their two leaf preimages.
\<close>

lemma leaf_hash_commits:
  assumes "length (mr_digest r) = 32" and "length (mr_digest s) = 32"
    and "preimage_finish (leaf_preimage r) = Inr a" and "preimage_finish (leaf_preimage s) = Inr b"
    and "h a = h b \<Longrightarrow> a = b" and "leaf_hash h r = leaf_hash h s"
  shows "r = s"
  using assms leaf_preimage_inject [of r s a] by (simp add: leaf_hash_def hash_or_zero_def)

definition sample_leaf :: merkle_record where
  "sample_leaf = \<lparr>mr_clock = Hlc 5 0 ''node'', mr_record_id = ''r'', mr_digest = replicate 32 (CHR 0x07)\<rparr>"

lemma leaf_hash_commits_witness:
  "\<exists>a. preimage_finish (leaf_preimage sample_leaf) = Inr a \<and> sample_leaf = sample_leaf"
proof -
  obtain a where a: "preimage_finish (leaf_preimage sample_leaf) = Inr a"
    by (simp add: finish_leaf_preimage sample_leaf_def)
  have "sample_leaf = sample_leaf"
    by (rule leaf_hash_commits [OF _ _ a a refl refl]) (simp_all add: sample_leaf_def)
  with a show ?thesis by blast
qed

text \<open>
  A record whose id has \<open>2 ^ 32\<close> bytes or more has the leaf hash of a missing leaf, the zero hash:
  reconciliation with a tree that lacks the record reports no difference, although the documentation
  of \<open>leaf_hash\<close> promises that such a leaf matches nothing and is reported as a permanent difference.
\<close>

lemma oversized_leaf_matches_missing:
  assumes "2 ^ 32 \<le> length (mr_record_id r)"
  shows "leaf_hash h r = zero_hash \<and> differing_indices h (merkle_new h [r]) (merkle_new h []) = []"
proof -
  have "collected (leaf_preimage r) = None"
    using assms by (simp add: leaf_preimage_def preimage_simps)
  then have "leaf_hash h r = zero_hash"
    by (simp add: leaf_hash_def hash_or_zero_def preimage_finish_def collected_def split: if_splits)
  then show ?thesis
    by (simp add: differing_indices_def merkle_new_def next_power_of_two.simps diff_range.simps
        range_hash.simps leaf_at_def)
qed

definition sample_oversized :: merkle_record where
  "sample_oversized = \<lparr>mr_clock = Hlc 5 0 ''node'', mr_record_id = replicate (2 ^ 32) CHR ''r'', mr_digest = []\<rparr>"

lemma oversized_leaf_matches_missing_witness:
  "leaf_hash id sample_oversized = zero_hash \<and>
   differing_indices id (merkle_new id [sample_oversized]) (merkle_new id []) = []"
proof (rule oversized_leaf_matches_missing)
  show "2 ^ 32 \<le> length (mr_record_id sample_oversized)"
    unfolding sample_oversized_def by (simp only: merkle_record.simps length_replicate order_refl)
qed

definition sample_tree :: "nat \<Rightarrow> merkle_tree" where
  "sample_tree n = merkle_new id (replicate n sample_leaf)"

lemma sort_key_replicate: "sort_key f (replicate n x) = replicate n x"
  by (rule sort_key_id_if_sorted) simp

lemma differing_indices_exact_witness:
  "sorted_wrt (<) (differing_indices id (sample_tree 2) (sample_tree 1)) \<and>
   set (differing_indices id (sample_tree 2) (sample_tree 1)) =
     {i. leaf_at (mt_leaf_hashes (sample_tree 2)) i \<noteq> leaf_at (mt_leaf_hashes (sample_tree 1)) i}"
proof (rule differing_indices_exact)
  have l: "length (mt_leaf_hashes (sample_tree n)) = n" for n
    by (simp add: sample_tree_def merkle_new_def Let_def)
  have z: "leaf_at (mt_leaf_hashes (sample_tree (Suc n))) 0 = leaf_hash id sample_leaf" for n
  proof -
    have "mt_leaf_hashes (sample_tree (Suc n)) = replicate (Suc n) (leaf_hash id sample_leaf)"
      by (simp only: sample_tree_def merkle_new_def Let_def merkle_tree.simps sort_key_replicate map_replicate)
    then show ?thesis
      by (simp add: leaf_at_def)
  qed
  have z2: "leaf_at (mt_leaf_hashes (sample_tree 2)) 0 = leaf_hash id sample_leaf"
    using z [of 1] by (simp add: numeral_2_eq_2)
  show "\<not> node_collision id (mt_leaf_hashes (sample_tree 2)) (mt_leaf_hashes (sample_tree 1)) 0
      (next_power_of_two (max (max (length (mt_leaf_hashes (sample_tree 2)))
        (length (mt_leaf_hashes (sample_tree 1)))) 1))"
    by (simp add: l next_power_of_two.simps node_collision.simps [of _ _ _ _ 2] node_collision.simps [of _ _ _ _ "Suc 0"]
        z z2 Let_def node_hash_eq range_hash.simps)
qed

end
