(* ===== verification/Content_Hash.thy ===== *)
theory Content_Hash
  imports Clip_Types "HOL-Library.Multiset"
begin

text \<open>
  The content hash that deduplicates clips, \<open>crates/vbuff-core/src/hash.rs\<close>. BLAKE3 is a parameter; the
  hasher is fed the concatenation of its updates. \<open>sort_by\<close> is stable, as \<open>sort_key\<close> is.
\<close>

record canonical_flavor =
  cf_mime :: string
  cf_bytes :: bytes

definition length_prefixed :: "bytes \<Rightarrow> bytes" where
  "length_prefixed b = u64_le (of_nat (length b)) @ b"

definition content_hash :: "(bytes \<Rightarrow> bytes) \<Rightarrow> canonical_flavor list \<Rightarrow> bytes" where
  "content_hash blake3 flavors =
     blake3 (concat (map (\<lambda>f. cf_mime f @ length_prefixed (cf_bytes f)) (sort_key cf_mime flavors)))"

fun hashed_bytes :: "body \<Rightarrow> bytes" where
  "hashed_bytes (Inline b) = b"
| "hashed_bytes (Spilled blob_ref byte_size) = blob_ref"

definition content_preimage :: "flavor list \<Rightarrow> bytes" where
  "content_preimage flavors =
     concat (map (\<lambda>f. fl_mime f @ length_prefixed (hashed_bytes (fl_body f))) (sort_key fl_mime flavors))"

definition content_hash_from_flavors :: "(bytes \<Rightarrow> bytes) \<Rightarrow> flavor list \<Rightarrow> bytes" where
  "content_hash_from_flavors blake3 flavors = blake3 (content_preimage flavors)"

section \<open>What the hash identifies\<close>

lemma length_prefixed_append:
  assumes "length a < 2 ^ 64" and "length b < 2 ^ 64"
  shows "length_prefixed a @ x = length_prefixed b @ y \<longleftrightarrow> a = b \<and> x = y"
proof
  assume eq: "length_prefixed a @ x = length_prefixed b @ y"
  then have "(of_nat (length a) :: u64) = of_nat (length b)"
    by (simp add: length_prefixed_def)
  then have "length a = length b"
    using assms by (auto dest!: arg_cong [of _ _ unat] simp: unat_of_nat)
  with eq show "a = b \<and> x = y"
    by (simp add: length_prefixed_def)
qed auto

text \<open>The bytes of a flavor set in the order of its MIME types.\<close>

definition sorted_bytes :: "flavor list \<Rightarrow> bytes list" where
  "sorted_bytes flavors = map (hashed_bytes \<circ> fl_body) (sort_key fl_mime flavors)"

lemma preimage_bytes:
  assumes "map fl_mime xs = map fl_mime ys"
    and "\<forall>f \<in> set (xs @ ys). length (hashed_bytes (fl_body f)) < 2 ^ 64"
    and "concat (map (\<lambda>f. fl_mime f @ length_prefixed (hashed_bytes (fl_body f))) xs) =
         concat (map (\<lambda>f. fl_mime f @ length_prefixed (hashed_bytes (fl_body f))) ys)"
  shows "map (hashed_bytes \<circ> fl_body) xs = map (hashed_bytes \<circ> fl_body) ys"
proof -
  have "length xs = length ys"
    using assms(1) by (rule map_eq_imp_length_eq)
  then show ?thesis
    using assms by (induction xs ys rule: list_induct2) (auto simp: length_prefixed_append)
qed

lemma sort_key_mset:
  assumes "mset xs = mset ys" and "distinct (map f xs)"
  shows "sort_key f xs = sort_key f ys"
  using assms by (intro sort_key_inj_key_eq) (auto simp: distinct_map)

text \<open>
  C17. The content hash identifies the bytes and not their order. It does not depend on the order of flavors
  with different MIME types; and two flavor sets with the same MIME types and the same hash have, type by type,
  the same bytes, unless BLAKE3 collides on their preimages.
\<close>

theorem content_hash_commits:
  assumes "\<forall>f \<in> set (xs @ ys). length (hashed_bytes (fl_body f)) < 2 ^ 64"
    and "map fl_mime (sort_key fl_mime xs) = map fl_mime (sort_key fl_mime ys)"
    and "blake3 (content_preimage xs) = blake3 (content_preimage ys) \<longrightarrow> content_preimage xs = content_preimage ys"
  shows "(content_hash_from_flavors blake3 xs = content_hash_from_flavors blake3 ys \<longrightarrow> sorted_bytes xs = sorted_bytes ys) \<and>
    (distinct (map fl_mime zs) \<and> mset zs = mset xs \<longrightarrow>
       content_hash_from_flavors blake3 zs = content_hash_from_flavors blake3 xs)"
  using assms preimage_bytes [OF assms(2)] sort_key_mset [of zs xs fl_mime]
  by (auto simp: content_hash_from_flavors_def content_preimage_def sorted_bytes_def)

lemma be_bytes_zero: "be_bytes k 0 = replicate k (CHR 0x00)"
  by (induction k) (simp_all add: replicate_append_same char_of_def)

lemma u64_le_small: "n < 256 \<Longrightarrow> u64_le (of_nat n) = char_of n # replicate 7 (CHR 0x00)"
  using be_bytes.simps(2) [of 7 n] be_bytes_zero [of 7] by (simp add: u64_le_def u64_be_def unat_of_nat)

definition collision_tail :: bytes where
  "collision_tail = replicate 49 CHR ''x''"

definition collision_one :: "flavor list" where
  "collision_one = [flavor_inline ''text/plain''
     (CHR 0x00 # CHR ''z'' # CHR ''1'' # replicate 7 (CHR 0x00) @ collision_tail)]"

definition collision_two :: "flavor list" where
  "collision_two = [flavor_inline ''text/plain;'' [], flavor_inline ''z'' collision_tail]"

text \<open>
  C18. The encoding under the content hash is ambiguous: the MIME type is not length-prefixed, so a text clip of
  59 bytes and a clip of two flavors with other MIME types hash to the same value, for every hash function,
  and the second is taken for a duplicate of the first.
\<close>

theorem content_hash_ambiguous:
  "collision_one \<noteq> collision_two \<and>
   map fl_mime collision_one = [''text/plain''] \<and> map fl_mime collision_two = [''text/plain;'', ''z''] \<and>
   content_hash_from_flavors blake3 collision_one = content_hash_from_flavors blake3 collision_two"
proof -
  have n: "u64_le 59 = CHR '';'' # replicate 7 (CHR 0x00)" "u64_le 49 = CHR ''1'' # replicate 7 (CHR 0x00)"
      "u64_le 0 = CHR 0x00 # replicate 7 (CHR 0x00)"
    using u64_le_small [of 59] u64_le_small [of 49] u64_le_small [of 0] by (simp_all add: char_of_def bit_0)
  have tail: "length collision_tail = 49"
    by (simp add: collision_tail_def)
  have "content_preimage collision_one = content_preimage collision_two"
    by (simp add: content_preimage_def collision_one_def collision_two_def flavor_inline_def length_prefixed_def tail n
        replicate_append_same)
  then show ?thesis
    by (simp add: content_hash_from_flavors_def collision_one_def collision_two_def flavor_inline_def)
qed

section \<open>Witnesses\<close>

theorem content_hash_commits_witness:
  "content_hash_from_flavors (\<lambda>b. b) [flavor_inline ''a'' ''1'', flavor_inline ''b'' ''2''] =
     content_hash_from_flavors (\<lambda>b. b) [flavor_inline ''b'' ''2'', flavor_inline ''a'' ''1''] \<and>
   content_hash_from_flavors (\<lambda>b. b) [flavor_inline ''a'' ''1''] \<noteq> content_hash_from_flavors (\<lambda>b. b) [flavor_inline ''a'' ''2'']"
  using content_hash_commits [of "[flavor_inline ''b'' ''2'', flavor_inline ''a'' ''1'']"
      "[flavor_inline ''b'' ''2'', flavor_inline ''a'' ''1'']" "\<lambda>b. b" "[flavor_inline ''a'' ''1'', flavor_inline ''b'' ''2'']"]
    content_hash_commits [of "[flavor_inline ''a'' ''1'']" "[flavor_inline ''a'' ''2'']" "\<lambda>b. b" "[]"]
  by (simp add: flavor_inline_def sorted_bytes_def add_mset_commute)

end
