(* ===== verification/Capture_Timing.thy ===== *)
theory Capture_Timing
  imports Clip_Types
begin

text \<open>
  When a capture is read and committed: \<open>crates/vbuff-core/src/capture/coalesce.rs\<close> (the coalescer of
  growing flavor sets, the gate of the PRIMARY selection, the relation of two texts) and
  \<open>scheduler.rs\<close> (the adaptive poll interval and the rolling budget). Sums of \<open>Duration\<close>s and
  \<open>Instant\<close>s panic past their limits, and the sum of the wake-ups past \<open>u32\<close> in a build with overflow
  checks; a panic is \<open>None\<close>. \<open>str::to_lowercase\<close> (Unicode tables) is a parameter.
\<close>

section \<open>The coalescer\<close>

datatype coalesce_decision = WaitMore | Commit | Restarted

record coalescer =
  fc_generation :: "capture_generation option"
  fc_signature :: "(string \<times> u64 \<times> flavor_realization) set"
  fc_stable_observations :: u8

definition coalescer_default :: coalescer where
  "coalescer_default = \<lparr>fc_generation = None, fc_signature = {}, fc_stable_observations = 0\<rparr>"

definition flavor_signature :: "flavor list \<Rightarrow> (string \<times> u64 \<times> flavor_realization) set" where
  "flavor_signature flavors = set (map (\<lambda>f.
     (to_ascii_lowercase (fl_mime f), body_byte_size (fl_body f), fl_realization f)) flavors)"

definition has_pending :: "flavor list \<Rightarrow> bool" where
  "has_pending flavors = list_ex (\<lambda>f. fl_realization f = Deferred) flavors"

definition coalesce_observe ::
  "coalescer \<Rightarrow> capture_generation option \<Rightarrow> flavor list \<Rightarrow> coalesce_decision \<times> coalescer" where
  "coalesce_observe c generation flavors =
     (let signature = flavor_signature flavors in
      if fc_generation c \<noteq> None \<and> generation \<noteq> fc_generation c
      then (Restarted, c\<lparr>fc_generation := generation, fc_signature := signature, fc_stable_observations := 0\<rparr>)
      else (let c1 = c\<lparr>fc_generation := generation\<rparr> in
        if signature \<noteq> fc_signature c1
        then (WaitMore, c1\<lparr>fc_signature := signature, fc_stable_observations := 0\<rparr>)
        else if has_pending flavors then (WaitMore, c1\<lparr>fc_stable_observations := 0\<rparr>)
        else (let c2 = c1\<lparr>fc_stable_observations := saturating_add (fc_stable_observations c1) 1\<rparr> in
          if fc_stable_observations c2 \<ge> 2 then (Commit, c2) else (WaitMore, c2))))"

definition coalescer_reset :: "coalescer \<Rightarrow> coalescer" where
  "coalescer_reset c = coalescer_default"

section \<open>The gate of the PRIMARY selection\<close>

record primary_intent =
  pi_modifier_seen :: bool
  pi_middle_click_seen :: bool

record primary_gate =
  pg_settle :: duration
  pg_first_seen :: "instant option"
  pg_last_hash :: "bytes option"

definition primary_gate_new :: "duration \<Rightarrow> primary_gate" where
  "primary_gate_new settle = \<lparr>pg_settle = settle, pg_first_seen = None, pg_last_hash = None\<rparr>"

definition primary_observe :: "primary_gate \<Rightarrow> bytes \<Rightarrow> primary_intent \<Rightarrow> instant \<Rightarrow> bool \<times> primary_gate" where
  "primary_observe g hash intent now =
     (if pg_last_hash g \<noteq> Some hash
      then (False, g\<lparr>pg_last_hash := Some hash, pg_first_seen := Some now\<rparr>)
      else (let stable = (case pg_first_seen g of None \<Rightarrow> False
                          | Some start \<Rightarrow> pg_settle g \<le> saturating_duration_since now start) in
            (stable \<and> (pi_modifier_seen intent \<or> pi_middle_click_seen intent), g)))"

section \<open>The relation of two texts\<close>

datatype transform_relation = ExactRelation | LineEndings | WhitespaceOnlyRelation | CaseOnly

fun replace_crlf :: "string \<Rightarrow> string" where
  "replace_crlf [] = []"
| "replace_crlf [c] = [c]"
| "replace_crlf (c # d # s) =
     (if c = CHR 0x0D \<and> d = CHR 0x0A then CHR 0x0A # replace_crlf s else c # replace_crlf (d # s))"

fun join_spaces :: "string list \<Rightarrow> string" where
  "join_spaces [] = []"
| "join_spaces [w] = w"
| "join_spaces (w # ws) = w @ '' '' @ join_spaces ws"

definition fold_whitespace :: "string \<Rightarrow> string" where
  "fold_whitespace s = join_spaces (whitespace_words (utf8_split s) [])"

definition relate_text :: "(string \<Rightarrow> string) \<Rightarrow> string \<Rightarrow> string \<Rightarrow> transform_relation option" where
  "relate_text to_lowercase previous following =
     (if previous = following then Some ExactRelation
      else if replace_crlf previous = replace_crlf following then Some LineEndings
      else if fold_whitespace previous = fold_whitespace following then Some WhitespaceOnlyRelation
      else if to_lowercase previous = to_lowercase following then Some CaseOnly
      else None)"

section \<open>The poll scheduler\<close>

datatype poll_observation = Activity | ClipboardChanged | StableClipboard | MissRisk

record poll_scheduler =
  ps_minimum :: duration
  ps_maximum :: duration
  ps_current :: duration
  ps_active_for :: duration
  ps_active_until :: "instant option"

definition poll_new :: "duration \<Rightarrow> duration \<Rightarrow> duration \<Rightarrow> poll_scheduler" where
  "poll_new minimum0 initial maximum0 =
     (let minimum = max minimum0 (millis 10); maximum = max maximum0 minimum in
      \<lparr>ps_minimum = minimum, ps_maximum = maximum, ps_current = min (max initial minimum) maximum,
       ps_active_for = secs 3, ps_active_until = None\<rparr>)"

definition poll_default :: poll_scheduler where
  "poll_default = poll_new (millis 120) (millis 300) (millis 900)"

fun poll_observe :: "poll_scheduler \<Rightarrow> poll_observation \<Rightarrow> instant \<Rightarrow> (duration \<times> poll_scheduler) option" where
  "poll_observe s MissRisk now = Option.bind (duration_add (ps_active_for s) (ps_active_for s)) (\<lambda>d.
     Option.bind (instant_checked_add now d) (\<lambda>until.
       Some (ps_minimum s, s\<lparr>ps_current := ps_minimum s, ps_active_until := Some until\<rparr>)))"
| "poll_observe s StableClipboard now =
     (if (case ps_active_until s of None \<Rightarrow> True | Some until \<Rightarrow> until \<le> now)
      then Option.bind (duration_add (ps_current s) (ps_current s div 2)) (\<lambda>grown.
        Some (min grown (ps_maximum s), s\<lparr>ps_current := min grown (ps_maximum s)\<rparr>))
      else Some (ps_current s, s))"
| "poll_observe s _ now = Option.bind (instant_checked_add now (ps_active_for s)) (\<lambda>until.
     Some (ps_minimum s, s\<lparr>ps_current := ps_minimum s, ps_active_until := Some until\<rparr>))"

definition poll_back_off :: "poll_scheduler \<Rightarrow> (duration \<times> poll_scheduler) option" where
  "poll_back_off s = Option.bind (duration_add (ps_current s) (ps_current s)) (\<lambda>doubled.
     Some (min doubled (ps_maximum s), s\<lparr>ps_current := min doubled (ps_maximum s)\<rparr>))"

section \<open>The rolling budget\<close>

datatype budget_observation = WithinBudget | CpuExceeded | WakeupsExceeded | BothExceeded

record budget_sample =
  bg_at :: instant
  bg_cpu :: duration
  bg_wakeups :: u32

record subsystem_budget =
  sb_window :: duration
  sb_max_cpu :: duration
  sb_max_wakeups :: u32
  sb_samples :: "budget_sample list"

definition budget_new :: "duration \<Rightarrow> duration \<Rightarrow> u32 \<Rightarrow> subsystem_budget" where
  "budget_new window max_cpu max_wakeups =
     \<lparr>sb_window = window, sb_max_cpu = max_cpu, sb_max_wakeups = max_wakeups, sb_samples = []\<rparr>"

fun sum_durations :: "duration list \<Rightarrow> duration \<Rightarrow> duration option" where
  "sum_durations [] acc = Some acc"
| "sum_durations (d # ds) acc = Option.bind (duration_add acc d) (sum_durations ds)"

fun sum_u32 :: "u32 list \<Rightarrow> u32 \<Rightarrow> u32 option" where
  "sum_u32 [] acc = Some acc"
| "sum_u32 (n # ns) acc = Option.bind (checked_add acc n) (sum_u32 ns)"

definition budget_record ::
  "subsystem_budget \<Rightarrow> instant \<Rightarrow> duration \<Rightarrow> u32 \<Rightarrow> (budget_observation \<times> subsystem_budget) option" where
  "budget_record b at cpu wakeups =
     (let samples = dropWhile (\<lambda>s. sb_window b < saturating_duration_since at (bg_at s))
            (sb_samples b @ [\<lparr>bg_at = at, bg_cpu = cpu, bg_wakeups = wakeups\<rparr>]) in
      Option.bind (sum_durations (map bg_cpu samples) 0) (\<lambda>total_cpu.
      Option.bind (sum_u32 (map bg_wakeups samples) 0) (\<lambda>total_wakeups.
        Some ((case (sb_max_cpu b < total_cpu, sb_max_wakeups b < total_wakeups) of
            (False, False) \<Rightarrow> WithinBudget
          | (True, False) \<Rightarrow> CpuExceeded
          | (False, True) \<Rightarrow> WakeupsExceeded
          | (True, True) \<Rightarrow> BothExceeded), b\<lparr>sb_samples := samples\<rparr>))))"

section \<open>A burst is committed once it stopped growing\<close>

lemma has_pending_signature: "has_pending f \<longleftrightarrow> Deferred \<in> (snd \<circ> snd) ` flavor_signature f"
  by (force simp: has_pending_def flavor_signature_def list_ex_iff)

definition repeats :: "coalescer \<Rightarrow> capture_generation option \<Rightarrow> flavor list \<Rightarrow> bool" where
  "repeats c g f \<longleftrightarrow> (fc_generation c = None \<or> fc_generation c = g) \<and> fc_signature c = flavor_signature f \<and>
     \<not> has_pending f"

lemma observe_repeat:
  assumes "repeats c g f"
  shows "fc_stable_observations (snd (coalesce_observe c g f)) = saturating_add (fc_stable_observations c) 1"
    and "fst (coalesce_observe c g f) = Commit \<longleftrightarrow> 2 \<le> saturating_add (fc_stable_observations c) 1"
  using assms by (auto simp: coalesce_observe_def repeats_def Let_def simp del: not_None_eq)

lemma observe_other:
  assumes "\<not> repeats c g f"
  shows "fc_stable_observations (snd (coalesce_observe c g f)) = 0" and "fst (coalesce_observe c g f) \<noteq> Commit"
  using assms by (auto simp: coalesce_observe_def repeats_def Let_def simp del: not_None_eq)

lemma coalesce_observe_state [simp]:
  "fc_signature (snd (coalesce_observe c g f)) = flavor_signature f"
  "fc_generation (snd (coalesce_observe c g f)) = g"
  by (auto simp: coalesce_observe_def Let_def)

lemma stable_nonzero_iff: "fc_stable_observations (snd (coalesce_observe c g f)) \<noteq> 0 \<longleftrightarrow> repeats c g f"
  by (cases "repeats c g f")
    (auto simp: observe_repeat observe_other word_le_nat_alt unat_eq_0 [symmetric] arith_simps)

lemma commit_iff: "fst (coalesce_observe c g f) = Commit \<longleftrightarrow> repeats c g f \<and> fc_stable_observations c \<noteq> 0"
  by (cases "repeats c g f")
    (auto simp: observe_repeat observe_other word_le_nat_alt unat_eq_0 [symmetric] arith_simps)

text \<open>
  The coalescer commits exactly at the second consecutive observation that repeats, in the same
  generation, a flavor set seen before, with no flavor still deferred. In particular a set that grew,
  shrank, changed its generation or waits for deferred data is never committed, and three observations of
  one complete set always end in a commit, whatever came before.
\<close>

lemma coalesce_commit_iff:
  "(fst (coalesce_observe (snd (coalesce_observe c g1 f1)) g2 f2) = Commit \<longleftrightarrow>
      fc_signature c = flavor_signature f1 \<and> flavor_signature f1 = flavor_signature f2 \<and> \<not> has_pending f2 \<and>
      (fc_generation c = None \<or> fc_generation c = g1) \<and> (g1 = None \<or> g1 = g2)) \<and>
   (has_pending f2 \<or>
      fst (coalesce_observe (snd (coalesce_observe (snd (coalesce_observe c g2 f2)) g2 f2)) g2 f2) = Commit)"
proof -
  have "has_pending f1 = has_pending f2" if "flavor_signature f1 = flavor_signature f2"
    using that by (simp add: has_pending_signature)
  then show ?thesis
    by (auto simp: commit_iff stable_nonzero_iff) (auto simp: repeats_def)
qed

section \<open>The poll interval stays within its bounds\<close>

datatype poll_op = PollObserve poll_observation instant | PollBackOff

fun poll_step :: "poll_scheduler \<Rightarrow> poll_op \<Rightarrow> (duration \<times> poll_scheduler) option" where
  "poll_step s (PollObserve observation now) = poll_observe s observation now"
| "poll_step s PollBackOff = poll_back_off s"

fun poll_run :: "poll_scheduler \<Rightarrow> poll_op list \<Rightarrow> poll_scheduler option" where
  "poll_run s [] = Some s"
| "poll_run s (op # ops) = Option.bind (poll_step s op) (\<lambda>(_, s'). poll_run s' ops)"

fun poll_op_ok :: "poll_op \<Rightarrow> bool" where
  "poll_op_ok (PollObserve _ now) \<longleftrightarrow> now + secs 6 \<le> instant_max"
| "poll_op_ok PollBackOff \<longleftrightarrow> True"

definition poll_inv :: "duration \<Rightarrow> duration \<Rightarrow> poll_scheduler \<Rightarrow> bool" where
  "poll_inv lo hi s \<longleftrightarrow> ps_minimum s = lo \<and> ps_maximum s = hi \<and> ps_active_for s = secs 3 \<and>
     lo \<le> ps_current s \<and> ps_current s \<le> hi"

lemma poll_step_inv:
  assumes "poll_inv lo hi s" and "lo \<le> hi" and "hi + hi \<le> duration_max" and "poll_op_ok op"
  shows "case poll_step s op of None \<Rightarrow> False | Some (d, s') \<Rightarrow> d = ps_current s' \<and> poll_inv lo hi s'"
proof (cases op)
  case (PollObserve observation now)
  with assms show ?thesis
    by (cases observation)
      (auto simp: poll_inv_def duration_add_def instant_checked_add_def duration_max_def secs_def)
next
  case PollBackOff
  with assms show ?thesis
    by (auto simp: poll_inv_def poll_back_off_def duration_add_def)
qed

lemma poll_run_inv:
  assumes "poll_inv lo hi s" and "lo \<le> hi" and "hi + hi \<le> duration_max" and "list_all poll_op_ok ops"
  shows "\<exists>s'. poll_run s ops = Some s' \<and> poll_inv lo hi s'"
  using assms
proof (induction ops arbitrary: s)
  case (Cons op ops)
  then have "case poll_step s op of None \<Rightarrow> False | Some (d, s') \<Rightarrow> d = ps_current s' \<and> poll_inv lo hi s'"
    by (auto intro!: poll_step_inv)
  with Cons show ?case by (auto split: option.splits)
qed simp

lemma poll_stable_held:
  "ps_active_until s = Some until \<Longrightarrow> list_all (\<lambda>t. t < until) ts \<Longrightarrow>
     poll_run s (map (PollObserve StableClipboard) ts) = Some s"
  by (induction ts) auto

lemma poll_stable_grows:
  assumes "poll_inv lo hi s" and "millis 10 \<le> lo" and "lo \<le> hi" and "hi + hi \<le> duration_max"
    and "\<forall>until. ps_active_until s = Some until \<longrightarrow> list_all (\<lambda>t. until \<le> t) ts"
    and "poll_run s (map (PollObserve StableClipboard) ts) = Some s'"
  shows "min hi (ps_current s + length ts * millis 5) \<le> ps_current s'"
  using assms
proof (induction ts arbitrary: s)
  case (Cons t ts)
  define s1 where "s1 = s\<lparr>ps_current := min (ps_current s + ps_current s div 2) hi\<rparr>"
  have step: "poll_step s (PollObserve StableClipboard t) = Some (ps_current s1, s1)"
    using Cons.prems by (auto simp: poll_inv_def duration_add_def s1_def split: option.splits)
  have "min hi (ps_current s1 + length ts * millis 5) \<le> ps_current s'"
    using Cons.prems step by (intro Cons.IH) (auto simp: poll_inv_def s1_def)
  moreover have "min hi (ps_current s + millis 5) \<le> ps_current s1"
    using Cons.prems(1,2) by (auto simp: poll_inv_def s1_def millis_def)
  ultimately show ?case by auto
qed (auto simp: poll_inv_def)

text \<open>
  The adaptive poll interval is bounded, responsive and relaxing. For instants six seconds before the end
  of time and a maximum that can be doubled, no sequence of observations and back-offs panics, and the
  interval is between the minimum (at least 10 ms) and the maximum. Activity resets it to the minimum and no
  stable observation of the following three seconds changes it; once the active phase is over, each stable
  observation adds at least 5 ms until the maximum is reached.
\<close>

lemma poll_interval_adapts:
  assumes "lo = max minimum0 (millis 10)" and "hi = max maximum0 lo" and "hi + hi \<le> duration_max"
    and "list_all poll_op_ok ops" and "now + secs 6 \<le> instant_max" and "activity \<in> {Activity, ClipboardChanged}"
    and "list_all (\<lambda>t. t < now + secs 3) early" and "list_all (\<lambda>t. now + secs 3 \<le> t \<and> t + secs 6 \<le> instant_max) late"
  shows "\<exists>s s1 s2.
      poll_run (poll_new minimum0 initial maximum0) ops = Some s \<and> lo \<le> ps_current s \<and> ps_current s \<le> hi \<and>
      poll_run s (PollObserve activity now # map (PollObserve StableClipboard) early) = Some s1 \<and> ps_current s1 = lo \<and>
      poll_run s1 (map (PollObserve StableClipboard) late) = Some s2 \<and>
      min hi (lo + length late * millis 5) \<le> ps_current s2 \<and> ps_current s2 \<le> hi"
proof -
  have lohi: "lo \<le> hi" and lo: "millis 10 \<le> lo" using assms(1,2) by auto
  have "poll_inv lo hi (poll_new minimum0 initial maximum0)"
    using assms(1,2) by (auto simp: poll_inv_def poll_new_def Let_def)
  then obtain s where s: "poll_run (poll_new minimum0 initial maximum0) ops = Some s" and inv: "poll_inv lo hi s"
    using poll_run_inv lohi assms(3,4) by blast
  define s1 where "s1 = s\<lparr>ps_current := lo, ps_active_until := Some (now + secs 3)\<rparr>"
  have act: "poll_step s (PollObserve activity now) = Some (lo, s1)"
    using inv assms(5,6) by (auto simp: poll_inv_def instant_checked_add_def s1_def secs_def)
  have s1: "poll_run s (PollObserve activity now # map (PollObserve StableClipboard) early) = Some s1"
    using act poll_stable_held [of s1 "now + secs 3" early] assms(7) by (simp add: s1_def)
  have inv1: "poll_inv lo hi s1" using inv lohi by (auto simp: poll_inv_def s1_def)
  have "list_all poll_op_ok (map (PollObserve StableClipboard) late)"
    using assms(8) by (auto simp: list_all_iff)
  then obtain s2 where s2: "poll_run s1 (map (PollObserve StableClipboard) late) = Some s2" and inv2: "poll_inv lo hi s2"
    using poll_run_inv [OF inv1 lohi assms(3)] by blast
  have "min hi (ps_current s1 + length late * millis 5) \<le> ps_current s2"
    using assms(8) by (intro poll_stable_grows [OF inv1 lo lohi assms(3) _ s2]) (auto simp: s1_def list_all_iff)
  then show ?thesis
    using s s1 s2 inv inv2 by (auto simp: poll_inv_def s1_def)
qed

section \<open>The rolling budget counts exactly its window\<close>

fun budget_run :: "subsystem_budget \<Rightarrow> budget_sample list \<Rightarrow> subsystem_budget option" where
  "budget_run b [] = Some b"
| "budget_run b (s # ss) = Option.bind (budget_record b (bg_at s) (bg_cpu s) (bg_wakeups s)) (\<lambda>(_, b'). budget_run b' ss)"

definition recent :: "duration \<Rightarrow> instant \<Rightarrow> budget_sample list \<Rightarrow> budget_sample list" where
  "recent window now samples = filter (\<lambda>s. now \<le> bg_at s + window) samples"

lemma sum_durations_eq:
  "acc \<le> duration_max \<Longrightarrow> sum_durations ds acc =
     (if acc + sum_list ds \<le> duration_max then Some (acc + sum_list ds) else None)"
  by (induction ds arbitrary: acc) (auto simp: duration_add_def add.assoc)

lemma sum_u32_Some:
  "unat acc + sum_list (map unat ns) < 2 ^ 32 \<Longrightarrow>
     \<exists>total. sum_u32 ns acc = Some total \<and> unat total = unat acc + sum_list (map unat ns)"
proof (induction ns arbitrary: acc)
  case (Cons n ns)
  then obtain c where c: "checked_add acc n = Some c" "unat c = unat acc + unat n"
    by (auto simp: checked_add_def unat_word_ariths)
  with Cons.IH [of c] Cons.prems show ?case by (auto simp: add.assoc)
qed simp

lemma dropWhile_recent:
  "sorted (map bg_at ss) \<Longrightarrow> dropWhile (\<lambda>s. w < now - bg_at s) ss = recent w now ss"
proof (induction ss)
  case (Cons s ss)
  have "recent w now ss = ss" if "now \<le> bg_at s + w"
    using that Cons.prems by (force simp: recent_def filter_id_conv)
  with Cons show ?case by (auto simp: recent_def)
qed (simp add: recent_def)

lemma recent_recent: "now \<le> now' \<Longrightarrow> recent w now' (recent w now ss) = recent w now' ss"
  by (auto simp: recent_def intro!: filter_cong)

lemma sum_list_filter_le: "sum_list (map f (filter P xs)) \<le> sum_list (map f xs)" for f :: "'a \<Rightarrow> nat"
  by (induction xs) auto

lemma budget_record_recent:
  fixes ss :: "budget_sample list"
  assumes "sb_samples b = recent w prior ss" and "sb_window b = w" and "prior \<le> bg_at r"
    and "sorted (map bg_at (ss @ [r]))"
    and "sum_list (map bg_cpu (ss @ [r])) \<le> duration_max"
    and "sum_list (map (\<lambda>s. unat (bg_wakeups s)) (ss @ [r])) < 2 ^ 32"
  shows "\<exists>observation. budget_record b (bg_at r) (bg_cpu r) (bg_wakeups r) =
      Some (observation, b\<lparr>sb_samples := recent w (bg_at r) (ss @ [r])\<rparr>) \<and>
    (observation \<in> {CpuExceeded, BothExceeded} \<longleftrightarrow>
       sb_max_cpu b < sum_list (map bg_cpu (recent w (bg_at r) (ss @ [r])))) \<and>
    (observation \<in> {WakeupsExceeded, BothExceeded} \<longleftrightarrow>
       unat (sb_max_wakeups b) < sum_list (map (\<lambda>s. unat (bg_wakeups s)) (recent w (bg_at r) (ss @ [r]))))"
proof -
  define rec where "rec = recent w (bg_at r) (ss @ [r])"
  have "sorted (map bg_at (sb_samples b @ [r]))"
    using assms(1,4) by (auto simp: recent_def sorted_append intro: sorted_filter)
  then have "dropWhile (\<lambda>s. w < saturating_duration_since (bg_at r) (bg_at s)) (sb_samples b @ [r])
      = recent w (bg_at r) (sb_samples b @ [r])"
    using dropWhile_recent by (simp add: saturating_duration_since_def)
  also have "\<dots> = rec"
    using recent_recent [OF assms(3), of w ss] by (simp add: assms(1) rec_def) (simp add: recent_def)
  finally have kept: "dropWhile (\<lambda>s. w < saturating_duration_since (bg_at r) (bg_at s)) (sb_samples b @ [r]) = rec" .
  have "sum_list (map bg_cpu rec) \<le> duration_max"
    using sum_list_filter_le [of bg_cpu _ "ss @ [r]"] assms(5) unfolding rec_def recent_def by (rule order_trans)
  then have cpu: "sum_durations (map bg_cpu rec) 0 = Some (sum_list (map bg_cpu rec))"
    by (simp add: sum_durations_eq)
  have "sum_list (map (\<lambda>s. unat (bg_wakeups s)) rec) < 2 ^ 32"
    using sum_list_filter_le [of "\<lambda>s. unat (bg_wakeups s)" _ "ss @ [r]"] assms(6)
    unfolding rec_def recent_def by (rule le_less_trans)
  then obtain total where wakeups: "sum_u32 (map bg_wakeups rec) 0 = Some total"
      "unat total = sum_list (map (\<lambda>s. unat (bg_wakeups s)) rec)"
    using sum_u32_Some [of 0 "map bg_wakeups rec"] by (auto simp: comp_def)
  have same: "\<lparr>bg_at = bg_at r, bg_cpu = bg_cpu r, bg_wakeups = bg_wakeups r\<rparr> = r"
    by simp
  show ?thesis
    unfolding rec_def [symmetric] budget_record_def same assms(2) kept Let_def
    using wakeups by (auto simp: cpu word_less_nat_alt split: bool.splits)
qed

lemma budget_run_snoc:
  "budget_run b (rs @ [r]) = Option.bind (budget_run b rs)
     (\<lambda>b'. Option.bind (budget_record b' (bg_at r) (bg_cpu r) (bg_wakeups r)) (\<lambda>(_, b''). Some b''))"
  by (induction rs arbitrary: b) (auto split: bind_splits prod.splits)

lemma budget_run_recent:
  assumes "sorted (map bg_at rs)" and "sum_list (map bg_cpu rs) \<le> duration_max"
    and "sum_list (map (\<lambda>s. unat (bg_wakeups s)) rs) < 2 ^ 32"
  shows "\<exists>now. budget_run (budget_new w c m) rs =
      Some \<lparr>sb_window = w, sb_max_cpu = c, sb_max_wakeups = m, sb_samples = recent w now rs\<rparr> \<and>
      (\<forall>t. (\<forall>s \<in> set rs. bg_at s \<le> t) \<longrightarrow> now \<le> t)"
  using assms
proof (induction rs rule: rev_induct)
  case Nil
  then show ?case by (auto simp: budget_new_def recent_def intro: exI [of _ 0])
next
  case (snoc r rs)
  then obtain now where now: "budget_run (budget_new w c m) rs =
      Some \<lparr>sb_window = w, sb_max_cpu = c, sb_max_wakeups = m, sb_samples = recent w now rs\<rparr>"
    "\<forall>t. (\<forall>s \<in> set rs. bg_at s \<le> t) \<longrightarrow> now \<le> t"
    by (auto simp: sorted_append)
  have "now \<le> bg_at r"
    using now(2) snoc.prems(1) by (auto simp: sorted_append)
  with budget_record_recent [of "\<lparr>sb_window = w, sb_max_cpu = c, sb_max_wakeups = m,
      sb_samples = recent w now rs\<rparr>" w now rs r] snoc.prems obtain observation where
    "budget_record \<lparr>sb_window = w, sb_max_cpu = c, sb_max_wakeups = m, sb_samples = recent w now rs\<rparr>
       (bg_at r) (bg_cpu r) (bg_wakeups r) = Some (observation,
         \<lparr>sb_window = w, sb_max_cpu = c, sb_max_wakeups = m, sb_samples = recent w (bg_at r) (rs @ [r])\<rparr>)"
    by auto
  then show ?case
    using now(1) by (auto simp: budget_run_snoc intro!: exI [of _ "bg_at r"])
qed

text \<open>
  The rolling budget is exact. For samples in the order of their time whose totals fit the machine types,
  recording never panics, and the last report says that the CPU time (the wake-ups) is exceeded exactly if the
  sum over the samples of the last \<open>window\<close>, and over no others, is above its limit; the samples that are
  kept are those of the window.
\<close>

lemma budget_exact:
  assumes "sorted (map bg_at (rs @ [r]))" and "sum_list (map bg_cpu (rs @ [r])) \<le> duration_max"
    and "sum_list (map (\<lambda>s. unat (bg_wakeups s)) (rs @ [r])) < 2 ^ 32"
  shows "\<exists>b observation b'. budget_run (budget_new window max_cpu max_wakeups) rs = Some b \<and>
      budget_record b (bg_at r) (bg_cpu r) (bg_wakeups r) = Some (observation, b') \<and>
      sb_samples b' = recent window (bg_at r) (rs @ [r]) \<and>
      (observation \<in> {CpuExceeded, BothExceeded} \<longleftrightarrow>
         max_cpu < sum_list (map bg_cpu (recent window (bg_at r) (rs @ [r])))) \<and>
      (observation \<in> {WakeupsExceeded, BothExceeded} \<longleftrightarrow>
         unat max_wakeups < sum_list (map (\<lambda>s. unat (bg_wakeups s)) (recent window (bg_at r) (rs @ [r]))))"
proof -
  obtain now where now: "budget_run (budget_new window max_cpu max_wakeups) rs =
      Some \<lparr>sb_window = window, sb_max_cpu = max_cpu, sb_max_wakeups = max_wakeups, sb_samples = recent window now rs\<rparr>"
    "\<forall>t. (\<forall>s \<in> set rs. bg_at s \<le> t) \<longrightarrow> now \<le> t"
    using budget_run_recent [of rs window max_cpu max_wakeups] assms by (auto simp: sorted_append)
  have "now \<le> bg_at r"
    using now(2) assms(1) by (auto simp: sorted_append)
  with budget_record_recent [of "\<lparr>sb_window = window, sb_max_cpu = max_cpu,
      sb_max_wakeups = max_wakeups, sb_samples = recent window now rs\<rparr>" window now rs r] assms now(1) show ?thesis
    by auto
qed

section \<open>The PRIMARY gate and the relation of texts\<close>

lemma primary_observe_settled:
  assumes "fst (primary_observe g hash intent now)"
  shows "pg_last_hash g = Some hash \<and> (pi_modifier_seen intent \<or> pi_middle_click_seen intent) \<and>
    (\<exists>start. pg_first_seen g = Some start \<and> pg_settle g \<le> now - start)"
  using assms by (auto simp: primary_observe_def saturating_duration_since_def Let_def
      split: if_splits option.splits)

lemma relate_text_sym: "relate_text low a b = relate_text low b a"
  by (auto simp: relate_text_def)

lemma relate_text_Some: "relate_text low a b = Some ExactRelation \<longleftrightarrow> a = b"
  by (auto simp: relate_text_def)

section \<open>Witnesses\<close>

lemma poll_interval_adapts_witness:
  "\<exists>s s1 s2. poll_run (poll_new (millis 120) (millis 300) (millis 900)) [PollBackOff] = Some s \<and>
      poll_run s [PollObserve Activity (secs 10), PollObserve StableClipboard (secs 11)] = Some s1 \<and>
      ps_current s1 = millis 120 \<and>
      poll_run s1 [PollObserve StableClipboard (secs 13), PollObserve StableClipboard (secs 14)] = Some s2 \<and>
      millis 130 \<le> ps_current s2 \<and> ps_current s2 \<le> millis 900"
  using poll_interval_adapts [of "millis 120" "millis 120" "millis 900" "millis 900" "[PollBackOff]" "secs 10"
      Activity "[secs 11]" "[secs 13, secs 14]" "millis 300"]
  by (simp del: poll_run.simps add: millis_def secs_def duration_max_def instant_max_def) blast

lemma budget_exact_witness:
  "\<exists>b observation b'. budget_run (budget_new (secs 60) (secs 2) 15)
        [\<lparr>bg_at = secs 100, bg_cpu = secs 3, bg_wakeups = 9\<rparr>] = Some b \<and>
      budget_record b (secs 200) (secs 1) 16 = Some (observation, b') \<and>
      observation \<notin> {CpuExceeded, BothExceeded} \<and> observation \<in> {WakeupsExceeded, BothExceeded}"
  using budget_exact [of "[\<lparr>bg_at = secs 100, bg_cpu = secs 3, bg_wakeups = 9\<rparr>]"
      "\<lparr>bg_at = secs 200, bg_cpu = secs 1, bg_wakeups = 16\<rparr>" "secs 60" "secs 2" 15]
  by (auto simp: recent_def secs_def duration_max_def)

end
