(* ===== verification/Paste_Guard.thy ===== *)
theory Paste_Guard
  imports Content_Hash Capture_Timing "HOL-Library.Product_Lexorder"
begin

text \<open>
  The fingerprint that guards a paste, \<open>PasteGuardFingerprint\<close> of
  \<open>crates/vbuff-core/src/intelligence/actions.rs\<close>: a digest of the whole flavor set (line endings of text
  normalised), a structural identity and the host of a URL. BLAKE3 and \<open>Url::parse\<close> are parameters; the
  parser answers \<open>None\<close> for a malformed URL and \<open>Some host\<close> with the optional host otherwise.
\<close>

record guard_env =
  gu_blake3 :: "bytes \<Rightarrow> bytes"
  gu_parse_url :: "string \<Rightarrow> string option option"

datatype structural_identity = TextIdentity | UrlIdentity | CryptoAddress | ImageIdentity

record paste_guard_fingerprint =
  pgf_digest :: bytes
  pgf_identity :: structural_identity
  pgf_host_hash :: "bytes option"

datatype paste_guard_decision =
    AllowPaste
  | BlockUnreadable
  | BlockContentChanged
  | BlockAddressSubstitution
  | BlockDomainSubstitution

definition guard_mime :: "flavor \<Rightarrow> string" where
  "guard_mime f = (if is_plain_text f then ''text/plain'' else fl_mime f)"

definition looks_like_crypto_address :: "string \<Rightarrow> bool" where
  "looks_like_crypto_address text \<longleftrightarrow>
     (length text = 42 \<and> starts_with ''0x'' text \<and> list_all is_ascii_hexdigit (drop 2 text)) \<or>
     (26 \<le> length text \<and> length text \<le> 62 \<and> list_all is_ascii_alphanumeric text \<and>
      \<not> list_ex (\<lambda>c. c \<in> {CHR ''I'', CHR ''O'', CHR ''l''}) text)"

definition guarded_bytes :: "flavor \<Rightarrow> bytes" where
  "guarded_bytes f = (case (if is_text f then as_text f else None) of
     Some text \<Rightarrow> replace_crlf text
   | None \<Rightarrow> hashed_bytes (fl_body f))"

definition guard_preimage :: "flavor list \<Rightarrow> bytes" where
  "guard_preimage flavors = u64_le (of_nat (length flavors)) @
     concat (map (\<lambda>f. length_prefixed (guard_mime f) @ length_prefixed (guarded_bytes f))
       (sort_key (\<lambda>f. (guard_mime f, fl_mime f)) flavors))"

definition fingerprint_from_flavors :: "guard_env \<Rightarrow> flavor list \<Rightarrow> paste_guard_fingerprint option" where
  "fingerprint_from_flavors env flavors =
     (if flavors = [] then None
      else (let digest = gu_blake3 env (guard_preimage flavors) in
        case Option.bind (find is_text flavors) as_text of
          Some text \<Rightarrow>
            (let trimmed = trim (replace_crlf text);
                 parsed = gu_parse_url env trimmed in
             Some \<lparr>pgf_digest = digest,
                   pgf_identity = (if looks_like_crypto_address trimmed then CryptoAddress
                                   else if parsed \<noteq> None then UrlIdentity else TextIdentity),
                   pgf_host_hash = Option.bind parsed (map_option (\<lambda>host. gu_blake3 env (to_ascii_lowercase host)))\<rparr>)
        | None \<Rightarrow> (case find is_image flavors of
            None \<Rightarrow> None
          | Some _ \<Rightarrow> Some \<lparr>pgf_digest = digest, pgf_identity = ImageIdentity, pgf_host_hash = None\<rparr>)))"

definition fingerprint_compare ::
  "paste_guard_fingerprint \<Rightarrow> paste_guard_fingerprint option \<Rightarrow> paste_guard_decision" where
  "fingerprint_compare p observed0 = (case observed0 of
     None \<Rightarrow> BlockUnreadable
   | Some observed \<Rightarrow>
       if pgf_digest p = pgf_digest observed \<and> pgf_identity p = pgf_identity observed then AllowPaste
       else if pgf_identity p = CryptoAddress \<and> pgf_identity observed = CryptoAddress then BlockAddressSubstitution
       else if pgf_identity p = UrlIdentity \<and> pgf_identity observed = UrlIdentity \<and>
               pgf_host_hash p \<noteq> pgf_host_hash observed
       then BlockDomainSubstitution
       else BlockContentChanged)"

section \<open>What an allowed comparison means\<close>

definition guarded_content :: "flavor list \<Rightarrow> (string \<times> bytes) list" where
  "guarded_content flavors =
     map (\<lambda>f. (guard_mime f, guarded_bytes f)) (sort_key (\<lambda>f. (guard_mime f, fl_mime f)) flavors)"

definition fits_u64 :: "flavor list \<Rightarrow> bool" where
  "fits_u64 flavors \<longleftrightarrow> length flavors < 2 ^ 64 \<and>
     (\<forall>f \<in> set flavors. length (guard_mime f) < 2 ^ 64 \<and> length (guarded_bytes f) < 2 ^ 64)"

lemma prefixed_pairs_inject:
  assumes "length xs = length ys"
    and "\<forall>p \<in> set (xs @ ys). length (fst p) < 2 ^ 64 \<and> length (snd p) < 2 ^ 64"
    and "concat (map (\<lambda>p. length_prefixed (fst p) @ length_prefixed (snd p)) xs) =
         concat (map (\<lambda>p. length_prefixed (fst p) @ length_prefixed (snd p)) ys)"
  shows "xs = ys"
  using assms
  by (induction xs ys rule: list_induct2) (auto simp: length_prefixed_append prod_eq_iff)

text \<open>The preimage of the digest determines the content: every field of it is length-prefixed.\<close>

lemma guard_preimage_inject:
  assumes "fits_u64 a" and "fits_u64 b" and "guard_preimage a = guard_preimage b"
  shows "guarded_content a = guarded_content b"
proof -
  have "(of_nat (length a) :: u64) = of_nat (length b)"
    using assms(3) by (simp add: guard_preimage_def)
  then have "length a = length b"
    using assms(1,2) by (auto dest!: arg_cong [of _ _ unat] simp: fits_u64_def unat_of_nat)
  have pre: "guard_preimage c = u64_le (of_nat (length c)) @
      concat (map (\<lambda>p. length_prefixed (fst p) @ length_prefixed (snd p)) (guarded_content c))" for c
    by (simp add: guard_preimage_def guarded_content_def comp_def)
  show ?thesis
  proof (rule prefixed_pairs_inject)
    show "length (guarded_content a) = length (guarded_content b)"
      using \<open>length a = length b\<close> by (simp add: guarded_content_def)
    show "\<forall>p \<in> set (guarded_content a @ guarded_content b). length (fst p) < 2 ^ 64 \<and> length (snd p) < 2 ^ 64"
      using assms(1,2) by (auto simp: guarded_content_def fits_u64_def)
  qed (use assms(3) in \<open>simp add: pre\<close>)
qed

text \<open>
  C16. The paste guard allows a paste only for the same content. If the fingerprint of what was written and of
  what is read back are allowed to match, the two flavor sets agree in their MIME types and bytes up to the
  order of the flavors and the line endings of text, unless BLAKE3 collides on their preimages; and a set that
  reads back identical is always allowed.
\<close>

theorem paste_guard_exact:
  assumes "fits_u64 written" and "fits_u64 observed"
    and "gu_blake3 env (guard_preimage written) = gu_blake3 env (guard_preimage observed) \<longrightarrow>
         guard_preimage written = guard_preimage observed"
    and "fingerprint_from_flavors env written = Some p"
  shows "(fingerprint_compare p (fingerprint_from_flavors env observed) = AllowPaste \<longrightarrow>
           guarded_content written = guarded_content observed) \<and>
    fingerprint_compare p (fingerprint_from_flavors env written) = AllowPaste"
proof -
  have digest: "pgf_digest q = gu_blake3 env (guard_preimage fs)" if "fingerprint_from_flavors env fs = Some q" for fs q
    using that by (auto simp: fingerprint_from_flavors_def Let_def split: if_splits option.splits)
  show ?thesis
    using assms digest [OF assms(4)] digest [of observed] guard_preimage_inject [OF assms(1,2)]
    by (auto simp: fingerprint_compare_def split: option.splits if_splits)
qed

theorem paste_guard_exact_witness:
  "\<exists>p. fingerprint_from_flavors \<lparr>gu_blake3 = (\<lambda>b. b), gu_parse_url = (\<lambda>_. None)\<rparr> [flavor_inline ''text/plain'' ''hi''] = Some p \<and>
     fingerprint_compare p
       (fingerprint_from_flavors \<lparr>gu_blake3 = (\<lambda>b. b), gu_parse_url = (\<lambda>_. None)\<rparr> [flavor_inline ''text/plain'' ''hi'']) = AllowPaste"
proof -
  let ?env = "\<lparr>gu_blake3 = (\<lambda>b. b), gu_parse_url = (\<lambda>_. None)\<rparr>" and ?fs = "[flavor_inline ''text/plain'' ''hi'']"
  have "as_text (flavor_inline ''text/plain'' ''hi'') = Some ''hi''"
    by (simp add: as_text_inline byte_in_def)
  then obtain p where "fingerprint_from_flavors ?env ?fs = Some p"
    by (simp add: fingerprint_from_flavors_def Let_def)
  moreover have "guard_mime (flavor_inline ''text/plain'' ''hi'') = ''text/plain''"
      "guarded_bytes (flavor_inline ''text/plain'' ''hi'') = ''hi''"
    by (simp_all add: guard_mime_def guarded_bytes_def as_text_inline byte_in_def)
  then have "fits_u64 ?fs"
    by (simp add: fits_u64_def)
  ultimately show ?thesis
    using paste_guard_exact [of ?fs ?fs ?env p] by auto
qed

end
