(* ===== verification/Secret.thy ===== *)
theory Secret
  imports Clip_Types
begin

text \<open>
  Secret detection, \<open>crates/vbuff-core/src/secret.rs\<close>, and the handling table of
  \<open>crates/vbuff-core/src/trust/secrets.rs\<close>.

  Confidences are counted in hundredths (the code only compares \<open>f32\<close> literals with two decimals).
  Whether the Shannon entropy of a token reaches 3.8 bits is the argument \<open>entropy\<close>, the only floating
  point computation. The separators of every \<open>split\<close> are ASCII characters, or all but some ASCII
  characters; in the second case a multi-byte character gives several empty words here and one in the
  code, which no test on the words distinguishes.
\<close>

datatype secret_kind =
    PrivateKey
  | CloudCredential
  | AccessToken
  | JsonWebToken
  | PaymentCard
  | OneTimePassword
  | RecoveryCode
  | HighEntropy

text \<open>The derived \<open>Ord\<close> is the declaration order.\<close>

fun kind_rank :: "secret_kind \<Rightarrow> nat" where
  "kind_rank PrivateKey = 0"
| "kind_rank CloudCredential = 1"
| "kind_rank AccessToken = 2"
| "kind_rank JsonWebToken = 3"
| "kind_rank PaymentCard = 4"
| "kind_rank OneTimePassword = 5"
| "kind_rank RecoveryCode = 6"
| "kind_rank HighEntropy = 7"

record secret_finding =
  sf_kind :: secret_kind
  sf_confidence :: nat

fun is_structural :: "secret_kind \<Rightarrow> bool" where
  "is_structural OneTimePassword = False"
| "is_structural RecoveryCode = False"
| "is_structural _ = True"

fun min_actionable_confidence :: "secret_kind \<Rightarrow> nat" where
  "min_actionable_confidence HighEntropy = 70"
| "min_actionable_confidence _ = 90"

definition MIN_RECLASSIFY_CONFIDENCE :: nat where
  "MIN_RECLASSIFY_CONFIDENCE = 90"

definition is_actionable :: "secret_finding \<Rightarrow> bool" where
  "is_actionable f \<longleftrightarrow> sf_confidence f \<ge> min_actionable_confidence (sf_kind f)"

definition justifies_reclassification :: "secret_finding \<Rightarrow> bool" where
  "justifies_reclassification f \<longleftrightarrow> is_structural (sf_kind f) \<and> sf_confidence f \<ge> MIN_RECLASSIFY_CONFIDENCE"

section \<open>The detectors\<close>

definition is_structured_locator :: "string \<Rightarrow> bool" where
  "is_structured_locator token \<longleftrightarrow> contains_sub ''://'' token \<or> CHR 0x5C \<in> set token \<or> starts_with ''/'' token"

definition OTP_CONTEXT_MARKERS :: "string list" where
  "OTP_CONTEXT_MARKERS = [''otp'', ''one-time'', ''verification'', ''verify'', ''code'', ''passcode'']"

definition otp_digit_length :: "nat \<Rightarrow> bool" where
  "otp_digit_length n \<longleftrightarrow> 4 \<le> n \<and> n \<le> 8"

definition OTP_CONTEXT_CONFIDENCE :: nat where
  "OTP_CONTEXT_CONFIDENCE = 96"

definition OTP_BARE_CONFIDENCE :: nat where
  "OTP_BARE_CONFIDENCE = 90"

definition has_otp_digit_run :: "string \<Rightarrow> bool" where
  "has_otp_digit_run text = list_ex (\<lambda>run. otp_digit_length (length run))
     (split_pred (\<lambda>ch. \<not> is_ascii_digit ch) text)"

definition otp_finding :: "string \<Rightarrow> string \<Rightarrow> secret_finding option" where
  "otp_finding text lower =
     (let has_context = list_ex (\<lambda>word. word \<in> set OTP_CONTEXT_MARKERS)
        (map (trim_matches CHR ''-'') (split_pred (\<lambda>ch. \<not> is_ascii_alphanumeric ch \<and> ch \<noteq> CHR ''-'') lower)) in
      if has_context \<and> has_otp_digit_run text
      then Some \<lparr>sf_kind = OneTimePassword, sf_confidence = OTP_CONTEXT_CONFIDENCE\<rparr>
      else (let trimmed = trim text;
                is_bare_code = otp_digit_length (length trimmed) \<and> list_all is_ascii_digit trimmed in
            if is_bare_code then Some \<lparr>sf_kind = OneTimePassword, sf_confidence = OTP_BARE_CONFIDENCE\<rparr> else None))"

definition is_probable_otp :: "string \<Rightarrow> bool" where
  "is_probable_otp text \<longleftrightarrow> otp_finding text (to_ascii_lowercase text) \<noteq> None"

definition is_recovery_code :: "string \<Rightarrow> bool" where
  "is_recovery_code token \<longleftrightarrow> (let compact_len = length (filter is_ascii_alphanumeric token) in
     8 \<le> compact_len \<and> compact_len \<le> 64 \<and>
     list_all (\<lambda>b. is_ascii_alphanumeric b \<or> b = CHR ''-'') token \<and>
     list_ex is_ascii_digit token \<and> list_ex is_ascii_alphabetic token)"

definition push_once :: "secret_kind \<Rightarrow> nat \<Rightarrow> secret_finding list \<Rightarrow> secret_finding list" where
  "push_once kind confidence findings =
     (if \<not> list_ex (\<lambda>f. sf_kind f = kind) findings
      then findings @ [\<lparr>sf_kind = kind, sf_confidence = confidence\<rparr>] else findings)"

definition is_cloud_credential :: "string \<Rightarrow> bool" where
  "is_cloud_credential token \<longleftrightarrow> length token = 20 \<and> (starts_with ''AKIA'' token \<or> starts_with ''ASIA'' token) \<and>
     list_all (\<lambda>b. is_ascii_uppercase b \<or> is_ascii_digit b) (drop 4 token)"

definition ACCESS_TOKEN_PREFIXES :: "string list" where
  "ACCESS_TOKEN_PREFIXES = [''ghp_'', ''gho_'', ''github_pat_'', ''glpat-'', ''sk_live_'']"

definition is_access_token :: "string \<Rightarrow> bool" where
  "is_access_token token = list_ex (\<lambda>prefix. starts_with prefix token \<and> length token \<ge> length prefix + 16)
     ACCESS_TOKEN_PREFIXES"

definition is_base64_url_byte :: "char \<Rightarrow> bool" where
  "is_base64_url_byte b \<longleftrightarrow> is_ascii_alphanumeric b \<or> b = CHR ''-'' \<or> b = CHR ''_'' \<or> b = CHR ''=''"

definition is_jwt :: "string \<Rightarrow> bool" where
  "is_jwt token = (case split_on CHR ''.'' token of
     [header, payload, signature] \<Rightarrow>
       starts_with ''eyJ'' header \<and> length payload \<ge> 8 \<and> length signature \<ge> 16 \<and>
       list_all (list_all is_base64_url_byte) [header, payload, signature]
   | _ \<Rightarrow> False)"

definition luhn_digit :: "nat \<Rightarrow> char \<Rightarrow> nat" where
  "luhn_digit index b = (let digit = of_char b - 48 in
     if index mod 2 = 1 then (let d = digit * 2 in if d > 9 then d - 9 else d) else digit)"

definition luhn_valid :: "string \<Rightarrow> bool" where
  "luhn_valid digits \<longleftrightarrow> sum_list (map (\<lambda>(index, b). luhn_digit index b) (enumerate 0 (rev digits))) mod 10 = 0"

definition probable_high_entropy :: "(string \<Rightarrow> bool) \<Rightarrow> string \<Rightarrow> bool" where
  "probable_high_entropy entropy token =
     (if \<not> (24 \<le> length token \<and> length token \<le> 256) \<or> \<not> is_ascii token then False
      else if is_structured_locator token then False
      else (let categories = [list_ex is_ascii_lowercase token, list_ex is_ascii_uppercase token,
                list_ex is_ascii_digit token, list_ex (\<lambda>b. \<not> is_ascii_alphanumeric b) token] in
            length (filter (\<lambda>present. present) categories) \<ge> 3 \<and> entropy token))"

definition scan_token ::
  "(string \<Rightarrow> bool) \<Rightarrow> string \<Rightarrow> bool \<Rightarrow> secret_finding list \<Rightarrow> secret_finding list" where
  "scan_token entropy token recovery_context findings =
     (let f1 = (if is_cloud_credential token then push_once CloudCredential 98 findings else findings);
          f2 = (if is_access_token token then push_once AccessToken 97 f1 else f1);
          f3 = (if is_jwt token then push_once JsonWebToken 95 f2 else f2);
          digits = filter is_ascii_digit token;
          f4 = (if 13 \<le> length digits \<and> length digits \<le> 19 \<and> luhn_valid digits
                then push_once PaymentCard 90 f3 else f3);
          f5 = (if recovery_context \<and> is_recovery_code token then push_once RecoveryCode 94 f4 else f4)
      in if probable_high_entropy entropy token then push_once HighEntropy 72 f5 else f5)"

definition token_separator :: "char \<Rightarrow> bool" where
  "token_separator ch \<longleftrightarrow> is_ascii_whitespace ch \<or> ch \<in> set '',;()[]{}<>'' \<or> ch = CHR 0x22 \<or> ch = CHR 0x27"

definition locator_separator :: "char \<Rightarrow> bool" where
  "locator_separator ch \<longleftrightarrow> ch \<in> set ''/?&=#'' \<or> ch = CHR 0x5C"

definition scan_token_and_parts ::
  "(string \<Rightarrow> bool) \<Rightarrow> bool \<Rightarrow> string \<Rightarrow> secret_finding list \<Rightarrow> secret_finding list" where
  "scan_token_and_parts entropy recovery_context token findings =
     (let findings1 = scan_token entropy token recovery_context findings in
      if is_structured_locator token
      then fold (\<lambda>part. scan_token entropy part recovery_context) (split_pred locator_separator token) findings1
      else findings1)"

definition detect_secrets :: "(string \<Rightarrow> bool) \<Rightarrow> string \<Rightarrow> secret_finding list" where
  "detect_secrets entropy text =
     (let findings = (if contains_sub ''-----BEGIN '' text \<and> contains_sub ''PRIVATE KEY-----'' text
            then [\<lparr>sf_kind = PrivateKey, sf_confidence = 100\<rparr>] else []);
          lower = to_ascii_lowercase text;
          recovery_context = (contains_sub ''recovery'' lower \<or> contains_sub ''backup code'' lower);
          findings1 = (case otp_finding text lower of Some f \<Rightarrow> findings @ [f] | None \<Rightarrow> findings)
      in fold (scan_token_and_parts entropy recovery_context) (split_pred token_separator text) findings1)"

definition actionable_secrets :: "(string \<Rightarrow> bool) \<Rightarrow> string \<Rightarrow> secret_finding list" where
  "actionable_secrets entropy text = filter is_actionable (detect_secrets entropy text)"

text \<open>\<open>max_by\<close> keeps the later of two equal elements.\<close>

definition finding_le :: "secret_finding \<Rightarrow> secret_finding \<Rightarrow> bool" where
  "finding_le l r \<longleftrightarrow> sf_confidence l < sf_confidence r \<or>
     (sf_confidence l = sf_confidence r \<and> kind_rank (sf_kind r) \<le> kind_rank (sf_kind l))"

fun strongest_finding :: "secret_finding list \<Rightarrow> secret_finding option" where
  "strongest_finding [] = None"
| "strongest_finding (f # fs) = Some (foldl (\<lambda>best g. if finding_le best g then g else best) f fs)"

definition strongest_actionable_secret :: "(string \<Rightarrow> bool) \<Rightarrow> string \<Rightarrow> secret_finding option" where
  "strongest_actionable_secret entropy text = strongest_finding (actionable_secrets entropy text)"

definition text_contains_actionable_secret :: "(string \<Rightarrow> bool) \<Rightarrow> string \<Rightarrow> bool" where
  "text_contains_actionable_secret entropy text = list_ex is_actionable (detect_secrets entropy text)"

section \<open>The handling table\<close>

record secret_handling =
  sh_ttl :: duration
  sh_memory_only :: bool

definition handling :: "nat \<Rightarrow> bool \<Rightarrow> secret_handling" where
  "handling seconds memory_only = \<lparr>sh_ttl = secs seconds, sh_memory_only = memory_only\<rparr>"

fun handling_for_secret :: "secret_kind \<Rightarrow> secret_handling" where
  "handling_for_secret PrivateKey = handling 30 True"
| "handling_for_secret CloudCredential = handling (5 * 60) False"
| "handling_for_secret AccessToken = handling (5 * 60) False"
| "handling_for_secret JsonWebToken = handling (2 * 60) False"
| "handling_for_secret PaymentCard = handling (10 * 60) False"
| "handling_for_secret OneTimePassword = handling 60 True"
| "handling_for_secret RecoveryCode = handling 30 True"
| "handling_for_secret HighEntropy = handling (2 * 60) False"

fun sensitivity_reason_for_secret :: "secret_kind \<Rightarrow> sensitivity_reason" where
  "sensitivity_reason_for_secret PrivateKey = PrivateKeyReason"
| "sensitivity_reason_for_secret CloudCredential = CloudCredentialReason"
| "sensitivity_reason_for_secret AccessToken = AccessTokenReason"
| "sensitivity_reason_for_secret JsonWebToken = JsonWebTokenReason"
| "sensitivity_reason_for_secret PaymentCard = PaymentCardReason"
| "sensitivity_reason_for_secret OneTimePassword = OneTimePasswordReason"
| "sensitivity_reason_for_secret RecoveryCode = RecoveryCodeReason"
| "sensitivity_reason_for_secret HighEntropy = PossibleSecret"

section \<open>One finding per kind, each above its floor\<close>

definition findings_ok :: "secret_finding list \<Rightarrow> bool" where
  "findings_ok fs \<longleftrightarrow> distinct (map sf_kind fs) \<and> list_all is_actionable fs"

lemma findings_ok_push_once:
  "findings_ok fs \<Longrightarrow> min_actionable_confidence kind \<le> c \<Longrightarrow> findings_ok (push_once kind c fs)"
  by (auto simp: findings_ok_def push_once_def is_actionable_def list_ex_iff)

lemma set_push_once: "set fs \<subseteq> set (push_once kind c fs)"
  by (auto simp: push_once_def)

lemma findings_ok_scan_token: "findings_ok fs \<Longrightarrow> findings_ok (scan_token entropy token rc fs)"
  by (simp add: scan_token_def Let_def findings_ok_push_once)

lemma findings_ok_fold: "(\<And>x fs. findings_ok fs \<Longrightarrow> findings_ok (f x fs)) \<Longrightarrow> findings_ok fs \<Longrightarrow> findings_ok (fold f xs fs)"
  by (induction xs arbitrary: fs) auto

lemma findings_ok_scan_parts: "findings_ok fs \<Longrightarrow> findings_ok (scan_token_and_parts entropy rc token fs)"
  by (auto simp: scan_token_and_parts_def Let_def intro: findings_ok_fold findings_ok_scan_token)

lemma otp_finding_Some: "otp_finding text lower = Some f \<Longrightarrow> sf_kind f = OneTimePassword \<and> is_actionable f"
  by (auto simp: otp_finding_def Let_def is_actionable_def OTP_CONTEXT_CONFIDENCE_def OTP_BARE_CONFIDENCE_def
      split: if_splits)

lemma detect_secrets_ok: "findings_ok (detect_secrets entropy text)"
  unfolding detect_secrets_def Let_def
proof (rule findings_ok_fold [OF findings_ok_scan_parts])
  have "findings_ok (if contains_sub ''-----BEGIN '' text \<and> contains_sub ''PRIVATE KEY-----'' text
      then [\<lparr>sf_kind = PrivateKey, sf_confidence = 100\<rparr>] else [])" (is "findings_ok ?k")
    by (simp add: findings_ok_def is_actionable_def)
  moreover have "sf_kind f \<noteq> OneTimePassword" if "f \<in> set ?k" for f
    using that by (simp split: if_splits)
  ultimately show "findings_ok (case otp_finding text (to_ascii_lowercase text) of Some f \<Rightarrow> ?k @ [f] | None \<Rightarrow> ?k)"
    by (auto simp: findings_ok_def dest: otp_finding_Some split: option.split)
qed

lemma finding_le_trans: "finding_le a b \<Longrightarrow> finding_le b c \<Longrightarrow> finding_le a c"
  by (auto simp: finding_le_def)

lemma finding_le_refl: "finding_le a a"
  by (simp add: finding_le_def)

lemma finding_le_total: "\<not> finding_le f g \<Longrightarrow> finding_le g f"
  by (auto simp: finding_le_def)

lemma strongest_foldl:
  "foldl (\<lambda>best g. if finding_le best g then g else best) f fs \<in> insert f (set fs) \<and>
   (\<forall>g \<in> insert f (set fs). finding_le g (foldl (\<lambda>best g. if finding_le best g then g else best) f fs))"
proof (induction fs arbitrary: f)
  case Nil
  then show ?case by (simp add: finding_le_refl)
next
  case (Cons g fs)
  show ?case
  proof (cases "finding_le f g")
    case True
    with Cons.IH [of g] finding_le_trans [OF True] show ?thesis by auto
  next
    case False
    with Cons.IH [of f] finding_le_trans [OF finding_le_total [OF False]] show ?thesis by auto
  qed
qed

text \<open>
  The detectors keep their contract: for any text there is at most one finding per kind of secret, each at or
  above its own confidence floor, so the floor drops nothing; the predicate that the capture gate and the
  edit path share holds exactly when there is a finding; and the finding that is named is one of them, of
  maximal confidence and, among those, of the most severe kind.
\<close>

lemma detectors_contract:
  "distinct (map sf_kind (detect_secrets entropy text)) \<and>
   actionable_secrets entropy text = detect_secrets entropy text \<and>
   (text_contains_actionable_secret entropy text \<longleftrightarrow> detect_secrets entropy text \<noteq> []) \<and>
   (case strongest_actionable_secret entropy text of
      None \<Rightarrow> detect_secrets entropy text = []
    | Some best \<Rightarrow> best \<in> set (detect_secrets entropy text) \<and>
        (\<forall>f \<in> set (detect_secrets entropy text). sf_confidence f < sf_confidence best \<or>
           (sf_confidence f = sf_confidence best \<and> kind_rank (sf_kind best) \<le> kind_rank (sf_kind f))))"
proof -
  have ok: "findings_ok (detect_secrets entropy text)" by (rule detect_secrets_ok)
  then have a: "actionable_secrets entropy text = detect_secrets entropy text"
    by (simp add: actionable_secrets_def findings_ok_def filter_id_conv list_all_iff)
  show ?thesis
    using ok strongest_foldl
    by (cases "detect_secrets entropy text")
      (auto simp: a findings_ok_def text_contains_actionable_secret_def strongest_actionable_secret_def finding_le_def)
qed

lemma sample_detected: "detect_secrets (\<lambda>_. False) ''123456'' = [\<lparr>sf_kind = OneTimePassword, sf_confidence = 90\<rparr>]"
  by code_simp

lemma detectors_contract_witness:
  "distinct (map sf_kind (detect_secrets (\<lambda>_. False) ''123456'')) \<and>
   strongest_actionable_secret (\<lambda>_. False) ''123456'' = Some \<lparr>sf_kind = OneTimePassword, sf_confidence = 90\<rparr>"
  using detectors_contract [of "\<lambda>_. False" "''123456''"] unfolding sample_detected by (auto split: option.splits)

end
