(* ===== verification/Capture_Policy.thy ===== *)
theory Capture_Policy
  imports Secret
begin

text \<open>
  The capture gate, \<open>crates/vbuff-core/src/capture/policy.rs\<close>: every clipboard change is judged by
  \<open>decide\<close> before anything of it is stored. Parameters are the Unicode \<open>to_lowercase\<close>, the regular
  expressions (type \<open>'r\<close>), \<open>Url::parse\<close> with its host, and the entropy test of \<open>Secret\<close>.
\<close>

datatype capture_action = CaptureAll | SkipCapture | PlainTextOnly | StripImages | CaptureSensitive

datatype drop_class = Intentional | Loss

datatype drop_reason =
    EmptyClip
  | WhitespaceOnly
  | ExcludedSource
  | SourceRule
  | Concealed
  | ConcealmentUnknown
  | ProvenanceUnknown
  | CoherenceUnknown
  | IntentUnknown
  | SelfWriteSuppressed
  | PrimaryWithoutIntent
  | NoRealizedFlavor
  | TornRead
  | GenerationGap
  | GenerationStale
  | OwnerContention
  | TruncatedFlavor
  | OverSizeCap
  | Backpressure
  | DebounceCollapsed
  | StoreFailure
  | MemoryOnlyUnsupported

datatype capture_outcome = Captured | Dropped drop_reason

fun drop_class_of :: "drop_reason \<Rightarrow> drop_class" where
  "drop_class_of NoRealizedFlavor = Loss"
| "drop_class_of TornRead = Loss"
| "drop_class_of GenerationGap = Loss"
| "drop_class_of GenerationStale = Loss"
| "drop_class_of OwnerContention = Loss"
| "drop_class_of TruncatedFlavor = Loss"
| "drop_class_of OverSizeCap = Loss"
| "drop_class_of Backpressure = Loss"
| "drop_class_of StoreFailure = Loss"
| "drop_class_of _ = Intentional"

fun drop_as_str :: "drop_reason \<Rightarrow> string" where
  "drop_as_str EmptyClip = ''empty''"
| "drop_as_str WhitespaceOnly = ''whitespace_only''"
| "drop_as_str ExcludedSource = ''excluded_source''"
| "drop_as_str SourceRule = ''source_rule''"
| "drop_as_str Concealed = ''concealed''"
| "drop_as_str ConcealmentUnknown = ''concealment_unknown''"
| "drop_as_str ProvenanceUnknown = ''provenance_unknown''"
| "drop_as_str CoherenceUnknown = ''coherence_unknown''"
| "drop_as_str IntentUnknown = ''intent_unknown''"
| "drop_as_str SelfWriteSuppressed = ''self_write_suppressed''"
| "drop_as_str PrimaryWithoutIntent = ''primary_without_intent''"
| "drop_as_str NoRealizedFlavor = ''no_realized_flavor''"
| "drop_as_str TornRead = ''torn_read''"
| "drop_as_str GenerationGap = ''generation_gap''"
| "drop_as_str GenerationStale = ''generation_stale''"
| "drop_as_str OwnerContention = ''owner_contention''"
| "drop_as_str TruncatedFlavor = ''truncated_flavor''"
| "drop_as_str OverSizeCap = ''over_size_cap''"
| "drop_as_str Backpressure = ''backpressure''"
| "drop_as_str DebounceCollapsed = ''debounce_collapsed''"
| "drop_as_str StoreFailure = ''store_failure''"
| "drop_as_str MemoryOnlyUnsupported = ''memory_only_unsupported''"

definition is_recoverable :: "drop_reason \<Rightarrow> bool" where
  "is_recoverable r \<longleftrightarrow> r = ProvenanceUnknown"

definition metric_key :: "capture_outcome \<Rightarrow> string" where
  "metric_key outcome = (case outcome of
     Captured \<Rightarrow> ''captured'' | Dropped reason \<Rightarrow> ''dropped:'' @ drop_as_str reason)"

record 'r gate_env =
  ge_lowercase :: "string \<Rightarrow> string"
  ge_regex_new :: "string \<Rightarrow> string + 'r"
  ge_is_match :: "'r \<Rightarrow> string \<Rightarrow> bool"
  ge_url_host :: "string \<Rightarrow> string option"
  ge_entropy :: "string \<Rightarrow> bool"

record 'r source_predicate =
  sp_app_contains :: "string option"
  sp_title_regex :: "'r option"
  sp_url_host_suffix :: "string option"

definition source_predicate_try_new ::
  "'r gate_env \<Rightarrow> string option \<Rightarrow> string option \<Rightarrow> string option \<Rightarrow> string + 'r source_predicate" where
  "source_predicate_try_new env app_contains title_regex url_host_suffix =
     try_then (case title_regex of None \<Rightarrow> Inr None
               | Some p \<Rightarrow> try_then (ge_regex_new env p) (\<lambda>r. Inr (Some r))) (\<lambda>regex.
       Inr \<lparr>sp_app_contains = app_contains, sp_title_regex = regex,
            sp_url_host_suffix = map_option (ge_lowercase env) url_host_suffix\<rparr>)"

definition predicate_matches :: "'r gate_env \<Rightarrow> 'r source_predicate \<Rightarrow> capture_provenance \<Rightarrow> bool" where
  "predicate_matches env p provenance \<longleftrightarrow>
     (let app_matches = (case sp_app_contains p of None \<Rightarrow> True | Some needle \<Rightarrow>
            (case cp_app_id provenance of None \<Rightarrow> False
             | Some app \<Rightarrow> contains_sub (ge_lowercase env needle) (ge_lowercase env app)));
          title_matches = (case sp_title_regex p of None \<Rightarrow> True | Some pattern \<Rightarrow>
            (case cp_window_title provenance of None \<Rightarrow> False | Some title \<Rightarrow> ge_is_match env pattern title));
          host_matches = (case sp_url_host_suffix p of None \<Rightarrow> True | Some suffix \<Rightarrow>
            (case cp_source_url provenance of None \<Rightarrow> False | Some raw \<Rightarrow>
               (case map_option (ge_lowercase env) (ge_url_host env raw) of None \<Rightarrow> False
                | Some host \<Rightarrow> host = suffix \<or> ends_with (''.'' @ suffix) host)))
      in app_matches \<and> title_matches \<and> host_matches)"

record 'r capture_rule =
  cr_predicate :: "'r source_predicate"
  cr_action :: capture_action

record capture_input =
  ci_flavors :: "flavor list"
  ci_provenance :: capture_provenance
  ci_source :: selection_source
  ci_intent :: selection_intent
  ci_coherence :: generation_coherence
  ci_concealment :: concealment_signal
  ci_provenance_confidence :: provenance_confidence
  ci_self_write :: bool

record capture_grant =
  gr_action :: capture_action
  gr_sensitive :: bool
  gr_sync_eligible :: bool
  gr_ai_allowed :: bool
  gr_memory_only :: bool
  gr_expires_after :: "duration option"
  gr_sensitivity_reason :: "sensitivity_reason option"

datatype capture_decision = Capture capture_grant | Skip drop_reason

datatype unknown_evidence_policy = GuardUnknown | SkipUnknown | AllowUnknown

record 'r capture_policy =
  po_skip_whitespace_only :: bool
  po_excluded_apps :: "string list"
  po_rules :: "'r capture_rule list"
  po_detect_secrets :: bool
  po_secret_ttl :: duration
  po_unknown_evidence :: unknown_evidence_policy

definition capture_policy_default :: "'r capture_policy" where
  "capture_policy_default = \<lparr>po_skip_whitespace_only = True, po_excluded_apps = [], po_rules = [],
     po_detect_secrets = True, po_secret_ttl = secs (10 * 60), po_unknown_evidence = GuardUnknown\<rparr>"

definition actionable_findings :: "'r gate_env \<Rightarrow> 'r capture_policy \<Rightarrow> flavor list \<Rightarrow> secret_finding list" where
  "actionable_findings env policy flavors =
     (let findings = concat (map (actionable_secrets (ge_entropy env))
            (List.map_filter as_text (filter is_realized flavors))) in
      if \<not> po_detect_secrets policy then filter (\<lambda>f. sf_kind f = OneTimePassword) findings else findings)"

fun min_option :: "nat list \<Rightarrow> nat option" where
  "min_option [] = None"
| "min_option (x # xs) = Some (foldl min x xs)"

text \<open>The evidence guards at the head of \<open>decide\<close>: the first reason to skip, if there is one.\<close>

definition evidence_skip :: "'r capture_policy \<Rightarrow> capture_input \<Rightarrow> drop_reason option" where
  "evidence_skip policy input =
     (if ci_flavors input = [] then Some EmptyClip
      else if ci_coherence input = Torn then Some TornRead
      else if ci_coherence input = UnknownCoherence \<and> po_unknown_evidence policy = SkipUnknown
      then Some CoherenceUnknown
      else if ci_self_write input then Some SelfWriteSuppressed
      else if ci_source input = PrimarySource \<and> ci_intent input = Incidental then Some PrimaryWithoutIntent
      else if ci_source input = PrimarySource \<and> ci_intent input = UnknownIntent then Some IntentUnknown
      else if ci_concealment input = ConcealedSignal then Some Concealed
      else if ci_concealment input = UnknownConcealment \<and> po_unknown_evidence policy = SkipUnknown
      then Some ConcealmentUnknown
      else if \<not> list_ex is_realized (ci_flavors input) then Some NoRealizedFlavor
      else None)"

text \<open>The decision once the source rules apply: exclusions, rules, whitespace, then the detectors.\<close>

definition decide_by_content :: "'r gate_env \<Rightarrow> 'r capture_policy \<Rightarrow> capture_input \<Rightarrow> capture_decision" where
  "decide_by_content env policy input =
     (let source_app = (case cp_app_id (ci_provenance input) of None \<Rightarrow> [] | Some a \<Rightarrow> a) in
      if list_ex (\<lambda>excluded. contains_sub (ge_lowercase env excluded) (ge_lowercase env source_app))
           (po_excluded_apps policy)
      then Skip ExcludedSource
      else (let action = (case find (\<lambda>rule. predicate_matches env (cr_predicate rule) (ci_provenance input))
                                (po_rules policy) of
                            None \<Rightarrow> CaptureAll | Some rule \<Rightarrow> cr_action rule) in
        if action = SkipCapture then Skip SourceRule
        else (let has_non_text = list_ex (\<lambda>f. is_realized f \<and> \<not> is_text f) (ci_flavors input);
                  has_text = list_ex (\<lambda>f. is_realized f \<and> as_text f \<noteq> None) (ci_flavors input);
                  all_text_whitespace = list_all (\<lambda>v. trim v = [])
                    (List.map_filter as_text (filter is_realized (ci_flavors input))) in
          if po_skip_whitespace_only policy \<and> has_text \<and> \<not> has_non_text \<and> all_text_whitespace
          then Skip WhitespaceOnly
          else (let findings = actionable_findings env policy (ci_flavors input);
                    forced_sensitive = (action = CaptureSensitive);
                    reason = (case strongest_finding findings of
                        Some f \<Rightarrow> Some (sensitivity_reason_for_secret (sf_kind f))
                      | None \<Rightarrow> if forced_sensitive then Some CaptureRuleReason else None);
                    ttl = (case min_option (map (\<lambda>f. sh_ttl (handling_for_secret (sf_kind f))) findings) of
                        Some t \<Rightarrow> Some t
                      | None \<Rightarrow> if forced_sensitive then Some (po_secret_ttl policy) else None)
            in Capture \<lparr>gr_action = action, gr_sensitive = (reason \<noteq> None),
                 gr_sync_eligible = (reason = None), gr_ai_allowed = (reason = None),
                 gr_memory_only = list_ex (\<lambda>f. sh_memory_only (handling_for_secret (sf_kind f))) findings,
                 gr_expires_after = map_option (\<lambda>t. min t (po_secret_ttl policy)) ttl,
                 gr_sensitivity_reason = reason\<rparr>))))"

definition decide :: "'r gate_env \<Rightarrow> 'r capture_policy \<Rightarrow> capture_input \<Rightarrow> capture_decision" where
  "decide env policy input = (case evidence_skip policy input of
     Some reason \<Rightarrow> Skip reason
   | None \<Rightarrow>
       (let rules_armed = (po_excluded_apps policy \<noteq> [] \<or> po_rules policy \<noteq> []) in
        if rules_armed \<and> ci_provenance_confidence input = ProvenanceUnknownEvidence then
          (case po_unknown_evidence policy of
             GuardUnknown \<Rightarrow> Capture \<lparr>gr_action = CaptureAll, gr_sensitive = True, gr_sync_eligible = False,
               gr_ai_allowed = False, gr_memory_only = False, gr_expires_after = Some (po_secret_ttl policy),
               gr_sensitivity_reason = Some OperatingSystemHint\<rparr>
           | SkipUnknown \<Rightarrow> Skip ProvenanceUnknown
           | AllowUnknown \<Rightarrow> decide_by_content env policy input)
        else decide_by_content env policy input))"

section \<open>What a granted capture guarantees\<close>

lemma foldl_min_le: "foldl min (x::nat) xs \<le> x \<and> (\<forall>y \<in> set xs. foldl min x xs \<le> y)"
proof (induction xs arbitrary: x)
  case (Cons a xs)
  have "foldl min (min x a) xs \<le> min x a" "\<forall>y \<in> set xs. foldl min (min x a) xs \<le> y"
    using Cons.IH [of "min x a"] by simp_all
  moreover have "min x a \<le> x" "min x a \<le> a"
    by simp_all
  ultimately show ?case
    by (metis foldl_Cons insert_iff list.simps(15) order_trans)
qed simp

lemma min_option_Some: "min_option xs = Some m \<Longrightarrow> x \<in> set xs \<Longrightarrow> m \<le> x"
  using foldl_min_le by (cases xs) auto

lemma min_option_None: "min_option xs = None \<longleftrightarrow> xs = []"
  by (cases xs) auto

lemma strongest_finding_None: "strongest_finding fs = None \<longleftrightarrow> fs = []"
  by (cases fs) auto

lemma evidence_skip_None:
  "evidence_skip policy input = None \<longleftrightarrow> ci_flavors input \<noteq> [] \<and> ci_coherence input \<noteq> Torn \<and>
     \<not> ci_self_write input \<and> (ci_source input = PrimarySource \<longrightarrow> ci_intent input = Intended) \<and>
     ci_concealment input \<noteq> ConcealedSignal \<and> list_ex is_realized (ci_flavors input) \<and>
     (po_unknown_evidence policy = SkipUnknown \<longrightarrow>
        ci_coherence input = Coherent \<and> ci_concealment input = ClearSignal)"
  unfolding evidence_skip_def
  by (cases "ci_coherence input"; cases "ci_intent input"; cases "ci_concealment input"; cases "ci_source input")
    auto

definition lane_ok :: "'r capture_policy \<Rightarrow> capture_grant \<Rightarrow> bool" where
  "lane_ok policy g \<longleftrightarrow> (gr_sensitive g \<longleftrightarrow> gr_sensitivity_reason g \<noteq> None) \<and>
     (gr_sync_eligible g \<longleftrightarrow> \<not> gr_sensitive g) \<and> (gr_ai_allowed g \<longleftrightarrow> \<not> gr_sensitive g) \<and>
     (if gr_sensitive g then \<exists>t \<le> po_secret_ttl policy. gr_expires_after g = Some t
      else gr_expires_after g = None \<and> \<not> gr_memory_only g)"

lemma skip_else_capture: "(if b then Skip r else d) = Capture g \<longleftrightarrow> \<not> b \<and> d = Capture g"
  by simp

definition content_grant :: "'r gate_env \<Rightarrow> 'r capture_policy \<Rightarrow> flavor list \<Rightarrow> capture_action \<Rightarrow> capture_grant" where
  "content_grant env policy flavors action =
     (let findings = actionable_findings env policy flavors;
          reason = (case strongest_finding findings of
              Some f \<Rightarrow> Some (sensitivity_reason_for_secret (sf_kind f))
            | None \<Rightarrow> if action = CaptureSensitive then Some CaptureRuleReason else None);
          ttl = (case min_option (map (\<lambda>f. sh_ttl (handling_for_secret (sf_kind f))) findings) of
              Some t \<Rightarrow> Some t
            | None \<Rightarrow> if action = CaptureSensitive then Some (po_secret_ttl policy) else None)
      in \<lparr>gr_action = action, gr_sensitive = (reason \<noteq> None), gr_sync_eligible = (reason = None),
           gr_ai_allowed = (reason = None),
           gr_memory_only = list_ex (\<lambda>f. sh_memory_only (handling_for_secret (sf_kind f))) findings,
           gr_expires_after = map_option (\<lambda>t. min t (po_secret_ttl policy)) ttl, gr_sensitivity_reason = reason\<rparr>)"

lemma decide_by_content_grant:
  "decide_by_content env policy input = Capture g \<Longrightarrow> \<exists>action. g = content_grant env policy (ci_flavors input) action"
  unfolding decide_by_content_def content_grant_def Let_def skip_else_capture capture_decision.inject
  by (elim conjE) (rule exI, erule sym)

lemma decide_by_content_lane:
  assumes "decide_by_content env policy input = Capture g" shows "lane_ok policy g"
proof -
  obtain action where g: "g = content_grant env policy (ci_flavors input) action"
    using decide_by_content_grant [OF assms] by blast
  show ?thesis
  proof (cases "actionable_findings env policy (ci_flavors input)")
    case Nil
    then show ?thesis by (cases "action = CaptureSensitive") (simp_all add: g content_grant_def lane_ok_def)
  next
    case (Cons f fs)
    then obtain b where "strongest_finding (f # fs) = Some b"
      using strongest_finding_None [of "f # fs"] by (cases "strongest_finding (f # fs)") auto
    with Cons show ?thesis by (simp add: g content_grant_def lane_ok_def Let_def)
  qed
qed

lemma decide_by_content_findings:
  assumes "decide_by_content env policy input = Capture g"
    and "f \<in> set (actionable_findings env policy (ci_flavors input))"
  shows "gr_sensitive g \<and> (sh_memory_only (handling_for_secret (sf_kind f)) \<longrightarrow> gr_memory_only g) \<and>
    (\<exists>t \<le> sh_ttl (handling_for_secret (sf_kind f)). gr_expires_after g = Some t)"
proof -
  let ?fs = "actionable_findings env policy (ci_flavors input)"
  let ?ttl = "\<lambda>f. sh_ttl (handling_for_secret (sf_kind f))"
  obtain m where m: "min_option (map ?ttl ?fs) = Some m"
    using assms(2) min_option_None [of "map ?ttl ?fs"] by (cases "min_option (map ?ttl ?fs)") auto
  have le: "m \<le> ?ttl f"
    using min_option_Some [OF m] assms(2) by auto
  obtain b where b: "strongest_finding ?fs = Some b"
    using assms(2) strongest_finding_None [of ?fs] by (cases "strongest_finding ?fs") auto
  have mo: "list_ex (\<lambda>f. sh_memory_only (handling_for_secret (sf_kind f))) ?fs"
    if "sh_memory_only (handling_for_secret (sf_kind f))"
    using that assms(2) by (auto simp: list_ex_iff)
  show ?thesis
    using decide_by_content_grant [OF assms(1)] le mo
    by (auto simp: content_grant_def m b intro: min.coboundedI1)
qed

text \<open>
  C10. Nothing leaves the gate unprotected: a capture is granted only for a non-empty, not torn, not concealed
  copy with a realized flavor that vbuff did not write itself, and for the PRIMARY selection only
  with observed intent; a granted clip is eligible for sync and inference exactly when it is not
  sensitive, and a sensitive one expires within the configured lifetime of secrets. Unless unproven
  provenance under armed rules sends it to the guarded lane, it is sensitive as soon as any detector
  fires, expires within the lifetime of every kind found and stays in memory if one kind demands it.
\<close>

theorem capture_gate_safe:
  assumes "decide env policy input = Capture g"
  shows "ci_flavors input \<noteq> [] \<and> list_ex is_realized (ci_flavors input) \<and> ci_coherence input \<noteq> Torn \<and>
    ci_concealment input \<noteq> ConcealedSignal \<and> \<not> ci_self_write input \<and>
    (ci_source input = PrimarySource \<longrightarrow> ci_intent input = Intended) \<and> lane_ok policy g \<and>
    ((po_excluded_apps policy = [] \<and> po_rules policy = []) \<or> ci_provenance_confidence input = Proven \<longrightarrow>
      (\<forall>f \<in> set (actionable_findings env policy (ci_flavors input)). gr_sensitive g \<and>
         (sh_memory_only (handling_for_secret (sf_kind f)) \<longrightarrow> gr_memory_only g) \<and>
         (\<exists>t \<le> sh_ttl (handling_for_secret (sf_kind f)). gr_expires_after g = Some t)))"
proof -
  have n: "evidence_skip policy input = None"
    using assms by (auto simp: decide_def split: option.splits)
  have "lane_ok policy g"
    using assms n decide_by_content_lane [of env policy input g]
    by (auto simp: decide_def Let_def lane_ok_def split: if_splits unknown_evidence_policy.splits)
  moreover have "decide_by_content env policy input = Capture g"
    if "(po_excluded_apps policy = [] \<and> po_rules policy = []) \<or> ci_provenance_confidence input = Proven"
    using assms n that by (auto simp: decide_def Let_def)
  ultimately show ?thesis
    using n decide_by_content_findings [of env policy input g] by (simp add: evidence_skip_None)
qed

text \<open>
  Drop accounting is total: every reason to drop has its own metric key, none is the key of a captured clip,
  and a reason the user may recover from is never counted as a loss.
\<close>

lemma drop_accounting:
  "(metric_key a = metric_key b \<longleftrightarrow> a = b) \<and> (is_recoverable r \<longrightarrow> drop_class_of r = Intentional)"
proof -
  have s: "drop_as_str x = drop_as_str y \<Longrightarrow> x = y" for x y
    by (cases x; cases y) simp_all
  show ?thesis
    by (cases a; cases b) (auto simp: metric_key_def is_recoverable_def dest: s)
qed

lemma drop_accounting_witness:
  "metric_key Captured \<noteq> metric_key (Dropped StoreFailure) \<and> drop_class_of ProvenanceUnknown = Intentional"
  using drop_accounting [of Captured "Dropped StoreFailure" ProvenanceUnknown] by (simp add: is_recoverable_def)

section \<open>The guarded lane skips the detectors\<close>

definition sample_gate_env :: "unit gate_env" where
  "sample_gate_env = \<lparr>ge_lowercase = to_ascii_lowercase, ge_regex_new = (\<lambda>_. Inr ()), ge_is_match = (\<lambda>_ _. False),
     ge_url_host = (\<lambda>_. None), ge_entropy = (\<lambda>_. False)\<rparr>"

definition sample_input :: "provenance_confidence \<Rightarrow> capture_input" where
  "sample_input confidence = \<lparr>ci_flavors = [flavor_inline ''text/plain'' ''123456''],
     ci_provenance = \<lparr>cp_app_id = None, cp_window_title = None, cp_document_path = None, cp_source_url = None\<rparr>,
     ci_source = ClipboardSource, ci_intent = UnknownIntent, ci_coherence = Coherent, ci_concealment = ClearSignal,
     ci_provenance_confidence = confidence, ci_self_write = False\<rparr>"

definition sample_armed :: "unit capture_policy" where
  "sample_armed = capture_policy_default\<lparr>po_excluded_apps := [''1password'']\<rparr>"

lemma sample_findings:
  "actionable_findings sample_gate_env policy (ci_flavors (sample_input confidence)) =
     [\<lparr>sf_kind = OneTimePassword, sf_confidence = 90\<rparr>]"
proof -
  have "as_text (flavor_inline ''text/plain'' ''123456'') = Some ''123456''"
    by code_simp
  moreover have "actionable_secrets (\<lambda>_. False) ''123456'' = [\<lparr>sf_kind = OneTimePassword, sf_confidence = 90\<rparr>]"
    by (simp add: actionable_secrets_def sample_detected is_actionable_def)
  ultimately show ?thesis
    by (simp add: actionable_findings_def sample_input_def sample_gate_env_def List.map_filter_simps
        flavor_inline_def is_realized_def Let_def)
qed

lemma sample_evidence: "evidence_skip policy (sample_input confidence) = None"
  by (simp add: evidence_skip_def sample_input_def flavor_inline_def is_realized_def)

text \<open>
  C11. The guarded lane is weaker than the ordinary one: when source rules are armed and the provenance is unproven,
  the default policy grants the capture without running the detectors, so a clip in which they find a
  secret that must stay in memory is granted for disk, with the full configured lifetime; without rules
  the same clip stays in memory (or is skipped) and lives no longer than the kind allows.
\<close>

theorem guarded_lane_ignores_detectors:
  assumes "evidence_skip policy input = None" and "po_excluded_apps policy \<noteq> [] \<or> po_rules policy \<noteq> []"
    and "ci_provenance_confidence input = ProvenanceUnknownEvidence" and "po_unknown_evidence policy = GuardUnknown"
    and "f \<in> set (actionable_findings env policy (ci_flavors input))"
    and "sh_memory_only (handling_for_secret (sf_kind f))"
  shows "(case decide env policy input of Skip _ \<Rightarrow> False
      | Capture g \<Rightarrow> \<not> gr_memory_only g \<and> gr_expires_after g = Some (po_secret_ttl policy)) \<and>
    (case decide env (policy\<lparr>po_excluded_apps := [], po_rules := []\<rparr>) input of Skip r \<Rightarrow> r = WhitespaceOnly
      | Capture g \<Rightarrow> gr_memory_only g \<and> (\<exists>t \<le> sh_ttl (handling_for_secret (sf_kind f)). gr_expires_after g = Some t))"
proof -
  let ?p = "policy\<lparr>po_excluded_apps := [], po_rules := []\<rparr>"
  have "evidence_skip ?p input = evidence_skip policy input"
    "actionable_findings env ?p (ci_flavors input) = actionable_findings env policy (ci_flavors input)"
    by (simp_all add: evidence_skip_def actionable_findings_def)
  with assms(1,5) have e: "evidence_skip ?p input = None" "f \<in> set (actionable_findings env ?p (ci_flavors input))"
    by simp_all
  have d: "decide env ?p input = decide_by_content env ?p input"
    using e(1) by (simp add: decide_def)
  have "decide_by_content env ?p input = Skip WhitespaceOnly \<or> (\<exists>g. decide_by_content env ?p input = Capture g)"
    by (simp add: decide_by_content_def Let_def)
  with d decide_by_content_findings [OF _ e(2)] assms(6)
  have "case decide env ?p input of Skip r \<Rightarrow> r = WhitespaceOnly
      | Capture g \<Rightarrow> gr_memory_only g \<and> (\<exists>t \<le> sh_ttl (handling_for_secret (sf_kind f)). gr_expires_after g = Some t)"
    by auto
  with assms show ?thesis
    by (auto simp: decide_def Let_def)
qed

lemma guarded_lane_ignores_detectors_witness:
  "(case decide sample_gate_env sample_armed (sample_input ProvenanceUnknownEvidence) of Skip _ \<Rightarrow> False
      | Capture g \<Rightarrow> \<not> gr_memory_only g \<and> gr_expires_after g = Some (po_secret_ttl sample_armed)) \<and>
   (case decide sample_gate_env (sample_armed\<lparr>po_excluded_apps := [], po_rules := []\<rparr>)
      (sample_input ProvenanceUnknownEvidence) of Skip r \<Rightarrow> r = WhitespaceOnly
      | Capture g \<Rightarrow> gr_memory_only g \<and>
          (\<exists>t \<le> sh_ttl (handling_for_secret OneTimePassword). gr_expires_after g = Some t))"
proof -
  let ?f = "\<lparr>sf_kind = OneTimePassword, sf_confidence = 90\<rparr>"
  have p: "po_excluded_apps sample_armed \<noteq> [] \<or> po_rules sample_armed \<noteq> []"
    "po_unknown_evidence sample_armed = GuardUnknown"
    by (simp_all add: sample_armed_def capture_policy_default_def)
  have c: "ci_provenance_confidence (sample_input ProvenanceUnknownEvidence) = ProvenanceUnknownEvidence"
    by (simp add: sample_input_def)
  have f: "?f \<in> set (actionable_findings sample_gate_env sample_armed
      (ci_flavors (sample_input ProvenanceUnknownEvidence)))"
    by (simp add: sample_findings)
  have m: "sh_memory_only (handling_for_secret (sf_kind ?f))"
    by (simp add: handling_def)
  from guarded_lane_ignores_detectors [OF sample_evidence p(1) c p(2) f m] show ?thesis
    by (simp only: secret_finding.simps)
qed

lemma capture_gate_safe_witness:
  "\<exists>g. decide sample_gate_env capture_policy_default (sample_input Proven) = Capture g \<and> gr_sensitive g \<and> gr_memory_only g"
proof -
  have "\<not> list_all (\<lambda>v. trim v = [])
      (List.map_filter as_text (filter is_realized (ci_flavors (sample_input Proven))))"
    by (simp add: sample_input_def flavor_inline_def is_realized_def as_text_def List.map_filter_simps byte_in_def
      trim_def is_whitespace_def utf8_width_def Let_def)
  then have "\<exists>g. decide_by_content sample_gate_env capture_policy_default (sample_input Proven) = Capture g"
    by (simp add: decide_by_content_def capture_policy_default_def Let_def)
  then obtain g where g: "decide sample_gate_env capture_policy_default (sample_input Proven) = Capture g"
    by (auto simp: decide_def sample_evidence capture_policy_default_def)
  from capture_gate_safe [OF this] have "gr_sensitive g \<and> gr_memory_only g"
    by (simp add: sample_findings handling_def) (simp add: capture_policy_default_def)
  with g show ?thesis by blast
qed

end
