(* ===== verification/Capture_Ledger.thy ===== *)
theory Capture_Ledger
  imports Capture_Policy
begin

text \<open>
  The ledgers of the capture path, \<open>crates/vbuff-core/src/capture/ledger.rs\<close>: the self-write ledger that
  suppresses echoes, the accounting of captured and dropped events, the ring of skipped captures, the
  generation tracker and the self test. A \<open>VecDeque\<close> is a list with its front first.
\<close>

section \<open>Self-written content\<close>

record self_write =
  sw_hash :: bytes
  sw_nonce :: string
  sw_expires_at :: instant

record self_write_ledger =
  sl_ttl :: duration
  sl_capacity :: nat
  sl_writes :: "self_write list"

definition self_write_new :: "duration \<Rightarrow> nat \<Rightarrow> self_write_ledger" where
  "self_write_new ttl capacity = \<lparr>sl_ttl = ttl, sl_capacity = max capacity 1, sl_writes = []\<rparr>"

definition self_write_prune :: "self_write_ledger \<Rightarrow> instant \<Rightarrow> self_write_ledger" where
  "self_write_prune l now = l\<lparr>sl_writes := dropWhile (\<lambda>w. sw_expires_at w \<le> now) (sl_writes l)\<rparr>"

definition self_write_register :: "self_write_ledger \<Rightarrow> bytes \<Rightarrow> string \<Rightarrow> instant \<Rightarrow> self_write_ledger" where
  "self_write_register l0 hash nonce now =
     (let l = self_write_prune l0 now;
          writes = (if length (sl_writes l) = sl_capacity l then tl (sl_writes l) else sl_writes l) in
      l\<lparr>sl_writes := writes @ [\<lparr>sw_hash = hash, sw_nonce = nonce,
          sw_expires_at = (case instant_checked_add now (sl_ttl l) of Some t \<Rightarrow> t | None \<Rightarrow> now)\<rparr>]\<rparr>)"

definition self_write_matches ::
  "self_write_ledger \<Rightarrow> bytes \<Rightarrow> capture_lineage \<Rightarrow> instant \<Rightarrow> bool \<times> self_write_ledger" where
  "self_write_matches l0 hash lineage now =
     (let l = self_write_prune l0 now in
      (list_ex (\<lambda>w. sw_hash w = hash \<or>
         (case cl_write_nonce lineage of None \<Rightarrow> False | Some nonce \<Rightarrow> nonce = sw_nonce w)) (sl_writes l), l))"

definition self_write_default :: self_write_ledger where
  "self_write_default = self_write_new (secs 2) 32"

datatype self_write_op =
    RegisterWrite bytes string instant
  | MatchCapture bytes capture_lineage instant

fun self_write_step :: "self_write_ledger \<Rightarrow> self_write_op \<Rightarrow> self_write_ledger" where
  "self_write_step l (RegisterWrite h n now) = self_write_register l h n now"
| "self_write_step l (MatchCapture h lin now) = snd (self_write_matches l h lin now)"

fun op_time :: "self_write_op \<Rightarrow> instant" where
  "op_time (RegisterWrite _ _ now) = now"
| "op_time (MatchCapture _ _ now) = now"

fun registers :: "self_write_op list \<Rightarrow> nat" where
  "registers [] = 0"
| "registers (RegisterWrite _ _ _ # ops) = Suc (registers ops)"
| "registers (MatchCapture _ _ _ # ops) = registers ops"

definition self_write_ok :: "self_write_ledger \<Rightarrow> bool" where
  "self_write_ok l \<longleftrightarrow> length (sl_writes l) \<le> sl_capacity l \<and> 1 \<le> sl_capacity l"

lemma self_write_step_ok: "self_write_ok l \<Longrightarrow> self_write_ok (self_write_step l op)"
proof (cases op)
  case (RegisterWrite h n now)
  assume "self_write_ok l"
  moreover have "length (dropWhile (\<lambda>w. sw_expires_at w \<le> now) (sl_writes l)) \<le> length (sl_writes l)"
    by (rule length_dropWhile_le)
  ultimately show ?thesis
    unfolding RegisterWrite
    by (auto simp: self_write_ok_def self_write_register_def self_write_prune_def Let_def)
next
  case (MatchCapture h lin now)
  assume "self_write_ok l"
  moreover have "length (dropWhile (\<lambda>w. sw_expires_at w \<le> now) (sl_writes l)) \<le> length (sl_writes l)"
    by (rule length_dropWhile_le)
  ultimately show ?thesis
    unfolding MatchCapture
    by (auto simp: self_write_ok_def self_write_matches_def self_write_prune_def Let_def)
qed

interpretation self_write_machine: machine self_write_step self_write_ok
  by unfold_locales (rule self_write_step_ok)

text \<open>
  The write \<open>w\<close> is retained with \<open>k\<close> writes after it. Pruning before \<open>w\<close> expires keeps this,
  and a registration costs one place.
\<close>

definition retained :: "self_write \<Rightarrow> nat \<Rightarrow> self_write_ledger \<Rightarrow> bool" where
  "retained w k l \<longleftrightarrow> (\<exists>older newer. sl_writes l = older @ w # newer \<and> length newer = k)"

lemma dropWhile_keeps: "\<not> P w \<Longrightarrow> \<exists>older'. dropWhile P (older @ w # newer) = older' @ w # newer"
  by (induction older) auto

lemma retained_prune:
  assumes "retained w k l" and "now < sw_expires_at w"
  shows "retained w k (self_write_prune l now)"
proof -
  obtain older newer where "sl_writes l = older @ w # newer" "length newer = k"
    using assms(1) by (auto simp: retained_def)
  with dropWhile_keeps [of "\<lambda>w. sw_expires_at w \<le> now" w older newer] assms(2) show ?thesis
    by (auto simp: retained_def self_write_prune_def)
qed

lemma retained_register:
  assumes "retained w k l" and "now < sw_expires_at w" and "Suc k < sl_capacity l"
  shows "retained w (Suc k) (self_write_register l h n now)"
proof -
  let ?l = "self_write_prune l now"
  obtain older newer where o: "sl_writes ?l = older @ w # newer" "length newer = k"
    using retained_prune [OF assms(1,2)] by (auto simp: retained_def)
  have c: "sl_capacity ?l = sl_capacity l"
    by (simp add: self_write_prune_def)
  define older' where "older' = (if length (sl_writes ?l) = sl_capacity ?l then tl older else older)"
  define e where "e = \<lparr>sw_hash = h, sw_nonce = n,
    sw_expires_at = (case instant_checked_add now (sl_ttl ?l) of Some t \<Rightarrow> t | None \<Rightarrow> now)\<rparr>"
  have "(if length (sl_writes ?l) = sl_capacity ?l then tl (sl_writes ?l) else sl_writes ?l) = older' @ w # newer"
    using o c assms(3) by (cases older) (auto simp: older'_def)
  then have "sl_writes (self_write_register l h n now) = older' @ w # (newer @ [e])"
    by (simp add: self_write_register_def Let_def e_def)
  then show ?thesis
    using o(2) unfolding retained_def by force
qed

lemma capacity_register [simp]: "sl_capacity (self_write_register l h n now) = sl_capacity l"
  by (simp add: self_write_register_def self_write_prune_def Let_def)

lemma capacity_matches [simp]: "sl_capacity (snd (self_write_matches l h lin now)) = sl_capacity l"
  by (simp add: self_write_matches_def self_write_prune_def Let_def)

lemma ttl_step [simp]: "sl_ttl (self_write_step l op) = sl_ttl l"
  by (cases op) (simp_all add: self_write_register_def self_write_matches_def self_write_prune_def Let_def)

lemma capacity_step [simp]: "sl_capacity (self_write_step l op) = sl_capacity l"
  by (cases op) (simp_all add: self_write_register_def self_write_matches_def self_write_prune_def Let_def)

lemma retained_run:
  "retained w k l \<Longrightarrow> \<forall>op \<in> set ops. op_time op < sw_expires_at w \<Longrightarrow> k + registers ops < sl_capacity l \<Longrightarrow>
     retained w (k + registers ops) (run self_write_step l ops)"
proof (induction ops arbitrary: k l)
  case (Cons op ops)
  show ?case
  proof (cases op)
    case (RegisterWrite h n now)
    with Cons.prems have "retained w (Suc k) (self_write_step l op)"
      by (auto intro: retained_register)
    then show ?thesis
      using Cons.IH [of "Suc k" "self_write_step l op"] Cons.prems RegisterWrite by auto
  next
    case (MatchCapture h lin now)
    with Cons.prems have "retained w k (self_write_step l op)"
      by (auto simp: self_write_matches_def Let_def intro: retained_prune)
    then show ?thesis
      using Cons.IH [of k "self_write_step l op"] Cons.prems MatchCapture by auto
  qed
qed simp

text \<open>
  Echo suppression: a write that vbuff registers is recognised, by its content hash or by its nonce, in every
  capture before its lifetime ends, whatever other captures and fewer than \<open>capacity\<close> later
  registrations come in between; the ledger never holds more than \<open>capacity\<close> writes.
\<close>

lemma self_write_suppressed:
  assumes "l = run self_write_step (self_write_new ttl capacity) before"
    and "now + ttl \<le> instant_max" and "\<forall>op \<in> set after. op_time op < now + ttl" and "t < now + ttl"
    and "registers after < max capacity 1" and "h' = h \<or> cl_write_nonce lineage = Some nonce"
  shows "length (sl_writes l) \<le> max capacity 1 \<and>
    fst (self_write_matches (run self_write_step (self_write_register l h nonce now) after) h' lineage t)"
proof -
  have c: "sl_capacity (run self_write_step x ops) = sl_capacity x" for x ops
    by (induction ops arbitrary: x) auto
  have ttl: "sl_ttl (run self_write_step x ops) = sl_ttl x" for x ops
    by (induction ops arbitrary: x) auto
  have ok: "self_write_ok l"
    unfolding assms(1) by (rule self_write_machine.inv_run) (simp add: self_write_ok_def self_write_new_def)
  have cap: "sl_capacity l = max capacity 1"
    by (simp add: assms(1) c self_write_new_def)
  define w where "w = \<lparr>sw_hash = h, sw_nonce = nonce, sw_expires_at = now + ttl\<rparr>"
  have "sl_ttl l = ttl"
    by (simp add: assms(1) ttl self_write_new_def)
  then have "retained w 0 (self_write_register l h nonce now)"
    using assms(2)
    by (auto simp: self_write_register_def Let_def retained_def w_def instant_checked_add_def self_write_prune_def)
  moreover have "sl_capacity (self_write_register l h nonce now) = max capacity 1"
    using capacity_step [of l "RegisterWrite h nonce now"] cap by simp
  ultimately have "retained w (0 + registers after) (run self_write_step (self_write_register l h nonce now) after)"
    using assms(3,5) by (intro retained_run) (auto simp: w_def)
  then have "retained w (registers after) (self_write_prune (run self_write_step (self_write_register l h nonce now) after) t)"
    using assms(4) by (auto intro: retained_prune simp: w_def)
  then show ?thesis
    using ok cap assms(6)
    by (auto simp: self_write_matches_def Let_def retained_def w_def self_write_ok_def)
qed

lemma self_write_suppressed_witness:
  "length (sl_writes (self_write_new (secs 2) 2)) \<le> max 2 1 \<and>
   fst (self_write_matches (run self_write_step (self_write_register (self_write_new (secs 2) 2) ''h'' ''n'' 5)
     [RegisterWrite ''x'' ''y'' 6]) ''h'' \<lparr>cl_origin_device = None, cl_write_nonce = None\<rparr> 7)"
  by (rule self_write_suppressed [OF run.simps(1) [symmetric]]) (simp_all add: secs_def instant_max_def)

section \<open>Accounting of losses\<close>

text \<open>The derived order of the drop reasons, the keys of an ordered map.\<close>

fun drop_rank :: "drop_reason \<Rightarrow> nat" where
  "drop_rank EmptyClip = 0"
| "drop_rank WhitespaceOnly = 1"
| "drop_rank ExcludedSource = 2"
| "drop_rank SourceRule = 3"
| "drop_rank Concealed = 4"
| "drop_rank ConcealmentUnknown = 5"
| "drop_rank ProvenanceUnknown = 6"
| "drop_rank CoherenceUnknown = 7"
| "drop_rank IntentUnknown = 8"
| "drop_rank SelfWriteSuppressed = 9"
| "drop_rank PrimaryWithoutIntent = 10"
| "drop_rank NoRealizedFlavor = 11"
| "drop_rank TornRead = 12"
| "drop_rank GenerationGap = 13"
| "drop_rank GenerationStale = 14"
| "drop_rank OwnerContention = 15"
| "drop_rank TruncatedFlavor = 16"
| "drop_rank OverSizeCap = 17"
| "drop_rank Backpressure = 18"
| "drop_rank DebounceCollapsed = 19"
| "drop_rank StoreFailure = 20"
| "drop_rank MemoryOnlyUnsupported = 21"

lemma drop_rank_inject: "drop_rank a = drop_rank b \<Longrightarrow> a = b"
  by (cases a; cases b) simp_all

instantiation drop_reason :: linorder
begin

definition less_eq_drop_reason :: "drop_reason \<Rightarrow> drop_reason \<Rightarrow> bool" where
  "less_eq_drop_reason a b \<longleftrightarrow> drop_rank a \<le> drop_rank b"

definition less_drop_reason :: "drop_reason \<Rightarrow> drop_reason \<Rightarrow> bool" where
  "less_drop_reason a b \<longleftrightarrow> drop_rank a < drop_rank b"

instance
  by standard (auto simp: less_eq_drop_reason_def less_drop_reason_def intro: drop_rank_inject)

end

record capture_counters =
  cc_captured :: u64
  cc_intentionally_skipped :: u64
  cc_lost :: u64
  cc_by_reason :: "(drop_reason, u64) btree"

definition counters_default :: capture_counters where
  "counters_default = \<lparr>cc_captured = 0, cc_intentionally_skipped = 0, cc_lost = 0, cc_by_reason = []\<rparr>"

definition count_captured :: "capture_counters \<Rightarrow> capture_counters" where
  "count_captured c = c\<lparr>cc_captured := saturating_add (cc_captured c) 1\<rparr>"

definition count_dropped_n :: "capture_counters \<Rightarrow> drop_reason \<Rightarrow> u64 \<Rightarrow> capture_counters" where
  "count_dropped_n c reason count =
     (let previous = (case map_of (cc_by_reason c) reason of Some n \<Rightarrow> n | None \<Rightarrow> 0);
          c1 = c\<lparr>cc_by_reason := bt_insert reason (saturating_add previous count) (cc_by_reason c)\<rparr> in
      case drop_class_of reason of
        Intentional \<Rightarrow> c1\<lparr>cc_intentionally_skipped := saturating_add (cc_intentionally_skipped c) count\<rparr>
      | Loss \<Rightarrow> c1\<lparr>cc_lost := saturating_add (cc_lost c) count\<rparr>)"

definition count_dropped :: "capture_counters \<Rightarrow> drop_reason \<Rightarrow> capture_counters" where
  "count_dropped c reason = count_dropped_n c reason 1"

datatype count_op = CountCaptured | CountDropped drop_reason u64

fun count_step :: "capture_counters \<Rightarrow> count_op \<Rightarrow> capture_counters" where
  "count_step c CountCaptured = count_captured c"
| "count_step c (CountDropped r n) = count_dropped_n c r n"

text \<open>The events of a history, as natural numbers.\<close>

fun events :: "(count_op \<Rightarrow> bool) \<Rightarrow> count_op list \<Rightarrow> nat" where
  "events P [] = 0"
| "events P (op # ops) = (if P op then (case op of CountCaptured \<Rightarrow> 1 | CountDropped _ n \<Rightarrow> unat n) else 0) + events P ops"

definition clip64 :: "nat \<Rightarrow> nat" where
  "clip64 n = min n (2 ^ 64 - 1)"

lemma clip64_add: "clip64 (clip64 a + b) = clip64 (a + b)"
  by (auto simp: clip64_def)

lemma clip64_reassoc: "clip64 (clip64 (a + b) + d) = clip64 (a + (b + d))"
  using clip64_add [of "a + b" d] by (simp add: add.assoc)

lemma unat_saturating_clip: "unat (saturating_add a b) = clip64 (unat a + unat b)" for a b :: u64
  by (simp add: unat_saturating_add clip64_def)

definition by_reason :: "capture_counters \<Rightarrow> drop_reason \<Rightarrow> u64" where
  "by_reason c r = (case map_of (cc_by_reason c) r of Some n \<Rightarrow> n | None \<Rightarrow> 0)"

lemma by_reason_dropped: "by_reason (count_dropped_n c r n) r' =
    (if r' = r then saturating_add (by_reason c r) n else by_reason c r')"
  by (auto simp: by_reason_def count_dropped_n_def Let_def split: drop_class.split option.split)

lemma counters_dropped [simp]:
  "cc_captured (count_dropped_n c r n) = cc_captured c"
  "cc_lost (count_dropped_n c r n) = (if drop_class_of r = Loss then saturating_add (cc_lost c) n else cc_lost c)"
  "cc_intentionally_skipped (count_dropped_n c r n) =
     (if drop_class_of r = Intentional then saturating_add (cc_intentionally_skipped c) n else cc_intentionally_skipped c)"
  by (auto simp: count_dropped_n_def Let_def split: drop_class.split)

lemma count_run:
  "unat (cc_captured (run count_step c ops)) = clip64 (unat (cc_captured c) + events (\<lambda>op. op = CountCaptured) ops) \<and>
   unat (cc_lost (run count_step c ops)) =
     clip64 (unat (cc_lost c) + events (\<lambda>op. \<exists>r n. op = CountDropped r n \<and> drop_class_of r = Loss) ops) \<and>
   unat (cc_intentionally_skipped (run count_step c ops)) =
     clip64 (unat (cc_intentionally_skipped c) +
       events (\<lambda>op. \<exists>r n. op = CountDropped r n \<and> drop_class_of r = Intentional) ops) \<and>
   unat (by_reason (run count_step c ops) q) = clip64 (unat (by_reason c q) + events (\<lambda>op. \<exists>n. op = CountDropped q n) ops)"
proof (induction ops arbitrary: c)
  case Nil
  have "clip64 (unat x) = unat x" for x :: u64
    using unat_less_size [of x] by (simp add: clip64_def)
  then show ?case by simp
next
  case (Cons op ops)
  have s: "clip64 (clip64 a + b + d) = clip64 (a + b + d)" for a b d
    using clip64_add [of a "b + d"] by (simp add: add.assoc)
  show ?case
  proof (cases op)
    case CountCaptured
    then show ?thesis
      using Cons.IH [of "count_captured c"]
      by (simp add: count_captured_def unat_saturating_clip clip64_add by_reason_def add.commute add.left_commute)
  next
    case (CountDropped r n)
    then show ?thesis
      using Cons.IH [of "count_dropped_n c r n"]
      by (cases "drop_class_of r")
        (simp_all add: by_reason_dropped unat_saturating_clip clip64_reassoc)
  qed
qed

text \<open>
  Loss accounting is exact: after any history, each counter of the capture ledger is the number of events of its
  kind, per reason and per class, saturating at the largest 64-bit value, so no drop goes unreported.
\<close>

lemma loss_ledger_exact:
  "unat (cc_captured (run count_step counters_default ops)) = clip64 (events (\<lambda>op. op = CountCaptured) ops) \<and>
   unat (cc_lost (run count_step counters_default ops)) =
     clip64 (events (\<lambda>op. \<exists>r n. op = CountDropped r n \<and> drop_class_of r = Loss) ops) \<and>
   unat (cc_intentionally_skipped (run count_step counters_default ops)) =
     clip64 (events (\<lambda>op. \<exists>r n. op = CountDropped r n \<and> drop_class_of r = Intentional) ops) \<and>
   unat (by_reason (run count_step counters_default ops) reason) =
     clip64 (events (\<lambda>op. \<exists>n. op = CountDropped reason n) ops)"
  using count_run [of counters_default ops reason] by (simp add: counters_default_def by_reason_def)

section \<open>The ring of skipped captures\<close>

record skipped_capture =
  sk_observed_at :: instant
  sk_reason :: drop_reason
  sk_provenance :: capture_provenance
  sk_generation :: "capture_generation option"
  sk_content_hash :: bytes

record skipped_ring =
  sr_capacity :: nat
  sr_entries :: "skipped_capture list"

definition ring_new :: "nat \<Rightarrow> skipped_ring" where
  "ring_new capacity = \<lparr>sr_capacity = max capacity 1, sr_entries = []\<rparr>"

definition ring_push :: "skipped_ring \<Rightarrow> skipped_capture \<Rightarrow> skipped_ring" where
  "ring_push r entry = r\<lparr>sr_entries :=
     (if length (sr_entries r) = sr_capacity r then tl (sr_entries r) else sr_entries r) @ [entry]\<rparr>"

definition ring_latest :: "skipped_ring \<Rightarrow> skipped_capture option" where
  "ring_latest r = (if sr_entries r = [] then None else Some (last (sr_entries r)))"

text \<open>The ring holds the last \<open>capacity\<close> entries pushed, in their order.\<close>

definition last_n :: "nat \<Rightarrow> 'a list \<Rightarrow> 'a list" where
  "last_n n xs = drop (length xs - n) xs"

lemma last_n_snoc:
  "0 < n \<Longrightarrow> (if length (last_n n xs) = n then tl (last_n n xs) else last_n n xs) @ [x] = last_n n (xs @ [x])"
  by (auto simp: last_n_def tl_drop Suc_diff_le simp flip: drop_Suc)

lemma ring_run:
  "sr_entries (run ring_push (ring_new capacity) es) = last_n (max capacity 1) es \<and>
   sr_capacity (run ring_push (ring_new capacity) es) = max capacity 1"
proof (induction es rule: rev_induct)
  case Nil
  then show ?case by (simp add: ring_new_def last_n_def)
next
  case (snoc e es)
  define m where "m = max capacity 1"
  have "0 < m"
    by (simp add: m_def)
  from last_n_snoc [OF this, of es e] snoc show ?case
    unfolding m_def [symmetric] by (simp add: ring_push_def split: if_split_asm)
qed

section \<open>Clipboard generations\<close>

datatype generation_observation = FirstGeneration | Consecutive | Gap u64 | EpochChanged | Stale

definition tracker_observe ::
  "capture_generation option \<Rightarrow> capture_generation \<Rightarrow> generation_observation \<times> capture_generation option" where
  "tracker_observe tracker_last generation =
     (let observation = (case tracker_last of
          None \<Rightarrow> FirstGeneration
        | Some prev \<Rightarrow>
            if cg_epoch generation \<noteq> cg_epoch prev then EpochChanged
            else if cg_sequence generation \<le> cg_sequence prev then Stale
            else if cg_sequence generation = cg_sequence prev + 1 then Consecutive
            else Gap (cg_sequence generation - cg_sequence prev - 1)) in
      (observation, if observation \<noteq> Stale then Some generation else tracker_last))"

text \<open>The number of generations that an observation reports as missed.\<close>

fun missed :: "generation_observation \<Rightarrow> nat" where
  "missed (Gap n) = unat n"
| "missed _ = 0"

fun tracker_run :: "capture_generation option \<Rightarrow> capture_generation list \<Rightarrow> generation_observation list \<times> capture_generation option" where
  "tracker_run tracker [] = ([], tracker)"
| "tracker_run tracker (g # gs) =
     (let (ob, tracker') = tracker_observe tracker g; (obs, tracker'') = tracker_run tracker' gs in (ob # obs, tracker''))"

lemma word_gap: "a < b \<Longrightarrow> b \<noteq> a + 1 \<Longrightarrow> unat (b - a - 1) = unat b - unat a - 1" for a b :: u64
proof -
  assume "a < b" "b \<noteq> a + 1"
  have d: "unat (b - a) = unat b - unat a"
    using \<open>a < b\<close> by (simp add: unat_sub)
  moreover have "1 \<le> b - a"
    using \<open>a < b\<close> d by (simp add: word_le_nat_alt word_less_nat_alt)
  ultimately show ?thesis
    by (simp add: unat_sub)
qed

lemma word_succ: "a < b \<Longrightarrow> b = a + 1 \<Longrightarrow> unat b = unat a + 1" for a b :: u64
  by (metis add.commute plus_1_eq_Suc unatSuc word_not_simps(1) Suc_eq_plus1 add_0)

text \<open>
  Generation accounting: along any observations of one epoch, the generations reported as missed and those
  accepted add up to the distance travelled from the first generation to the last one retained, and the
  retained sequence number never falls: a stale generation is reported and not taken over.
\<close>

lemma generation_gaps_add_up:
  assumes "tracker_run (Some g0) gs = (obs, t)" and "\<forall>g \<in> set gs. cg_epoch g = cg_epoch g0"
  shows "\<exists>g1. t = Some g1 \<and> cg_epoch g1 = cg_epoch g0 \<and>
    unat (cg_sequence g1) = unat (cg_sequence g0) + sum_list (map missed obs) + length (filter (\<lambda>ob. ob \<noteq> Stale) obs)"
  using assms
proof (induction gs arbitrary: g0 obs)
  case (Cons g gs)
  obtain ob t1 where o: "tracker_observe (Some g0) g = (ob, t1)" by (cases "tracker_observe (Some g0) g")
  obtain obs1 where r: "tracker_run t1 gs = (obs1, t)" and obs: "obs = ob # obs1"
    using Cons.prems(1) o by (auto split: prod.splits)
  have ep: "cg_epoch g = cg_epoch g0"
    using Cons.prems(2) by simp
  have "\<exists>g'. t1 = Some g' \<and> cg_epoch g' = cg_epoch g0 \<and>
      unat (cg_sequence g') = unat (cg_sequence g0) + missed ob + (if ob \<noteq> Stale then 1 else 0)"
  proof (cases "cg_sequence g \<le> cg_sequence g0")
    case True
    then have "ob = Stale \<and> t1 = Some g0"
      using o ep by (simp add: tracker_observe_def Let_def)
    then show ?thesis by simp
  next
    case False
    then have lt: "cg_sequence g0 < cg_sequence g" by simp
    show ?thesis
    proof (cases "cg_sequence g = cg_sequence g0 + 1")
      case True
      then have "ob = Consecutive \<and> t1 = Some g"
        using o ep False by (simp add: tracker_observe_def Let_def)
      with word_succ [OF lt True] ep show ?thesis by simp
    next
      case neq: False
      then have "ob = Gap (cg_sequence g - cg_sequence g0 - 1) \<and> t1 = Some g"
        using o ep False by (simp add: tracker_observe_def Let_def)
      moreover have "unat (cg_sequence g0) < unat (cg_sequence g)"
        using lt by (simp add: word_less_nat_alt)
      ultimately show ?thesis
        using word_gap [OF lt neq] ep by simp
    qed
  qed
  then obtain g' where g': "t1 = Some g'" "cg_epoch g' = cg_epoch g0"
    "unat (cg_sequence g') = unat (cg_sequence g0) + missed ob + (if ob \<noteq> Stale then 1 else 0)" by blast
  have "\<forall>x \<in> set gs. cg_epoch x = cg_epoch g'"
    using Cons.prems(2) g'(2) by simp
  from Cons.IH [OF r [unfolded g'(1)] this] obtain g1 where "t = Some g1" "cg_epoch g1 = cg_epoch g'"
    "unat (cg_sequence g1) = unat (cg_sequence g') + sum_list (map missed obs1) + length (filter (\<lambda>ob. ob \<noteq> Stale) obs1)"
    by blast
  then show ?case
    unfolding obs using g' by simp
qed auto

lemma generation_gaps_add_up_witness:
  "\<exists>g1. snd (tracker_run (Some \<lparr>cg_epoch = 1, cg_sequence = 3\<rparr>)
      [\<lparr>cg_epoch = 1, cg_sequence = 7\<rparr>, \<lparr>cg_epoch = 1, cg_sequence = 5\<rparr>, \<lparr>cg_epoch = 1, cg_sequence = 8\<rparr>]) = Some g1 \<and>
    unat (cg_sequence g1) = 3 + 3 + 2"
proof -
  let ?g0 = "\<lparr>cg_epoch = 1, cg_sequence = 3\<rparr>"
  let ?gs = "[\<lparr>cg_epoch = 1, cg_sequence = 7\<rparr>, \<lparr>cg_epoch = 1, cg_sequence = 5\<rparr>, \<lparr>cg_epoch = 1, cg_sequence = 8\<rparr>]"
  have r: "tracker_run (Some ?g0) ?gs = ([Gap 3, Stale, Consecutive], Some \<lparr>cg_epoch = 1, cg_sequence = 8\<rparr>)"
    by (simp add: tracker_observe_def Let_def)
  have "\<forall>g \<in> set ?gs. cg_epoch g = cg_epoch ?g0" by simp
  from generation_gaps_add_up [OF r this] r show ?thesis by simp
qed

section \<open>The self test\<close>

datatype self_test_state = Idle | AwaitingEcho bytes | AwaitingRestore | Passed | SelfTestFailed

datatype self_test_observation = Started | EchoConfirmed | RestoreConfirmed | UnexpectedEcho | TimedOut

fun self_test_observe :: "self_test_state \<Rightarrow> self_test_observation \<Rightarrow> self_test_state" where
  "self_test_observe Idle Started = AwaitingEcho (replicate 32 (CHR 0x00))"
| "self_test_observe (AwaitingEcho _) EchoConfirmed = AwaitingRestore"
| "self_test_observe AwaitingRestore RestoreConfirmed = Passed"
| "self_test_observe _ UnexpectedEcho = SelfTestFailed"
| "self_test_observe _ TimedOut = SelfTestFailed"
| "self_test_observe state _ = state"

definition self_test_start :: "bytes \<Rightarrow> self_test_state" where
  "self_test_start hash = AwaitingEcho hash"

end
