(* ===== verification/Paste.thy ===== *)
theory Paste
  imports Paste_Guard Capture_Ledger
begin

text \<open>
  Writing a clip and pasting it back: \<open>PasteCoordinator\<close> of \<open>src/paste.rs\<close>, \<open>ConfirmedPaste\<close> of
  \<open>crates/vbuff-platform/src/confirmed_paste.rs\<close> and the default \<open>write\<close> of \<open>ClipboardBackend\<close> in
  \<open>traits.rs\<close> (the shipped clipboard backend inherits it).

  The calls into the operating system are the functions of \<open>native\<close> on its state; each of them also leaves
  an event in a log, newest first, which the code does not keep and only the theorems read. Instants the code
  reads from the clock, and the nonce it draws, are arguments. A panic of instant arithmetic is \<open>None\<close>. The
  mutex around the self-write ledger is not poisoned.
\<close>

datatype platform_error =
    ClipboardError | HotkeyError | PasteError | BadCombo | SecurityError | EmptyClipboard

datatype retention = UnspecifiedRetention | SystemDefault | PreferExclude | RequireExclude

datatype write_receipt = NoRetentionRequested | RetentionHintApplied | RetentionHintUnsupported

record write_options =
  wo_lineage :: capture_lineage
  wo_retention :: retention

datatype 't os_event =
    CapturedTarget 't
  | RestoredTarget 't
  | ForegroundSeen 't bool
  | ClipboardRead "flavor list"
  | Placed "flavor list" retention
  | Injected 't

record ('os, 't) native =
  nv_capture :: "'os \<Rightarrow> (platform_error + 't) \<times> 'os"
  nv_restore :: "'t \<Rightarrow> 'os \<Rightarrow> (platform_error + unit) \<times> 'os"
  nv_foreground :: "'t \<Rightarrow> 'os \<Rightarrow> (platform_error + bool) \<times> 'os"
  nv_inject :: "'os \<Rightarrow> (platform_error + unit) \<times> 'os"
  nv_read :: "'os \<Rightarrow> (platform_error + flavor list) \<times> 'os"
  nv_place :: "flavor list \<Rightarrow> write_options \<Rightarrow> 'os \<Rightarrow> (platform_error + unit) \<times> 'os"

record ('os, 't) world =
  wd_os :: 'os
  wd_log :: "'t os_event list"

definition world_after :: "('os, 't) world \<Rightarrow> 'os \<Rightarrow> 't os_event list \<Rightarrow> ('os, 't) world" where
  "world_after w os evs = w\<lparr>wd_os := os, wd_log := evs @ wd_log w\<rparr>"

section \<open>The confirmed paste backend\<close>

text \<open>\<open>ConfirmedPaste\<close> holds the captured target, an \<open>Option<Target>\<close>.\<close>

definition cp_capture_target ::
  "('os, 't) native \<Rightarrow> 't option \<Rightarrow> ('os, 't) world \<Rightarrow> (platform_error + unit) \<times> 't option \<times> ('os, 't) world" where
  "cp_capture_target nv target w = (case nv_capture nv (wd_os w) of
     (Inl e, os) \<Rightarrow> (Inl e, None, world_after w os [])
   | (Inr t, os) \<Rightarrow> (Inr (), Some t, world_after w os [CapturedTarget t]))"

definition cp_restore_target ::
  "('os, 't) native \<Rightarrow> 't option \<Rightarrow> ('os, 't) world \<Rightarrow> (platform_error + unit) \<times> ('os, 't) world" where
  "cp_restore_target nv target w = (case target of
     None \<Rightarrow> (Inl PasteError, w)
   | Some t \<Rightarrow> (case nv_restore nv t (wd_os w) of (r, os) \<Rightarrow> (r, world_after w os [RestoredTarget t])))"

definition cp_target_is_foreground ::
  "('os, 't) native \<Rightarrow> 't option \<Rightarrow> ('os, 't) world \<Rightarrow> (platform_error + bool) \<times> ('os, 't) world" where
  "cp_target_is_foreground nv target w = (case target of
     None \<Rightarrow> (Inl PasteError, w)
   | Some t \<Rightarrow> (case nv_foreground nv t (wd_os w) of
         (Inl e, os) \<Rightarrow> (Inl e, world_after w os [])
       | (Inr b, os) \<Rightarrow> (Inr b, world_after w os [ForegroundSeen t b])))"

definition cp_paste ::
  "('os, 't) native \<Rightarrow> 't option \<Rightarrow> ('os, 't) world \<Rightarrow> (platform_error + unit) \<times> 't option \<times> ('os, 't) world" where
  "cp_paste nv target w = (case cp_target_is_foreground nv target w of
     (Inl e, w1) \<Rightarrow> (Inl e, target, w1)
   | (Inr False, w1) \<Rightarrow> (Inl PasteError, target, w1)
   | (Inr True, w1) \<Rightarrow> (case nv_inject nv (wd_os w1) of
        (r, os) \<Rightarrow> (r, None, world_after w1 os (case target of None \<Rightarrow> [] | Some t \<Rightarrow> [Injected t]))))"

section \<open>The clipboard backend\<close>

definition clipboard_place ::
  "('os, 't) native \<Rightarrow> flavor list \<Rightarrow> write_options \<Rightarrow> ('os, 't) world \<Rightarrow> (platform_error + unit) \<times> ('os, 't) world" where
  "clipboard_place nv flavors options w = (case nv_place nv flavors options (wd_os w) of
     (Inl e, os) \<Rightarrow> (Inl e, world_after w os [])
   | (Inr _, os) \<Rightarrow> (Inr (), world_after w os [Placed flavors (wo_retention options)]))"

definition clipboard_write ::
  "('os, 't) native \<Rightarrow> flavor list \<Rightarrow> write_options \<Rightarrow> ('os, 't) world \<Rightarrow>
     (platform_error + write_receipt) \<times> ('os, 't) world" where
  "clipboard_write nv flavors options w =
     (let place = (\<lambda>receipt. case clipboard_place nv flavors options w of
          (Inl e, w1) \<Rightarrow> (Inl e, w1) | (Inr _, w1) \<Rightarrow> (Inr receipt, w1)) in
      case wo_retention options of
        UnspecifiedRetention \<Rightarrow> place NoRetentionRequested
      | SystemDefault \<Rightarrow> place RetentionHintApplied
      | PreferExclude \<Rightarrow> place RetentionHintUnsupported
      | RequireExclude \<Rightarrow> (Inr RetentionHintUnsupported, w))"

definition clipboard_read ::
  "('os, 't) native \<Rightarrow> ('os, 't) world \<Rightarrow> (platform_error + flavor list) \<times> ('os, 't) world" where
  "clipboard_read nv w = (case nv_read nv (wd_os w) of
     (Inl e, os) \<Rightarrow> (Inl e, world_after w os [])
   | (Inr flavors, os) \<Rightarrow> (Inr flavors, world_after w os [ClipboardRead flavors]))"

section \<open>The coordinator\<close>

definition PASTE_DELAY :: duration where
  "PASTE_DELAY = millis 120"

definition FOCUS_CONFIRM_DELAY :: duration where
  "FOCUS_CONFIRM_DELAY = millis 35"

definition FOCUS_CONFIRM_TIMEOUT :: duration where
  "FOCUS_CONFIRM_TIMEOUT = millis 350"

datatype pending_stage = RestoreTarget | ConfirmTarget instant

datatype paste_outcome = Scheduled | CopiedOnly

datatype paste_failure =
    Platform platform_error
  | WriterUnavailable
  | ExclusionRequired
  | NotVerifiable
  | BackendUnavailable
  | NotForeground
  | GuardBlocked paste_guard_decision

record 't coordinator =
  co_clipboard :: bool
  co_paste :: "'t option option"
  co_pending_at :: "instant option"
  co_pending_stage :: "pending_stage option"
  co_pending_guard :: "paste_guard_fingerprint option"
  co_target_ready :: bool
  co_self_writes :: self_write_ledger

type_synonym ('os, 't) paste_state = "'t coordinator \<times> ('os, 't) world"

definition coordinator_new :: "bool \<Rightarrow> bool \<Rightarrow> self_write_ledger \<Rightarrow> 't coordinator" where
  "coordinator_new clipboard paste self_writes =
     \<lparr>co_clipboard = clipboard, co_paste = (if paste then Some None else None), co_pending_at = None,
      co_pending_stage = None, co_pending_guard = None, co_target_ready = False, co_self_writes = self_writes\<rparr>"

definition cancel_pending :: "'t coordinator \<Rightarrow> 't coordinator" where
  "cancel_pending c = c\<lparr>co_pending_at := None, co_pending_stage := None, co_pending_guard := None\<rparr>"

definition cancel_target :: "'t coordinator \<Rightarrow> 't coordinator" where
  "cancel_target c = c\<lparr>co_target_ready := False, co_paste := map_option (\<lambda>_. None) (co_paste c)\<rparr>"

definition prepare_target ::
  "('os, 't) native \<Rightarrow> ('os, 't) paste_state \<Rightarrow> bool \<times> ('os, 't) paste_state" where
  "prepare_target nv st = (case st of (c, w) \<Rightarrow>
     (let c1 = (cancel_pending c)\<lparr>co_target_ready := False\<rparr> in
      case co_paste c1 of
        None \<Rightarrow> (False, c1, w)
      | Some _ \<Rightarrow> (case cp_capture_target nv None w of
            (Inr _, target, w1) \<Rightarrow> (True, c1\<lparr>co_paste := Some target, co_target_ready := True\<rparr>, w1)
          | (Inl e, target, w1) \<Rightarrow> (False, c1\<lparr>co_paste := Some target\<rparr>, w1))))"

definition paste_copy ::
  "guard_env \<Rightarrow> ('os, 't) native \<Rightarrow> ('os, 't) paste_state \<Rightarrow> flavor list \<Rightarrow> bool \<Rightarrow> string \<Rightarrow> instant \<Rightarrow>
     (paste_failure + unit) \<times> ('os, 't) paste_state" where
  "paste_copy env nv st flavors sensitive nonce now = (case st of (c0, w) \<Rightarrow>
     (let c = cancel_pending c0 in
      if \<not> co_clipboard c then (Inl WriterUnavailable, c, w)
      else (let hash = content_hash_from_flavors (gu_blake3 env) flavors;
                options = \<lparr>wo_lineage = \<lparr>cl_origin_device = None, cl_write_nonce = Some nonce\<rparr>,
                           wo_retention = (if sensitive then RequireExclude else PreferExclude)\<rparr> in
        case clipboard_write nv flavors options w of
          (Inl e, w1) \<Rightarrow> (Inl (Platform e), c, w1)
        | (Inr receipt, w1) \<Rightarrow>
            if receipt \<noteq> RetentionHintApplied \<and> sensitive then (Inl ExclusionRequired, c, w1)
            else (Inr (), c\<lparr>co_self_writes := self_write_register (co_self_writes c) hash nonce now\<rparr>, w1))))"

definition paste_schedule ::
  "guard_env \<Rightarrow> ('os, 't) native \<Rightarrow> ('os, 't) paste_state \<Rightarrow> flavor list \<Rightarrow> bool \<Rightarrow> string \<Rightarrow>
     instant \<Rightarrow> instant \<Rightarrow> instant \<Rightarrow> instant \<Rightarrow>
     ((paste_failure + paste_outcome) \<times> ('os, 't) paste_state) option" where
  "paste_schedule env nv st flavors sensitive nonce now write_started_at registered_at write_finished_at =
     (case st of (c0, w) \<Rightarrow>
       (let automatic_paste = (co_paste c0 \<noteq> None \<and> co_target_ready c0);
            c = (if co_paste c0 \<noteq> None then c0\<lparr>co_target_ready := False\<rparr> else c0);
            guard = fingerprint_from_flavors env flavors in
        if automatic_paste \<and> guard = None then Some (Inl NotVerifiable, cancel_target c, w)
        else (case paste_copy env nv (c, w) flavors sensitive nonce registered_at of
            (Inl e, c1, w1) \<Rightarrow> Some (Inl e, cancel_target c1, w1)
          | (Inr _, c1, w1) \<Rightarrow>
              if automatic_paste
              then Option.bind (instant_checked_add now (saturating_duration_since write_finished_at write_started_at))
                (\<lambda>t. Option.bind (instant_checked_add t PASTE_DELAY) (\<lambda>due.
                  Some (Inr Scheduled, c1\<lparr>co_pending_guard := guard, co_pending_stage := Some RestoreTarget,
                          co_pending_at := Some due\<rparr>, w1)))
              else Some (Inr CopiedOnly, cancel_target c1, w1))))"

text \<open>The last part of \<open>poll\<close>: the clipboard is read back, compared, and only then the keystroke is sent.\<close>

definition paste_fire ::
  "guard_env \<Rightarrow> ('os, 't) native \<Rightarrow> ('os, 't) paste_state \<Rightarrow> (paste_failure + unit) \<times> ('os, 't) paste_state" where
  "paste_fire env nv st = (case st of (c0, w) \<Rightarrow>
     (let expected = co_pending_guard c0;
          c = cancel_pending c0;
          (observed, w1) = (if \<not> co_clipboard c then (None, w)
            else case clipboard_read nv w of
              (Inl e, w1) \<Rightarrow> (None, w1)
            | (Inr flavors, w1) \<Rightarrow> (fingerprint_from_flavors env flavors, w1));
          decision = (case expected of None \<Rightarrow> BlockUnreadable | Some p \<Rightarrow> fingerprint_compare p observed) in
      if decision \<noteq> AllowPaste then (Inl (GuardBlocked decision), cancel_target c, w1)
      else case co_paste c of
          None \<Rightarrow> (Inl BackendUnavailable, cancel_target c, w1)
        | Some target \<Rightarrow> (case cp_paste nv target w1 of
              (Inl e, target', w2) \<Rightarrow> (Inl (Platform e), cancel_target (c\<lparr>co_paste := Some target'\<rparr>), w2)
            | (Inr _, target', w2) \<Rightarrow> (Inr (), cancel_target (c\<lparr>co_paste := Some target'\<rparr>), w2))))"

definition paste_abort ::
  "paste_failure \<Rightarrow> ('os, 't) paste_state \<Rightarrow> (paste_failure + unit) option \<times> ('os, 't) paste_state" where
  "paste_abort e st = (Some (Inl e), cancel_target (cancel_pending (fst st)), snd st)"

definition paste_poll ::
  "guard_env \<Rightarrow> ('os, 't) native \<Rightarrow> ('os, 't) paste_state \<Rightarrow> instant \<Rightarrow>
     ((paste_failure + unit) option \<times> ('os, 't) paste_state) option" where
  "paste_poll env nv st now = (case st of (c, w) \<Rightarrow>
     (case co_pending_at c of None \<Rightarrow> Some (None, c, w)
      | Some due \<Rightarrow>
        if now < due then Some (None, c, w)
        else (case co_pending_stage c of None \<Rightarrow> Some (None, c, w)
          | Some RestoreTarget \<Rightarrow>
              (case co_paste c of None \<Rightarrow> Some (paste_abort BackendUnavailable (c, w))
               | Some target \<Rightarrow> (case cp_restore_target nv target w of
                    (Inl e, w1) \<Rightarrow> Some (paste_abort (Platform e) (c, w1))
                  | (Inr _, w1) \<Rightarrow> Option.bind (instant_checked_add now FOCUS_CONFIRM_TIMEOUT) (\<lambda>deadline.
                      Option.bind (instant_checked_add now FOCUS_CONFIRM_DELAY) (\<lambda>next_poll.
                        Some (None, c\<lparr>co_pending_stage := Some (ConfirmTarget deadline),
                                co_pending_at := Some next_poll\<rparr>, w1)))))
          | Some (ConfirmTarget deadline) \<Rightarrow>
              (case co_paste c of None \<Rightarrow> Some (paste_abort BackendUnavailable (c, w))
               | Some target \<Rightarrow> (case cp_target_is_foreground nv target w of
                    (Inl e, w1) \<Rightarrow> Some (paste_abort (Platform e) (c, w1))
                  | (Inr True, w1) \<Rightarrow> (case paste_fire env nv (c, w1) of (r, st1) \<Rightarrow> Some (Some r, st1))
                  | (Inr False, w1) \<Rightarrow>
                      if now < deadline
                      then Option.bind (instant_checked_add now FOCUS_CONFIRM_DELAY) (\<lambda>next_poll.
                        Some (None, c\<lparr>co_pending_at := Some next_poll\<rparr>, w1))
                      else Some (paste_abort NotForeground (c, w1)))))))"

definition paste_wait_duration :: "'t coordinator \<Rightarrow> instant \<Rightarrow> duration option" where
  "paste_wait_duration c now = map_option (\<lambda>due. saturating_duration_since due now) (co_pending_at c)"

section \<open>Every keystroke is preceded by its checks\<close>

text \<open>What the log says, newest event first: the content written and not pasted yet, and the last target.\<close>

fun armed_content :: "'t os_event list \<Rightarrow> flavor list option" where
  "armed_content [] = None"
| "armed_content (Placed flavors _ # log) = Some flavors"
| "armed_content (Injected _ # log) = None"
| "armed_content (_ # log) = armed_content log"

fun last_target :: "'t os_event list \<Rightarrow> 't option" where
  "last_target [] = None"
| "last_target (CapturedTarget t # log) = Some t"
| "last_target (_ # log) = last_target log"

definition guard_allows :: "guard_env \<Rightarrow> flavor list \<Rightarrow> flavor list \<Rightarrow> bool" where
  "guard_allows env written observed = (case fingerprint_from_flavors env written of
     None \<Rightarrow> False
   | Some p \<Rightarrow> fingerprint_compare p (fingerprint_from_flavors env observed) = AllowPaste)"

fun checked_paste :: "guard_env \<Rightarrow> 't \<Rightarrow> 't os_event list \<Rightarrow> bool" where
  "checked_paste env t (ForegroundSeen t1 True # ClipboardRead observed # ForegroundSeen t2 True # log) =
     (t1 = t \<and> t2 = t \<and> last_target log = Some t \<and>
      (case armed_content log of None \<Rightarrow> False | Some written \<Rightarrow> guard_allows env written observed))"
| "checked_paste env t _ = False"

fun paste_log_ok :: "guard_env \<Rightarrow> 't os_event list \<Rightarrow> bool" where
  "paste_log_ok env [] = True"
| "paste_log_ok env (Injected t # log) = (checked_paste env t log \<and> paste_log_ok env log)"
| "paste_log_ok env (Placed flavors r # log) = (r = PreferExclude \<and> paste_log_ok env log)"
| "paste_log_ok env (_ # log) = paste_log_ok env log"

fun injections :: "'t os_event list \<Rightarrow> nat" where
  "injections [] = 0"
| "injections (Injected _ # log) = Suc (injections log)"
| "injections (_ # log) = injections log"

fun placements :: "'t os_event list \<Rightarrow> nat" where
  "placements [] = 0"
| "placements (Placed _ _ # log) = Suc (placements log)"
| "placements (_ # log) = placements log"

lemma checked_paste_cases:
  assumes "checked_paste env t log"
  obtains observed log' written where
    "log = ForegroundSeen t True # ClipboardRead observed # ForegroundSeen t True # log'"
    "last_target log' = Some t" "armed_content log' = Some written" "guard_allows env written observed"
  using assms by (cases "(env, t, log)" rule: checked_paste.cases) (auto split: option.splits)

lemma injections_placements:
  "paste_log_ok env log \<Longrightarrow> injections log + (if armed_content log = None then 0 else 1) \<le> placements log"
proof (induction env log rule: paste_log_ok.induct)
  case (2 env t log)
  then show ?case by (auto elim!: checked_paste_cases)
qed auto

datatype paste_op =
    PrepareTarget
  | CancelTarget
  | CopyClip "flavor list" bool string instant
  | ScheduleClip "flavor list" bool string instant instant instant instant
  | PollPaste instant

fun paste_step ::
  "guard_env \<Rightarrow> ('os, 't) native \<Rightarrow> ('os, 't) paste_state \<Rightarrow> paste_op \<Rightarrow> ('os, 't) paste_state option" where
  "paste_step env nv st PrepareTarget = Some (snd (prepare_target nv st))"
| "paste_step env nv st CancelTarget = Some (cancel_target (fst st), snd st)"
| "paste_step env nv st (CopyClip flavors sensitive nonce now) =
     Some (snd (paste_copy env nv st flavors sensitive nonce now))"
| "paste_step env nv st (ScheduleClip flavors sensitive nonce now started registered finished) =
     map_option snd (paste_schedule env nv st flavors sensitive nonce now started registered finished)"
| "paste_step env nv st (PollPaste now) = map_option snd (paste_poll env nv st now)"

fun paste_run ::
  "guard_env \<Rightarrow> ('os, 't) native \<Rightarrow> ('os, 't) paste_state \<Rightarrow> paste_op list \<Rightarrow> ('os, 't) paste_state option" where
  "paste_run env nv st [] = Some st"
| "paste_run env nv st (op # ops) = Option.bind (paste_step env nv st op) (\<lambda>st'. paste_run env nv st' ops)"

definition paste_ok :: "guard_env \<Rightarrow> 't coordinator \<Rightarrow> 't os_event list \<Rightarrow> bool" where
  "paste_ok env c log \<longleftrightarrow> paste_log_ok env log \<and>
     (\<forall>p. co_pending_guard c = Some p \<longrightarrow>
        (\<exists>written. armed_content log = Some written \<and> fingerprint_from_flavors env written = Some p)) \<and>
     (\<forall>t. co_paste c = Some (Some t) \<longrightarrow> last_target log = Some t)"

abbreviation paste_inv :: "guard_env \<Rightarrow> ('os, 't) paste_state \<Rightarrow> bool" where
  "paste_inv env st \<equiv> paste_ok env (fst st) (wd_log (snd st))"

lemma wd_log_world_after [simp]: "wd_log (world_after w os evs) = evs @ wd_log w"
  by (simp add: world_after_def)

lemma cancel_fields [simp]:
  "co_pending_guard (cancel_pending c) = None" "co_paste (cancel_pending c) = co_paste c"
  "co_pending_guard (cancel_target c) = co_pending_guard c" "co_pending_at (cancel_pending c) = None"
  "co_clipboard (cancel_pending c) = co_clipboard c" "co_pending_at (cancel_target c) = co_pending_at c"
  by (auto simp: cancel_pending_def cancel_target_def)

lemma cancel_target_paste [simp]: "co_paste (cancel_target c) \<noteq> Some (Some t)"
  by (auto simp: cancel_target_def)

lemma cancel_ok:
  "paste_ok env c log \<Longrightarrow> paste_ok env (cancel_pending c) log"
  "paste_ok env c log \<Longrightarrow> paste_ok env (cancel_target c) log"
  by (auto simp: paste_ok_def)

text \<open>Events that neither write, inject nor capture keep the invariant.\<close>

fun silent :: "'t os_event \<Rightarrow> bool" where
  "silent (CapturedTarget _) \<longleftrightarrow> False"
| "silent (Placed _ _) \<longleftrightarrow> False"
| "silent (Injected _) \<longleftrightarrow> False"
| "silent _ \<longleftrightarrow> True"

lemma paste_ok_silent: "silent e \<Longrightarrow> paste_ok env c (e # log) \<longleftrightarrow> paste_ok env c log"
  by (cases e) (auto simp: paste_ok_def)

lemma prepare_target_ok: "paste_inv env st \<Longrightarrow> paste_inv env (snd (prepare_target nv st))"
  by (cases st) (auto simp: paste_ok_def prepare_target_def cp_capture_target_def Let_def
      split: option.splits prod.splits sum.splits)

text \<open>A write leaves the log alone, or adds one placement of a payload that need not be kept secret.\<close>

lemma paste_copy_cases:
  obtains (failed) e w' where "paste_copy env nv (c, w) flavors sensitive nonce now = (Inl e, cancel_pending c, w')"
      "wd_log w' = wd_log w"
  | (placed) c' w' where "paste_copy env nv (c, w) flavors sensitive nonce now = (Inr (), c', w')"
      "wd_log w' = Placed flavors PreferExclude # wd_log w" "\<not> sensitive"
      "co_pending_guard c' = None" "co_paste c' = co_paste c" "co_pending_at c' = None"
proof (cases "co_clipboard c \<and> \<not> sensitive")
  case True
  define options where "options = \<lparr>wo_lineage = \<lparr>cl_origin_device = None, cl_write_nonce = Some nonce\<rparr>,
    wo_retention = PreferExclude\<rparr>"
  show thesis
  proof (cases "fst (nv_place nv flavors options (wd_os w))")
    case (Inl e)
    with True show thesis
      by (intro failed [of "Platform e" "world_after w (snd (nv_place nv flavors options (wd_os w))) []"])
        (auto simp: paste_copy_def clipboard_write_def clipboard_place_def options_def Let_def split: prod.splits)
  next
    case (Inr u)
    with True show thesis
      by (intro placed [where c' = "(cancel_pending c)\<lparr>co_self_writes := self_write_register (co_self_writes c)
            (content_hash_from_flavors (gu_blake3 env) flavors) nonce now\<rparr>" and w' = "world_after w (snd (nv_place nv flavors options (wd_os w))) [Placed flavors PreferExclude]"])
        (auto simp: paste_copy_def clipboard_write_def clipboard_place_def options_def Let_def cancel_pending_def
          split: prod.splits)
  qed
next
  case False
  then show thesis
    by (intro failed [of "if co_clipboard c then ExclusionRequired else WriterUnavailable" w])
      (auto simp: paste_copy_def clipboard_write_def Let_def)
qed

lemma paste_copy_ok:
  "paste_inv env st \<Longrightarrow> paste_inv env (snd (paste_copy env nv st flavors sensitive nonce now))"
proof (cases st)
  case (Pair c w)
  assume "paste_inv env st"
  with Pair show ?thesis
    by (cases rule: paste_copy_cases [where env = env and nv = nv and c = c and w = w and flavors = flavors and
        sensitive = sensitive and nonce = nonce and now = now]) (auto simp: paste_ok_def)
qed

lemma paste_schedule_ok:
  assumes "paste_inv env st"
    and "paste_schedule env nv st flavors sensitive nonce now started registered finished = Some (r, st')"
  shows "paste_inv env st'"
proof -
  obtain c0 w where st: "st = (c0, w)" by (cases st)
  define c where "c = (if co_paste c0 \<noteq> None then c0\<lparr>co_target_ready := False\<rparr> else c0)"
  have ok: "paste_ok env c (wd_log w)"
    using assms(1) by (auto simp: st c_def paste_ok_def)
  define automatic where "automatic \<longleftrightarrow> co_paste c0 \<noteq> None \<and> co_target_ready c0"
  define guard where "guard = fingerprint_from_flavors env flavors"
  have step: "paste_schedule env nv (c0, w) flavors sensitive nonce now started registered finished =
      (if automatic \<and> guard = None then Some (Inl NotVerifiable, cancel_target c, w)
       else (case paste_copy env nv (c, w) flavors sensitive nonce registered of
            (Inl e, c1, w1) \<Rightarrow> Some (Inl e, cancel_target c1, w1)
          | (Inr _, c1, w1) \<Rightarrow>
              if automatic
              then Option.bind (instant_checked_add now (saturating_duration_since finished started))
                (\<lambda>t. Option.bind (instant_checked_add t PASTE_DELAY) (\<lambda>due.
                  Some (Inr Scheduled, c1\<lparr>co_pending_guard := guard, co_pending_stage := Some RestoreTarget,
                          co_pending_at := Some due\<rparr>, w1)))
              else Some (Inr CopiedOnly, cancel_target c1, w1)))"
    by (simp only: paste_schedule_def prod.case Let_def c_def automatic_def guard_def)
  show ?thesis
    using assms(2) ok cancel_ok [OF ok] unfolding st step
    by (cases rule: paste_copy_cases [where env = env and nv = nv and c = c and w = w and flavors = flavors and
        sensitive = sensitive and nonce = nonce and now = registered])
      (auto simp: paste_ok_def guard_def split: if_splits bind_splits)
qed

text \<open>Firing: the log gains its events only in the checked order.\<close>

lemma paste_fire_ok:
  assumes "paste_ok env c log" and "wd_log w = ForegroundSeen t True # log" and "co_paste c = Some (Some t)"
  shows "paste_inv env (snd (paste_fire env nv (c, w)))"
proof (cases "co_clipboard c \<and> is_ok (fst (nv_read nv (wd_os w)))")
  case False
  then have "(if \<not> co_clipboard (cancel_pending c) then (None, w)
      else case clipboard_read nv w of (Inl e, w1) \<Rightarrow> (None, w1)
        | (Inr flavors, w1) \<Rightarrow> (fingerprint_from_flavors env flavors, w1)) =
      (None, if co_clipboard c then world_after w (snd (nv_read nv (wd_os w))) [] else w)"
    by (auto simp: clipboard_read_def is_ok_def split: prod.splits sum.splits)
  then show ?thesis
    using assms by (auto simp: paste_fire_def Let_def fingerprint_compare_def paste_ok_def split: option.splits)
next
  case True
  then obtain observed where read: "fst (nv_read nv (wd_os w)) = Inr observed"
    by (auto simp: is_ok_iff)
  define w1 where "w1 = world_after w (snd (nv_read nv (wd_os w))) [ClipboardRead observed]"
  have observed: "(if \<not> co_clipboard (cancel_pending c) then (None, w)
      else case clipboard_read nv w of (Inl e, w1) \<Rightarrow> (None, w1)
        | (Inr flavors, w1) \<Rightarrow> (fingerprint_from_flavors env flavors, w1)) = (fingerprint_from_flavors env observed, w1)"
    using True read by (auto simp: clipboard_read_def w1_def split: prod.splits sum.splits)
  have log1: "wd_log w1 = ClipboardRead observed # ForegroundSeen t True # log"
    by (simp add: w1_def assms(2))
  show ?thesis
  proof (cases "\<exists>p. co_pending_guard c = Some p \<and> fingerprint_compare p (fingerprint_from_flavors env observed) = AllowPaste")
    case False
    then show ?thesis
      using assms log1 unfolding paste_fire_def prod.case Let_def observed
      by (auto simp: paste_ok_def split: option.splits)
  next
    case True
    then obtain p written where p: "co_pending_guard c = Some p" "armed_content log = Some written"
        "fingerprint_from_flavors env written = Some p"
        "fingerprint_compare p (fingerprint_from_flavors env observed) = AllowPaste"
      using assms(1) by (auto simp: paste_ok_def)
    have target: "last_target log = Some t"
      using assms(1,3) by (simp add: paste_ok_def)
    show ?thesis
      using assms log1 p target unfolding paste_fire_def prod.case Let_def observed
      by (auto simp: paste_ok_def cp_paste_def cp_target_is_foreground_def guard_allows_def
          split: option.splits prod.splits sum.splits bool.splits)
  qed
qed

lemma silent_log_ok:
  "paste_ok env c log \<Longrightarrow> paste_ok env c (RestoredTarget t # log)"
  "paste_ok env c log \<Longrightarrow> paste_ok env c (ForegroundSeen t b # log)"
  by (simp_all add: paste_ok_silent)

lemma paste_poll_ok:
  assumes "paste_inv env st" and "paste_poll env nv st now = Some (r, st')"
  shows "paste_inv env st'"
proof -
  obtain c w where st: "st = (c, w)" by (cases st)
  have ok: "paste_ok env c (wd_log w)" using assms(1) st by simp
  have abort: "paste_ok env (cancel_target (cancel_pending c)) log" if "paste_ok env c log" for log
    using that by (simp add: cancel_ok)
  have stage: "paste_ok env (c\<lparr>co_pending_stage := x, co_pending_at := y\<rparr>) log"
    "paste_ok env (c\<lparr>co_pending_at := y\<rparr>) log" if "paste_ok env c log" for x y log
    using that by (auto simp: paste_ok_def)
  show ?thesis
  proof (cases "co_pending_stage c")
    case None
    with assms(2) ok show ?thesis
      by (auto simp: st paste_poll_def split: option.splits if_splits)
  next
    case (Some stg)
    show ?thesis
    proof (cases stg)
      case RestoreTarget
      with assms(2) Some ok show ?thesis
        using abort stage silent_log_ok [OF ok]
        by (auto simp: st paste_poll_def cp_restore_target_def paste_abort_def
            split: option.splits if_splits prod.splits sum.splits bind_splits)
    next
      case (ConfirmTarget deadline)
      show ?thesis
      proof (cases "\<exists>t. co_paste c = Some (Some t) \<and> (\<exists>os. nv_foreground nv t (wd_os w) = (Inr True, os))")
        case True
        then obtain t os where t: "co_paste c = Some (Some t)" "nv_foreground nv t (wd_os w) = (Inr True, os)"
          by blast
        have "paste_inv env (snd (paste_fire env nv (c, world_after w os [ForegroundSeen t True])))"
          by (rule paste_fire_ok [OF ok _ t(1)]) simp
        then show ?thesis
          using assms(2) Some ConfirmTarget ok t
          by (auto simp: st paste_poll_def cp_target_is_foreground_def split: option.splits if_splits prod.splits)
      next
        case False
        with assms(2) Some ConfirmTarget ok show ?thesis
          using abort stage silent_log_ok [OF ok]
          by (auto simp: st paste_poll_def cp_target_is_foreground_def paste_abort_def
              split: option.splits if_splits prod.splits sum.splits bool.splits bind_splits)
      qed
    qed
  qed
qed

lemma paste_step_ok: "paste_inv env st \<Longrightarrow> paste_step env nv st op = Some st' \<Longrightarrow> paste_inv env st'"
  by (cases op) (auto simp: prepare_target_ok paste_copy_ok cancel_ok
      intro: paste_schedule_ok paste_poll_ok)

lemma paste_run_ok: "paste_inv env st \<Longrightarrow> paste_run env nv st ops = Some st' \<Longrightarrow> paste_inv env st'"
  by (induction ops arbitrary: st) (auto split: bind_splits intro: paste_step_ok)

text \<open>
  C12. A paste keystroke is sent only after its checks, and at most once per write. In the log of any sequence
  of operations on a new coordinator, whatever the operating system answers, every keystroke goes to the last
  captured target and comes right after this target was seen in the foreground, the clipboard was read back
  with a content the guard accepts for what was written last and not pasted yet, and the target was seen in
  the foreground again. There are never more keystrokes than writes, and no clip marked sensitive is written.
\<close>

theorem paste_is_guarded:
  assumes "paste_run env nv (coordinator_new clipboard paste ledger, \<lparr>wd_os = os, wd_log = []\<rparr>) ops = Some (c, w)"
  shows "paste_log_ok env (wd_log w) \<and> injections (wd_log w) \<le> placements (wd_log w)"
proof -
  have "paste_ok env (coordinator_new clipboard paste ledger) []"
    by (simp add: paste_ok_def coordinator_new_def)
  then have "paste_ok env c (wd_log w)"
    using paste_run_ok [OF _ assms] by simp
  then have "paste_log_ok env (wd_log w)"
    by (simp add: paste_ok_def)
  then show ?thesis
    using injections_placements by fastforce
qed

section \<open>A scheduled paste settles\<close>

lemma paste_fire_idle: "co_pending_at (fst (snd (paste_fire env nv st))) = None"
  by (cases st) (auto simp: paste_fire_def Let_def cancel_pending_def cancel_target_def
      split: option.splits prod.splits sum.splits)

lemma paste_schedule_pending:
  assumes "paste_schedule env nv st flavors sensitive nonce now started registered finished = Some (Inr Scheduled, c, w)"
  shows "co_pending_stage c = Some RestoreTarget \<and>
    co_pending_at c = Some (now + (finished - started) + PASTE_DELAY) \<and> co_pending_guard c \<noteq> None \<and>
    \<not> sensitive \<and> armed_content (wd_log w) = Some flavors"
  using assms
  by (cases rule: paste_copy_cases [where env = env and nv = nv and flavors = flavors and sensitive = sensitive and
        nonce = nonce and now = registered and w = "snd st" and
        c = "if co_paste (fst st) \<noteq> None then (fst st)\<lparr>co_target_ready := False\<rparr> else fst st"])
    (auto simp: paste_schedule_def Let_def instant_checked_add_def saturating_duration_since_def
      split: if_split_asm bind_splits prod.splits)

text \<open>
  A scheduled paste settles in two polls. Once \<open>schedule\<close> answered \<open>Scheduled\<close>, a poll that is due and
  another one at least the focus timeout later give exactly one result between them, whatever the operating
  system answers, and nothing stays armed: no keystroke can follow later without a new schedule.
\<close>

lemma scheduled_paste_settles:
  assumes "paste_schedule env nv st flavors sensitive nonce now started registered finished = Some (Inr Scheduled, c, w)"
    and "now + (finished - started) + PASTE_DELAY \<le> t1" and "t1 + FOCUS_CONFIRM_TIMEOUT \<le> instant_max"
    and "t1 + FOCUS_CONFIRM_TIMEOUT \<le> t2"
  shows "\<exists>r1 st1 r2 st2. paste_poll env nv (c, w) t1 = Some (r1, st1) \<and> paste_poll env nv st1 t2 = Some (r2, st2) \<and>
    (r1 = None \<longleftrightarrow> r2 \<noteq> None) \<and> co_pending_at (fst st2) = None"
proof -
  note pending = paste_schedule_pending [OF assms(1)]
  have idle: "paste_poll env nv st' t = Some (None, st')" if "co_pending_at (fst st') = None" for st' t
    using that by (cases st') (simp add: paste_poll_def)
  have settled: "\<exists>r2 st2. paste_poll env nv (c', w') t2 = Some (Some r2, st2) \<and> co_pending_at (fst st2) = None"
    if "co_pending_stage c' = Some (ConfirmTarget (t1 + FOCUS_CONFIRM_TIMEOUT))"
      and "co_pending_at c' = Some (t1 + FOCUS_CONFIRM_DELAY)" for c' w'
  proof (cases "co_paste c'")
    case None
    with that assms(4) show ?thesis
      by (simp add: paste_poll_def paste_abort_def FOCUS_CONFIRM_TIMEOUT_def FOCUS_CONFIRM_DELAY_def millis_def)
  next
    case (Some target)
    obtain r w1 where fg: "cp_target_is_foreground nv target w' = (r, w1)" by (cases "cp_target_is_foreground nv target w'")
    have due: "\<not> t2 < t1 + FOCUS_CONFIRM_DELAY" "\<not> t2 < t1 + FOCUS_CONFIRM_TIMEOUT"
      using assms(4) by (auto simp: FOCUS_CONFIRM_TIMEOUT_def FOCUS_CONFIRM_DELAY_def millis_def)
    show ?thesis
    proof (cases "r = Inr True")
      case True
      with that Some fg due paste_fire_idle [of env nv "(c', w1)"] show ?thesis
        by (auto simp: paste_poll_def split: prod.splits)
    next
      case False
      with that Some fg due show ?thesis
        by (auto simp: paste_poll_def paste_abort_def split: sum.splits bool.splits)
    qed
  qed
  have due: "\<not> t1 < now + (finished - started) + PASTE_DELAY" using assms(2) by simp
  have next_poll: "instant_checked_add t1 FOCUS_CONFIRM_TIMEOUT = Some (t1 + FOCUS_CONFIRM_TIMEOUT)"
      "instant_checked_add t1 FOCUS_CONFIRM_DELAY = Some (t1 + FOCUS_CONFIRM_DELAY)"
    using assms(3) by (auto simp: instant_checked_add_def FOCUS_CONFIRM_TIMEOUT_def FOCUS_CONFIRM_DELAY_def millis_def)
  show ?thesis
  proof (cases "\<exists>target u w1. co_paste c = Some target \<and> cp_restore_target nv target w = (Inr u, w1)")
    case True
    then obtain target u w1 where "co_paste c = Some target" "cp_restore_target nv target w = (Inr u, w1)" by blast
    moreover define c1 where "c1 = c\<lparr>co_pending_stage := Some (ConfirmTarget (t1 + FOCUS_CONFIRM_TIMEOUT)),
        co_pending_at := Some (t1 + FOCUS_CONFIRM_DELAY)\<rparr>"
    ultimately have "paste_poll env nv (c, w) t1 = Some (None, c1, w1)"
      using pending due next_poll by (simp add: paste_poll_def)
    moreover obtain r2 st2 where "paste_poll env nv (c1, w1) t2 = Some (Some r2, st2)" "co_pending_at (fst st2) = None"
      using settled [of c1 w1] by (auto simp: c1_def)
    ultimately show ?thesis by blast
  next
    case False
    have "\<exists>e w1. paste_poll env nv (c, w) t1 = Some (paste_abort e (c, w1))"
    proof (cases "co_paste c")
      case None
      with pending due show ?thesis by (auto simp: paste_poll_def)
    next
      case (Some target)
      obtain r w1 where r: "cp_restore_target nv target w = (r, w1)" by (cases "cp_restore_target nv target w")
      with False Some obtain e where "r = Inl e" by (cases r) auto
      with pending due Some r show ?thesis by (auto simp: paste_poll_def)
    qed
    then obtain e w1 where "paste_poll env nv (c, w) t1 = Some (paste_abort e (c, w1))" by blast
    moreover have "co_pending_at (fst (snd (paste_abort e (c, w1)))) = None" "fst (paste_abort e (c, w1)) \<noteq> None"
      by (simp_all add: paste_abort_def)
    ultimately show ?thesis
      using idle by (metis prod.collapse)
  qed
qed

section \<open>Witnesses\<close>

definition sample_native :: "(flavor list, nat) native" where
  "sample_native = \<lparr>nv_capture = (\<lambda>os. (Inr 7, os)), nv_restore = (\<lambda>_ os. (Inr (), os)),
     nv_foreground = (\<lambda>_ os. (Inr True, os)), nv_inject = (\<lambda>os. (Inr (), os)), nv_read = (\<lambda>os. (Inr os, os)),
     nv_place = (\<lambda>flavors _ _. (Inr (), flavors))\<rparr>"

definition sample_guard :: guard_env where
  "sample_guard = \<lparr>gu_blake3 = (\<lambda>b. b), gu_parse_url = (\<lambda>_. None)\<rparr>"

definition sample_clip :: "flavor list" where
  "sample_clip = [flavor_inline ''text/plain'' ''hi'']"

definition sample_paste :: "(flavor list, nat) paste_state" where
  "sample_paste = (coordinator_new True True self_write_default, \<lparr>wd_os = [], wd_log = []\<rparr>)"

lemma sample_fingerprint: "\<exists>p. fingerprint_from_flavors sample_guard sample_clip = Some p"
proof -
  have "as_text (flavor_inline ''text/plain'' ''hi'') = Some ''hi''"
    by (simp add: as_text_inline byte_in_def)
  then show ?thesis
    by (simp add: fingerprint_from_flavors_def sample_clip_def Let_def)
qed

lemma sample_run:
  "\<exists>c w. paste_run sample_guard sample_native sample_paste
     [PrepareTarget, ScheduleClip sample_clip False ''n'' 0 0 0 0, PollPaste (millis 120), PollPaste (millis 155)] = Some (c, w) \<and>
     wd_log w = [Injected 7, ForegroundSeen 7 True, ClipboardRead sample_clip, ForegroundSeen 7 True, RestoredTarget 7,
       Placed sample_clip PreferExclude, CapturedTarget 7]"
proof -
  obtain p where "fingerprint_from_flavors sample_guard sample_clip = Some p"
    using sample_fingerprint by blast
  then show ?thesis
    by (simp add: sample_paste_def coordinator_new_def sample_native_def prepare_target_def cp_capture_target_def
        paste_schedule_def paste_copy_def clipboard_write_def clipboard_place_def paste_poll_def cp_restore_target_def
        cp_target_is_foreground_def paste_fire_def clipboard_read_def cp_paste_def fingerprint_compare_def
        world_after_def cancel_pending_def cancel_target_def instant_checked_add_def saturating_duration_since_def
        PASTE_DELAY_def FOCUS_CONFIRM_DELAY_def FOCUS_CONFIRM_TIMEOUT_def millis_def instant_max_def Let_def)
qed

lemma paste_is_guarded_witness:
  "\<exists>c w. paste_run sample_guard sample_native sample_paste
     [PrepareTarget, ScheduleClip sample_clip False ''n'' 0 0 0 0, PollPaste (millis 120), PollPaste (millis 155)] = Some (c, w) \<and>
     injections (wd_log w) = 1 \<and> paste_log_ok sample_guard (wd_log w)"
proof -
  obtain c w where run: "paste_run sample_guard sample_native sample_paste
     [PrepareTarget, ScheduleClip sample_clip False ''n'' 0 0 0 0, PollPaste (millis 120), PollPaste (millis 155)] = Some (c, w)"
    "wd_log w = [Injected 7, ForegroundSeen 7 True, ClipboardRead sample_clip, ForegroundSeen 7 True, RestoredTarget 7,
       Placed sample_clip PreferExclude, CapturedTarget 7]"
    using sample_run by blast
  show ?thesis
    using paste_is_guarded [OF run(1) [unfolded sample_paste_def]] run by (auto simp: sample_paste_def)
qed

lemma scheduled_paste_settles_witness:
  "\<exists>c w r1 st1 r2 st2.
     paste_schedule sample_guard sample_native (snd (prepare_target sample_native sample_paste)) sample_clip False ''n'' 0 0 0 0
       = Some (Inr Scheduled, c, w) \<and>
     paste_poll sample_guard sample_native (c, w) (secs 1) = Some (r1, st1) \<and>
     paste_poll sample_guard sample_native st1 (secs 2) = Some (r2, st2) \<and> co_pending_at (fst st2) = None"
proof -
  obtain p where "fingerprint_from_flavors sample_guard sample_clip = Some p"
    using sample_fingerprint by blast
  then obtain c w where "paste_schedule sample_guard sample_native (snd (prepare_target sample_native sample_paste))
      sample_clip False ''n'' 0 0 0 0 = Some (Inr Scheduled, c, w)"
    by (simp add: sample_paste_def coordinator_new_def sample_native_def prepare_target_def cp_capture_target_def
        paste_schedule_def paste_copy_def clipboard_write_def clipboard_place_def world_after_def cancel_pending_def
        instant_checked_add_def saturating_duration_since_def PASTE_DELAY_def millis_def instant_max_def Let_def)
  moreover from scheduled_paste_settles [OF this, of "secs 1" "secs 2"]
  have "\<exists>r1 st1 r2 st2. paste_poll sample_guard sample_native (c, w) (secs 1) = Some (r1, st1) \<and>
     paste_poll sample_guard sample_native st1 (secs 2) = Some (r2, st2) \<and> co_pending_at (fst st2) = None"
    by (auto simp: PASTE_DELAY_def FOCUS_CONFIRM_TIMEOUT_def millis_def secs_def instant_max_def)
  ultimately show ?thesis by blast
qed

end
