(* ===== verification/Reliability.thy ===== *)
theory Reliability
  imports Clip_Types "HOL-Library.Multiset"
begin

text \<open>
  The reliability policies of the capture path, \<open>crates/vbuff-core/src/reliability.rs\<close>: the supervisor that
  escalates failures, the accounting of queued bytes, the text preview of shed payloads, the response to memory
  pressure and the ring of forensic events. \<open>usize\<close> has 64 bits.
\<close>

section \<open>The supervisor\<close>

datatype recovery_action = NoRecovery | Resubscribe | RestartBackend | EnterDegradedMode duration

datatype supervisor_observation = Healthy | SubscriptionLost | BackendFailed | RecoverySucceeded

record capture_supervisor =
  su_resubscribe_limit :: u8
  su_restart_limit :: u8
  su_failures :: u8
  su_restarts :: u8
  su_degraded_retry :: duration

definition supervisor_new :: "u8 \<Rightarrow> u8 \<Rightarrow> duration \<Rightarrow> capture_supervisor" where
  "supervisor_new resubscribe_limit restart_limit degraded_retry =
     \<lparr>su_resubscribe_limit = max resubscribe_limit 1, su_restart_limit = max restart_limit 1, su_failures = 0,
      su_restarts = 0, su_degraded_retry = max degraded_retry (secs 1)\<rparr>"

definition request_restart :: "capture_supervisor \<Rightarrow> recovery_action \<times> capture_supervisor" where
  "request_restart s =
     (let s1 = s\<lparr>su_restarts := saturating_add (su_restarts s) 1\<rparr> in
      if su_restarts s1 \<le> su_restart_limit s1 then (RestartBackend, s1)
      else (EnterDegradedMode (su_degraded_retry s1), s1\<lparr>su_restarts := 0\<rparr>))"

fun supervisor_observe ::
  "capture_supervisor \<Rightarrow> supervisor_observation \<Rightarrow> recovery_action \<times> capture_supervisor" where
  "supervisor_observe s SubscriptionLost =
     (let s1 = s\<lparr>su_failures := saturating_add (su_failures s) 1\<rparr> in
      if su_failures s1 \<le> su_resubscribe_limit s1 then (Resubscribe, s1)
      else request_restart (s1\<lparr>su_failures := 0\<rparr>))"
| "supervisor_observe s BackendFailed = request_restart s"
| "supervisor_observe s _ = (NoRecovery, s\<lparr>su_failures := 0, su_restarts := 0\<rparr>)"

definition supervisor_default :: capture_supervisor where
  "supervisor_default = supervisor_new 2 2 (secs 30)"

section \<open>Accounting of queued bytes\<close>

type_synonym usize = nat

definition usize_max :: usize where
  "usize_max = 2 ^ 64 - 1"

definition usize_add :: "usize \<Rightarrow> usize \<Rightarrow> usize" where
  "usize_add a b = min (a + b) usize_max"

datatype admission = AdmitFull | AdmitPreview usize | AdmitShed

record byte_backpressure =
  bp_soft_bytes :: usize
  bp_hard_bytes :: usize
  bp_max_items :: usize
  bp_preview_bytes :: usize
  bp_queued_bytes :: usize
  bp_queued_items :: usize

definition backpressure_new :: "usize \<Rightarrow> usize \<Rightarrow> usize \<Rightarrow> usize \<Rightarrow> byte_backpressure" where
  "backpressure_new soft hard max_items preview =
     \<lparr>bp_soft_bytes = max soft 1, bp_hard_bytes = max hard (max soft 1), bp_max_items = max max_items 1,
      bp_preview_bytes = max preview 1, bp_queued_bytes = 0, bp_queued_items = 0\<rparr>"

fun accounted :: "usize \<Rightarrow> admission \<Rightarrow> usize" where
  "accounted payload AdmitFull = payload"
| "accounted payload (AdmitPreview max_bytes) = max_bytes"
| "accounted payload AdmitShed = 0"

definition backpressure_admit :: "byte_backpressure \<Rightarrow> usize \<Rightarrow> admission \<times> byte_backpressure" where
  "backpressure_admit b payload =
     (if bp_max_items b \<le> bp_queued_items b \<or> bp_hard_bytes b < usize_add (bp_queued_bytes b) payload
      then (AdmitShed, b)
      else (let admission = (if bp_soft_bytes b < usize_add (bp_queued_bytes b) payload
                             then AdmitPreview (min (bp_preview_bytes b) payload) else AdmitFull) in
        (admission, b\<lparr>bp_queued_bytes := usize_add (bp_queued_bytes b) (accounted payload admission),
                      bp_queued_items := usize_add (bp_queued_items b) 1\<rparr>)))"

definition backpressure_release :: "byte_backpressure \<Rightarrow> usize \<Rightarrow> byte_backpressure" where
  "backpressure_release b n = b\<lparr>bp_queued_bytes := bp_queued_bytes b - n, bp_queued_items := bp_queued_items b - 1\<rparr>"

definition update_limits :: "byte_backpressure \<Rightarrow> usize \<Rightarrow> usize \<Rightarrow> usize \<Rightarrow> bool \<times> byte_backpressure" where
  "update_limits b soft hard preview =
     (if bp_queued_items b \<noteq> 0 then (False, b)
      else (True, b\<lparr>bp_soft_bytes := max soft 1, bp_hard_bytes := max hard (max soft 1),
                    bp_preview_bytes := max preview 1\<rparr>))"

section \<open>Previews of shed payloads\<close>

text \<open>\<open>str::is_char_boundary\<close>: an end of the string, or a byte that does not continue a character.\<close>

definition is_char_boundary :: "string \<Rightarrow> nat \<Rightarrow> bool" where
  "is_char_boundary s i \<longleftrightarrow> i = 0 \<or> i = length s \<or> (i < length s \<and> \<not> byte_in 128 191 (s ! i))"

fun floor_boundary :: "string \<Rightarrow> nat \<Rightarrow> nat" where
  "floor_boundary s 0 = 0"
| "floor_boundary s (Suc i) = (if is_char_boundary s (Suc i) then Suc i else floor_boundary s i)"

definition shed_to_text_preview :: "flavor list \<Rightarrow> usize \<Rightarrow> flavor list option" where
  "shed_to_text_preview flavors max_bytes =
     Option.bind (Option.bind (find (\<lambda>f. is_text f \<and> as_text f \<noteq> None) flavors) as_text) (\<lambda>text.
       Some [flavor_derived ''text/plain;charset=utf-8''
         (take (floor_boundary text (min (length text) (max max_bytes 1))) text)])"

section \<open>Memory pressure\<close>

datatype memory_pressure = NormalPressure | ElevatedPressure | CriticalPressure

record memory_response =
  mr_thumbnail_budget_bytes :: usize
  mr_hot_history_limit :: usize
  mr_defer_background_work :: bool
  mr_reject_large_capture_bytes :: "usize option"

record memory_pressure_policy =
  mp_normal_thumbnail_bytes :: usize
  mp_normal_hot_history :: usize
  mp_large_capture_bytes :: usize

definition memory_policy_new :: "usize \<Rightarrow> usize \<Rightarrow> usize \<Rightarrow> memory_pressure_policy" where
  "memory_policy_new thumbnails hot_history large = \<lparr>mp_normal_thumbnail_bytes = max thumbnails 1,
     mp_normal_hot_history = max hot_history 1, mp_large_capture_bytes = max large 1\<rparr>"

fun memory_response_of :: "memory_pressure_policy \<Rightarrow> memory_pressure \<Rightarrow> memory_response" where
  "memory_response_of p NormalPressure = \<lparr>mr_thumbnail_budget_bytes = mp_normal_thumbnail_bytes p,
     mr_hot_history_limit = mp_normal_hot_history p, mr_defer_background_work = False,
     mr_reject_large_capture_bytes = None\<rparr>"
| "memory_response_of p ElevatedPressure = \<lparr>mr_thumbnail_budget_bytes = mp_normal_thumbnail_bytes p div 2,
     mr_hot_history_limit = max (mp_normal_hot_history p div 2) 1, mr_defer_background_work = True,
     mr_reject_large_capture_bytes = Some (mp_large_capture_bytes p)\<rparr>"
| "memory_response_of p CriticalPressure = \<lparr>mr_thumbnail_budget_bytes = 0,
     mr_hot_history_limit = max (mp_normal_hot_history p div 4) 1, mr_defer_background_work = True,
     mr_reject_large_capture_bytes = Some (mp_large_capture_bytes p div 2)\<rparr>"

section \<open>Forensic events\<close>

record forensic_event =
  fe_observed_at :: instant
  fe_generation :: "u64 option"
  fe_flavor_count :: u16
  fe_total_bytes :: u64
  fe_coherence :: generation_coherence

record forensic_ring =
  fr_capacity :: nat
  fr_entries :: "forensic_event list"

definition forensic_new :: "nat \<Rightarrow> forensic_ring" where
  "forensic_new capacity = \<lparr>fr_capacity = max capacity 1, fr_entries = []\<rparr>"

definition forensic_push :: "forensic_ring \<Rightarrow> forensic_event \<Rightarrow> forensic_ring" where
  "forensic_push r e = r\<lparr>fr_entries :=
     (if length (fr_entries r) = fr_capacity r then tl (fr_entries r) else fr_entries r) @ [e]\<rparr>"

section \<open>Escalation of failures\<close>

fun is_failure :: "supervisor_observation \<Rightarrow> bool" where
  "is_failure SubscriptionLost = True"
| "is_failure BackendFailed = True"
| "is_failure _ = False"

fun supervisor_actions :: "capture_supervisor \<Rightarrow> supervisor_observation list \<Rightarrow> recovery_action list" where
  "supervisor_actions s [] = []"
| "supervisor_actions s (ob # obs) = (case supervisor_observe s ob of (a, s') \<Rightarrow> a # supervisor_actions s' obs)"

definition supervisor_step :: "capture_supervisor \<Rightarrow> supervisor_observation \<Rightarrow> capture_supervisor" where
  "supervisor_step s ob = snd (supervisor_observe s ob)"

text \<open>The counters stay within limits that a \<open>u8\<close> can exceed by one.\<close>

definition supervisor_ok :: "u8 \<Rightarrow> u8 \<Rightarrow> duration \<Rightarrow> capture_supervisor \<Rightarrow> bool" where
  "supervisor_ok l r retry s \<longleftrightarrow> su_resubscribe_limit s = l \<and> su_restart_limit s = r \<and> su_degraded_retry s = retry \<and>
     unat (su_failures s) \<le> unat l \<and> unat (su_restarts s) \<le> unat r \<and> unat l < 255 \<and> unat r < 255"

text \<open>
  How many further failures the supervisor absorbs before it enters the degraded mode, from \<open>f\<close> failures and
  \<open>t\<close> restarts under the limits \<open>l\<close> and \<open>r\<close>.
\<close>

definition patience_of :: "nat \<Rightarrow> nat \<Rightarrow> nat \<Rightarrow> nat \<Rightarrow> nat" where
  "patience_of l r f t = (r - t) * Suc l + (l - f)"

definition patience :: "capture_supervisor \<Rightarrow> nat" where
  "patience s = patience_of (unat (su_resubscribe_limit s)) (unat (su_restart_limit s))
     (unat (su_failures s)) (unat (su_restarts s))"

lemma patience_of_restart: "t < r \<Longrightarrow> patience_of l r f t = patience_of l r f (Suc t) + Suc l"
  by (simp add: patience_of_def Suc_diff_Suc [symmetric])

lemma patience_of_resubscribe: "f < l \<Longrightarrow> patience_of l r f t = Suc (patience_of l r (Suc f) t)"
  by (simp add: patience_of_def)

lemma patience_of_bounds: "patience_of l r 0 t \<le> patience_of l r f t + l" "patience_of l r f t < Suc l * Suc r"
proof -
  have "(r - t) * Suc l \<le> r * Suc l" by (intro mult_le_mono) simp_all
  then have "patience_of l r f t \<le> r * Suc l + l" unfolding patience_of_def by (intro add_mono) simp_all
  then show "patience_of l r f t < Suc l * Suc r" by (simp add: algebra_simps)
qed (simp add: patience_of_def)

lemma saturating_succ:
  fixes n m :: u8
  shows "unat n < 255 \<Longrightarrow> unat (saturating_add n 1) = Suc (unat n)"
    and "unat m < 255 \<Longrightarrow> saturating_add n 1 \<le> m \<longleftrightarrow> unat n < unat m"
  unfolding word_le_nat_alt by (auto simp: unat_saturating_add min_def)

lemma request_restart_cases:
  assumes ok: "supervisor_ok l r retry s"
  obtains (restart) s' where "request_restart s = (RestartBackend, s')" and "supervisor_ok l r retry s'"
      and "patience s = patience s' + Suc (unat l)"
  | (degraded) s' where "request_restart s = (EnterDegradedMode retry, s')" and "supervisor_ok l r retry s'"
proof (cases "unat (su_restarts s) < unat r")
  case True
  with ok have p: "patience s = patience (s\<lparr>su_restarts := saturating_add (su_restarts s) 1\<rparr>) + Suc (unat l)"
    by (simp add: patience_def supervisor_ok_def saturating_succ patience_of_restart)
  show thesis
    by (rule restart [OF _ _ p]) (use True ok in \<open>auto simp: request_restart_def supervisor_ok_def Let_def saturating_succ\<close>)
next
  case False
  with ok show thesis
    by (intro degraded) (auto simp: request_restart_def supervisor_ok_def Let_def saturating_succ)
qed

lemma supervisor_failure_cases:
  assumes ok: "supervisor_ok l r retry s" and "is_failure ob"
  obtains a s' where "supervisor_observe s ob = (a, s')" and "supervisor_ok l r retry s'"
    and "a = EnterDegradedMode retry \<or> patience s' < patience s"
proof (cases ob)
  case BackendFailed
  with that show thesis by (cases rule: request_restart_cases [OF ok]) auto
next
  case SubscriptionLost
  show thesis
  proof (cases "unat (su_failures s) < unat l")
    case True
    let ?t = "s\<lparr>su_failures := saturating_add (su_failures s) 1\<rparr>"
    have "supervisor_observe s ob = (Resubscribe, ?t)" "supervisor_ok l r retry ?t" "patience ?t < patience s"
      using True ok SubscriptionLost
      by (auto simp: supervisor_ok_def patience_def patience_of_resubscribe saturating_succ Let_def)
    with that show thesis by blast
  next
    case False
    let ?t = "s\<lparr>su_failures := 0\<rparr>"
    have t: "supervisor_ok l r retry ?t" and "supervisor_observe s ob = request_restart ?t"
      and "patience ?t \<le> patience s + unat l"
      using False ok SubscriptionLost patience_of_bounds(1)
      by (auto simp: supervisor_ok_def patience_def saturating_succ Let_def)
    with that show thesis by (cases rule: request_restart_cases [OF t]) fastforce+
  qed
qed (use assms in auto)

lemma supervisor_new_ok:
  assumes "unat l < 255" and "unat r < 255"
  shows "supervisor_ok (max l 1) (max r 1) (max retry (secs 1)) (supervisor_new l r retry)"
  using assms by (auto simp: supervisor_ok_def supervisor_new_def max_def)

lemma supervisor_step_ok:
  assumes ok: "supervisor_ok l r retry s"
  shows "supervisor_ok l r retry (supervisor_step s ob)"
proof (cases "is_failure ob")
  case True
  with ok obtain a s' where "supervisor_observe s ob = (a, s')" "supervisor_ok l r retry s'"
    by (rule supervisor_failure_cases)
  then show ?thesis by (simp add: supervisor_step_def)
next
  case False
  with ok show ?thesis by (cases ob) (auto simp: supervisor_step_def supervisor_ok_def)
qed

interpretation supervision: machine supervisor_step "supervisor_ok l r retry" for l r retry
  by unfold_locales (rule supervisor_step_ok)

lemma failures_exhaust:
  "supervisor_ok l r retry s \<Longrightarrow> list_all is_failure obs \<Longrightarrow> patience s < length obs \<Longrightarrow>
     EnterDegradedMode retry \<in> set (supervisor_actions s obs)"
proof (induction obs arbitrary: s)
  case (Cons ob obs)
  then have "is_failure ob" by simp
  with Cons.prems(1) obtain a s' where "supervisor_observe s ob = (a, s')" "supervisor_ok l r retry s'"
    "a = EnterDegradedMode retry \<or> patience s' < patience s"
    by (rule supervisor_failure_cases)
  with Cons show ?case by auto
qed simp

text \<open>
  C24. The supervisor never retries for ever at the same level. After any history of observations of a new
  supervisor whose limits are below 255, a number of consecutive failures of (resubscriptions + 1) times
  (restarts + 1) brings the degraded mode at least once, with the configured pause and never less than a second;
  and a success at any moment gives the full number of attempts back.
\<close>

theorem failures_escalate:
  assumes "unat l < 255" and "unat r < 255" and "list_all is_failure failures"
    and "length failures = Suc (unat (max l 1)) * Suc (unat (max r 1))"
    and s: "s = run supervisor_step (supervisor_new l r retry) history"
  shows "EnterDegradedMode (max retry (secs 1)) \<in> set (supervisor_actions s failures) \<and>
    supervisor_observe s Healthy = (NoRecovery, supervisor_new l r retry) \<and>
    supervisor_observe s RecoverySucceeded = (NoRecovery, supervisor_new l r retry)"
proof -
  have ok: "supervisor_ok (max l 1) (max r 1) (max retry (secs 1)) s"
    unfolding s by (rule supervision.inv_run [OF supervisor_new_ok [OF assms(1,2)]])
  have "patience s < length failures"
    using ok patience_of_bounds(2) unfolding assms(4) patience_def supervisor_ok_def by metis
  from failures_exhaust [OF ok assms(3) this] show ?thesis
    using ok by (auto simp: supervisor_ok_def supervisor_new_def intro!: capture_supervisor.equality)
qed

section \<open>The queue holds what it counts\<close>

text \<open>
  The abstract queue is the multiset of the payload sizes that were admitted and not yet released. A caller
  releases a size it was admitted with; limits can only be changed while nothing is queued.
\<close>

datatype queue_op = Admit usize | Release usize | SetLimits usize usize usize

type_synonym queue_state = "byte_backpressure \<times> usize multiset"

fun queue_step :: "queue_state \<Rightarrow> queue_op \<Rightarrow> queue_state" where
  "queue_step (b, q) (Admit n) = (case backpressure_admit b n of
     (AdmitShed, b') \<Rightarrow> (b', q) | (a, b') \<Rightarrow> (b', add_mset (accounted n a) q))"
| "queue_step (b, q) (Release n) = (if n \<in># q then (backpressure_release b n, q - {#n#}) else (b, q))"
| "queue_step (b, q) (SetLimits soft hard preview) = (snd (update_limits b soft hard preview), q)"

definition backpressure_ok :: "byte_backpressure \<Rightarrow> bool" where
  "backpressure_ok b \<longleftrightarrow> bp_soft_bytes b \<le> bp_hard_bytes b \<and> bp_hard_bytes b < usize_max \<and> bp_max_items b \<le> usize_max"

fun queue_ok :: "queue_state \<Rightarrow> bool" where
  "queue_ok (b, q) \<longleftrightarrow> backpressure_ok b \<and> bp_queued_bytes b = sum_mset q \<and> bp_queued_items b = size q \<and>
     sum_mset q \<le> bp_hard_bytes b \<and> size q \<le> bp_max_items b"

fun queue_op_ok :: "queue_op \<Rightarrow> bool" where
  "queue_op_ok (SetLimits soft hard preview) \<longleftrightarrow> soft < usize_max \<and> hard < usize_max"
| "queue_op_ok _ \<longleftrightarrow> True"

lemma usize_add_le: "h < usize_max \<Longrightarrow> (h < usize_add a b) = (h < a + b)"
  and usize_add_eq: "a + b \<le> usize_max \<Longrightarrow> usize_add a b = a + b"
  by (auto simp: usize_add_def)

text \<open>The decision of \<open>admit\<close>, written over the abstract queue.\<close>

definition admission_spec :: "byte_backpressure \<Rightarrow> usize multiset \<Rightarrow> usize \<Rightarrow> admission" where
  "admission_spec b q n =
     (if size q = bp_max_items b \<or> bp_hard_bytes b < sum_mset q + n then AdmitShed
      else if sum_mset q + n \<le> bp_soft_bytes b then AdmitFull
      else AdmitPreview (min (bp_preview_bytes b) n))"

lemma admit_refines:
  assumes "queue_ok (b, q)"
  shows "fst (backpressure_admit b n) = admission_spec b q n" and
    "queue_ok (queue_step (b, q) (Admit n))"
proof -
  let ?a = "fst (backpressure_admit b n)"
  from assms show a: "?a = admission_spec b q n"
    by (auto simp: backpressure_admit_def admission_spec_def backpressure_ok_def usize_add_le Let_def)
  show "queue_ok (queue_step (b, q) (Admit n))"
  proof (cases "?a = AdmitShed")
    case True
    then show ?thesis using assms by (auto simp: backpressure_admit_def Let_def split: if_splits)
  next
    case False
    with a have le: "accounted n ?a \<le> n" "sum_mset q + n \<le> bp_hard_bytes b" "size q < bp_max_items b"
      using assms by (auto simp: admission_spec_def split: if_splits)
    have b': "snd (backpressure_admit b n) = b\<lparr>bp_queued_bytes := usize_add (bp_queued_bytes b) (accounted n ?a),
        bp_queued_items := usize_add (bp_queued_items b) 1\<rparr>"
      using False by (auto simp: backpressure_admit_def Let_def split: if_splits)
    have "queue_step (b, q) (Admit n) = (snd (backpressure_admit b n), add_mset (accounted n ?a) q)"
      using False by (cases "backpressure_admit b n"; cases ?a) auto
    moreover have "usize_add (sum_mset q) (accounted n ?a) = sum_mset q + accounted n ?a"
      "usize_add (size q) 1 = Suc (size q)"
      using le assms by (auto simp: backpressure_ok_def usize_add_def)
    ultimately show ?thesis using le assms by (auto simp: b' backpressure_ok_def)
  qed
qed

lemma release_refines: "queue_ok (b, q) \<Longrightarrow> queue_ok (queue_step (b, q) (Release n))"
  by (auto simp: backpressure_release_def backpressure_ok_def sum_mset_diff size_Diff_singleton dest!: multi_member_split)

lemma limits_refine: "queue_ok (b, q) \<Longrightarrow> queue_op_ok (SetLimits soft hard preview) \<Longrightarrow>
    queue_ok (queue_step (b, q) (SetLimits soft hard preview))"
  by (auto simp: update_limits_def backpressure_ok_def max_def usize_max_def)

lemma queue_step_ok: "queue_ok s \<Longrightarrow> queue_op_ok x \<Longrightarrow> queue_ok (queue_step s x)"
  by (cases s; cases x)
     (auto simp: admit_refines release_refines limits_refine simp del: queue_step.simps queue_ok.simps)

lemma queue_run_ok: "queue_ok s \<Longrightarrow> list_all queue_op_ok ops \<Longrightarrow> queue_ok (run queue_step s ops)"
  by (induction ops arbitrary: s) (auto simp: queue_step_ok simp del: queue_ok.simps)

text \<open>
  C25. The byte accounting refines a multiset of queued payloads. Along every sequence of admissions, releases of
  admitted sizes and changes of the limits (below the greatest \<open>usize\<close>), the two counters are exactly the sum
  and the number of the queued sizes and within the hard limit and the item limit; and each admission is the one
  the abstract queue asks for: shed when full, a preview above the soft limit, everything otherwise. No saturation
  of the counters is visible.
\<close>

theorem backpressure_refines_queue:
  assumes "soft < usize_max" and "hard < usize_max" and "items \<le> usize_max" and "list_all queue_op_ok ops"
    and "run queue_step (backpressure_new soft hard items preview, {#}) ops = (b, q)"
  shows "bp_queued_bytes b = sum_mset q \<and> bp_queued_items b = size q \<and> sum_mset q \<le> bp_hard_bytes b \<and>
    size q \<le> bp_max_items b \<and> fst (backpressure_admit b n) = admission_spec b q n"
proof -
  have "queue_ok (backpressure_new soft hard items preview, {#})"
    using assms(1,2,3) by (auto simp: backpressure_new_def backpressure_ok_def max_def usize_max_def)
  then have "queue_ok (b, q)" using queue_run_ok assms(4,5) by metis
  then show ?thesis using admit_refines(1) by auto
qed

section \<open>Previews are text\<close>

lemma utf8_first:
  assumes "utf8_valid (b # bs)"
  obtains w where "0 < w" and "w \<le> 4" and "w \<le> Suc (length bs)" and "\<not> byte_in 128 191 b"
    and "\<forall>j < w. 0 < j \<longrightarrow> byte_in 128 191 ((b # bs) ! j)"
    and "\<forall>t. utf8_valid (take w (b # bs) @ t) \<longleftrightarrow> utf8_valid t"
proof -
  have cont: "byte_in (if P then 160 else 128) (if Q then 159 else 191) c \<Longrightarrow> byte_in 128 191 c"
    "byte_in (if P then 144 else 128) (if Q then 143 else 191) c \<Longrightarrow> byte_in 128 191 c" for P Q c
    by (auto simp: byte_in_def split: if_splits)
  consider "byte_in 0 127 b" | "byte_in 194 223 b" | "byte_in 224 239 b" | "byte_in 240 244 b"
    using assms by (auto split: if_splits)
  then show thesis
  proof cases
    case 1
    then show thesis using assms by (intro that [of 1]) (auto simp: byte_in_def)
  next
    case 2
    then have "\<not> byte_in 0 127 b" by (auto simp: byte_in_def)
    with 2 assms obtain c r where "bs = c # r" and "byte_in 128 191 c"
      by (auto split: list.splits)
    with 2 show thesis by (intro that [of 2]) (auto simp: byte_in_def less_Suc_eq numeral_2_eq_2)
  next
    case 3
    then have n: "\<not> byte_in 0 127 b" "\<not> byte_in 194 223 b" by (auto simp: byte_in_def)
    with 3 assms obtain c d r where bs: "bs = c # d # r" and "byte_in 128 191 d" and
      c: "byte_in (if of_char b = (224::nat) then 160 else 128) (if of_char b = (237::nat) then 159 else 191) c"
      by (auto split: list.splits)
    with 3 n cont(1) [OF c] show thesis
      by (intro that [of 3]) (auto simp: less_Suc_eq numeral_3_eq_3, auto simp: byte_in_def)
  next
    case 4
    then have n: "\<not> byte_in 0 127 b" "\<not> byte_in 194 223 b" "\<not> byte_in 224 239 b" by (auto simp: byte_in_def)
    with 4 assms obtain c d e r where bs: "bs = c # d # e # r" and "byte_in 128 191 d" "byte_in 128 191 e" and
      c: "byte_in (if of_char b = (240::nat) then 144 else 128) (if of_char b = (244::nat) then 143 else 191) c"
      by (auto split: list.splits)
    with 4 n cont(2) [OF c] show thesis
      by (intro that [of 4]) (auto simp: less_Suc_eq eval_nat_numeral, auto simp: byte_in_def)
  qed
qed

lemma utf8_head: "utf8_valid s \<Longrightarrow> s \<noteq> [] \<Longrightarrow> \<not> byte_in 128 191 (hd s)"
  by (cases s) (auto elim!: utf8_first simp del: utf8_valid.simps)

text \<open>A valid text can be cut at a boundary, and a boundary is never more than three bytes away.\<close>

lemma utf8_boundary:
  "utf8_valid s \<Longrightarrow> i \<le> length s \<Longrightarrow>
    (is_char_boundary s i \<longrightarrow> utf8_valid (take i s)) \<and> (\<exists>j \<le> i. i \<le> j + 3 \<and> is_char_boundary s j)"
proof (induction "length s" arbitrary: s i rule: less_induct)
  case less
  show ?case
  proof (cases s)
    case Nil
    then show ?thesis using less.prems by (simp add: is_char_boundary_def)
  next
    case (Cons b bs)
    with less.prems(1) have "utf8_valid (b # bs)" by simp
    then obtain w where w: "0 < w" "w \<le> 4" "w \<le> Suc (length bs)" "\<not> byte_in 128 191 b"
      "\<forall>j < w. 0 < j \<longrightarrow> byte_in 128 191 ((b # bs) ! j)"
      "\<forall>t. utf8_valid (take w (b # bs) @ t) \<longleftrightarrow> utf8_valid t"
      by (rule utf8_first) blast
    have valid: "utf8_valid (drop w s)" using w(6) less.prems(1) Cons by (metis append_take_drop_id)
    show ?thesis
    proof (cases "i < w")
      case True
      then have "0 < i \<longrightarrow> byte_in 128 191 (s ! i)" using w(5) unfolding Cons by blast
      moreover have "i < length s" using True w(3) Cons by simp
      ultimately have "is_char_boundary s i \<longrightarrow> i = 0" unfolding is_char_boundary_def by linarith
      moreover have "i \<le> 0 + 3" using True w(2) by simp
      moreover have "is_char_boundary s 0" by (simp add: is_char_boundary_def)
      ultimately show ?thesis by auto
    next
      case False
      let ?r = "drop w s"
      have "length ?r < length s" "i - w \<le> length ?r" using w(1) less.prems(2) Cons False by auto
      from less.hyps [OF this(1) valid this(2)]
      obtain j where j: "j \<le> i - w" "i - w \<le> j + 3" "is_char_boundary ?r j"
        and cut: "is_char_boundary ?r (i - w) \<longrightarrow> utf8_valid (take (i - w) ?r)" by blast
      have "take i s = take w (b # bs) @ take (i - w) ?r"
        using False Cons by (metis append_take_drop_id le_add_diff_inverse linorder_not_less take_add)
      moreover have "is_char_boundary s i \<Longrightarrow> is_char_boundary ?r (i - w)"
        using False less.prems(2) w(1) Cons by (auto simp: is_char_boundary_def)
      moreover have "is_char_boundary s (j + w)"
      proof (cases "w < length s")
        case True
        with utf8_head [OF valid] have "\<not> byte_in 128 191 (s ! w)" by (simp add: hd_drop_conv_nth)
        with True j(3) show ?thesis by (auto simp: is_char_boundary_def add.commute)
      next
        case False
        with j(1) less.prems(2) w(3) Cons have "j + w = length s" by simp
        then show ?thesis by (simp add: is_char_boundary_def)
      qed
      ultimately show ?thesis using cut w(6) j False
        by (intro conjI impI exI [of _ "j + w"]) auto
    qed
  qed
qed

lemma floor_boundary_spec:
  "floor_boundary s n \<le> n" "is_char_boundary s (floor_boundary s n)"
  "is_char_boundary s j \<Longrightarrow> j \<le> n \<Longrightarrow> j \<le> floor_boundary s n"
  by (induction n) (auto simp: is_char_boundary_def le_Suc_eq)

text \<open>
  A shed payload is kept as text and nothing else. The preview is there exactly when the payload has an inline
  text representation; it is one flavor marked as derived, whose content is well-formed UTF-8, a prefix of the first
  such representation, never longer than the limit (with one byte as the least limit), the whole text when it
  fits, and otherwise shorter than the limit by at most three bytes.
\<close>

lemma preview_is_text_prefix:
  "(shed_to_text_preview flavors n = None \<longleftrightarrow> (\<forall>f \<in> set flavors. is_text f \<longrightarrow> as_text f = None)) \<and>
   (shed_to_text_preview flavors n = Some preview \<longrightarrow>
     (\<exists>f \<in> set flavors. \<exists>whole p. is_text f \<and> as_text f = Some whole \<and>
        preview = [flavor_derived ''text/plain;charset=utf-8'' p] \<and> utf8_valid p \<and> p = take (length p) whole \<and>
        length p \<le> max n 1 \<and> (length whole \<le> max n 1 \<longrightarrow> p = whole) \<and>
        (max n 1 < length whole \<longrightarrow> max n 1 \<le> length p + 3)))"
proof (intro conjI impI)
  let ?P = "\<lambda>f. is_text f \<and> as_text f \<noteq> None"
  have "find ?P flavors = Some f \<Longrightarrow> as_text f \<noteq> None" for f by (auto simp: find_Some_iff)
  then show "shed_to_text_preview flavors n = None \<longleftrightarrow> (\<forall>f \<in> set flavors. is_text f \<longrightarrow> as_text f = None)"
    using find_None_iff [of ?P flavors]
    by (cases "find ?P flavors") (auto simp: shed_to_text_preview_def)
next
  assume some: "shed_to_text_preview flavors n = Some preview"
  then obtain f whole where f: "find (\<lambda>f. is_text f \<and> as_text f \<noteq> None) flavors = Some f" "as_text f = Some whole"
    and p: "preview = [flavor_derived ''text/plain;charset=utf-8''
      (take (floor_boundary whole (min (length whole) (max n 1))) whole)]"
    by (auto simp: shed_to_text_preview_def bind_eq_Some_conv)
  let ?m = "min (length whole) (max n 1)"
  let ?k = "floor_boundary whole ?m"
  have mem: "f \<in> set flavors" "is_text f" using f(1) by (auto simp: find_Some_iff)
  have valid: "utf8_valid whole" using f(2) by (auto simp: as_text_def split: option.splits if_splits)
  have k: "?k \<le> ?m" "is_char_boundary whole ?k" by (rule floor_boundary_spec)+
  obtain j where "j \<le> ?m" "?m \<le> j + 3" "is_char_boundary whole j"
    using utf8_boundary [OF valid, of ?m] by auto
  then have near: "?m \<le> ?k + 3" using floor_boundary_spec(3) [of whole j ?m] by linarith
  have all: "length whole \<le> max n 1 \<Longrightarrow> ?k = length whole"
    using floor_boundary_spec(3) [of whole "length whole" ?m] k(1) by (simp add: is_char_boundary_def)
  have "utf8_valid (take ?k whole)" using utf8_boundary [OF valid, of ?k] k by simp
  with f(2) mem p k(1) near all show "\<exists>f \<in> set flavors. \<exists>whole p. is_text f \<and> as_text f = Some whole \<and>
      preview = [flavor_derived ''text/plain;charset=utf-8'' p] \<and> utf8_valid p \<and> p = take (length p) whole \<and>
      length p \<le> max n 1 \<and> (length whole \<le> max n 1 \<longrightarrow> p = whole) \<and>
      (max n 1 < length whole \<longrightarrow> max n 1 \<le> length p + 3)"
    by (intro bexI [of _ f] exI [of _ whole] exI [of _ "take ?k whole"]) (auto simp: min_def split: if_splits)
qed

section \<open>The hypotheses hold on concrete inputs\<close>

theorem failures_escalate_witness:
  "EnterDegradedMode (max (secs 30) (secs 1)) \<in>
     set (supervisor_actions (run supervisor_step (supervisor_new 2 1 (secs 30)) [BackendFailed, Healthy])
       [SubscriptionLost, SubscriptionLost, SubscriptionLost, BackendFailed, SubscriptionLost, SubscriptionLost])"
  by (rule failures_escalate [of 2 1 _ _ "secs 30" "[BackendFailed, Healthy]", THEN conjunct1]) simp_all

theorem backpressure_refines_queue_witness:
  "bp_queued_bytes (fst (run queue_step (backpressure_new 100 200 3 20, {#}) [Admit 90, Admit 80, Release 90]))
     = sum_mset (snd (run queue_step (backpressure_new 100 200 3 20, {#}) [Admit 90, Admit 80, Release 90]))"
  by (rule backpressure_refines_queue [of 100 200 3 "[Admit 90, Admit 80, Release 90]" 20, THEN conjunct1])
     (simp_all add: usize_max_def)

lemma preview_is_text_prefix_witness:
  "\<exists>p. shed_to_text_preview [flavor_inline ''text/plain'' ''hello''] 3 =
     Some [flavor_derived ''text/plain;charset=utf-8'' p] \<and> length p \<le> 3"
proof -
  let ?f = "flavor_inline ''text/plain'' ''hello''"
  have "as_text ?f = Some ''hello''" by (simp add: as_text_inline byte_in_def)
  then obtain v where v: "shed_to_text_preview [?f] 3 = Some v"
    using preview_is_text_prefix [of "[?f]" 3 "[]"] by auto
  from preview_is_text_prefix [of "[?f]" 3 v, THEN conjunct2, THEN mp, OF v] show ?thesis
    unfolding v by auto
qed

end
