(* ===== verification/Pipeline.thy ===== *)
theory Pipeline
  imports Plugin_Error Reliability Validation
begin

text \<open>
  The transform pipelines of the plugin crate, \<open>crates/vbuff-plugin/src/pipeline.rs\<close>: typed values, transforms
  with an input and an output type, pipelines that are checked when they are built and again when they run, the two
  previews, the builder and the graph. Upper-casing, the URL and JSON libraries and BLAKE3 are parameters.

  The typing judgement \<open>well_typed\<close> is the specification of the check in \<open>Pipeline::new\<close>.
\<close>

section \<open>Values and transforms\<close>

datatype value_type = TextValue | UrlValue | JsonValue | BytesValue

record typed_value =
  tv_kind :: value_type
  tv_mime :: string
  tv_bytes :: bytes

datatype transform_spec = TrimText | UppercaseText | PrefixText string | NormalizeUrl | PrettyJson

definition MAX_PIPELINE_STEPS :: nat where "MAX_PIPELINE_STEPS = 64"
definition MAX_VALUE_BYTES :: nat where "MAX_VALUE_BYTES = 16 * 1024 * 1024"
definition MAX_PREFIX_BYTES :: nat where "MAX_PREFIX_BYTES = 64 * 1024"
definition MAX_PREVIEW_BYTES :: nat where "MAX_PREVIEW_BYTES = 1024 * 1024"

fun input_type :: "transform_spec \<Rightarrow> value_type" where
  "input_type TrimText = TextValue"
| "input_type UppercaseText = TextValue"
| "input_type (PrefixText _) = TextValue"
| "input_type NormalizeUrl = UrlValue"
| "input_type PrettyJson = JsonValue"

definition output_type :: "transform_spec \<Rightarrow> value_type" where
  "output_type t = input_type t"

fun transform_label :: "transform_spec \<Rightarrow> string" where
  "transform_label TrimText = ''Trim whitespace''"
| "transform_label UppercaseText = ''Uppercase''"
| "transform_label (PrefixText _) = ''Add prefix''"
| "transform_label NormalizeUrl = ''Normalize URL''"
| "transform_label PrettyJson = ''Format JSON''"

fun value_type_debug :: "value_type \<Rightarrow> string" where
  "value_type_debug TextValue = ''Text''"
| "value_type_debug UrlValue = ''Url''"
| "value_type_debug JsonValue = ''Json''"
| "value_type_debug BytesValue = ''Bytes''"

text \<open>\<open>tr_url\<close> parses a URL, drops its fragment and prints it; \<open>tr_json_pretty\<close> may fail with a message.\<close>

record 'j transform_env =
  tr_uppercase :: "string \<Rightarrow> string"
  tr_url :: "string \<Rightarrow> string option"
  tr_json_parse :: "string \<Rightarrow> 'j option"
  tr_json_pretty :: "'j \<Rightarrow> string + string"
  tr_blake3 :: "bytes \<Rightarrow> bytes"

fun transform_output :: "'j transform_env \<Rightarrow> transform_spec \<Rightarrow> string \<Rightarrow> plugin_error + string" where
  "transform_output env TrimText source = Inr (trim source)"
| "transform_output env UppercaseText source = Inr (tr_uppercase env source)"
| "transform_output env (PrefixText prefix) source = Inr (prefix @ source)"
| "transform_output env NormalizeUrl source = (case tr_url env (trim source) of
     None \<Rightarrow> Inl (PluginInvalidInput ''invalid URL'') | Some url \<Rightarrow> Inr url)"
| "transform_output env PrettyJson source = (case tr_json_parse env source of
     None \<Rightarrow> Inl (PluginInvalidInput ''invalid JSON'')
   | Some j \<Rightarrow> (case tr_json_pretty env j of Inl e \<Rightarrow> Inl (PluginSerialization e) | Inr s \<Rightarrow> Inr s))"

definition transform_apply :: "'j transform_env \<Rightarrow> transform_spec \<Rightarrow> typed_value \<Rightarrow> plugin_error + typed_value" where
  "transform_apply env t v =
     try_then (require (tv_kind v = input_type t)
       (PluginTypeMismatch (''expected '' @ value_type_debug (input_type t) @ '', received '' @ value_type_debug (tv_kind v)))) (\<lambda>_.
     try_then (require (utf8_valid (tv_bytes v)) (PluginInvalidInput ''value is not UTF-8'')) (\<lambda>_.
     try_then (transform_output env t (tv_bytes v)) (\<lambda>output.
     try_then (require (length output \<le> MAX_VALUE_BYTES) (PluginInvalidInput ''transform output exceeds the byte limit'')) (\<lambda>_.
     Inr \<lparr>tv_kind = output_type t, tv_mime = tv_mime v, tv_bytes = output\<rparr>))))"

section \<open>Pipelines\<close>

record pipeline =
  pl_input_type :: value_type
  pl_steps :: "transform_spec list"

definition oversized_prefix :: "transform_spec \<Rightarrow> bool" where
  "oversized_prefix t = (case t of PrefixText prefix \<Rightarrow> MAX_PREFIX_BYTES < length prefix | _ \<Rightarrow> False)"

fun check_steps :: "value_type \<Rightarrow> transform_spec list \<Rightarrow> plugin_error + value_type" where
  "check_steps current [] = Inr current"
| "check_steps current (t # ts) =
     (if oversized_prefix t then Inl (PluginInvalidInput ''transform prefix exceeds the byte limit'')
      else if input_type t \<noteq> current
      then Inl (PluginTypeMismatch (''pipeline has '' @ value_type_debug current @ '' before a '' @
        value_type_debug (input_type t) @ '' transform''))
      else check_steps (output_type t) ts)"

definition pipeline_new :: "value_type \<Rightarrow> transform_spec list \<Rightarrow> plugin_error + pipeline" where
  "pipeline_new ty ts =
     (if MAX_PIPELINE_STEPS < length ts then Inl (PluginInvalidInput ''pipeline has too many steps'')
      else try_then (check_steps ty ts) (\<lambda>_. Inr \<lparr>pl_input_type = ty, pl_steps = ts\<rparr>))"

definition validate_input :: "pipeline \<Rightarrow> typed_value \<Rightarrow> plugin_error + unit" where
  "validate_input p v =
     (if tv_kind v \<noteq> pl_input_type p
      then Inl (PluginTypeMismatch (''pipeline expects '' @ value_type_debug (pl_input_type p) @ '', received '' @
        value_type_debug (tv_kind v)))
      else if MAX_VALUE_BYTES < length (tv_bytes v) \<or> tv_mime v = [] \<or> 256 < length (tv_mime v) \<or> has_control (tv_mime v)
      then Inl (PluginInvalidInput ''input value exceeds its contract'')
      else Inr ())"

fun try_fold :: "('b \<Rightarrow> 'a \<Rightarrow> 'e + 'b) \<Rightarrow> 'b \<Rightarrow> 'a list \<Rightarrow> 'e + 'b" where
  "try_fold f acc [] = Inr acc"
| "try_fold f acc (x # xs) = try_then (f acc x) (\<lambda>acc'. try_fold f acc' xs)"

definition execute :: "'j transform_env \<Rightarrow> pipeline \<Rightarrow> typed_value \<Rightarrow> plugin_error + typed_value" where
  "execute env p v = try_then (validate_input p v) (\<lambda>_. try_fold (\<lambda>v t. transform_apply env t v) v (pl_steps p))"

record pipeline_preview =
  pp_output_type :: value_type
  pp_output_mime :: string
  pp_output_bytes :: nat
  pp_output_hash :: bytes
  pp_changed :: bool
  pp_bounded_preview :: string

definition truncate_utf8 :: "string \<Rightarrow> nat \<Rightarrow> string" where
  "truncate_utf8 s n = (if length s \<le> n then s else take (floor_boundary s n) s)"

definition preview_of :: "'j transform_env \<Rightarrow> typed_value \<Rightarrow> typed_value \<Rightarrow> nat \<Rightarrow> pipeline_preview" where
  "preview_of env v output n = \<lparr>pp_output_type = tv_kind output, pp_output_mime = tv_mime output,
     pp_output_bytes = length (tv_bytes output), pp_output_hash = tr_blake3 env (tv_bytes output), pp_changed = (output \<noteq> v),
     pp_bounded_preview = truncate_utf8 (from_utf8_lossy (tv_bytes output)) n\<rparr>"

definition dry_run :: "'j transform_env \<Rightarrow> pipeline \<Rightarrow> typed_value \<Rightarrow> nat \<Rightarrow> plugin_error + pipeline_preview" where
  "dry_run env p v n =
     (if MAX_PREVIEW_BYTES < n then Inl (PluginInvalidInput ''preview exceeds the byte limit'')
      else try_then (execute env p v) (\<lambda>output. Inr (preview_of env v output n)))"

record pipeline_step_explanation =
  se_index :: nat
  se_label :: string
  se_input_type :: value_type
  se_output_type :: value_type
  se_input_bytes :: nat
  se_output_bytes :: nat
  se_changed :: bool

record pipeline_explanation =
  pe_input_type :: value_type
  pe_output_type :: value_type
  pe_input_bytes :: nat
  pe_output_bytes :: nat
  pe_changed :: bool
  pe_steps :: "pipeline_step_explanation list"

record explained_pipeline_preview =
  ep_preview :: pipeline_preview
  ep_explanation :: pipeline_explanation

fun explain_steps ::
  "'j transform_env \<Rightarrow> nat \<Rightarrow> typed_value \<Rightarrow> transform_spec list \<Rightarrow>
     plugin_error + typed_value \<times> pipeline_step_explanation list" where
  "explain_steps env i v [] = Inr (v, [])"
| "explain_steps env i v (t # ts) =
     try_then (transform_apply env t v) (\<lambda>output.
     try_then (explain_steps env (Suc i) output ts) (\<lambda>(final, steps). Inr (final,
       \<lparr>se_index = i, se_label = transform_label t, se_input_type = input_type t, se_output_type = output_type t,
        se_input_bytes = length (tv_bytes v), se_output_bytes = length (tv_bytes output),
        se_changed = (tr_blake3 env (tv_bytes v) \<noteq> tr_blake3 env (tv_bytes output))\<rparr> # steps)))"

definition dry_run_explained ::
  "'j transform_env \<Rightarrow> pipeline \<Rightarrow> typed_value \<Rightarrow> nat \<Rightarrow> plugin_error + explained_pipeline_preview" where
  "dry_run_explained env p v n = try_then (validate_input p v) (\<lambda>_.
     if MAX_PREVIEW_BYTES < n then Inl (PluginInvalidInput ''preview exceeds the byte limit'')
     else try_then (explain_steps env 0 v (pl_steps p)) (\<lambda>(output, steps). Inr
       \<lparr>ep_preview = preview_of env v output n,
        ep_explanation = \<lparr>pe_input_type = pl_input_type p, pe_output_type = tv_kind output,
          pe_input_bytes = length (tv_bytes v), pe_output_bytes = length (tv_bytes output), pe_changed = (output \<noteq> v),
          pe_steps = steps\<rparr>\<rparr>))"

section \<open>The graph and the builder\<close>

record pipeline_node =
  pn_id :: u16
  pn_label :: string
  pn_input_type :: value_type
  pn_output_type :: value_type

record pipeline_graph =
  gr_input_type :: value_type
  gr_output_type :: value_type
  gr_nodes :: "pipeline_node list"
  gr_edges :: "(u16 \<times> u16) list"

definition graph_from_steps :: "value_type \<Rightarrow> transform_spec list \<Rightarrow> pipeline_graph" where
  "graph_from_steps ty ts = \<lparr>gr_input_type = ty,
     gr_output_type = (if ts = [] then ty else output_type (last ts)),
     gr_nodes = map (\<lambda>(i, t). \<lparr>pn_id = of_nat i, pn_label = transform_label t, pn_input_type = input_type t,
       pn_output_type = output_type t\<rparr>) (enumerate 0 ts),
     gr_edges = map (\<lambda>i. (of_nat (i - 1), of_nat i)) [1..<length ts]\<rparr>"

record pipeline_builder =
  pb_input_type :: value_type
  pb_steps :: "transform_spec list"

definition builder_new :: "value_type \<Rightarrow> pipeline_builder" where
  "builder_new ty = \<lparr>pb_input_type = ty, pb_steps = []\<rparr>"

definition builder_of :: "pipeline \<Rightarrow> pipeline_builder" where
  "builder_of p = \<lparr>pb_input_type = pl_input_type p, pb_steps = pl_steps p\<rparr>"

definition insert_at :: "nat \<Rightarrow> 'a \<Rightarrow> 'a list \<Rightarrow> 'a list" where
  "insert_at i x xs = take i xs @ x # drop i xs"

definition remove_at :: "nat \<Rightarrow> 'a list \<Rightarrow> 'a list" where
  "remove_at i xs = take i xs @ drop (Suc i) xs"

definition builder_insert :: "pipeline_builder \<Rightarrow> nat \<Rightarrow> transform_spec \<Rightarrow> plugin_error + pipeline_builder" where
  "builder_insert b i t =
     (if length (pb_steps b) < i \<or> MAX_PIPELINE_STEPS \<le> length (pb_steps b)
      then Inl (PluginInvalidInput ''pipeline insertion is outside the step limit'')
      else let candidate = insert_at i t (pb_steps b) in
        try_then (pipeline_new (pb_input_type b) candidate) (\<lambda>_. Inr (b\<lparr>pb_steps := candidate\<rparr>)))"

definition builder_remove :: "pipeline_builder \<Rightarrow> nat \<Rightarrow> plugin_error + transform_spec \<times> pipeline_builder" where
  "builder_remove b i =
     (if length (pb_steps b) \<le> i then Inl (PluginInvalidInput ''pipeline step was not found'')
      else Inr (pb_steps b ! i, b\<lparr>pb_steps := remove_at i (pb_steps b)\<rparr>))"

definition builder_move :: "pipeline_builder \<Rightarrow> nat \<Rightarrow> nat \<Rightarrow> plugin_error + pipeline_builder" where
  "builder_move b i j =
     (if length (pb_steps b) \<le> i \<or> length (pb_steps b) \<le> j
      then Inl (PluginInvalidInput ''pipeline move is outside the step range'')
      else let candidate = insert_at j (pb_steps b ! i) (remove_at i (pb_steps b)) in
        try_then (pipeline_new (pb_input_type b) candidate) (\<lambda>_. Inr (b\<lparr>pb_steps := candidate\<rparr>)))"

definition builder_build :: "pipeline_builder \<Rightarrow> plugin_error + pipeline" where
  "builder_build b = pipeline_new (pb_input_type b) (pb_steps b)"

section \<open>Typing\<close>

inductive well_typed :: "value_type \<Rightarrow> transform_spec list \<Rightarrow> value_type \<Rightarrow> bool" where
  NilTy: "well_typed ty [] ty"
| StepTy: "input_type t = a \<Longrightarrow> output_type t = b \<Longrightarrow> well_typed b ts c \<Longrightarrow> well_typed a (t # ts) c"

inductive_cases NilTyE [elim!]: "well_typed a [] b"
inductive_cases StepTyE [elim!]: "well_typed a (t # ts) c"

lemma well_typed_output: "well_typed a ts b \<Longrightarrow> b = (if ts = [] then a else output_type (last ts))"
  by (induction rule: well_typed.induct) auto

lemma well_typed_unique: "well_typed a ts b \<Longrightarrow> well_typed a ts c \<Longrightarrow> b = c"
  by (metis well_typed_output)

lemma check_steps_Inr: "check_steps ty ts = Inr out \<longleftrightarrow> well_typed ty ts out \<and> \<not> list_ex oversized_prefix ts"
  by (induction ty ts rule: check_steps.induct) (auto intro: well_typed.intros)

lemma pipeline_new_Inr:
  "pipeline_new ty ts = Inr p \<longleftrightarrow>
     p = \<lparr>pl_input_type = ty, pl_steps = ts\<rparr> \<and> (\<exists>out. well_typed ty ts out) \<and> \<not> list_ex oversized_prefix ts \<and>
     length ts \<le> MAX_PIPELINE_STEPS"
  by (auto simp: pipeline_new_def result_simps check_steps_Inr)

text \<open>Every transform keeps the type, so the steps of a typed pipeline all have its input type, in any order.\<close>

lemma well_typed_iff: "(\<exists>out. well_typed ty ts out) \<longleftrightarrow> list_all (\<lambda>t. input_type t = ty) ts"
proof
  assume "list_all (\<lambda>t. input_type t = ty) ts"
  then have "well_typed ty ts ty"
    by (induction ts) (auto simp: output_type_def intro: well_typed.intros)
  then show "\<exists>out. well_typed ty ts out" ..
next
  assume "\<exists>out. well_typed ty ts out"
  then obtain out where "well_typed ty ts out" ..
  then show "list_all (\<lambda>t. input_type t = ty) ts"
    by (induction rule: well_typed.induct) (auto simp: output_type_def)
qed

lemma transform_apply_typed:
  assumes "transform_apply env t v = r"
  shows "tv_kind v = input_type t \<Longrightarrow> r \<noteq> Inl (PluginTypeMismatch msg)"
    and "r = Inr w \<Longrightarrow> tv_kind v = input_type t \<and> tv_kind w = output_type t \<and> tv_mime w = tv_mime v \<and>
      length (tv_bytes w) \<le> MAX_VALUE_BYTES"
  using assms by (cases t; auto simp: transform_apply_def result_simps split: option.splits sum.splits)+

lemma fold_typed:
  assumes "well_typed a ts b" and "tv_kind v = a" and "try_fold (\<lambda>v t. transform_apply env t v) v ts = r"
  shows "r \<noteq> Inl (PluginTypeMismatch msg) \<and> (case r of Inl _ \<Rightarrow> True | Inr w \<Rightarrow> tv_kind w = b \<and> tv_mime w = tv_mime v \<and>
      (length (tv_bytes v) \<le> MAX_VALUE_BYTES \<longrightarrow> length (tv_bytes w) \<le> MAX_VALUE_BYTES))"
  using assms
proof (induction arbitrary: v rule: well_typed.induct)
  case (StepTy t a b ts c)
  show ?case
  proof (cases "transform_apply env t v")
    case (Inl e)
    with StepTy.prems StepTy.hyps(1) transform_apply_typed(1) [OF Inl] show ?thesis by auto
  next
    case (Inr w)
    from transform_apply_typed(2) [OF Inr refl] StepTy.IH [of w] StepTy.prems StepTy.hyps(2) Inr show ?thesis
      by (auto split: sum.splits)
  qed
qed auto

section \<open>The explained preview\<close>

lemma explain_steps_fold:
  "map_sum id fst (explain_steps env i v ts) = try_fold (\<lambda>v t. transform_apply env t v) v ts"
proof (induction ts arbitrary: i v)
  case (Cons t ts)
  show ?case
  proof (cases "transform_apply env t v")
    case (Inr w)
    with Cons.IH [of "Suc i" w] show ?thesis by (cases "explain_steps env (Suc i) w ts") auto
  qed simp
qed simp

text \<open>The explanation of each step starts where the one before it ended.\<close>

lemma explain_steps_chain:
  "explain_steps env i v ts = Inr (w, es) \<Longrightarrow>
     map se_index es = [i..<i + length ts] \<and> map se_label es = map transform_label ts \<and>
     map se_input_bytes es @ [length (tv_bytes w)] = length (tv_bytes v) # map se_output_bytes es"
proof (induction ts arbitrary: i v es)
  case (Cons t ts)
  then obtain u es' where u: "transform_apply env t v = Inr u" "explain_steps env (Suc i) u ts = Inr (w, es')"
    by (auto simp: result_simps)
  have "[i..<i + length (t # ts)] = i # [Suc i..<Suc i + length ts]" by (simp add: upt_conv_Cons del: upt_Suc)
  moreover have "es = \<lparr>se_index = i, se_label = transform_label t, se_input_type = input_type t,
      se_output_type = output_type t, se_input_bytes = length (tv_bytes v), se_output_bytes = length (tv_bytes u),
      se_changed = (tr_blake3 env (tv_bytes v) \<noteq> tr_blake3 env (tv_bytes u))\<rparr> # es'"
    using Cons.prems u by simp
  ultimately show ?case using Cons.IH [OF u(2)] by (simp only: list.map pipeline_step_explanation.simps append_Cons simp_thms)
qed simp

lemma explained_preview_agrees:
  "dry_run_explained env p v n = Inr e \<Longrightarrow> dry_run env p v n = Inr (ep_preview e) \<and>
     map se_label (pe_steps (ep_explanation e)) = map transform_label (pl_steps p)"
  "dry_run env p v n = Inr q \<Longrightarrow> \<exists>e. dry_run_explained env p v n = Inr e \<and> ep_preview e = q"
proof -
  note fold = explain_steps_fold [of env 0 v "pl_steps p", symmetric]
  show "dry_run env p v n = Inr (ep_preview e) \<and>
     map se_label (pe_steps (ep_explanation e)) = map transform_label (pl_steps p)" if "dry_run_explained env p v n = Inr e"
    using that fold explain_steps_chain [of env 0 v "pl_steps p"]
    by (auto simp: dry_run_explained_def dry_run_def execute_def result_simps split: if_splits)
  show "\<exists>e. dry_run_explained env p v n = Inr e \<and> ep_preview e = q" if "dry_run env p v n = Inr q"
    using that fold
    by (cases "explain_steps env 0 v (pl_steps p)")
      (auto simp: dry_run_explained_def dry_run_def execute_def result_simps split: if_splits)
qed

text \<open>
  C27. Pipelines are built exactly for well-typed steps, and well-typed pipelines do not go wrong. \<open>Pipeline::new\<close>
  accepts a list of steps if and only if each takes what the step before it gives, there are not too many and no prefix
  is too long. The pipeline it returns, run on an input of its input type, never reports a type mismatch; its output, if
  any, has the output type of its graph, the MIME type of the input, and at most 16 MiB; and within the bound of a preview
  both the preview and the explained preview succeed and show this output.
\<close>

theorem pipeline_type_sound:
  assumes "tv_kind v = ty"
  shows "((\<exists>p. pipeline_new ty ts = Inr p) \<longleftrightarrow>
      (\<exists>out. well_typed ty ts out) \<and> length ts \<le> MAX_PIPELINE_STEPS \<and>
      (\<forall>prefix. PrefixText prefix \<in> set ts \<longrightarrow> length prefix \<le> MAX_PREFIX_BYTES)) \<and>
    (\<forall>p. pipeline_new ty ts = Inr p \<longrightarrow>
      (\<forall>msg. execute env p v \<noteq> Inl (PluginTypeMismatch msg)) \<and>
      (\<forall>w. execute env p v = Inr w \<longrightarrow> tv_kind w = gr_output_type (graph_from_steps ty ts) \<and> tv_mime w = tv_mime v \<and>
         length (tv_bytes w) \<le> MAX_VALUE_BYTES \<and>
         (n \<le> MAX_PREVIEW_BYTES \<longrightarrow> dry_run env p v n = Inr (preview_of env v w n) \<and>
           (\<exists>e. dry_run_explained env p v n = Inr e \<and> ep_preview e = preview_of env v w n))))"
proof (intro conjI allI impI)
  have "list_ex oversized_prefix ts \<longleftrightarrow> (\<exists>prefix. PrefixText prefix \<in> set ts \<and> MAX_PREFIX_BYTES < length prefix)"
  proof -
    have "oversized_prefix t \<longleftrightarrow> (\<exists>prefix. t = PrefixText prefix \<and> MAX_PREFIX_BYTES < length prefix)" for t
      by (cases t) (simp_all add: oversized_prefix_def)
    then show ?thesis by (auto simp: list_ex_iff)
  qed
  then show "(\<exists>p. pipeline_new ty ts = Inr p) \<longleftrightarrow> (\<exists>out. well_typed ty ts out) \<and> length ts \<le> MAX_PIPELINE_STEPS \<and>
      (\<forall>prefix. PrefixText prefix \<in> set ts \<longrightarrow> length prefix \<le> MAX_PREFIX_BYTES)"
    by (auto simp: pipeline_new_Inr not_less)
next
  fix p assume "pipeline_new ty ts = Inr p"
  then obtain out where p: "p = \<lparr>pl_input_type = ty, pl_steps = ts\<rparr>" and typed: "well_typed ty ts out"
    by (auto simp: pipeline_new_Inr)
  note out = well_typed_output [OF typed]
  note fold = fold_typed [OF typed assms refl, of env]
  show "execute env p v \<noteq> Inl (PluginTypeMismatch msg)" for msg
    using fold [of msg] p assms by (auto simp: execute_def validate_input_def)
  fix w assume w: "execute env p v = Inr w"
  with fold [of undefined] p assms out
  show "tv_kind w = gr_output_type (graph_from_steps ty ts)" "tv_mime w = tv_mime v" "length (tv_bytes w) \<le> MAX_VALUE_BYTES"
    by (auto simp: execute_def validate_input_def graph_from_steps_def split: if_splits)
  assume "n \<le> MAX_PREVIEW_BYTES"
  with w show dry: "dry_run env p v n = Inr (preview_of env v w n)" by (simp add: dry_run_def)
  from explained_preview_agrees(2) [OF dry]
  show "\<exists>e. dry_run_explained env p v n = Inr e \<and> ep_preview e = preview_of env v w n" .
qed

section \<open>The builder\<close>

datatype builder_op = InsertStep nat transform_spec | RemoveStep nat | MoveStep nat nat

fun builder_step :: "pipeline_builder \<Rightarrow> builder_op \<Rightarrow> pipeline_builder" where
  "builder_step b (InsertStep i t) = (case builder_insert b i t of Inl _ \<Rightarrow> b | Inr b' \<Rightarrow> b')"
| "builder_step b (RemoveStep i) = (case builder_remove b i of Inl _ \<Rightarrow> b | Inr (_, b') \<Rightarrow> b')"
| "builder_step b (MoveStep i j) = (case builder_move b i j of Inl _ \<Rightarrow> b | Inr b' \<Rightarrow> b')"

definition builder_ok :: "pipeline_builder \<Rightarrow> bool" where
  "builder_ok b \<longleftrightarrow> is_ok (builder_build b)"

lemma builder_ok_iff:
  "builder_ok b \<longleftrightarrow> list_all (\<lambda>t. input_type t = pb_input_type b) (pb_steps b) \<and>
     \<not> list_ex oversized_prefix (pb_steps b) \<and> length (pb_steps b) \<le> MAX_PIPELINE_STEPS"
  by (auto simp: builder_ok_def builder_build_def is_ok_iff pipeline_new_Inr well_typed_iff)

lemma set_remove_at: "set (remove_at i xs) \<subseteq> set xs"
  by (auto simp: remove_at_def dest: in_set_takeD in_set_dropD)

interpretation builder_machine: machine builder_step builder_ok
proof
  fix b op
  assume ok: "builder_ok b"
  show "builder_ok (builder_step b op)"
  proof (cases op)
    case (InsertStep i t)
    with ok show ?thesis
      by (auto simp: builder_insert_def builder_ok_def builder_build_def result_simps is_ok_iff Let_def pipeline_new_Inr
          split: sum.splits)
  next
    case (RemoveStep i)
    with ok set_remove_at [of i "pb_steps b"] show ?thesis
      by (auto simp: builder_remove_def builder_ok_iff list_all_iff list_ex_iff remove_at_def split: if_splits)
  next
    case (MoveStep i j)
    with ok show ?thesis
      by (auto simp: builder_move_def builder_ok_def builder_build_def result_simps is_ok_iff Let_def pipeline_new_Inr
          split: sum.splits)
  qed
qed

text \<open>Whatever is inserted, removed and moved, the builder builds.\<close>

lemma builder_always_builds: "\<exists>p. builder_build (run builder_step (builder_new ty) ops) = Inr p"
proof -
  have "builder_ok (builder_new ty)" by (simp add: builder_ok_iff builder_new_def)
  from builder_machine.inv_run [OF this] show ?thesis by (simp add: builder_ok_def is_ok_iff)
qed

definition sample_transforms :: "unit transform_env" where
  "sample_transforms = \<lparr>tr_uppercase = id, tr_url = Some, tr_json_parse = (\<lambda>_. None), tr_json_pretty = (\<lambda>_. Inl []), tr_blake3 = id\<rparr>"

theorem pipeline_type_sound_witness:
  "\<exists>p w. pipeline_new TextValue [PrefixText ''a'', PrefixText ''b''] = Inr p \<and>
     execute sample_transforms p \<lparr>tv_kind = TextValue, tv_mime = ''t'', tv_bytes = ''c''\<rparr> = Inr w \<and>
     tv_bytes w = ''bac'' \<and> tv_kind w = TextValue \<and>
     (\<exists>e. dry_run_explained sample_transforms p \<lparr>tv_kind = TextValue, tv_mime = ''t'', tv_bytes = ''c''\<rparr> 8 = Inr e) \<and>
     (\<nexists>p. pipeline_new TextValue [PrefixText ''a'', PrettyJson] = Inr p)"
proof -
  let ?p = "\<lparr>pl_input_type = TextValue, pl_steps = [PrefixText ''a'', PrefixText ''b'']\<rparr>"
  let ?v = "\<lparr>tv_kind = TextValue, tv_mime = ''t'', tv_bytes = ''c''\<rparr>"
  have v: "tv_kind ?v = TextValue" by simp
  have p: "pipeline_new TextValue [PrefixText ''a'', PrefixText ''b''] = Inr ?p"
    by (simp add: pipeline_new_def MAX_PIPELINE_STEPS_def oversized_prefix_def MAX_PREFIX_BYTES_def output_type_def)
  have run: "execute sample_transforms ?p ?v = Inr \<lparr>tv_kind = TextValue, tv_mime = ''t'', tv_bytes = ''bac''\<rparr>"
    by (simp add: execute_def validate_input_def transform_apply_def MAX_VALUE_BYTES_def byte_in_def has_control_def chars_def
        is_control_def output_type_def utf8_width_def)
  have "8 \<le> MAX_PREVIEW_BYTES" by (simp add: MAX_PREVIEW_BYTES_def)
  with pipeline_type_sound [OF v, of "[PrefixText ''a'', PrefixText ''b'']" sample_transforms 8] p run
  have "\<exists>e. dry_run_explained sample_transforms ?p ?v 8 = Inr e" by blast
  moreover have "\<nexists>p. pipeline_new TextValue [PrefixText ''a'', PrettyJson] = Inr p"
  proof -
    have "\<not> well_typed TextValue [PrefixText ''a'', PrettyJson] out" for out by (auto simp: output_type_def)
    then show ?thesis using pipeline_type_sound [OF v, of "[PrefixText ''a'', PrettyJson]", THEN conjunct1] by metis
  qed
  ultimately show ?thesis using p run by auto
qed

end
