(* ===== verification/Platform_Lifecycle.thy ===== *)
theory Platform_Lifecycle
  imports Prelude "HOL-Library.List_Lexorder" "HOL-Library.Char_ord"
begin

text \<open>
  Session lifecycle of \<open>crates/vbuff-platform/src/lifecycle.rs\<close>: the session a process was started in, automatic pauses,
  session events, the reconnect backoff, the poll interval under power pressure and coexisting clipboard managers. The
  environment is a map from variable names to values, the operating system of the build a parameter.
\<close>

section \<open>The static session\<close>

datatype display_server = Wayland | X11 | WindowsDisplay | MacOs | Headless | UnknownDisplay
datatype target_os = TargetWindows | TargetMacOs | TargetOther

definition display_slug :: "display_server \<Rightarrow> string" where
  "display_slug d = (case d of Wayland \<Rightarrow> ''wayland'' | X11 \<Rightarrow> ''x11'' | WindowsDisplay \<Rightarrow> ''windows'' | MacOs \<Rightarrow> ''mac_os''
     | Headless \<Rightarrow> ''headless'' | UnknownDisplay \<Rightarrow> ''unknown'')"

record session_context =
  sx_display_server :: display_server
  sx_remote :: bool
  sx_seat :: "string option"
  sx_input_injection_allowed :: bool

definition environment_label :: "session_context \<Rightarrow> string" where
  "environment_label s = (if sx_remote s then display_slug (sx_display_server s) @ '' (remote)'' else display_slug (sx_display_server s))"

definition to_ascii_uppercase :: "string \<Rightarrow> string" where
  "to_ascii_uppercase s = map (\<lambda>c. if is_ascii_lowercase c then char_of ((of_char c :: nat) - 32) else c) s"

definition session_from_environment :: "target_os \<Rightarrow> (string \<Rightarrow> string option) \<Rightarrow> session_context" where
  "session_from_environment os env =
     (let display_server = (if os = TargetWindows then WindowsDisplay
            else if os = TargetMacOs then MacOs
            else if env ''WAYLAND_DISPLAY'' \<noteq> None then Wayland
            else if env ''DISPLAY'' \<noteq> None then X11
            else if env ''CI'' \<noteq> None then Headless
            else UnknownDisplay);
          windows_remote = (case env ''SESSIONNAME'' of None \<Rightarrow> False | Some name \<Rightarrow> starts_with ''RDP-'' (to_ascii_uppercase name));
          remote = (windows_remote \<or> env ''SSH_CONNECTION'' \<noteq> None \<or> env ''VNCSESSION'' \<noteq> None);
          input_injection_allowed = (\<not> remote \<and> \<not> (display_server = Headless \<or> display_server = UnknownDisplay)) in
      \<lparr>sx_display_server = display_server, sx_remote = remote, sx_seat = env ''XDG_SEAT'',
       sx_input_injection_allowed = input_injection_allowed\<rparr>)"

lemma display_slug_inject [simp]: "display_slug a = display_slug b \<longleftrightarrow> a = b"
  by (cases a; cases b) (simp_all add: display_slug_def)

lemma remote_session_never_injects:
  "env ''SSH_CONNECTION'' \<noteq> None \<or> env ''VNCSESSION'' \<noteq> None \<Longrightarrow> \<not> sx_input_injection_allowed (session_from_environment os env)"
  by (auto simp: session_from_environment_def Let_def)

section \<open>Automatic pauses\<close>

datatype capture_pause_reason = PauseManual | PauseIdle | PauseScreenLocked | PauseRemoteControl | PauseSecurityPolicy

record auto_pause_signals =
  as_idle_for :: duration
  as_screen_locked :: bool
  as_remote_control_active :: bool

record auto_pause_policy =
  ap_idle_after :: "duration option"
  ap_pause_on_lock :: bool
  ap_pause_on_remote_control :: bool

definition auto_pause_policy_default :: auto_pause_policy where
  "auto_pause_policy_default = \<lparr>ap_idle_after = Some (secs (15 * 60)), ap_pause_on_lock = True, ap_pause_on_remote_control = True\<rparr>"

definition pause_reason :: "auto_pause_policy \<Rightarrow> auto_pause_signals \<Rightarrow> capture_pause_reason option" where
  "pause_reason p signals =
     (if ap_pause_on_lock p \<and> as_screen_locked signals then Some PauseScreenLocked
      else if ap_pause_on_remote_control p \<and> as_remote_control_active signals then Some PauseRemoteControl
      else if (case ap_idle_after p of None \<Rightarrow> False | Some threshold \<Rightarrow> threshold \<noteq> 0 \<and> as_idle_for signals \<ge> threshold)
      then Some PauseIdle else None)"

datatype auto_pause_transition = PauseFor capture_pause_reason | ResumeCapture

record auto_pause_controller =
  pc_policy :: auto_pause_policy
  pc_active_reason :: "capture_pause_reason option"

definition controller_new :: "auto_pause_policy \<Rightarrow> auto_pause_controller" where
  "controller_new policy = \<lparr>pc_policy = policy, pc_active_reason = None\<rparr>"

definition controller_observe ::
  "auto_pause_controller \<Rightarrow> auto_pause_signals \<Rightarrow> bool \<Rightarrow> auto_pause_controller \<times> auto_pause_transition option" where
  "controller_observe c signals manually_paused =
     (let following = pause_reason (pc_policy c) signals in
      if following = pc_active_reason c then (c, None)
      else (let previous = pc_active_reason c; c = c\<lparr>pc_active_reason := following\<rparr> in
        (c, case (previous, following) of
              (_, Some reason) \<Rightarrow> Some (PauseFor reason)
            | (Some _, None) \<Rightarrow> if \<not> manually_paused then Some ResumeCapture else None
            | _ \<Rightarrow> None)))"

text \<open>
  What a client sees that follows the transitions: it is paused for the reason of the last pause until it is told to
  resume. While the user has paused by hand, a resumption is withheld.
\<close>

fun follow :: "capture_pause_reason option \<Rightarrow> auto_pause_transition option \<Rightarrow> capture_pause_reason option" where
  "follow view None = view"
| "follow view (Some (PauseFor reason)) = Some reason"
| "follow view (Some ResumeCapture) = None"

fun observe_all :: "auto_pause_controller \<Rightarrow> capture_pause_reason option \<Rightarrow> (auto_pause_signals \<times> bool) list \<Rightarrow>
    auto_pause_controller \<times> capture_pause_reason option" where
  "observe_all c view [] = (c, view)"
| "observe_all c view ((signals, manual) # os) =
     (case controller_observe c signals manual of (c', t) \<Rightarrow> observe_all c' (follow view t) os)"

definition view_ok :: "auto_pause_controller \<Rightarrow> capture_pause_reason option \<Rightarrow> bool" where
  "view_ok c view \<longleftrightarrow> (pc_active_reason c = None \<or> view = pc_active_reason c)"

lemma observe_reason: "pc_active_reason (fst (controller_observe c signals manual)) = pause_reason (pc_policy c) signals \<and>
    pc_policy (fst (controller_observe c signals manual)) = pc_policy c"
  by (simp add: controller_observe_def Let_def)

lemma observe_follow:
  "follow view (snd (controller_observe c signals manual)) =
     (case pause_reason (pc_policy c) signals of
        Some reason \<Rightarrow> if pc_active_reason c = Some reason then view else Some reason
      | None \<Rightarrow> if pc_active_reason c \<noteq> None \<and> \<not> manual then None else view)"
  by (auto simp: controller_observe_def Let_def split: option.split)

lemma observe_all_view:
  "view_ok c view \<Longrightarrow> observe_all c view os = (c', view') \<Longrightarrow>
   pc_policy c' = pc_policy c \<and> view_ok c' view' \<and>
   pc_active_reason c' = (if os = [] then pc_active_reason c else pause_reason (pc_policy c) (fst (last os))) \<and>
   (list_all (\<lambda>o'. \<not> snd o') os \<and> view = pc_active_reason c \<longrightarrow> view' = pc_active_reason c')"
proof (induction os arbitrary: c view)
  case (Cons o' os)
  obtain signals manual where o': "o' = (signals, manual)" by (cases o')
  obtain c1 t where c1: "controller_observe c signals manual = (c1, t)" by (cases "controller_observe c signals manual")
  have reason: "pc_active_reason c1 = pause_reason (pc_policy c) signals" "pc_policy c1 = pc_policy c"
    using observe_reason [of c signals manual] by (simp_all add: c1)
  have view: "follow view t = (case pause_reason (pc_policy c) signals of
        Some reason \<Rightarrow> if pc_active_reason c = Some reason then view else Some reason
      | None \<Rightarrow> if pc_active_reason c \<noteq> None \<and> \<not> manual then None else view)"
    using observe_follow [of view c signals manual] by (simp add: c1)
  have ok: "view_ok c1 (follow view t)"
    using Cons.prems(1) by (auto simp: view_ok_def reason view split: option.split)
  have same: "follow view t = pc_active_reason c1" if "\<not> manual" "view = pc_active_reason c"
    unfolding view reason using that by (auto split: option.split)
  have "observe_all c1 (follow view t) os = (c', view')" using Cons.prems(2) by (simp add: o' c1)
  from Cons.IH [OF ok this] same show ?case by (cases os) (auto simp: reason o')
qed simp

text \<open>
  A client that only follows the transitions of the automatic pause is right: whatever the signals were and whenever the
  user paused by hand, capture is paused for exactly the reason that the latest signals give, if they give one; and as long
  as the user did not pause by hand, it is paused exactly when they do.
\<close>

lemma auto_pause_follows_signals:
  assumes "observe_all (controller_new policy) None (os @ [(signals, manual)]) = (c, view)"
  shows "(pause_reason policy signals \<noteq> None \<longrightarrow> view = pause_reason policy signals) \<and>
    (list_all (\<lambda>o'. \<not> snd o') os \<and> \<not> manual \<longrightarrow> view = pause_reason policy signals)"
proof -
  have "view_ok (controller_new policy) None" by (simp add: view_ok_def controller_new_def)
  from observe_all_view [OF this assms] show ?thesis by (auto simp: view_ok_def controller_new_def)
qed

lemma auto_pause_follows_signals_witness:
  "snd (observe_all (controller_new auto_pause_policy_default) None
     ([(\<lparr>as_idle_for = 0, as_screen_locked = True, as_remote_control_active = False\<rparr>, False)] @
      [(\<lparr>as_idle_for = 0, as_screen_locked = False, as_remote_control_active = False\<rparr>, False)])) = None"
proof -
  let ?on = "\<lparr>as_idle_for = 0, as_screen_locked = True, as_remote_control_active = False\<rparr>"
  let ?off = "\<lparr>as_idle_for = 0, as_screen_locked = False, as_remote_control_active = False\<rparr>"
  obtain c view where run: "observe_all (controller_new auto_pause_policy_default) None ([(?on, False)] @ [(?off, False)]) = (c, view)"
    by (cases "observe_all (controller_new auto_pause_policy_default) None ([(?on, False)] @ [(?off, False)])")
  have "pause_reason auto_pause_policy_default ?off = None"
    by (simp add: pause_reason_def auto_pause_policy_default_def secs_def)
  with auto_pause_follows_signals [OF run] have "view = None" by simp
  with run show ?thesis by simp
qed

section \<open>Session events\<close>

record session_state =
  ss_locked :: bool
  ss_foreground :: bool
  ss_sleeping :: bool

definition session_state_default :: session_state where
  "session_state_default = \<lparr>ss_locked = False, ss_foreground = True, ss_sleeping = False\<rparr>"

datatype session_event = SessionLocked | SessionUnlocked | BecameForeground | BecameBackground | SleepStarted | WakeCompleted

definition session_transition :: "session_state \<Rightarrow> session_event \<Rightarrow> session_state" where
  "session_transition s event = (case event of
       SessionLocked \<Rightarrow> s\<lparr>ss_locked := True\<rparr> | SessionUnlocked \<Rightarrow> s\<lparr>ss_locked := False\<rparr>
     | BecameForeground \<Rightarrow> s\<lparr>ss_foreground := True\<rparr> | BecameBackground \<Rightarrow> s\<lparr>ss_foreground := False\<rparr>
     | SleepStarted \<Rightarrow> s\<lparr>ss_sleeping := True\<rparr> | WakeCompleted \<Rightarrow> s\<lparr>ss_sleeping := False\<rparr>)"

definition permits_capture :: "session_state \<Rightarrow> bool" where
  "permits_capture s \<longleftrightarrow> \<not> ss_locked s \<and> ss_foreground s \<and> \<not> ss_sleeping s"

definition permits_paste :: "session_state \<Rightarrow> bool" where
  "permits_paste s \<longleftrightarrow> \<not> ss_locked s \<and> ss_foreground s \<and> \<not> ss_sleeping s"

text \<open>A locked session stays closed whatever happens until it is unlocked.\<close>

lemma locked_until_unlocked:
  "ss_locked s \<Longrightarrow> SessionUnlocked \<notin> set events \<Longrightarrow>
   \<not> permits_capture (run session_transition s events) \<and> \<not> permits_paste (run session_transition s events)"
proof (induction events arbitrary: s)
  case (Cons e events)
  have "ss_locked (session_transition s e)" using Cons.prems by (auto simp: session_transition_def split: session_event.split)
  with Cons show ?case by simp
qed (simp add: permits_capture_def permits_paste_def)

section \<open>Reconnecting\<close>

record reconnect_backoff =
  rb_initial :: duration
  rb_maximum :: duration
  rb_current :: duration

definition backoff_new :: "duration \<Rightarrow> duration \<Rightarrow> reconnect_backoff" where
  "backoff_new initial maximum =
     (let initial = max initial (millis 50); maximum = max maximum initial in
      \<lparr>rb_initial = initial, rb_maximum = maximum, rb_current = initial\<rparr>)"

definition backoff_disconnected :: "reconnect_backoff \<Rightarrow> duration \<times> reconnect_backoff" where
  "backoff_disconnected b = (rb_current b, b\<lparr>rb_current := min (min (rb_current b * 2) duration_max) (rb_maximum b)\<rparr>)"

definition backoff_connected :: "reconnect_backoff \<Rightarrow> reconnect_backoff" where
  "backoff_connected b = b\<lparr>rb_current := rb_initial b\<rparr>"

fun backoff_delays :: "nat \<Rightarrow> reconnect_backoff \<Rightarrow> duration list" where
  "backoff_delays 0 b = []"
| "backoff_delays (Suc n) b = (case backoff_disconnected b of (delay, b') \<Rightarrow> delay # backoff_delays n b')"

text \<open>The delays double from the initial one up to the maximum, after any reconnection.\<close>

lemma backoff_delays_doubling:
  assumes "rb_maximum b \<le> duration_max" and "rb_current b \<le> rb_maximum b"
  shows "backoff_delays n b = map (\<lambda>i. min (rb_current b * 2 ^ i) (rb_maximum b)) [0..<n]"
  using assms
proof (induction n arbitrary: b)
  case (Suc n)
  let ?b = "b\<lparr>rb_current := min (min (rb_current b * 2) duration_max) (rb_maximum b)\<rparr>"
  have step: "min (rb_current ?b * 2 ^ i) (rb_maximum b) = min (rb_current b * 2 ^ Suc i) (rb_maximum b)" for i
  proof (cases "rb_current b * 2 \<le> rb_maximum b")
    case True
    with Suc.prems show ?thesis by (simp add: min_def mult.assoc)
  next
    case False
    then have "rb_current ?b = rb_maximum b" using Suc.prems by simp
    moreover have "rb_maximum b \<le> rb_maximum b * 2 ^ i" by simp
    moreover have "rb_maximum b \<le> rb_current b * 2 ^ Suc i"
      using False by (simp add: order_trans [OF less_imp_le mult_le_mono2 [of 1 "2 ^ i" "rb_current b * 2"], simplified] mult.assoc [symmetric])
    ultimately show ?thesis by simp
  qed
  have "backoff_delays n ?b = map (\<lambda>i. min (rb_current b * 2 ^ Suc i) (rb_maximum b)) [0..<n]"
    using Suc.IH [of ?b] Suc.prems step by simp
  moreover have "map f [0..<Suc n] = f 0 # map (\<lambda>i. f (Suc i)) [0..<n]" for f :: "nat \<Rightarrow> nat"
    by (simp add: upt_conv_Cons map_Suc_upt [symmetric] del: upt_Suc)
  moreover have "backoff_delays (Suc n) b = min (rb_current b * 2 ^ 0) (rb_maximum b) # backoff_delays n ?b"
    using Suc.prems(2) by (simp add: backoff_disconnected_def min_absorb1)
  ultimately show ?case by (simp only:)
qed simp

section \<open>Power\<close>

record power_signals =
  pw_low_power_mode :: bool
  pw_display_asleep :: bool
  pw_thermal_pressure :: bool
  pw_copy_in_flight :: bool

definition power_aware_poll_interval :: "duration \<Rightarrow> power_signals \<Rightarrow> duration" where
  "power_aware_poll_interval base signals =
     (if pw_copy_in_flight signals then base
      else let multiplier = 1 + of_bool (pw_low_power_mode signals) + of_bool (pw_thermal_pressure signals)
             + 3 * of_bool (pw_display_asleep signals) in
        min (min (base * multiplier) duration_max) (secs 5))"

lemma power_pressure_never_polls_faster:
  "base \<le> secs 5 \<Longrightarrow> base \<le> power_aware_poll_interval base signals"
  by (simp add: power_aware_poll_interval_def Let_def secs_def duration_max_def)

section \<open>Coexisting managers\<close>

datatype coexistence_mode = Exclusive | Cooperative | ReadOnlyMode

definition KNOWN_MANAGERS :: "string list" where
  "KNOWN_MANAGERS = [''copyq'', ''maccy'', ''ditto'', ''cliphist'', ''clipman'', ''klipper'', ''gpaste'', ''pastebot'']"

definition detect_coexisting_managers :: "string list \<Rightarrow> string list \<times> coexistence_mode" where
  "detect_coexisting_managers process_names =
     (let detected = remdups_adj (sort (filter (\<lambda>name. list_ex (\<lambda>known. contains_sub known (to_ascii_lowercase name)) KNOWN_MANAGERS)
            process_names)) in
      (detected, if detected = [] then Exclusive else Cooperative))"

lemma distinct_remdups_adj: "sorted xs \<Longrightarrow> distinct (remdups_adj xs)" for xs :: "'a::linorder list"
  by (induction xs rule: remdups_adj.induct) force+

lemma detected_managers:
  "set (fst (detect_coexisting_managers names)) = {n \<in> set names. \<exists>k \<in> set KNOWN_MANAGERS. contains_sub k (to_ascii_lowercase n)} \<and>
   distinct (fst (detect_coexisting_managers names)) \<and>
   (snd (detect_coexisting_managers names) = Exclusive \<longleftrightarrow> (\<forall>n \<in> set names. \<not> (\<exists>k \<in> set KNOWN_MANAGERS. contains_sub k (to_ascii_lowercase n))))"
proof -
  have set: "set (fst (detect_coexisting_managers names)) = {n \<in> set names. \<exists>k \<in> set KNOWN_MANAGERS. contains_sub k (to_ascii_lowercase n)}"
    by (simp add: detect_coexisting_managers_def Let_def list_ex_iff)
  have "distinct (fst (detect_coexisting_managers names))"
    by (simp add: detect_coexisting_managers_def Let_def distinct_remdups_adj)
  moreover have "snd (detect_coexisting_managers names) = Exclusive \<longleftrightarrow> fst (detect_coexisting_managers names) = []"
    by (simp add: detect_coexisting_managers_def Let_def)
  moreover have "fst (detect_coexisting_managers names) = [] \<longleftrightarrow> set (fst (detect_coexisting_managers names)) = {}" by simp
  ultimately show ?thesis unfolding set by auto
qed

end
