(* ===== verification/Plugin_Governance.thy ===== *)
theory Plugin_Governance
  imports Plugin_Network
begin

text \<open>
  The contracts around plugins, \<open>crates/vbuff-plugin/src/governance/\<close>: the supervisor that disables a plugin after a
  panic, the test cases and their verdicts, the metadata of the marketplace and the signed bundles of actions. These
  modules judge what an external runner reports; they start nothing. The JSON codec of a bundle and \<open>Url::parse\<close> are
  arguments; hash and signatures are the fields of \<open>plugin_env\<close>.
\<close>

definition valid_governance_id :: "string \<Rightarrow> bool" where
  "valid_governance_id s \<longleftrightarrow> s \<noteq> [] \<and> length s \<le> 128 \<and>
     list_all (\<lambda>b. is_ascii_alphanumeric b \<or> b \<in> {CHR ''.'', CHR ''-'', CHR ''_''}) s"

definition null_hash :: bytes where "null_hash = replicate 32 (CHR 0x00)"

section \<open>The supervisor\<close>

datatype plugin_runtime_state = PluginReady | DisabledAfterPanic | DisabledByPolicy

record plugin_failure_report =
  pf_plugin_id :: string
  pf_action_id :: string
  pf_occurred_at_ms :: int
  pf_failure_sequence :: u64
  pf_state :: plugin_runtime_state

record plugin_supervisor =
  sv_states :: "(string, plugin_runtime_state) btree"
  sv_failures :: "plugin_failure_report list"
  sv_failure_sequence :: u64

definition MAX_FAILURES :: nat where "MAX_FAILURES = 256"
definition MAX_SUPERVISED_PLUGINS :: nat where "MAX_SUPERVISED_PLUGINS = 1024"

definition plugin_supervisor_default :: plugin_supervisor where
  "plugin_supervisor_default = \<lparr>sv_states = [], sv_failures = [], sv_failure_sequence = 0\<rparr>"

definition supervisor_register :: "plugin_supervisor \<Rightarrow> string \<Rightarrow> plugin_supervisor \<times> (plugin_error + unit)" where
  "supervisor_register s p =
     (if \<not> valid_governance_id p then (s, Inl (InvalidBundle ''supervised plugin id is invalid''))
      else if \<not> bt_contains (sv_states s) p \<and> MAX_SUPERVISED_PLUGINS \<le> length (sv_states s)
      then (s, Inl (InvalidBundle ''too many supervised plugins''))
      else if bt_contains (sv_states s) p then (s, Inr ())
      else (s\<lparr>sv_states := bt_insert p PluginReady (sv_states s)\<rparr>, Inr ()))"

definition plugin_state :: "plugin_supervisor \<Rightarrow> string \<Rightarrow> plugin_runtime_state option" where
  "plugin_state s p = map_of (sv_states s) p"

definition can_run :: "plugin_supervisor \<Rightarrow> string \<Rightarrow> bool" where
  "can_run s p \<longleftrightarrow> plugin_state s p = Some PluginReady"

definition disable_by_policy :: "plugin_supervisor \<Rightarrow> string \<Rightarrow> plugin_supervisor \<times> (plugin_error + unit)" where
  "disable_by_policy s p = (if bt_contains (sv_states s) p
     then (s\<lparr>sv_states := bt_insert p DisabledByPolicy (sv_states s)\<rparr>, Inr ())
     else (s, Inl (InvalidBundle ''plugin is not supervised'')))"

text \<open>\<open>pop_front\<close> before \<open>push_back\<close> once the log is full.\<close>

definition push_failure :: "plugin_failure_report list \<Rightarrow> plugin_failure_report \<Rightarrow> plugin_failure_report list" where
  "push_failure log r = (if length log = MAX_FAILURES then tl log else log) @ [r]"

text \<open>The plugin is disabled before its failure is numbered; an overflow of the number keeps it disabled.\<close>

definition record_panic ::
  "plugin_supervisor \<Rightarrow> string \<Rightarrow> string \<Rightarrow> int \<Rightarrow> plugin_supervisor \<times> (plugin_error + plugin_failure_report)" where
  "record_panic s p action now =
     (if \<not> valid_governance_id action then (s, Inl (InvalidBundle ''failed action id is invalid''))
      else if now < 0 then (s, Inl (InvalidBundle ''plugin failure timestamp is invalid''))
      else if \<not> bt_contains (sv_states s) p then (s, Inl (InvalidBundle ''plugin is not supervised''))
      else let s1 = s\<lparr>sv_states := bt_insert p DisabledAfterPanic (sv_states s)\<rparr> in
        case checked_add (sv_failure_sequence s1) 1 of
          None \<Rightarrow> (s1, Inl (InvalidBundle ''failure sequence overflow''))
        | Some n \<Rightarrow>
            let report = \<lparr>pf_plugin_id = p, pf_action_id = action, pf_occurred_at_ms = now, pf_failure_sequence = n,
                  pf_state = DisabledAfterPanic\<rparr> in
            (s1\<lparr>sv_failure_sequence := n, sv_failures := push_failure (sv_failures s1) report\<rparr>, Inr report))"

datatype plugin_supervisor_op = RegisterPlugin string | DisablePlugin string | PluginPanicked string string int

fun plugin_supervisor_step :: "plugin_supervisor \<Rightarrow> plugin_supervisor_op \<Rightarrow> plugin_supervisor" where
  "plugin_supervisor_step s (RegisterPlugin p) = fst (supervisor_register s p)"
| "plugin_supervisor_step s (DisablePlugin p) = fst (disable_by_policy s p)"
| "plugin_supervisor_step s (PluginPanicked p action now) = fst (record_panic s p action now)"

section \<open>Test cases\<close>

definition MAX_TEST_DURATION_MS :: u64 where "MAX_TEST_DURATION_MS = 60000"

record plugin_test_case =
  tc_schema :: u16
  tc_case_id :: string
  tc_manifest_hash :: bytes
  tc_action_id :: string
  tc_fixture_hash :: bytes
  tc_expected_output_hash :: bytes
  tc_allowed_capabilities :: "plugin_capability set"
  tc_timeout_ms :: u64

record plugin_test_observation =
  ob_case_id :: string
  ob_output_hash :: bytes
  ob_attempted_capabilities :: "plugin_capability set"
  ob_duration_ms :: u64
  ob_panicked :: bool

record plugin_test_verdict =
  vd_case_id :: string
  vd_passed :: bool
  vd_output_matched :: bool
  vd_capability_scope_respected :: bool
  vd_completed_in_time :: bool
  vd_panicked :: bool

definition test_case_validate :: "plugin_test_case \<Rightarrow> plugin_error + unit" where
  "test_case_validate t = require (tc_schema t = 1 \<and> valid_governance_id (tc_case_id t) \<and> valid_governance_id (tc_action_id t) \<and>
     tc_manifest_hash t \<noteq> null_hash \<and> tc_fixture_hash t \<noteq> null_hash \<and> tc_expected_output_hash t \<noteq> null_hash \<and>
     tc_timeout_ms t \<noteq> 0 \<and> tc_timeout_ms t \<le> MAX_TEST_DURATION_MS) (InvalidBundle ''plugin test case is invalid'')"

definition observation_validate :: "plugin_test_observation \<Rightarrow> plugin_error + unit" where
  "observation_validate ob = require (valid_governance_id (ob_case_id ob) \<and> ob_output_hash ob \<noteq> null_hash \<and>
     ob_duration_ms ob \<le> MAX_TEST_DURATION_MS * 2) (InvalidBundle ''plugin test observation is invalid'')"

definition test_evaluate :: "plugin_test_case \<Rightarrow> plugin_test_observation \<Rightarrow> plugin_error + plugin_test_verdict" where
  "test_evaluate t ob =
     try_then (test_case_validate t) (\<lambda>_.
     try_then (observation_validate ob) (\<lambda>_.
     try_then (require (tc_case_id t = ob_case_id ob) (InvalidBundle ''plugin test observation belongs to another case'')) (\<lambda>_.
     let output_matched = ob_output_hash ob = tc_expected_output_hash t;
         capability_scope_respected = ob_attempted_capabilities ob \<subseteq> tc_allowed_capabilities t;
         completed_in_time = ob_duration_ms ob \<le> tc_timeout_ms t in
     Inr \<lparr>vd_case_id = tc_case_id t,
       vd_passed = (\<not> ob_panicked ob \<and> output_matched \<and> capability_scope_respected \<and> completed_in_time),
       vd_output_matched = output_matched, vd_capability_scope_respected = capability_scope_respected,
       vd_completed_in_time = completed_in_time, vd_panicked = ob_panicked ob\<rparr>)))"

section \<open>The marketplace\<close>

datatype marketplace_category = DeveloperTools | Formatting | Productivity | Security | Translation

record marketplace_example =
  mx_title :: string
  mx_action_id :: string

record marketplace_metadata =
  mm_schema :: u16
  mm_plugin_id :: string
  mm_display_name :: string
  mm_summary :: string
  mm_license :: string
  mm_categories :: "marketplace_category set"
  mm_declared_capabilities :: "plugin_capability set"
  mm_minimum_protocol :: u16
  mm_maximum_protocol :: u16
  mm_documentation_url :: "string option"
  mm_examples :: "marketplace_example list"

definition MARKETPLACE_SCHEMA :: u16 where "MARKETPLACE_SCHEMA = 1"
definition MAX_EXAMPLES :: nat where "MAX_EXAMPLES = 16"

definition valid_license :: "string \<Rightarrow> bool" where
  "valid_license s \<longleftrightarrow> s \<noteq> [] \<and> length s \<le> 64 \<and>
     list_all (\<lambda>b. is_ascii_alphanumeric b \<or> b \<in> {CHR ''.'', CHR ''-'', CHR ''+''}) s"

definition example_validate :: "marketplace_example \<Rightarrow> plugin_error + unit" where
  "example_validate x = require (trim (mx_title x) \<noteq> [] \<and> length (mx_title x) \<le> 80 \<and> \<not> has_control (mx_title x) \<and>
     valid_governance_id (mx_action_id x)) (InvalidBundle ''marketplace example is invalid'')"

definition documentation_validate :: "(string \<Rightarrow> url option) \<Rightarrow> string \<Rightarrow> plugin_error + unit" where
  "documentation_validate parse text = (case parse text of
       None \<Rightarrow> Inl (InvalidBundle ''documentation URL is invalid'')
     | Some u \<Rightarrow> require (credential_free_https u \<and>
         (case url_host u of Some (DomainHost host) \<Rightarrow> is_nonlocal_domain host | _ \<Rightarrow> False))
         (InvalidBundle ''documentation URL must use credential-free HTTPS''))"

definition marketplace_validate ::
  "'sk plugin_env \<Rightarrow> (string \<Rightarrow> url option) \<Rightarrow> marketplace_metadata \<Rightarrow> plugin_manifest \<Rightarrow> plugin_error + unit" where
  "marketplace_validate env parse d m =
     try_then (plugin_manifest_validate env m) (\<lambda>_.
     try_then (require (mm_schema d = MARKETPLACE_SCHEMA \<and> mm_plugin_id d = mf_id m \<and> mm_display_name d = mf_name m \<and>
         trim (mm_summary d) \<noteq> [] \<and> length (mm_summary d) \<le> 280 \<and> \<not> has_control (mm_summary d) \<and>
         valid_license (mm_license d) \<and> mm_categories d \<noteq> {} \<and> card (mm_categories d) \<le> 3 \<and>
         mm_declared_capabilities d = mf_requested_capabilities m \<and>
         mm_minimum_protocol d \<noteq> 0 \<and> mm_minimum_protocol d \<le> mf_protocol_version m \<and>
         mf_protocol_version m \<le> mm_maximum_protocol d \<and> mm_minimum_protocol d \<le> mm_maximum_protocol d \<and>
         length (mm_examples d) \<le> MAX_EXAMPLES)
       (InvalidBundle ''marketplace metadata is invalid or misleading'')) (\<lambda>_.
     try_then (try_all example_validate (mm_examples d)) (\<lambda>_.
     case mm_documentation_url d of None \<Rightarrow> Inr () | Some text \<Rightarrow> documentation_validate parse text)))"

section \<open>Bundles of actions\<close>

definition ACTION_BUNDLE_SCHEMA :: u16 where "ACTION_BUNDLE_SCHEMA = 1"
definition MAX_ACTIONS :: nat where "MAX_ACTIONS = 256"
definition ACTION_SIGNATURE_DOMAIN :: bytes where "ACTION_SIGNATURE_DOMAIN = ''vbuff-action-bundle-v1'' @ [CHR 0x00]"

record action_bundle =
  ab_schema :: u16
  ab_bundle_id :: string
  ab_plugin_id :: string
  ab_plugin_version :: string
  ab_manifest_hash :: bytes
  ab_actions :: "(string, action_permission_request) btree"

definition bundle_entry_validate ::
  "'sk plugin_env \<Rightarrow> plugin_manifest \<Rightarrow> string \<times> action_permission_request \<Rightarrow> plugin_error + unit" where
  "bundle_entry_validate env m entry =
     try_then (require (fst entry = ar_action_id (snd entry)) (InvalidBundle ''action bundle key does not match action id'')) (\<lambda>_.
     action_validate env (snd entry) m)"

text \<open>The hash is computed only when every condition before it in the disjunction holds; its error is the error.\<close>

definition action_bundle_validate :: "'sk plugin_env \<Rightarrow> action_bundle \<Rightarrow> plugin_manifest \<Rightarrow> plugin_error + unit" where
  "action_bundle_validate env b m =
     try_then (plugin_manifest_validate env m) (\<lambda>_.
     try_then (if ab_schema b \<noteq> ACTION_BUNDLE_SCHEMA \<or> \<not> valid_governance_id (ab_bundle_id b) \<or> ab_plugin_id b \<noteq> mf_id m \<or>
         ab_plugin_version b \<noteq> mf_version m then Inr False
       else try_then (manifest_hash env m) (\<lambda>h.
         Inr (ab_manifest_hash b = h \<and> ab_actions b \<noteq> [] \<and> length (ab_actions b) \<le> MAX_ACTIONS))) (\<lambda>sound.
     try_then (require sound (InvalidBundle ''action bundle identity or size is invalid'')) (\<lambda>_.
     try_all (bundle_entry_validate env m) (ab_actions b))))"

definition action_bundle_bytes ::
  "'sk plugin_env \<Rightarrow> (action_bundle \<Rightarrow> string + bytes) \<Rightarrow> action_bundle \<Rightarrow> plugin_manifest \<Rightarrow> plugin_error + bytes" where
  "action_bundle_bytes env json b m = try_then (action_bundle_validate env b m) (\<lambda>_. map_sum PluginSerialization id (json b))"

definition action_bundle_hash ::
  "'sk plugin_env \<Rightarrow> (action_bundle \<Rightarrow> string + bytes) \<Rightarrow> action_bundle \<Rightarrow> plugin_manifest \<Rightarrow> plugin_error + bytes" where
  "action_bundle_hash env json b m = map_sum id (pv_blake3 env) (action_bundle_bytes env json b m)"

record signed_action_bundle =
  sb_bundle_hash :: bytes
  sb_signer_public_key :: bytes
  sb_signature :: bytes

definition action_signature_payload :: "bytes \<Rightarrow> bytes" where
  "action_signature_payload h = ACTION_SIGNATURE_DOMAIN @ h"

definition action_bundle_sign ::
  "'sk plugin_env \<Rightarrow> (action_bundle \<Rightarrow> string + bytes) \<Rightarrow> action_bundle \<Rightarrow> plugin_manifest \<Rightarrow> 'sk \<Rightarrow> plugin_error + signed_action_bundle" where
  "action_bundle_sign env json b m sk = map_sum id (\<lambda>h. \<lparr>sb_bundle_hash = h, sb_signer_public_key = pv_verifying_key env sk,
     sb_signature = pv_sign env sk (action_signature_payload h)\<rparr>) (action_bundle_hash env json b m)"

text \<open>Every failure after the hash is the same error: of the key, of the form of the signature, of the signature.\<close>

definition check_signature :: "'sk plugin_env \<Rightarrow> bytes \<Rightarrow> bytes \<Rightarrow> bytes \<Rightarrow> plugin_error + unit" where
  "check_signature env key payload signature =
     require (pv_key_valid env key \<and> pv_signature_valid env signature \<and> pv_verify env key payload signature) PluginInvalidSignature"

definition action_bundle_verify ::
  "'sk plugin_env \<Rightarrow> (action_bundle \<Rightarrow> string + bytes) \<Rightarrow> signed_action_bundle \<Rightarrow> action_bundle \<Rightarrow> plugin_manifest \<Rightarrow> plugin_error + unit" where
  "action_bundle_verify env json sb b m =
     try_then (action_bundle_hash env json b m) (\<lambda>h.
     try_then (require (sb_bundle_hash sb = h) PluginInvalidSignature) (\<lambda>_.
     check_signature env (sb_signer_public_key sb) (action_signature_payload (sb_bundle_hash sb)) (sb_signature sb)))"

section \<open>The supervisor keeps failures down\<close>

definition plugin_disabled :: "string \<Rightarrow> plugin_supervisor \<Rightarrow> bool" where
  "plugin_disabled p s \<longleftrightarrow> plugin_state s p \<in> {Some DisabledAfterPanic, Some DisabledByPolicy}"

text \<open>The log holds the last failures, numbered without gaps up to the counter, of plugins that are all disabled.\<close>

definition supervisor_log_ok :: "plugin_supervisor \<Rightarrow> bool" where
  "supervisor_log_ok s \<longleftrightarrow> bt_ok (sv_states s) \<and> length (sv_states s) \<le> MAX_SUPERVISED_PLUGINS \<and> length (sv_failures s) \<le> MAX_FAILURES \<and>
     length (sv_failures s) \<le> unat (sv_failure_sequence s) \<and>
     map (unat \<circ> pf_failure_sequence) (sv_failures s) =
       [Suc (unat (sv_failure_sequence s)) - length (sv_failures s) ..< Suc (unat (sv_failure_sequence s))] \<and>
     list_all (\<lambda>r. plugin_disabled (pf_plugin_id r) s) (sv_failures s)"

lemma supervised_iff: "bt_contains (sv_states s) p \<longleftrightarrow> plugin_state s p \<noteq> None"
  by (simp add: bt_contains_def plugin_state_def)

lemma plugin_state_after:
  "plugin_state (fst (supervisor_register s p)) q =
     (if q = p \<and> snd (supervisor_register s p) = Inr () \<and> plugin_state s p = None then Some PluginReady else plugin_state s q)"
  "plugin_state (fst (disable_by_policy s p)) q =
     (if q = p \<and> plugin_state s p \<noteq> None then Some DisabledByPolicy else plugin_state s q)"
  "plugin_state (fst (record_panic s p action now)) q =
     (if q = p \<and> plugin_state s p \<noteq> None \<and> valid_governance_id action \<and> 0 \<le> now then Some DisabledAfterPanic
      else plugin_state s q)"
proof -
  show "plugin_state (fst (supervisor_register s p)) q =
     (if q = p \<and> snd (supervisor_register s p) = Inr () \<and> plugin_state s p = None then Some PluginReady else plugin_state s q)"
    by (cases "map_of (sv_states s) p") (simp_all add: supervisor_register_def bt_contains_def plugin_state_def)
  show "plugin_state (fst (disable_by_policy s p)) q =
     (if q = p \<and> plugin_state s p \<noteq> None then Some DisabledByPolicy else plugin_state s q)"
    by (auto simp: disable_by_policy_def bt_contains_def plugin_state_def)
  show "plugin_state (fst (record_panic s p action now)) q =
     (if q = p \<and> plugin_state s p \<noteq> None \<and> valid_governance_id action \<and> 0 \<le> now then Some DisabledAfterPanic
      else plugin_state s q)"
    by (cases "checked_add (sv_failure_sequence s) 1")
       (auto simp: record_panic_def Let_def bt_contains_def plugin_state_def)
qed

lemma disabled_step: "plugin_disabled p s \<Longrightarrow> plugin_disabled p (plugin_supervisor_step s op)"
  by (cases op) (auto simp: plugin_disabled_def plugin_state_after)

interpretation disabled: machine plugin_supervisor_step "plugin_disabled p" for p
  by unfold_locales (rule disabled_step)

lemma panic_disables:
  "bt_contains (sv_states s) p \<Longrightarrow> valid_governance_id action \<Longrightarrow> 0 \<le> now \<Longrightarrow>
     plugin_disabled p (fst (record_panic s p action now))"
  by (simp add: plugin_disabled_def plugin_state_after supervised_iff)

lemma push_failure_numbers:
  assumes "length log \<le> MAX_FAILURES" and "length log \<le> n" and "map f log = [Suc n - length log ..< Suc n]" and "f r = Suc n"
  shows "length (push_failure log r) \<le> MAX_FAILURES" and "length (push_failure log r) \<le> Suc n"
    and "map f (push_failure log r) = [Suc (Suc n) - length (push_failure log r) ..< Suc (Suc n)]"
proof -
  show "length (push_failure log r) \<le> MAX_FAILURES" "length (push_failure log r) \<le> Suc n"
    using assms(1,2) by (auto simp: push_failure_def MAX_FAILURES_def)
  show "map f (push_failure log r) = [Suc (Suc n) - length (push_failure log r) ..< Suc (Suc n)]"
  proof (cases "length log = MAX_FAILURES")
    case True
    then have "map f (tl log) = [Suc (Suc n - length log) ..< Suc n]"
      by (simp only: map_tl assms(3) tl_upt)
    moreover have "Suc (Suc n - length log) = Suc (Suc n) - length log"
      using assms(2) by simp
    moreover have "[Suc (Suc n) - length log ..< Suc (Suc n)] = [Suc (Suc n) - length log ..< Suc n] @ [Suc n]"
      using assms(2) True by (intro upt_Suc_append) (simp add: MAX_FAILURES_def)
    moreover have "length (push_failure log r) = length log"
      using True by (simp add: push_failure_def MAX_FAILURES_def)
    ultimately show ?thesis
      using True assms(4) by (simp only: push_failure_def if_P map_append list.map)
  next
    case False
    with assms(2-4) show ?thesis
      by (simp add: push_failure_def)
  qed
qed

lemma log_ok_states:
  assumes "supervisor_log_ok s" and "\<And>q. plugin_disabled q s \<Longrightarrow> plugin_disabled q s'"
    and "sv_failures s' = sv_failures s" "sv_failure_sequence s' = sv_failure_sequence s"
    and "bt_ok (sv_states s') \<and> length (sv_states s') \<le> MAX_SUPERVISED_PLUGINS"
  shows "supervisor_log_ok s'"
  using assms by (auto simp: supervisor_log_ok_def list_all_iff)

lemma log_ok_step:
  assumes "supervisor_log_ok s"
  shows "supervisor_log_ok (plugin_supervisor_step s op)"
proof -
  have kept: "plugin_disabled q s \<Longrightarrow> plugin_disabled q (plugin_supervisor_step s op)" for q
    by (rule disabled_step)
  have room: "bt_ok (sv_states s) \<and> length (sv_states s) \<le> MAX_SUPERVISED_PLUGINS"
    using assms by (simp add: supervisor_log_ok_def)
  have states: "bt_ok (sv_states (plugin_supervisor_step s op)) \<and> length (sv_states (plugin_supervisor_step s op)) \<le> MAX_SUPERVISED_PLUGINS"
    using room
    by (cases op) (auto simp: supervisor_register_def disable_by_policy_def record_panic_def Let_def length_bt_insert split: option.splits)
  show ?thesis
  proof (cases "\<exists>p action now report s'. op = PluginPanicked p action now \<and> record_panic s p action now = (s', Inr report)")
    case False
    then have "sv_failures (plugin_supervisor_step s op) = sv_failures s"
      "sv_failure_sequence (plugin_supervisor_step s op) = sv_failure_sequence s"
      by (cases op; auto simp: supervisor_register_def disable_by_policy_def record_panic_def Let_def split: option.splits if_splits)+
    then show ?thesis
      using log_ok_states[OF assms kept] states by blast
  next
    case True
    then obtain p action now report s' where op: "op = PluginPanicked p action now"
      and panic: "record_panic s p action now = (s', Inr report)" by blast
    then have new: "sv_failures s' = push_failure (sv_failures s) report" "pf_plugin_id report = p"
      "checked_add (sv_failure_sequence s) 1 = Some (sv_failure_sequence s')" "pf_failure_sequence report = sv_failure_sequence s'"
      "plugin_disabled p s'"
      using panic_disables[of s p action now]
      by (auto simp: record_panic_def Let_def not_less split: option.splits if_splits)
    then have n: "unat (sv_failure_sequence s') = Suc (unat (sv_failure_sequence s))"
      using unat_checked_add[OF new(3)] by simp
    have s': "plugin_supervisor_step s op = s'" by (simp add: op panic)
    note log = assms[unfolded supervisor_log_ok_def]
    have numbers: "length (sv_failures s') \<le> MAX_FAILURES" "length (sv_failures s') \<le> unat (sv_failure_sequence s')"
      "map (unat \<circ> pf_failure_sequence) (sv_failures s') =
         [Suc (unat (sv_failure_sequence s')) - length (sv_failures s') ..< Suc (unat (sv_failure_sequence s'))]"
      using push_failure_numbers[of "sv_failures s" "unat (sv_failure_sequence s)" "unat \<circ> pf_failure_sequence" report] log new n
      by auto
    have older: "set (tl (sv_failures s)) \<subseteq> set (sv_failures s)"
      by (cases "sv_failures s") auto
    have "list_all (\<lambda>r. plugin_disabled (pf_plugin_id r) s') (sv_failures s')"
      using log new kept older unfolding s'
      by (auto simp: list_all_iff push_failure_def)
    with numbers states show ?thesis by (simp add: supervisor_log_ok_def s')
  qed
qed

interpretation failure_log: machine plugin_supervisor_step supervisor_log_ok
  by unfold_locales (rule log_ok_step)

lemma log_ok_default: "supervisor_log_ok plugin_supervisor_default"
  by (simp add: supervisor_log_ok_def plugin_supervisor_default_def)

text \<open>
  C29. However a supervisor is used, a plugin whose panic was reported never runs again, even when its failure could not be
  numbered or it is registered anew; the log keeps at most 256 failures of at most 1,024 plugins, numbered without gaps
  up to the counter, and every plugin in it is disabled.
\<close>

theorem panicked_plugin_stays_down:
  assumes "bt_contains (sv_states (run plugin_supervisor_step plugin_supervisor_default before)) p"
    and "valid_governance_id action" and "0 \<le> now"
  shows "let s = run plugin_supervisor_step plugin_supervisor_default (before @ PluginPanicked p action now # after) in
    \<not> can_run s p \<and> length (sv_states s) \<le> 1024 \<and> length (sv_failures s) \<le> 256 \<and>
    map (unat \<circ> pf_failure_sequence) (sv_failures s) =
      [Suc (unat (sv_failure_sequence s)) - length (sv_failures s) ..< Suc (unat (sv_failure_sequence s))] \<and>
    list_all (\<lambda>r. \<not> can_run s (pf_plugin_id r)) (sv_failures s)"
proof -
  define s where "s = run plugin_supervisor_step plugin_supervisor_default (before @ PluginPanicked p action now # after)"
  have never: "plugin_disabled q s \<Longrightarrow> \<not> can_run s q" for q
    by (auto simp: plugin_disabled_def can_run_def)
  have "plugin_disabled p s"
    using disabled.inv_run[OF panic_disables[OF assms]] by (simp add: s_def)
  moreover have "supervisor_log_ok s"
    unfolding s_def by (rule failure_log.inv_run[OF log_ok_default])
  ultimately show ?thesis
    using never unfolding s_def[symmetric] Let_def
    by (auto simp: supervisor_log_ok_def MAX_FAILURES_def MAX_SUPERVISED_PLUGINS_def list_all_iff)
qed

theorem panicked_plugin_stays_down_witness:
  "\<not> can_run (run plugin_supervisor_step plugin_supervisor_default
     ([RegisterPlugin ''p''] @ PluginPanicked ''p'' ''a'' 5 # [RegisterPlugin ''p''])) ''p''"
proof -
  have ids: "valid_governance_id ''p''" "valid_governance_id ''a''"
    by (simp_all add: valid_governance_id_def is_ascii_alphanumeric_def)
  have "bt_contains (sv_states (run plugin_supervisor_step plugin_supervisor_default [RegisterPlugin ''p''])) ''p''"
    by (simp add: supervisor_register_def ids plugin_supervisor_default_def MAX_SUPERVISED_PLUGINS_def bt_contains_def)
  from panicked_plugin_stays_down[OF this ids(2), of 5 "[RegisterPlugin ''p'']"] show ?thesis
    by (simp only: Let_def) simp
qed

end
