(* ===== verification/Plugin_Bundle.thy ===== *)
theory Plugin_Bundle
  imports Plugin_Governance
begin

text \<open>
  What a plugin is shipped as and how it is spoken to: \<open>crates/vbuff-plugin/src/bundle.rs\<close> (the reproducible bytes of a
  bundle, its signature and the lockfile), \<open>offline.rs\<close> (signed evidence of a run without network) and \<open>protocol.rs\<close>
  (length-prefixed frames over a pipe). JSON codecs are arguments. A \<open>usize\<close> is a natural number below 2^64; the
  conversions to \<open>u64\<close> keep their error branch. Reading from a pipe consumes a byte list.
\<close>

section \<open>The bytes of a bundle\<close>

definition MAX_EXECUTABLE_BYTES :: nat where "MAX_EXECUTABLE_BYTES = 64 * 1024 * 1024"
definition MAX_ASSETS :: nat where "MAX_ASSETS = 1024"
definition MAX_ASSET_BYTES :: nat where "MAX_ASSET_BYTES = 64 * 1024 * 1024"

record plugin_bundle =
  pb_manifest :: plugin_manifest
  pb_executable :: bytes
  pb_assets :: "(string, bytes) btree"

definition append_u64 :: "bytes \<Rightarrow> nat \<Rightarrow> plugin_error + bytes" where
  "append_u64 output n = (if n < 2 ^ 64 then Inr (output @ be_bytes 8 n) else Inl (InvalidBundle ''bundle field is too large''))"

definition append_field :: "bytes \<Rightarrow> bytes \<Rightarrow> plugin_error + bytes" where
  "append_field output b = map_sum id (\<lambda>out. out @ b) (append_u64 output (length b))"

fun check_assets :: "nat \<Rightarrow> (string, bytes) btree \<Rightarrow> plugin_error + nat" where
  "check_assets n [] = Inr n"
| "check_assets n ((path, b) # rest) =
     try_then (validate_relative_path path) (\<lambda>_.
     try_then (require (length path \<le> 512) (InvalidBundle ''asset path is too long'')) (\<lambda>_.
     if n + length b < 2 ^ 64 then check_assets (n + length b) rest
     else Inl (InvalidBundle ''asset size overflow'')))"

fun append_assets :: "bytes \<Rightarrow> (string, bytes) btree \<Rightarrow> plugin_error + bytes" where
  "append_assets output [] = Inr output"
| "append_assets output ((path, b) # rest) =
     try_then (append_field output path) (\<lambda>out.
     try_then (append_field out b) (\<lambda>out'. append_assets out' rest))"

definition BUNDLE_DOMAIN :: bytes where "BUNDLE_DOMAIN = ''vbuff-native-plugin-bundle-v2'' @ [CHR 0x00]"

definition reproducible_bytes :: "'sk plugin_env \<Rightarrow> plugin_bundle \<Rightarrow> plugin_error + bytes" where
  "reproducible_bytes env b =
     try_then (plugin_manifest_validate env (pb_manifest b)) (\<lambda>_.
     try_then (require (pb_executable b \<noteq> [] \<and> length (pb_executable b) \<le> MAX_EXECUTABLE_BYTES)
       (InvalidBundle ''native plugin executable is empty or too large'')) (\<lambda>_.
     try_then (require (length (pb_assets b) \<le> MAX_ASSETS) (InvalidBundle ''too many assets'')) (\<lambda>_.
     try_then (check_assets 0 (pb_assets b)) (\<lambda>n.
     try_then (require (n \<le> MAX_ASSET_BYTES) (InvalidBundle ''assets are too large'')) (\<lambda>_.
     try_then (manifest_bytes env (pb_manifest b)) (\<lambda>manifest.
     try_then (append_field BUNDLE_DOMAIN manifest) (\<lambda>out1.
     try_then (append_field out1 (pb_executable b)) (\<lambda>out2.
     try_then (append_u64 out2 (length (pb_assets b))) (\<lambda>out3.
     append_assets out3 (pb_assets b))))))))))"

definition bundle_hash :: "'sk plugin_env \<Rightarrow> plugin_bundle \<Rightarrow> plugin_error + bytes" where
  "bundle_hash env b = map_sum id (pv_blake3 env) (reproducible_bytes env b)"

record signed_bundle =
  sg_bundle_hash :: bytes
  sg_signer_public_key :: bytes
  sg_signature :: bytes

definition bundle_sign :: "'sk plugin_env \<Rightarrow> plugin_bundle \<Rightarrow> 'sk \<Rightarrow> plugin_error + signed_bundle" where
  "bundle_sign env b sk = map_sum id (\<lambda>h. \<lparr>sg_bundle_hash = h, sg_signer_public_key = pv_verifying_key env sk,
     sg_signature = pv_sign env sk h\<rparr>) (bundle_hash env b)"

definition bundle_verify :: "'sk plugin_env \<Rightarrow> signed_bundle \<Rightarrow> plugin_bundle \<Rightarrow> plugin_error + unit" where
  "bundle_verify env sg b =
     try_then (bundle_hash env b) (\<lambda>h.
     try_then (require (sg_bundle_hash sg = h) PluginInvalidSignature) (\<lambda>_.
     check_signature env (sg_signer_public_key sg) (sg_bundle_hash sg) (sg_signature sg)))"

section \<open>The lockfile\<close>

record locked_plugin =
  lk_version :: string
  lk_bundle_hash :: bytes
  lk_signer_public_key :: bytes

record plugin_lock =
  pl_schema_version :: u16
  pl_plugins :: "(string, locked_plugin) btree"

definition plugin_lock_default :: plugin_lock where
  "plugin_lock_default = \<lparr>pl_schema_version = 1, pl_plugins = []\<rparr>"

definition lock_record :: "'sk plugin_env \<Rightarrow> plugin_lock \<Rightarrow> plugin_bundle \<Rightarrow> signed_bundle \<Rightarrow> plugin_error + plugin_lock" where
  "lock_record env l b sg = try_then (bundle_verify env sg b) (\<lambda>_.
     Inr (l\<lparr>pl_plugins := bt_insert (mf_id (pb_manifest b))
       \<lparr>lk_version = mf_version (pb_manifest b), lk_bundle_hash = sg_bundle_hash sg, lk_signer_public_key = sg_signer_public_key sg\<rparr>
       (pl_plugins l)\<rparr>))"

definition lock_verify :: "'sk plugin_env \<Rightarrow> plugin_lock \<Rightarrow> plugin_bundle \<Rightarrow> signed_bundle \<Rightarrow> plugin_error + unit" where
  "lock_verify env l b sg = try_then (bundle_verify env sg b) (\<lambda>_.
     case map_of (pl_plugins l) (mf_id (pb_manifest b)) of
       None \<Rightarrow> Inl (InvalidBundle ''plugin is absent from lockfile'')
     | Some locked \<Rightarrow> require (lk_version locked = mf_version (pb_manifest b) \<and> lk_bundle_hash locked = sg_bundle_hash sg \<and>
         lk_signer_public_key locked = sg_signer_public_key sg) PluginInvalidSignature)"

section \<open>Offline runs\<close>

record offline_evidence =
  oe_schema :: u16
  oe_manifest_hash :: bytes
  oe_model_hash :: bytes
  oe_started_at_ms :: u64
  oe_finished_at_ms :: u64
  oe_attempted_network_calls :: u64

definition OFFLINE_SIGNATURE_DOMAIN :: bytes where "OFFLINE_SIGNATURE_DOMAIN = ''vbuff-offline-run-v1'' @ [CHR 0x00]"

definition evidence_validate :: "offline_evidence \<Rightarrow> plugin_error + unit" where
  "evidence_validate ev = require (oe_schema ev = 1 \<and> oe_attempted_network_calls ev = 0 \<and> oe_started_at_ms ev \<le> oe_finished_at_ms ev)
     (CapabilityDenied ''offline execution evidence is invalid'')"

definition evidence_from_manifest ::
  "'sk plugin_env \<Rightarrow> plugin_manifest \<Rightarrow> bytes \<Rightarrow> u64 \<Rightarrow> u64 \<Rightarrow> u64 \<Rightarrow> plugin_error + offline_evidence" where
  "evidence_from_manifest env m model started finished calls =
     try_then (plugin_manifest_validate env m) (\<lambda>_.
     try_then (require (Network \<notin> mf_requested_capabilities m \<and> mf_network_hosts m = {} \<and> calls = 0 \<and> started \<le> finished)
       (CapabilityDenied ''offline execution cannot request or attempt network access'')) (\<lambda>_.
     try_then (manifest_hash env m) (\<lambda>h.
     let ev = \<lparr>oe_schema = 1, oe_manifest_hash = h, oe_model_hash = model, oe_started_at_ms = started, oe_finished_at_ms = finished,
       oe_attempted_network_calls = calls\<rparr> in
     try_then (evidence_validate ev) (\<lambda>_. Inr ev))))"

definition evidence_bytes :: "(offline_evidence \<Rightarrow> string + bytes) \<Rightarrow> offline_evidence \<Rightarrow> plugin_error + bytes" where
  "evidence_bytes json ev = try_then (evidence_validate ev) (\<lambda>_. map_sum PluginSerialization id (json ev))"

definition evidence_signing_bytes :: "(offline_evidence \<Rightarrow> string + bytes) \<Rightarrow> offline_evidence \<Rightarrow> plugin_error + bytes" where
  "evidence_signing_bytes json ev = map_sum id (\<lambda>b. OFFLINE_SIGNATURE_DOMAIN @ b) (evidence_bytes json ev)"

record offline_attestation =
  oa_evidence :: offline_evidence
  oa_host_public_key :: bytes
  oa_signature :: bytes

definition attestation_sign ::
  "'sk plugin_env \<Rightarrow> (offline_evidence \<Rightarrow> string + bytes) \<Rightarrow> offline_evidence \<Rightarrow> 'sk \<Rightarrow> plugin_error + offline_attestation" where
  "attestation_sign env json ev sk = map_sum id (\<lambda>b. \<lparr>oa_evidence = ev, oa_host_public_key = pv_verifying_key env sk,
     oa_signature = pv_sign env sk b\<rparr>) (evidence_signing_bytes json ev)"

text \<open>The key and the form of the signature are checked before the bytes are computed again.\<close>

definition attestation_verify ::
  "'sk plugin_env \<Rightarrow> (offline_evidence \<Rightarrow> string + bytes) \<Rightarrow> offline_attestation \<Rightarrow> plugin_error + unit" where
  "attestation_verify env json a =
     try_then (evidence_validate (oa_evidence a)) (\<lambda>_.
     try_then (require (pv_key_valid env (oa_host_public_key a) \<and> pv_signature_valid env (oa_signature a)) PluginInvalidSignature) (\<lambda>_.
     try_then (evidence_signing_bytes json (oa_evidence a)) (\<lambda>b.
     require (pv_verify env (oa_host_public_key a) b (oa_signature a)) PluginInvalidSignature)))"

section \<open>Frames\<close>

definition MAX_FRAME_BYTES :: nat where "MAX_FRAME_BYTES = 8 * 1024 * 1024"

datatype host_frame =
    Welcome u16 bytes
  | Invoke u64 string bytes
  | CancelRequest u64
  | Shutdown

datatype plugin_frame =
    Hello string u16 bytes
  | ResultFrame u64 bytes
  | RejectedFrame u64 string

definition encode_frame :: "('f \<Rightarrow> string + bytes) \<Rightarrow> 'f \<Rightarrow> plugin_error + bytes" where
  "encode_frame json frame =
     try_then (map_sum PluginSerialization id (json frame)) (\<lambda>payload.
     try_then (require (length payload \<le> MAX_FRAME_BYTES) (PluginInvalidInput ''plugin frame is too large'')) (\<lambda>_.
     try_then (require (length payload < 2 ^ 32) (PluginInvalidInput ''plugin frame is too large'')) (\<lambda>_.
     Inr (be_bytes 4 (length payload) @ payload))))"

definition decode_frame :: "(bytes \<Rightarrow> string + 'f) \<Rightarrow> bytes \<Rightarrow> plugin_error + 'f" where
  "decode_frame parse frame =
     try_then (require (4 \<le> length frame) (PluginInvalidInput ''plugin frame header is truncated'')) (\<lambda>_.
     let n = from_be_bytes (take 4 frame) in
     try_then (require (n \<le> MAX_FRAME_BYTES) (PluginInvalidInput ''plugin frame is too large'')) (\<lambda>_.
     try_then (require (4 + n < 2 ^ 64) (PluginInvalidInput ''plugin frame length overflow'')) (\<lambda>_.
     try_then (require (length frame = 4 + n) (PluginInvalidInput ''plugin frame length does not match its payload'')) (\<lambda>_.
     map_sum PluginSerialization id (parse (drop 4 frame))))))"

definition read_exact :: "nat \<Rightarrow> bytes \<Rightarrow> (bytes \<times> bytes) option" where
  "read_exact n pipe = (if n \<le> length pipe then Some (take n pipe, drop n pipe) else None)"

text \<open>The frame and what is left in the pipe.\<close>

definition read_frame :: "(bytes \<Rightarrow> string + 'f) \<Rightarrow> bytes \<Rightarrow> plugin_error + ('f \<times> bytes)" where
  "read_frame parse pipe = (case read_exact 4 pipe of
       None \<Rightarrow> Inl (PluginInvalidInput ''plugin frame header is truncated'')
     | Some (header, rest) \<Rightarrow>
        let n = from_be_bytes header in
        if MAX_FRAME_BYTES < n then Inl (PluginInvalidInput ''plugin frame is too large'')
        else (case read_exact n rest of
            None \<Rightarrow> Inl (PluginInvalidInput ''plugin frame payload is truncated'')
          | Some (payload, rest') \<Rightarrow> map_sum PluginSerialization (\<lambda>f. (f, rest')) (parse payload)))"

definition protocol_hash :: "'sk plugin_env \<Rightarrow> bytes" where
  "protocol_hash env = pv_blake3 env ''vbuff-native-plugin-protocol-v1-len32be-json-pipe''"

section \<open>A bundle is determined by its bytes\<close>

definition field_bytes :: "bytes \<Rightarrow> bytes" where
  "field_bytes b = be_bytes 8 (length b) @ b"

definition asset_bytes :: "string \<times> bytes \<Rightarrow> bytes" where
  "asset_bytes a = field_bytes (fst a) @ field_bytes (snd a)"

lemma append_u64_Inr: "append_u64 out n = Inr r \<longleftrightarrow> n < 2 ^ 64 \<and> r = out @ be_bytes 8 n"
  by (auto simp: append_u64_def)

lemma append_field_Inr: "append_field out b = Inr r \<longleftrightarrow> length b < 2 ^ 64 \<and> r = out @ field_bytes b"
  by (auto simp: append_field_def append_u64_def field_bytes_def)

lemma append_assets_Inr:
  "append_assets out assets = Inr r \<longleftrightarrow>
     (\<forall>a \<in> set assets. length (fst a) < 2 ^ 64 \<and> length (snd a) < 2 ^ 64) \<and> r = out @ concat (map asset_bytes assets)"
  by (induction out assets rule: append_assets.induct) (auto simp: try_then_eq_Inr append_field_Inr asset_bytes_def)

lemma field_append_inject:
  assumes "length a < 2 ^ 64" and "length b < 2 ^ 64"
  shows "field_bytes a @ x = field_bytes b @ y \<longleftrightarrow> a = b \<and> x = y"
proof
  assume eq: "field_bytes a @ x = field_bytes b @ y"
  then have "be_bytes 8 (length a) = be_bytes 8 (length b)"
    by (simp add: field_bytes_def append_eq_append_conv)
  then have "length a = length b"
    by (rule be_bytes_inject) (use assms in auto)
  with eq show "a = b \<and> x = y"
    by (simp add: field_bytes_def append_eq_append_conv)
qed simp

lemma assets_inject:
  "length as = length bs \<Longrightarrow> \<forall>a \<in> set as \<union> set bs. length (fst a) < 2 ^ 64 \<and> length (snd a) < 2 ^ 64 \<Longrightarrow>
     concat (map asset_bytes as) = concat (map asset_bytes bs) \<Longrightarrow> as = bs"
proof (induction as bs rule: list_induct2)
  case (Cons a as b bs)
  then have "fst a = fst b \<and> snd a = snd b \<and> concat (map asset_bytes as) = concat (map asset_bytes bs)"
    by (auto simp: asset_bytes_def field_append_inject)
  with Cons show ?case by (simp add: prod_eq_iff)
qed simp

lemma reproducible_bytes_Inr:
  assumes "reproducible_bytes env b = Inr r"
  obtains manifest where "pv_json_manifest env (pb_manifest b) = Inr manifest"
    and "length manifest < 2 ^ 64" and "length (pb_executable b) < 2 ^ 64" and "length (pb_assets b) < 2 ^ 64"
    and "\<forall>a \<in> set (pb_assets b). length (fst a) < 2 ^ 64 \<and> length (snd a) < 2 ^ 64"
    and "r = BUNDLE_DOMAIN @ field_bytes manifest @ field_bytes (pb_executable b) @ be_bytes 8 (length (pb_assets b)) @
      concat (map asset_bytes (pb_assets b))"
  using assms
  by (cases "pv_json_manifest env (pb_manifest b)")
     (auto simp: reproducible_bytes_def manifest_bytes_def try_then_eq_Inr require_Inr append_field_Inr append_u64_Inr
       append_assets_Inr)

lemma reproducible_bytes_inject:
  assumes "reproducible_bytes env b = Inr r" and "reproducible_bytes env b' = Inr r"
  shows "pv_json_manifest env (pb_manifest b) = pv_json_manifest env (pb_manifest b') \<and>
    pb_executable b = pb_executable b' \<and> pb_assets b = pb_assets b'"
proof -
  obtain m where b: "pv_json_manifest env (pb_manifest b) = Inr m" "length m < 2 ^ 64" "length (pb_executable b) < 2 ^ 64"
    "length (pb_assets b) < 2 ^ 64" "\<forall>a \<in> set (pb_assets b). length (fst a) < 2 ^ 64 \<and> length (snd a) < 2 ^ 64"
    "r = BUNDLE_DOMAIN @ field_bytes m @ field_bytes (pb_executable b) @ be_bytes 8 (length (pb_assets b)) @
      concat (map asset_bytes (pb_assets b))"
    using assms(1) by (rule reproducible_bytes_Inr)
  obtain m' where b': "pv_json_manifest env (pb_manifest b') = Inr m'" "length m' < 2 ^ 64" "length (pb_executable b') < 2 ^ 64"
    "length (pb_assets b') < 2 ^ 64" "\<forall>a \<in> set (pb_assets b'). length (fst a) < 2 ^ 64 \<and> length (snd a) < 2 ^ 64"
    "r = BUNDLE_DOMAIN @ field_bytes m' @ field_bytes (pb_executable b') @ be_bytes 8 (length (pb_assets b')) @
      concat (map asset_bytes (pb_assets b'))"
    using assms(2) by (rule reproducible_bytes_Inr)
  have "field_bytes m @ field_bytes (pb_executable b) @ be_bytes 8 (length (pb_assets b)) @ concat (map asset_bytes (pb_assets b)) =
      field_bytes m' @ field_bytes (pb_executable b') @ be_bytes 8 (length (pb_assets b')) @ concat (map asset_bytes (pb_assets b'))"
    using b(6) b'(6) by simp
  then have fields: "m = m'" "pb_executable b = pb_executable b'"
    and count: "be_bytes 8 (length (pb_assets b)) = be_bytes 8 (length (pb_assets b'))"
    and assets: "concat (map asset_bytes (pb_assets b)) = concat (map asset_bytes (pb_assets b'))"
    using b(2,3) b'(2,3) by (simp_all add: field_append_inject)
  have "length (pb_assets b) = length (pb_assets b')"
    using count by (rule be_bytes_inject) (use b(4) b'(4) in auto)
  with assets b(5) b'(5) have "pb_assets b = pb_assets b'"
    by (intro assets_inject) auto
  with fields b(1) b'(1) show ?thesis by simp
qed

lemma bundle_verify_Inr:
  "bundle_verify env sg b = Inr u \<longleftrightarrow> bundle_hash env b = Inr (sg_bundle_hash sg) \<and> pv_key_valid env (sg_signer_public_key sg) \<and>
     pv_signature_valid env (sg_signature sg) \<and> pv_verify env (sg_signer_public_key sg) (sg_bundle_hash sg) (sg_signature sg)"
  by (auto simp: bundle_verify_def check_signature_def result_simps)

lemma bundle_hash_Inr: "bundle_hash env b = Inr h \<longleftrightarrow> (\<exists>r. reproducible_bytes env b = Inr r \<and> h = pv_blake3 env r)"
  by (cases "reproducible_bytes env b") (auto simp: bundle_hash_def)

lemma lock_record_Inr:
  "lock_record env l b sg = Inr l' \<Longrightarrow> bundle_verify env sg b = Inr () \<and>
     map_of (pl_plugins l') (mf_id (pb_manifest b)) = Some \<lparr>lk_version = mf_version (pb_manifest b),
       lk_bundle_hash = sg_bundle_hash sg, lk_signer_public_key = sg_signer_public_key sg\<rparr>"
  by (auto simp: lock_record_def try_then_eq_Inr)

lemma lock_verify_Inr:
  "lock_verify env l b sg = Inr u \<longleftrightarrow> bundle_verify env sg b = Inr () \<and>
     map_of (pl_plugins l) (mf_id (pb_manifest b)) = Some \<lparr>lk_version = mf_version (pb_manifest b),
       lk_bundle_hash = sg_bundle_hash sg, lk_signer_public_key = sg_signer_public_key sg\<rparr>"
  by (auto simp: lock_verify_def try_then_eq_Inr require_Inr split: option.splits intro: locked_plugin.equality)

text \<open>
  C30. A lockfile pins the plugin. When a bundle was recorded, a bundle of the same plugin id passes the lockfile only if it
  is that bundle: the same executable, the same assets and the same manifest, signed by the same key with a signature that
  verifies. What it rests on is stated for these two bundles only: their bytes do not collide under BLAKE3, and the JSON of
  their manifests is the same only for the same manifest. The recorded bundle itself passes.
\<close>

theorem lockfile_pins_bundle:
  assumes "lock_record env l b sg = Inr l'"
    and "\<And>x y. reproducible_bytes env b = Inr x \<Longrightarrow> reproducible_bytes env b' = Inr y \<Longrightarrow>
      pv_blake3 env x = pv_blake3 env y \<Longrightarrow> x = y"
    and "pv_json_manifest env (pb_manifest b) = pv_json_manifest env (pb_manifest b') \<Longrightarrow> pb_manifest b = pb_manifest b'"
    and "mf_id (pb_manifest b') = mf_id (pb_manifest b)"
  shows "lock_verify env l' b sg = Inr () \<and>
    (lock_verify env l' b' sg' = Inr () \<longleftrightarrow>
       b' = b \<and> sg_signer_public_key sg' = sg_signer_public_key sg \<and> bundle_verify env sg' b' = Inr ())"
proof -
  note recorded = lock_record_Inr[OF assms(1)]
  have same: "b' = b" if "bundle_hash env b' = bundle_hash env b"
  proof -
    obtain x where x: "reproducible_bytes env b = Inr x" "bundle_hash env b = Inr (pv_blake3 env x)"
      using recorded by (auto simp: bundle_verify_Inr bundle_hash_Inr)
    with that obtain y where "reproducible_bytes env b' = Inr y" "pv_blake3 env x = pv_blake3 env y"
      by (auto simp: bundle_hash_Inr dest: sym)
    with x assms(2) have "reproducible_bytes env b' = Inr x" by metis
    from reproducible_bytes_inject[OF x(1) this] assms(3) show ?thesis
      by (intro plugin_bundle.equality) auto
  qed
  have "lock_verify env l' b sg = Inr ()"
    using recorded by (simp add: lock_verify_Inr)
  moreover have "lock_verify env l' b' sg' = Inr () \<longleftrightarrow>
      b' = b \<and> sg_signer_public_key sg' = sg_signer_public_key sg \<and> bundle_verify env sg' b' = Inr ()"
  proof
    assume passed: "lock_verify env l' b' sg' = Inr ()"
    then have entry: "sg_bundle_hash sg' = sg_bundle_hash sg" "sg_signer_public_key sg' = sg_signer_public_key sg"
      using recorded assms(4) by (simp_all add: lock_verify_Inr)
    have "bundle_hash env b' = bundle_hash env b"
      using passed recorded entry(1) by (simp add: lock_verify_Inr bundle_verify_Inr)
    then show "b' = b \<and> sg_signer_public_key sg' = sg_signer_public_key sg \<and> bundle_verify env sg' b' = Inr ()"
      using same entry(2) passed by (simp add: lock_verify_Inr)
  next
    assume signed: "b' = b \<and> sg_signer_public_key sg' = sg_signer_public_key sg \<and> bundle_verify env sg' b' = Inr ()"
    then have "sg_bundle_hash sg' = sg_bundle_hash sg"
      using recorded by (auto simp: bundle_verify_Inr)
    with signed recorded show "lock_verify env l' b' sg' = Inr ()"
      by (auto simp: lock_verify_Inr)
  qed
  ultimately show ?thesis by simp
qed

section \<open>Frames\<close>

lemma encode_frame_Inr:
  "encode_frame json f = Inr b \<longleftrightarrow> (\<exists>payload. json f = Inr payload \<and> length payload \<le> MAX_FRAME_BYTES \<and>
     b = be_bytes 4 (length payload) @ payload)"
  by (cases "json f") (auto simp: encode_frame_def try_then_eq_Inr require_Inr MAX_FRAME_BYTES_def)

lemma read_frame_truncated:
  assumes "n < length b" and "encode_frame json f = Inr b"
  shows "\<exists>e. read_frame parse (take n b) = Inl (PluginInvalidInput e)"
proof -
  obtain payload where payload: "length payload \<le> MAX_FRAME_BYTES" "b = be_bytes 4 (length payload) @ payload"
    using assms(2) by (auto simp: encode_frame_Inr)
  have "from_be_bytes (be_bytes 4 (length payload)) = length payload"
    using payload(1) by (intro from_be_bytes_be_bytes) (simp add: MAX_FRAME_BYTES_def)
  with payload assms(1) show ?thesis
    by (cases "n < 4") (auto simp: read_frame_def read_exact_def Let_def)
qed

text \<open>
  The frames of the plugin protocol separate themselves. Whatever follows an encoded frame in the pipe, reading gives
  the frame back and leaves exactly what follows; a pipe that ends inside the frame is an error and never a shorter
  frame; a buffer decodes exactly when it is one whole frame, and no length beyond 8 MiB is read.
\<close>

lemma frames_are_self_delimiting:
  assumes "\<And>g p. json g = Inr p \<Longrightarrow> parse p = Inr g" and "encode_frame json f = Inr b"
  shows "read_frame parse (b @ rest) = Inr (f, rest) \<and>
    decode_frame parse (b @ rest) =
      (if rest = [] then Inr f else Inl (PluginInvalidInput ''plugin frame length does not match its payload'')) \<and>
    (\<forall>n < length b. \<exists>e. read_frame parse (take n b) = Inl (PluginInvalidInput e)) \<and> length b \<le> 4 + 8 * 1024 * 1024"
proof -
  obtain payload where payload: "json f = Inr payload" "length payload \<le> MAX_FRAME_BYTES" "b = be_bytes 4 (length payload) @ payload"
    using assms(2) by (auto simp: encode_frame_Inr)
  have header: "from_be_bytes (be_bytes 4 (length payload)) = length payload"
    using payload(2) by (intro from_be_bytes_be_bytes) (simp add: MAX_FRAME_BYTES_def)
  have "read_frame parse (b @ rest) = Inr (f, rest)"
    using payload header assms(1) by (simp add: read_frame_def read_exact_def Let_def)
  moreover have "decode_frame parse (b @ rest) =
      (if rest = [] then Inr f else Inl (PluginInvalidInput ''plugin frame length does not match its payload''))"
    using payload header assms(1) by (simp add: decode_frame_def Let_def MAX_FRAME_BYTES_def)
  moreover have "\<forall>n < length b. \<exists>e. read_frame parse (take n b) = Inl (PluginInvalidInput e)"
    using read_frame_truncated[OF _ assms(2)] by blast
  moreover have "length b \<le> 4 + 8 * 1024 * 1024"
    using payload by (simp add: MAX_FRAME_BYTES_def)
  ultimately show ?thesis by blast
qed

definition sample_bundle :: plugin_bundle where
  "sample_bundle = \<lparr>pb_manifest = sample_manifest, pb_executable = ''x'', pb_assets = [(''i'', ''y'')]\<rparr>"

lemma sample_manifest_hash: "manifest_bytes sample_plugin_env sample_manifest = Inr ''p1.0.0''"
  using sample_manifest_valid by (simp add: manifest_bytes_def sample_plugin_env_def sample_manifest_def)

lemma sample_bundle_bytes: "\<exists>x. reproducible_bytes sample_plugin_env sample_bundle = Inr x"
proof -
  have "relative_path_ok ''i''" by code_simp
  then show ?thesis
    using sample_manifest_valid sample_manifest_hash
    by (simp add: reproducible_bytes_def sample_bundle_def validate_relative_path_def append_field_def append_u64_def
        MAX_EXECUTABLE_BYTES_def MAX_ASSETS_def MAX_ASSET_BYTES_def)
qed

text \<open>A bundle signed with the sample key, recorded, and checked again under another signature.\<close>

theorem lockfile_pins_bundle_witness:
  "\<exists>x l. lock_record sample_plugin_env plugin_lock_default sample_bundle
       \<lparr>sg_bundle_hash = x, sg_signer_public_key = [], sg_signature = x\<rparr> = Inr l \<and>
     lock_verify sample_plugin_env l sample_bundle \<lparr>sg_bundle_hash = x, sg_signer_public_key = [], sg_signature = x\<rparr> = Inr () \<and>
     lock_verify sample_plugin_env l (sample_bundle\<lparr>pb_executable := ''z''\<rparr>)
       \<lparr>sg_bundle_hash = x, sg_signer_public_key = [], sg_signature = x\<rparr> \<noteq> Inr ()"
proof -
  obtain x where x: "reproducible_bytes sample_plugin_env sample_bundle = Inr x"
    using sample_bundle_bytes by blast
  define sg where "sg = \<lparr>sg_bundle_hash = x, sg_signer_public_key = [] :: bytes, sg_signature = x\<rparr>"
  have "bundle_verify sample_plugin_env sg sample_bundle = Inr ()"
    using x by (auto simp: bundle_verify_Inr bundle_hash_Inr sg_def) (auto simp: sample_plugin_env_def)
  then obtain l where l: "lock_record sample_plugin_env plugin_lock_default sample_bundle sg = Inr l"
    by (simp add: lock_record_def)
  have "lock_verify sample_plugin_env l sample_bundle sg = Inr () \<and>
      (lock_verify sample_plugin_env l (sample_bundle\<lparr>pb_executable := ''z''\<rparr>) sg = Inr () \<longleftrightarrow>
        sample_bundle\<lparr>pb_executable := ''z''\<rparr> = sample_bundle \<and> sg_signer_public_key sg = sg_signer_public_key sg \<and>
        bundle_verify sample_plugin_env sg (sample_bundle\<lparr>pb_executable := ''z''\<rparr>) = Inr ())"
    by (rule lockfile_pins_bundle[OF l]) (simp_all add: sample_plugin_env_def sample_bundle_def)
  then show ?thesis
    using l unfolding sg_def by (intro exI[of _ x] exI[of _ l]) (simp add: sample_bundle_def)
qed

lemma frames_are_self_delimiting_witness:
  "read_frame Inr (be_bytes 4 2 @ ''ok'' @ be_bytes 4 1 @ ''n'') = Inr (''ok'', be_bytes 4 1 @ ''n'')"
proof -
  have frame: "encode_frame Inr ''ok'' = Inr (be_bytes 4 2 @ ''ok'')"
    by (simp add: encode_frame_def MAX_FRAME_BYTES_def) (simp add: numeral_2_eq_2)
  show ?thesis
    using frames_are_self_delimiting[OF _ frame, of Inr "be_bytes 4 1 @ ''n''"] by simp
qed

end
