(* ===== verification/Plugin_Migration.thy ===== *)
theory Plugin_Migration
  imports Plugin_Error Clip_Types Secret Validation
begin

text \<open>
  Imports and migrations, \<open>crates/vbuff-plugin/src/adapter.rs\<close> (the host's limits around import and export adapters) and
  \<open>migration.rs\<close> (the preflight of a migration, the tracker of a live one, the journal of an import). An adapter is the
  record of its methods. A \<open>usize\<close> counter that saturates is a natural number capped at 2^64 - 1. The entropy test of the
  secret detector and BLAKE3 are arguments.
\<close>

section \<open>Adapters\<close>

record import_record =
  ir_flavors :: "flavor list"
  ir_kind_hint :: "content_kind option"
  ir_created_at_ms :: "int option"
  ir_source_label :: "string option"

record export_record =
  er_flavors :: "flavor list"
  er_kind :: content_kind
  er_created_at_ms :: int

record import_adapter =
  ia_format_id :: string
  ia_confidence :: "bytes \<Rightarrow> u8"
  ia_import :: "bytes \<Rightarrow> plugin_error + import_record list"

record export_adapter =
  ea_format_id :: string
  ea_export :: "export_record list \<Rightarrow> plugin_error + bytes"

record adapter_limits =
  al_maximum_input_bytes :: nat
  al_maximum_records :: nat
  al_maximum_flavors_per_record :: nat
  al_maximum_total_payload_bytes :: u64
  al_maximum_output_bytes :: nat

definition adapter_limits_default :: adapter_limits where
  "adapter_limits_default = \<lparr>al_maximum_input_bytes = 64 * 1024 * 1024, al_maximum_records = 100000,
     al_maximum_flavors_per_record = 32, al_maximum_total_payload_bytes = 512 * 1024 * 1024,
     al_maximum_output_bytes = 64 * 1024 * 1024\<rparr>"

definition limits_validate :: "adapter_limits \<Rightarrow> plugin_error + unit" where
  "limits_validate l = require
     (al_maximum_input_bytes l \<noteq> 0 \<and> al_maximum_input_bytes l \<le> 512 * 1024 * 1024 \<and>
      al_maximum_records l \<noteq> 0 \<and> al_maximum_records l \<le> 1000000 \<and>
      al_maximum_flavors_per_record l \<noteq> 0 \<and> al_maximum_flavors_per_record l \<le> 128 \<and>
      al_maximum_total_payload_bytes l \<noteq> 0 \<and> al_maximum_total_payload_bytes l \<le> 4 * 1024 * 1024 * 1024 \<and>
      al_maximum_output_bytes l \<noteq> 0 \<and> al_maximum_output_bytes l \<le> 512 * 1024 * 1024)
     (PluginInvalidInput ''adapter limits are invalid'')"

definition validate_format_id :: "string \<Rightarrow> plugin_error + unit" where
  "validate_format_id s = require (s \<noteq> [] \<and> length s \<le> 128 \<and>
     list_all (\<lambda>b. is_ascii_lowercase b \<or> is_ascii_digit b \<or> b \<in> {CHR ''-'', CHR ''.''}) s)
     (PluginInvalidInput ''adapter format id is invalid'')"

definition flavor_total :: "(bytes \<Rightarrow> bytes) \<Rightarrow> adapter_limits \<Rightarrow> u64 \<Rightarrow> flavor \<Rightarrow> plugin_error + u64" where
  "flavor_total blake3 l n f =
     try_then (require (fl_mime f \<noteq> [] \<and> length (fl_mime f) \<le> 256 \<and> \<not> has_control (fl_mime f))
       (PluginInvalidInput ''adapter MIME type is invalid'')) (\<lambda>_.
     case fl_body f of
       Spilled _ _ \<Rightarrow> Inl (PluginInvalidInput ''adapter flavors must contain hydrated inline bytes'')
     | Inline b \<Rightarrow>
        try_then (require (fl_realization f = Realized \<and>
            (case fl_integrity_hash f of None \<Rightarrow> True | Some expected \<Rightarrow> expected = blake3 b))
          (PluginInvalidInput ''adapter flavor realization or integrity is invalid'')) (\<lambda>_.
        if 2 ^ 64 \<le> length b then Inl (PluginInvalidInput ''adapter payload size is invalid'')
        else case checked_add n (of_nat (length b)) of
            None \<Rightarrow> Inl (PluginInvalidInput ''adapter payload total overflowed'')
          | Some m \<Rightarrow> if al_maximum_total_payload_bytes l < m
              then Inl (PluginInvalidInput ''adapter payload total exceeds the limit'') else Inr m))"

fun flavors_total :: "(bytes \<Rightarrow> bytes) \<Rightarrow> adapter_limits \<Rightarrow> u64 \<Rightarrow> flavor list \<Rightarrow> plugin_error + u64" where
  "flavors_total blake3 l n [] = Inr n"
| "flavors_total blake3 l n (f # fs) = try_then (flavor_total blake3 l n f) (\<lambda>m. flavors_total blake3 l m fs)"

definition validate_flavors :: "(bytes \<Rightarrow> bytes) \<Rightarrow> adapter_limits \<Rightarrow> u64 \<Rightarrow> flavor list \<Rightarrow> plugin_error + u64" where
  "validate_flavors blake3 l n fs =
     try_then (require (fs \<noteq> [] \<and> length fs \<le> al_maximum_flavors_per_record l)
       (PluginInvalidInput ''adapter flavor count is invalid'')) (\<lambda>_.
     flavors_total blake3 l n fs)"

definition source_label_ok :: "string option \<Rightarrow> bool" where
  "source_label_ok label = (case label of None \<Rightarrow> True
     | Some s \<Rightarrow> s \<noteq> [] \<and> length s \<le> 256 \<and> \<not> has_control s)"

fun import_records_total :: "(bytes \<Rightarrow> bytes) \<Rightarrow> adapter_limits \<Rightarrow> u64 \<Rightarrow> import_record list \<Rightarrow> plugin_error + u64" where
  "import_records_total blake3 l n [] = Inr n"
| "import_records_total blake3 l n (r # rs) =
     try_then (require (source_label_ok (ir_source_label r)) (PluginInvalidInput ''adapter source label is invalid'')) (\<lambda>_.
     try_then (validate_flavors blake3 l n (ir_flavors r)) (\<lambda>m. import_records_total blake3 l m rs))"

definition validate_import_records :: "(bytes \<Rightarrow> bytes) \<Rightarrow> adapter_limits \<Rightarrow> import_record list \<Rightarrow> plugin_error + unit" where
  "validate_import_records blake3 l rs =
     try_then (require (length rs \<le> al_maximum_records l)
       (PluginInvalidInput ''adapter record count exceeds the limit'')) (\<lambda>_.
     map_sum id (\<lambda>_. ()) (import_records_total blake3 l 0 rs))"

definition run_import_adapter ::
  "(bytes \<Rightarrow> bytes) \<Rightarrow> import_adapter \<Rightarrow> bytes \<Rightarrow> adapter_limits \<Rightarrow> plugin_error + import_record list" where
  "run_import_adapter blake3 a b l =
     try_then (limits_validate l) (\<lambda>_.
     try_then (validate_format_id (ia_format_id a)) (\<lambda>_.
     try_then (require (length b \<le> al_maximum_input_bytes l) (PluginInvalidInput ''adapter input exceeds the byte limit'')) (\<lambda>_.
     try_then (ia_import a b) (\<lambda>rs.
     try_then (validate_import_records blake3 l rs) (\<lambda>_. Inr rs)))))"

fun export_records_total :: "(bytes \<Rightarrow> bytes) \<Rightarrow> adapter_limits \<Rightarrow> u64 \<Rightarrow> export_record list \<Rightarrow> plugin_error + u64" where
  "export_records_total blake3 l n [] = Inr n"
| "export_records_total blake3 l n (r # rs) =
     try_then (validate_flavors blake3 l n (er_flavors r)) (\<lambda>m. export_records_total blake3 l m rs)"

definition run_export_adapter ::
  "(bytes \<Rightarrow> bytes) \<Rightarrow> export_adapter \<Rightarrow> export_record list \<Rightarrow> adapter_limits \<Rightarrow> plugin_error + bytes" where
  "run_export_adapter blake3 a rs l =
     try_then (limits_validate l) (\<lambda>_.
     try_then (validate_format_id (ea_format_id a)) (\<lambda>_.
     try_then (require (length rs \<le> al_maximum_records l) (PluginInvalidInput ''adapter record count exceeds the limit'')) (\<lambda>_.
     try_then (export_records_total blake3 l 0 rs) (\<lambda>_.
     try_then (ea_export a rs) (\<lambda>out.
     try_then (require (length out \<le> al_maximum_output_bytes l) (PluginInvalidInput ''adapter output exceeds the byte limit'')) (\<lambda>_.
     Inr out))))))"

section \<open>The preflight\<close>

definition MAX_MIGRATION_RECORDS :: nat where "MAX_MIGRATION_RECORDS = 1000000"
definition MAX_SOURCE_ID_LEN :: nat where "MAX_SOURCE_ID_LEN = 512"

record migration_record =
  mr_source_id :: string
  mr_revision :: u64
  mr_record :: import_record
  mr_pinned :: bool
  mr_snippet :: bool

record migration_preflight =
  mp_records :: nat
  mp_pins :: nat
  mp_snippets :: nat
  mp_images :: nat
  mp_likely_secrets :: nat
  mp_total_bytes :: u64
  mp_unsupported_records :: nat
  mp_kinds :: "content_kind \<rightharpoonup> nat"

definition preflight_default :: migration_preflight where
  "preflight_default = \<lparr>mp_records = 0, mp_pins = 0, mp_snippets = 0, mp_images = 0, mp_likely_secrets = 0, mp_total_bytes = 0,
     mp_unsupported_records = 0, mp_kinds = Map.empty\<rparr>"

definition count_if :: "nat \<Rightarrow> bool \<Rightarrow> nat" where
  "count_if n b = min (n + of_bool b) (2 ^ 64 - 1)"

definition validate_source_id :: "string \<Rightarrow> plugin_error + unit" where
  "validate_source_id s = require (s \<noteq> [] \<and> length s \<le> MAX_SOURCE_ID_LEN \<and> CHR 0x00 \<notin> set s \<and> \<not> has_control s)
     (PluginInvalidInput ''migration source id is invalid'')"

definition preflight_add :: "(string \<Rightarrow> bool) \<Rightarrow> migration_preflight \<Rightarrow> migration_record \<Rightarrow> migration_preflight" where
  "preflight_add entropy s m =
     (let flavors = ir_flavors (mr_record m);
          kind = (case ir_kind_hint (mr_record m) of None \<Rightarrow> OtherKind | Some k \<Rightarrow> k);
          saw_secret = list_ex (\<lambda>f. case as_text f of None \<Rightarrow> False | Some t \<Rightarrow> text_contains_actionable_secret entropy t) flavors in
      s\<lparr>mp_records := count_if (mp_records s) True, mp_pins := count_if (mp_pins s) (mr_pinned m),
        mp_snippets := count_if (mp_snippets s) (mr_snippet m),
        mp_kinds := (mp_kinds s)(kind \<mapsto> (case mp_kinds s kind of None \<Rightarrow> 0 | Some n \<Rightarrow> n) + 1),
        mp_images := count_if (mp_images s) (kind = ImageKind),
        mp_total_bytes := foldl saturating_add (mp_total_bytes s) (map (body_byte_size \<circ> fl_body) flavors),
        mp_likely_secrets := count_if (mp_likely_secrets s) saw_secret,
        mp_unsupported_records := count_if (mp_unsupported_records s) (flavors = [])\<rparr>)"

fun preflight_scan ::
  "(string \<Rightarrow> bool) \<Rightarrow> string list \<Rightarrow> migration_preflight \<Rightarrow> migration_record list \<Rightarrow> plugin_error + migration_preflight" where
  "preflight_scan entropy seen s [] = Inr s"
| "preflight_scan entropy seen s (m # ms) =
     try_then (validate_source_id (mr_source_id m)) (\<lambda>_.
     try_then (require (mr_source_id m \<notin> set seen) (PluginInvalidInput ''migration source ids must be unique per scan'')) (\<lambda>_.
     preflight_scan entropy (mr_source_id m # seen) (preflight_add entropy s m) ms))"

definition migration_scan :: "(string \<Rightarrow> bool) \<Rightarrow> migration_record list \<Rightarrow> plugin_error + migration_preflight" where
  "migration_scan entropy ms =
     try_then (require (length ms \<le> MAX_MIGRATION_RECORDS)
       (PluginInvalidInput ''migration record count exceeds the preflight limit'')) (\<lambda>_.
     preflight_scan entropy [] preflight_default ms)"

section \<open>The tracker\<close>

record live_migration_tracker =
  lt_revisions :: "(string, u64) btree"

definition tracker_default :: live_migration_tracker where
  "tracker_default = \<lparr>lt_revisions = []\<rparr>"

definition is_newer :: "live_migration_tracker \<Rightarrow> migration_record \<Rightarrow> bool" where
  "is_newer t m = (case map_of (lt_revisions t) (mr_source_id m) of None \<Rightarrow> True | Some revision \<Rightarrow> revision < mr_revision m)"

fun poll_changed :: "live_migration_tracker \<Rightarrow> string list \<Rightarrow> migration_record list \<Rightarrow> plugin_error + migration_record list" where
  "poll_changed t seen [] = Inr []"
| "poll_changed t seen (m # ms) =
     try_then (validate_source_id (mr_source_id m)) (\<lambda>_.
     try_then (require (mr_source_id m \<notin> set seen) (PluginInvalidInput ''duplicate source id in migration poll'')) (\<lambda>_.
     map_sum id (\<lambda>rest. if is_newer t m then m # rest else rest) (poll_changed t (mr_source_id m # seen) ms)))"

definition tracker_changed :: "live_migration_tracker \<Rightarrow> migration_record list \<Rightarrow> plugin_error + migration_record list" where
  "tracker_changed t ms =
     try_then (require (length ms \<le> MAX_MIGRATION_RECORDS) (PluginInvalidInput ''migration poll exceeds the record limit'')) (\<lambda>_.
     map_sum id (sort_key mr_source_id) (poll_changed t [] ms))"

definition note_revision :: "live_migration_tracker \<Rightarrow> migration_record \<Rightarrow> live_migration_tracker" where
  "note_revision t m = t\<lparr>lt_revisions := bt_insert (mr_source_id m)
     (case map_of (lt_revisions t) (mr_source_id m) of None \<Rightarrow> mr_revision m | Some revision \<Rightarrow> max revision (mr_revision m))
     (lt_revisions t)\<rparr>"

text \<open>An error keeps the revisions noted before it.\<close>

fun checkpoint_records ::
  "live_migration_tracker \<Rightarrow> string list \<Rightarrow> migration_record list \<Rightarrow> live_migration_tracker \<times> (plugin_error + unit)" where
  "checkpoint_records t seen [] = (t, Inr ())"
| "checkpoint_records t seen (m # ms) =
     (case try_then (validate_source_id (mr_source_id m)) (\<lambda>_.
        require (mr_source_id m \<notin> set seen) (PluginInvalidInput ''duplicate source id in migration checkpoint'')) of
        Inl e \<Rightarrow> (t, Inl e)
      | Inr _ \<Rightarrow> checkpoint_records (note_revision t m) (mr_source_id m # seen) ms)"

definition tracker_checkpoint :: "live_migration_tracker \<Rightarrow> migration_record list \<Rightarrow> live_migration_tracker \<times> (plugin_error + unit)" where
  "tracker_checkpoint t ms =
     (if MAX_MIGRATION_RECORDS < length ms then (t, Inl (PluginInvalidInput ''migration checkpoint exceeds the record limit''))
      else checkpoint_records t [] ms)"

section \<open>The journal\<close>

record 'id import_journal =
  ij_batch_id :: string
  ij_inserted :: "'id list"
  ij_committed :: bool

record 'id rollback_plan =
  rp_batch_id :: string
  rp_delete_ids :: "'id list"

definition journal_new :: "string \<Rightarrow> plugin_error + 'id import_journal" where
  "journal_new batch_id = try_then (validate_source_id batch_id) (\<lambda>_.
     Inr \<lparr>ij_batch_id = batch_id, ij_inserted = [], ij_committed = False\<rparr>)"

definition journal_record_insert :: "'id import_journal \<Rightarrow> 'id \<Rightarrow> 'id import_journal \<times> (plugin_error + unit)" where
  "journal_record_insert j i =
     (if ij_committed j then (j, Inl (PluginInvalidInput ''committed import journal is immutable''))
      else if i \<in> set (ij_inserted j) then (j, Inr ())
      else (j\<lparr>ij_inserted := ij_inserted j @ [i]\<rparr>, Inr ()))"

definition journal_commit :: "'id import_journal \<Rightarrow> 'id import_journal" where
  "journal_commit j = j\<lparr>ij_committed := True\<rparr>"

definition journal_rollback_plan :: "'id import_journal \<Rightarrow> plugin_error + 'id rollback_plan" where
  "journal_rollback_plan j =
     (if \<not> ij_committed j then Inl (PluginInvalidInput ''uncommitted import does not need a rollback plan'')
      else Inr \<lparr>rp_batch_id = ij_batch_id j, rp_delete_ids = rev (ij_inserted j)\<rparr>)"

section \<open>What the host accepts from an adapter\<close>

definition hydrated :: "(bytes \<Rightarrow> bytes) \<Rightarrow> flavor \<Rightarrow> bool" where
  "hydrated blake3 f \<longleftrightarrow> (\<exists>b. fl_body f = Inline b \<and> fl_realization f = Realized \<and>
     (fl_integrity_hash f = None \<or> fl_integrity_hash f = Some (blake3 b)))"

definition payload_size :: "flavor list \<Rightarrow> nat" where
  "payload_size fs = sum_list (map (\<lambda>f. case fl_body f of Inline b \<Rightarrow> length b | Spilled _ _ \<Rightarrow> 0) fs)"

lemma flavor_total_Inr:
  assumes "flavor_total blake3 l n f = Inr m"
  shows "hydrated blake3 f \<and> unat m = unat n + payload_size [f] \<and> m \<le> al_maximum_total_payload_bytes l"
proof (cases "fl_body f")
  case (Inline b)
  then have "length b < 2 ^ 64" "checked_add n (of_nat (length b)) = Some m" "\<not> al_maximum_total_payload_bytes l < m"
    "fl_realization f = Realized" "fl_integrity_hash f = None \<or> fl_integrity_hash f = Some (blake3 b)"
    using assms by (auto simp: flavor_total_def try_then_eq_Inr require_Inr not_le split: if_splits option.splits)
  moreover have "unat (of_nat (length b) :: u64) = length b"
    using calculation(1) by (simp add: unat_of_nat take_bit_nat_eq_self)
  ultimately show ?thesis
    using unat_checked_add[of n "of_nat (length b)" m] Inline by (simp add: hydrated_def payload_size_def)
next
  case (Spilled r n)
  with assms show ?thesis by (simp add: flavor_total_def try_then_eq_Inr)
qed

lemma flavors_total_Inr:
  "flavors_total blake3 l n fs = Inr m \<Longrightarrow>
     list_all (hydrated blake3) fs \<and> unat m = unat n + payload_size fs \<and> (n \<le> al_maximum_total_payload_bytes l \<longrightarrow> m \<le> al_maximum_total_payload_bytes l)"
proof (induction fs arbitrary: n)
  case (Cons f fs)
  then obtain k where k: "flavor_total blake3 l n f = Inr k" "flavors_total blake3 l k fs = Inr m"
    by (auto simp: try_then_eq_Inr)
  with Cons.IH[OF k(2)] flavor_total_Inr[OF k(1)] show ?case
    by (simp add: payload_size_def)
qed (simp add: payload_size_def)

lemma import_records_total_Inr:
  "import_records_total blake3 l n rs = Inr m \<Longrightarrow>
     list_all (\<lambda>r. source_label_ok (ir_source_label r) \<and> ir_flavors r \<noteq> [] \<and>
       length (ir_flavors r) \<le> al_maximum_flavors_per_record l \<and> list_all (hydrated blake3) (ir_flavors r)) rs \<and>
     unat m = unat n + payload_size (concat (map ir_flavors rs)) \<and>
     (n \<le> al_maximum_total_payload_bytes l \<longrightarrow> m \<le> al_maximum_total_payload_bytes l)"
proof (induction rs arbitrary: n)
  case (Cons r rs)
  then obtain k where k: "flavors_total blake3 l n (ir_flavors r) = Inr k" "import_records_total blake3 l k rs = Inr m"
    and r: "source_label_ok (ir_source_label r)" "ir_flavors r \<noteq> []" "length (ir_flavors r) \<le> al_maximum_flavors_per_record l"
    by (auto simp: try_then_eq_Inr require_Inr validate_flavors_def)
  with Cons.IH[OF k(2)] flavors_total_Inr[OF k(1)] show ?case
    by (simp add: payload_size_def)
qed (simp add: payload_size_def)

text \<open>
  What the host accepts from an import adapter is within its limits, and the limits are within the fixed ceilings:
  at most a million records, each with at least one and at most 128 flavors, every flavor with its bytes inline, realised
  and matching its hash when it has one, and all bytes together within the limit of the payload, which is at most 4 GiB;
  the sum is the sum of the natural numbers, without wrap-around.
\<close>

lemma imports_stay_within_limits:
  assumes "run_import_adapter blake3 a b l = Inr rs"
  shows "ia_import a b = Inr rs \<and> length b \<le> al_maximum_input_bytes l \<and> length rs \<le> al_maximum_records l \<and> length rs \<le> 1000000 \<and>
    list_all (\<lambda>r. source_label_ok (ir_source_label r) \<and> ir_flavors r \<noteq> [] \<and>
      length (ir_flavors r) \<le> al_maximum_flavors_per_record l \<and> length (ir_flavors r) \<le> 128 \<and>
      list_all (hydrated blake3) (ir_flavors r)) rs \<and>
    payload_size (concat (map ir_flavors rs)) \<le> unat (al_maximum_total_payload_bytes l) \<and>
    payload_size (concat (map ir_flavors rs)) \<le> 4 * 1024 * 1024 * 1024"
proof -
  obtain m where limits: "limits_validate l = Inr ()" and shape: "ia_import a b = Inr rs" "length b \<le> al_maximum_input_bytes l"
      "length rs \<le> al_maximum_records l"
    and m: "import_records_total blake3 l 0 rs = Inr m"
    using assms
    by (cases "import_records_total blake3 l 0 rs")
       (auto simp: run_import_adapter_def validate_import_records_def try_then_eq_Inr require_Inr)
  have ceilings: "al_maximum_records l \<le> 1000000" "al_maximum_flavors_per_record l \<le> 128"
    "unat (al_maximum_total_payload_bytes l) \<le> 4 * 1024 * 1024 * 1024"
    using limits by (simp_all add: limits_validate_def require_Inr word_le_nat_alt)
  note total = import_records_total_Inr[OF m]
  then have "m \<le> al_maximum_total_payload_bytes l" by simp
  then have "payload_size (concat (map ir_flavors rs)) \<le> unat (al_maximum_total_payload_bytes l)"
    using total by (simp add: word_le_nat_alt)
  with total shape ceilings show ?thesis
    by (auto simp: list_all_iff)
qed

section \<open>A live migration reports a revision once\<close>

definition noted :: "string \<Rightarrow> u64 \<Rightarrow> live_migration_tracker \<Rightarrow> bool" where
  "noted sid revision t \<longleftrightarrow> (\<exists>v. map_of (lt_revisions t) sid = Some v \<and> revision \<le> v)"

lemma is_newer_iff: "is_newer t m \<longleftrightarrow> \<not> noted (mr_source_id m) (mr_revision m) t"
  by (auto simp: is_newer_def noted_def not_le split: option.splits)

lemma note_revision_noted: "noted (mr_source_id m) (mr_revision m) (note_revision t m)"
  by (simp add: noted_def note_revision_def split: option.splits)

lemma note_revision_kept: "noted sid v t \<Longrightarrow> noted sid v (note_revision t m)"
  by (auto simp: noted_def note_revision_def intro: order_trans split: option.splits)

lemma checkpoint_records_kept: "noted sid v t \<Longrightarrow> noted sid v (fst (checkpoint_records t seen ms))"
  by (induction t seen ms rule: checkpoint_records.induct) (auto split: sum.splits intro: note_revision_kept)

lemma checkpoint_kept: "noted sid v t \<Longrightarrow> noted sid v (fst (tracker_checkpoint t ms))"
  by (simp add: tracker_checkpoint_def checkpoint_records_kept)

interpretation noted: machine "\<lambda>t ms. fst (tracker_checkpoint t ms)" "noted sid v" for sid v
  by unfold_locales (rule checkpoint_kept)

definition well_formed_poll :: "migration_record list \<Rightarrow> string list \<Rightarrow> bool" where
  "well_formed_poll ms seen \<longleftrightarrow> (\<forall>m \<in> set ms. validate_source_id (mr_source_id m) = Inr ()) \<and>
     distinct (map mr_source_id ms) \<and> mr_source_id ` set ms \<inter> set seen = {}"

lemma well_formed_poll_Cons:
  "well_formed_poll (m # ms) seen \<longleftrightarrow> validate_source_id (mr_source_id m) = Inr () \<and> mr_source_id m \<notin> set seen \<and>
     well_formed_poll ms (mr_source_id m # seen)"
  by (auto simp: well_formed_poll_def)

lemma poll_changed_Inr:
  "poll_changed t seen ms = Inr cs \<longleftrightarrow> well_formed_poll ms seen \<and> cs = filter (is_newer t) ms"
proof (induction ms arbitrary: seen cs)
  case (Cons m ms)
  show ?case
    using Cons.IH[of "mr_source_id m # seen"]
    by (cases "poll_changed t (mr_source_id m # seen) ms") (auto simp: try_then_eq_Inr require_Inr well_formed_poll_Cons)
qed (auto simp: well_formed_poll_def)

lemma checkpoint_records_Inr:
  "well_formed_poll ms seen \<Longrightarrow> \<exists>t'. checkpoint_records t seen ms = (t', Inr ()) \<and>
     (\<forall>m \<in> set ms. noted (mr_source_id m) (mr_revision m) t')"
proof (induction ms arbitrary: t seen)
  case (Cons m ms)
  then have ok: "validate_source_id (mr_source_id m) = Inr ()" "mr_source_id m \<notin> set seen"
    and rest: "well_formed_poll ms (mr_source_id m # seen)"
    by (auto simp: well_formed_poll_def)
  obtain t' where "checkpoint_records (note_revision t m) (mr_source_id m # seen) ms = (t', Inr ())"
    "\<forall>m \<in> set ms. noted (mr_source_id m) (mr_revision m) t'"
    using Cons.IH[OF rest] by blast
  moreover from this checkpoint_records_kept[OF note_revision_noted, of m t "mr_source_id m # seen" ms]
  have "noted (mr_source_id m) (mr_revision m) t'" by simp
  ultimately show ?case using ok by simp
qed simp

lemma well_formed_poll_newer:
  "well_formed_poll ms seen \<Longrightarrow> well_formed_poll (sort_key mr_source_id (filter P ms)) seen"
  unfolding well_formed_poll_def by (auto simp: distinct_map intro: inj_on_subset)

text \<open>
  C32. A live migration reports every revision once. A poll gives the records that are newer than all that was imported,
  ordered by their source id; recording them as imported succeeds, and afterwards, whatever else is recorded, with or
  without errors, the same poll gives nothing.
\<close>

theorem migration_reports_once:
  assumes "tracker_changed t ms = Inr cs"
  shows "set cs = {m \<in> set ms. is_newer t m} \<and> sorted_wrt (<) (map mr_source_id cs) \<and>
    (\<exists>t'. tracker_checkpoint t cs = (t', Inr ()) \<and> tracker_changed t' ms = Inr [] \<and>
      (\<forall>more. tracker_changed (run (\<lambda>t ms. fst (tracker_checkpoint t ms)) t' more) ms = Inr []))"
proof -
  have poll: "well_formed_poll ms []" "cs = sort_key mr_source_id (filter (is_newer t) ms)" and size: "length ms \<le> MAX_MIGRATION_RECORDS"
    using assms
    by (cases "poll_changed t [] ms"; auto simp: tracker_changed_def try_then_eq_Inr require_Inr poll_changed_Inr)+
  have cs: "well_formed_poll cs []" "length cs \<le> MAX_MIGRATION_RECORDS" "set cs = {m \<in> set ms. is_newer t m}"
    using well_formed_poll_newer[OF poll(1)] order_trans[OF length_filter_le size] unfolding poll(2) by auto
  then obtain t' where t': "tracker_checkpoint t cs = (t', Inr ())" "\<forall>m \<in> set cs. noted (mr_source_id m) (mr_revision m) t'"
    using checkpoint_records_Inr[of cs "[]" t] by (auto simp: tracker_checkpoint_def)
  have none: "tracker_changed (run (\<lambda>t ms. fst (tracker_checkpoint t ms)) t' more) ms = Inr []" for more
  proof -
    define u where "u = run (\<lambda>t ms. fst (tracker_checkpoint t ms)) t' more"
    have "noted (mr_source_id m) (mr_revision m) u" if "m \<in> set ms" for m
    proof -
      have "noted (mr_source_id m) (mr_revision m) t'"
      proof (cases "is_newer t m")
        case True
        with that cs(3) t'(2) show ?thesis by auto
      next
        case False
        then show ?thesis
          using checkpoint_kept[of "mr_source_id m" "mr_revision m" t cs] t'(1) by (simp add: is_newer_iff)
      qed
      then show ?thesis unfolding u_def by (rule noted.inv_run)
    qed
    then have "filter (is_newer u) ms = []"
      by (simp add: filter_empty_conv is_newer_iff)
    then have "poll_changed u [] ms = Inr []"
      using poll(1) by (simp add: poll_changed_Inr)
    then show ?thesis
      using size by (simp add: tracker_changed_def u_def)
  qed
  have "sorted_wrt (<) (map mr_source_id cs)"
    using cs(1) sorted_sort_key[of mr_source_id "filter (is_newer t) ms"]
    by (simp only: poll(2) strict_sorted_iff well_formed_poll_def)
  with cs(3) t'(1) none[of "[]"] none show ?thesis by auto
qed

section \<open>A committed import is rolled back whole\<close>

lemma journal_inserts:
  "ij_committed j = False \<Longrightarrow> ij_inserted (run (\<lambda>j i. fst (journal_record_insert j i)) j ids) =
     foldl (\<lambda>xs i. if i \<in> set xs then xs else xs @ [i]) (ij_inserted j) ids \<and>
   \<not> ij_committed (run (\<lambda>j i. fst (journal_record_insert j i)) j ids)"
  by (induction ids arbitrary: j) (auto simp: journal_record_insert_def)

lemma insert_once: "distinct xs \<Longrightarrow> distinct (foldl (\<lambda>xs i. if i \<in> set xs then xs else xs @ [i]) xs ids) \<and>
    set (foldl (\<lambda>xs i. if i \<in> set xs then xs else xs @ [i]) xs ids) = set xs \<union> set ids"
proof (induction ids arbitrary: xs)
  case (Cons i ids)
  then show ?case
    using Cons.IH[of "if i \<in> set xs then xs else xs @ [i]"] by auto
qed simp

text \<open>The plan deletes exactly what was inserted, each clip once; nothing is added to the journal after the commit.\<close>

lemma rollback_covers_import:
  assumes "journal_new batch = Inr j"
  shows "let done = journal_commit (run (\<lambda>j i. fst (journal_record_insert j i)) j ids) in
    \<exists>plan. journal_rollback_plan done = Inr plan \<and> distinct (rp_delete_ids plan) \<and> set (rp_delete_ids plan) = set ids \<and>
      fst (journal_record_insert done i) = done"
proof -
  have "ij_committed j = False" "ij_inserted j = []"
    using assms by (auto simp: journal_new_def try_then_eq_Inr)
  then show ?thesis
    using journal_inserts[of j ids] insert_once[of "[]" ids]
    by (simp add: Let_def journal_commit_def journal_rollback_plan_def journal_record_insert_def)
qed

section \<open>Witnesses\<close>

definition sample_adapter :: import_adapter where
  "sample_adapter = \<lparr>ia_format_id = ''t'', ia_confidence = \<lambda>_. 100, ia_import = \<lambda>b. Inr [\<lparr>ir_flavors = [flavor_inline ''m'' b],
     ir_kind_hint = None, ir_created_at_ms = None, ir_source_label = None\<rparr>]\<rparr>"

lemma imports_stay_within_limits_witness:
  "payload_size (concat (map ir_flavors [\<lparr>ir_flavors = [flavor_inline ''m'' ''clip''], ir_kind_hint = None, ir_created_at_ms = None,
     ir_source_label = None\<rparr>])) \<le> 4 * 1024 * 1024 * 1024"
proof -
  have run: "run_import_adapter id sample_adapter ''clip'' adapter_limits_default = Inr [\<lparr>ir_flavors = [flavor_inline ''m'' ''clip''],
      ir_kind_hint = None, ir_created_at_ms = None, ir_source_label = None\<rparr>]"
    by (simp add: run_import_adapter_def sample_adapter_def adapter_limits_default_def limits_validate_def validate_format_id_def
        is_ascii_lowercase_def validate_import_records_def source_label_ok_def validate_flavors_def flavor_total_def
        flavor_inline_def has_control_ascii checked_add_def)
  show ?thesis using imports_stay_within_limits[OF run] by simp
qed

definition sample_migration :: migration_record where
  "sample_migration = \<lparr>mr_source_id = ''s'', mr_revision = 2, mr_record = \<lparr>ir_flavors = [], ir_kind_hint = None,
     ir_created_at_ms = None, ir_source_label = None\<rparr>, mr_pinned = False, mr_snippet = False\<rparr>"

theorem migration_reports_once_witness:
  "\<exists>t'. tracker_checkpoint tracker_default [sample_migration] = (t', Inr ()) \<and> tracker_changed t' [sample_migration] = Inr []"
proof -
  have "tracker_changed tracker_default [sample_migration] = Inr [sample_migration]"
    by (simp add: tracker_changed_def MAX_MIGRATION_RECORDS_def tracker_default_def sample_migration_def is_newer_def
        validate_source_id_def MAX_SOURCE_ID_LEN_def has_control_ascii)
  from migration_reports_once[OF this] show ?thesis by blast
qed

end
