(* ===== verification/Plugin_Recipes.thy ===== *)
theory Plugin_Recipes
  imports Plugin_Governance Links Clip_Types Secret
begin

text \<open>
  The reviewed helpers of the plugin crate: \<open>crates/vbuff-plugin/src/recipes.rs\<close> (starter recipes),
  \<open>recognizer.rs\<close> (recognised actions) and \<open>snippet_pack.rs\<close> (signed snippet packs). The regular expression for card
  numbers is an argument that cuts the text into matched and unmatched pieces; JSON, TOML and \<open>Url::parse\<close> are
  arguments. The Luhn test of the recipe is the one of the secret detector.
\<close>

section \<open>Starter recipes\<close>

datatype starter_recipe_id = CleanUrl | NormalizeSmartQuotes | PrettyJsonRecipe | MaskCardPreview

record starter_recipe =
  st_id :: starter_recipe_id
  st_title :: string
  st_changes_canonical_content :: bool

definition STARTER_RECIPES :: "starter_recipe list" where
  "STARTER_RECIPES =
    [\<lparr>st_id = CleanUrl, st_title = ''Copy clean link'', st_changes_canonical_content = True\<rparr>,
     \<lparr>st_id = NormalizeSmartQuotes, st_title = ''Normalize smart quotes'', st_changes_canonical_content = True\<rparr>,
     \<lparr>st_id = PrettyJsonRecipe, st_title = ''Pretty-print JSON'', st_changes_canonical_content = True\<rparr>,
     \<lparr>st_id = MaskCardPreview, st_title = ''Mask card number in preview'', st_changes_canonical_content = False\<rparr>]"

definition MAX_RECIPE_INPUT_BYTES :: nat where "MAX_RECIPE_INPUT_BYTES = 1024 * 1024"

text \<open>\<open>str::replace\<close> with a set of characters, block by block of the UTF-8 text.\<close>

definition replace_scalars :: "nat set \<Rightarrow> string \<Rightarrow> string \<Rightarrow> string" where
  "replace_scalars from to s = concat (map (\<lambda>b. if decode_scalar b \<in> from then to else b) (utf8_split s))"

definition normalize_smart_quotes :: "string \<Rightarrow> string" where
  "normalize_smart_quotes s = replace_scalars {0x2013, 0x2014} ''-''
     (replace_scalars {0x201C, 0x201D} [CHR 0x22] (replace_scalars {0x2018, 0x2019} [CHR 0x27] s))"

definition mask_candidate :: "string \<Rightarrow> string" where
  "mask_candidate original = (let digits = filter is_ascii_digit original in
     if 13 \<le> length digits \<and> length digits \<le> 19 \<and> luhn_valid digits
     then ''**** **** **** '' @ drop (length digits - 4) digits else original)"

definition mask_card_numbers :: "(string \<Rightarrow> (bool \<times> string) list) \<Rightarrow> string \<Rightarrow> string" where
  "mask_card_numbers pieces input = concat (map (\<lambda>(matched, piece). if matched then mask_candidate piece else piece) (pieces input))"

record 'j recipe_env =
  re_codec :: url_codec
  re_json_parse :: "string \<Rightarrow> 'j option"
  re_json_pretty :: "'j \<Rightarrow> string + string"
  re_card_pieces :: "string \<Rightarrow> (bool \<times> string) list"

fun clean_link_message :: "clean_link_error \<Rightarrow> string" where
  "clean_link_message InvalidSize = ''URL input is empty or exceeds the byte limit''"
| "clean_link_message UnsupportedUrl = ''clean links require an HTTP(S) URL''"

definition apply_starter_recipe :: "'j recipe_env \<Rightarrow> starter_recipe_id \<Rightarrow> string \<Rightarrow> plugin_error + string" where
  "apply_starter_recipe env i input =
     try_then (require (length input \<le> MAX_RECIPE_INPUT_BYTES) (PluginInvalidInput ''recipe input exceeds the byte limit'')) (\<lambda>_.
     case i of
       CleanUrl \<Rightarrow> map_sum (PluginInvalidInput \<circ> clean_link_message) id (clean_link (re_codec env) input)
     | NormalizeSmartQuotes \<Rightarrow> Inr (normalize_smart_quotes input)
     | PrettyJsonRecipe \<Rightarrow> (case re_json_parse env input of None \<Rightarrow> Inl (PluginInvalidInput ''invalid JSON'')
         | Some v \<Rightarrow> map_sum PluginSerialization id (re_json_pretty env v))
     | MaskCardPreview \<Rightarrow> Inr (mask_card_numbers (re_card_pieces env) input))"

section \<open>Recognisers\<close>

definition MAX_RECOGNIZER_TEXT_BYTES :: nat where "MAX_RECOGNIZER_TEXT_BYTES = 1024 * 1024"
definition MAX_ACTION_CANDIDATES :: nat where "MAX_ACTION_CANDIDATES = 32"

record recognizer_input =
  rc_kind :: content_kind
  rc_text :: "string option"
  rc_sensitive :: bool

definition recognizer_input_new :: "content_kind \<Rightarrow> string option \<Rightarrow> bool \<Rightarrow> plugin_error + recognizer_input" where
  "recognizer_input_new kind t sensitive =
     (if (case t of None \<Rightarrow> False | Some s \<Rightarrow> MAX_RECOGNIZER_TEXT_BYTES < length s)
      then Inl (PluginInvalidInput ''recognizer text exceeds the byte limit'')
      else if sensitive \<and> t \<noteq> None then Inl (CapabilityDenied ''sensitive recognizer input is metadata-only'')
      else Inr \<lparr>rc_kind = kind, rc_text = t, rc_sensitive = sensitive\<rparr>)"

datatype typed_action = OpenUrl string | OpenFile string | CopyDerivedText string | ApplyPipeline string

fun typed_action_validate :: "(string \<Rightarrow> url option) \<Rightarrow> typed_action \<Rightarrow> plugin_error + unit" where
  "typed_action_validate parse (OpenUrl u) =
     try_then (require (length u \<le> 4096) (PluginInvalidInput ''action URL is too long'')) (\<lambda>_.
     case parse u of None \<Rightarrow> Inl (PluginInvalidInput ''invalid action URL'')
     | Some parsed \<Rightarrow> require (url_scheme parsed \<in> {''http'', ''https'', ''mailto''})
         (PluginInvalidInput ''action URL scheme is not allowed''))"
| "typed_action_validate parse (OpenFile path) =
     require (path \<noteq> [] \<and> length path \<le> 4096 \<and> \<not> has_control path) (PluginInvalidInput ''invalid action path'')"
| "typed_action_validate parse (CopyDerivedText t) =
     require (length t \<le> 1048576) (PluginInvalidInput ''derived action text is too large'')"
| "typed_action_validate parse (ApplyPipeline i) =
     require (is_valid_identifier i 128) (PluginInvalidInput ''pipeline id is empty'')"

record action_candidate =
  ac_label :: string
  ac_confidence :: u8
  ac_action :: typed_action

definition candidate_validate :: "(string \<Rightarrow> url option) \<Rightarrow> action_candidate \<Rightarrow> plugin_error + unit" where
  "candidate_validate parse c =
     try_then (require (trim (ac_label c) \<noteq> [] \<and> length (ac_label c) \<le> 80 \<and> \<not> has_control (ac_label c))
       (PluginInvalidInput ''invalid action label'')) (\<lambda>_.
     try_then (require (ac_confidence c \<le> 100) (PluginInvalidInput ''action confidence exceeds 100'')) (\<lambda>_.
     typed_action_validate parse (ac_action c)))"

record recognizer =
  rz_id :: string
  rz_recognize :: "recognizer_input \<Rightarrow> plugin_error + action_candidate list"

definition run_recognizer ::
  "(string \<Rightarrow> url option) \<Rightarrow> recognizer \<Rightarrow> recognizer_input \<Rightarrow> plugin_error + action_candidate list" where
  "run_recognizer parse r input =
     try_then (rz_recognize r input) (\<lambda>cs.
     try_then (require (length cs \<le> MAX_ACTION_CANDIDATES) (PluginInvalidInput ''recognizer returned too many actions'')) (\<lambda>_.
     try_then (try_all (candidate_validate parse) cs) (\<lambda>_. Inr cs)))"

section \<open>Snippet packs\<close>

definition MAX_PACK_SNIPPETS :: nat where "MAX_PACK_SNIPPETS = 10000"
definition MAX_PACK_BYTES :: nat where "MAX_PACK_BYTES = 16 * 1024 * 1024"
definition PACK_SIGNATURE_DOMAIN :: bytes where "PACK_SIGNATURE_DOMAIN = ''vbuff-snippet-pack-v1'' @ [CHR 0x00]"

record snippet_definition =
  sn_trigger :: string
  sn_expansion :: string
  sn_description :: "string option"

record snippet_pack =
  sp_schema :: u16
  sp_id :: string
  sp_version :: string
  sp_snippets :: "(string, snippet_definition) btree"

definition pack_error :: "string \<Rightarrow> bool \<Rightarrow> plugin_error + unit" where
  "pack_error message ok = require ok (InvalidBundle message)"

definition snippet_bytes :: "string \<times> snippet_definition \<Rightarrow> nat" where
  "snippet_bytes e = length (fst e) + length (sn_trigger (snd e)) + length (sn_expansion (snd e)) +
     (case sn_description (snd e) of None \<Rightarrow> 0 | Some d \<Rightarrow> length d)"

definition snippet_ok :: "string list \<Rightarrow> string \<times> snippet_definition \<Rightarrow> bool" where
  "snippet_ok triggers e \<longleftrightarrow> valid_plugin_id (fst e) \<and> trim (sn_trigger (snd e)) \<noteq> [] \<and> length (sn_trigger (snd e)) \<le> 128 \<and>
     \<not> has_control (sn_trigger (snd e)) \<and> length (sn_expansion (snd e)) \<le> 1048576 \<and>
     (case sn_description (snd e) of None \<Rightarrow> True | Some d \<Rightarrow> length d \<le> 512) \<and> sn_trigger (snd e) \<notin> set triggers"

fun check_snippets :: "string list \<Rightarrow> nat \<Rightarrow> (string, snippet_definition) btree \<Rightarrow> plugin_error + unit" where
  "check_snippets triggers n [] = Inr ()"
| "check_snippets triggers n (e # es) =
     try_then (pack_error ''snippet definition is invalid'' (snippet_ok triggers e)) (\<lambda>_.
     try_then (pack_error ''snippet pack is too large'' (n + snippet_bytes e \<le> MAX_PACK_BYTES)) (\<lambda>_.
     check_snippets (sn_trigger (snd e) # triggers) (n + snippet_bytes e) es))"

text \<open>
  The sizes saturate in the code; below the limit of a pack no sum reaches the end of a \<open>usize\<close>.
  The identifier of a pack is checked like that of a plugin.
\<close>

definition pack_validate :: "snippet_pack \<Rightarrow> plugin_error + unit" where
  "pack_validate p =
     try_then (pack_error ''snippet pack identity is invalid''
       (sp_schema p = 1 \<and> valid_plugin_id (sp_id p) \<and> valid_version (sp_version p))) (\<lambda>_.
     try_then (pack_error ''snippet pack count is outside the supported range''
       (sp_snippets p \<noteq> [] \<and> length (sp_snippets p) \<le> MAX_PACK_SNIPPETS)) (\<lambda>_.
     check_snippets [] 0 (sp_snippets p)))"

definition canonical_toml :: "(snippet_pack \<Rightarrow> string + string) \<Rightarrow> snippet_pack \<Rightarrow> plugin_error + bytes" where
  "canonical_toml print p =
     try_then (pack_validate p) (\<lambda>_.
     try_then (map_sum PluginSerialization id (print p)) (\<lambda>t.
     try_then (pack_error ''snippet pack is too large'' (length t \<le> MAX_PACK_BYTES)) (\<lambda>_. Inr t)))"

definition pack_from_toml :: "(string \<Rightarrow> string + snippet_pack) \<Rightarrow> bytes \<Rightarrow> plugin_error + snippet_pack" where
  "pack_from_toml parse b =
     try_then (pack_error ''snippet pack is too large'' (length b \<le> MAX_PACK_BYTES)) (\<lambda>_.
     try_then (pack_error ''snippet pack is not UTF-8'' (utf8_valid b)) (\<lambda>_.
     try_then (map_sum PluginSerialization id (parse b)) (\<lambda>p.
     try_then (pack_validate p) (\<lambda>_. Inr p))))"

record signed_snippet_pack =
  ss_signer_public_key :: bytes
  ss_pack_hash :: bytes
  ss_signature :: bytes

definition pack_sign ::
  "'sk plugin_env \<Rightarrow> (snippet_pack \<Rightarrow> string + string) \<Rightarrow> snippet_pack \<Rightarrow> 'sk \<Rightarrow> plugin_error + signed_snippet_pack" where
  "pack_sign env print p sk = try_then (canonical_toml print p) (\<lambda>b. let h = pv_blake3 env b in
     Inr \<lparr>ss_signer_public_key = pv_verifying_key env sk, ss_pack_hash = h, ss_signature = pv_sign env sk (PACK_SIGNATURE_DOMAIN @ h)\<rparr>)"

definition pack_verify ::
  "'sk plugin_env \<Rightarrow> (snippet_pack \<Rightarrow> string + string) \<Rightarrow> signed_snippet_pack \<Rightarrow> snippet_pack \<Rightarrow> plugin_error + unit" where
  "pack_verify env print s p =
     try_then (canonical_toml print p) (\<lambda>b.
     try_then (require (pv_blake3 env b = ss_pack_hash s) PluginInvalidSignature) (\<lambda>_.
     check_signature env (ss_signer_public_key s) (PACK_SIGNATURE_DOMAIN @ ss_pack_hash s) (ss_signature s)))"

section \<open>What the helpers guarantee\<close>

text \<open>No text of a sensitive clip reaches a recogniser, and no unchecked action leaves one.\<close>

lemma recognizer_never_sees_secrets:
  "recognizer_input_new kind t sensitive = Inr input \<Longrightarrow> rc_sensitive input \<Longrightarrow> rc_text input = None"
  by (auto simp: recognizer_input_new_def split: if_splits)

lemma recognizer_actions_checked:
  "run_recognizer parse r input = Inr cs \<Longrightarrow> length cs \<le> 32 \<and> (\<forall>c \<in> set cs. is_ok (candidate_validate parse c))"
  by (auto simp: run_recognizer_def try_then_eq_Inr require_Inr try_all_Inr MAX_ACTION_CANDIDATES_def)

text \<open>A pack that was read has distinct triggers and bounded content, and reads back from its canonical form.\<close>

lemma check_snippets_Inr:
  "check_snippets triggers n es = Inr () \<Longrightarrow>
     distinct (map (\<lambda>e. sn_trigger (snd e)) es) \<and> (\<lambda>e. sn_trigger (snd e)) ` set es \<inter> set triggers = {} \<and>
     (es \<noteq> [] \<longrightarrow> n + sum_list (map snippet_bytes es) \<le> MAX_PACK_BYTES)"
proof (induction triggers n es rule: check_snippets.induct)
  case (2 triggers n e es)
  then have e: "snippet_ok triggers e" "n + snippet_bytes e \<le> MAX_PACK_BYTES"
      "check_snippets (sn_trigger (snd e) # triggers) (n + snippet_bytes e) es = Inr ()"
    by (auto simp: try_then_eq_Inr pack_error_def require_Inr)
  with 2 have "distinct (map (\<lambda>e. sn_trigger (snd e)) es)"
      "(\<lambda>e. sn_trigger (snd e)) ` set es \<inter> set (sn_trigger (snd e) # triggers) = {}"
      "es \<noteq> [] \<longrightarrow> n + snippet_bytes e + sum_list (map snippet_bytes es) \<le> MAX_PACK_BYTES"
    by (auto simp: pack_error_def)
  with e(1,2) show ?case
    by (cases "es = []") (auto simp: snippet_ok_def comp_def)
qed simp

lemma snippet_pack_round_trip:
  assumes "canonical_toml print p = Inr b" and "\<And>t. print p = Inr t \<Longrightarrow> utf8_valid t \<and> parse t = Inr p"
  shows "pack_from_toml parse b = Inr p \<and> distinct (map (\<lambda>e. sn_trigger (snd e)) (sp_snippets p)) \<and>
    sum_list (map snippet_bytes (sp_snippets p)) \<le> 16 * 1024 * 1024"
proof -
  have valid: "pack_validate p = Inr ()" "print p = Inr b" "length b \<le> MAX_PACK_BYTES"
    using assms(1) by (cases "print p"; auto simp: canonical_toml_def try_then_eq_Inr pack_error_def require_Inr)+
  then have "check_snippets [] 0 (sp_snippets p) = Inr ()" "sp_snippets p \<noteq> []"
    by (auto simp: pack_validate_def try_then_eq_Inr pack_error_def require_Inr)
  with check_snippets_Inr[of "[]" 0 "sp_snippets p"] valid assms(2)[OF valid(2)] show ?thesis
    by (simp add: pack_from_toml_def pack_error_def MAX_PACK_BYTES_def)
qed

text \<open>Masking keeps every unmatched piece, and leaves at most the last four digits of a card number.\<close>

lemma masked_digits: "mask_candidate s \<noteq> s \<Longrightarrow> length (filter is_ascii_digit (mask_candidate s)) \<le> 4"
proof -
  assume "mask_candidate s \<noteq> s"
  then have "mask_candidate s = ''**** **** **** '' @ drop (length (filter is_ascii_digit s) - 4) (filter is_ascii_digit s)"
    by (auto simp: mask_candidate_def Let_def)
  moreover have "filter is_ascii_digit ''**** **** **** '' = []"
    by (simp add: is_ascii_digit_def)
  moreover have "length (filter P (drop (length d - 4) d)) \<le> 4" for P :: "char \<Rightarrow> bool" and d
    using length_filter_le[of P "drop (length d - 4) d"] by simp
  ultimately show ?thesis
    by (simp only: filter_append append_Nil)
qed

end
