(* ===== verification/Privacy_Ledger.thy ===== *)
theory Privacy_Ledger
  imports Capture_Policy
begin

text \<open>
  The privacy ledger, \<open>crates/vbuff-core/src/privacy.rs\<close>: capture decisions without their content, in a bounded window
  of a hash chain. \<open>blake3\<close> is the hash of the hasher's whole input.
\<close>

definition PRIVACY_DOMAIN :: bytes where
  "PRIVACY_DOMAIN = ''vbuff-privacy-ledger-v1''"

datatype privacy_decision = DecisionCaptured | DecisionSkipped | DecisionLost

record privacy_entry =
  pe_sequence :: u64
  pe_timestamp_ms :: u64
  pe_count :: u64
  pe_decision :: privacy_decision
  pe_reason :: string
  pe_previous_hash :: bytes
  pe_hash :: bytes

record privacy_ledger =
  pl_capacity :: nat
  pl_next_sequence :: u64
  pl_previous_hash :: bytes
  pl_entries :: "privacy_entry list"

fun drop_reason_str :: "drop_reason \<Rightarrow> string" where
  "drop_reason_str EmptyClip = ''empty''"
| "drop_reason_str WhitespaceOnly = ''whitespace_only''"
| "drop_reason_str ExcludedSource = ''excluded_source''"
| "drop_reason_str SourceRule = ''source_rule''"
| "drop_reason_str Concealed = ''concealed''"
| "drop_reason_str ConcealmentUnknown = ''concealment_unknown''"
| "drop_reason_str ProvenanceUnknown = ''provenance_unknown''"
| "drop_reason_str CoherenceUnknown = ''coherence_unknown''"
| "drop_reason_str IntentUnknown = ''intent_unknown''"
| "drop_reason_str SelfWriteSuppressed = ''self_write_suppressed''"
| "drop_reason_str PrimaryWithoutIntent = ''primary_without_intent''"
| "drop_reason_str NoRealizedFlavor = ''no_realized_flavor''"
| "drop_reason_str TornRead = ''torn_read''"
| "drop_reason_str GenerationGap = ''generation_gap''"
| "drop_reason_str GenerationStale = ''generation_stale''"
| "drop_reason_str OwnerContention = ''owner_contention''"
| "drop_reason_str TruncatedFlavor = ''truncated_flavor''"
| "drop_reason_str OverSizeCap = ''over_size_cap''"
| "drop_reason_str Backpressure = ''backpressure''"
| "drop_reason_str DebounceCollapsed = ''debounce_collapsed''"
| "drop_reason_str StoreFailure = ''store_failure''"
| "drop_reason_str MemoryOnlyUnsupported = ''memory_only_unsupported''"

fun decision_byte :: "privacy_decision \<Rightarrow> char" where
  "decision_byte DecisionCaptured = CHR 0x01"
| "decision_byte DecisionSkipped = CHR 0x02"
| "decision_byte DecisionLost = CHR 0x03"

definition privacy_preimage :: "u64 \<Rightarrow> u64 \<Rightarrow> u64 \<Rightarrow> privacy_decision \<Rightarrow> string \<Rightarrow> bytes \<Rightarrow> bytes" where
  "privacy_preimage sequence timestamp_ms count decision reason previous_hash =
     PRIVACY_DOMAIN @ previous_hash @ u64_be sequence @ u64_be timestamp_ms @ u64_be count @ [decision_byte decision] @ reason"

definition privacy_hash ::
  "(bytes \<Rightarrow> bytes) \<Rightarrow> u64 \<Rightarrow> u64 \<Rightarrow> u64 \<Rightarrow> privacy_decision \<Rightarrow> string \<Rightarrow> bytes \<Rightarrow> bytes" where
  "privacy_hash blake3 sequence timestamp_ms count decision reason previous_hash =
     blake3 (privacy_preimage sequence timestamp_ms count decision reason previous_hash)"

definition privacy_new :: "nat \<Rightarrow> privacy_ledger" where
  "privacy_new capacity = \<lparr>pl_capacity = max capacity 1, pl_next_sequence = 0, pl_previous_hash = replicate 32 (CHR 0x00), pl_entries = []\<rparr>"

definition outcome_decision :: "capture_outcome \<Rightarrow> privacy_decision \<times> string" where
  "outcome_decision outcome = (case outcome of Captured \<Rightarrow> (DecisionCaptured, ''captured'')
     | Dropped reason \<Rightarrow> (if drop_class_of reason = Intentional then DecisionSkipped else DecisionLost, drop_reason_str reason))"

definition privacy_append ::
  "(bytes \<Rightarrow> bytes) \<Rightarrow> privacy_ledger \<Rightarrow> u64 \<Rightarrow> capture_outcome \<Rightarrow> u64 \<Rightarrow> privacy_ledger \<times> privacy_entry" where
  "privacy_append blake3 l timestamp_ms outcome count =
     (let (decision, reason) = outcome_decision outcome;
          entry = \<lparr>pe_sequence = pl_next_sequence l, pe_timestamp_ms = timestamp_ms, pe_count = count, pe_decision = decision,
            pe_reason = reason, pe_previous_hash = pl_previous_hash l,
            pe_hash = privacy_hash blake3 (pl_next_sequence l) timestamp_ms count decision reason (pl_previous_hash l)\<rparr>;
          kept = (if length (pl_entries l) = pl_capacity l then tl (pl_entries l) else pl_entries l)
      in (l\<lparr>pl_next_sequence := saturating_add (pl_next_sequence l) 1, pl_previous_hash := pe_hash entry,
            pl_entries := kept @ [entry]\<rparr>, entry))"

definition privacy_head :: "privacy_ledger \<Rightarrow> bytes" where
  "privacy_head l = pl_previous_hash l"

definition entry_preimage :: "privacy_entry \<Rightarrow> bytes" where
  "entry_preimage e = privacy_preimage (pe_sequence e) (pe_timestamp_ms e) (pe_count e) (pe_decision e) (pe_reason e) (pe_previous_hash e)"

definition entry_hash_ok :: "(bytes \<Rightarrow> bytes) \<Rightarrow> privacy_entry \<Rightarrow> bool" where
  "entry_hash_ok blake3 e \<longleftrightarrow> pe_hash e =
     privacy_hash blake3 (pe_sequence e) (pe_timestamp_ms e) (pe_count e) (pe_decision e) (pe_reason e) (pe_previous_hash e)"

fun privacy_verify_from :: "(bytes \<Rightarrow> bytes) \<Rightarrow> u64 \<Rightarrow> bytes \<Rightarrow> privacy_entry list \<Rightarrow> bool" where
  "privacy_verify_from blake3 sequence previous [] \<longleftrightarrow> True"
| "privacy_verify_from blake3 sequence previous (e # es) \<longleftrightarrow>
     pe_sequence e = sequence \<and> pe_previous_hash e = previous \<and> entry_hash_ok blake3 e
     \<and> privacy_verify_from blake3 (saturating_add sequence 1) (pe_hash e) es"

definition privacy_verify :: "(bytes \<Rightarrow> bytes) \<Rightarrow> privacy_entry list \<Rightarrow> bool" where
  "privacy_verify blake3 es = (case es of [] \<Rightarrow> True | e # _ \<Rightarrow> privacy_verify_from blake3 (pe_sequence e) (pe_previous_hash e) es)"

section \<open>An appended ledger verifies\<close>

definition privacy_inv :: "(bytes \<Rightarrow> bytes) \<Rightarrow> privacy_ledger \<Rightarrow> bool" where
  "privacy_inv blake3 l \<longleftrightarrow> privacy_verify blake3 (pl_entries l) \<and> length (pl_entries l) \<le> pl_capacity l \<and> 1 \<le> pl_capacity l \<and>
     (pl_entries l \<noteq> [] \<longrightarrow> pl_previous_hash l = pe_hash (last (pl_entries l)) \<and>
        pl_next_sequence l = saturating_add (pe_sequence (last (pl_entries l))) 1)"

lemma verify_from_snoc:
  "es \<noteq> [] \<Longrightarrow> privacy_verify_from blake3 q h (es @ [e]) \<longleftrightarrow> privacy_verify_from blake3 q h es \<and>
     pe_sequence e = saturating_add (pe_sequence (last es)) 1 \<and> pe_previous_hash e = pe_hash (last es) \<and> entry_hash_ok blake3 e"
  by (induction es arbitrary: q h) auto

lemma verify_snoc:
  "privacy_verify blake3 (es @ [e]) \<longleftrightarrow> privacy_verify blake3 es \<and> entry_hash_ok blake3 e \<and>
     (es \<noteq> [] \<longrightarrow> pe_sequence e = saturating_add (pe_sequence (last es)) 1 \<and> pe_previous_hash e = pe_hash (last es))"
proof (cases es)
  case (Cons a as)
  then show ?thesis using verify_from_snoc [of es blake3 "pe_sequence a" "pe_previous_hash a" e] by (auto simp: privacy_verify_def)
qed (simp add: privacy_verify_def)

lemma verify_from_tl: "privacy_verify_from blake3 q h es \<Longrightarrow> privacy_verify blake3 (tl es)"
  by (cases es; cases "tl es") (auto simp: privacy_verify_def)

lemma verify_tl: "privacy_verify blake3 es \<Longrightarrow> privacy_verify blake3 (tl es)"
  by (cases es) (auto simp: privacy_verify_def intro: verify_from_tl [of blake3 _ _ "a # b" for a b, simplified])

lemma last_tl: "tl xs \<noteq> [] \<Longrightarrow> last (tl xs) = last xs"
  by (cases xs) auto

definition privacy_step :: "(bytes \<Rightarrow> bytes) \<Rightarrow> privacy_ledger \<Rightarrow> u64 \<times> capture_outcome \<times> u64 \<Rightarrow> privacy_ledger" where
  "privacy_step blake3 l op = (case op of (t, outcome, n) \<Rightarrow> fst (privacy_append blake3 l t outcome n))"

lemma privacy_append_inv:
  assumes "privacy_inv blake3 l" shows "privacy_inv blake3 (fst (privacy_append blake3 l t outcome n))"
proof -
  define kept where "kept = (if length (pl_entries l) = pl_capacity l then tl (pl_entries l) else pl_entries l)"
  obtain decision reason where d: "outcome_decision outcome = (decision, reason)" by fastforce
  have kept: "privacy_verify blake3 kept" "length kept < pl_capacity l" "kept \<noteq> [] \<longrightarrow> pl_entries l \<noteq> [] \<and> last kept = last (pl_entries l)"
    using assms verify_tl last_tl by (auto simp: kept_def privacy_inv_def)
  then show ?thesis using assms
    by (auto simp: privacy_append_def d Let_def kept_def [symmetric] privacy_inv_def verify_snoc entry_hash_ok_def)
qed

interpretation privacy: machine "privacy_step blake3" "privacy_inv blake3" for blake3
  by unfold_locales (auto simp: privacy_step_def privacy_append_inv split: prod.split)

lemma privacy_new_inv: "privacy_inv blake3 (privacy_new capacity)"
  by (simp add: privacy_inv_def privacy_new_def privacy_verify_def)

lemma privacy_ledger_verifies: "privacy_verify blake3 (pl_entries (run (privacy_step blake3) (privacy_new capacity) ops))"
  using privacy.inv_run [OF privacy_new_inv] by (simp add: privacy_inv_def)

section \<open>Tamper evidence\<close>

lemma decision_byte_inject: "decision_byte a = decision_byte b \<longleftrightarrow> a = b"
  by (cases a; cases b) simp_all

lemma entry_preimage_inject:
  assumes "entry_preimage e = entry_preimage e'" and "length (pe_previous_hash e) = 32" and "length (pe_previous_hash e') = 32"
    and "pe_hash e = pe_hash e'"
  shows "e = e'"
  using assms by (cases e; cases e')
    (simp add: entry_preimage_def privacy_preimage_def append_eq_append_conv decision_byte_inject)

text \<open>
  A head fixes the ledger it was read from: two verified windows of one length whose last entries have the same hash
  are the same, entry by entry, if BLAKE3 does not collide on what was hashed into them. So no recorded decision, count,
  reason or time can be changed, removed from the middle or reordered under a remembered head.
\<close>

lemma privacy_head_commits:
  assumes "privacy_verify blake3 es" and "privacy_verify blake3 es'" and "length es = length es'"
    and "es = [] \<or> pe_hash (last es) = pe_hash (last es')"
    and "\<forall>e \<in> set es \<union> set es'. length (pe_previous_hash e) = 32"
    and "inj_on blake3 (entry_preimage ` (set es \<union> set es'))"
  shows "es = es'"
  using assms
proof (induction es arbitrary: es' rule: rev_induct)
  case (snoc e es)
  obtain ds d where es': "es' = ds @ [d]" using snoc.prems(3) by (cases es' rule: rev_cases) auto
  have hash: "pe_hash e = pe_hash d" using snoc.prems(4) by (simp add: es')
  have ok: "pe_hash e = blake3 (entry_preimage e)" "pe_hash d = blake3 (entry_preimage d)"
    using snoc.prems(1,2) by (simp_all add: es' verify_snoc entry_hash_ok_def privacy_hash_def entry_preimage_def)
  have "entry_preimage e = entry_preimage d"
    by (rule inj_onD [OF snoc.prems(6)]) (use hash ok in \<open>simp_all add: es'\<close>)
  then have ed: "e = d" by (rule entry_preimage_inject) (use snoc.prems(5) hash in \<open>simp_all add: es'\<close>)
  have "es = ds"
  proof (rule snoc.IH)
    show "es = [] \<or> pe_hash (last es) = pe_hash (last ds)"
      using snoc.prems(1,2,3) ed by (cases "es = []") (auto simp: es' verify_snoc)
    show "inj_on blake3 (entry_preimage ` (set es \<union> set ds))"
      by (rule inj_on_subset [OF snoc.prems(6)]) (auto simp: es')
  qed (use snoc.prems in \<open>simp_all add: es' verify_snoc\<close>)
  with ed es' show ?case by simp
qed simp

definition sample_blake3 :: "bytes \<Rightarrow> bytes" where
  "sample_blake3 b = replicate 32 (CHR ''h'')"

definition sample_privacy_entry :: privacy_entry where
  "sample_privacy_entry = \<lparr>pe_sequence = 0, pe_timestamp_ms = 5, pe_count = 1, pe_decision = DecisionCaptured, pe_reason = ''captured'',
     pe_previous_hash = replicate 32 (CHR 0x00), pe_hash = replicate 32 (CHR ''h'')\<rparr>"

lemma privacy_head_commits_witness:
  "pl_entries (run (privacy_step sample_blake3) (privacy_new 4) [(5, Captured, 1)]) = [sample_privacy_entry]"
proof (rule privacy_head_commits [of sample_blake3])
  show "privacy_verify sample_blake3 (pl_entries (run (privacy_step sample_blake3) (privacy_new 4) [(5, Captured, 1)]))"
    by (rule privacy_ledger_verifies)
qed (simp_all add: privacy_verify_def sample_privacy_entry_def entry_hash_ok_def privacy_hash_def sample_blake3_def privacy_step_def
    privacy_append_def outcome_decision_def privacy_new_def entry_preimage_def inj_on_def Let_def)

end
