(* ===== verification/Query_Grammar.thy ===== *)
theory Query_Grammar
  imports Clip_Types Text_Format "HOL-Library.Multiset"
begin

text \<open>
  The unified query grammar, \<open>crates/vbuff-core/src/recall/grammar.rs\<close>: the facet registry, the parser with its sugar, the
  fingerprint, evaluation in memory and compilation to SQL.

  The Unicode tables (NFKC of another crate, case mapping) are the record \<open>unicode\<close>, the calendar date parser of another
  crate is the parameter \<open>parse_date\<close>. A \<open>DateTime<Utc>\<close> is its count of nanoseconds since the epoch; the loop over the
  tokens takes the tokens that are left.
\<close>

definition MAX_QUERY_BYTES :: nat where "MAX_QUERY_BYTES = 4 * 1024"
definition MAX_QUERY_TOKENS :: nat where "MAX_QUERY_TOKENS = 64"
definition MAX_FACET_VALUE_BYTES :: nat where "MAX_FACET_VALUE_BYTES = 512"
definition CLIP_ALIAS :: string where "CLIP_ALIAS = ''c''"

record unicode =
  un_nfkc :: "string \<Rightarrow> string"
  un_upper :: "string \<Rightarrow> string"
  un_lower :: "string \<Rightarrow> string"

definition normalize_lookup :: "unicode \<Rightarrow> string \<Rightarrow> string" where
  "normalize_lookup u v = un_nfkc u (un_lower u (un_upper u (un_nfkc u (trim v))))"

section \<open>The registry\<close>

datatype query_grammar = RecallGrammar | StoreGrammar
datatype value_syntax = TextSyntax | KindSyntax | InstantSyntax
datatype query_compare = EqualsCompare | ContainsCompare | BeforeCompare | AtOrAfterCompare
datatype query_subject = SourceAppSubject | OriginDeviceSubject | KindSubject | CreatedAtSubject | TagSubject | DerivedSubject string
datatype schema_gap = UnnormalizedSource string | NotPersisted string
datatype sql_binding = ColumnBinding string | FacetRowBinding string | MissingBinding schema_gap
datatype repeat_policy = RejectRepeat | ConjunctionRepeat
datatype empty_value = RejectEmpty | TextEmpty

record facet_spec =
  fs_name :: string
  fs_aliases :: "string list"
  fs_value :: value_syntax
  fs_bare_synonyms :: bool
  fs_compare :: query_compare
  fs_subject :: query_subject
  fs_sql :: sql_binding
  fs_repeat :: repeat_policy
  fs_empty_value :: empty_value
  fs_grammar :: query_grammar

definition answers_to :: "facet_spec \<Rightarrow> string \<Rightarrow> bool" where
  "answers_to s key \<longleftrightarrow> fs_name s = key \<or> key \<in> set (fs_aliases s)"

definition recall_row :: "string \<Rightarrow> value_syntax \<Rightarrow> bool \<Rightarrow> query_compare \<Rightarrow> query_subject \<Rightarrow> sql_binding \<Rightarrow> facet_spec" where
  "recall_row name v bare cmp sbj sql = \<lparr>fs_name = name, fs_aliases = [], fs_value = v, fs_bare_synonyms = bare, fs_compare = cmp,
     fs_subject = sbj, fs_sql = sql, fs_repeat = RejectRepeat, fs_empty_value = RejectEmpty, fs_grammar = RecallGrammar\<rparr>"

definition store_row :: "string \<Rightarrow> facet_spec" where
  "store_row name = \<lparr>fs_name = name, fs_aliases = [], fs_value = TextSyntax, fs_bare_synonyms = False, fs_compare = EqualsCompare,
     fs_subject = DerivedSubject name, fs_sql = FacetRowBinding name, fs_repeat = ConjunctionRepeat,
     fs_empty_value = TextEmpty, fs_grammar = StoreGrammar\<rparr>"

definition REGISTRY :: "facet_spec list" where
  "REGISTRY =
    [recall_row ''app'' TextSyntax False ContainsCompare SourceAppSubject (MissingBinding (UnnormalizedSource ''clips.source_app'')),
     recall_row ''kind'' KindSyntax True EqualsCompare KindSubject (ColumnBinding ''kind''),
     recall_row ''tag'' TextSyntax False EqualsCompare TagSubject
       (MissingBinding (NotPersisted ''clip tags live only in the in-memory ClipTags index'')),
     recall_row ''device'' TextSyntax False EqualsCompare OriginDeviceSubject
       (MissingBinding (UnnormalizedSource ''json_extract(clips.metadata_json, '$.lineage.origin_device')'')),
     recall_row ''before'' InstantSyntax False BeforeCompare CreatedAtSubject (ColumnBinding ''created_at''),
     recall_row ''after'' InstantSyntax False AtOrAfterCompare CreatedAtSubject (ColumnBinding ''created_at''),
     store_row ''host'', store_row ''color'', store_row ''lang'', store_row ''iso_date'']"

definition KIND_SYNONYMS :: "(string \<times> content_kind) list" where
  "KIND_SYNONYMS = [(''url'', UrlKind), (''urls'', UrlKind), (''link'', UrlKind), (''links'', UrlKind), (''image'', ImageKind),
     (''images'', ImageKind), (''picture'', ImageKind), (''pictures'', ImageKind), (''code'', CodeKind), (''snippet'', CodeKind),
     (''snippets'', CodeKind), (''file'', FileKind), (''files'', FileKind), (''color'', ColorKind), (''colors'', ColorKind)]"

definition find_facet :: "unicode \<Rightarrow> string \<Rightarrow> facet_spec option" where
  "find_facet u key = find (\<lambda>s. answers_to s (normalize_lookup u key)) REGISTRY"

datatype calendar_window = TodayWindow | YesterdayWindow | UntilLunch

datatype sugar_rule = ValueFollows string | DurationFollows string | QualifiedWindow string calendar_window | PlainWindow calendar_window

definition SUGAR :: "(string \<times> sugar_rule) list" where
  "SUGAR = [(''from'', ValueFollows ''app''), (''last'', DurationFollows ''after''), (''today'', PlainWindow TodayWindow),
     (''yesterday'', PlainWindow YesterdayWindow), (''before'', QualifiedWindow ''lunch'' UntilLunch)]"

section \<open>Queries\<close>

datatype facet_value = TextValue string | KindValue content_kind | InstantValue int

record query_constraint =
  qc_spec :: facet_spec
  qc_value :: facet_value

record parsed_query =
  pq_text :: string
  pq_constraints :: "query_constraint list"

definition constraints_for :: "unicode \<Rightarrow> parsed_query \<Rightarrow> string \<Rightarrow> query_constraint list" where
  "constraints_for u q facet = (let name = map_option fs_name (find_facet u facet) in
     filter (\<lambda>c. Some (fs_name (qc_spec c)) = name) (pq_constraints q))"

definition first_value :: "unicode \<Rightarrow> parsed_query \<Rightarrow> string \<Rightarrow> facet_value option" where
  "first_value u q facet = (case constraints_for u q facet of [] \<Rightarrow> None | c # _ \<Rightarrow> Some (qc_value c))"

text \<open>\<open>to_be_bytes\<close> of an \<open>i64\<close>; \<open>timestamp_millis\<close> rounds towards the past.\<close>

definition i64_be :: "int \<Rightarrow> bytes" where "i64_be n = u64_be (of_int n)"
definition timestamp_millis :: "int \<Rightarrow> int" where "timestamp_millis t = t div 1000000"

definition encode_constraint :: "query_constraint \<Rightarrow> bytes" where
  "encode_constraint c = fs_name (qc_spec c) @ CHR 0x00 # (case qc_value c of
       TextValue v \<Rightarrow> CHR ''T'' # v
     | KindValue kind \<Rightarrow> CHR ''K'' # i64_be (stored_discriminant kind)
     | InstantValue t \<Rightarrow> CHR ''I'' # i64_be (timestamp_millis t))"

definition update_framed :: "bytes \<Rightarrow> bytes" where
  "update_framed b = u64_be (of_nat (length b)) @ b"

definition fingerprint_preimage :: "parsed_query \<Rightarrow> bytes" where
  "fingerprint_preimage q = (let encoded = sort (map encode_constraint (pq_constraints q)) in
     ''vbuff-query-ast-v1'' @ update_framed (pq_text q) @ u32_be (of_nat (length encoded)) @ concat (map update_framed encoded))"

definition query_fingerprint :: "(bytes \<Rightarrow> bytes) \<Rightarrow> parsed_query \<Rightarrow> bytes" where
  "query_fingerprint blake3 q = blake3 (fingerprint_preimage q)"

section \<open>The parser\<close>

datatype query_error = QueryTooLarge | QueryInvalidSyntax | QueryInvalidFilter

fun tokenize_from :: "string list \<Rightarrow> string \<Rightarrow> bool \<Rightarrow> query_error + string list" where
  "tokenize_from [] current quoted = (if quoted then Inl QueryInvalidSyntax else Inr (if current = [] then [] else [current]))"
| "tokenize_from (b # bs) current quoted =
     (if b = ''\"'' then tokenize_from bs current (\<not> quoted)
      else if is_whitespace (decode_scalar b) \<and> \<not> quoted then
        try_then (tokenize_from bs [] quoted) (\<lambda>ts. Inr ((if current = [] then [] else [current]) @ ts))
      else tokenize_from bs (current @ b) quoted)"

definition tokenize :: "string \<Rightarrow> query_error + string list" where
  "tokenize raw = tokenize_from (utf8_split raw) [] False"

definition day_ns :: int where "day_ns = 86400 * 1000000000"
definition hour_ns :: int where "hour_ns = 3600 * 1000000000"

definition start_of_day :: "int \<Rightarrow> int" where
  "start_of_day now = now - now mod day_ns"

definition parse_relative_duration :: "string \<Rightarrow> query_error + int" where
  "parse_relative_duration v =
     (if v = ''hour'' then Inr hour_ns else if v = ''day'' then Inr day_ns else if v = ''week'' then Inr (7 * day_ns)
      else let digits = takeWhile is_ascii_digit v; unit_text = dropWhile is_ascii_digit v in
        if unit_text = [] then Inl QueryInvalidFilter
        else (case parse_digits digits of
            None \<Rightarrow> Inl QueryInvalidFilter
          | Some n \<Rightarrow> if \<not> (1 \<le> n \<and> n \<le> 365) then Inl QueryInvalidFilter
              else if unit_text = ''m'' \<or> unit_text = ''min'' then Inr (int n * 60 * 1000000000)
              else if unit_text = ''h'' \<or> unit_text = ''hr'' then Inr (int n * hour_ns)
              else if unit_text = ''d'' \<or> unit_text = ''day'' \<or> unit_text = ''days'' then Inr (int n * day_ns)
              else if unit_text = ''w'' \<or> unit_text = ''week'' \<or> unit_text = ''weeks'' then Inr (int n * 7 * day_ns)
              else Inl QueryInvalidFilter))"

definition parse_instant :: "(string \<Rightarrow> int option) \<Rightarrow> string \<Rightarrow> int \<Rightarrow> query_error + int" where
  "parse_instant parse_date v now =
     (if v = ''today'' then Inr (start_of_day now)
      else if v = ''yesterday'' then Inr (start_of_day now - day_ns)
      else if starts_with ''last-'' v then try_then (parse_relative_duration (drop 5 v)) (\<lambda>d. Inr (now - d))
      else case parse_date v of None \<Rightarrow> Inl QueryInvalidFilter | Some midnight \<Rightarrow> Inr midnight)"

definition kind_synonym :: "string \<Rightarrow> content_kind option" where
  "kind_synonym v = map_option snd (find (\<lambda>p. fst p = v) KIND_SYNONYMS)"

definition parse_query_kind :: "string \<Rightarrow> content_kind option" where
  "parse_query_kind v = (case kind_synonym v of Some kind \<Rightarrow> Some kind
     | None \<Rightarrow> (case content_kind_from_str v of Inr kind \<Rightarrow> Some kind | Inl _ \<Rightarrow> None))"

definition parse_facet_value :: "unicode \<Rightarrow> (string \<Rightarrow> int option) \<Rightarrow> facet_spec \<Rightarrow> string \<Rightarrow> int \<Rightarrow> query_error + facet_value option" where
  "parse_facet_value u parse_date spec raw now =
     (if length raw > MAX_FACET_VALUE_BYTES \<or> has_control raw then Inl QueryInvalidFilter
      else if trim raw = [] then (case fs_empty_value spec of RejectEmpty \<Rightarrow> Inl QueryInvalidFilter | TextEmpty \<Rightarrow> Inr None)
      else let normalized = normalize_lookup u raw in
        case fs_value spec of
          TextSyntax \<Rightarrow> Inr (Some (TextValue normalized))
        | KindSyntax \<Rightarrow> (case parse_query_kind normalized of None \<Rightarrow> Inl QueryInvalidFilter | Some kind \<Rightarrow> Inr (Some (KindValue kind)))
        | InstantSyntax \<Rightarrow> try_then (parse_instant parse_date normalized now) (\<lambda>t. Inr (Some (InstantValue t))))"

definition push_constraint :: "query_constraint list \<Rightarrow> facet_spec \<Rightarrow> facet_value \<Rightarrow> query_error + query_constraint list" where
  "push_constraint cs spec v =
     (if fs_repeat spec = RejectRepeat \<and> list_ex (\<lambda>c. fs_name (qc_spec c) = fs_name spec) cs then Inl QueryInvalidFilter
      else Inr (cs @ [\<lparr>qc_spec = spec, qc_value = v\<rparr>]))"

definition push_instant :: "unicode \<Rightarrow> query_constraint list \<Rightarrow> string \<Rightarrow> int option \<Rightarrow> query_error + query_constraint list" where
  "push_instant u cs facet instant = (case instant of None \<Rightarrow> Inr cs
     | Some t \<Rightarrow> (case find_facet u facet of None \<Rightarrow> Inl QueryInvalidFilter | Some spec \<Rightarrow> push_constraint cs spec (InstantValue t)))"

definition push_window :: "unicode \<Rightarrow> query_constraint list \<Rightarrow> calendar_window \<Rightarrow> int \<Rightarrow> query_error + query_constraint list" where
  "push_window u cs window now = (let midnight = start_of_day now;
       (after, before) = (case window of TodayWindow \<Rightarrow> (Some midnight, None)
         | YesterdayWindow \<Rightarrow> (Some (midnight - day_ns), Some midnight)
         | UntilLunch \<Rightarrow> (Some midnight, Some (midnight + 12 * hour_ns))) in
     try_then (push_instant u cs ''after'' after) (\<lambda>cs. push_instant u cs ''before'' before))"

text \<open>The answer holds the constraints and the number of tokens used.\<close>

definition apply_sugar ::
  "unicode \<Rightarrow> (string \<Rightarrow> int option) \<Rightarrow> query_constraint list \<Rightarrow> string \<Rightarrow> string list \<Rightarrow> int \<Rightarrow>
     query_error + (query_constraint list \<times> nat) option" where
  "apply_sugar u parse_date cs token following now = (case map_of SUGAR (normalize_lookup u token) of
       None \<Rightarrow> Inr None
     | Some (ValueFollows facet) \<Rightarrow> (case following of [] \<Rightarrow> Inr None
         | nxt # _ \<Rightarrow> (case find_facet u facet of None \<Rightarrow> Inl QueryInvalidFilter
             | Some spec \<Rightarrow> try_then (parse_facet_value u parse_date spec nxt now) (\<lambda>v. case v of None \<Rightarrow> Inr None
                 | Some v \<Rightarrow> try_then (push_constraint cs spec v) (\<lambda>cs. Inr (Some (cs, 2))))))
     | Some (DurationFollows facet) \<Rightarrow> (case following of [] \<Rightarrow> Inr None
         | nxt # _ \<Rightarrow> (case find_facet u facet of None \<Rightarrow> Inl QueryInvalidFilter
             | Some spec \<Rightarrow> try_then (parse_relative_duration (normalize_lookup u nxt)) (\<lambda>d.
                 try_then (push_constraint cs spec (InstantValue (now - d))) (\<lambda>cs. Inr (Some (cs, 2))))))
     | Some (QualifiedWindow qualifier window) \<Rightarrow>
         if \<not> (case following of [] \<Rightarrow> False | nxt # _ \<Rightarrow> normalize_lookup u nxt = qualifier) then Inr None
         else try_then (push_window u cs window now) (\<lambda>cs. Inr (Some (cs, 2)))
     | Some (PlainWindow window) \<Rightarrow> try_then (push_window u cs window now) (\<lambda>cs. Inr (Some (cs, 1))))"

definition apply_bare_kind :: "unicode \<Rightarrow> query_constraint list \<Rightarrow> string \<Rightarrow> query_error + query_constraint list option" where
  "apply_bare_kind u cs token = (case kind_synonym (normalize_lookup u token) of None \<Rightarrow> Inr None
     | Some kind \<Rightarrow> (case find (\<lambda>s. fs_bare_synonyms s \<and> fs_value s = KindSyntax) REGISTRY of None \<Rightarrow> Inr None
         | Some spec \<Rightarrow> try_then (push_constraint cs spec (KindValue kind)) (\<lambda>cs. Inr (Some cs))))"

definition apply_facet :: "unicode \<Rightarrow> (string \<Rightarrow> int option) \<Rightarrow> query_constraint list \<Rightarrow> string \<Rightarrow> int \<Rightarrow> query_error + query_constraint list option" where
  "apply_facet u parse_date cs token now = (case split_once CHR '':'' token of None \<Rightarrow> Inr None
     | Some (key, v) \<Rightarrow> (case find_facet u key of None \<Rightarrow> Inr None
         | Some spec \<Rightarrow> try_then (parse_facet_value u parse_date spec v now) (\<lambda>parsed. case parsed of None \<Rightarrow> Inr None
             | Some parsed \<Rightarrow> try_then (push_constraint cs spec parsed) (\<lambda>cs. Inr (Some cs)))))"

function parse_tokens ::
  "unicode \<Rightarrow> (string \<Rightarrow> int option) \<Rightarrow> int \<Rightarrow> string list \<Rightarrow> string list \<Rightarrow> query_constraint list \<Rightarrow>
     query_error + (string list \<times> query_constraint list)" where
  "parse_tokens u parse_date now [] words cs = Inr (words, cs)"
| "parse_tokens u parse_date now (token # following) words cs =
     try_then (apply_facet u parse_date cs token now) (\<lambda>r. case r of
       Some cs' \<Rightarrow> parse_tokens u parse_date now following words cs'
     | None \<Rightarrow> try_then (apply_sugar u parse_date cs token following now) (\<lambda>r. case r of
         Some (cs', used) \<Rightarrow> parse_tokens u parse_date now (drop (used - 1) following) words cs'
       | None \<Rightarrow> try_then (apply_bare_kind u cs token) (\<lambda>r. case r of
           Some cs' \<Rightarrow> parse_tokens u parse_date now following words cs'
         | None \<Rightarrow> parse_tokens u parse_date now following (words @ [token]) cs)))"
  by pat_completeness auto
termination by (relation "measure (\<lambda>(_, _, _, tokens, _, _). length tokens)") auto

definition instant_bounds :: "query_compare \<Rightarrow> query_constraint list \<Rightarrow> int list" where
  "instant_bounds cmp cs = List.map_filter (\<lambda>c. if fs_subject (qc_spec c) = CreatedAtSubject \<and> fs_compare (qc_spec c) = cmp
     then (case qc_value c of InstantValue t \<Rightarrow> Some t | _ \<Rightarrow> None) else None) cs"

definition check_time_window :: "query_constraint list \<Rightarrow> query_error + unit" where
  "check_time_window cs = (let uppers = instant_bounds BeforeCompare cs; lowers = instant_bounds AtOrAfterCompare cs in
     if uppers \<noteq> [] \<and> lowers \<noteq> [] \<and> Min (set uppers) \<le> Max (set lowers) then Inl QueryInvalidFilter else Inr ())"

definition parse_query :: "unicode \<Rightarrow> (string \<Rightarrow> int option) \<Rightarrow> string \<Rightarrow> int \<Rightarrow> query_error + parsed_query" where
  "parse_query u parse_date raw now =
     (if length raw > MAX_QUERY_BYTES \<or> CHR 0x00 \<in> set raw then Inl QueryTooLarge
      else try_then (tokenize raw) (\<lambda>tokens.
        if length tokens > MAX_QUERY_TOKENS then Inl QueryTooLarge
        else try_then (parse_tokens u parse_date now tokens [] []) (\<lambda>(words, cs).
          try_then (check_time_window cs) (\<lambda>_. Inr \<lparr>pq_text = join_with '' '' words, pq_constraints = cs\<rparr>))))"

section \<open>Execution\<close>

record clip_view =
  vw_kind :: content_kind
  vw_created_at :: int
  vw_values :: "query_subject \<Rightarrow> string list"

definition constraint_matches :: "unicode \<Rightarrow> query_constraint \<Rightarrow> clip_view \<Rightarrow> bool" where
  "constraint_matches u c view = (case (qc_value c, fs_subject (qc_spec c)) of
       (KindValue kind, KindSubject) \<Rightarrow> vw_kind view = kind
     | (InstantValue t, CreatedAtSubject) \<Rightarrow> (case fs_compare (qc_spec c) of
           BeforeCompare \<Rightarrow> vw_created_at view < t | AtOrAfterCompare \<Rightarrow> vw_created_at view \<ge> t | _ \<Rightarrow> False)
     | (TextValue v, sbj) \<Rightarrow> (case sbj of KindSubject \<Rightarrow> False | CreatedAtSubject \<Rightarrow> False
         | _ \<Rightarrow> list_ex (\<lambda>candidate. let folded = normalize_lookup u candidate in
             case fs_compare (qc_spec c) of EqualsCompare \<Rightarrow> folded = v | ContainsCompare \<Rightarrow> contains_sub v folded
             | _ \<Rightarrow> False) (vw_values view sbj))
     | _ \<Rightarrow> False)"

definition matches_constraints :: "unicode \<Rightarrow> parsed_query \<Rightarrow> clip_view \<Rightarrow> bool" where
  "matches_constraints u q view = list_all (\<lambda>c. constraint_matches u c view) (pq_constraints q)"

datatype sql_bind = TextBind string | IntegerBind int

record sql_predicate =
  sq_fragment :: string
  sq_binds :: "sql_bind list"

definition compile_constraint :: "query_constraint \<Rightarrow> schema_gap + sql_predicate" where
  "compile_constraint c =
     (let bind = (case qc_value c of TextValue v \<Rightarrow> TextBind v | KindValue kind \<Rightarrow> IntegerBind (stored_discriminant kind)
            | InstantValue t \<Rightarrow> IntegerBind (timestamp_millis t));
          operator = (case fs_compare (qc_spec c) of EqualsCompare \<Rightarrow> ''='' | BeforeCompare \<Rightarrow> ''<''
            | AtOrAfterCompare \<Rightarrow> ''>='' | ContainsCompare \<Rightarrow> '''') in
      case fs_sql (qc_spec c) of
        ColumnBinding column \<Rightarrow> Inr \<lparr>sq_fragment = (if fs_compare (qc_spec c) = ContainsCompare
            then ''instr('' @ CLIP_ALIAS @ ''.'' @ column @ '', ?) > 0''
            else CLIP_ALIAS @ ''.'' @ column @ '' '' @ operator @ '' ?''), sq_binds = [bind]\<rparr>
      | FacetRowBinding key \<Rightarrow> Inr \<lparr>sq_fragment = ''EXISTS (SELECT 1 FROM clip_facets f WHERE f.clip_id = '' @ CLIP_ALIAS @
            ''.id AND f.key = ? AND '' @ (if fs_compare (qc_spec c) = ContainsCompare then ''instr(f.value, ?) > 0''
              else ''f.value '' @ operator @ '' ?'') @ '')'', sq_binds = [TextBind key, bind]\<rparr>
      | MissingBinding gap \<Rightarrow> Inl gap)"

fun compile_constraints :: "query_constraint list \<Rightarrow> schema_gap + sql_predicate list" where
  "compile_constraints [] = Inr []"
| "compile_constraints (c # cs) = try_then (compile_constraint c) (\<lambda>p. try_then (compile_constraints cs) (\<lambda>ps. Inr (p # ps)))"

definition sql_predicates :: "parsed_query \<Rightarrow> schema_gap + sql_predicate list" where
  "sql_predicates q = compile_constraints (pq_constraints q)"

end
