(* ===== verification/Query_Facts.thy ===== *)
theory Query_Facts
  imports Query_Grammar
begin

text \<open>
  What the unified query grammar of \<open>Query_Grammar\<close> guarantees: parsed queries are well typed, repeat no single-valued
  facet and can match some instant; the fingerprint commits to the query; compiled SQL never contains user text.
\<close>

section \<open>Parsed queries are well formed\<close>

definition query_typed :: "query_constraint \<Rightarrow> bool" where
  "query_typed c \<longleftrightarrow> (case fs_value (qc_spec c) of TextSyntax \<Rightarrow> (\<exists>v. qc_value c = TextValue v)
     | KindSyntax \<Rightarrow> (\<exists>kind. qc_value c = KindValue kind) | InstantSyntax \<Rightarrow> (\<exists>t. qc_value c = InstantValue t))"

definition constraints_ok :: "query_constraint list \<Rightarrow> bool" where
  "constraints_ok cs \<longleftrightarrow> (\<forall>c \<in> set cs. qc_spec c \<in> set REGISTRY \<and> query_typed c) \<and>
     (\<forall>i j. i < j \<longrightarrow> j < length cs \<longrightarrow> fs_repeat (qc_spec (cs ! j)) = RejectRepeat \<longrightarrow>
        fs_name (qc_spec (cs ! i)) \<noteq> fs_name (qc_spec (cs ! j)))"

definition plain_names :: "unicode \<Rightarrow> bool" where
  "plain_names u \<longleftrightarrow> normalize_lookup u ''after'' = ''after'' \<and> normalize_lookup u ''before'' = ''before''"

lemma constraints_ok_Nil [simp]: "constraints_ok []"
  by (simp add: constraints_ok_def)

lemma push_constraint_ok:
  assumes "push_constraint cs spec v = Inr cs'" and "constraints_ok cs" and "spec \<in> set REGISTRY"
    and "query_typed \<lparr>qc_spec = spec, qc_value = v\<rparr>"
  shows "constraints_ok cs'"
proof -
  from assms(1) have cs': "cs' = cs @ [\<lparr>qc_spec = spec, qc_value = v\<rparr>]"
    and once: "fs_repeat spec = RejectRepeat \<Longrightarrow> c \<in> set cs \<Longrightarrow> fs_name (qc_spec c) \<noteq> fs_name spec" for c
    by (auto simp: push_constraint_def list_ex_iff split: if_splits)
  have "fs_name (qc_spec (cs' ! i)) \<noteq> fs_name (qc_spec (cs' ! j))"
    if "i < j" "j < length cs'" "fs_repeat (qc_spec (cs' ! j)) = RejectRepeat" for i j
  proof (cases "j < length cs")
    case True
    with that assms(2) show ?thesis by (simp add: constraints_ok_def cs' nth_append)
  next
    case False
    with that have "j = length cs" "i < length cs" by (simp_all add: cs')
    with that once show ?thesis by (simp add: cs' nth_append)
  qed
  with assms(2,3,4) show ?thesis by (auto simp: constraints_ok_def cs')
qed

lemma find_facet_registry: "find_facet u key = Some spec \<Longrightarrow> spec \<in> set REGISTRY"
  by (auto simp: find_facet_def find_Some_iff)

lemma parse_facet_value_typed:
  "parse_facet_value u pd spec raw now = Inr (Some v) \<Longrightarrow> query_typed \<lparr>qc_spec = spec, qc_value = v\<rparr>"
  by (auto simp: parse_facet_value_def query_typed_def Let_def try_then_eq_Inr split: if_splits empty_value.splits value_syntax.splits option.splits)

lemma find_time_facets:
  "plain_names u \<Longrightarrow> find_facet u ''after'' = Some (recall_row ''after'' InstantSyntax False AtOrAfterCompare CreatedAtSubject (ColumnBinding ''created_at''))"
  "plain_names u \<Longrightarrow> find_facet u ''before'' = Some (recall_row ''before'' InstantSyntax False BeforeCompare CreatedAtSubject (ColumnBinding ''created_at''))"
  by (simp_all add: plain_names_def find_facet_def REGISTRY_def answers_to_def recall_row_def store_row_def)

lemma time_facets:
  assumes "plain_names u" and "facet = ''after'' \<or> facet = ''before''" and "find_facet u facet = Some spec"
  shows "fs_value spec = InstantSyntax"
proof -
  from assms(2,3) have "spec = recall_row ''after'' InstantSyntax False AtOrAfterCompare CreatedAtSubject (ColumnBinding ''created_at'') \<or>
      spec = recall_row ''before'' InstantSyntax False BeforeCompare CreatedAtSubject (ColumnBinding ''created_at'')"
    using find_time_facets [OF assms(1)] by (elim disjE) simp_all
  then show ?thesis by (elim disjE) (simp_all add: recall_row_def)
qed

lemma push_parsed_ok:
  "push_constraint cs spec v = Inr cs' \<Longrightarrow> constraints_ok cs \<Longrightarrow> find_facet u key = Some spec \<Longrightarrow>
     parse_facet_value u pd spec raw now = Inr (Some v) \<Longrightarrow> constraints_ok cs'"
  by (rule push_constraint_ok [OF _ _ find_facet_registry parse_facet_value_typed])

lemma push_instant_ok:
  assumes "push_instant u cs facet t = Inr cs'" and "plain_names u" and "facet = ''after'' \<or> facet = ''before''" and "constraints_ok cs"
  shows "constraints_ok cs'"
proof (cases t)
  case None
  with assms show ?thesis by (simp add: push_instant_def)
next
  case (Some b)
  with assms(1) obtain spec where spec: "find_facet u facet = Some spec" "push_constraint cs spec (InstantValue b) = Inr cs'"
    by (auto simp: push_instant_def split: option.splits)
  have "query_typed \<lparr>qc_spec = spec, qc_value = InstantValue b\<rparr>"
    using time_facets [OF assms(2,3) spec(1)] by (simp add: query_typed_def)
  then show ?thesis by (rule push_constraint_ok [OF spec(2) assms(4) find_facet_registry [OF spec(1)]])
qed

lemma push_window_ok:
  assumes "push_window u cs window now = Inr cs'" and "plain_names u" and "constraints_ok cs"
  shows "constraints_ok cs'"
proof -
  obtain a b cs1 where "push_instant u cs ''after'' a = Inr cs1" "push_instant u cs1 ''before'' b = Inr cs'"
    using assms(1) by (auto simp: push_window_def try_then_eq_Inr Let_def split: prod.splits)
  with push_instant_ok assms(2,3) show ?thesis by blast
qed

lemma sugar_facets: "map_of SUGAR w = Some (DurationFollows facet) \<Longrightarrow> facet = ''after''"
  by (auto simp: SUGAR_def split: if_splits)

lemma apply_sugar_ok:
  assumes "apply_sugar u pd cs token following now = Inr (Some (cs', used))" and "plain_names u" and "constraints_ok cs"
  shows "constraints_ok cs'"
proof -
  obtain rule where rule: "map_of SUGAR (normalize_lookup u token) = Some rule"
    using assms(1) by (auto simp: apply_sugar_def split: option.splits)
  show ?thesis
  proof (cases rule)
    case (ValueFollows facet)
    then obtain spec v nxt where "find_facet u facet = Some spec" "parse_facet_value u pd spec nxt now = Inr (Some v)"
        "push_constraint cs spec v = Inr cs'"
      using assms(1) rule by (auto simp: apply_sugar_def try_then_eq_Inr split: option.splits list.splits)
    then show ?thesis using push_parsed_ok assms(3) by blast
  next
    case (DurationFollows facet)
    then obtain spec t where "find_facet u facet = Some spec" "push_constraint cs spec (InstantValue t) = Inr cs'"
      using assms(1) rule by (auto simp: apply_sugar_def try_then_eq_Inr split: option.splits list.splits)
    moreover have "facet = ''after''" using rule DurationFollows by (simp add: sugar_facets)
    ultimately have "push_instant u cs ''after'' (Some t) = Inr cs'" by (simp add: push_instant_def)
    then show ?thesis using push_instant_ok assms(2,3) by blast
  next
    case (QualifiedWindow qualifier window)
    then have "push_window u cs window now = Inr cs'"
      using assms(1) rule by (auto simp: apply_sugar_def try_then_eq_Inr split: if_splits)
    then show ?thesis using push_window_ok assms(2,3) by blast
  next
    case (PlainWindow window)
    then have "push_window u cs window now = Inr cs'"
      using assms(1) rule by (auto simp: apply_sugar_def try_then_eq_Inr)
    then show ?thesis using push_window_ok assms(2,3) by blast
  qed
qed

lemma apply_facet_ok:
  assumes "apply_facet u pd cs token now = Inr (Some cs')" and "constraints_ok cs"
  shows "constraints_ok cs'"
proof -
  obtain key v spec parsed where "find_facet u key = Some spec" "parse_facet_value u pd spec v now = Inr (Some parsed)"
      "push_constraint cs spec parsed = Inr cs'"
    using assms(1) by (auto simp: apply_facet_def try_then_eq_Inr split: option.splits)
  then show ?thesis using push_parsed_ok assms(2) by blast
qed

lemma apply_bare_kind_ok:
  assumes "apply_bare_kind u cs token = Inr (Some cs')" and "constraints_ok cs"
  shows "constraints_ok cs'"
proof -
  let ?row = "recall_row ''kind'' KindSyntax True EqualsCompare KindSubject (ColumnBinding ''kind'')"
  have spec: "find (\<lambda>s. fs_bare_synonyms s \<and> fs_value s = KindSyntax) REGISTRY = Some ?row"
    by (simp add: REGISTRY_def recall_row_def store_row_def)
  obtain kind where "push_constraint cs ?row (KindValue kind) = Inr cs'"
    using assms(1) unfolding apply_bare_kind_def spec by (auto simp: try_then_eq_Inr split: option.splits)
  then show ?thesis
    by (rule push_constraint_ok [OF _ assms(2)]) (simp_all add: REGISTRY_def query_typed_def recall_row_def)
qed

lemma parse_tokens_ok:
  "parse_tokens u pd now tokens words cs = Inr (words', cs') \<Longrightarrow> plain_names u \<Longrightarrow> constraints_ok cs \<Longrightarrow> constraints_ok cs'"
proof (induction "length tokens" arbitrary: tokens words cs rule: less_induct)
  case less
  show ?case
  proof (cases tokens)
    case Nil
    with less.prems show ?thesis by simp
  next
    case (Cons token following)
    have step: "constraints_ok cs'"
      if "parse_tokens u pd now (drop n following) ws cs1 = Inr (words', cs')" "constraints_ok cs1" for n ws cs1
      by (rule less.hyps [OF _ that(1) less.prems(2) that(2)]) (simp add: Cons)
    from less.prems(1) obtain r where r: "apply_facet u pd cs token now = Inr r" by (auto simp: Cons try_then_eq_Inr)
    show ?thesis
    proof (cases r)
      case (Some cs1)
      with r less.prems(1) have "parse_tokens u pd now (drop 0 following) words cs1 = Inr (words', cs')" by (simp add: Cons)
      with step apply_facet_ok [OF r [unfolded Some] less.prems(3)] show ?thesis by blast
    next
      case r0: None
      with r less.prems(1) obtain s where s: "apply_sugar u pd cs token following now = Inr s" by (auto simp: Cons try_then_eq_Inr)
      show ?thesis
      proof (cases s)
        case (Some p)
        obtain cs1 used where p: "p = (cs1, used)" by (cases p)
        with r r0 s Some less.prems(1) have "parse_tokens u pd now (drop (used - 1) following) words cs1 = Inr (words', cs')" by (simp add: Cons)
        with step apply_sugar_ok [OF s [unfolded Some p] less.prems(2,3)] show ?thesis by blast
      next
        case s0: None
        with r r0 s less.prems(1) obtain b where b: "apply_bare_kind u cs token = Inr b" by (auto simp: Cons try_then_eq_Inr)
        show ?thesis
        proof (cases b)
          case (Some cs1)
          with r r0 s s0 b less.prems(1) have "parse_tokens u pd now (drop 0 following) words cs1 = Inr (words', cs')" by (simp add: Cons)
          with step apply_bare_kind_ok [OF b [unfolded Some] less.prems(3)] show ?thesis by blast
        next
          case None
          with r r0 s s0 b less.prems(1) have "parse_tokens u pd now (drop 0 following) (words @ [token]) cs = Inr (words', cs')" by (simp add: Cons)
          with step less.prems(3) show ?thesis by blast
        qed
      qed
    qed
  qed
qed

lemma instant_bounds_member:
  "c \<in> set cs \<Longrightarrow> fs_subject (qc_spec c) = CreatedAtSubject \<Longrightarrow> qc_value c = InstantValue t \<Longrightarrow> t \<in> set (instant_bounds (fs_compare (qc_spec c)) cs)"
  by (force simp: instant_bounds_def List.map_filter_def)

lemma time_rows:
  "spec \<in> set REGISTRY \<Longrightarrow> fs_subject spec = CreatedAtSubject \<Longrightarrow>
     fs_value spec = InstantSyntax \<and> (fs_compare spec = BeforeCompare \<or> fs_compare spec = AtOrAfterCompare)"
  by (auto simp: REGISTRY_def recall_row_def store_row_def)

lemma window_satisfiable:
  assumes "check_time_window cs = Inr ()" and "constraints_ok cs"
  shows "\<exists>t. \<forall>c \<in> set cs. fs_subject (qc_spec c) = CreatedAtSubject \<longrightarrow> (\<forall>view. vw_created_at view = t \<longrightarrow> constraint_matches u c view)"
proof -
  let ?up = "set (instant_bounds BeforeCompare cs)" and ?lo = "set (instant_bounds AtOrAfterCompare cs)"
  define t where "t = (if ?lo \<noteq> {} then Max ?lo else if ?up \<noteq> {} then Min ?up - 1 else 0)"
  have lo: "b \<le> t" if "b \<in> ?lo" for b
  proof -
    from that have "t = Max ?lo" by (auto simp: t_def)
    with that show ?thesis by simp
  qed
  have up: "t < b" if b: "b \<in> ?up" for b
  proof -
    have le: "Min ?up \<le> b" using b by simp
    show ?thesis
    proof (cases "?lo = {}")
      case True
      then have "t = Min ?up - 1" using b by (auto simp: t_def)
      with le show ?thesis by simp
    next
      case False
      with b assms(1) have "\<not> Min ?up \<le> Max ?lo" by (auto simp: check_time_window_def Let_def split: if_splits)
      moreover have "t = Max ?lo" using False by (simp add: t_def)
      ultimately show ?thesis using le by linarith
    qed
  qed
  have "constraint_matches u c view" if c: "c \<in> set cs" "fs_subject (qc_spec c) = CreatedAtSubject" and view: "vw_created_at view = t" for c view
  proof -
    have spec: "qc_spec c \<in> set REGISTRY" "query_typed c" using assms(2) c(1) by (auto simp: constraints_ok_def)
    note row = time_rows [OF spec(1) c(2)]
    then obtain b where b: "qc_value c = InstantValue b" using spec(2) by (auto simp: query_typed_def)
    have "b \<in> set (instant_bounds (fs_compare (qc_spec c)) cs)" by (rule instant_bounds_member [OF c b])
    with row lo up show ?thesis by (auto simp: constraint_matches_def b c(2) view)
  qed
  then show ?thesis by blast
qed

text \<open>
  Every query that parses is well formed: each constraint is a row of the registry with a value of that row's type,
  a facet that may not repeat occurs once, and there is an instant that satisfies all its time constraints together, so
  no accepted query is empty for its dates. The names of the two time facets must survive normalization.
\<close>

lemma parsed_query_well_formed:
  assumes "parse_query u parse_date raw now = Inr q" and "plain_names u"
  shows "(\<forall>c \<in> set (pq_constraints q). qc_spec c \<in> set REGISTRY \<and> query_typed c) \<and>
    (\<forall>i j. i < j \<longrightarrow> j < length (pq_constraints q) \<longrightarrow> fs_repeat (qc_spec (pq_constraints q ! j)) = RejectRepeat \<longrightarrow>
       fs_name (qc_spec (pq_constraints q ! i)) \<noteq> fs_name (qc_spec (pq_constraints q ! j))) \<and>
    (\<exists>t. \<forall>c \<in> set (pq_constraints q). fs_subject (qc_spec c) = CreatedAtSubject \<longrightarrow>
       (\<forall>view. vw_created_at view = t \<longrightarrow> constraint_matches u c view))"
proof -
  obtain tokens words cs where "parse_tokens u parse_date now tokens [] [] = Inr (words, cs)"
      and window: "check_time_window cs = Inr ()" and q: "pq_constraints q = cs"
    using assms(1) by (auto simp: parse_query_def try_then_eq_Inr split: if_splits prod.splits)
  then have "constraints_ok cs" using parse_tokens_ok assms(2) by (metis constraints_ok_Nil)
  then show ?thesis using window_satisfiable [OF window] by (simp add: constraints_ok_def q)
qed

definition plain_unicode :: unicode where
  "plain_unicode = \<lparr>un_nfkc = id, un_upper = id, un_lower = id\<rparr>"

lemma normalize_plain_word: "list_all (\<lambda>c. 32 < (of_char c :: nat) \<and> of_char c < (128 :: nat)) w \<Longrightarrow> normalize_lookup plain_unicode w = w"
  by (simp add: normalize_lookup_def plain_unicode_def trim_ascii_word)

lemma parsed_query_well_formed_witness:
  "\<exists>q. parse_query plain_unicode (\<lambda>_. None) ''url'' 5 = Inr q \<and> pq_constraints q \<noteq> [] \<and> qc_spec (hd (pq_constraints q)) \<in> set REGISTRY"
proof -
  let ?row = "recall_row ''kind'' KindSyntax True EqualsCompare KindSubject (ColumnBinding ''kind'')"
  let ?cs = "[\<lparr>qc_spec = ?row, qc_value = KindValue UrlKind\<rparr>]"
  have word: "normalize_lookup plain_unicode ''url'' = ''url''" by (rule normalize_plain_word) simp
  have "tokenize ''url'' = Inr [''url'']" by (simp add: tokenize_def utf8_width_def is_whitespace_def)
  moreover have "apply_facet plain_unicode (\<lambda>_. None) [] ''url'' 5 = Inr None" by (simp add: apply_facet_def split_once_def)
  moreover have "apply_sugar plain_unicode (\<lambda>_. None) [] ''url'' [] 5 = Inr None" unfolding apply_sugar_def word by (simp add: SUGAR_def)
  moreover have "find (\<lambda>s. fs_bare_synonyms s \<and> fs_value s = KindSyntax) REGISTRY = Some ?row"
    by (simp add: REGISTRY_def recall_row_def store_row_def)
  then have "apply_bare_kind plain_unicode [] ''url'' = Inr (Some ?cs)"
    unfolding apply_bare_kind_def word by (simp add: kind_synonym_def KIND_SYNONYMS_def push_constraint_def)
  moreover have "check_time_window ?cs = Inr ()"
    by (simp add: check_time_window_def instant_bounds_def List.map_filter_def recall_row_def)
  ultimately have q: "parse_query plain_unicode (\<lambda>_. None) ''url'' 5 = Inr \<lparr>pq_text = [], pq_constraints = ?cs\<rparr>"
    by (simp add: parse_query_def MAX_QUERY_BYTES_def MAX_QUERY_TOKENS_def)
  moreover have "plain_names plain_unicode" by (simp add: plain_names_def normalize_plain_word)
  ultimately show ?thesis using parsed_query_well_formed [OF q] by simp
qed

section \<open>The fingerprint\<close>

text \<open>What the fingerprint sees of a constraint: the facet, and the value with instants in milliseconds.\<close>

definition canonical_value :: "facet_value \<Rightarrow> facet_value" where
  "canonical_value v = (case v of InstantValue t \<Rightarrow> InstantValue (timestamp_millis t) | _ \<Rightarrow> v)"

definition canonical :: "query_constraint \<Rightarrow> string \<times> facet_value" where
  "canonical c = (fs_name (qc_spec c), canonical_value (qc_value c))"

definition encode_canonical :: "string \<times> facet_value \<Rightarrow> bytes" where
  "encode_canonical p = fst p @ CHR 0x00 # (case snd p of TextValue v \<Rightarrow> CHR ''T'' # v
     | KindValue kind \<Rightarrow> CHR ''K'' # i64_be (stored_discriminant kind) | InstantValue n \<Rightarrow> CHR ''I'' # i64_be n)"

lemma encode_constraint_canonical: "encode_constraint c = encode_canonical (canonical c)"
  by (simp add: encode_constraint_def encode_canonical_def canonical_def canonical_value_def split: facet_value.split)

lemma encode_split: "encode_constraint = encode_canonical \<circ> canonical"
  by (rule ext) (simp add: encode_constraint_canonical)

definition encodable :: "string \<times> facet_value \<Rightarrow> bool" where
  "encodable p \<longleftrightarrow> CHR 0x00 \<notin> set (fst p) \<and> (case snd p of InstantValue n \<Rightarrow> - (2 ^ 63) \<le> n \<and> n < 2 ^ 63 | _ \<Rightarrow> True)"

lemma nul_append_inject: "CHR 0x00 \<notin> set a \<Longrightarrow> CHR 0x00 \<notin> set b \<Longrightarrow> a @ CHR 0x00 # x = b @ CHR 0x00 # y \<longleftrightarrow> a = b \<and> x = y"
proof (induction a arbitrary: b)
  case Nil then show ?case by (cases b) auto
next
  case (Cons c a) then show ?case by (cases b) auto
qed

lemma i64_be_inject:
  assumes "- (2 ^ 63) \<le> m" "m < 2 ^ 63" "- (2 ^ 63) \<le> n" "n < 2 ^ 63" and "i64_be m = i64_be n"
  shows "m = n"
proof -
  have "(of_int m :: 64 word) = of_int n" using assms(5) by (simp add: i64_be_def)
  then have "m mod 2 ^ 64 = n mod 2 ^ 64" by (simp add: of_int_eq_iff word_of_int_eq_iff take_bit_eq_mod)
  then have "(m - n) mod 2 ^ 64 = 0" by (simp add: mod_eq_dvd_iff)
  moreover have "- (2 ^ 64) < m - n" "m - n < 2 ^ 64" using assms(1-4) by simp_all
  ultimately show ?thesis by (auto simp: mod_eq_0_iff_dvd dvd_def)
qed

lemma discriminant_range: "- (2 ^ 63) \<le> stored_discriminant k \<and> stored_discriminant k < 2 ^ 63"
  by (cases k) simp_all

lemma discriminant_inject: "stored_discriminant a = stored_discriminant b \<longleftrightarrow> a = b"
  by (cases a; cases b) simp_all

lemma encode_canonical_inject:
  assumes "encodable p" "encodable q" "encode_canonical p = encode_canonical q"
  shows "p = q"
proof -
  obtain a v b w where p: "p = (a, v)" and q: "q = (b, w)" by (cases p, cases q)
  have nul: "CHR 0x00 \<notin> set a" "CHR 0x00 \<notin> set b" using assms(1,2) by (simp_all add: encodable_def p q)
  have "a = b" and tail: "(case v of TextValue v \<Rightarrow> CHR ''T'' # v | KindValue kind \<Rightarrow> CHR ''K'' # i64_be (stored_discriminant kind)
      | InstantValue n \<Rightarrow> CHR ''I'' # i64_be n) = (case w of TextValue v \<Rightarrow> CHR ''T'' # v
      | KindValue kind \<Rightarrow> CHR ''K'' # i64_be (stored_discriminant kind) | InstantValue n \<Rightarrow> CHR ''I'' # i64_be n)"
    using assms(3) nul_append_inject [OF nul] by (simp_all add: encode_canonical_def p q)
  have "v = w"
  proof (cases v)
    case (InstantValue m)
    with tail obtain n where n: "w = InstantValue n" "i64_be m = i64_be n" by (cases w) auto
    with InstantValue assms(1,2) i64_be_inject [of m n] show ?thesis by (simp add: encodable_def p q)
  next
    case (KindValue k)
    with tail obtain l where l: "w = KindValue l" "i64_be (stored_discriminant k) = i64_be (stored_discriminant l)" by (cases w) auto
    with KindValue i64_be_inject discriminant_range discriminant_inject show ?thesis by metis
  qed (use tail in \<open>cases w; simp\<close>)
  with \<open>a = b\<close> show ?thesis by (simp add: p q)
qed

lemma framed_cons_inject:
  assumes "length a < 2 ^ 64" "length b < 2 ^ 64"
  shows "update_framed a @ x = update_framed b @ y \<longleftrightarrow> a = b \<and> x = y"
proof
  assume eq: "update_framed a @ x = update_framed b @ y"
  then have "(of_nat (length a) :: u64) = of_nat (length b)"
    by (simp add: update_framed_def append_eq_append_conv)
  then have "length a = length b"
    using assms by (simp add: word_unat_eq_iff unat_of_nat take_bit_nat_eq_self)
  with eq show "a = b \<and> x = y" by (simp add: update_framed_def append_eq_append_conv)
qed simp

lemma update_framed_nonempty [simp]: "update_framed b \<noteq> []" "[] \<noteq> update_framed b"
proof -
  have "u64_be w \<noteq> []" for w
  proof
    assume "u64_be w = []"
    then have "length (u64_be w) = 0" by (simp only: list.size)
    then show False by simp
  qed
  then show "update_framed b \<noteq> []" "[] \<noteq> update_framed b" by (simp_all add: update_framed_def)
qed

lemma frames_inject:
  "\<forall>a \<in> set xs \<union> set ys. length a < 2 ^ 64 \<Longrightarrow> concat (map update_framed xs) = concat (map update_framed ys) \<Longrightarrow> xs = ys"
proof (induction xs arbitrary: ys)
  case Nil
  then show ?case by (cases ys) simp_all
next
  case (Cons x xs)
  have "ys \<noteq> []" using Cons.prems(2) by (cases ys) simp_all
  then obtain y ys' where ys: "ys = y # ys'" by (cases ys) simp_all
  have "length x < 2 ^ 64" "length y < 2 ^ 64" using Cons.prems(1) by (simp_all add: ys)
  moreover have "update_framed x @ concat (map update_framed xs) = update_framed y @ concat (map update_framed ys')"
    using Cons.prems(2) by (simp add: ys)
  ultimately have "x = y" "concat (map update_framed xs) = concat (map update_framed ys')"
    using framed_cons_inject by blast+
  moreover have "\<forall>a \<in> set xs \<union> set ys'. length a < 2 ^ 64" using Cons.prems(1) by (auto simp: ys)
  ultimately show ?case using Cons.IH by (simp add: ys)
qed

text \<open>A query whose text and encoded constraints have lengths of 64 bits and whose instants fit their 64 bits.\<close>

definition framable :: "parsed_query \<Rightarrow> bool" where
  "framable q \<longleftrightarrow> length (pq_text q) < 2 ^ 64 \<and>
     (\<forall>c \<in> set (pq_constraints q). encodable (canonical c) \<and> length (encode_constraint c) < 2 ^ 64)"

lemma preimage_inject:
  assumes "framable q" "framable r" "fingerprint_preimage q = fingerprint_preimage r"
  shows "pq_text q = pq_text r \<and> mset (map canonical (pq_constraints q)) = mset (map canonical (pq_constraints r))"
proof -
  let ?e = "\<lambda>q. sort (map encode_constraint (pq_constraints q))"
  have same: "pq_text q = pq_text r" and rest: "concat (map update_framed (?e q)) = concat (map update_framed (?e r))"
    using assms framed_cons_inject [of "pq_text q" "pq_text r"]
    by (simp_all add: fingerprint_preimage_def framable_def Let_def append_eq_append_conv)
  have "?e q = ?e r" by (rule frames_inject [OF _ rest]) (use assms in \<open>auto simp: framable_def\<close>)
  then have "mset (map encode_constraint (pq_constraints q)) = mset (map encode_constraint (pq_constraints r))" by (metis mset_sort)
  then have "image_mset encode_canonical (mset (map canonical (pq_constraints q))) = image_mset encode_canonical (mset (map canonical (pq_constraints r)))"
    by (simp add: encode_split multiset.map_comp)
  moreover have "x = y" if "x \<in># mset (map canonical (pq_constraints q))" "y \<in># mset (map canonical (pq_constraints r))"
    "encode_canonical x = encode_canonical y" for x y
    using assms(1,2) that by (intro encode_canonical_inject) (auto simp: framable_def)
  ultimately have "mset (map canonical (pq_constraints q)) = mset (map canonical (pq_constraints r))"
    by (rule multiset.inj_map_strong [rotated])
  with same show ?thesis by simp
qed

text \<open>
  The identity of a query: two queries have the same fingerprint exactly when they have the same text and the same
  constraints up to their order and up to the millisecond, if BLAKE3 does not collide on their two encodings.
\<close>

lemma fingerprint_identifies_query:
  assumes "framable q" and "framable r"
    and "blake3 (fingerprint_preimage q) = blake3 (fingerprint_preimage r) \<longrightarrow> fingerprint_preimage q = fingerprint_preimage r"
  shows "query_fingerprint blake3 q = query_fingerprint blake3 r \<longleftrightarrow>
    pq_text q = pq_text r \<and> mset (map canonical (pq_constraints q)) = mset (map canonical (pq_constraints r))"
proof
  assume "query_fingerprint blake3 q = query_fingerprint blake3 r"
  with assms show "pq_text q = pq_text r \<and> mset (map canonical (pq_constraints q)) = mset (map canonical (pq_constraints r))"
    by (intro preimage_inject) (simp_all add: query_fingerprint_def)
next
  assume same: "pq_text q = pq_text r \<and> mset (map canonical (pq_constraints q)) = mset (map canonical (pq_constraints r))"
  then have "mset (map encode_constraint (pq_constraints q)) = mset (map encode_constraint (pq_constraints r))"
    by (simp add: encode_split flip: multiset.map_comp)
  then have "sort (map encode_constraint (pq_constraints q)) = sort (map encode_constraint (pq_constraints r))"
    by (metis mset_sort properties_for_sort sorted_sort)
  with same show "query_fingerprint blake3 q = query_fingerprint blake3 r"
    by (simp add: query_fingerprint_def fingerprint_preimage_def)
qed

definition sample_constraint :: "string \<Rightarrow> string \<Rightarrow> query_constraint" where
  "sample_constraint facet v = \<lparr>qc_spec = store_row facet, qc_value = TextValue v\<rparr>"

lemma fingerprint_identifies_query_witness:
  "query_fingerprint id \<lparr>pq_text = ''memo'', pq_constraints = [sample_constraint ''host'' ''a'', sample_constraint ''lang'' ''b'']\<rparr> =
     query_fingerprint id \<lparr>pq_text = ''memo'', pq_constraints = [sample_constraint ''lang'' ''b'', sample_constraint ''host'' ''a'']\<rparr>"
proof -
  let ?q = "\<lparr>pq_text = ''memo'', pq_constraints = [sample_constraint ''host'' ''a'', sample_constraint ''lang'' ''b'']\<rparr>"
  let ?r = "\<lparr>pq_text = ''memo'', pq_constraints = [sample_constraint ''lang'' ''b'', sample_constraint ''host'' ''a'']\<rparr>"
  have "framable ?q" "framable ?r"
    by (simp_all add: framable_def encodable_def canonical_def canonical_value_def encode_constraint_def sample_constraint_def store_row_def)
  then show ?thesis using fingerprint_identifies_query [of ?q ?r id] by (simp add: add_mset_commute)
qed

section \<open>SQL\<close>

text \<open>
  The text of compiled SQL depends on the facet only, never on the value a user typed, and has one placeholder for each
  bound value; a facet that cannot be stored is refused and not dropped.
\<close>

lemma sql_text_is_fixed:
  assumes "compile_constraint \<lparr>qc_spec = s, qc_value = v\<rparr> = Inr p" and "compile_constraint \<lparr>qc_spec = s, qc_value = w\<rparr> = Inr r"
  shows "sq_fragment p = sq_fragment r"
  using assms by (auto simp: compile_constraint_def Let_def split: sql_binding.splits)

lemma sql_placeholders:
  assumes "s \<in> set REGISTRY" and "compile_constraint \<lparr>qc_spec = s, qc_value = v\<rparr> = Inr p"
  shows "count_list (sq_fragment p) CHR ''?'' = length (sq_binds p)"
  using assms by (auto simp: REGISTRY_def recall_row_def store_row_def compile_constraint_def Let_def CLIP_ALIAS_def)

lemma sql_complete:
  "compile_constraints cs = Inr ps \<Longrightarrow> length ps = length cs \<and> (\<forall>c \<in> set cs. is_ok (compile_constraint c))"
  by (induction cs arbitrary: ps) (auto simp: try_then_eq_Inr is_ok_iff)

end
