(* ===== verification/Recall_Graph.thy ===== *)
theory Recall_Graph
  imports Clip "HOL-Library.Product_Lexorder"
begin

text \<open>
  The graph of related clips, \<open>crates/vbuff-core/src/recall/graph.rs\<close>. A clip identifier is its 128-bit value, whose order
  is the order of its ULID text; hash maps and sets are maps and sets. Distances stay below the \<open>u8\<close> limit because the
  depth is at most four.
\<close>

definition MAX_GRAPH_NODES :: nat where "MAX_GRAPH_NODES = 10000"
definition MAX_GRAPH_EDGES :: nat where "MAX_GRAPH_EDGES = 40000"
definition MAX_RELATED_RESULTS :: nat where "MAX_RELATED_RESULTS = 100"
definition MAX_GRAPH_DEPTH :: nat where "MAX_GRAPH_DEPTH = 4"

datatype clip_relation = CopiedFrom | TransformedFrom | PastedAfter | SyncedFrom

record graph_edge =
  ge_target :: clip_id
  ge_relation :: clip_relation
  ge_timestamp_ms :: u64

record related_clip =
  rc_clip_id :: clip_id
  rc_relation :: clip_relation
  rc_distance :: nat
  rc_timestamp_ms :: u64

record clip_graph =
  cg_edges :: "clip_id \<Rightarrow> graph_edge list option"
  cg_nodes :: "clip_id set"
  cg_edge_count :: nat

definition graph_default :: clip_graph where
  "graph_default = \<lparr>cg_edges = Map.empty, cg_nodes = {}, cg_edge_count = 0\<rparr>"

definition edges_of :: "clip_graph \<Rightarrow> clip_id \<Rightarrow> graph_edge list" where
  "edges_of g u = (case cg_edges g u of None \<Rightarrow> [] | Some es \<Rightarrow> es)"

definition graph_link :: "clip_graph \<Rightarrow> clip_id \<Rightarrow> clip_id \<Rightarrow> clip_relation \<Rightarrow> u64 \<Rightarrow> clip_graph \<times> bool" where
  "graph_link g from_id to_id relation timestamp_ms =
     (let added_nodes = (if from_id \<notin> cg_nodes g then 1 else 0) + (if to_id \<notin> cg_nodes g then 1 else 0) in
      if from_id = to_id \<or> cg_edge_count g \<ge> MAX_GRAPH_EDGES \<or> card (cg_nodes g) + added_nodes > MAX_GRAPH_NODES then (g, False)
      else let es = edges_of g from_id in
        if list_ex (\<lambda>e. ge_target e = to_id \<and> ge_relation e = relation) es then (g\<lparr>cg_edges := (cg_edges g)(from_id \<mapsto> es)\<rparr>, False)
        else (\<lparr>cg_edges = (cg_edges g)(from_id \<mapsto> es @ [\<lparr>ge_target = to_id, ge_relation = relation, ge_timestamp_ms = timestamp_ms\<rparr>]),
               cg_nodes = insert to_id (insert from_id (cg_nodes g)), cg_edge_count = cg_edge_count g + 1\<rparr>, True))"

definition newest_first :: "graph_edge list \<Rightarrow> graph_edge list" where
  "newest_first es = sort_key (\<lambda>e. (- int (unat (ge_timestamp_ms e)), uint (ge_target e))) es"

type_synonym walk = "(clip_id \<times> nat) list \<times> clip_id set \<times> related_clip list"

fun visit_edges :: "nat \<Rightarrow> nat \<Rightarrow> graph_edge list \<Rightarrow> walk \<Rightarrow> bool \<times> walk" where
  "visit_edges limit next_distance [] st = (False, st)"
| "visit_edges limit next_distance (e # es) (queue, visited, output) =
     (if ge_target e \<in> visited then visit_edges limit next_distance es (queue, visited, output)
      else let visited' = insert (ge_target e) visited;
               output' = output @ [\<lparr>rc_clip_id = ge_target e, rc_relation = ge_relation e, rc_distance = next_distance,
                 rc_timestamp_ms = ge_timestamp_ms e\<rparr>] in
        if length output' = limit then (True, (queue, visited', output'))
        else visit_edges limit next_distance es (queue @ [(ge_target e, next_distance)], visited', output'))"

lemma visit_edges_shrinks:
  "visit_edges limit n es (q, vis, out) = (b, (q', vis', out')) \<Longrightarrow> length q' + card (- vis') \<le> length q + card (- vis)"
proof (induction limit n es "(q, vis, out)" arbitrary: q vis out rule: visit_edges.induct)
  case (2 limit n e es q vis out)
  have "card (- insert (ge_target e) vis) < card (- vis)" if "ge_target e \<notin> vis"
    using that by (intro psubset_card_mono) auto
  with 2 show ?case by (fastforce simp: Let_def split: if_splits)
qed simp

function related_loop :: "(clip_id \<Rightarrow> graph_edge list) \<Rightarrow> nat \<Rightarrow> nat \<Rightarrow> walk \<Rightarrow> related_clip list" where
  "related_loop es_of maximum_depth limit ([], visited, output) = output"
| "related_loop es_of maximum_depth limit ((source, distance) # queue, visited, output) =
     (if distance \<ge> maximum_depth then related_loop es_of maximum_depth limit (queue, visited, output)
      else let r = visit_edges limit (distance + 1) (newest_first (es_of source)) (queue, visited, output) in
        if fst r then snd (snd (snd r)) else related_loop es_of maximum_depth limit (snd r))"
  by pat_completeness auto
termination
proof (relation "measure (\<lambda>(_, _, _, (q, vis, _)). length q + card (- vis))")
  show "wf (measure (\<lambda>(_, _, _, (q, vis, _)). length q + card (- vis)) :: ((clip_id \<Rightarrow> graph_edge list) \<times> nat \<times> nat \<times> walk) rel)" by simp
next
  fix es_of :: "clip_id \<Rightarrow> graph_edge list" and m l :: nat and u :: clip_id and d q vis out r
  assume "r = visit_edges l (d + 1) (newest_first (es_of u)) (q, vis, out)"
  then show "((es_of, m, l, snd r), es_of, m, l, ((u, d) # q, vis, out)) \<in> measure (\<lambda>(_, _, _, (q, vis, _)). length q + card (- vis))"
    using visit_edges_shrinks [of l "d + 1" "newest_first (es_of u)" q vis out] by (cases r; cases "snd r") (force simp: less_Suc_eq_le)
qed simp

definition related_clips :: "clip_graph \<Rightarrow> clip_id \<Rightarrow> nat \<Rightarrow> nat \<Rightarrow> related_clip list" where
  "related_clips g root maximum_depth limit =
     (let maximum_depth = min maximum_depth MAX_GRAPH_DEPTH; limit = min limit MAX_RELATED_RESULTS in
      if maximum_depth = 0 \<or> limit = 0 then []
      else related_loop (edges_of g) maximum_depth limit ([(root, 0)], {root}, []))"

section \<open>Distances\<close>

definition graph_rel :: "(clip_id \<Rightarrow> graph_edge list) \<Rightarrow> clip_id rel" where
  "graph_rel es_of = {(u, v). \<exists>e \<in> set (es_of u). ge_target e = v}"

definition shortest :: "(clip_id \<Rightarrow> graph_edge list) \<Rightarrow> clip_id \<Rightarrow> clip_id \<Rightarrow> nat \<Rightarrow> bool" where
  "shortest es_of root v k \<longleftrightarrow> (root, v) \<in> graph_rel es_of ^^ k \<and> (\<forall>j < k. (root, v) \<notin> graph_rel es_of ^^ j)"

lemma shortest_root [simp]: "shortest es_of root root 0"
  by (simp add: shortest_def)

lemma shortest_exists: "(root, v) \<in> graph_rel es_of ^^ k \<Longrightarrow> \<exists>j \<le> k. shortest es_of root v j"
proof (induction k rule: less_induct)
  case (less k)
  show ?case
  proof (cases "\<exists>j < k. (root, v) \<in> graph_rel es_of ^^ j")
    case True
    then obtain j i where "j < k" "i \<le> j" "shortest es_of root v i" using less.IH by blast
    then show ?thesis by (intro exI [of _ i]) simp
  next
    case False
    with less.prems show ?thesis by (auto simp: shortest_def)
  qed
qed

lemma shortest_unique: "shortest es_of root v j \<Longrightarrow> shortest es_of root v k \<Longrightarrow> j = k"
  unfolding shortest_def by (meson linorder_neqE_nat)

lemma shortest_pred:
  assumes "shortest es_of root v (Suc k)"
  shows "\<exists>p. shortest es_of root p k \<and> (p, v) \<in> graph_rel es_of"
proof -
  from assms obtain p where p: "(root, p) \<in> graph_rel es_of ^^ k" "(p, v) \<in> graph_rel es_of"
    by (auto simp: shortest_def)
  have "(root, p) \<notin> graph_rel es_of ^^ j" if "j < k" for j
  proof
    assume "(root, p) \<in> graph_rel es_of ^^ j"
    with p(2) have "(root, v) \<in> graph_rel es_of ^^ Suc j" by auto
    with assms that show False unfolding shortest_def by (meson Suc_mono)
  qed
  with p show ?thesis by (auto simp: shortest_def)
qed

lemma shortest_succ:
  assumes "shortest es_of root u d" and "(u, w) \<in> graph_rel es_of" and "\<And>k. k \<le> d \<Longrightarrow> \<not> shortest es_of root w k"
  shows "shortest es_of root w (Suc d)"
proof -
  have "(root, w) \<in> graph_rel es_of ^^ Suc d" using assms(1,2) by (auto simp: shortest_def)
  then obtain j where "j \<le> Suc d" "shortest es_of root w j" using shortest_exists by blast
  with assms(3) show ?thesis by (metis le_SucE)
qed

lemma newest_first_set [simp]: "set (newest_first es) = set es"
  by (simp add: newest_first_def)

section \<open>The walk is breadth first\<close>

definition ids :: "related_clip list \<Rightarrow> clip_id set" where
  "ids out = rc_clip_id ` set out"

text \<open>What is true of a list of results at any time.\<close>

definition out_ok :: "(clip_id \<Rightarrow> graph_edge list) \<Rightarrow> clip_id \<Rightarrow> nat \<Rightarrow> clip_id set \<Rightarrow> related_clip list \<Rightarrow> bool" where
  "out_ok es_of root limit vis out \<longleftrightarrow> vis = insert root (ids out) \<and> distinct (root # map rc_clip_id out) \<and>
     length out \<le> limit \<and> sorted (map rc_distance out) \<and>
     (\<forall>r \<in> set out. shortest es_of root (rc_clip_id r) (rc_distance r)) \<and>
     (\<forall>r \<in> set out. \<forall>v k. shortest es_of root v k \<longrightarrow> k < rc_distance r \<longrightarrow> v \<in> vis)"

definition closed :: "(clip_id \<Rightarrow> graph_edge list) \<Rightarrow> clip_id \<Rightarrow> nat \<Rightarrow> clip_id set \<Rightarrow> clip_id \<Rightarrow> bool" where
  "closed es_of root m vis v \<longleftrightarrow> (\<forall>k. shortest es_of root v k \<longrightarrow> k < m \<longrightarrow> graph_rel es_of `` {v} \<subseteq> vis)"

lemma closed_mono: "closed es_of root m vis v \<Longrightarrow> vis \<subseteq> vis' \<Longrightarrow> closed es_of root m vis' v"
  unfolding closed_def by blast

text \<open>While the edges of \<open>u\<close>, at distance \<open>d\<close>, are visited.\<close>

definition inner_inv ::
  "(clip_id \<Rightarrow> graph_edge list) \<Rightarrow> clip_id \<Rightarrow> nat \<Rightarrow> nat \<Rightarrow> clip_id \<Rightarrow> nat \<Rightarrow> graph_edge list \<Rightarrow> walk \<Rightarrow> bool" where
  "inner_inv es_of root m limit u d es w = (case w of (q, vis, out) \<Rightarrow>
     out_ok es_of root limit vis out \<and> length out < limit \<and> d < m \<and> shortest es_of root u d \<and>
     (\<forall>(v, k) \<in> set q. v \<in> vis \<and> shortest es_of root v k \<and> d \<le> k \<and> k \<le> Suc d) \<and> sorted (map snd q) \<and>
     (\<forall>r \<in> set out. rc_distance r \<le> Suc d) \<and>
     (\<forall>v \<in> vis. v = u \<or> v \<in> fst ` set q \<or> closed es_of root m vis v) \<and>
     graph_rel es_of `` {u} \<subseteq> vis \<union> ge_target ` set es \<and> ge_target ` set es \<subseteq> graph_rel es_of `` {u} \<and>
     (\<forall>v k. shortest es_of root v k \<longrightarrow> k \<le> d \<longrightarrow> v \<in> vis))"

definition outer_inv :: "(clip_id \<Rightarrow> graph_edge list) \<Rightarrow> clip_id \<Rightarrow> nat \<Rightarrow> nat \<Rightarrow> walk \<Rightarrow> bool" where
  "outer_inv es_of root m limit w = (case w of (q, vis, out) \<Rightarrow>
     out_ok es_of root limit vis out \<and> length out < limit \<and>
     (\<forall>(v, k) \<in> set q. v \<in> vis \<and> shortest es_of root v k \<and> snd (hd q) \<le> k \<and> k \<le> Suc (snd (hd q)) \<and> k \<le> m) \<and> sorted (map snd q) \<and>
     (\<forall>r \<in> set out. rc_distance r \<le> m \<and> (q \<noteq> [] \<longrightarrow> rc_distance r \<le> Suc (snd (hd q)))) \<and>
     (\<forall>v \<in> vis. v \<in> fst ` set q \<or> closed es_of root m vis v))"

text \<open>What the walk finally answers.\<close>

definition answer_ok :: "(clip_id \<Rightarrow> graph_edge list) \<Rightarrow> clip_id \<Rightarrow> nat \<Rightarrow> nat \<Rightarrow> related_clip list \<Rightarrow> bool" where
  "answer_ok es_of root m limit out \<longleftrightarrow> (\<exists>vis. out_ok es_of root limit vis out \<and> (\<forall>r \<in> set out. rc_distance r \<le> m) \<and>
     (length out < limit \<longrightarrow> (\<forall>v k. shortest es_of root v k \<longrightarrow> k \<le> m \<longrightarrow> v \<in> vis)))"

text \<open>Whatever is nearer than the queue has been visited.\<close>

lemma nearer_visited:
  assumes root: "root \<in> vis" and all_closed: "\<forall>v \<in> vis. v \<in> fst ` set q \<or> closed es_of root m vis v"
    and q: "\<forall>(v, k) \<in> set q. shortest es_of root v k \<and> d \<le> k" and "d \<le> m" and "shortest es_of root v k" and "k \<le> d"
  shows "v \<in> vis"
  using assms(5,6)
proof (induction k arbitrary: v)
  case 0
  then show ?case using root by (simp add: shortest_def)
next
  case (Suc k)
  then obtain p where p: "shortest es_of root p k" "(p, v) \<in> graph_rel es_of" using shortest_pred by blast
  then have vis: "p \<in> vis" using Suc by simp
  have "p \<notin> fst ` set q"
  proof
    assume "p \<in> fst ` set q"
    then obtain j where "(p, j) \<in> set q" by auto
    then have "j = k" "d \<le> j" using q p(1) shortest_unique by blast+
    then show False using Suc.prems(2) by simp
  qed
  with vis all_closed have "closed es_of root m vis p" by blast
  with p Suc.prems(2) assms(4) show ?case unfolding closed_def by (meson ImageI Suc_le_lessD le_trans singletonI subsetD)
qed

lemma sorted_snoc: "sorted xs \<Longrightarrow> \<forall>x \<in> set xs. x \<le> y \<Longrightarrow> sorted (xs @ [y])" for y :: "'a::linorder"
  by (simp add: sorted_append)

lemma visit_edges_inv:
  assumes "inner_inv es_of root m limit u d es w" and "visit_edges limit (Suc d) es w = (b, w')"
  shows "if b then answer_ok es_of root m limit (snd (snd w')) else inner_inv es_of root m limit u d [] w'"
  using assms
proof (induction es arbitrary: w)
  case Nil
  then show ?case by (cases w) auto
next
  case (Cons e es)
  obtain q vis out where w: "w = (q, vis, out)" by (cases w)
  let ?t = "ge_target e"
  show ?case
  proof (cases "?t \<in> vis")
    case True
    have "inner_inv es_of root m limit u d es w"
      using Cons.prems(1) True unfolding inner_inv_def w by auto
    then show ?thesis using Cons.IH [of w] Cons.prems(2) True w by simp
  next
    case False
    let ?r = "\<lparr>rc_clip_id = ?t, rc_relation = ge_relation e, rc_distance = Suc d, rc_timestamp_ms = ge_timestamp_ms e\<rparr>"
    note inv = Cons.prems(1) [unfolded inner_inv_def w prod.case]
    have near: "\<forall>v k. shortest es_of root v k \<longrightarrow> k \<le> d \<longrightarrow> v \<in> vis" using inv by blast
    have edge: "(u, ?t) \<in> graph_rel es_of" using inv by auto
    have short: "shortest es_of root ?t (Suc d)"
      by (rule shortest_succ [OF _ edge]) (use inv near False in blast)+
    have ok: "out_ok es_of root limit (insert ?t vis) (out @ [?r])"
    proof -
      have old: "out_ok es_of root limit vis out" and len: "length out < limit" and dist: "\<forall>r \<in> set out. rc_distance r \<le> Suc d" using inv by blast+
      have nearer: "\<forall>r \<in> set (out @ [?r]). \<forall>v k. shortest es_of root v k \<longrightarrow> k < rc_distance r \<longrightarrow> v \<in> insert ?t vis"
      proof (intro ballI allI impI)
        fix r v k assume "r \<in> set (out @ [?r])" "shortest es_of root v k" "k < rc_distance r"
        moreover then have "k \<le> d" using dist by fastforce
        ultimately show "v \<in> insert ?t vis" using near by blast
      qed
      show ?thesis unfolding out_ok_def
      proof (intro conjI nearer)
        show "\<forall>r \<in> set (out @ [?r]). shortest es_of root (rc_clip_id r) (rc_distance r)" using old short by (auto simp: out_ok_def)
        show "sorted (map rc_distance (out @ [?r]))" using old dist by (auto simp: out_ok_def sorted_append)
      qed (use old len False in \<open>auto simp: out_ok_def ids_def\<close>)
    qed
    show ?thesis
    proof (cases "length (out @ [?r]) = limit")
      case True
      have "b" "w' = (q, insert ?t vis, out @ [?r])" using Cons.prems(2) True False w by (auto simp: Let_def)
      moreover have "\<forall>r \<in> set (out @ [?r]). rc_distance r \<le> m" using inv by fastforce
      ultimately show ?thesis using ok True by (auto simp: answer_ok_def)
    next
      case more: False
      let ?w = "(q @ [(?t, Suc d)], insert ?t vis, out @ [?r])"
      have "inner_inv es_of root m limit u d es ?w"
        unfolding inner_inv_def prod.case
      proof (intro conjI)
        show "length (out @ [?r]) < limit" using more inv by simp
        show "\<forall>(v, k) \<in> set (q @ [(?t, Suc d)]). v \<in> insert ?t vis \<and> shortest es_of root v k \<and> d \<le> k \<and> k \<le> Suc d"
          using inv short by auto
        show "sorted (map snd (q @ [(?t, Suc d)]))" using inv by (auto simp: sorted_append)
        show "\<forall>v \<in> insert ?t vis. v = u \<or> v \<in> fst ` set (q @ [(?t, Suc d)]) \<or> closed es_of root m (insert ?t vis) v"
        proof
          fix v assume "v \<in> insert ?t vis"
          then have "v = ?t \<or> v = u \<or> v \<in> fst ` set q \<or> closed es_of root m vis v" using inv by blast
          then show "v = u \<or> v \<in> fst ` set (q @ [(?t, Suc d)]) \<or> closed es_of root m (insert ?t vis) v"
            using closed_mono [OF _ subset_insertI] by auto
        qed
      qed (use inv ok in auto)
      then show ?thesis using Cons.IH [of ?w] Cons.prems(2) more False w by (simp add: Let_def)
    qed
  qed
qed

lemma outer_head:
  assumes "outer_inv es_of root m limit ((u, d) # q, vis, out)" and "d < m"
  shows "inner_inv es_of root m limit u d (newest_first (es_of u)) (q, vis, out)"
proof -
  note inv = assms(1) [unfolded outer_inv_def prod.case]
  have root: "root \<in> vis" using inv by (simp add: out_ok_def)
  have near: "v \<in> vis" if "shortest es_of root v k" "k \<le> d" for v k
    by (rule nearer_visited [where q = "(u, d) # q" and d = d, OF root _ _ _ that]) (use inv assms(2) in auto)
  show ?thesis unfolding inner_inv_def prod.case
  proof (intro conjI)
    show "graph_rel es_of `` {u} \<subseteq> vis \<union> ge_target ` set (newest_first (es_of u))" by (auto simp: graph_rel_def)
    show "ge_target ` set (newest_first (es_of u)) \<subseteq> graph_rel es_of `` {u}" by (auto simp: graph_rel_def)
    show "\<forall>v k. shortest es_of root v k \<longrightarrow> k \<le> d \<longrightarrow> v \<in> vis" using near by blast
  qed (use inv assms(2) in auto)
qed

lemma inner_outer:
  assumes "inner_inv es_of root m limit u d [] (q, vis, out)"
  shows "outer_inv es_of root m limit (q, vis, out)"
proof -
  note inv = assms [unfolded inner_inv_def prod.case]
  have u: "closed es_of root m vis u" using inv by (auto simp: closed_def)
  have head: "d \<le> snd (hd q) \<and> snd (hd q) \<le> Suc d \<and> (\<forall>(v, k) \<in> set q. snd (hd q) \<le> k)" if "q \<noteq> []"
  proof -
    obtain v k q' where q: "q = (v, k) # q'" using \<open>q \<noteq> []\<close> by (cases q) auto
    with inv show ?thesis by auto
  qed
  show ?thesis unfolding outer_inv_def prod.case
  proof (intro conjI)
    show "\<forall>(v, k) \<in> set q. v \<in> vis \<and> shortest es_of root v k \<and> snd (hd q) \<le> k \<and> k \<le> Suc (snd (hd q)) \<and> k \<le> m"
      using inv head by (cases "q = []") fastforce+
    show "\<forall>r \<in> set out. rc_distance r \<le> m \<and> (q \<noteq> [] \<longrightarrow> rc_distance r \<le> Suc (snd (hd q)))"
      using inv head by fastforce
  qed (use inv u in auto)
qed

lemma outer_skip:
  assumes "outer_inv es_of root m limit ((u, d) # q, vis, out)" and "m \<le> d"
  shows "outer_inv es_of root m limit (q, vis, out)"
proof -
  note inv = assms(1) [unfolded outer_inv_def prod.case]
  have "shortest es_of root u d" using inv by simp
  then have u: "closed es_of root m vis u" using assms(2) shortest_unique unfolding closed_def by fastforce
  have all: "\<forall>(v, k) \<in> set q. k = m" using inv assms(2) by fastforce
  have hd: "snd (hd q) = m" if "q \<noteq> []" using that all by (cases q) auto
  show ?thesis unfolding outer_inv_def prod.case
  proof (intro conjI)
    show "\<forall>(v, k) \<in> set q. v \<in> vis \<and> shortest es_of root v k \<and> snd (hd q) \<le> k \<and> k \<le> Suc (snd (hd q)) \<and> k \<le> m"
      using inv all hd by (cases "q = []") fastforce+
    show "\<forall>r \<in> set out. rc_distance r \<le> m \<and> (q \<noteq> [] \<longrightarrow> rc_distance r \<le> Suc (snd (hd q)))"
      using inv hd by fastforce
  qed (use inv u in auto)
qed

lemma related_loop_answer:
  "outer_inv es_of root m limit w \<Longrightarrow> answer_ok es_of root m limit (related_loop es_of m limit w)"
proof (induction es_of m limit w rule: related_loop.induct)
  case (1 es_of m limit vis out)
  note inv = 1 [unfolded outer_inv_def prod.case]
  have root: "root \<in> vis" using inv by (simp add: out_ok_def)
  have "v \<in> vis" if "shortest es_of root v k" "k \<le> m" for v k
    by (rule nearer_visited [where q = "[]" and d = m, OF root _ _ _ that]) (use inv in auto)
  then show ?case using inv by (auto simp: answer_ok_def)
next
  case (2 es_of m limit u d q vis out)
  show ?case
  proof (cases "m \<le> d")
    case True
    with 2 outer_skip show ?thesis by simp
  next
    case False
    obtain b q' vis' out' where r: "visit_edges limit (Suc d) (newest_first (es_of u)) (q, vis, out) = (b, (q', vis', out'))"
      by (metis prod_cases3 prod.exhaust)
    have less: "d < m" using False by simp
    have step: "if b then answer_ok es_of root m limit out' else inner_inv es_of root m limit u d [] (q', vis', out')"
      using visit_edges_inv [OF outer_head [OF 2(3) less] r] by (simp only: snd_conv)
    show ?thesis
    proof (cases b)
      case True
      with step r False show ?thesis by (simp add: Let_def)
    next
      case nb: False
      with step have "outer_inv es_of root m limit (q', vis', out')" by (simp add: inner_outer)
      with 2(2) [OF False refl] r nb False show ?thesis by (simp add: Let_def)
    qed
  qed
qed

text \<open>
  Related clips are found breadth first: each is listed once, never the clip itself, at its true shortest distance in
  the graph and within the depth, nearer ones first; nothing nearer than a listed clip is left out, and nothing within the
  depth at all unless the limit was reached.
\<close>

lemma related_clips_are_nearest:
  assumes "0 < maximum_depth" and "0 < limit"
  defines "m \<equiv> min maximum_depth MAX_GRAPH_DEPTH" and "l \<equiv> min limit MAX_RELATED_RESULTS"
  shows "distinct (root # map rc_clip_id (related_clips g root maximum_depth limit)) \<and>
    length (related_clips g root maximum_depth limit) \<le> l \<and> sorted (map rc_distance (related_clips g root maximum_depth limit)) \<and>
    (\<forall>r \<in> set (related_clips g root maximum_depth limit). rc_distance r \<le> m \<and> shortest (edges_of g) root (rc_clip_id r) (rc_distance r)) \<and>
    (\<forall>v k. shortest (edges_of g) root v k \<and> v \<noteq> root \<and>
         (k \<le> m \<and> length (related_clips g root maximum_depth limit) < l \<or> (\<exists>r \<in> set (related_clips g root maximum_depth limit). k < rc_distance r)) \<longrightarrow>
       v \<in> ids (related_clips g root maximum_depth limit))"
proof -
  have pos: "0 < m" "0 < l" using assms(1,2) by (simp_all add: m_def l_def MAX_GRAPH_DEPTH_def MAX_RELATED_RESULTS_def)
  have "outer_inv (edges_of g) root m l ([(root, 0)], {root}, [])"
    using pos by (simp add: outer_inv_def out_ok_def ids_def)
  from related_loop_answer [OF this] have "answer_ok (edges_of g) root m l (related_clips g root maximum_depth limit)"
    using pos by (simp add: related_clips_def m_def [symmetric] l_def [symmetric] Let_def)
  then obtain vis where ok: "out_ok (edges_of g) root l vis (related_clips g root maximum_depth limit)"
    and far: "\<forall>r \<in> set (related_clips g root maximum_depth limit). rc_distance r \<le> m"
    and full: "length (related_clips g root maximum_depth limit) < l \<longrightarrow> (\<forall>v k. shortest (edges_of g) root v k \<longrightarrow> k \<le> m \<longrightarrow> v \<in> vis)"
    unfolding answer_ok_def by blast
  from ok have vis: "vis = insert root (ids (related_clips g root maximum_depth limit))"
    and near: "\<forall>r \<in> set (related_clips g root maximum_depth limit). \<forall>v k. shortest (edges_of g) root v k \<longrightarrow> k < rc_distance r \<longrightarrow> v \<in> vis"
    unfolding out_ok_def by blast+
  have complete: "\<forall>v k. shortest (edges_of g) root v k \<and> v \<noteq> root \<and>
      (k \<le> m \<and> length (related_clips g root maximum_depth limit) < l \<or> (\<exists>r \<in> set (related_clips g root maximum_depth limit). k < rc_distance r)) \<longrightarrow>
    v \<in> ids (related_clips g root maximum_depth limit)"
    using full near unfolding vis by blast
  show ?thesis using ok far complete unfolding out_ok_def by blast
qed

definition sample_graph :: clip_graph where
  "sample_graph = fst (graph_link (fst (graph_link graph_default 1 2 CopiedFrom 10)) 2 3 PastedAfter 20)"

lemma related_clips_are_nearest_witness:
  "(2 :: clip_id) \<in> ids (related_clips sample_graph 1 4 10) \<and> distinct (1 # map rc_clip_id (related_clips sample_graph 1 4 10))"
proof -
  have edges: "edges_of sample_graph 1 = [\<lparr>ge_target = 2, ge_relation = CopiedFrom, ge_timestamp_ms = 10\<rparr>]"
    "edges_of sample_graph 2 = [\<lparr>ge_target = 3, ge_relation = PastedAfter, ge_timestamp_ms = 20\<rparr>]"
    "edges_of sample_graph 3 = []"
    by (simp_all add: sample_graph_def graph_link_def graph_default_def edges_of_def Let_def MAX_GRAPH_EDGES_def MAX_GRAPH_NODES_def)
  have listed: "related_clips sample_graph 1 4 10 =
      [\<lparr>rc_clip_id = 2, rc_relation = CopiedFrom, rc_distance = 1, rc_timestamp_ms = 10\<rparr>,
       \<lparr>rc_clip_id = 3, rc_relation = PastedAfter, rc_distance = 2, rc_timestamp_ms = 20\<rparr>]"
    by (simp add: related_clips_def MAX_GRAPH_DEPTH_def MAX_RELATED_RESULTS_def edges newest_first_def Let_def)
  have "shortest (edges_of sample_graph) 1 2 1"
    using edges(1) by (auto simp: shortest_def graph_rel_def relcomp_unfold)
  with related_clips_are_nearest [of 4 10 1 sample_graph] show ?thesis
    by (simp add: listed MAX_GRAPH_DEPTH_def MAX_RELATED_RESULTS_def ids_def)
qed

end
