(* ===== verification/Recall_Query.thy ===== *)
theory Recall_Query
  imports Query_Grammar
begin

text \<open>
  The natural query of recall, \<open>crates/vbuff-core/src/recall/query.rs\<close>. Its tokenizer is the one of the query grammar; the
  calendar dates of another crate are the parameter \<open>parse_date\<close>. A time is a count of nanoseconds.
\<close>

record natural_query =
  nq_text :: string
  nq_app :: "string option"
  nq_kind :: "content_kind option"
  nq_tag :: "string option"
  nq_device :: "string option"
  nq_before :: "int option"
  nq_after :: "int option"

definition natural_default :: natural_query where
  "natural_default = \<lparr>nq_text = [], nq_app = None, nq_kind = None, nq_tag = None, nq_device = None, nq_before = None, nq_after = None\<rparr>"

definition has_filters :: "natural_query \<Rightarrow> bool" where
  "has_filters q \<longleftrightarrow> nq_app q \<noteq> None \<or> nq_kind q \<noteq> None \<or> nq_tag q \<noteq> None \<or> nq_device q \<noteq> None \<or> nq_before q \<noteq> None \<or> nq_after q \<noteq> None"

definition natural_tokenize :: "string \<Rightarrow> query_error + string list" where
  "natural_tokenize raw = tokenize raw"

definition MAX_FILTER_VALUE_BYTES :: nat where "MAX_FILTER_VALUE_BYTES = 512"

definition slot_value :: "string option \<Rightarrow> string \<Rightarrow> query_error + string option" where
  "slot_value slot v =
     (if slot \<noteq> None \<or> trim v = [] \<or> length v > MAX_FILTER_VALUE_BYTES \<or> has_control v then Inl QueryInvalidFilter
      else Inr (Some (to_ascii_lowercase v)))"

definition set_app :: "natural_query \<Rightarrow> string \<Rightarrow> query_error + natural_query" where
  "set_app q v = try_then (slot_value (nq_app q) v) (\<lambda>s. Inr (q\<lparr>nq_app := s\<rparr>))"

definition set_tag :: "natural_query \<Rightarrow> string \<Rightarrow> query_error + natural_query" where
  "set_tag q v = try_then (slot_value (nq_tag q) v) (\<lambda>s. Inr (q\<lparr>nq_tag := s\<rparr>))"

definition set_device :: "natural_query \<Rightarrow> string \<Rightarrow> query_error + natural_query" where
  "set_device q v = try_then (slot_value (nq_device q) v) (\<lambda>s. Inr (q\<lparr>nq_device := s\<rparr>))"

definition set_kind :: "natural_query \<Rightarrow> content_kind \<Rightarrow> query_error + natural_query" where
  "set_kind q kind = (if nq_kind q \<noteq> None then Inl QueryInvalidFilter else Inr (q\<lparr>nq_kind := Some kind\<rparr>))"

definition set_before :: "natural_query \<Rightarrow> int \<Rightarrow> query_error + natural_query" where
  "set_before q t = (if nq_before q \<noteq> None then Inl QueryInvalidFilter else Inr (q\<lparr>nq_before := Some t\<rparr>))"

definition set_after :: "natural_query \<Rightarrow> int \<Rightarrow> query_error + natural_query" where
  "set_after q t = (if nq_after q \<noteq> None then Inl QueryInvalidFilter else Inr (q\<lparr>nq_after := Some t\<rparr>))"

definition natural_duration :: "string \<Rightarrow> query_error + int" where
  "natural_duration v = parse_relative_duration (to_ascii_lowercase v)"

definition parse_date_or_relative :: "(string \<Rightarrow> int option) \<Rightarrow> string \<Rightarrow> int \<Rightarrow> query_error + int" where
  "parse_date_or_relative parse_date v now =
     (if to_ascii_lowercase v = ''today'' then Inr (start_of_day now)
      else if to_ascii_lowercase v = ''yesterday'' then Inr (start_of_day now - day_ns)
      else if starts_with ''last-'' v then try_then (natural_duration (drop 5 v)) (\<lambda>d. Inr (now - d))
      else case parse_date v of None \<Rightarrow> Inl QueryInvalidFilter | Some midnight \<Rightarrow> Inr midnight)"

definition natural_kind :: "string \<Rightarrow> content_kind option" where
  "natural_kind v =
     (if v \<in> {''url'', ''urls'', ''link'', ''links''} then Some UrlKind
      else if v \<in> {''image'', ''images'', ''picture'', ''pictures''} then Some ImageKind
      else if v \<in> {''code'', ''snippet'', ''snippets''} then Some CodeKind
      else if v \<in> {''file'', ''files''} then Some FileKind
      else if v \<in> {''color'', ''colors''} then Some ColorKind
      else None)"

definition parse_natural_kind :: "string \<Rightarrow> content_kind option" where
  "parse_natural_kind v = (let lower = to_ascii_lowercase v in case natural_kind lower of Some kind \<Rightarrow> Some kind
     | None \<Rightarrow> (case content_kind_from_str lower of Inr kind \<Rightarrow> Some kind | Inl _ \<Rightarrow> None))"

definition apply_natural_facet ::
  "(string \<Rightarrow> int option) \<Rightarrow> natural_query \<Rightarrow> string \<Rightarrow> string \<Rightarrow> int \<Rightarrow> query_error + natural_query" where
  "apply_natural_facet parse_date q key v now =
     (if v = [] \<or> length v > MAX_FILTER_VALUE_BYTES \<or> has_control v then Inl QueryInvalidFilter
      else let key = to_ascii_lowercase key in
        if key = ''app'' then set_app q v
        else if key = ''kind'' then (case parse_natural_kind v of None \<Rightarrow> Inl QueryInvalidFilter | Some kind \<Rightarrow> set_kind q kind)
        else if key = ''tag'' then set_tag q v
        else if key = ''device'' then set_device q v
        else if key = ''before'' then try_then (parse_date_or_relative parse_date v now) (set_before q)
        else if key = ''after'' then try_then (parse_date_or_relative parse_date v now) (set_after q)
        else Inl QueryInvalidFilter)"

definition facet_key :: "string \<Rightarrow> bool" where
  "facet_key key \<longleftrightarrow> to_ascii_lowercase key \<in> {''app'', ''kind'', ''tag'', ''device'', ''before'', ''after''}"

text \<open>The loop of \<open>parse_natural_query\<close>: one token, or the two of a phrase.\<close>

fun natural_tokens :: "(string \<Rightarrow> int option) \<Rightarrow> int \<Rightarrow> string list \<Rightarrow> natural_query \<Rightarrow> string list \<Rightarrow> query_error + (natural_query \<times> string list)" where
  "natural_tokens parse_date now [] q words = Inr (q, words)"
| "natural_tokens parse_date now (token # following) q words =
     (let lower = to_ascii_lowercase token in
      case (case split_once CHR '':'' token of Some (key, v) \<Rightarrow> if facet_key key then Some (key, v) else None | None \<Rightarrow> None) of
        Some (key, v) \<Rightarrow> try_then (apply_natural_facet parse_date q key v now) (\<lambda>q. natural_tokens parse_date now following q words)
      | None \<Rightarrow>
        if lower = ''from'' \<and> following \<noteq> [] then
          try_then (set_app q (hd following)) (\<lambda>q. natural_tokens parse_date now (tl following) q words)
        else (case natural_kind lower of
          Some kind \<Rightarrow> try_then (set_kind q kind) (\<lambda>q. natural_tokens parse_date now following q words)
        | None \<Rightarrow>
          if lower = ''today'' then try_then (set_after q (start_of_day now)) (\<lambda>q. natural_tokens parse_date now following q words)
          else if lower = ''yesterday'' then
            try_then (set_after q (start_of_day now - day_ns)) (\<lambda>q. try_then (set_before q (start_of_day now)) (\<lambda>q.
              natural_tokens parse_date now following q words))
          else if lower = ''last'' \<and> following \<noteq> [] then
            try_then (natural_duration (hd following)) (\<lambda>d. try_then (set_after q (now - d)) (\<lambda>q.
              natural_tokens parse_date now (tl following) q words))
          else if lower = ''before'' \<and> following \<noteq> [] \<and> eq_ignore_ascii_case (hd following) ''lunch'' then
            try_then (set_after q (start_of_day now)) (\<lambda>q. try_then (set_before q (start_of_day now + 12 * hour_ns)) (\<lambda>q.
              natural_tokens parse_date now (tl following) q words))
          else natural_tokens parse_date now following q (words @ [token])))"

definition parse_natural_query :: "(string \<Rightarrow> int option) \<Rightarrow> string \<Rightarrow> int \<Rightarrow> query_error + natural_query" where
  "parse_natural_query parse_date raw now =
     (if length raw > MAX_QUERY_BYTES \<or> CHR 0x00 \<in> set raw then Inl QueryTooLarge
      else try_then (natural_tokenize raw) (\<lambda>tokens.
        if length tokens > MAX_QUERY_TOKENS then Inl QueryTooLarge
        else try_then (natural_tokens parse_date now tokens natural_default []) (\<lambda>(q, words).
          if (case (nq_before q, nq_after q) of (Some before, Some after) \<Rightarrow> before \<le> after | _ \<Rightarrow> False) then Inl QueryInvalidFilter
          else Inr (q\<lparr>nq_text := join_with '' '' words\<rparr>))))"

section \<open>The fingerprint\<close>

fun kind_code :: "content_kind \<Rightarrow> nat" where
  "kind_code TextKind = 0"
| "kind_code UrlKind = 1"
| "kind_code ColorKind = 2"
| "kind_code CodeKind = 3"
| "kind_code ImageKind = 4"
| "kind_code FileKind = 5"
| "kind_code RtfKind = 6"
| "kind_code HtmlKind = 7"
| "kind_code OtherKind = 8"

definition framed_u32 :: "bytes \<Rightarrow> bytes" where
  "framed_u32 b = u32_be (of_nat (length b)) @ b"

definition or_empty :: "string option \<Rightarrow> string" where
  "or_empty v = (case v of None \<Rightarrow> [] | Some s \<Rightarrow> s)"

definition natural_preimage :: "natural_query \<Rightarrow> bytes" where
  "natural_preimage q = ''vbuff-natural-query-v1'' @ framed_u32 (nq_text q) @ framed_u32 (or_empty (nq_app q))
     @ framed_u32 (or_empty (nq_tag q)) @ framed_u32 (or_empty (nq_device q))
     @ [char_of (case nq_kind q of None \<Rightarrow> 255 | Some k \<Rightarrow> kind_code k)]
     @ i64_be (case nq_before q of None \<Rightarrow> 2 ^ 63 - 1 | Some t \<Rightarrow> timestamp_millis t)
     @ i64_be (case nq_after q of None \<Rightarrow> - (2 ^ 63) | Some t \<Rightarrow> timestamp_millis t)"

definition natural_fingerprint :: "(bytes \<Rightarrow> bytes) \<Rightarrow> natural_query \<Rightarrow> bytes" where
  "natural_fingerprint blake3 q = blake3 (natural_preimage q)"

section \<open>Parsed queries\<close>

definition filter_text_ok :: "string option \<Rightarrow> bool" where
  "filter_text_ok v = (case v of None \<Rightarrow> True | Some s \<Rightarrow> s \<noteq> [] \<and> length s \<le> MAX_FILTER_VALUE_BYTES)"

definition natural_ok :: "natural_query \<Rightarrow> bool" where
  "natural_ok q \<longleftrightarrow> filter_text_ok (nq_app q) \<and> filter_text_ok (nq_tag q) \<and> filter_text_ok (nq_device q)"

lemma slot_value_ok: "slot_value slot v = Inr s \<Longrightarrow> filter_text_ok s \<and> slot = None"
  by (auto simp: slot_value_def filter_text_ok_def to_ascii_lowercase_def trim_def split: if_splits)

lemma set_slots_ok:
  "set_app q v = Inr q' \<Longrightarrow> natural_ok q \<Longrightarrow> natural_ok q'" "set_tag q v = Inr q' \<Longrightarrow> natural_ok q \<Longrightarrow> natural_ok q'"
  "set_device q v = Inr q' \<Longrightarrow> natural_ok q \<Longrightarrow> natural_ok q'" "set_kind q k = Inr q' \<Longrightarrow> natural_ok q \<Longrightarrow> natural_ok q'"
  "set_before q t = Inr q' \<Longrightarrow> natural_ok q \<Longrightarrow> natural_ok q'" "set_after q t = Inr q' \<Longrightarrow> natural_ok q \<Longrightarrow> natural_ok q'"
  by (auto simp: set_app_def set_tag_def set_device_def set_kind_def set_before_def set_after_def try_then_eq_Inr natural_ok_def
      dest: slot_value_ok split: if_splits)

lemma apply_natural_facet_ok: "apply_natural_facet parse_date q key v now = Inr q' \<Longrightarrow> natural_ok q \<Longrightarrow> natural_ok q'"
  by (auto simp: apply_natural_facet_def Let_def try_then_eq_Inr split: if_splits option.splits intro: set_slots_ok)

lemma natural_tokens_ok:
  "natural_tokens parse_date now tokens q words = Inr (q', words') \<Longrightarrow> natural_ok q \<Longrightarrow> natural_ok q'"
proof (induction "length tokens" arbitrary: tokens q words rule: less_induct)
  case less
  show ?case
  proof (cases tokens)
    case (Cons token following)
    have shorter: "natural_tokens parse_date now rest p ws = Inr (q', words') \<Longrightarrow> natural_ok p \<Longrightarrow> natural_ok q'"
      if "rest = following \<or> rest = tl following" for rest p ws
      using less.hyps [of rest p ws] that Cons by auto
    note step = shorter [OF disjI1 [OF refl]] shorter [OF disjI2 [OF refl]]
    show ?thesis using less.prems unfolding Cons natural_tokens.simps Let_def
      by (auto simp: try_then_eq_Inr split: if_splits option.splits prod.splits
          intro: step set_slots_ok apply_natural_facet_ok)
  qed (use less.prems in simp)
qed

lemma parsed_natural_query:
  assumes "parse_natural_query parse_date raw now = Inr q"
  shows "natural_ok q \<and> (case (nq_before q, nq_after q) of (Some before, Some after) \<Rightarrow> after < before | _ \<Rightarrow> True)"
proof -
  obtain tokens p words where run: "natural_tokens parse_date now tokens natural_default [] = Inr (p, words)"
    and window: "\<not> (case (nq_before p, nq_after p) of (Some before, Some after) \<Rightarrow> before \<le> after | _ \<Rightarrow> False)"
    and q: "q = p\<lparr>nq_text := join_with '' '' words\<rparr>"
    using assms by (auto simp: parse_natural_query_def try_then_eq_Inr split: if_splits)
  have "natural_ok p" by (rule natural_tokens_ok [OF run]) (simp add: natural_ok_def natural_default_def filter_text_ok_def)
  with window show ?thesis by (auto simp: q natural_ok_def split: option.splits)
qed

end
