(* ===== verification/Recall_Memory.thy ===== *)
theory Recall_Memory
  imports Clip Secret Validation Text_Format "HOL-Library.Product_Lexorder"
begin

text \<open>
  What recall remembers, \<open>crates/vbuff-core/src/recall/memory.rs\<close>: search macros, aliases of pinned clips, paste affinity,
  the query history, the scope lock, tags and query pins. A hash map is kept in key order, which nothing observes; a set
  of labels is a set. \<open>blake3\<close> is the hash, \<open>entropy\<close> the entropy test of the secret detectors.
\<close>

definition MAX_MACROS :: nat where "MAX_MACROS = 64"
definition MAX_MACRO_NAME_BYTES :: nat where "MAX_MACRO_NAME_BYTES = 32"
definition RECALL_MAX_QUERY_BYTES :: nat where "RECALL_MAX_QUERY_BYTES = 4 * 1024"
definition MAX_ALIAS_BYTES :: nat where "MAX_ALIAS_BYTES = 64"
definition MAX_ALIASES :: nat where "MAX_ALIASES = 2048"
definition MAX_ALIASES_PER_CLIP :: nat where "MAX_ALIASES_PER_CLIP = 8"
definition MAX_AFFINITIES :: nat where "MAX_AFFINITIES = 8192"
definition MAX_QUERY_HISTORY :: nat where "MAX_QUERY_HISTORY = 100"
definition MAX_SCOPE_BYTES :: nat where "MAX_SCOPE_BYTES = 512"
definition RECALL_MAX_TAGS :: nat where "RECALL_MAX_TAGS = 8192"
definition MAX_TAGS_PER_CLIP :: nat where "MAX_TAGS_PER_CLIP = 64"
definition MAX_QUERY_PIN_GROUPS :: nat where "MAX_QUERY_PIN_GROUPS = 128"
definition MAX_QUERY_PINS :: nat where "MAX_QUERY_PINS = 64"

definition normalize_label :: "string \<Rightarrow> string" where
  "normalize_label v = to_ascii_lowercase (trim v)"

section \<open>Search macros\<close>

definition valid_macro_name :: "string \<Rightarrow> bool" where
  "valid_macro_name v \<longleftrightarrow> v \<noteq> [] \<and> length v \<le> MAX_MACRO_NAME_BYTES
     \<and> list_all (\<lambda>b. is_ascii_alphanumeric b \<or> b \<in> {CHR ''_'', CHR ''-''}) v"

type_synonym macro_registry = "(string, string) btree"

definition macro_set :: "macro_registry \<Rightarrow> string \<Rightarrow> string \<Rightarrow> macro_registry \<times> bool" where
  "macro_set macros name query = (let name = normalize_label name in
     if \<not> valid_macro_name name \<or> trim query = [] \<or> length query > RECALL_MAX_QUERY_BYTES \<or> has_control query
        \<or> (\<not> bt_contains macros name \<and> length macros \<ge> MAX_MACROS)
     then (macros, False) else (bt_insert name (trim query) macros, True))"

fun expand_loop :: "nat \<Rightarrow> macro_registry \<Rightarrow> string set \<Rightarrow> string \<Rightarrow> string option" where
  "expand_loop 0 macros seen expanded = None"
| "expand_loop (Suc n) macros seen expanded = (case whitespace_words (utf8_split expanded) [] of
       [] \<Rightarrow> None
     | first # _ \<Rightarrow> if \<not> starts_with ''@'' first then Some expanded
         else let name = normalize_label (drop 1 first) in
           if name \<in> seen then None
           else (case map_of macros name of None \<Rightarrow> None
             | Some replacement \<Rightarrow> let suffix = trim (drop (length first) expanded);
                   grown = (if suffix = [] then replacement else replacement @ '' '' @ suffix) in
                 if length grown > RECALL_MAX_QUERY_BYTES then None else expand_loop n macros (insert name seen) grown))"

definition macro_expand :: "macro_registry \<Rightarrow> string \<Rightarrow> string option" where
  "macro_expand macros input = (if length input > RECALL_MAX_QUERY_BYTES then None else expand_loop 8 macros {} (trim input))"

text \<open>An expansion is complete and bounded, and a macro that leads back to itself is refused.\<close>

lemma expand_loop_complete:
  "expand_loop n macros seen e = Some s \<Longrightarrow> length e \<le> RECALL_MAX_QUERY_BYTES \<Longrightarrow>
   length s \<le> RECALL_MAX_QUERY_BYTES \<and> (\<exists>w ws. whitespace_words (utf8_split s) [] = w # ws \<and> \<not> starts_with ''@'' w)"
  by (induction n macros seen e rule: expand_loop.induct) (auto simp: Let_def split: list.splits if_splits option.splits)

lemma length_whitespace_trim: "length (trim s) \<le> length s"
proof -
  have "length (concat (dropWhile P xs)) \<le> length (concat xs)" for P and xs :: "string list"
    by (induction xs) auto
  then have shrink: "length (concat (rev (dropWhile P xs))) \<le> length (concat (rev xs))" for P and xs :: "string list"
    by (induction xs) (auto simp: length_concat rev_map)
  have "length (concat (utf8_split s)) = length s" by simp
  then show ?thesis unfolding trim_def
    using shrink [of "is_whitespace \<circ> decode_scalar" "rev (dropWhile (is_whitespace \<circ> decode_scalar) (utf8_split s))"]
      \<open>\<And>xs P. length (concat (dropWhile P xs)) \<le> length (concat xs)\<close> [of "is_whitespace \<circ> decode_scalar" "utf8_split s"]
    by (simp add: o_def)
qed

lemma macro_expansion_complete:
  assumes "macro_expand macros input = Some s"
  shows "length s \<le> RECALL_MAX_QUERY_BYTES \<and> (\<exists>w ws. whitespace_words (utf8_split s) [] = w # ws \<and> \<not> starts_with ''@'' w)"
  using assms length_whitespace_trim [of input] by (intro expand_loop_complete) (auto simp: macro_expand_def split: if_splits)

section \<open>Aliases of pinned clips\<close>

record pinned_aliases =
  pa_by_alias :: "(string, clip_id) btree"
  pa_per_clip :: "(clip_id, nat) btree"

definition alias_count :: "pinned_aliases \<Rightarrow> clip_id \<Rightarrow> nat" where
  "alias_count a c = (case map_of (pa_per_clip a) c of None \<Rightarrow> 0 | Some n \<Rightarrow> n)"

definition alias_add :: "pinned_aliases \<Rightarrow> clip_id \<Rightarrow> bool \<Rightarrow> string \<Rightarrow> pinned_aliases \<times> bool" where
  "alias_add a cid pinned alias = (let alias = normalize_label alias in
     if \<not> pinned \<or> \<not> is_valid_trimmed_label alias MAX_ALIAS_BYTES \<or> bt_contains (pa_by_alias a) alias
        \<or> length (pa_by_alias a) \<ge> MAX_ALIASES \<or> alias_count a cid \<ge> MAX_ALIASES_PER_CLIP
     then (a, False)
     else (\<lparr>pa_by_alias = bt_insert alias cid (pa_by_alias a), pa_per_clip = bt_insert cid (alias_count a cid + 1) (pa_per_clip a)\<rparr>, True))"

definition alias_remove :: "pinned_aliases \<Rightarrow> string \<Rightarrow> pinned_aliases \<times> bool" where
  "alias_remove a alias = (let alias = normalize_label alias in
     case map_of (pa_by_alias a) alias of None \<Rightarrow> (a, False)
     | Some cid \<Rightarrow> (\<lparr>pa_by_alias = bt_remove alias (pa_by_alias a),
         pa_per_clip = (case map_of (pa_per_clip a) cid of None \<Rightarrow> pa_per_clip a
           | Some n \<Rightarrow> if n - 1 = 0 then bt_remove cid (pa_per_clip a) else bt_insert cid (n - 1) (pa_per_clip a))\<rparr>, True))"

definition alias_match_score :: "pinned_aliases \<Rightarrow> clip_id \<Rightarrow> string \<Rightarrow> int option" where
  "alias_match_score a cid query = (let query = normalize_label query in
     if query = [] then None
     else map_option (\<lambda>(alias, _). if alias = query then 220 else 180)
       (find (\<lambda>(alias, candidate). candidate = cid \<and> starts_with query alias) (pa_by_alias a)))"

text \<open>The counter of a clip is the number of its aliases.\<close>

definition aliases_of :: "pinned_aliases \<Rightarrow> clip_id \<Rightarrow> string list" where
  "aliases_of a c = map fst (filter (\<lambda>p. snd p = c) (pa_by_alias a))"

definition aliases_ok :: "pinned_aliases \<Rightarrow> bool" where
  "aliases_ok a \<longleftrightarrow> bt_ok (pa_by_alias a) \<and> bt_ok (pa_per_clip a) \<and> length (pa_by_alias a) \<le> MAX_ALIASES \<and>
     (\<forall>c. length (aliases_of a c) \<le> MAX_ALIASES_PER_CLIP \<and>
        map_of (pa_per_clip a) c = (if aliases_of a c = [] then None else Some (length (aliases_of a c))))"

lemma filter_bt_insert_new:
  "bt_ok m \<Longrightarrow> k \<notin> fst ` set m \<Longrightarrow> length (filter P (bt_insert k v m)) = length (filter P m) + (if P (k, v) then 1 else 0)"
  by (induction k v m rule: bt_insert.induct) auto

lemma filter_bt_remove:
  "bt_ok m \<Longrightarrow> map_of m k = Some v \<Longrightarrow> length (filter P m) = length (filter P (bt_remove k m)) + (if P (k, v) then 1 else 0)"
proof (induction m)
  case (Cons p m)
  show ?case
  proof (cases "fst p = k")
    case True
    with Cons.prems have "k \<notin> fst ` set m" by auto
    then have "bt_remove k m = m" by (auto simp: bt_remove_def filter_id_conv)
    with True Cons.prems show ?thesis by (cases p) (auto simp: bt_remove_def)
  next
    case False
    with Cons show ?thesis by (cases p) (auto simp: bt_remove_def)
  qed
qed simp

text \<open>Both operations change the number of one clip's aliases by one.\<close>

lemma aliases_ok_step:
  assumes ok: "aliases_ok a" and trees: "bt_ok (pa_by_alias b)" "bt_ok (pa_per_clip b)" "length (pa_by_alias b) \<le> MAX_ALIASES"
    and small: "length (aliases_of b cid) \<le> MAX_ALIASES_PER_CLIP"
    and others: "\<And>c. c \<noteq> cid \<Longrightarrow> length (aliases_of b c) = length (aliases_of a c)"
    and others_count: "\<And>c. c \<noteq> cid \<Longrightarrow> map_of (pa_per_clip b) c = map_of (pa_per_clip a) c"
    and this_count: "map_of (pa_per_clip b) cid = (if aliases_of b cid = [] then None else Some (length (aliases_of b cid)))"
  shows "aliases_ok b"
  unfolding aliases_ok_def
proof (intro conjI allI trees)
  fix c
  have base: "map_of (pa_per_clip a) c = (if aliases_of a c = [] then None else Some (length (aliases_of a c)))"
    and le: "length (aliases_of a c) \<le> MAX_ALIASES_PER_CLIP"
    using ok by (simp_all add: aliases_ok_def)
  have "map_of (pa_per_clip b) c = (if aliases_of b c = [] then None else Some (length (aliases_of b c)))
      \<and> length (aliases_of b c) \<le> MAX_ALIASES_PER_CLIP"
  proof (cases "c = cid")
    case True
    with this_count small show ?thesis by simp
  next
    case False
    note len = others [OF False]
    then have emp: "aliases_of b c = [] \<longleftrightarrow> aliases_of a c = []" by (metis length_0_conv)
    show ?thesis unfolding others_count [OF False] base len emp using le by simp
  qed
  then show "map_of (pa_per_clip b) c = (if aliases_of b c = [] then None else Some (length (aliases_of b c)))"
    and "length (aliases_of b c) \<le> MAX_ALIASES_PER_CLIP" by blast+
qed

lemma alias_count_eq: "aliases_ok a \<Longrightarrow> alias_count a c = length (aliases_of a c)"
  by (simp add: aliases_ok_def alias_count_def)

lemma alias_add_ok:
  assumes "aliases_ok a" shows "aliases_ok (fst (alias_add a cid pinned alias))"
proof (cases "snd (alias_add a cid pinned alias)")
  case True
  define k where "k = normalize_label alias"
  define b where "b = \<lparr>pa_by_alias = bt_insert k cid (pa_by_alias a), pa_per_clip = bt_insert cid (alias_count a cid + 1) (pa_per_clip a)\<rparr>"
  from True have new: "\<not> bt_contains (pa_by_alias a) k" "length (pa_by_alias a) < MAX_ALIASES" "alias_count a cid < MAX_ALIASES_PER_CLIP"
    and b: "fst (alias_add a cid pinned alias) = b"
    by (auto simp: alias_add_def k_def b_def Let_def split: if_splits)
  have count: "length (aliases_of b c) = length (aliases_of a c) + (if c = cid then 1 else 0)" for c
    using assms new(1) filter_bt_insert_new [of "pa_by_alias a" k "\<lambda>p. snd p = c" cid]
    by (auto simp: b_def aliases_of_def aliases_ok_def bt_contains_iff)
  have one: "length (aliases_of b cid) = alias_count a cid + 1" using count [of cid] alias_count_eq [OF assms] by simp
  show ?thesis unfolding b
  proof (rule aliases_ok_step [OF assms, where cid = cid])
    show "map_of (pa_per_clip b) cid = (if aliases_of b cid = [] then None else Some (length (aliases_of b cid)))"
      using one by (auto simp: b_def)
    show "length (aliases_of b c) = length (aliases_of a c)" if "c \<noteq> cid" for c using count [of c] that by simp
    show "length (aliases_of b cid) \<le> MAX_ALIASES_PER_CLIP" using one new(3) by simp
  qed (use assms new in \<open>auto simp: b_def aliases_ok_def length_bt_insert\<close>)
next
  case False
  then have "fst (alias_add a cid pinned alias) = a" by (auto simp: alias_add_def Let_def split: if_splits)
  with assms show ?thesis by simp
qed

lemma alias_remove_ok:
  assumes "aliases_ok a" shows "aliases_ok (fst (alias_remove a alias))"
proof (cases "map_of (pa_by_alias a) (normalize_label alias)")
  case (Some cid)
  define k where "k = normalize_label alias"
  define b where "b = fst (alias_remove a alias)"
  have tree: "pa_by_alias b = bt_remove k (pa_by_alias a)" using Some by (simp add: b_def alias_remove_def k_def)
  have count: "length (aliases_of a c) = length (aliases_of b c) + (if c = cid then 1 else 0)" for c
    using assms Some filter_bt_remove [of "pa_by_alias a" k cid "\<lambda>p. snd p = c"]
    by (auto simp: tree aliases_of_def aliases_ok_def k_def)
  have "aliases_of a cid \<noteq> []" using count [of cid] by auto
  then have old: "map_of (pa_per_clip a) cid = Some (length (aliases_of a cid))" using assms by (simp add: aliases_ok_def)
  have per_clip: "pa_per_clip b = (if length (aliases_of b cid) = 0 then bt_remove cid (pa_per_clip a)
      else bt_insert cid (length (aliases_of b cid)) (pa_per_clip a))"
  proof -
    have raw: "pa_per_clip b = (case map_of (pa_per_clip a) cid of None \<Rightarrow> pa_per_clip a
        | Some n \<Rightarrow> if n - 1 = 0 then bt_remove cid (pa_per_clip a) else bt_insert cid (n - 1) (pa_per_clip a))"
      using Some by (simp add: b_def alias_remove_def)
    have pred: "length (aliases_of a cid) - 1 = length (aliases_of b cid)" using count [of cid] by simp
    show ?thesis unfolding raw old option.case pred by (rule refl)
  qed
  show ?thesis unfolding b_def [symmetric]
  proof (rule aliases_ok_step [OF assms, where cid = cid])
    show "length (aliases_of b c) = length (aliases_of a c)" if "c \<noteq> cid" for c using count [of c] that by simp
    have "length (aliases_of a cid) \<le> MAX_ALIASES_PER_CLIP" using assms by (simp add: aliases_ok_def)
    then show "length (aliases_of b cid) \<le> MAX_ALIASES_PER_CLIP" using count [of cid] by simp
    show "length (pa_by_alias b) \<le> MAX_ALIASES"
      using assms length_bt_remove_le [of k "pa_by_alias a"] by (simp add: tree aliases_ok_def)
  qed (use assms in \<open>auto simp: per_clip tree aliases_ok_def\<close>)
next
  case None
  then show ?thesis using assms by (simp add: alias_remove_def)
qed

datatype alias_op = AddAlias clip_id bool string | RemoveAlias string

fun alias_step :: "pinned_aliases \<Rightarrow> alias_op \<Rightarrow> pinned_aliases" where
  "alias_step a (AddAlias c pinned alias) = fst (alias_add a c pinned alias)"
| "alias_step a (RemoveAlias alias) = fst (alias_remove a alias)"

interpretation aliases: machine alias_step aliases_ok
proof (unfold_locales)
  fix a op assume "aliases_ok a"
  then show "aliases_ok (alias_step a op)" by (cases op) (simp_all add: alias_add_ok alias_remove_ok)
qed

text \<open>The exact alias comes first in the order of strings, so it decides the score.\<close>

lemma prefix_le: "starts_with q s \<Longrightarrow> q \<le> s"
proof -
  assume "starts_with q s"
  then have s: "s = q @ drop (length q) s" by (metis append_take_drop_id starts_with_def)
  have "q \<le> q @ r" for r by (induction q) auto
  then show ?thesis by (subst s)
qed

lemma alias_exact_score:
  assumes "aliases_ok a" and "map_of (pa_by_alias a) (normalize_label query) = Some cid" and "normalize_label query \<noteq> []"
  shows "alias_match_score a cid query = Some 220"
proof -
  have "find (\<lambda>(alias, candidate). candidate = c \<and> starts_with q alias) m = Some (q, c)" if "bt_ok m" "map_of m q = Some c" for m q and c :: clip_id
    using that
  proof (induction m)
    case (Cons p m)
    show ?case
    proof (cases "fst p = q")
      case True
      with Cons.prems show ?thesis by (cases p) (auto simp: starts_with_def)
    next
      case False
      then have "map_of m q = Some c" using Cons.prems by (cases p) (auto split: if_splits)
      then have "(q, c) \<in> set m" by (rule map_of_SomeD)
      then have "fst p < q" using Cons.prems(1) by fastforce
      then have "\<not> starts_with q (fst p)" using prefix_le [of q "fst p"] by (auto simp: not_less [symmetric])
      with False Cons \<open>map_of m q = Some c\<close> show ?thesis by (cases p) auto
    qed
  qed simp
  from this [of "pa_by_alias a" "normalize_label query" cid] assms show ?thesis
    by (simp add: alias_match_score_def aliases_ok_def)
qed

section \<open>Paste affinity\<close>

definition identity_hash :: "(bytes \<Rightarrow> bytes) \<Rightarrow> string \<Rightarrow> nat \<Rightarrow> bytes option" where
  "identity_hash blake3 v maximum_bytes = (if is_valid_trimmed_label v maximum_bytes then Some (blake3 v) else None)"

type_synonym paste_affinity = "(bytes \<times> bytes, u16) btree"

definition affinity_record :: "(bytes \<Rightarrow> bytes) \<Rightarrow> paste_affinity \<Rightarrow> string \<Rightarrow> bytes \<Rightarrow> paste_affinity \<times> bool" where
  "affinity_record blake3 m destination_app content_hash = (case identity_hash blake3 destination_app MAX_SCOPE_BYTES of
       None \<Rightarrow> (m, False)
     | Some app_hash \<Rightarrow> let key = (app_hash, content_hash) in
         if \<not> bt_contains m key \<and> length m \<ge> MAX_AFFINITIES then (m, False)
         else (bt_insert key (saturating_add (case map_of m key of None \<Rightarrow> 0 | Some n \<Rightarrow> n) 1) m, True))"

definition affinity_boost :: "(bytes \<Rightarrow> bytes) \<Rightarrow> paste_affinity \<Rightarrow> string \<Rightarrow> bytes \<Rightarrow> int" where
  "affinity_boost blake3 m destination_app content_hash = (case identity_hash blake3 destination_app MAX_SCOPE_BYTES of
       None \<Rightarrow> 0
     | Some app_hash \<Rightarrow> int (unat (min (case map_of m (app_hash, content_hash) of None \<Rightarrow> 0 | Some n \<Rightarrow> n) (20 :: u16))) * 4)"

lemma unat_min_twenty: "unat (min x (20 :: u16)) = min (unat x) 20"
  by (auto simp: min_def word_le_nat_alt)

lemma affinity_boost_known:
  "identity_hash blake3 app MAX_SCOPE_BYTES = Some k \<Longrightarrow>
   affinity_boost blake3 m app h = int (min (unat (case map_of m (k, h) of None \<Rightarrow> 0 | Some n \<Rightarrow> n)) 20) * 4"
  by (simp add: affinity_boost_def unat_min_twenty)

lemma affinity_boost_bounds: "0 \<le> affinity_boost blake3 m app h \<and> affinity_boost blake3 m app h \<le> 80"
proof (cases "identity_hash blake3 app MAX_SCOPE_BYTES")
  case (Some k)
  show ?thesis unfolding affinity_boost_known [OF Some] by linarith
qed (simp add: affinity_boost_def)

lemma unat_succ_saturating: "unat (saturating_add n (1 :: u16)) = min (unat n + 1) 65535"
  by (simp add: unat_saturating_add)

text \<open>Every recorded paste raises the boost by four points, up to eighty.\<close>

lemma affinity_record_boost:
  assumes "affinity_record blake3 m app h = (m', True)"
  shows "affinity_boost blake3 m' app h = min (affinity_boost blake3 m app h + 4) 80"
proof -
  obtain k where k: "identity_hash blake3 app MAX_SCOPE_BYTES = Some k"
    and m': "m' = bt_insert (k, h) (saturating_add (case map_of m (k, h) of None \<Rightarrow> 0 | Some n \<Rightarrow> n) 1) m"
    using assms by (auto simp: affinity_record_def Let_def split: option.splits if_splits)
  define n where "n = (case map_of m (k, h) of None \<Rightarrow> 0 | Some n \<Rightarrow> (n :: u16))"
  show ?thesis unfolding affinity_boost_known [OF k] m'
    by (simp add: unat_succ_saturating n_def [symmetric])
qed

section \<open>Query history\<close>

record query_history =
  qh_entries :: "string list"
  qh_capacity :: nat

definition query_history_new :: "nat \<Rightarrow> query_history" where
  "query_history_new capacity = \<lparr>qh_entries = [], qh_capacity = min capacity MAX_QUERY_HISTORY\<rparr>"

definition query_looks_sensitive :: "(string \<Rightarrow> bool) \<Rightarrow> string \<Rightarrow> bool" where
  "query_looks_sensitive entropy query = text_contains_actionable_secret entropy (trim query)"

definition history_remember :: "(string \<Rightarrow> bool) \<Rightarrow> query_history \<Rightarrow> string \<Rightarrow> query_history \<times> bool" where
  "history_remember entropy h query = (let query = trim query in
     if qh_capacity h = 0 \<or> query = [] \<or> length query > RECALL_MAX_QUERY_BYTES \<or> has_control query \<or> query_looks_sensitive entropy query
     then (h, False)
     else let kept = filter (\<lambda>e. e \<noteq> query) (qh_entries h);
              kept = (if length kept = qh_capacity h then butlast kept else kept) in
          (h\<lparr>qh_entries := query # kept\<rparr>, True))"

definition query_history_ok :: "(string \<Rightarrow> bool) \<Rightarrow> query_history \<Rightarrow> bool" where
  "query_history_ok entropy h \<longleftrightarrow> distinct (qh_entries h) \<and> length (qh_entries h) \<le> qh_capacity h \<and> qh_capacity h \<le> MAX_QUERY_HISTORY \<and>
     (\<forall>e \<in> set (qh_entries h). e \<noteq> [] \<and> length e \<le> RECALL_MAX_QUERY_BYTES \<and> \<not> query_looks_sensitive entropy e)"

lemma history_remember_ok:
  assumes "query_history_ok entropy h" shows "query_history_ok entropy (fst (history_remember entropy h query))"
proof (cases "snd (history_remember entropy h query)")
  case True
  define q where "q = trim query"
  define kept where "kept = filter (\<lambda>e. e \<noteq> q) (qh_entries h)"
  define kept' where "kept' = (if length kept = qh_capacity h then butlast kept else kept)"
  from True have q: "qh_capacity h \<noteq> 0" "q \<noteq> []" "length q \<le> RECALL_MAX_QUERY_BYTES" "\<not> query_looks_sensitive entropy q"
    and h': "fst (history_remember entropy h query) = h\<lparr>qh_entries := q # kept'\<rparr>"
    by (auto simp: history_remember_def Let_def q_def kept_def kept'_def split: if_splits)
  have "length kept \<le> qh_capacity h" using assms le_trans [OF length_filter_le] by (auto simp: kept_def query_history_ok_def)
  then have len: "Suc (length kept') \<le> qh_capacity h" using q(1) by (auto simp: kept'_def)
  have sub: "set kept' \<subseteq> set kept" by (auto simp: kept'_def dest: in_set_butlastD)
  have "distinct kept'" using assms by (auto simp: kept'_def kept_def query_history_ok_def intro: distinct_butlast)
  moreover have "q \<notin> set kept'" using sub by (auto simp: kept_def)
  moreover have "set kept' \<subseteq> set (qh_entries h)" using sub by (auto simp: kept_def)
  ultimately show ?thesis using assms q len by (auto simp: h' query_history_ok_def)
next
  case False
  then have "fst (history_remember entropy h query) = h" by (auto simp: history_remember_def Let_def split: if_splits)
  with assms show ?thesis by simp
qed

interpretation query_memory: machine "\<lambda>h q. fst (history_remember entropy h q)" "query_history_ok entropy" for entropy
  by unfold_locales (rule history_remember_ok)

text \<open>No query that holds an actionable secret is ever remembered, and the memory stays within its capacity.\<close>

lemma history_never_secret:
  "query_history_ok entropy (run (\<lambda>h q. fst (history_remember entropy h q)) (query_history_new capacity) queries)"
  by (rule query_memory.inv_run) (simp add: query_history_ok_def query_history_new_def)

section \<open>Tags and scopes\<close>

record clip_tags =
  ct_tags :: "(clip_id, string set) btree"
  ct_collections :: "(clip_id, string set) btree"
  ct_total :: nat

definition labels_add :: "(clip_id, string set) btree \<Rightarrow> clip_id \<Rightarrow> string \<Rightarrow> (clip_id, string set) btree \<times> bool" where
  "labels_add m cid v = (let values = (case map_of m cid of None \<Rightarrow> {} | Some s \<Rightarrow> s) in
     if card values \<ge> MAX_TAGS_PER_CLIP \<or> v \<in> values then (bt_insert cid values m, False) else (bt_insert cid (insert v values) m, True))"

definition tags_add :: "clip_tags \<Rightarrow> clip_id \<Rightarrow> string \<Rightarrow> bool \<Rightarrow> clip_tags \<times> bool" where
  "tags_add t cid v collection = (let v = normalize_label v in
     if \<not> is_valid_trimmed_label v MAX_ALIAS_BYTES \<or> ct_total t \<ge> RECALL_MAX_TAGS then (t, False)
     else let (m, added) = labels_add (if collection then ct_collections t else ct_tags t) cid v;
              t = (if collection then t\<lparr>ct_collections := m\<rparr> else t\<lparr>ct_tags := m\<rparr>) in
          (t\<lparr>ct_total := ct_total t + (if added then 1 else 0)\<rparr>, added))"

definition has_label :: "(clip_id, string set) btree \<Rightarrow> clip_id \<Rightarrow> string \<Rightarrow> bool" where
  "has_label m cid v = (case map_of m cid of None \<Rightarrow> False | Some s \<Rightarrow> normalize_label v \<in> s)"

definition has_tag :: "clip_tags \<Rightarrow> clip_id \<Rightarrow> string \<Rightarrow> bool" where
  "has_tag t cid v = has_label (ct_tags t) cid v"

definition has_collection :: "clip_tags \<Rightarrow> clip_id \<Rightarrow> string \<Rightarrow> bool" where
  "has_collection t cid v = has_label (ct_collections t) cid v"

lemma tags_add_visible: "tags_add t cid v collection = (t', True) \<Longrightarrow> (if collection then has_collection else has_tag) t' cid v"
  by (auto simp: tags_add_def labels_add_def has_tag_def has_collection_def has_label_def Let_def split: if_splits prod.splits)

datatype search_scope = ScopeAll | ScopeApp string | ScopeDevice string | ScopeCollection string

definition scope_valid :: "search_scope \<Rightarrow> bool" where
  "scope_valid s = (case s of ScopeAll \<Rightarrow> True | ScopeApp v \<Rightarrow> is_valid_trimmed_label v MAX_SCOPE_BYTES
     | ScopeDevice v \<Rightarrow> is_valid_trimmed_label v MAX_SCOPE_BYTES | ScopeCollection v \<Rightarrow> is_valid_trimmed_label v MAX_SCOPE_BYTES)"

definition scope_set :: "search_scope option \<Rightarrow> search_scope \<Rightarrow> search_scope option \<times> bool" where
  "scope_set l s = (if scope_valid s then (if s = ScopeAll then None else Some s, True) else (l, False))"

definition scope_matches :: "search_scope option \<Rightarrow> clip \<Rightarrow> clip_tags option \<Rightarrow> bool" where
  "scope_matches l c tags = (case l of None \<Rightarrow> True | Some ScopeAll \<Rightarrow> True
     | Some (ScopeApp app) \<Rightarrow> (case cm_source_app (clip_meta c) of None \<Rightarrow> False | Some source \<Rightarrow> eq_ignore_ascii_case source app)
     | Some (ScopeDevice device) \<Rightarrow> (case cl_origin_device (cm_lineage (clip_meta c)) of None \<Rightarrow> False
         | Some source \<Rightarrow> eq_ignore_ascii_case source device)
     | Some (ScopeCollection collection) \<Rightarrow> (case tags of None \<Rightarrow> False | Some t \<Rightarrow> has_collection t (clip_id c) collection))"

section \<open>Query pins\<close>

type_synonym query_pins = "(bytes, clip_id set) btree"

definition pins_set :: "query_pins \<Rightarrow> bytes \<Rightarrow> clip_id \<Rightarrow> bool \<Rightarrow> query_pins \<times> bool" where
  "pins_set m query cid pinned =
     (if all_zero query then (m, False)
      else if pinned then
        if \<not> bt_contains m query \<and> length m \<ge> MAX_QUERY_PIN_GROUPS then (m, False)
        else let pins = (case map_of m query of None \<Rightarrow> {} | Some s \<Rightarrow> s) in
          if card pins \<ge> MAX_QUERY_PINS \<and> cid \<notin> pins then (bt_insert query pins m, False)
          else (bt_insert query (insert cid pins) m, cid \<notin> pins)
      else (case map_of m query of None \<Rightarrow> (m, False)
        | Some pins \<Rightarrow> let left = pins - {cid} in
            (if left = {} then bt_remove query m else bt_insert query left m, cid \<in> pins)))"

definition pins_contain :: "query_pins \<Rightarrow> bytes \<Rightarrow> clip_id \<Rightarrow> bool" where
  "pins_contain m query cid = (case map_of m query of None \<Rightarrow> False | Some pins \<Rightarrow> cid \<in> pins)"

definition pins_ok :: "query_pins \<Rightarrow> bool" where
  "pins_ok m \<longleftrightarrow> bt_ok m \<and> length m \<le> MAX_QUERY_PIN_GROUPS \<and> (\<forall>p \<in> set m. snd p \<noteq> {} \<and> card (snd p) \<le> MAX_QUERY_PINS)"

lemma bt_insert_all: "\<forall>p \<in> set m. P (snd p) \<Longrightarrow> P v \<Longrightarrow> \<forall>p \<in> set (bt_insert k v m). P (snd p)"
  using set_bt_insert_subset by fastforce

lemma pins_set_ok:
  assumes "pins_ok m" shows "pins_ok (fst (pins_set m query cid pinned))"
proof -
  have groups: "map_of m query = Some s \<Longrightarrow> s \<noteq> {} \<and> card s \<le> MAX_QUERY_PINS" for s
    using assms map_of_SomeD by (fastforce simp: pins_ok_def)
  have insert_ok: "pins_ok (bt_insert query s m)"
    if "s \<noteq> {}" "card s \<le> MAX_QUERY_PINS" "bt_contains m query \<or> length m < MAX_QUERY_PIN_GROUPS" for s
    unfolding pins_ok_def
  proof (intro conjI)
    show "bt_ok (bt_insert query s m)" using assms by (simp add: pins_ok_def)
    show "length (bt_insert query s m) \<le> MAX_QUERY_PIN_GROUPS"
      using assms that(3) by (cases "bt_contains m query") (simp_all add: pins_ok_def length_bt_insert)
    show "\<forall>p \<in> set (bt_insert query s m). snd p \<noteq> {} \<and> card (snd p) \<le> MAX_QUERY_PINS"
      by (rule bt_insert_all [of m "\<lambda>s. s \<noteq> {} \<and> card s \<le> MAX_QUERY_PINS"]) (use assms that in \<open>simp_all add: pins_ok_def\<close>)
  qed
  have remove_ok: "pins_ok (bt_remove query m)"
  proof -
    have "set (bt_remove query m) \<subseteq> set m" by (auto simp: bt_remove_def)
    then show ?thesis using assms length_bt_remove_le [of query m] by (auto simp: pins_ok_def)
  qed
  have card_insert: "card (insert cid s) \<le> MAX_QUERY_PINS" if "card s \<le> MAX_QUERY_PINS" "card s < MAX_QUERY_PINS \<or> cid \<in> s" for s :: "clip_id set"
    using that by (auto simp: card_insert_if insert_absorb)
  have card_left: "card (s - {cid}) \<le> MAX_QUERY_PINS" if "card s \<le> MAX_QUERY_PINS" for s :: "clip_id set"
    using that card_Diff1_le [of s cid] by linarith
  consider "all_zero query" | "\<not> all_zero query" "pinned" | "\<not> all_zero query" "\<not> pinned" by blast
  then show ?thesis
  proof cases
    case 2
    show ?thesis
    proof (cases "map_of m query")
      case None
      then show ?thesis using assms 2 insert_ok [of "{cid}"]
        by (auto simp: pins_set_def bt_contains_def MAX_QUERY_PINS_def)
    next
      case (Some s)
      then show ?thesis using 2 groups [OF Some] insert_ok [of s] insert_ok [of "insert cid s"] card_insert [of s]
        by (auto simp: pins_set_def bt_contains_def not_le)
    qed
  next
    case 3
    then show ?thesis using assms groups insert_ok card_left remove_ok
      by (auto simp: pins_set_def bt_contains_def Let_def split: option.split)
  qed (use assms in \<open>simp add: pins_set_def\<close>)
qed

lemma pins_set_spec:
  assumes "\<not> all_zero query" and "\<not> pinned \<or> (bt_contains m query \<and> card (the (map_of m query)) < MAX_QUERY_PINS)"
  shows "pins_contain (fst (pins_set m query cid pinned)) query cid \<longleftrightarrow> pinned"
  using assms by (auto simp: pins_set_def pins_contain_def bt_contains_def Let_def split: option.splits)

end
