(* ===== verification/Recall_Search.thy ===== *)
theory Recall_Search
  imports Recall_Query Recall_Memory
begin

text \<open>
  Recall search, \<open>crates/vbuff-core/src/recall/search.rs\<close>, with the keyboard layouts of \<open>recall/layout.rs\<close> and the
  source actions of \<open>recall/source.rs\<close>. The Unicode tables are the record \<open>search_env\<close>; a character is its UTF-8 bytes.
  Scores are at most a few thousand in size, so the \<open>i64\<close> arithmetic is that of integers.
\<close>

record search_env =
  se_lower :: "string \<Rightarrow> string"
  se_alphabetic :: "string \<Rightarrow> bool"
  se_alphanumeric :: "string \<Rightarrow> bool"

section \<open>Keyboard layouts\<close>

definition LAYOUT_EN :: "string list" where
  "LAYOUT_EN = [[CHR 0x60], [CHR 0x71], [CHR 0x77], [CHR 0x65], [CHR 0x72], [CHR 0x74], [CHR 0x79], [CHR 0x75], [CHR 0x69], 
     [CHR 0x6F], [CHR 0x70], [CHR 0x5B], [CHR 0x5D], [CHR 0x61], [CHR 0x73], [CHR 0x64], [CHR 0x66], [CHR 0x67], 
     [CHR 0x68], [CHR 0x6A], [CHR 0x6B], [CHR 0x6C], [CHR 0x3B], [CHR 0x27], [CHR 0x7A], [CHR 0x78], [CHR 0x63], 
     [CHR 0x76], [CHR 0x62], [CHR 0x6E], [CHR 0x6D], [CHR 0x2C], [CHR 0x2E]]"

definition LAYOUT_RU :: "string list" where
  "LAYOUT_RU = [[CHR 0xD1, CHR 0x91], [CHR 0xD0, CHR 0xB9], [CHR 0xD1, CHR 0x86], [CHR 0xD1, CHR 0x83], [CHR 0xD0, CHR 0xBA], 
     [CHR 0xD0, CHR 0xB5], [CHR 0xD0, CHR 0xBD], [CHR 0xD0, CHR 0xB3], [CHR 0xD1, CHR 0x88], [CHR 0xD1, CHR 0x89], 
     [CHR 0xD0, CHR 0xB7], [CHR 0xD1, CHR 0x85], [CHR 0xD1, CHR 0x8A], [CHR 0xD1, CHR 0x84], [CHR 0xD1, CHR 0x8B], 
     [CHR 0xD0, CHR 0xB2], [CHR 0xD0, CHR 0xB0], [CHR 0xD0, CHR 0xBF], [CHR 0xD1, CHR 0x80], [CHR 0xD0, CHR 0xBE], 
     [CHR 0xD0, CHR 0xBB], [CHR 0xD0, CHR 0xB4], [CHR 0xD0, CHR 0xB6], [CHR 0xD1, CHR 0x8D], [CHR 0xD1, CHR 0x8F], 
     [CHR 0xD1, CHR 0x87], [CHR 0xD1, CHR 0x81], [CHR 0xD0, CHR 0xBC], [CHR 0xD0, CHR 0xB8], [CHR 0xD1, CHR 0x82], 
     [CHR 0xD1, CHR 0x8C], [CHR 0xD0, CHR 0xB1], [CHR 0xD1, CHR 0x8E]]"

definition remap_char :: "string list \<Rightarrow> string list \<Rightarrow> string \<Rightarrow> string" where
  "remap_char source target ch = (case map_of (zip source target) ch of None \<Rightarrow> ch | Some key \<Rightarrow> key)"

definition remap :: "string list \<Rightarrow> string list \<Rightarrow> string \<Rightarrow> string" where
  "remap source target s = concat (map (remap_char source target) (utf8_split s))"

definition push_new :: "'a list \<Rightarrow> 'a \<Rightarrow> 'a list" where
  "push_new xs x = (if x \<in> set xs then xs else xs @ [x])"

definition layout_variants :: "search_env \<Rightarrow> string \<Rightarrow> string list" where
  "layout_variants env query = (let original = se_lower env query in
     if \<not> list_ex (se_alphabetic env) (utf8_split original) then [original]
     else push_new (push_new [original] (remap LAYOUT_EN LAYOUT_RU original)) (remap LAYOUT_RU LAYOUT_EN original))"

definition layout_contains :: "search_env \<Rightarrow> string \<Rightarrow> string \<Rightarrow> bool" where
  "layout_contains env body query = list_ex (\<lambda>q. contains_sub q (se_lower env body)) (layout_variants env query)"

lemma layouts_inverse: "length LAYOUT_EN = length LAYOUT_RU" "distinct LAYOUT_EN" "distinct LAYOUT_RU" "set LAYOUT_EN \<inter> set LAYOUT_RU = {}"
  by (simp_all add: LAYOUT_EN_def LAYOUT_RU_def)

lemma remap_char_inverse:
  assumes "ch \<notin> set LAYOUT_RU"
  shows "remap_char LAYOUT_RU LAYOUT_EN (remap_char LAYOUT_EN LAYOUT_RU ch) = ch"
proof (cases "map_of (zip LAYOUT_EN LAYOUT_RU) ch")
  case None
  have unmapped: "map_of (zip LAYOUT_RU LAYOUT_EN) ch = None" using assms layouts_inverse(1) by (simp add: map_of_zip_is_None)
  show ?thesis unfolding remap_char_def None option.case unmapped by (rule refl)
next
  case (Some key)
  then have "(ch, key) \<in> set (zip LAYOUT_EN LAYOUT_RU)" by (rule map_of_SomeD)
  then have "(key, ch) \<in> set (zip LAYOUT_RU LAYOUT_EN)" by (auto simp: set_zip)
  then have "map_of (zip LAYOUT_RU LAYOUT_EN) key = Some ch"
    using layouts_inverse by (intro map_of_is_SomeI) (simp_all add: map_fst_zip)
  with Some show ?thesis by (simp add: remap_char_def)
qed

section \<open>Edit distance\<close>

text \<open>The loop over two indices, on what is left of the two words; \<open>order\<close> compares the lengths of the whole words.\<close>

fun edit_loop :: "int \<Rightarrow> nat \<Rightarrow> 'a list \<Rightarrow> 'a list \<Rightarrow> bool" where
  "edit_loop order edits (x # xs) (y # ys) =
     (if x = y then edit_loop order edits xs ys
      else if edits + 1 > 1 then False
      else if order > 0 then edit_loop order (edits + 1) xs (y # ys)
      else if order < 0 then edit_loop order (edits + 1) (x # xs) ys
      else edit_loop order (edits + 1) xs ys)"
| "edit_loop order edits xs ys = (edits + (if xs \<noteq> [] \<or> ys \<noteq> [] then 1 else 0) \<le> 1)"

definition edit_distance_at_most_one :: "'a list \<Rightarrow> 'a list \<Rightarrow> bool" where
  "edit_distance_at_most_one left right =
     (if length left > 32 \<or> length right > 32 then False
      else if length left > length right + 1 \<or> length right > length left + 1 then False
      else edit_loop (int (length left) - int (length right)) 0 left right)"

text \<open>One edit: a character inserted, removed or replaced.\<close>

definition one_edit :: "'a list \<Rightarrow> 'a list \<Rightarrow> bool" where
  "one_edit left right \<longleftrightarrow> (\<exists>p a b s. left = p @ a @ s \<and> right = p @ b @ s \<and> length a \<le> 1 \<and> length b \<le> 1)"

lemma edit_loop_one: "edit_loop order 1 xs ys \<longleftrightarrow> xs = ys"
  by (induction order "1 :: nat" xs ys rule: edit_loop.induct) auto

lemma one_edit_Cons: "one_edit xs ys \<Longrightarrow> one_edit (x # xs) (x # ys)"
proof -
  assume "one_edit xs ys"
  then obtain p a b s where "xs = p @ a @ s" "ys = p @ b @ s" "length a \<le> 1" "length b \<le> 1" unfolding one_edit_def by blast
  then have "x # xs = (x # p) @ a @ s \<and> x # ys = (x # p) @ b @ s \<and> length a \<le> 1 \<and> length b \<le> 1" by simp
  then show ?thesis unfolding one_edit_def by blast
qed

lemma one_editI: "xs = p @ a @ s \<Longrightarrow> ys = p @ b @ s \<Longrightarrow> length a \<le> 1 \<Longrightarrow> length b \<le> 1 \<Longrightarrow> one_edit xs ys"
  unfolding one_edit_def by blast

lemma one_edit_simple:
  "one_edit xs xs" "one_edit (x # xs) (y # xs)" "one_edit (x # xs) xs" "one_edit xs (x # xs)"
  by (rule one_editI [where p = "[]" and a = "[]" and b = "[]" and s = xs], simp_all)
    (rule one_editI [where p = "[]" and a = "[x]" and b = "[y]" and s = xs], simp_all,
     rule one_editI [where p = "[]" and a = "[x]" and b = "[]" and s = xs], simp_all,
     rule one_editI [where p = "[]" and a = "[]" and b = "[x]" and s = xs], simp_all)

lemma one_edit_Cons_same:
  assumes "one_edit (x # xs) (x # ys)" shows "one_edit xs ys"
proof -
  from assms obtain p a b s where pabs: "x # xs = p @ a @ s" "x # ys = p @ b @ s" "length a \<le> 1" "length b \<le> 1"
    unfolding one_edit_def by blast
  show ?thesis
  proof (cases p)
    case (Cons z p')
    with pabs show ?thesis by (intro one_editI [where p = p' and a = a and b = b and s = s]) simp_all
  next
    case Nil
    consider "a = []" | u where "a = [u]" using pabs(3) by (cases a) auto
    then show ?thesis
    proof cases
      case 1
      then have s: "s = x # xs" using pabs(1) Nil by simp
      consider "b = []" | v where "b = [v]" using pabs(4) by (cases b) auto
      then show ?thesis using pabs(2) Nil s one_edit_simple by cases auto
    next
      case 2
      then have s: "s = xs" using pabs(1) Nil by simp
      consider "b = []" | v where "b = [v]" using pabs(4) by (cases b) auto
      then show ?thesis using pabs(2) Nil s one_edit_simple by cases auto
    qed
  qed
qed

lemma one_edit_differ:
  assumes "x \<noteq> y"
  shows "one_edit (x # xs) (y # ys) \<longleftrightarrow> xs = ys \<or> xs = y # ys \<or> x # xs = ys"
proof
  assume "one_edit (x # xs) (y # ys)"
  then obtain p a b s where pabs: "x # xs = p @ a @ s" "y # ys = p @ b @ s" "length a \<le> 1" "length b \<le> 1"
    unfolding one_edit_def by blast
  have "p = []" using pabs(1,2) assms by (cases p) auto
  with pabs assms show "xs = ys \<or> xs = y # ys \<or> x # xs = ys" by (cases a; cases b) auto
next
  assume "xs = ys \<or> xs = y # ys \<or> x # xs = ys"
  then show "one_edit (x # xs) (y # ys)" using one_edit_simple by auto
qed

lemma one_edit_Nil: "one_edit [] ys \<longleftrightarrow> length ys \<le> 1" "one_edit xs [] \<longleftrightarrow> length xs \<le> 1"
  unfolding one_edit_def by (auto intro!: exI [of _ "[]"])

lemma edit_loop_zero:
  assumes "order = int (length xs) - int (length ys)" and "\<bar>order\<bar> \<le> 1"
  shows "edit_loop order 0 xs ys \<longleftrightarrow> one_edit xs ys"
  using assms
proof (induction order "0 :: nat" xs ys rule: edit_loop.induct)
  case (1 order x xs y ys)
  show ?case
  proof (cases "x = y")
    case True
    with 1 have "edit_loop order 0 xs ys \<longleftrightarrow> one_edit xs ys" by simp
    then show ?thesis using True one_edit_Cons [of xs ys x] one_edit_Cons_same [of x xs ys] by auto
  next
    case False
    have lens: "length xs = length ys \<Longrightarrow> xs \<noteq> y # ys \<and> x # xs \<noteq> ys" by auto
    consider (longer) "order > 0" | (shorter) "order < 0" | (equal) "order = 0" by linarith
    then show ?thesis
    proof cases
      case longer
      then have "length xs = length ys + 1" using "1.prems" by auto
      then have "xs \<noteq> ys" "x # xs \<noteq> ys" by auto
      with False longer show ?thesis by (simp add: one_edit_differ edit_loop_one [unfolded One_nat_def])
    next
      case shorter
      then have "length ys = length xs + 1" using "1.prems" by auto
      then have "xs \<noteq> ys" "xs \<noteq> y # ys" by auto
      with False shorter show ?thesis by (simp add: one_edit_differ edit_loop_one [unfolded One_nat_def])
    next
      case equal
      then have "length xs = length ys" using "1.prems" by auto
      with False equal lens show ?thesis by (simp add: one_edit_differ edit_loop_one [unfolded One_nat_def])
    qed
  qed
qed (auto simp: one_edit_Nil)

lemma one_edit_lengths: "one_edit xs ys \<Longrightarrow> length xs \<le> length ys + 1 \<and> length ys \<le> length xs + 1"
  by (auto simp: one_edit_def)

text \<open>
  C33. The typo matcher computes edit distance: for words of at most 32 characters the single pass over two indices accepts
  exactly the pairs that differ in at most one inserted, removed or replaced character, and it refuses longer words.
\<close>

theorem typo_match_is_edit_distance:
  "edit_distance_at_most_one left right = (length left \<le> 32 \<and> length right \<le> 32 \<and> one_edit left right)"
proof (cases "length left \<le> length right + 1 \<and> length right \<le> length left + 1")
  case True
  then have "\<bar>int (length left) - int (length right)\<bar> \<le> 1" by auto
  from edit_loop_zero [OF refl this] True show ?thesis by (auto simp: edit_distance_at_most_one_def)
next
  case False
  then show ?thesis using one_edit_lengths [of left right] by (auto simp: edit_distance_at_most_one_def)
qed

section \<open>Scores\<close>

definition MAX_RECALL_INPUT :: nat where "MAX_RECALL_INPUT = 10000"
definition MAX_SEARCHABLE_CHARS :: nat where "MAX_SEARCHABLE_CHARS = 4096"
definition MAX_COMPLETIONS :: nat where "MAX_COMPLETIONS = 8"

datatype match_explanation = TextMatch | SourceApplication | KindMatch | TagMatch | DeviceMatch | TimeMatch | PinnedAlias
  | TypoCorrection | DestinationAffinity | QueryPinned

fun kind_label :: "content_kind \<Rightarrow> string" where
  "kind_label TextKind = ''Text''"
| "kind_label UrlKind = ''URL''"
| "kind_label ColorKind = ''Color''"
| "kind_label CodeKind = ''Code''"
| "kind_label ImageKind = ''Image''"
| "kind_label FileKind = ''File''"
| "kind_label RtfKind = ''RTF''"
| "kind_label HtmlKind = ''HTML''"
| "kind_label OtherKind = ''Other''"

text \<open>\<open>str::find\<close> of a pattern: the first byte position at which it starts.\<close>

fun find_substring :: "string \<Rightarrow> string \<Rightarrow> nat option" where
  "find_substring p [] = (if starts_with p [] then Some 0 else None)"
| "find_substring p (b # bs) = (if starts_with p (b # bs) then Some 0 else map_option Suc (find_substring p bs))"

definition substring_score :: "string \<Rightarrow> string \<Rightarrow> int option" where
  "substring_score haystack query = map_option (\<lambda>position.
     let before = utf8_split (take position haystack) in
     100 - int position + (if position = 0 then 50 else if before \<noteq> [] \<and> is_whitespace (decode_scalar (last before)) then 20 else 0)
       - int (length (utf8_split haystack) div 64)) (find_substring query haystack)"

definition bounded_text :: "string \<Rightarrow> string" where
  "bounded_text body = concat (take MAX_SEARCHABLE_CHARS (utf8_split body))"

definition score_text :: "search_env \<Rightarrow> clip \<Rightarrow> string \<Rightarrow> (int \<times> match_explanation) option" where
  "score_text env c query =
     (let own = (if cm_sensitive (clip_meta c) then None
            else Option.bind (primary_text c) (\<lambda>body. substring_score (se_lower env (bounded_text body)) query)) in
      case own of Some score \<Rightarrow> Some (score, TextMatch)
      | None \<Rightarrow> (case Option.bind (cm_source_app (clip_meta c)) (\<lambda>app. substring_score (se_lower env app) query) of
          Some score \<Rightarrow> Some (score - 10, SourceApplication)
        | None \<Rightarrow> map_option (\<lambda>score. (score - 20, KindMatch)) (substring_score (se_lower env (kind_label (cm_kind (clip_meta c)))) query)))"

text \<open>\<open>str::split\<close> by a predicate on characters.\<close>

fun split_chars :: "(string \<Rightarrow> bool) \<Rightarrow> string list \<Rightarrow> string list \<Rightarrow> string list list" where
  "split_chars P [] word = [word]"
| "split_chars P (ch # cs) word = (if P ch then word # split_chars P cs [] else split_chars P cs (word @ [ch]))"

definition typo_matches :: "search_env \<Rightarrow> clip \<Rightarrow> string \<Rightarrow> bool" where
  "typo_matches env c query =
     (if cm_sensitive (clip_meta c) \<or> list_ex (\<lambda>ch. is_whitespace (decode_scalar ch)) (utf8_split query)
         \<or> \<not> (3 \<le> length (utf8_split query) \<and> length (utf8_split query) \<le> 32) then False
      else (case primary_text c of None \<Rightarrow> False
        | Some body \<Rightarrow> list_ex (\<lambda>word. edit_distance_at_most_one (utf8_split (se_lower env (concat word))) (utf8_split query))
            (filter (\<lambda>word. length word \<le> 32)
              (take 256 (split_chars (\<lambda>ch. \<not> se_alphanumeric env ch) (utf8_split (bounded_text body)) [])))))"

section \<open>The search\<close>

record search_context =
  cx_current_app :: "string option"
  cx_aliases :: "pinned_aliases option"
  cx_affinity :: "paste_affinity option"
  cx_tags :: "clip_tags option"
  cx_query_pins :: "query_pins option"
  cx_scope :: "search_scope option option"

record recall_result =
  rr_clip :: clip
  rr_score :: int
  rr_explanations :: "match_explanation list"
  rr_query_pinned :: bool
  rr_source_index :: nat

definition matches_filters :: "search_env \<Rightarrow> clip \<Rightarrow> natural_query \<Rightarrow> clip_tags option \<Rightarrow> bool" where
  "matches_filters env c q tags \<longleftrightarrow>
     (case nq_kind q of None \<Rightarrow> True | Some kind \<Rightarrow> cm_kind (clip_meta c) = kind)
     \<and> (case nq_app q of None \<Rightarrow> True | Some app \<Rightarrow> (case cm_source_app (clip_meta c) of None \<Rightarrow> False | Some source \<Rightarrow> layout_contains env source app))
     \<and> (case nq_device q of None \<Rightarrow> True | Some device \<Rightarrow> (case cl_origin_device (cm_lineage (clip_meta c)) of None \<Rightarrow> False
          | Some source \<Rightarrow> eq_ignore_ascii_case source device))
     \<and> (case nq_tag q of None \<Rightarrow> True | Some tag \<Rightarrow> (case tags of None \<Rightarrow> False | Some t \<Rightarrow> has_tag t (clip_id c) tag))
     \<and> (case nq_before q of None \<Rightarrow> True | Some before \<Rightarrow> cm_created_at (clip_meta c) < before)
     \<and> (case nq_after q of None \<Rightarrow> True | Some after \<Rightarrow> after \<le> cm_created_at (clip_meta c))"

definition filter_explanations :: "natural_query \<Rightarrow> match_explanation list" where
  "filter_explanations q =
     (if nq_app q \<noteq> None then [SourceApplication] else []) @ (if nq_kind q \<noteq> None then [KindMatch] else [])
     @ (if nq_tag q \<noteq> None then [TagMatch] else []) @ (if nq_device q \<noteq> None then [DeviceMatch] else [])
     @ (if nq_before q \<noteq> None \<or> nq_after q \<noteq> None then [TimeMatch] else [])"

text \<open>How the words of the query match a clip: score and explanation, or no match.\<close>

fun first_variant :: "search_env \<Rightarrow> clip \<Rightarrow> string list \<Rightarrow> (int \<times> match_explanation) option" where
  "first_variant env c [] = None"
| "first_variant env c (v # vs) = (case score_text env c v of Some r \<Rightarrow> Some r
     | None \<Rightarrow> if typo_matches env c v then Some (35, TypoCorrection) else first_variant env c vs)"

definition words_match :: "search_env \<Rightarrow> search_context \<Rightarrow> string \<Rightarrow> clip \<Rightarrow> (int \<times> match_explanation) option" where
  "words_match env cx text_query c = (case score_text env c text_query of
       Some r \<Rightarrow> Some r
     | None \<Rightarrow> (case Option.bind (cx_aliases cx) (\<lambda>a. alias_match_score a (clip_id c) text_query) of
         Some score \<Rightarrow> Some (score, PinnedAlias)
       | None \<Rightarrow> if typo_matches env c text_query then Some (35, TypoCorrection)
           else map_option (\<lambda>(score, why). (score - 200, why)) (first_variant env c (tl (layout_variants env text_query)))))"

definition recall_result_of ::
  "(bytes \<Rightarrow> bytes) \<Rightarrow> search_env \<Rightarrow> natural_query \<Rightarrow> search_context \<Rightarrow> string \<Rightarrow> nat \<Rightarrow> clip \<Rightarrow> recall_result option" where
  "recall_result_of blake3 env q cx text_query source_index c =
     (if \<not> matches_filters env c q (cx_tags cx)
         \<or> (case cx_scope cx of None \<Rightarrow> False | Some scope \<Rightarrow> \<not> scope_matches scope c (cx_tags cx)) then None
      else
        let base = filter_explanations q in
        case (if text_query = [] then Some (0, base)
              else map_option (\<lambda>(score, why). (score, push_new base why)) (words_match env cx text_query c)) of
          None \<Rightarrow> None
        | Some (score, why) \<Rightarrow>
            let boost = (case (cx_current_app cx, cx_affinity cx) of
                  (Some app, Some affinity) \<Rightarrow> affinity_boost blake3 affinity app (clip_content_hash c) | _ \<Rightarrow> 0);
                why = (if boost > 0 then push_new why DestinationAffinity else why);
                pinned = (case cx_query_pins cx of None \<Rightarrow> False | Some pins \<Rightarrow> pins_contain pins (natural_fingerprint blake3 q) (clip_id c))
            in Some \<lparr>rr_clip = c, rr_score = score + max boost 0 + (if pinned then 500 else 0),
                 rr_explanations = (if pinned then push_new why QueryPinned else why),
                 rr_query_pinned = pinned, rr_source_index = source_index\<rparr>)"

definition search_recall ::
  "(bytes \<Rightarrow> bytes) \<Rightarrow> search_env \<Rightarrow> clip list \<Rightarrow> natural_query \<Rightarrow> search_context \<Rightarrow> recall_result list" where
  "search_recall blake3 env cs q cx =
     (let text_query = se_lower env (trim (nq_text q)) in
      sort_key (\<lambda>r. (\<not> rr_query_pinned r, \<not> clip_pinned (rr_clip r), - rr_score r, rr_source_index r))
        (List.map_filter (\<lambda>(i, c). recall_result_of blake3 env q cx text_query i c) (take MAX_RECALL_INPUT (enumerate 0 cs))))"

datatype miss_suggestion = BroadenTime | ClearApplication | ClearKind | ClearTag | IncludeArchive | SearchAllDevices

definition miss_for_query :: "natural_query \<Rightarrow> bool \<Rightarrow> bool \<Rightarrow> miss_suggestion list" where
  "miss_for_query q archive_available remote_available =
     (if nq_before q \<noteq> None \<or> nq_after q \<noteq> None then [BroadenTime] else []) @ (if nq_app q \<noteq> None then [ClearApplication] else [])
     @ (if nq_kind q \<noteq> None then [ClearKind] else []) @ (if nq_tag q \<noteq> None then [ClearTag] else [])
     @ (if archive_available then [IncludeArchive] else []) @ (if remote_available then [SearchAllDevices] else [])"

definition COMPLETED_KINDS :: "content_kind list" where
  "COMPLETED_KINDS = [TextKind, UrlKind, ImageKind, CodeKind, FileKind, ColorKind]"

definition complete_query :: "string \<Rightarrow> string list" where
  "complete_query input =
     (if length input > 4 * 1024 then []
      else let ws = whitespace_words (utf8_split input) []; lower = to_ascii_lowercase (if ws = [] then [] else last ws) in
        take MAX_COMPLETIONS (filter (starts_with lower)
          (if starts_with ''kind:'' lower then map (\<lambda>k. ''kind:'' @ slug k) COMPLETED_KINDS
           else [''app:'', ''kind:'', ''tag:'', ''device:'', ''before:'', ''after:''])))"

section \<open>Sensitive contents are never searched\<close>

text \<open>Two clips that differ, if at all, in the flavors of a sensitive clip.\<close>

definition flavors_hidden :: "clip \<Rightarrow> clip \<Rightarrow> bool" where
  "flavors_hidden c d \<longleftrightarrow> (\<exists>fs. d = c\<lparr>clip_flavors := fs\<rparr>) \<and> (cm_sensitive (clip_meta c) \<or> c = d)"

lemma flavors_hidden_facts:
  assumes "flavors_hidden c d"
  shows "clip_id d = clip_id c" "clip_meta d = clip_meta c" "clip_content_hash d = clip_content_hash c" "clip_pinned d = clip_pinned c"
    "score_text env d v = score_text env c v" "typo_matches env d v = typo_matches env c v"
proof -
  obtain fs where d: "d = c\<lparr>clip_flavors := fs\<rparr>" using assms by (auto simp: flavors_hidden_def)
  show ids: "clip_id d = clip_id c" and meta: "clip_meta d = clip_meta c" and "clip_content_hash d = clip_content_hash c"
    and "clip_pinned d = clip_pinned c" by (simp_all add: d)
  consider "c = d" | "cm_sensitive (clip_meta c)" using assms by (auto simp: flavors_hidden_def)
  then have "score_text env d v = score_text env c v \<and> typo_matches env d v = typo_matches env c v"
  proof cases
    case 2
    then have "\<not> \<not> cm_sensitive (clip_meta c)" by simp
    with 2 show ?thesis unfolding score_text_def typo_matches_def meta Let_def by (simp only: if_True simp_thms disj_not1)
  qed simp
  then show "score_text env d v = score_text env c v" "typo_matches env d v = typo_matches env c v" by blast+
qed

lemma first_variant_hidden: "flavors_hidden c d \<Longrightarrow> first_variant env d vs = first_variant env c vs"
proof (induction vs)
  case (Cons v vs)
  show ?case unfolding first_variant.simps flavors_hidden_facts [OF Cons.prems] Cons.IH [OF Cons.prems] by (rule refl)
qed simp

definition result_hidden :: "recall_result \<Rightarrow> recall_result \<Rightarrow> bool" where
  "result_hidden r s \<longleftrightarrow> s = r\<lparr>rr_clip := rr_clip s\<rparr> \<and> flavors_hidden (rr_clip r) (rr_clip s)"

lemma recall_result_hidden:
  assumes "flavors_hidden c d"
  shows "rel_option result_hidden (recall_result_of blake3 env q cx t i c) (recall_result_of blake3 env q cx t i d)"
proof -
  note same = flavors_hidden_facts [OF assms]
  have filters: "matches_filters env d q tags = matches_filters env c q tags" for tags unfolding matches_filters_def same by (rule refl)
  have scope: "scope_matches l d tags = scope_matches l c tags" for l tags unfolding scope_matches_def same by (rule refl)
  have words: "words_match env cx t d = words_match env cx t c" unfolding words_match_def same first_variant_hidden [OF assms] by (rule refl)
  show ?thesis unfolding recall_result_of_def filters scope words same
    using assms by (auto simp: Let_def result_hidden_def split: option.split)
qed

lemma map_filter_rel:
  "list_all2 (\<lambda>x y. rel_option R (f x) (g y)) xs ys \<Longrightarrow> list_all2 R (List.map_filter f xs) (List.map_filter g ys)"
  by (induction rule: list_all2_induct) (auto simp: map_filter_simps option_rel_Some1 option_rel_Some2 split: option.split elim: option.rel_cases)

lemma sort_key_rel:
  assumes "list_all2 R xs ys" and "\<And>x y. R x y \<Longrightarrow> f x = g y"
  shows "list_all2 R (sort_key f xs) (sort_key g ys)"
proof -
  have insert: "list_all2 R (insort_key f x as) (insort_key g y bs)" if "list_all2 R as bs" "R x y" for x y as bs
    using that by (induction as bs rule: list_all2_induct) (auto simp: assms(2))
  have "list_all2 R (foldr (insort_key f) xs []) (foldr (insort_key g) ys [])"
    using assms(1) by (induction rule: list_all2_induct) (auto intro: insert)
  then show ?thesis by (simp add: sort_key_def)
qed

text \<open>
  Recall search never looks into a sensitive clip: if two histories differ only in the contents of sensitive clips, every
  query, in every context, gives the same results in the same order with the same scores and explanations.
\<close>

lemma search_ignores_sensitive_contents:
  assumes "list_all2 flavors_hidden cs ds"
  shows "list_all2 result_hidden (search_recall blake3 env cs q cx) (search_recall blake3 env ds q cx)"
  unfolding search_recall_def Let_def
proof (rule sort_key_rel)
  let ?t = "se_lower env (trim (nq_text q))"
  have "list_all2 (\<lambda>x y. fst x = fst y \<and> flavors_hidden (snd x) (snd y)) (enumerate n cs) (enumerate n ds)" for n
    using assms by (induction cs ds arbitrary: n rule: list_all2_induct) auto
  then have "list_all2 (\<lambda>x y. fst x = fst y \<and> flavors_hidden (snd x) (snd y)) (take MAX_RECALL_INPUT (enumerate 0 cs)) (take MAX_RECALL_INPUT (enumerate 0 ds))"
    by (rule list_all2_takeI)
  then have "list_all2 (\<lambda>x y. rel_option result_hidden (case x of (i, c) \<Rightarrow> recall_result_of blake3 env q cx ?t i c)
      (case y of (i, c) \<Rightarrow> recall_result_of blake3 env q cx ?t i c))
      (take MAX_RECALL_INPUT (enumerate 0 cs)) (take MAX_RECALL_INPUT (enumerate 0 ds))"
    by (rule list_all2_mono) (auto intro: recall_result_hidden split: prod.split)
  then show "list_all2 result_hidden
      (List.map_filter (\<lambda>(i, c). recall_result_of blake3 env q cx ?t i c) (take MAX_RECALL_INPUT (enumerate 0 cs)))
      (List.map_filter (\<lambda>(i, c). recall_result_of blake3 env q cx ?t i c) (take MAX_RECALL_INPUT (enumerate 0 ds)))"
    by (rule map_filter_rel)
next
  fix r s assume rs: "result_hidden r s"
  then obtain c where s: "s = r\<lparr>rr_clip := c\<rparr>" "flavors_hidden (rr_clip r) c" by (auto simp: result_hidden_def)
  then show "(\<not> rr_query_pinned r, \<not> clip_pinned (rr_clip r), - rr_score r, rr_source_index r) =
      (\<not> rr_query_pinned s, \<not> clip_pinned (rr_clip s), - rr_score s, rr_source_index s)"
    using flavors_hidden_facts(4) [OF s(2)] by simp
qed

definition sample_hidden_clip :: "string \<Rightarrow> clip" where
  "sample_hidden_clip body = \<lparr>clip_id = 7, clip_flavors = [flavor_inline ''text/plain'' body], clip_content_hash = [],
     clip_meta = (clip_meta_now 0 TextKind 2 None)\<lparr>cm_sensitive := True\<rparr>, clip_pinned = False, clip_favorite = False\<rparr>"

definition sample_search_env :: search_env where
  "sample_search_env = \<lparr>se_lower = to_ascii_lowercase, se_alphabetic = (\<lambda>_. True), se_alphanumeric = (\<lambda>_. True)\<rparr>"

definition sample_recall_context :: search_context where
  "sample_recall_context = \<lparr>cx_current_app = None, cx_aliases = None, cx_affinity = None, cx_tags = None, cx_query_pins = None, cx_scope = None\<rparr>"

lemma search_ignores_sensitive_contents_witness:
  "sample_hidden_clip ''ab'' \<noteq> sample_hidden_clip ''xy'' \<and>
   map rr_score (search_recall id sample_search_env [sample_hidden_clip ''ab''] (natural_default\<lparr>nq_text := ''ab''\<rparr>) sample_recall_context) =
   map rr_score (search_recall id sample_search_env [sample_hidden_clip ''xy''] (natural_default\<lparr>nq_text := ''ab''\<rparr>) sample_recall_context)"
proof -
  have "list_all2 flavors_hidden [sample_hidden_clip ''ab''] [sample_hidden_clip ''xy'']"
    by (auto simp: flavors_hidden_def sample_hidden_clip_def)
  note same = search_ignores_sensitive_contents [OF this, of id sample_search_env "natural_default\<lparr>nq_text := ''ab''\<rparr>" sample_recall_context]
  have score: "rr_score r = rr_score s" if "result_hidden r s" for r s
  proof -
    have "s = r\<lparr>rr_clip := rr_clip s\<rparr>" using that unfolding result_hidden_def by blast
    then show ?thesis by (metis recall_result.select_convs(2) recall_result.surjective recall_result.update_convs(1))
  qed
  have "map rr_score rs = map rr_score ss" if "list_all2 result_hidden rs ss" for rs ss
    using that by (induction rule: list_all2_induct) (simp_all add: score)
  from this [OF same] show ?thesis by (simp add: sample_hidden_clip_def flavor_inline_def)
qed

section \<open>Where a clip came from\<close>

text \<open>A parsed URL of the \<open>url\<close> crate, and \<open>Path::is_absolute\<close>, are parameters.\<close>

record url_parts =
  up_scheme :: string
  up_host :: "string option"
  up_username :: string
  up_password :: "string option"

definition SOURCE_MAX_URL_BYTES :: nat where "SOURCE_MAX_URL_BYTES = 16 * 1024"
definition MAX_PATH_BYTES :: nat where "MAX_PATH_BYTES = 32 * 1024"
definition MAX_APP_BYTES :: nat where "MAX_APP_BYTES = 512"

datatype find_source = OpenUrl string | RevealFile string | ActivateApplication string

fun source_kind :: "find_source \<Rightarrow> string" where
  "source_kind (OpenUrl _) = ''open_url''"
| "source_kind (RevealFile _) = ''reveal_file''"
| "source_kind (ActivateApplication _) = ''activate_application''"

fun source_target :: "find_source \<Rightarrow> string" where
  "source_target (OpenUrl v) = v"
| "source_target (RevealFile v) = v"
| "source_target (ActivateApplication v) = v"

definition source_valid_url :: "(string \<Rightarrow> url_parts option) \<Rightarrow> string \<Rightarrow> bool" where
  "source_valid_url url_parse raw \<longleftrightarrow>
     (if raw = [] \<or> length raw > SOURCE_MAX_URL_BYTES then False
      else (case url_parse raw of None \<Rightarrow> False
        | Some u \<Rightarrow> (up_scheme u = ''http'' \<or> up_scheme u = ''https'') \<and> up_host u \<noteq> None \<and> up_username u = [] \<and> up_password u = None))"

definition source_valid_path :: "(string \<Rightarrow> bool) \<Rightarrow> string \<Rightarrow> bool" where
  "source_valid_path is_absolute raw \<longleftrightarrow> raw \<noteq> [] \<and> length raw \<le> MAX_PATH_BYTES \<and> \<not> has_control raw \<and> is_absolute raw"

definition source_valid_app :: "string \<Rightarrow> bool" where
  "source_valid_app raw \<longleftrightarrow> trim raw \<noteq> [] \<and> length raw \<le> MAX_APP_BYTES \<and> \<not> has_control raw"

definition find_source_action :: "(string \<Rightarrow> url_parts option) \<Rightarrow> (string \<Rightarrow> bool) \<Rightarrow> clip \<Rightarrow> find_source option" where
  "find_source_action url_parse is_absolute c =
     (let p = cm_provenance (clip_meta c) in
      case (case cp_source_url p of Some raw \<Rightarrow> if source_valid_url url_parse raw then Some raw else None | None \<Rightarrow> None) of
        Some raw \<Rightarrow> Some (OpenUrl raw)
      | None \<Rightarrow> (case (case cp_document_path p of Some path \<Rightarrow> if source_valid_path is_absolute path then Some path else None | None \<Rightarrow> None) of
          Some path \<Rightarrow> Some (RevealFile path)
        | None \<Rightarrow> (case (case cp_app_id p of Some app \<Rightarrow> Some app | None \<Rightarrow> cm_source_app (clip_meta c)) of
            None \<Rightarrow> None
          | Some app \<Rightarrow> if source_valid_app app then Some (ActivateApplication app) else None)))"

text \<open>A URL that is opened carries no credentials, and a file that is revealed has an absolute path without control characters.\<close>

lemma source_action_safe:
  "find_source_action url_parse is_absolute c = Some (OpenUrl raw) \<Longrightarrow>
     \<exists>u. url_parse raw = Some u \<and> up_username u = [] \<and> up_password u = None \<and> up_scheme u \<in> {''http'', ''https''}"
  "find_source_action url_parse is_absolute c = Some (RevealFile path) \<Longrightarrow> is_absolute path \<and> \<not> has_control path"
  by (auto simp: find_source_action_def source_valid_url_def source_valid_path_def Let_def split: option.splits if_splits)

end
