(* ===== verification/Snippet_Mirror.thy ===== *)
theory Snippet_Mirror
  imports Webhook Validation
begin

text \<open>
  The one-way snippet mirror between editors, \<open>crates/vbuff-ipc/src/integration/automation/snippets.rs\<close>: the manifest of
  what both sides last agreed on, the planner that compares source, target and manifest key by key, and the update of the
  manifest after a batch was applied. BLAKE3 is an argument. Applying a batch to the target is the editor's part; its
  reference here is \<open>mirror_target\<close>.
\<close>

section \<open>Manifests and records\<close>

datatype snippet_synced_state = SyncedPresent bytes | SyncedDeleted

record snippet_sync_manifest =
  sm_entries :: "(string, snippet_synced_state) btree"

record snippet_mirror_record =
  mr_key :: string
  mr_content_hash :: bytes
  mr_revision :: u64

datatype snippet_mirror_action = UpsertTarget | DeleteTarget | MirrorConflict

record snippet_mirror_operation =
  mo_key_hash :: bytes
  mo_action :: snippet_mirror_action
  mo_source_revision :: u64
  mo_target_revision :: u64

definition SNIPPET_MANIFEST_HASH_DOMAIN :: bytes where
  "SNIPPET_MANIFEST_HASH_DOMAIN = ''vbuff-snippet-manifest-v1'' @ [CHR 0x00]"

definition MAX_SNIPPET_MANIFEST_ENTRIES :: nat where "MAX_SNIPPET_MANIFEST_ENTRIES = 10000"

definition manifest_empty :: snippet_sync_manifest where
  "manifest_empty = \<lparr>sm_entries = []\<rparr>"

fun synced_bytes :: "snippet_synced_state \<Rightarrow> bytes" where
  "synced_bytes (SyncedPresent h) = CHR 0x00 # h"
| "synced_bytes SyncedDeleted = [CHR 0x01]"

definition manifest_entry_bytes :: "string \<times> snippet_synced_state \<Rightarrow> bytes" where
  "manifest_entry_bytes e = u64_le (of_nat (length (fst e))) @ fst e @ synced_bytes (snd e)"

definition manifest_preimage :: "snippet_sync_manifest \<Rightarrow> bytes" where
  "manifest_preimage m = SNIPPET_MANIFEST_HASH_DOMAIN @ u64_le (of_nat (length (sm_entries m))) @ concat (map manifest_entry_bytes (sm_entries m))"

definition manifest_compute_hash :: "(bytes \<Rightarrow> bytes) \<Rightarrow> snippet_sync_manifest \<Rightarrow> bytes" where
  "manifest_compute_hash blake3 m = blake3 (manifest_preimage m)"

definition manifest_entry_ok :: "string \<times> snippet_synced_state \<Rightarrow> bool" where
  "manifest_entry_ok e \<longleftrightarrow> is_valid_label (fst e) 128 \<and> (case snd e of SyncedPresent h \<Rightarrow> \<not> all_zero h | SyncedDeleted \<Rightarrow> True)"

definition snippet_manifest_validate :: "snippet_sync_manifest \<Rightarrow> integration_error + unit" where
  "snippet_manifest_validate m =
     try_then (require (length (sm_entries m) \<le> MAX_SNIPPET_MANIFEST_ENTRIES) InvalidField) (\<lambda>_.
     require (list_all manifest_entry_ok (sm_entries m)) InvalidField)"

fun snippet_map_from ::
  "(string, snippet_mirror_record) btree \<Rightarrow> snippet_mirror_record list \<Rightarrow> integration_error + (string, snippet_mirror_record) btree" where
  "snippet_map_from acc [] = Inr acc"
| "snippet_map_from acc (r # rs) =
     (if \<not> is_valid_label (mr_key r) 128 \<or> all_zero (mr_content_hash r) \<or> bt_contains acc (mr_key r) then Inl InvalidField
      else snippet_map_from (bt_insert (mr_key r) r acc) rs)"

definition snippet_map :: "snippet_mirror_record list \<Rightarrow> integration_error + (string, snippet_mirror_record) btree" where
  "snippet_map rs = snippet_map_from [] rs"

section \<open>Applying a batch to the manifest\<close>

text \<open>Later records replace earlier ones of the same key hash.\<close>

fun keys_by_hash :: "(bytes \<Rightarrow> bytes) \<Rightarrow> snippet_mirror_record list \<Rightarrow> bytes \<rightharpoonup> string" where
  "keys_by_hash blake3 [] = Map.empty"
| "keys_by_hash blake3 (r # rs) = [blake3 (mr_key r) \<mapsto> mr_key r] ++ keys_by_hash blake3 rs"

definition apply_operation ::
  "(bytes \<rightharpoonup> string) \<Rightarrow> (string, snippet_mirror_record) btree \<Rightarrow> snippet_sync_manifest \<Rightarrow> snippet_mirror_operation \<Rightarrow>
     integration_error + snippet_sync_manifest" where
  "apply_operation keys source m op = (case mo_action op of
       UpsertTarget \<Rightarrow> (case Option.bind (keys (mo_key_hash op)) (map_of source) of None \<Rightarrow> Inl InvalidField
         | Some r \<Rightarrow> Inr (m\<lparr>sm_entries := bt_insert (mr_key r) (SyncedPresent (mr_content_hash r)) (sm_entries m)\<rparr>))
     | DeleteTarget \<Rightarrow> (case keys (mo_key_hash op) of None \<Rightarrow> Inl InvalidField
         | Some key \<Rightarrow> Inr (m\<lparr>sm_entries := bt_insert key SyncedDeleted (sm_entries m)\<rparr>))
     | MirrorConflict \<Rightarrow> Inr m)"

fun apply_operations ::
  "(bytes \<rightharpoonup> string) \<Rightarrow> (string, snippet_mirror_record) btree \<Rightarrow> snippet_sync_manifest \<Rightarrow> snippet_mirror_operation list \<Rightarrow>
     integration_error + snippet_sync_manifest" where
  "apply_operations keys source m [] = Inr m"
| "apply_operations keys source m (op # ops) = try_then (apply_operation keys source m op) (\<lambda>m'. apply_operations keys source m' ops)"

definition manifest_applied ::
  "(bytes \<Rightarrow> bytes) \<Rightarrow> snippet_sync_manifest \<Rightarrow> snippet_mirror_operation list \<Rightarrow> snippet_mirror_record list \<Rightarrow>
     snippet_mirror_record list \<Rightarrow> integration_error + snippet_sync_manifest" where
  "manifest_applied blake3 m ops source target =
     try_then (require (length ops \<le> MAX_SNIPPET_MANIFEST_ENTRIES) InvalidField) (\<lambda>_.
     try_then (snippet_map source) (\<lambda>s.
     try_then (snippet_map target) (\<lambda>t.
     try_then (apply_operations (keys_by_hash blake3 (map snd s @ map snd t)) s m ops) (\<lambda>next_m.
     try_then (snippet_manifest_validate next_m) (\<lambda>_. Inr next_m)))))"

section \<open>The cursor\<close>

record snippet_bridge_cursor =
  sc_adapter :: string
  sc_source_revision :: u64
  sc_target_revision :: u64
  sc_last_manifest_hash :: bytes
  sc_manifest :: snippet_sync_manifest

definition cursor_valid :: "snippet_bridge_cursor \<Rightarrow> integration_error + unit" where
  "cursor_valid c = require (is_valid_identifier (sc_adapter c) 64 \<and> \<not> all_zero (sc_last_manifest_hash c)) InvalidField"

definition cursor_accepts :: "snippet_bridge_cursor \<Rightarrow> u64 \<Rightarrow> u64 \<Rightarrow> bool" where
  "cursor_accepts c source target \<longleftrightarrow> is_ok (cursor_valid c) \<and> sc_source_revision c \<le> source \<and> sc_target_revision c \<le> target \<and>
     (sc_source_revision c < source \<or> sc_target_revision c < target)"

definition trusted_manifest :: "(bytes \<Rightarrow> bytes) \<Rightarrow> snippet_bridge_cursor \<Rightarrow> snippet_sync_manifest option" where
  "trusted_manifest blake3 c = (if is_ok (snippet_manifest_validate (sc_manifest c)) \<and>
     manifest_compute_hash blake3 (sc_manifest c) = sc_last_manifest_hash c then Some (sc_manifest c) else None)"

section \<open>The planner\<close>

text \<open>What is planned for one key, \<open>None\<close> for nothing, with the revisions of both sides.\<close>

fun mirror_action ::
  "snippet_synced_state option \<Rightarrow> snippet_mirror_record option \<Rightarrow> snippet_mirror_record option \<Rightarrow>
     (snippet_mirror_action \<times> u64 \<times> u64) option" where
  "mirror_action synced (Some l) None = Some (case synced of Some (SyncedPresent h) \<Rightarrow> MirrorConflict | _ \<Rightarrow> UpsertTarget, mr_revision l, 0)"
| "mirror_action synced None (Some r) = Some (case synced of
       Some (SyncedPresent h) \<Rightarrow> if h = mr_content_hash r then DeleteTarget else MirrorConflict | _ \<Rightarrow> MirrorConflict, 0, mr_revision r)"
| "mirror_action synced (Some l) (Some r) = (if mr_content_hash l = mr_content_hash r then None else Some (case synced of
       Some (SyncedPresent h) \<Rightarrow> if h = mr_content_hash r then UpsertTarget else MirrorConflict | _ \<Rightarrow> MirrorConflict,
       mr_revision l, mr_revision r))"
| "mirror_action synced None None = None"

definition synced_state :: "snippet_sync_manifest option \<Rightarrow> string \<Rightarrow> snippet_synced_state option" where
  "synced_state base key = (case base of None \<Rightarrow> None | Some m \<Rightarrow> map_of (sm_entries m) key)"

definition plan_key ::
  "(bytes \<Rightarrow> bytes) \<Rightarrow> (string \<rightharpoonup> snippet_mirror_record) \<Rightarrow> (string \<rightharpoonup> snippet_mirror_record) \<Rightarrow> snippet_sync_manifest option \<Rightarrow>
     string \<Rightarrow> snippet_mirror_operation list" where
  "plan_key blake3 s t base key = (case mirror_action (synced_state base key) (s key) (t key) of
       None \<Rightarrow> [] | Some (action, sr, tr) \<Rightarrow>
         [\<lparr>mo_key_hash = blake3 key, mo_action = action, mo_source_revision = sr, mo_target_revision = tr\<rparr>])"

definition plan_snippet_mirror ::
  "(bytes \<Rightarrow> bytes) \<Rightarrow> snippet_mirror_record list \<Rightarrow> snippet_mirror_record list \<Rightarrow> snippet_sync_manifest option \<Rightarrow>
     integration_error + snippet_mirror_operation list" where
  "plan_snippet_mirror blake3 source target base =
     try_then (require (length source \<le> 10000 \<and> length target \<le> 10000) InvalidField) (\<lambda>_.
     try_then (snippet_map source) (\<lambda>s.
     try_then (snippet_map target) (\<lambda>t.
     Inr (concat (map (plan_key blake3 (map_of s) (map_of t) base) (sorted_list_of_set (set (map fst s) \<union> set (map fst t))))))))"

section \<open>Registers of an editor\<close>

datatype vim_register_action = ReadHistoryRegister | AddYank

record vim_register_request =
  vr_namespace :: string
  vr_slot :: u16
  vr_action :: vim_register_action

definition vim_register_validate :: "vim_register_request \<Rightarrow> integration_error + unit" where
  "vim_register_validate r = require (vr_namespace r = ''vbuff'' \<and> vr_slot r \<le> 999 \<and> \<not> (vr_action r = AddYank \<and> vr_slot r \<noteq> 0)) InvalidField"

section \<open>The maps of both sides\<close>

lemma snippet_map_from_Inr:
  "snippet_map_from acc rs = Inr m \<Longrightarrow> bt_ok acc \<Longrightarrow> (\<And>k r. map_of acc k = Some r \<Longrightarrow> mr_key r = k) \<Longrightarrow>
     bt_ok m \<and> (\<forall>k r. map_of m k = Some r \<longrightarrow> mr_key r = k \<and> (map_of acc k = Some r \<or> r \<in> set rs))"
proof (induction rs arbitrary: acc)
  case (Cons r rs)
  let ?acc = "bt_insert (mr_key r) r acc"
  have "snippet_map_from ?acc rs = Inr m"
    using Cons.prems(1) by (auto split: if_splits)
  moreover have "bt_ok ?acc" using Cons.prems(2) by simp
  moreover have "mr_key q = k" if "map_of ?acc k = Some q" for k q
    using that Cons.prems(3) [of k q] by (simp split: if_splits)
  ultimately have ih: "bt_ok m \<and> (\<forall>k q. map_of m k = Some q \<longrightarrow> mr_key q = k \<and> (map_of ?acc k = Some q \<or> q \<in> set rs))"
    by (rule Cons.IH)
  show ?case
  proof (intro conjI allI impI)
    show "bt_ok m" using ih by simp
  next
    fix k q assume "map_of m k = Some q"
    with ih have "mr_key q = k" "map_of ?acc k = Some q \<or> q \<in> set rs" by simp_all
    then show "mr_key q = k" "map_of acc k = Some q \<or> q \<in> set (r # rs)" by (auto split: if_splits)
  qed
qed auto

lemma snippet_map_Inr:
  assumes "snippet_map rs = Inr m"
  shows "bt_ok m" and "map_of m k = Some r \<Longrightarrow> mr_key r = k" and "map_of m k = Some r \<Longrightarrow> r \<in> set rs"
  using snippet_map_from_Inr[of "[]" rs m] assms by (auto simp: snippet_map_def)

lemma keys_by_hash_inj:
  "(\<And>r. r \<in> set rs \<Longrightarrow> blake3 (mr_key r) = blake3 key \<Longrightarrow> mr_key r = key) \<Longrightarrow> \<exists>r \<in> set rs. mr_key r = key \<Longrightarrow>
     keys_by_hash blake3 rs (blake3 key) = Some key"
proof (induction rs)
  case (Cons r rs)
  show ?case
  proof (cases "\<exists>r \<in> set rs. mr_key r = key")
    case True
    then have "keys_by_hash blake3 rs (blake3 key) = Some key"
      using Cons by simp
    then show ?thesis by (simp add: map_add_def)
  next
    case False
    moreover have "keys_by_hash blake3 rs (blake3 key) = None"
    proof -
      have "keys_by_hash blake3 qs h = None" if "\<forall>q \<in> set qs. blake3 (mr_key q) \<noteq> h" for qs h
        using that by (induction qs) auto
      then show ?thesis using Cons.prems(1) False by auto
    qed
    ultimately show ?thesis using Cons.prems by (auto simp: map_add_def)
  qed
qed simp

definition sides_keys ::
  "(string, snippet_mirror_record) btree \<Rightarrow> (string, snippet_mirror_record) btree \<Rightarrow> string list" where
  "sides_keys s t = sorted_list_of_set (set (map fst s) \<union> set (map fst t))"

lemma sides_keys_iff: "k \<in> set (sides_keys s t) \<longleftrightarrow> map_of s k \<noteq> None \<or> map_of t k \<noteq> None"
  by (auto simp: sides_keys_def map_of_eq_None_iff)

lemma plan_Inr:
  "plan_snippet_mirror blake3 source target base = Inr ops \<longleftrightarrow>
     length source \<le> 10000 \<and> length target \<le> 10000 \<and> (\<exists>s t. snippet_map source = Inr s \<and> snippet_map target = Inr t \<and>
       ops = concat (map (plan_key blake3 (map_of s) (map_of t) base) (sides_keys s t)))"
  by (auto simp: plan_snippet_mirror_def try_then_eq_Inr require_Inr sides_keys_def)

section \<open>The target after a batch\<close>

text \<open>What an editor makes of a batch: the operations name their keys by hash.\<close>

fun mirror_target ::
  "(bytes \<Rightarrow> bytes) \<Rightarrow> (string \<rightharpoonup> snippet_mirror_record) \<Rightarrow> (string \<rightharpoonup> snippet_mirror_record) \<Rightarrow> snippet_mirror_operation list \<Rightarrow>
     string \<rightharpoonup> snippet_mirror_record" where
  "mirror_target blake3 s t [] = t"
| "mirror_target blake3 s t (op # ops) = mirror_target blake3 s (case mo_action op of
       UpsertTarget \<Rightarrow> \<lambda>k. if blake3 k = mo_key_hash op then s k else t k
     | DeleteTarget \<Rightarrow> \<lambda>k. if blake3 k = mo_key_hash op then None else t k
     | MirrorConflict \<Rightarrow> t) ops"

text \<open>The state of one key after the action planned for it: in the target, and in the manifest.\<close>

definition target_after :: "(snippet_mirror_action \<times> u64 \<times> u64) option \<Rightarrow> snippet_mirror_record option \<Rightarrow> snippet_mirror_record option \<Rightarrow>
    snippet_mirror_record option" where
  "target_after planned l r = (case planned of Some (UpsertTarget, _) \<Rightarrow> l | Some (DeleteTarget, _) \<Rightarrow> None | _ \<Rightarrow> r)"

definition synced_after :: "(snippet_mirror_action \<times> u64 \<times> u64) option \<Rightarrow> snippet_mirror_record option \<Rightarrow> snippet_synced_state option \<Rightarrow>
    snippet_synced_state option" where
  "synced_after planned l old = (case planned of
      Some (UpsertTarget, _) \<Rightarrow> map_option (SyncedPresent \<circ> mr_content_hash) l | Some (DeleteTarget, _) \<Rightarrow> Some SyncedDeleted | _ \<Rightarrow> old)"

lemma mirror_target_cong: "t k = t' k \<Longrightarrow> mirror_target blake3 s t ops k = mirror_target blake3 s t' ops k"
proof (induction ops arbitrary: t t')
  case (Cons op ops)
  show ?case by (cases "mo_action op") (simp_all, (rule Cons.IH, simp add: Cons.prems)+)
qed simp

lemma mirror_target_append: "mirror_target blake3 s t (xs @ ys) = mirror_target blake3 s (mirror_target blake3 s t xs) ys"
  by (induction xs arbitrary: t) auto

lemma mirror_target_other:
  "(\<forall>op \<in> set ops. mo_key_hash op \<noteq> blake3 k) \<Longrightarrow> mirror_target blake3 s t ops k = t k"
  by (induction ops arbitrary: t) (auto split: snippet_mirror_action.split)

lemma mirror_target_absent: "s k = None \<Longrightarrow> t k = None \<Longrightarrow> mirror_target blake3 s t ops k = None"
  by (induction ops arbitrary: t) (auto split: snippet_mirror_action.split)

lemma plan_key_hash: "op \<in> set (plan_key blake3 s t base k) \<Longrightarrow> mo_key_hash op = blake3 k"
  by (auto simp: plan_key_def split: option.splits)

lemma target_of_plan:
  assumes "distinct ks" and "inj_on blake3 (set ks)" and "k \<in> set ks"
  shows "mirror_target blake3 s t (concat (map (plan_key blake3 s t base) ks)) k =
    target_after (mirror_action (synced_state base k) (s k) (t k)) (s k) (t k)"
proof -
  obtain xs ys where ks: "ks = xs @ k # ys" using split_list[OF assms(3)] by blast
  have other: "\<forall>op \<in> set (concat (map (plan_key blake3 s t base) zs)). mo_key_hash op \<noteq> blake3 k"
    if "set zs \<subseteq> set ks - {k}" for zs
  proof
    fix op assume "op \<in> set (concat (map (plan_key blake3 s t base) zs))"
    then obtain z where z: "z \<in> set zs" "mo_key_hash op = blake3 z" by (auto dest: plan_key_hash)
    with that have "z \<noteq> k" "z \<in> set ks" by auto
    with inj_onD[OF assms(2), of z k] assms(3) z(2) show "mo_key_hash op \<noteq> blake3 k" by auto
  qed
  have xs: "set xs \<subseteq> set ks - {k}" and ys: "set ys \<subseteq> set ks - {k}"
    using assms(1) by (auto simp: ks)
  have "mirror_target blake3 s t (concat (map (plan_key blake3 s t base) ks)) k =
      mirror_target blake3 s t (plan_key blake3 s t base k) k"
    unfolding ks map_append concat_append list.map concat.simps mirror_target_append
    by (subst mirror_target_other [where k = k and ?blake3.0 = blake3], rule other [OF ys])
      (rule mirror_target_cong, rule mirror_target_other [where k = k and ?blake3.0 = blake3], rule other [OF xs])
  also have "\<dots> = target_after (mirror_action (synced_state base k) (s k) (t k)) (s k) (t k)"
    by (auto simp: plan_key_def target_after_def split: option.split snippet_mirror_action.split)
  finally show ?thesis .
qed

section \<open>The manifest after a batch\<close>

lemma apply_operation_lookup:
  assumes "apply_operation keys s m op = Inr m'" and "keys (mo_key_hash op) = Some k0" and "\<And>k r. map_of s k = Some r \<Longrightarrow> mr_key r = k"
  shows "map_of (sm_entries m') k = (if k = k0 then synced_after (Some (mo_action op, z)) (map_of s k) (map_of (sm_entries m) k)
    else map_of (sm_entries m) k)"
  using assms(1,2) assms(3) [of k0]
  by (cases "mo_action op") (auto simp: apply_operation_def synced_after_def split: option.splits)

lemma applied_plan:
  assumes "apply_operations keys s m (concat (map (plan_key blake3 (map_of s) t base) ks)) = Inr m'" and "distinct ks"
    and "\<forall>k \<in> set ks. keys (blake3 k) = Some k" and key: "\<And>k r. map_of s k = Some r \<Longrightarrow> mr_key r = k"
  shows "map_of (sm_entries m') k = (if k \<in> set ks
    then synced_after (mirror_action (synced_state base k) (map_of s k) (t k)) (map_of s k) (map_of (sm_entries m) k)
    else map_of (sm_entries m) k)"
  using assms(1-3)
proof (induction ks arbitrary: m)
  case (Cons k0 ks)
  show ?case
  proof (cases "mirror_action (synced_state base k0) (map_of s k0) (t k0)")
    case None
    then have "plan_key blake3 (map_of s) t base k0 = []" by (simp add: plan_key_def)
    with Cons None show ?thesis by (auto simp: synced_after_def)
  next
    case (Some z)
    then obtain a sr tr where z: "z = (a, sr, tr)" by (cases z)
    let ?op = "\<lparr>mo_key_hash = blake3 k0, mo_action = a, mo_source_revision = sr, mo_target_revision = tr\<rparr>"
    have "plan_key blake3 (map_of s) t base k0 = [?op]" using Some z by (simp add: plan_key_def)
    with Cons.prems(1) obtain m1 where m1: "apply_operation keys s m ?op = Inr m1"
      "apply_operations keys s m1 (concat (map (plan_key blake3 (map_of s) t base) ks)) = Inr m'"
      by (auto simp: try_then_eq_Inr)
    have ih: "map_of (sm_entries m') k = (if k \<in> set ks
      then synced_after (mirror_action (synced_state base k) (map_of s k) (t k)) (map_of s k) (map_of (sm_entries m1) k)
      else map_of (sm_entries m1) k)"
      using Cons.IH [OF m1(2)] Cons.prems(2,3) by simp
    have "map_of (sm_entries m1) k = (if k = k0 then synced_after (Some (mo_action ?op, sr, tr)) (map_of s k) (map_of (sm_entries m) k)
      else map_of (sm_entries m) k)"
      by (rule apply_operation_lookup [OF m1(1)]) (use Cons.prems(3) key in auto)
    with ih Some z Cons.prems(2) show ?thesis by auto
  qed
qed simp

lemma sorted_list_filter_set:
  assumes "finite A" and "B \<subseteq> A"
  shows "sorted_list_of_set B = filter (\<lambda>x. x \<in> B) (sorted_list_of_set A)"
proof (rule sorted_distinct_set_unique)
  show "set (sorted_list_of_set B) = set (filter (\<lambda>x. x \<in> B) (sorted_list_of_set A))"
    using assms by (auto simp: finite_subset)
qed (auto simp: sorted_wrt_filter)

lemma concat_map_filter: "(\<And>x. x \<in> set xs \<Longrightarrow> \<not> P x \<Longrightarrow> f x = []) \<Longrightarrow> concat (map f (filter P xs)) = concat (map f xs)"
  by (induction xs) auto

text \<open>The action of a key that was settled is not planned again; a conflict is planned again as it was.\<close>

lemma mirror_action_settled:
  assumes planned_def: "planned = mirror_action old l r"
  shows "mirror_action (synced_after planned l old) l (target_after planned l r) =
    (case planned of Some (MirrorConflict, _) \<Rightarrow> planned | _ \<Rightarrow> None)"
  unfolding planned_def
  by (cases l; cases r) (auto simp: synced_after_def target_after_def split: option.splits snippet_synced_state.splits)

section \<open>Properties\<close>

text \<open>
  C38. One cycle of the mirror settles everything it decided: after the editor applied the planned batch and the manifest was
  updated by \<open>applied\<close>, planning the same source against the new target plans exactly the conflicts of the first plan
  again, as they were, and nothing else. So no snippet is written or deleted twice, and no conflict is lost by the update
  of the manifest.
\<close>

theorem mirror_settles:
  assumes plan: "plan_snippet_mirror blake3 source target (Some m) = Inr ops"
    and applied: "manifest_applied blake3 m ops source target = Inr m'"
    and after: "snippet_map target' = Inr t'" "length target' \<le> 10000"
    and edited: "\<And>s t. snippet_map source = Inr s \<Longrightarrow> snippet_map target = Inr t \<Longrightarrow> map_of t' = mirror_target blake3 (map_of s) (map_of t) ops"
    and hash: "inj_on blake3 (mr_key ` (set source \<union> set target))"
  shows "plan_snippet_mirror blake3 source target' (Some m') = Inr (filter (\<lambda>op. mo_action op = MirrorConflict) ops)"
proof -
  from plan obtain s t where s: "snippet_map source = Inr s" and t: "snippet_map target = Inr t" and len: "length source \<le> 10000"
    and ops: "ops = concat (map (plan_key blake3 (map_of s) (map_of t) (Some m)) (sides_keys s t))"
    by (auto simp: plan_Inr)
  let ?ks = "sides_keys s t" and ?keys = "keys_by_hash blake3 (map snd s @ map snd t)"
  let ?plan = "\<lambda>k. mirror_action (synced_state (Some m) k) (map_of s k) (map_of t k)"
  have dist: "distinct ?ks" by (simp add: sides_keys_def)
  note recs = snippet_map_Inr [OF s] snippet_map_Inr [OF t]
  have records: "mr_key q \<in> mr_key ` (set source \<union> set target)" if "q \<in> set (map snd s @ map snd t)" for q
    using that recs by (fastforce simp: map_of_eq_Some_iff bt_ok_distinct)
  have ks: "k \<in> mr_key ` (set source \<union> set target) \<and> (\<exists>q \<in> set (map snd s @ map snd t). mr_key q = k)" if k: "k \<in> set ?ks" for k
  proof -
    from k obtain q where "map_of s k = Some q \<or> map_of t k = Some q" by (auto simp: sides_keys_iff)
    then have "mr_key q = k" "q \<in> set (map snd s @ map snd t)"
      using recs(2,5) by (auto intro: image_eqI [OF _ map_of_SomeD, rotated])
    with records show ?thesis by blast
  qed
  have inj: "inj_on blake3 (set ?ks)" by (rule inj_on_subset [OF hash]) (use ks in blast)
  have keys: "?keys (blake3 k) = Some k" if k: "k \<in> set ?ks" for k
    by (rule keys_by_hash_inj) (use ks [OF k] records inj_onD [OF hash] in blast)+
  have t': "map_of t' k = target_after (?plan k) (map_of s k) (map_of t k)" if "k \<in> set ?ks" for k
    unfolding edited [OF s t] ops by (rule target_of_plan [OF dist inj that])
  have outside: "map_of s k = None \<and> map_of t k = None \<and> map_of t' k = None" if "k \<notin> set ?ks" for k
    using that edited [OF s t] by (auto simp: sides_keys_iff mirror_target_absent)
  from applied s t have "apply_operations ?keys s m ops = Inr m'"
    by (auto simp: manifest_applied_def try_then_eq_Inr)
  from applied_plan [OF this [unfolded ops] dist] keys recs(2)
  have m': "synced_state (Some m') k = synced_after (?plan k) (map_of s k) (synced_state (Some m) k)" if "k \<in> set ?ks" for k
    using that by (simp add: synced_state_def)
  have again: "plan_key blake3 (map_of s) (map_of t') (Some m') k =
      filter (\<lambda>op. mo_action op = MirrorConflict) (plan_key blake3 (map_of s) (map_of t) (Some m) k)" if "k \<in> set ?ks" for k
    unfolding plan_key_def m' [OF that] t' [OF that] mirror_action_settled [OF refl]
    by (auto split: option.split snippet_mirror_action.split)
  have sub: "set (map fst s) \<union> set (map fst t') \<subseteq> set (map fst s) \<union> set (map fst t)"
  proof
    fix k assume "k \<in> set (map fst s) \<union> set (map fst t')"
    then have "map_of s k \<noteq> None \<or> map_of t' k \<noteq> None" by (auto simp: map_of_eq_None_iff)
    with outside [of k] have "k \<in> set ?ks" by blast
    then show "k \<in> set (map fst s) \<union> set (map fst t)" by (simp add: sides_keys_def)
  qed
  have "sides_keys s t' = filter (\<lambda>k. k \<in> set (map fst s) \<union> set (map fst t')) ?ks"
    unfolding sides_keys_def by (rule sorted_list_filter_set [OF _ sub]) simp
  then have "concat (map (plan_key blake3 (map_of s) (map_of t') (Some m')) (sides_keys s t')) =
      concat (map (plan_key blake3 (map_of s) (map_of t') (Some m')) ?ks)"
    by (simp only:) (rule concat_map_filter, auto simp: plan_key_def map_of_eq_None_iff [symmetric])
  also have "\<dots> = concat (map (\<lambda>k. filter (\<lambda>op. mo_action op = MirrorConflict) (plan_key blake3 (map_of s) (map_of t) (Some m) k)) ?ks)"
    using again by (metis (no_types, lifting) map_cong)
  also have "\<dots> = filter (\<lambda>op. mo_action op = MirrorConflict) ops"
    by (simp add: ops filter_concat comp_def)
  finally show ?thesis
    using s after len by (simp add: plan_Inr)
qed

lemma snippet_labels: "is_valid_label ''a'' 128" "is_valid_label ''b'' 128" "is_valid_label ''c'' 128"
  by (simp_all add: is_valid_label_def has_control_ascii)

lemma snippet_single: "is_valid_label k 128 \<Longrightarrow> \<not> all_zero h \<Longrightarrow>
    snippet_map [\<lparr>mr_key = k, mr_content_hash = h, mr_revision = n\<rparr>] = Inr [(k, \<lparr>mr_key = k, mr_content_hash = h, mr_revision = n\<rparr>)]"
  by (simp add: snippet_map_def bt_contains_def)

lemma snippet_pair: "is_valid_label k 128 \<Longrightarrow> \<not> all_zero h \<Longrightarrow> is_valid_label k' 128 \<Longrightarrow> \<not> all_zero h' \<Longrightarrow> k < k' \<Longrightarrow>
    snippet_map [\<lparr>mr_key = k, mr_content_hash = h, mr_revision = n\<rparr>, \<lparr>mr_key = k', mr_content_hash = h', mr_revision = n'\<rparr>] =
      Inr [(k, \<lparr>mr_key = k, mr_content_hash = h, mr_revision = n\<rparr>), (k', \<lparr>mr_key = k', mr_content_hash = h', mr_revision = n'\<rparr>)]"
  by (auto simp: snippet_map_def bt_contains_def)

text \<open>A source, a target and a manifest with one key to insert, one to delete and one in conflict.\<close>

definition demo_source :: "snippet_mirror_record list" where
  "demo_source = [\<lparr>mr_key = ''a'', mr_content_hash = ''h1'', mr_revision = 4\<rparr>, \<lparr>mr_key = ''c'', mr_content_hash = ''h2'', mr_revision = 5\<rparr>]"

definition demo_target :: "snippet_mirror_record list" where
  "demo_target = [\<lparr>mr_key = ''b'', mr_content_hash = ''h3'', mr_revision = 1\<rparr>, \<lparr>mr_key = ''c'', mr_content_hash = ''h9'', mr_revision = 2\<rparr>]"

definition demo_next :: "snippet_mirror_record list" where
  "demo_next = [\<lparr>mr_key = ''a'', mr_content_hash = ''h1'', mr_revision = 4\<rparr>, \<lparr>mr_key = ''c'', mr_content_hash = ''h9'', mr_revision = 2\<rparr>]"

definition demo_ops :: "snippet_mirror_operation list" where
  "demo_ops = [\<lparr>mo_key_hash = ''a'', mo_action = UpsertTarget, mo_source_revision = 4, mo_target_revision = 0\<rparr>,
    \<lparr>mo_key_hash = ''b'', mo_action = DeleteTarget, mo_source_revision = 0, mo_target_revision = 1\<rparr>,
    \<lparr>mo_key_hash = ''c'', mo_action = MirrorConflict, mo_source_revision = 5, mo_target_revision = 2\<rparr>]"

lemma demo_maps:
  "snippet_map demo_source = Inr (map (\<lambda>r. (mr_key r, r)) demo_source)"
  "snippet_map demo_target = Inr (map (\<lambda>r. (mr_key r, r)) demo_target)"
  "snippet_map demo_next = Inr (map (\<lambda>r. (mr_key r, r)) demo_next)"
  by (simp_all add: demo_source_def demo_target_def demo_next_def snippet_pair snippet_labels all_zero_def less_char_def)

lemma demo_plan: "plan_snippet_mirror (\<lambda>x. x) demo_source demo_target (Some \<lparr>sm_entries = [(''b'', SyncedPresent ''h3'')]\<rparr>) = Inr demo_ops"
proof -
  have keys: "{''a'', ''c'', ''b'', ''c''} = set [''a'', ''b'', ''c'']" by auto
  have "sorted_list_of_set (set [''a'', ''b'', ''c'']) = [''a'', ''b'', ''c'']"
    by (rule sorted_list_of_set.idem_if_sorted_distinct) (simp_all add: less_char_def)
  then show ?thesis
    unfolding plan_snippet_mirror_def demo_maps
    by (simp add: demo_source_def demo_target_def demo_ops_def plan_key_def synced_state_def keys insert_commute)
qed

lemma demo_applied: "manifest_applied (\<lambda>x. x) \<lparr>sm_entries = [(''b'', SyncedPresent ''h3'')]\<rparr> demo_ops demo_source demo_target =
    Inr \<lparr>sm_entries = [(''a'', SyncedPresent ''h1''), (''b'', SyncedDeleted)]\<rparr>"
  unfolding manifest_applied_def demo_maps
  by (simp add: demo_source_def demo_target_def demo_ops_def apply_operation_def snippet_manifest_validate_def
      manifest_entry_ok_def MAX_SNIPPET_MANIFEST_ENTRIES_def snippet_labels all_zero_def less_char_def)

theorem mirror_settles_witness:
  "plan_snippet_mirror (\<lambda>x. x) demo_source demo_next (Some \<lparr>sm_entries = [(''a'', SyncedPresent ''h1''), (''b'', SyncedDeleted)]\<rparr>) =
     Inr [\<lparr>mo_key_hash = ''c'', mo_action = MirrorConflict, mo_source_revision = 5, mo_target_revision = 2\<rparr>]"
proof -
  have "length demo_next \<le> 10000" by (simp add: demo_next_def)
  moreover have "map_of (map (\<lambda>r. (mr_key r, r)) demo_next) = mirror_target (\<lambda>x. x) (map_of s) (map_of t) demo_ops"
    if "snippet_map demo_source = Inr s" "snippet_map demo_target = Inr t" for s t
    using that unfolding demo_maps
    by (auto simp: demo_source_def demo_target_def demo_ops_def demo_next_def fun_eq_iff)
  ultimately show ?thesis
    using mirror_settles [OF demo_plan demo_applied demo_maps(3)] by (simp add: demo_ops_def inj_on_def)
qed

text \<open>
  C39. Snippets both sides already agree on never enter the manifest, so a first cycle does not end the noise for them: on
  equal sides the plan is empty and the manifest stays empty, and the first later edit of such a snippet in the source is
  planned as a conflict although the target did not change. The comment of the planner promises that the conflicts of a
  missing base disappear after the first applied cycle.
\<close>

theorem agreed_snippets_stay_untracked:
  assumes "snippet_map source = Inr s" and "length source \<le> 10000" and "snippet_map edited = Inr s'" and "length edited \<le> 10000"
    and "map_of s k = Some r" and "map_of s' k = Some l" and "mr_content_hash l \<noteq> mr_content_hash r"
  shows "plan_snippet_mirror blake3 source source None = Inr []
    \<and> manifest_applied blake3 manifest_empty [] source source = Inr manifest_empty
    \<and> (\<exists>ops. plan_snippet_mirror blake3 edited source (Some manifest_empty) = Inr ops \<and>
        \<lparr>mo_key_hash = blake3 k, mo_action = MirrorConflict, mo_source_revision = mr_revision l, mo_target_revision = mr_revision r\<rparr> \<in> set ops)"
proof (intro conjI exI)
  have "mirror_action None (map_of s q) (map_of s q) = None" for q by (cases "map_of s q") auto
  then show "plan_snippet_mirror blake3 source source None = Inr []"
    using assms(1,2) by (simp add: plan_snippet_mirror_def plan_key_def synced_state_def)
  show "manifest_applied blake3 manifest_empty [] source source = Inr manifest_empty"
    using assms(1) by (simp add: manifest_applied_def manifest_empty_def snippet_manifest_validate_def)
  show "plan_snippet_mirror blake3 edited source (Some manifest_empty) =
      Inr (concat (map (plan_key blake3 (map_of s') (map_of s) (Some manifest_empty)) (sides_keys s' s)))"
    using assms by (simp add: plan_Inr)
  have "k \<in> set (sides_keys s' s)" using assms by (simp add: sides_keys_iff)
  moreover have "\<lparr>mo_key_hash = blake3 k, mo_action = MirrorConflict, mo_source_revision = mr_revision l, mo_target_revision = mr_revision r\<rparr>
      \<in> set (plan_key blake3 (map_of s') (map_of s) (Some manifest_empty) k)"
    using assms by (simp add: plan_key_def synced_state_def manifest_empty_def)
  ultimately show "\<lparr>mo_key_hash = blake3 k, mo_action = MirrorConflict, mo_source_revision = mr_revision l, mo_target_revision = mr_revision r\<rparr>
      \<in> set (concat (map (plan_key blake3 (map_of s') (map_of s) (Some manifest_empty)) (sides_keys s' s)))" by auto
qed

theorem agreed_snippets_stay_untracked_witness:
  "\<exists>ops. plan_snippet_mirror (\<lambda>x. x) [\<lparr>mr_key = ''a'', mr_content_hash = ''h2'', mr_revision = 2\<rparr>]
      [\<lparr>mr_key = ''a'', mr_content_hash = ''h1'', mr_revision = 1\<rparr>] (Some manifest_empty) = Inr ops
    \<and> \<lparr>mo_key_hash = ''a'', mo_action = MirrorConflict, mo_source_revision = 2, mo_target_revision = 1\<rparr> \<in> set ops"
  using agreed_snippets_stay_untracked [OF snippet_single _ snippet_single, of "''a''" "''h1''" 1 "''a''" "''h2''" 2 "''a''"
    "\<lparr>mr_key = ''a'', mr_content_hash = ''h1'', mr_revision = 1\<rparr>" "\<lparr>mr_key = ''a'', mr_content_hash = ''h2'', mr_revision = 2\<rparr>" "\<lambda>x. x"]
  by (simp add: snippet_labels all_zero_def)

end
