(* ===== verification/Store_Lifecycle.thy ===== *)
theory Store_Lifecycle
  imports Clip Content_Hash
begin

text \<open>
  Retention and recovery primitives of the store, \<open>crates/vbuff-store/src/lifecycle.rs\<close>: deletion reasons, retention rules
  and their defaults, the normalized fingerprint of text, and the encrypted grace bin. XChaCha20-Poly1305, JSON, the text
  of an identifier, BLAKE3 and the Unicode tables are parameters; randomness is an argument, \<open>None\<close> when there is none.
  An \<open>i64\<close> is its 64-bit pattern where it is encoded and an \<open>int\<close> where it is compared.
\<close>

definition NORMALIZED_INPUT_LIMIT :: nat where "NORMALIZED_INPUT_LIMIT = 1024 * 1024"
definition GRACE_PAYLOAD_LIMIT :: nat where "GRACE_PAYLOAD_LIMIT = 512 * 1024 * 1024"
definition GRACE_DOMAIN :: bytes where "GRACE_DOMAIN = ''vbuff-grace-bin-v1''"

datatype store_error = StoreMaintenance | StoreCrypto | StoreCorrupt | StoreJson

section \<open>Reasons and rules\<close>

datatype deletion_reason = DeletedByUser | HistoryCap | RetentionPass

definition reason_as_i64 :: "deletion_reason \<Rightarrow> int" where
  "reason_as_i64 r = (case r of DeletedByUser \<Rightarrow> 0 | HistoryCap \<Rightarrow> 1 | RetentionPass \<Rightarrow> 2)"

definition reason_from_i64 :: "int \<Rightarrow> store_error + deletion_reason" where
  "reason_from_i64 v = (if v = 0 then Inr DeletedByUser else if v = 1 then Inr HistoryCap else if v = 2 then Inr RetentionPass
     else Inl StoreCorrupt)"

lemma reason_round_trip: "reason_from_i64 v = Inr r \<longleftrightarrow> reason_as_i64 r = v"
  by (cases r) (auto simp: reason_from_i64_def reason_as_i64_def split: if_splits)

datatype retention_scope = KindScope content_kind | SensitiveScope

definition scope_database_values :: "retention_scope \<Rightarrow> int \<times> bool" where
  "scope_database_values s = (case s of KindScope kind \<Rightarrow> (stored_discriminant kind, False) | SensitiveScope \<Rightarrow> (-1, True))"

definition scope_from_database :: "int \<Rightarrow> bool \<Rightarrow> store_error + retention_scope" where
  "scope_from_database kind sensitive =
     (if sensitive then (if kind = -1 then Inr SensitiveScope else Inl StoreCorrupt)
      else (case from_stored_discriminant kind of None \<Rightarrow> Inl StoreCorrupt | Some k \<Rightarrow> Inr (KindScope k)))"

lemma scope_round_trip: "scope_from_database kind sensitive = Inr s \<longleftrightarrow> scope_database_values s = (kind, sensitive)"
proof (cases s)
  case (KindScope k)
  have "from_stored_discriminant kind = Some k \<longleftrightarrow> stored_discriminant k = kind"
    by (cases k) (auto simp: from_stored_discriminant_def ALL_KINDS_def split: if_splits)
  with KindScope show ?thesis
    by (auto simp: scope_from_database_def scope_database_values_def split: option.splits if_splits)
qed (auto simp: scope_from_database_def scope_database_values_def split: option.splits if_splits)

record retention_rule =
  re_scope :: retention_scope
  re_max_age :: "duration option"
  re_max_items :: "nat option"
  re_grace_window :: duration

definition retention_validate :: "retention_rule \<Rightarrow> store_error + unit" where
  "retention_validate r =
     (if re_max_age r = None \<and> re_max_items r = None then Inl StoreMaintenance
      else if (case re_max_age r of None \<Rightarrow> False | Some age \<Rightarrow> age = 0 \<or> age > secs (10 * 365 * 24 * 60 * 60))
        \<or> (case re_max_items r of None \<Rightarrow> False | Some items \<Rightarrow> items > 1000000)
        \<or> re_grace_window r > secs (7 * 24 * 60 * 60) then Inl StoreMaintenance
      else Inr ())"

definition kind_rule :: "content_kind \<Rightarrow> nat \<Rightarrow> nat \<Rightarrow> nat \<Rightarrow> retention_rule" where
  "kind_rule kind days items grace_hours =
     \<lparr>re_scope = KindScope kind, re_max_age = Some (secs (days * (24 * 60 * 60))), re_max_items = Some items,
      re_grace_window = secs (grace_hours * 60 * 60)\<rparr>"

definition default_retention_rules :: "retention_rule list" where
  "default_retention_rules = [kind_rule TextKind 180 10000 24, kind_rule CodeKind 180 5000 24, kind_rule UrlKind 90 3000 24,
     kind_rule ColorKind 180 1000 24, kind_rule ImageKind 14 500 24, kind_rule FileKind 14 500 24, kind_rule RtfKind 60 2000 24,
     kind_rule HtmlKind 60 2000 24, kind_rule OtherKind 30 1000 24,
     \<lparr>re_scope = SensitiveScope, re_max_age = Some (secs (15 * 60)), re_max_items = Some 50, re_grace_window = 0\<rparr>]"

text \<open>The default rules are valid, cover each scope once, and keep no grace copy of anything sensitive.\<close>

lemma default_rules_complete:
  "list_all (\<lambda>r. retention_validate r = Inr ()) default_retention_rules \<and>
   distinct (map re_scope default_retention_rules) \<and> (\<forall>s. s \<in> re_scope ` set default_retention_rules) \<and>
   (\<forall>r \<in> set default_retention_rules. re_scope r = SensitiveScope \<longrightarrow> re_grace_window r = 0)"
proof -
  have "s \<in> re_scope ` set default_retention_rules" for s
  proof (cases s)
    case (KindScope k)
    then show ?thesis by (cases k) (simp_all add: default_retention_rules_def kind_rule_def)
  qed (simp add: default_retention_rules_def kind_rule_def)
  moreover have "list_all (\<lambda>r. retention_validate r = Inr ()) default_retention_rules"
    by (simp add: default_retention_rules_def kind_rule_def retention_validate_def secs_def)
  moreover have "distinct (map re_scope default_retention_rules)" by (simp add: default_retention_rules_def kind_rule_def)
  ultimately show ?thesis by (simp add: default_retention_rules_def kind_rule_def)
qed

section \<open>Normalized text\<close>

definition canonical_punctuation :: "nat \<Rightarrow> nat" where
  "canonical_punctuation c =
     (if c \<in> {0x2018, 0x2019, 0x201A, 0x201B} then 0x27
      else if c \<in> {0x201C, 0x201D, 0x201E, 0x201F} then 0x22
      else if c \<in> {0x2010, 0x2011, 0x2012, 0x2013, 0x2014, 0x2212} then 0x2D
      else if c \<in> {0xA0, 0x2007, 0x202F} then 0x20
      else c)"

definition ends_in :: "nat set \<Rightarrow> nat list \<Rightarrow> bool" where
  "ends_in cs s \<longleftrightarrow> s \<noteq> [] \<and> last s \<in> cs"

definition pop_spaces :: "nat list \<Rightarrow> nat list" where
  "pop_spaces s = rev (dropWhile (\<lambda>c. c = 0x20) (rev s))"

fun normalize_chars :: "(nat \<Rightarrow> bool) \<Rightarrow> (nat \<Rightarrow> nat list) \<Rightarrow> nat list \<Rightarrow> bool \<Rightarrow> nat list \<Rightarrow> nat list" where
  "normalize_chars alnum lower normalized pending [] = pop_spaces normalized"
| "normalize_chars alnum lower normalized pending (original # cs) =
     (if is_whitespace original then normalize_chars alnum lower normalized (normalized \<noteq> []) cs
      else (let character = canonical_punctuation original in
        if alnum character then
          (let joined = ends_in {0x20, 0x2D, 0x2F, 0x27, 0x22} normalized;
               normalized = (if pending \<and> \<not> joined then normalized @ [0x20] else normalized) in
           normalize_chars alnum lower (normalized @ lower character) False cs)
        else (let normalized = pop_spaces normalized in
          if character = 0x2D \<and> ends_in {0x2D} normalized then normalize_chars alnum lower normalized False cs
          else normalize_chars alnum lower (normalized @ [character]) False cs)))"

definition normalized_preimage :: "(nat \<Rightarrow> bool) \<Rightarrow> (nat \<Rightarrow> nat list) \<Rightarrow> string \<Rightarrow> nat list option" where
  "normalized_preimage alnum lower s =
     (if s = [] \<or> length s > NORMALIZED_INPUT_LIMIT then None
      else (let normalized = normalize_chars alnum lower [] False (chars s) in if normalized = [] then None else Some normalized))"

definition normalized_text_fingerprint ::
  "(bytes \<Rightarrow> bytes) \<Rightarrow> (nat list \<Rightarrow> bytes) \<Rightarrow> (nat \<Rightarrow> bool) \<Rightarrow> (nat \<Rightarrow> nat list) \<Rightarrow> string \<Rightarrow> bytes option" where
  "normalized_text_fingerprint blake3 encode alnum lower s =
     map_option (\<lambda>n. blake3 (''vbuff-normalized-text-v1'' @ [CHR 0x00] @ encode n)) (normalized_preimage alnum lower s)"

text \<open>Runs of white space count once, at the start not at all: only where they are matters, not what or how many they are.\<close>

lemma white_run:
  "ws \<noteq> [] \<Longrightarrow> \<forall>w \<in> set ws. is_whitespace w \<Longrightarrow>
   normalize_chars alnum lower normalized pending (ws @ cs) = normalize_chars alnum lower normalized (normalized \<noteq> []) cs"
proof (induction ws arbitrary: pending)
  case (Cons w ws)
  then show ?case by (cases "ws = []") simp_all
qed simp

lemma normalize_append: "\<exists>n p. \<forall>cs. normalize_chars alnum lower normalized pending (as @ cs) = normalize_chars alnum lower n p cs"
proof (induction as arbitrary: normalized pending)
  case Nil
  then show ?case by (metis append_Nil)
next
  case (Cons a as)
  have "\<exists>n p. \<forall>cs. normalize_chars alnum lower normalized pending (a # cs) = normalize_chars alnum lower n p cs"
  proof -
    consider "is_whitespace a" | "\<not> is_whitespace a" "alnum (canonical_punctuation a)"
      | "\<not> is_whitespace a" "\<not> alnum (canonical_punctuation a)" "canonical_punctuation a = 0x2D \<and> ends_in {0x2D} (pop_spaces normalized)"
      | "\<not> is_whitespace a" "\<not> alnum (canonical_punctuation a)" "\<not> (canonical_punctuation a = 0x2D \<and> ends_in {0x2D} (pop_spaces normalized))"
      by blast
    then show ?thesis
    proof cases
      case 1
      then show ?thesis unfolding normalize_chars.simps if_P [OF 1] by blast
    next
      case 2
      show ?thesis unfolding normalize_chars.simps Let_def if_not_P [OF 2(1)] if_P [OF 2(2)] by blast
    next
      case 3
      show ?thesis unfolding normalize_chars.simps Let_def if_not_P [OF 3(1)] if_not_P [OF 3(2)] if_P [OF 3(3)] by blast
    next
      case 4
      show ?thesis unfolding normalize_chars.simps Let_def if_not_P [OF 4(1)] if_not_P [OF 4(2)] if_not_P [OF 4(3)] by blast
    qed
  qed
  with Cons.IH show ?case by (metis append_Cons)
qed

lemma normalize_white_runs:
  assumes "ws \<noteq> []" and "vs \<noteq> []" and "\<forall>w \<in> set ws \<union> set vs. is_whitespace w"
  shows "normalize_chars alnum lower [] False (as @ ws @ cs) = normalize_chars alnum lower [] False (as @ vs @ cs)"
proof -
  from normalize_append [of alnum lower "[]" False as] obtain n p where
    "normalize_chars alnum lower [] False (as @ bs) = normalize_chars alnum lower n p bs" for bs by blast
  then show ?thesis using assms by (simp add: white_run)
qed

section \<open>The grace bin\<close>

record grace_env =
  gv_encrypt :: "bytes \<Rightarrow> bytes \<Rightarrow> bytes \<Rightarrow> bytes \<Rightarrow> bytes option"
  gv_decrypt :: "bytes \<Rightarrow> bytes \<Rightarrow> bytes \<Rightarrow> bytes \<Rightarrow> bytes option"
  gv_to_json :: "clip \<Rightarrow> bytes option"
  gv_from_json :: "bytes \<Rightarrow> clip option"
  gv_id_text :: "clip_id \<Rightarrow> string"
  gv_blake3 :: "bytes \<Rightarrow> bytes"

record grace_record =
  gb_recovery_id :: string
  gb_clip_id :: string
  gb_deleted_at_ms :: u64
  gb_purge_after_ms :: u64
  gb_reason :: deletion_reason
  gb_nonce :: bytes
  gb_ciphertext :: bytes

definition grace_aad :: "string \<Rightarrow> string \<Rightarrow> u64 \<Rightarrow> u64 \<Rightarrow> deletion_reason \<Rightarrow> bytes" where
  "grace_aad recovery_id clip_text deleted_at_ms purge_after_ms reason =
     GRACE_DOMAIN @ [CHR 0x00] @ recovery_id @ [CHR 0x00] @ clip_text @ u64_be deleted_at_ms @ u64_be purge_after_ms @
     u64_be (of_int (reason_as_i64 reason))"

definition seal_clip :: "grace_env \<Rightarrow> bytes \<Rightarrow> bytes option \<Rightarrow> string \<Rightarrow> clip \<Rightarrow> u64 \<Rightarrow> u64 \<Rightarrow> deletion_reason \<Rightarrow> store_error + bytes \<times> bytes" where
  "seal_clip env key random recovery_id c deleted_at_ms purge_after_ms reason =
     (case gv_to_json env c of None \<Rightarrow> Inl StoreJson | Some plaintext \<Rightarrow>
       if length plaintext > GRACE_PAYLOAD_LIMIT then Inl StoreMaintenance
       else (case random of None \<Rightarrow> Inl StoreCrypto | Some nonce \<Rightarrow>
         (case gv_encrypt env key nonce (grace_aad recovery_id (gv_id_text env (clip_id c)) deleted_at_ms purge_after_ms reason) plaintext of
            None \<Rightarrow> Inl StoreCrypto | Some ciphertext \<Rightarrow> Inr (nonce, ciphertext))))"

definition open_clip :: "grace_env \<Rightarrow> bytes \<Rightarrow> grace_record \<Rightarrow> store_error + clip" where
  "open_clip env key r =
     (if length (gb_nonce r) \<noteq> 24 then Inl StoreCorrupt
      else if length (gb_ciphertext r) < 16 \<or> length (gb_ciphertext r) > GRACE_PAYLOAD_LIMIT + 16 then Inl StoreCorrupt
      else (case gv_decrypt env key (gb_nonce r)
            (grace_aad (gb_recovery_id r) (gb_clip_id r) (gb_deleted_at_ms r) (gb_purge_after_ms r) (gb_reason r)) (gb_ciphertext r) of
          None \<Rightarrow> Inl StoreCrypto
        | Some plaintext \<Rightarrow>
            if length plaintext > GRACE_PAYLOAD_LIMIT then Inl StoreCorrupt
            else (case gv_from_json env plaintext of None \<Rightarrow> Inl StoreJson | Some c \<Rightarrow>
              if gv_id_text env (clip_id c) \<noteq> gb_clip_id r \<or> content_hash_from_flavors (gv_blake3 env) (clip_flavors c) \<noteq> clip_content_hash c
              then Inl StoreCorrupt else Inr c)))"

text \<open>The data authenticated with a record determine its fields, for identifiers of a fixed length without NUL.\<close>

lemma grace_aad_inject:
  assumes "grace_aad a b d p r = grace_aad a' b' d' p' r'" and "CHR 0x00 \<notin> set a" and "CHR 0x00 \<notin> set a'" and "length b = length b'"
  shows "a = a' \<and> b = b' \<and> d = d' \<and> p = p' \<and> r = r'"
proof -
  let ?t = "\<lambda>b d p r. b @ u64_be d @ u64_be p @ u64_be (of_int (reason_as_i64 r))"
  have "a @ CHR 0x00 # ?t b d p r = a' @ CHR 0x00 # ?t b' d' p' r'" using assms(1) by (simp add: grace_aad_def)
  then have "split_once (CHR 0x00) (a @ CHR 0x00 # ?t b d p r) = split_once (CHR 0x00) (a' @ CHR 0x00 # ?t b' d' p' r')" by (rule arg_cong)
  then have "a = a'" "?t b d p r = ?t b' d' p' r'"
    unfolding split_once_append [OF assms(2)] split_once_append [OF assms(3)] by simp_all
  moreover have len: "length (u64_be w) = 8" for w by (simp add: u64_be_def)
  ultimately have "b = b'" "u64_be d = u64_be d'" "u64_be p = u64_be p'"
      "u64_be (of_int (reason_as_i64 r)) = u64_be (of_int (reason_as_i64 r'))"
    using assms(4) by (simp_all add: append_eq_append_conv len)
  moreover have inj: "v = w" if "u64_be v = u64_be w" for v w
  proof -
    have "unat v = unat w" using that unfolding u64_be_def
      by (rule be_bytes_inject) (use unat_less_size [of v] unat_less_size [of w] in simp_all)
    then show ?thesis by (rule word_unat_eq_iff [THEN iffD2])
  qed
  moreover have "r = r'" if "(of_int (reason_as_i64 r) :: u64) = of_int (reason_as_i64 r')"
    using that by (cases r; cases r') (simp_all add: reason_as_i64_def)
  ultimately show ?thesis using \<open>a = a'\<close> by blast
qed

text \<open>
  A deleted clip can be recovered: what was sealed for the grace bin opens again to the same clip, under the record it
  was sealed for, if the clip's hash is that of its flavors. And opening never gives anything else than what the record names:
  a clip with the identifier of the record and the hash of its own flavors.
\<close>

lemma grace_bin_round_trip:
  assumes "seal_clip env key (Some nonce) recovery_id c d p reason = Inr (nonce', ciphertext)"
    and aead: "\<And>k n a m e. gv_encrypt env k n a m = Some e \<Longrightarrow> gv_decrypt env k n a e = Some m \<and> length e = length m + 16"
    and json: "\<And>c j. gv_to_json env c = Some j \<Longrightarrow> gv_from_json env j = Some c"
    and "length nonce = 24" and "content_hash_from_flavors (gv_blake3 env) (clip_flavors c) = clip_content_hash c"
  shows "open_clip env key \<lparr>gb_recovery_id = recovery_id, gb_clip_id = gv_id_text env (clip_id c), gb_deleted_at_ms = d, gb_purge_after_ms = p,
      gb_reason = reason, gb_nonce = nonce', gb_ciphertext = ciphertext\<rparr> = Inr c \<and>
    (\<forall>r c'. open_clip env key r = Inr c' \<longrightarrow> gv_id_text env (clip_id c') = gb_clip_id r \<and>
      content_hash_from_flavors (gv_blake3 env) (clip_flavors c') = clip_content_hash c')"
proof -
  from assms(1) obtain m where m: "gv_to_json env c = Some m" "length m \<le> GRACE_PAYLOAD_LIMIT" "nonce' = nonce"
    "gv_encrypt env key nonce (grace_aad recovery_id (gv_id_text env (clip_id c)) d p reason) m = Some ciphertext"
    by (auto simp: seal_clip_def split: option.splits if_splits)
  from aead [OF m(4)] json [OF m(1)] m(2,3) assms(4,5) show ?thesis
    by (auto simp: open_clip_def split: option.splits if_splits)
qed

definition sample_grace_env :: "clip \<Rightarrow> grace_env" where
  "sample_grace_env c = \<lparr>gv_encrypt = (\<lambda>k n a m. Some (m @ replicate 16 CHR 0x00)), gv_decrypt = (\<lambda>k n a e. Some (take (length e - 16) e)),
     gv_to_json = (\<lambda>x. if x = c then Some ''clip'' else None), gv_from_json = (\<lambda>_. Some c), gv_id_text = (\<lambda>_. ''01''), gv_blake3 = (\<lambda>_. [])\<rparr>"

definition sample_grace_clip :: clip where
  "sample_grace_clip = \<lparr>clip_id = 1, clip_flavors = [], clip_content_hash = [], clip_meta = clip_meta_now 0 TextKind 0 None,
     clip_pinned = False, clip_favorite = False\<rparr>"

lemma grace_bin_round_trip_witness:
  "open_clip (sample_grace_env sample_grace_clip) [] \<lparr>gb_recovery_id = ''r'', gb_clip_id = ''01'', gb_deleted_at_ms = 1, gb_purge_after_ms = 2,
      gb_reason = HistoryCap, gb_nonce = replicate 24 CHR 0x00, gb_ciphertext = ''clip'' @ replicate 16 CHR 0x00\<rparr> = Inr sample_grace_clip"
proof -
  let ?e = "sample_grace_env sample_grace_clip"
  have sealed: "seal_clip ?e [] (Some (replicate 24 CHR 0x00)) ''r'' sample_grace_clip 1 2 HistoryCap =
      Inr (replicate 24 CHR 0x00, ''clip'' @ replicate 16 CHR 0x00)"
    by (simp add: seal_clip_def sample_grace_env_def GRACE_PAYLOAD_LIMIT_def)
  have aead: "gv_decrypt ?e k n a e = Some m \<and> length e = length m + 16" if "gv_encrypt ?e k n a m = Some e" for k n a m e
    using that by (auto simp: sample_grace_env_def)
  have json: "gv_from_json ?e j = Some x" if "gv_to_json ?e x = Some j" for x j
    using that by (auto simp: sample_grace_env_def split: if_splits)
  have hash: "content_hash_from_flavors (gv_blake3 ?e) (clip_flavors sample_grace_clip) = clip_content_hash sample_grace_clip"
    by (simp add: content_hash_from_flavors_def sample_grace_env_def sample_grace_clip_def)
  from grace_bin_round_trip [OF sealed aead json _ hash] show ?thesis by (simp add: sample_grace_env_def)
qed

end
