(* ===== verification/Store_Tags.thy ===== *)
theory Store_Tags
  imports Clip
begin

text \<open>
  Tags of clips, \<open>crates/vbuff-store/src/tags.rs\<close> over the tables \<open>tags\<close> and \<open>clip_tags\<close>, and the expiry edits of
  \<open>ttl.rs\<close>; \<open>TagSnapshot\<close> of \<open>crates/vbuff-types/src/tags.rs\<close>. The SQL is translated to what it selects and changes: a
  violated \<open>PRIMARY KEY\<close> or \<open>UNIQUE\<close> constraint is an error of the engine, and a transaction that is not committed
  changes nothing. Rows of the table of clips, the clock, fresh identifiers and Unicode lower case are parameters.
\<close>

section \<open>Snapshots\<close>

type_synonym color = "u8 \<times> u8 \<times> u8"

record tag_record =
  tg_id :: string
  tg_name :: string
  tg_color :: color
  tg_clips :: "clip_id set"

definition snapshot_matches :: "tag_record list \<Rightarrow> clip_id \<Rightarrow> string list \<Rightarrow> bool \<Rightarrow> bool" where
  "snapshot_matches tags clip ids every =
     (let has = (\<lambda>i. list_ex (\<lambda>t. tg_id t = i \<and> clip \<in> tg_clips t) tags) in
      ids = [] \<or> (if every then list_all has ids else list_ex has ids))"

section \<open>The tables\<close>

record tag_row =
  tr_id :: string
  tr_name :: string
  tr_color :: color

text \<open>A clip row: its expiry in milliseconds, and its sensitivity unless the metadata cannot be read.\<close>

record clip_row =
  cw_expires_at :: "int option"
  cw_sensitive :: "bool option"

record tag_tables =
  tt_tags :: "tag_row list"
  tt_links :: "(clip_id \<times> string) list"

record tag_env =
  te_clips :: "(clip_id \<times> clip_row) list"
  te_now :: int
  te_fresh :: string
  te_lowercase :: "string \<Rightarrow> string"

datatype tag_error = InvalidTagOperation | TagEngine | TagJson


definition live_row :: "tag_env \<Rightarrow> clip_id \<Rightarrow> clip_row option" where
  "live_row env c = (case map_of (te_clips env) c of
       None \<Rightarrow> None
     | Some row \<Rightarrow> (case cw_expires_at row of None \<Rightarrow> Some row | Some t \<Rightarrow> if t > te_now env then Some row else None))"




section \<open>Editing\<close>







definition tag_snapshot :: "tag_env \<Rightarrow> tag_tables \<Rightarrow> tag_record list" where
  "tag_snapshot env db =
     map (\<lambda>t. \<lparr>tg_id = tr_id t, tg_name = tr_name t, tg_color = tr_color t,
         tg_clips = set (map fst (filter (\<lambda>l. snd l = tr_id t \<and> live_row env (fst l) \<noteq> None) (tt_links db)))\<rparr>)
       (sort_key tr_name (tt_tags db))"

section \<open>Expiry\<close>

definition set_ttl :: "tag_env \<Rightarrow> clip_id \<Rightarrow> nat option \<Rightarrow> tag_error + (clip_id \<times> clip_row) list" where
  "set_ttl env c seconds =
     (if (case seconds of None \<Rightarrow> False | Some s \<Rightarrow> s = 0 \<or> s > 365 * 24 * 3600) then Inl InvalidTagOperation
      else (case live_row env c of
          None \<Rightarrow> Inl TagEngine
        | Some row \<Rightarrow> (case cw_sensitive row of
              None \<Rightarrow> Inl TagJson
            | Some True \<Rightarrow> Inl InvalidTagOperation
            | Some False \<Rightarrow> Inr (map (\<lambda>(i, r). (i, if i = c then r\<lparr>cw_expires_at := map_option (\<lambda>s. te_now env + 1000 * int s) seconds\<rparr> else r))
                (te_clips env)))))"

lemma set_ttl_only_normal: "set_ttl env c seconds = Inr rows \<Longrightarrow> \<exists>row. live_row env c = Some row \<and> cw_sensitive row = Some False"
  by (auto simp: set_ttl_def split: if_splits option.splits bool.splits)

section \<open>What every edit keeps\<close>
















section \<open>Histories of edits\<close>











end
