(* ===== verification/Sync_Policy.thy ===== *)
theory Sync_Policy
  imports Clip_Types Sync_Container Text_Format Validation
begin

text \<open>
  The selective-sync policy language and the per-device lanes, \<open>crates/vbuff-sync/src/policy.rs\<close>, and the encrypted
  embedding artifacts that pass the same gate, \<open>artifact.rs\<close>.

  \<open>str::to_lowercase\<close> (the Unicode tables) and the \<open>{:?}\<close> form of a string in an error are the parameters \<open>lower\<close> and
  \<open>quoted\<close>; the random filler, the nonce and the ephemeral secret are drawn by the caller, as in \<open>Sync_Container\<close>.
\<close>

datatype sync_decision = AllowSync | DenySync

record sync_context =
  sc_kind :: content_kind
  sc_byte_size :: u64
  sc_source_app :: "string option"
  sc_target_device :: string
  sc_collection :: "string option"
  sc_sensitive :: bool
  sc_sync_eligible :: bool

record sync_rule =
  sr_decision :: sync_decision
  sr_kind :: "content_kind option"
  sr_max_bytes :: "u64 option"
  sr_source_contains :: "string option"
  sr_target :: "string option"
  sr_collection :: "string option"

definition rule_matches :: "(string \<Rightarrow> string) \<Rightarrow> sync_rule \<Rightarrow> sync_context \<Rightarrow> bool" where
  "rule_matches lower r cx \<longleftrightarrow>
     (case sr_kind r of None \<Rightarrow> True | Some kind \<Rightarrow> kind = sc_kind cx) \<and>
     (case sr_max_bytes r of None \<Rightarrow> True | Some maximum \<Rightarrow> sc_byte_size cx \<le> maximum) \<and>
     (case sr_source_contains r of None \<Rightarrow> True | Some needle \<Rightarrow>
        (case sc_source_app cx of None \<Rightarrow> False | Some source \<Rightarrow> contains_sub (lower needle) (lower source))) \<and>
     (case sr_target r of None \<Rightarrow> True | Some target \<Rightarrow> target = sc_target_device cx) \<and>
     (case sr_collection r of None \<Rightarrow> True | Some c \<Rightarrow> sc_collection cx = Some c)"

section \<open>The policy text\<close>

definition parse_policy_kind :: "(string \<Rightarrow> string) \<Rightarrow> string \<Rightarrow> sync_error + content_kind" where
  "parse_policy_kind quoted v = (case content_kind_from_str v of
     Inr kind \<Rightarrow> Inr kind | Inl _ \<Rightarrow> Inl (Invalid (''unknown content kind '' @ quoted v)))"

definition rule_token :: "(string \<Rightarrow> string) \<Rightarrow> sync_rule \<Rightarrow> string \<Rightarrow> sync_error + sync_rule" where
  "rule_token quoted r token = (case split_once CHR ''='' token of
     None \<Rightarrow> Inl (Invalid (''invalid policy token '' @ quoted token))
   | Some (key, v) \<Rightarrow>
       if key = ''kind'' then try_then (parse_policy_kind quoted v) (\<lambda>kind. Inr (r\<lparr>sr_kind := Some kind\<rparr>))
       else if key = ''max_bytes'' then
         (case parse_u64 v of None \<Rightarrow> Inl (Invalid (''invalid max_bytes '' @ quoted v))
          | Some n \<Rightarrow> Inr (r\<lparr>sr_max_bytes := Some n\<rparr>))
       else if key = ''source_contains'' then Inr (r\<lparr>sr_source_contains := Some v\<rparr>)
       else if key = ''target'' then Inr (r\<lparr>sr_target := Some v\<rparr>)
       else if key = ''collection'' then Inr (r\<lparr>sr_collection := Some v\<rparr>)
       else Inl (Invalid (''unknown policy key '' @ quoted key)))"

fun rule_tokens :: "(string \<Rightarrow> string) \<Rightarrow> sync_rule \<Rightarrow> string list \<Rightarrow> sync_error + sync_rule" where
  "rule_tokens quoted r [] = Inr r"
| "rule_tokens quoted r (token # ts) = try_then (rule_token quoted r token) (\<lambda>r. rule_tokens quoted r ts)"

definition rule_of :: "sync_decision \<Rightarrow> sync_rule" where
  "rule_of d = \<lparr>sr_decision = d, sr_kind = None, sr_max_bytes = None, sr_source_contains = None,
     sr_target = None, sr_collection = None\<rparr>"

definition policy_line :: "(string \<Rightarrow> string) \<Rightarrow> nat \<Rightarrow> string \<Rightarrow> sync_error + sync_rule option" where
  "policy_line quoted n raw = (let line = trim (hd (split_on CHR ''#'' raw)) in
     if line = [] then Inr None
     else (case whitespace_words (utf8_split line) [] of
         [] \<Rightarrow> Inl (Invalid (''policy line '' @ decimal (n + 1) @ '' must start with allow or deny''))
       | w # ts \<Rightarrow>
           if w = ''allow'' then try_then (rule_tokens quoted (rule_of AllowSync) ts) (\<lambda>r. Inr (Some r))
           else if w = ''deny'' then try_then (rule_tokens quoted (rule_of DenySync) ts) (\<lambda>r. Inr (Some r))
           else Inl (Invalid (''policy line '' @ decimal (n + 1) @ '' must start with allow or deny''))))"

fun policy_lines :: "(string \<Rightarrow> string) \<Rightarrow> nat \<Rightarrow> string list \<Rightarrow> sync_error + sync_rule list" where
  "policy_lines quoted n [] = Inr []"
| "policy_lines quoted n (raw # ls) = try_then (policy_line quoted n raw) (\<lambda>r.
     try_then (policy_lines quoted (Suc n) ls) (\<lambda>rs. Inr (case r of None \<Rightarrow> rs | Some x \<Rightarrow> x # rs)))"

definition sync_policy_parse :: "(string \<Rightarrow> string) \<Rightarrow> string \<Rightarrow> sync_error + sync_rule list" where
  "sync_policy_parse quoted source = policy_lines quoted 0 (str_lines source)"

section \<open>Evaluation\<close>

definition policy_evaluate :: "(string \<Rightarrow> string) \<Rightarrow> sync_rule list \<Rightarrow> sync_context \<Rightarrow> sync_decision" where
  "policy_evaluate lower rules cx =
     (if sc_sensitive cx \<or> \<not> sc_sync_eligible cx then DenySync
      else case find (\<lambda>r. rule_matches lower r cx) rules of None \<Rightarrow> DenySync | Some r \<Rightarrow> sr_decision r)"

record device_lane =
  dl_device_id :: string
  dl_kinds :: "content_kind set"
  dl_collections :: "string set"
  dl_max_bytes :: u64

definition lane_accepts :: "device_lane \<Rightarrow> sync_context \<Rightarrow> bool" where
  "lane_accepts lane cx \<longleftrightarrow> dl_device_id lane = sc_target_device cx \<and> sc_kind cx \<in> dl_kinds lane \<and>
     sc_byte_size cx \<le> dl_max_bytes lane \<and>
     (dl_collections lane = {} \<or> (case sc_collection cx of None \<Rightarrow> False | Some c \<Rightarrow> c \<in> dl_collections lane))"

definition seal_if_allowed ::
  "(string \<Rightarrow> string) \<Rightarrow> 'sk seal_env \<Rightarrow> (nat \<Rightarrow> bytes option) \<Rightarrow> 'sk \<Rightarrow> bytes option \<Rightarrow> sync_rule list \<Rightarrow> device_lane \<Rightarrow>
     sync_context \<Rightarrow> bytes \<Rightarrow> bytes \<Rightarrow> bytes \<Rightarrow> sync_error + sealed_envelope option" where
  "seal_if_allowed lower env random ephemeral nonce rules lane cx recipient plaintext aad =
     (if policy_evaluate lower rules cx \<noteq> AllowSync \<or> \<not> lane_accepts lane cx then Inr None
      else try_then (pad_to_bucket random plaintext) (\<lambda>padded.
        try_then (seal_to env ephemeral nonce recipient padded aad) (\<lambda>e. Inr (Some e))))"

section \<open>Embedding artifacts\<close>

definition MAX_EMBEDDING_DIMENSIONS :: nat where "MAX_EMBEDDING_DIMENSIONS = 8192"

text \<open>An \<open>f32\<close> is its bits: exponent in bits 23 to 30, sign in bit 31.\<close>

record embedding_artifact =
  ea_content_hash :: bytes
  ea_backend_id :: string
  ea_dimensions :: u16
  ea_scale :: u32
  ea_vector :: "8 word list"

definition f32_finite :: "u32 \<Rightarrow> bool" where
  "f32_finite b \<longleftrightarrow> (unat b div 2 ^ 23) mod 256 < 255"

text \<open>For a finite number, at most zero: a negative number or one of the two zeros.\<close>

definition f32_at_most_zero :: "u32 \<Rightarrow> bool" where
  "f32_at_most_zero b \<longleftrightarrow> 2 ^ 31 \<le> unat b \<or> b = 0"

definition embedding_validate :: "embedding_artifact \<Rightarrow> sync_error + unit" where
  "embedding_validate a =
     (if \<not> is_valid_identifier (ea_backend_id a) 128 \<or> ea_dimensions a = 0
         \<or> unat (ea_dimensions a) > MAX_EMBEDDING_DIMENSIONS \<or> length (ea_vector a) \<noteq> unat (ea_dimensions a)
         \<or> \<not> f32_finite (ea_scale a) \<or> f32_at_most_zero (ea_scale a)
      then Inl (Invalid ''invalid embedding artifact'') else Inr ())"

definition seal_embedding_if_allowed ::
  "(embedding_artifact \<Rightarrow> string + bytes) \<Rightarrow> (string \<Rightarrow> string) \<Rightarrow> 'sk seal_env \<Rightarrow> (nat \<Rightarrow> bytes option) \<Rightarrow> 'sk \<Rightarrow> bytes option \<Rightarrow>
     embedding_artifact \<Rightarrow> bool \<Rightarrow> sync_rule list \<Rightarrow> device_lane \<Rightarrow> sync_context \<Rightarrow> bytes \<Rightarrow> bytes \<Rightarrow> sync_error + sealed_envelope option" where
  "seal_embedding_if_allowed to_json lower env random ephemeral nonce a ai_allowed rules lane cx recipient aad =
     (if \<not> ai_allowed \<or> sc_sensitive cx \<or> \<not> sc_sync_eligible cx then Inr None
      else try_then (embedding_validate a) (\<lambda>_.
        case to_json a of Inl e \<Rightarrow> Inl (Invalid e)
        | Inr plaintext \<Rightarrow> seal_if_allowed lower env random ephemeral nonce rules lane cx recipient plaintext aad))"

section \<open>Only what the policy allows is sealed\<close>

lemma policy_evaluate_Allow:
  "policy_evaluate lower rules cx = AllowSync \<longleftrightarrow> \<not> sc_sensitive cx \<and> sc_sync_eligible cx \<and>
     (\<exists>i < length rules. rule_matches lower (rules ! i) cx \<and> sr_decision (rules ! i) = AllowSync \<and>
        (\<forall>j < i. \<not> rule_matches lower (rules ! j) cx))"
proof -
  have "(case find (\<lambda>r. rule_matches lower r cx) rules of None \<Rightarrow> DenySync | Some r \<Rightarrow> sr_decision r) = AllowSync \<longleftrightarrow>
      (\<exists>r. find (\<lambda>r. rule_matches lower r cx) rules = Some r \<and> sr_decision r = AllowSync)"
    by (auto split: option.split)
  then show ?thesis by (auto simp: policy_evaluate_def find_Some_iff)
qed

lemma seal_if_allowed_Some:
  "seal_if_allowed lower env random ephemeral nonce rules lane cx recipient plaintext aad = Inr (Some e) \<longleftrightarrow>
     policy_evaluate lower rules cx = AllowSync \<and> lane_accepts lane cx \<and>
     (\<exists>padded. pad_to_bucket random plaintext = Inr padded \<and> seal_to env ephemeral nonce recipient padded aad = Inr e)"
  by (auto simp: seal_if_allowed_def try_then_eq_Inr)

text \<open>
  The sync gate fails closed: an envelope for a device exists only when the clip is not sensitive and may sync, the
  first rule that matches it allows it, and the lane of that very device accepts its kind, size and collection. An
  embedding passes the same gate and was validated, so turning AI off or marking the clip sensitive yields no ciphertext.
\<close>

lemma only_allowed_items_are_sealed:
  "(seal_if_allowed lower env random ephemeral nonce rules lane cx recipient plaintext aad = Inr (Some e) \<or>
    seal_embedding_if_allowed to_json lower env random ephemeral nonce a ai rules lane cx recipient aad = Inr (Some e)) \<Longrightarrow>
     \<not> sc_sensitive cx \<and> sc_sync_eligible cx \<and>
     (\<exists>i < length rules. rule_matches lower (rules ! i) cx \<and> sr_decision (rules ! i) = AllowSync \<and>
        (\<forall>j < i. \<not> rule_matches lower (rules ! j) cx)) \<and>
     lane_accepts lane cx \<and>
     (seal_embedding_if_allowed to_json lower env random ephemeral nonce a ai rules lane cx recipient aad = Inr (Some e) \<longrightarrow>
        ai \<and> embedding_validate a = Inr ())"
proof -
  assume "seal_if_allowed lower env random ephemeral nonce rules lane cx recipient plaintext aad = Inr (Some e) \<or>
    seal_embedding_if_allowed to_json lower env random ephemeral nonce a ai rules lane cx recipient aad = Inr (Some e)"
  then obtain p where "seal_if_allowed lower env random ephemeral nonce rules lane cx recipient p aad = Inr (Some e)"
    by (auto simp: seal_embedding_if_allowed_def try_then_eq_Inr split: if_splits sum.splits)
  moreover have "ai \<and> embedding_validate a = Inr ()"
    if "seal_embedding_if_allowed to_json lower env random ephemeral nonce a ai rules lane cx recipient aad = Inr (Some e)"
    using that by (auto simp: seal_embedding_if_allowed_def try_then_eq_Inr split: if_splits)
  ultimately show ?thesis
    unfolding seal_if_allowed_Some policy_evaluate_Allow by blast
qed

definition sample_seal_env :: "bytes seal_env" where
  "sample_seal_env = \<lparr>sx_blake3 = id, sx_keyed_blake3 = (@), sx_encrypt = (\<lambda>k n a p. Some p), sx_decrypt = (\<lambda>k n a c. Some c),
     sx_hkdf = (\<lambda>s i x n. Some i), sx_public = id, sx_diffie_hellman = (\<lambda>s p. Some s), sx_zstd = Some, sx_unzstd = Some\<rparr>"

definition sample_sync_context :: sync_context where
  "sample_sync_context = \<lparr>sc_kind = TextKind, sc_byte_size = 3, sc_source_app = None, sc_target_device = ''phone'',
     sc_collection = None, sc_sensitive = False, sc_sync_eligible = True\<rparr>"

lemma only_allowed_items_are_sealed_witness:
  "\<exists>e. seal_if_allowed id sample_seal_env (\<lambda>n. Some (replicate n (CHR 0x00))) ''eph'' (Some ''nonce'') [rule_of AllowSync]
       \<lparr>dl_device_id = ''phone'', dl_kinds = {TextKind}, dl_collections = {}, dl_max_bytes = 10\<rparr> sample_sync_context ''pk'' ''abc'' ''aad'' = Inr (Some e) \<and>
     \<not> sc_sensitive sample_sync_context"
proof -
  let ?lane = "\<lparr>dl_device_id = ''phone'', dl_kinds = {TextKind}, dl_collections = {}, dl_max_bytes = 10\<rparr>"
  let ?fill = "\<lambda>n. Some (replicate n (CHR 0x00))"
  let ?p = "u64_le 3 @ ''abc'' @ replicate 53 (CHR 0x00)"
  let ?e = "\<lparr>sv_ephemeral_public_key = ''eph'', sv_nonce = ''nonce'', sv_ciphertext = ?p\<rparr>"
  have size: "bucket_size (Suc (Suc (Suc 0))) = Inr 64"
    by (simp add: bucket_size_def WIRE_HEADER_BYTES_def MIN_BUCKET_BYTES_def MAX_BUCKET_BYTES_def checked_next_power_of_two_def doubled_from.simps)
  have pad: "pad_to_bucket ?fill ''abc'' = Inr ?p"
    by (simp add: pad_to_bucket_def size WIRE_HEADER_BYTES_def Let_def)
  have "policy_evaluate id [rule_of AllowSync] sample_sync_context = AllowSync" "lane_accepts ?lane sample_sync_context"
    by (simp_all add: policy_evaluate_def rule_matches_def rule_of_def lane_accepts_def sample_sync_context_def)
  moreover have "seal_to sample_seal_env ''eph'' (Some ''nonce'') ''pk'' ?p ''aad'' = Inr ?e"
    by (simp add: seal_to_def derive_sealed_key_def or_crypto_def sample_seal_env_def)
  ultimately have sealed: "seal_if_allowed id sample_seal_env ?fill ''eph'' (Some ''nonce'') [rule_of AllowSync] ?lane sample_sync_context ''pk'' ''abc'' ''aad'' = Inr (Some ?e)"
    using pad by (subst seal_if_allowed_Some) blast
  with only_allowed_items_are_sealed [of id sample_seal_env ?fill "''eph''" "Some ''nonce''" "[rule_of AllowSync]" ?lane sample_sync_context "''pk''" "''abc''" "''aad''" ?e]
  show ?thesis by blast
qed

section \<open>Writing a policy and reading it back\<close>

text \<open>The text of a rule, in the syntax of the documentation of \<open>parse\<close>.\<close>

definition option_token :: "string \<Rightarrow> ('a \<Rightarrow> string) \<Rightarrow> 'a option \<Rightarrow> string list" where
  "option_token key f v = (case v of None \<Rightarrow> [] | Some x \<Rightarrow> [key @ ''='' @ f x])"

definition rule_words :: "sync_rule \<Rightarrow> string list" where
  "rule_words r = option_token ''kind'' slug (sr_kind r) @ option_token ''max_bytes'' (\<lambda>n. decimal (unat n)) (sr_max_bytes r) @
     option_token ''source_contains'' (\<lambda>v. v) (sr_source_contains r) @ option_token ''target'' (\<lambda>v. v) (sr_target r) @
     option_token ''collection'' (\<lambda>v. v) (sr_collection r)"

definition rule_line :: "sync_rule \<Rightarrow> string" where
  "rule_line r = (case sr_decision r of AllowSync \<Rightarrow> ''allow'' | DenySync \<Rightarrow> ''deny'') @ spaced (rule_words r)"

definition plain_value :: "string option \<Rightarrow> bool" where
  "plain_value v \<longleftrightarrow> (case v of None \<Rightarrow> True | Some s \<Rightarrow> \<forall>c \<in> set s. is_graphic c \<and> c \<noteq> CHR ''#'')"

definition plain_rule :: "sync_rule \<Rightarrow> bool" where
  "plain_rule r \<longleftrightarrow> plain_value (sr_source_contains r) \<and> plain_value (sr_target r) \<and> plain_value (sr_collection r)"

lemma rule_tokens_append: "rule_tokens quoted r (xs @ ys) = try_then (rule_tokens quoted r xs) (\<lambda>r. rule_tokens quoted r ys)"
proof (induction xs arbitrary: r)
  case (Cons x xs)
  then show ?case by (cases "rule_token quoted r x") simp_all
qed simp

lemma rule_token_known:
  "rule_token quoted r (''kind='' @ slug k) = Inr (r\<lparr>sr_kind := Some k\<rparr>)"
  "rule_token quoted r (''max_bytes='' @ decimal (unat n)) = Inr (r\<lparr>sr_max_bytes := Some n\<rparr>)"
  "rule_token quoted r (''source_contains='' @ v) = Inr (r\<lparr>sr_source_contains := Some v\<rparr>)"
  "rule_token quoted r (''target='' @ v) = Inr (r\<lparr>sr_target := Some v\<rparr>)"
  "rule_token quoted r (''collection='' @ v) = Inr (r\<lparr>sr_collection := Some v\<rparr>)"
proof -
  have key: "rule_token quoted r (key @ ''='' @ v) = rule_token quoted r (key @ CHR ''='' # v)" for key v by simp
  note once = split_once_append [of "CHR ''=''"]
  show "rule_token quoted r (''kind='' @ slug k) = Inr (r\<lparr>sr_kind := Some k\<rparr>)"
    using once [of "''kind''" "slug k"] content_kind_round_trip [of 0 k "slug k"] by (simp add: rule_token_def parse_policy_kind_def)
  show "rule_token quoted r (''max_bytes='' @ decimal (unat n)) = Inr (r\<lparr>sr_max_bytes := Some n\<rparr>)"
    using once [of "''max_bytes''" "decimal (unat n)"] by (simp add: rule_token_def)
  show "rule_token quoted r (''source_contains='' @ v) = Inr (r\<lparr>sr_source_contains := Some v\<rparr>)"
    using once [of "''source_contains''" v] by (simp add: rule_token_def)
  show "rule_token quoted r (''target='' @ v) = Inr (r\<lparr>sr_target := Some v\<rparr>)"
    using once [of "''target''" v] by (simp add: rule_token_def)
  show "rule_token quoted r (''collection='' @ v) = Inr (r\<lparr>sr_collection := Some v\<rparr>)"
    using once [of "''collection''" v] by (simp add: rule_token_def)
qed

lemma rule_tokens_words: "rule_tokens quoted (rule_of (sr_decision r)) (rule_words r) = Inr r"
  using rule_token_known
  by (auto simp: rule_words_def rule_tokens_append option_token_def rule_of_def split: option.split)

lemma digits_plain: "c \<in> set (decimal n) \<Longrightarrow> is_graphic c \<and> c \<noteq> CHR ''#''"
  using decimal_digits [of n] by (auto simp: list_all_iff is_ascii_digit_def is_graphic_def Let_def)

lemma slug_plain: "c \<in> set (slug k) \<Longrightarrow> is_graphic c \<and> c \<noteq> CHR ''#''"
  by (cases k) (auto simp: is_graphic_def)

lemma graphic_keys:
  "\<forall>c \<in> set ''source_contains''. is_graphic c \<and> c \<noteq> CHR ''#''" "\<forall>c \<in> set ''target''. is_graphic c \<and> c \<noteq> CHR ''#''"
  "\<forall>c \<in> set ''collection''. is_graphic c \<and> c \<noteq> CHR ''#''" "\<forall>c \<in> set ''kind''. is_graphic c \<and> c \<noteq> CHR ''#''"
  "\<forall>c \<in> set ''max_bytes''. is_graphic c \<and> c \<noteq> CHR ''#''" "\<forall>c \<in> set ''allow''. is_graphic c \<and> c \<noteq> CHR ''#''"
  "\<forall>c \<in> set ''deny''. is_graphic c \<and> c \<noteq> CHR ''#''"
  by (simp_all add: is_graphic_def)

lemma rule_words_plain:
  assumes "plain_rule r" and "w \<in> set (rule_words r)"
  shows "w \<noteq> [] \<and> (\<forall>c \<in> set w. is_graphic c \<and> c \<noteq> CHR ''#'')"
proof -
  have tok: "w \<noteq> [] \<and> (\<forall>c \<in> set w. is_graphic c \<and> c \<noteq> CHR ''#'')"
    if "w \<in> set (option_token key f v)" "\<forall>c \<in> set key. is_graphic c \<and> c \<noteq> CHR ''#''"
      "\<And>x. v = Some x \<Longrightarrow> \<forall>c \<in> set (f x). is_graphic c \<and> c \<noteq> CHR ''#''" for key and f :: "'x \<Rightarrow> string" and v
  proof -
    from that(1) obtain x where x: "v = Some x" "w = key @ ''='' @ f x" by (auto simp: option_token_def split: option.splits)
    have "is_graphic CHR ''='' \<and> CHR ''='' \<noteq> CHR ''#''" by (simp add: is_graphic_def)
    with that(2) that(3) [OF x(1)] show ?thesis by (simp add: x(2) ball_Un)
  qed
  from assms(2) consider "w \<in> set (option_token ''kind'' slug (sr_kind r))"
    | "w \<in> set (option_token ''max_bytes'' (\<lambda>n. decimal (unat n)) (sr_max_bytes r))"
    | "w \<in> set (option_token ''source_contains'' (\<lambda>v. v) (sr_source_contains r))"
    | "w \<in> set (option_token ''target'' (\<lambda>v. v) (sr_target r))" | "w \<in> set (option_token ''collection'' (\<lambda>v. v) (sr_collection r))"
    by (auto simp: rule_words_def)
  then show ?thesis
  proof cases
    case 1 show ?thesis using slug_plain by (intro tok [OF 1 graphic_keys(4)]) blast
  next
    case 2 show ?thesis using digits_plain by (intro tok [OF 2 graphic_keys(5)]) blast
  next
    case 3 show ?thesis using assms(1) by (intro tok [OF 3 graphic_keys(1)]) (simp add: plain_value_def plain_rule_def)
  next
    case 4 show ?thesis using assms(1) by (intro tok [OF 4 graphic_keys(2)]) (simp add: plain_value_def plain_rule_def)
  next
    case 5 show ?thesis using assms(1) by (intro tok [OF 5 graphic_keys(3)]) (simp add: plain_value_def plain_rule_def)
  qed
qed

lemma no_graphic_breaks: "\<not> is_graphic CHR 0x0A" "\<not> is_graphic CHR 0x0D" "(of_char CHR '' '' :: nat) < 128"
  by (simp_all add: is_graphic_def)

lemma rule_line_read:
  assumes "plain_rule r"
  shows "policy_line quoted n (rule_line r) = Inr (Some r)" and "CHR 0x0A \<notin> set (rule_line r)"
    and "rule_line r = [] \<or> last (rule_line r) \<noteq> CHR 0x0D"
proof -
  define w where "w = (case sr_decision r of AllowSync \<Rightarrow> ''allow'' | DenySync \<Rightarrow> ''deny'')"
  have line: "rule_line r = w @ spaced (rule_words r)" by (simp add: rule_line_def w_def)
  have w: "w \<noteq> []" "\<forall>c \<in> set w. is_graphic c \<and> c \<noteq> CHR ''#''"
    using graphic_keys(6,7) by (auto simp: w_def split: sync_decision.split)
  have ws: "\<forall>x \<in> set (w # rule_words r). x \<noteq> [] \<and> (\<forall>c \<in> set x. is_graphic c \<and> c \<noteq> CHR ''#'')"
    using w rule_words_plain [OF assms] by simp
  then have chars: "\<forall>c \<in> set (rule_line r). (is_graphic c \<or> c = CHR '' '') \<and> c \<noteq> CHR ''#''"
    by (auto simp: line spaced_def)
  then show "CHR 0x0A \<notin> set (rule_line r)" using no_graphic_breaks(1) by fastforce
  have ne: "rule_line r \<noteq> []" using w(1) by (simp add: line)
  have last: "is_graphic (last (rule_line r))"
  proof (cases "rule_words r" rule: rev_cases)
    case Nil
    then show ?thesis using w by (simp add: line spaced_def)
  next
    case (snoc xs x)
    then show ?thesis using ws by (simp add: line spaced_def)
  qed
  then show "rule_line r = [] \<or> last (rule_line r) \<noteq> CHR 0x0D" using no_graphic_breaks(2) by fastforce
  have ascii: "\<forall>c \<in> set (rule_line r). (of_char c :: nat) < 128"
    using chars graphic_ascii no_graphic_breaks(3) by blast
  have trimmed: "trim (hd (split_on CHR ''#'' (rule_line r))) = rule_line r"
  proof -
    have "CHR ''#'' \<notin> set (rule_line r)" using chars by blast
    moreover have "is_graphic (hd (rule_line r))" using w by (cases w) (simp_all add: line)
    ultimately show ?thesis using trim_graphic_ends [OF ascii ne _ last] by (simp add: split_on_no_sep)
  qed
  have "whitespace_words (utf8_split (rule_line r)) [] = w # rule_words r"
    unfolding utf8_split_ascii_all [OF ascii] unfolding line using w(1) ws by (intro words_of_line) blast+
  moreover have "rule_tokens quoted (rule_of (sr_decision r)) (rule_words r) = Inr r" by (rule rule_tokens_words)
  ultimately show "policy_line quoted n (rule_line r) = Inr (Some r)"
    using ne trimmed by (cases "sr_decision r") (simp_all add: policy_line_def w_def)
qed

lemma policy_lines_read: "\<forall>r \<in> set rules. plain_rule r \<Longrightarrow> policy_lines quoted n (map rule_line rules) = Inr rules"
  by (induction rules arbitrary: n) (simp_all add: rule_line_read(1))

text \<open>
  C3. The policy language is read as it is documented: a list of rules written one per line as \<open>allow\<close> or \<open>deny\<close> with
  its \<open>key=value\<close> tokens is parsed to exactly those rules, in their order and with nothing lost, as long as the free
  text is printable ASCII without a space or \<open>#\<close>.
\<close>

theorem policy_text_round_trip:
  "\<forall>r \<in> set rules. plain_rule r \<Longrightarrow> sync_policy_parse quoted (unlines (map rule_line rules)) = Inr rules"
proof -
  assume plain: "\<forall>r \<in> set rules. plain_rule r"
  have "str_lines (unlines (map rule_line rules)) = map rule_line rules"
    using plain by (intro str_lines_unlines) (simp add: rule_line_read(2,3))
  then show ?thesis using policy_lines_read [OF plain] by (simp add: sync_policy_parse_def)
qed

theorem policy_text_round_trip_witness:
  "sync_policy_parse (\<lambda>s. s) (unlines [rule_line ((rule_of DenySync)\<lparr>sr_source_contains := Some ''1password''\<rparr>),
       rule_line ((rule_of AllowSync)\<lparr>sr_kind := Some TextKind, sr_max_bytes := Some 4096, sr_target := Some ''phone''\<rparr>)]) =
     Inr [(rule_of DenySync)\<lparr>sr_source_contains := Some ''1password''\<rparr>,
       (rule_of AllowSync)\<lparr>sr_kind := Some TextKind, sr_max_bytes := Some 4096, sr_target := Some ''phone''\<rparr>]"
  using policy_text_round_trip [of "[(rule_of DenySync)\<lparr>sr_source_contains := Some ''1password''\<rparr>,
       (rule_of AllowSync)\<lparr>sr_kind := Some TextKind, sr_max_bytes := Some 4096, sr_target := Some ''phone''\<rparr>]" "\<lambda>s. s"]
  by (simp add: plain_rule_def plain_value_def rule_of_def is_graphic_def)

end
