(* ===== verification/Team_Space.thy ===== *)
theory Team_Space
  imports Validation
begin

text \<open>
  Governance of shared team collections, \<open>crates/vbuff-sync/src/team/\<close>: identifiers and hashes (\<open>mod.rs\<close>), snippet approval
  (\<open>approval.rs\<close>) and the changelog (\<open>audit.rs\<close>). The approval workflow and the changelog are machines of the prelude.

  A \<open>BTreeSet\<close> whose order is never observed is a set; a \<open>[u8; 32]\<close> is a byte list of length 32; an \<open>i64\<close> time is an integer.
\<close>

section \<open>Identifiers and hashes\<close>

definition MAX_TEAM_ID_BYTES :: nat where "MAX_TEAM_ID_BYTES = 128"

definition validate_id :: "string \<Rightarrow> sync_error + unit" where
  "validate_id v = (if v = [] \<or> length v > MAX_TEAM_ID_BYTES \<or> \<not> list_all (\<lambda>b. is_ascii_alphanumeric b \<or> b \<in> set ''-_.'') v
     then Inl (Invalid ''invalid team identifier'') else Inr ())"

definition validate_hash :: "bytes \<Rightarrow> string \<Rightarrow> sync_error + unit" where
  "validate_hash v message = (if v = replicate 32 (CHR 0x00) then Inl (Invalid message) else Inr ())"

lemma validate_id_Inr [result_simps]: "validate_id v = Inr u \<longleftrightarrow> is_valid_identifier v 128"
  by (auto simp: validate_id_def MAX_TEAM_ID_BYTES_def is_valid_identifier_def is_valid_identifier_with_extra_def list_all_iff)

lemma validate_hash_Inr [result_simps]: "validate_hash v m = Inr u \<longleftrightarrow> v \<noteq> replicate 32 (CHR 0x00)"
  by (simp add: validate_hash_def)

text \<open>A check over the elements of a set, all of which fail with the same error.\<close>

definition validate_ids :: "string set \<Rightarrow> sync_error + unit" where
  "validate_ids vs = (if \<forall>v \<in> vs. is_ok (validate_id v) then Inr () else Inl (Invalid ''invalid team identifier''))"

lemma validate_ids_Inr [result_simps]: "validate_ids vs = Inr u \<longleftrightarrow> (\<forall>v \<in> vs. is_valid_identifier v 128)"
  by (auto simp: validate_ids_def is_ok_iff result_simps)

section \<open>Approval of snippets\<close>

datatype team_role = Owner | Editor | Commenter | Viewer

definition can_edit :: "team_role \<Rightarrow> bool" where "can_edit r \<longleftrightarrow> r = Owner \<or> r = Editor"
definition can_comment :: "team_role \<Rightarrow> bool" where "can_comment r \<longleftrightarrow> r = Owner \<or> r = Editor \<or> r = Commenter"
definition can_manage_policy :: "team_role \<Rightarrow> bool" where "can_manage_policy r \<longleftrightarrow> r = Owner"

datatype publication_state = DraftState | ApprovedState | PublishedState

record approval_workflow =
  aw_snippet_id :: string
  aw_revision :: u64
  aw_author_hash :: bytes
  aw_reviewer_hash :: "bytes option"
  aw_state :: publication_state

definition workflow_new :: "string \<Rightarrow> bytes \<Rightarrow> sync_error + approval_workflow" where
  "workflow_new snippet_id author_hash =
     try_then (validate_id snippet_id) (\<lambda>_.
     try_then (validate_hash author_hash ''snippet author hash is invalid'') (\<lambda>_.
     Inr \<lparr>aw_snippet_id = snippet_id, aw_revision = 1, aw_author_hash = author_hash, aw_reviewer_hash = None, aw_state = DraftState\<rparr>))"

definition workflow_approve :: "approval_workflow \<Rightarrow> team_role \<Rightarrow> bytes \<Rightarrow> sync_error + approval_workflow" where
  "workflow_approve w role reviewer_hash =
     (if \<not> can_edit role then Inl (Invalid ''role cannot approve snippets'')
      else try_then (validate_hash reviewer_hash ''snippet reviewer hash is invalid'') (\<lambda>_.
        if reviewer_hash = aw_author_hash w then Inl (Invalid ''snippet approval requires a distinct reviewer'')
        else if aw_state w \<noteq> DraftState then Inl (Invalid ''only a draft can be approved'')
        else Inr (w\<lparr>aw_reviewer_hash := Some reviewer_hash, aw_state := ApprovedState\<rparr>)))"

definition workflow_publish :: "approval_workflow \<Rightarrow> team_role \<Rightarrow> sync_error + approval_workflow" where
  "workflow_publish w role =
     (if \<not> can_edit role \<or> aw_state w \<noteq> ApprovedState
      then Inl (Invalid ''publication requires an approved revision and editor role'')
      else Inr (w\<lparr>aw_state := PublishedState\<rparr>))"

definition workflow_revise :: "approval_workflow \<Rightarrow> team_role \<Rightarrow> bytes \<Rightarrow> sync_error + approval_workflow" where
  "workflow_revise w role author_hash =
     (if \<not> can_edit role then Inl (Invalid ''role cannot revise snippets'')
      else try_then (validate_hash author_hash ''snippet author hash is invalid'') (\<lambda>_.
        case checked_add (aw_revision w) 1 of
          None \<Rightarrow> Inl (Invalid ''snippet revision overflow'')
        | Some revision \<Rightarrow> Inr (w\<lparr>aw_revision := revision, aw_author_hash := author_hash,
            aw_reviewer_hash := None, aw_state := DraftState\<rparr>)))"

text \<open>One call on the workflow; an error leaves it unchanged.\<close>

datatype workflow_op = WApprove team_role bytes | WPublish team_role | WRevise team_role bytes

definition workflow_call :: "approval_workflow \<Rightarrow> workflow_op \<Rightarrow> sync_error + approval_workflow" where
  "workflow_call w op = (case op of WApprove role reviewer \<Rightarrow> workflow_approve w role reviewer
     | WPublish role \<Rightarrow> workflow_publish w role | WRevise role author \<Rightarrow> workflow_revise w role author)"

definition workflow_step :: "approval_workflow \<Rightarrow> workflow_op \<Rightarrow> approval_workflow" where
  "workflow_step w op = (case workflow_call w op of Inr w' \<Rightarrow> w' | Inl _ \<Rightarrow> w)"

text \<open>A draft has no reviewer; whatever is past the draft was approved by someone else than its author.\<close>

definition reviewed :: "approval_workflow \<Rightarrow> bool" where
  "reviewed w \<longleftrightarrow> (case aw_state w of DraftState \<Rightarrow> aw_reviewer_hash w = None
     | _ \<Rightarrow> (\<exists>r. aw_reviewer_hash w = Some r \<and> r \<noteq> aw_author_hash w \<and> r \<noteq> replicate 32 (CHR 0x00)))"

lemma workflow_call_Inr:
  "workflow_approve w role h = Inr w' \<longleftrightarrow> can_edit role \<and> h \<noteq> replicate 32 (CHR 0x00) \<and> h \<noteq> aw_author_hash w \<and>
     aw_state w = DraftState \<and> w' = w\<lparr>aw_reviewer_hash := Some h, aw_state := ApprovedState\<rparr>"
  "workflow_publish w role = Inr w' \<longleftrightarrow> can_edit role \<and> aw_state w = ApprovedState \<and> w' = w\<lparr>aw_state := PublishedState\<rparr>"
  "workflow_revise w role h = Inr w' \<longleftrightarrow> can_edit role \<and> h \<noteq> replicate 32 (CHR 0x00) \<and>
     (\<exists>n. checked_add (aw_revision w) 1 = Some n \<and>
        w' = w\<lparr>aw_revision := n, aw_author_hash := h, aw_reviewer_hash := None, aw_state := DraftState\<rparr>)"
  by (auto simp: workflow_approve_def workflow_publish_def workflow_revise_def result_simps split: if_splits option.splits)

lemma workflow_call_keeps:
  "workflow_call w op = Inr w' \<Longrightarrow> (reviewed w \<longrightarrow> reviewed w') \<and> aw_revision w \<le> aw_revision w'"
  by (cases op) (auto simp: workflow_call_def workflow_call_Inr reviewed_def dest!: checked_succ_less)

interpretation approval: ranked_machine workflow_step reviewed aw_revision
  by unfold_locales (auto simp: workflow_step_def dest: workflow_call_keeps split: sum.split)

text \<open>
  Separation of duties: whatever sequence of approvals, publications and revisions a new snippet goes through, a
  published revision carries a reviewer who is not its author and holds a real identity, and revisions only move
  forward. An author cannot approve and publish alone, not even by revising after the approval.
\<close>

lemma published_was_reviewed:
  assumes "workflow_new snippet author = Inr w" and "aw_state (run workflow_step w ops) = PublishedState"
  shows "\<exists>r. aw_reviewer_hash (run workflow_step w ops) = Some r \<and> r \<noteq> aw_author_hash (run workflow_step w ops) \<and>
    r \<noteq> replicate 32 (CHR 0x00) \<and> 1 \<le> aw_revision (run workflow_step w ops)"
proof -
  have w: "reviewed w" "aw_revision w = 1" using assms(1) by (auto simp: workflow_new_def try_then_eq_Inr reviewed_def)
  then have "reviewed (run workflow_step w ops)" "1 \<le> aw_revision (run workflow_step w ops)"
    using approval.inv_run [OF w(1)] approval.rank_run [OF w(1), of ops] by simp_all
  with assms(2) show ?thesis by (auto simp: reviewed_def)
qed

definition sample_workflow :: approval_workflow where
  "sample_workflow = \<lparr>aw_snippet_id = ''s'', aw_revision = 1, aw_author_hash = replicate 32 (CHR 0x01),
     aw_reviewer_hash = None, aw_state = DraftState\<rparr>"

lemma published_was_reviewed_witness:
  "\<exists>r. aw_reviewer_hash (run workflow_step sample_workflow
      [WPublish Owner, WApprove Owner (replicate 32 (CHR 0x01)), WApprove Editor (replicate 32 (CHR 0x02)), WPublish Owner]) = Some r \<and>
    r \<noteq> replicate 32 (CHR 0x01)"
proof -
  let ?ops = "[WPublish Owner, WApprove Owner (replicate 32 (CHR 0x01)), WApprove Editor (replicate 32 (CHR 0x02)), WPublish Owner]"
  have new: "workflow_new ''s'' (replicate 32 (CHR 0x01)) = Inr sample_workflow"
    by (simp add: workflow_new_def validate_id_def validate_hash_def MAX_TEAM_ID_BYTES_def is_ascii_alphanumeric_def sample_workflow_def
        replicate_eq_replicate)
  have "aw_state (run workflow_step sample_workflow ?ops) = PublishedState \<and> aw_author_hash (run workflow_step sample_workflow ?ops) = replicate 32 (CHR 0x01)"
    by (simp add: workflow_step_def workflow_call_def workflow_approve_def workflow_publish_def validate_hash_def can_edit_def
        sample_workflow_def replicate_eq_replicate)
  with published_was_reviewed [OF new, of ?ops] show ?thesis by auto
qed

section \<open>The changelog\<close>

definition MAX_CHANGE_ENTRIES :: nat where "MAX_CHANGE_ENTRIES = 512"

datatype change_kind = RoleChange | PolicyChange | MetadataChange | SnippetRevisionChange | PluginApprovalChange

record collection_change =
  cc_sequence :: u64
  cc_actor_hash :: bytes
  cc_kind :: change_kind
  cc_subject_hash :: bytes
  cc_before_hash :: "bytes option"
  cc_after_hash :: bytes
  cc_changed_at_ms :: int

definition changelog_append :: "collection_change list \<Rightarrow> collection_change \<Rightarrow> sync_error + collection_change list" where
  "changelog_append log c =
     (if length log \<ge> MAX_CHANGE_ENTRIES then Inl (Invalid ''collection changelog is full'')
      else if cc_changed_at_ms c < 0 then Inl (Invalid ''collection change timestamp is invalid'')
      else try_then (validate_hash (cc_actor_hash c) ''collection change actor hash is invalid'') (\<lambda>_.
        try_then (validate_hash (cc_subject_hash c) ''collection change subject hash is invalid'') (\<lambda>_.
        try_then (case cc_before_hash c of None \<Rightarrow> Inr () | Some h \<Rightarrow> validate_hash h ''collection change before hash is invalid'') (\<lambda>_.
        try_then (validate_hash (cc_after_hash c) ''collection change after hash is invalid'') (\<lambda>_.
        try_then (if log = [] then Inr 1 else (case checked_add (cc_sequence (last log)) 1 of
            None \<Rightarrow> Inl (Invalid ''collection change sequence overflow'') | Some n \<Rightarrow> Inr n)) (\<lambda>expected.
        if cc_sequence c \<noteq> expected then Inl (Invalid ''collection change sequence is not contiguous'')
        else Inr (log @ [c])))))))"

definition changelog_step :: "collection_change list \<Rightarrow> collection_change \<Rightarrow> collection_change list" where
  "changelog_step log c = (case changelog_append log c of Inr log' \<Rightarrow> log' | Inl _ \<Rightarrow> log)"

definition contiguous :: "collection_change list \<Rightarrow> bool" where
  "contiguous log \<longleftrightarrow> length log \<le> MAX_CHANGE_ENTRIES \<and> map cc_sequence log = map of_nat [1..<Suc (length log)]"

lemma changelog_append_Inr:
  "changelog_append log c = Inr log' \<Longrightarrow> length log < MAX_CHANGE_ENTRIES \<and> log' = log @ [c] \<and>
     (if log = [] then cc_sequence c = 1 else checked_add (cc_sequence (last log)) 1 = Some (cc_sequence c))"
  by (auto simp: changelog_append_def result_simps split: if_splits option.splits)

interpretation changelog: machine changelog_step contiguous
proof
  fix log c assume log: "contiguous log"
  show "contiguous (changelog_step log c)"
  proof (cases "changelog_append log c")
    case (Inr log')
    note app = changelog_append_Inr [OF Inr]
    have "cc_sequence c = of_nat (Suc (length log))"
    proof (cases log rule: rev_cases)
      case (snoc xs x)
      with log have "cc_sequence x = of_nat (length log)" by (simp add: contiguous_def)
      with app snoc show ?thesis by (simp add: checked_add_Some)
    qed (use app in simp)
    with app log Inr show ?thesis by (auto simp: changelog_step_def contiguous_def)
  qed (simp add: changelog_step_def log)
qed

text \<open>The changelog never holds more than 512 entries, and entry \<open>i\<close> is numbered \<open>i + 1\<close>: none is missing or repeated.\<close>

lemma changelog_contiguous:
  "i < length (run changelog_step [] cs) \<Longrightarrow>
     length (run changelog_step [] cs) \<le> 512 \<and> cc_sequence (run changelog_step [] cs ! i) = of_nat (Suc i)"
proof -
  let ?log = "run changelog_step [] cs"
  assume i: "i < length ?log"
  have c: "contiguous ?log" by (rule changelog.inv_run) (simp add: contiguous_def)
  have "cc_sequence (?log ! i) = map cc_sequence ?log ! i" using i by simp
  also have "\<dots> = map of_nat [1..<Suc (length ?log)] ! i" using c by (simp only: contiguous_def)
  also have "\<dots> = of_nat (Suc i)" using i by (simp del: upt_Suc)
  finally show ?thesis using c by (simp add: contiguous_def MAX_CHANGE_ENTRIES_def)
qed

end
