(* ===== verification/Team_Sharing.thy ===== *)
theory Team_Sharing
  imports Team_Space
begin

text \<open>
  What a team shares and what it refuses, \<open>crates/vbuff-sync/src/team/\<close>: read receipts, deny lists and variables
  (\<open>privacy.rs\<close>), the policy simulation (\<open>policy.rs\<close>), imports and plugin approvals (\<open>import.rs\<close>), leases, grants, forks,
  comments and broadcasts (\<open>sharing.rs\<close>). BLAKE3 with its hexadecimal output is the parameter \<open>digest\<close>.
\<close>

section \<open>Read receipts\<close>

definition MAX_RECEIPTS :: nat where "MAX_RECEIPTS = 4096"

record read_receipt_ledger =
  rr_enabled :: bool
  rr_receipts :: "(string, int) btree"

definition receipts_new :: "bool \<Rightarrow> read_receipt_ledger" where
  "receipts_new enabled = \<lparr>rr_enabled = enabled, rr_receipts = []\<rparr>"

definition receipt_preimage :: "string \<Rightarrow> string \<Rightarrow> bytes \<Rightarrow> bytes" where
  "receipt_preimage collection_id item_id member_hash =
     ''vbuff-team-read-receipt-v1'' @ [CHR 0x00] @ collection_id @ [CHR 0x00] @ item_id @ [CHR 0x00] @ member_hash"

definition receipt_key :: "(bytes \<Rightarrow> string) \<Rightarrow> string \<Rightarrow> string \<Rightarrow> bytes \<Rightarrow> string" where
  "receipt_key digest collection_id item_id member_hash = digest (receipt_preimage collection_id item_id member_hash)"

definition record_receipt ::
  "(bytes \<Rightarrow> string) \<Rightarrow> read_receipt_ledger \<Rightarrow> string \<Rightarrow> string \<Rightarrow> bytes \<Rightarrow> int \<Rightarrow> sync_error + (read_receipt_ledger \<times> bool)" where
  "record_receipt digest l collection_id item_id member_hash read_at_ms =
     try_then (validate_id collection_id) (\<lambda>_.
     try_then (validate_id item_id) (\<lambda>_.
     try_then (validate_hash member_hash ''read receipt member hash is invalid'') (\<lambda>_.
     if read_at_ms < 0 then Inl (Invalid ''read receipt timestamp is invalid'')
     else if \<not> rr_enabled l then Inr (l, False)
     else let key = receipt_key digest collection_id item_id member_hash in
       if \<not> bt_contains (rr_receipts l) key \<and> length (rr_receipts l) \<ge> MAX_RECEIPTS
       then Inl (Invalid ''read receipt ledger is full'')
       else Inr (l\<lparr>rr_receipts := bt_insert key read_at_ms (rr_receipts l)\<rparr>, True))))"

section \<open>Deny lists and variables\<close>

record team_denylist =
  td_source_app_ids :: "string set"
  td_detector_ids :: "string set"

definition denylist_validate :: "team_denylist \<Rightarrow> sync_error + unit" where
  "denylist_validate d =
     (if card (td_source_app_ids d) > 1024 \<or> card (td_detector_ids d) > 1024 then Inl (Invalid ''team denylist is too large'')
      else validate_ids (td_source_app_ids d \<union> td_detector_ids d))"

definition denies_source :: "team_denylist \<Rightarrow> string \<Rightarrow> sync_error + bool" where
  "denies_source d source = try_then (denylist_validate d) (\<lambda>_. try_then (validate_id source) (\<lambda>_. Inr (source \<in> td_source_app_ids d)))"

definition MAX_VARIABLES :: nat where "MAX_VARIABLES = 128"
definition MAX_VARIABLE_VALUE_BYTES :: nat where "MAX_VARIABLE_VALUE_BYTES = 4 * 1024"

type_synonym variable_catalog = "(string, string) btree"

definition validate_variable_name :: "string \<Rightarrow> sync_error + unit" where
  "validate_variable_name v = try_then (validate_id v) (\<lambda>_.
     if starts_with ''.'' v \<or> ends_with ''.'' v then Inl (Invalid ''invalid shared variable name'') else Inr ())"

definition catalog_new :: "(string, string) btree \<Rightarrow> sync_error + variable_catalog" where
  "catalog_new values =
     (if length values > MAX_VARIABLES then Inl (Invalid ''too many shared variables'')
      else try_then (try_all (\<lambda>(name, v). try_then (validate_variable_name name) (\<lambda>_.
          if v = [] \<or> length v > MAX_VARIABLE_VALUE_BYTES \<or> has_control v
          then Inl (Invalid ''invalid shared variable value'') else Inr ())) values) (\<lambda>_. Inr values))"

definition catalog_resolve :: "variable_catalog \<Rightarrow> string \<Rightarrow> string option" where
  "catalog_resolve c name = map_of c name"

record config_audit_snapshot =
  as_member_hash :: bytes
  as_policy_hash :: bytes
  as_policy_version :: u64
  as_capture_healthy :: bool
  as_denied_source_count :: u32
  as_unavailable_capability_count :: u16

definition audit_snapshot_validate :: "config_audit_snapshot \<Rightarrow> sync_error + unit" where
  "audit_snapshot_validate s =
     try_then (validate_hash (as_member_hash s) ''audit member hash is invalid'') (\<lambda>_.
     try_then (validate_hash (as_policy_hash s) ''audit policy hash is invalid'') (\<lambda>_.
     if as_policy_version s = 0 then Inl (Invalid ''audit policy version is invalid'') else Inr ()))"

record synthetic_case =
  sy_synthetic :: bool
  sy_source_app_id :: string
  sy_detector_ids :: "string set"

record synthetic_decision =
  sd_denied :: bool
  sd_reason :: string

definition simulate_team_policy :: "team_denylist \<Rightarrow> synthetic_case \<Rightarrow> sync_error + synthetic_decision" where
  "simulate_team_policy policy cs =
     (if \<not> sy_synthetic cs then Inl (Invalid ''team policy simulation accepts synthetic cases only'')
      else try_then (validate_id (sy_source_app_id cs)) (\<lambda>_.
        if card (sy_detector_ids cs) > 1024 then Inl (Invalid ''synthetic detector set is too large'')
        else try_then (validate_ids (sy_detector_ids cs)) (\<lambda>_.
        try_then (denylist_validate policy) (\<lambda>_.
        if sy_source_app_id cs \<in> td_source_app_ids policy then Inr \<lparr>sd_denied = True, sd_reason = ''source_app''\<rparr>
        else if \<exists>detector \<in> sy_detector_ids cs. detector \<in> td_detector_ids policy then Inr \<lparr>sd_denied = True, sd_reason = ''detector''\<rparr>
        else Inr \<lparr>sd_denied = False, sd_reason = ''allowed''\<rparr>))))"

section \<open>Imports and plugin approvals\<close>

definition MAX_IMPORT_ITEMS :: nat where "MAX_IMPORT_ITEMS = 512"
definition MAX_IMPORT_VARIABLES :: nat where "MAX_IMPORT_VARIABLES = 128"
definition MAX_IMPORT_ACTIONS :: nat where "MAX_IMPORT_ACTIONS = 64"
definition MAX_ALLOWED_ACTIONS :: nat where "MAX_ALLOWED_ACTIONS = 256"

record snippet_import =
  si_snippet_id :: string
  si_template :: string
  si_variables :: "string set"
  si_action_ids :: "string set"

record import_validation =
  iv_accepted_ids :: "string list"
  iv_rejected :: "(string, string) btree"

definition import_rejection :: "variable_catalog \<Rightarrow> string set \<Rightarrow> snippet_import list \<Rightarrow> snippet_import \<Rightarrow> string option" where
  "import_rejection catalog allowed candidates c =
     (if count_list (map si_snippet_id candidates) (si_snippet_id c) > 1 then Some ''duplicate_snippet_id''
      else if \<not> is_ok (validate_id (si_snippet_id c)) \<or> si_template c = [] \<or> length (si_template c) > 64 * 1024
          \<or> CHR 0x00 \<in> set (si_template c) then Some ''invalid_snippet''
      else if card (si_variables c) > MAX_IMPORT_VARIABLES \<or> card (si_action_ids c) > MAX_IMPORT_ACTIONS
          \<or> (\<exists>v \<in> si_variables c \<union> si_action_ids c. \<not> is_ok (validate_id v)) then Some ''invalid_snippet_scope''
      else if \<exists>name \<in> si_variables c. \<not> bt_contains catalog name then Some ''unknown_variable''
      else if \<not> si_action_ids c \<subseteq> allowed then Some ''unsafe_action''
      else None)"

definition import_candidate ::
  "variable_catalog \<Rightarrow> string set \<Rightarrow> snippet_import list \<Rightarrow> snippet_import \<Rightarrow> import_validation \<Rightarrow> import_validation" where
  "import_candidate catalog allowed candidates c v = (case import_rejection catalog allowed candidates c of
     Some reason \<Rightarrow> v\<lparr>iv_rejected := bt_insert (si_snippet_id c) reason (iv_rejected v)\<rparr>
   | None \<Rightarrow> v\<lparr>iv_accepted_ids := iv_accepted_ids v @ [si_snippet_id c]\<rparr>)"

definition validate_team_import :: "snippet_import list \<Rightarrow> variable_catalog \<Rightarrow> string set \<Rightarrow> import_validation" where
  "validate_team_import candidates catalog allowed =
     (if length candidates > MAX_IMPORT_ITEMS
      then \<lparr>iv_accepted_ids = [], iv_rejected = [(''batch'', ''too_many_import_items'')]\<rparr>
      else if card allowed > MAX_ALLOWED_ACTIONS \<or> (\<exists>a \<in> allowed. \<not> is_ok (validate_id a))
      then \<lparr>iv_accepted_ids = [], iv_rejected = [(''batch'', ''invalid_action_allowlist'')]\<rparr>
      else fold (import_candidate catalog allowed candidates) candidates \<lparr>iv_accepted_ids = [], iv_rejected = []\<rparr>)"

record plugin_approval =
  pa_team_id :: string
  pa_plugin_id :: string
  pa_manifest_hash :: bytes
  pa_collection_ids :: "string set"
  pa_capability_ids :: "string set"

definition plugin_approval_validate :: "plugin_approval \<Rightarrow> sync_error + unit" where
  "plugin_approval_validate a =
     try_then (validate_id (pa_team_id a)) (\<lambda>_.
     try_then (validate_id (pa_plugin_id a)) (\<lambda>_.
     if pa_manifest_hash a = replicate 32 (CHR 0x00) \<or> pa_collection_ids a = {} \<or> card (pa_collection_ids a) > 64
        \<or> pa_capability_ids a = {} \<or> card (pa_capability_ids a) > 32
     then Inl (Invalid ''plugin approval must have bounded explicit scope'')
     else validate_ids (pa_collection_ids a \<union> pa_capability_ids a)))"

definition plugin_approval_allows :: "plugin_approval \<Rightarrow> string \<Rightarrow> bytes \<Rightarrow> string \<Rightarrow> string \<Rightarrow> bool" where
  "plugin_approval_allows a team_id manifest_hash collection_id capability_id \<longleftrightarrow>
     is_ok (plugin_approval_validate a) \<and> pa_team_id a = team_id \<and> pa_manifest_hash a = manifest_hash \<and>
     collection_id \<in> pa_collection_ids a \<and> capability_id \<in> pa_capability_ids a"

section \<open>Leases, grants, forks, comments, broadcasts\<close>

definition MAX_COMMENT_BYTES :: nat where "MAX_COMMENT_BYTES = 2 * 1024"

record clip_lease =
  ls_item_id :: string
  ls_expires_at_ms :: int

definition clip_lease_validate :: "clip_lease \<Rightarrow> sync_error + unit" where
  "clip_lease_validate l = try_then (validate_id (ls_item_id l)) (\<lambda>_.
     if ls_expires_at_ms l \<le> 0 then Inl (Invalid ''shared clip expiry must be positive'') else Inr ())"

definition clip_lease_active :: "clip_lease \<Rightarrow> int \<Rightarrow> bool" where
  "clip_lease_active l now \<longleftrightarrow> now \<ge> 0 \<and> is_ok (clip_lease_validate l) \<and> now < ls_expires_at_ms l"

record share_grant =
  sg_share_id :: string
  sg_item_hash :: bytes
  sg_expires_at_ms :: int
  sg_revoked_at_ms :: "int option"

definition share_grant_validate :: "share_grant \<Rightarrow> sync_error + unit" where
  "share_grant_validate g = try_then (validate_id (sg_share_id g)) (\<lambda>_.
     try_then (validate_hash (sg_item_hash g) ''external share item hash is invalid'') (\<lambda>_.
     if sg_expires_at_ms g \<le> 0 then Inl (Invalid ''share expiry must be positive'')
     else if (case sg_revoked_at_ms g of None \<Rightarrow> False | Some revoked \<Rightarrow> revoked < 0 \<or> revoked > sg_expires_at_ms g)
     then Inl (Invalid ''share revocation cannot follow expiry'') else Inr ()))"

definition share_grant_active :: "share_grant \<Rightarrow> int \<Rightarrow> bool" where
  "share_grant_active g now \<longleftrightarrow> now \<ge> 0 \<and> is_ok (share_grant_validate g) \<and> now < sg_expires_at_ms g \<and>
     (case sg_revoked_at_ms g of None \<Rightarrow> True | Some revoked \<Rightarrow> now < revoked)"

definition share_grant_revoke :: "share_grant \<Rightarrow> int \<Rightarrow> sync_error + share_grant" where
  "share_grant_revoke g now = try_then (share_grant_validate g) (\<lambda>_.
     if now < 0 then Inl (Invalid ''share revocation timestamp is invalid'')
     else Inr (if sg_revoked_at_ms g = None then g\<lparr>sg_revoked_at_ms := Some (min now (sg_expires_at_ms g))\<rparr> else g))"

record fork_plan =
  fp_source_collection_id :: string
  fp_private_collection_id :: string
  fp_source_revision :: u64
  fp_item_count :: nat

definition fork_plan_validate :: "fork_plan \<Rightarrow> nat \<Rightarrow> sync_error + unit" where
  "fork_plan_validate f maximum = try_then (validate_id (fp_source_collection_id f)) (\<lambda>_.
     try_then (validate_id (fp_private_collection_id f)) (\<lambda>_.
     if fp_source_collection_id f = fp_private_collection_id f then Inl (Invalid ''fork target must differ from source'')
     else if fp_item_count f > maximum then Inl (Invalid ''fork exceeds item limit'') else Inr ()))"

record conflict_comment =
  co_comment_id :: string
  co_snippet_id :: string
  co_author_hash :: bytes
  co_body :: string
  co_created_at_ms :: int

definition conflict_comment_validate :: "conflict_comment \<Rightarrow> team_role \<Rightarrow> sync_error + unit" where
  "conflict_comment_validate c role =
     (if \<not> can_comment role then Inl (Invalid ''role cannot comment'')
      else try_then (validate_id (co_comment_id c)) (\<lambda>_. try_then (validate_id (co_snippet_id c)) (\<lambda>_.
        try_then (validate_hash (co_author_hash c) ''comment author hash is invalid'') (\<lambda>_.
        if trim (co_body c) = [] \<or> length (co_body c) > MAX_COMMENT_BYTES \<or> has_control (co_body c) \<or> co_created_at_ms c < 0
        then Inl (Invalid ''invalid conflict comment'') else Inr ()))))"

datatype broadcast_priority = ImportantBroadcast | EmergencyPriority

record emergency_broadcast =
  eb_broadcast_id :: string
  eb_revision :: u64
  eb_priority :: broadcast_priority
  eb_message :: string
  eb_expires_at_ms :: int

definition broadcast_validate :: "emergency_broadcast \<Rightarrow> team_role \<Rightarrow> int \<Rightarrow> sync_error + unit" where
  "broadcast_validate b role now =
     (if \<not> can_manage_policy role then Inl (Invalid ''only an owner can publish an emergency broadcast'')
      else try_then (validate_id (eb_broadcast_id b)) (\<lambda>_.
        if now < 0 \<or> eb_revision b = 0 \<or> trim (eb_message b) = [] \<or> length (eb_message b) > MAX_COMMENT_BYTES
           \<or> has_control (eb_message b) \<or> eb_expires_at_ms b \<le> now
        then Inl (Invalid ''invalid emergency broadcast'') else Inr ()))"

section \<open>Properties\<close>

text \<open>A receipt key separates its three parts, as identifiers hold no NUL byte, so two keys that agree name the same reading.\<close>

lemma nul_split: "CHR 0x00 \<notin> set a \<Longrightarrow> CHR 0x00 \<notin> set b \<Longrightarrow> a @ CHR 0x00 # x = b @ CHR 0x00 # y \<longleftrightarrow> a = b \<and> x = y"
proof (induction a arbitrary: b)
  case Nil then show ?case by (cases b) auto
next
  case (Cons c a) then show ?case by (cases b) auto
qed

lemma identifier_no_nul: "is_valid_identifier s n \<Longrightarrow> CHR 0x00 \<notin> set s"
  by (auto dest: identifier_byte_ascii)

lemma receipt_key_inject:
  assumes "record_receipt digest l c i m t = Inr (l', True)" and "record_receipt digest k c' i' m' t' = Inr (k', True)"
    and "receipt_key digest c i m = receipt_key digest c' i' m'"
    and "digest (receipt_preimage c i m) = digest (receipt_preimage c' i' m') \<Longrightarrow> receipt_preimage c i m = receipt_preimage c' i' m'"
  shows "c = c' \<and> i = i' \<and> m = m'"
proof -
  have ids: "is_valid_identifier c 128" "is_valid_identifier i 128" "is_valid_identifier c' 128" "is_valid_identifier i' 128"
    using assms(1,2) by (auto simp: record_receipt_def result_simps)
  have "c @ CHR 0x00 # i @ CHR 0x00 # m = c' @ CHR 0x00 # i' @ CHR 0x00 # m'"
    using assms(3,4) by (simp add: receipt_key_def receipt_preimage_def)
  with ids show ?thesis by (simp add: nul_split identifier_no_nul)
qed

text \<open>Nothing is recorded while receipts are off, and the ledger holds at most 4096 of them.\<close>

lemma record_receipt_bounded:
  assumes "record_receipt digest l c i m t = Inr (l', recorded)" and "bt_ok (rr_receipts l)" and "length (rr_receipts l) \<le> MAX_RECEIPTS"
  shows "bt_ok (rr_receipts l') \<and> length (rr_receipts l') \<le> MAX_RECEIPTS \<and> recorded = rr_enabled l \<and> (\<not> rr_enabled l \<longrightarrow> l' = l)"
  using assms by (auto simp: record_receipt_def result_simps Let_def length_bt_insert split: if_splits)

lemma import_fold:
  assumes "bt_ok (iv_rejected v)"
  shows "iv_accepted_ids (fold (import_candidate catalog allowed all) cs v) =
      iv_accepted_ids v @ map si_snippet_id (filter (\<lambda>c. import_rejection catalog allowed all c = None) cs) \<and>
    bt_ok (iv_rejected (fold (import_candidate catalog allowed all) cs v)) \<and>
    fst ` set (iv_rejected (fold (import_candidate catalog allowed all) cs v)) =
      fst ` set (iv_rejected v) \<union> {si_snippet_id c | c. c \<in> set cs \<and> import_rejection catalog allowed all c \<noteq> None}"
  using assms
proof (induction cs arbitrary: v)
  case (Cons c cs)
  then have "bt_ok (iv_rejected (import_candidate catalog allowed all c v))"
    by (simp add: import_candidate_def split: option.split)
  note step = Cons.IH [OF this]
  show ?case
  proof (cases "import_rejection catalog allowed all c")
    case None
    with step show ?thesis by (auto simp: import_candidate_def)
  next
    case (Some reason)
    with step show ?thesis by (auto simp: import_candidate_def)
  qed
qed simp

lemma import_rejection_None:
  "import_rejection catalog allowed candidates c = None \<longleftrightarrow>
     count_list (map si_snippet_id candidates) (si_snippet_id c) \<le> 1 \<and> is_valid_identifier (si_snippet_id c) 128 \<and>
     si_template c \<noteq> [] \<and> length (si_template c) \<le> 64 * 1024 \<and> CHR 0x00 \<notin> set (si_template c) \<and>
     card (si_variables c) \<le> MAX_IMPORT_VARIABLES \<and> card (si_action_ids c) \<le> MAX_IMPORT_ACTIONS \<and>
     (\<forall>v \<in> si_variables c \<union> si_action_ids c. is_valid_identifier v 128) \<and>
     (\<forall>name \<in> si_variables c. bt_contains catalog name) \<and> si_action_ids c \<subseteq> allowed"
  by (auto simp: import_rejection_def is_ok_iff result_simps not_le)

lemma distinct_names:
  "count_list (map f cs) (f c) \<le> 1 \<Longrightarrow> c \<in> set cs \<Longrightarrow> d \<in> set cs \<Longrightarrow> f c = f d \<Longrightarrow> c = d"
  by (induction cs) (auto simp: count_list_0_iff image_iff split: if_splits)

lemma distinct_accepted:
  "\<forall>c \<in> set cs. P c \<longrightarrow> count_list (map f cs) (f c) \<le> 1 \<Longrightarrow> distinct (map f (filter P cs))"
proof (induction cs)
  case (Cons c cs)
  have "\<forall>d \<in> set cs. P d \<longrightarrow> count_list (map f cs) (f d) \<le> 1"
    using Cons.prems by (auto split: if_splits)
  moreover have "f c \<notin> f ` set cs" if "P c"
    using Cons.prems that count_list_0_iff [of "map f cs" "f c"] by auto
  ultimately show ?case using Cons.IH by auto
qed simp

text \<open>
  An import never drops a candidate silently and never widens what a team allows: every candidate of a batch that is
  looked at is either accepted or reported as rejected, never both; each accepted name stands for exactly one
  candidate, which is well formed, uses only catalog variables, and asks for no action outside the allow list.
\<close>

lemma import_partitions_candidates:
  assumes "length candidates \<le> 512" and "card allowed \<le> 256" and "\<forall>a \<in> allowed. is_valid_identifier a 128"
  shows "let v = validate_team_import candidates catalog allowed in
    distinct (iv_accepted_ids v) \<and> set (iv_accepted_ids v) \<inter> fst ` set (iv_rejected v) = {} \<and>
    set (iv_accepted_ids v) \<union> fst ` set (iv_rejected v) = si_snippet_id ` set candidates \<and>
    (\<forall>name \<in> set (iv_accepted_ids v). \<exists>!c. c \<in> set candidates \<and> si_snippet_id c = name \<and>
       is_valid_identifier name 128 \<and> (\<forall>x \<in> si_variables c. bt_contains catalog x) \<and> si_action_ids c \<subseteq> allowed)"
proof -
  let ?rej = "import_rejection catalog allowed candidates"
  let ?v = "validate_team_import candidates catalog allowed"
  have v: "?v = fold (import_candidate catalog allowed candidates) candidates \<lparr>iv_accepted_ids = [], iv_rejected = []\<rparr>"
    using assms by (auto simp: validate_team_import_def MAX_IMPORT_ITEMS_def MAX_ALLOWED_ACTIONS_def is_ok_iff result_simps)
  have acc: "iv_accepted_ids ?v = map si_snippet_id (filter (\<lambda>c. ?rej c = None) candidates)"
    and rej: "fst ` set (iv_rejected ?v) = {si_snippet_id c | c. c \<in> set candidates \<and> ?rej c \<noteq> None}"
    using import_fold [of "\<lparr>iv_accepted_ids = [], iv_rejected = []\<rparr>" catalog allowed candidates candidates] by (simp_all add: v)
  have once: "c = d" if "c \<in> set candidates" "d \<in> set candidates" "si_snippet_id c = si_snippet_id d" "?rej c = None" for c d
    using that distinct_names [of si_snippet_id candidates c d] by (simp add: import_rejection_None)
  have ok: "count_list (map si_snippet_id candidates) (si_snippet_id c) \<le> 1" if "?rej c = None" for c
    using that by (simp add: import_rejection_None)
  have "distinct (iv_accepted_ids ?v)" unfolding acc by (rule distinct_accepted) (use ok in blast)
  moreover have "set (iv_accepted_ids ?v) \<inter> fst ` set (iv_rejected ?v) = {}"
    unfolding acc rej using once by fastforce
  moreover have "set (iv_accepted_ids ?v) \<union> fst ` set (iv_rejected ?v) = si_snippet_id ` set candidates"
    unfolding acc rej by auto
  moreover have "\<exists>!c. c \<in> set candidates \<and> si_snippet_id c = name \<and> is_valid_identifier name 128 \<and>
      (\<forall>x \<in> si_variables c. bt_contains catalog x) \<and> si_action_ids c \<subseteq> allowed" if name: "name \<in> set (iv_accepted_ids ?v)" for name
  proof -
    obtain c where c: "c \<in> set candidates" "?rej c = None" "name = si_snippet_id c" using name unfolding acc by auto
    then have "is_valid_identifier name 128 \<and> (\<forall>x \<in> si_variables c. bt_contains catalog x) \<and> si_action_ids c \<subseteq> allowed"
      by (simp add: import_rejection_None)
    moreover have "d = c" if "d \<in> set candidates" "si_snippet_id d = name" for d
      using once [of c d] c that by simp
    ultimately show ?thesis using c by blast
  qed
  ultimately show ?thesis by (simp add: Let_def)
qed

definition sample_import :: "string \<Rightarrow> string set \<Rightarrow> snippet_import" where
  "sample_import name actions = \<lparr>si_snippet_id = name, si_template = ''hi'', si_variables = {''user''}, si_action_ids = actions\<rparr>"

lemma import_partitions_candidates_witness:
  "let v = validate_team_import [sample_import ''a'' {''paste''}, sample_import ''b'' {''shell''}] [(''user'', ''Ann'')] {''paste''} in
     set (iv_accepted_ids v) \<union> fst ` set (iv_rejected v) = {''a'', ''b''}"
proof -
  have "is_valid_identifier ''paste'' 128"
    by (simp add: is_valid_identifier_def is_valid_identifier_with_extra_def is_ascii_alphanumeric_def)
  then show ?thesis
    using import_partitions_candidates [of "[sample_import ''a'' {''paste''}, sample_import ''b'' {''shell''}]" "{''paste''}" "[(''user'', ''Ann'')]"]
    by (simp add: Let_def sample_import_def)
qed

text \<open>A revoked share is inactive from that moment on, and a later revocation does not move the moment.\<close>

lemma revoked_share_inactive:
  assumes "share_grant_revoke g now = Inr g'" and "now \<le> t"
  shows "\<not> share_grant_active g' t \<or> (\<exists>r. sg_revoked_at_ms g = Some r \<and> t < r)"
  using assms by (auto simp: share_grant_revoke_def share_grant_active_def result_simps split: if_splits option.splits)

lemma revoke_once:
  "share_grant_revoke g now = Inr g' \<Longrightarrow> share_grant_revoke g' later = Inr g'' \<Longrightarrow> g'' = g'"
  by (auto simp: share_grant_revoke_def result_simps split: if_splits)

text \<open>A plugin approval holds for the very manifest that was approved and for the collections and capabilities it names.\<close>

lemma approval_scope:
  "plugin_approval_allows a team m c k \<Longrightarrow> m \<noteq> replicate 32 (CHR 0x00) \<and> is_valid_identifier c 128 \<and> is_valid_identifier k 128 \<and>
     card (pa_collection_ids a) \<le> 64 \<and> card (pa_capability_ids a) \<le> 32"
  by (auto simp: plugin_approval_allows_def plugin_approval_validate_def is_ok_iff result_simps split: if_splits)

text \<open>The simulation denies exactly what the deny list names, and only synthetic cases are looked at.\<close>

lemma simulation_sound:
  "simulate_team_policy d cs = Inr r \<Longrightarrow> sy_synthetic cs \<and>
     (sd_denied r \<longleftrightarrow> sy_source_app_id cs \<in> td_source_app_ids d \<or> sy_detector_ids cs \<inter> td_detector_ids d \<noteq> {}) \<and>
     (denies_source d (sy_source_app_id cs) = Inr True \<longrightarrow> sd_denied r)"
  by (auto simp: simulate_team_policy_def denies_source_def result_simps split: if_splits)

end
