(* ===== verification/Trust_Consent.thy ===== *)
theory Trust_Consent
  imports Secret Validation Text_Format
begin

text \<open>
  Consent and detector updates of \<open>crates/vbuff-core/src/trust/\<close>: the choices for sensitive sources, the local-only
  policy, unlock timeouts and countdowns of \<open>consent.rs\<close>, and the signed detector updates of \<open>secrets.rs\<close>. \<open>blake3\<close>,
  \<open>sign\<close> and \<open>verify\<close> are the primitives of other crates; a signature of any other length than 64 bytes is malformed.
\<close>

section \<open>Consent\<close>

definition CONSENT_MAX_SOURCE_BYTES :: nat where "CONSENT_MAX_SOURCE_BYTES = 512"
definition MAX_SOURCE_CHOICES :: nat where "MAX_SOURCE_CHOICES = 1024"
definition CONSENT_MAX_DEVICE_BYTES :: nat where "CONSENT_MAX_DEVICE_BYTES = 512"
definition MAX_DEVICE_TIMEOUTS :: nat where "MAX_DEVICE_TIMEOUTS = 256"
definition MIN_UNLOCK_TIMEOUT :: duration where "MIN_UNLOCK_TIMEOUT = secs 30"
definition MAX_UNLOCK_TIMEOUT :: duration where "MAX_UNLOCK_TIMEOUT = secs (24 * 60 * 60)"
definition SOURCE_HASH_DOMAIN :: bytes where "SOURCE_HASH_DOMAIN = ''vbuff-sensitive-source-v1'' @ [CHR 0x00]"
definition DEVICE_HASH_DOMAIN :: bytes where "DEVICE_HASH_DOMAIN = ''vbuff-unlock-device-v1'' @ [CHR 0x00]"

datatype source_choice = ChooseSkip | ChooseEphemeral | ChooseNormal
datatype source_decision = DecideNormally | DecidePrompt | DecideSkip | DecideEphemeral duration

record source_consent =
  so_choices :: "(bytes, source_choice) btree"
  so_ephemeral_ttl :: duration

definition bounded_identity_hash :: "(bytes \<Rightarrow> bytes) \<Rightarrow> bytes \<Rightarrow> string \<Rightarrow> nat \<Rightarrow> bytes option" where
  "bounded_identity_hash blake3 domain v maximum_bytes = (let v = trim v in
     if v = [] \<or> length v > maximum_bytes \<or> has_control v then None else Some (blake3 (domain @ v)))"

definition consent_new :: "duration \<Rightarrow> source_consent option" where
  "consent_new ttl = (if ttl \<noteq> 0 \<and> ttl \<le> secs (24 * 60 * 60) then Some \<lparr>so_choices = [], so_ephemeral_ttl = ttl\<rparr> else None)"

definition consent_decide :: "(bytes \<Rightarrow> bytes) \<Rightarrow> source_consent \<Rightarrow> string \<Rightarrow> bool \<Rightarrow> source_decision" where
  "consent_decide blake3 s source_app sensitive_source =
     (if \<not> sensitive_source then DecideNormally
      else (case bounded_identity_hash blake3 SOURCE_HASH_DOMAIN source_app CONSENT_MAX_SOURCE_BYTES of
          None \<Rightarrow> DecideSkip
        | Some key \<Rightarrow> (case map_of (so_choices s) key of
              None \<Rightarrow> DecidePrompt
            | Some ChooseSkip \<Rightarrow> DecideSkip
            | Some ChooseEphemeral \<Rightarrow> DecideEphemeral (so_ephemeral_ttl s)
            | Some ChooseNormal \<Rightarrow> DecideNormally)))"

definition consent_remember :: "(bytes \<Rightarrow> bytes) \<Rightarrow> source_consent \<Rightarrow> string \<Rightarrow> source_choice \<Rightarrow> source_consent \<times> bool" where
  "consent_remember blake3 s source_app choice =
     (case bounded_identity_hash blake3 SOURCE_HASH_DOMAIN source_app CONSENT_MAX_SOURCE_BYTES of
        None \<Rightarrow> (s, False)
      | Some key \<Rightarrow> if \<not> bt_contains (so_choices s) key \<and> length (so_choices s) \<ge> MAX_SOURCE_CHOICES then (s, False)
          else (s\<lparr>so_choices := bt_insert key choice (so_choices s)\<rparr>, True))"

definition consent_forget :: "(bytes \<Rightarrow> bytes) \<Rightarrow> source_consent \<Rightarrow> string \<Rightarrow> source_consent \<times> bool" where
  "consent_forget blake3 s source_app =
     (case bounded_identity_hash blake3 SOURCE_HASH_DOMAIN source_app CONSENT_MAX_SOURCE_BYTES of
        None \<Rightarrow> (s, False)
      | Some key \<Rightarrow> (s\<lparr>so_choices := bt_remove key (so_choices s)\<rparr>, bt_contains (so_choices s) key))"

datatype consent_op = RememberChoice string source_choice | ForgetChoice string

fun consent_step :: "(bytes \<Rightarrow> bytes) \<Rightarrow> source_consent \<Rightarrow> consent_op \<Rightarrow> source_consent" where
  "consent_step blake3 s (RememberChoice app choice) = fst (consent_remember blake3 s app choice)"
| "consent_step blake3 s (ForgetChoice app) = fst (consent_forget blake3 s app)"

definition consent_ok :: "source_consent \<Rightarrow> bool" where
  "consent_ok s \<longleftrightarrow> bt_ok (so_choices s) \<and> length (so_choices s) \<le> MAX_SOURCE_CHOICES"

lemma consent_step_ok:
  assumes "consent_ok s" shows "consent_ok (consent_step blake3 s op)"
proof (cases op)
  case (ForgetChoice app)
  then show ?thesis using assms length_bt_remove_le [of _ "so_choices s"]
    by (auto simp: consent_forget_def consent_ok_def intro: order_trans split: option.split)
qed (use assms in \<open>auto simp: consent_remember_def consent_ok_def length_bt_insert split: option.split\<close>)

interpretation consent: machine "consent_step blake3" consent_ok for blake3
  by unfold_locales (rule consent_step_ok)

text \<open>A sensitive source is captured normally only if its user said so, and not any more once that is forgotten.\<close>

lemma normal_needs_choice:
  "consent_decide blake3 s app True = DecideNormally \<longleftrightarrow>
     (\<exists>key. bounded_identity_hash blake3 SOURCE_HASH_DOMAIN app CONSENT_MAX_SOURCE_BYTES = Some key \<and> map_of (so_choices s) key = Some ChooseNormal)"
  by (auto simp: consent_decide_def split: option.splits source_choice.splits)

lemma forgotten_source_prompts:
  "consent_decide blake3 (fst (consent_forget blake3 s app)) app True \<in> {DecidePrompt, DecideSkip}"
  by (auto simp: consent_decide_def consent_forget_def split: option.splits)

lemma remembered_choice_decides:
  "consent_remember blake3 s app choice = (s', True) \<Longrightarrow> consent_decide blake3 s' app True =
     (case choice of ChooseSkip \<Rightarrow> DecideSkip | ChooseEphemeral \<Rightarrow> DecideEphemeral (so_ephemeral_ttl s) | ChooseNormal \<Rightarrow> DecideNormally)"
  by (auto simp: consent_remember_def consent_decide_def split: option.splits if_splits source_choice.splits)

datatype external_action = SyncAction | ExportAction | WebhookAction | PluginAction | AiAction | NetworkRequest | LocalCapture | LocalPaste

definition local_only_allows :: "bool \<Rightarrow> external_action \<Rightarrow> bool" where
  "local_only_allows strict action \<longleftrightarrow> \<not> strict \<or> action = LocalCapture \<or> action = LocalPaste"

type_synonym unlock_timeouts = "(bytes, duration) btree"

definition timeouts_set :: "(bytes \<Rightarrow> bytes) \<Rightarrow> unlock_timeouts \<Rightarrow> string \<Rightarrow> duration \<Rightarrow> unlock_timeouts \<times> bool" where
  "timeouts_set blake3 m device_id timeout =
     (if \<not> (MIN_UNLOCK_TIMEOUT \<le> timeout \<and> timeout \<le> MAX_UNLOCK_TIMEOUT) then (m, False)
      else (case bounded_identity_hash blake3 DEVICE_HASH_DOMAIN device_id CONSENT_MAX_DEVICE_BYTES of
          None \<Rightarrow> (m, False)
        | Some key \<Rightarrow> if \<not> bt_contains m key \<and> length m \<ge> MAX_DEVICE_TIMEOUTS then (m, False) else (bt_insert key timeout m, True)))"

definition unlock_timeout :: "(bytes \<Rightarrow> bytes) \<Rightarrow> unlock_timeouts \<Rightarrow> string \<Rightarrow> duration option" where
  "unlock_timeout blake3 m device_id =
     Option.bind (bounded_identity_hash blake3 DEVICE_HASH_DOMAIN device_id CONSENT_MAX_DEVICE_BYTES) (map_of m)"

definition should_lock :: "(bytes \<Rightarrow> bytes) \<Rightarrow> unlock_timeouts \<Rightarrow> string \<Rightarrow> duration \<Rightarrow> bool" where
  "should_lock blake3 m device_id idle_for = (case unlock_timeout blake3 m device_id of None \<Rightarrow> True | Some timeout \<Rightarrow> idle_for \<ge> timeout)"

lemma unknown_device_locks: "unlock_timeout blake3 m device_id = None \<Longrightarrow> should_lock blake3 m device_id idle"
  by (simp add: should_lock_def)

lemma set_timeout_locks:
  "timeouts_set blake3 m device timeout = (m', True) \<Longrightarrow> should_lock blake3 m' device idle \<longleftrightarrow> timeout \<le> idle"
  by (auto simp: timeouts_set_def should_lock_def unlock_timeout_def split: option.splits if_splits)

text \<open>Times are nanoseconds; \<open>num_milliseconds\<close> rounds towards zero.\<close>

datatype ephemeral_countdown = CountdownExpired | CountdownRemaining nat

definition num_milliseconds :: "int \<Rightarrow> int" where
  "num_milliseconds ns = (if ns < 0 then - ((- ns) div 1000000) else ns div 1000000)"

definition countdown_between :: "int \<Rightarrow> int \<Rightarrow> ephemeral_countdown" where
  "countdown_between now expires_at = (let remaining_ms = num_milliseconds (expires_at - now) in
     if remaining_ms \<le> 0 then CountdownExpired else CountdownRemaining (min (nat remaining_ms + 999) (2 ^ 64 - 1) div 1000))"

definition countdown_label :: "ephemeral_countdown \<Rightarrow> string" where
  "countdown_label c = (case c of CountdownExpired \<Rightarrow> ''expired''
     | CountdownRemaining seconds \<Rightarrow> if seconds < 60 then decimal seconds @ ''s'' else decimal (min (seconds + 59) (2 ^ 64 - 1) div 60) @ ''m'')"

lemma countdown_shows_time_left: "countdown_between now expires_at = CountdownRemaining n \<Longrightarrow> 0 < n \<and> now < expires_at"
  by (auto simp: countdown_between_def num_milliseconds_def Let_def div_greater_zero_iff split: if_splits)

section \<open>Signed detector updates\<close>

definition UPDATE_DOMAIN :: bytes where "UPDATE_DOMAIN = ''vbuff-detector-update-v1'' @ [CHR 0x00]"
definition MAX_DETECTORS :: nat where "MAX_DETECTORS = 512"
definition MAX_DETECTOR_ID_BYTES :: nat where "MAX_DETECTOR_ID_BYTES = 128"
definition MAX_UPDATE_LIFETIME_MS :: u64 where "MAX_UPDATE_LIFETIME_MS = 31 * 24 * 60 * 60 * 1000"

record detector_update =
  du_version :: u64
  du_issued_at_ms :: u64
  du_expires_at_ms :: u64
  du_detector_ids :: "string list"
  du_signature :: bytes

datatype detector_update_error = DetectorInvalid | DetectorInvalidSignature | DetectorStale | DetectorExpired

definition validate_update_fields :: "u64 \<Rightarrow> u64 \<Rightarrow> u64 \<Rightarrow> string list \<Rightarrow> detector_update_error + unit" where
  "validate_update_fields version issued_at_ms expires_at_ms detector_ids =
     (if version = 0 \<or> detector_ids = [] \<or> length detector_ids > MAX_DETECTORS \<or> expires_at_ms \<le> issued_at_ms
         \<or> saturating_sub expires_at_ms issued_at_ms > MAX_UPDATE_LIFETIME_MS
         \<or> \<not> sorted_wrt (<) detector_ids
         \<or> list_ex (\<lambda>i. \<not> is_valid_identifier i MAX_DETECTOR_ID_BYTES) detector_ids
      then Inl DetectorInvalid else Inr ())"

definition prefixed_id :: "string \<Rightarrow> bytes" where
  "prefixed_id i = u32_be (of_nat (length i)) @ i"

definition update_signing_bytes :: "u64 \<Rightarrow> u64 \<Rightarrow> u64 \<Rightarrow> string list \<Rightarrow> bytes" where
  "update_signing_bytes version issued_at_ms expires_at_ms detector_ids =
     UPDATE_DOMAIN @ u64_be version @ u64_be issued_at_ms @ u64_be expires_at_ms @ u32_be (of_nat (length detector_ids))
     @ concat (map prefixed_id detector_ids)"

definition detector_update_issue ::
  "(bytes \<Rightarrow> bytes) \<Rightarrow> u64 \<Rightarrow> u64 \<Rightarrow> u64 \<Rightarrow> string list \<Rightarrow> detector_update_error + detector_update" where
  "detector_update_issue sign version issued_at_ms expires_at_ms detector_ids =
     (let ids = remdups_adj (sort detector_ids) in
      try_then (validate_update_fields version issued_at_ms expires_at_ms ids) (\<lambda>_.
        Inr \<lparr>du_version = version, du_issued_at_ms = issued_at_ms, du_expires_at_ms = expires_at_ms, du_detector_ids = ids,
          du_signature = sign (update_signing_bytes version issued_at_ms expires_at_ms ids)\<rparr>))"

definition detector_update_verify ::
  "(bytes \<Rightarrow> bytes \<Rightarrow> bool) \<Rightarrow> detector_update \<Rightarrow> u64 \<Rightarrow> u64 \<Rightarrow> detector_update_error + string list" where
  "detector_update_verify verify u current_version now_ms =
     try_then (validate_update_fields (du_version u) (du_issued_at_ms u) (du_expires_at_ms u) (du_detector_ids u)) (\<lambda>_.
     if du_version u \<le> current_version then Inl DetectorStale
     else if now_ms < du_issued_at_ms u \<or> now_ms > du_expires_at_ms u then Inl DetectorExpired
     else if length (du_signature u) \<noteq> 64 then Inl DetectorInvalidSignature
     else if \<not> verify (update_signing_bytes (du_version u) (du_issued_at_ms u) (du_expires_at_ms u) (du_detector_ids u)) (du_signature u)
     then Inl DetectorInvalidSignature
     else Inr (du_detector_ids u))"

text \<open>The signed bytes determine the update.\<close>

lemma u64_be_eq: "u64_be a = u64_be b \<longleftrightarrow> a = b"
proof
  assume "u64_be a = u64_be b"
  then have "unat a = unat b" unfolding u64_be_def by (rule be_bytes_inject) (use unat_less_size [of a] unat_less_size [of b] in simp_all)
  then show "a = b" by (rule word_unat_eq_iff [THEN iffD2])
qed simp

lemma u32_be_length_eq: "u32_be (of_nat m) = u32_be (of_nat n) \<Longrightarrow> m < 2 ^ 32 \<Longrightarrow> n < 2 ^ 32 \<Longrightarrow> m = n"
proof -
  assume eq: "u32_be (of_nat m) = u32_be (of_nat n)" and small: "m < 2 ^ 32" "n < 2 ^ 32"
  have val: "unat (of_nat k :: u32) = k" if "k < 2 ^ 32" for k using that by (simp add: unat_of_nat take_bit_nat_eq_self)
  have bytes: "be_bytes 4 m = be_bytes 4 n" using eq unfolding u32_be_def val [OF small(1)] val [OF small(2)] .
  have pow: "(256 :: nat) ^ 4 = 2 ^ 32" by simp
  show "m = n" by (rule be_bytes_inject [OF bytes]) (use small in \<open>simp_all only: pow\<close>)
qed

lemma prefixed_ids_inject:
  "concat (map prefixed_id xs) = concat (map prefixed_id ys) \<Longrightarrow> length xs = length ys \<Longrightarrow>
   \<forall>i \<in> set xs \<union> set ys. length i < 2 ^ 32 \<Longrightarrow> xs = ys"
proof (induction xs arbitrary: ys)
  case (Cons x xs)
  then obtain y ys' where ys: "ys = y # ys'" by (cases ys) auto
  have len: "length (u32_be (of_nat k)) = 4" for k by (simp add: u32_be_def)
  have "u32_be (of_nat (length x)) @ x @ concat (map prefixed_id xs) = u32_be (of_nat (length y)) @ y @ concat (map prefixed_id ys')"
    using Cons.prems(1) by (simp add: ys prefixed_id_def [of x] prefixed_id_def [of y])
  then have "u32_be (of_nat (length x)) = u32_be (of_nat (length y)) \<and> x @ concat (map prefixed_id xs) = y @ concat (map prefixed_id ys')"
    by (simp add: append_eq_append_conv len)
  then have heads: "u32_be (of_nat (length x)) = u32_be (of_nat (length y))" and rest: "x @ concat (map prefixed_id xs) = y @ concat (map prefixed_id ys')"
    by blast+
  have "length x = length y" by (rule u32_be_length_eq [OF heads]) (use Cons.prems(3) ys in simp_all)
  with rest have "x = y" "concat (map prefixed_id xs) = concat (map prefixed_id ys')" by simp_all
  with Cons.IH [of ys'] Cons.prems ys show ?case by simp
qed simp

lemma valid_fields:
  "validate_update_fields v i e ids = Inr () \<Longrightarrow> length ids \<le> 512 \<and> (\<forall>d \<in> set ids. length d \<le> 128) \<and> sorted_wrt (<) ids \<and> i < e"
  using identifier_length by (fastforce simp: validate_update_fields_def MAX_DETECTORS_def MAX_DETECTOR_ID_BYTES_def list_ex_iff not_le split: if_splits)

text \<open>
  A signature is for one detector update only: two updates that both pass verification and whose signed bytes agree have
  the same version, validity and detectors. And what verification answers is a strictly newer, currently valid, sorted list
  without duplicates under a signature of exactly these fields.
\<close>

lemma detector_signature_binds_update:
  assumes "detector_update_verify verify u c now = Inr ids" and "detector_update_verify verify w c' now' = Inr ids'"
  shows "(update_signing_bytes (du_version u) (du_issued_at_ms u) (du_expires_at_ms u) ids =
        update_signing_bytes (du_version w) (du_issued_at_ms w) (du_expires_at_ms w) ids' \<longleftrightarrow>
      u = w\<lparr>du_signature := du_signature u\<rparr>) \<and>
    c < du_version u \<and> du_issued_at_ms u \<le> now \<and> now \<le> du_expires_at_ms u \<and> ids = du_detector_ids u \<and> sorted ids \<and> distinct ids \<and>
    verify (update_signing_bytes (du_version u) (du_issued_at_ms u) (du_expires_at_ms u) ids) (du_signature u)"
proof -
  have u: "validate_update_fields (du_version u) (du_issued_at_ms u) (du_expires_at_ms u) (du_detector_ids u) = Inr ()" "ids = du_detector_ids u"
    "c < du_version u" "du_issued_at_ms u \<le> now" "now \<le> du_expires_at_ms u"
    "verify (update_signing_bytes (du_version u) (du_issued_at_ms u) (du_expires_at_ms u) ids) (du_signature u)"
    using assms(1) by (auto simp: detector_update_verify_def try_then_eq_Inr not_le not_less split: if_splits)
  have w: "validate_update_fields (du_version w) (du_issued_at_ms w) (du_expires_at_ms w) (du_detector_ids w) = Inr ()" "ids' = du_detector_ids w"
    using assms(2) by (auto simp: detector_update_verify_def try_then_eq_Inr split: if_splits)
  note fu = valid_fields [OF u(1)] and fw = valid_fields [OF w(1)]
  have "u = w\<lparr>du_signature := du_signature u\<rparr>"
    if eq: "update_signing_bytes (du_version u) (du_issued_at_ms u) (du_expires_at_ms u) ids =
      update_signing_bytes (du_version w) (du_issued_at_ms w) (du_expires_at_ms w) ids'"
  proof -
    have len: "length (u64_be a) = 8" "length (u32_be b) = 4" for a b by (simp_all add: u64_be_def u32_be_def)
    from eq have parts: "u64_be (du_version u) = u64_be (du_version w)" "u64_be (du_issued_at_ms u) = u64_be (du_issued_at_ms w)"
      "u64_be (du_expires_at_ms u) = u64_be (du_expires_at_ms w)" "u32_be (of_nat (length ids)) = u32_be (of_nat (length ids'))"
      "concat (map prefixed_id ids) = concat (map prefixed_id ids')"
      by (simp_all add: update_signing_bytes_def append_eq_append_conv len)
    have "length ids = length ids'" by (rule u32_be_length_eq [OF parts(4)]) (use fu fw u(2) w(2) in simp_all)
    then have "ids = ids'" by (rule prefixed_ids_inject [OF parts(5)]) (use fu fw u(2) w(2) in fastforce)
    with parts(1-3) u(2) w(2) show ?thesis by (cases u; cases w) (simp add: u64_be_eq)
  qed
  moreover have "update_signing_bytes (du_version u) (du_issued_at_ms u) (du_expires_at_ms u) ids =
      update_signing_bytes (du_version w) (du_issued_at_ms w) (du_expires_at_ms w) ids'" if "u = w\<lparr>du_signature := du_signature u\<rparr>"
    using u(2) w(2) by (cases u; cases w) (use that in simp)
  moreover have "sorted ids" "distinct ids" using fu u(2) by (simp_all add: strict_sorted_iff)
  ultimately show ?thesis using u by blast
qed

lemma detector_signature_binds_update_witness:
  "\<exists>u. detector_update_issue (\<lambda>_. replicate 64 (CHR ''s'')) 2 10 20 [''b'', ''a'', ''b''] = Inr u \<and> du_detector_ids u = [''a'', ''b''] \<and>
     sorted (du_detector_ids u) \<and> distinct (du_detector_ids u)"
proof -
  let ?u = "\<lparr>du_version = 2, du_issued_at_ms = 10, du_expires_at_ms = 20, du_detector_ids = [''a'', ''b''],
    du_signature = replicate 64 (CHR ''s'')\<rparr>"
  have valid: "validate_update_fields 2 10 20 [''a'', ''b''] = Inr ()"
    by (simp add: validate_update_fields_def MAX_DETECTORS_def MAX_UPDATE_LIFETIME_MS_def saturating_sub_def is_valid_identifier_def
      is_valid_identifier_with_extra_def MAX_DETECTOR_ID_BYTES_def is_ascii_alphanumeric_def is_ascii_alphabetic_def byte_in_def)
  have sorted: "sort [''b'', ''a'', ''b''] = [''a'', ''b'', ''b'']" by (simp add: sort_key_def)
  have issue: "detector_update_issue (\<lambda>_. replicate 64 (CHR ''s'')) 2 10 20 [''b'', ''a'', ''b''] = Inr ?u"
    unfolding detector_update_issue_def sorted using valid by simp
  have "detector_update_verify (\<lambda>_ _. True) ?u 1 15 = Inr [''a'', ''b'']"
    using valid by (simp add: detector_update_verify_def word_le_nat_alt word_less_nat_alt)
  from detector_signature_binds_update [OF this this] issue show ?thesis by (intro exI [of _ ?u]) simp
qed

end
