(* ===== verification/Trust_Rules.thy ===== *)
theory Trust_Rules
  imports Secret
begin

text \<open>
  Trust decisions of \<open>crates/vbuff-core/src/trust/\<close>: the capture rule simulator and the one-shot paste guard of
  \<open>rules.rs\<close> and the privacy score of \<open>posture.rs\<close>. The \<open>regex\<close> crate is \<open>compiles\<close> and \<open>regex_match\<close>; the
  entropy test of the detectors is \<open>entropy\<close>, as in \<open>Secret\<close>.
\<close>

definition MAX_RULES :: nat where "MAX_RULES = 256"
definition MAX_RULE_ID_BYTES :: nat where "MAX_RULE_ID_BYTES = 96"
definition TRUST_MAX_SOURCE_BYTES :: nat where "TRUST_MAX_SOURCE_BYTES = 512"
definition MAX_SAMPLE_BYTES :: nat where "MAX_SAMPLE_BYTES = 64 * 1024"
definition MAX_PATTERN_BYTES :: nat where "MAX_PATTERN_BYTES = 1024"
definition MAX_PASTE_GUARD_AGE :: duration where "MAX_PASTE_GUARD_AGE = secs 30"

datatype capture_rule_action = RuleSkip | CaptureNormally | CaptureEphemeral duration | Mask
datatype capture_matcher = SourceMatcher string | PatternMatcher string

record simulator_rule =
  ru_id :: string
  ru_matcher :: capture_matcher
  ru_action :: capture_rule_action

record simulation_input =
  sim_source_app :: "string option"
  sim_sample :: string
  sim_os_sensitive_hint :: bool

datatype rule_match_reason = SourceReason | PatternReason | SecretReason secret_kind | OperatingSystemHint | DefaultReason

record simulation_result =
  sr_action :: capture_rule_action
  sr_reason :: rule_match_reason
  sr_rule_id :: "string option"

datatype simulation_error = InvalidRule | InvalidInput | TooManyRules

definition rule_validate_id :: "string \<Rightarrow> simulation_error + unit" where
  "rule_validate_id s =
     (if s = [] \<or> length s > MAX_RULE_ID_BYTES \<or> \<not> list_all (\<lambda>b. is_ascii_alphanumeric b \<or> b \<in> {CHR ''.'', CHR ''_'', CHR ''-''}) s
      then Inl InvalidRule else Inr ())"

definition validate_source :: "string \<Rightarrow> simulation_error + unit" where
  "validate_source s = (if trim s = [] \<or> length s > TRUST_MAX_SOURCE_BYTES \<or> has_control s then Inl InvalidInput else Inr ())"

definition validate_rule_action :: "capture_rule_action \<Rightarrow> simulation_error + unit" where
  "validate_rule_action a = (case a of CaptureEphemeral ttl \<Rightarrow> if ttl = 0 \<or> ttl > secs (24 * 60 * 60) then Inl InvalidRule else Inr ()
     | _ \<Rightarrow> Inr ())"

definition rule_for_source :: "string \<Rightarrow> string \<Rightarrow> capture_rule_action \<Rightarrow> simulation_error + simulator_rule" where
  "rule_for_source rid source_app action =
     try_then (rule_validate_id rid) (\<lambda>_. try_then (validate_source source_app) (\<lambda>_. try_then (validate_rule_action action) (\<lambda>_.
       Inr \<lparr>ru_id = rid, ru_matcher = SourceMatcher source_app, ru_action = action\<rparr>)))"

definition rule_for_pattern :: "(string \<Rightarrow> bool) \<Rightarrow> string \<Rightarrow> string \<Rightarrow> capture_rule_action \<Rightarrow> simulation_error + simulator_rule" where
  "rule_for_pattern compiles rid pattern action =
     try_then (rule_validate_id rid) (\<lambda>_. try_then (validate_rule_action action) (\<lambda>_.
       if pattern = [] \<or> length pattern > MAX_PATTERN_BYTES then Inl InvalidRule
       else if \<not> compiles pattern then Inl InvalidRule
       else Inr \<lparr>ru_id = rid, ru_matcher = PatternMatcher pattern, ru_action = action\<rparr>))"

fun adjacent_equal :: "'a list \<Rightarrow> bool" where
  "adjacent_equal (x # y # xs) \<longleftrightarrow> x = y \<or> adjacent_equal (y # xs)"
| "adjacent_equal _ \<longleftrightarrow> False"

definition simulator_new :: "simulator_rule list \<Rightarrow> simulation_error + simulator_rule list" where
  "simulator_new rules =
     (if length rules > MAX_RULES then Inl TooManyRules
      else if adjacent_equal (sort (map ru_id rules)) then Inl InvalidRule else Inr rules)"

text \<open>\<open>max_by\<close> keeps the later of two findings of equal confidence.\<close>

definition most_confident :: "secret_finding list \<Rightarrow> secret_finding option" where
  "most_confident fs = foldl (\<lambda>best g. case best of None \<Rightarrow> Some g | Some b \<Rightarrow> if sf_confidence b \<le> sf_confidence g then Some g else Some b) None fs"

definition intrinsic_sensitivity :: "(string \<Rightarrow> bool) \<Rightarrow> simulation_input \<Rightarrow> rule_match_reason option" where
  "intrinsic_sensitivity entropy i =
     (if sim_os_sensitive_hint i then Some OperatingSystemHint
      else if is_probable_otp (sim_sample i) then Some (SecretReason OneTimePassword)
      else map_option (\<lambda>f. SecretReason (sf_kind f)) (most_confident (detect_secrets entropy (sim_sample i))))"

definition rule_matched :: "(string \<Rightarrow> string \<Rightarrow> bool) \<Rightarrow> simulation_input \<Rightarrow> simulator_rule \<Rightarrow> bool" where
  "rule_matched regex_match i r = (case ru_matcher r of SourceMatcher expected \<Rightarrow> sim_source_app i = Some expected
     | PatternMatcher pattern \<Rightarrow> regex_match pattern (sim_sample i))"

definition stores_content :: "capture_rule_action \<Rightarrow> bool" where
  "stores_content a = (case a of CaptureNormally \<Rightarrow> True | CaptureEphemeral _ \<Rightarrow> True | _ \<Rightarrow> False)"

definition masked_for :: "rule_match_reason \<Rightarrow> simulation_result" where
  "masked_for reason = \<lparr>sr_action = Mask, sr_reason = reason, sr_rule_id = None\<rparr>"

definition rule_outcome :: "rule_match_reason option \<Rightarrow> simulator_rule \<Rightarrow> simulation_result" where
  "rule_outcome intrinsic r = (case intrinsic of
       Some reason \<Rightarrow> if stores_content (ru_action r) then masked_for reason
         else \<lparr>sr_action = ru_action r, sr_reason = (case ru_matcher r of SourceMatcher _ \<Rightarrow> SourceReason | PatternMatcher _ \<Rightarrow> PatternReason),
               sr_rule_id = Some (ru_id r)\<rparr>
     | None \<Rightarrow> \<lparr>sr_action = ru_action r, sr_reason = (case ru_matcher r of SourceMatcher _ \<Rightarrow> SourceReason | PatternMatcher _ \<Rightarrow> PatternReason),
               sr_rule_id = Some (ru_id r)\<rparr>)"

definition simulate ::
  "(string \<Rightarrow> bool) \<Rightarrow> (string \<Rightarrow> string \<Rightarrow> bool) \<Rightarrow> simulator_rule list \<Rightarrow> simulation_input \<Rightarrow> simulation_error + simulation_result" where
  "simulate entropy regex_match rules i =
     (if length (sim_sample i) > MAX_SAMPLE_BYTES
         \<or> (case sim_source_app i of None \<Rightarrow> False | Some s \<Rightarrow> \<not> is_ok (validate_source s)) then Inl InvalidInput
      else let intrinsic = intrinsic_sensitivity entropy i in
        (case find (rule_matched regex_match i) rules of
           Some r \<Rightarrow> Inr (rule_outcome intrinsic r)
         | None \<Rightarrow> (case intrinsic of Some reason \<Rightarrow> Inr (masked_for reason)
             | None \<Rightarrow> Inr \<lparr>sr_action = CaptureNormally, sr_reason = DefaultReason, sr_rule_id = None\<rparr>)))"

lemma adjacent_equal_sorted: "sorted xs \<Longrightarrow> adjacent_equal xs \<longleftrightarrow> \<not> distinct xs" for xs :: "'a::linorder list"
  by (induction xs rule: adjacent_equal.induct) (auto dest: order_antisym)

lemma simulator_ids_distinct: "simulator_new rules = Inr rs \<longleftrightarrow> rs = rules \<and> length rules \<le> MAX_RULES \<and> distinct (map ru_id rules)"
  by (auto simp: simulator_new_def adjacent_equal_sorted)

lemma most_confident_snoc: "most_confident (fs @ [g]) = (case most_confident fs of None \<Rightarrow> Some g
    | Some b \<Rightarrow> if sf_confidence b \<le> sf_confidence g then Some g else Some b)"
  by (simp add: most_confident_def)

lemma most_confident_None: "most_confident fs = None \<longleftrightarrow> fs = []"
  by (induction fs rule: rev_induct) (auto simp: most_confident_snoc most_confident_def split: option.splits)

lemma find_first_match: "\<not> list_ex P xs \<Longrightarrow> P r \<Longrightarrow> find P (xs @ r # ys) = Some r"
  by (induction xs) auto

text \<open>
  No user rule can switch sensitivity off: for a sample that the operating system marks, that looks like a one-time
  password or in which a detector finds anything, the simulation never captures the content, whatever the rules; and
  otherwise the first matching rule decides alone, so rules after it and rules that do not match are without effect.
\<close>

lemma rules_cannot_unmask:
  assumes "simulate entropy regex_match rules i = Inr result"
  shows "(sim_os_sensitive_hint i \<or> is_probable_otp (sim_sample i) \<or> detect_secrets entropy (sim_sample i) \<noteq> [] \<longrightarrow>
       sr_action result \<in> {RuleSkip, Mask}) \<and>
    (\<forall>before r later. rules = before @ r # later \<and> rule_matched regex_match i r \<and> \<not> list_ex (rule_matched regex_match i) before \<longrightarrow>
       simulate entropy regex_match [r] i = Inr result)"
proof (intro conjI impI allI)
  assume "sim_os_sensitive_hint i \<or> is_probable_otp (sim_sample i) \<or> detect_secrets entropy (sim_sample i) \<noteq> []"
  then have "intrinsic_sensitivity entropy i \<noteq> None"
    by (auto simp: intrinsic_sensitivity_def most_confident_None simp del: not_None_eq)
  then obtain reason where "intrinsic_sensitivity entropy i = Some reason" by blast
  with assms show "sr_action result \<in> {RuleSkip, Mask}"
    by (auto simp: simulate_def Let_def rule_outcome_def masked_for_def stores_content_def
      split: if_splits option.splits capture_rule_action.splits)
next
  fix before r later
  assume r: "rules = before @ r # later \<and> rule_matched regex_match i r \<and> \<not> list_ex (rule_matched regex_match i) before"
  then have "find (rule_matched regex_match i) rules = Some r"
    by (simp add: find_first_match)
  with r assms show "simulate entropy regex_match [r] i = Inr result" by (simp add: simulate_def split: if_splits)
qed

lemma rules_cannot_unmask_witness:
  "\<exists>result. simulate (\<lambda>_. False) (\<lambda>_ _. True)
      [\<lparr>ru_id = ''all'', ru_matcher = PatternMatcher ''.'', ru_action = CaptureNormally\<rparr>]
      \<lparr>sim_source_app = None, sim_sample = ''hello'', sim_os_sensitive_hint = True\<rparr> = Inr result \<and> sr_action result \<in> {RuleSkip, Mask}"
    (is "\<exists>result. simulate ?e ?m ?rules ?input = Inr result \<and> _")
proof -
  have "simulate ?e ?m ?rules ?input = Inr (masked_for OperatingSystemHint)"
    by (simp add: simulate_def MAX_SAMPLE_BYTES_def intrinsic_sensitivity_def rule_matched_def rule_outcome_def stores_content_def)
  from rules_cannot_unmask [OF this] this show ?thesis by (intro exI [of _ "masked_for OperatingSystemHint"]) simp
qed

section \<open>The one-shot paste guard\<close>

record trust_guard =
  tg_selected_hash :: bytes
  tg_selected_at_ms :: u64
  tg_maximum_age :: duration
  tg_consumed :: bool

datatype guard_decision = Proceed | Quarantine | GuardExpired | AlreadyConsumed

definition guard_new :: "bytes \<Rightarrow> u64 \<Rightarrow> duration \<Rightarrow> trust_guard option" where
  "guard_new selected_hash selected_at_ms maximum_age =
     (if selected_hash \<noteq> replicate 32 (CHR 0x00) \<and> maximum_age \<noteq> 0 \<and> maximum_age \<le> MAX_PASTE_GUARD_AGE
      then Some \<lparr>tg_selected_hash = selected_hash, tg_selected_at_ms = selected_at_ms, tg_maximum_age = maximum_age, tg_consumed = False\<rparr>
      else None)"

definition guard_verify :: "trust_guard \<Rightarrow> bytes \<Rightarrow> u64 \<Rightarrow> trust_guard \<times> guard_decision" where
  "guard_verify g observed_hash now_ms =
     (if tg_consumed g then (g, AlreadyConsumed)
      else let g' = g\<lparr>tg_consumed := True\<rparr>; maximum_age_ms = (of_nat (min (tg_maximum_age g div 1000000) (2 ^ 64 - 1)) :: u64) in
        if now_ms < tg_selected_at_ms g \<or> saturating_sub now_ms (tg_selected_at_ms g) > maximum_age_ms then (g', GuardExpired)
        else if observed_hash = tg_selected_hash g then (g', Proceed) else (g', Quarantine))"

text \<open>A guard lets one paste through, of the selected content, within thirty seconds.\<close>

fun guard_decisions :: "trust_guard \<Rightarrow> (bytes \<times> u64) list \<Rightarrow> guard_decision list" where
  "guard_decisions g [] = []"
| "guard_decisions g ((h, t) # checks) = snd (guard_verify g h t) # guard_decisions (fst (guard_verify g h t)) checks"

lemma guard_consumed: "tg_consumed g \<Longrightarrow> guard_decisions g checks = replicate (length checks) AlreadyConsumed"
  by (induction checks) (auto simp: guard_verify_def)

lemma guard_one_shot:
  assumes "guard_new h t age = Some g"
  shows "guard_decisions g ((h', t') # checks) = snd (guard_verify g h' t') # replicate (length checks) AlreadyConsumed"
    and "snd (guard_verify g h' t') = Proceed \<longleftrightarrow> h' = h \<and> unat t \<le> unat t' \<and> unat t' - unat t \<le> age div 1000000"
proof -
  have g: "\<not> tg_consumed g" "tg_selected_hash g = h" "tg_selected_at_ms g = t" "tg_maximum_age g = age" "age \<le> secs 30"
    using assms by (auto simp: guard_new_def MAX_PASTE_GUARD_AGE_def split: if_splits)
  have "tg_consumed (fst (guard_verify g h' t'))" using g(1) by (simp add: guard_verify_def Let_def)
  then show "guard_decisions g ((h', t') # checks) = snd (guard_verify g h' t') # replicate (length checks) AlreadyConsumed"
    by (simp add: guard_consumed)
  have "age div 1000000 \<le> 30000" using g(5) by (simp add: secs_def)
  then have "unat (of_nat (min (age div 1000000) (2 ^ 64 - 1)) :: u64) = age div 1000000"
    by (simp add: unat_of_nat take_bit_nat_eq_self)
  then show "snd (guard_verify g h' t') = Proceed \<longleftrightarrow> h' = h \<and> unat t \<le> unat t' \<and> unat t' - unat t \<le> age div 1000000"
    using g by (auto simp: guard_verify_def Let_def word_less_nat_alt word_le_nat_alt unat_saturating_sub not_less)
qed

section \<open>The privacy score\<close>

record posture_input =
  pi_encryption_at_rest :: bool
  pi_strict_local_only :: bool
  pi_sensitive_memory_only :: bool
  pi_telemetry_enabled :: bool
  pi_sync_enabled :: bool
  pi_denied_source_count :: u32
  pi_retention_days :: "u32 option"

datatype privacy_score_level = Strong | Balanced | NeedsAttention

record privacy_score =
  sc_value :: int
  sc_level :: privacy_score_level
  sc_factors :: "(string \<times> int) list"

definition posture_factors :: "posture_input \<Rightarrow> (string \<times> int) list" where
  "posture_factors i =
     [(''encryption_at_rest'', if pi_encryption_at_rest i then 24 else -24),
      (''strict_local_only'', if pi_strict_local_only i then 18 else 0),
      (''sensitive_memory_only'', if pi_sensitive_memory_only i then 16 else -8),
      (''telemetry'', if pi_telemetry_enabled i then -10 else 8),
      (''sync'', if pi_sync_enabled i then -8 else 8),
      (''denied_sources'', if 0 < pi_denied_source_count i then 8 else 0),
      (''retention'', case pi_retention_days i of None \<Rightarrow> -12
         | Some d \<Rightarrow> if d \<le> 7 then 12 else if d \<le> 30 then 6 else if d \<le> 90 then 0 else -8)]"

definition posture_score :: "posture_input \<Rightarrow> privacy_score" where
  "posture_score i =
     (let factors = posture_factors i; v = max 0 (min 100 (50 + sum_list (map snd factors)));
          gated = (\<not> pi_encryption_at_rest i \<or> \<not> pi_sensitive_memory_only i) \<and> v > 54;
          v' = (if gated then 54 else v) in
      \<lparr>sc_value = v', sc_level = (if 80 \<le> v' then Strong else if 55 \<le> v' then Balanced else NeedsAttention),
       sc_factors = (if gated then factors @ [(''minimum_protection_gate'', 54 - v)] else factors)\<rparr>)"

text \<open>
  The score is a percentage. Without both protections it needs attention, and apart from clamping it is the sum of its
  factors.
\<close>

lemma posture_gate: "\<not> pi_encryption_at_rest i \<or> \<not> pi_sensitive_memory_only i \<Longrightarrow> sc_level (posture_score i) = NeedsAttention"
  by (auto simp: posture_score_def Let_def)

lemma posture_range: "0 \<le> sc_value (posture_score i) \<and> sc_value (posture_score i) \<le> 100"
  by (auto simp: posture_score_def Let_def)

lemma posture_factors_fit: "list_all (\<lambda>f. - 24 \<le> snd f \<and> snd f \<le> 24) (posture_factors i)"
  by (simp add: posture_factors_def split: option.split)

lemma posture_points_fit: "list_all (\<lambda>f. - 128 \<le> snd f \<and> snd f < 128) (sc_factors (posture_score i))"
proof -
  have "list_all (\<lambda>f. - 128 \<le> snd f \<and> snd f < 128) (posture_factors i)"
    by (rule list.pred_mono_strong [OF posture_factors_fit]) auto
  then show ?thesis by (auto simp: posture_score_def Let_def)
qed

end
