(* ===== verification/Update_State.thy ===== *)
theory Update_State
  imports Update_Verifier
begin

text \<open>
  Persistence of the update verifier, \<open>crates/vbuff-update/src/state.rs\<close>.

  The state disk is its content, or absent. \<open>serde_json\<close>, BLAKE3 and hexadecimal digests are the
  record \<open>state_env\<close>; the outcome of the atomic outcome is an argument of \<open>verifier_store\<close>, which
  leaves the disk as it was when the outcome fails (outcome to a temporary disk, then rename).
\<close>

record verifier_state =
  vs_keyring :: update_keyring
  vs_highest_accepted_sequence :: u64

record persisted_state =
  pv_schema :: u32
  pv_state :: verifier_state
  pv_checksum :: string

record state_env =
  st_json_state :: "verifier_state \<Rightarrow> string + bytes"
  st_json_persisted :: "persisted_state \<Rightarrow> string + bytes"
  st_probe_schema :: "bytes \<Rightarrow> string + u32"
  st_parse_persisted :: "bytes \<Rightarrow> string + persisted_state"
  st_blake3 :: "bytes \<Rightarrow> bytes"
  st_hex :: "bytes \<Rightarrow> string"
  st_from_hex :: "string \<Rightarrow> bytes option"

definition VERIFIER_STATE_CHECKSUM_DOMAIN :: bytes where
  "VERIFIER_STATE_CHECKSUM_DOMAIN = ''vbuff-update-verifier-state-v1'' @ [CHR 0x00]"

definition VERIFIER_STATE_SCHEMA :: u32 where
  "VERIFIER_STATE_SCHEMA = 1"

definition state_checksum :: "state_env \<Rightarrow> u32 \<Rightarrow> verifier_state \<Rightarrow> update_error + bytes" where
  "state_checksum env schema st =
     try_then (map_err SerializationError (st_json_state env st)) (\<lambda>body.
       Inr (st_blake3 env (VERIFIER_STATE_CHECKSUM_DOMAIN @ u32_be schema @ body)))"

definition decode_state :: "state_env \<Rightarrow> bytes \<Rightarrow> update_error + verifier_state" where
  "decode_state env bytes =
     try_then (map_err (\<lambda>e. SerializationError (''verifier state file has no readable schema version: '' @ e))
         (st_probe_schema env bytes)) (\<lambda>schema.
       if schema \<noteq> VERIFIER_STATE_SCHEMA
       then Inl (SerializationError (''verifier state schema '' @ decimal (unat schema) @
         '' is unsupported; this build reads schema '' @ decimal (unat VERIFIER_STATE_SCHEMA)))
       else try_then (map_err SerializationError (st_parse_persisted env bytes)) (\<lambda>persisted.
         case st_from_hex env (pv_checksum persisted) of
           None \<Rightarrow> Inl (SerializationError ''verifier state checksum is not a valid digest'')
         | Some stored \<Rightarrow>
             try_then (state_checksum env (pv_schema persisted) (pv_state persisted)) (\<lambda>expected.
               if stored \<noteq> expected
               then Inl (SerializationError ''verifier state checksum mismatch: the file is damaged or was edited'')
               else Inr (pv_state persisted))))"

definition from_state :: "verifier_state \<Rightarrow> update_verifier" where
  "from_state st = update_verifier_new (vs_keyring st) (vs_highest_accepted_sequence st)"

definition verifier_state_of :: "update_verifier \<Rightarrow> verifier_state" where
  "verifier_state_of v = \<lparr>vs_keyring = uv_keyring v,
     vs_highest_accepted_sequence = uv_highest_accepted_sequence v\<rparr>"

datatype read_result = NotFound | ReadError string | Contents bytes

definition verifier_load ::
  "state_env \<Rightarrow> read_result \<Rightarrow> update_keyring \<Rightarrow> update_error + update_verifier" where
  "verifier_load env disk bootstrap = (case disk of
     NotFound \<Rightarrow> Inr (update_verifier_new bootstrap 0)
   | ReadError e \<Rightarrow> Inl (IoError e)
   | Contents bytes \<Rightarrow> try_then (decode_state env bytes) (\<lambda>st. Inr (from_state st)))"

definition verifier_store ::
  "state_env \<Rightarrow> update_verifier \<Rightarrow> read_result \<Rightarrow> string + unit \<Rightarrow> (update_error + unit) \<times> read_result" where
  "verifier_store env v disk outcome =
     (case try_then (state_checksum env VERIFIER_STATE_SCHEMA (verifier_state_of v)) (\<lambda>digest.
        map_err SerializationError (st_json_persisted env
          \<lparr>pv_schema = VERIFIER_STATE_SCHEMA, pv_state = verifier_state_of v, pv_checksum = st_hex env digest\<rparr>)) of
        Inl e \<Rightarrow> (Inl e, disk)
      | Inr bytes \<Rightarrow> (case outcome of
          Inl e \<Rightarrow> (Inl (IoError e), disk)
        | Inr _ \<Rightarrow> (Inr (), Contents bytes)))"

definition verify_and_store ::
  "'v::linorder update_env \<Rightarrow> state_env \<Rightarrow> update_verifier \<Rightarrow> read_result \<Rightarrow> 'v signed_update_manifest \<Rightarrow> 'v \<Rightarrow>
     bytes \<Rightarrow> string + unit \<Rightarrow> (update_error + 'v verified_update) \<times> update_verifier \<times> read_result" where
  "verify_and_store env senv v disk s current_version installation_id outcome =
     (let previous = verifier_state_of v in
      case update_verify env v s current_version installation_id of
        (Inl e, v') \<Rightarrow> (Inl e, v', disk)
      | (Inr verified, v') \<Rightarrow>
          (case verifier_store senv v' disk outcome of
             (Inl e, disk') \<Rightarrow> (Inl e, from_state previous, disk')
           | (Inr _, disk') \<Rightarrow> (Inr verified, v', disk')))"

section \<open>Memory and disk agree\<close>

text \<open>What the code relies on: the parsers invert the printers.\<close>

definition faithful_json :: "state_env \<Rightarrow> bool" where
  "faithful_json env \<longleftrightarrow>
     (\<forall>p b. st_json_persisted env p = Inr b \<longrightarrow> st_parse_persisted env b = Inr p \<and> st_probe_schema env b = Inr (pv_schema p)) \<and>
     (\<forall>d. st_from_hex env (st_hex env d) = Some d)"

lemma from_state_of [simp]: "from_state (verifier_state_of v) = v"
  by (simp add: from_state_def verifier_state_of_def update_verifier_new_def)

lemma store_then_load:
  assumes "faithful_json env" and "verifier_store env v disk outcome = (Inr (), disk')"
  shows "verifier_load env disk' bootstrap = Inr v"
proof -
  let ?p = "\<lambda>digest. \<lparr>pv_schema = VERIFIER_STATE_SCHEMA, pv_state = verifier_state_of v, pv_checksum = st_hex env digest\<rparr>"
  obtain digest b where d: "state_checksum env VERIFIER_STATE_SCHEMA (verifier_state_of v) = Inr digest"
    and b: "st_json_persisted env (?p digest) = Inr b" and "disk' = Contents b"
    using assms(2) by (auto simp: verifier_store_def split: sum.splits)
      (auto simp: result_simps)
  have "st_parse_persisted env b = Inr (?p digest) \<and> st_probe_schema env b = Inr VERIFIER_STATE_SCHEMA"
    "st_from_hex env (st_hex env digest) = Some digest"
    using assms(1) b unfolding faithful_json_def by force+
  then have "decode_state env b = Inr (verifier_state_of v)"
    using d by (simp add: decode_state_def map_err_def)
  with \<open>disk' = Contents b\<close> show ?thesis
    by (simp add: verifier_load_def)
qed

lemma store_error: "verifier_store env v disk outcome = (Inl e, disk') \<Longrightarrow> disk' = disk"
  by (auto simp: verifier_store_def split: sum.splits)

lemma verify_and_store_cases:
  obtains (err) e where "verify_and_store env senv v disk s cur iid outcome = (Inl e, v, disk)"
  | (ok) verified v' disk' where "verify_and_store env senv v disk s cur iid outcome = (Inr verified, v', disk')"
      "update_verify env v s cur iid = (Inr verified, v')" "verifier_store senv v' disk outcome = (Inr (), disk')"
proof (cases rule: update_verify_cases [of env v s cur iid])
  case (err e)
  then show thesis by (intro that(1) [of e]) (simp add: verify_and_store_def)
next
  case (ok verified v')
  show thesis
  proof (cases "verifier_store senv v' disk outcome")
    case (Pair r disk')
    show thesis
    proof (cases r)
      case (Inl e)
      with ok Pair store_error [of senv v' disk outcome e disk'] show thesis
        by (intro that(1) [of e]) (simp add: verify_and_store_def)
    next
      case (Inr u)
      with ok Pair show thesis
        by (intro that(2) [of verified v' disk']) (simp_all add: verify_and_store_def)
    qed
  qed
qed

text \<open>
  A running installation: the verifier in memory and the state file. An update is verified and
  stored, with any outcome of the write; a restart loads the verifier from the file.
\<close>

datatype 'v install_op =
    InstallUpdate "'v signed_update_manifest" 'v bytes "string + unit"
  | Restart

fun install_step ::
  "'v::linorder update_env \<Rightarrow> state_env \<Rightarrow> update_keyring \<Rightarrow> update_verifier \<times> read_result \<Rightarrow> 'v install_op \<Rightarrow>
     update_verifier \<times> read_result" where
  "install_step env senv bootstrap (v, disk) (InstallUpdate s cur iid outcome) =
     snd (verify_and_store env senv v disk s cur iid outcome)"
| "install_step env senv bootstrap (v, disk) Restart =
     (case verifier_load senv disk bootstrap of Inl _ \<Rightarrow> (v, disk) | Inr v' \<Rightarrow> (v', disk))"

fun install_accepts ::
  "'v::linorder update_env \<Rightarrow> state_env \<Rightarrow> update_verifier \<times> read_result \<Rightarrow> 'v install_op \<Rightarrow> u64 option" where
  "install_accepts env senv (v, disk) (InstallUpdate s cur iid outcome) =
     (case fst (verify_and_store env senv v disk s cur iid outcome) of Inl _ \<Rightarrow> None
      | Inr verified \<Rightarrow> Some (vu_sequence verified))"
| "install_accepts env senv (v, disk) Restart = None"

definition in_step :: "state_env \<Rightarrow> update_keyring \<Rightarrow> update_verifier \<times> read_result \<Rightarrow> bool" where
  "in_step senv bootstrap st \<longleftrightarrow> faithful_json senv \<and> verifier_load senv (snd st) bootstrap = Inr (fst st)"

interpretation installation: one_shot "install_step env senv bootstrap" "in_step senv bootstrap"
  "install_accepts env senv" "\<lambda>n st. n \<le> uv_highest_accepted_sequence (fst st)"
  for env :: "'v::linorder update_env" and senv bootstrap
proof
  fix st :: "update_verifier \<times> read_result" and op :: "'v install_op" and n :: u64
  assume inv: "in_step senv bootstrap st"
  obtain v disk where st: "st = (v, disk)" by (cases st)
  have load: "verifier_load senv disk bootstrap = Inr v" "faithful_json senv"
    using inv by (simp_all add: in_step_def st)
  show "in_step senv bootstrap (install_step env senv bootstrap st op)"
  proof (cases op)
    case (InstallUpdate s cur iid outcome)
    then show ?thesis
      by (cases rule: verify_and_store_cases [of env senv v disk s cur iid outcome])
        (use load in \<open>auto simp: st in_step_def dest: store_then_load\<close>)
  qed (use load in \<open>simp add: st in_step_def\<close>)
  show "n \<le> uv_highest_accepted_sequence (fst (install_step env senv bootstrap st op))"
    if "n \<le> uv_highest_accepted_sequence (fst st)"
  proof (cases op)
    case (InstallUpdate s cur iid outcome)
    then show ?thesis
      by (cases rule: verify_and_store_cases [of env senv v disk s cur iid outcome])
        (use that in \<open>auto simp: st verify_checks_Inr dest!: update_verify_Inr\<close>)
  qed (use load that in \<open>simp add: st\<close>)
  show "install_accepts env senv st op \<noteq> Some n" if "n \<le> uv_highest_accepted_sequence (fst st)"
  proof (cases op)
    case (InstallUpdate s cur iid outcome)
    then show ?thesis
      by (cases rule: verify_and_store_cases [of env senv v disk s cur iid outcome])
        (use that in \<open>auto simp: st verify_checks_Inr dest!: update_verify_Inr\<close>)
  qed (simp add: st)
  show "n \<le> uv_highest_accepted_sequence (fst (install_step env senv bootstrap st op))"
    if "install_accepts env senv st op = Some n"
  proof (cases op)
    case (InstallUpdate s cur iid outcome)
    then show ?thesis
      by (cases rule: verify_and_store_cases [of env senv v disk s cur iid outcome])
        (use that in \<open>auto simp: st dest!: update_verify_Inr\<close>)
  qed (use that in \<open>simp add: st\<close>)
qed

text \<open>
  C9. Durability: an installation that starts without a state file keeps its verifier and its file in
  agreement, and even across restarts and failing writes, each release that \<open>verify_and_store\<close> accepts
  has a larger sequence number than any it accepted before. The JSON and hexadecimal parsers are assumed
  to invert their printers.
\<close>

theorem installation_never_replays:
  assumes "faithful_json senv"
    and "st = run (install_step env senv bootstrap) (update_verifier_new bootstrap 0, NotFound) before"
    and "install_accepts env senv st op = Some n"
    and "install_accepts env senv (run (install_step env senv bootstrap) (install_step env senv bootstrap st op) after) op' = Some n'"
  shows "verifier_load senv (snd st) bootstrap = Inr (fst st) \<and> n < n'"
proof -
  have inv: "in_step senv bootstrap st"
    unfolding assms(2) by (rule installation.inv_run) (simp add: in_step_def assms(1) verifier_load_def)
  have "n < n'"
  proof (rule ccontr)
    assume "\<not> n < n'"
    moreover have "n \<le> uv_highest_accepted_sequence (fst (install_step env senv bootstrap st op))"
      using installation.accept_spends [OF inv assms(3)] by simp
    ultimately have "n' \<le> uv_highest_accepted_sequence (fst (install_step env senv bootstrap st op))" by simp
    with installation.never_accepted [OF installation.inv_step [OF inv]] assms(4) show False by blast
  qed
  with inv show ?thesis by (simp add: in_step_def)
qed

section \<open>Samples\<close>

text \<open>Printers for the sample: a watermark in unary, and only for the sample's keyring.\<close>

definition sample_state_env :: state_env where
  "sample_state_env = \<lparr>st_json_state = (\<lambda>_. Inr []),
     st_json_persisted = (\<lambda>p. if pv_schema p = 1 \<and> pv_checksum p = [] \<and>
         vs_keyring (pv_state p) = uv_keyring sample_verifier
       then Inr (replicate (unat (vs_highest_accepted_sequence (pv_state p))) CHR ''1'') else Inl []),
     st_probe_schema = (\<lambda>_. Inr 1),
     st_parse_persisted = (\<lambda>b. Inr \<lparr>pv_schema = 1, pv_state = \<lparr>vs_keyring = uv_keyring sample_verifier,
       vs_highest_accepted_sequence = of_nat (length b)\<rparr>, pv_checksum = []\<rparr>),
     st_blake3 = (\<lambda>_. []), st_hex = id, st_from_hex = Some\<rparr>"

lemma sample_faithful: "faithful_json sample_state_env"
  by (auto simp: faithful_json_def sample_state_env_def split: if_splits)

definition sample_start :: "update_verifier \<times> read_result" where
  "sample_start = (update_verifier_new (uv_keyring sample_verifier) 0, NotFound)"

lemma sample_install:
  assumes "uv_keyring v = uv_keyring sample_verifier" and "uv_highest_accepted_sequence v < um_sequence (su_manifest s)"
    and "s = sample_release \<or> s = sample_next_release"
  shows "\<exists>ok b. verify_and_store sample_update_env sample_state_env v disk s 1 [] (Inr ()) =
    (Inr ok, v\<lparr>uv_highest_accepted_sequence := um_sequence (su_manifest s)\<rparr>, Contents b) \<and>
    vu_sequence ok = um_sequence (su_manifest s)"
proof -
  have "um_sequence (su_manifest sample_release) = 5" "um_sequence (su_manifest sample_next_release) = 6"
    by (simp_all add: sample_release_def sample_next_release_def)
  then have "verify_checks sample_update_env v s 1 = Inr ()"
    using assms sample_release_checks sample_next_release_checks by auto
  moreover have "um_next_key (su_manifest s) = None"
    using assms(3) by (auto simp: sample_release_def sample_next_release_def)
  ultimately show ?thesis
    using assms(1)
    by (simp add: verify_and_store_def update_verify_def apply_rotation_def verifier_store_def state_checksum_def
        map_err_def sample_state_env_def VERIFIER_STATE_SCHEMA_def verifier_state_of_def Let_def)
qed

text \<open>
  A run: the first release is installed, the write of the next one fails, the installation restarts, and the next
  release is installed at the second attempt. The state file is there before and after.
\<close>

theorem installation_never_replays_witness:
  "let install = (\<lambda>s outcome. InstallUpdate s 1 [] outcome);
       step = install_step sample_update_env sample_state_env (uv_keyring sample_verifier);
       st = step sample_start (install sample_release (Inr ()));
       st' = run step st [install sample_next_release (Inl ''disk full''), Restart]
   in install_accepts sample_update_env sample_state_env sample_start (install sample_release (Inr ())) = Some 5 \<and>
      install_accepts sample_update_env sample_state_env st' (install sample_next_release (Inr ())) = Some 6 \<and>
      verifier_load sample_state_env (snd sample_start) (uv_keyring sample_verifier) = Inr (fst sample_start) \<and>
      (\<exists>b. snd st = Contents b) \<and> uv_highest_accepted_sequence (fst st') = 5 \<and> (5::u64) < 6"
proof -
  let ?op = "\<lambda>s. InstallUpdate s 1 [] (Inr ())" and ?fail = "InstallUpdate sample_next_release 1 [] (Inl ''disk full'')"
  let ?step = "install_step sample_update_env sample_state_env (uv_keyring sample_verifier)"
  have 1: "install_accepts sample_update_env sample_state_env sample_start (?op sample_release) = Some 5"
    and v: "uv_keyring (fst (?step sample_start (?op sample_release))) = uv_keyring sample_verifier \<and>
      uv_highest_accepted_sequence (fst (?step sample_start (?op sample_release))) = 5"
    and b: "\<exists>b. snd (?step sample_start (?op sample_release)) = Contents b"
    using sample_install [of "fst sample_start" sample_release NotFound]
    by (auto simp: sample_start_def update_verifier_new_def) (auto simp: sample_release_def)
  obtain v' disk' where s: "?step sample_start (?op sample_release) = (v', disk')" by (cases "?step sample_start (?op sample_release)")
  have start: "sample_start = run ?step (update_verifier_new (uv_keyring sample_verifier) 0, NotFound) []"
    by (simp add: sample_start_def)
  have inv: "in_step sample_state_env (uv_keyring sample_verifier) (v', disk')"
    unfolding s [symmetric]
    by (rule installation.inv_step) (simp add: in_step_def sample_faithful sample_start_def verifier_load_def)
  have "verify_and_store sample_update_env sample_state_env v' disk' sample_next_release 1 [] (Inl ''disk full'') \<noteq> (Inr verified, v2, disk2)"
    for verified v2 disk2
    by (auto simp: verify_and_store_def verifier_store_def Let_def split: sum.splits prod.splits)
  then have "?step (v', disk') ?fail = (v', disk')"
    by (cases rule: verify_and_store_cases [of sample_update_env sample_state_env v' disk' sample_next_release 1 "[]" "Inl ''disk full''"])
      auto
  moreover have "?step (v', disk') Restart = (v', disk')" using inv by (simp add: in_step_def)
  ultimately have same: "run ?step (v', disk') [?fail, Restart] = (v', disk')" by simp
  have 2: "install_accepts sample_update_env sample_state_env (run ?step (?step sample_start (?op sample_release)) [?fail, Restart])
      (?op sample_next_release) = Some 6"
    using sample_install [of v' sample_next_release disk'] v unfolding s same
    by (auto simp: sample_next_release_def)
  from installation_never_replays [OF sample_faithful start 1 2]
  have "verifier_load sample_state_env (snd sample_start) (uv_keyring sample_verifier) = Inr (fst sample_start) \<and> (5::u64) < 6" .
  with 1 2 v b same show ?thesis unfolding Let_def s by simp
qed

end
