(* ===== verification/Config.thy ===== *)
theory Config
  imports Validation Capture_Policy
begin

text \<open>
  The configuration, \<open>src/config.rs\<close>: the settings with their defaults and validation, the subset that is
  shared between machines, the first-run profiles (\<open>crates/vbuff-core/src/onboarding.rs\<close>), the hotkey syntax
  (\<open>crates/vbuff-platform/src/hotkey.rs\<close>), the preferences of the interface and the command line. TOML, JSON
  and BLAKE3 are parameters, as is the parser of saved searches; files are left out. An error is
  its message, without the values the code formats into it.
\<close>

section \<open>Hotkeys\<close>

datatype hotkey_modifier = ControlKey | AltKey | ShiftKey | MetaKey

record key_combo =
  kc_modifiers :: "hotkey_modifier list"
  kc_key :: string

definition modifier_of :: "string \<Rightarrow> hotkey_modifier option" where
  "modifier_of token =
     (if token \<in> {''ctrl'', ''control''} then Some ControlKey
      else if token \<in> {''alt'', ''option'', ''opt''} then Some AltKey
      else if token = ''shift'' then Some ShiftKey
      else if token \<in> {''cmd'', ''command'', ''super'', ''meta'', ''win'', ''windows''} then Some MetaKey
      else None)"

fun combo_tokens :: "string list \<Rightarrow> hotkey_modifier list \<Rightarrow> string option \<Rightarrow> hotkey_modifier list \<times> string option" where
  "combo_tokens [] modifiers key = (modifiers, key)"
| "combo_tokens (raw # rest) modifiers key =
     (let token = trim raw in
      if token = [] then combo_tokens rest modifiers key
      else (case modifier_of (to_ascii_lowercase token) of
          Some m \<Rightarrow> combo_tokens rest (modifiers @ [m]) key
        | None \<Rightarrow> combo_tokens rest modifiers (Some token)))"

definition parse_combo :: "string \<Rightarrow> string + key_combo" where
  "parse_combo s = (case combo_tokens (split_on CHR ''+'' s) [] None of
     (_, None) \<Rightarrow> Inl ''no main key'' | (modifiers, Some key) \<Rightarrow> Inr \<lparr>kc_modifiers = modifiers, kc_key = key\<rparr>)"

section \<open>First-run profiles\<close>

datatype default_profile = Casual | Developer | PrivacyMax

record profile_defaults =
  pd_max_history :: nat
  pd_secret_ttl_seconds :: u64
  pd_capture_soft_limit_bytes :: nat
  pd_capture_hard_limit_bytes :: nat
  pd_auto_pause_idle_seconds :: u64
  pd_auto_pause_remote :: bool
  pd_detect_secrets :: bool

definition MIB :: nat where
  "MIB = 1024 * 1024"

fun profile_defaults_of :: "default_profile \<Rightarrow> profile_defaults" where
  "profile_defaults_of Casual = \<lparr>pd_max_history = 500, pd_secret_ttl_seconds = 600,
     pd_capture_soft_limit_bytes = 16 * MIB, pd_capture_hard_limit_bytes = 128 * MIB,
     pd_auto_pause_idle_seconds = 900, pd_auto_pause_remote = True, pd_detect_secrets = True\<rparr>"
| "profile_defaults_of Developer = \<lparr>pd_max_history = 2000, pd_secret_ttl_seconds = 600,
     pd_capture_soft_limit_bytes = 32 * MIB, pd_capture_hard_limit_bytes = 256 * MIB,
     pd_auto_pause_idle_seconds = 1800, pd_auto_pause_remote = True, pd_detect_secrets = True\<rparr>"
| "profile_defaults_of PrivacyMax = \<lparr>pd_max_history = 200, pd_secret_ttl_seconds = 60,
     pd_capture_soft_limit_bytes = 4 * MIB, pd_capture_hard_limit_bytes = 32 * MIB,
     pd_auto_pause_idle_seconds = 300, pd_auto_pause_remote = True, pd_detect_secrets = True\<rparr>"

section \<open>The persisted enumerations and those of the interface\<close>

datatype source_rule_action = RuleCapture | RuleSkip | RulePlainTextOnly | RuleStripImages | RuleCaptureSensitive

record source_rule_config =
  src_app_contains :: "string option"
  src_title_regex :: "string option"
  src_url_host_suffix :: "string option"
  src_action :: source_rule_action

datatype unknown_evidence_mode = ModeGuard | ModeSkip | ModeAllow

fun evidence_policy_of :: "unknown_evidence_mode \<Rightarrow> unknown_evidence_policy" where
  "evidence_policy_of ModeGuard = GuardUnknown"
| "evidence_policy_of ModeSkip = SkipUnknown"
| "evidence_policy_of ModeAllow = AllowUnknown"

datatype ui_density = UiDensityAuto | UiDensityCompact | UiDensityComfortable
datatype density_mode = DensityAuto | DensityCompact | DensityComfortable

fun density_mode_of :: "ui_density \<Rightarrow> density_mode" where
  "density_mode_of UiDensityAuto = DensityAuto"
| "density_mode_of UiDensityCompact = DensityCompact"
| "density_mode_of UiDensityComfortable = DensityComfortable"

fun ui_density_of :: "density_mode \<Rightarrow> ui_density" where
  "ui_density_of DensityAuto = UiDensityAuto"
| "ui_density_of DensityCompact = UiDensityCompact"
| "ui_density_of DensityComfortable = UiDensityComfortable"

datatype ui_layout = UiCockpit | UiRail | UiCards
datatype layout_variant = LayoutCockpit | LayoutRail | LayoutCards

fun layout_variant_of :: "ui_layout \<Rightarrow> layout_variant" where
  "layout_variant_of UiCockpit = LayoutCockpit"
| "layout_variant_of UiRail = LayoutRail"
| "layout_variant_of UiCards = LayoutCards"

fun ui_layout_of :: "layout_variant \<Rightarrow> ui_layout" where
  "ui_layout_of LayoutCockpit = UiCockpit"
| "ui_layout_of LayoutRail = UiRail"
| "ui_layout_of LayoutCards = UiCards"

datatype ui_handed_mode = UiHandedOff | UiHandedLeft | UiHandedRight
datatype handed_mode = HandedOff | HandedLeft | HandedRight

fun handed_mode_of :: "ui_handed_mode \<Rightarrow> handed_mode" where
  "handed_mode_of UiHandedOff = HandedOff"
| "handed_mode_of UiHandedLeft = HandedLeft"
| "handed_mode_of UiHandedRight = HandedRight"

fun ui_handed_mode_of :: "handed_mode \<Rightarrow> ui_handed_mode" where
  "ui_handed_mode_of HandedOff = UiHandedOff"
| "ui_handed_mode_of HandedLeft = UiHandedLeft"
| "ui_handed_mode_of HandedRight = UiHandedRight"

section \<open>Saved searches\<close>

datatype history_scope =
    ScopeAll
  | ScopeKind content_kind
  | ScopeSnippets
  | ScopeSource string
  | ScopeTagged history_scope "string list" bool

record saved_search =
  ss_name :: string
  ss_query :: string
  ss_scope :: history_scope

text \<open>\<open>query_ok\<close> says whether \<open>parse_natural_query\<close> accepts the text now.\<close>

definition saved_search_valid :: "(string \<Rightarrow> bool) \<Rightarrow> saved_search \<Rightarrow> bool" where
  "saved_search_valid query_ok s \<longleftrightarrow> trim (ss_name s) \<noteq> [] \<and> length (ss_name s) \<le> 80 \<and> \<not> has_control (ss_name s) \<and>
     (trim (ss_query s) \<noteq> [] \<or> ss_scope s \<noteq> ScopeAll) \<and> query_ok (ss_query s) \<and>
     (case ss_scope s of ScopeSource source \<Rightarrow> source \<noteq> [] \<and> length source \<le> 512 \<and> \<not> has_control source | _ \<Rightarrow> True)"

section \<open>The settings\<close>

definition CONFIG_SCHEMA_VERSION :: u16 where "CONFIG_SCHEMA_VERSION = 2"
definition LEGACY_CONFIG_SCHEMA_VERSION :: u16 where "LEGACY_CONFIG_SCHEMA_VERSION = 1"
definition SHAREABLE_CONFIG_SCHEMA :: u16 where "SHAREABLE_CONFIG_SCHEMA = 2"
definition HANDOFF_CONFIG_SCHEMA :: u16 where "HANDOFF_CONFIG_SCHEMA = 2"
definition UI_SCALE_MIN_PERCENT :: u16 where "UI_SCALE_MIN_PERCENT = 75"
definition UI_SCALE_MAX_PERCENT :: u16 where "UI_SCALE_MAX_PERCENT = 200"
definition UI_SCALE_DEFAULT_PERCENT :: u16 where "UI_SCALE_DEFAULT_PERCENT = 100"

record config =
  cfg_schema_version :: u16
  cfg_hotkey :: string
  cfg_poll_interval_ms :: u64
  cfg_max_history :: nat
  cfg_excluded_apps :: "string list"
  cfg_source_rules :: "source_rule_config list"
  cfg_skip_whitespace_only :: bool
  cfg_detect_secrets :: bool
  cfg_secret_ttl_seconds :: u64
  cfg_unknown_evidence_policy :: unknown_evidence_mode
  cfg_capture_soft_limit_bytes :: nat
  cfg_capture_hard_limit_bytes :: nat
  cfg_capture_preview_bytes :: nat
  cfg_memory_soft_limit_mb :: nat
  cfg_memory_hard_limit_mb :: nat
  cfg_strict_security_mode :: bool
  cfg_launch_at_login :: bool
  cfg_default_profile :: "default_profile option"
  cfg_auto_pause_idle_seconds :: u64
  cfg_auto_pause_on_lock :: bool
  cfg_auto_pause_remote :: bool
  cfg_hotkey_coachmark_seen :: bool
  cfg_ui_density :: ui_density
  cfg_ui_layout :: ui_layout
  cfg_ui_reduced_motion :: "bool option"
  cfg_ui_large_preview :: bool
  cfg_ui_handed_mode :: ui_handed_mode
  cfg_ui_motion_inspector :: bool
  cfg_ui_show_health_digest :: bool
  cfg_ui_scale_percent :: u16
  cfg_saved_searches :: "saved_search list"

text \<open>The default hotkey is a constant of the platform.\<close>

definition default_hotkey :: "bool \<Rightarrow> string" where
  "default_hotkey macos = (if macos then ''Cmd+Shift+V'' else ''Ctrl+Shift+V'')"

definition config_default :: "bool \<Rightarrow> config" where
  "config_default macos =
     \<lparr>cfg_schema_version = CONFIG_SCHEMA_VERSION, cfg_hotkey = default_hotkey macos, cfg_poll_interval_ms = 300,
      cfg_max_history = 500, cfg_excluded_apps = [], cfg_source_rules = [], cfg_skip_whitespace_only = True,
      cfg_detect_secrets = True, cfg_secret_ttl_seconds = 600, cfg_unknown_evidence_policy = ModeGuard,
      cfg_capture_soft_limit_bytes = 16 * MIB, cfg_capture_hard_limit_bytes = 128 * MIB,
      cfg_capture_preview_bytes = 256 * 1024, cfg_memory_soft_limit_mb = 512, cfg_memory_hard_limit_mb = 1024,
      cfg_strict_security_mode = False, cfg_launch_at_login = False, cfg_default_profile = None,
      cfg_auto_pause_idle_seconds = 900, cfg_auto_pause_on_lock = True, cfg_auto_pause_remote = True,
      cfg_hotkey_coachmark_seen = False, cfg_ui_density = UiDensityAuto, cfg_ui_layout = UiCockpit,
      cfg_ui_reduced_motion = None, cfg_ui_large_preview = True, cfg_ui_handed_mode = UiHandedOff,
      cfg_ui_motion_inspector = False, cfg_ui_show_health_digest = False,
      cfg_ui_scale_percent = UI_SCALE_DEFAULT_PERCENT, cfg_saved_searches = []\<rparr>"

record shareable_config =
  sh_schema :: u16
  sh_hotkey :: string
  sh_poll_interval_ms :: u64
  sh_max_history :: nat
  sh_skip_whitespace_only :: bool
  sh_detect_secrets :: bool
  sh_secret_ttl_seconds :: u64
  sh_capture_soft_limit_bytes :: nat
  sh_capture_hard_limit_bytes :: nat
  sh_capture_preview_bytes :: nat
  sh_memory_soft_limit_mb :: nat
  sh_memory_hard_limit_mb :: nat
  sh_strict_security_mode :: bool
  sh_launch_at_login :: bool
  sh_default_profile :: "default_profile option"
  sh_auto_pause_idle_seconds :: u64
  sh_auto_pause_on_lock :: bool
  sh_auto_pause_remote :: bool
  sh_paste_modifier :: string

definition shareable :: "config \<Rightarrow> shareable_config" where
  "shareable c =
     \<lparr>sh_schema = SHAREABLE_CONFIG_SCHEMA, sh_hotkey = cfg_hotkey c, sh_poll_interval_ms = cfg_poll_interval_ms c,
      sh_max_history = cfg_max_history c, sh_skip_whitespace_only = cfg_skip_whitespace_only c,
      sh_detect_secrets = cfg_detect_secrets c, sh_secret_ttl_seconds = cfg_secret_ttl_seconds c,
      sh_capture_soft_limit_bytes = cfg_capture_soft_limit_bytes c,
      sh_capture_hard_limit_bytes = cfg_capture_hard_limit_bytes c,
      sh_capture_preview_bytes = cfg_capture_preview_bytes c, sh_memory_soft_limit_mb = cfg_memory_soft_limit_mb c,
      sh_memory_hard_limit_mb = cfg_memory_hard_limit_mb c, sh_strict_security_mode = cfg_strict_security_mode c,
      sh_launch_at_login = cfg_launch_at_login c, sh_default_profile = cfg_default_profile c,
      sh_auto_pause_idle_seconds = cfg_auto_pause_idle_seconds c, sh_auto_pause_on_lock = cfg_auto_pause_on_lock c,
      sh_auto_pause_remote = cfg_auto_pause_remote c, sh_paste_modifier = []\<rparr>"

section \<open>Validation\<close>

definition shareable_validate :: "shareable_config \<Rightarrow> string + unit" where
  "shareable_validate c =
     try_then (require (sh_schema c = SHAREABLE_CONFIG_SCHEMA) ''unsupported config schema'') (\<lambda>_.
     try_then (require (sh_hotkey c \<noteq> [] \<and> length (sh_hotkey c) \<le> 128 \<and> is_ok (parse_combo (sh_hotkey c)))
       ''invalid hotkey'') (\<lambda>_.
     try_then (require (25 \<le> sh_poll_interval_ms c \<and> sh_poll_interval_ms c \<le> 10000) ''invalid poll interval'') (\<lambda>_.
     try_then (require (1 \<le> sh_max_history c \<and> sh_max_history c \<le> 100000) ''invalid history cap'') (\<lambda>_.
     try_then (require (1 \<le> sh_secret_ttl_seconds c \<and> sh_secret_ttl_seconds c \<le> 31536000)
       ''invalid secret retention'') (\<lambda>_.
     try_then (require (0 < sh_capture_preview_bytes c \<and> sh_capture_hard_limit_bytes c \<le> 1024 * MIB \<and>
         sh_capture_preview_bytes c \<le> sh_capture_soft_limit_bytes c \<and>
         sh_capture_soft_limit_bytes c \<le> sh_capture_hard_limit_bytes c) ''invalid capture limits'') (\<lambda>_.
     try_then (require (0 < sh_memory_soft_limit_mb c \<and> sh_memory_soft_limit_mb c \<le> sh_memory_hard_limit_mb c \<and>
         sh_memory_hard_limit_mb c \<le> 1024 * 1024) ''invalid memory limits'') (\<lambda>_.
     try_then (require (sh_paste_modifier c \<in> {[], ''auto'', ''cmd'', ''ctrl''}) ''invalid paste modifier'') (\<lambda>_.
     require (sh_auto_pause_idle_seconds c = 0 \<or>
         (60 \<le> sh_auto_pause_idle_seconds c \<and> sh_auto_pause_idle_seconds c \<le> 604800))
       ''invalid idle auto-pause interval''))))))))"

definition matcher_ok :: "string \<Rightarrow> bool" where
  "matcher_ok value \<longleftrightarrow> value \<noteq> [] \<and> length value \<le> 512 \<and> \<not> has_control value"

definition rule_validate :: "'r gate_env \<Rightarrow> source_rule_config \<Rightarrow> string + unit" where
  "rule_validate env rule =
     try_then (try_all (\<lambda>value. require (matcher_ok value) ''invalid source rule'')
       (List.map_filter id [src_app_contains rule, src_url_host_suffix rule])) (\<lambda>_.
     (case src_title_regex rule of
        None \<Rightarrow> Inr ()
      | Some pattern \<Rightarrow>
          try_then (require (length pattern \<le> 4096) ''source rule regex is too long'') (\<lambda>_.
            require (is_ok (ge_regex_new env pattern)) ''invalid source rule regex'')))"

definition config_validate :: "'r gate_env \<Rightarrow> (string \<Rightarrow> bool) \<Rightarrow> config \<Rightarrow> string + unit" where
  "config_validate env query_ok c =
     try_then (require (length (cfg_saved_searches c) \<le> 24 \<and>
       list_all (saved_search_valid query_ok) (cfg_saved_searches c)) ''invalid saved searches'') (\<lambda>_.
     try_then (require (cfg_schema_version c = CONFIG_SCHEMA_VERSION) ''config schema needs previewed migration'') (\<lambda>_.
     try_then (shareable_validate (shareable c)) (\<lambda>_.
     try_then (require (length (cfg_excluded_apps c) \<le> 1024) ''too many excluded apps'') (\<lambda>_.
     try_then (try_all (\<lambda>app. require (matcher_ok app) ''invalid excluded app'') (cfg_excluded_apps c)) (\<lambda>_.
     try_then (require (length (cfg_source_rules c) \<le> 1024) ''too many source rules'') (\<lambda>_.
     try_then (require (UI_SCALE_MIN_PERCENT \<le> cfg_ui_scale_percent c \<and>
       cfg_ui_scale_percent c \<le> UI_SCALE_MAX_PERCENT) ''invalid UI scale percent'') (\<lambda>_.
     try_all (rule_validate env) (cfg_source_rules c))))))))"

section \<open>Changes of the settings\<close>

definition apply_shareable :: "config \<Rightarrow> shareable_config \<Rightarrow> string + config" where
  "apply_shareable c s = try_then (shareable_validate s) (\<lambda>_. Inr
     (c\<lparr>cfg_hotkey := sh_hotkey s, cfg_poll_interval_ms := sh_poll_interval_ms s, cfg_max_history := sh_max_history s,
        cfg_skip_whitespace_only := sh_skip_whitespace_only s, cfg_detect_secrets := sh_detect_secrets s,
        cfg_secret_ttl_seconds := sh_secret_ttl_seconds s,
        cfg_capture_soft_limit_bytes := sh_capture_soft_limit_bytes s,
        cfg_capture_hard_limit_bytes := sh_capture_hard_limit_bytes s,
        cfg_capture_preview_bytes := sh_capture_preview_bytes s,
        cfg_memory_soft_limit_mb := sh_memory_soft_limit_mb s, cfg_memory_hard_limit_mb := sh_memory_hard_limit_mb s,
        cfg_strict_security_mode := sh_strict_security_mode s, cfg_launch_at_login := sh_launch_at_login s,
        cfg_default_profile := sh_default_profile s, cfg_auto_pause_idle_seconds := sh_auto_pause_idle_seconds s,
        cfg_auto_pause_on_lock := sh_auto_pause_on_lock s, cfg_auto_pause_remote := sh_auto_pause_remote s\<rparr>))"

definition apply_default_profile :: "config \<Rightarrow> default_profile \<Rightarrow> config" where
  "apply_default_profile c profile = (let defaults = profile_defaults_of profile in
     c\<lparr>cfg_default_profile := Some profile, cfg_max_history := pd_max_history defaults,
       cfg_secret_ttl_seconds := pd_secret_ttl_seconds defaults,
       cfg_capture_soft_limit_bytes := pd_capture_soft_limit_bytes defaults,
       cfg_capture_hard_limit_bytes := pd_capture_hard_limit_bytes defaults,
       cfg_capture_preview_bytes := min (cfg_capture_preview_bytes c) (pd_capture_soft_limit_bytes defaults),
       cfg_auto_pause_idle_seconds := pd_auto_pause_idle_seconds defaults,
       cfg_auto_pause_remote := pd_auto_pause_remote defaults, cfg_detect_secrets := pd_detect_secrets defaults\<rparr>)"

record ui_preferences =
  up_saved_searches :: "saved_search list"
  up_density :: density_mode
  up_layout :: layout_variant
  up_reduced_motion :: bool
  up_large_preview :: bool
  up_handed_mode :: handed_mode
  up_motion_inspector :: bool
  up_show_health_digest :: bool
  up_ui_scale_percent :: u16

definition UI_SCALE_PRESETS :: "u16 list" where
  "UI_SCALE_PRESETS = [75, 90, 100, 110, 125, 150, 175, 200]"

definition clamp_scale :: "u16 \<Rightarrow> u16" where
  "clamp_scale p = min (max p UI_SCALE_MIN_PERCENT) UI_SCALE_MAX_PERCENT"

text \<open>\<open>min_by_key\<close> answers the first of the least elements.\<close>

definition min_by_key :: "('a \<Rightarrow> nat) \<Rightarrow> 'a list \<Rightarrow> 'a option" where
  "min_by_key key xs = foldl (\<lambda>best x. case best of None \<Rightarrow> Some x
     | Some b \<Rightarrow> if key x < key b then Some x else best) None xs"

definition abs_diff :: "u16 \<Rightarrow> u16 \<Rightarrow> nat" where
  "abs_diff a b = (if a \<le> b then unat b - unat a else unat a - unat b)"

definition snap_ui_scale_percent :: "u16 \<Rightarrow> u16" where
  "snap_ui_scale_percent percent =
     (case min_by_key (\<lambda>preset. abs_diff preset (clamp_scale percent)) UI_SCALE_PRESETS of
        Some preset \<Rightarrow> preset | None \<Rightarrow> UI_SCALE_DEFAULT_PERCENT)"

text \<open>\<open>desktop_motion\<close> is the answer of the desktop about reduced motion.\<close>

definition ui_preferences_of :: "bool option \<Rightarrow> config \<Rightarrow> ui_preferences" where
  "ui_preferences_of desktop_motion c =
     \<lparr>up_saved_searches = cfg_saved_searches c, up_density = density_mode_of (cfg_ui_density c),
      up_layout = layout_variant_of (cfg_ui_layout c),
      up_reduced_motion = (case cfg_ui_reduced_motion c of Some b \<Rightarrow> b
        | None \<Rightarrow> (case desktop_motion of Some b \<Rightarrow> b | None \<Rightarrow> False)),
      up_large_preview = cfg_ui_large_preview c, up_handed_mode = handed_mode_of (cfg_ui_handed_mode c),
      up_motion_inspector = cfg_ui_motion_inspector c, up_show_health_digest = cfg_ui_show_health_digest c,
      up_ui_scale_percent = snap_ui_scale_percent (cfg_ui_scale_percent c)\<rparr>"

definition apply_ui_preferences :: "config \<Rightarrow> ui_preferences \<Rightarrow> bool \<Rightarrow> config" where
  "apply_ui_preferences c p reduced_motion_changed =
     c\<lparr>cfg_saved_searches := up_saved_searches p, cfg_ui_density := ui_density_of (up_density p),
       cfg_ui_layout := ui_layout_of (up_layout p),
       cfg_ui_reduced_motion := (if reduced_motion_changed then Some (up_reduced_motion p) else cfg_ui_reduced_motion c),
       cfg_ui_large_preview := up_large_preview p, cfg_ui_handed_mode := ui_handed_mode_of (up_handed_mode p),
       cfg_ui_motion_inspector := up_motion_inspector p, cfg_ui_show_health_digest := up_show_health_digest p,
       cfg_ui_scale_percent := clamp_scale (up_ui_scale_percent p)\<rparr>"

section \<open>The handoff of a whole configuration\<close>

record config_handoff =
  ho_schema :: u16
  ho_source_platform :: string
  ho_config :: config
  ho_payload_hash :: string

text \<open>\<open>hash_config\<close> is the hexadecimal BLAKE3 digest of the JSON text, which serde may refuse to write.\<close>

definition handoff_new :: "(config \<Rightarrow> string + string) \<Rightarrow> string \<Rightarrow> config \<Rightarrow> string + config_handoff" where
  "handoff_new hash_config platform c = try_then (hash_config c) (\<lambda>h. Inr
     \<lparr>ho_schema = HANDOFF_CONFIG_SCHEMA, ho_source_platform = platform, ho_config = c, ho_payload_hash = h\<rparr>)"

definition handoff_validate ::
  "'r gate_env \<Rightarrow> (string \<Rightarrow> bool) \<Rightarrow> (config \<Rightarrow> string + string) \<Rightarrow> config_handoff \<Rightarrow> string + unit" where
  "handoff_validate env query_ok hash_config h =
     try_then (require (ho_schema h = HANDOFF_CONFIG_SCHEMA) ''unsupported handoff schema'') (\<lambda>_.
     try_then (require (ho_source_platform h \<noteq> [] \<and> length (ho_source_platform h) \<le> 64 \<and>
       list_all (\<lambda>b. is_ascii_alphanumeric b \<or> b = CHR ''-'') (ho_source_platform h)) ''invalid source platform'') (\<lambda>_.
     try_then (hash_config (ho_config h)) (\<lambda>digest.
     try_then (require (ho_payload_hash h = digest) ''handoff checksum mismatch'') (\<lambda>_.
     config_validate env query_ok (ho_config h)))))"

section \<open>The file and its migration\<close>

text \<open>What the code looks at of a \<open>toml::Value\<close>: tables in the order of their keys, arrays and integers.\<close>

datatype toml_value = TomlTable "(string \<times> toml_value) list" | TomlArray "toml_value list" | TomlInteger int | TomlScalar

definition CONFIG_KEYS :: "string list" where
  "CONFIG_KEYS = [''schema_version'', ''hotkey'', ''poll_interval_ms'', ''max_history'', ''excluded_apps'', ''source_rules'',
     ''skip_whitespace_only'', ''detect_secrets'', ''secret_ttl_seconds'', ''unknown_evidence_policy'',
     ''capture_soft_limit_bytes'', ''capture_hard_limit_bytes'', ''capture_preview_bytes'', ''memory_soft_limit_mb'',
     ''memory_hard_limit_mb'', ''strict_security_mode'', ''launch_at_login'', ''default_profile'',
     ''auto_pause_idle_seconds'', ''auto_pause_on_lock'', ''auto_pause_remote'', ''hotkey_coachmark_seen'', ''ui_density'',
     ''ui_layout'', ''ui_reduced_motion'', ''ui_large_preview'', ''ui_handed_mode'', ''ui_motion_inspector'',
     ''ui_show_health_digest'', ''ui_scale_percent'', ''saved_searches'']"

definition RETIRED_CONFIG_KEYS :: "string list" where
  "RETIRED_CONFIG_KEYS = [''paste_modifier'']"

definition SOURCE_RULE_KEYS :: "string list" where
  "SOURCE_RULE_KEYS = [''app_contains'', ''title_regex'', ''url_host_suffix'', ''action'']"

fun rule_keys_validate :: "toml_value \<Rightarrow> string + unit" where
  "rule_keys_validate (TomlTable entries) =
     try_all (\<lambda>(key, _). require (key \<in> set SOURCE_RULE_KEYS) ''unknown source rule key'') entries"
| "rule_keys_validate _ = Inl ''source rule must be a TOML table''"

fun config_keys_validate :: "toml_value \<Rightarrow> string + unit" where
  "config_keys_validate (TomlTable entries) =
     try_then (try_all (\<lambda>(key, _). require (key \<in> set CONFIG_KEYS \<or> key \<in> set RETIRED_CONFIG_KEYS)
       ''unknown config key'') entries) (\<lambda>_.
     (case map_of entries ''source_rules'' of
        None \<Rightarrow> Inr ()
      | Some (TomlArray rules) \<Rightarrow> try_all rule_keys_validate rules
      | Some _ \<Rightarrow> Inl ''source_rules must be an array''))"
| "config_keys_validate _ = Inl ''config must be a TOML table''"

text \<open>The TOML parser and the deserialization of a configuration (\<open>serde\<close>).\<close>

record toml_env =
  te_parse :: "string \<Rightarrow> string + toml_value"
  te_config :: "string \<Rightarrow> string + config"

definition parse_runtime_config :: "toml_env \<Rightarrow> string \<Rightarrow> string + config" where
  "parse_runtime_config te source = try_then (te_parse te source) (\<lambda>v.
     try_then (config_keys_validate v) (\<lambda>_. te_config te source))"

record migration_preview =
  mi_from_schema :: u16
  mi_to_schema :: u16
  mi_changes :: "string list"

fun toml_integer_at :: "toml_value \<Rightarrow> string \<Rightarrow> int option" where
  "toml_integer_at (TomlTable entries) key = (case map_of entries key of Some (TomlInteger n) \<Rightarrow> Some n | _ \<Rightarrow> None)"
| "toml_integer_at _ _ = None"

definition preview_migration :: "toml_env \<Rightarrow> string \<Rightarrow> string + migration_preview" where
  "preview_migration te source =
     try_then (te_parse te source) (\<lambda>raw.
     try_then (config_keys_validate raw) (\<lambda>_.
     try_then (case toml_integer_at raw ''schema_version'' of
         None \<Rightarrow> Inr LEGACY_CONFIG_SCHEMA_VERSION
       | Some n \<Rightarrow> if 0 \<le> n \<and> n < 65536 then Inr (of_int n) else Inl ''invalid config schema'') (\<lambda>from_schema.
     try_then (require (0 < from_schema) ''invalid config schema'') (\<lambda>_.
     try_then (require (from_schema \<le> CONFIG_SCHEMA_VERSION) ''config schema is newer than this vbuff build'') (\<lambda>_.
     try_then (te_config te source) (\<lambda>_. Inr
       \<lparr>mi_from_schema = from_schema, mi_to_schema = CONFIG_SCHEMA_VERSION,
        mi_changes = (if from_schema < CONFIG_SCHEMA_VERSION
          then [''record schema_version = 2'', ''recognize optional first-run profile state'',
                ''add idle, lock, and remote-control auto-pause policy'']
          else [])\<rparr>))))))"

section \<open>The command line\<close>

datatype config_command =
    ExportConfig "string option"
  | ApplyConfig string
  | HandoffExport string
  | HandoffApply string
  | MigratePreview
  | MigrateApply

definition HANDOFF_USAGE :: string where
  "HANDOFF_USAGE = ''usage: vbuff config handoff export <file> | vbuff config handoff apply <file>''"

definition MIGRATE_USAGE :: string where
  "MIGRATE_USAGE = ''usage: vbuff config migrate preview | vbuff config migrate apply''"

definition CONFIG_USAGE :: string where
  "CONFIG_USAGE = ''usage: vbuff config export [file] | vbuff config apply <file|-> | vbuff config handoff <export|apply> <file> | vbuff config migrate <preview|apply>''"

definition usage :: "string \<Rightarrow> string list \<Rightarrow> config_command \<Rightarrow> string + config_command option" where
  "usage message rest command = try_then (require (rest = []) message) (\<lambda>_. Inr (Some command))"

fun parse_requested :: "string list \<Rightarrow> string + config_command option" where
  "parse_requested [] = Inr None"
| "parse_requested (program # args) =
     (if program \<noteq> ''config'' then Inr None
      else (case args of
          [] \<Rightarrow> Inl CONFIG_USAGE
        | command # rest \<Rightarrow>
            if command = ''export'' then
              usage ''usage: vbuff config export [file]'' (drop 1 rest)
                (ExportConfig (case rest of [] \<Rightarrow> None | path # _ \<Rightarrow> Some path))
            else if command = ''apply'' then
              (case rest of [] \<Rightarrow> Inl ''usage: vbuff config apply <file|->''
               | path # extra \<Rightarrow> usage ''usage: vbuff config apply <file|->'' extra (ApplyConfig path))
            else if command = ''handoff'' then
              (case rest of
                 [] \<Rightarrow> Inl HANDOFF_USAGE
               | direction # others \<Rightarrow>
                   if direction = ''export'' then
                     (case others of [] \<Rightarrow> Inl ''usage: vbuff config handoff export <file>''
                      | path # extra \<Rightarrow> usage ''usage: vbuff config handoff export <file>'' extra (HandoffExport path))
                   else if direction = ''apply'' then
                     (case others of [] \<Rightarrow> Inl ''usage: vbuff config handoff apply <file>''
                      | path # extra \<Rightarrow> usage ''usage: vbuff config handoff apply <file>'' extra (HandoffApply path))
                   else Inl HANDOFF_USAGE)
            else if command = ''migrate'' then
              (case rest of
                 [] \<Rightarrow> Inl MIGRATE_USAGE
               | which # extra \<Rightarrow>
                   if which = ''preview'' then usage MIGRATE_USAGE extra MigratePreview
                   else if which = ''apply'' then usage MIGRATE_USAGE extra MigrateApply
                   else Inl MIGRATE_USAGE)
            else Inl CONFIG_USAGE))"

section \<open>Valid settings stay valid\<close>

lemmas config_validation =
  config_validate_def shareable_validate_def rule_validate_def try_then_eq_Inr try_all_Inr require_Inr is_ok_iff

text \<open>Validation reads the shared settings only through \<open>shareable\<close>; the rest is owner-local.\<close>

definition owner_local :: "config \<Rightarrow> string list \<times> source_rule_config list \<times> unknown_evidence_mode \<times> u16 \<times> saved_search list \<times> u16" where
  "owner_local c = (cfg_excluded_apps c, cfg_source_rules c, cfg_unknown_evidence_policy c, cfg_schema_version c,
     cfg_saved_searches c, cfg_ui_scale_percent c)"

lemma config_validate_split:
  "is_ok (config_validate env query_ok c) \<longleftrightarrow> is_ok (shareable_validate (shareable c)) \<and>
     length (cfg_saved_searches c) \<le> 24 \<and> list_all (saved_search_valid query_ok) (cfg_saved_searches c) \<and>
     cfg_schema_version c = CONFIG_SCHEMA_VERSION \<and> length (cfg_excluded_apps c) \<le> 1024 \<and>
     list_all matcher_ok (cfg_excluded_apps c) \<and> length (cfg_source_rules c) \<le> 1024 \<and>
     UI_SCALE_MIN_PERCENT \<le> cfg_ui_scale_percent c \<and> cfg_ui_scale_percent c \<le> UI_SCALE_MAX_PERCENT \<and>
     is_ok (try_all (rule_validate env) (cfg_source_rules c))"
  unfolding is_ok_iff config_validate_def
  by (simp add: try_then_eq_Inr require_Inr try_all_Inr list_all_iff is_ok_iff) blast

lemma shareable_apply:
  assumes "apply_shareable c s = Inr c'" and "sh_paste_modifier s = []"
  shows "shareable c' = s" "owner_local c' = owner_local c" "is_ok (shareable_validate s)"
proof -
  have ok: "is_ok (shareable_validate s)" and "sh_schema s = SHAREABLE_CONFIG_SCHEMA"
    using assms(1) by (auto simp: apply_shareable_def shareable_validate_def try_then_eq_Inr require_Inr is_ok_iff)
  with assms show "shareable c' = s" "owner_local c' = owner_local c" "is_ok (shareable_validate s)"
    by (auto simp: apply_shareable_def shareable_def owner_local_def try_then_eq_Inr)
qed

lemma clamp_scale_bounds: "UI_SCALE_MIN_PERCENT \<le> clamp_scale p" "clamp_scale p \<le> UI_SCALE_MAX_PERCENT"
  by (auto simp: clamp_scale_def UI_SCALE_MIN_PERCENT_def UI_SCALE_MAX_PERCENT_def min_def max_def)

lemma profile_valid:
  assumes "is_ok (shareable_validate (shareable c))"
  shows "is_ok (shareable_validate (shareable (apply_default_profile c profile)))"
  using assms
  by (cases profile) (auto simp: is_ok_iff shareable_validate_def shareable_def try_then_eq_Inr require_Inr
      apply_default_profile_def MIB_def Let_def)

datatype settings_op = AdoptShared shareable_config | AdoptProfile default_profile | AdoptPreferences ui_preferences bool

fun settings_step :: "config \<Rightarrow> settings_op \<Rightarrow> config" where
  "settings_step c (AdoptShared s) = (case apply_shareable c s of Inl _ \<Rightarrow> c | Inr c' \<Rightarrow> c')"
| "settings_step c (AdoptProfile profile) = apply_default_profile c profile"
| "settings_step c (AdoptPreferences p changed) = apply_ui_preferences c p changed"

fun settings_op_ok :: "(string \<Rightarrow> bool) \<Rightarrow> settings_op \<Rightarrow> bool" where
  "settings_op_ok query_ok (AdoptPreferences p _) \<longleftrightarrow>
     length (up_saved_searches p) \<le> 24 \<and> list_all (saved_search_valid query_ok) (up_saved_searches p)"
| "settings_op_ok _ (AdoptShared s) \<longleftrightarrow> True"
| "settings_op_ok _ (AdoptProfile _) \<longleftrightarrow> True"

lemma shareable_validate_legacy:
  "is_ok (shareable_validate s) \<Longrightarrow> is_ok (shareable_validate (s\<lparr>sh_paste_modifier := []\<rparr>))"
  by (auto simp: is_ok_iff shareable_validate_def try_then_eq_Inr require_Inr)

lemma apply_shareable_Inr:
  assumes "apply_shareable c s = Inr c'"
  shows "shareable c' = s\<lparr>sh_paste_modifier := []\<rparr>" "owner_local c' = owner_local c" "is_ok (shareable_validate s)"
proof -
  have "apply_shareable c (s\<lparr>sh_paste_modifier := []\<rparr>) = Inr c'" and ok: "is_ok (shareable_validate s)"
    using assms shareable_validate_legacy [of s]
    by (auto simp: apply_shareable_def try_then_eq_Inr is_ok_iff)
  from shareable_apply [OF this(1)] ok
  show "shareable c' = s\<lparr>sh_paste_modifier := []\<rparr>" "owner_local c' = owner_local c" "is_ok (shareable_validate s)"
    by simp_all
qed

lemma settings_step_valid:
  assumes "is_ok (config_validate env query_ok c)" and "settings_op_ok query_ok op"
  shows "is_ok (config_validate env query_ok (settings_step c op))"
proof (cases op)
  case (AdoptShared s)
  show ?thesis
  proof (cases "apply_shareable c s")
    case (Inr c')
    from apply_shareable_Inr [OF this] assms(1) show ?thesis
      unfolding AdoptShared using Inr shareable_validate_legacy [of s]
      by (auto simp: config_validate_split owner_local_def)
  qed (use AdoptShared assms in simp)
next
  case (AdoptProfile profile)
  have "owner_local (apply_default_profile c profile) = owner_local c"
    by (simp add: owner_local_def apply_default_profile_def Let_def)
  with assms(1) AdoptProfile show ?thesis
    by (auto simp: config_validate_split owner_local_def profile_valid)
next
  case (AdoptPreferences p changed)
  have "shareable (apply_ui_preferences c p changed) = shareable c"
    by (simp add: shareable_def apply_ui_preferences_def)
  with assms AdoptPreferences clamp_scale_bounds show ?thesis
    unfolding config_validate_split by (simp add: apply_ui_preferences_def)
qed

lemma settings_run_valid:
  "is_ok (config_validate env query_ok c) \<Longrightarrow> list_all (settings_op_ok query_ok) ops \<Longrightarrow>
     is_ok (config_validate env query_ok (run settings_step c ops))"
  by (induction ops arbitrary: c) (auto intro: settings_step_valid)

lemma default_combo: "is_ok (parse_combo (default_hotkey macos))"
  by (simp add: parse_combo_def default_hotkey_def trim_ascii_word modifier_of_def to_ascii_lowercase_def ascii_lower_def Let_def)

lemma config_default_valid: "is_ok (config_validate env query_ok (config_default macos))"
proof -
  have "is_ok (shareable_validate (shareable (config_default macos)))"
    using default_combo [of macos]
    by (auto simp: is_ok_iff shareable_validate_def shareable_def try_then_eq_Inr require_Inr config_default_def MIB_def
        default_hotkey_def)
  then show ?thesis
    by (simp add: config_validate_split config_default_def UI_SCALE_MIN_PERCENT_def UI_SCALE_MAX_PERCENT_def
        UI_SCALE_DEFAULT_PERCENT_def)
qed

text \<open>
  C23. Settings that were valid stay valid, so what \<open>save\<close> writes is read back. From the defaults or from any valid
  configuration, along every sequence of imports of shared settings, profile choices and changes of the interface
  preferences with valid saved searches, the configuration validates: no profile leaves the preview limit above the
  soft limit, and no scale leaves its range.
\<close>

theorem settings_stay_valid:
  assumes "c = config_default macos \<or> is_ok (config_validate env query_ok c)"
    and "list_all (settings_op_ok query_ok) ops"
  shows "is_ok (config_validate env query_ok (run settings_step c ops))"
  using assms config_default_valid by (intro settings_run_valid) auto

text \<open>
  Sharing a configuration carries over exactly the machine-independent settings. Exporting a valid
  configuration and importing it on another machine succeeds; afterwards both export the same settings, the other
  configuration is still valid if it was, and its exclusions, source rules, evidence policy, saved searches and
  scale are untouched.
\<close>

lemma shared_settings_transfer:
  assumes "is_ok (config_validate env query_ok mine)"
  shows "\<exists>c'. apply_shareable theirs (shareable mine) = Inr c' \<and> shareable c' = shareable mine \<and>
    owner_local c' = owner_local theirs \<and>
    (is_ok (config_validate env query_ok theirs) \<longrightarrow> is_ok (config_validate env query_ok c'))"
proof -
  have "is_ok (shareable_validate (shareable mine))" using assms by (simp add: config_validate_split)
  then obtain c' where c': "apply_shareable theirs (shareable mine) = Inr c'"
    by (auto simp: apply_shareable_def is_ok_iff)
  moreover have "shareable c' = shareable mine" "owner_local c' = owner_local theirs"
    by (rule shareable_apply [OF c'], simp add: shareable_def)+
  moreover have "is_ok (config_validate env query_ok theirs) \<longrightarrow> is_ok (config_validate env query_ok c')"
    using settings_step_valid [of env query_ok theirs "AdoptShared (shareable mine)"] c' by simp
  ultimately show ?thesis by blast
qed

lemma min_by_key_member: "\<exists>y \<in> set (x # xs). min_by_key key (x # xs) = Some y"
proof -
  have "\<exists>y \<in> set (b # xs). foldl (\<lambda>best x. case best of None \<Rightarrow> Some x
     | Some b \<Rightarrow> if key x < key b then Some x else best) (Some b) xs = Some y" for b
  proof (induction xs arbitrary: b)
    case (Cons a xs)
    from Cons.IH [of "if key a < key b then a else b"] show ?case by (auto split: if_splits)
  qed simp
  then show ?thesis by (simp add: min_by_key_def)
qed

lemma snap_scale_preset: "snap_ui_scale_percent p \<in> set UI_SCALE_PRESETS"
  using min_by_key_member [of 75 "[90, 100, 110, 125, 150, 175, 200]"
      "\<lambda>preset. abs_diff preset (clamp_scale p)"]
  unfolding snap_ui_scale_percent_def UI_SCALE_PRESETS_def by (auto simp del: list.set)

theorem settings_stay_valid_witness:
  "is_ok (config_validate \<lparr>ge_lowercase = id, ge_regex_new = (\<lambda>r. Inr r), ge_is_match = (\<lambda>_ _. False),
     ge_url_host = (\<lambda>_. None), ge_entropy = (\<lambda>_. False)\<rparr> (\<lambda>_. True)
     (run settings_step (config_default True) [AdoptProfile PrivacyMax, AdoptShared (shareable (config_default False))]))"
  by (rule settings_stay_valid [OF disjI1 [OF refl]]) simp_all

lemma shared_settings_transfer_witness:
  "\<exists>c'. apply_shareable (config_default True) (shareable (apply_default_profile (config_default False) Developer)) = Inr c' \<and>
     shareable c' = shareable (apply_default_profile (config_default False) Developer) \<and> cfg_excluded_apps c' = []"
proof -
  let ?env = "\<lparr>ge_lowercase = id, ge_regex_new = (\<lambda>r. Inr r), ge_is_match = (\<lambda>_ _. False),
     ge_url_host = (\<lambda>_. None), ge_entropy = (\<lambda>_. False)\<rparr>" and ?mine = "apply_default_profile (config_default False) Developer"
  have "is_ok (config_validate ?env (\<lambda>_. True) ?mine)"
    using settings_step_valid [OF config_default_valid, of "\<lambda>_. True" "AdoptProfile Developer"] by simp
  from shared_settings_transfer [OF this, of "config_default True"] show ?thesis
    by (auto simp: owner_local_def config_default_def)
qed

end
