(* ===== verification/Flavor_Integrity.thy ===== *)
theory Flavor_Integrity
  imports Clip_Types "HOL-Library.Sublist"
begin

text \<open>
  Digests and pruning of the flavors of a capture, \<open>crates/vbuff-core/src/capture/integrity.rs\<close>. BLAKE3 is
  a parameter; the pruning compares the bytes themselves, so what is proved of it holds for every hash
  function. The \<open>HashMap\<close> of the candidates is a map.
\<close>

record integrity_failure =
  if_mime :: string
  if_expected :: bytes
  if_actual :: bytes

record pruned_flavor =
  pf_mime :: string
  pf_derive_from_mime :: string

type_synonym flavor_identity = "string \<times> bytes \<times> nat"
type_synonym canonical_candidate = "nat \<times> flavor_origin"

definition annotate_integrity :: "(bytes \<Rightarrow> bytes) \<Rightarrow> flavor list \<Rightarrow> flavor list" where
  "annotate_integrity blake3 flavors = map (\<lambda>f. f\<lparr>fl_integrity_hash :=
     (case (fl_body f, fl_realization f) of (Inline b, Realized) \<Rightarrow> Some (blake3 b) | _ \<Rightarrow> None)\<rparr>) flavors"

definition verify_integrity :: "(bytes \<Rightarrow> bytes) \<Rightarrow> flavor list \<Rightarrow> integrity_failure list" where
  "verify_integrity blake3 flavors = List.map_filter (\<lambda>f.
     Option.bind (fl_integrity_hash f) (\<lambda>expected. Option.bind (inline_bytes (fl_body f)) (\<lambda>b.
       if blake3 b \<noteq> expected
       then Some \<lparr>if_mime = fl_mime f, if_expected = expected, if_actual = blake3 b\<rparr> else None))) flavors"

definition canonical_mime :: "string \<Rightarrow> string" where
  "canonical_mime mime = to_ascii_lowercase (trim (hd (split_on CHR '';'' mime)))"

fun position :: "('a \<Rightarrow> bool) \<Rightarrow> 'a list \<Rightarrow> nat option" where
  "position P [] = None"
| "position P (x # xs) = (if P x then Some 0 else map_option Suc (position P xs))"

definition candidates_of ::
  "(flavor_identity \<rightharpoonup> canonical_candidate list) \<Rightarrow> flavor_identity \<Rightarrow> canonical_candidate list" where
  "candidates_of canonical key = (case canonical key of None \<Rightarrow> [] | Some candidates \<Rightarrow> candidates)"

definition prune_step ::
  "(bytes \<Rightarrow> bytes) \<Rightarrow> flavor list \<Rightarrow> nat \<Rightarrow>
     (flavor_identity \<rightharpoonup> canonical_candidate list) \<times> bool list \<times> pruned_flavor list \<Rightarrow>
     (flavor_identity \<rightharpoonup> canonical_candidate list) \<times> bool list \<times> pruned_flavor list" where
  "prune_step blake3 flavors index st = (case st of (canonical, keep, pruned) \<Rightarrow>
     (let flavor = flavors ! index in
      case inline_bytes (fl_body flavor) of
        None \<Rightarrow> (canonical, keep, pruned)
      | Some b \<Rightarrow>
          (let key = (canonical_mime (fl_mime flavor), blake3 b, length b);
               candidates = candidates_of canonical key in
           case position (\<lambda>(prior, _). inline_bytes (fl_body (flavors ! prior)) = Some b) candidates of
             Some p \<Rightarrow>
               (let (prior, prior_origin) = candidates ! p in
                if prior_origin \<noteq> SourceOrigin \<and> fl_origin flavor = SourceOrigin
                then (canonical(key \<mapsto> candidates[p := (index, fl_origin flavor)]), keep[prior := False],
                      pruned @ [\<lparr>pf_mime = fl_mime (flavors ! prior), pf_derive_from_mime = fl_mime flavor\<rparr>])
                else (canonical(key \<mapsto> candidates), keep[index := False],
                      pruned @ [\<lparr>pf_mime = fl_mime flavor, pf_derive_from_mime = fl_mime (flavors ! prior)\<rparr>]))
           | None \<Rightarrow> (canonical(key \<mapsto> candidates @ [(index, fl_origin flavor)]), keep, pruned))))"

definition retain :: "bool list \<Rightarrow> 'a list \<Rightarrow> 'a list" where
  "retain keep xs = map fst (filter snd (zip xs keep))"

definition prune_redundant_flavors :: "(bytes \<Rightarrow> bytes) \<Rightarrow> flavor list \<Rightarrow> flavor list \<times> pruned_flavor list" where
  "prune_redundant_flavors blake3 flavors =
     (let (_, keep, pruned) = fold (prune_step blake3 flavors) [0..<length flavors]
            (Map.empty, replicate (length flavors) True, []) in
      (retain keep flavors, pruned))"

section \<open>Digests\<close>

lemma verify_annotated: "verify_integrity blake3 (annotate_integrity blake3 flavors) = []"
  by (induction flavors) (auto simp: verify_integrity_def annotate_integrity_def List.map_filter_def
      split: body.splits flavor_realization.splits)

section \<open>The invariant of the pruning loop\<close>

abbreviation fbytes :: "flavor list \<Rightarrow> nat \<Rightarrow> bytes option" where
  "fbytes fs i \<equiv> inline_bytes (fl_body (fs ! i))"

definition fkey :: "(bytes \<Rightarrow> bytes) \<Rightarrow> flavor list \<Rightarrow> nat \<Rightarrow> bytes \<Rightarrow> flavor_identity" where
  "fkey h fs i b = (canonical_mime (fl_mime (fs ! i)), h b, length b)"

text \<open>
  \<open>covered\<close>: the candidates are the flavors kept so far, under their identity, and every flavor read so far
  has a candidate with its identity and bytes, a source one if it is a source flavor itself.
\<close>

definition covered ::
  "(bytes \<Rightarrow> bytes) \<Rightarrow> flavor list \<Rightarrow> nat \<Rightarrow> (flavor_identity \<Rightarrow> canonical_candidate set) \<Rightarrow> bool list \<Rightarrow> bool" where
  "covered h fs n C keep \<longleftrightarrow>
     (\<forall>key i origin. (i, origin) \<in> C key \<longleftrightarrow> i < n \<and> keep ! i \<and> origin = fl_origin (fs ! i) \<and>
        (\<exists>b. fbytes fs i = Some b \<and> key = fkey h fs i b)) \<and>
     (\<forall>i < n. \<forall>b. fbytes fs i = Some b \<longrightarrow> (\<exists>j origin. (j, origin) \<in> C (fkey h fs i b) \<and>
        fbytes fs j = Some b \<and> (fl_origin (fs ! i) = SourceOrigin \<longrightarrow> origin = SourceOrigin)))"

definition prune_inv ::
  "(bytes \<Rightarrow> bytes) \<Rightarrow> flavor list \<Rightarrow> nat \<Rightarrow>
     (flavor_identity \<rightharpoonup> canonical_candidate list) \<times> bool list \<times> pruned_flavor list \<Rightarrow> bool" where
  "prune_inv h fs n st \<longleftrightarrow> (case st of (canonical, keep, pruned) \<Rightarrow>
     length keep = length fs \<and>
     (\<forall>i < length fs. (n \<le> i \<or> fbytes fs i = None) \<longrightarrow> keep ! i) \<and>
     covered h fs n (\<lambda>key. set (candidates_of canonical key)) keep \<and>
     (\<forall>key. distinct (map (fbytes fs \<circ> fst) (candidates_of canonical key))) \<and>
     length pruned = length (filter Not keep))"

lemma position_Some: "position P xs = Some i \<Longrightarrow> i < length xs \<and> P (xs ! i)"
  by (induction xs arbitrary: i) (auto split: if_split_asm)

lemma position_None: "position P xs = None \<longleftrightarrow> (\<forall>x \<in> set xs. \<not> P x)"
  by (induction xs) auto

lemma candidates_of_upd [simp]:
  "candidates_of (canonical(key \<mapsto> c)) key' = (if key' = key then c else candidates_of canonical key')"
  by (simp add: candidates_of_def)

lemma length_filter_Not_update:
  "i < length keep \<Longrightarrow> keep ! i \<Longrightarrow> length (filter Not (keep[i := False])) = Suc (length (filter Not keep))"
  by (induction keep arbitrary: i) (auto split: nat.split)

lemma covered_skip:
  "covered h fs n C keep \<Longrightarrow> fbytes fs n = None \<Longrightarrow> covered h fs (Suc n) C keep"
  unfolding covered_def less_Suc_eq
proof (elim conjE, intro conjI allI impI)
  fix key i origin
  assume none: "fbytes fs n = None" and iff: "\<forall>key i origin. ((i, origin) \<in> C key) = (i < n \<and> keep ! i \<and> origin = fl_origin (fs ! i) \<and>
      (\<exists>b. fbytes fs i = Some b \<and> key = fkey h fs i b))"
  show "((i, origin) \<in> C key) = ((i < n \<or> i = n) \<and> keep ! i \<and> origin = fl_origin (fs ! i) \<and>
      (\<exists>b. fbytes fs i = Some b \<and> key = fkey h fs i b))"
    unfolding iff [rule_format] using none by (cases "i = n") simp_all
next
  fix i b
  assume none: "fbytes fs n = None" and i: "i < n \<or> i = n" "fbytes fs i = Some b"
    and all: "\<forall>i < n. \<forall>b. fbytes fs i = Some b \<longrightarrow> (\<exists>j origin. (j, origin) \<in> C (fkey h fs i b) \<and>
        fbytes fs j = Some b \<and> (fl_origin (fs ! i) = SourceOrigin \<longrightarrow> origin = SourceOrigin))"
  from i none have "i < n" by auto
  then show "\<exists>j origin. (j, origin) \<in> C (fkey h fs i b) \<and> fbytes fs j = Some b \<and>
      (fl_origin (fs ! i) = SourceOrigin \<longrightarrow> origin = SourceOrigin)"
    by (rule all [rule_format]) (rule i(2))
qed

lemma covered_add:
  assumes "covered h fs n C keep" and "fbytes fs n = Some b" and "keep ! n" and "key = fkey h fs n b"
  shows "covered h fs (Suc n) (C(key := insert (n, fl_origin (fs ! n)) (C key))) keep"
proof -
  have member: "(i, o') \<in> C k \<longleftrightarrow> i < n \<and> keep ! i \<and> o' = fl_origin (fs ! i) \<and>
      (\<exists>b. fbytes fs i = Some b \<and> k = fkey h fs i b)" for k i o'
    using assms(1) unfolding covered_def by blast
  show ?thesis
    unfolding covered_def
  proof (intro conjI allI impI)
    fix k i o'
    show "(i, o') \<in> (C(key := insert (n, fl_origin (fs ! n)) (C key))) k \<longleftrightarrow>
        i < Suc n \<and> keep ! i \<and> o' = fl_origin (fs ! i) \<and> (\<exists>b. fbytes fs i = Some b \<and> k = fkey h fs i b)"
      using assms(2-4) by (auto simp: member less_Suc_eq)
  next
    fix i b'
    assume "i < Suc n" "fbytes fs i = Some b'"
    then show "\<exists>j o'. (j, o') \<in> (C(key := insert (n, fl_origin (fs ! n)) (C key))) (fkey h fs i b') \<and>
        fbytes fs j = Some b' \<and> (fl_origin (fs ! i) = SourceOrigin \<longrightarrow> o' = SourceOrigin)"
      using assms unfolding covered_def by (cases "i < n") (fastforce simp: less_Suc_eq)+
  qed
qed

lemma covered_drop:
  assumes "covered h fs n C keep" and "fbytes fs n = Some b" and "n < length keep" and "key = fkey h fs n b"
    and "(prior, origin) \<in> C key" and "fbytes fs prior = Some b"
    and "fl_origin (fs ! n) = SourceOrigin \<longrightarrow> origin = SourceOrigin"
  shows "covered h fs (Suc n) C (keep[n := False])"
  using assms unfolding covered_def by (auto simp: less_Suc_eq nth_list_update)

lemma covered_replace:
  assumes "covered h fs n C keep" and "fbytes fs n = Some b" and "n < length keep" and "keep ! n"
    and "key = fkey h fs n b" and "(prior, origin) \<in> C key" and "fbytes fs prior = Some b"
    and "origin \<noteq> SourceOrigin" and "fl_origin (fs ! n) = SourceOrigin"
  shows "covered h fs (Suc n) (C(key := insert (n, SourceOrigin) (C key - {(prior, origin)}))) (keep[prior := False])"
proof -
  have member: "(i, o') \<in> C k \<longleftrightarrow> i < n \<and> keep ! i \<and> o' = fl_origin (fs ! i) \<and>
      (\<exists>b. fbytes fs i = Some b \<and> k = fkey h fs i b)" for k i o'
    using assms(1) unfolding covered_def by blast
  have prior: "prior < n" "keep ! prior" "origin = fl_origin (fs ! prior)" "key = fkey h fs prior b"
    using assms(6,7) member by auto
  show ?thesis
    unfolding covered_def
  proof (intro conjI allI impI)
    fix k i o'
    show "(i, o') \<in> (C(key := insert (n, SourceOrigin) (C key - {(prior, origin)}))) k \<longleftrightarrow>
        i < Suc n \<and> keep[prior := False] ! i \<and> o' = fl_origin (fs ! i) \<and> (\<exists>b. fbytes fs i = Some b \<and> k = fkey h fs i b)"
      using assms(2-5,7-9) prior by (auto simp: member less_Suc_eq nth_list_update)
  next
    fix i b'
    assume "i < Suc n" "fbytes fs i = Some b'"
    show "\<exists>j o'. (j, o') \<in> (C(key := insert (n, SourceOrigin) (C key - {(prior, origin)}))) (fkey h fs i b') \<and>
        fbytes fs j = Some b' \<and> (fl_origin (fs ! i) = SourceOrigin \<longrightarrow> o' = SourceOrigin)"
    proof (cases "i < n")
      case True
      with assms(1) \<open>fbytes fs i = Some b'\<close> obtain j o' where j: "(j, o') \<in> C (fkey h fs i b')" "fbytes fs j = Some b'"
          "fl_origin (fs ! i) = SourceOrigin \<longrightarrow> o' = SourceOrigin"
        unfolding covered_def by blast
      show ?thesis
      proof (cases "(j, o') = (prior, origin)")
        case True
        with j assms(7) prior have "b' = b" "fkey h fs i b' = key" by (auto simp: member)
        with assms(2) show ?thesis by auto
      qed (use j in auto)
    next
      case False
      with \<open>i < Suc n\<close> have "i = n" by simp
      with assms(2,5,9) \<open>fbytes fs i = Some b'\<close> show ?thesis by auto
    qed
  qed
qed

lemma prune_step_inv:
  assumes "prune_inv h fs n st" and "n < length fs"
  shows "prune_inv h fs (Suc n) (prune_step h fs n st)"
proof -
  obtain canonical keep pruned where st: "st = (canonical, keep, pruned)" by (cases st)
  note inv = assms(1) [unfolded prune_inv_def st prod.case]
  have len: "length keep = length fs" and kept: "\<And>i. i < length fs \<Longrightarrow> n \<le> i \<or> fbytes fs i = None \<Longrightarrow> keep ! i"
    and cov: "covered h fs n (\<lambda>key. set (candidates_of canonical key)) keep"
    and dist: "\<And>key. distinct (map (fbytes fs \<circ> fst) (candidates_of canonical key))"
    and pruned: "length pruned = length (filter Not keep)"
    using inv by auto
  show ?thesis
  proof (cases "fbytes fs n")
    case None
    then show ?thesis
      using inv covered_skip [OF cov] by (auto simp: prune_step_def prune_inv_def st)
  next
    case (Some b)
    define key where "key = fkey h fs n b"
    define cs where "cs = candidates_of canonical key"
    have key': "(canonical_mime (fl_mime (fs ! n)), h b, length b) = key"
      by (simp add: key_def fkey_def)
    have keep_n: "keep ! n" using kept assms(2) by simp
    have step: "prune_step h fs n st =
        (case position (\<lambda>(prior, _). fbytes fs prior = Some b) cs of
           Some p \<Rightarrow> (let (prior, prior_origin) = cs ! p in
                if prior_origin \<noteq> SourceOrigin \<and> fl_origin (fs ! n) = SourceOrigin
                then (canonical(key \<mapsto> cs[p := (n, fl_origin (fs ! n))]), keep[prior := False],
                      pruned @ [\<lparr>pf_mime = fl_mime (fs ! prior), pf_derive_from_mime = fl_mime (fs ! n)\<rparr>])
                else (canonical(key \<mapsto> cs), keep[n := False],
                      pruned @ [\<lparr>pf_mime = fl_mime (fs ! n), pf_derive_from_mime = fl_mime (fs ! prior)\<rparr>]))
         | None \<Rightarrow> (canonical(key \<mapsto> cs @ [(n, fl_origin (fs ! n))]), keep, pruned))"
      unfolding prune_step_def st prod.case Let_def Some option.case key' cs_def [symmetric] ..
    have set_upd: "(\<lambda>k. set (candidates_of (canonical(key \<mapsto> c)) k)) = (\<lambda>k. set (candidates_of canonical k))(key := set c)" for c
      by (auto simp: fun_eq_iff)
    show ?thesis
    proof (cases "position (\<lambda>(prior, _). fbytes fs prior = Some b) cs")
      case None
      then have new: "Some b \<notin> (fbytes fs \<circ> fst) ` set cs"
        by (auto simp: position_None)
      have "covered h fs (Suc n) (\<lambda>k. set (candidates_of (canonical(key \<mapsto> cs @ [(n, fl_origin (fs ! n))])) k)) keep"
        unfolding set_upd using covered_add [OF cov Some keep_n key_def] by (simp add: cs_def)
      then show ?thesis
        using None len kept dist dist [of key] pruned new Some
        by (auto simp: step prune_inv_def cs_def)
    next
      case pos: (Some p)
      obtain prior origin where cp: "cs ! p = (prior, origin)" by (cases "cs ! p")
      have p: "p < length cs" "fbytes fs prior = Some b"
        using position_Some [OF pos] cp by auto
      have mem: "(prior, origin) \<in> set (candidates_of canonical key)"
        using p(1) cp by (metis cs_def nth_mem)
      have prior: "prior < n" "keep ! prior"
        using cov mem unfolding covered_def by blast+
      show ?thesis
      proof (cases "origin \<noteq> SourceOrigin \<and> fl_origin (fs ! n) = SourceOrigin")
        case True
        have "distinct cs" using dist [of key] distinct_map by (auto simp: cs_def)
        then have set_cs: "set (cs[p := (n, SourceOrigin)]) = insert (n, SourceOrigin) (set cs - {(prior, origin)})"
          using set_update_distinct [OF _ p(1)] cp by simp
        have "covered h fs (Suc n) (\<lambda>k. set (candidates_of (canonical(key \<mapsto> cs[p := (n, SourceOrigin)])) k)) (keep[prior := False])"
          unfolding set_upd set_cs
          using covered_replace [OF cov Some _ keep_n key_def mem p(2)] True assms(2) len by (simp add: cs_def)
        moreover have "map (fbytes fs \<circ> fst) (cs[p := (n, SourceOrigin)]) = map (fbytes fs \<circ> fst) cs"
          using p cp Some by (simp add: map_update list_update_same_conv)
        ultimately show ?thesis
          using pos cp True len kept dist pruned prior p Some assms(2) length_filter_Not_update [of prior keep]
          by (auto simp: step prune_inv_def cs_def nth_list_update)
      next
        case False
        have "covered h fs (Suc n) (\<lambda>k. set (candidates_of (canonical(key \<mapsto> cs)) k)) (keep[n := False])"
          unfolding set_upd using covered_drop [OF cov Some _ key_def mem p(2)] False assms(2) len
          by (auto simp: cs_def fun_upd_idem)
        then show ?thesis
          using pos cp False len kept dist pruned Some assms(2) length_filter_Not_update [of n keep] keep_n
          by (auto simp: step prune_inv_def cs_def nth_list_update)
      qed
    qed
  qed
qed

lemma prune_loop_inv:
  "n \<le> length fs \<Longrightarrow> prune_inv h fs n (fold (prune_step h fs) [0..<n] (Map.empty, replicate (length fs) True, []))"
proof (induction n)
  case 0
  then show ?case
    by (auto simp: prune_inv_def covered_def candidates_of_def)
qed (simp add: prune_step_inv)

section \<open>Pruning loses no data\<close>

lemma retain_indices:
  assumes "length keep = length xs"
  shows "retain keep xs = map (nth xs) (filter (nth keep) [0..<length xs])"
proof -
  have "zip xs keep = map (\<lambda>i. (xs ! i, keep ! i)) [0..<length xs]"
    using assms by (auto intro!: nth_equalityI)
  then show ?thesis
    by (simp add: retain_def filter_map comp_def)
qed

lemma length_retain: "length keep = length xs \<Longrightarrow> length (retain keep xs) = length (filter id keep)"
  by (induction keep xs rule: list_induct2) (auto simp: retain_def)

lemma subseq_retain: "subseq (retain keep xs) xs"
proof (induction keep arbitrary: xs)
  case (Cons k keep)
  then show ?case by (cases xs) (auto simp: retain_def)
qed (simp add: retain_def)

definition is_inline :: "flavor \<Rightarrow> bool" where
  "is_inline f \<longleftrightarrow> inline_bytes (fl_body f) \<noteq> None"

text \<open>
  C15. Pruning redundant flavors loses no data, whatever the hash function. What is kept is a subsequence of
  the flavors; spilled flavors are all kept; for every inline flavor one with the same canonical MIME type and
  the same bytes is kept, a source flavor if the dropped one was a source flavor; no two kept inline flavors
  agree in both; and there is one pruning marker per dropped flavor.
\<close>

theorem pruning_lossless:
  "case prune_redundant_flavors blake3 flavors of (kept, pruned) \<Rightarrow>
     subseq kept flavors \<and>
     filter (\<lambda>f. \<not> is_inline f) kept = filter (\<lambda>f. \<not> is_inline f) flavors \<and>
     (\<forall>f \<in> set flavors. is_inline f \<longrightarrow> (\<exists>g \<in> set kept.
        inline_bytes (fl_body g) = inline_bytes (fl_body f) \<and> canonical_mime (fl_mime g) = canonical_mime (fl_mime f) \<and>
        (fl_origin f = SourceOrigin \<longrightarrow> fl_origin g = SourceOrigin))) \<and>
     distinct (map (\<lambda>f. (canonical_mime (fl_mime f), inline_bytes (fl_body f))) (filter is_inline kept)) \<and>
     length kept + length pruned = length flavors"
proof -
  let ?n = "length flavors"
  obtain canonical keep pruned where loop:
    "fold (prune_step blake3 flavors) [0..<?n] (Map.empty, replicate ?n True, []) = (canonical, keep, pruned)"
    by (metis prod_cases3)
  then have inv: "prune_inv blake3 flavors ?n (canonical, keep, pruned)"
    using prune_loop_inv [of ?n flavors blake3] by simp
  define C where "C = (\<lambda>key. set (candidates_of canonical key))"
  have len: "length keep = ?n" and spilled: "\<And>i. i < ?n \<Longrightarrow> fbytes flavors i = None \<Longrightarrow> keep ! i"
    and cov: "covered blake3 flavors ?n C keep"
    and dist: "\<And>key. distinct (map (fbytes flavors \<circ> fst) (candidates_of canonical key))"
    and pruned: "length pruned = length (filter Not keep)"
    using inv by (auto simp: prune_inv_def C_def)
  have member: "(i, o') \<in> C k \<longleftrightarrow> i < ?n \<and> keep ! i \<and> o' = fl_origin (flavors ! i) \<and>
      (\<exists>b. fbytes flavors i = Some b \<and> k = fkey blake3 flavors i b)" for k i o'
    using cov unfolding covered_def by blast
  let ?kept = "retain keep flavors"
  have kept: "?kept = map (nth flavors) (filter (nth keep) [0..<?n])"
    by (rule retain_indices [OF len])
  have all: "flavors = map (nth flavors) [0..<?n]"
    by (simp add: map_nth)
  have "filter (\<lambda>f. \<not> is_inline f) flavors = map (nth flavors) (filter (\<lambda>i. \<not> is_inline (flavors ! i)) [0..<?n])"
    by (subst all) (simp add: filter_map comp_def)
  also have "filter (\<lambda>i. \<not> is_inline (flavors ! i)) [0..<?n] =
      filter (\<lambda>i. \<not> is_inline (flavors ! i)) (filter (nth keep) [0..<?n])"
    using spilled by (auto simp: is_inline_def intro!: filter_cong)
  finally have spilled_kept: "filter (\<lambda>f. \<not> is_inline f) ?kept = filter (\<lambda>f. \<not> is_inline f) flavors"
    by (simp add: kept filter_map comp_def)
  have represented: "\<exists>g \<in> set ?kept. inline_bytes (fl_body g) = inline_bytes (fl_body f) \<and>
      canonical_mime (fl_mime g) = canonical_mime (fl_mime f) \<and>
      (fl_origin f = SourceOrigin \<longrightarrow> fl_origin g = SourceOrigin)"
    if f: "f \<in> set flavors" "is_inline f" for f
  proof -
    from f obtain i b where i: "i < ?n" "flavors ! i = f" "fbytes flavors i = Some b"
      by (auto simp: in_set_conv_nth is_inline_def)
    with cov obtain j o' where j: "(j, o') \<in> C (fkey blake3 flavors i b)" "fbytes flavors j = Some b"
        "fl_origin f = SourceOrigin \<longrightarrow> o' = SourceOrigin"
      unfolding covered_def by blast
    then have "flavors ! j \<in> set ?kept"
      by (auto simp: kept member)
    with i j show ?thesis
      by (intro bexI [of _ "flavors ! j"]) (auto simp: member fkey_def)
  qed
  have "inj_on (\<lambda>i. (canonical_mime (fl_mime (flavors ! i)), fbytes flavors i))
      {i. i < ?n \<and> keep ! i \<and> is_inline (flavors ! i)}"
  proof (rule inj_onI)
    fix i j
    assume i: "i \<in> {i. i < ?n \<and> keep ! i \<and> is_inline (flavors ! i)}"
      and j: "j \<in> {i. i < ?n \<and> keep ! i \<and> is_inline (flavors ! i)}"
      and eq: "(canonical_mime (fl_mime (flavors ! i)), fbytes flavors i) =
        (canonical_mime (fl_mime (flavors ! j)), fbytes flavors j)"
    then obtain b where b: "fbytes flavors i = Some b" "fbytes flavors j = Some b"
      by (auto simp: is_inline_def)
    define key where "key = fkey blake3 flavors i b"
    have "key = fkey blake3 flavors j b"
      using eq by (simp add: key_def fkey_def)
    then have "(i, fl_origin (flavors ! i)) \<in> C key" "(j, fl_origin (flavors ! j)) \<in> C key"
      using i j b by (auto simp: member key_def)
    moreover have "inj_on (fbytes flavors \<circ> fst) (C key)"
      using dist [of key] by (simp add: distinct_map C_def)
    moreover have "(fbytes flavors \<circ> fst) (i, fl_origin (flavors ! i)) =
        (fbytes flavors \<circ> fst) (j, fl_origin (flavors ! j))"
      by (simp add: b)
    ultimately show "i = j"
      by (metis (no_types, lifting) inj_onD prod.inject)
  qed
  then have distinct: "distinct (map (\<lambda>f. (canonical_mime (fl_mime f), inline_bytes (fl_body f))) (filter is_inline ?kept))"
    by (simp add: kept filter_map comp_def distinct_map)
  have "length ?kept + length pruned = ?n"
    using sum_length_filter_compl [of id keep] by (simp add: length_retain len pruned comp_def)
  then show ?thesis
    using subseq_retain [of keep flavors] spilled_kept represented distinct
    by (auto simp: prune_redundant_flavors_def loop)
qed

theorem pruning_lossless_witness:
  "case prune_redundant_flavors (\<lambda>_. []) [flavor_derived ''text/plain'' ''hi'', flavor_inline ''TEXT/plain; charset=utf-8'' ''hi''] of
     (kept, pruned) \<Rightarrow> (\<exists>g \<in> set kept. inline_bytes (fl_body g) = Some ''hi'' \<and> fl_origin g = SourceOrigin) \<and>
       length kept + length pruned = 2"
  using pruning_lossless [of "[flavor_derived ''text/plain'' ''hi'', flavor_inline ''TEXT/plain; charset=utf-8'' ''hi'']" "\<lambda>_. []"]
  by (auto simp: flavor_derived_def flavor_inline_def is_inline_def split: prod.splits)

end
