(* ===== verification/Classify.thy ===== *)
theory Classify
  imports Capture_Timing
begin

text \<open>
  The detection of the primary content kind of a clip, \<open>crates/vbuff-core/src/classify.rs\<close>: MIME types first,
  then heuristics over the first plain text.
\<close>

section \<open>Text heuristics\<close>



definition URL_SCHEMES :: "string list" where
  "URL_SCHEMES = [''http://'', ''https://'', ''ftp://'', ''ftps://'', ''file://'', ''mailto:'', ''ssh://'', ''git://'']"

definition is_url :: "string \<Rightarrow> bool" where
  "is_url s \<longleftrightarrow> length (whitespace_words (utf8_split s) []) = 1 \<and>
     (let lower = to_ascii_lowercase s in
      list_ex (\<lambda>p. starts_with p lower) URL_SCHEMES \<or>
      (starts_with ''www.'' lower \<and> CHR ''.'' \<in> set lower))"

definition is_color_hex :: "string \<Rightarrow> bool" where
  "is_color_hex s \<longleftrightarrow> (case s of
     c # rest \<Rightarrow> c = CHR ''#'' \<and> length rest \<in> {3, 4, 6, 8} \<and> list_all is_ascii_hexdigit rest
   | [] \<Rightarrow> False)"

definition STRONG_TOKENS :: "string list" where
  "STRONG_TOKENS = [''fn '', ''def '', ''class '', ''function '', ''import '', ''#include'', ''public '', ''private '',
     ''const '', ''let '', ''var '', ''=> '', ''->'', ''::'', ''</'', ''/>'']"

definition is_symbol_line :: "string \<Rightarrow> bool" where
  "is_symbol_line l \<longleftrightarrow> (let t = trim_end l in
     ends_with ''{'' t \<or> ends_with ''}'' t \<or> ends_with '';'' t \<or> ends_with '':'' t)"

definition is_indented_line :: "string \<Rightarrow> bool" where
  "is_indented_line l \<longleftrightarrow> starts_with ''    '' l \<or> starts_with [CHR 0x09] l"

definition looks_like_code :: "string \<Rightarrow> bool" where
  "looks_like_code s \<longleftrightarrow>
     (let lines = str_lines s;
          has_strong = list_ex (\<lambda>t. contains_sub t s) STRONG_TOKENS;
          symbol_lines = length (filter is_symbol_line lines);
          indented_lines = length (filter is_indented_line lines) in
      has_strong \<or> (2 \<le> length lines \<and> (1 \<le> symbol_lines \<or> 1 \<le> indented_lines)))"

definition detect_text_kind :: "string \<Rightarrow> content_kind" where
  "detect_text_kind s = (let trimmed = trim s in
     if trimmed = [] then TextKind
     else if is_url trimmed then UrlKind
     else if is_color_hex trimmed then ColorKind
     else if looks_like_code trimmed then CodeKind
     else TextKind)"

section \<open>MIME types first\<close>

definition is_file_mime :: "string \<Rightarrow> bool" where
  "is_file_mime mime \<longleftrightarrow> mime = ''text/uri-list'' \<or> contains_sub ''file-url'' mime \<or>
     contains_sub ''Filenames'' mime \<or> mime = ''application/x-file-list''"

definition plain_text_of :: "flavor \<Rightarrow> string option" where
  "plain_text_of f = (if is_text f \<and> \<not> contains_sub ''html'' (fl_mime f) \<and> \<not> contains_sub ''rtf'' (fl_mime f)
     then as_text f else None)"

fun rich_kind :: "flavor list \<Rightarrow> content_kind option" where
  "rich_kind [] = None"
| "rich_kind (f # fs) = (if contains_sub ''html'' (fl_mime f) then Some HtmlKind
     else if contains_sub ''rtf'' (fl_mime f) then Some RtfKind else rich_kind fs)"

definition detect_kind :: "flavor list \<Rightarrow> content_kind" where
  "detect_kind flavors =
     (if list_ex is_image flavors then ImageKind
      else if list_ex (\<lambda>f. is_file_mime (fl_mime f)) flavors then FileKind
      else (case List.map_filter plain_text_of flavors of
          plain # _ \<Rightarrow> detect_text_kind plain
        | [] \<Rightarrow> (case rich_kind flavors of Some kind \<Rightarrow> kind | None \<Rightarrow> OtherKind)))"

section \<open>What a kind says of the content\<close>

lemma detect_text_kind_cases:
  "detect_text_kind s \<in> {TextKind, UrlKind, ColorKind, CodeKind}"
  "detect_text_kind s = UrlKind \<longleftrightarrow> is_url (trim s) \<and> trim s \<noteq> []"
  "detect_text_kind s = ColorKind \<longleftrightarrow> is_color_hex (trim s) \<and> \<not> is_url (trim s)"
  by (auto simp: detect_text_kind_def Let_def is_color_hex_def)

text \<open>A clip is an image exactly when one flavor is, whatever its other flavors are; an image is never hidden.\<close>

lemma detect_kind_image: "detect_kind flavors = ImageKind \<longleftrightarrow> list_ex is_image flavors"
proof -
  have "rich_kind fs \<noteq> Some ImageKind" for fs by (induction fs) auto
  moreover have "detect_text_kind t \<noteq> ImageKind" for t using detect_text_kind_cases(1) [of t] by auto
  ultimately show ?thesis by (auto simp: detect_kind_def split: list.splits option.splits)
qed

lemma rich_kind_cases:
  "rich_kind fs = None \<or> rich_kind fs = Some HtmlKind \<or> rich_kind fs = Some RtfKind"
  by (induction fs) auto

text \<open>
  Plain text wins over rich text: when there is a plain text, and neither an image nor a file, the kind is
  that of the first plain text, so it is never \<open>Html\<close>, \<open>Rtf\<close> or \<open>Other\<close>; without one the kind is never a text kind.
\<close>

lemma detect_kind_text:
  assumes "\<not> list_ex is_image flavors" and "\<not> list_ex (\<lambda>f. is_file_mime (fl_mime f)) flavors"
  shows "detect_kind flavors \<in> {TextKind, UrlKind, ColorKind, CodeKind} \<longleftrightarrow>
    (\<exists>f \<in> set flavors. plain_text_of f \<noteq> None)"
proof -
  have "List.map_filter plain_text_of flavors = [] \<longleftrightarrow> (\<forall>f \<in> set flavors. plain_text_of f = None)"
    by (induction flavors) (auto simp: List.map_filter_simps split: option.splits)
  then show ?thesis
    using assms detect_text_kind_cases(1) rich_kind_cases [of flavors]
    by (auto simp: detect_kind_def split: list.splits)
qed

end
