(* ===== verification/History.thy ===== *)
theory History
  imports Clip
begin

text \<open>
  The history facade, \<open>src/history.rs\<close>: clips in the database, short-lived clips that are kept in memory only,
  the undo of the last deletion and the snapshots published to the interface.

  The database and the event sink are the functions of \<open>history_env\<close> on their common state; a job of the
  store owner that cannot run is one of their errors. The clips that were given to the database are also kept
  in \<open>hi_inserted\<close>, newest first, which the code does not have and only the theorems read. One operation reads
  the clock once; mutexes are not poisoned; the metrics of idle maintenance are not kept.
\<close>

datatype history_error =
    StoreFailed
  | SinkFailed
  | MemoryOnlyExpiry
  | MemoryOnlyPin
  | MemoryOnlyProtection
  | UndoUnavailable

datatype history_event =
    TagsEvent u64
  | SnapshotEvent u64 "clip list" "clip_id set"
  | MaintenanceEvent "u64 option" "clip list option" "clip_id set"
  | ProtectionEvent clip_id bool
  | PruneExpiredEvent "clip_id set"

record 'w history_env =
  he_insert :: "clip \<Rightarrow> 'w \<Rightarrow> (history_error + unit) \<times> 'w"
  he_enforce_cap :: "nat \<Rightarrow> 'w \<Rightarrow> (history_error + unit) \<times> 'w"
  he_load_recent :: "nat \<Rightarrow> 'w \<Rightarrow> (history_error + clip list) \<times> 'w"
  he_get_clip :: "clip_id \<Rightarrow> 'w \<Rightarrow> (history_error + clip option) \<times> 'w"
  he_set_ttl :: "clip_id \<Rightarrow> u64 option \<Rightarrow> 'w \<Rightarrow> (history_error + unit) \<times> 'w"
  he_set_pinned :: "clip_id \<Rightarrow> bool \<Rightarrow> 'w \<Rightarrow> (history_error + unit) \<times> 'w"
  he_set_protected :: "clip_id \<Rightarrow> bool \<Rightarrow> 'w \<Rightarrow> (history_error + unit) \<times> 'w"
  he_delete :: "clip_id \<Rightarrow> 'w \<Rightarrow> (history_error + unit) \<times> 'w"
  he_clear :: "'w \<Rightarrow> (history_error + unit) \<times> 'w"
  he_tag_snapshot :: "'w \<Rightarrow> (history_error + unit) \<times> 'w"
  he_maintain :: "bool \<Rightarrow> duration \<Rightarrow> 'w \<Rightarrow> (history_error + bool) \<times> 'w"
  he_digest :: "'w \<Rightarrow> (history_error + unit) \<times> 'w"
  he_busy :: "'w \<Rightarrow> bool"
  he_send :: "history_event \<Rightarrow> 'w \<Rightarrow> (history_error + unit) \<times> 'w"

record 'w history =
  hi_world :: 'w
  hi_volatile :: "clip list"
  hi_origins :: "clip_id list"
  hi_version :: u64
  hi_limit :: nat
  hi_deleted :: "(clip \<times> instant) option"
  hi_inserted :: "clip list"

type_synonym ('w, 'a) history_op = "'w history \<Rightarrow> (history_error + 'a) \<times> 'w history"

text \<open>The \<open>?\<close> operator on operations that change the history.\<close>

definition and_then :: "('w, 'a) history_op \<Rightarrow> ('a \<Rightarrow> ('w, 'b) history_op) \<Rightarrow> ('w, 'b) history_op" where
  "and_then m k h = (case m h of (Inl e, h') \<Rightarrow> (Inl e, h') | (Inr x, h') \<Rightarrow> k x h')"

definition on_world :: "('w \<Rightarrow> (history_error + 'a) \<times> 'w) \<Rightarrow> ('w, 'a) history_op" where
  "on_world f h = (case f (hi_world h) of (r, w) \<Rightarrow> (r, h\<lparr>hi_world := w\<rparr>))"

definition MAX_VOLATILE_CLIPS :: nat where
  "MAX_VOLATILE_CLIPS = 32"

definition MAX_VOLATILE_ORIGINS :: nat where
  "MAX_VOLATILE_ORIGINS = 256"

definition history_new :: "'w \<Rightarrow> nat \<Rightarrow> 'w history" where
  "history_new w snapshot_limit = \<lparr>hi_world = w, hi_volatile = [], hi_origins = [], hi_version = 0,
     hi_limit = max snapshot_limit 1, hi_deleted = None, hi_inserted = []\<rparr>"

definition clip_expired :: "utc \<Rightarrow> clip \<Rightarrow> bool" where
  "clip_expired now c = (case cm_expires_at (clip_meta c) of None \<Rightarrow> False | Some expiry \<Rightarrow> expiry \<le> now)"

definition volatile_snapshot :: "utc \<Rightarrow> 'w history \<Rightarrow> clip list" where
  "volatile_snapshot now h = filter (\<lambda>c. \<not> clip_expired now c) (hi_volatile h)"

definition current_volatile_ids :: "utc \<Rightarrow> 'w history \<Rightarrow> clip_id set" where
  "current_volatile_ids now h = set (map clip_id (volatile_snapshot now h))"

definition merge_volatile :: "utc \<Rightarrow> 'w history \<Rightarrow> clip list \<Rightarrow> nat \<Rightarrow> clip list" where
  "merge_volatile now h persistent limit =
     (let pinned_end = length (takeWhile clip_pinned persistent) in
      take (max limit 1) (take pinned_end persistent @ volatile_snapshot now h @ drop pinned_end persistent))"

definition next_version :: "'w history \<Rightarrow> u64 \<times> 'w history" where
  "next_version h = (hi_version h + 1, h\<lparr>hi_version := hi_version h + 1\<rparr>)"

definition refresh_tags :: "'w history_env \<Rightarrow> ('w, unit) history_op" where
  "refresh_tags env = and_then (on_world (he_tag_snapshot env)) (\<lambda>_ h.
     (case next_version h of (version, h1) \<Rightarrow> on_world (he_send env (TagsEvent version)) h1))"

definition publish_snapshot :: "'w history_env \<Rightarrow> utc \<Rightarrow> nat \<Rightarrow> ('w, unit) history_op" where
  "publish_snapshot env now limit = and_then (on_world (he_load_recent env limit)) (\<lambda>persistent h.
     (case next_version h of (version, h1) \<Rightarrow>
        on_world (he_send env (SnapshotEvent version (merge_volatile now h1 persistent limit)
          (current_volatile_ids now h1))) h1))"

definition refresh_snapshot :: "'w history_env \<Rightarrow> utc \<Rightarrow> ('w, unit) history_op" where
  "refresh_snapshot env now h = publish_snapshot env now (hi_limit h) h"

definition mutate_and_refresh :: "'w history_env \<Rightarrow> utc \<Rightarrow> ('w, unit) history_op \<Rightarrow> ('w, unit) history_op" where
  "mutate_and_refresh env now mutation h =
     and_then mutation (\<lambda>_. and_then (publish_snapshot env now (hi_limit h)) (\<lambda>_. refresh_tags env)) h"

definition store_insert :: "'w history_env \<Rightarrow> clip \<Rightarrow> ('w, unit) history_op" where
  "store_insert env c h = on_world (he_insert env c) (h\<lparr>hi_inserted := c # hi_inserted h\<rparr>)"

definition history_insert :: "'w history_env \<Rightarrow> utc \<Rightarrow> clip \<Rightarrow> nat \<Rightarrow> ('w, unit) history_op" where
  "history_insert env now c max_history = mutate_and_refresh env now
     (and_then (store_insert env c) (\<lambda>_. on_world (he_enforce_cap env max_history)))"

fun store_insert_all :: "'w history_env \<Rightarrow> clip list \<Rightarrow> ('w, unit) history_op" where
  "store_insert_all env [] h = (Inr (), h)"
| "store_insert_all env (c # cs) h = and_then (store_insert env c) (\<lambda>_. store_insert_all env cs) h"

definition history_insert_many :: "'w history_env \<Rightarrow> utc \<Rightarrow> clip list \<Rightarrow> nat \<Rightarrow> ('w, unit) history_op" where
  "history_insert_many env now cs max_history = mutate_and_refresh env now
     (and_then (store_insert_all env cs) (\<lambda>_. on_world (he_enforce_cap env max_history)))"

definition remember_origin :: "clip_id \<Rightarrow> clip_id list \<Rightarrow> clip_id list" where
  "remember_origin i origins =
     (let appended = filter (\<lambda>j. j \<noteq> i) origins @ [i] in
      drop (length appended - MAX_VOLATILE_ORIGINS) appended)"

definition insert_volatile :: "'w history_env \<Rightarrow> utc \<Rightarrow> clip \<Rightarrow> ('w, unit) history_op" where
  "insert_volatile env now c h =
     refresh_snapshot env now (h\<lparr>hi_origins := remember_origin (clip_id c) (hi_origins h),
       hi_volatile := take MAX_VOLATILE_CLIPS (c # filter (\<lambda>d. clip_content_hash d \<noteq> clip_content_hash c \<and>
         \<not> clip_expired now d) (hi_volatile h))\<rparr>)"

definition is_memory_only :: "'w history \<Rightarrow> clip_id \<Rightarrow> bool" where
  "is_memory_only h i \<longleftrightarrow> i \<in> set (hi_origins h)"

definition history_set_ttl :: "'w history_env \<Rightarrow> utc \<Rightarrow> clip_id \<Rightarrow> u64 option \<Rightarrow> ('w, unit) history_op" where
  "history_set_ttl env now i seconds h =
     (if is_memory_only h i then (Inl MemoryOnlyExpiry, h)
      else mutate_and_refresh env now (on_world (he_set_ttl env i seconds)) h)"

definition history_set_pinned :: "'w history_env \<Rightarrow> utc \<Rightarrow> clip_id \<Rightarrow> bool \<Rightarrow> ('w, unit) history_op" where
  "history_set_pinned env now i pinned h =
     (if is_memory_only h i then (Inl MemoryOnlyPin, h)
      else mutate_and_refresh env now (on_world (he_set_pinned env i pinned)) h)"

definition set_session_protected :: "'w history_env \<Rightarrow> clip_id \<Rightarrow> bool \<Rightarrow> ('w, unit) history_op" where
  "set_session_protected env i protected h =
     (if is_memory_only h i then (Inl MemoryOnlyProtection, h)
      else and_then (on_world (he_set_protected env i protected))
        (\<lambda>_. on_world (he_send env (ProtectionEvent i protected))) h)"

definition history_find :: "'w history_env \<Rightarrow> utc \<Rightarrow> clip_id \<Rightarrow> ('w, clip option) history_op" where
  "history_find env now i h = (case find (\<lambda>c. clip_id c = i \<and> \<not> clip_expired now c) (hi_volatile h) of
     Some c \<Rightarrow> (Inr (Some c), h)
   | None \<Rightarrow> on_world (he_get_clip env i) h)"

definition history_delete :: "'w history_env \<Rightarrow> utc \<Rightarrow> instant \<Rightarrow> clip_id \<Rightarrow> ('w, unit) history_op" where
  "history_delete env now at i h0 =
     (let h = h0\<lparr>hi_volatile := filter (\<lambda>c. clip_id c \<noteq> i) (hi_volatile h0)\<rparr> in
      if length (hi_volatile h) \<noteq> length (hi_volatile h0) then refresh_snapshot env now h
      else and_then (history_find env now i) (\<lambda>original.
        and_then (mutate_and_refresh env now (on_world (he_delete env i))) (\<lambda>_ h1.
          on_world (he_send env (ProtectionEvent i False))
            (h1\<lparr>hi_deleted := map_option (\<lambda>c. (c, at)) original\<rparr>))) h)"

definition clear_history :: "'w history_env \<Rightarrow> utc \<Rightarrow> ('w, unit) history_op" where
  "clear_history env now h =
     mutate_and_refresh env now (on_world (he_clear env)) (h\<lparr>hi_deleted := None, hi_volatile := []\<rparr>)"

definition has_spilled :: "clip \<Rightarrow> bool" where
  "has_spilled c = list_ex (\<lambda>f. case fl_body f of Spilled _ _ \<Rightarrow> True | Inline _ \<Rightarrow> False) (clip_flavors c)"

definition history_restore :: "'w history_env \<Rightarrow> utc \<Rightarrow> instant \<Rightarrow> clip \<Rightarrow> nat \<Rightarrow> ('w, unit) history_op" where
  "history_restore env now at c max_history h =
     (case (case hi_deleted h of
          Some (saved, deleted_at) \<Rightarrow>
            if clip_id saved = clip_id c \<and> saturating_duration_since at deleted_at \<le> secs 5
            then Some (saved, h\<lparr>hi_deleted := None\<rparr>)
            else if has_spilled c then None else Some (c, h)
        | None \<Rightarrow> if has_spilled c then None else Some (c, h)) of
        None \<Rightarrow> (Inl UndoUnavailable, h)
      | Some (c1, h1) \<Rightarrow>
          if is_memory_only h1 (clip_id c1) then insert_volatile env now c1 h1
          else history_insert env now c1 max_history h1)"

definition max_by_created :: "clip list \<Rightarrow> clip option" where
  "max_by_created cs = foldl (\<lambda>best c. case best of None \<Rightarrow> Some c
     | Some b \<Rightarrow> if cm_created_at (clip_meta b) \<le> cm_created_at (clip_meta c) then Some c else best) None cs"

definition latest_clip :: "utc \<Rightarrow> 'w history \<Rightarrow> clip option \<Rightarrow> clip option" where
  "latest_clip now h persistent =
     (case (max_by_created (volatile_snapshot now h), persistent) of
        (Some v, Some p) \<Rightarrow> if cm_created_at (clip_meta v) < cm_created_at (clip_meta p) then Some p else Some v
      | (Some v, None) \<Rightarrow> Some v
      | (None, p) \<Rightarrow> p)"

text \<open>\<open>maintain_idle\<close> in three steps: the final announcement, the job of the store owner, and the whole.\<close>

definition announce_maintenance ::
  "'w history_env \<Rightarrow> utc \<Rightarrow> u64 option \<Rightarrow> clip list option \<Rightarrow> ('w, bool) history_op" where
  "announce_maintenance env now version clips =
     and_then (\<lambda>h. on_world (he_send env (MaintenanceEvent version clips (current_volatile_ids now h))) h)
       (\<lambda>_. and_then (refresh_tags env) (\<lambda>_ h. (Inr True, h)))"

definition maintain_store :: "'w history_env \<Rightarrow> utc \<Rightarrow> bool \<Rightarrow> duration \<Rightarrow> bool \<Rightarrow> ('w, bool) history_op" where
  "maintain_store env now background_work secret_ttl volatile_expired h =
     (if he_busy env (hi_world h) then (Inr False, h)
      else and_then (on_world (he_maintain env background_work secret_ttl)) (\<lambda>store_changed h1.
        if volatile_expired \<or> store_changed
        then and_then (on_world (he_load_recent env (hi_limit h1))) (\<lambda>persistent.
          and_then (on_world (he_digest env)) (\<lambda>_ h2. case next_version h2 of (version, h3) \<Rightarrow>
            announce_maintenance env now (Some version) (Some (merge_volatile now h3 persistent (hi_limit h3))) h3)) h1
        else and_then (on_world (he_digest env)) (\<lambda>_. announce_maintenance env now None None) h1) h)"

definition maintain_idle :: "'w history_env \<Rightarrow> utc \<Rightarrow> instant \<Rightarrow> bool \<Rightarrow> duration \<Rightarrow> ('w, bool) history_op" where
  "maintain_idle env now at background_work secret_ttl h0 =
     (let kept = filter (\<lambda>c. \<not> clip_expired now c) (hi_volatile h0);
          volatile_expired = length (hi_volatile h0) - length kept;
          deleted = (case hi_deleted h0 of
            Some (c, t) \<Rightarrow> if secs 5 < saturating_duration_since at t then None else Some (c, t) | None \<Rightarrow> None);
          h = h0\<lparr>hi_volatile := kept, hi_deleted := deleted\<rparr> in
      and_then (on_world (he_send env (PruneExpiredEvent (current_volatile_ids now h))))
        (\<lambda>_. maintain_store env now background_work secret_ttl (0 < volatile_expired)) h)"

definition refresh_for_memory :: "'w history_env \<Rightarrow> utc \<Rightarrow> nat \<Rightarrow> ('w, bool) history_op" where
  "refresh_for_memory env now limit0 h =
     (let limit = max limit0 1 in
      if he_busy env (hi_world h) then (Inr False, h)
      else and_then (on_world (he_load_recent env limit)) (\<lambda>persistent h1.
        (case next_version h1 of (version, h2) \<Rightarrow>
          (let h3 = h2\<lparr>hi_limit := limit\<rparr> in
           and_then (on_world (he_send env (SnapshotEvent version (merge_volatile now h3 persistent limit)
               (current_volatile_ids now h3)))) (\<lambda>_ h4. (Inr True, h4)) h3))) h)"

section \<open>The history as a machine\<close>

datatype history_cmd =
    InsertCmd clip nat
  | InsertManyCmd "clip list" nat
  | VolatileCmd clip
  | SetTtlCmd clip_id "u64 option"
  | SetPinnedCmd clip_id bool
  | SetProtectedCmd clip_id bool
  | DeleteCmd clip_id
  | ClearCmd
  | FindCmd clip_id
  | RestoreCmd clip nat
  | MaintainCmd bool duration
  | MemoryCmd nat

fun history_step :: "'w history_env \<Rightarrow> 'w history \<Rightarrow> utc \<times> instant \<times> history_cmd \<Rightarrow> 'w history" where
  "history_step env h (now, at, InsertCmd c n) = snd (history_insert env now c n h)"
| "history_step env h (now, at, InsertManyCmd cs n) = snd (history_insert_many env now cs n h)"
| "history_step env h (now, at, VolatileCmd c) = snd (insert_volatile env now c h)"
| "history_step env h (now, at, SetTtlCmd i t) = snd (history_set_ttl env now i t h)"
| "history_step env h (now, at, SetPinnedCmd i b) = snd (history_set_pinned env now i b h)"
| "history_step env h (now, at, SetProtectedCmd i b) = snd (set_session_protected env i b h)"
| "history_step env h (now, at, DeleteCmd i) = snd (history_delete env now at i h)"
| "history_step env h (now, at, ClearCmd) = snd (clear_history env now h)"
| "history_step env h (now, at, FindCmd i) = snd (history_find env now i h)"
| "history_step env h (now, at, RestoreCmd c n) = snd (history_restore env now at c n h)"
| "history_step env h (now, at, MaintainCmd b ttl) = snd (maintain_idle env now at b ttl h)"
| "history_step env h (now, at, MemoryCmd n) = snd (refresh_for_memory env now n h)"

text \<open>What an operation can change: the clips in memory, their origins, the inserted clips and the undo slot.\<close>

definition core :: "'w history \<Rightarrow> clip list \<times> clip_id list \<times> clip list \<times> (clip \<times> instant) option" where
  "core h = (hi_volatile h, hi_origins h, hi_inserted h, hi_deleted h)"

lemma core_on_world [simp]: "core (snd (on_world f h)) = core h"
  by (simp add: on_world_def core_def split: prod.splits)

lemma core_and_then: "core (snd (and_then m k h)) =
    (case m h of (Inl e, h1) \<Rightarrow> core h1 | (Inr x, h1) \<Rightarrow> core (snd (k x h1)))"
  by (simp add: and_then_def split: prod.splits sum.splits)

lemma core_world [simp]: "on_world f h = (r, h') \<Longrightarrow> core h' = core h"
  using core_on_world [of f h] by simp

lemma core_refresh_tags [simp]: "core (snd (refresh_tags env h)) = core h"
  by (auto simp: refresh_tags_def core_and_then next_version_def split: prod.splits sum.splits)
    (auto simp: core_def dest: core_world)

lemma core_publish [simp]: "core (snd (publish_snapshot env now limit h)) = core h"
  by (auto simp: publish_snapshot_def core_and_then next_version_def split: prod.splits sum.splits)
    (auto simp: core_def dest: core_world)

lemma core_mutate [simp]: "core (snd (mutate_and_refresh env now m h)) = core (snd (m h))"
  by (cases "m h") (auto simp: mutate_and_refresh_def core_and_then split: prod.splits sum.splits
      dest!: arg_cong [of "publish_snapshot _ _ _ _" _ "\<lambda>p. core (snd p)"])

lemma core_store_insert [simp]: "core (snd (store_insert env c h)) = core (h\<lparr>hi_inserted := c # hi_inserted h\<rparr>)"
  by (simp add: store_insert_def)

lemma core_insert [simp]: "core (snd (history_insert env now c n h)) = core (h\<lparr>hi_inserted := c # hi_inserted h\<rparr>)"
  using core_store_insert [of env c h]
  by (cases "store_insert env c h") (auto simp: history_insert_def core_and_then simp del: core_store_insert
      split: prod.splits sum.splits)

lemma core_insert_all:
  "\<exists>k. core (snd (store_insert_all env cs h)) = core (h\<lparr>hi_inserted := rev (take k cs) @ hi_inserted h\<rparr>)"
proof (induction cs arbitrary: h)
  case (Cons c cs)
  obtain r h1 where h1: "store_insert env c h = (r, h1)" by (cases "store_insert env c h")
  have c1: "core h1 = core (h\<lparr>hi_inserted := c # hi_inserted h\<rparr>)"
    using core_store_insert [of env c h] h1 by simp
  obtain k where *: "core (snd (store_insert_all env cs h1)) = core (h1\<lparr>hi_inserted := rev (take k cs) @ hi_inserted h1\<rparr>)"
    using Cons.IH by blast
  have all: "core (snd (store_insert_all env (c # cs) h)) =
      (case r of Inl _ \<Rightarrow> core h1 | Inr _ \<Rightarrow> core (snd (store_insert_all env cs h1)))"
    by (simp add: core_and_then h1)
  from * have "core (snd (store_insert_all env (c # cs) h)) =
      core (h\<lparr>hi_inserted := rev (take (case r of Inl _ \<Rightarrow> 1 | Inr _ \<Rightarrow> Suc k) (c # cs)) @ hi_inserted h\<rparr>)"
    using c1 unfolding all by (auto simp: core_def split: sum.splits)
  then show ?case by blast
qed (auto simp: core_def)

lemma core_insert_many:
  "\<exists>k. core (snd (history_insert_many env now cs n h)) = core (h\<lparr>hi_inserted := rev (take k cs) @ hi_inserted h\<rparr>)"
proof -
  have "core (snd (history_insert_many env now cs n h)) = core (snd (store_insert_all env cs h))"
    by (cases "store_insert_all env cs h") (auto simp: history_insert_many_def core_and_then split: sum.splits)
  then show ?thesis using core_insert_all by metis
qed

lemma core_volatile [simp]:
  "core (snd (insert_volatile env now c h)) = core (h\<lparr>hi_origins := remember_origin (clip_id c) (hi_origins h),
     hi_volatile := take MAX_VOLATILE_CLIPS (c # filter (\<lambda>d. clip_content_hash d \<noteq> clip_content_hash c \<and>
       \<not> clip_expired now d) (hi_volatile h))\<rparr>)"
  by (simp add: insert_volatile_def refresh_snapshot_def)

lemma core_settings [simp]:
  "core (snd (history_set_ttl env now i t h)) = core h"
  "core (snd (history_set_pinned env now i b h)) = core h"
  "core (snd (set_session_protected env i b h)) = core h"
  "core (snd (history_find env now i h)) = core h"
  by (auto simp: history_set_ttl_def history_set_pinned_def set_session_protected_def history_find_def core_and_then
      split: prod.splits sum.splits option.splits)

lemma core_memory [simp]: "core (snd (refresh_for_memory env now n h)) = core h"
  by (auto simp: refresh_for_memory_def core_and_then next_version_def Let_def split: prod.splits sum.splits)
    (auto simp: core_def dest: core_world)

lemma core_clear [simp]: "core (snd (clear_history env now h)) = core (h\<lparr>hi_deleted := None, hi_volatile := []\<rparr>)"
  by (simp add: clear_history_def)

lemma core_delete:
  "\<exists>d. core (snd (history_delete env now at i h)) =
     core (h\<lparr>hi_volatile := filter (\<lambda>c. clip_id c \<noteq> i) (hi_volatile h), hi_deleted := d\<rparr>)"
proof -
  define g where "g = h\<lparr>hi_volatile := filter (\<lambda>c. clip_id c \<noteq> i) (hi_volatile h)\<rparr>"
  define delete where "delete = mutate_and_refresh env now (on_world (he_delete env i))"
  obtain original h1 where find: "history_find env now i g = (original, h1)" by (cases "history_find env now i g")
  then have h1: "core h1 = core g" using core_settings(4) [of env now i g] by simp
  obtain r h2 where delete: "delete h1 = (r, h2)" by (cases "delete h1")
  then have h2: "core h2 = core g" using h1 core_mutate [of env now _ h1] by (metis core_on_world delete_def snd_conv)
  have "core (snd (history_delete env now at i h)) \<in>
      {core g, core (h2\<lparr>hi_deleted := (case original of Inr x \<Rightarrow> map_option (\<lambda>c. (c, at)) x | Inl _ \<Rightarrow> None)\<rparr>)}"
    using find delete h1 h2
    by (auto simp: history_delete_def refresh_snapshot_def core_and_then Let_def g_def [symmetric] delete_def [symmetric]
        split: sum.splits)
  then show ?thesis
    using h2 by (auto simp: core_def g_def)
qed

lemma core_refreshed [simp]: "refresh_tags env h = (r, h') \<Longrightarrow> core h' = core h"
  using core_refresh_tags [of env h] by simp

lemma core_announce [simp]: "core (snd (announce_maintenance env now version clips h)) = core h"
  by (auto simp: announce_maintenance_def core_and_then split: prod.splits sum.splits)

lemma core_maintain_store [simp]: "core (snd (maintain_store env now b ttl force h)) = core h"
proof -
  have version: "core (h\<lparr>hi_version := v\<rparr>) = core h" for v and h :: "'w history" by (simp add: core_def)
  show ?thesis
    by (auto simp: maintain_store_def core_and_then next_version_def version split: prod.splits sum.splits)
qed

lemma core_maintain:
  "\<exists>d. core (snd (maintain_idle env now at b ttl h)) =
     core (h\<lparr>hi_volatile := filter (\<lambda>c. \<not> clip_expired now c) (hi_volatile h), hi_deleted := d\<rparr>)"
  by (auto simp: maintain_idle_def Let_def core_and_then split: prod.splits sum.splits)

definition remembered :: "utc \<Rightarrow> clip \<Rightarrow> 'w history \<Rightarrow> 'w history" where
  "remembered now c h = h\<lparr>hi_origins := remember_origin (clip_id c) (hi_origins h),
     hi_volatile := take MAX_VOLATILE_CLIPS (c # filter (\<lambda>d. clip_content_hash d \<noteq> clip_content_hash c \<and>
       \<not> clip_expired now d) (hi_volatile h))\<rparr>"

lemma restore_cases:
  obtains (refused) "core (snd (history_restore env now at c n h)) = core h"
  | (kept) c1 d where "clip_id c1 = clip_id c" "is_memory_only h (clip_id c)"
      "core (snd (history_restore env now at c n h)) = core (remembered now c1 (h\<lparr>hi_deleted := d\<rparr>))"
  | (stored) c1 d where "clip_id c1 = clip_id c" "\<not> is_memory_only h (clip_id c)"
      "core (snd (history_restore env now at c n h)) = core (h\<lparr>hi_deleted := d, hi_inserted := c1 # hi_inserted h\<rparr>)"
proof -
  define choice where "choice = (case hi_deleted h of
          Some (saved, deleted_at) \<Rightarrow>
            if clip_id saved = clip_id c \<and> saturating_duration_since at deleted_at \<le> secs 5
            then Some (saved, h\<lparr>hi_deleted := None\<rparr>)
            else if has_spilled c then None else Some (c, h)
        | None \<Rightarrow> if has_spilled c then None else Some (c, h))"
  have eq: "history_restore env now at c n h = (case choice of
        None \<Rightarrow> (Inl UndoUnavailable, h)
      | Some (c1, h1) \<Rightarrow>
          if is_memory_only h1 (clip_id c1) then insert_volatile env now c1 h1
          else history_insert env now c1 n h1)"
    by (simp add: history_restore_def choice_def)
  show thesis
  proof (cases choice)
    case None
    with eq show thesis by (intro refused) simp
  next
    case (Some p)
    have "\<exists>c1 d. p = (c1, h\<lparr>hi_deleted := d\<rparr>) \<and> clip_id c1 = clip_id c"
    proof (cases "hi_deleted h")
      case None
      with Some have "p = (c, h\<lparr>hi_deleted := hi_deleted h\<rparr>)"
        by (auto simp: choice_def split: if_splits)
      then show ?thesis by blast
    next
      case (Some q)
      obtain saved t where q: "q = (saved, t)" by (cases q)
      with Some \<open>choice = Some p\<close>
      have "p = (saved, h\<lparr>hi_deleted := None\<rparr>) \<and> clip_id saved = clip_id c \<or> p = (c, h\<lparr>hi_deleted := hi_deleted h\<rparr>)"
        by (auto simp: choice_def split: if_splits)
      then show ?thesis by blast
    qed
    then obtain c1 d where c1: "p = (c1, h\<lparr>hi_deleted := d\<rparr>)" "clip_id c1 = clip_id c"
      by blast
    show thesis
    proof (cases "is_memory_only h (clip_id c)")
      case True
      with Some c1 eq show thesis
        by (intro kept [of c1 d]) (auto simp: is_memory_only_def remembered_def)
    next
      case False
      with Some c1 eq show thesis
        by (intro stored [of c1 d]) (auto simp: is_memory_only_def)
    qed
  qed
qed

section \<open>The window of memory-only origins\<close>

definition history_ok :: "'w history \<Rightarrow> bool" where
  "history_ok h \<longleftrightarrow> length (hi_volatile h) \<le> MAX_VOLATILE_CLIPS \<and> distinct (map clip_content_hash (hi_volatile h)) \<and>
     length (hi_origins h) \<le> MAX_VOLATILE_ORIGINS \<and> distinct (hi_origins h)"

lemma history_ok_core: "core h = core h' \<Longrightarrow> history_ok h \<longleftrightarrow> history_ok h'"
  by (simp add: core_def history_ok_def)

lemma history_ok_remembered:
  assumes "history_ok h"
  shows "history_ok (remembered now c h)"
proof -
  define kept where "kept = c # filter (\<lambda>d. clip_content_hash d \<noteq> clip_content_hash c \<and> \<not> clip_expired now d) (hi_volatile h)"
  define origins where "origins = filter (\<lambda>j. j \<noteq> clip_id c) (hi_origins h) @ [clip_id c]"
  have "distinct (map clip_content_hash kept)" "distinct origins"
    using assms by (auto simp: kept_def origins_def history_ok_def distinct_map_filter)
  then have "distinct (map clip_content_hash (take MAX_VOLATILE_CLIPS kept))"
      "distinct (drop (length origins - MAX_VOLATILE_ORIGINS) origins)"
    by (simp_all add: take_map [symmetric] distinct_drop)
  then show ?thesis
    by (simp add: history_ok_def remembered_def remember_origin_def kept_def [symmetric] origins_def [symmetric] Let_def)
qed

lemma history_ok_filter: "history_ok h \<Longrightarrow> history_ok (h\<lparr>hi_volatile := filter P (hi_volatile h), hi_deleted := d\<rparr>)"
  by (auto simp: history_ok_def distinct_map_filter intro: order_trans [OF length_filter_le])

lemma history_ok_fields [simp]:
  "history_ok (h\<lparr>hi_inserted := x\<rparr>) \<longleftrightarrow> history_ok h" "history_ok (h\<lparr>hi_deleted := d\<rparr>) \<longleftrightarrow> history_ok h"
  "history_ok (h\<lparr>hi_deleted := d, hi_inserted := x\<rparr>) \<longleftrightarrow> history_ok h"
  by (auto simp: history_ok_def)

lemma history_step_ok: "history_ok h \<Longrightarrow> history_ok (history_step env h op)"
proof -
  assume ok: "history_ok h"
  obtain now at cmd where op: "op = (now, at, cmd)" by (metis prod_cases3)
  show ?thesis
  proof (cases cmd)
    case (InsertManyCmd cs n)
    obtain k where "core (snd (history_insert_many env now cs n h)) = core (h\<lparr>hi_inserted := rev (take k cs) @ hi_inserted h\<rparr>)"
      using core_insert_many by blast
    with ok op InsertManyCmd show ?thesis by (auto dest: history_ok_core)
  next
    case (VolatileCmd c)
    have "core (snd (insert_volatile env now c h)) = core (remembered now c h)"
      by (simp add: remembered_def)
    with ok op VolatileCmd history_ok_remembered [OF ok] show ?thesis
      by (auto dest: history_ok_core simp del: core_volatile)
  next
    case (DeleteCmd i)
    with op ok history_ok_filter [OF ok] core_delete [of env now at i h] show ?thesis
      by (auto dest: history_ok_core)
  next
    case (MaintainCmd b ttl)
    with op ok history_ok_filter [OF ok] core_maintain [of env now at b ttl h] show ?thesis
      by (auto dest: history_ok_core)
  next
    case (RestoreCmd c n)
    with op ok history_ok_remembered show ?thesis
      by (cases rule: restore_cases [where env = env and now = now and at = at and c = c and n = n and h = h])
        (auto dest: history_ok_core)
  next
    case ClearCmd
    have "history_ok (h\<lparr>hi_deleted := None, hi_volatile := []\<rparr>)"
      using ok by (simp add: history_ok_def)
    with op ClearCmd show ?thesis by (auto dest: history_ok_core [OF core_clear, THEN iffD2])
  qed (use op ok in \<open>simp_all add: history_ok_core [OF core_insert] history_ok_core [OF core_settings(1)]
      history_ok_core [OF core_settings(2)] history_ok_core [OF core_settings(3)] history_ok_core [OF core_settings(4)]
      history_ok_core [OF core_memory]\<close>)
qed

interpretation history_machine: machine "history_step env" history_ok for env
  by unfold_locales (rule history_step_ok)

text \<open>The age of an origin: how many others were remembered after it.\<close>

definition age :: "clip_id \<Rightarrow> clip_id list \<Rightarrow> nat" where
  "age i origins = length (takeWhile (\<lambda>j. j \<noteq> i) (rev origins))"

lemma takeWhile_filter_le: "length (takeWhile P (filter Q xs)) \<le> length (takeWhile P xs)"
  if "\<And>x. \<not> P x \<Longrightarrow> Q x" for P Q
  using that by (induction xs) auto

lemma takeWhile_take: "length (takeWhile P xs) < n \<Longrightarrow> takeWhile P (take n xs) = takeWhile P xs"
  by (induction xs arbitrary: n) (auto simp: take_Cons' split: if_splits)

lemma in_take_takeWhile: "i \<in> set xs \<Longrightarrow> length (takeWhile (\<lambda>j. j \<noteq> i) xs) < n \<Longrightarrow> i \<in> set (take n xs)"
  by (induction xs arbitrary: n) (auto simp: take_Cons' split: if_splits)

lemma rev_remember_origin:
  "rev (remember_origin j origins) = take MAX_VOLATILE_ORIGINS (j # filter (\<lambda>k. k \<noteq> j) (rev origins))"
proof -
  define xs where "xs = filter (\<lambda>k. k \<noteq> j) origins @ [j]"
  have "rev (drop (length xs - MAX_VOLATILE_ORIGINS) xs) = take (min (length xs) MAX_VOLATILE_ORIGINS) (rev xs)"
    by (simp add: rev_drop min_def)
  also have "\<dots> = take MAX_VOLATILE_ORIGINS (rev xs)"
    by (simp add: min_def)
  finally show ?thesis
    by (simp add: remember_origin_def xs_def rev_filter Let_def)
qed

lemma remember_origin_age:
  assumes "i = j \<or> i \<in> set origins \<and> Suc (age i origins) < MAX_VOLATILE_ORIGINS"
  shows "i \<in> set (remember_origin j origins) \<and> age i (remember_origin j origins) \<le> (if i = j then 0 else Suc (age i origins))"
proof -
  define xs where "xs = j # filter (\<lambda>k. k \<noteq> j) (rev origins)"
  have "i \<in> set xs"
    using assms by (auto simp: xs_def)
  have le: "length (takeWhile (\<lambda>k. k \<noteq> i) xs) \<le> (if i = j then 0 else Suc (age i origins))"
    using takeWhile_filter_le [of "\<lambda>k. k \<noteq> i" "\<lambda>k. k \<noteq> j" "rev origins"] by (auto simp: xs_def age_def)
  also have "\<dots> < MAX_VOLATILE_ORIGINS"
    using assms by (auto simp: MAX_VOLATILE_ORIGINS_def)
  finally have "i \<in> set (take MAX_VOLATILE_ORIGINS xs)"
      and "takeWhile (\<lambda>k. k \<noteq> i) (take MAX_VOLATILE_ORIGINS xs) = takeWhile (\<lambda>k. k \<noteq> i) xs"
    using \<open>i \<in> set xs\<close> by (auto intro: in_take_takeWhile takeWhile_take)
  then show ?thesis
    using le rev_remember_origin [of j origins] unfolding age_def xs_def [symmetric] by (metis set_rev)
qed

fun remembers :: "utc \<times> instant \<times> history_cmd \<Rightarrow> bool" where
  "remembers (_, _, VolatileCmd _) = True"
| "remembers (_, _, RestoreCmd _ _) = True"
| "remembers _ = False"

fun captures_other :: "clip_id \<Rightarrow> utc \<times> instant \<times> history_cmd \<Rightarrow> bool" where
  "captures_other i (_, _, InsertCmd c _) = (clip_id c \<noteq> i)"
| "captures_other i (_, _, InsertManyCmd cs _) = list_all (\<lambda>c. clip_id c \<noteq> i) cs"
| "captures_other i _ = True"

definition in_window :: "clip_id \<Rightarrow> nat \<Rightarrow> clip list \<Rightarrow> 'w history \<Rightarrow> bool" where
  "in_window i n inserted h \<longleftrightarrow> i \<in> set (hi_origins h) \<and> age i (hi_origins h) \<le> n \<and>
     (\<exists>xs. hi_inserted h = xs @ inserted \<and> i \<notin> clip_id ` set xs)"

lemma in_window_core: "core h = core h' \<Longrightarrow> in_window i n ins h \<longleftrightarrow> in_window i n ins h'"
  by (simp add: core_def in_window_def)

lemma in_window_inserted:
  "in_window i n ins h \<Longrightarrow> i \<notin> clip_id ` set cs \<Longrightarrow> in_window i n ins (h\<lparr>hi_inserted := cs @ hi_inserted h\<rparr>)"
  by (auto simp: in_window_def)

lemma in_window_fields [simp]:
  "in_window i n ins (h\<lparr>hi_deleted := d\<rparr>) \<longleftrightarrow> in_window i n ins h"
  "in_window i n ins (h\<lparr>hi_volatile := v\<rparr>) \<longleftrightarrow> in_window i n ins h"
  by (simp_all add: in_window_def)

lemma in_window_remembered:
  "in_window i n ins h \<Longrightarrow> Suc n < MAX_VOLATILE_ORIGINS \<Longrightarrow> in_window i (Suc n) ins (remembered now c h)"
  using remember_origin_age [of i "clip_id c" "hi_origins h"]
  by (auto simp: in_window_def remembered_def split: if_splits)

lemma history_step_window:
  assumes "in_window i n ins h" and "captures_other i op" and "n + (if remembers op then 1 else 0) < MAX_VOLATILE_ORIGINS"
  shows "in_window i (n + (if remembers op then 1 else 0)) ins (history_step env h op)"
proof -
  obtain now at cmd where op: "op = (now, at, cmd)" by (metis prod_cases3)
  show ?thesis
  proof (cases cmd)
    case (InsertCmd c k)
    with assms op in_window_inserted [OF assms(1), of "[c]"] show ?thesis
      by (simp add: in_window_core [OF core_insert])
  next
    case (InsertManyCmd cs m)
    obtain k where eq: "core (snd (history_insert_many env now cs m h)) = core (h\<lparr>hi_inserted := rev (take k cs) @ hi_inserted h\<rparr>)"
      using core_insert_many by blast
    have "i \<notin> clip_id ` set (rev (take k cs))"
      using assms(2) op InsertManyCmd by (auto simp: list_all_iff dest: in_set_takeD)
    with in_window_core [OF eq] in_window_inserted [OF assms(1)] op InsertManyCmd show ?thesis by simp
  next
    case (VolatileCmd c)
    have "core (snd (insert_volatile env now c h)) = core (remembered now c h)"
      by (simp add: remembered_def)
    from in_window_core [OF this] assms op VolatileCmd in_window_remembered [OF assms(1)] show ?thesis
      by simp
  next
    case (DeleteCmd k)
    obtain d where eq: "core (snd (history_delete env now at k h)) =
        core (h\<lparr>hi_volatile := filter (\<lambda>c. clip_id c \<noteq> k) (hi_volatile h), hi_deleted := d\<rparr>)"
      using core_delete by blast
    with in_window_core [OF eq] op assms DeleteCmd show ?thesis by simp
  next
    case (MaintainCmd b ttl)
    obtain d where eq: "core (snd (maintain_idle env now at b ttl h)) =
        core (h\<lparr>hi_volatile := filter (\<lambda>c. \<not> clip_expired now c) (hi_volatile h), hi_deleted := d\<rparr>)"
      using core_maintain by blast
    with in_window_core [OF eq] op assms MaintainCmd show ?thesis by simp
  next
    case (RestoreCmd c m)
    show ?thesis
    proof (cases rule: restore_cases [where env = env and now = now and at = at and c = c and n = m and h = h])
      case refused
      with in_window_core [OF refused] assms op RestoreCmd show ?thesis
        by (simp add: in_window_def)
    next
      case (kept c1 d)
      with in_window_core [OF kept(3)] assms op RestoreCmd
        in_window_remembered [of i n ins "h\<lparr>hi_deleted := d\<rparr>" now c1] show ?thesis
        by simp
    next
      case (stored c1 d)
      then have "clip_id c1 \<noteq> i"
        using assms(1) by (auto simp: is_memory_only_def in_window_def)
      with in_window_inserted [of i n ins "h\<lparr>hi_deleted := d\<rparr>" "[c1]"] assms(1)
      have "in_window i n ins (h\<lparr>hi_deleted := d, hi_inserted := c1 # hi_inserted h\<rparr>)" by simp
      with in_window_core [OF stored(3)] op RestoreCmd show ?thesis
        by (simp add: in_window_def)
    qed
  next
    case ClearCmd
    with op assms show ?thesis by (simp add: in_window_core [OF core_clear])
  qed (use op assms in \<open>simp_all add: in_window_core [OF core_settings(1)] in_window_core [OF core_settings(2)]
      in_window_core [OF core_settings(3)] in_window_core [OF core_settings(4)] in_window_core [OF core_memory]\<close>)
qed

lemma in_window_run:
  assumes "in_window i n ins h" and "list_all (captures_other i) ops"
    and "n + length (filter remembers ops) < MAX_VOLATILE_ORIGINS"
  shows "in_window i (n + length (filter remembers ops)) ins (run (history_step env) h ops)"
  using assms
proof (induction ops arbitrary: n h)
  case (Cons op ops)
  have "in_window i (n + (if remembers op then 1 else 0)) ins (history_step env h op)"
    using Cons.prems by (intro history_step_window) (auto split: if_splits)
  from Cons.IH [OF this] Cons.prems show ?case by (auto split: if_splits)
qed simp

text \<open>
  C13. A clip that was granted for memory only never reaches the database. After it was inserted as volatile,
  whatever the other operations are, deletions, expiry and undo included, and whatever the database and the
  interface answer, as long as fewer than 256 operations that remember an origin follow and no capture reuses
  its id, no clip with this id is given to the database, and it is still known as memory-only.
\<close>

theorem memory_only_stays_in_memory:
  assumes "list_all (captures_other (clip_id c)) ops" and "length (filter remembers ops) < 256"
  shows "\<exists>others. hi_inserted (run (history_step env) (snd (insert_volatile env now c h)) ops) = others @ hi_inserted h \<and>
    clip_id c \<notin> clip_id ` set others \<and>
    is_memory_only (run (history_step env) (snd (insert_volatile env now c h)) ops) (clip_id c)"
proof -
  have "core (snd (insert_volatile env now c h)) = core (remembered now c h)"
    by (simp add: remembered_def)
  moreover have "in_window (clip_id c) 0 (hi_inserted h) (remembered now c h)"
    using remember_origin_age [of "clip_id c" "clip_id c" "hi_origins h"] by (simp add: in_window_def remembered_def)
  ultimately have "in_window (clip_id c) 0 (hi_inserted h) (snd (insert_volatile env now c h))"
    using in_window_core by blast
  from in_window_run [OF this assms(1)] assms(2) show ?thesis
    by (auto simp: in_window_def is_memory_only_def MAX_VOLATILE_ORIGINS_def)
qed

text \<open>
  The facade keeps its bounds: from a new history, along every sequence of operations, at most 32 clips are
  held in memory, no two of them with the same content, and at most 256 distinct origins are remembered.
\<close>

lemma history_bounded:
  "history_ok (run (history_step env) (history_new w limit) ops)"
  by (rule history_machine.inv_run) (simp add: history_ok_def history_new_def)

section \<open>Undo\<close>

text \<open>
  C14. Undo gives back the original. When a persistent clip was deleted and is restored within five seconds, the
  clip the database held is inserted again and not the copy the interface passes, and the undo slot is empty
  afterwards; later, a copy whose data was spilled to a file is refused.
\<close>

theorem undo_restores_original:
  assumes "clip_id c = i" and "i \<notin> clip_id ` set (hi_volatile h)" and "\<not> is_memory_only h i"
    and "fst (he_get_clip env i (hi_world h)) = Inr (Some c)"
    and "history_delete env now at i h = (Inr (), h1)"
    and "clip_id copy = i"
  shows "(at' \<le> at + secs 5 \<longrightarrow>
      hi_inserted (snd (history_restore env now' at' copy n h1)) = c # hi_inserted h \<and>
      hi_deleted (snd (history_restore env now' at' copy n h1)) = None) \<and>
    (at + secs 5 < at' \<and> has_spilled copy \<longrightarrow> history_restore env now' at' copy n h1 = (Inl UndoUnavailable, h1))"
proof -
  have same: "filter (\<lambda>c. clip_id c \<noteq> i) (hi_volatile h) = hi_volatile h"
    using assms(2) by (auto intro: filter_True)
  have none: "find (\<lambda>c. clip_id c = i \<and> \<not> clip_expired now c) (hi_volatile h) = None"
    using assms(2) by (auto simp: find_None_iff)
  obtain w where "he_get_clip env i (hi_world h) = (Inr (Some c), w)"
    using assms(4) by (metis prod.collapse)
  then obtain g where find: "history_find env now i h = (Inr (Some c), g)"
    using none by (auto simp: history_find_def on_world_def)
  have g: "core g = core h"
    using core_settings(4) [of env now i h] find by simp
  obtain r k where del: "mutate_and_refresh env now (on_world (he_delete env i)) g = (r, k)"
    by (cases "mutate_and_refresh env now (on_world (he_delete env i)) g")
  have k: "core k = core h"
    using core_mutate [of env now "on_world (he_delete env i)" g] del g by simp
  have "history_delete env now at i h = (case r of Inl e \<Rightarrow> (Inl e, k)
      | Inr _ \<Rightarrow> on_world (he_send env (ProtectionEvent i False)) (k\<lparr>hi_deleted := Some (c, at)\<rparr>))"
    using find del by (simp add: history_delete_def same and_then_def split: sum.splits)
  then have "core h1 = core (k\<lparr>hi_deleted := Some (c, at)\<rparr>)"
    using assms(5) by (auto split: sum.splits dest!: sym [of "(Inr (), h1)"])
  then have h1: "hi_deleted h1 = Some (c, at)" "hi_inserted h1 = hi_inserted h" "\<not> is_memory_only h1 i"
    using k assms(3) by (auto simp: core_def is_memory_only_def)
  have "core (snd (history_insert env now' c n (h1\<lparr>hi_deleted := None\<rparr>))) =
      core (h1\<lparr>hi_deleted := None, hi_inserted := c # hi_inserted h1\<rparr>)"
    by simp
  then have inserted: "hi_inserted (snd (history_insert env now' c n (h1\<lparr>hi_deleted := None\<rparr>))) = c # hi_inserted h"
      "hi_deleted (snd (history_insert env now' c n (h1\<lparr>hi_deleted := None\<rparr>))) = None"
    using h1(2) by (auto simp: core_def)
  have within: "at' - at \<le> secs 5" if "at' \<le> at + secs 5" using that by linarith
  have late: "\<not> at' - at \<le> secs 5" if "at + secs 5 < at'" using that by linarith
  have "history_restore env now' at' copy n h1 = history_insert env now' c n (h1\<lparr>hi_deleted := None\<rparr>)"
    if "at' \<le> at + secs 5"
    using within [OF that] h1 assms(1,6) by (simp add: history_restore_def saturating_duration_since_def is_memory_only_def)
  moreover have "history_restore env now' at' copy n h1 = (Inl UndoUnavailable, h1)"
    if "at + secs 5 < at'" "has_spilled copy"
    using late [OF that(1)] that(2) h1 assms(1,6) by (simp add: history_restore_def saturating_duration_since_def)
  ultimately show ?thesis
    using inserted by simp
qed

section \<open>Snapshots\<close>

lemma merge_volatile_bounds:
  "length (merge_volatile now h persistent limit) \<le> max limit 1 \<and>
   set (merge_volatile now h persistent limit) \<subseteq> set persistent \<union> {c \<in> set (hi_volatile h). \<not> clip_expired now c}"
  unfolding merge_volatile_def Let_def volatile_snapshot_def
  by (auto simp del: length_append take_append dest!: in_set_takeD) (auto dest: in_set_takeD in_set_dropD)

section \<open>Witnesses\<close>

definition sample_history_env :: "(clip list) history_env" where
  "sample_history_env = \<lparr>he_insert = (\<lambda>c w. (Inr (), c # w)), he_enforce_cap = (\<lambda>n w. (Inr (), take n w)),
     he_load_recent = (\<lambda>n w. (Inr (take n w), w)), he_get_clip = (\<lambda>i w. (Inr (find (\<lambda>c. clip_id c = i) w), w)),
     he_set_ttl = (\<lambda>_ _ w. (Inr (), w)), he_set_pinned = (\<lambda>_ _ w. (Inr (), w)), he_set_protected = (\<lambda>_ _ w. (Inr (), w)),
     he_delete = (\<lambda>i w. (Inr (), filter (\<lambda>c. clip_id c \<noteq> i) w)), he_clear = (\<lambda>w. (Inr (), [])),
     he_tag_snapshot = (\<lambda>w. (Inr (), w)), he_maintain = (\<lambda>_ _ w. (Inr False, w)), he_digest = (\<lambda>w. (Inr (), w)),
     he_busy = (\<lambda>_. False), he_send = (\<lambda>_ w. (Inr (), w))\<rparr>"

definition sample_clip_of :: "clip_id \<Rightarrow> bytes \<Rightarrow> clip" where
  "sample_clip_of i hash = \<lparr>clip_id = i, clip_flavors = [flavor_inline ''text/plain'' hash], clip_content_hash = hash,
     clip_meta = clip_meta_now 0 TextKind 1 None, clip_pinned = False, clip_favorite = False\<rparr>"

lemma memory_only_stays_in_memory_witness:
  "\<exists>others. hi_inserted (run (history_step sample_history_env)
      (snd (insert_volatile sample_history_env 0 (sample_clip_of 7 ''s'') (history_new [] 100)))
      [(0, 0, InsertCmd (sample_clip_of 8 ''t'') 100), (0, 1, DeleteCmd 7), (0, 2, RestoreCmd (sample_clip_of 7 ''s'') 100)]) = others \<and>
    7 \<notin> clip_id ` set others"
  using memory_only_stays_in_memory [of "sample_clip_of 7 ''s''"
      "[(0, 0, InsertCmd (sample_clip_of 8 ''t'') 100), (0, 1, DeleteCmd 7), (0, 2, RestoreCmd (sample_clip_of 7 ''s'') 100)]"
      sample_history_env 0 "history_new [] 100"]
  by (simp add: sample_clip_of_def history_new_def)

theorem undo_restores_original_witness:
  "\<exists>h1. history_delete sample_history_env 0 0 8 (history_new [sample_clip_of 8 ''t''] 100) = (Inr (), h1) \<and>
     hi_inserted (snd (history_restore sample_history_env 1 (secs 4) (sample_clip_of 8 ''ui'') 100 h1)) = [sample_clip_of 8 ''t'']"
proof -
  obtain h1 where del: "history_delete sample_history_env 0 0 8 (history_new [sample_clip_of 8 ''t''] 100) = (Inr (), h1)"
    by (simp add: history_delete_def history_find_def mutate_and_refresh_def publish_snapshot_def refresh_tags_def
        and_then_def on_world_def next_version_def sample_history_env_def history_new_def sample_clip_of_def)
  with undo_restores_original [OF _ _ _ _ del, of "sample_clip_of 8 ''t''" "sample_clip_of 8 ''ui''" "secs 4" 1 100]
  show ?thesis
    by (auto simp: sample_clip_of_def history_new_def is_memory_only_def sample_history_env_def secs_def)
qed

end
