(* ===== verification/Capture_Worker.thy ===== *)
theory Capture_Worker
  imports Config Capture_Ledger Flavor_Integrity Content_Hash Reliability Classify History
begin

text \<open>
  The capture worker, \<open>src/capture.rs\<close>: one iteration of its loop from the poll to the commit, its start, its
  supervision and the watchdog. It composes the scheduler, the integrity check, the generation tracker, the
  self-write ledger, the gate, the pruning, the byte accounting and the history facade.

  A \<open>poll_tick\<close> holds what one iteration reads from outside: the clipboard, the clocks, the pause flag, a request to
  recover a skipped copy and the resident memory. What the worker publishes is its log, newest event first. A panic
  (an overflow of an instant, a duration or a date) is \<open>None\<close>. Mutexes are not poisoned; traces and latencies are left out.
\<close>

section \<open>Health\<close>

datatype capture_health =
    Starting | Watching | ClipboardUnavailable | ClipboardReadError | StorageError | Stalled | SelfTestFailed
  | DegradedSourcePrivacy

record health_state =
  hs_storage_degraded :: bool
  hs_source_privacy_degraded :: bool

definition healthy_baseline :: "health_state \<Rightarrow> capture_health" where
  "healthy_baseline s = (if hs_source_privacy_degraded s then DegradedSourcePrivacy else Watching)"

definition read_succeeded :: "health_state \<Rightarrow> capture_health option" where
  "read_succeeded s = (if hs_storage_degraded s then None else Some (healthy_baseline s))"

definition read_failed :: "health_state \<Rightarrow> capture_health option" where
  "read_failed s = (if hs_storage_degraded s then None else Some ClipboardReadError)"

definition store_succeeded :: "health_state \<Rightarrow> capture_health \<times> health_state" where
  "store_succeeded s = (let s1 = s\<lparr>hs_storage_degraded := False\<rparr> in (healthy_baseline s1, s1))"

definition store_failed :: "health_state \<Rightarrow> capture_health \<times> health_state" where
  "store_failed s = (StorageError, s\<lparr>hs_storage_degraded := True\<rparr>)"

definition degrade_source_privacy :: "health_state \<Rightarrow> health_state" where
  "degrade_source_privacy s = s\<lparr>hs_source_privacy_degraded := True\<rparr>"

section \<open>The supervisor and the watchdog\<close>

datatype worker_exit = BackendUnavailable | RepeatedReadFailure

definition MIN_WATCHDOG_TIMEOUT :: duration where "MIN_WATCHDOG_TIMEOUT = secs 5"
definition SKIP_RECOVERY_WINDOW_MS :: nat where "SKIP_RECOVERY_WINDOW_MS = 30000"
definition MAX_CONSECUTIVE_READ_FAILURES :: u8 where "MAX_CONSECUTIVE_READ_FAILURES = 5"
definition SHED_RETRY_INTERVAL :: duration where "SHED_RETRY_INTERVAL = secs 5"

text \<open>
  What follows a run of the worker that exited, or panicked (\<open>None\<close>): the pause before the next one and the health
  that is published.
\<close>

definition supervise ::
  "capture_supervisor \<Rightarrow> worker_exit option \<Rightarrow> duration \<times> capture_health option \<times> capture_supervisor" where
  "supervise s result =
     (let observation = (case result of Some _ \<Rightarrow> SubscriptionLost | None \<Rightarrow> BackendFailed) in
      case supervisor_observe s observation of
        (NoRecovery, s') \<Rightarrow> (0, None, s')
      | (Resubscribe, s') \<Rightarrow> (millis 250, Some ClipboardReadError, s')
      | (RestartBackend, s') \<Rightarrow> (secs 1, Some Stalled, s')
      | (EnterDegradedMode retry_after, s') \<Rightarrow> (retry_after, Some ClipboardUnavailable, s'))"

definition saturating_mul :: "u64 \<Rightarrow> nat \<Rightarrow> nat" where
  "saturating_mul a k = min (unat a * k) (2 ^ 64 - 1)"

definition watchdog_timeout :: "config \<Rightarrow> duration" where
  "watchdog_timeout c = max (millis (saturating_mul (max (cfg_poll_interval_ms c) 50) 8)) MIN_WATCHDOG_TIMEOUT"

definition heartbeat_is_stale :: "instant \<Rightarrow> instant \<Rightarrow> duration \<Rightarrow> bool" where
  "heartbeat_is_stale beat now timeout \<longleftrightarrow> timeout \<le> saturating_duration_since now beat"

definition watchdog_health :: "instant \<Rightarrow> bool \<Rightarrow> instant \<Rightarrow> duration \<Rightarrow> capture_health option" where
  "watchdog_health beat paused now timeout =
     (if \<not> paused \<and> heartbeat_is_stale beat now timeout then Some Stalled else None)"

section \<open>The configured policies\<close>

fun capture_action_of :: "source_rule_action \<Rightarrow> capture_action" where
  "capture_action_of RuleCapture = CaptureAll"
| "capture_action_of RuleSkip = SkipCapture"
| "capture_action_of RulePlainTextOnly = PlainTextOnly"
| "capture_action_of RuleStripImages = StripImages"
| "capture_action_of RuleCaptureSensitive = CaptureSensitive"

definition capture_rule_of :: "'r gate_env \<Rightarrow> source_rule_config \<Rightarrow> 'r capture_rule option" where
  "capture_rule_of env rule =
     (case source_predicate_try_new env (src_app_contains rule) (src_title_regex rule) (src_url_host_suffix rule) of
        Inl _ \<Rightarrow> None
      | Inr predicate \<Rightarrow> Some \<lparr>cr_predicate = predicate, cr_action = capture_action_of (src_action rule)\<rparr>)"

definition configured_policy :: "'r gate_env \<Rightarrow> config \<Rightarrow> 'r capture_policy" where
  "configured_policy env c =
     \<lparr>po_skip_whitespace_only = cfg_skip_whitespace_only c,
      po_excluded_apps = filter (\<lambda>app. app \<noteq> []) (cfg_excluded_apps c),
      po_rules = List.map_filter (capture_rule_of env) (cfg_source_rules c),
      po_detect_secrets = cfg_detect_secrets c, po_secret_ttl = secs (unat (max (cfg_secret_ttl_seconds c) 1)),
      po_unknown_evidence = evidence_policy_of (cfg_unknown_evidence_policy c)\<rparr>"

text \<open>Resident memory against the two limits, \<open>src/memory_pressure.rs\<close>; \<open>None\<close> when it cannot be sampled.\<close>

definition current_pressure :: "config \<Rightarrow> nat option \<Rightarrow> memory_pressure" where
  "current_pressure c memory = (case memory of
     None \<Rightarrow> NormalPressure
   | Some physical \<Rightarrow>
       (let soft = min (cfg_memory_soft_limit_mb c * MIB) usize_max;
            hard = min (max (cfg_memory_hard_limit_mb c) (cfg_memory_soft_limit_mb c) * MIB) usize_max in
        if hard \<le> physical then CriticalPressure
        else if soft \<le> physical then ElevatedPressure else NormalPressure))"

definition pressure_response :: "config \<Rightarrow> nat option \<Rightarrow> memory_response" where
  "pressure_response c memory = memory_response_of
     (memory_policy_new (64 * MIB) (min (max (cfg_max_history c) 1) 1000) (cfg_capture_hard_limit_bytes c))
     (current_pressure c memory)"

section \<open>State, inputs and events\<close>

record captured_clipboard =
  cb_flavors :: "flavor list"
  cb_provenance :: capture_provenance
  cb_generation :: "capture_generation option"
  cb_lineage :: capture_lineage
  cb_selection :: selection_source
  cb_coherence :: generation_coherence
  cb_intent :: selection_intent
  cb_concealment :: concealment_signal
  cb_provenance_confidence :: provenance_confidence

datatype capture_budget_alert = PreviewOnly | SkippedByBudget

datatype worker_event =
    HealthEvent capture_health
  | SourcePrivacyNotice
  | PollIntervalEvent duration
  | OutcomeEvent capture_outcome u64
  | OfferRecovery duration
  | ClearRecovery
  | BudgetAlertEvent capture_budget_alert
  | BudgetTripEvent
  | QueueDepthEvent u64
  | PersistEvent clip
  | VolatileEvent clip

record 'w worker =
  wk_scheduler :: poll_scheduler
  wk_last_hash :: "bytes option"
  wk_health :: health_state
  wk_privacy_judged :: bool
  wk_tracker :: "capture_generation option"
  wk_losses :: capture_counters
  wk_skipped :: skipped_ring
  wk_forensic :: forensic_ring
  wk_backpressure :: byte_backpressure
  wk_read_failures :: u8
  wk_last_shed :: "(bytes \<times> instant) option"
  wk_budget :: subsystem_budget
  wk_budget_tripped :: bool
  wk_request_backoff :: bool
  wk_supervisor :: capture_supervisor
  wk_self_writes :: self_write_ledger
  wk_history :: "'w history"
  wk_log :: "worker_event list"

record poll_tick =
  ti_paused :: bool
  ti_read :: "captured_clipboard option"
  ti_forensic_at :: instant
  ti_observed_at :: instant
  ti_match_at :: instant
  ti_poll_at :: instant
  ti_repoll_at :: instant
  ti_recover :: bool
  ti_memory :: "nat option"
  ti_id :: clip_id
  ti_created_at :: utc
  ti_expiry_base :: utc
  ti_history_at :: utc
  ti_end_at :: instant
  ti_cpu :: duration

text \<open>\<open>we_record\<close> is the write of one outcome to the database, whose failure is only traced.\<close>

record ('w, 'r) worker_env =
  we_blake3 :: "bytes \<Rightarrow> bytes"
  we_gate :: "'r gate_env"
  we_history :: "'w history_env"
  we_record :: "capture_outcome \<Rightarrow> u64 \<Rightarrow> 'w \<Rightarrow> 'w"

text \<open>A stage hands a value on, ends the iteration, or ends the worker.\<close>

datatype 'a flow = Proceed 'a | Continue | Exit worker_exit

type_synonym ('w, 'a) stage = "'w worker \<Rightarrow> ('a flow \<times> 'w worker) option"

definition and_next :: "('w, 'a) stage \<Rightarrow> ('a \<Rightarrow> ('w, 'b) stage) \<Rightarrow> ('w, 'b) stage" where
  "and_next m k w = (case m w of
     None \<Rightarrow> None
   | Some (Proceed x, w') \<Rightarrow> k x w'
   | Some (Continue, w') \<Rightarrow> Some (Continue, w')
   | Some (Exit e, w') \<Rightarrow> Some (Exit e, w'))"

definition publish :: "worker_event \<Rightarrow> 'w worker \<Rightarrow> 'w worker" where
  "publish e w = w\<lparr>wk_log := e # wk_log w\<rparr>"

definition publish_health :: "capture_health option \<Rightarrow> 'w worker \<Rightarrow> 'w worker" where
  "publish_health health w = (case health of None \<Rightarrow> w | Some h \<Rightarrow> publish (HealthEvent h) w)"

definition observe_scheduler :: "poll_observation \<Rightarrow> instant \<Rightarrow> ('w, unit) stage" where
  "observe_scheduler observation at w = map_option
     (\<lambda>(interval, s). (Proceed (), publish (PollIntervalEvent interval) (w\<lparr>wk_scheduler := s\<rparr>)))
     (poll_observe (wk_scheduler w) observation at)"

definition leave :: "('w, 'a) stage" where
  "leave w = Some (Continue, w)"

text \<open>\<open>diagnostics.capture_outcome\<close> and \<open>history.record_capture_outcome\<close>.\<close>

definition record_outcome :: "('w, 'r) worker_env \<Rightarrow> capture_outcome \<Rightarrow> u64 \<Rightarrow> 'w worker \<Rightarrow> 'w worker" where
  "record_outcome env outcome n w = publish (OutcomeEvent outcome n)
     (w\<lparr>wk_history := (wk_history w)\<lparr>hi_world := we_record env outcome n (hi_world (wk_history w))\<rparr>\<rparr>)"

definition record_drop :: "('w, 'r) worker_env \<Rightarrow> drop_reason \<Rightarrow> u64 \<Rightarrow> 'w worker \<Rightarrow> 'w worker" where
  "record_drop env reason n w =
     record_outcome env (Dropped reason) n (w\<lparr>wk_losses := count_dropped_n (wk_losses w) reason n\<rparr>)"

section \<open>The stages of an iteration\<close>

definition begin_tick :: "('w, unit) stage" where
  "begin_tick w =
     (if wk_request_backoff w
      then map_option (\<lambda>(interval, s). (Proceed (), publish (PollIntervalEvent interval)
             (w\<lparr>wk_scheduler := s, wk_request_backoff := False\<rparr>))) (poll_back_off (wk_scheduler w))
      else Some (Proceed (), w))"

definition check_paused :: "poll_tick \<Rightarrow> ('w, unit) stage" where
  "check_paused t w =
     (if ti_paused t then and_next (observe_scheduler StableClipboard (ti_poll_at t)) (\<lambda>_. leave) w
      else Some (Proceed (), w))"

definition read_clipboard :: "poll_tick \<Rightarrow> ('w, captured_clipboard) stage" where
  "read_clipboard t w = (case ti_read t of
     Some captured \<Rightarrow>
       (let w1 = publish_health (read_succeeded (wk_health w))
              (w\<lparr>wk_read_failures := 0, wk_supervisor := snd (supervisor_observe (wk_supervisor w) RecoverySucceeded)\<rparr>) in
        if cb_flavors captured = [] then and_next (observe_scheduler StableClipboard (ti_poll_at t)) (\<lambda>_. leave) w1
        else Some (Proceed captured, w1))
   | None \<Rightarrow>
       (let w1 = publish_health (read_failed (wk_health w))
              (w\<lparr>wk_read_failures := saturating_add (wk_read_failures w) 1\<rparr>) in
        and_next (observe_scheduler MissRisk (ti_poll_at t)) (\<lambda>_ w2.
          if MAX_CONSECUTIVE_READ_FAILURES \<le> wk_read_failures w2 then Some (Exit RepeatedReadFailure, w2)
          else Some (Continue, w2)) w1))"

definition degrade_unprovable_source :: "unknown_evidence_policy \<Rightarrow> 'w worker \<Rightarrow> 'w worker" where
  "degrade_unprovable_source policy w = (case policy of
     AllowUnknown \<Rightarrow> w
   | _ \<Rightarrow> publish SourcePrivacyNotice (publish (HealthEvent DegradedSourcePrivacy)
       (w\<lparr>wk_health := degrade_source_privacy (wk_health w)\<rparr>)))"

definition rules_armed :: "'r capture_policy \<Rightarrow> bool" where
  "rules_armed policy \<longleftrightarrow> po_excluded_apps policy \<noteq> [] \<or> po_rules policy \<noteq> []"

definition judge_source :: "'r capture_policy \<Rightarrow> captured_clipboard \<Rightarrow> 'w worker \<Rightarrow> 'w worker" where
  "judge_source policy captured w =
     (if rules_armed policy \<and> \<not> wk_privacy_judged w \<and> cb_provenance_confidence captured = ProvenanceUnknownEvidence
      then degrade_unprovable_source (po_unknown_evidence policy) (w\<lparr>wk_privacy_judged := True\<rparr>)
      else w)"

definition total_bytes :: "flavor list \<Rightarrow> u64" where
  "total_bytes flavors = foldl saturating_add 0 (map (\<lambda>f. body_byte_size (fl_body f)) flavors)"

definition forensic_of :: "poll_tick \<Rightarrow> captured_clipboard \<Rightarrow> forensic_event" where
  "forensic_of t captured =
     \<lparr>fe_observed_at = ti_forensic_at t, fe_generation = map_option cg_sequence (cb_generation captured),
      fe_flavor_count = of_nat (min (length (cb_flavors captured)) 65535),
      fe_total_bytes = total_bytes (cb_flavors captured), fe_coherence = cb_coherence captured\<rparr>"

definition check_integrity ::
  "('w, 'r) worker_env \<Rightarrow> poll_tick \<Rightarrow> captured_clipboard \<Rightarrow> ('w, captured_clipboard) stage" where
  "check_integrity env t captured w =
     (let annotated = captured\<lparr>cb_flavors := annotate_integrity (we_blake3 env) (cb_flavors captured)\<rparr>;
          w1 = w\<lparr>wk_forensic := forensic_push (wk_forensic w) (forensic_of t captured)\<rparr> in
      if verify_integrity (we_blake3 env) (cb_flavors annotated) \<noteq> []
      then and_next (observe_scheduler MissRisk (ti_poll_at t)) (\<lambda>_. leave) (record_drop env TornRead 1 w1)
      else Some (Proceed annotated, w1))"

definition recovery_matches :: "poll_tick \<Rightarrow> captured_clipboard \<Rightarrow> bytes \<Rightarrow> skipped_capture \<Rightarrow> bool" where
  "recovery_matches t captured hash entry \<longleftrightarrow> is_recoverable (sk_reason entry) \<and>
     saturating_duration_since (ti_observed_at t) (sk_observed_at entry) \<le> millis SKIP_RECOVERY_WINDOW_MS \<and>
     sk_provenance entry = cb_provenance captured \<and> sk_content_hash entry = hash \<and>
     (case (sk_generation entry, cb_generation captured) of
        (Some expected, Some actual) \<Rightarrow> expected = actual | (None, None) \<Rightarrow> True | _ \<Rightarrow> False)"

definition explicit_recovery :: "poll_tick \<Rightarrow> captured_clipboard \<Rightarrow> bytes \<Rightarrow> 'w worker \<Rightarrow> bool" where
  "explicit_recovery t captured hash w \<longleftrightarrow> ti_recover t \<and>
     (case ring_latest (wk_skipped w) of None \<Rightarrow> False | Some entry \<Rightarrow> recovery_matches t captured hash entry)"

definition shed_retry_suppressed ::
  "(bytes \<times> instant) option \<Rightarrow> bytes \<Rightarrow> instant \<Rightarrow> bool \<times> (bytes \<times> instant) option" where
  "shed_retry_suppressed last_shed hash now =
     (let suppressed = (case last_shed of None \<Rightarrow> False
            | Some (h, shed_at) \<Rightarrow> h = hash \<and> saturating_duration_since now shed_at < SHED_RETRY_INTERVAL) in
      (suppressed, if suppressed then last_shed else None))"

definition skip_duplicates :: "poll_tick \<Rightarrow> bool \<Rightarrow> bytes \<Rightarrow> ('w, unit) stage" where
  "skip_duplicates t explicit hash w =
     (if wk_last_hash w = Some hash \<and> \<not> explicit
      then and_next (observe_scheduler StableClipboard (ti_poll_at t)) (\<lambda>_. leave) w
      else if explicit then observe_scheduler ClipboardChanged (ti_poll_at t) w
      else (case shed_retry_suppressed (wk_last_shed w) hash (ti_observed_at t) of (suppressed, last_shed) \<Rightarrow>
        (let w1 = w\<lparr>wk_last_shed := last_shed\<rparr> in
         if suppressed then and_next (observe_scheduler StableClipboard (ti_poll_at t)) (\<lambda>_. leave) w1
         else observe_scheduler ClipboardChanged (ti_poll_at t) w1)))"

definition track_generation ::
  "('w, 'r) worker_env \<Rightarrow> bool \<Rightarrow> captured_clipboard \<Rightarrow> ('w, unit) stage" where
  "track_generation env explicit captured w =
     (case (if explicit then None else cb_generation captured) of
        None \<Rightarrow> Some (Proceed (), w)
      | Some generation \<Rightarrow>
          (case tracker_observe (wk_tracker w) generation of (observation, tracker) \<Rightarrow>
            (let w1 = w\<lparr>wk_tracker := tracker\<rparr> in
             case observation of
               Gap n \<Rightarrow> Some (Proceed (), record_drop env GenerationGap n w1)
             | Stale \<Rightarrow> Some (Continue, record_drop env GenerationStale 1 w1)
             | _ \<Rightarrow> Some (Proceed (), w1))))"

definition gate_input :: "captured_clipboard \<Rightarrow> bool \<Rightarrow> capture_input" where
  "gate_input captured self_write =
     \<lparr>ci_flavors = cb_flavors captured, ci_provenance = cb_provenance captured, ci_source = cb_selection captured,
      ci_intent = cb_intent captured, ci_coherence = cb_coherence captured, ci_concealment = cb_concealment captured,
      ci_provenance_confidence = cb_provenance_confidence captured, ci_self_write = self_write\<rparr>"

text \<open>The grant of an explicit recovery, which does not ask the gate.\<close>

definition recovery_grant :: capture_grant where
  "recovery_grant = \<lparr>gr_action = CaptureAll, gr_sensitive = True, gr_sync_eligible = False, gr_ai_allowed = False,
     gr_memory_only = True, gr_expires_after = Some (secs 60), gr_sensitivity_reason = Some CaptureRuleReason\<rparr>"

definition worker_decision ::
  "'r gate_env \<Rightarrow> 'r capture_policy \<Rightarrow> captured_clipboard \<Rightarrow> bool \<Rightarrow> bool \<Rightarrow> capture_decision" where
  "worker_decision gate policy captured explicit self_write =
     (if explicit \<and> \<not> self_write \<and> cb_coherence captured \<noteq> Torn \<and> list_ex is_realized (cb_flavors captured)
      then Capture recovery_grant
      else decide gate policy (gate_input captured self_write))"

definition refuse ::
  "('w, 'r) worker_env \<Rightarrow> poll_tick \<Rightarrow> captured_clipboard \<Rightarrow> bytes \<Rightarrow> drop_reason \<Rightarrow> ('w, 'a) stage" where
  "refuse env t captured hash reason w =
     (let w1 = w\<lparr>wk_skipped := ring_push (wk_skipped w)
            \<lparr>sk_observed_at = ti_observed_at t, sk_reason = reason, sk_provenance = cb_provenance captured,
             sk_generation = cb_generation captured, sk_content_hash = hash\<rparr>\<rparr>;
          w2 = publish (if is_recoverable reason then OfferRecovery (millis SKIP_RECOVERY_WINDOW_MS) else ClearRecovery) w1;
          w3 = record_drop env reason 1 w2 in
      if drop_class_of reason = Intentional then Some (Continue, w3\<lparr>wk_last_hash := Some hash\<rparr>)
      else and_next (observe_scheduler MissRisk (ti_repoll_at t)) (\<lambda>_. leave) w3)"

definition consult_gate ::
  "('w, 'r) worker_env \<Rightarrow> 'r capture_policy \<Rightarrow> poll_tick \<Rightarrow> bool \<Rightarrow> captured_clipboard \<Rightarrow> bytes \<Rightarrow> ('w, capture_grant) stage" where
  "consult_gate env policy t explicit captured hash w =
     (case self_write_matches (wk_self_writes w) hash (cb_lineage captured) (ti_match_at t) of (self_write, ledger) \<Rightarrow>
       (let w1 = w\<lparr>wk_self_writes := ledger\<rparr> in
        case worker_decision (we_gate env) policy captured explicit self_write of
          Capture grant \<Rightarrow> Some (Proceed grant, w1)
        | Skip reason \<Rightarrow> refuse env t captured hash reason w1))"

fun apply_capture_action :: "flavor list \<Rightarrow> capture_action \<Rightarrow> flavor list" where
  "apply_capture_action flavors PlainTextOnly = filter is_plain_text flavors"
| "apply_capture_action flavors StripImages = filter (\<lambda>f. \<not> is_image f) flavors"
| "apply_capture_action flavors SkipCapture = []"
| "apply_capture_action flavors _ = flavors"

definition select_flavors ::
  "('w, 'r) worker_env \<Rightarrow> capture_action \<Rightarrow> flavor list \<Rightarrow> ('w, flavor list) stage" where
  "select_flavors env action flavors w =
     (let kept = fst (prune_redundant_flavors (we_blake3 env) (apply_capture_action flavors action)) in
      if list_ex is_realized kept then Some (Proceed kept, w)
      else Some (Continue, record_drop env NoRealizedFlavor 1 w))"

text \<open>The soft and the hard limit under the current memory pressure.\<close>

definition pressure_limits :: "config \<Rightarrow> nat option \<Rightarrow> usize \<times> usize" where
  "pressure_limits c memory =
     (let response = pressure_response c memory;
          hard = min (case mr_reject_large_capture_bytes response of
                   None \<Rightarrow> cfg_capture_hard_limit_bytes c | Some n \<Rightarrow> n) (cfg_capture_hard_limit_bytes c);
          soft = (if mr_defer_background_work response
                  then max (min (cfg_capture_soft_limit_bytes c) (hard div 2)) 1
                  else cfg_capture_soft_limit_bytes c) in
      (soft, hard))"

definition admit_payload ::
  "('w, 'r) worker_env \<Rightarrow> config \<Rightarrow> poll_tick \<Rightarrow> bytes \<Rightarrow> flavor list \<Rightarrow> ('w, flavor list \<times> usize) stage" where
  "admit_payload env c t hash flavors w =
     (case pressure_limits c (ti_memory t) of (soft, hard) \<Rightarrow>
       (let limited = snd (update_limits (wk_backpressure w) soft hard (cfg_capture_preview_bytes c));
            payload = unat (total_bytes flavors) in
        case backpressure_admit limited payload of
          (AdmitFull, b) \<Rightarrow> Some (Proceed (flavors, payload), w\<lparr>wk_backpressure := b\<rparr>)
        | (AdmitPreview n, b) \<Rightarrow>
            (case shed_to_text_preview flavors n of
               None \<Rightarrow> Some (Continue, record_drop env Backpressure 1
                 (w\<lparr>wk_backpressure := backpressure_release b n, wk_last_shed := Some (hash, ti_observed_at t)\<rparr>))
             | Some preview \<Rightarrow> Some (Proceed (preview, n), record_drop env TruncatedFlavor 1
                 (publish (BudgetAlertEvent PreviewOnly) (w\<lparr>wk_backpressure := b\<rparr>))))
        | (AdmitShed, b) \<Rightarrow> Some (Continue, record_drop env Backpressure 1 (publish (BudgetAlertEvent SkippedByBudget)
            (w\<lparr>wk_backpressure := b, wk_last_shed := Some (hash, ti_observed_at t)\<rparr>)))))"

text \<open>\<open>chrono::Duration::from_std\<close>: at most \<open>i64::MAX\<close> milliseconds.\<close>

definition chrono_from_std :: "duration \<Rightarrow> duration option" where
  "chrono_from_std d = (if d \<le> (2 ^ 63 - 1) * 1000000 then Some d else None)"

text \<open>
  The last instant of a \<open>DateTime<Utc>\<close>, in nanoseconds: the end of the year 262142. An addition beyond it panics.
\<close>

definition utc_max :: utc where "utc_max = 8210266876799 * 1000000000 + 999999999"

definition utc_add :: "utc \<Rightarrow> duration \<Rightarrow> utc option" where
  "utc_add at ttl = (if at + int ttl \<le> utc_max then Some (at + int ttl) else None)"

definition expiry_of :: "poll_tick \<Rightarrow> capture_grant \<Rightarrow> utc option option" where
  "expiry_of t grant = (case Option.bind (gr_expires_after grant) chrono_from_std of
     None \<Rightarrow> Some None | Some ttl \<Rightarrow> map_option Some (utc_add (ti_expiry_base t) ttl))"

definition build_clip ::
  "poll_tick \<Rightarrow> captured_clipboard \<Rightarrow> flavor list \<Rightarrow> bytes \<Rightarrow> capture_grant \<Rightarrow> clip option" where
  "build_clip t captured flavors hash grant = map_option (\<lambda>expires_at.
     \<lparr>clip_id = ti_id t, clip_flavors = flavors, clip_content_hash = hash,
      clip_meta = (clip_meta_now (ti_created_at t) (detect_kind flavors)
          (sum_list (map (\<lambda>f. body_byte_size (fl_body f)) flavors)) (cp_app_id (cb_provenance captured)))
        \<lparr>cm_provenance := cb_provenance captured, cm_provenance_confidence := cb_provenance_confidence captured,
         cm_generation := cb_generation captured, cm_lineage := cb_lineage captured,
         cm_sensitive := gr_sensitive grant, cm_sensitivity_reason := gr_sensitivity_reason grant,
         cm_sync_eligible := gr_sync_eligible grant, cm_ai_allowed := gr_ai_allowed grant,
         cm_expires_at := expires_at\<rparr>,
      clip_pinned = False, clip_favorite = False\<rparr>) (expiry_of t grant)"

definition insert_clip :: "('w, 'r) worker_env \<Rightarrow> config \<Rightarrow> poll_tick \<Rightarrow> bool \<Rightarrow> clip \<Rightarrow> 'w worker \<Rightarrow> bool \<times> 'w worker" where
  "insert_clip env c t memory_only new w =
     (case (if memory_only then insert_volatile (we_history env) (ti_history_at t) new (wk_history w)
            else history_insert (we_history env) (ti_history_at t) new (cfg_max_history c) (wk_history w)) of
        (result, h) \<Rightarrow> (is_ok result, publish (if memory_only then VolatileEvent new else PersistEvent new)
          (w\<lparr>wk_history := h\<rparr>)))"

definition commit_clip ::
  "('w, 'r) worker_env \<Rightarrow> config \<Rightarrow> poll_tick \<Rightarrow> bytes \<Rightarrow> capture_grant \<Rightarrow> clip \<Rightarrow> 'w worker \<Rightarrow> 'w worker" where
  "commit_clip env c t hash grant new w =
     (case insert_clip env c t (gr_memory_only grant) new (publish (QueueDepthEvent 1) w) of (stored, w1) \<Rightarrow>
       (let w2 = publish (QueueDepthEvent 0) w1 in
        if stored
        then (let w3 = record_outcome env Captured 1 (publish ClearRecovery
                 (w2\<lparr>wk_last_shed := None, wk_last_hash := Some hash, wk_losses := count_captured (wk_losses w2)\<rparr>)) in
              case store_succeeded (wk_health w3) of (health, s) \<Rightarrow> publish (HealthEvent health) (w3\<lparr>wk_health := s\<rparr>))
        else (case store_failed (wk_health w2) of (health, s) \<Rightarrow>
              record_drop env StoreFailure 1 (publish (HealthEvent health) (w2\<lparr>wk_health := s\<rparr>)))))"

definition release_payload :: "usize \<Rightarrow> 'w worker \<Rightarrow> 'w worker" where
  "release_payload n w = w\<lparr>wk_backpressure := backpressure_release (wk_backpressure w) n\<rparr>"

definition store_granted ::
  "('w, 'r) worker_env \<Rightarrow> config \<Rightarrow> poll_tick \<Rightarrow> captured_clipboard \<Rightarrow> bytes \<Rightarrow> capture_grant \<Rightarrow> ('w, unit) stage" where
  "store_granted env c t captured hash grant =
     and_next (select_flavors env (gr_action grant) (cb_flavors captured)) (\<lambda>flavors.
     and_next (admit_payload env c t hash flavors) (\<lambda>(stored, accounted) w.
       map_option (\<lambda>new. (Continue, release_payload accounted (commit_clip env c t hash grant new w)))
         (build_clip t captured stored (content_hash_from_flavors (we_blake3 env) stored) grant)))"

definition examine_copy ::
  "('w, 'r) worker_env \<Rightarrow> config \<Rightarrow> poll_tick \<Rightarrow> bool \<Rightarrow> captured_clipboard \<Rightarrow> bytes \<Rightarrow> ('w, unit) stage" where
  "examine_copy env c t explicit captured hash =
     and_next (track_generation env explicit captured) (\<lambda>_.
     and_next (consult_gate env (configured_policy (we_gate env) c) t explicit captured hash)
       (store_granted env c t captured hash))"

text \<open>The part of an iteration under the budget guard, and the end of the guard.\<close>

definition process_capture ::
  "('w, 'r) worker_env \<Rightarrow> config \<Rightarrow> poll_tick \<Rightarrow> captured_clipboard \<Rightarrow> ('w, unit) stage" where
  "process_capture env c t captured0 w0 =
     and_next (check_integrity env t captured0) (\<lambda>captured w.
       (let hash = content_hash_from_flavors (we_blake3 env) (cb_flavors captured);
            explicit = explicit_recovery t captured hash w in
        and_next (skip_duplicates t explicit hash) (\<lambda>_. examine_copy env c t explicit captured hash) w))
     (judge_source (configured_policy (we_gate env) c) captured0 w0)"

definition guarded_tick :: "('w, 'r) worker_env \<Rightarrow> config \<Rightarrow> poll_tick \<Rightarrow> ('w, unit) stage" where
  "guarded_tick env c t =
     and_next (check_paused t) (\<lambda>_. and_next (read_clipboard t) (process_capture env c t))"

definition end_guard :: "poll_tick \<Rightarrow> 'w worker \<Rightarrow> 'w worker option" where
  "end_guard t w = map_option (\<lambda>(observation, budget).
     (let w1 = w\<lparr>wk_budget := budget\<rparr> in
      if observation = WithinBudget then w1\<lparr>wk_budget_tripped := False\<rparr>
      else (let w2 = w1\<lparr>wk_request_backoff := True, wk_budget_tripped := True\<rparr> in
            if wk_budget_tripped w then w2 else publish BudgetTripEvent w2)))
     (budget_record (wk_budget w) (ti_end_at t) (ti_cpu t) 1)"

definition worker_tick :: "('w, 'r) worker_env \<Rightarrow> config \<Rightarrow> poll_tick \<Rightarrow> ('w, unit) stage" where
  "worker_tick env c t = and_next begin_tick (\<lambda>_ w.
     Option.bind (guarded_tick env c t w) (\<lambda>(fl, w1). map_option (\<lambda>w2. (fl, w2)) (end_guard t w1)))"

section \<open>The start of the worker\<close>

definition worker_start ::
  "config \<Rightarrow> bool \<Rightarrow> capture_supervisor \<Rightarrow> self_write_ledger \<Rightarrow> 'w history \<Rightarrow> worker_event list \<Rightarrow>
     worker_event list + 'w worker" where
  "worker_start c opened supervisor self_writes history log =
     (if \<not> opened then Inl (HealthEvent ClipboardUnavailable # log)
      else (let poll = unat (cfg_poll_interval_ms c);
                scheduler = poll_new (millis (min (max poll 50) 120)) (millis (max poll 50)) (millis (max poll 900)) in
        Inr \<lparr>wk_scheduler = scheduler, wk_last_hash = None,
             wk_health = \<lparr>hs_storage_degraded = False, hs_source_privacy_degraded = False\<rparr>, wk_privacy_judged = False,
             wk_tracker = None, wk_losses = counters_default, wk_skipped = ring_new 8, wk_forensic = forensic_new 64,
             wk_backpressure = backpressure_new (cfg_capture_soft_limit_bytes c) (cfg_capture_hard_limit_bytes c) 1
               (cfg_capture_preview_bytes c),
             wk_read_failures = 0, wk_last_shed = None, wk_budget = budget_new (secs 60) (millis 120) 600,
             wk_budget_tripped = False, wk_request_backoff = False, wk_supervisor = supervisor,
             wk_self_writes = self_writes, wk_history = history,
             wk_log = PollIntervalEvent (ps_current scheduler) # HealthEvent Watching # log\<rparr>))"

end
