(* ===== verification/Worker_Safety.thy ===== *)
theory Worker_Safety
  imports Capture_Worker
begin

text \<open>
  What one iteration of the capture worker can do: which clips it stores and as what, which outcome it records for
  every copy, and what becomes of a copy that could not be stored.
\<close>

section \<open>The effect of an iteration\<close>

text \<open>The recorded outcomes and the stored clips of a log, newest first, and what they say of the counters.\<close>

fun outcomes :: "worker_event list \<Rightarrow> (capture_outcome \<times> u64) list" where
  "outcomes [] = []"
| "outcomes (OutcomeEvent outcome n # log) = (outcome, n) # outcomes log"
| "outcomes (_ # log) = outcomes log"

fun stores :: "worker_event list \<Rightarrow> worker_event list" where
  "stores [] = []"
| "stores (PersistEvent c # log) = PersistEvent c # stores log"
| "stores (VolatileEvent c # log) = VolatileEvent c # stores log"
| "stores (_ # log) = stores log"

fun persisted :: "worker_event list \<Rightarrow> clip list" where
  "persisted [] = []"
| "persisted (PersistEvent c # log) = c # persisted log"
| "persisted (_ # log) = persisted log"

fun count_outcome :: "capture_outcome \<times> u64 \<Rightarrow> capture_counters \<Rightarrow> capture_counters" where
  "count_outcome (Captured, n) c = count_captured c"
| "count_outcome (Dropped reason, n) c = count_dropped_n c reason n"

definition effect :: "(capture_outcome \<times> u64) list \<Rightarrow> worker_event list \<Rightarrow> 'w worker \<Rightarrow> 'w worker \<Rightarrow> bool" where
  "effect os ss w w' \<longleftrightarrow> outcomes (wk_log w') = os @ outcomes (wk_log w) \<and> stores (wk_log w') = ss @ stores (wk_log w) \<and>
     wk_losses w' = foldr count_outcome os (wk_losses w) \<and>
     hi_inserted (wk_history w') = persisted ss @ hi_inserted (wk_history w)"

lemma persisted_append: "persisted (xs @ ys) = persisted xs @ persisted ys"
  by (induction xs rule: persisted.induct) auto

lemma effect_refl [intro]: "effect [] [] w w"
  by (simp add: effect_def)

lemma effect_trans: "effect os ss w w1 \<Longrightarrow> effect os' ss' w1 w2 \<Longrightarrow> effect (os' @ os) (ss' @ ss) w w2"
  by (simp add: effect_def persisted_append)

text \<open>What the later stages and the next iterations read of the state.\<close>

definition memo :: "'w worker \<Rightarrow> bytes option \<times> capture_generation option \<times> (bytes \<times> instant) option \<times> skipped_ring \<times>
    byte_backpressure \<times> self_write_ledger" where
  "memo w = (wk_last_hash w, wk_tracker w, wk_last_shed w, wk_skipped w, wk_backpressure w, wk_self_writes w)"

text \<open>Recording outcomes changes only the database, and an insertion is that of the history.\<close>

definition recorded :: "('w, 'r) worker_env \<Rightarrow> (capture_outcome \<times> u64) list \<Rightarrow> 'w history \<Rightarrow> 'w history" where
  "recorded env os h = foldr (\<lambda>(outcome, n) h. h\<lparr>hi_world := we_record env outcome n (hi_world h)\<rparr>) os h"

lemma recorded_simps [simp]:
  "recorded env [] h = h" "recorded env os (recorded env os' h) = recorded env (os @ os') h"
  by (simp_all add: recorded_def)

definition insertion :: "('w, 'r) worker_env \<Rightarrow> config \<Rightarrow> poll_tick \<Rightarrow> bool \<Rightarrow> clip \<Rightarrow> 'w history \<Rightarrow> (history_error + unit) \<times> 'w history" where
  "insertion env c t memory_only new h =
     (if memory_only then insert_volatile (we_history env) (ti_history_at t) new h
      else history_insert (we_history env) (ti_history_at t) new (cfg_max_history c) h)"

definition quiet :: "'w worker \<Rightarrow> 'w worker \<Rightarrow> bool" where
  "quiet w w' \<longleftrightarrow> effect [] [] w w' \<and> memo w' = memo w \<and> wk_history w' = wk_history w"

lemma quiet_refl [intro]: "quiet w w" by (simp add: quiet_def effect_refl)

lemma quiet_trans: "quiet w w1 \<Longrightarrow> quiet w1 w2 \<Longrightarrow> quiet w w2"
  using effect_trans [of "[]" "[]" w w1 "[]" "[]" w2] by (simp add: quiet_def)

lemma effect_publish [simp]: "effect os ss w (publish e w') = effect os ss w w'"
  if "stores [e] = []" "outcomes [e] = []"
  using that by (cases e) (simp_all add: effect_def publish_def)

lemma memo_publish [simp]: "memo (publish e w) = memo w"
  by (simp add: memo_def publish_def)

lemma history_publish [simp]: "wk_history (publish e w) = wk_history w"
  by (simp add: publish_def)

lemma history_health [simp]: "wk_history (publish_health h w) = wk_history w"
  by (cases h) (simp_all add: publish_health_def)

lemma effect_health [simp]: "effect os ss w (publish_health h w') = effect os ss w w'"
  by (cases h) (simp_all add: publish_health_def)

lemma memo_health [simp]: "memo (publish_health h w) = memo w"
  by (cases h) (simp_all add: publish_health_def)

text \<open>Fields that neither the effect nor the memory of the worker consists of.\<close>

lemma effect_fields [simp]:
  "effect os ss w (w'\<lparr>wk_scheduler := a\<rparr>) = effect os ss w w'"
  "effect os ss w (w'\<lparr>wk_last_hash := b\<rparr>) = effect os ss w w'"
  "effect os ss w (w'\<lparr>wk_health := c\<rparr>) = effect os ss w w'"
  "effect os ss w (w'\<lparr>wk_privacy_judged := d\<rparr>) = effect os ss w w'"
  "effect os ss w (w'\<lparr>wk_tracker := e\<rparr>) = effect os ss w w'"
  "effect os ss w (w'\<lparr>wk_skipped := f\<rparr>) = effect os ss w w'"
  "effect os ss w (w'\<lparr>wk_forensic := g\<rparr>) = effect os ss w w'"
  "effect os ss w (w'\<lparr>wk_backpressure := h\<rparr>) = effect os ss w w'"
  "effect os ss w (w'\<lparr>wk_read_failures := i\<rparr>) = effect os ss w w'"
  "effect os ss w (w'\<lparr>wk_last_shed := j\<rparr>) = effect os ss w w'"
  "effect os ss w (w'\<lparr>wk_budget := k\<rparr>) = effect os ss w w'"
  "effect os ss w (w'\<lparr>wk_budget_tripped := l\<rparr>) = effect os ss w w'"
  "effect os ss w (w'\<lparr>wk_request_backoff := m\<rparr>) = effect os ss w w'"
  "effect os ss w (w'\<lparr>wk_supervisor := n\<rparr>) = effect os ss w w'"
  "effect os ss w (w'\<lparr>wk_self_writes := o'\<rparr>) = effect os ss w w'"
  by (simp_all add: effect_def)

lemma memo_fields [simp]:
  "memo (w\<lparr>wk_scheduler := a\<rparr>) = memo w"
  "memo (w\<lparr>wk_health := c\<rparr>) = memo w"
  "memo (w\<lparr>wk_privacy_judged := d\<rparr>) = memo w"
  "memo (w\<lparr>wk_forensic := g\<rparr>) = memo w"
  "memo (w\<lparr>wk_read_failures := i\<rparr>) = memo w"
  "memo (w\<lparr>wk_budget := k\<rparr>) = memo w"
  "memo (w\<lparr>wk_budget_tripped := l\<rparr>) = memo w"
  "memo (w\<lparr>wk_request_backoff := m\<rparr>) = memo w"
  "memo (w\<lparr>wk_supervisor := n\<rparr>) = memo w"
  by (simp_all add: memo_def)

lemma effect_drop:
  "effect os ss w w' \<Longrightarrow> effect ((Dropped reason, n) # os) ss w (record_drop env reason n w')"
  by (simp add: effect_def record_drop_def record_outcome_def publish_def)

lemma memo_drop [simp]: "memo (record_drop env reason n w) = memo w"
  by (simp add: memo_def record_drop_def record_outcome_def publish_def)

lemma history_drop [simp]: "wk_history (record_drop env reason n w) = recorded env [(Dropped reason, n)] (wk_history w)"
  by (simp add: record_drop_def record_outcome_def recorded_def)

section \<open>The stages\<close>

lemma and_next_Some:
  "and_next m k w = Some (fl, w') \<longleftrightarrow>
     (\<exists>x w1. m w = Some (Proceed x, w1) \<and> k x w1 = Some (fl, w')) \<or>
     (m w = Some (Continue, w') \<and> fl = Continue) \<or> (\<exists>e. m w = Some (Exit e, w') \<and> fl = Exit e)"
  by (auto simp: and_next_def split: option.splits prod.splits flow.splits)

lemma observe_quiet: "observe_scheduler ob at w = Some (fl, w') \<Longrightarrow> fl = Proceed () \<and> quiet w w'"
  by (auto simp: observe_scheduler_def quiet_def)

lemma observe_leave: "and_next (observe_scheduler ob at) (\<lambda>_. leave) w = Some (fl, w') \<Longrightarrow> fl = Continue \<and> quiet w w'"
  by (auto simp: and_next_Some leave_def dest!: observe_quiet)

lemma begin_quiet: "begin_tick w = Some (fl, w') \<Longrightarrow> fl = Proceed () \<and> quiet w w'"
  by (auto simp: begin_tick_def quiet_def split: if_splits)

lemma check_paused_quiet:
  "check_paused t w = Some (fl, w') \<Longrightarrow> quiet w w' \<and> fl = (if ti_paused t then Continue else Proceed ())"
  by (auto simp: check_paused_def dest: observe_leave split: if_splits)

lemma read_quiet:
  assumes "read_clipboard t w = Some (fl, w')"
  shows "quiet w w' \<and> (case fl of
      Proceed captured \<Rightarrow> ti_read t = Some captured \<and> cb_flavors captured \<noteq> []
    | _ \<Rightarrow> (case ti_read t of None \<Rightarrow> True | Some captured \<Rightarrow> cb_flavors captured = []))"
proof (cases "ti_read t")
  case None
  let ?w1 = "publish_health (read_failed (wk_health w)) (w\<lparr>wk_read_failures := saturating_add (wk_read_failures w) 1\<rparr>)"
  have "quiet w ?w1" by (simp add: quiet_def effect_refl)
  with None assms show ?thesis
    by (auto simp: read_clipboard_def and_next_Some Let_def dest!: observe_quiet intro: quiet_trans split: if_splits)
next
  case (Some captured)
  let ?w1 = "publish_health (read_succeeded (wk_health w)) (w\<lparr>wk_read_failures := 0,
    wk_supervisor := snd (supervisor_observe (wk_supervisor w) RecoverySucceeded)\<rparr>)"
  have "quiet w ?w1" by (simp add: quiet_def effect_refl)
  with Some assms show ?thesis
    by (auto simp: read_clipboard_def Let_def dest!: observe_leave intro: quiet_trans split: if_splits)
qed

lemma judge_quiet: "quiet w (judge_source policy captured w)"
  by (auto simp: judge_source_def degrade_unprovable_source_def quiet_def effect_refl split: unknown_evidence_policy.splits)

definition annotated :: "('w, 'r) worker_env \<Rightarrow> captured_clipboard \<Rightarrow> captured_clipboard" where
  "annotated env captured = captured\<lparr>cb_flavors := annotate_integrity (we_blake3 env) (cb_flavors captured)\<rparr>"

text \<open>The integrity check right after the annotation cannot fail, so it never finds a torn read.\<close>

lemma check_integrity_total:
  "check_integrity env t captured w =
     Some (Proceed (annotated env captured), w\<lparr>wk_forensic := forensic_push (wk_forensic w) (forensic_of t captured)\<rparr>)"
  by (simp add: check_integrity_def Let_def verify_annotated annotated_def)

definition duplicate :: "poll_tick \<Rightarrow> bytes \<Rightarrow> 'w worker \<Rightarrow> bool" where
  "duplicate t hash w \<longleftrightarrow> wk_last_hash w = Some hash \<or>
     fst (shed_retry_suppressed (wk_last_shed w) hash (ti_observed_at t))"

lemma skip_duplicates_cases:
  assumes "skip_duplicates t explicit hash w = Some (fl, w')"
  shows "effect [] [] w w' \<and> wk_last_hash w' = wk_last_hash w \<and> wk_history w' = wk_history w \<and> wk_tracker w' = wk_tracker w \<and>
    wk_skipped w' = wk_skipped w \<and> wk_backpressure w' = wk_backpressure w \<and> wk_self_writes w' = wk_self_writes w \<and>
    fl = (if duplicate t hash w \<and> \<not> explicit then Continue else Proceed ()) \<and>
    (wk_last_shed w' = wk_last_shed w \<or> wk_last_shed w' = None)"
proof (cases "wk_last_hash w = Some hash \<and> \<not> explicit \<or> explicit")
  case True
  with assms show ?thesis
    by (auto simp: skip_duplicates_def duplicate_def quiet_def memo_def dest!: observe_leave observe_quiet split: if_splits)
next
  case False
  obtain suppressed last_shed where s: "shed_retry_suppressed (wk_last_shed w) hash (ti_observed_at t) = (suppressed, last_shed)"
    by fastforce
  then have l: "last_shed = wk_last_shed w \<or> last_shed = None"
    by (auto simp: shed_retry_suppressed_def Let_def)
  let ?w1 = "w\<lparr>wk_last_shed := last_shed\<rparr>"
  have "effect [] [] w ?w1" by (simp add: effect_refl)
  with False assms s l show ?thesis
    by (auto simp: skip_duplicates_def duplicate_def quiet_def memo_def effect_def dest!: observe_leave observe_quiet
        split: if_splits)
qed

definition preliminary :: "capture_outcome \<times> u64 \<Rightarrow> bool" where
  "preliminary e \<longleftrightarrow> fst e = Dropped GenerationGap \<or> fst e = Dropped TruncatedFlavor"

text \<open>The last hash after an outcome: only a captured or an intentionally dropped copy is not looked at again.\<close>

definition settled :: "bytes \<Rightarrow> capture_outcome \<Rightarrow> bytes option \<Rightarrow> bytes option" where
  "settled hash outcome last_hash = (case outcome of
     Captured \<Rightarrow> Some hash | Dropped reason \<Rightarrow> if drop_class_of reason = Intentional then Some hash else last_hash)"

text \<open>One stage of a copy that is looked at: it proceeds with preliminary outcomes, or ends with a final one.\<close>

definition proceeds :: "('w, 'r) worker_env \<Rightarrow> 'w worker \<Rightarrow> 'w worker \<Rightarrow> nat \<Rightarrow> bool" where
  "proceeds env w w' n \<longleftrightarrow> wk_last_hash w' = wk_last_hash w \<and>
     (\<exists>os. effect os [] w w' \<and> list_all preliminary os \<and> length os \<le> n \<and> wk_history w' = recorded env os (wk_history w))"

definition drops :: "('w, 'r) worker_env \<Rightarrow> bytes \<Rightarrow> 'w worker \<Rightarrow> 'w worker \<Rightarrow> bool" where
  "drops env hash w w' \<longleftrightarrow> (\<exists>reason. \<not> preliminary (Dropped reason, 1) \<and> reason \<noteq> StoreFailure \<and>
     effect [(Dropped reason, 1)] [] w w' \<and> wk_last_hash w' = settled hash (Dropped reason) (wk_last_hash w) \<and>
     wk_history w' = recorded env [(Dropped reason, 1)] (wk_history w))"

lemma proceeds_quiet: "quiet w w' \<Longrightarrow> proceeds env w w' n"
  by (auto simp: quiet_def proceeds_def memo_def)

lemma proceeds_trans: "proceeds env w w1 m \<Longrightarrow> proceeds env w1 w2 n \<Longrightarrow> proceeds env w w2 (m + n)"
proof -
  assume "proceeds env w w1 m" "proceeds env w1 w2 n"
  then obtain os os' where "effect os [] w w1" "effect os' [] w1 w2" "list_all preliminary (os' @ os)"
    "length (os' @ os) \<le> m + n" "wk_last_hash w2 = wk_last_hash w" "wk_history w2 = recorded env (os' @ os) (wk_history w)"
    unfolding proceeds_def by auto
  with effect_trans [of os "[]" w w1 os' "[]" w2] show ?thesis
    unfolding proceeds_def by auto
qed

lemma drops_loss:
  assumes "effect [] [] w w1" "wk_last_hash w1 = wk_last_hash w" "wk_history w1 = wk_history w" "drop_class_of reason = Loss"
    "\<not> preliminary (Dropped reason, 1)" "reason \<noteq> StoreFailure"
  shows "drops env hash w (record_drop env reason 1 w1)"
  unfolding drops_def
  using assms effect_drop [OF assms(1)] memo_drop [of env reason 1 w1]
  by (intro exI [of _ reason]) (simp add: settled_def memo_def)

lemma track_cases:
  assumes "track_generation env explicit captured w = Some (fl, w')"
  shows "(fl = Proceed () \<and> proceeds env w w' 1) \<or> (fl = Continue \<and> drops env hash w w')"
proof (cases "if explicit then None else cb_generation captured")
  case None
  with assms show ?thesis by (auto simp: track_generation_def intro: proceeds_quiet)
next
  case (Some generation)
  obtain observation tracker where ob: "tracker_observe (wk_tracker w) generation = (observation, tracker)"
    by fastforce
  let ?w1 = "w\<lparr>wk_tracker := tracker\<rparr>"
  have e: "effect [] [] w ?w1" by (simp add: effect_refl)
  have gap: "proceeds env w (record_drop env GenerationGap n ?w1) 1" for n
    using effect_drop [OF e, of GenerationGap n env] memo_drop [of env GenerationGap n ?w1]
    by (auto simp: proceeds_def preliminary_def memo_def)
  have "drops env hash w (record_drop env GenerationStale 1 ?w1)"
    by (rule drops_loss [OF e]) (simp_all add: preliminary_def)
  with assms Some ob gap e show ?thesis
    by (cases observation) (auto simp: track_generation_def proceeds_def)
qed

lemma evidence_skip_final: "evidence_skip policy input = Some reason \<Longrightarrow>
    reason \<notin> {GenerationGap, TruncatedFlavor, StoreFailure}"
  by (auto simp: evidence_skip_def split: if_splits)

lemma decide_skip_final: "decide gate policy input = Skip reason \<Longrightarrow>
    reason \<notin> {GenerationGap, TruncatedFlavor, StoreFailure}"
  by (auto simp: decide_def decide_by_content_def Let_def dest: evidence_skip_final
      split: option.splits unknown_evidence_policy.splits if_splits)

lemma refuse_drops:
  assumes "refuse env t captured hash reason w = Some (fl, w')" and "reason \<notin> {GenerationGap, TruncatedFlavor, StoreFailure}"
  shows "fl = Continue \<and> drops env hash w w'"
proof -
  let ?w1 = "w\<lparr>wk_skipped := ring_push (wk_skipped w)
            \<lparr>sk_observed_at = ti_observed_at t, sk_reason = reason, sk_provenance = cb_provenance captured,
             sk_generation = cb_generation captured, sk_content_hash = hash\<rparr>\<rparr>"
  define ev where "ev = (if is_recoverable reason then OfferRecovery (millis SKIP_RECOVERY_WINDOW_MS) else ClearRecovery)"
  let ?w2 = "publish ev ?w1"
  let ?w3 = "record_drop env reason 1 ?w2"
  have "effect [] [] w ?w2" by (simp add: effect_refl ev_def)
  from effect_drop [OF this] have e: "effect [(Dropped reason, 1)] [] w ?w3" .
  have m: "wk_last_hash ?w3 = wk_last_hash w"
    using memo_drop [of env reason 1 ?w2] memo_publish [of _ ?w1] by (simp add: memo_def)
  have "\<not> preliminary (Dropped reason, 1)" using assms(2) by (simp add: preliminary_def)
  moreover have h: "wk_history ?w3 = recorded env [(Dropped reason, 1)] (wk_history w)" by simp
  moreover have "fl = Continue \<and> effect [(Dropped reason, 1)] [] w w' \<and> wk_history w' = wk_history ?w3 \<and>
      wk_last_hash w' = settled hash (Dropped reason) (wk_last_hash w)"
  proof (cases "drop_class_of reason")
    case Intentional
    with assms(1) e show ?thesis by (auto simp: refuse_def Let_def settled_def ev_def [symmetric])
  next
    case Loss
    with assms(1) have "fl = Continue \<and> quiet ?w3 w'"
      by (auto simp: refuse_def Let_def ev_def [symmetric] dest: observe_leave)
    with Loss m effect_trans [OF e, of "[]" "[]" w'] show ?thesis
      by (auto simp: settled_def quiet_def memo_def)
  qed
  ultimately show ?thesis using assms(2) unfolding drops_def by (intro conjI exI [of _ reason]) simp_all
qed

lemma consult_cases:
  assumes "consult_gate env policy t explicit captured hash w = Some (fl, w')"
  obtains (granted) grant self_write where "fl = Proceed grant" "proceeds env w w' 0"
      "worker_decision (we_gate env) policy captured explicit self_write = Capture grant"
  | (refused) "fl = Continue" "drops env hash w w'"
proof -
  obtain self_write ledger where l: "self_write_matches (wk_self_writes w) hash (cb_lineage captured) (ti_match_at t) = (self_write, ledger)"
    by fastforce
  let ?w1 = "w\<lparr>wk_self_writes := ledger\<rparr>"
  have w1: "effect [] [] w ?w1" "wk_last_hash ?w1 = wk_last_hash w" by (simp_all add: effect_refl)
  show thesis
  proof (cases "worker_decision (we_gate env) policy captured explicit self_write")
    case (Capture grant)
    with assms l w1 show thesis by (intro granted) (auto simp: consult_gate_def proceeds_def)
  next
    case (Skip reason)
    then have "decide (we_gate env) policy (gate_input captured self_write) = Skip reason"
      by (auto simp: worker_decision_def split: if_splits)
    note final = decide_skip_final [OF this]
    have "refuse env t captured hash reason ?w1 = Some (fl, w')" using assms l Skip by (simp add: consult_gate_def)
    from refuse_drops [OF this final] have "fl = Continue" "drops env hash ?w1 w'" by simp_all
    moreover from this(2) have "drops env hash w w'"
      unfolding drops_def by (simp add: effect_def)
    ultimately show thesis using refused by blast
  qed
qed

lemma select_cases:
  assumes "select_flavors env action flavors w = Some (fl, w')"
  shows "(\<exists>kept. fl = Proceed kept \<and> w' = w \<and> list_ex is_realized kept \<and>
      kept = fst (prune_redundant_flavors (we_blake3 env) (apply_capture_action flavors action))) \<or>
    (fl = Continue \<and> drops env hash w w')"
  using assms drops_loss [OF effect_refl refl refl, where reason = NoRealizedFlavor and hash = hash and env = env]
  by (auto simp: select_flavors_def Let_def preliminary_def split: if_splits)

lemma admit_cases:
  assumes "admit_payload env c t hash flavors w = Some (fl, w')"
  shows "(\<exists>stored n. fl = Proceed (stored, n) \<and> proceeds env w w' 1 \<and>
      (stored = flavors \<or> shed_to_text_preview flavors n = Some stored)) \<or> (fl = Continue \<and> drops env hash w w')"
proof -
  obtain soft hard where limits: "pressure_limits c (ti_memory t) = (soft, hard)" by fastforce
  let ?limited = "snd (update_limits (wk_backpressure w) soft hard (cfg_capture_preview_bytes c))"
  obtain admission b where a: "backpressure_admit ?limited (unat (total_bytes flavors)) = (admission, b)" by fastforce
  have loss: "drops env hash w (record_drop env Backpressure 1 w1)"
    if "effect [] [] w w1" "wk_last_hash w1 = wk_last_hash w" "wk_history w1 = wk_history w" for w1
    by (rule drops_loss [OF that]) (simp_all add: preliminary_def)
  have truncated: "proceeds env w (record_drop env TruncatedFlavor 1 (publish (BudgetAlertEvent PreviewOnly) (w\<lparr>wk_backpressure := b\<rparr>))) 1"
  proof -
    have "effect [] [] w (publish (BudgetAlertEvent PreviewOnly) (w\<lparr>wk_backpressure := b\<rparr>))" by (simp add: effect_refl)
    from effect_drop [OF this, of TruncatedFlavor 1 env] show ?thesis
      unfolding proceeds_def history_drop
      by (intro conjI exI [of _ "[(Dropped TruncatedFlavor, 1)]"])
        (simp_all add: preliminary_def record_drop_def record_outcome_def publish_def)
  qed
  have full: "proceeds env w (w\<lparr>wk_backpressure := b\<rparr>) 1"
    unfolding proceeds_def by (auto intro!: exI [of _ "[]"] simp: effect_refl)
  show ?thesis
  proof (cases admission)
    case AdmitFull
    with assms limits a full show ?thesis by (auto simp: admit_payload_def Let_def)
  next
    case (AdmitPreview n)
    show ?thesis
    proof (cases "shed_to_text_preview flavors n")
      case None
      with assms limits a AdmitPreview show ?thesis
        by (auto simp: admit_payload_def Let_def effect_refl intro!: loss)
    next
      case (Some preview)
      with assms limits a AdmitPreview truncated show ?thesis by (auto simp: admit_payload_def Let_def)
    qed
  next
    case AdmitShed
    with assms limits a show ?thesis
      by (auto simp: admit_payload_def Let_def effect_refl publish_def [where w = "w\<lparr>wk_backpressure := b, wk_last_shed := _\<rparr>", symmetric]
          intro!: loss) (simp_all add: publish_def)
  qed
qed

definition store_event :: "bool \<Rightarrow> clip \<Rightarrow> worker_event" where
  "store_event memory_only new = (if memory_only then VolatileEvent new else PersistEvent new)"

lemma insert_clip_effect:
  assumes "insert_clip env c t memory_only new w = (stored, w')"
  shows "effect [] [store_event memory_only new] w w' \<and> wk_last_hash w' = wk_last_hash w \<and>
    (\<exists>result. insertion env c t memory_only new (wk_history w) = (result, wk_history w') \<and> stored = is_ok result)"
proof -
  have "hi_inserted (snd (history_insert (we_history env) (ti_history_at t) new n h)) = new # hi_inserted h" for n and h :: "'a history"
    using core_insert [of "we_history env" "ti_history_at t" new n h] by (simp add: core_def)
  moreover have "hi_inserted (snd (insert_volatile (we_history env) (ti_history_at t) new h)) = hi_inserted h" for h :: "'a history"
    using core_volatile [of "we_history env" "ti_history_at t" new h] by (simp add: core_def)
  ultimately show ?thesis
    using assms by (auto simp: insert_clip_def insertion_def store_event_def effect_def publish_def split: prod.splits if_splits)
      (metis snd_conv)+
qed

text \<open>
  A commit inserts one clip and records one final outcome, a capture if and only if the insertion succeeded, and the
  counters follow.
\<close>

lemma recorded_one: "recorded env [(outcome, n)] h = h\<lparr>hi_world := we_record env outcome n (hi_world h)\<rparr>"
  by (simp add: recorded_def)

lemma commit_effect:
  obtains outcome result h where "insertion env c t (gr_memory_only grant) new (wk_history w) = (result, h)"
    "outcome \<in> {Captured, Dropped StoreFailure}" "outcome = Captured \<longleftrightarrow> is_ok result"
    "wk_history (release_payload n (commit_clip env c t hash grant new w)) = recorded env [(outcome, 1)] h"
    "effect [(outcome, 1)] [store_event (gr_memory_only grant) new] w (release_payload n (commit_clip env c t hash grant new w))"
    "wk_last_hash (release_payload n (commit_clip env c t hash grant new w)) = settled hash outcome (wk_last_hash w)"
proof -
  obtain stored w1 where ins: "insert_clip env c t (gr_memory_only grant) new (publish (QueueDepthEvent 1) w) = (stored, w1)"
    by fastforce
  let ?ss = "[store_event (gr_memory_only grant) new]"
  obtain result where w1: "effect [] ?ss w w1" "wk_last_hash w1 = wk_last_hash w"
    and result: "insertion env c t (gr_memory_only grant) new (wk_history w) = (result, wk_history w1)" "stored = is_ok result"
    using insert_clip_effect [OF ins] by (auto simp: effect_def publish_def)
  show thesis
  proof (cases stored)
    case True
    then obtain u where "result = Inr u" using result(2) by (cases result) (simp_all add: is_ok_def)
    then show thesis
      by (intro that [of result "wk_history w1" Captured])
        (use True w1 ins result in \<open>simp_all add: is_ok_def recorded_one commit_clip_def release_payload_def store_succeeded_def Let_def settled_def
          record_outcome_def effect_def publish_def\<close>)
  next
    case False
    then obtain e where "result = Inl e" using result(2) by (cases result) (simp_all add: is_ok_def)
    then show thesis
      by (intro that [of result "wk_history w1" "Dropped StoreFailure"])
        (use False w1 ins result in \<open>simp_all add: is_ok_def recorded_one commit_clip_def release_payload_def store_failed_def Let_def settled_def
          record_drop_def record_outcome_def effect_def publish_def\<close>)
  qed
qed

section \<open>One iteration\<close>

definition observed_hash :: "('w, 'r) worker_env \<Rightarrow> captured_clipboard \<Rightarrow> bytes" where
  "observed_hash env captured = content_hash_from_flavors (we_blake3 env) (cb_flavors (annotated env captured))"

definition recovers :: "('w, 'r) worker_env \<Rightarrow> poll_tick \<Rightarrow> captured_clipboard \<Rightarrow> 'w worker \<Rightarrow> bool" where
  "recovers env t captured w = explicit_recovery t (annotated env captured) (observed_hash env captured) w"

text \<open>What a stored clip is: built under a grant, from what the grant and the pruning kept or its text preview.\<close>

definition stored_as :: "('w, 'r) worker_env \<Rightarrow> poll_tick \<Rightarrow> captured_clipboard \<Rightarrow> capture_grant \<Rightarrow> clip \<Rightarrow> bool" where
  "stored_as env t captured grant new \<longleftrightarrow> (\<exists>kept flavors.
     build_clip t (annotated env captured) flavors (content_hash_from_flavors (we_blake3 env) flavors) grant = Some new \<and>
     list_ex is_realized kept \<and>
     kept = fst (prune_redundant_flavors (we_blake3 env)
       (apply_capture_action (cb_flavors (annotated env captured)) (gr_action grant))) \<and>
     (flavors = kept \<or> (\<exists>n. shed_to_text_preview kept n = Some flavors)))"

definition ended ::
  "('w, 'r) worker_env \<Rightarrow> config \<Rightarrow> poll_tick \<Rightarrow> captured_clipboard \<Rightarrow> bool \<Rightarrow> capture_outcome \<Rightarrow> (capture_outcome \<times> u64) list \<Rightarrow>
     worker_event list \<Rightarrow> 'w history \<Rightarrow> 'w history \<Rightarrow> bool" where
  "ended env c t captured explicit outcome os ss h0 h1 \<longleftrightarrow> (if outcome \<in> {Captured, Dropped StoreFailure}
      then \<exists>grant self_write new result h. ss = [store_event (gr_memory_only grant) new] \<and> stored_as env t captured grant new \<and>
        worker_decision (we_gate env) (configured_policy (we_gate env) c) (annotated env captured) explicit self_write
          = Capture grant \<and>
        insertion env c t (gr_memory_only grant) new (recorded env os h0) = (result, h) \<and>
        (outcome = Captured \<longleftrightarrow> is_ok result) \<and> h1 = recorded env [(outcome, 1)] h
      else ss = [] \<and> h1 = recorded env ((outcome, 1) # os) h0)"

definition concluded ::
  "('w, 'r) worker_env \<Rightarrow> config \<Rightarrow> poll_tick \<Rightarrow> captured_clipboard \<Rightarrow> bool \<Rightarrow> 'w worker \<Rightarrow> 'w worker \<Rightarrow> bool" where
  "concluded env c t captured explicit w w' \<longleftrightarrow> (\<exists>outcome os ss.
     effect ((outcome, 1) # os) ss w w' \<and> \<not> preliminary (outcome, 1) \<and> list_all preliminary os \<and> length os \<le> 2 \<and>
     wk_last_hash w' = settled (observed_hash env captured) outcome (wk_last_hash w) \<and>
     ended env c t captured explicit outcome os ss (wk_history w) (wk_history w'))"

lemma concluded_drop:
  assumes "proceeds env w w1 n" "n \<le> 2" "drops env (observed_hash env captured) w1 w'"
  shows "concluded env c t captured explicit w w'"
proof -
  obtain os where os: "effect os [] w w1" "list_all preliminary os" "length os \<le> n" "wk_last_hash w1 = wk_last_hash w"
    "wk_history w1 = recorded env os (wk_history w)"
    using assms(1) by (auto simp: proceeds_def)
  obtain reason where r: "\<not> preliminary (Dropped reason, 1)" "reason \<noteq> StoreFailure" "effect [(Dropped reason, 1)] [] w1 w'"
    "wk_last_hash w' = settled (observed_hash env captured) (Dropped reason) (wk_last_hash w1)"
    "wk_history w' = recorded env [(Dropped reason, 1)] (wk_history w1)"
    using assms(3) by (auto simp: drops_def)
  show ?thesis
    unfolding concluded_def
    using os r effect_trans [OF os(1) r(3)] assms(2)
    by (intro exI [of _ "Dropped reason"] exI [of _ os] exI [of _ "[]"]) (auto simp: ended_def)
qed

lemma concluded_store:
  assumes "proceeds env w w1 2" "worker_decision (we_gate env) (configured_policy (we_gate env) c) (annotated env captured) explicit self_write = Capture grant"
    and "stored_as env t captured grant new"
  shows "concluded env c t captured explicit w
    (release_payload n (commit_clip env c t (observed_hash env captured) grant new w1))" (is "concluded _ _ _ _ _ _ ?w'")
proof -
  obtain os where os: "effect os [] w w1" "list_all preliminary os" "length os \<le> 2" "wk_last_hash w1 = wk_last_hash w"
    "wk_history w1 = recorded env os (wk_history w)"
    using assms(1) by (auto simp: proceeds_def)
  obtain outcome result h where o: "insertion env c t (gr_memory_only grant) new (wk_history w1) = (result, h)"
    "outcome \<in> {Captured, Dropped StoreFailure}" "outcome = Captured \<longleftrightarrow> is_ok result"
    "wk_history ?w' = recorded env [(outcome, 1)] h"
    "effect [(outcome, 1)] [store_event (gr_memory_only grant) new] w1 ?w'"
    "wk_last_hash ?w' = settled (observed_hash env captured) outcome (wk_last_hash w1)"
    by (rule commit_effect)
  have "effect ((outcome, 1) # os) [store_event (gr_memory_only grant) new] w ?w'"
    using effect_trans [OF os(1) o(5)] by simp
  moreover have "\<not> preliminary (outcome, 1)" using o(2) by (auto simp: preliminary_def)
  moreover have "wk_last_hash ?w' = settled (observed_hash env captured) outcome (wk_last_hash w)" using o(6) os(4) by simp
  moreover have "insertion env c t (gr_memory_only grant) new (recorded env os (wk_history w)) = (result, h)" using o(1) os(5) by simp
  then have "ended env c t captured explicit outcome os [store_event (gr_memory_only grant) new] (wk_history w) (wk_history ?w')"
    unfolding ended_def if_P [OF o(2)]
    by (intro exI [of _ grant] exI [of _ self_write] exI [of _ new] exI [of _ result] exI [of _ h]) (use assms(2,3) o(3,4) in simp)
  ultimately show ?thesis
    unfolding concluded_def using os(2,3) by blast
qed

lemma store_granted_concluded:
  assumes "store_granted env c t (annotated env captured) (observed_hash env captured) grant w1 = Some (fl, w')"
    and "proceeds env w w1 1"
    and "worker_decision (we_gate env) (configured_policy (we_gate env) c) (annotated env captured) explicit self_write = Capture grant"
  shows "fl = Continue \<and> concluded env c t captured explicit w w'"
proof -
  let ?cap = "annotated env captured" and ?hash = "observed_hash env captured"
  let ?rest = "\<lambda>flavors. and_next (admit_payload env c t ?hash flavors) (\<lambda>(stored, accounted) w1.
    map_option (\<lambda>new. (Continue, release_payload accounted (commit_clip env c t ?hash grant new w1)))
      (build_clip t ?cap stored (content_hash_from_flavors (we_blake3 env) stored) grant))"
  have "and_next (select_flavors env (gr_action grant) (cb_flavors ?cap)) ?rest w1 = Some (fl, w')"
    using assms(1) by (simp add: store_granted_def Let_def)
  then consider "fl = Continue" "drops env ?hash w1 w'"
    | kept where "?rest kept w1 = Some (fl, w')" "list_ex is_realized kept"
      "kept = fst (prune_redundant_flavors (we_blake3 env) (apply_capture_action (cb_flavors ?cap) (gr_action grant)))"
    unfolding and_next_Some [of "select_flavors env _ _"] by (blast dest: select_cases [where hash = ?hash])
  then show ?thesis
  proof cases
    case 1
    with concluded_drop [OF assms(2)] show ?thesis by simp
  next
    case 2
    from 2(1) consider "fl = Continue" "drops env ?hash w1 w'"
      | stored n new w2 where "fl = Continue" "proceeds env w1 w2 1" "stored = kept \<or> shed_to_text_preview kept n = Some stored"
        "build_clip t ?cap stored (content_hash_from_flavors (we_blake3 env) stored) grant = Some new"
        "w' = release_payload n (commit_clip env c t ?hash grant new w2)"
      unfolding and_next_Some by (fastforce dest: admit_cases)
    then show ?thesis
    proof cases
      case 1
      with concluded_drop [OF assms(2)] show ?thesis by simp
    next
      case (2 stored n new w2)
      have "proceeds env w w2 2" using proceeds_trans [OF assms(2) 2(2)] by (simp add: numeral_2_eq_2)
      moreover have "stored_as env t captured grant new"
        unfolding stored_as_def using 2(3,4) \<open>list_ex is_realized kept\<close>
          \<open>kept = fst (prune_redundant_flavors _ _)\<close> by blast
      ultimately show ?thesis using concluded_store assms(3) 2(1,5) by blast
    qed
  qed
qed

lemma examine_copy_concluded:
  assumes "examine_copy env c t explicit (annotated env captured) (observed_hash env captured) w = Some (fl, w')"
  shows "fl = Continue \<and> concluded env c t captured explicit w w'"
proof -
  let ?cap = "annotated env captured" and ?hash = "observed_hash env captured"
  let ?gate = "consult_gate env (configured_policy (we_gate env) c) t explicit ?cap ?hash"
  from assms consider "fl = Continue" "drops env ?hash w w'"
    | w1 where "proceeds env w w1 1" "and_next ?gate (store_granted env c t ?cap ?hash) w1 = Some (fl, w')"
    unfolding examine_copy_def and_next_Some [of "track_generation env explicit ?cap"]
    by (blast dest: track_cases [where hash = ?hash])
  then show ?thesis
  proof cases
    case 1
    with concluded_drop [OF proceeds_quiet [OF quiet_refl, where n = 0]] show ?thesis by simp
  next
    case (2 w1)
    from 2(2) consider "?gate w1 = Some (Continue, w')" "fl = Continue" | e where "?gate w1 = Some (Exit e, w')"
      | grant w2 where "?gate w1 = Some (Proceed grant, w2)" "store_granted env c t ?cap ?hash grant w2 = Some (fl, w')"
      unfolding and_next_Some by blast
    then show ?thesis
    proof cases
      case 1
      from 1(1) have "drops env ?hash w1 w'" by (rule consult_cases) auto
      with 1(2) concluded_drop [OF 2(1)] show ?thesis by simp
    next
      case (2 e)
      then show ?thesis by (rule consult_cases) auto
    next
      case (3 grant w2)
      from 3(1) show ?thesis
      proof (rule consult_cases)
        fix grant' self_write
        assume *: "Proceed grant = Proceed grant'" "proceeds env w1 w2 0"
          "worker_decision (we_gate env) (configured_policy (we_gate env) c) ?cap explicit self_write = Capture grant'"
        have "proceeds env w w2 1" using proceeds_trans [OF 2(1) *(2)] by simp
        with 3(2) *(1,3) show ?thesis by (auto dest: store_granted_concluded)
      qed simp
    qed
  qed
qed

lemma process_cases:
  assumes "process_capture env c t captured w = Some (fl, w')"
  shows "fl = Continue \<and>
    (if duplicate t (observed_hash env captured) w \<and> \<not> recovers env t captured w
     then effect [] [] w w' \<and> wk_last_hash w' = wk_last_hash w \<and> wk_history w' = wk_history w
     else concluded env c t captured (recovers env t captured w) w w')"
proof -
  let ?cap = "annotated env captured" and ?hash = "observed_hash env captured" and ?explicit = "recovers env t captured w"
  define j where "j = judge_source (configured_policy (we_gate env) c) captured w"
  define w0 where "w0 = j\<lparr>wk_forensic := forensic_push (wk_forensic j) (forensic_of t captured)\<rparr>"
  have q0: "quiet w w0" using judge_quiet [of w] by (simp add: w0_def j_def quiet_def)
  then have dup0: "duplicate t ?hash w0 = duplicate t ?hash w" and rec0: "explicit_recovery t ?cap ?hash w0 = ?explicit"
    by (simp_all add: quiet_def memo_def duplicate_def explicit_recovery_def recovers_def)
  have run: "and_next (skip_duplicates t ?explicit ?hash) (\<lambda>_. examine_copy env c t ?explicit ?cap ?hash) w0 = Some (fl, w')"
    using assms rec0 by (simp add: process_capture_def and_next_Some [of "check_integrity env t captured"]
        check_integrity_total w0_def j_def observed_hash_def [symmetric] Let_def)
  show ?thesis
  proof (cases "duplicate t ?hash w \<and> \<not> ?explicit")
    case True
    with run have "fl = Continue" "effect [] [] w0 w'" "wk_last_hash w' = wk_last_hash w0" "wk_history w' = wk_history w0"
      by (auto simp: and_next_Some dup0 dest!: skip_duplicates_cases)
    with True q0 effect_trans [of "[]" "[]" w w0 "[]" "[]" w'] show ?thesis by (simp add: quiet_def memo_def)
  next
    case False
    with run obtain w1 where w1: "effect [] [] w0 w1" "wk_last_hash w1 = wk_last_hash w0" "wk_history w1 = wk_history w0"
      and run1: "examine_copy env c t ?explicit ?cap ?hash w1 = Some (fl, w')"
      unfolding and_next_Some by (auto simp: dup0 dest!: skip_duplicates_cases)
    have e1: "effect os ss w1 w' \<Longrightarrow> effect os ss w w'" for os ss
      using q0 effect_trans [OF w1(1), of os ss w'] effect_trans [of "[]" "[]" w w0 os ss w'] by (simp add: quiet_def)
    have h1: "wk_last_hash w1 = wk_last_hash w" "wk_history w1 = wk_history w" using w1(2,3) q0 by (simp_all add: quiet_def memo_def)
    from examine_copy_concluded [OF run1] e1 have "fl = Continue \<and> concluded env c t captured ?explicit w w'"
      unfolding concluded_def h1 by metis
    with False show ?thesis by auto
  qed
qed

text \<open>The copy that an iteration looks at, if it does: not paused, read, not empty and not known already.\<close>

definition copy_at :: "('w, 'r) worker_env \<Rightarrow> poll_tick \<Rightarrow> 'w worker \<Rightarrow> captured_clipboard option" where
  "copy_at env t w = (if ti_paused t then None else (case ti_read t of
     None \<Rightarrow> None
   | Some captured \<Rightarrow>
       if cb_flavors captured = [] \<or> (duplicate t (observed_hash env captured) w \<and> \<not> recovers env t captured w)
       then None else Some captured))"

lemma quiet_same:
  assumes "quiet w w1"
  shows "duplicate t hash w1 = duplicate t hash w" "recovers env t captured w1 = recovers env t captured w"
    "effect os ss w1 w' \<Longrightarrow> effect os ss w w'" "wk_last_hash w1 = wk_last_hash w" "wk_history w1 = wk_history w"
  using assms effect_trans [of "[]" "[]" w w1 os ss w']
  by (simp_all add: quiet_def memo_def duplicate_def recovers_def explicit_recovery_def)

lemma quiet_concluded:
  assumes "quiet w w1" "concluded env c t captured explicit w1 w2" "quiet w2 w'"
  shows "concluded env c t captured explicit w w'"
proof -
  have "effect os ss w1 w2 \<Longrightarrow> effect os ss w w'" for os ss
    using quiet_same(3) [OF assms(1)] assms(3) effect_trans [of os ss w w2 "[]" "[]" w'] by (simp add: quiet_def)
  then show ?thesis
    using assms(2) quiet_same(4,5) [OF assms(1)] quiet_same(4,5) [OF assms(3)] unfolding concluded_def by metis
qed

lemma end_guard_quiet: "end_guard t w = Some w' \<Longrightarrow> quiet w w'"
  by (auto simp: end_guard_def quiet_def Let_def effect_refl split: if_splits)

lemma guarded_cases:
  assumes "guarded_tick env c t w = Some (fl, w')"
  shows "case copy_at env t w of None \<Rightarrow> effect [] [] w w' \<and> wk_last_hash w' = wk_last_hash w \<and> wk_history w' = wk_history w
    | Some captured \<Rightarrow> concluded env c t captured (recovers env t captured w) w w'"
proof -
  have idle: "quiet w w' \<Longrightarrow> effect [] [] w w' \<and> wk_last_hash w' = wk_last_hash w \<and> wk_history w' = wk_history w"
    by (simp add: quiet_def memo_def)
  from assms consider "ti_paused t" "quiet w w'"
    | w1 where "\<not> ti_paused t" "quiet w w1" "and_next (read_clipboard t) (process_capture env c t) w1 = Some (fl, w')"
    unfolding guarded_tick_def and_next_Some [of "check_paused t"] by (auto dest!: check_paused_quiet split: if_splits)
  then show ?thesis
  proof cases
    case 1
    then show ?thesis using idle by (simp add: copy_at_def)
  next
    case (2 w1)
    from 2(3) consider "quiet w1 w'" "case ti_read t of None \<Rightarrow> True | Some captured \<Rightarrow> cb_flavors captured = []"
      | captured w2 where "quiet w1 w2" "ti_read t = Some captured" "cb_flavors captured \<noteq> []"
        "process_capture env c t captured w2 = Some (fl, w')"
      unfolding and_next_Some by (auto dest!: read_quiet)
    then show ?thesis
    proof cases
      case 1
      then show ?thesis using idle [OF quiet_trans [OF 2(2) 1(1)]] 2(1) by (auto simp: copy_at_def split: option.splits)
    next
      case (2 captured w2)
      have q: "quiet w w2" using quiet_trans [OF \<open>quiet w w1\<close> 2(1)] .
      from process_cases [OF 2(4)] have *: "if duplicate t (observed_hash env captured) w \<and> \<not> recovers env t captured w
         then effect [] [] w2 w' \<and> wk_last_hash w' = wk_last_hash w \<and> wk_history w' = wk_history w
         else concluded env c t captured (recovers env t captured w) w2 w'"
        unfolding quiet_same(1,2,4,5) [OF q] by simp
      show ?thesis
        using * 2(2,3) \<open>\<not> ti_paused t\<close> quiet_same(3) [OF q] quiet_concluded [OF q _ quiet_refl]
        by (auto simp: copy_at_def split: if_splits)
    qed
  qed
qed

lemma tick_cases:
  assumes "worker_tick env c t w = Some (fl, w')"
  shows "case copy_at env t w of None \<Rightarrow> effect [] [] w w' \<and> wk_last_hash w' = wk_last_hash w \<and> wk_history w' = wk_history w
    | Some captured \<Rightarrow> concluded env c t captured (recovers env t captured w) w w'"
proof -
  from assms obtain w1 w2 where q1: "quiet w w1" and g: "guarded_tick env c t w1 = Some (fl, w2)" and q2: "quiet w2 w'"
    unfolding worker_tick_def and_next_Some
    by (auto dest!: begin_quiet simp: bind_eq_Some_conv intro: end_guard_quiet)
  have "copy_at env t w1 = copy_at env t w" by (auto simp: copy_at_def quiet_same(1,2) [OF q1] split: option.splits)
  with guarded_cases [OF g] show ?thesis
    using quiet_same(3-5) [OF q1] quiet_same(2) [OF q1, of env t] quiet_concluded [OF q1 _ q2] effect_trans [of "[]" "[]" w w2 "[]" "[]" w'] q2
    by (auto simp: quiet_def memo_def split: option.splits)
qed

section \<open>Only what was granted is stored\<close>










text \<open>
  C20. Every copy is accounted for, exactly once. An iteration that looks at no copy records nothing and leaves the
  history alone. One that does records exactly one final outcome of the copy, after at most a reported gap and a reported
  truncation; the counters are the sum of what was recorded. A clip is handed to the history exactly when the outcome is a
  capture or a store failure, and the outcome is a capture if and only if the history's insertion of that clip succeeded;
  apart from this insertion the history changes only by what recording the outcomes writes. The copy is not looked at
  again only if it was captured or dropped on purpose, so a lost copy is looked at again.
\<close>

theorem every_copy_is_accounted:
  assumes "worker_tick env c t w = Some (fl, w')"
  shows "case copy_at env t w of
      None \<Rightarrow> outcomes (wk_log w') = outcomes (wk_log w) \<and> wk_losses w' = wk_losses w \<and>
        stores (wk_log w') = stores (wk_log w) \<and> wk_last_hash w' = wk_last_hash w \<and> wk_history w' = wk_history w
    | Some captured \<Rightarrow> \<exists>outcome os. outcomes (wk_log w') = (outcome, 1) # os @ outcomes (wk_log w) \<and>
        wk_losses w' = count_outcome (outcome, 1) (foldr count_outcome os (wk_losses w)) \<and>
        \<not> preliminary (outcome, 1) \<and> list_all preliminary os \<and> length os \<le> 2 \<and>
        wk_last_hash w' = settled (observed_hash env captured) outcome (wk_last_hash w) \<and>
        (if outcome \<in> {Captured, Dropped StoreFailure}
         then \<exists>memory_only new result h. stores (wk_log w') = store_event memory_only new # stores (wk_log w) \<and>
           insertion env c t memory_only new (recorded env os (wk_history w)) = (result, h) \<and>
           (outcome = Captured \<longleftrightarrow> is_ok result) \<and> wk_history w' = recorded env [(outcome, 1)] h
         else stores (wk_log w') = stores (wk_log w) \<and> wk_history w' = recorded env ((outcome, 1) # os) (wk_history w))"
proof (cases "copy_at env t w")
  case None
  with tick_cases [OF assms] show ?thesis by (auto simp: effect_def)
next
  case (Some captured)
  from Some tick_cases [OF assms] have "concluded env c t captured (recovers env t captured w) w w'" by simp
  then obtain outcome os ss where e: "effect ((outcome, 1) # os) ss w w'"
    "\<not> preliminary (outcome, 1)" "list_all preliminary os" "length os \<le> 2"
    "wk_last_hash w' = settled (observed_hash env captured) outcome (wk_last_hash w)"
    and stored: "if outcome \<in> {Captured, Dropped StoreFailure}
      then \<exists>grant self_write new result h. ss = [store_event (gr_memory_only grant) new] \<and> stored_as env t captured grant new \<and>
        worker_decision (we_gate env) (configured_policy (we_gate env) c) (annotated env captured)
          (recovers env t captured w) self_write = Capture grant \<and>
        insertion env c t (gr_memory_only grant) new (recorded env os (wk_history w)) = (result, h) \<and>
        (outcome = Captured \<longleftrightarrow> is_ok result) \<and> wk_history w' = recorded env [(outcome, 1)] h
      else ss = [] \<and> wk_history w' = recorded env ((outcome, 1) # os) (wk_history w)"
    unfolding concluded_def ended_def by blast
  show ?thesis
  proof (cases "outcome \<in> {Captured, Dropped StoreFailure}")
    case True
    with stored obtain memory_only new result h where "ss = [store_event memory_only new]"
      "insertion env c t memory_only new (recorded env os (wk_history w)) = (result, h)"
      "outcome = Captured \<longleftrightarrow> is_ok result" "wk_history w' = recorded env [(outcome, 1)] h" by auto
    then have "\<exists>memory_only new result h. stores (wk_log w') = store_event memory_only new # stores (wk_log w) \<and>
        insertion env c t memory_only new (recorded env os (wk_history w)) = (result, h) \<and>
        (outcome = Captured \<longleftrightarrow> is_ok result) \<and> wk_history w' = recorded env [(outcome, 1)] h"
      using e(1) by (intro exI [of _ memory_only] exI [of _ new] exI [of _ result] exI [of _ h]) (simp add: effect_def)
    with Some e True show ?thesis
      by (auto simp: effect_def intro!: exI [of _ outcome] exI [of _ os])
  next
    case False
    with Some e stored show ?thesis
      by (auto simp: effect_def intro!: exI [of _ outcome] exI [of _ os])
  qed
qed

end
