(* ===== verification/Worker_Retry.thy ===== *)
theory Worker_Retry
  imports Worker_Safety
begin

text \<open>
  What becomes of a copy whose insertion failed. The worker keeps the previous hash so that the next poll tries again,
  but the generation tracker has already accepted the copy: the retry is taken for a stale read.
\<close>

section \<open>The memory of a failed insertion\<close>

definition retry_memo :: "'w worker \<Rightarrow> capture_generation option \<times> (bytes \<times> instant) option" where
  "retry_memo w = (wk_tracker w, wk_last_shed w)"

definition failed_insert :: "'w worker \<Rightarrow> bool" where
  "failed_insert w \<longleftrightarrow> outcomes (wk_log w) \<noteq> [] \<and> hd (outcomes (wk_log w)) = (Dropped StoreFailure, 1)"

lemma drops_not_failed: "drops env hash w w' \<Longrightarrow> \<not> failed_insert w'"
  by (auto simp: drops_def effect_def failed_insert_def)

lemma retry_memo_publish [simp]: "retry_memo (publish e w) = retry_memo w"
  by (simp add: retry_memo_def publish_def)

lemma retry_memo_drop [simp]: "retry_memo (record_drop env reason n w) = retry_memo w"
  by (simp add: retry_memo_def record_drop_def record_outcome_def publish_def)

lemma consult_memo:
  "consult_gate env policy t explicit captured hash w = Some (Proceed grant, w') \<Longrightarrow> retry_memo w' = retry_memo w"
  by (auto simp: consult_gate_def refuse_def Let_def retry_memo_def and_next_Some leave_def
      split: prod.splits capture_decision.splits if_splits)

lemma admit_memo:
  "admit_payload env c t hash flavors w = Some (Proceed x, w') \<Longrightarrow> retry_memo w' = retry_memo w"
  by (auto simp: admit_payload_def Let_def split: prod.splits admission.splits option.splits)
    (simp_all add: retry_memo_def)

lemma commit_memo:
  assumes "failed_insert (release_payload n (commit_clip env c t hash grant new w))"
  shows "retry_memo (release_payload n (commit_clip env c t hash grant new w)) = retry_memo w"
proof -
  obtain stored w1 where ins: "insert_clip env c t (gr_memory_only grant) new (publish (QueueDepthEvent 1) w) = (stored, w1)"
    by fastforce
  then have w1: "retry_memo w1 = retry_memo w"
    by (auto simp: insert_clip_def retry_memo_def publish_def split: prod.splits)
  show ?thesis
  proof (cases stored)
    case True
    with assms ins show ?thesis
      by (simp add: failed_insert_def release_payload_def commit_clip_def Let_def store_succeeded_def record_outcome_def
          publish_def)
  next
    case False
    with ins w1 show ?thesis
      by (simp add: release_payload_def commit_clip_def Let_def store_failed_def record_drop_def record_outcome_def
          publish_def retry_memo_def)
  qed
qed

lemma store_granted_memo:
  assumes "store_granted env c t captured hash grant w = Some (fl, w')" and "failed_insert w'"
  shows "retry_memo w' = retry_memo w"
proof -
  from assms(1) consider "drops env hash w w'"
    | kept stored n new w2 where "admit_payload env c t hash kept w = Some (Proceed (stored, n), w2)"
        "w' = release_payload n (commit_clip env c t hash grant new w2)"
    unfolding store_granted_def Let_def and_next_Some
    by (auto dest!: select_cases [where hash = hash and env = env] dest: admit_cases)
  then show ?thesis
  proof cases
    case 1
    with assms(2) drops_not_failed show ?thesis by blast
  next
    case 2
    with assms(2) admit_memo commit_memo show ?thesis by metis
  qed
qed

text \<open>A failed insertion leaves the generation of the copy as the last accepted one, and nothing shed.\<close>

lemma tracker_observe_cases:
  "tracker_observe tracker g = (observation, tracker') \<Longrightarrow> observation = Stale \<or> tracker' = Some g"
  by (auto simp: tracker_observe_def Let_def split: option.splits if_splits)

lemma examine_failed:
  assumes "examine_copy env c t False captured hash w = Some (fl, w')" and "failed_insert w'"
    and "cb_generation captured = Some g"
  shows "retry_memo w' = (Some g, wk_last_shed w)"
proof -
  obtain observation tracker where ob: "tracker_observe (wk_tracker w) g = (observation, tracker)" by fastforce
  from assms(1,2) obtain w1 where track: "track_generation env False captured w = Some (Proceed (), w1)"
    and rest: "and_next (consult_gate env (configured_policy (we_gate env) c) t False captured hash)
       (store_granted env c t captured hash) w1 = Some (fl, w')"
    unfolding examine_copy_def and_next_Some [of "track_generation env False captured"]
    by (blast dest: track_cases [where hash = hash and env = env] drops_not_failed)
  have "retry_memo w1 = (Some g, wk_last_shed w)"
    using track assms(3) ob tracker_observe_cases [OF ob]
    by (cases observation) (auto simp: track_generation_def retry_memo_def record_drop_def record_outcome_def publish_def)
  moreover from rest consider "drops env hash w1 w'"
    | grant w2 where "consult_gate env (configured_policy (we_gate env) c) t False captured hash w1 = Some (Proceed grant, w2)"
      "store_granted env c t captured hash grant w2 = Some (fl, w')"
    unfolding and_next_Some by (blast elim: consult_cases)
  then have "retry_memo w' = retry_memo w1"
  proof cases
    case 1
    with assms(2) drops_not_failed show ?thesis by blast
  next
    case (2 grant w2)
    with consult_memo [OF 2(1)] store_granted_memo [OF 2(2) assms(2)] show ?thesis by simp
  qed
  ultimately show ?thesis by simp
qed

section \<open>The retry\<close>

lemma skip_duplicates_fresh:
  assumes "skip_duplicates t False hash w = Some (Proceed (), w')"
  shows "effect [] [] w w' \<and> wk_last_hash w' = wk_last_hash w \<and> wk_tracker w' = wk_tracker w \<and> wk_last_shed w' = None"
proof -
  obtain suppressed last_shed where s: "shed_retry_suppressed (wk_last_shed w) hash (ti_observed_at t) = (suppressed, last_shed)"
    by fastforce
  with assms have "observe_scheduler ClipboardChanged (ti_poll_at t) (w\<lparr>wk_last_shed := None\<rparr>) = Some (Proceed (), w')"
    by (auto simp: skip_duplicates_def and_next_Some leave_def shed_retry_suppressed_def Let_def split: if_splits)
  then show ?thesis by (auto simp: quiet_def memo_def effect_def dest!: observe_quiet)
qed

lemma tick_examines:
  assumes "worker_tick env c t w = Some (fl, w')" and "copy_at env t w = Some captured" and "\<not> ti_recover t"
  obtains w1 w2 fl' where "effect [] [] w w1" "wk_tracker w1 = wk_tracker w" "wk_last_hash w1 = wk_last_hash w"
    "wk_last_shed w1 = None" "quiet w2 w'"
    "examine_copy env c t False (annotated env captured) (observed_hash env captured) w1 = Some (fl', w2)"
proof -
  let ?cap = "annotated env captured" and ?hash = "observed_hash env captured"
  from assms(2) have t: "\<not> ti_paused t" "ti_read t = Some captured" "cb_flavors captured \<noteq> []" and
    fresh: "\<not> duplicate t ?hash w \<or> recovers env t captured w"
    by (auto simp: copy_at_def split: if_splits option.splits)
  have never: "explicit_recovery t cap hash v = False" for cap hash and v :: "'a worker"
    using assms(3) by (simp add: explicit_recovery_def)
  from assms(1) obtain a w2 where q1: "quiet w a" and g: "guarded_tick env c t a = Some (fl, w2)" and q2: "quiet w2 w'"
    unfolding worker_tick_def and_next_Some
    by (auto dest!: begin_quiet simp: bind_eq_Some_conv intro: end_guard_quiet)
  from g t obtain b where q3: "quiet a b" and p: "process_capture env c t captured b = Some (fl, w2)"
    unfolding guarded_tick_def and_next_Some [of "check_paused t"] and_next_Some [of "read_clipboard t"]
    by (auto dest!: check_paused_quiet read_quiet) (blast intro: quiet_trans)
  define j where "j = judge_source (configured_policy (we_gate env) c) captured b"
  define w0 where "w0 = j\<lparr>wk_forensic := forensic_push (wk_forensic j) (forensic_of t captured)\<rparr>"
  have "quiet b w0" using judge_quiet [of b] by (simp add: w0_def j_def quiet_def)
  with q1 q3 have q: "quiet w w0" by (meson quiet_trans)
  have run: "and_next (skip_duplicates t False ?hash) (\<lambda>_. examine_copy env c t False ?cap ?hash) w0 = Some (fl, w2)"
    using p never by (simp add: process_capture_def and_next_Some [of "check_integrity env t captured"]
        check_integrity_total w0_def j_def observed_hash_def [symmetric] Let_def)
  have "\<not> duplicate t ?hash w0"
    using fresh never quiet_same(1) [OF q] by (simp add: recovers_def)
  then have "skip_duplicates t False ?hash w0 \<noteq> Some (Continue, v)" "skip_duplicates t False ?hash w0 \<noteq> Some (Exit e, v)" for v e
    using skip_duplicates_cases [of t False ?hash w0] by fastforce+
  with run obtain w1 where "skip_duplicates t False ?hash w0 = Some (Proceed (), w1)"
    and e: "examine_copy env c t False ?cap ?hash w1 = Some (fl, w2)"
    unfolding and_next_Some by auto
  then have "effect [] [] w0 w1 \<and> wk_last_hash w1 = wk_last_hash w0 \<and> wk_tracker w1 = wk_tracker w0 \<and> wk_last_shed w1 = None"
    by (intro skip_duplicates_fresh)
  with q quiet_same(3) [OF q, of "[]" "[]" w1] show thesis
    by (intro that [OF _ _ _ _ q2 e]) (simp_all add: quiet_def memo_def)
qed

definition stuck :: "('w, 'r) worker_env \<Rightarrow> captured_clipboard \<Rightarrow> capture_generation \<Rightarrow> 'w worker \<Rightarrow> bool" where
  "stuck env captured g w \<longleftrightarrow> wk_tracker w = Some g \<and> wk_last_hash w \<noteq> Some (observed_hash env captured) \<and>
     wk_last_shed w = None"

lemma failed_tick_stuck:
  assumes "worker_tick env c t w = Some (fl, w')" and "copy_at env t w = Some captured" and "\<not> ti_recover t"
    and "cb_generation captured = Some g" and "failed_insert w'"
  shows "stuck env captured g w'"
proof -
  obtain w1 w2 fl' where w1: "effect [] [] w w1" "wk_tracker w1 = wk_tracker w" "wk_last_hash w1 = wk_last_hash w"
    "wk_last_shed w1 = None" and q: "quiet w2 w'"
    and e: "examine_copy env c t False (annotated env captured) (observed_hash env captured) w1 = Some (fl', w2)"
    using assms(1,2,3) by (rule tick_examines)
  have "failed_insert w2" using q assms(5) by (simp add: quiet_def effect_def failed_insert_def)
  then have "retry_memo w2 = (Some g, wk_last_shed w1)"
    using assms(4) by (intro examine_failed [OF e]) (simp_all add: annotated_def)
  then have memo': "wk_tracker w' = Some g" "wk_last_shed w' = None"
    using q w1(4) by (simp_all add: quiet_def memo_def retry_memo_def)
  have "concluded env c t captured (recovers env t captured w) w w'"
    using tick_cases [OF assms(1)] assms(2) by simp
  then have "wk_last_hash w' = wk_last_hash w"
    using assms(5) by (auto simp: concluded_def effect_def failed_insert_def settled_def)
  moreover have "wk_last_hash w \<noteq> Some (observed_hash env captured)"
    using assms(2,3) by (auto simp: copy_at_def duplicate_def recovers_def explicit_recovery_def split: if_splits option.splits)
  ultimately show ?thesis using memo' by (simp add: stuck_def)
qed

lemma stuck_tick:
  assumes "worker_tick env c t w = Some (fl, w')" and "stuck env captured g w" and "cb_generation captured = Some g"
    and "cb_flavors captured \<noteq> []" and "ti_read t = Some captured" and "\<not> ti_recover t"
  shows "stuck env captured g w' \<and> effect (if ti_paused t then [] else [(Dropped GenerationStale, 1)]) [] w w'"
proof (cases "ti_paused t")
  case True
  from assms(1) True have "quiet w w'"
    unfolding worker_tick_def guarded_tick_def and_next_Some
    by (auto simp: bind_eq_Some_conv and_next_Some dest!: begin_quiet check_paused_quiet end_guard_quiet intro: quiet_trans)
  with assms(2) True show ?thesis by (simp add: quiet_def memo_def stuck_def)
next
  case False
  let ?cap = "annotated env captured" and ?hash = "observed_hash env captured"
  have "copy_at env t w = Some captured"
    using False assms(2,4,5) by (simp add: copy_at_def stuck_def duplicate_def shed_retry_suppressed_def Let_def)
  then obtain w1 w2 fl' where w1: "effect [] [] w w1" "wk_tracker w1 = wk_tracker w" "wk_last_hash w1 = wk_last_hash w"
    "wk_last_shed w1 = None" and q: "quiet w2 w'" and e: "examine_copy env c t False ?cap ?hash w1 = Some (fl', w2)"
    using assms(1,6) by (elim tick_examines)
  have "tracker_observe (wk_tracker w1) g = (Stale, Some g)"
    using assms(2) w1(2) by (simp add: stuck_def tracker_observe_def)
  then have w2: "w2 = record_drop env GenerationStale 1 (w1\<lparr>wk_tracker := Some g\<rparr>)"
    using e assms(3) by (simp add: examine_copy_def and_next_def track_generation_def annotated_def)
  then have "effect [(Dropped GenerationStale, 1)] [] w w2"
    using effect_drop [of "[]" "[]" w "w1\<lparr>wk_tracker := Some g\<rparr>"] w1(1) by simp
  moreover have "stuck env captured g w2"
    using assms(2) w1 unfolding w2 by (simp add: stuck_def record_drop_def record_outcome_def publish_def)
  ultimately show ?thesis
    using False q effect_trans [of "[(Dropped GenerationStale, 1)]" "[]" w w2 "[]" "[]" w']
    by (simp add: quiet_def memo_def stuck_def)
qed

fun run_ticks :: "('w, 'r) worker_env \<Rightarrow> config \<Rightarrow> poll_tick list \<Rightarrow> 'w worker \<Rightarrow> 'w worker option" where
  "run_ticks env c [] w = Some w"
| "run_ticks env c (t # ts) w = Option.bind (worker_tick env c t w) (\<lambda>(_, w'). run_ticks env c ts w')"

lemma stuck_run:
  assumes "stuck env captured g w" and "cb_generation captured = Some g" and "cb_flavors captured \<noteq> []"
    and "list_all (\<lambda>t. ti_read t = Some captured \<and> \<not> ti_recover t) ts" and "run_ticks env c ts w = Some w'"
  shows "stores (wk_log w') = stores (wk_log w) \<and> hi_inserted (wk_history w') = hi_inserted (wk_history w) \<and>
    outcomes (wk_log w') = replicate (length (filter (\<lambda>t. \<not> ti_paused t) ts)) (Dropped GenerationStale, 1) @ outcomes (wk_log w)"
  using assms
proof (induction ts arbitrary: w)
  case (Cons t ts)
  from Cons.prems(5) obtain fl w1 where w1: "worker_tick env c t w = Some (fl, w1)" and r: "run_ticks env c ts w1 = Some w'"
    by (auto simp: bind_eq_Some_conv)
  have s: "stuck env captured g w1 \<and> effect (if ti_paused t then [] else [(Dropped GenerationStale, 1)]) [] w w1"
    using Cons.prems by (intro stuck_tick [OF w1]) simp_all
  with Cons.IH [of w1] Cons.prems r show ?case
    by (auto simp: effect_def replicate_append_same simp flip: replicate_Suc split: if_splits)
qed simp

text \<open>
  C21. A copy whose insertion failed is never stored when the backend numbers its generations. The comment in the code
  says that the same clipboard is retried at the next poll. After an insertion failed, every further poll of the same
  clipboard takes its generation for a stale one: nothing is stored, however many polls follow and whether the
  database works again, and each poll that is not paused counts the copy as lost once more.
\<close>

theorem failed_copy_is_not_retried:
  assumes "worker_tick env c t w = Some (fl, w1)" and "copy_at env t w = Some captured" and "\<not> ti_recover t"
    and "cb_generation captured = Some g" and "failed_insert w1"
    and "list_all (\<lambda>t. ti_read t = Some captured \<and> \<not> ti_recover t) ts" and "run_ticks env c ts w1 = Some w2"
  shows "stores (wk_log w2) = stores (wk_log w1) \<and> hi_inserted (wk_history w2) = hi_inserted (wk_history w1) \<and>
    outcomes (wk_log w2) = replicate (length (filter (\<lambda>t. \<not> ti_paused t) ts)) (Dropped GenerationStale, 1) @ outcomes (wk_log w1)"
proof -
  have "cb_flavors captured \<noteq> []" using assms(2) by (auto simp: copy_at_def split: if_splits option.splits)
  with stuck_run [OF failed_tick_stuck [OF assms(1-5)] assms(4)] assms(6,7) show ?thesis by blast
qed

end
