(* ===== verification/Worker_Total.thy ===== *)
theory Worker_Total
  imports Worker_Retry
begin

text \<open>
  The loop of the capture worker never panics. The second half of the theory evaluates it on one concrete copy: a PNG of one
  byte offered by an application that tells its name to nobody, under the default configuration, with a database that works or
  one that fails; the witnesses of the properties of the worker are its last section.
\<close>

section \<open>No iteration panics\<close>

text \<open>
  The loop of the capture worker never panics: every iteration ends, whatever the clipboard holds and the database
  answers, as long as the clocks stay in their range. The last section evaluates the worker on a concrete copy.
\<close>

section \<open>Stages that always answer\<close>

text \<open>
  The scheduler is within its bounds; the instants of a poll_tick leave room for the six seconds of a burst, and its date
  for the longest retention that a valid configuration sets, a year.
\<close>

abbreviation longest_ttl :: duration where "longest_ttl \<equiv> secs 31536000"

definition tick_in_range :: "poll_tick \<Rightarrow> bool" where
  "tick_in_range t \<longleftrightarrow> ti_poll_at t + secs 6 \<le> instant_max \<and> ti_repoll_at t + secs 6 \<le> instant_max \<and>
     ti_expiry_base t + int longest_ttl \<le> utc_max"

definition worker_ok :: "duration \<Rightarrow> duration \<Rightarrow> subsystem_budget \<Rightarrow> 'w worker \<Rightarrow> bool" where
  "worker_ok lo hi b w \<longleftrightarrow> poll_inv lo hi (wk_scheduler w) \<and> lo \<le> hi \<and> hi + hi \<le> duration_max \<and> wk_budget w = b"

definition answers :: "duration \<Rightarrow> duration \<Rightarrow> subsystem_budget \<Rightarrow> ('a flow \<times> 'w worker) option \<Rightarrow> bool" where
  "answers lo hi b r \<longleftrightarrow> (case r of None \<Rightarrow> False | Some (_, w) \<Rightarrow> worker_ok lo hi b w)"

lemma answers_Some [simp]: "answers lo hi b (Some (fl, w)) = worker_ok lo hi b w"
  by (simp add: answers_def)

lemma answers_next:
  assumes "answers lo hi b (m w)" and "\<And>x w1. m w = Some (Proceed x, w1) \<Longrightarrow> worker_ok lo hi b w1 \<Longrightarrow> answers lo hi b (k x w1)"
  shows "answers lo hi b (and_next m k w)"
proof (cases "m w")
  case None
  with assms(1) show ?thesis by (simp add: answers_def)
next
  case (Some r)
  obtain fl w1 where "r = (fl, w1)" by (cases r)
  with Some assms show ?thesis by (cases fl) (simp_all add: and_next_def)
qed

lemma worker_ok_fields [simp]:
  "worker_ok lo hi b (publish e w) = worker_ok lo hi b w"
  "worker_ok lo hi b (publish_health h w) = worker_ok lo hi b w"
  "worker_ok lo hi b (record_outcome env outcome n w) = worker_ok lo hi b w"
  "worker_ok lo hi b (record_drop env reason n w) = worker_ok lo hi b w"
  by (auto simp: worker_ok_def publish_def publish_health_def record_drop_def record_outcome_def split: option.splits)

lemma worker_ok_update [simp]:
  "worker_ok lo hi b (w\<lparr>wk_last_hash := x1\<rparr>) = worker_ok lo hi b w"
  "worker_ok lo hi b (w\<lparr>wk_health := x2\<rparr>) = worker_ok lo hi b w"
  "worker_ok lo hi b (w\<lparr>wk_privacy_judged := x3\<rparr>) = worker_ok lo hi b w"
  "worker_ok lo hi b (w\<lparr>wk_tracker := x4\<rparr>) = worker_ok lo hi b w"
  "worker_ok lo hi b (w\<lparr>wk_losses := x5\<rparr>) = worker_ok lo hi b w"
  "worker_ok lo hi b (w\<lparr>wk_skipped := x6\<rparr>) = worker_ok lo hi b w"
  "worker_ok lo hi b (w\<lparr>wk_forensic := x7\<rparr>) = worker_ok lo hi b w"
  "worker_ok lo hi b (w\<lparr>wk_backpressure := x8\<rparr>) = worker_ok lo hi b w"
  "worker_ok lo hi b (w\<lparr>wk_read_failures := x9\<rparr>) = worker_ok lo hi b w"
  "worker_ok lo hi b (w\<lparr>wk_last_shed := x10\<rparr>) = worker_ok lo hi b w"
  "worker_ok lo hi b (w\<lparr>wk_budget_tripped := x11\<rparr>) = worker_ok lo hi b w"
  "worker_ok lo hi b (w\<lparr>wk_request_backoff := x12\<rparr>) = worker_ok lo hi b w"
  "worker_ok lo hi b (w\<lparr>wk_supervisor := x13\<rparr>) = worker_ok lo hi b w"
  "worker_ok lo hi b (w\<lparr>wk_self_writes := x14\<rparr>) = worker_ok lo hi b w"
  "worker_ok lo hi b (w\<lparr>wk_history := x15\<rparr>) = worker_ok lo hi b w"
  by (simp_all add: worker_ok_def)

lemma observe_answers [simp]:
  assumes "worker_ok lo hi b w" and "at + secs 6 \<le> instant_max"
  shows "answers lo hi b (observe_scheduler ob at w)"
proof -
  have "case poll_observe (wk_scheduler w) ob at of None \<Rightarrow> False | Some (d, s') \<Rightarrow> d = ps_current s' \<and> poll_inv lo hi s'"
    using poll_step_inv [of lo hi "wk_scheduler w" "PollObserve ob at"] assms by (simp add: worker_ok_def)
  then show ?thesis
    using assms(1) by (auto simp: observe_scheduler_def worker_ok_def publish_def split: option.splits)
qed

lemma observe_leave_answers [simp]:
  "worker_ok lo hi b w \<Longrightarrow> at + secs 6 \<le> instant_max \<Longrightarrow>
     answers lo hi b (and_next (observe_scheduler ob at) (\<lambda>_. leave) w)"
  by (intro answers_next) (simp_all add: leave_def)

lemma begin_answers: "worker_ok lo hi b w \<Longrightarrow> answers lo hi b (begin_tick w)"
  using poll_step_inv [of lo hi "wk_scheduler w" PollBackOff]
  by (auto simp: begin_tick_def worker_ok_def publish_def split: option.splits)

lemma paused_answers: "worker_ok lo hi b w \<Longrightarrow> tick_in_range t \<Longrightarrow> answers lo hi b (check_paused t w)"
  by (simp add: check_paused_def tick_in_range_def)

lemma read_answers:
  assumes "worker_ok lo hi b w" and "tick_in_range t"
  shows "answers lo hi b (read_clipboard t w)"
proof (cases "ti_read t")
  case None
  let ?w1 = "publish_health (read_failed (wk_health w)) (w\<lparr>wk_read_failures := saturating_add (wk_read_failures w) 1\<rparr>)"
  have "answers lo hi b (and_next (observe_scheduler MissRisk (ti_poll_at t)) (\<lambda>_ w2.
          if MAX_CONSECUTIVE_READ_FAILURES \<le> wk_read_failures w2 then Some (Exit RepeatedReadFailure, w2)
          else Some (Continue, w2)) ?w1)"
    using assms by (intro answers_next observe_answers) (simp_all add: tick_in_range_def)
  with None show ?thesis by (simp add: read_clipboard_def Let_def)
next
  case (Some captured)
  with assms show ?thesis
    by (auto simp: read_clipboard_def tick_in_range_def Let_def intro!: observe_leave_answers)
qed

lemma skip_answers:
  "worker_ok lo hi b w \<Longrightarrow> tick_in_range t \<Longrightarrow> answers lo hi b (skip_duplicates t explicit hash w)"
  by (simp add: skip_duplicates_def tick_in_range_def Let_def split: prod.split)

lemma track_answers: "worker_ok lo hi b w \<Longrightarrow> answers lo hi b (track_generation env explicit captured w)"
  by (simp add: track_generation_def Let_def split: option.split prod.split generation_observation.split)

lemma consult_answers:
  "worker_ok lo hi b w \<Longrightarrow> tick_in_range t \<Longrightarrow> answers lo hi b (consult_gate env policy t explicit captured hash w)"
  by (simp add: consult_gate_def refuse_def tick_in_range_def Let_def split: prod.split capture_decision.split)

lemma select_answers: "worker_ok lo hi b w \<Longrightarrow> answers lo hi b (select_flavors env action flavors w)"
  by (simp add: select_flavors_def Let_def)

lemma admit_answers: "worker_ok lo hi b w \<Longrightarrow> answers lo hi b (admit_payload env c t hash flavors w)"
  by (simp add: admit_payload_def Let_def split: prod.split admission.split option.split)

lemma commit_answers [simp]:
  "worker_ok lo hi b (release_payload n (commit_clip env c t hash grant new w)) = worker_ok lo hi b w"
proof -
  obtain stored w1 where w1: "insert_clip env c t (gr_memory_only grant) new (publish (QueueDepthEvent 1) w) = (stored, w1)"
    by (cases "insert_clip env c t (gr_memory_only grant) new (publish (QueueDepthEvent 1) w)")
  then have "worker_ok lo hi b w1 = worker_ok lo hi b w"
    by (simp add: insert_clip_def split: prod.splits) auto
  with w1 show ?thesis
    by (simp add: commit_clip_def release_payload_def store_succeeded_def store_failed_def Let_def)
qed

text \<open>
  The date of expiry is in range: the gate grants at most the configured retention of secrets, a valid configuration sets
  at most a year, and the grant of a recovery is a minute.
\<close>

definition ttl_ok :: "config \<Rightarrow> bool" where
  "ttl_ok c \<longleftrightarrow> cfg_secret_ttl_seconds c \<le> 31536000"

lemma valid_config_ttl: "is_ok (config_validate env query_ok c) \<Longrightarrow> ttl_ok c"
  unfolding config_validate_split
  by (auto simp: ttl_ok_def is_ok_iff shareable_validate_def try_then_eq_Inr require_Inr shareable_def)

lemma decide_ttl: "decide gate policy input = Capture grant \<Longrightarrow> gr_expires_after grant = Some ttl \<Longrightarrow> ttl \<le> po_secret_ttl policy"
  by (auto simp: decide_def decide_by_content_def Let_def split: option.splits unknown_evidence_policy.splits if_splits)

lemma granted_ttl:
  assumes "consult_gate env (configured_policy (we_gate env) c) t explicit captured hash w = Some (Proceed grant, w1)"
    and "ttl_ok c" and "gr_expires_after grant = Some ttl"
  shows "ttl \<le> longest_ttl"
  using assms(1)
proof (cases rule: consult_cases)
  case (granted grant' self_write)
  show ?thesis
  proof (cases "grant = recovery_grant")
    case True
    with assms(3) show ?thesis by (auto simp: recovery_grant_def secs_def)
  next
    case False
    with granted have "decide (we_gate env) (configured_policy (we_gate env) c) (gate_input captured self_write) = Capture grant"
      by (auto simp: worker_decision_def split: if_splits)
    from decide_ttl [OF this assms(3)] have "ttl \<le> secs (unat (max (cfg_secret_ttl_seconds c) 1))"
      by (simp add: configured_policy_def)
    also have "unat (max (cfg_secret_ttl_seconds c) 1) \<le> 31536000"
      using assms(2) by (simp add: ttl_ok_def max_def word_le_nat_alt)
    then have "secs (unat (max (cfg_secret_ttl_seconds c) 1)) \<le> longest_ttl"
      by (simp add: secs_def)
    finally show ?thesis .
  qed
qed simp

lemma build_answers:
  assumes "tick_in_range t" and "\<And>ttl. gr_expires_after grant = Some ttl \<Longrightarrow> ttl \<le> longest_ttl"
  shows "\<exists>new. build_clip t captured flavors hash grant = Some new"
proof (cases "Option.bind (gr_expires_after grant) chrono_from_std")
  case (Some ttl)
  then have "ttl \<le> longest_ttl"
    using assms(2) by (auto simp: bind_eq_Some_conv chrono_from_std_def split: if_splits)
  then have "ti_expiry_base t + int ttl \<le> utc_max" using assms(1) by (simp add: tick_in_range_def)
  with Some show ?thesis by (simp add: build_clip_def expiry_of_def utc_add_def)
qed (simp add: build_clip_def expiry_of_def)

lemma store_answers:
  assumes "worker_ok lo hi b w" and "tick_in_range t" and "\<And>ttl. gr_expires_after grant = Some ttl \<Longrightarrow> ttl \<le> longest_ttl"
  shows "answers lo hi b (store_granted env c t captured hash grant w)"
proof -
  have built: "\<exists>new. build_clip t captured stored (content_hash_from_flavors (we_blake3 env) stored) grant = Some new" for stored
    using build_answers [OF assms(2,3)] .
  show ?thesis
    unfolding store_granted_def
  proof (intro answers_next select_answers admit_answers assms(1))
    fix x :: "flavor list \<times> usize" and w1 :: "'a worker"
    assume "worker_ok lo hi b w1"
    with built [of "fst x"]
    show "answers lo hi b ((case x of (stored, n) \<Rightarrow> \<lambda>w. map_option (\<lambda>new. (Continue, release_payload n
        (commit_clip env c t hash grant new w))) (build_clip t captured stored (content_hash_from_flavors (we_blake3 env) stored) grant)) w1)"
      by (auto split: prod.split)
  qed
qed

lemma examine_answers:
  assumes "worker_ok lo hi b w" and "tick_in_range t" and "ttl_ok c"
  shows "answers lo hi b (examine_copy env c t explicit captured hash w)"
  unfolding examine_copy_def
  by (intro answers_next track_answers consult_answers store_answers assms(1,2)) (use granted_ttl [OF _ assms(3)] in blast)+

lemma process_answers:
  assumes "worker_ok lo hi b w" and "tick_in_range t" and "ttl_ok c"
  shows "answers lo hi b (process_capture env c t captured w)"
proof -
  have "worker_ok lo hi b (judge_source (configured_policy (we_gate env) c) captured w)"
    using assms(1) by (simp add: judge_source_def degrade_unprovable_source_def split: unknown_evidence_policy.split)
  with assms(2,3) show ?thesis
    unfolding process_capture_def Let_def
    by (intro answers_next skip_answers examine_answers) (simp_all add: check_integrity_total)
qed

lemma guarded_answers:
  "worker_ok lo hi b w \<Longrightarrow> tick_in_range t \<Longrightarrow> ttl_ok c \<Longrightarrow> answers lo hi b (guarded_tick env c t w)"
  unfolding guarded_tick_def by (intro answers_next paused_answers read_answers process_answers)

section \<open>The loop never panics\<close>

text \<open>The room of the budget: the processor time and the wakeups of its samples are below these totals.\<close>

definition budget_room :: "duration \<Rightarrow> nat \<Rightarrow> subsystem_budget \<Rightarrow> bool" where
  "budget_room d n b \<longleftrightarrow> sum_list (map bg_cpu (sb_samples b)) \<le> d \<and> sum_list (map (unat \<circ> bg_wakeups) (sb_samples b)) \<le> n"

lemma sum_dropWhile_le: "sum_list (map f (dropWhile P xs)) \<le> sum_list (map f xs)" for f :: "'a \<Rightarrow> nat"
  by (induction xs) auto

lemma budget_record_room:
  assumes "budget_room d n b" and "d + cpu \<le> duration_max" and "Suc n < 2 ^ 32"
  shows "\<exists>ob b'. budget_record b at cpu 1 = Some (ob, b') \<and> budget_room (d + cpu) (Suc n) b'"
proof -
  let ?new = "\<lparr>bg_at = at, bg_cpu = cpu, bg_wakeups = 1\<rparr>"
  let ?samples = "dropWhile (\<lambda>s. sb_window b < saturating_duration_since at (bg_at s)) (sb_samples b @ [?new])"
  have cpu: "sum_list (map bg_cpu ?samples) \<le> d + cpu"
    using assms(1) by (intro order_trans [OF sum_dropWhile_le]) (simp add: budget_room_def)
  have wakeups: "sum_list (map (unat \<circ> bg_wakeups) ?samples) \<le> Suc n"
    using assms(1) by (intro order_trans [OF sum_dropWhile_le]) (simp add: budget_room_def)
  have "sum_durations (map bg_cpu ?samples) 0 = Some (sum_list (map bg_cpu ?samples))"
    using cpu assms(2) by (simp add: sum_durations_eq)
  moreover obtain total where "sum_u32 (map bg_wakeups ?samples) 0 = Some total"
    using sum_u32_Some [of 0 "map bg_wakeups ?samples"] wakeups assms(3) by auto
  ultimately show ?thesis
    using cpu wakeups by (simp add: budget_record_def Let_def budget_room_def)
qed

lemma tick_answers:
  assumes "worker_ok lo hi b w" and "budget_room d n b" and "tick_in_range t" and "ttl_ok c"
    and "d + ti_cpu t \<le> duration_max" and "Suc n < 2 ^ 32"
  shows "\<exists>fl w' b'. worker_tick env c t w = Some (fl, w') \<and> worker_ok lo hi b' w' \<and> budget_room (d + ti_cpu t) (Suc n) b'"
proof -
  obtain w1 where w1: "begin_tick w = Some (Proceed (), w1)" "worker_ok lo hi b w1"
    using begin_answers [OF assms(1)] begin_quiet [of w] by (auto simp: answers_def split: option.splits)
  obtain fl w2 where w2: "guarded_tick env c t w1 = Some (fl, w2)" "worker_ok lo hi b w2"
    using guarded_answers [OF w1(2) assms(3,4), where env = env] by (auto simp: answers_def split: option.splits)
  obtain ob b' where b': "budget_record b (ti_end_at t) (ti_cpu t) 1 = Some (ob, b')" "budget_room (d + ti_cpu t) (Suc n) b'"
    using budget_record_room [OF assms(2,5,6)] by blast
  have "wk_budget w2 = b" "poll_inv lo hi (wk_scheduler w2)" "lo \<le> hi" "hi + hi \<le> duration_max"
    using w2(2) by (simp_all add: worker_ok_def)
  then have "\<exists>w3. end_guard t w2 = Some w3 \<and> worker_ok lo hi b' w3"
    using b'(1) by (simp add: end_guard_def worker_ok_def publish_def Let_def)
  with w1(1) w2(1) b'(2) show ?thesis by (auto simp: worker_tick_def and_next_def)
qed

lemma run_answers:
  assumes "worker_ok lo hi b w" and "budget_room d n b" and "ttl_ok c" and "list_all tick_in_range ts"
    and "d + sum_list (map ti_cpu ts) \<le> duration_max" and "n + length ts < 2 ^ 32"
  shows "run_ticks env c ts w \<noteq> None"
  using assms
proof (induction ts arbitrary: w b d n)
  case (Cons t ts)
  then obtain fl w1 b1 where "worker_tick env c t w = Some (fl, w1)" "worker_ok lo hi b1 w1" "budget_room (d + ti_cpu t) (Suc n) b1"
    using tick_answers [of lo hi b w d n t c env] by auto
  with Cons.IH [of b1 w1 "d + ti_cpu t" "Suc n"] Cons.prems show ?case by (auto simp: add.assoc)
qed simp

lemma start_ok:
  assumes "worker_start c opened supervisor self_writes history log = Inr w"
  shows "\<exists>lo hi b. worker_ok lo hi b w \<and> budget_room 0 0 b"
proof -
  let ?poll = "unat (cfg_poll_interval_ms c)"
  let ?s = "poll_new (millis (min (max ?poll 50) 120)) (millis (max ?poll 50)) (millis (max ?poll 900))"
  have "?poll < 2 ^ 64" using unat_less_size [of "cfg_poll_interval_ms c"] by simp
  then have "max ?poll 900 \<le> 2 ^ 64" by simp
  then have "ps_maximum ?s + ps_maximum ?s \<le> duration_max"
    by (simp add: poll_new_def Let_def millis_def duration_max_def)
  moreover have "poll_inv (ps_minimum ?s) (ps_maximum ?s) ?s" "ps_minimum ?s \<le> ps_maximum ?s"
    by (auto simp: poll_inv_def poll_new_def Let_def millis_def)
  moreover have "wk_scheduler w = ?s" "wk_budget w = budget_new (secs 60) (millis 120) 600"
    using assms by (auto simp: worker_start_def Let_def split: if_splits)
  ultimately have "worker_ok (ps_minimum ?s) (ps_maximum ?s) (budget_new (secs 60) (millis 120) 600) w"
    by (simp add: worker_ok_def)
  moreover have "budget_room 0 0 (budget_new (secs 60) (millis 120) 600)" by (simp add: budget_room_def budget_new_def)
  ultimately show ?thesis by blast
qed

text \<open>
  C22. The capture worker never panics. From its start under a configuration that validates, as every loaded one does,
  every sequence of fewer than 2^32 iterations is carried out to its end, whatever the clipboard holds, the gate decides and
  the database answers, provided the clocks leave room before the end of their range, six seconds on the monotonic one
  and a year on the calendar, and the processor time adds up to a \<open>Duration\<close>: no doubling of the poll interval, no
  sum of the budget, no deadline and no date of expiry overflows.
\<close>

theorem worker_never_panics:
  assumes "worker_start c opened supervisor self_writes history log = Inr w"
    and "is_ok (config_validate (we_gate env) query_ok c)"
    and "list_all tick_in_range ts" and "length ts < 2 ^ 32" and "sum_list (map ti_cpu ts) \<le> duration_max"
  shows "\<exists>w'. run_ticks env c ts w = Some w'"
proof -
  obtain lo hi b where "worker_ok lo hi b w" "budget_room 0 0 b" using start_ok [OF assms(1)] by blast
  from run_answers [OF this valid_config_ttl [OF assms(2)] assms(3)] assms(4,5) show ?thesis by auto
qed

section \<open>A copy, an iteration and a worker\<close>

text \<open>
  The host functions: the identity for BLAKE3 and lower-casing, no regular expression that matches, no host, no high
  entropy; the database is the list of clips of the history's sample.
\<close>

definition sample_gate :: "unit gate_env" where
  "sample_gate = \<lparr>ge_lowercase = id, ge_regex_new = (\<lambda>_. Inr ()), ge_is_match = (\<lambda>_ _. False),
     ge_url_host = (\<lambda>_. None), ge_entropy = (\<lambda>_. False)\<rparr>"

definition sample_worker_env :: "bool \<Rightarrow> (clip list, unit) worker_env" where
  "sample_worker_env ok = \<lparr>we_blake3 = (\<lambda>b. b), we_gate = sample_gate,
     we_history = (if ok then sample_history_env else sample_history_env\<lparr>he_insert := (\<lambda>_ w. (Inl StoreFailed, w))\<rparr>),
     we_record = (\<lambda>_ _ w. w)\<rparr>"

definition sample_image :: flavor where
  "sample_image = flavor_inline ''image/png'' [CHR 0xFF]"

definition sample_copy :: captured_clipboard where
  "sample_copy = \<lparr>cb_flavors = [sample_image], cb_provenance = \<lparr>cp_app_id = None, cp_window_title = None,
     cp_document_path = None, cp_source_url = None\<rparr>, cb_generation = Some \<lparr>cg_epoch = 1, cg_sequence = 5\<rparr>,
     cb_lineage = \<lparr>cl_origin_device = None, cl_write_nonce = None\<rparr>, cb_selection = ClipboardSource, cb_coherence = Coherent,
     cb_intent = Intended, cb_concealment = ClearSignal, cb_provenance_confidence = Proven\<rparr>"

definition sample_tick :: poll_tick where
  "sample_tick = \<lparr>ti_paused = False, ti_read = Some sample_copy, ti_forensic_at = 0, ti_observed_at = 0, ti_match_at = 0,
     ti_poll_at = 0, ti_repoll_at = 0, ti_recover = False, ti_memory = None, ti_id = 1, ti_created_at = 0,
     ti_expiry_base = 0, ti_history_at = 0, ti_end_at = 0, ti_cpu = 0\<rparr>"

definition sample_worker :: "clip list worker" where
  "sample_worker = (case worker_start (config_default True) True supervisor_default self_write_default (history_new [] 10) [] of
     Inr w \<Rightarrow> w | Inl _ \<Rightarrow> undefined)"

section \<open>The stages of the iteration\<close>

lemma sample_annotated:
  "annotate_integrity (\<lambda>b. b) [sample_image] = [sample_image\<lparr>fl_integrity_hash := Some [CHR 0xFF]\<rparr>]"
  by (simp add: annotate_integrity_def sample_image_def flavor_inline_def)

lemma sample_kind:
  "is_text (sample_image\<lparr>fl_integrity_hash := h\<rparr>) = False" "as_text (sample_image\<lparr>fl_integrity_hash := h\<rparr>) = None"
  "is_realized (sample_image\<lparr>fl_integrity_hash := h\<rparr>)"
  by (simp_all add: sample_image_def is_text_def mime_essence_def trim_ascii_word flavor_inline_def eq_ignore_ascii_case_def
     to_ascii_lowercase_def ascii_lower_def as_text_def byte_in_def is_realized_def)

lemma sample_decision:
  "worker_decision sample_gate (configured_policy sample_gate (config_default True)) (annotated (sample_worker_env ok) sample_copy) False False
    = Capture \<lparr>gr_action = CaptureAll, gr_sensitive = False, gr_sync_eligible = True, gr_ai_allowed = True, gr_memory_only = False,
      gr_expires_after = None, gr_sensitivity_reason = None\<rparr>"
  by (simp add: worker_decision_def decide_def evidence_skip_def gate_input_def annotated_def sample_copy_def sample_annotated
     sample_worker_env_def sample_kind configured_policy_def config_default_def decide_by_content_def actionable_findings_def Let_def
     List.map_filter_simps)

lemma sample_prune: "fst (prune_redundant_flavors (\<lambda>b. b) [sample_image\<lparr>fl_integrity_hash := h\<rparr>]) = [sample_image\<lparr>fl_integrity_hash := h\<rparr>]"
  by (simp add: prune_redundant_flavors_def prune_step_def retain_def sample_image_def flavor_inline_def candidates_of_def Let_def)


lemma sample_worker_eq: "worker_start (config_default True) True supervisor_default self_write_default (history_new [] 10) [] = Inr sample_worker"
  by (simp add: sample_worker_def worker_start_def Let_def)

lemma sample_select: "select_flavors (sample_worker_env ok) CaptureAll (cb_flavors (annotated (sample_worker_env ok) sample_copy)) w
  = Some (Proceed [sample_image\<lparr>fl_integrity_hash := Some [CHR 0xFF]\<rparr>], w)"
  by (simp add: select_flavors_def sample_worker_env_def annotated_def sample_copy_def sample_annotated sample_prune sample_kind Let_def)

lemma sample_bytes: "unat (total_bytes [sample_image\<lparr>fl_integrity_hash := h\<rparr>]) = 1"
  by (simp add: total_bytes_def sample_image_def flavor_inline_def saturating_add_def checked_add_def)

lemma sample_limits: "pressure_limits (config_default True) None = (16 * MIB, 128 * MIB)"
  by (simp add: pressure_limits_def pressure_response_def current_pressure_def memory_policy_new_def config_default_def Let_def)

lemma sample_config:
  "cfg_capture_preview_bytes (config_default True) = 262144" "cfg_max_history (config_default True) = 500"
  "cfg_capture_soft_limit_bytes (config_default True) = 16777216" "cfg_capture_hard_limit_bytes (config_default True) = 134217728"
  "cfg_poll_interval_ms (config_default True) = 300"
  "rules_armed (configured_policy gate (config_default True)) = False"
  by (simp_all add: config_default_def MIB_def rules_armed_def configured_policy_def List.map_filter_simps)

definition sample_queue :: byte_backpressure where
  "sample_queue = backpressure_new 16777216 134217728 1 262144"

lemma sample_admit:
  assumes "wk_backpressure w = sample_queue"
  shows "admit_payload env (config_default True) sample_tick hash [sample_image\<lparr>fl_integrity_hash := h\<rparr>] w
    = Some (Proceed ([sample_image\<lparr>fl_integrity_hash := h\<rparr>], 1), w\<lparr>wk_backpressure := snd (backpressure_admit sample_queue 1)\<rparr>)"
  using assms by (simp add: admit_payload_def sample_limits sample_tick_def sample_bytes backpressure_admit_def update_limits_def
     sample_queue_def backpressure_new_def usize_add_def usize_max_def MIB_def Let_def sample_config)

lemma sample_insert: "\<exists>h'. history_insert (we_history (sample_worker_env ok)) 0 new n h = (if ok then Inr () else Inl StoreFailed, h')"
  by (simp add: history_insert_def mutate_and_refresh_def and_then_def store_insert_def on_world_def sample_worker_env_def
     sample_history_env_def publish_snapshot_def refresh_tags_def next_version_def)

lemma sample_worker_fields:
  "wk_request_backoff sample_worker = False" "wk_last_hash sample_worker = None" "wk_last_shed sample_worker = None"
  "wk_tracker sample_worker = None" "wk_skipped sample_worker = ring_new 8" "wk_backpressure sample_worker = sample_queue"
  "wk_self_writes sample_worker = self_write_default" "wk_history sample_worker = history_new [] 10"
  "wk_losses sample_worker = counters_default" "wk_health sample_worker = \<lparr>hs_storage_degraded = False, hs_source_privacy_degraded = False\<rparr>"
  "wk_scheduler sample_worker = poll_new (millis 120) (millis 300) (millis 900)"
  "wk_budget sample_worker = budget_new (secs 60) (millis 120) 600" "outcomes (wk_log sample_worker) = []" "stores (wk_log sample_worker) = []"
  by (simp_all add: sample_worker_def worker_start_def Let_def sample_config sample_queue_def)

lemma sample_commit:
  assumes "outcomes (wk_log w) = []" and "\<not> gr_memory_only grant"
  shows "outcomes (wk_log (release_payload n (commit_clip (sample_worker_env ok) c sample_tick hash grant new w)))
      = [(if ok then Captured else Dropped StoreFailure, 1)]"
    and "stores (wk_log (release_payload n (commit_clip (sample_worker_env ok) c sample_tick hash grant new w)))
      = PersistEvent new # stores (wk_log w)"
  using assms sample_insert [of ok new "cfg_max_history c" "wk_history w"]
  by (auto simp: commit_clip_def insert_clip_def publish_def release_payload_def store_succeeded_def store_failed_def
      record_drop_def record_outcome_def Let_def sample_tick_def)

lemma commit_budget [simp]: "wk_budget (release_payload n (commit_clip env c t hash grant new w)) = wk_budget w"
  by (auto simp: commit_clip_def insert_clip_def publish_def release_payload_def store_succeeded_def store_failed_def
      record_drop_def record_outcome_def Let_def split: prod.splits)

lemma sample_examine:
  assumes "wk_tracker w = None" "wk_self_writes w = self_write_default" "wk_backpressure w = sample_queue" "outcomes (wk_log w) = []"
    and "stores (wk_log w) = []"
  shows "\<exists>w'. examine_copy (sample_worker_env ok) (config_default True) sample_tick False
      (annotated (sample_worker_env ok) sample_copy) hash w = Some (Continue, w') \<and>
    outcomes (wk_log w') = [(if ok then Captured else Dropped StoreFailure, 1)] \<and>
    (\<exists>new. stores (wk_log w') = [PersistEvent new]) \<and> wk_budget w' = wk_budget w"
proof -
  let ?cap = "annotated (sample_worker_env ok) sample_copy"
  let ?w1 = "w\<lparr>wk_tracker := cb_generation sample_copy\<rparr>"
  let ?w2 = "?w1\<lparr>wk_self_writes := self_write_default\<rparr>"
  have track: "track_generation (sample_worker_env ok) False ?cap w = Some (Proceed (), ?w1)"
    using assms(1) by (simp add: track_generation_def annotated_def sample_copy_def tracker_observe_def)
  have ledger: "self_write_matches self_write_default hash lineage at = (False, self_write_default)" for lineage at
    by (simp add: self_write_matches_def self_write_default_def self_write_new_def self_write_prune_def)
  have gate: "we_gate (sample_worker_env ok) = sample_gate" by (simp add: sample_worker_env_def)
  let ?kept = "[sample_image\<lparr>fl_integrity_hash := Some [CHR 0xFF]\<rparr>]"
  obtain new where built: "build_clip sample_tick ?cap ?kept (content_hash_from_flavors (we_blake3 (sample_worker_env ok)) ?kept)
      \<lparr>gr_action = CaptureAll, gr_sensitive = False, gr_sync_eligible = True, gr_ai_allowed = True, gr_memory_only = False,
       gr_expires_after = None, gr_sensitivity_reason = None\<rparr> = Some new"
    by (auto simp: build_clip_def expiry_of_def)
  show ?thesis
    using assms built sample_commit [of "?w2\<lparr>wk_backpressure := snd (backpressure_admit sample_queue 1)\<rparr>"]
    by (simp add: examine_copy_def and_next_def track consult_gate_def ledger gate sample_decision store_granted_def
        sample_select sample_admit built del: if_split)
qed

lemma sample_tick_runs:
  "\<exists>w'. worker_tick (sample_worker_env ok) (config_default True) sample_tick sample_worker = Some (Continue, w') \<and>
     outcomes (wk_log w') = [(if ok then Captured else Dropped StoreFailure, 1)] \<and>
    (\<exists>new. stores (wk_log w') = [PersistEvent new])"
proof -
  let ?env = "sample_worker_env ok"
  define w1 where "w1 = publish (HealthEvent Watching) (sample_worker\<lparr>wk_read_failures := 0,
    wk_supervisor := snd (supervisor_observe (wk_supervisor sample_worker) RecoverySucceeded)\<rparr>)"
  have read: "read_clipboard sample_tick sample_worker = Some (Proceed sample_copy, w1)"
    by (simp add: read_clipboard_def sample_tick_def sample_copy_def read_succeeded_def healthy_baseline_def
        sample_worker_fields w1_def Let_def publish_health_def)
  have fields: "wk_tracker w1 = None" "wk_self_writes w1 = self_write_default" "wk_backpressure w1 = sample_queue"
    "outcomes (wk_log w1) = []" "stores (wk_log w1) = []" "wk_last_hash w1 = None" "wk_last_shed w1 = None" "wk_budget w1 = budget_new (secs 60) (millis 120) 600"
    "wk_scheduler w1 = poll_new (millis 120) (millis 300) (millis 900)"
    by (simp_all add: w1_def publish_def sample_worker_fields)
  have "\<exists>w2. process_capture ?env (config_default True) sample_tick sample_copy w1 = Some (Continue, w2) \<and>
      outcomes (wk_log w2) = [(if ok then Captured else Dropped StoreFailure, 1)] \<and>
      (\<exists>new. stores (wk_log w2) = [PersistEvent new]) \<and> wk_budget w2 = wk_budget w1"
  proof -
    define w2 where "w2 = w1\<lparr>wk_forensic := forensic_push (wk_forensic w1) (forensic_of sample_tick sample_copy)\<rparr>"
    have observe: "\<exists>w3. skip_duplicates sample_tick False hash w2 = Some (Proceed (), w3) \<and> wk_tracker w3 = None \<and>
        wk_self_writes w3 = self_write_default \<and> wk_backpressure w3 = sample_queue \<and> outcomes (wk_log w3) = [] \<and> stores (wk_log w3) = [] \<and>
        wk_budget w3 = wk_budget w1" for hash
      by (simp add: skip_duplicates_def w2_def fields shed_retry_suppressed_def observe_scheduler_def poll_new_def
          instant_checked_add_def instant_max_def secs_def sample_tick_def publish_def Let_def)
    have never: "explicit_recovery sample_tick cap hash v = False" for cap hash and v :: "clip list worker"
      by (simp add: explicit_recovery_def sample_tick_def)
    obtain w3 where w3: "skip_duplicates sample_tick False (observed_hash ?env sample_copy) w2 = Some (Proceed (), w3)"
      "wk_tracker w3 = None" "wk_self_writes w3 = self_write_default" "wk_backpressure w3 = sample_queue"
      "outcomes (wk_log w3) = []" "stores (wk_log w3) = []" "wk_budget w3 = wk_budget w1"
      using observe by blast
    show ?thesis
      using sample_examine [OF w3(2-6), of ok "observed_hash ?env sample_copy"] w3(1,7) never
      by (simp add: process_capture_def judge_source_def sample_config check_integrity_total and_next_def
          observed_hash_def [symmetric] w2_def [symmetric] Let_def)
  qed
  then obtain w2 where w2: "process_capture ?env (config_default True) sample_tick sample_copy w1 = Some (Continue, w2)"
    "outcomes (wk_log w2) = [(if ok then Captured else Dropped StoreFailure, 1)]"
    "\<exists>new. stores (wk_log w2) = [PersistEvent new]" "wk_budget w2 = wk_budget w1" by blast
  have "\<exists>w'. end_guard sample_tick w2 = Some w' \<and> outcomes (wk_log w') = outcomes (wk_log w2) \<and>
      stores (wk_log w') = stores (wk_log w2)"
    by (simp add: end_guard_def w2(4) fields budget_record_def budget_new_def sample_tick_def duration_add_def checked_add_def
        duration_max_def Let_def)
  with w2 read show ?thesis
    by (auto simp: worker_tick_def begin_tick_def sample_worker_fields and_next_def guarded_tick_def check_paused_def)
      (auto simp: sample_tick_def)
qed

section \<open>Witnesses\<close>

lemma sample_read: "ti_paused sample_tick = False" "ti_read sample_tick = Some sample_copy" "ti_recover sample_tick = False"
  "cb_generation sample_copy = Some \<lparr>cg_epoch = 1, cg_sequence = 5\<rparr>" "cb_flavors sample_copy \<noteq> []"
  by (simp_all add: sample_tick_def sample_copy_def)

lemma sample_copy_at: "copy_at (sample_worker_env ok) sample_tick sample_worker = Some sample_copy"
proof -
  have "\<not> duplicate t hash sample_worker" for t hash
    by (simp add: duplicate_def shed_retry_suppressed_def sample_worker_fields)
  then show ?thesis by (simp add: copy_at_def sample_read)
qed

lemma sample_in_range: "tick_in_range sample_tick" "tick_in_range (sample_tick\<lparr>ti_paused := b\<rparr>)"
  by (simp_all add: tick_in_range_def sample_tick_def secs_def instant_max_def utc_max_def)


theorem every_copy_is_accounted_witness:
  "(\<exists>w' new h. worker_tick (sample_worker_env True) (config_default True) sample_tick sample_worker = Some (Continue, w') \<and>
     outcomes (wk_log w') = [(Captured, 1)] \<and> wk_losses w' = count_captured counters_default \<and>
     insertion (sample_worker_env True) (config_default True) sample_tick False new (wk_history sample_worker) = (Inr (), h) \<and>
     stores (wk_log w') = [PersistEvent new]) \<and>
   (\<exists>w' new e h. worker_tick (sample_worker_env False) (config_default True) sample_tick sample_worker = Some (Continue, w') \<and>
     outcomes (wk_log w') = [(Dropped StoreFailure, 1)] \<and>
     insertion (sample_worker_env False) (config_default True) sample_tick False new (wk_history sample_worker) = (Inl e, h) \<and>
     stores (wk_log w') = [PersistEvent new])"
proof -
  have run: "\<exists>w' new result h. worker_tick (sample_worker_env ok) (config_default True) sample_tick sample_worker = Some (Continue, w') \<and>
      outcomes (wk_log w') = [(if ok then Captured else Dropped StoreFailure, 1)] \<and> (is_ok result \<longleftrightarrow> ok) \<and>
      wk_losses w' = count_outcome (if ok then Captured else Dropped StoreFailure, 1) counters_default \<and>
      insertion (sample_worker_env ok) (config_default True) sample_tick False new (wk_history sample_worker) = (result, h) \<and>
      stores (wk_log w') = [PersistEvent new]" for ok
  proof -
    obtain w' new where w': "worker_tick (sample_worker_env ok) (config_default True) sample_tick sample_worker = Some (Continue, w')"
      "outcomes (wk_log w') = [(if ok then Captured else Dropped StoreFailure, 1)]" "stores (wk_log w') = [PersistEvent new]"
      using sample_tick_runs [of ok] by blast
    from every_copy_is_accounted [OF w'(1)] w' show ?thesis
      by (cases ok) (auto simp: sample_copy_at sample_worker_fields store_event_def split: if_splits)
  qed
  have ok: "is_ok r \<Longrightarrow> r = Inr ()" "\<not> is_ok r \<Longrightarrow> \<exists>e. r = Inl e" for r :: "history_error + unit"
    by (cases r; simp add: is_ok_def)+
  show ?thesis
    using run [of True] run [of False] by (auto dest!: ok)
qed

theorem failed_copy_is_not_retried_witness:
  "\<exists>w1 w2. worker_tick (sample_worker_env False) (config_default True) sample_tick sample_worker = Some (Continue, w1) \<and>
     run_ticks (sample_worker_env False) (config_default True) [sample_tick, sample_tick\<lparr>ti_paused := True\<rparr>, sample_tick] w1 = Some w2 \<and>
     outcomes (wk_log w2) = [(Dropped GenerationStale, 1), (Dropped GenerationStale, 1), (Dropped StoreFailure, 1)] \<and>
     stores (wk_log w2) = stores (wk_log w1)"
proof -
  let ?ts = "[sample_tick, sample_tick\<lparr>ti_paused := True\<rparr>, sample_tick]"
  obtain w1 where w1: "worker_tick (sample_worker_env False) (config_default True) sample_tick sample_worker = Some (Continue, w1)"
    "outcomes (wk_log w1) = [(Dropped StoreFailure, 1)]" using sample_tick_runs [of False] by auto
  have "run_ticks (sample_worker_env False) (config_default True) (sample_tick # ?ts) sample_worker \<noteq> None"
  proof -
    obtain lo hi b where "worker_ok lo hi b sample_worker" "budget_room 0 0 b" using start_ok [OF sample_worker_eq] by blast
    then show ?thesis
      by (rule run_answers [OF _ _ valid_config_ttl [OF config_default_valid]]) (simp_all add: sample_in_range, simp add: sample_tick_def duration_max_def)
  qed
  then obtain w2 where w2: "run_ticks (sample_worker_env False) (config_default True) ?ts w1 = Some w2"
    using w1(1) by (auto simp del: run_ticks.simps(2) simp: run_ticks.simps(2) [of _ _ sample_tick ?ts])
  show ?thesis
    using failed_copy_is_not_retried [OF w1(1) sample_copy_at _ _ _ _ w2] w1 w2
    by (auto simp: failed_insert_def sample_read)
qed

theorem worker_never_panics_witness:
  "\<exists>w'. run_ticks (sample_worker_env True) (config_default True) [sample_tick, sample_tick] sample_worker = Some w'"
  using worker_never_panics [OF sample_worker_eq config_default_valid, of "[sample_tick, sample_tick]"]
  by (simp add: sample_in_range) (simp add: sample_tick_def duration_max_def)

end
