(* ===== verification/Workflow_Boards.thy ===== *)
theory Workflow_Boards
  imports Clip Text_Format "HOL-Library.Product_Lexorder"
begin

text \<open>
  Temporary pin boards, the context router, the consume queue, the collector, baskets, checklists and named slots,
  \<open>crates/vbuff-core/src/workflow/boards.rs\<close>. A \<open>VecDeque\<close> is a list with its front first. A \<open>char\<close> slot is one byte, as only
  \<open>A\<close> to \<open>I\<close> are accepted.
\<close>

definition MAX_BOARD_SLOTS :: nat where "MAX_BOARD_SLOTS = 9"
definition MAX_ROUTED_BOARDS :: nat where "MAX_ROUTED_BOARDS = 64"
definition MAX_WORKING_SET :: nat where "MAX_WORKING_SET = 256"
definition MAX_COLLECTOR_ITEMS :: nat where "MAX_COLLECTOR_ITEMS = 128"
definition MAX_BOARD_TEXT_BYTES :: nat where "MAX_BOARD_TEXT_BYTES = 1024 * 1024"
definition BOARD_MAX_LABEL_BYTES :: nat where "BOARD_MAX_LABEL_BYTES = 80"
definition MAX_CONTEXT_BYTES :: nat where "MAX_CONTEXT_BYTES = 256"

datatype board_error = BoardInvalidSlot | BoardFull | BoardNotFound | BoardInvalidText | BoardCollectorComplete | BoardTooLarge

record board_item =
  bi_clip_id :: clip_id
  bi_label :: string

record pin_board =
  pb_id :: string
  pb_slots :: "board_item option list"

definition slot_index :: "u8 \<Rightarrow> board_error + nat" where
  "slot_index slot = (if 1 \<le> unat slot \<and> unat slot \<le> MAX_BOARD_SLOTS then Inr (unat slot - 1) else Inl BoardInvalidSlot)"

definition validate_board_text :: "string \<Rightarrow> nat \<Rightarrow> board_error + unit" where
  "validate_board_text v max_bytes = (if trim v = [] \<or> length v > max_bytes \<or> has_control v then Inl BoardInvalidText else Inr ())"

definition board_new :: "string \<Rightarrow> board_error + pin_board" where
  "board_new bid = try_then (validate_board_text bid BOARD_MAX_LABEL_BYTES) (\<lambda>_.
     Inr \<lparr>pb_id = bid, pb_slots = replicate MAX_BOARD_SLOTS None\<rparr>)"

definition board_assign :: "pin_board \<Rightarrow> u8 \<Rightarrow> board_item \<Rightarrow> board_error + (pin_board \<times> board_item option)" where
  "board_assign b slot item = try_then (validate_board_text (bi_label item) BOARD_MAX_LABEL_BYTES) (\<lambda>_.
     try_then (slot_index slot) (\<lambda>index. Inr (b\<lparr>pb_slots := (pb_slots b)[index := Some item]\<rparr>, pb_slots b ! index)))"

definition board_remove :: "pin_board \<Rightarrow> u8 \<Rightarrow> board_error + (pin_board \<times> board_item option)" where
  "board_remove b slot = try_then (slot_index slot) (\<lambda>index. Inr (b\<lparr>pb_slots := (pb_slots b)[index := None]\<rparr>, pb_slots b ! index))"

definition board_get :: "pin_board \<Rightarrow> u8 \<Rightarrow> board_error + board_item option" where
  "board_get b slot = try_then (slot_index slot) (\<lambda>index. Inr (pb_slots b ! index))"

definition board_occupied :: "pin_board \<Rightarrow> nat" where
  "board_occupied b = length (filter (\<lambda>s. s \<noteq> None) (pb_slots b))"

section \<open>Routing by context\<close>

record board_context =
  bc_app_id :: "string option"
  bc_window_class :: "string option"
  bc_kind :: content_kind

record board_matcher =
  bm_app_id :: "string option"
  bm_window_class :: "string option"
  bm_kind :: "content_kind option"

definition matcher_validate :: "board_matcher \<Rightarrow> board_error + unit" where
  "matcher_validate m =
     try_then (case bm_app_id m of None \<Rightarrow> Inr () | Some v \<Rightarrow> validate_board_text v MAX_CONTEXT_BYTES) (\<lambda>_.
     try_then (case bm_window_class m of None \<Rightarrow> Inr () | Some v \<Rightarrow> validate_board_text v MAX_CONTEXT_BYTES) (\<lambda>_.
     if bm_app_id m = None \<and> bm_window_class m = None \<and> bm_kind m = None then Inl BoardInvalidText else Inr ()))"

definition matcher_score :: "board_matcher \<Rightarrow> board_context \<Rightarrow> nat option" where
  "matcher_score m cx =
     (if (bm_app_id m \<noteq> None \<and> bc_app_id cx \<noteq> bm_app_id m) \<or> (bm_window_class m \<noteq> None \<and> bc_window_class cx \<noteq> bm_window_class m)
         \<or> (bm_kind m \<noteq> None \<and> Some (bc_kind cx) \<noteq> bm_kind m)
      then None
      else Some ((if bm_app_id m \<noteq> None then 1 else 0) * 4 + (if bm_window_class m \<noteq> None then 1 else 0) * 2
        + (if bm_kind m \<noteq> None then 1 else 0)))"

type_synonym board_router = "(board_matcher \<times> pin_board) list"

definition router_add :: "board_router \<Rightarrow> board_matcher \<Rightarrow> pin_board \<Rightarrow> board_error + board_router" where
  "router_add r m b = try_then (matcher_validate m) (\<lambda>_.
     if length r \<ge> MAX_ROUTED_BOARDS then Inl BoardFull else Inr (r @ [(m, b)]))"

text \<open>\<open>Iterator::max_by_key\<close>: the last of the elements with the greatest key.\<close>

definition max_by_key :: "('a \<Rightarrow> 'k::linorder) \<Rightarrow> 'a list \<Rightarrow> 'a option" where
  "max_by_key key xs = foldl (\<lambda>best x. case best of None \<Rightarrow> Some x | Some b \<Rightarrow> if key b \<le> key x then Some x else Some b) None xs"

definition router_candidates :: "board_router \<Rightarrow> board_context \<Rightarrow> (nat \<times> nat \<times> pin_board) list" where
  "router_candidates r cx = List.map_filter (\<lambda>(index, m, b). map_option (\<lambda>score. (score, index, b)) (matcher_score m cx)) (enumerate 0 r)"

definition router_resolve :: "board_router \<Rightarrow> board_context \<Rightarrow> pin_board option" where
  "router_resolve r cx = map_option (\<lambda>(_, _, b). b)
     (max_by_key (\<lambda>(score, index, _). (int score, - int index)) (router_candidates r cx))"

section \<open>The consume queue\<close>

record consume_queue =
  cq_items :: "board_item list"
  cq_consumed :: "board_item list"

definition queue_push :: "consume_queue \<Rightarrow> board_item \<Rightarrow> board_error + consume_queue" where
  "queue_push q item = try_then (validate_board_text (bi_label item) BOARD_MAX_LABEL_BYTES) (\<lambda>_.
     if length (cq_items q) + length (cq_consumed q) \<ge> MAX_WORKING_SET then Inl BoardFull
     else Inr (q\<lparr>cq_items := cq_items q @ [item]\<rparr>))"

definition queue_consume :: "consume_queue \<Rightarrow> consume_queue \<times> board_item option" where
  "queue_consume q = (case cq_items q of [] \<Rightarrow> (q, None)
     | item # rest \<Rightarrow> (q\<lparr>cq_items := rest, cq_consumed := cq_consumed q @ [item]\<rparr>, Some item))"

definition queue_undo :: "consume_queue \<Rightarrow> consume_queue \<times> board_item option" where
  "queue_undo q = (if cq_consumed q = [] then (q, None)
     else (q\<lparr>cq_items := last (cq_consumed q) # cq_items q, cq_consumed := butlast (cq_consumed q)\<rparr>, Some (last (cq_consumed q))))"

definition queue_progress :: "consume_queue \<Rightarrow> nat \<times> nat" where
  "queue_progress q = (length (cq_consumed q), length (cq_consumed q) + length (cq_items q))"

section \<open>The collector\<close>

datatype collector_joiner = NewlineJoiner | BlankLineJoiner | SpaceJoiner | CustomJoiner string

fun joiner_value :: "collector_joiner \<Rightarrow> string" where
  "joiner_value NewlineJoiner = [CHR 0x0A]"
| "joiner_value BlankLineJoiner = [CHR 0x0A, CHR 0x0A]"
| "joiner_value SpaceJoiner = '' ''"
| "joiner_value (CustomJoiner v) = v"

record capture_collector =
  ct_target :: nat
  ct_joiner :: collector_joiner
  ct_parts :: "string list"
  ct_output_bytes :: nat

definition collector_new :: "nat \<Rightarrow> collector_joiner \<Rightarrow> board_error + capture_collector" where
  "collector_new target joiner =
     (if target = 0 \<or> target > MAX_COLLECTOR_ITEMS \<or> length (joiner_value joiner) > BOARD_MAX_LABEL_BYTES then Inl BoardInvalidText
      else if (case joiner of CustomJoiner v \<Rightarrow> v = [] \<or> has_control v | _ \<Rightarrow> False) then Inl BoardInvalidText
      else Inr \<lparr>ct_target = target, ct_joiner = joiner, ct_parts = [], ct_output_bytes = 0\<rparr>)"

definition collector_complete :: "capture_collector \<Rightarrow> bool" where
  "collector_complete c \<longleftrightarrow> length (ct_parts c) = ct_target c"

text \<open>The two checked additions of \<open>usize\<close> are the bound of 64 bits.\<close>

definition collector_append :: "capture_collector \<Rightarrow> string \<Rightarrow> board_error + (capture_collector \<times> bool)" where
  "collector_append c v =
     (if collector_complete c then Inl BoardCollectorComplete
      else let separator = (if ct_parts c \<noteq> [] then length (joiner_value (ct_joiner c)) else 0);
               nxt = ct_output_bytes c + separator + length v in
        if nxt \<ge> 2 ^ 64 \<or> nxt > MAX_BOARD_TEXT_BYTES then Inl BoardTooLarge
        else let c' = c\<lparr>ct_parts := ct_parts c @ [v], ct_output_bytes := nxt\<rparr> in Inr (c', collector_complete c'))"

definition collector_output :: "capture_collector \<Rightarrow> string option" where
  "collector_output c = (if collector_complete c then Some (join_with (joiner_value (ct_joiner c)) (ct_parts c)) else None)"

section \<open>Baskets, checklists, named slots\<close>

definition basket_add :: "clip_id list \<Rightarrow> clip_id \<Rightarrow> board_error + (clip_id list \<times> bool)" where
  "basket_add ids cid = (if cid \<in> set ids then Inr (ids, False)
     else if length ids \<ge> MAX_WORKING_SET then Inl BoardFull else Inr (ids @ [cid], True))"

definition basket_remove :: "clip_id list \<Rightarrow> clip_id \<Rightarrow> clip_id list \<times> bool" where
  "basket_remove ids cid = (if cid \<in> set ids then (remove1 cid ids, True) else (ids, False))"

definition basket_promote :: "clip_id list \<Rightarrow> clip_id list \<times> clip_id list" where
  "basket_promote ids = ([], ids)"

definition checklist_add :: "(clip_id \<times> bool) list \<Rightarrow> clip_id \<Rightarrow> board_error + (clip_id \<times> bool) list" where
  "checklist_add l cid = (if cid \<in> set (map fst l) then Inr l
     else if length l \<ge> MAX_WORKING_SET then Inl BoardFull else Inr (l @ [(cid, False)]))"

fun set_first :: "clip_id \<Rightarrow> bool \<Rightarrow> (clip_id \<times> bool) list \<Rightarrow> (clip_id \<times> bool) list option" where
  "set_first cid ready [] = None"
| "set_first cid ready (p # l) = (if fst p = cid then Some ((cid, ready) # l) else map_option (\<lambda>l. p # l) (set_first cid ready l))"

definition checklist_set_done :: "(clip_id \<times> bool) list \<Rightarrow> clip_id \<Rightarrow> bool \<Rightarrow> board_error + (clip_id \<times> bool) list" where
  "checklist_set_done l cid ready = (case set_first cid ready l of None \<Rightarrow> Inl BoardNotFound | Some l' \<Rightarrow> Inr l')"

definition checklist_pasted :: "(clip_id \<times> bool) list \<Rightarrow> clip_id \<Rightarrow> bool \<Rightarrow> board_error + (clip_id \<times> bool) list" where
  "checklist_pasted l cid check_on_paste = (if check_on_paste then checklist_set_done l cid True
     else if cid \<in> set (map fst l) then Inr l else Inl BoardNotFound)"

definition checklist_progress :: "(clip_id \<times> bool) list \<Rightarrow> nat \<times> nat" where
  "checklist_progress l = (length (filter snd l), length l)"

definition slot_upper :: "char \<Rightarrow> char" where
  "slot_upper c = (let n = (of_char c :: nat) in if 97 \<le> n \<and> n \<le> 122 then char_of (n - 32) else c)"

definition named_assign :: "(char, clip_id) btree \<Rightarrow> char \<Rightarrow> clip_id \<Rightarrow> board_error + ((char, clip_id) btree \<times> clip_id option)" where
  "named_assign slots slot cid = (let s = slot_upper slot in
     if \<not> (CHR ''A'' \<le> s \<and> s \<le> CHR ''I'') then Inl BoardInvalidSlot else Inr (bt_insert s cid slots, map_of slots s))"

definition named_get :: "(char, clip_id) btree \<Rightarrow> char \<Rightarrow> clip_id option" where
  "named_get slots slot = map_of slots (slot_upper slot)"

section \<open>The bookkeeping of queues and collectors\<close>

text \<open>The bytes a collector has counted are the length of what it will paste.\<close>

definition collector_counted :: "capture_collector \<Rightarrow> bool" where
  "collector_counted c \<longleftrightarrow> ct_output_bytes c = length (join_with (joiner_value (ct_joiner c)) (ct_parts c))
     \<and> ct_output_bytes c \<le> MAX_BOARD_TEXT_BYTES \<and> length (ct_parts c) \<le> ct_target c"

lemma collector_new_counted: "collector_new target joiner = Inr c \<Longrightarrow> collector_counted c"
  by (auto simp: collector_new_def collector_counted_def split: if_splits collector_joiner.splits)

lemma collector_append_counted:
  assumes "collector_counted c" and "collector_append c v = Inr (c', done_now)"
  shows "collector_counted c' \<and> ct_parts c' = ct_parts c @ [v] \<and> ct_target c' = ct_target c \<and> ct_joiner c' = ct_joiner c
    \<and> done_now = collector_complete c'"
  using assms by (cases "ct_parts c = []")
    (auto simp: collector_append_def collector_counted_def collector_complete_def Let_def join_with_snoc split: if_splits)

lemma queue_push_order: "queue_push q x = Inr q' \<Longrightarrow> cq_consumed q' @ cq_items q' = (cq_consumed q @ cq_items q) @ [x]
    \<and> length (cq_consumed q' @ cq_items q') \<le> MAX_WORKING_SET"
  by (auto simp: queue_push_def try_then_eq_Inr split: if_splits)

lemma queue_consume_order: "queue_consume q = (q', r) \<Longrightarrow> cq_consumed q' @ cq_items q' = cq_consumed q @ cq_items q"
  by (auto simp: queue_consume_def split: list.splits)

lemma queue_undo_order: "queue_undo q = (q', r) \<Longrightarrow> cq_consumed q' @ cq_items q' = cq_consumed q @ cq_items q"
  by (auto simp: queue_undo_def split: if_splits)

lemma queue_undo_consume: "cq_items q \<noteq> [] \<Longrightarrow> queue_undo (fst (queue_consume q)) = (q, snd (queue_consume q))"
  by (cases "cq_items q") (auto simp: queue_consume_def queue_undo_def)

section \<open>The router picks the most specific matcher, and the first of those\<close>

lemma max_by_key_snoc: "max_by_key key (xs @ [x]) = (case max_by_key key xs of None \<Rightarrow> Some x | Some b \<Rightarrow> if key b \<le> key x then Some x else Some b)"
  by (simp add: max_by_key_def)

lemma max_by_key_None: "max_by_key key xs = None \<longleftrightarrow> xs = []"
  by (induction xs rule: rev_induct) (auto simp: max_by_key_snoc max_by_key_def [of key "[]"] split: option.splits)

lemma max_by_key_greatest: "max_by_key key xs = Some b \<Longrightarrow> b \<in> set xs \<and> (\<forall>x \<in> set xs. key x \<le> key b)"
proof (induction xs arbitrary: b rule: rev_induct)
  case Nil then show ?case by (simp add: max_by_key_def)
next
  case (snoc x xs)
  show ?case
  proof (cases "max_by_key key xs")
    case None
    then have "xs = []" using max_by_key_None by blast
    with snoc.prems show ?thesis by (simp add: max_by_key_def)
  next
    case (Some m)
    from snoc.IH [OF this] have m: "m \<in> set xs" "\<forall>y \<in> set xs. key y \<le> key m" by simp_all
    from snoc.prems Some have b: "b = (if key m \<le> key x then x else m)" by (simp add: max_by_key_snoc split: if_splits)
    show ?thesis
    proof (cases "key m \<le> key x")
      case True
      with b m show ?thesis by (auto intro: order_trans)
    next
      case False
      with b m show ?thesis by auto
    qed
  qed
qed

lemma in_map_filter: "y \<in> set (List.map_filter f xs) \<longleftrightarrow> (\<exists>x \<in> set xs. f x = Some y)"
  by (induction xs) (auto simp: map_filter_simps split: option.split)

lemma router_candidates_iff: "(s, i, b) \<in> set (router_candidates r cx) \<longleftrightarrow>
  i < length r \<and> (\<exists>m. r ! i = (m, b) \<and> matcher_score m cx = Some s)"
proof
  assume "(s, i, b) \<in> set (router_candidates r cx)"
  then obtain x where "x \<in> set (enumerate 0 r)"
    "(case x of (index, m, b) \<Rightarrow> map_option (\<lambda>score. (score, index, b)) (matcher_score m cx)) = Some (s, i, b)"
    unfolding router_candidates_def in_map_filter by blast
  moreover obtain index m c where "x = (index, m, c)" by (cases x)
  ultimately show "i < length r \<and> (\<exists>m. r ! i = (m, b) \<and> matcher_score m cx = Some s)" by (auto simp: in_set_enumerate_eq)
next
  assume "i < length r \<and> (\<exists>m. r ! i = (m, b) \<and> matcher_score m cx = Some s)"
  then obtain m where "(i, m, b) \<in> set (enumerate 0 r)" "matcher_score m cx = Some s" by (auto simp: in_set_enumerate_eq)
  then show "(s, i, b) \<in> set (router_candidates r cx)"
    unfolding router_candidates_def in_map_filter by (intro bexI [of _ "(i, m, b)"]) simp_all
qed

lemma router_resolve_best:
  assumes "router_resolve r cx = Some b"
  shows "\<exists>i m s. i < length r \<and> r ! i = (m, b) \<and> matcher_score m cx = Some s \<and>
    (\<forall>j m' b' s'. j < length r \<longrightarrow> r ! j = (m', b') \<longrightarrow> matcher_score m' cx = Some s' \<longrightarrow> s' < s \<or> s' = s \<and> i \<le> j)"
proof -
  from assms obtain s i where pick: "max_by_key (\<lambda>(score, index, _). (int score, - int index)) (router_candidates r cx) = Some (s, i, b)"
    by (auto simp: router_resolve_def)
  note best = max_by_key_greatest [OF pick]
  from best have mem: "(s, i, b) \<in> set (router_candidates r cx)" by blast
  then obtain m where m: "i < length r" "r ! i = (m, b)" "matcher_score m cx = Some s" unfolding router_candidates_iff by blast
  have "s' < s \<or> s' = s \<and> i \<le> j" if "j < length r" "r ! j = (m', b')" "matcher_score m' cx = Some s'" for j m' b' s'
  proof -
    have "(s', j, b') \<in> set (router_candidates r cx)" unfolding router_candidates_iff using that by blast
    with best have "(int s', - int j) \<le> (int s, - int i)" by fastforce
    then show ?thesis by (auto simp: less_eq_prod_def)
  qed
  with m show ?thesis by blast
qed

end
