(* ===== verification/Workflow_Compare.thy ===== *)
theory Workflow_Compare
  imports Text_Format
begin

text \<open>
  Text comparison and transform previews, \<open>crates/vbuff-core/src/workflow/compare.rs\<close>. The changes of the \<open>similar\<close>
  crate are \<open>ce_diff\<close>, JSON is \<open>ce_pretty_json\<close> and a regular expression \<open>ce_regex_replace\<close>, each failing with \<open>None\<close>;
  the Unicode case mappings and BLAKE3 are fields of the same record.
\<close>

definition COMPARE_MAX_TEXT_BYTES :: nat where "COMPARE_MAX_TEXT_BYTES = 1024 * 1024"
definition MAX_DIFF_UNITS :: nat where "MAX_DIFF_UNITS = 16384"
definition MAX_DIFF_CHUNKS :: nat where "MAX_DIFF_CHUNKS = 32768"
definition MAX_REGEX_BYTES :: nat where "MAX_REGEX_BYTES = 4 * 1024"
definition MAX_REPLACEMENT_BYTES :: nat where "MAX_REPLACEMENT_BYTES = 64 * 1024"
definition MAX_TRANSFORM_HISTORY :: nat where "MAX_TRANSFORM_HISTORY = 32"

datatype diff_mode = DiffLines | DiffWords
datatype diff_kind = DiffEqual | DiffRemoved | DiffAdded

record diff_chunk =
  dc_kind :: diff_kind
  dc_text :: string

datatype compare_error = CompareTooLarge | TooManyUnits | TooManyChunks | InvalidRegex | InvalidJson | CanonicalMismatch | HistoryNotFound

datatype text_transform = TrimText | UppercaseText | LowercaseText | PrettyJson | RegexReplace string string

record compare_env =
  ce_diff :: "diff_mode \<Rightarrow> string \<Rightarrow> string \<Rightarrow> (diff_kind \<times> string) list"
  ce_upper :: "string \<Rightarrow> string"
  ce_lower :: "string \<Rightarrow> string"
  ce_pretty_json :: "string \<Rightarrow> string option"
  ce_regex_replace :: "string \<Rightarrow> string \<Rightarrow> string \<Rightarrow> string option"
  ce_blake3 :: "bytes \<Rightarrow> bytes"

definition compare_validate_text :: "string \<Rightarrow> compare_error + unit" where
  "compare_validate_text s = (if length s > COMPARE_MAX_TEXT_BYTES then Inl CompareTooLarge else Inr ())"

section \<open>Comparison\<close>

definition diff_units :: "diff_mode \<Rightarrow> string \<Rightarrow> nat" where
  "diff_units mode s = (case mode of DiffLines \<Rightarrow> length (str_lines s) | DiffWords \<Rightarrow> length (whitespace_words (utf8_split s) []))"

fun merge_changes :: "(diff_kind \<times> string) list \<Rightarrow> diff_chunk list \<Rightarrow> compare_error + diff_chunk list" where
  "merge_changes [] chunks = Inr chunks"
| "merge_changes ((kind, v) # changes) chunks =
     (if chunks \<noteq> [] \<and> dc_kind (last chunks) = kind then
        if length (dc_text (last chunks)) + length v > COMPARE_MAX_TEXT_BYTES * 2 then Inl CompareTooLarge
        else merge_changes changes (butlast chunks @ [(last chunks)\<lparr>dc_text := dc_text (last chunks) @ v\<rparr>])
      else if length chunks \<ge> MAX_DIFF_CHUNKS then Inl TooManyChunks
      else merge_changes changes (chunks @ [\<lparr>dc_kind = kind, dc_text = v\<rparr>]))"

definition compare_text :: "compare_env \<Rightarrow> string \<Rightarrow> string \<Rightarrow> diff_mode \<Rightarrow> compare_error + diff_chunk list" where
  "compare_text env left right mode =
     try_then (compare_validate_text left) (\<lambda>_. try_then (compare_validate_text right) (\<lambda>_.
       if max (diff_units mode left) (diff_units mode right) > MAX_DIFF_UNITS then Inl TooManyUnits
       else merge_changes (ce_diff env mode left right) []))"

definition side :: "diff_kind \<Rightarrow> (diff_kind \<times> string) list \<Rightarrow> string" where
  "side skipped changes = concat (map snd (filter (\<lambda>c. fst c \<noteq> skipped) changes))"

definition chunk_side :: "diff_kind \<Rightarrow> diff_chunk list \<Rightarrow> string" where
  "chunk_side skipped chunks = concat (map dc_text (filter (\<lambda>c. dc_kind c \<noteq> skipped) chunks))"

definition alternating :: "diff_chunk list \<Rightarrow> bool" where
  "alternating chunks \<longleftrightarrow> (\<forall>i. Suc i < length chunks \<longrightarrow> dc_kind (chunks ! i) \<noteq> dc_kind (chunks ! Suc i))"

lemma chunk_side_snoc: "chunk_side k (cs @ [c]) = chunk_side k cs @ (if dc_kind c \<noteq> k then dc_text c else [])"
  by (simp add: chunk_side_def)

lemma alternating_snoc: "alternating (cs @ [c]) \<longleftrightarrow> alternating cs \<and> (cs \<noteq> [] \<longrightarrow> dc_kind (last cs) \<noteq> dc_kind c)"
proof (cases cs rule: rev_cases)
  case (snoc ds d)
  show ?thesis unfolding alternating_def
  proof (intro iffI conjI allI impI)
    fix i assume a: "\<forall>i. Suc i < length (cs @ [c]) \<longrightarrow> dc_kind ((cs @ [c]) ! i) \<noteq> dc_kind ((cs @ [c]) ! Suc i)" and "Suc i < length cs"
    then show "dc_kind (cs ! i) \<noteq> dc_kind (cs ! Suc i)" using a [rule_format, of i] by (simp add: nth_append)
  next
    assume "\<forall>i. Suc i < length (cs @ [c]) \<longrightarrow> dc_kind ((cs @ [c]) ! i) \<noteq> dc_kind ((cs @ [c]) ! Suc i)"
    from this [rule_format, of "length ds"] show "dc_kind (last cs) \<noteq> dc_kind c" by (simp add: snoc nth_append)
  next
    fix i
    assume a: "(\<forall>i. Suc i < length cs \<longrightarrow> dc_kind (cs ! i) \<noteq> dc_kind (cs ! Suc i)) \<and> (cs \<noteq> [] \<longrightarrow> dc_kind (last cs) \<noteq> dc_kind c)"
      and i: "Suc i < length (cs @ [c])"
    show "dc_kind ((cs @ [c]) ! i) \<noteq> dc_kind ((cs @ [c]) ! Suc i)"
    proof (cases "Suc i < length cs")
      case True
      with a show ?thesis by (simp add: nth_append)
    next
      case False
      with i have "i = length ds" by (simp add: snoc)
      with a show ?thesis by (simp add: snoc nth_append)
    qed
  qed
qed (simp add: alternating_def)

lemma merge_changes_spec:
  "merge_changes changes chunks = Inr out \<Longrightarrow> alternating chunks \<Longrightarrow> length chunks \<le> MAX_DIFF_CHUNKS \<Longrightarrow>
   chunk_side k out = chunk_side k chunks @ side k changes \<and> alternating out \<and> length out \<le> MAX_DIFF_CHUNKS"
proof (induction changes chunks rule: merge_changes.induct)
  case (2 kind v changes chunks)
  show ?case
  proof (cases "chunks \<noteq> [] \<and> dc_kind (last chunks) = kind")
    case True
    let ?c = "(last chunks)\<lparr>dc_text := dc_text (last chunks) @ v\<rparr>"
    have small: "\<not> length (dc_text (last chunks)) + length v > COMPARE_MAX_TEXT_BYTES * 2"
      and run: "merge_changes changes (butlast chunks @ [?c]) = Inr out"
      using "2.prems"(1) True by (auto split: if_splits)
    have chunks: "chunks = butlast chunks @ [last chunks]" using True by simp
    have "alternating (butlast chunks @ [?c])"
      using "2.prems"(2) by (subst (asm) chunks) (simp add: alternating_snoc)
    from "2.IH"(1) [OF True small run this] True "2.prems"(3)
    have "chunk_side k out = chunk_side k (butlast chunks @ [?c]) @ side k changes \<and> alternating out \<and> length out \<le> MAX_DIFF_CHUNKS" by simp
    moreover have "chunk_side k chunks = chunk_side k (butlast chunks) @ (if dc_kind (last chunks) \<noteq> k then dc_text (last chunks) else [])"
      by (subst chunks) (simp only: chunk_side_snoc)
    ultimately show ?thesis using True by (auto simp: chunk_side_snoc side_def)
  next
    case False
    then have few: "\<not> length chunks \<ge> MAX_DIFF_CHUNKS" and run: "merge_changes changes (chunks @ [\<lparr>dc_kind = kind, dc_text = v\<rparr>]) = Inr out"
      using "2.prems"(1) by (auto split: if_splits)
    have "alternating (chunks @ [\<lparr>dc_kind = kind, dc_text = v\<rparr>])" using "2.prems"(2) False by (auto simp: alternating_snoc)
    from "2.IH"(2) [OF False few run this] few show ?thesis by (auto simp: chunk_side_snoc side_def)
  qed
qed (simp add: side_def)

text \<open>
  A comparison loses nothing: if the changes of the diff library spell out both texts, then the chunks shown to the user
  do too, what is not added being the left text and what is not removed the right one; neighbouring chunks have different
  kinds, so equal runs are one chunk, and there are at most 32768.
\<close>

lemma comparison_loses_nothing:
  assumes "side DiffAdded (ce_diff env mode left right) = left" and "side DiffRemoved (ce_diff env mode left right) = right"
    and "compare_text env left right mode = Inr chunks"
  shows "chunk_side DiffAdded chunks = left \<and> chunk_side DiffRemoved chunks = right \<and> alternating chunks \<and> length chunks \<le> MAX_DIFF_CHUNKS"
proof -
  have "merge_changes (ce_diff env mode left right) [] = Inr chunks"
    using assms(3) by (auto simp: compare_text_def try_then_eq_Inr split: if_splits)
  from merge_changes_spec [OF this, of DiffAdded] merge_changes_spec [OF this, of DiffRemoved] assms(1,2)
  show ?thesis by (simp add: alternating_def chunk_side_def [of _ "[]"])
qed

definition sample_compare_env :: compare_env where
  "sample_compare_env = \<lparr>ce_diff = (\<lambda>_ l r. [(DiffRemoved, l), (DiffAdded, r)]), ce_upper = id, ce_lower = id, ce_pretty_json = Some,
     ce_regex_replace = (\<lambda>_ _. Some), ce_blake3 = id\<rparr>"

lemma comparison_loses_nothing_witness:
  "\<exists>chunks. compare_text sample_compare_env ''a'' ''b'' DiffLines = Inr chunks \<and> chunk_side DiffAdded chunks = ''a'' \<and> length chunks = 2"
proof -
  have run: "compare_text sample_compare_env ''a'' ''b'' DiffLines = Inr [\<lparr>dc_kind = DiffRemoved, dc_text = ''a''\<rparr>, \<lparr>dc_kind = DiffAdded, dc_text = ''b''\<rparr>]"
    by (simp add: compare_text_def compare_validate_text_def COMPARE_MAX_TEXT_BYTES_def diff_units_def str_lines_def MAX_DIFF_UNITS_def
      MAX_DIFF_CHUNKS_def sample_compare_env_def Let_def)
  from comparison_loses_nothing [OF _ _ run] run show ?thesis by (auto simp: sample_compare_env_def side_def)
qed

section \<open>Transforms\<close>

definition text_transform_apply :: "compare_env \<Rightarrow> text_transform \<Rightarrow> string \<Rightarrow> compare_error + string" where
  "text_transform_apply env t input =
     try_then (compare_validate_text input) (\<lambda>_.
     try_then (case t of
         TrimText \<Rightarrow> Inr (trim input)
       | UppercaseText \<Rightarrow> Inr (ce_upper env input)
       | LowercaseText \<Rightarrow> Inr (ce_lower env input)
       | PrettyJson \<Rightarrow> (case ce_pretty_json env input of None \<Rightarrow> Inl InvalidJson | Some s \<Rightarrow> Inr s)
       | RegexReplace pattern replacement \<Rightarrow>
           if pattern = [] \<or> length pattern > MAX_REGEX_BYTES \<or> length replacement > MAX_REPLACEMENT_BYTES then Inl InvalidRegex
           else (case ce_regex_replace env pattern replacement input of None \<Rightarrow> Inl InvalidRegex | Some s \<Rightarrow> Inr s)) (\<lambda>output.
     try_then (compare_validate_text output) (\<lambda>_. Inr output)))"

record transform_overlay =
  to_canonical_hash :: bytes
  to_transform :: text_transform
  to_output :: string
  to_output_hash :: bytes

definition overlay_preview :: "compare_env \<Rightarrow> string \<Rightarrow> text_transform \<Rightarrow> compare_error + transform_overlay" where
  "overlay_preview env canonical t =
     try_then (compare_validate_text canonical) (\<lambda>_. try_then (text_transform_apply env t canonical) (\<lambda>output.
       Inr \<lparr>to_canonical_hash = ce_blake3 env canonical, to_transform = t, to_output = output, to_output_hash = ce_blake3 env output\<rparr>))"

definition canonical_matches :: "compare_env \<Rightarrow> transform_overlay \<Rightarrow> string \<Rightarrow> bool" where
  "canonical_matches env v canonical \<longleftrightarrow> to_canonical_hash v = ce_blake3 env canonical"

record transform_record =
  tr_sequence :: u64
  tr_input_hash :: bytes
  tr_transform :: text_transform
  tr_output :: string
  tr_output_hash :: bytes

record transform_history =
  th_canonical_hash :: "bytes option"
  th_records :: "transform_record list"
  th_next_sequence :: u64

definition transform_history_default :: transform_history where
  "transform_history_default = \<lparr>th_canonical_hash = None, th_records = [], th_next_sequence = 0\<rparr>"

text \<open>The state is returned also when the transform fails, as the code has written the canonical hash by then.\<close>

definition transform_history_apply ::
  "compare_env \<Rightarrow> transform_history \<Rightarrow> string \<Rightarrow> text_transform \<Rightarrow> transform_history \<times> (compare_error + transform_record)" where
  "transform_history_apply env h canonical t =
     (let canonical_hash = ce_blake3 env canonical in
      if (case th_canonical_hash h of None \<Rightarrow> False | Some existing \<Rightarrow> existing \<noteq> canonical_hash) then (h, Inl CanonicalMismatch)
      else let h = h\<lparr>th_canonical_hash := Some canonical_hash\<rparr>;
               input = (if th_records h = [] then canonical else tr_output (last (th_records h))) in
        case text_transform_apply env t input of
          Inl e \<Rightarrow> (h, Inl e)
        | Inr output \<Rightarrow> let sequence = max (th_next_sequence h + 1) 1;
              r = \<lparr>tr_sequence = sequence, tr_input_hash = ce_blake3 env input, tr_transform = t, tr_output = output,
                   tr_output_hash = ce_blake3 env output\<rparr>;
              kept = (if length (th_records h) \<ge> MAX_TRANSFORM_HISTORY then tl (th_records h) else th_records h) in
            (h\<lparr>th_next_sequence := sequence, th_records := kept @ [r]\<rparr>, Inr r))"

definition transform_history_replay :: "compare_env \<Rightarrow> transform_history \<Rightarrow> string \<Rightarrow> u64 \<Rightarrow> compare_error + string" where
  "transform_history_replay env h canonical sequence =
     (if th_canonical_hash h \<noteq> Some (ce_blake3 env canonical) then Inl CanonicalMismatch
      else (case find (\<lambda>r. tr_sequence r = sequence) (th_records h) of None \<Rightarrow> Inl HistoryNotFound | Some r \<Rightarrow> Inr (tr_output r)))"

definition transform_history_reset :: "transform_history \<Rightarrow> transform_history" where
  "transform_history_reset h = h\<lparr>th_canonical_hash := None, th_records := []\<rparr>"

text \<open>Each record starts from the output of the one before it.\<close>

fun records_linked :: "transform_record list \<Rightarrow> bool" where
  "records_linked (r # s # rs) \<longleftrightarrow> tr_input_hash s = tr_output_hash r \<and> records_linked (s # rs)"
| "records_linked _ \<longleftrightarrow> True"

definition transform_history_ok :: "compare_env \<Rightarrow> transform_history \<Rightarrow> bool" where
  "transform_history_ok env h \<longleftrightarrow> records_linked (th_records h) \<and> length (th_records h) \<le> MAX_TRANSFORM_HISTORY \<and>
     (\<forall>r \<in> set (th_records h). tr_output_hash r = ce_blake3 env (tr_output r) \<and> length (tr_output r) \<le> COMPARE_MAX_TEXT_BYTES) \<and>
     (th_records h \<noteq> [] \<longrightarrow> th_canonical_hash h \<noteq> None)"

lemma records_linked_snoc: "records_linked (rs @ [r]) \<longleftrightarrow> records_linked rs \<and> (rs \<noteq> [] \<longrightarrow> tr_input_hash r = tr_output_hash (last rs))"
  by (induction rs rule: records_linked.induct) auto

lemma records_linked_tl: "records_linked rs \<Longrightarrow> records_linked (tl rs)"
  by (induction rs rule: records_linked.induct) auto

lemma set_tl_subset: "set (tl xs) \<subseteq> set xs"
  by (cases xs) auto

lemma text_transform_apply_bound: "text_transform_apply env t input = Inr output \<Longrightarrow> length output \<le> COMPARE_MAX_TEXT_BYTES"
  by (auto simp: text_transform_apply_def try_then_eq_Inr compare_validate_text_def split: if_splits)

lemma transform_history_apply_ok:
  assumes "transform_history_ok env h" shows "transform_history_ok env (fst (transform_history_apply env h canonical t))"
proof (cases "snd (transform_history_apply env h canonical t)")
  case (Inl e)
  then show ?thesis using assms
    by (auto simp: transform_history_apply_def transform_history_ok_def Let_def split: if_splits sum.splits option.splits)
next
  case (Inr r)
  define kept where "kept = (if length (th_records h) \<ge> MAX_TRANSFORM_HISTORY then tl (th_records h) else th_records h)"
  from Inr have after: "th_records (fst (transform_history_apply env h canonical t)) = kept @ [r]"
    "th_canonical_hash (fst (transform_history_apply env h canonical t)) \<noteq> None"
    and r: "tr_input_hash r = ce_blake3 env (if th_records h = [] then canonical else tr_output (last (th_records h)))"
      "tr_output_hash r = ce_blake3 env (tr_output r)"
    and run: "\<exists>input. text_transform_apply env t input = Inr (tr_output r)"
    by (auto simp: transform_history_apply_def Let_def kept_def split: if_splits sum.splits option.splits)
  have kept: "records_linked kept" "length kept < MAX_TRANSFORM_HISTORY" "set kept \<subseteq> set (th_records h)" "kept \<noteq> [] \<longrightarrow> th_records h \<noteq> [] \<and> last kept = last (th_records h)"
    using assms records_linked_tl [of "th_records h"] set_tl_subset [of "th_records h"]
    by (auto simp: kept_def transform_history_ok_def MAX_TRANSFORM_HISTORY_def last_tl)
  have "tr_input_hash r = tr_output_hash (last kept)" if "kept \<noteq> []"
    using assms kept(4) r(1) that by (auto simp: transform_history_ok_def)
  with kept show ?thesis using assms after r(2) run text_transform_apply_bound
    by (auto simp: transform_history_ok_def records_linked_snoc)
qed

datatype compare_op = ApplyTransform string text_transform | ResetTransforms

fun compare_step :: "compare_env \<Rightarrow> transform_history \<Rightarrow> compare_op \<Rightarrow> transform_history" where
  "compare_step env h (ApplyTransform canonical t) = fst (transform_history_apply env h canonical t)"
| "compare_step env h ResetTransforms = transform_history_reset h"

interpretation transforms: machine "compare_step env" "transform_history_ok env" for env
proof (unfold_locales)
  fix h op assume "transform_history_ok env h"
  then show "transform_history_ok env (compare_step env h op)"
  proof (cases op)
    case ResetTransforms
    then show ?thesis by (simp add: transform_history_reset_def transform_history_ok_def)
  qed (simp add: transform_history_apply_ok)
qed

text \<open>
  A transform that fails on an empty history pins the history to its text: another text is then refused, although nothing
  was recorded.
\<close>

lemma failed_transform_pins_history:
  assumes "text_transform_apply env t a = Inl e" and "ce_blake3 env a \<noteq> ce_blake3 env b"
  shows "th_records (fst (transform_history_apply env transform_history_default a t)) = []"
    and "snd (transform_history_apply env (fst (transform_history_apply env transform_history_default a t)) b u) = Inl CanonicalMismatch"
  using assms by (simp_all add: transform_history_apply_def transform_history_default_def)

end
