(* ===== verification/Workflow_Everyday.thy ===== *)
theory Workflow_Everyday
  imports Clip Content_Hash "HOL-Library.Product_Lexorder" "HOL-Library.Sublist"
begin

text \<open>
  Everyday maintenance of the history, \<open>crates/vbuff-core/src/workflow/everyday.rs\<close>: rule suggestions and clean-link
  memory, copy bursts, session protection, expiry labels, the plain-text clone, size budgets, recent applications and
  stale pins. A \<open>DateTime\<close> and a \<open>chrono::Duration\<close> count nanoseconds; two instants are on one UTC day when their days
  since the epoch are equal. \<open>Url::parse\<close> with its host, the new identifier and BLAKE3 are parameters.
\<close>

definition MAX_BEHAVIOR_APP_BYTES :: nat where "MAX_BEHAVIOR_APP_BYTES = 512"
definition MAX_BURST_INPUTS :: nat where "MAX_BURST_INPUTS = 10000"
definition MAX_OBSERVATION_KEYS :: nat where "MAX_OBSERVATION_KEYS = 1024"
definition MAX_OBSERVATION_URL_BYTES :: nat where "MAX_OBSERVATION_URL_BYTES = 16 * 1024"
definition MAX_SESSION_PROTECTED :: nat where "MAX_SESSION_PROTECTED = 10000"

definition ns_per_day :: int where "ns_per_day = 86400 * 1000000000"

section \<open>Suggestions\<close>

datatype behavior_action = SkipCapture | PlainTextPaste | CleanLink

fun behavior_rank :: "behavior_action \<Rightarrow> nat" where
  "behavior_rank SkipCapture = 0"
| "behavior_rank PlainTextPaste = 1"
| "behavior_rank CleanLink = 2"

lemma behavior_rank_inject: "behavior_rank a = behavior_rank b \<longleftrightarrow> a = b"
  by (cases a; cases b) simp_all

instantiation behavior_action :: linorder
begin

definition less_eq_behavior_action :: "behavior_action \<Rightarrow> behavior_action \<Rightarrow> bool" where
  "less_eq_behavior_action a b \<longleftrightarrow> behavior_rank a \<le> behavior_rank b"

definition less_behavior_action :: "behavior_action \<Rightarrow> behavior_action \<Rightarrow> bool" where
  "less_behavior_action a b \<longleftrightarrow> behavior_rank a < behavior_rank b"

instance
  by standard (auto simp: less_eq_behavior_action_def less_behavior_action_def behavior_rank_inject)

end

text \<open>The counters that both suggestion engines keep, for keys of any ordered type.\<close>

record 'k suggestions =
  sg_threshold :: u16
  sg_counts :: "('k, u16) btree"
  sg_offered :: "'k set"
  sg_dismissed :: "'k set"

definition suggestions_new :: "u16 \<Rightarrow> 'k suggestions" where
  "suggestions_new threshold = \<lparr>sg_threshold = max threshold 2, sg_counts = [], sg_offered = {}, sg_dismissed = {}\<rparr>"

definition suggest_observe :: "'k::linorder suggestions \<Rightarrow> 'k \<Rightarrow> 'k suggestions \<times> ('k \<times> u16) option" where
  "suggest_observe s key =
     (if \<not> bt_contains (sg_counts s) key \<and> length (sg_counts s) \<ge> MAX_OBSERVATION_KEYS then (s, None)
      else let count = saturating_add (case map_of (sg_counts s) key of None \<Rightarrow> 0 | Some n \<Rightarrow> n) 1;
               s' = s\<lparr>sg_counts := bt_insert key count (sg_counts s)\<rparr> in
        if count < sg_threshold s \<or> key \<in> sg_offered s \<or> key \<in> sg_dismissed s then (s', None)
        else (s'\<lparr>sg_offered := insert key (sg_offered s)\<rparr>, Some (key, count)))"

definition suggest_dismiss :: "'k suggestions \<Rightarrow> 'k \<Rightarrow> 'k suggestions \<times> bool" where
  "suggest_dismiss s key = (if key \<notin> sg_offered s then (s, False)
     else (s\<lparr>sg_offered := sg_offered s - {key}, sg_dismissed := insert key (sg_dismissed s)\<rparr>, key \<notin> sg_dismissed s))"

definition valid_app :: "string \<Rightarrow> bool" where
  "valid_app v \<longleftrightarrow> trim v \<noteq> [] \<and> length v \<le> MAX_BEHAVIOR_APP_BYTES \<and> \<not> has_control v"

type_synonym rule_key = "string \<times> behavior_action"

definition rule_engine_observe :: "rule_key suggestions \<Rightarrow> string \<Rightarrow> behavior_action \<Rightarrow> rule_key suggestions \<times> (rule_key \<times> u16) option" where
  "rule_engine_observe s app action = (if \<not> valid_app app then (s, None) else suggest_observe s (app, action))"

definition rule_engine_dismiss :: "rule_key suggestions \<Rightarrow> string \<Rightarrow> behavior_action \<Rightarrow> rule_key suggestions \<times> bool" where
  "rule_engine_dismiss s app action = (if \<not> valid_app app then (s, False) else suggest_dismiss s (app, action))"

definition link_memory_observe ::
  "(string \<Rightarrow> string option) \<Rightarrow> string suggestions \<Rightarrow> string \<Rightarrow> string \<Rightarrow> string suggestions \<times> (string \<times> u16) option" where
  "link_memory_observe url_host s original cleaned =
     (if original = cleaned \<or> length original > MAX_OBSERVATION_URL_BYTES \<or> length cleaned > MAX_OBSERVATION_URL_BYTES then (s, None)
      else (case url_host original of None \<Rightarrow> (s, None) | Some host \<Rightarrow> suggest_observe s (to_ascii_lowercase host)))"

definition link_memory_dismiss :: "string suggestions \<Rightarrow> string \<Rightarrow> string suggestions \<times> bool" where
  "link_memory_dismiss s domain = suggest_dismiss s domain"

datatype 'k suggestion_op = ObserveKey 'k | DismissKey 'k

definition suggestion_step :: "'k::linorder suggestions \<Rightarrow> 'k suggestion_op \<Rightarrow> 'k suggestions" where
  "suggestion_step s op = (case op of ObserveKey k \<Rightarrow> fst (suggest_observe s k) | DismissKey k \<Rightarrow> fst (suggest_dismiss s k))"

definition known_key :: "'k \<Rightarrow> 'k suggestions \<Rightarrow> bool" where
  "known_key k s \<longleftrightarrow> k \<in> sg_offered s \<or> k \<in> sg_dismissed s"

lemma known_step: "known_key k s \<Longrightarrow> known_key k (suggestion_step s op)"
  by (cases op) (auto simp: known_key_def suggestion_step_def suggest_observe_def suggest_dismiss_def Let_def)

text \<open>Bounded counters, sound thresholds, and no key both offered and dismissed.\<close>

definition suggestions_ok :: "'k::linorder suggestions \<Rightarrow> bool" where
  "suggestions_ok s \<longleftrightarrow> bt_ok (sg_counts s) \<and> length (sg_counts s) \<le> MAX_OBSERVATION_KEYS \<and> 2 \<le> sg_threshold s \<and>
     sg_offered s \<inter> sg_dismissed s = {} \<and>
     (\<forall>k \<in> sg_offered s \<union> sg_dismissed s. \<exists>n. map_of (sg_counts s) k = Some n \<and> sg_threshold s \<le> n)"

lemma suggest_observe_ok:
  assumes "suggestions_ok s"
  shows "suggestions_ok (fst (suggest_observe s k))"
proof (cases "\<not> bt_contains (sg_counts s) k \<and> length (sg_counts s) \<ge> MAX_OBSERVATION_KEYS")
  case True
  with assms show ?thesis by (simp add: suggest_observe_def)
next
  case False
  define count where "count = saturating_add (case map_of (sg_counts s) k of None \<Rightarrow> 0 | Some n \<Rightarrow> n) (1 :: u16)"
  have grows: "n \<le> count" if "map_of (sg_counts s) k = Some n" for n
    using that by (simp add: count_def le_saturating_add)
  have len: "length (bt_insert k count (sg_counts s)) \<le> MAX_OBSERVATION_KEYS"
    using False assms by (auto simp: length_bt_insert suggestions_ok_def)
  have keep: "\<exists>n. map_of (bt_insert k count (sg_counts s)) j = Some n \<and> sg_threshold s \<le> n" if j: "j \<in> sg_offered s \<union> sg_dismissed s" for j
  proof -
    obtain n where "map_of (sg_counts s) j = Some n" "sg_threshold s \<le> n" using assms j by (auto simp: suggestions_ok_def)
    then show ?thesis using grows order_trans by (cases "j = k") auto
  qed
  have obs: "fst (suggest_observe s k) = (if count < sg_threshold s \<or> k \<in> sg_offered s \<or> k \<in> sg_dismissed s
      then s\<lparr>sg_counts := bt_insert k count (sg_counts s)\<rparr>
      else s\<lparr>sg_counts := bt_insert k count (sg_counts s), sg_offered := insert k (sg_offered s)\<rparr>)"
    using False by (auto simp: suggest_observe_def Let_def count_def)
  show ?thesis
  proof (cases "count < sg_threshold s \<or> k \<in> sg_offered s \<or> k \<in> sg_dismissed s")
    case True
    with obs assms len keep show ?thesis by (simp add: suggestions_ok_def)
  next
    case new: False
    then have "fst (suggest_observe s k) = s\<lparr>sg_counts := bt_insert k count (sg_counts s), sg_offered := insert k (sg_offered s)\<rparr>"
      using obs by simp
    with new assms len keep show ?thesis by (auto simp: suggestions_ok_def not_less)
  qed
qed

lemma suggest_dismiss_ok: "suggestions_ok s \<Longrightarrow> suggestions_ok (fst (suggest_dismiss s k))"
  by (auto simp: suggestions_ok_def suggest_dismiss_def)

interpretation suggestion_engine: machine suggestion_step suggestions_ok
  by unfold_locales (auto simp: suggestion_step_def suggest_observe_ok suggest_dismiss_ok split: suggestion_op.split)

lemma known_run: "known_key k s \<Longrightarrow> known_key k (run suggestion_step s ops)"
  by (induction ops arbitrary: s) (simp_all add: known_step)

text \<open>
  A user is asked once: an application or domain is suggested only after at least two observations and the threshold,
  and whatever happens afterwards, dismissal or further use, the same suggestion is never made again.
\<close>

lemma suggestion_made_once:
  assumes "suggest_observe (run suggestion_step (suggestions_new t) ops) k = (s, Some (k', n))"
  shows "k' = k \<and> t \<le> n \<and> 2 \<le> n \<and> snd (suggest_observe (run suggestion_step s later) k) = None"
proof -
  let ?s = "run suggestion_step (suggestions_new t) ops"
  have threshold: "sg_threshold (run suggestion_step r xs) = sg_threshold r" for r :: "'a suggestions" and xs
    by (induction xs arbitrary: r) (auto simp: suggestion_step_def suggest_observe_def suggest_dismiss_def Let_def split: suggestion_op.split)
  from assms have out: "k' = k" "sg_threshold ?s \<le> n" "known_key k s"
    by (auto simp: suggest_observe_def Let_def known_key_def not_less split: if_splits)
  have "max t 2 \<le> n" using out(2) by (simp add: threshold suggestions_new_def)
  moreover have "snd (suggest_observe (run suggestion_step s later) k) = None"
    using known_run [OF out(3), of later] by (auto simp: known_key_def suggest_observe_def Let_def)
  ultimately show ?thesis using out(1) by simp
qed

lemma suggestion_made_once_witness:
  "snd (suggest_observe (run suggestion_step (fst (suggest_observe (run suggestion_step (suggestions_new 2) [ObserveKey ''a'']) ''a''))
     [DismissKey ''a'', ObserveKey ''a'']) ''a'') = None"
proof -
  have obs: "suggest_observe (run suggestion_step (suggestions_new 2) [ObserveKey ''a'']) ''a'' =
      (\<lparr>sg_threshold = 2, sg_counts = [(''a'', 2)], sg_offered = {''a''}, sg_dismissed = {}\<rparr>, Some (''a'', 2))"
    by (simp add: suggestions_new_def suggestion_step_def suggest_observe_def Let_def saturating_add_def checked_add_def MAX_OBSERVATION_KEYS_def)
  from suggestion_made_once [OF obs, of "[DismissKey ''a'', ObserveKey ''a'']"] show ?thesis unfolding obs by simp
qed

section \<open>Copy bursts\<close>

record copy_burst =
  bu_clip_ids :: "clip_id list"
  bu_source_app :: "string option"
  bu_started_at :: utc
  bu_ended_at :: utc

definition push_burst :: "copy_burst list \<Rightarrow> clip list \<Rightarrow> copy_burst list" where
  "push_burst out cs = (if length cs < 2 then out
     else out @ [\<lparr>bu_clip_ids = map clip_id cs, bu_source_app = cm_source_app (clip_meta (hd cs)),
       bu_started_at = cm_created_at (clip_meta (hd cs)), bu_ended_at = cm_created_at (clip_meta (last cs))\<rparr>])"

definition continues_burst :: "int \<Rightarrow> clip list \<Rightarrow> clip \<Rightarrow> bool" where
  "continues_burst max_gap current c \<longleftrightarrow> (let previous = clip_meta (last current) in
     cm_source_app (clip_meta c) \<noteq> None \<and> cm_source_app (clip_meta c) = cm_source_app previous \<and>
     cm_created_at (clip_meta c) - cm_created_at previous \<le> max_gap \<and>
     clip_content_hash c \<notin> set (map clip_content_hash current))"

fun burst_loop :: "int \<Rightarrow> copy_burst list \<Rightarrow> clip list \<Rightarrow> clip list \<Rightarrow> copy_burst list" where
  "burst_loop max_gap bursts current [] = push_burst bursts current"
| "burst_loop max_gap bursts current (c # cs) =
     (if continues_burst max_gap current c then burst_loop max_gap bursts (current @ [c]) cs
      else burst_loop max_gap (push_burst bursts current) [c] cs)"

text \<open>\<open>from_std\<close> fails on a gap that \<open>chrono::Duration\<close> cannot hold, which then is its maximum.\<close>

definition chrono_duration_max :: int where "chrono_duration_max = (2 ^ 63 - 1) * 1000000"

definition std_to_chrono :: "duration \<Rightarrow> int" where
  "std_to_chrono d = min (int d) chrono_duration_max"

definition group_copy_bursts :: "clip list \<Rightarrow> duration \<Rightarrow> copy_burst list" where
  "group_copy_bursts clips maximum_gap =
     (if length clips < 2 \<or> length clips > MAX_BURST_INPUTS \<or> maximum_gap = 0 then []
      else case sort_key (\<lambda>c. cm_created_at (clip_meta c)) clips of [] \<Rightarrow> []
        | c # cs \<Rightarrow> burst_loop (std_to_chrono maximum_gap) [] [c] cs)"

text \<open>Bursts take clips in time order, each clip at most once, and hold at least two of them.\<close>

lemma push_burst_ids: "subseq (concat (map bu_clip_ids (push_burst bs cs))) (concat (map bu_clip_ids bs) @ map clip_id cs)"
  by (simp add: push_burst_def subseq_rev_drop_many)

lemma burst_loop_ids: "subseq (concat (map bu_clip_ids (burst_loop g bs current cs))) (concat (map bu_clip_ids bs) @ map clip_id (current @ cs))"
proof (induction g bs current cs rule: burst_loop.induct)
  case (1 g bs current)
  show ?case using push_burst_ids [of bs current] by simp
next
  case (2 g bs current c cs)
  show ?case
  proof (cases "continues_burst g current c")
    case True
    with 2(1) show ?thesis by simp
  next
    case False
    have "subseq (concat (map bu_clip_ids (push_burst bs current)) @ map clip_id ([c] @ cs)) ((concat (map bu_clip_ids bs) @ map clip_id current) @ map clip_id (c # cs))"
      using list_emb_append_mono [OF push_burst_ids [of bs current] subseq_order.order_refl [of "map clip_id ([c] @ cs)"]] by simp
    from subseq_order.order_trans [OF 2(2) [OF False] this] False show ?thesis by (simp only: burst_loop.simps if_False append_assoc map_append)
  qed
qed

lemma push_burst_sizes: "\<forall>b \<in> set bs. 2 \<le> length (bu_clip_ids b) \<Longrightarrow> \<forall>b \<in> set (push_burst bs cs). 2 \<le> length (bu_clip_ids b)"
  by (simp add: push_burst_def)

lemma burst_loop_sizes: "\<forall>b \<in> set bs. 2 \<le> length (bu_clip_ids b) \<Longrightarrow> \<forall>b \<in> set (burst_loop g bs current cs). 2 \<le> length (bu_clip_ids b)"
  by (induction g bs current cs rule: burst_loop.induct) (simp_all add: push_burst_sizes)

lemma copy_bursts_disjoint:
  "subseq (concat (map bu_clip_ids (group_copy_bursts clips gap))) (map clip_id (sort_key (\<lambda>c. cm_created_at (clip_meta c)) clips)) \<and>
   (\<forall>b \<in> set (group_copy_bursts clips gap). 2 \<le> length (bu_clip_ids b))"
proof (cases "sort_key (\<lambda>c. cm_created_at (clip_meta c)) clips")
  case (Cons c cs)
  then show ?thesis
    using burst_loop_ids [of "std_to_chrono gap" "[]" "[c]" cs] burst_loop_sizes [of "[]" "std_to_chrono gap" "[c]" cs]
    by (simp add: group_copy_bursts_def)
qed (simp add: group_copy_bursts_def)

section \<open>Protection, labels, clones, budgets\<close>

definition protection_set :: "clip_id set \<Rightarrow> clip_id \<Rightarrow> bool \<Rightarrow> clip_id set" where
  "protection_set ids cid on = (if on then (if card ids < MAX_SESSION_PROTECTED \<or> cid \<in> ids then insert cid ids else ids) else ids - {cid})"

definition same_utc_day :: "utc \<Rightarrow> utc \<Rightarrow> bool" where
  "same_utc_day a b \<longleftrightarrow> a div ns_per_day = b div ns_per_day"

text \<open>\<open>num_days\<close> of a span rounds towards zero.\<close>

definition num_days :: "int \<Rightarrow> int" where
  "num_days d = (if 0 \<le> d then d div ns_per_day else - ((- d) div ns_per_day))"

definition expiry_label :: "clip \<Rightarrow> utc \<Rightarrow> nat option \<Rightarrow> string" where
  "expiry_label c now retention_days = (case cm_expires_at (clip_meta c) of
       Some expires_at \<Rightarrow>
         if expires_at \<le> now then ''expired''
         else if same_utc_day expires_at now then ''expires tonight''
         else ''expires in '' @ decimal (nat (max 1 (num_days (expires_at - now) + 1))) @ ''d''
     | None \<Rightarrow> (case retention_days of None \<Rightarrow> ''permanent'' | Some days \<Rightarrow> ''kept '' @ decimal days @ ''d''))"

definition plain_source :: "clip \<Rightarrow> flavor option" where
  "plain_source c = (case find is_plain_text (clip_flavors c) of Some f \<Rightarrow> Some f | None \<Rightarrow> find is_text (clip_flavors c))"

definition plain_text_clone :: "(bytes \<Rightarrow> bytes) \<Rightarrow> clip_id \<Rightarrow> clip \<Rightarrow> utc \<Rightarrow> clip option" where
  "plain_text_clone blake3 fresh source now = Option.bind (plain_source source) (\<lambda>f. Option.bind (as_text f) (\<lambda>text_value.
     let flavors = [flavor_derived ''text/plain;charset=utf-8'' text_value];
         kind = (if cm_kind (clip_meta source) \<in> {UrlKind, CodeKind, ColorKind} then cm_kind (clip_meta source) else TextKind) in
     Some \<lparr>clip_id = fresh, clip_flavors = flavors, clip_content_hash = content_hash_from_flavors blake3 flavors,
       clip_meta = (clip_meta source)\<lparr>cm_created_at := now, cm_byte_size := of_nat (length text_value), cm_kind := kind,
         cm_generation := None, cm_lineage := \<lparr>cl_origin_device = None, cl_write_nonce = None\<rparr>\<rparr>,
       clip_pinned = False, clip_favorite = False\<rparr>))"

datatype size_budget_decision = KeepFull | PreviewOnly nat | RejectPayload
datatype size_budget_error = InvalidBudget

definition size_budget :: "nat \<Rightarrow> nat \<Rightarrow> nat \<Rightarrow> nat \<Rightarrow> size_budget_error + size_budget_decision" where
  "size_budget payload soft hard preview =
     (if preview = 0 \<or> preview > soft \<or> soft > hard then Inl InvalidBudget
      else Inr (if payload > hard then RejectPayload else if payload > soft then PreviewOnly preview else KeepFull))"

text \<open>\<open>None\<close> is the least \<open>Option\<close>.\<close>

definition app_key :: "clip \<Rightarrow> int \<times> nat \<times> string" where
  "app_key c = (- cm_created_at (clip_meta c), (case cm_source_app (clip_meta c) of None \<Rightarrow> (0, []) | Some a \<Rightarrow> (1, a)))"

fun first_seen :: "string set \<Rightarrow> string list \<Rightarrow> string list" where
  "first_seen seen [] = []"
| "first_seen seen (a # as) = (if \<not> valid_app a \<or> a \<in> seen then first_seen seen as else a # first_seen (insert a seen) as)"

definition recent_source_apps :: "clip list \<Rightarrow> nat \<Rightarrow> string list" where
  "recent_source_apps clips limit = take (min limit 16)
     (first_seen {} (List.map_filter (\<lambda>c. cm_source_app (clip_meta c)) (sort_key app_key (take MAX_BURST_INPUTS clips))))"

record pin_review_candidate =
  pc_clip_id :: clip_id
  pc_age_days :: nat
  pc_byte_size :: u64

definition stale_pin_candidates :: "clip list \<Rightarrow> utc \<Rightarrow> duration \<Rightarrow> nat \<Rightarrow> pin_review_candidate list" where
  "stale_pin_candidates clips now minimum_age limit =
     map (\<lambda>c. \<lparr>pc_clip_id = clip_id c, pc_age_days = nat (max 0 (num_days (now - cm_created_at (clip_meta c)))),
         pc_byte_size = cm_byte_size (clip_meta c)\<rparr>)
       (take (min limit 100) (filter (\<lambda>c. clip_pinned c \<and> now - cm_created_at (clip_meta c) \<ge> std_to_chrono minimum_age) clips))"

text \<open>A clone keeps what protects a clip: its sensitivity, its expiry and its consent; it is one derived text flavor.\<close>

lemma clone_keeps_protection:
  "plain_text_clone blake3 fresh c now = Some d \<Longrightarrow>
     cm_sensitive (clip_meta d) = cm_sensitive (clip_meta c) \<and> cm_expires_at (clip_meta d) = cm_expires_at (clip_meta c) \<and>
     cm_ai_allowed (clip_meta d) = cm_ai_allowed (clip_meta c) \<and> cm_sync_eligible (clip_meta d) = cm_sync_eligible (clip_meta c) \<and>
     length (clip_flavors d) = 1 \<and> \<not> clip_pinned d"
  by (auto simp: plain_text_clone_def Let_def split: bind_splits)

lemma recent_apps_distinct: "distinct (recent_source_apps clips limit) \<and> length (recent_source_apps clips limit) \<le> 16"
proof -
  have "distinct (first_seen seen as) \<and> set (first_seen seen as) \<inter> seen = {}" for seen as
    by (induction seen as rule: first_seen.induct) auto
  then show ?thesis by (simp add: recent_source_apps_def)
qed

end
