(* ===== verification/Workflow_Forms.thy ===== *)
theory Workflow_Forms
  imports Prelude "HOL-Library.Sublist"
begin

text \<open>
  Snippet forms with conditional and computed fields, \<open>crates/vbuff-core/src/workflow/snippets.rs\<close>. The Unicode case
  tables and the calendar of another crate are the record \<open>form_env\<close>; a date is its number of days.
\<close>

definition MAX_FIELDS :: nat where "MAX_FIELDS = 64"
definition FORM_MAX_ID_BYTES :: nat where "FORM_MAX_ID_BYTES = 64"
definition FORM_MAX_LABEL_BYTES :: nat where "FORM_MAX_LABEL_BYTES = 128"
definition FORM_MAX_VALUE_BYTES :: nat where "FORM_MAX_VALUE_BYTES = 1024 * 1024"
definition MAX_CHOICES :: nat where "MAX_CHOICES = 64"

datatype field_kind = TextField | CheckboxField | ChoiceField
datatype field_value = FieldText string | FieldBool bool | FieldChoice string | FieldNumber int
datatype value_predicate = IsTrue | IsFalse | NonEmpty | EqualsText string
datatype computed_field = Uppercase | Lowercase | Slugify | CharacterCount | DateOffsetDays int

record visibility_rule =
  vr_source_field :: string
  vr_predicate :: value_predicate

record field_definition =
  fd_id :: string
  fd_label :: string
  fd_kind :: field_kind
  fd_choices :: "string list"
  fd_default :: field_value
  fd_visibility :: "visibility_rule option"
  fd_computed_from :: "(string \<times> computed_field) option"

datatype snippet_error = InvalidFieldCount | InvalidIdentity | TypeMismatch | InvalidDependency | InvalidChoice | ValueTooLarge | InvalidDate

text \<open>\<open>fe_char_lower\<close> answers the characters of \<open>char::to_lowercase\<close>, each as its bytes.\<close>

record form_env =
  fe_upper :: "string \<Rightarrow> string"
  fe_lower :: "string \<Rightarrow> string"
  fe_char_lower :: "string \<Rightarrow> string list"
  fe_alphanumeric :: "string \<Rightarrow> bool"
  fe_parse_date :: "string \<Rightarrow> int option"
  fe_add_days :: "int \<Rightarrow> int \<Rightarrow> int option"
  fe_format_date :: "int \<Rightarrow> string"

record form_evaluation =
  ev_visible_fields :: "string list"
  ev_values :: "(string, field_value) btree"

fun value_text :: "field_value \<Rightarrow> string option" where
  "value_text (FieldText v) = Some v"
| "value_text (FieldChoice v) = Some v"
| "value_text (FieldBool _) = None"
| "value_text (FieldNumber _) = None"

definition value_predicate_matches :: "value_predicate \<Rightarrow> field_value \<Rightarrow> bool" where
  "value_predicate_matches p v = (case p of IsTrue \<Rightarrow> v = FieldBool True | IsFalse \<Rightarrow> v = FieldBool False
     | NonEmpty \<Rightarrow> (case value_text v of None \<Rightarrow> False | Some t \<Rightarrow> trim t \<noteq> [])
     | EqualsText expected \<Rightarrow> value_text v = Some expected)"

definition validate_identity :: "string \<Rightarrow> nat \<Rightarrow> snippet_error + unit" where
  "validate_identity v max_bytes = (if trim v = [] \<or> length v > max_bytes \<or> has_control v then Inl InvalidIdentity else Inr ())"

definition type_matches :: "field_kind \<Rightarrow> field_value \<Rightarrow> bool" where
  "type_matches kind v = (case (kind, v) of (TextField, FieldText _) \<Rightarrow> True | (TextField, FieldNumber _) \<Rightarrow> True
     | (CheckboxField, FieldBool _) \<Rightarrow> True | (ChoiceField, FieldChoice _) \<Rightarrow> True | _ \<Rightarrow> False)"

definition validate_value :: "field_definition \<Rightarrow> field_value \<Rightarrow> snippet_error + unit" where
  "validate_value f v =
     (if \<not> type_matches (fd_kind f) v then Inl TypeMismatch
      else if (case value_text v of None \<Rightarrow> False | Some t \<Rightarrow> length t > FORM_MAX_VALUE_BYTES) then Inl ValueTooLarge
      else if (case v of FieldChoice c \<Rightarrow> c \<notin> set (fd_choices f) | _ \<Rightarrow> False) then Inl InvalidChoice
      else Inr ())"

definition validate_definition :: "field_definition \<Rightarrow> snippet_error + unit" where
  "validate_definition f =
     (if length (fd_choices f) > MAX_CHOICES \<or> list_ex (\<lambda>c. c = [] \<or> length c > FORM_MAX_LABEL_BYTES) (fd_choices f) then Inl InvalidChoice
      else if fd_kind f = TextField \<and> fd_choices f \<noteq> [] then Inl InvalidChoice
      else if fd_kind f = CheckboxField \<and> fd_choices f \<noteq> [] then Inl InvalidChoice
      else if fd_kind f = ChoiceField \<and> fd_choices f = [] then Inl InvalidChoice
      else validate_value f (fd_default f))"

fun slugify_from :: "(string \<Rightarrow> bool) \<Rightarrow> string list \<Rightarrow> string \<Rightarrow> bool \<Rightarrow> string" where
  "slugify_from alnum [] slug separator = slug"
| "slugify_from alnum (c # cs) slug separator =
     (if alnum c then slugify_from alnum cs (slug @ (if separator \<and> slug \<noteq> [] then ''-'' else []) @ c) False
      else slugify_from alnum cs slug True)"

definition compute_field :: "form_env \<Rightarrow> field_value \<Rightarrow> computed_field \<Rightarrow> snippet_error + field_value" where
  "compute_field env source transform = (case value_text source of None \<Rightarrow> Inl TypeMismatch | Some text_value \<Rightarrow>
     try_then (case transform of
         Uppercase \<Rightarrow> Inr (FieldText (fe_upper env text_value))
       | Lowercase \<Rightarrow> Inr (FieldText (fe_lower env text_value))
       | Slugify \<Rightarrow> Inr (FieldText (slugify_from (fe_alphanumeric env) (concat (map (fe_char_lower env) (utf8_split text_value))) [] False))
       | CharacterCount \<Rightarrow> Inr (FieldNumber (int (length (chars text_value))))
       | DateOffsetDays days \<Rightarrow> (case fe_parse_date env text_value of None \<Rightarrow> Inl InvalidDate
           | Some date \<Rightarrow> (case fe_add_days env date days of None \<Rightarrow> Inl InvalidDate
               | Some shifted \<Rightarrow> Inr (FieldText (fe_format_date env shifted))))) (\<lambda>v.
     if (case value_text v of None \<Rightarrow> False | Some t \<Rightarrow> length t > FORM_MAX_VALUE_BYTES) then Inl ValueTooLarge else Inr v))"

section \<open>Forms\<close>

fun check_fields :: "string set \<Rightarrow> field_definition list \<Rightarrow> snippet_error + unit" where
  "check_fields prior [] = Inr ()"
| "check_fields prior (f # fs) =
     try_then (validate_identity (fd_id f) FORM_MAX_ID_BYTES) (\<lambda>_.
     try_then (validate_identity (fd_label f) FORM_MAX_LABEL_BYTES) (\<lambda>_.
     if fd_id f \<in> prior then Inl InvalidIdentity
     else try_then (validate_definition f) (\<lambda>_.
       if (case fd_visibility f of None \<Rightarrow> False | Some r \<Rightarrow> vr_source_field r \<notin> prior)
          \<or> (case fd_computed_from f of None \<Rightarrow> False | Some (source, _) \<Rightarrow> source \<notin> prior)
       then Inl InvalidDependency
       else check_fields (insert (fd_id f) prior) fs)))"

definition form_new :: "field_definition list \<Rightarrow> snippet_error + field_definition list" where
  "form_new fs = (if fs = [] \<or> length fs > MAX_FIELDS then Inl InvalidFieldCount
     else try_then (check_fields {} fs) (\<lambda>_. Inr fs))"

definition field_result ::
  "form_env \<Rightarrow> (string, field_value) btree \<Rightarrow> (string, field_value) btree \<Rightarrow> field_definition \<Rightarrow> snippet_error + field_value" where
  "field_result env overrides values f = (case fd_computed_from f of
       Some (source, transform) \<Rightarrow> (case map_of values source of None \<Rightarrow> Inl InvalidDependency | Some v \<Rightarrow> compute_field env v transform)
     | None \<Rightarrow> Inr (case map_of overrides (fd_id f) of Some v \<Rightarrow> v | None \<Rightarrow> fd_default f))"

definition field_visible :: "(string, field_value) btree \<Rightarrow> field_definition \<Rightarrow> bool" where
  "field_visible values f = (case fd_visibility f of None \<Rightarrow> True
     | Some r \<Rightarrow> (case map_of values (vr_source_field r) of None \<Rightarrow> False | Some v \<Rightarrow> value_predicate_matches (vr_predicate r) v))"

fun evaluate_fields ::
  "form_env \<Rightarrow> (string, field_value) btree \<Rightarrow> field_definition list \<Rightarrow> form_evaluation \<Rightarrow> snippet_error + form_evaluation" where
  "evaluate_fields env overrides [] e = Inr e"
| "evaluate_fields env overrides (f # fs) e =
     try_then (field_result env overrides (ev_values e) f) (\<lambda>v.
     try_then (validate_value f v) (\<lambda>_.
     evaluate_fields env overrides fs
       \<lparr>ev_visible_fields = ev_visible_fields e @ (if field_visible (ev_values e) f then [fd_id f] else []),
        ev_values = bt_insert (fd_id f) v (ev_values e)\<rparr>))"

definition form_evaluate :: "form_env \<Rightarrow> field_definition list \<Rightarrow> (string, field_value) btree \<Rightarrow> snippet_error + form_evaluation" where
  "form_evaluate env fs overrides =
     (if \<exists>k \<in> fst ` set overrides. k \<notin> fd_id ` set fs then Inl InvalidIdentity
      else evaluate_fields env overrides fs \<lparr>ev_visible_fields = [], ev_values = []\<rparr>)"

section \<open>Accepted forms evaluate without a missing dependency\<close>

lemma check_fields_distinct: "check_fields prior fs = Inr u \<Longrightarrow> distinct (map fd_id fs) \<and> fd_id ` set fs \<inter> prior = {}"
  by (induction fs arbitrary: prior) (fastforce simp: try_then_eq_Inr split: if_splits)+

lemma compute_no_dependency: "compute_field env v t \<noteq> Inl InvalidDependency"
  by (auto simp: compute_field_def try_then_eq_Inl split: option.splits computed_field.splits if_splits)

lemma validate_no_dependency: "validate_value f v \<noteq> Inl InvalidDependency"
  by (simp add: validate_value_def)

lemma evaluate_fields_result:
  assumes "check_fields prior fs = Inr u" and "prior = fst ` set (ev_values e)"
  shows "evaluate_fields env overrides fs e \<noteq> Inl InvalidDependency"
    and "evaluate_fields env overrides fs e = Inr e' \<Longrightarrow>
      fst ` set (ev_values e') = prior \<union> fd_id ` set fs \<and> (\<forall>k. k \<notin> fd_id ` set fs \<longrightarrow> map_of (ev_values e') k = map_of (ev_values e) k) \<and>
      (\<forall>f \<in> set fs. \<exists>v. map_of (ev_values e') (fd_id f) = Some v \<and> validate_value f v = Inr ()) \<and>
      (\<exists>vs. ev_visible_fields e' = ev_visible_fields e @ vs \<and> subseq vs (map fd_id fs))"
  using assms
proof (induction fs arbitrary: prior e)
  case Nil
  { case 1 then show ?case by simp }
  { case 2 then show ?case by auto }
next
  case (Cons f fs)
  have dep: "case fd_computed_from f of None \<Rightarrow> True | Some (source, _) \<Rightarrow> source \<in> prior" and rest: "check_fields (insert (fd_id f) prior) fs = Inr u"
    if "check_fields prior (f # fs) = Inr u" for prior
    using that by (auto simp: try_then_eq_Inr split: if_splits option.splits)
  define nxt where "nxt v e = \<lparr>ev_visible_fields = ev_visible_fields e @ (if field_visible (ev_values e) f then [fd_id f] else []),
        ev_values = bt_insert (fd_id f) v (ev_values e)\<rparr>" for v and e :: form_evaluation
  have keys: "insert (fd_id f) prior = fst ` set (ev_values (nxt v e))" if "prior = fst ` set (ev_values e)" for v e prior
    using that by (simp add: nxt_def)
  have step: "evaluate_fields env overrides (f # fs) e = try_then (field_result env overrides (ev_values e) f) (\<lambda>v.
     try_then (validate_value f v) (\<lambda>_. evaluate_fields env overrides fs (nxt v e)))" for e by (simp add: nxt_def)
  { case 1
    have "field_result env overrides (ev_values e) f \<noteq> Inl InvalidDependency"
    proof (cases "fd_computed_from f")
      case (Some p)
      obtain source t where p: "p = (source, t)" by (cases p)
      have "source \<in> fst ` set (ev_values e)" using dep [OF 1(1)] 1(2) Some p by simp
      then obtain v where "map_of (ev_values e) source = Some v" by (metis map_of_eq_None_iff not_None_eq)
      then show ?thesis using Some p compute_no_dependency by (simp add: field_result_def)
    qed (simp add: field_result_def)
    moreover have "evaluate_fields env overrides fs (nxt v e) \<noteq> Inl InvalidDependency" for v
      by (rule Cons.IH(1) [OF rest [OF 1(1)] keys [OF 1(2)]])
    ultimately show ?case unfolding step using validate_no_dependency by (auto simp: try_then_eq_Inl) }
  { case 2
    then obtain v where v: "validate_value f v = Inr ()" and run: "evaluate_fields env overrides fs (nxt v e) = Inr e'"
      unfolding step by (auto simp: try_then_eq_Inr)
    note ih = Cons.IH(2) [OF run rest [OF 2(2)] keys [OF 2(3)]]
    have fresh: "fd_id f \<notin> fd_id ` set fs" using check_fields_distinct [OF 2(2)] by simp
    have kept: "map_of (ev_values e') (fd_id f) = Some v" using ih fresh by (simp add: nxt_def)
    obtain vs where vs: "ev_visible_fields e' = ev_visible_fields (nxt v e) @ vs" "subseq vs (map fd_id fs)" using ih by blast
    have "\<exists>vs. ev_visible_fields e' = ev_visible_fields e @ vs \<and> subseq vs (map fd_id (f # fs))"
      using vs by (auto simp: nxt_def intro: exI [of _ "fd_id f # vs"])
    with ih kept v show ?case by (auto simp: nxt_def) }
qed

text \<open>
  A form that was accepted can be evaluated: no field ever misses the field it is computed from or shown by, because
  dependencies point backwards; a successful evaluation gives every field, and nothing else, a value of the field's type
  within its limits and its choices, and the visible fields keep the order of the form.
\<close>

lemma accepted_form_evaluates:
  assumes "form_new fs = Inr form"
  shows "form_evaluate env form overrides \<noteq> Inl InvalidDependency \<and>
    (\<forall>e. form_evaluate env form overrides = Inr e \<longrightarrow>
       fst ` set (ev_values e) = fd_id ` set fs \<and> subseq (ev_visible_fields e) (map fd_id fs) \<and>
       (\<forall>f \<in> set fs. \<exists>v. map_of (ev_values e) (fd_id f) = Some v \<and> type_matches (fd_kind f) v \<and> validate_value f v = Inr ()))"
proof -
  from assms have form: "form = fs" and check: "check_fields {} fs = Inr ()"
    by (auto simp: form_new_def try_then_eq_Inr split: if_splits)
  let ?e = "\<lparr>ev_visible_fields = [], ev_values = []\<rparr> :: form_evaluation"
  have typed: "type_matches (fd_kind f) v" if "validate_value f v = Inr ()" for f v
    using that by (simp add: validate_value_def split: if_splits)
  have "evaluate_fields env overrides fs ?e \<noteq> Inl InvalidDependency" by (rule evaluate_fields_result(1) [OF check]) simp
  moreover have "fst ` set (ev_values e) = fd_id ` set fs \<and> subseq (ev_visible_fields e) (map fd_id fs) \<and>
       (\<forall>f \<in> set fs. \<exists>v. map_of (ev_values e) (fd_id f) = Some v \<and> type_matches (fd_kind f) v \<and> validate_value f v = Inr ())"
    if "evaluate_fields env overrides fs ?e = Inr e" for e
    using evaluate_fields_result(2) [OF check _ that] typed by auto
  ultimately show ?thesis unfolding form_evaluate_def form by auto
qed

definition sample_form_env :: form_env where
  "sample_form_env = \<lparr>fe_upper = id, fe_lower = id, fe_char_lower = (\<lambda>c. [c]), fe_alphanumeric = (\<lambda>_. True), fe_parse_date = (\<lambda>_. None),
     fe_add_days = (\<lambda>d n. Some (d + n)), fe_format_date = (\<lambda>_. [])\<rparr>"

lemma accepted_form_evaluates_witness:
  "\<exists>fs. form_new fs = Inr fs \<and> length fs = 2 \<and> form_evaluate sample_form_env fs [] \<noteq> Inl InvalidDependency"
proof -
  let ?f = "\<lparr>fd_id = ''qty'', fd_label = ''Qty'', fd_kind = TextField, fd_choices = [], fd_default = FieldText ''abc'',
     fd_visibility = None, fd_computed_from = None\<rparr>"
  let ?g = "?f\<lparr>fd_id := ''count'', fd_visibility := Some \<lparr>vr_source_field = ''qty'', vr_predicate = NonEmpty\<rparr>,
     fd_computed_from := Some (''qty'', CharacterCount)\<rparr>"
  have ids: "validate_identity ''qty'' 64 = Inr ()" "validate_identity ''count'' 64 = Inr ()" "validate_identity ''Qty'' 128 = Inr ()"
    by (simp_all add: validate_identity_def trim_ascii_word has_control_ascii)
  have form: "form_new [?f, ?g] = Inr [?f, ?g]"
    by (simp add: form_new_def ids FORM_MAX_ID_BYTES_def FORM_MAX_LABEL_BYTES_def MAX_FIELDS_def validate_definition_def validate_value_def
      type_matches_def MAX_CHOICES_def FORM_MAX_VALUE_BYTES_def)
  show ?thesis using accepted_form_evaluates [OF form, of sample_form_env "[]"] form by (intro exI [of _ "[?f, ?g]"]) simp
qed

end
