(* ===== verification/Workflow_Selection.thy ===== *)
theory Workflow_Selection
  imports Clip Reliability Validation
begin

text \<open>
  Range selection, the aggregate preview of a selection and filters from an example,
  \<open>crates/vbuff-core/src/workflow/selection.rs\<close>. \<open>url_host\<close> is the host of a URL of the \<open>url\<close> crate and
  \<open>lower\<close> is \<open>str::to_lowercase\<close>; a set of kinds is a set.
\<close>

definition MAX_SELECTION :: nat where "MAX_SELECTION = 512"
definition MAX_AGGREGATE_PREVIEW_BYTES :: nat where "MAX_AGGREGATE_PREVIEW_BYTES = 64 * 1024"
definition SELECTION_MAX_TAGS :: nat where "SELECTION_MAX_TAGS = 64"
definition SELECTION_MAX_TAG_BYTES :: nat where "SELECTION_MAX_TAG_BYTES = 80"

section \<open>Range selection\<close>

record range_selection =
  rs_anchor :: "nat option"
  rs_selected :: "clip_id list"

definition selection_clear :: "range_selection \<Rightarrow> range_selection" where
  "selection_clear s = \<lparr>rs_anchor = None, rs_selected = []\<rparr>"

definition add_candidate :: "clip_id \<Rightarrow> clip_id list \<Rightarrow> clip_id list" where
  "add_candidate c xs = (if c \<notin> set xs \<and> length xs < MAX_SELECTION then xs @ [c] else xs)"

definition selection_select :: "range_selection \<Rightarrow> clip_id list \<Rightarrow> nat \<Rightarrow> bool \<Rightarrow> bool \<Rightarrow> range_selection \<times> bool" where
  "selection_select s ordered index ranged toggle =
     (if index \<ge> length ordered then (s, False)
      else let cid = ordered ! index in
        if ranged then
          let anchor = (case rs_anchor s of None \<Rightarrow> index | Some a \<Rightarrow> a);
              start = min anchor index; stop = max anchor index;
              base = (if toggle then rs_selected s else [])
          in (s\<lparr>rs_selected := fold add_candidate (take MAX_SELECTION (take (stop - start + 1) (drop start ordered))) base\<rparr>, True)
        else if toggle then
          (\<lparr>rs_anchor = Some index,
            rs_selected = (if cid \<in> set (rs_selected s) then remove1 cid (rs_selected s)
              else if length (rs_selected s) < MAX_SELECTION then rs_selected s @ [cid] else rs_selected s)\<rparr>, True)
        else (\<lparr>rs_anchor = Some index, rs_selected = [cid]\<rparr>, True))"

definition retain_visible :: "range_selection \<Rightarrow> clip_id list \<Rightarrow> range_selection" where
  "retain_visible s ordered =
     \<lparr>rs_anchor = (case rs_anchor s of Some index \<Rightarrow> if index \<ge> length ordered then None else Some index | None \<Rightarrow> None),
      rs_selected = filter (\<lambda>c. c \<in> set ordered) (rs_selected s)\<rparr>"

datatype selection_op = SelectRow "clip_id list" nat bool bool | RetainVisible "clip_id list" | ClearSelection

fun selection_step :: "range_selection \<Rightarrow> selection_op \<Rightarrow> range_selection" where
  "selection_step s (SelectRow ordered index ranged toggle) = fst (selection_select s ordered index ranged toggle)"
| "selection_step s (RetainVisible ordered) = retain_visible s ordered"
| "selection_step s ClearSelection = selection_clear s"

definition selection_ok :: "range_selection \<Rightarrow> bool" where
  "selection_ok s \<longleftrightarrow> distinct (rs_selected s) \<and> length (rs_selected s) \<le> MAX_SELECTION"

lemma add_candidates_ok:
  "distinct base \<and> length base \<le> MAX_SELECTION \<Longrightarrow>
   distinct (fold add_candidate xs base) \<and> length (fold add_candidate xs base) \<le> MAX_SELECTION"
  by (induction xs arbitrary: base) (auto simp: add_candidate_def)

lemma add_candidates_set: "set (fold add_candidate xs base) \<subseteq> set base \<union> set xs"
  by (induction xs arbitrary: base) (fastforce simp: add_candidate_def split: if_splits)+

lemma selection_select_ok: "selection_ok s \<Longrightarrow> selection_ok (fst (selection_select s ordered index ranged toggle))"
  using add_candidates_ok [of "rs_selected s"] add_candidates_ok [of "[]"]
  by (auto simp: selection_select_def selection_ok_def Let_def length_remove1 MAX_SELECTION_def)

interpretation selection: machine selection_step selection_ok
proof (unfold_locales)
  fix s op assume ok: "selection_ok s"
  show "selection_ok (selection_step s op)"
  proof (cases op)
    case (RetainVisible ordered)
    then show ?thesis using ok by (auto simp: selection_ok_def retain_visible_def intro: le_trans [OF length_filter_le])
  qed (use ok in \<open>simp_all add: selection_select_ok selection_clear_def selection_ok_def [of "\<lparr>rs_anchor = None, rs_selected = []\<rparr>"]\<close>)
qed

lemma selection_only_visible:
  "set (rs_selected (fst (selection_select s ordered index ranged toggle))) \<subseteq> set (rs_selected s) \<union> set ordered"
proof (cases "index < length ordered \<and> ranged")
  case True
  have sub: "set (take m (take j (drop i ordered))) \<subseteq> set ordered" for m j i by (meson in_set_takeD in_set_dropD subsetI)
  have "set (fold add_candidate (take m (take j (drop i ordered))) base) \<subseteq> set base \<union> set ordered" for m j i base
    using add_candidates_set [of "take m (take j (drop i ordered))" base] sub [of m j i] by blast
  from this [of _ _ _ "if toggle then rs_selected s else []"] True show ?thesis
    by (fastforce simp: selection_select_def Let_def)
next
  case False
  then show ?thesis using set_remove1_subset [of "ordered ! index" "rs_selected s"] by (auto simp: selection_select_def Let_def)
qed

section \<open>The aggregate of a selection\<close>

record selection_aggregate =
  ag_count :: nat
  ag_byte_size :: u64
  ag_kinds :: "content_kind set"
  ag_text_count :: nat
  ag_sensitive_count :: nat
  ag_merged_preview :: string
  ag_preview_truncated :: bool

text \<open>The bytes of \<open>"\n---\n"\<close>.\<close>

definition aggregate_separator :: string where
  "aggregate_separator = [CHR 0x0A] @ ''---'' @ [CHR 0x0A]"

definition utf8_prefix :: "string \<Rightarrow> nat \<Rightarrow> string" where
  "utf8_prefix v max_bytes = take (floor_boundary v (min max_bytes (length v))) v"

definition preview_add :: "nat \<Rightarrow> string \<Rightarrow> selection_aggregate \<Rightarrow> selection_aggregate" where
  "preview_add limit body a =
     (let preview = ag_merged_preview a; separator = (if preview = [] then [] else aggregate_separator);
          remaining = limit - length preview in
      if length separator + length body \<le> remaining then a\<lparr>ag_merged_preview := preview @ separator @ body\<rparr>
      else a\<lparr>ag_preview_truncated := True,
             ag_merged_preview := (if remaining > length separator
               then preview @ separator @ utf8_prefix body (remaining - length separator) else preview)\<rparr>)"

definition aggregate_clip :: "nat \<Rightarrow> clip \<Rightarrow> selection_aggregate \<Rightarrow> selection_aggregate" where
  "aggregate_clip limit c a =
     (let m = clip_meta c;
          a = a\<lparr>ag_count := ag_count a + 1, ag_byte_size := saturating_add (ag_byte_size a) (cm_byte_size m),
                ag_kinds := insert (cm_kind m) (ag_kinds a),
                ag_sensitive_count := ag_sensitive_count a + (if cm_sensitive m then 1 else 0)\<rparr> in
      if cm_sensitive m then a
      else (case primary_text c of None \<Rightarrow> a
        | Some body \<Rightarrow> preview_add limit body (a\<lparr>ag_text_count := ag_text_count a + 1\<rparr>)))"

definition clips_by_id :: "clip list \<Rightarrow> clip_id \<Rightarrow> clip option" where
  "clips_by_id cs = map_of (rev (map (\<lambda>c. (clip_id c, c)) cs))"

definition aggregate_build :: "clip_id list \<Rightarrow> clip list \<Rightarrow> nat \<Rightarrow> selection_aggregate" where
  "aggregate_build selected cs preview_bytes =
     (let limit = min preview_bytes MAX_AGGREGATE_PREVIEW_BYTES;
          a = fold (\<lambda>cid a. case clips_by_id cs cid of None \<Rightarrow> a | Some c \<Rightarrow> aggregate_clip limit c a) (take MAX_SELECTION selected)
            \<lparr>ag_count = 0, ag_byte_size = 0, ag_kinds = {}, ag_text_count = 0, ag_sensitive_count = 0, ag_merged_preview = [],
             ag_preview_truncated = False\<rparr>
      in if length selected > MAX_SELECTION then a\<lparr>ag_preview_truncated := True\<rparr> else a)"

section \<open>Filters from an example\<close>

record example_filter =
  ef_kind :: content_kind
  ef_source_app :: "string option"
  ef_host :: "string option"
  ef_tags :: "string set"

definition observed_host :: "(string \<Rightarrow> string option) \<Rightarrow> (string \<Rightarrow> string) \<Rightarrow> clip \<Rightarrow> string option" where
  "observed_host url_host lower c = Option.bind (primary_text c) (\<lambda>t. map_option lower (url_host (trim t)))"

definition filter_matches ::
  "(string \<Rightarrow> string option) \<Rightarrow> (string \<Rightarrow> string) \<Rightarrow> example_filter \<Rightarrow> clip \<Rightarrow> string set \<Rightarrow> bool" where
  "filter_matches url_host lower f c clip_tags \<longleftrightarrow>
     cm_kind (clip_meta c) = ef_kind f \<and> \<not> cm_sensitive (clip_meta c)
     \<and> (ef_source_app f \<noteq> None \<longrightarrow> cm_source_app (clip_meta c) = ef_source_app f)
     \<and> (ef_host f \<noteq> None \<longrightarrow> observed_host url_host lower c = ef_host f)
     \<and> ef_tags f \<subseteq> clip_tags"

definition filter_from_example ::
  "(string \<Rightarrow> string option) \<Rightarrow> (string \<Rightarrow> string) \<Rightarrow> clip \<Rightarrow> string list \<Rightarrow> example_filter option" where
  "filter_from_example url_host lower c tags =
     (if cm_sensitive (clip_meta c) \<or> length tags > SELECTION_MAX_TAGS
         \<or> list_ex (\<lambda>t. \<not> is_valid_trimmed_label t SELECTION_MAX_TAG_BYTES) tags then None
      else Some \<lparr>ef_kind = cm_kind (clip_meta c), ef_source_app = cm_source_app (clip_meta c),
                 ef_host = observed_host url_host lower c, ef_tags = set tags\<rparr>)"

lemma example_matches_itself: "filter_from_example url_host lower c tags = Some f \<Longrightarrow> filter_matches url_host lower f c (set tags)"
  by (auto simp: filter_from_example_def filter_matches_def split: if_splits)

lemma filter_never_sensitive: "filter_matches url_host lower f c tags \<Longrightarrow> \<not> cm_sensitive (clip_meta c)"
  by (simp add: filter_matches_def)

section \<open>A preview shows nothing of a sensitive clip\<close>

definition same_public :: "clip \<Rightarrow> clip \<Rightarrow> bool" where
  "same_public c d \<longleftrightarrow> clip_id c = clip_id d \<and> clip_meta c = clip_meta d \<and> (cm_sensitive (clip_meta c) \<or> c = d)"

lemma aggregate_clip_public: "same_public c d \<Longrightarrow> aggregate_clip limit c a = aggregate_clip limit d a"
  by (auto simp: same_public_def aggregate_clip_def Let_def)

lemma clips_by_id_Cons: "clips_by_id (c # cs) cid = (case clips_by_id cs cid of Some d \<Rightarrow> Some d | None \<Rightarrow> if clip_id c = cid then Some c else None)"
  by (auto simp: clips_by_id_def map_add_def split: option.split)

lemma clips_by_id_public:
  "list_all2 same_public cs ds \<Longrightarrow> rel_option same_public (clips_by_id cs cid) (clips_by_id ds cid)"
proof (induction cs ds rule: list_all2_induct)
  case Nil then show ?case by (simp add: clips_by_id_def)
next
  case (Cons c cs d ds)
  then show ?case unfolding clips_by_id_Cons
    by (auto simp: same_public_def split: option.split)
qed

lemma utf8_prefix_le: "length (utf8_prefix v n) \<le> n"
  using floor_boundary_spec(1) [of v "min n (length v)"] by (simp add: utf8_prefix_def)

lemma preview_add_bounded: "length (ag_merged_preview a) \<le> limit \<Longrightarrow> length (ag_merged_preview (preview_add limit body a)) \<le> limit"
  using utf8_prefix_le [of body "limit - length (ag_merged_preview a) - length (if ag_merged_preview a = [] then [] else aggregate_separator)"]
  by (auto simp: preview_add_def Let_def split: if_splits)

lemma aggregate_clip_bounded: "length (ag_merged_preview a) \<le> limit \<Longrightarrow> length (ag_merged_preview (aggregate_clip limit c a)) \<le> limit"
  by (auto simp: aggregate_clip_def Let_def intro!: preview_add_bounded split: option.split)

text \<open>
  The preview of a selection is within the requested bytes and 64 KiB, and shows nothing of a sensitive clip: two
  histories that differ only in the contents of sensitive clips have the same aggregate, text, counts and truncation.
\<close>

lemma preview_hides_sensitive_clips:
  assumes "list_all2 same_public cs ds"
  shows "aggregate_build selected cs n = aggregate_build selected ds n \<and>
    length (ag_merged_preview (aggregate_build selected cs n)) \<le> min n MAX_AGGREGATE_PREVIEW_BYTES"
proof -
  let ?limit = "min n MAX_AGGREGATE_PREVIEW_BYTES"
  let ?step = "\<lambda>cs cid a. case clips_by_id cs cid of None \<Rightarrow> a | Some c \<Rightarrow> aggregate_clip ?limit c a"
  have "?step cs cid a = ?step ds cid a" for cid a
    using clips_by_id_public [OF assms, of cid] aggregate_clip_public by (auto split: option.split elim: option.rel_cases)
  then have "?step cs = ?step ds" by blast
  then have same: "aggregate_build selected cs n = aggregate_build selected ds n" by (simp add: aggregate_build_def)
  have "length (ag_merged_preview (fold (?step cs) xs a)) \<le> ?limit" if "length (ag_merged_preview a) \<le> ?limit" for xs a
    using that
  proof (induction xs arbitrary: a)
    case (Cons x xs)
    have "length (ag_merged_preview (?step cs x a)) \<le> ?limit"
      using Cons.prems by (cases "clips_by_id cs x") (simp_all add: aggregate_clip_bounded del: min.bounded_iff)
    then show ?case using Cons.IH by simp
  qed simp
  then have "length (ag_merged_preview (aggregate_build selected cs n)) \<le> ?limit"
    by (simp add: aggregate_build_def Let_def del: min.bounded_iff)
  with same show ?thesis by blast
qed

definition sample_secret_clip :: "string \<Rightarrow> clip" where
  "sample_secret_clip body = \<lparr>clip_id = 7, clip_flavors = [flavor_inline ''text/plain'' body], clip_content_hash = [],
     clip_meta = (clip_meta_now 0 TextKind 2 None)\<lparr>cm_sensitive := True\<rparr>, clip_pinned = False, clip_favorite = False\<rparr>"

lemma preview_hides_sensitive_clips_witness:
  "sample_secret_clip ''ab'' \<noteq> sample_secret_clip ''xy''
   \<and> aggregate_build [7] [sample_secret_clip ''ab''] 10 = aggregate_build [7] [sample_secret_clip ''xy''] 10"
proof -
  have "list_all2 same_public [sample_secret_clip ''ab''] [sample_secret_clip ''xy'']"
    by (simp add: same_public_def sample_secret_clip_def)
  from preview_hides_sensitive_clips [OF this, of "[7]" 10] show ?thesis
    by (simp add: sample_secret_clip_def flavor_inline_def)
qed

end
