(* ===== verification/Workflow_Timeline.thy ===== *)
theory Workflow_Timeline
  imports Clip "HOL-Library.Multiset" "HOL-Library.Product_Lexorder"
begin

text \<open>
  Work sessions and timeline buckets, \<open>crates/vbuff-core/src/workflow/timeline.rs\<close>. A time in milliseconds is an integer
  within \<open>i64\<close>; the product in \<open>fixed_buckets\<close> leaves that range only within a day of its lower end, which is not modelled.
\<close>

definition MAX_TIMELINE_CLIPS :: nat where "MAX_TIMELINE_CLIPS = 50000"
definition HOUR_MS :: int where "HOUR_MS = 60 * 60 * 1000"
definition DAY_MS :: int where "DAY_MS = 24 * HOUR_MS"

datatype timeline_error = TooManyClips | InvalidGap

record session_clip =
  sl_id :: clip_id
  sl_captured_at_ms :: int
  sl_app_id :: "string option"
  sl_project :: "string option"

record work_session =
  ws_started_at_ms :: int
  ws_ended_at_ms :: int
  ws_app_id :: "string option"
  ws_project :: "string option"
  ws_clip_ids :: "clip_id list"

datatype timeline_granularity = HourBuckets | DayBuckets | SessionBuckets int

record timeline_bucket =
  tb_started_at_ms :: int
  tb_ended_at_ms :: int
  tb_first_index :: nat
  tb_clip_count :: nat

definition bucket_contains :: "timeline_bucket \<Rightarrow> int \<Rightarrow> bool" where
  "bucket_contains b t \<longleftrightarrow> tb_started_at_ms b \<le> t \<and> t \<le> tb_ended_at_ms b"

definition i64_clamp :: "int \<Rightarrow> int" where "i64_clamp n = max (- (2 ^ 63)) (min (2 ^ 63 - 1) n)"

definition validate_timeline :: "session_clip list \<Rightarrow> int \<Rightarrow> timeline_error + unit" where
  "validate_timeline clips max_gap = (if length clips > MAX_TIMELINE_CLIPS then Inl TooManyClips
     else if max_gap \<le> 0 then Inl InvalidGap else Inr ())"

definition ordered_clips :: "session_clip list \<Rightarrow> session_clip list" where
  "ordered_clips clips = sort_key (\<lambda>c. (sl_captured_at_ms c, sl_id c)) clips"

definition joins_session :: "int \<Rightarrow> session_clip \<Rightarrow> work_session \<Rightarrow> bool" where
  "joins_session max_gap c s \<longleftrightarrow> i64_clamp (sl_captured_at_ms c - ws_ended_at_ms s) \<le> max_gap \<and>
     sl_app_id c = ws_app_id s \<and> sl_project c = ws_project s"

definition session_add :: "int \<Rightarrow> work_session list \<Rightarrow> session_clip \<Rightarrow> work_session list" where
  "session_add max_gap ss c =
     (if ss \<noteq> [] \<and> joins_session max_gap c (last ss)
      then butlast ss @ [(last ss)\<lparr>ws_ended_at_ms := sl_captured_at_ms c, ws_clip_ids := ws_clip_ids (last ss) @ [sl_id c]\<rparr>]
      else ss @ [\<lparr>ws_started_at_ms = sl_captured_at_ms c, ws_ended_at_ms = sl_captured_at_ms c, ws_app_id = sl_app_id c,
        ws_project = sl_project c, ws_clip_ids = [sl_id c]\<rparr>])"

definition group_work_sessions :: "session_clip list \<Rightarrow> int \<Rightarrow> timeline_error + work_session list" where
  "group_work_sessions clips max_gap = try_then (validate_timeline clips max_gap) (\<lambda>_.
     Inr (foldl (session_add max_gap) [] (ordered_clips clips)))"

definition fixed_add :: "int \<Rightarrow> nat \<times> timeline_bucket list \<Rightarrow> session_clip \<Rightarrow> nat \<times> timeline_bucket list" where
  "fixed_add width st c = (case st of (index, bs) \<Rightarrow> let start = sl_captured_at_ms c div width * width in
     (Suc index, if bs \<noteq> [] \<and> tb_started_at_ms (last bs) = start
        then butlast bs @ [(last bs)\<lparr>tb_clip_count := tb_clip_count (last bs) + 1\<rparr>]
        else bs @ [\<lparr>tb_started_at_ms = start, tb_ended_at_ms = i64_clamp (start + (width - 1)), tb_first_index = index, tb_clip_count = 1\<rparr>]))"

definition fixed_buckets :: "session_clip list \<Rightarrow> int \<Rightarrow> timeline_bucket list" where
  "fixed_buckets clips width = snd (foldl (fixed_add width) (0, []) clips)"

definition joins_prior :: "int \<Rightarrow> session_clip \<Rightarrow> session_clip \<Rightarrow> bool" where
  "joins_prior max_gap c p \<longleftrightarrow> i64_clamp (sl_captured_at_ms c - sl_captured_at_ms p) \<le> max_gap \<and>
     sl_app_id c = sl_app_id p \<and> sl_project c = sl_project p"

definition bucket_add ::
  "int \<Rightarrow> nat \<times> session_clip option \<times> timeline_bucket list \<Rightarrow> session_clip \<Rightarrow> nat \<times> session_clip option \<times> timeline_bucket list" where
  "bucket_add max_gap st c = (case st of (index, prior, bs) \<Rightarrow>
     (Suc index, Some c, if (case prior of None \<Rightarrow> False | Some p \<Rightarrow> joins_prior max_gap c p)
        then butlast bs @ [(last bs)\<lparr>tb_ended_at_ms := sl_captured_at_ms c, tb_clip_count := tb_clip_count (last bs) + 1\<rparr>]
        else bs @ [\<lparr>tb_started_at_ms = sl_captured_at_ms c, tb_ended_at_ms = sl_captured_at_ms c, tb_first_index = index, tb_clip_count = 1\<rparr>]))"

definition timeline_buckets :: "session_clip list \<Rightarrow> timeline_granularity \<Rightarrow> timeline_error + timeline_bucket list" where
  "timeline_buckets clips granularity =
     (let gap = (case granularity of SessionBuckets max_gap \<Rightarrow> max_gap | _ \<Rightarrow> 1) in
      try_then (validate_timeline clips gap) (\<lambda>_. let ordered = ordered_clips clips in
        if ordered = [] then Inr []
        else case granularity of HourBuckets \<Rightarrow> Inr (fixed_buckets ordered HOUR_MS) | DayBuckets \<Rightarrow> Inr (fixed_buckets ordered DAY_MS)
          | SessionBuckets max_gap \<Rightarrow> Inr (snd (snd (foldl (bucket_add max_gap) (0, None, []) ordered)))))"

section \<open>Sessions and session buckets are the same grouping\<close>

definition session_span :: "work_session \<Rightarrow> int \<times> int \<times> nat" where
  "session_span s = (ws_started_at_ms s, ws_ended_at_ms s, length (ws_clip_ids s))"

definition bucket_span :: "timeline_bucket \<Rightarrow> int \<times> int \<times> nat" where
  "bucket_span b = (tb_started_at_ms b, tb_ended_at_ms b, tb_clip_count b)"

text \<open>The two loops in step: same spans, and the last clip is the one the last session ends with.\<close>

definition session_in_step :: "work_session list \<Rightarrow> nat \<times> session_clip option \<times> timeline_bucket list \<Rightarrow> bool" where
  "session_in_step ss st \<longleftrightarrow> (case st of (index, prior, bs) \<Rightarrow>
     map session_span ss = map bucket_span bs \<and> index = length (concat (map ws_clip_ids ss)) \<and>
     map tb_first_index bs = map (\<lambda>i. length (concat (map ws_clip_ids (take i ss)))) [0..<length ss] \<and>
     (case prior of None \<Rightarrow> ss = [] | Some p \<Rightarrow> ss \<noteq> [] \<and> ws_ended_at_ms (last ss) = sl_captured_at_ms p \<and>
        ws_app_id (last ss) = sl_app_id p \<and> ws_project (last ss) = sl_project p))"

lemma in_step_add:
  assumes "session_in_step ss st"
  shows "session_in_step (session_add max_gap ss c) (bucket_add max_gap st c)"
proof -
  obtain index prior bs where st: "st = (index, prior, bs)" by (cases st)
  from assms have spans: "map session_span ss = map bucket_span bs" and index: "index = length (concat (map ws_clip_ids ss))"
    and firsts: "map tb_first_index bs = map (\<lambda>i. length (concat (map ws_clip_ids (take i ss)))) [0..<length ss]"
    and last: "case prior of None \<Rightarrow> ss = [] | Some p \<Rightarrow> ss \<noteq> [] \<and> ws_ended_at_ms (last ss) = sl_captured_at_ms p \<and>
        ws_app_id (last ss) = sl_app_id p \<and> ws_project (last ss) = sl_project p"
    by (simp_all add: session_in_step_def st)
  have same: "(case prior of None \<Rightarrow> False | Some p \<Rightarrow> joins_prior max_gap c p) \<longleftrightarrow> ss \<noteq> [] \<and> joins_session max_gap c (last ss)"
    using last by (auto simp: joins_prior_def joins_session_def split: option.splits)
  show ?thesis
  proof (cases "ss \<noteq> [] \<and> joins_session max_gap c (last ss)")
    case True
    obtain ss0 s where ss: "ss = ss0 @ [s]" using True by (cases ss rule: rev_cases) auto
    have "bs \<noteq> []" using spans ss by auto
    then obtain bs0 b where bs: "bs = bs0 @ [b]" by (cases bs rule: rev_cases) auto
    have len: "length bs0 = length ss0" using arg_cong [OF spans, of length] by (simp add: ss bs)
    have parts: "map session_span ss0 = map bucket_span bs0" "session_span s = bucket_span b"
      using spans by (simp_all add: ss bs)
    have f0: "map tb_first_index bs0 = map (\<lambda>i. length (concat (map ws_clip_ids (take i ss0)))) [0..<length ss0]"
      "tb_first_index b = length (concat (map ws_clip_ids ss0))"
      using firsts by (simp_all add: ss bs len)
    with True same parts index show ?thesis
      by (simp add: session_in_step_def st session_add_def bucket_add_def ss bs session_span_def bucket_span_def) (simp add: joins_session_def)
  next
    case False
    have len: "length bs = length ss" using arg_cong [OF spans, of length] by simp
    have adds: "session_add max_gap ss c = ss @ [\<lparr>ws_started_at_ms = sl_captured_at_ms c, ws_ended_at_ms = sl_captured_at_ms c,
        ws_app_id = sl_app_id c, ws_project = sl_project c, ws_clip_ids = [sl_id c]\<rparr>]"
      "bucket_add max_gap st c = (Suc index, Some c, bs @ [\<lparr>tb_started_at_ms = sl_captured_at_ms c, tb_ended_at_ms = sl_captured_at_ms c,
        tb_first_index = index, tb_clip_count = 1\<rparr>])"
      unfolding session_add_def bucket_add_def st prod.case if_not_P [OF False] if_not_P [OF False [folded same]] by simp_all
    show ?thesis
      unfolding adds session_in_step_def using spans index firsts by (simp add: session_span_def bucket_span_def)
  qed
qed

lemma in_step_foldl: "session_in_step ss st \<Longrightarrow> session_in_step (foldl (session_add g) ss cs) (foldl (bucket_add g) st cs)"
  by (induction cs arbitrary: ss st) (simp_all add: in_step_add)

lemma session_add_ids: "concat (map ws_clip_ids (session_add g ss c)) = concat (map ws_clip_ids ss) @ [sl_id c]"
proof (cases ss rule: rev_cases)
  case (snoc ss0 s)
  then show ?thesis by (simp add: session_add_def)
qed (simp add: session_add_def)

lemma sessions_keep_clips: "concat (map ws_clip_ids (foldl (session_add g) ss cs)) = concat (map ws_clip_ids ss) @ map sl_id cs"
  by (induction cs arbitrary: ss) (simp_all add: session_add_ids)

text \<open>
  The two groupings of a history into work sessions are one: the session buckets of the timeline have the spans and
  sizes of the work sessions, each bucket starts where the clips before it end, and the sessions together hold every clip
  exactly in time order, so a jump on the timeline lands on the session it shows.
\<close>

lemma timeline_matches_sessions:
  assumes "group_work_sessions clips max_gap = Inr ss" and "timeline_buckets clips (SessionBuckets max_gap) = Inr bs"
  shows "map (\<lambda>b. (tb_started_at_ms b, tb_ended_at_ms b, tb_clip_count b)) bs =
      map (\<lambda>s. (ws_started_at_ms s, ws_ended_at_ms s, length (ws_clip_ids s))) ss \<and>
    map tb_first_index bs = map (\<lambda>i. length (concat (map ws_clip_ids (take i ss)))) [0..<length ss] \<and>
    concat (map ws_clip_ids ss) = map sl_id (ordered_clips clips) \<and> mset (ordered_clips clips) = mset clips"
proof -
  have ss: "ss = foldl (session_add max_gap) [] (ordered_clips clips)"
    using assms(1) by (auto simp: group_work_sessions_def try_then_eq_Inr)
  have bs: "bs = snd (snd (foldl (bucket_add max_gap) (0, None, []) (ordered_clips clips)))"
    using assms(2) by (auto simp: timeline_buckets_def try_then_eq_Inr Let_def split: if_splits)
  have "session_in_step ss (foldl (bucket_add max_gap) (0, None, []) (ordered_clips clips))"
    unfolding ss by (rule in_step_foldl) (simp add: session_in_step_def)
  then have "map session_span ss = map bucket_span bs \<and>
      map tb_first_index bs = map (\<lambda>i. length (concat (map ws_clip_ids (take i ss)))) [0..<length ss]"
    unfolding bs session_in_step_def by (auto split: prod.splits)
  moreover have "concat (map ws_clip_ids ss) = map sl_id (ordered_clips clips)"
    unfolding ss sessions_keep_clips by simp
  ultimately show ?thesis by (simp add: session_span_def [abs_def] bucket_span_def [abs_def] ordered_clips_def)
qed

definition sample_clip_at :: "int \<Rightarrow> session_clip" where
  "sample_clip_at t = \<lparr>sl_id = of_int t, sl_captured_at_ms = t, sl_app_id = None, sl_project = None\<rparr>"

lemma timeline_matches_sessions_witness:
  "\<exists>ss. group_work_sessions [sample_clip_at 9, sample_clip_at 1] 5 = Inr ss \<and> concat (map ws_clip_ids ss) = [1, 9]"
proof -
  let ?clips = "[sample_clip_at 9, sample_clip_at 1]"
  obtain ss where ss: "group_work_sessions ?clips 5 = Inr ss"
    by (simp add: group_work_sessions_def validate_timeline_def MAX_TIMELINE_CLIPS_def)
  have "ordered_clips ?clips \<noteq> []" by (simp add: ordered_clips_def)
  then obtain bs where bs: "timeline_buckets ?clips (SessionBuckets 5) = Inr bs"
    by (simp add: timeline_buckets_def validate_timeline_def MAX_TIMELINE_CLIPS_def Let_def)
  have "map sl_id (ordered_clips ?clips) = [1, 9]" by (simp add: ordered_clips_def sample_clip_at_def less_eq_prod_def)
  with timeline_matches_sessions [OF ss bs] ss show ?thesis by auto
qed

end
