(* ===== verification/Spec2Isabelle.thy ===== *)
theory Spec2Isabelle
  imports Build_Attestation Burn Capability Cas_Store Cf_Html Compose Crdt Custody
    Device_Policy Editor_Text Ipc_Access Ipc_Integration Ipc_Protocol Membership Merkle Paste
    Pipeline Platform_Lifecycle Plugin_Bundle Plugin_Migration Plugin_Recipes Privacy_Ledger Query_Facts Recall_Graph
    Recall_Search Snippet_Mirror Store_Lifecycle Store_Tags Sync_Policy Team_Sharing Trust_Consent Trust_Rules
    Update_State Worker_Total Workflow_Boards Workflow_Compare Workflow_Everyday Workflow_Forms Workflow_Selection Workflow_Timeline
begin

text \<open>
  A verification library for vbuff, a clipboard manager written in Rust.

  \<^bold>\<open>The program.\<close> A worker thread polls the operating system's clipboard. Every copy passes a gate that
  may refuse it, strip it, keep it in memory only or give it a lifetime; what is granted is hashed, reduced to the
  flavors worth keeping and inserted through the history facade into a database. A paste coordinator writes a stored
  clip back to the clipboard and injects the keystroke. Devices replicate histories with logical clocks, replicated
  sets, Merkle reconciliation and signed hash chains; local clients and web hooks act through signed, expiring,
  single-use tokens and rate limits; plugins run under granted capabilities; the program updates itself from signed
  manifests.

  \<^bold>\<open>How the theories follow the code.\<close> One group of definitions per component, in the order of the
  source, under the source's names: a struct is a record with a prefix of its own per record, an enum a datatype, a
  method a function from the old state and its arguments to the new state and the answer. An early return is a branch,
  \<open>?\<close> is \<open>try_then\<close>, an error is the left of a sum, a panic is \<open>None\<close>. Integers the
  code computes with are words; lengths and counts (\<open>usize\<close>) are natural numbers; signed times that are only
  compared are integers. \<open>BTreeMap\<close> is an ordered association list, \<open>BTreeSet\<close> a set, or an
  ordered list where the order is observed. Strings are lists of UTF-8 bytes. What is not under \<open>src/\<close>
  (BLAKE3, HMAC, Ed25519, base64, the JSON and TOML codecs, URL and regular expression parsers, Unicode case mapping,
  the database, the clipboard, clocks and randomness) is an argument of the definitions that use it; what a property
  needs of it is a hypothesis of that property, and its witness instantiates it.

  \<^bold>\<open>Shared by all.\<close>
  \<^item> \<open>Prelude\<close>: results, checked and saturating words, time, strings, ordered maps, and the locales
    \<open>machine\<close>, \<open>ranked_machine\<close> and \<open>merge_semilattice\<close> that state machines, watermarks and
    replicas instantiate. \<open>Text_Format\<close>: numbers, words, lines and
    hexadecimal text. \<open>Validation\<close> (\<open>vbuff-types/src/validation.rs\<close>, \<open>mac.rs\<close> and the errors of the sync
    crate), \<open>Replay_Guard\<close> (\<open>replay.rs\<close>, with the locales \<open>refusal\<close> and
    \<open>one_shot\<close>: what was accepted once is never accepted again), \<open>Clip_Types\<close>
    and \<open>Clip\<close> (\<open>vbuff-types/src/lib.rs\<close>).

  \<^bold>\<open>Capture and paste.\<close>
  \<^item> \<open>Secret\<close> (\<open>vbuff-core/src/secret.rs\<close>), \<open>Capture_Policy\<close> (the gate,
    \<open>capture/policy.rs\<close>), \<open>Capture_Ledger\<close> (\<open>ledger.rs\<close>), \<open>Capture_Timing\<close>
    (\<open>coalesce.rs\<close>, \<open>scheduler.rs\<close>), \<open>Flavor_Integrity\<close> (\<open>integrity.rs\<close>),
    \<open>Content_Hash\<close>, \<open>Reliability\<close>, \<open>Classify\<close>: the parts of the capture path, each with its
    invariants (bounded rings, exact counters, an adaptive interval within its bounds) and its contract (what a grant
    guarantees, pruning loses nothing, the hash identifies the bytes).
  \<^item> \<open>Config\<close> (\<open>src/config.rs\<close>): settings, validation, import and export.
  \<^item> \<open>Capture_Worker\<close> (\<open>src/capture.rs\<close>) composes them: one iteration of the loop is a
    composition of stages that either go on, end the iteration, exit or panic. \<open>Worker_Safety\<close>,
    \<open>Worker_Retry\<close> and \<open>Worker_Total\<close> prove what an iteration stores and records, that a copy whose
    insertion failed is never stored, and that under a valid configuration no sequence of iterations panics; the last
    runs the worker on a concrete copy.
  \<^item> \<open>History\<close> (\<open>src/history.rs\<close>), \<open>Paste_Guard\<close> and \<open>Paste\<close>
    (\<open>src/paste.rs\<close>): memory-only clips never reach the database, undo restores the original, and a keystroke is
    injected at most once per write, after its checks.

  \<^bold>\<open>Devices.\<close>
  \<^item> \<open>Hybrid_Clock\<close>, \<open>Crdt\<close> (\<open>crdt.rs\<close>, \<open>conflict.rs\<close>),
    \<open>Merkle\<close>, \<open>Signed_Chain\<close> (\<open>chain.rs\<close>, with the locale \<open>chain_payload\<close>),
    \<open>Sync_Ledger\<close>, \<open>Membership\<close>, \<open>Burn\<close>, \<open>Capability\<close>: convergence of replicas,
    exact reconciliation, heads that commit to histories, single-writer membership, one-time secrets.
  \<^item> \<open>Sync_Container\<close> (\<open>wire.rs\<close>, \<open>vault_export.rs\<close>, \<open>crypto.rs\<close>, \<open>bootstrap.rs\<close>, \<open>collection_vault.rs\<close>): padding to
    buckets and the portable vault round-trip; rewrapping keys keeps them; sealed envelopes and snapshots open again.
  \<^item> \<open>Sync_Policy\<close> (\<open>policy.rs\<close>, \<open>artifact.rs\<close>): the policy language is read as written, and only what it allows is sealed.
  \<^item> \<open>Custody\<close> (\<open>provenance.rs\<close>): the custody chain, the second interpretation of the signed chain.
  \<^item> \<open>Team_Space\<close>, \<open>Team_Sharing\<close> (\<open>team/\<close>): approvals by someone else than the author, a changelog without gaps, imports
    that report every candidate, receipts, grants and deny lists.
  \<^item> \<open>Device_Policy\<close> (\<open>device_experience/\<close>): the outbox settles within eight attempts, and the rehearsal
    counts what transfers will do; replay, retention, nearby targets, proposals, travel mode and QR tokens.
  \<^bold>\<open>Local clients and plugins.\<close>
  \<^item> \<open>Callback\<close>, \<open>Webhook\<close>: tokens and events accepted at most once.
  \<^item> \<open>Rate_Limit\<close> (\<open>vbuff-ipc/src/operations/rate_limit.rs\<close>): the tables of the limiter count
    what a log of admitted requests would count.
  \<^item> \<open>Plugin_Error\<close>, \<open>Pipeline\<close>, \<open>Plugin_Manifest\<close> (\<open>vbuff-plugin/src/lib.rs\<close>, \<open>pipeline.rs\<close>,
    \<open>manifest.rs\<close>): typed pipelines of transforms, and grants that name the revision of a manifest.
  \<^item> \<open>Plugin_Network\<close>, \<open>Plugin_Governance\<close> (\<open>governance/\<close>): fetches confined to the granted sandbox, a supervisor
    that never restarts a failed plugin, test verdicts, marketplace metadata, signed bundles of actions.
  \<^item> \<open>Plugin_Bundle\<close> (\<open>bundle.rs\<close>, \<open>offline.rs\<close>, \<open>protocol.rs\<close>): the bytes of a bundle determine it, the
    lockfile pins it, frames delimit themselves.
  \<^item> \<open>Plugin_Migration\<close> (\<open>adapter.rs\<close>, \<open>migration.rs\<close>) and \<open>Plugin_Recipes\<close> (\<open>recipes.rs\<close>,
    \<open>recognizer.rs\<close>, \<open>snippet_pack.rs\<close>): limits around adapters, revisions reported once, checked actions and packs.
  \<^item> \<open>Ipc_Protocol\<close> (\<open>vbuff-ipc/src/handshake.rs\<close>, \<open>batch.rs\<close>, \<open>event.rs\<close>, \<open>dry_run.rs\<close>, \<open>operations/\<close>):
    granted capabilities bound what a client sees, and paging through the stream delivers every event.
  \<^item> \<open>Ipc_Access\<close> (\<open>integration/access.rs\<close>, \<open>api_token.rs\<close>): leases and tokens open what was consented to.
  \<^item> \<open>Snippet_Mirror\<close> (\<open>integration/automation/snippets.rs\<close>): the planner, the manifest and the settled cycle.
  \<^item> \<open>Editor_Text\<close> (\<open>integration/editor.rs\<close>): fences that cannot be closed by the text, kept indentation.
  \<^item> \<open>Ipc_Integration\<close> (\<open>query.rs\<close>, \<open>terminal.rs\<close>, \<open>browser.rs\<close>, \<open>automation.rs\<close>, \<open>share.rs\<close>): ranking,
    terminal and browser reports, drafts that are settled once.
  \<^bold>\<open>Updates.\<close> \<open>Update_Verifier\<close>, \<open>Update_State\<close> (\<open>vbuff-update/src\<close>): only
  authentic, newer, compatible releases are accepted, across restarts and failed writes.
  \<^bold>\<open>Workflows.\<close> \<open>Links\<close> (\<open>vbuff-core/src/workflow/links.rs\<close>): cleaned links; \<open>Workflow_Boards\<close>
  (\<open>boards.rs\<close>): pin boards, the context router, the consume queue and the collector, whose counted bytes are the length
  of its output; \<open>Workflow_Forms\<close> (\<open>snippets.rs\<close>): forms with conditional and computed fields, whose accepted
  definitions always evaluate; \<open>Workflow_Timeline\<close> (\<open>timeline.rs\<close>): work sessions and timeline buckets, which agree;
  \<open>Workflow_Everyday\<close> (\<open>everyday.rs\<close>): suggestions made once, copy bursts, expiry labels, maintenance lists; \<open>Workflow_Selection\<close>
  (\<open>selection.rs\<close>): range selection, and aggregate previews that depend on nothing inside a sensitive clip;
  \<open>Workflow_Compare\<close> (\<open>compare.rs\<close>): comparisons that lose nothing of either text, and the linked history of transforms.
  \<^bold>\<open>Composition, privacy and trust.\<close> \<open>Compose\<close> (\<open>vbuff-core/src/compose.rs\<close>): the paste stack, form-fill plans
  and merges, whose size check is exact; \<open>Privacy_Ledger\<close> (\<open>privacy.rs\<close>): the hash chain of capture decisions;
  \<open>Trust_Rules\<close> (\<open>trust/rules.rs\<close>, \<open>trust/posture.rs\<close>): the rule simulator, which no rule can make capture a secret,
  the one-shot paste guard and the privacy score; \<open>Trust_Consent\<close> (\<open>trust/consent.rs\<close>, \<open>trust/secrets.rs\<close>): remembered
  choices, unlock timeouts and countdowns, and detector updates whose signature binds every field.
  \<^bold>\<open>Recall.\<close> \<open>Query_Grammar\<close>, \<open>Query_Facts\<close> (\<open>recall/grammar.rs\<close>): parsed queries are well typed and
  satisfiable in time, the fingerprint identifies a query, SQL never contains user text; \<open>Recall_Query\<close>
  (\<open>recall/query.rs\<close>): the natural query; \<open>Recall_Memory\<close> (\<open>recall/memory.rs\<close>): macros, aliases, affinity, a query
  history that never holds a secret, tags and pins; \<open>Recall_Graph\<close> (\<open>recall/graph.rs\<close>): related clips by breadth-first
  search, at their true distances; \<open>Recall_Search\<close> (\<open>recall/search.rs\<close>, \<open>layout.rs\<close>, \<open>source.rs\<close>): ranked search,
  whose typo matching is edit distance at most one and which never reads sensitive contents.
  \<^bold>\<open>Storage primitives.\<close> \<open>Cas_Store\<close> (\<open>vbuff-store/src/cas.rs\<close>): spilled bodies come back through
  the garbage collector; \<open>Store_Tags\<close> (\<open>tags.rs\<close>, \<open>ttl.rs\<close>): tag edits as transactions over two tables, with their
  limits and the rule that only normal clips are tagged; \<open>Store_Lifecycle\<close> (\<open>lifecycle.rs\<close>): retention rules, normalized
  text and the encrypted grace bin.
  \<^bold>\<open>Platform.\<close> \<open>Cf_Html\<close> (\<open>vbuff-platform/src/cf_html.rs\<close>): the CF_HTML parser, whose panics are values that never
  occur, and the round trip with a writer of the format; \<open>Platform_Lifecycle\<close> (\<open>lifecycle.rs\<close>): automatic pauses,
  session events, reconnecting. \<open>Build_Attestation\<close> (\<open>vbuff-update/src/attestation.rs\<close>): attestations and checksums.
  \<^bold>\<open>Bounds.\<close> No definition takes fuel: every loop of the code recurses on its data, or with a measure.
  Sums of durations and instants are limited as in the standard library (\<open>duration_max\<close>,
  \<open>instant_max\<close>), additions to a date as in \<open>chrono\<close> (\<open>utc_max\<close>); the one theorem about the
  capture loop that needs room states it (a configuration that validates, fewer than 2^32 iterations, six seconds before
  the end of the monotonic clock and a year before the end of the calendar).

  \<^bold>\<open>Not modelled.\<close> The SQL of the two storage backends and their migrations, the widgets of the
  graphical interface, the calls into the operating system (clipboard, hotkeys, windows, tray, sockets), floating point
  scores and latency percentiles, \<open>Debug\<close> output, logging and threads: they are input and output or code of
  libraries. The storage is the parameter of the history, the clipboard an input of the worker. The interleaving of
  threads is the order of the operations; the shared state of the program is behind mutexes.
\<close>

end
